(* ===== verification/Prelude.thy ===== *)
theory Prelude
  imports Main "HOL-Library.Word" "HOL-Library.List_Lexorder" "HOL-Library.Char_ord"
    "HOL-Library.Product_Lexorder"
begin

text \<open>
  Shared vocabulary of the development: machine integers and Rust's casts between them,
  SQL-style updates of tables held as lists, and the string operations of Rust's standard
  library on UTF-8 byte strings.

  A Rust \<open>String\<close> or \<open>&str\<close> is its sequence of UTF-8 bytes, so the type \<open>string\<close>
  (a list of 8-bit \<open>char\<close>s) is exact: byte offsets, \<open>len\<close>, slicing and \<open>find\<close> count
  bytes, while \<open>chars\<close> groups a lead byte with its continuation bytes.
\<close>

named_theorems table_simps \<open>equations of the SQL-style table operations\<close>
named_theorems frame_simps \<open>fields an operation leaves alone\<close>
named_theorems step_defs \<open>definitions of the primitive writes, for the proofs that unfold them\<close>

section \<open>Machine integers\<close>

type_synonym u8 = "8 word"
type_synonym u32 = "32 word"
type_synonym u64 = "64 word"

text \<open>Rust's cast \<open>as i64\<close> of an unsigned 64-bit value reinterprets the bits; an SQLite
  INTEGER column holds the result, and \<open>as u64\<close> turns it back.\<close>

definition as_i64 :: "u64 \<Rightarrow> int" where
  "as_i64 w = sint w"

definition as_u64 :: "int \<Rightarrow> u64" where
  "as_u64 i = word_of_int i"

lemma as_u64_as_i64 [simp]: "as_u64 (as_i64 w) = w"
  by (simp add: as_u64_def as_i64_def)

lemma as_i64_small: "unat w < 2 ^ 63 \<Longrightarrow> as_i64 w = int (unat w)"
proof -
  assume "unat w < 2 ^ 63"
  then have "uint w < 2 ^ 63"
    by (metis of_nat_less_iff of_nat_numeral of_nat_power uint_nat)
  moreover have "- (2 ^ 63) \<le> uint w"
    by (rule order_trans [OF _ uint_ge_0]) simp
  ultimately have "signed_take_bit 63 (uint w) = uint w"
    by (intro signed_take_bit_int_eq_self) simp_all
  then show ?thesis by (simp add: as_i64_def sint_uint)
qed

lemma as_u64_nat [simp]: "as_u64 (int n) = word_of_nat n"
  by (simp add: as_u64_def)

lemma unat_ucast_u32 [simp]: "unat (ucast (w :: u32) :: u64) = unat w"
  by transfer (simp add: min_def)

definition i64_max :: int where
  "i64_max = 9223372036854775807"

definition i64_min :: int where
  "i64_min = - 9223372036854775808"

definition u64_max :: nat where
  "u64_max = 18446744073709551615"

section \<open>Tables as lists: SQL selections and updates\<close>

text \<open>A table is the list of its rows in insertion order. \<open>update_where p f\<close> is
  \<open>UPDATE .. SET f WHERE p\<close>, \<open>delete_where p\<close> is \<open>DELETE .. WHERE p\<close>, and \<open>find p\<close> is a
  \<open>SELECT .. WHERE p\<close> that reads one row.\<close>

definition update_where :: "('a \<Rightarrow> bool) \<Rightarrow> ('a \<Rightarrow> 'a) \<Rightarrow> 'a list \<Rightarrow> 'a list" where
  "update_where p f t = map (\<lambda>r. if p r then f r else r) t"

definition delete_where :: "('a \<Rightarrow> bool) \<Rightarrow> 'a list \<Rightarrow> 'a list" where
  "delete_where p t = filter (\<lambda>r. \<not> p r) t"

definition exists_where :: "('a \<Rightarrow> bool) \<Rightarrow> 'a list \<Rightarrow> bool" where
  "exists_where p t = list_ex p t"

lemma exists_where_iff [table_simps]: "exists_where p t \<longleftrightarrow> (\<exists>r \<in> set t. p r)"
  by (simp add: exists_where_def list_ex_iff)

lemma length_update_where [simp]: "length (update_where p f t) = length t"
  by (simp add: update_where_def)

lemma update_where_Nil [simp]: "update_where p f [] = []"
  by (simp add: update_where_def)

lemma update_where_Cons [simp]:
  "update_where p f (r # t) = (if p r then f r else r) # update_where p f t"
  by (simp add: update_where_def)

lemma set_update_where [table_simps]:
  "set (update_where p f t) = (\<lambda>r. if p r then f r else r) ` set t"
  by (simp add: update_where_def)

lemma map_update_where:
  "(\<And>r. p r \<Longrightarrow> k (f r) = k r) \<Longrightarrow> map k (update_where p f t) = map k t"
  by (induction t) auto

lemma find_update_where:
  "(\<And>r. q (if p r then f r else r) = q r) \<Longrightarrow>
   find q (update_where p f t) = map_option (\<lambda>r. if p r then f r else r) (find q t)"
  by (induction t) auto

lemma filter_update_where:
  "(\<And>r. q (if p r then f r else r) = q r) \<Longrightarrow>
   filter q (update_where p f t) = update_where p f (filter q t)"
  by (induction t) auto

lemma update_where_none: "(\<And>r. r \<in> set t \<Longrightarrow> \<not> p r) \<Longrightarrow> update_where p f t = t"
  by (induction t) auto

lemma set_delete_where [table_simps]: "set (delete_where p t) = {r \<in> set t. \<not> p r}"
  by (auto simp: delete_where_def)

lemma delete_where_idem [simp]: "delete_where p (delete_where p t) = delete_where p t"
  by (simp add: delete_where_def)

lemma find_delete_where:
  "(\<And>r. q r \<Longrightarrow> \<not> p r) \<Longrightarrow> find q (delete_where p t) = find q t"
  by (induction t) (auto simp: delete_where_def)

lemma find_SomeD: "find p t = Some r \<Longrightarrow> r \<in> set t \<and> p r"
  by (metis find_Some_iff nth_mem)

lemma find_NoneD: "find p t = None \<Longrightarrow> r \<in> set t \<Longrightarrow> \<not> p r"
  by (simp add: find_None_iff)

lemma find_unique:
  "distinct (map k t) \<Longrightarrow> r \<in> set t \<Longrightarrow> find (\<lambda>x. k x = k r) t = Some r"
  by (induction t) (auto simp: image_iff)

section \<open>Failing computations over a state\<close>

text \<open>\<open>anyhow::Result\<close> is a sum with the message on the left.\<close>

type_synonym 'a result = "string + 'a"

fun is_ok :: "'e + 'a \<Rightarrow> bool" where
  "is_ok (Inl e) = False"
| "is_ok (Inr a) = True"

text \<open>A Rust call that may panic: the panic unwinds through every caller that does not catch it.\<close>

datatype 'a outcome = Panic | Ret 'a

fun bind_outcome :: "'a outcome \<Rightarrow> ('a \<Rightarrow> 'b outcome) \<Rightarrow> 'b outcome" where
  "bind_outcome Panic f = Panic"
| "bind_outcome (Ret a) f = f a"

lemma bind_outcome_Ret: "bind_outcome m f = Ret b \<longleftrightarrow> (\<exists>a. m = Ret a \<and> f a = Ret b)"
  by (cases m) auto

lemma bind_outcome_cong [fundef_cong]:
  "m = m' \<Longrightarrow> (\<And>a. m' = Ret a \<Longrightarrow> f a = g a) \<Longrightarrow> bind_outcome m f = bind_outcome m' g"
  by (cases m') auto

text \<open>\<open>iter().find_map(f)\<close> where \<open>f\<close> may panic.\<close>

fun find_map_outcome :: "('a \<Rightarrow> 'b option outcome) \<Rightarrow> 'a list \<Rightarrow> 'b option outcome" where
  "find_map_outcome f [] = Ret None"
| "find_map_outcome f (x # xs) =
     bind_outcome (f x) (\<lambda>r. case r of Some d \<Rightarrow> Ret (Some d) | None \<Rightarrow> find_map_outcome f xs)"

lemma find_map_outcome_cong [fundef_cong]:
  "xs = ys \<Longrightarrow> (\<And>x. x \<in> set ys \<Longrightarrow> f x = g x) \<Longrightarrow> find_map_outcome f xs = find_map_outcome g ys"
proof -
  have "(\<And>x. x \<in> set ys \<Longrightarrow> f x = g x) \<Longrightarrow> find_map_outcome f ys = find_map_outcome g ys"
    by (induction ys) (auto intro!: bind_outcome_cong split: option.splits)
  then show "xs = ys \<Longrightarrow> (\<And>x. x \<in> set ys \<Longrightarrow> f x = g x) \<Longrightarrow>
      find_map_outcome f xs = find_map_outcome g ys" by blast
qed

lemma find_map_outcome_Some:
  "find_map_outcome f xs = Ret (Some d) \<Longrightarrow> \<exists>x \<in> set xs. f x = Ret (Some d)"
  by (induction xs) (auto simp: bind_outcome_Ret split: option.splits)

definition unwrap_or :: "'a option \<Rightarrow> 'a \<Rightarrow> 'a" where
  "unwrap_or v d = (case v of Some x \<Rightarrow> x | None \<Rightarrow> d)"

lemma unwrap_or_simps [simp]: "unwrap_or None d = d" "unwrap_or (Some x) d = x"
  by (simp_all add: unwrap_or_def)

section \<open>Strings as byte lists\<close>

definition newline :: string where
  "newline = [CHR 0x0A]"

definition starts_with :: "string \<Rightarrow> string \<Rightarrow> bool" where
  "starts_with p s = (take (length p) s = p)"

lemma starts_with_append [simp]: "starts_with p (p @ s)"
  by (simp add: starts_with_def)

lemma starts_with_iff: "starts_with p s \<longleftrightarrow> (\<exists>t. s = p @ t)"
  by (metis append_take_drop_id starts_with_append starts_with_def)

text \<open>\<open>str::find\<close> with a string pattern: the byte offset of the first occurrence.\<close>

fun find_sub :: "string \<Rightarrow> string \<Rightarrow> nat option" where
  "find_sub p [] = (if p = [] then Some 0 else None)"
| "find_sub p (c # s) =
     (if starts_with p (c # s) then Some 0 else map_option Suc (find_sub p s))"

lemma find_sub_Some: "find_sub p s = Some i \<Longrightarrow> i + length p \<le> length s \<and> starts_with p (drop i s)"
proof (induction p s arbitrary: i rule: find_sub.induct)
  case (1 p)
  then show ?case by (auto simp: starts_with_def split: if_splits)
next
  case (2 p c s)
  show ?case
  proof (cases "starts_with p (c # s)")
    case True
    then have "length p \<le> length (c # s)"
      by (metis length_append starts_with_iff le_add1)
    with True 2 show ?thesis by auto
  next
    case False
    with 2 show ?thesis by (auto split: if_splits)
  qed
qed

definition contains_sub :: "string \<Rightarrow> string \<Rightarrow> bool" where
  "contains_sub p s = (find_sub p s \<noteq> None)"

text \<open>\<open>str::find\<close> with a predicate on one byte, and the byte offset of the last match.\<close>

fun find_idx :: "('a \<Rightarrow> bool) \<Rightarrow> 'a list \<Rightarrow> nat option" where
  "find_idx p [] = None"
| "find_idx p (x # xs) = (if p x then Some 0 else map_option Suc (find_idx p xs))"

definition rfind_idx :: "('a \<Rightarrow> bool) \<Rightarrow> 'a list \<Rightarrow> nat option" where
  "rfind_idx p xs = map_option (\<lambda>i. length xs - 1 - i) (find_idx p (rev xs))"

lemma find_idx_Some: "find_idx p xs = Some i \<Longrightarrow> i < length xs \<and> p (xs ! i) \<and> (\<forall>j < i. \<not> p (xs ! j))"
  by (induction xs arbitrary: i) (auto split: if_splits simp: nth_Cons split: nat.splits)

definition is_digit :: "char \<Rightarrow> bool" where
  "is_digit c = (48 \<le> (of_char c :: nat) \<and> (of_char c :: nat) \<le> 57)"

definition digit_val :: "char \<Rightarrow> nat" where
  "digit_val c = of_char c - 48"

definition ascii_lower :: "char \<Rightarrow> char" where
  "ascii_lower c =
     (if 65 \<le> (of_char c :: nat) \<and> (of_char c :: nat) \<le> 90
      then char_of ((of_char c :: nat) + 32) else c)"

text \<open>\<open>str::parse::<u64>\<close>: an optional plus sign, at least one digit, no overflow.\<close>

definition digits_val :: "string \<Rightarrow> nat" where
  "digits_val s = foldl (\<lambda>n c. 10 * n + digit_val c) 0 s"

definition parse_nat :: "string \<Rightarrow> nat option" where
  "parse_nat s =
     (let d = (if starts_with ''+'' s then drop 1 s else s)
      in if d \<noteq> [] \<and> list_all is_digit d then Some (digits_val d) else None)"

definition parse_u64 :: "string \<Rightarrow> u64 option" where
  "parse_u64 s =
     (case parse_nat s of
        Some n \<Rightarrow> if n \<le> u64_max then Some (word_of_nat n) else None
      | None \<Rightarrow> None)"

text \<open>The \<open>Display\<close> form of an unsigned and of a signed integer.\<close>

fun dec_nat :: "nat \<Rightarrow> string" where
  "dec_nat n = (if n < 10 then [char_of (48 + n)] else dec_nat (n div 10) @ [char_of (48 + n mod 10)])"

declare dec_nat.simps [simp del]

definition dec_int :: "int \<Rightarrow> string" where
  "dec_int i = (if i < 0 then ''-'' @ dec_nat (nat (- i)) else dec_nat (nat i))"

text \<open>White space as \<open>str::trim\<close> knows it: the UTF-8 encodings of the characters with the
  Unicode property \<open>White_Space\<close>.\<close>

definition ws_chars :: "string list" where
  "ws_chars =
     [[CHR 0x09], [CHR 0x0A], [CHR 0x0B], [CHR 0x0C], [CHR 0x0D], [CHR 0x20],
      [CHR 0xC2, CHR 0x85], [CHR 0xC2, CHR 0xA0], [CHR 0xE1, CHR 0x9A, CHR 0x80],
      [CHR 0xE2, CHR 0x80, CHR 0x80], [CHR 0xE2, CHR 0x80, CHR 0x81], [CHR 0xE2, CHR 0x80, CHR 0x82],
      [CHR 0xE2, CHR 0x80, CHR 0x83], [CHR 0xE2, CHR 0x80, CHR 0x84], [CHR 0xE2, CHR 0x80, CHR 0x85],
      [CHR 0xE2, CHR 0x80, CHR 0x86], [CHR 0xE2, CHR 0x80, CHR 0x87], [CHR 0xE2, CHR 0x80, CHR 0x88],
      [CHR 0xE2, CHR 0x80, CHR 0x89], [CHR 0xE2, CHR 0x80, CHR 0x8A], [CHR 0xE2, CHR 0x80, CHR 0xA8],
      [CHR 0xE2, CHR 0x80, CHR 0xA9], [CHR 0xE2, CHR 0x80, CHR 0xAF], [CHR 0xE2, CHR 0x81, CHR 0x9F],
      [CHR 0xE3, CHR 0x80, CHR 0x80]]"

definition strip_prefix_of :: "string list \<Rightarrow> string \<Rightarrow> string option" where
  "strip_prefix_of ws s =
     (case find (\<lambda>w. w \<noteq> [] \<and> starts_with w s) ws of
        Some w \<Rightarrow> Some (drop (length w) s) | None \<Rightarrow> None)"

lemma strip_prefix_shorter: "strip_prefix_of ws s = Some t \<Longrightarrow> length t < length s"
  by (auto simp: strip_prefix_of_def starts_with_iff split: option.splits dest!: find_SomeD)

function strip_all :: "string list \<Rightarrow> string \<Rightarrow> string" where
  "strip_all ws s = (case strip_prefix_of ws s of Some t \<Rightarrow> strip_all ws t | None \<Rightarrow> s)"
  by pat_completeness auto
termination
  by (relation "measure (\<lambda>(ws, s). length s)") (auto dest: strip_prefix_shorter)

declare strip_all.simps [simp del]

definition trim_start :: "string \<Rightarrow> string" where
  "trim_start s = strip_all ws_chars s"

definition trim_end :: "string \<Rightarrow> string" where
  "trim_end s = rev (strip_all (map rev ws_chars) (rev s))"

definition trim :: "string \<Rightarrow> string" where
  "trim s = trim_end (trim_start s)"

text \<open>\<open>str::lines\<close>: the pieces between line feeds; a carriage return before a line feed goes
  with it, and an empty rest after the last line feed is no line.\<close>

fun split_on :: "char \<Rightarrow> string \<Rightarrow> string list" where
  "split_on d [] = [[]]"
| "split_on d (c # s) =
     (if c = d then [] # split_on d s
      else case split_on d s of [] \<Rightarrow> [[c]] | w # ws \<Rightarrow> (c # w) # ws)"

definition strip_cr :: "string \<Rightarrow> string" where
  "strip_cr p = (if p \<noteq> [] \<and> last p = CHR 0x0D then butlast p else p)"

definition str_lines :: "string \<Rightarrow> string list" where
  "str_lines s =
     (let ps = split_on (CHR 0x0A) s
      in map strip_cr (butlast ps) @ (if last ps = [] then [] else [last ps]))"

text \<open>Characters of a UTF-8 string: the bytes that are not continuation bytes start one.\<close>

definition is_cont_byte :: "char \<Rightarrow> bool" where
  "is_cont_byte c = (128 \<le> (of_char c :: nat) \<and> (of_char c :: nat) < 192)"

definition char_count :: "string \<Rightarrow> nat" where
  "char_count s = length (filter (\<lambda>c. \<not> is_cont_byte c) s)"

text \<open>\<open>str::is_char_boundary\<close>; slicing elsewhere panics.\<close>

definition is_char_boundary :: "string \<Rightarrow> nat \<Rightarrow> bool" where
  "is_char_boundary s i \<longleftrightarrow>
     i = 0 \<or> i = length s \<or> (i < length s \<and> \<not> is_cont_byte (s ! i))"

definition split_at :: "string \<Rightarrow> nat \<Rightarrow> (string \<times> string) outcome" where
  "split_at s i = (if is_char_boundary s i then Ret (take i s, drop i s) else Panic)"

text \<open>\<open>s.chars().take(n).collect()\<close>.\<close>

fun take_chars :: "nat \<Rightarrow> string \<Rightarrow> string" where
  "take_chars n [] = []"
| "take_chars n (c # s) =
     (if is_cont_byte c then c # take_chars n s
      else case n of 0 \<Rightarrow> [] | Suc m \<Rightarrow> c # take_chars m s)"

lemma take_chars_all: "char_count s \<le> n \<Longrightarrow> take_chars n s = s"
  by (induction n s rule: take_chars.induct)
    (auto simp: char_count_def split: nat.splits if_splits)

text \<open>On a string that starts at a character boundary, the result has at most \<open>n\<close> characters.\<close>

lemma char_count_take_chars: "char_count (take_chars n s) \<le> n"
  by (induction n s rule: take_chars.induct) (auto simp: char_count_def split: nat.splits)

text \<open>Joining with a separator, as \<open>[String]::join\<close>.\<close>

fun str_join :: "string \<Rightarrow> string list \<Rightarrow> string" where
  "str_join sep [] = []"
| "str_join sep [s] = s"
| "str_join sep (s # t # us) = s @ sep @ str_join sep (t # us)"

text \<open>A loop that inserts a value computed from the key into a \<open>BTreeMap\<close>.\<close>

lemma foldl_map_insert:
  "foldl (\<lambda>m p. m(k p \<mapsto> f (k p))) m0 ps x = (if x \<in> k ` set ps then Some (f x) else m0 x)"
  by (induction ps arbitrary: m0) auto

section \<open>Printing and reading back a number\<close>

lemma digit_char [simp]:
  "n < 10 \<Longrightarrow> is_digit (char_of (48 + n))" "n < 10 \<Longrightarrow> digit_val (char_of (48 + n)) = n"
  by (simp_all add: is_digit_def digit_val_def)

lemma digits_val_snoc [simp]: "digits_val (s @ [c]) = 10 * digits_val s + digit_val c"
  by (simp add: digits_val_def)

lemma dec_nat_digits: "list_all is_digit (dec_nat n)"
proof (induction n rule: dec_nat.induct)
  case (1 n)
  then show ?case
    by (cases "n < 10") (simp_all add: dec_nat.simps [of n])
qed

lemma dec_nat_nonempty [simp]: "dec_nat n \<noteq> []"
  by (subst dec_nat.simps) simp

lemma digits_val_dec_nat [simp]: "digits_val (dec_nat n) = n"
proof (induction n rule: dec_nat.induct)
  case (1 n)
  show ?case
  proof (cases "n < 10")
    case True
    then show ?thesis by (subst dec_nat.simps) (simp add: digits_val_def)
  next
    case False
    with 1 show ?thesis by (subst dec_nat.simps) simp
  qed
qed

lemma not_digit_plus: "\<not> is_digit (CHR ''+'')"
  by (simp add: is_digit_def)

lemma dec_nat_no_plus: "\<not> starts_with ''+'' (dec_nat n @ s)"
proof
  assume "starts_with ''+'' (dec_nat n @ s)"
  then have "hd (dec_nat n) = CHR ''+''"
    by (cases "dec_nat n") (auto simp: starts_with_iff)
  moreover have "is_digit (hd (dec_nat n))"
    using dec_nat_digits [of n] by (cases "dec_nat n") auto
  ultimately show False by (simp add: not_digit_plus)
qed

lemma parse_nat_dec [simp]: "parse_nat (dec_nat n) = Some n"
  using dec_nat_digits [of n] dec_nat_no_plus [of n "[]"] by (simp add: parse_nat_def)

lemma parse_u64_dec: "n \<le> u64_max \<Longrightarrow> parse_u64 (dec_nat n) = Some (word_of_nat n)"
  by (simp add: parse_u64_def)

text \<open>A text whose first and last bytes are no white space bytes is its own trimming.\<close>

definition solid_byte :: "char \<Rightarrow> bool" where
  "solid_byte c = (33 \<le> (of_char c :: nat) \<and> (of_char c :: nat) < 127)"

lemma strip_prefix_solid:
  assumes "s \<noteq> [] \<Longrightarrow> solid_byte (hd s)" and "\<And>w. w \<in> set ws \<Longrightarrow> w \<noteq> [] \<Longrightarrow> \<not> solid_byte (hd w)"
  shows "strip_prefix_of ws s = None"
proof (rule ccontr)
  assume "strip_prefix_of ws s \<noteq> None"
  then obtain w where w: "w \<in> set ws" "w \<noteq> []" "starts_with w s"
    by (auto simp: strip_prefix_of_def split: option.splits dest!: find_SomeD)
  then have "hd w = hd s" "s \<noteq> []" by (auto simp: starts_with_iff)
  with assms(1) assms(2) [OF w(1,2)] show False by simp
qed

lemma strip_all_solid:
  assumes "s \<noteq> [] \<Longrightarrow> solid_byte (hd s)" and "\<And>w. w \<in> set ws \<Longrightarrow> w \<noteq> [] \<Longrightarrow> \<not> solid_byte (hd w)"
  shows "strip_all ws s = s"
  using strip_prefix_solid [OF assms] by (simp add: strip_all.simps)

lemma ws_not_solid:
  "list_all (\<lambda>w. w \<noteq> [] \<longrightarrow> \<not> solid_byte (hd w) \<and> \<not> solid_byte (last w)) ws_chars"
  by (simp add: ws_chars_def solid_byte_def)

lemma trim_start_solid: "(s \<noteq> [] \<Longrightarrow> solid_byte (hd s)) \<Longrightarrow> trim_start s = s"
  unfolding trim_start_def using ws_not_solid
  by (intro strip_all_solid) (auto simp: list_all_iff)

lemma trim_end_solid: "(s \<noteq> [] \<Longrightarrow> solid_byte (last s)) \<Longrightarrow> trim_end s = s"
proof -
  assume s: "s \<noteq> [] \<Longrightarrow> solid_byte (last s)"
  have "strip_all (map rev ws_chars) (rev s) = rev s"
    using ws_not_solid s
    by (intro strip_all_solid) (auto simp: list_all_iff hd_rev)
  then show ?thesis by (simp add: trim_end_def)
qed

lemma trim_solid:
  "s \<noteq> [] \<Longrightarrow> solid_byte (hd s) \<Longrightarrow> solid_byte (last s) \<Longrightarrow> trim s = s"
  by (simp add: trim_def trim_start_solid trim_end_solid)

lemma digit_solid: "is_digit c \<Longrightarrow> solid_byte c"
  by (simp add: is_digit_def solid_byte_def)

lemma trim_dec_nat [simp]: "trim (dec_nat n) = dec_nat n"
proof -
  have "is_digit c" if "c \<in> set (dec_nat n)" for c
    using that dec_nat_digits [of n] by (simp add: list_all_iff)
  then show ?thesis by (intro trim_solid) (simp_all add: digit_solid)
qed

end
