(* ===== verification/FreePool.thy ===== *)
theory FreePool
  imports Prelude
begin

text \<open>
  The vendored catalog of free model providers, \<open>crates/single-core/src/free_pool.rs\<close>: the
  data types, the whole table \<open>FREE_PROVIDERS\<close> row by row, the lookup \<open>by_id\<close>, the shape check of
  a compound key, and the reconciliation that \<open>single provider sync-pool\<close> runs against the
  operator's \<open>free-pool.toml\<close>. Durations of the table are whole seconds. Reading and writing the
  TOML file is I/O and is left out; a \<open>BTreeMap\<close> is a partial map.
\<close>

section \<open>Data types\<close>

datatype wire = WireOpenAiCompat | WireGemini | WireCohere | WireCloudflare | WireZhipu
  | WireAiHorde | WireSail | WireModelScope | WirePollinations | WireElectronHub | WireExperiential

datatype auth = Bearer | XApiKey | Compound string | Keyless string | Header string

record limits =
  rpm :: "u32 option"
  rpd :: "u32 option"
  tpm :: "u32 option"
  tpd :: "u64 option"

datatype pool_shape = PoolFree | PoolProject | PoolAccount | PoolCreditPool u32 | PoolDailyTokens u64

record quirks =
  force_single_tool_call :: bool
  no_tools :: bool
  no_stream :: bool
  browser_ua :: bool
  min_max_tokens :: "u32 option"
  validate_url :: "string option"
  validate_cache :: "nat option"
  region_wall :: bool
  real_name_auth :: bool

record free_provider =
  fp_id :: string
  display :: string
  base_url :: string
  wire :: wire
  auth :: auth
  signup_url :: string
  limits :: limits
  pool :: "pool_shape option"
  timeout :: nat
  quirks :: quirks
  free_note :: string
  intelligence_rank :: u8

definition S30 :: nat where "S30 = 30"

definition S60 :: nat where "S60 = 60"

definition S120 :: nat where "S120 = 120"

definition S180 :: nat where "S180 = 180"

definition NO_LIMITS :: limits where
  "NO_LIMITS = \<lparr>rpm = None, rpd = None, tpm = None, tpd = None\<rparr>"

definition NO_QUIRKS :: quirks where
  "NO_QUIRKS =
     \<lparr>force_single_tool_call = False, no_tools = False, no_stream = False, browser_ua = False,
      min_max_tokens = None, validate_url = None, validate_cache = None, region_wall = False,
      real_name_auth = False\<rparr>"

section \<open>The table\<close>

definition provider_google :: free_provider where
  "provider_google =
     \<lparr>fp_id = ''google'', display = ''Google Gemini'',
      base_url = '''', wire = WireGemini, auth = Bearer,
      signup_url = ''https://aistudio.google.com/apikey'',
      limits = \<lparr>rpm = None, rpd = None, tpm = None, tpd = None\<rparr>,
      pool = Some PoolProject, timeout = S60, quirks = NO_QUIRKS,
      free_note = ''per-project free tier pool'',
      intelligence_rank = 5\<rparr>"

definition provider_groq :: free_provider where
  "provider_groq =
     \<lparr>fp_id = ''groq'', display = ''Groq'',
      base_url = ''https://api.groq.com/openai/v1'', wire = WireOpenAiCompat, auth = Bearer,
      signup_url = ''https://console.groq.com'',
      limits = \<lparr>rpm = None, rpd = Some 1000, tpm = Some 8000, tpd = None\<rparr>,
      pool = Some PoolAccount, timeout = S30, quirks = NO_QUIRKS,
      free_note = ''account pool; some models rpd 1000 / tpm 8000'',
      intelligence_rank = 5\<rparr>"

definition provider_cerebras :: free_provider where
  "provider_cerebras =
     \<lparr>fp_id = ''cerebras'', display = ''Cerebras'',
      base_url = ''https://api.cerebras.ai/v1'', wire = WireOpenAiCompat, auth = Bearer,
      signup_url = ''https://cloud.cerebras.ai'',
      limits = NO_LIMITS,
      pool = None, timeout = S30, quirks = NO_QUIRKS,
      free_note = ''free tier, published limits vary by model'',
      intelligence_rank = 5\<rparr>"

definition provider_nvidia :: free_provider where
  "provider_nvidia =
     \<lparr>fp_id = ''nvidia'', display = ''NVIDIA NIM'',
      base_url = ''https://integrate.api.nvidia.com/v1'', wire = WireOpenAiCompat, auth = Bearer,
      signup_url = ''https://build.nvidia.com'',
      limits = \<lparr>rpm = Some 40, rpd = None, tpm = None, tpd = None\<rparr>,
      pool = Some (PoolCreditPool 40), timeout = S180, quirks = NO_QUIRKS\<lparr>force_single_tool_call := True\<rparr>,
      free_note = ''credit pool ~40 rpm account-wide'',
      intelligence_rank = 5\<rparr>"

definition provider_mistral :: free_provider where
  "provider_mistral =
     \<lparr>fp_id = ''mistral'', display = ''Mistral'',
      base_url = ''https://api.mistral.ai/v1'', wire = WireOpenAiCompat, auth = Bearer,
      signup_url = ''https://console.mistral.ai'',
      limits = NO_LIMITS,
      pool = None, timeout = S30, quirks = NO_QUIRKS,
      free_note = ''free tier'',
      intelligence_rank = 5\<rparr>"

definition provider_openrouter :: free_provider where
  "provider_openrouter =
     \<lparr>fp_id = ''openrouter'', display = ''OpenRouter'',
      base_url = ''https://openrouter.ai/api/v1'', wire = WireOpenAiCompat, auth = Bearer,
      signup_url = ''https://openrouter.ai/keys'',
      limits = \<lparr>rpm = None, rpd = Some 1000, tpm = None, tpd = None\<rparr>,
      pool = Some PoolFree, timeout = S30, quirks = NO_QUIRKS,
      free_note = ''`:free` pool 1000/day (50/day if <10 credits)'',
      intelligence_rank = 5\<rparr>"

definition provider_github_models :: free_provider where
  "provider_github_models =
     \<lparr>fp_id = ''github-models'', display = ''GitHub Models'',
      base_url = ''https://models.github.ai/inference'', wire = WireOpenAiCompat, auth = Bearer,
      signup_url = ''https://github.com/marketplace/models'',
      limits = NO_LIMITS,
      pool = None, timeout = S30, quirks = NO_QUIRKS,
      free_note = ''`<publisher>/<model>` ids'',
      intelligence_rank = 5\<rparr>"

definition provider_cohere :: free_provider where
  "provider_cohere =
     \<lparr>fp_id = ''cohere'', display = ''Cohere'',
      base_url = '''', wire = WireCohere, auth = Bearer,
      signup_url = ''https://dashboard.cohere.com'',
      limits = NO_LIMITS,
      pool = None, timeout = S30, quirks = NO_QUIRKS,
      free_note = ''free trial key'',
      intelligence_rank = 5\<rparr>"

definition provider_cloudflare :: free_provider where
  "provider_cloudflare =
     \<lparr>fp_id = ''cloudflare'', display = ''Cloudflare Workers AI'',
      base_url = '''', wire = WireCloudflare, auth = Compound ''token'',
      signup_url = ''https://dash.cloudflare.com'',
      limits = NO_LIMITS,
      pool = None, timeout = S30, quirks = NO_QUIRKS,
      free_note = ''account_id:token compound key'',
      intelligence_rank = 5\<rparr>"

definition provider_zhipu :: free_provider where
  "provider_zhipu =
     \<lparr>fp_id = ''zhipu'', display = ''Zhipu (z.ai)'',
      base_url = '''', wire = WireZhipu, auth = Bearer,
      signup_url = ''https://open.bigmodel.cn'',
      limits = NO_LIMITS,
      pool = None, timeout = S60, quirks = NO_QUIRKS,
      free_note = ''domestic->global host re-probe'',
      intelligence_rank = 5\<rparr>"

definition provider_ollama_cloud :: free_provider where
  "provider_ollama_cloud =
     \<lparr>fp_id = ''ollama-cloud'', display = ''Ollama Cloud'',
      base_url = ''https://ollama.com/v1'', wire = WireOpenAiCompat, auth = Bearer,
      signup_url = ''https://ollama.com'',
      limits = NO_LIMITS,
      pool = None, timeout = S120, quirks = NO_QUIRKS,
      free_note = ''reasoning in message.reasoning'',
      intelligence_rank = 5\<rparr>"

definition provider_kilo :: free_provider where
  "provider_kilo =
     \<lparr>fp_id = ''kilo'', display = ''Kilo'',
      base_url = ''https://api.kilo.ai/api/gateway/v1'', wire = WireOpenAiCompat, auth = Keyless ''kilo'',
      signup_url = ''https://kilo.ai'',
      limits = \<lparr>rpm = None, rpd = None, tpm = None, tpd = None\<rparr>,
      pool = None, timeout = S30, quirks = NO_QUIRKS\<lparr>validate_url := Some (''/api/gateway/models'')\<rparr>,
      free_note = ''200 req/hr per IP; prompts logged for training'',
      intelligence_rank = 5\<rparr>"

definition provider_pollinations :: free_provider where
  "provider_pollinations =
     \<lparr>fp_id = ''pollinations'', display = ''Pollinations'',
      base_url = '''', wire = WirePollinations, auth = Bearer,
      signup_url = ''https://pollinations.ai'',
      limits = NO_LIMITS,
      pool = None, timeout = S30, quirks = NO_QUIRKS\<lparr>validate_url := Some (''/account/key'')\<rparr>,
      free_note = ''validate /account/key (public /v1/models lies)'',
      intelligence_rank = 5\<rparr>"

definition provider_llm7 :: free_provider where
  "provider_llm7 =
     \<lparr>fp_id = ''llm7'', display = ''LLM7'',
      base_url = ''https://api.llm7.io/v1'', wire = WireOpenAiCompat, auth = Bearer,
      signup_url = ''https://llm7.io'',
      limits = \<lparr>rpm = None, rpd = None, tpm = None, tpd = None\<rparr>,
      pool = None, timeout = S30, quirks = NO_QUIRKS,
      free_note = ''100 req/hr; anon key works for basic use'',
      intelligence_rank = 5\<rparr>"

definition provider_huggingface :: free_provider where
  "provider_huggingface =
     \<lparr>fp_id = ''huggingface'', display = ''Hugging Face Router'',
      base_url = ''https://router.huggingface.co/v1'', wire = WireOpenAiCompat, auth = Bearer,
      signup_url = ''https://huggingface.co/settings/tokens'',
      limits = NO_LIMITS,
      pool = Some (PoolCreditPool 0), timeout = S30, quirks = NO_QUIRKS,
      free_note = ''$0.10/mo router credit'',
      intelligence_rank = 5\<rparr>"

definition provider_opencode_zen :: free_provider where
  "provider_opencode_zen =
     \<lparr>fp_id = ''opencode-zen'', display = ''OpenCode Zen'',
      base_url = ''https://opencode.ai/zen/v1'', wire = WireOpenAiCompat, auth = Bearer,
      signup_url = ''https://opencode.ai/zen'',
      limits = NO_LIMITS,
      pool = None, timeout = S30, quirks = NO_QUIRKS,
      free_note = ''trial-only promo roster'',
      intelligence_rank = 5\<rparr>"

definition provider_ovh :: free_provider where
  "provider_ovh =
     \<lparr>fp_id = ''ovh'', display = ''OVHcloud AI Endpoints'',
      base_url = ''https://oai.endpoints.kepler.ai.cloud.ovh.net/v1'', wire = WireOpenAiCompat, auth = Keyless ''ovh'',
      signup_url = ''https://endpoints.ai.cloud.ovh.net'',
      limits = \<lparr>rpm = Some 2, rpd = None, tpm = None, tpd = None\<rparr>,
      pool = None, timeout = S30, quirks = NO_QUIRKS,
      free_note = ''2 req/min per IP per model'',
      intelligence_rank = 5\<rparr>"

definition provider_agnes :: free_provider where
  "provider_agnes =
     \<lparr>fp_id = ''agnes'', display = ''Agnes AI'',
      base_url = ''https://apihub.agnes-ai.com/v1'', wire = WireOpenAiCompat, auth = Bearer,
      signup_url = ''https://agnes-ai.com'',
      limits = NO_LIMITS,
      pool = None, timeout = S60, quirks = NO_QUIRKS,
      free_note = ''~30 concurrent -> 429'',
      intelligence_rank = 5\<rparr>"

definition provider_reka :: free_provider where
  "provider_reka =
     \<lparr>fp_id = ''reka'', display = ''Reka'',
      base_url = ''https://api.reka.ai/v1'', wire = WireOpenAiCompat, auth = Bearer,
      signup_url = ''https://platform.reka.ai'',
      limits = NO_LIMITS,
      pool = None, timeout = S30, quirks = NO_QUIRKS,
      free_note = ''recurring monthly credit, no card'',
      intelligence_rank = 5\<rparr>"

definition provider_siliconflow :: free_provider where
  "provider_siliconflow =
     \<lparr>fp_id = ''siliconflow'', display = ''SiliconFlow'',
      base_url = ''https://api.siliconflow.com/v1'', wire = WireOpenAiCompat, auth = Bearer,
      signup_url = ''https://siliconflow.com'',
      limits = NO_LIMITS,
      pool = None, timeout = S30, quirks = NO_QUIRKS,
      free_note = ''media only (FLUX.1-schnell, CosyVoice2) '' @ [CHR 0xE2, CHR 0x80, CHR 0x94] @ '' registered, unroutable this iteration'',
      intelligence_rank = 5\<rparr>"

definition provider_routeway :: free_provider where
  "provider_routeway =
     \<lparr>fp_id = ''routeway'', display = ''Routeway'',
      base_url = ''https://api.routeway.ai/v1'', wire = WireOpenAiCompat, auth = Bearer,
      signup_url = ''https://routeway.ai'',
      limits = \<lparr>rpm = Some 5, rpd = None, tpm = None, tpd = None\<rparr>,
      pool = None, timeout = S30, quirks = NO_QUIRKS\<lparr>browser_ua := True\<rparr>,
      free_note = ''~5 rpm observed (doc says 20/200)'',
      intelligence_rank = 5\<rparr>"

definition provider_bazaarlink :: free_provider where
  "provider_bazaarlink =
     \<lparr>fp_id = ''bazaarlink'', display = ''BazaarLink'',
      base_url = ''https://bazaarlink.ai/api/v1'', wire = WireOpenAiCompat, auth = Bearer,
      signup_url = ''https://bazaarlink.ai'',
      limits = NO_LIMITS,
      pool = Some PoolFree, timeout = S30, quirks = NO_QUIRKS,
      free_note = ''auto:free route only'',
      intelligence_rank = 5\<rparr>"

definition provider_ainative :: free_provider where
  "provider_ainative =
     \<lparr>fp_id = ''ainative'', display = ''AI Native Studio'',
      base_url = ''https://api.ainative.studio/api/v1'', wire = WireOpenAiCompat, auth = Bearer,
      signup_url = ''https://ainative.studio'',
      limits = \<lparr>rpm = None, rpd = None, tpm = None, tpd = Some 10000000\<rparr>,
      pool = None, timeout = S30, quirks = NO_QUIRKS,
      free_note = ''~10M tok/mo (unverified)'',
      intelligence_rank = 5\<rparr>"

definition provider_aion :: free_provider where
  "provider_aion =
     \<lparr>fp_id = ''aion'', display = ''AionLabs'',
      base_url = ''https://api.aionlabs.ai/v1'', wire = WireOpenAiCompat, auth = Bearer,
      signup_url = ''https://aionlabs.ai'',
      limits = NO_LIMITS,
      pool = None, timeout = S30, quirks = NO_QUIRKS,
      free_note = ''no-card, 30-day account age gate'',
      intelligence_rank = 5\<rparr>"

definition provider_requesty :: free_provider where
  "provider_requesty =
     \<lparr>fp_id = ''requesty'', display = ''Requesty'',
      base_url = ''https://router.requesty.ai/v1'', wire = WireOpenAiCompat, auth = Bearer,
      signup_url = ''https://requesty.ai'',
      limits = NO_LIMITS,
      pool = Some PoolFree, timeout = S30, quirks = NO_QUIRKS,
      free_note = ''shared free pool'',
      intelligence_rank = 5\<rparr>"

definition provider_navyai :: free_provider where
  "provider_navyai =
     \<lparr>fp_id = ''navyai'', display = ''Navy AI'',
      base_url = ''https://api.navy/v1'', wire = WireOpenAiCompat, auth = Bearer,
      signup_url = ''https://api.navy'',
      limits = \<lparr>rpm = Some 20, rpd = None, tpm = None, tpd = Some 150000\<rparr>,
      pool = Some (PoolDailyTokens 150000), timeout = S30, quirks = NO_QUIRKS,
      free_note = ''150K tok/day, 20 rpm; needs explicit User-Agent'',
      intelligence_rank = 5\<rparr>"

definition provider_nara :: free_provider where
  "provider_nara =
     \<lparr>fp_id = ''nara'', display = ''Nara'',
      base_url = ''https://router.bynara.id/v1'', wire = WireOpenAiCompat, auth = Bearer,
      signup_url = ''https://bynara.id'',
      limits = NO_LIMITS,
      pool = Some PoolFree, timeout = S30, quirks = NO_QUIRKS,
      free_note = ''shared free pool; Telegram channel verification'',
      intelligence_rank = 5\<rparr>"

definition provider_sea_lion :: free_provider where
  "provider_sea_lion =
     \<lparr>fp_id = ''sea-lion'', display = ''SEA-LION'',
      base_url = ''https://api.sea-lion.ai/v1'', wire = WireOpenAiCompat, auth = Bearer,
      signup_url = ''https://sea-lion.ai'',
      limits = \<lparr>rpm = Some 10, rpd = None, tpm = None, tpd = None\<rparr>,
      pool = None, timeout = S30, quirks = NO_QUIRKS,
      free_note = ''10 rpm recurring; Google sign-in, no card, no region wall'',
      intelligence_rank = 5\<rparr>"

definition provider_orcarouter :: free_provider where
  "provider_orcarouter =
     \<lparr>fp_id = ''orcarouter'', display = ''OrcaRouter'',
      base_url = ''https://api.orcarouter.ai/v1'', wire = WireOpenAiCompat, auth = Bearer,
      signup_url = ''https://orcarouter.ai'',
      limits = NO_LIMITS,
      pool = Some PoolFree, timeout = S30, quirks = NO_QUIRKS,
      free_note = ''shared $0 pool, unpublished limits; 429 is a clean quota signal'',
      intelligence_rank = 5\<rparr>"

definition provider_unorouter :: free_provider where
  "provider_unorouter =
     \<lparr>fp_id = ''unorouter'', display = ''UnoRouter'',
      base_url = ''https://api.unorouter.com/v1'', wire = WireOpenAiCompat, auth = Bearer,
      signup_url = ''https://unorouter.com'',
      limits = NO_LIMITS,
      pool = Some PoolFree, timeout = S30, quirks = NO_QUIRKS,
      free_note = ''account-wide per-minute `:free` pool'',
      intelligence_rank = 5\<rparr>"

definition provider_xkiro :: free_provider where
  "provider_xkiro =
     \<lparr>fp_id = ''xkiro'', display = ''xKiro'',
      base_url = ''https://api.xkiro.com/v1'', wire = WireOpenAiCompat, auth = Bearer,
      signup_url = ''https://xkiro.com'',
      limits = \<lparr>rpm = None, rpd = None, tpm = None, tpd = Some 5000000\<rparr>,
      pool = Some (PoolDailyTokens 5000000), timeout = S30, quirks = NO_QUIRKS\<lparr>validate_url := Some (''/v1/usage'')\<rparr>,
      free_note = ''5M tok/day account-wide'',
      intelligence_rank = 5\<rparr>"

definition provider_radeon :: free_provider where
  "provider_radeon =
     \<lparr>fp_id = ''radeon'', display = ''AMD Radeon Developer'',
      base_url = ''https://developer.amd.com.cn/radeon/api/v1'', wire = WireOpenAiCompat, auth = Bearer,
      signup_url = ''https://developer.amd.com.cn/radeon'',
      limits = NO_LIMITS,
      pool = None, timeout = S30, quirks = NO_QUIRKS\<lparr>no_tools := True\<rparr>,
      free_note = ''rotating public roster, header-reported limits; no parallel tools, 10-min gen window'',
      intelligence_rank = 5\<rparr>"

definition provider_bai :: free_provider where
  "provider_bai =
     \<lparr>fp_id = ''bai'', display = ''b.ai'',
      base_url = ''https://api.b.ai/v1'', wire = WireOpenAiCompat, auth = Bearer,
      signup_url = ''https://b.ai'',
      limits = NO_LIMITS,
      pool = None, timeout = S30, quirks = NO_QUIRKS,
      free_note = ''limited-time 0-credit promo'',
      intelligence_rank = 5\<rparr>"

definition provider_anyapi :: free_provider where
  "provider_anyapi =
     \<lparr>fp_id = ''anyapi'', display = ''AnyAPI'',
      base_url = ''https://api.anyapi.ai/v1'', wire = WireOpenAiCompat, auth = Bearer,
      signup_url = ''https://anyapi.ai'',
      limits = \<lparr>rpm = None, rpd = None, tpm = None, tpd = Some 100000\<rparr>,
      pool = Some (PoolDailyTokens 100000), timeout = S30, quirks = NO_QUIRKS,
      free_note = ''100K tok/day, no published rpm'',
      intelligence_rank = 5\<rparr>"

definition provider_electronhub :: free_provider where
  "provider_electronhub =
     \<lparr>fp_id = ''electronhub'', display = ''ElectronHub'',
      base_url = '''', wire = WireElectronHub, auth = Bearer,
      signup_url = ''https://electronhub.ai'',
      limits = NO_LIMITS,
      pool = Some (PoolCreditPool 0), timeout = S30, quirks = NO_QUIRKS\<lparr>validate_url := Some (''/v1/user/me'')\<rparr>,
      free_note = ''shared weekly credit pool'',
      intelligence_rank = 5\<rparr>"

definition provider_experiential :: free_provider where
  "provider_experiential =
     \<lparr>fp_id = ''experiential'', display = ''Experiential'',
      base_url = '''', wire = WireExperiential, auth = Bearer,
      signup_url = ''https://experiential.ai'',
      limits = NO_LIMITS,
      pool = Some (PoolCreditPool 0), timeout = S30, quirks = NO_QUIRKS\<lparr>validate_url := Some (''/v1/models'')\<rparr>,
      free_note = ''shared monthly credit pool; authed /v1/models'',
      intelligence_rank = 5\<rparr>"

definition provider_sail :: free_provider where
  "provider_sail =
     \<lparr>fp_id = ''sail'', display = ''Sail'',
      base_url = '''', wire = WireSail, auth = Bearer,
      signup_url = ''https://sail.dev'',
      limits = NO_LIMITS,
      pool = None, timeout = S30, quirks = NO_QUIRKS,
      free_note = ''$5/mo credit then pay-go; flex-only models'',
      intelligence_rank = 5\<rparr>"

definition provider_modelscope :: free_provider where
  "provider_modelscope =
     \<lparr>fp_id = ''modelscope'', display = ''ModelScope'',
      base_url = '''', wire = WireModelScope, auth = Bearer,
      signup_url = ''https://modelscope.cn'',
      limits = NO_LIMITS,
      pool = None, timeout = S30, quirks = NO_QUIRKS\<lparr>region_wall := True, real_name_auth := True, validate_cache := Some 86400\<rparr>,
      free_note = ''magic-grain quota; Alibaba China + real-name'',
      intelligence_rank = 5\<rparr>"

definition provider_qianfan :: free_provider where
  "provider_qianfan =
     \<lparr>fp_id = ''qianfan'', display = ''Baidu Qianfan'',
      base_url = ''https://qianfan.baidubce.com/v2'', wire = WireOpenAiCompat, auth = Bearer,
      signup_url = ''https://qianfan.baidubce.com'',
      limits = NO_LIMITS,
      pool = None, timeout = S30, quirks = NO_QUIRKS\<lparr>region_wall := True, real_name_auth := True\<rparr>,
      free_note = ''ERNIE-Speed/Lite/Tiny free; Chinese real-name auth'',
      intelligence_rank = 5\<rparr>"

definition provider_volcengine :: free_provider where
  "provider_volcengine =
     \<lparr>fp_id = ''volcengine'', display = ''Volcengine Ark'',
      base_url = ''https://ark.cn-beijing.volces.com/api/v3'', wire = WireOpenAiCompat, auth = Bearer,
      signup_url = ''https://console.volcengine.com'',
      limits = \<lparr>rpm = None, rpd = None, tpm = None, tpd = Some 2000000\<rparr>,
      pool = None, timeout = S30, quirks = NO_QUIRKS\<lparr>region_wall := True, real_name_auth := True\<rparr>,
      free_note = ''2M tok/day/model + 500K new-user; real-name auth'',
      intelligence_rank = 5\<rparr>"

definition provider_longcat :: free_provider where
  "provider_longcat =
     \<lparr>fp_id = ''longcat'', display = ''LongCat'',
      base_url = ''https://api.longcat.chat/openai/v1'', wire = WireOpenAiCompat, auth = Bearer,
      signup_url = ''https://longcat.chat'',
      limits = NO_LIMITS,
      pool = None, timeout = S30, quirks = NO_QUIRKS,
      free_note = ''daily free quota; email signup works outside China'',
      intelligence_rank = 5\<rparr>"

definition provider_xfyun :: free_provider where
  "provider_xfyun =
     \<lparr>fp_id = ''xfyun'', display = ''iFlytek Spark'',
      base_url = ''https://spark-api-open.xf-yun.com/v1'', wire = WireOpenAiCompat, auth = Bearer,
      signup_url = ''https://xfyun.cn'',
      limits = NO_LIMITS,
      pool = None, timeout = S30, quirks = NO_QUIRKS\<lparr>region_wall := True, real_name_auth := True\<rparr>,
      free_note = ''Lite model free, no published ceiling; console APIPassword'',
      intelligence_rank = 5\<rparr>"

definition provider_aihorde :: free_provider where
  "provider_aihorde =
     \<lparr>fp_id = ''aihorde'', display = ''AI Horde'',
      base_url = '''', wire = WireAiHorde, auth = Keyless ''0000000000'',
      signup_url = ''https://aihorde.net'',
      limits = NO_LIMITS,
      pool = None, timeout = S120, quirks = NO_QUIRKS\<lparr>min_max_tokens := Some 16, no_tools := True, no_stream := True\<rparr>,
      free_note = ''kudos-based queue proxy'',
      intelligence_rank = 5\<rparr>"

definition provider_custom :: free_provider where
  "provider_custom =
     \<lparr>fp_id = ''custom'', display = ''Custom (llama.cpp / vLLM / LM Studio)'',
      base_url = '''', wire = WireOpenAiCompat, auth = Bearer,
      signup_url = '''',
      limits = NO_LIMITS,
      pool = None, timeout = S120, quirks = NO_QUIRKS,
      free_note = ''user-supplied local/self-hosted endpoint'',
      intelligence_rank = 5\<rparr>"

definition FREE_PROVIDERS :: "free_provider list" where
  "FREE_PROVIDERS =
     [provider_google,
      provider_groq,
      provider_cerebras,
      provider_nvidia,
      provider_mistral,
      provider_openrouter,
      provider_github_models,
      provider_cohere,
      provider_cloudflare,
      provider_zhipu,
      provider_ollama_cloud,
      provider_kilo,
      provider_pollinations,
      provider_llm7,
      provider_huggingface,
      provider_opencode_zen,
      provider_ovh,
      provider_agnes,
      provider_reka,
      provider_siliconflow,
      provider_routeway,
      provider_bazaarlink,
      provider_ainative,
      provider_aion,
      provider_requesty,
      provider_navyai,
      provider_nara,
      provider_sea_lion,
      provider_orcarouter,
      provider_unorouter,
      provider_xkiro,
      provider_radeon,
      provider_bai,
      provider_anyapi,
      provider_electronhub,
      provider_experiential,
      provider_sail,
      provider_modelscope,
      provider_qianfan,
      provider_volcengine,
      provider_longcat,
      provider_xfyun,
      provider_aihorde,
      provider_custom]"

section \<open>Operations\<close>

definition by_id :: "string \<Rightarrow> free_provider option" where
  "by_id pid = find (\<lambda>p. fp_id p = pid) FREE_PROVIDERS"

definition validate_key_shape :: "free_provider \<Rightarrow> string \<Rightarrow> string + unit" where
  "validate_key_shape provider key =
     (case auth provider of
        Compound second_half \<Rightarrow>
          if CHR '':'' \<notin> set key
          then Inl (fp_id provider @ '' needs a compound key in `first_half:'' @ second_half @
                    ''` form (e.g. Cloudflare'' @ [CHR 0x27] @ ''s `account_id:token`), got a value with no '' @ [CHR 0x27] @ '':'' @ [CHR 0x27] @ '' separator '' @ [CHR 0xE2, CHR 0x80, CHR 0x94] @ '' see the provider'' @ [CHR 0x27] @ ''s signup page for what the first half is'')
          else Inr ()
      | _ \<Rightarrow> Inr ())"

definition default_disabled_reason :: "string \<Rightarrow> string option" where
  "default_disabled_reason pid =
     (if pid = ''sail'' then Some ''needs a payment method on file (flex-only credit model)''
      else if pid = ''modelscope'' then Some ''needs a China account + real-name verification''
      else if pid = ''qianfan'' then Some ''needs Chinese real-name auth (Baidu Cloud)''
      else if pid = ''volcengine'' then Some ''needs Chinese real-name auth (Volcengine)''
      else if pid = ''xfyun'' then Some ''needs a China console account (APIPassword)''
      else None)"

record free_pool_entry =
  enabled :: bool
  disabled_reason :: "string option"

definition reconcile_entry ::
    "(string \<rightharpoonup> free_pool_entry) \<Rightarrow> (string \<Rightarrow> bool) \<Rightarrow> string \<Rightarrow> free_pool_entry" where
  "reconcile_entry existing is_keyed_and_valid pid =
     (case default_disabled_reason pid of
        Some reason \<Rightarrow> \<lparr>enabled = False, disabled_reason = Some reason\<rparr>
      | None \<Rightarrow>
          (case existing pid of
             Some e \<Rightarrow> e
           | None \<Rightarrow> \<lparr>enabled = is_keyed_and_valid pid, disabled_reason = None\<rparr>))"

definition reconcile_pool_state ::
    "(string \<rightharpoonup> free_pool_entry) \<Rightarrow> (string \<Rightarrow> bool) \<Rightarrow> (string \<rightharpoonup> free_pool_entry)" where
  "reconcile_pool_state existing is_keyed_and_valid =
     foldl (\<lambda>out p. out(fp_id p \<mapsto> reconcile_entry existing is_keyed_and_valid (fp_id p)))
       Map.empty FREE_PROVIDERS"

section \<open>Properties\<close>

lemmas provider_defs =
  provider_google_def
  provider_groq_def
  provider_cerebras_def
  provider_nvidia_def
  provider_mistral_def
  provider_openrouter_def
  provider_github_models_def
  provider_cohere_def
  provider_cloudflare_def
  provider_zhipu_def
  provider_ollama_cloud_def
  provider_kilo_def
  provider_pollinations_def
  provider_llm7_def
  provider_huggingface_def
  provider_opencode_zen_def
  provider_ovh_def
  provider_agnes_def
  provider_reka_def
  provider_siliconflow_def
  provider_routeway_def
  provider_bazaarlink_def
  provider_ainative_def
  provider_aion_def
  provider_requesty_def
  provider_navyai_def
  provider_nara_def
  provider_sea_lion_def
  provider_orcarouter_def
  provider_unorouter_def
  provider_xkiro_def
  provider_radeon_def
  provider_bai_def
  provider_anyapi_def
  provider_electronhub_def
  provider_experiential_def
  provider_sail_def
  provider_modelscope_def
  provider_qianfan_def
  provider_volcengine_def
  provider_longcat_def
  provider_xfyun_def
  provider_aihorde_def
  provider_custom_def

lemma provider_ids:
  "map fp_id FREE_PROVIDERS =
     [''google'', ''groq'', ''cerebras'', ''nvidia'', ''mistral'',
      ''openrouter'', ''github-models'', ''cohere'', ''cloudflare'', ''zhipu'',
      ''ollama-cloud'', ''kilo'', ''pollinations'', ''llm7'', ''huggingface'',
      ''opencode-zen'', ''ovh'', ''agnes'', ''reka'', ''siliconflow'',
      ''routeway'', ''bazaarlink'', ''ainative'', ''aion'', ''requesty'',
      ''navyai'', ''nara'', ''sea-lion'', ''orcarouter'', ''unorouter'',
      ''xkiro'', ''radeon'', ''bai'', ''anyapi'', ''electronhub'',
      ''experiential'', ''sail'', ''modelscope'', ''qianfan'', ''volcengine'',
      ''longcat'', ''xfyun'', ''aihorde'', ''custom'']"
  by (simp add: FREE_PROVIDERS_def provider_defs)

lemma provider_ids_distinct: "distinct (map fp_id FREE_PROVIDERS)"
  by (simp add: provider_ids)

lemma by_id_Some: "by_id pid = Some p \<Longrightarrow> p \<in> set FREE_PROVIDERS \<and> fp_id p = pid"
  unfolding by_id_def by (drule find_SomeD) simp

lemma by_id_mem: "p \<in> set FREE_PROVIDERS \<Longrightarrow> by_id (fp_id p) = Some p"
  unfolding by_id_def by (rule find_unique [OF provider_ids_distinct])

lemma by_id_None: "by_id pid = None \<longleftrightarrow> pid \<notin> fp_id ` set FREE_PROVIDERS"
  by (auto simp: by_id_def find_None_iff)

lemma reconcile_pool_state_eq:
  "reconcile_pool_state existing f pid =
     (if by_id pid = None then None else Some (reconcile_entry existing f pid))"
  unfolding reconcile_pool_state_def by (simp only: foldl_map_insert by_id_None) simp

text \<open>Every id with a stated reason is a row of the table, and every region-walled or
  identity-gated row has a reason.\<close>

lemma disabled_ids_in_catalog: "default_disabled_reason pid = Some r \<Longrightarrow> by_id pid \<noteq> None"
proof -
  assume "default_disabled_reason pid = Some r"
  then have "pid \<in> set (map fp_id FREE_PROVIDERS)"
    by (simp add: provider_ids default_disabled_reason_def split: if_splits)
  then show ?thesis by (simp add: by_id_None)
qed

text \<open>\<open>sync-pool\<close> covers exactly the catalog; a default-disabled provider is
  always written disabled with its reason, whatever the operator's file says; the operator's entry
  of any other provider is kept; a provider without entry is enabled exactly when its key is there
  and valid.\<close>

theorem reconcile_pool_state_spec:
  "reconcile_pool_state existing keyed pid =
     (if pid \<notin> fp_id ` set FREE_PROVIDERS then None
      else case default_disabled_reason pid of
        Some r \<Rightarrow> Some \<lparr>enabled = False, disabled_reason = Some r\<rparr>
      | None \<Rightarrow>
          (case existing pid of
             Some e \<Rightarrow> Some e
           | None \<Rightarrow> Some \<lparr>enabled = keyed pid, disabled_reason = None\<rparr>))"
  by (auto simp: reconcile_pool_state_eq by_id_None reconcile_entry_def split: option.splits)

text \<open>A second run of \<open>sync-pool\<close> on its own output changes nothing, even when
  keys were added or lost in between.\<close>

theorem reconcile_pool_state_idem:
  "reconcile_pool_state (reconcile_pool_state existing keyed) keyed' =
   reconcile_pool_state existing keyed"
  by (rule ext)
    (auto simp: reconcile_pool_state_eq reconcile_entry_def split: option.splits)

text \<open>The catalog is well formed: ids are unique, every region-walled or
  real-name provider is disabled by default, every provider that speaks the plain OpenAI wire has
  a timeout, and ranks lie between 1 and 10.\<close>

definition provider_ok :: "free_provider \<Rightarrow> bool" where
  "provider_ok p \<longleftrightarrow>
     ((region_wall (quirks p) \<or> real_name_auth (quirks p)) \<longrightarrow> default_disabled_reason (fp_id p) \<noteq> None)
     \<and> 0 < timeout p \<and> 1 \<le> unat (intelligence_rank p) \<and> unat (intelligence_rank p) \<le> 10"

lemma catalog_rows_ok: "list_all provider_ok FREE_PROVIDERS"
  by (simp add: FREE_PROVIDERS_def provider_ok_def provider_defs NO_QUIRKS_def S30_def S60_def
      S120_def S180_def default_disabled_reason_def)

theorem catalog_well_formed:
  "length FREE_PROVIDERS = 44 \<and> distinct (map fp_id FREE_PROVIDERS) \<and>
   list_all provider_ok FREE_PROVIDERS"
  by (intro conjI provider_ids_distinct catalog_rows_ok) (simp add: FREE_PROVIDERS_def)

end
