(* ===== verification/Json.thy ===== *)
theory Json
  imports Prelude
begin

text \<open>
  The part of \<open>serde_json::Value\<close> that the program reads and builds. An object is the list of its
  entries in key order, as \<open>serde_json::Map\<close> (a \<open>BTreeMap\<close>) iterates them. The text format is the
  business of \<open>serde_json\<close>: parsing and printing are arguments of the definitions that use them.
\<close>

datatype jnum = PosInt u64 | NegInt int | Float string

datatype json = JNull | JBool bool | JNum jnum | JStr string | JArr "json list"
  | JObj "(string \<times> json) list"

fun num_as_u64 :: "jnum \<Rightarrow> u64 option" where
  "num_as_u64 (PosInt n) = Some n"
| "num_as_u64 (NegInt i) = None"
| "num_as_u64 (Float t) = None"

text \<open>\<open>Value::get\<close> with a string index, and with index 0 of an array.\<close>

fun jget :: "string \<Rightarrow> json \<Rightarrow> json option" where
  "jget k (JObj kvs) = map_of kvs k"
| "jget k _ = None"

fun jget0 :: "json \<Rightarrow> json option" where
  "jget0 (JArr (v # vs)) = Some v"
| "jget0 _ = None"

fun as_str :: "json \<Rightarrow> string option" where
  "as_str (JStr s) = Some s"
| "as_str _ = None"

fun as_array :: "json \<Rightarrow> json list option" where
  "as_array (JArr vs) = Some vs"
| "as_array _ = None"

fun json_u64 :: "json \<Rightarrow> u64 option" where
  "json_u64 (JNum n) = num_as_u64 n"
| "json_u64 _ = None"

text \<open>Insertion into an object, as \<open>value[key] = v\<close> and the \<open>json!\<close> macro do it.\<close>

fun insert_entry :: "string \<Rightarrow> json \<Rightarrow> (string \<times> json) list \<Rightarrow> (string \<times> json) list" where
  "insert_entry k v [] = [(k, v)]"
| "insert_entry k v ((k', v') # kvs) =
     (if k = k' then (k, v) # kvs
      else if k < k' then (k, v) # (k', v') # kvs
      else (k', v') # insert_entry k v kvs)"

fun jput :: "string \<Rightarrow> json \<Rightarrow> json \<Rightarrow> json" where
  "jput k v (JObj kvs) = JObj (insert_entry k v kvs)"
| "jput k v j = j"

definition jobj :: "(string \<times> json) list \<Rightarrow> json" where
  "jobj kvs = foldl (\<lambda>j (k, v). jput k v j) (JObj []) kvs"

lemma map_of_insert_entry:
  "sorted_wrt (<) (map fst kvs) \<Longrightarrow> map_of (insert_entry k v kvs) = (map_of kvs)(k \<mapsto> v)"
proof (induction kvs)
  case Nil
  then show ?case by simp
next
  case (Cons e kvs)
  obtain k' v' where e: "e = (k', v')" by (cases e)
  have "k < k' \<Longrightarrow> k \<notin> fst ` set kvs" using Cons.prems by (auto simp: e)
  with Cons show ?case by (auto simp: e fun_eq_iff)
qed

lemma fst_insert_entry: "fst ` set (insert_entry k v kvs) = insert k (fst ` set kvs)"
proof (induction kvs)
  case Nil
  then show ?case by simp
next
  case (Cons e kvs)
  then show ?case by (cases e) (simp add: insert_commute)
qed

lemma sorted_insert_entry:
  "sorted_wrt (<) (map fst kvs) \<Longrightarrow> sorted_wrt (<) (map fst (insert_entry k v kvs))"
proof (induction kvs)
  case Nil
  then show ?case by simp
next
  case (Cons e kvs)
  then show ?case
    by (cases e) (auto simp: fst_insert_entry dest: less_trans simp flip: image_iff)
qed

fun wf_obj :: "json \<Rightarrow> bool" where
  "wf_obj (JObj kvs) = sorted_wrt (<) (map fst kvs)"
| "wf_obj _ = False"

lemma jget_jput: "wf_obj j \<Longrightarrow> jget k (jput k' v j) = (if k = k' then Some v else jget k j)"
  by (cases j) (auto simp: map_of_insert_entry)

lemma wf_obj_jput: "wf_obj j \<Longrightarrow> wf_obj (jput k v j)"
  by (cases j) (auto simp: sorted_insert_entry)

end
