(* ===== verification/Backoff.thy ===== *)
theory Backoff
  imports Json
begin

text \<open>
  Parsing a provider's back-off hint, \<open>crates/single-runtime/src/pool/backoff.rs\<close>: the
  \<open>Retry-After\<close> header, the retry fields of a JSON error body, and prose. Durations are whole
  seconds in 64 bits; multiplication wraps, as in the release build. \<open>chrono\<close>'s RFC 2822 parser is
  the argument \<open>rfc2822\<close> (the instant in milliseconds), the clock is \<open>now_ms\<close>.
  Lower-casing is the ASCII one: the characters that Unicode maps into ASCII letters (the Kelvin
  sign, the Angstrom sign) give letters that do not occur in the phrases looked for.
\<close>

definition MAX_CLAMP :: u64 where
  "MAX_CLAMP = 24 * 60 * 60"

definition BODY_DEPTH_CAP :: nat where
  "BODY_DEPTH_CAP = 6"

definition clamp :: "u64 \<Rightarrow> u64" where
  "clamp d = min d MAX_CLAMP"

definition parse_retry_after :: "(string \<Rightarrow> int option) \<Rightarrow> int \<Rightarrow> string option \<Rightarrow> u64 option" where
  "parse_retry_after rfc2822 now_ms header =
     (case header of
        None \<Rightarrow> None
      | Some h \<Rightarrow>
          (let h = trim h in
           case parse_u64 h of
             Some secs \<Rightarrow> Some (clamp secs)
           | None \<Rightarrow>
               (case rfc2822 h of
                  Some date \<Rightarrow> Some (clamp (as_u64 (max 0 ((date - now_ms) div 1000))))
                | None \<Rightarrow> None)))"

text \<open>A token like \<open>17s\<close>. \<open>split_at\<close> counts bytes, so it panics when the last character takes more
  than one; a token without unit goes through the digits before its last byte first.\<close>

definition parse_duration_token :: "string \<Rightarrow> u64 option outcome" where
  "parse_duration_token str =
     (let s = trim str in
      bind_outcome (split_at s (length s - 1)) (\<lambda>(num_part, unit).
        case parse_u64 num_part of
          None \<Rightarrow> Ret None
        | Some n \<Rightarrow>
            if unit = ''s'' then Ret (Some (clamp n))
            else if unit = ''m'' then Ret (Some (clamp (n * 60)))
            else if unit = ''h'' then Ret (Some (clamp (n * 3600)))
            else Ret (map_option clamp (parse_u64 s))))"

fun value_to_duration :: "json \<Rightarrow> u64 option outcome" where
  "value_to_duration (JNum n) = Ret (map_option clamp (num_as_u64 n))"
| "value_to_duration (JStr s) = parse_duration_token s"
| "value_to_duration _ = Ret None"

definition retry_keys :: "string list" where
  "retry_keys = [''retryDelay'', ''retry_after'', ''retryAfterSeconds'', ''RetryInfo'']"

function walk :: "json \<Rightarrow> nat \<Rightarrow> u64 option outcome" where
  "walk value depth =
     (if depth > BODY_DEPTH_CAP then Ret None
      else case value of
        JObj kvs \<Rightarrow>
          bind_outcome
            (find_map_outcome
               (\<lambda>key. case map_of kvs key of
                   None \<Rightarrow> Ret None
                 | Some v \<Rightarrow>
                     bind_outcome (value_to_duration v)
                       (\<lambda>r. case r of Some d \<Rightarrow> Ret (Some d) | None \<Rightarrow> walk v (depth + 1)))
               retry_keys)
            (\<lambda>r. case r of
                Some d \<Rightarrow> Ret (Some d)
              | None \<Rightarrow> find_map_outcome (\<lambda>v. walk v (depth + 1)) (map snd kvs))
      | JArr items \<Rightarrow> find_map_outcome (\<lambda>v. walk v (depth + 1)) items
      | _ \<Rightarrow> Ret None)"
  by pat_completeness auto
termination
  by (relation "measure (\<lambda>(v, d). Suc BODY_DEPTH_CAP - d)") auto

declare walk.simps [simp del]

definition parse_body_shape :: "json \<Rightarrow> u64 option outcome" where
  "parse_body_shape body = walk body 0"

definition scan_number_unit :: "string \<Rightarrow> u64 option" where
  "scan_number_unit str =
     (let rest = trim_start str in
      case find_idx (\<lambda>c. \<not> is_digit c) rest of
        None \<Rightarrow> None
      | Some digits_end \<Rightarrow>
          if digits_end = 0 then None
          else
            (case parse_u64 (take digits_end rest) of
               None \<Rightarrow> None
             | Some n \<Rightarrow>
                 (let tail = trim_start (drop digits_end rest) in
                  if starts_with ''second'' tail \<or> starts_with ''s'' tail then Some (clamp n)
                  else if starts_with ''minute'' tail \<or> starts_with ''m'' tail
                  then Some (clamp (n * 60))
                  else if starts_with ''hour'' tail \<or> starts_with ''h'' tail
                  then Some (clamp (n * 3600))
                  else None)))"

definition parse_prose :: "string \<Rightarrow> u64 option" where
  "parse_prose text =
     (let lower = map ascii_lower text in
      case find_sub ''try again in '' lower of
        Some pos \<Rightarrow> scan_number_unit (drop (pos + length ''try again in '') lower)
      | None \<Rightarrow>
          (case find_sub ''retry after '' lower of
             Some pos \<Rightarrow> scan_number_unit (drop (pos + length ''retry after '') lower)
           | None \<Rightarrow> None))"

definition resolve ::
    "(string \<Rightarrow> int option) \<Rightarrow> int \<Rightarrow> string option \<Rightarrow> json option \<Rightarrow> string option \<Rightarrow> u64 option outcome" where
  "resolve rfc2822 now_ms header body prose_fallback =
     (case parse_retry_after rfc2822 now_ms header of
        Some d \<Rightarrow> Ret (Some d)
      | None \<Rightarrow>
          bind_outcome (case body of Some b \<Rightarrow> parse_body_shape b | None \<Rightarrow> Ret None)
            (\<lambda>r. case r of
                Some d \<Rightarrow> Ret (Some d)
              | None \<Rightarrow>
                  Ret (case prose_fallback of Some prose \<Rightarrow> parse_prose prose | None \<Rightarrow> None)))"

section \<open>Every answer is clamped\<close>

lemma unat_clamp: "unat (clamp d) = min (unat d) 86400"
  by (simp add: clamp_def MAX_CLAMP_def min_def word_le_nat_alt)

lemma clamp_le: "unat (clamp d) \<le> 86400"
  by (simp add: unat_clamp)

lemma parse_retry_after_le: "parse_retry_after r n h = Some d \<Longrightarrow> unat d \<le> 86400"
  by (auto simp: parse_retry_after_def Let_def clamp_le split: option.splits)

lemma parse_duration_token_le: "parse_duration_token s = Ret (Some d) \<Longrightarrow> unat d \<le> 86400"
  by (auto simp: parse_duration_token_def Let_def bind_outcome_Ret clamp_le
      split: option.splits if_splits)

lemma value_to_duration_le: "value_to_duration v = Ret (Some d) \<Longrightarrow> unat d \<le> 86400"
  by (cases v) (auto simp: clamp_le parse_duration_token_le)

lemma parse_prose_le: "parse_prose t = Some d \<Longrightarrow> unat d \<le> 86400"
  by (auto simp: parse_prose_def scan_number_unit_def Let_def clamp_le split: option.splits if_splits)

section \<open>What the body walk finds\<close>

text \<open>\<open>hint_at v k d\<close>: below \<open>k\<close> nested containers of \<open>v\<close> there is an object with one of the
  retry keys whose value reads as the duration \<open>d\<close>.\<close>

inductive hint_at :: "json \<Rightarrow> nat \<Rightarrow> u64 \<Rightarrow> bool" where
  hint_here: "key \<in> set retry_keys \<Longrightarrow> map_of kvs key = Some v \<Longrightarrow>
    value_to_duration v = Ret (Some d) \<Longrightarrow> hint_at (JObj kvs) 0 d"
| hint_obj: "v \<in> snd ` set kvs \<Longrightarrow> hint_at v k d \<Longrightarrow> hint_at (JObj kvs) (Suc k) d"
| hint_arr: "v \<in> set vs \<Longrightarrow> hint_at v k d \<Longrightarrow> hint_at (JArr vs) (Suc k) d"

inductive_cases hint_objE: "hint_at (JObj kvs) k d"
inductive_cases hint_arrE: "hint_at (JArr vs) k d"

inductive_simps hint_leaf [simp]:
  "hint_at JNull k d" "hint_at (JBool b) k d" "hint_at (JNum n) k d" "hint_at (JStr s) k d"

lemma hint_at_le: "hint_at v k d \<Longrightarrow> unat d \<le> 86400"
  by (induction rule: hint_at.induct) (auto intro: value_to_duration_le)

lemma find_map_outcome_None:
  "find_map_outcome f xs = Ret None \<Longrightarrow> x \<in> set xs \<Longrightarrow> f x = Ret None"
  by (induction xs) (auto simp: bind_outcome_Ret split: option.splits)

lemma walk_leaf [simp]:
  "walk JNull n = Ret None" "walk (JBool b) n = Ret None"
  "walk (JNum i) n = Ret None" "walk (JStr t) n = Ret None"
  by (simp_all add: walk.simps)

lemma walk_JObj:
  "walk (JObj kvs) n =
     (if BODY_DEPTH_CAP < n then Ret None
      else bind_outcome
        (find_map_outcome
           (\<lambda>key. case map_of kvs key of None \<Rightarrow> Ret None
             | Some w \<Rightarrow> bind_outcome (value_to_duration w)
                 (\<lambda>r. case r of None \<Rightarrow> walk w (Suc n) | Some d \<Rightarrow> Ret (Some d)))
           retry_keys)
        (\<lambda>r. case r of None \<Rightarrow> find_map_outcome (\<lambda>w. walk w (Suc n)) (map snd kvs)
          | Some d \<Rightarrow> Ret (Some d)))"
  by (subst walk.simps) (simp cong: option.case_cong)

lemma walk_JArr:
  "walk (JArr vs) n =
     (if BODY_DEPTH_CAP < n then Ret None else find_map_outcome (\<lambda>w. walk w (Suc n)) vs)"
  by (subst walk.simps) simp

lemma walk_obj_Some:
  assumes "walk (JObj kvs) n = Ret (Some d)"
  shows "n \<le> BODY_DEPTH_CAP \<and>
    (hint_at (JObj kvs) 0 d \<or> (\<exists>w \<in> snd ` set kvs. walk w (Suc n) = Ret (Some d)))"
proof -
  have n: "n \<le> BODY_DEPTH_CAP"
    using assms by (simp add: walk_JObj split: if_splits)
  have "(\<exists>key \<in> set retry_keys. \<exists>w. map_of kvs key = Some w \<and>
           (value_to_duration w = Ret (Some d) \<or> walk w (Suc n) = Ret (Some d)))
        \<or> (\<exists>w \<in> snd ` set kvs. walk w (Suc n) = Ret (Some d))"
    using assms n
    by (fastforce simp: walk_JObj bind_outcome_Ret split: option.splits
        dest!: find_map_outcome_Some)
  moreover have "w \<in> snd ` set kvs" if "map_of kvs key = Some w" for key w
    using that by (force dest: map_of_SomeD)
  ultimately show ?thesis using n by (blast intro: hint_at.hint_here)
qed

lemma walk_arr_Some:
  assumes "walk (JArr vs) n = Ret (Some d)"
  shows "n \<le> BODY_DEPTH_CAP \<and> (\<exists>w \<in> set vs. walk w (Suc n) = Ret (Some d))"
  using assms
  by (auto simp: walk_JArr dest!: find_map_outcome_Some split: if_splits)

lemma walk_sound: "walk v n = Ret (Some d) \<Longrightarrow> \<exists>k. n + k \<le> BODY_DEPTH_CAP \<and> hint_at v k d"
proof (induction "Suc BODY_DEPTH_CAP - n" arbitrary: v n)
  case 0
  then show ?case by (simp add: walk.simps [of v n])
next
  case (Suc m)
  have IH: "\<exists>k. n + Suc k \<le> BODY_DEPTH_CAP \<and> hint_at w k d" if "walk w (Suc n) = Ret (Some d)" for w
    using Suc.hyps(1) [of "Suc n" w] Suc.hyps(2) that by auto
  show ?case
  proof (cases v)
    case (JObj kvs)
    with walk_obj_Some [of kvs n d] Suc.prems consider
      "n \<le> BODY_DEPTH_CAP" "hint_at v 0 d"
      | w where "w \<in> snd ` set kvs" "walk w (Suc n) = Ret (Some d)" by auto
    then show ?thesis
    proof cases
      case 1
      then show ?thesis by (intro exI [of _ 0]) simp
    next
      case 2
      with IH obtain k where "n + Suc k \<le> BODY_DEPTH_CAP" "hint_at w k d" by blast
      with 2 JObj show ?thesis by (intro exI [of _ "Suc k"]) (simp add: hint_at.hint_obj)
    qed
  next
    case (JArr vs)
    with walk_arr_Some Suc.prems obtain w where w: "w \<in> set vs" "walk w (Suc n) = Ret (Some d)"
      by blast
    with IH obtain k where "n + Suc k \<le> BODY_DEPTH_CAP" "hint_at w k d" by blast
    with w JArr show ?thesis by (intro exI [of _ "Suc k"]) (simp add: hint_at.hint_arr)
  qed (use Suc.prems in simp_all)
qed

lemma walk_complete:
  "hint_at v k d \<Longrightarrow> n + k \<le> BODY_DEPTH_CAP \<Longrightarrow> walk v n \<noteq> Ret None"
proof (induction arbitrary: n rule: hint_at.induct)
  case (hint_here key kvs v d)
  have "find_map_outcome f retry_keys \<noteq> Ret None" if "f key \<noteq> Ret None" for f :: "string \<Rightarrow> u64 option outcome"
    using find_map_outcome_None [of f retry_keys key] hint_here.hyps(1) that by blast
  with hint_here show ?case
    by (auto simp: walk_JObj bind_outcome_Ret split: option.splits)
next
  case (hint_obj v kvs k d)
  then have "walk v (Suc n) \<noteq> Ret None" by simp
  then have "find_map_outcome (\<lambda>v. walk v (Suc n)) (map snd kvs) \<noteq> Ret None"
    using find_map_outcome_None hint_obj.hyps(1) by fastforce
  with hint_obj.prems show ?case
    by (auto simp: walk_JObj bind_outcome_Ret split: option.splits)
next
  case (hint_arr v vs k d)
  then have "walk v (Suc n) \<noteq> Ret None" by simp
  then have "find_map_outcome (\<lambda>v. walk v (Suc n)) vs \<noteq> Ret None"
    using find_map_outcome_None hint_arr.hyps(1) by fastforce
  with hint_arr.prems show ?case by (simp add: walk_JArr)
qed

text \<open>Where no string of the body ends in a multi-byte character, the walk does not panic.\<close>

inductive ascii_body :: "json \<Rightarrow> bool" where
  "ascii_body JNull"
| "ascii_body (JBool b)"
| "ascii_body (JNum n)"
| "list_all (\<lambda>c. \<not> is_cont_byte c) s \<Longrightarrow> ascii_body (JStr s)"
| "(\<And>v. v \<in> set vs \<Longrightarrow> ascii_body v) \<Longrightarrow> ascii_body (JArr vs)"
| "(\<And>v. v \<in> snd ` set kvs \<Longrightarrow> ascii_body v) \<Longrightarrow> ascii_body (JObj kvs)"

inductive_cases ascii_strE: "ascii_body (JStr s)"
inductive_cases ascii_arrE: "ascii_body (JArr vs)"
inductive_cases ascii_objE: "ascii_body (JObj kvs)"

lemma find_map_outcome_no_panic:
  "(\<And>x. x \<in> set xs \<Longrightarrow> f x \<noteq> Panic) \<Longrightarrow> find_map_outcome f xs \<noteq> Panic"
proof (induction xs)
  case Nil
  then show ?case by simp
next
  case (Cons x xs)
  then show ?case by (cases "f x") (auto split: option.splits)
qed

lemma set_strip_all: "set (strip_all ws s) \<subseteq> set s"
proof (induction ws s rule: strip_all.induct)
  case (1 ws s)
  have "set t \<subseteq> set s" if "strip_prefix_of ws s = Some t" for t
    using that by (auto simp: strip_prefix_of_def split: option.splits dest: in_set_dropD)
  with 1 show ?case by (auto simp: strip_all.simps [of ws s] split: option.splits)
qed

lemma set_trim: "set (trim s) \<subseteq> set s"
  using set_strip_all [of ws_chars s] set_strip_all [of "map rev ws_chars" "rev (trim_start s)"]
  by (auto simp: trim_def trim_end_def trim_start_def)

lemma value_to_duration_no_panic: "ascii_body v \<Longrightarrow> value_to_duration v \<noteq> Panic"
proof (cases v)
  case (JStr s)
  assume "ascii_body v"
  with JStr have "\<not> is_cont_byte c" if "c \<in> set (trim s)" for c
    using that set_trim [of s] by (auto elim!: ascii_strE simp: list_all_iff)
  then have "split_at (trim s) (length (trim s) - 1) \<noteq> Panic"
    by (cases "trim s = []") (auto simp: split_at_def is_char_boundary_def)
  with JStr show ?thesis
    by (cases "split_at (trim s) (length (trim s) - 1)")
      (auto simp: parse_duration_token_def Let_def split: option.splits prod.splits)
qed auto

lemma walk_no_panic: "ascii_body v \<Longrightarrow> walk v n \<noteq> Panic"
proof (induction "Suc BODY_DEPTH_CAP - n" arbitrary: v n)
  case 0
  then show ?case by (simp add: walk.simps [of v n])
next
  case (Suc m)
  have IH: "ascii_body w \<Longrightarrow> walk w (Suc n) \<noteq> Panic" for w
    using Suc.hyps(1) [of "Suc n" w] Suc.hyps(2) by auto
  show ?case
  proof (cases v)
    case (JObj kvs)
    have w: "walk w (Suc n) \<noteq> Panic" "value_to_duration w \<noteq> Panic" if "w \<in> snd ` set kvs" for w
      using that Suc.prems JObj IH value_to_duration_no_panic by (auto elim!: ascii_objE)
    have mem: "w \<in> snd ` set kvs" if "map_of kvs key = Some w" for key w
      using that by (force dest: map_of_SomeD)
    have step: "bind_outcome (value_to_duration w)
        (\<lambda>r. case r of None \<Rightarrow> walk w (Suc n) | Some d \<Rightarrow> Ret (Some d)) \<noteq> Panic"
      if "map_of kvs key = Some w" for key w
      using w [OF mem [OF that]] by (cases "value_to_duration w") (auto split: option.splits)
    have "find_map_outcome (\<lambda>key. case map_of kvs key of None \<Rightarrow> Ret None
        | Some w \<Rightarrow> bind_outcome (value_to_duration w)
            (\<lambda>r. case r of None \<Rightarrow> walk w (Suc n) | Some d \<Rightarrow> Ret (Some d))) retry_keys \<noteq> Panic"
      (is "?keys \<noteq> Panic")
      using step by (intro find_map_outcome_no_panic) (auto split: option.splits)
    moreover have "find_map_outcome (\<lambda>w. walk w (Suc n)) (map snd kvs) \<noteq> Panic"
      using w by (intro find_map_outcome_no_panic) auto
    ultimately show ?thesis using JObj
      by (cases ?keys) (auto simp: walk_JObj split: option.splits)
  next
    case (JArr vs)
    then have "find_map_outcome (\<lambda>w. walk w (Suc n)) vs \<noteq> Panic"
      using Suc.prems IH by (intro find_map_outcome_no_panic) (auto elim!: ascii_arrE)
    with JArr show ?thesis by (simp add: walk_JArr)
  qed simp_all
qed

section \<open>Properties\<close>

lemma parse_body_shape_le: "parse_body_shape b = Ret (Some d) \<Longrightarrow> unat d \<le> 86400"
  unfolding parse_body_shape_def by (auto dest!: walk_sound intro: hint_at_le)

text \<open>Whatever the provider sends as header, body or prose, a back-off that \<open>resolve\<close> returns
  is at most 24 hours.\<close>

theorem resolve_clamped:
  "resolve rfc2822 now_ms header body prose = Ret (Some d) \<Longrightarrow> unat d \<le> 86400"
  by (auto simp: resolve_def bind_outcome_Ret parse_retry_after_le parse_prose_le
      split: option.splits dest: parse_body_shape_le)

theorem resolve_clamped_witness:
  "resolve (\<lambda>_. None) 0 (Some ''100000000'') None None = Ret (Some 86400) \<and>
   unat (86400 :: u64) \<le> 86400"
proof -
  have "trim ''100000000'' = ''100000000''"
    by (intro trim_solid) (simp_all add: solid_byte_def)
  then have "resolve (\<lambda>_. None) 0 (Some ''100000000'') None None = Ret (Some 86400)"
    by (simp add: resolve_def parse_retry_after_def parse_u64_def parse_nat_def starts_with_def
        is_digit_def digits_val_def digit_val_def u64_max_def clamp_def MAX_CLAMP_def)
  with resolve_clamped [OF this] show ?thesis by simp
qed

text \<open>On a body whose strings are ASCII the walk never panics; it answers a duration exactly
  when a readable retry field lies at most six containers deep, and then one of those.\<close>

theorem parse_body_shape_spec:
  assumes "ascii_body b"
  shows "parse_body_shape b = Ret None \<and> (\<nexists>k d. k \<le> BODY_DEPTH_CAP \<and> hint_at b k d) \<or>
    (\<exists>d k. parse_body_shape b = Ret (Some d) \<and> k \<le> BODY_DEPTH_CAP \<and> hint_at b k d)"
proof (cases "walk b 0")
  case Panic
  with walk_no_panic [OF assms] show ?thesis by blast
next
  case (Ret r)
  then show ?thesis
    using walk_sound [of b 0] walk_complete [of b _ _ 0]
    by (cases r) (fastforce simp: parse_body_shape_def)+
qed

theorem parse_body_shape_spec_witness:
  "ascii_body (JObj [(''retry_after'', JNum (PosInt 42))]) \<and>
   parse_body_shape (JObj [(''retry_after'', JNum (PosInt 42))]) = Ret (Some 42)"
proof -
  let ?b = "JObj [(''retry_after'', JNum (PosInt 42))]"
  have a: "ascii_body ?b" by (auto intro!: ascii_body.intros)
  have "hint_at ?b 0 42"
    by (rule hint_at.hint_here [of "''retry_after''" _ "JNum (PosInt 42)"])
      (simp_all add: retry_keys_def clamp_def MAX_CLAMP_def min_def)
  then have "parse_body_shape ?b \<noteq> Ret None"
    using walk_complete [of ?b 0 42 0] by (simp add: parse_body_shape_def)
  with parse_body_shape_spec [OF a] obtain d k
    where d: "parse_body_shape ?b = Ret (Some d)" "hint_at ?b k d" by blast
  have "d = 42"
    using d(2)
    by (auto elim!: hint_objE simp: retry_keys_def clamp_def MAX_CLAMP_def min_def split: if_splits)
  with a d show ?thesis by simp
qed

text \<open>A \<open>Retry-After\<close> header in delta-seconds is read back exactly (up to the clamp) and wins
  over whatever the body and the prose say.\<close>

theorem resolve_header_roundtrip:
  "n \<le> u64_max \<Longrightarrow>
   resolve rfc2822 now_ms (Some (dec_nat n)) body prose = Ret (Some (word_of_nat (min n 86400)))"
proof -
  assume n: "n \<le> u64_max"
  have "clamp (word_of_nat n) = word_of_nat (min n 86400)"
    using n by (intro word_unat_eq_iff [THEN iffD2])
      (simp add: unat_clamp u64_max_def unat_of_nat min_def take_bit_nat_eq_self)
  with n show ?thesis
    by (simp add: resolve_def parse_retry_after_def parse_u64_dec)
qed

theorem resolve_header_roundtrip_witness:
  "(120 :: nat) \<le> u64_max \<and> resolve (\<lambda>_. None) 0 (Some (dec_nat 120)) None (Some ''try again in 9 s'')
     = Ret (Some 120)"
  using resolve_header_roundtrip [of 120 "\<lambda>_. None" 0 None "Some ''try again in 9 s''"]
  by (simp add: u64_max_def)

section \<open>Inputs the parser does not read as meant\<close>

text \<open>A delay in milliseconds is taken for minutes: half a second benches for 30000 seconds.\<close>

lemma scan_milliseconds: "scan_number_unit ''500ms'' = Some 30000"
proof -
  have t: "trim_start ''500ms'' = ''500ms''" "trim_start ''ms'' = ''ms''"
    by (simp_all add: trim_start_solid solid_byte_def)
  show ?thesis
    by (simp add: scan_number_unit_def t is_digit_def parse_u64_def parse_nat_def starts_with_def
        digits_val_def digit_val_def u64_max_def clamp_def MAX_CLAMP_def)
qed

text \<open>A bare one-digit string is not read at all, though two digits are.\<close>

lemma token_one_digit: "parse_duration_token ''5'' = Ret None"
proof -
  have "trim ''5'' = ''5''" by (intro trim_solid) (simp_all add: solid_byte_def)
  then show ?thesis
    by (simp add: parse_duration_token_def split_at_def is_char_boundary_def is_cont_byte_def
        parse_u64_def parse_nat_def starts_with_def)
qed

text \<open>A retry string that ends in a multi-byte character (here an ellipsis) panics.\<close>

lemma token_panics: "parse_duration_token [CHR ''a'', CHR 0xE2, CHR 0x80, CHR 0xA6] = Panic"
proof -
  let ?s = "[CHR ''a'', CHR 0xE2, CHR 0x80, CHR 0xA6]"
  have "trim_start ?s = ?s" by (simp add: trim_start_solid solid_byte_def)
  moreover have "strip_prefix_of (map rev ws_chars) (rev ?s) = None"
    by (simp add: strip_prefix_of_def ws_chars_def starts_with_def)
  ultimately have "trim ?s = ?s"
    by (simp add: trim_def trim_end_def strip_all.simps)
  then show ?thesis
    by (simp add: parse_duration_token_def split_at_def is_char_boundary_def is_cont_byte_def)
qed

end
