(* ===== verification/PoolSchema.thy ===== *)
theory PoolSchema
  imports FreePool
begin

text \<open>
  The tables of the free-provider pool, \<open>crates/single-runtime/src/pool/mod.rs\<close>. A table is the list
  of its rows in insertion order, typed by the row structs of \<open>ledger.rs\<close>, \<open>cooldown.rs\<close> and
  \<open>bandit.rs\<close>; INTEGER columns are unbounded integers that the operations keep in the range of
  \<open>i64\<close>. The single row of \<open>pool_config\<close> may be missing, which \<open>cooldown_ceiling\<close> tolerates. SQLite
  itself does not fail here: the operations are the ones on a database that can be read and written.
\<close>

datatype usage_kind = Request | Tokens

datatype provenance = Heuristic | Authoritative | Credit | Tier

fun provenance_str :: "provenance \<Rightarrow> string" where
  "provenance_str Heuristic = ''heuristic''"
| "provenance_str Authoritative = ''authoritative''"
| "provenance_str Credit = ''credit''"
| "provenance_str Tier = ''tier''"

fun usage_kind_str :: "usage_kind \<Rightarrow> string" where
  "usage_kind_str Request = ''request''"
| "usage_kind_str Tokens = ''tokens''"

text \<open>The text columns hold these names, and equal names mean equal values, so the typed rows lose
  nothing.\<close>

lemma provenance_str_inj: "provenance_str a = provenance_str b \<longleftrightarrow> a = b"
  by (cases a; cases b) simp_all

lemma usage_kind_str_inj: "usage_kind_str a = usage_kind_str b \<longleftrightarrow> a = b"
  by (cases a; cases b) simp_all

record usage_event =
  ue_platform :: string
  ue_model :: string
  ue_key_id :: string
  ue_kind :: usage_kind
  ue_amount :: int
  ue_at_ms :: int

record lease =
  lease_id :: string
  le_platform :: string
  le_model :: string
  le_key_id :: string
  est_tokens :: u64
  acquired_at_ms :: int

record cooldown_row =
  cd_platform :: string
  cd_model :: string
  cd_key_id :: string
  until_ms :: int
  cd_provenance :: provenance
  hits :: int
  hits_window_start_ms :: int
  bench_start_ms :: int

record pool_db =
  pool_usage :: "usage_event list"
  pool_leases :: "lease list"
  pool_cooldowns :: "cooldown_row list"
  pool_config :: "int option"

definition empty_pool_db :: pool_db where
  "empty_pool_db =
     \<lparr>pool_usage = [], pool_leases = [], pool_cooldowns = [], pool_config = None\<rparr>"

text \<open>\<open>CREATE TABLE IF NOT EXISTS\<close> keeps every row, and the \<open>INSERT OR IGNORE\<close> of the configuration
  row keeps an operator's override across restarts.\<close>

definition ensure_pool_schema :: "pool_db \<Rightarrow> pool_db" where
  "ensure_pool_schema db =
     db\<lparr>pool_config := (case pool_config db of None \<Rightarrow> Some 86400000 | Some c \<Rightarrow> Some c)\<rparr>"

lemma ensure_pool_schema_idem: "ensure_pool_schema (ensure_pool_schema db) = ensure_pool_schema db"
  by (simp add: ensure_pool_schema_def split: option.splits)

end
