(* ===== verification/Cooldown.thy ===== *)
theory Cooldown
  imports PoolSchema
begin

text \<open>
  Cooldowns, \<open>crates/single-runtime/src/pool/cooldown.rs\<close>: \<open>bench\<close> puts a (platform, model, key)
  out of use until a time that depends on the kind of failure, with an escalation ladder over the
  hits of a 24 hour window; \<open>is_benched\<close>, \<open>clear_hits\<close>, \<open>clear\<close> and the probe candidates read and
  reset the rows. Times are milliseconds; a \<open>Duration\<close> is its whole milliseconds and its cast to
  \<open>i64\<close> is the cast of the code.
\<close>

definition TRANSIENT_MS :: int where "TRANSIENT_MS = 90 * 1000"

definition ESCALATION_LADDER_MS :: "int list" where
  "ESCALATION_LADDER_MS = [2 * 60 * 1000, 10 * 60 * 1000, 60 * 60 * 1000, 24 * 60 * 60 * 1000]"

definition HITS_WINDOW_MS :: int where "HITS_WINDOW_MS = 24 * 60 * 60 * 1000"

definition PAYMENT_OR_TIER_MS :: int where "PAYMENT_OR_TIER_MS = 24 * 60 * 60 * 1000"

definition AUTH_BENCHED_MS :: int where "AUTH_BENCHED_MS = 5 * 60 * 1000"

definition LOCAL_ERROR_MS :: int where "LOCAL_ERROR_MS = 5 * 1000"

datatype bench_kind = Transient | Escalated | PaymentRequired | TierGate | AuthBenched | LocalError
  | AuthoritativeFor nat

text \<open>\<open>Duration::as_millis() as i64\<close>.\<close>

definition millis_i64 :: "nat \<Rightarrow> int" where
  "millis_i64 ms = as_i64 (word_of_nat ms)"

definition cooldown_ceiling :: "pool_db \<Rightarrow> nat" where
  "cooldown_ceiling db =
     unat (as_u64 (case pool_config db of Some ms \<Rightarrow> ms | None \<Rightarrow> 24 * 60 * 60 * 1000))"

definition set_cooldown_ceiling :: "nat \<Rightarrow> pool_db \<Rightarrow> pool_db" where
  "set_cooldown_ceiling d db =
     db\<lparr>pool_config := map_option (\<lambda>_. millis_i64 d) (pool_config db)\<rparr>"

definition cd_is :: "string \<Rightarrow> string \<Rightarrow> string \<Rightarrow> cooldown_row \<Rightarrow> bool" where
  "cd_is platform model key r \<longleftrightarrow>
     cd_platform r = platform \<and> cd_model r = model \<and> cd_key_id r = key"

definition load_row :: "string \<Rightarrow> string \<Rightarrow> string \<Rightarrow> pool_db \<Rightarrow> cooldown_row option" where
  "load_row platform model key db = find (cd_is platform model key) (pool_cooldowns db)"

text \<open>\<open>INSERT .. ON CONFLICT(platform, model, key_id) DO UPDATE\<close>.\<close>

definition upsert_row :: "cooldown_row \<Rightarrow> pool_db \<Rightarrow> pool_db" where
  "upsert_row r db =
     (let k = cd_is (cd_platform r) (cd_model r) (cd_key_id r)
      in db\<lparr>pool_cooldowns :=
          (if exists_where k (pool_cooldowns db)
           then update_where k (\<lambda>_. r) (pool_cooldowns db)
           else pool_cooldowns db @ [r])\<rparr>)"

fun bench_base :: "bench_kind \<Rightarrow> provenance \<times> int \<times> bool" where
  "bench_base Transient = (Heuristic, TRANSIENT_MS, True)"
| "bench_base Escalated = (Heuristic, 0, True)"
| "bench_base PaymentRequired = (Credit, PAYMENT_OR_TIER_MS, False)"
| "bench_base TierGate = (Tier, PAYMENT_OR_TIER_MS, False)"
| "bench_base AuthBenched = (Heuristic, AUTH_BENCHED_MS, False)"
| "bench_base LocalError = (Heuristic, LOCAL_ERROR_MS, False)"
| "bench_base (AuthoritativeFor d) = (Authoritative, millis_i64 d, False)"

definition ladder_delay :: "int \<Rightarrow> int" where
  "ladder_delay h =
     (if h \<le> 1 then TRANSIENT_MS
      else ESCALATION_LADDER_MS ! nat (min (max (h - 2) 0) (int (length ESCALATION_LADDER_MS) - 1)))"

definition bench ::
    "string \<Rightarrow> string \<Rightarrow> string \<Rightarrow> bench_kind \<Rightarrow> int \<Rightarrow> pool_db \<Rightarrow> int \<times> pool_db" where
  "bench platform model key kind now_ms db =
     (let (prov, base_ms, enters_ladder) = bench_base kind;
          existing = load_row platform model key db;
          (h0, w0) =
            (case existing of
               Some row \<Rightarrow>
                 if enters_ladder \<and> now_ms - hits_window_start_ms row < HITS_WINDOW_MS
                 then (hits row, hits_window_start_ms row) else (0, now_ms)
             | None \<Rightarrow> (0, now_ms));
          (h, w, delay_ms) =
            (if enters_ladder then (h0 + 1, w0, ladder_delay (h0 + 1))
             else case existing of
               Some row \<Rightarrow> (hits row, hits_window_start_ms row, base_ms)
             | None \<Rightarrow> (h0, w0, base_ms));
          ceiling_ms = millis_i64 (cooldown_ceiling db);
          capped_ms = (if prov = Authoritative then delay_ms else min delay_ms ceiling_ms);
          until = now_ms + capped_ms
      in (until,
          upsert_row
            \<lparr>cd_platform = platform, cd_model = model, cd_key_id = key, until_ms = until,
             cd_provenance = prov, hits = h, hits_window_start_ms = w, bench_start_ms = now_ms\<rparr> db))"

definition is_benched :: "string \<Rightarrow> string \<Rightarrow> string \<Rightarrow> int \<Rightarrow> pool_db \<Rightarrow> int option" where
  "is_benched platform model key now_ms db =
     (case load_row platform model key db of
        Some r \<Rightarrow> if until_ms r > now_ms then Some (until_ms r) else None
      | None \<Rightarrow> None)"

definition clear_hits :: "string \<Rightarrow> string \<Rightarrow> string \<Rightarrow> pool_db \<Rightarrow> pool_db" where
  "clear_hits platform model key db =
     db\<lparr>pool_cooldowns :=
         update_where (cd_is platform model key)
           (\<lambda>r. r\<lparr>hits := 0, hits_window_start_ms := 0\<rparr>) (pool_cooldowns db)\<rparr>"

definition clear :: "string option \<Rightarrow> pool_db \<Rightarrow> pool_db" where
  "clear key_id db =
     db\<lparr>pool_cooldowns :=
         (case key_id of
            Some k \<Rightarrow> delete_where (\<lambda>r. cd_key_id r = k) (pool_cooldowns db)
          | None \<Rightarrow> [])\<rparr>"

text \<open>Rust's integer division truncates; the total is at least 1, so it agrees with \<open>div\<close>.\<close>

definition heuristic_probe_candidates :: "int \<Rightarrow> pool_db \<Rightarrow> (string \<times> string \<times> string) list" where
  "heuristic_probe_candidates now_ms db =
     List.map_filter
       (\<lambda>r. let remaining = until_ms r - now_ms;
                total = max (until_ms r - bench_start_ms r) 1;
                half_elapsed = (now_ms - bench_start_ms r \<ge> total div 2)
            in if remaining > 60000 \<and> half_elapsed
               then Some (cd_platform r, cd_model r, cd_key_id r) else None)
       (filter (\<lambda>r. cd_provenance r = Heuristic \<and> until_ms r > now_ms) (pool_cooldowns db))"

section \<open>Rows by key\<close>

definition cd_key :: "cooldown_row \<Rightarrow> string \<times> string \<times> string" where
  "cd_key r = (cd_platform r, cd_model r, cd_key_id r)"

lemma cd_is_iff: "cd_is p m k r \<longleftrightarrow> cd_key r = (p, m, k)"
  by (auto simp: cd_is_def cd_key_def)

definition cooldowns_ok :: "pool_db \<Rightarrow> bool" where
  "cooldowns_ok db = distinct (map cd_key (pool_cooldowns db))"

lemma load_row_upsert:
  "load_row p m k (upsert_row r db) = (if cd_key r = (p, m, k) then Some r else load_row p m k db)"
proof (cases "exists_where (cd_is (cd_platform r) (cd_model r) (cd_key_id r)) (pool_cooldowns db)")
  case True
  have "find (cd_is p m k) (update_where (cd_is (cd_platform r) (cd_model r) (cd_key_id r)) (\<lambda>_. r) t) =
      (if cd_key r = (p, m, k) then Some r else find (cd_is p m k) t)"
    if "exists_where (cd_is (cd_platform r) (cd_model r) (cd_key_id r)) t" for t
    using that
  proof (induction t)
    case Nil
    then show ?case by (simp add: exists_where_def)
  next
    case (Cons x t)
    then show ?case
      by (cases "exists_where (cd_is (cd_platform r) (cd_model r) (cd_key_id r)) t")
        (auto simp: exists_where_def cd_is_def cd_key_def list_ex_iff update_where_none)
  qed
  with True show ?thesis by (simp add: load_row_def upsert_row_def Let_def)
next
  case False
  then have "find (cd_is p m k) (pool_cooldowns db) = None" if "cd_key r = (p, m, k)"
    using that by (auto simp: exists_where_def list_ex_iff find_None_iff cd_is_def cd_key_def)
  moreover have "find q (t @ [r]) = (case find q t of None \<Rightarrow> if q r then Some r else None | Some x \<Rightarrow> Some x)"
    for q and t :: "cooldown_row list" by (induction t) auto
  ultimately show ?thesis using False
    by (auto simp: load_row_def upsert_row_def Let_def cd_is_iff split: option.splits)
qed

lemma upsert_config [frame_simps]: "pool_config (upsert_row r db) = pool_config db"
  by (simp add: upsert_row_def Let_def)

lemma upsert_ok: "cooldowns_ok db \<Longrightarrow> cooldowns_ok (upsert_row r db)"
proof -
  assume ok: "cooldowns_ok db"
  have "map cd_key (update_where (cd_is (cd_platform r) (cd_model r) (cd_key_id r)) (\<lambda>_. r) t) = map cd_key t"
    for t by (rule map_update_where) (auto simp: cd_is_iff cd_key_def)
  with ok show ?thesis
    by (auto simp: cooldowns_ok_def upsert_row_def Let_def table_simps cd_is_iff cd_key_def)
qed

lemma cooldown_ceiling_upsert [simp]: "cooldown_ceiling (upsert_row r db) = cooldown_ceiling db"
  by (simp add: cooldown_ceiling_def upsert_config)

section \<open>One bench\<close>

definition enters_ladder :: "bench_kind \<Rightarrow> bool" where
  "enters_ladder kind = snd (snd (bench_base kind))"

lemma enters_ladder_iff: "enters_ladder kind \<longleftrightarrow> kind = Transient \<or> kind = Escalated"
  by (cases kind) (simp_all add: enters_ladder_def)

definition is_authoritative :: "bench_kind \<Rightarrow> bool" where
  "is_authoritative kind = (fst (bench_base kind) = Authoritative)"

text \<open>The hit counter and the start of its window after a bench.\<close>

definition bench_hits :: "cooldown_row option \<Rightarrow> bench_kind \<Rightarrow> int \<Rightarrow> int \<times> int" where
  "bench_hits existing kind now_ms =
     (case existing of
        None \<Rightarrow> (if enters_ladder kind then 1 else 0, now_ms)
      | Some row \<Rightarrow>
          if \<not> enters_ladder kind then (hits row, hits_window_start_ms row)
          else if now_ms - hits_window_start_ms row < HITS_WINDOW_MS
          then (hits row + 1, hits_window_start_ms row) else (1, now_ms))"

definition bench_delay :: "cooldown_row option \<Rightarrow> bench_kind \<Rightarrow> int \<Rightarrow> int" where
  "bench_delay existing kind now_ms =
     (if enters_ladder kind then ladder_delay (fst (bench_hits existing kind now_ms))
      else fst (snd (bench_base kind)))"

lemma bench_until:
  "fst (bench p m k kind now db) =
     now + (if is_authoritative kind then bench_delay (load_row p m k db) kind now
            else min (bench_delay (load_row p m k db) kind now) (millis_i64 (cooldown_ceiling db)))"
  by (cases kind) (auto simp: bench_def Let_def bench_delay_def bench_hits_def is_authoritative_def
      enters_ladder_def split: option.splits prod.splits)

lemma load_row_bench:
  "load_row p' m' k' (snd (bench p m k kind now db)) =
     (if (p', m', k') = (p, m, k)
      then Some \<lparr>cd_platform = p, cd_model = m, cd_key_id = k,
                 until_ms = fst (bench p m k kind now db), cd_provenance = fst (bench_base kind),
                 hits = fst (bench_hits (load_row p m k db) kind now),
                 hits_window_start_ms = snd (bench_hits (load_row p m k db) kind now),
                 bench_start_ms = now\<rparr>
      else load_row p' m' k' db)"
  by (cases kind) (auto simp: bench_def Let_def bench_hits_def enters_ladder_def load_row_upsert
      cd_key_def split: option.splits prod.splits)

lemma bench_upsert: "\<exists>r. snd (bench p m k kind now db) = upsert_row r db"
  by (auto simp: bench_def Let_def split: prod.splits)

lemma cooldown_ceiling_bench [simp]:
  "cooldown_ceiling (snd (bench p m k kind now db)) = cooldown_ceiling db"
  using bench_upsert [of p m k kind now db] by auto

lemma millis_i64_small: "d < 2 ^ 63 \<Longrightarrow> millis_i64 d = int d"
proof -
  assume d: "d < 2 ^ 63"
  then have "unat (word_of_nat d :: u64) = d"
    by (simp add: unat_of_nat take_bit_nat_eq_self)
  with d show ?thesis by (simp add: millis_i64_def as_i64_small)
qed

lemma ladder_delay_eq:
  "ladder_delay h =
     (if h \<le> 1 then 90000 else if h = 2 then 120000 else if h = 3 then 600000
      else if h = 4 then 3600000 else 86400000)"
proof -
  consider "h \<le> 1" | "h = 2" | "h = 3" | "h = 4" | "h \<ge> 5" by linarith
  then show ?thesis
    by cases (simp_all add: ladder_delay_def ESCALATION_LADDER_MS_def TRANSIENT_MS_def min_def max_def
        numeral_2_eq_2 numeral_3_eq_3)
qed

lemma ladder_delay_mono: "a \<le> b \<Longrightarrow> ladder_delay a \<le> ladder_delay b"
  by (simp add: ladder_delay_eq)

section \<open>Properties\<close>

lemma bench_row_hits:
  obtains r where "load_row p m k (snd (bench p m k kind now db)) = Some r"
    "hits r = fst (bench_hits (load_row p m k db) kind now)"
    "hits_window_start_ms r = snd (bench_hits (load_row p m k db) kind now)"
  by (simp add: load_row_bench)

text \<open>A run of benches of one key.\<close>

fun bench_all :: "string \<Rightarrow> string \<Rightarrow> string \<Rightarrow> (bench_kind \<times> int) list \<Rightarrow> pool_db \<Rightarrow> int list \<times> pool_db" where
  "bench_all p m k [] db = ([], db)"
| "bench_all p m k ((kind, now) # evs) db =
     (let (u, db1) = bench p m k kind now db; (us, db2) = bench_all p m k evs db1 in (u # us, db2))"

text \<open>The untils the ladder promises for successive hits numbered from \<open>h\<close>.\<close>

fun ladder_untils :: "int \<Rightarrow> int \<Rightarrow> (bench_kind \<times> int) list \<Rightarrow> int list" where
  "ladder_untils ceil h [] = []"
| "ladder_untils ceil h ((kind, now) # evs) =
     (now + min (ladder_delay h) ceil) # ladder_untils ceil (h + 1) evs"

lemma ladder_from_row:
  assumes "load_row p m k db = Some row" "hits row = h" "hits_window_start_ms row = w"
    and "list_all (\<lambda>(kind, now). enters_ladder kind \<and> now - w < HITS_WINDOW_MS) evs"
  shows "fst (bench_all p m k evs db) =
    ladder_untils (millis_i64 (cooldown_ceiling db)) (h + 1) evs"
  using assms
proof (induction evs arbitrary: db row h)
  case Nil
  then show ?case by simp
next
  case (Cons ev evs)
  obtain kind now where ev: "ev = (kind, now)" by (cases ev)
  let ?db = "snd (bench p m k kind now db)"
  have l: "enters_ladder kind" "now - w < HITS_WINDOW_MS" using Cons.prems(4) ev by simp_all
  then have na: "\<not> is_authoritative kind" by (auto simp: enters_ladder_iff is_authoritative_def)
  have hits: "bench_hits (Some row) kind now = (h + 1, w)"
    using Cons.prems(2,3) l by (simp add: bench_hits_def)
  obtain r where r: "load_row p m k ?db = Some r" "hits r = h + 1" "hits_window_start_ms r = w"
    using bench_row_hits [of p m k kind now db] Cons.prems(1) hits by auto
  have "fst (bench_all p m k evs ?db) = ladder_untils (millis_i64 (cooldown_ceiling ?db)) (h + 1 + 1) evs"
    using Cons.IH [OF r] Cons.prems(4) by simp
  moreover have "fst (bench p m k kind now db) =
      now + min (ladder_delay (h + 1)) (millis_i64 (cooldown_ceiling db))"
    using Cons.prems(1) na l hits by (simp add: bench_until bench_delay_def)
  ultimately show ?case by (simp add: ev split_beta)
qed

text \<open>Benches of a fresh key that fall into the 24 hours after the first climb the ladder
  90 s, 2 min, 10 min, 1 h, 24 h, 24 h and so on, each capped by the operator's ceiling.\<close>

theorem ladder_escalates:
  assumes "load_row p m k db = None"
    and "enters_ladder kind0"
    and "list_all (\<lambda>(kind, now). enters_ladder kind \<and> now - t0 < HITS_WINDOW_MS) evs"
  shows "fst (bench_all p m k ((kind0, t0) # evs) db) =
    ladder_untils (millis_i64 (cooldown_ceiling db)) 1 ((kind0, t0) # evs)"
proof -
  let ?db = "snd (bench p m k kind0 t0 db)"
  have na: "\<not> is_authoritative kind0"
    using assms(2) by (auto simp: enters_ladder_iff is_authoritative_def)
  have hits: "bench_hits None kind0 t0 = (1, t0)"
    using assms(2) by (simp add: bench_hits_def)
  have first: "fst (bench p m k kind0 t0 db) = t0 + min (ladder_delay 1) (millis_i64 (cooldown_ceiling db))"
    using na assms(1,2) hits by (simp add: bench_until bench_delay_def)
  obtain r where r: "load_row p m k ?db = Some r" "hits r = 1" "hits_window_start_ms r = t0"
    using bench_row_hits [of p m k kind0 t0 db] assms(1) hits by auto
  have "fst (bench_all p m k evs ?db) = ladder_untils (millis_i64 (cooldown_ceiling ?db)) (1 + 1) evs"
    using ladder_from_row [OF r assms(3)] by simp
  with first show ?thesis
    by (simp add: split_beta)
qed

theorem ladder_escalates_witness:
  "fst (bench_all ''groq'' ''m'' ''k1'' [(Transient, 0), (Escalated, 1000), (Transient, 2000)]
      (ensure_pool_schema empty_pool_db)) = [90000, 121000, 602000]"
proof -
  let ?db = "ensure_pool_schema empty_pool_db"
  have "load_row ''groq'' ''m'' ''k1'' ?db = None"
    by (simp add: load_row_def ensure_pool_schema_def empty_pool_db_def)
  moreover have "list_all (\<lambda>(kind, now). enters_ladder kind \<and> now - 0 < HITS_WINDOW_MS)
      [(Escalated, 1000), (Transient, 2000)]"
    by (simp add: enters_ladder_iff HITS_WINDOW_MS_def)
  moreover have "millis_i64 (cooldown_ceiling ?db) = 86400000"
    by (simp add: cooldown_ceiling_def ensure_pool_schema_def empty_pool_db_def as_u64_def
        millis_i64_small)
  ultimately show ?thesis
    using ladder_escalates [of "''groq''" "''m''" "''k1''" ?db Transient 0 "[(Escalated, 1000), (Transient, 2000)]"]
    by (simp add: enters_ladder_iff ladder_delay_eq del: bench_all.simps)
qed

text \<open>The operator's ceiling bounds every bench except one with a provider-stated time,
  and that one lasts exactly as long as the provider said.\<close>

theorem bench_ceiling:
  "(\<not> is_authoritative kind \<longrightarrow>
      fst (bench p m k kind now db) \<le> now + millis_i64 (cooldown_ceiling db)) \<and>
   (\<forall>d. kind = AuthoritativeFor d \<and> d < 2 ^ 63 \<longrightarrow> fst (bench p m k kind now db) = now + int d)"
  by (auto simp: bench_until is_authoritative_def bench_delay_def enters_ladder_def millis_i64_small)

theorem bench_ceiling_witness:
  "\<not> is_authoritative PaymentRequired \<and>
   fst (bench ''groq'' ''m'' ''k1'' PaymentRequired 5
     (set_cooldown_ceiling 1000 (ensure_pool_schema empty_pool_db))) \<le> 1005"
proof -
  let ?db = "set_cooldown_ceiling 1000 (ensure_pool_schema empty_pool_db)"
  have "millis_i64 (cooldown_ceiling ?db) = 1000"
    by (simp add: cooldown_ceiling_def set_cooldown_ceiling_def ensure_pool_schema_def
        empty_pool_db_def millis_i64_small as_u64_def)
  with bench_ceiling [of PaymentRequired "''groq''" "''m''" "''k1''" 5 ?db]
  show ?thesis by (simp add: is_authoritative_def)
qed

text \<open>After a bench the key is out of use exactly until the time \<open>bench\<close> returned, and no
  other (platform, model, key) is affected.\<close>

theorem benched_exactly_until:
  "is_benched p' m' k' t (snd (bench p m k kind now db)) =
     (if (p', m', k') = (p, m, k)
      then (let u = fst (bench p m k kind now db) in if t < u then Some u else None)
      else is_benched p' m' k' t db)"
  by (auto simp: is_benched_def load_row_bench Let_def split: option.splits)

lemma load_row_clear_hits:
  "load_row p m k (clear_hits p m k db) =
     map_option (\<lambda>r. r\<lparr>hits := 0, hits_window_start_ms := 0\<rparr>) (load_row p m k db)"
proof -
  have "find (cd_is p m k) (update_where (cd_is p m k) f t) = map_option f (find (cd_is p m k) t)"
    if "\<And>r. cd_is p m k (f r) = cd_is p m k r" for f t
    using that by (induction t) auto
  then show ?thesis
    by (simp add: load_row_def clear_hits_def cd_is_def)
qed

text \<open>A success de-escalates: whatever the history, the next transient bench after
  \<open>clear_hits\<close> is the first rung, and the bench in force is left alone.\<close>

theorem clear_hits_deescalates:
  "enters_ladder kind \<Longrightarrow>
   fst (bench p m k kind now (clear_hits p m k db)) =
     now + min 90000 (millis_i64 (cooldown_ceiling db)) \<and>
   is_benched p m k t (clear_hits p m k db) = is_benched p m k t db"
proof -
  assume l: "enters_ladder kind"
  have c: "cooldown_ceiling (clear_hits p m k db) = cooldown_ceiling db"
    by (simp add: cooldown_ceiling_def clear_hits_def)
  have "\<not> is_authoritative kind" using l by (auto simp: enters_ladder_iff is_authoritative_def)
  moreover have "fst (bench_hits (load_row p m k (clear_hits p m k db)) kind now) = 1"
    using l by (auto simp: load_row_clear_hits bench_hits_def split: option.splits)
  ultimately show ?thesis using l c
    by (auto simp: bench_until bench_delay_def ladder_delay_eq is_benched_def load_row_clear_hits
        split: option.splits)
qed

theorem clear_hits_deescalates_witness:
  "enters_ladder Transient \<and>
   fst (bench ''groq'' ''m'' ''k1'' Transient 7 (clear_hits ''groq'' ''m'' ''k1''
      (snd (bench_all ''groq'' ''m'' ''k1'' [(Transient, 0), (Transient, 1)] (ensure_pool_schema empty_pool_db)))))
     = 7 + min 90000 (millis_i64 (cooldown_ceiling
      (snd (bench_all ''groq'' ''m'' ''k1'' [(Transient, 0), (Transient, 1)] (ensure_pool_schema empty_pool_db)))))"
  using clear_hits_deescalates [of Transient "''groq''" "''m''" "''k1''" 7
      "snd (bench_all ''groq'' ''m'' ''k1'' [(Transient, 0), (Transient, 1)] (ensure_pool_schema empty_pool_db))" 0]
  by (simp add: enters_ladder_iff)

lemma probe_candidate_row:
  "(p, m, k) \<in> set (heuristic_probe_candidates now db) \<Longrightarrow>
   \<exists>r \<in> set (pool_cooldowns db). cd_key r = (p, m, k) \<and> cd_provenance r = Heuristic \<and>
     until_ms r > now + 60000 \<and> now - bench_start_ms r \<ge> max (until_ms r - bench_start_ms r) 1 div 2"
  by (auto simp: heuristic_probe_candidates_def Let_def map_filter_def cd_key_def split: if_splits)

text \<open>Only a guess is ever probed early: right after a bench of a key, the key is a probe
  candidate only when its kind is heuristic, it is still benched for more than a minute and half the
  bench is over; a bench stated by the provider, for payment or for the tier never is, nor is the
  first rung.\<close>

theorem probe_only_heuristic:
  assumes ok: "cooldowns_ok db"
    and c: "(p, m, k) \<in> set (heuristic_probe_candidates t (snd (bench p m k kind now db)))"
  shows "fst (bench_base kind) = Heuristic \<and>
    t + 60000 < fst (bench p m k kind now db) \<and>
    2 * (t - now) + 1 \<ge> fst (bench p m k kind now db) - now \<and>
    120000 \<le> fst (bench p m k kind now db) - now"
proof -
  let ?db = "snd (bench p m k kind now db)" and ?u = "fst (bench p m k kind now db)"
  have okb: "cooldowns_ok ?db" using bench_upsert [of p m k kind now db] upsert_ok [OF ok] by auto
  obtain r where r: "r \<in> set (pool_cooldowns ?db)" "cd_key r = (p, m, k)" "cd_provenance r = Heuristic"
      "until_ms r > t + 60000" "t - bench_start_ms r \<ge> max (until_ms r - bench_start_ms r) 1 div 2"
    using probe_candidate_row [OF c] by blast
  have "find (\<lambda>x. cd_key x = cd_key r) (pool_cooldowns ?db) = Some r"
    using okb r(1) by (intro find_unique) (simp_all add: cooldowns_ok_def)
  then have "load_row p m k ?db = Some r"
    using r(2) by (simp add: load_row_def cd_is_iff [abs_def])
  then have eq: "until_ms r = ?u" "bench_start_ms r = now" "cd_provenance r = fst (bench_base kind)"
    by (auto simp: load_row_bench)
  have "x div 2 \<le> y \<Longrightarrow> x \<le> 2 * y + 1" for x y :: int by presburger
  then have half: "max (?u - now) 1 \<le> 2 * (t - now) + 1" using r(5) unfolding eq by blast
  have gap: "?u - now \<le> 2 * (t - now) + 1" "t + 60000 < ?u" "fst (bench_base kind) = Heuristic"
    using half r(3,4) eq by simp_all
  have arith: "u - n \<le> 2 * (s - n) + 1 \<Longrightarrow> s + 60000 < u \<Longrightarrow> 120000 \<le> u - n" for u n s :: int
    by presburger
  have "120000 \<le> ?u - now" by (rule arith [OF gap(1,2)])
  with gap show ?thesis by simp
qed

theorem probe_only_heuristic_witness:
  "cooldowns_ok empty_pool_db \<and>
   (''groq'', ''m'', ''k1'') \<in> set (heuristic_probe_candidates 160000
     (snd (bench ''groq'' ''m'' ''k1'' AuthBenched 0 empty_pool_db))) \<and>
   120000 \<le> fst (bench ''groq'' ''m'' ''k1'' AuthBenched 0 empty_pool_db)"
proof -
  let ?b = "bench ''groq'' ''m'' ''k1'' AuthBenched 0 empty_pool_db"
  have c: "millis_i64 (cooldown_ceiling empty_pool_db) = 86400000"
    by (simp add: cooldown_ceiling_def empty_pool_db_def as_u64_def millis_i64_small)
  have ok: "cooldowns_ok empty_pool_db" by (simp add: cooldowns_ok_def empty_pool_db_def)
  have mem: "(''groq'', ''m'', ''k1'') \<in> set (heuristic_probe_candidates 160000 (snd ?b))"
    using c by (simp add: bench_def load_row_def empty_pool_db_def upsert_row_def
        heuristic_probe_candidates_def exists_where_def AUTH_BENCHED_MS_def map_filter_def Let_def)
  with ok probe_only_heuristic [OF ok mem] show ?thesis by simp
qed

end
