(* ===== verification/Ledger.thy ===== *)
theory Ledger
  imports PoolSchema
begin

text \<open>
  The quota ledger, \<open>crates/single-runtime/src/pool/ledger.rs\<close>: recorded usage, in-flight leases and
  admission over four windows (requests and tokens, per minute and per UTC day). Token and request
  amounts are 64-bit words that wrap as in the release build; an SQLite SUM that leaves the range of
  \<open>i64\<close> is an error, which the code reads as zero. Whether an INSERT into \<open>pool_usage\<close> succeeds is
  an argument of \<open>record_usage\<close>, the process-wide fallback list is explicit, and the clock of
  \<open>acquire_lease\<close> and \<open>live_leases\<close> is an argument. A day is 86400000 ms, as \<open>chrono\<close> counts it.
\<close>

definition LEASE_BACKSTOP_MS :: int where "LEASE_BACKSTOP_MS = 2 * 60 * 1000"

definition MEMORY_FALLBACK_CAP :: nat where "MEMORY_FALLBACK_CAP = 10000"

datatype window_kind = Rpm | Rpd | Tpm | Tpd

datatype admit_result = AdmitOk | Denied window_kind int

record mem_event =
  me_platform :: string
  me_model :: string
  me_key_id :: string
  me_kind :: usage_kind
  me_amount :: u64
  me_at_ms :: int

definition next_utc_midnight_ms :: "int \<Rightarrow> int" where
  "next_utc_midnight_ms now_ms = (now_ms div 86400000 + 1) * 86400000"

fun window_start_ms :: "window_kind \<Rightarrow> int \<Rightarrow> int" where
  "window_start_ms Rpm now_ms = now_ms - 60000"
| "window_start_ms Tpm now_ms = now_ms - 60000"
| "window_start_ms Rpd now_ms = next_utc_midnight_ms (now_ms - 1) - 24 * 60 * 60 * 1000"
| "window_start_ms Tpd now_ms = next_utc_midnight_ms (now_ms - 1) - 24 * 60 * 60 * 1000"

fun window_kind_for :: "usage_kind \<Rightarrow> window_kind \<Rightarrow> bool" where
  "window_kind_for Request Rpm = True"
| "window_kind_for Request Rpd = True"
| "window_kind_for Tokens Tpm = True"
| "window_kind_for Tokens Tpd = True"
| "window_kind_for _ _ = False"

text \<open>\<open>SELECT SUM(..)\<close>, with an overflow and the sum over no rows both read as 0.\<close>

definition sql_sum :: "int list \<Rightarrow> u64" where
  "sql_sum amounts =
     (let s = sum_list amounts
      in if i64_min \<le> s \<and> s \<le> i64_max then as_u64 (max s 0) else 0)"

definition usage_rows ::
    "string \<Rightarrow> string \<Rightarrow> string \<Rightarrow> usage_kind \<Rightarrow> int \<Rightarrow> pool_db \<Rightarrow> usage_event list" where
  "usage_rows platform model key kind since_ms db =
     filter (\<lambda>e. ue_platform e = platform \<and> ue_model e = model \<and> ue_key_id e = key \<and>
               ue_kind e = kind \<and> ue_at_ms e \<ge> since_ms) (pool_usage db)"

definition recorded_sum ::
    "string \<Rightarrow> string \<Rightarrow> string \<Rightarrow> usage_kind \<Rightarrow> int \<Rightarrow> pool_db \<Rightarrow> u64" where
  "recorded_sum platform model key kind since_ms db =
     sql_sum (map ue_amount (usage_rows platform model key kind since_ms db))"

definition recorded_sum_fallback ::
    "string \<Rightarrow> string \<Rightarrow> string \<Rightarrow> usage_kind \<Rightarrow> int \<Rightarrow> mem_event list \<Rightarrow> u64" where
  "recorded_sum_fallback platform model key kind since_ms events =
     sum_list (map me_amount
       (filter (\<lambda>e. me_platform e = platform \<and> me_model e = model \<and> me_key_id e = key \<and>
                  me_kind e = kind \<and> me_at_ms e \<ge> since_ms) events))"

definition recorded_requests_since :: "string \<Rightarrow> string \<Rightarrow> int \<Rightarrow> pool_db \<Rightarrow> u64" where
  "recorded_requests_since platform key since_ms db =
     sql_sum (map ue_amount
       (filter (\<lambda>e. ue_platform e = platform \<and> ue_key_id e = key \<and> ue_kind e = Request \<and>
                  ue_at_ms e \<ge> since_ms) (pool_usage db)))"

text \<open>\<open>record\<close>: one INSERT; when it fails the event goes to the bounded in-memory list.\<close>

definition record_usage ::
    "bool \<Rightarrow> string \<Rightarrow> string \<Rightarrow> string \<Rightarrow> usage_kind \<Rightarrow> u64 \<Rightarrow> int \<Rightarrow>
     pool_db \<times> mem_event list \<Rightarrow> pool_db \<times> mem_event list" where
  "record_usage insert_ok platform model key kind amount at_ms st =
     (let (db, events) = st in
      if insert_ok
      then (db\<lparr>pool_usage := pool_usage db @
              [\<lparr>ue_platform = platform, ue_model = model, ue_key_id = key, ue_kind = kind,
                ue_amount = as_i64 amount, ue_at_ms = at_ms\<rparr>]\<rparr>, events)
      else
        (let events = (if length events \<ge> MEMORY_FALLBACK_CAP then drop 1 events else events)
         in (db, events @
              [\<lparr>me_platform = platform, me_model = model, me_key_id = key, me_kind = kind,
                me_amount = amount, me_at_ms = at_ms\<rparr>])))"

definition uuid_v4 :: "int \<Rightarrow> nat \<Rightarrow> string" where
  "uuid_v4 now_ms n = ''lease-'' @ dec_int now_ms @ ''-'' @ dec_nat n"

text \<open>\<open>acquire_lease\<close>: the counter \<open>n\<close> is the process-wide one; the primary key refuses a second
  lease of the same id.\<close>

definition acquire_lease ::
    "int \<Rightarrow> nat \<Rightarrow> string \<Rightarrow> string \<Rightarrow> string \<Rightarrow> u64 \<Rightarrow> pool_db \<Rightarrow> lease result \<times> pool_db" where
  "acquire_lease now_ms n platform model key tokens db =
     (let lid = uuid_v4 now_ms n;
          l = \<lparr>lease_id = lid, le_platform = platform, le_model = model, le_key_id = key,
               est_tokens = tokens, acquired_at_ms = now_ms\<rparr>
      in if exists_where (\<lambda>x. lease_id x = lid) (pool_leases db)
         then (Inl ''UNIQUE constraint failed: pool_leases.lease_id'', db)
         else (Inr l, db\<lparr>pool_leases := pool_leases db @ [l]\<rparr>))"

definition release_lease :: "string \<Rightarrow> pool_db \<Rightarrow> pool_db" where
  "release_lease lid db =
     db\<lparr>pool_leases := delete_where (\<lambda>l. lease_id l = lid) (pool_leases db)\<rparr>"

definition live_leases ::
    "int \<Rightarrow> string \<Rightarrow> string \<Rightarrow> string \<Rightarrow> pool_db \<Rightarrow> lease list \<times> pool_db" where
  "live_leases now_ms platform model key db =
     (let cutoff = now_ms - LEASE_BACKSTOP_MS;
          db = db\<lparr>pool_leases := delete_where (\<lambda>l. acquired_at_ms l < cutoff) (pool_leases db)\<rparr>
      in (filter (\<lambda>l. le_platform l = platform \<and> le_model l = model \<and> le_key_id l = key)
            (pool_leases db), db))"

fun in_flight_for :: "lease list \<Rightarrow> window_kind \<Rightarrow> u64" where
  "in_flight_for leases Rpm = word_of_nat (length leases)"
| "in_flight_for leases Rpd = word_of_nat (length leases)"
| "in_flight_for leases Tpm = sum_list (map est_tokens leases)"
| "in_flight_for leases Tpd = sum_list (map est_tokens leases)"

definition admit_windows :: "limits \<Rightarrow> u64 \<Rightarrow> (window_kind \<times> u64 option \<times> usage_kind \<times> u64) list" where
  "admit_windows lim tokens =
     [(Rpm, map_option ucast (rpm lim), Request, 1),
      (Rpd, map_option ucast (rpd lim), Request, 1),
      (Tpm, map_option ucast (tpm lim), Tokens, tokens),
      (Tpd, tpd lim, Tokens, tokens)]"

text \<open>The usage that the check of one window compares with its limit.\<close>

definition window_load ::
    "pool_db \<Rightarrow> mem_event list \<Rightarrow> lease list \<Rightarrow> string \<Rightarrow> string \<Rightarrow> string \<Rightarrow> usage_kind \<Rightarrow> u64 \<Rightarrow>
     int \<Rightarrow> window_kind \<Rightarrow> u64" where
  "window_load db events leases platform model key kind estimate now_ms w =
     (let since = window_start_ms w now_ms;
          recorded = recorded_sum platform model key kind since db +
                     recorded_sum_fallback platform model key kind since events
      in recorded + in_flight_for leases w + estimate)"

fun retry_after_ms :: "window_kind \<Rightarrow> int \<Rightarrow> int" where
  "retry_after_ms Rpm now_ms = 60000 - max (now_ms - window_start_ms Rpm now_ms) 0"
| "retry_after_ms Tpm now_ms = 60000 - max (now_ms - window_start_ms Tpm now_ms) 0"
| "retry_after_ms Rpd now_ms = next_utc_midnight_ms now_ms - now_ms"
| "retry_after_ms Tpd now_ms = next_utc_midnight_ms now_ms - now_ms"

fun admit_loop ::
    "pool_db \<Rightarrow> mem_event list \<Rightarrow> lease list \<Rightarrow> string \<Rightarrow> string \<Rightarrow> string \<Rightarrow> int \<Rightarrow>
     (window_kind \<times> u64 option \<times> usage_kind \<times> u64) list \<Rightarrow> admit_result" where
  "admit_loop db events leases platform model key now_ms [] = AdmitOk"
| "admit_loop db events leases platform model key now_ms ((w, limit, kind, estimate) # ws) =
     (case limit of
        None \<Rightarrow> admit_loop db events leases platform model key now_ms ws
      | Some lim \<Rightarrow>
          if \<not> window_kind_for kind w then admit_loop db events leases platform model key now_ms ws
          else if window_load db events leases platform model key kind estimate now_ms w \<ge> lim
          then Denied w (max (retry_after_ms w now_ms) 0)
          else admit_loop db events leases platform model key now_ms ws)"

definition admit ::
    "pool_db \<Rightarrow> mem_event list \<Rightarrow> lease list \<Rightarrow> string \<Rightarrow> string \<Rightarrow> string \<Rightarrow> u64 \<Rightarrow> limits \<Rightarrow> int \<Rightarrow>
     admit_result" where
  "admit db events leases platform model key tokens lim now_ms =
     admit_loop db events leases platform model key now_ms (admit_windows lim tokens)"

section \<open>Windows\<close>

lemma next_midnight_eq: "next_utc_midnight_ms now = now - now mod 86400000 + 86400000"
  by (simp add: next_utc_midnight_ms_def distrib_right minus_mod_eq_div_mult)

lemma next_midnight_bounds:
  "now < next_utc_midnight_ms now" "next_utc_midnight_ms now \<le> now + 86400000"
  using pos_mod_bound [of 86400000 now] pos_mod_sign [of 86400000 now]
  by (simp_all add: next_midnight_eq)

lemma next_midnight_mono: "s \<le> t \<Longrightarrow> next_utc_midnight_ms s \<le> next_utc_midnight_ms t"
  by (simp add: next_utc_midnight_ms_def zdiv_mono1)

lemma window_start_mono: "s \<le> t \<Longrightarrow> window_start_ms w s \<le> window_start_ms w t"
  by (cases w) (simp_all add: next_midnight_mono)

lemma window_start_before: "window_start_ms w t < t"
  using next_midnight_bounds [of "t - 1"] by (cases w) simp_all

text \<open>The day window at the instant of midnight is still the window of the day before.\<close>

lemma day_window_at_midnight:
  assumes "now mod 86400000 \<noteq> 0"
  shows "window_start_ms Rpd (next_utc_midnight_ms now) = window_start_ms Rpd now"
proof -
  let ?D = "86400000 :: int"
  have r: "0 < now mod ?D" "now mod ?D < ?D"
    using assms pos_mod_sign [of ?D now] pos_mod_bound [of ?D now] by linarith+
  have n: "now = ?D * (now div ?D) + now mod ?D" by simp
  have "now - 1 = ?D * (now div ?D) + (now mod ?D - 1)" by (subst n) simp
  then have "(now - 1) div ?D = now div ?D" by (rule int_div_pos_eq) (use r in simp_all)
  moreover have "((now div ?D + 1) * ?D - 1) div ?D = now div ?D"
    by (rule int_div_pos_eq [where r = "?D - 1"]) simp_all
  ultimately show ?thesis by (simp add: next_utc_midnight_ms_def)
qed

section \<open>Admission\<close>

lemma admit_loop_ok:
  "admit_loop db ev ls p m k now ws = AdmitOk \<longleftrightarrow>
   (\<forall>(w, limit, kind, est) \<in> set ws. window_kind_for kind w \<longrightarrow>
      (\<forall>l. limit = Some l \<longrightarrow> window_load db ev ls p m k kind est now w < l))"
  by (induction ws) (auto split: option.splits if_splits simp: not_le)

lemma all_windows: "(\<forall>w. P w) \<longleftrightarrow> P Rpm \<and> P Rpd \<and> P Tpm \<and> P Tpd"
proof
  assume a: "P Rpm \<and> P Rpd \<and> P Tpm \<and> P Tpd"
  show "\<forall>w. P w"
  proof
    fix w show "P w" using a by (cases w) simp_all
  qed
qed simp

lemma admit_loop_denied:
  "admit_loop db ev ls p m k now ws = Denied w r \<Longrightarrow>
   \<exists>kind est l. (w, Some l, kind, est) \<in> set ws \<and> window_kind_for kind w \<and>
     l \<le> window_load db ev ls p m k kind est now w \<and> r = max (retry_after_ms w now) 0"
proof (induction ws)
  case Nil
  then show ?case by simp
next
  case (Cons x ws)
  obtain w' limit kind est where x: "x = (w', limit, kind, est)" by (cases x)
  from Cons.prems consider "admit_loop db ev ls p m k now ws = Denied w r"
    | l where "limit = Some l" "window_kind_for kind w'" "w' = w"
        "l \<le> window_load db ev ls p m k kind est now w'" "r = max (retry_after_ms w now) 0"
    by (auto simp: x split: option.splits if_splits)
  then show ?case
  proof cases
    case 1
    then show ?thesis using Cons.IH by (meson list.set_intros(2))
  next
    case 2
    then show ?thesis by (intro exI [of _ kind] exI [of _ est] exI [of _ l]) (simp add: x)
  qed
qed

lemma retry_after_bounds:
  "0 \<le> retry_after_ms w now" "retry_after_ms w now \<le> 86400000"
  using next_midnight_bounds [of now] by (cases w; simp)+

text \<open>The load of each window, with the estimate its row of the table carries.\<close>

definition load_of ::
    "pool_db \<Rightarrow> mem_event list \<Rightarrow> lease list \<Rightarrow> string \<Rightarrow> string \<Rightarrow> string \<Rightarrow> u64 \<Rightarrow> int \<Rightarrow> window_kind \<Rightarrow> u64" where
  "load_of db ev ls p m k tokens now w =
     (case w of
        Rpm \<Rightarrow> window_load db ev ls p m k Request 1 now Rpm
      | Rpd \<Rightarrow> window_load db ev ls p m k Request 1 now Rpd
      | Tpm \<Rightarrow> window_load db ev ls p m k Tokens tokens now Tpm
      | Tpd \<Rightarrow> window_load db ev ls p m k Tokens tokens now Tpd)"

definition limit_of :: "limits \<Rightarrow> window_kind \<Rightarrow> u64 option" where
  "limit_of lim w =
     (case w of Rpm \<Rightarrow> map_option ucast (rpm lim) | Rpd \<Rightarrow> map_option ucast (rpd lim)
      | Tpm \<Rightarrow> map_option ucast (tpm lim) | Tpd \<Rightarrow> tpd lim)"

lemma admit_ok_char:
  "admit db ev ls p m k tokens lim now = AdmitOk \<longleftrightarrow>
   (\<forall>w l. limit_of lim w = Some l \<longrightarrow> load_of db ev ls p m k tokens now w < l)"
  unfolding admit_def admit_loop_ok all_windows
  by (simp add: admit_windows_def limit_of_def load_of_def)

lemma admit_denied_full:
  assumes "admit db ev ls p m k tokens lim now = Denied w r"
  shows "\<exists>l. limit_of lim w = Some l \<and> l \<le> load_of db ev ls p m k tokens now w"
proof -
  obtain kind est l where d: "(w, Some l, kind, est) \<in> set (admit_windows lim tokens)"
      "l \<le> window_load db ev ls p m k kind est now w" "r = max (retry_after_ms w now) 0"
    using admit_loop_denied assms unfolding admit_def by blast
  then have "limit_of lim w = Some l \<and> l \<le> load_of db ev ls p m k tokens now w"
    by (auto simp: admit_windows_def limit_of_def load_of_def)
  then show ?thesis by blast
qed

lemma admit_denied_hint:
  "admit db ev ls p m k tokens lim now = Denied w r \<Longrightarrow> r = max (retry_after_ms w now) 0"
  unfolding admit_def by (auto dest!: admit_loop_denied)

text \<open>Admission succeeds exactly when every window with a known limit stays strictly below
  it, counting recorded usage, in-flight leases and this request; an unknown limit never denies.\<close>

theorem admit_ok_iff:
  "admit db ev ls p m k tokens lim now = AdmitOk \<longleftrightarrow>
   (\<forall>w l. limit_of lim w = Some l \<longrightarrow> load_of db ev ls p m k tokens now w < l)"
  by (rule admit_ok_char)

theorem admit_ok_iff_witness:
  "admit empty_pool_db [] [] ''p'' ''m'' ''k'' 0
     \<lparr>rpm = Some 2, rpd = None, tpm = None, tpd = None\<rparr> 0 = AdmitOk"
proof -
  have "limit_of \<lparr>rpm = Some 2, rpd = None, tpm = None, tpd = None\<rparr> w = Some l \<Longrightarrow>
      load_of empty_pool_db [] [] ''p'' ''m'' ''k'' 0 0 w < l" for w l
    by (cases w) (auto simp: limit_of_def load_of_def admit_windows_def window_load_def
        recorded_sum_def recorded_sum_fallback_def sql_sum_def usage_rows_def empty_pool_db_def
        as_u64_def)
  then show ?thesis unfolding admit_ok_iff by blast
qed

text \<open>A denial names a window that is really full, and its retry hint lies between 0 and
  24 hours.\<close>

theorem admit_denied:
  assumes "admit db ev ls p m k tokens lim now = Denied w r"
  shows "(\<exists>l. limit_of lim w = Some l \<and> l \<le> load_of db ev ls p m k tokens now w) \<and>
    0 \<le> r \<and> r \<le> 86400000"
  using admit_denied_full [OF assms] admit_denied_hint [OF assms] retry_after_bounds [of w now]
  by auto

theorem admit_denied_witness:
  "admit empty_pool_db [] [] ''p'' ''m'' ''k'' 0
     \<lparr>rpm = Some 1, rpd = None, tpm = None, tpd = None\<rparr> 0 = Denied Rpm 0 \<and> (0 :: int) \<le> 86400000"
proof -
  have d: "admit empty_pool_db [] [] ''p'' ''m'' ''k'' 0
     \<lparr>rpm = Some 1, rpd = None, tpm = None, tpd = None\<rparr> 0 = Denied Rpm 0"
    by (simp add: admit_def admit_windows_def window_load_def recorded_sum_def usage_rows_def
        empty_pool_db_def sql_sum_def i64_min_def i64_max_def recorded_sum_fallback_def as_u64_def Let_def)
  from admit_denied [OF d] d show ?thesis by simp
qed

text \<open>What the retry hint is worth. The hint of a per-minute denial is always zero: \<open>since\<close> is
  \<open>now - 60000\<close> by definition.\<close>

lemma minute_retry_hint_zero:
  "admit db ev ls p m k tokens lim now = Denied w r \<Longrightarrow> w = Rpm \<or> w = Tpm \<Longrightarrow> r = 0"
  by (auto dest!: admit_denied_hint)

text \<open>The hint of a requests-per-day denial is the next midnight, but at that very instant the day
  window is still the old one, so a caller that retries exactly then is denied again.\<close>

lemma day_retry_hint_too_early:
  assumes d: "admit db ev [] p m k tokens lim now = Denied Rpd r"
    and n: "now mod 86400000 \<noteq> 0"
  shows "now + r = next_utc_midnight_ms now \<and> admit db ev [] p m k tokens' lim (now + r) \<noteq> AdmitOk"
proof -
  have r: "r = next_utc_midnight_ms now - now"
    using admit_denied_hint [OF d] next_midnight_bounds [of now] by simp
  have "load_of db ev [] p m k tokens' (now + r) Rpd = load_of db ev [] p m k tokens now Rpd"
    using day_window_at_midnight [OF n] by (simp add: r load_of_def window_load_def Let_def)
  moreover obtain l where "limit_of lim Rpd = Some l" "l \<le> load_of db ev [] p m k tokens now Rpd"
    using admit_denied_full [OF d] by blast
  ultimately have "admit db ev [] p m k tokens' lim (now + r) \<noteq> AdmitOk"
    by (metis admit_ok_char not_less)
  with r show ?thesis by simp
qed

section \<open>Leases\<close>

text \<open>Releasing a lease is idempotent, and the live leases of a key are exactly its table
  rows younger than the two-minute backstop.\<close>

theorem lease_lifecycle:
  "release_lease lid (release_lease lid db) = release_lease lid db \<and>
   l \<notin> set (fst (live_leases now p m k (release_lease (lease_id l) db))) \<and>
   set (fst (live_leases now p m k db)) =
     {l \<in> set (pool_leases db). le_platform l = p \<and> le_model l = m \<and> le_key_id l = k \<and>
        acquired_at_ms l \<ge> now - LEASE_BACKSTOP_MS}"
  by (auto simp: release_lease_def live_leases_def Let_def table_simps)

text \<open>A lease that was acquired is live for its key until the backstop passes or it is
  released.\<close>

theorem acquired_lease_live:
  assumes "acquire_lease now n p m k tokens db = (Inr l, db')" and "now \<le> t" "t \<le> now + LEASE_BACKSTOP_MS"
  shows "l \<in> set (fst (live_leases t p m k db')) \<and> est_tokens l = tokens \<and>
    lease_id l \<notin> lease_id ` set (pool_leases db)"
  using assms by (auto simp: acquire_lease_def live_leases_def Let_def table_simps split: if_splits)

theorem acquired_lease_live_witness:
  "\<exists>l db'. acquire_lease 0 0 ''p'' ''m'' ''k'' 5 empty_pool_db = (Inr l, db') \<and>
     l \<in> set (fst (live_leases 60000 ''p'' ''m'' ''k'' db'))"
proof -
  obtain l db' where a: "acquire_lease 0 0 ''p'' ''m'' ''k'' 5 empty_pool_db = (Inr l, db')"
    by (simp add: acquire_lease_def Let_def exists_where_def empty_pool_db_def)
  with acquired_lease_live [OF a, of 60000] show ?thesis by (auto simp: LEASE_BACKSTOP_MS_def)
qed

end
