(* ===== verification/Pools.thy ===== *)
theory Pools
  imports Ledger
begin

text \<open>
  Pool names and the gate of a shared pool, \<open>crates/single-runtime/src/pool/pools.rs\<close>.
\<close>

definition infer_pool_key :: "string \<Rightarrow> string \<Rightarrow> string" where
  "infer_pool_key platform model =
     (case by_id platform of
        None \<Rightarrow> platform @ ''::unknown''
      | Some provider \<Rightarrow>
          platform @ ''::'' @
          (case pool provider of
             Some PoolFree \<Rightarrow> ''free''
           | Some PoolProject \<Rightarrow> ''project''
           | Some PoolAccount \<Rightarrow> ''account''
           | Some (PoolCreditPool r) \<Rightarrow> ''credit-pool''
           | Some (PoolDailyTokens n) \<Rightarrow> ''daily-tokens''
           | None \<Rightarrow> ''none''))"

definition SHARED_POOL_PLATFORMS :: "string list" where
  "SHARED_POOL_PLATFORMS =
     [''routeway'', ''bazaarlink'', ''unorouter'', ''orcarouter'', ''xkiro'', ''anyapi'', ''navyai'',
      ''nara'', ''sea-lion'', ''aion'', ''requesty'']"

definition is_shared_pool :: "string \<Rightarrow> bool" where
  "is_shared_pool platform \<longleftrightarrow> platform \<in> set SHARED_POOL_PLATFORMS"

text \<open>The leases of every model are collected first (which drops the stale ones of the table),
  then every model is checked with an estimate of no tokens.\<close>

fun collect_leases ::
    "int \<Rightarrow> string \<Rightarrow> string \<Rightarrow> string list \<Rightarrow> pool_db \<Rightarrow> lease list \<times> pool_db" where
  "collect_leases clock platform key [] db = ([], db)"
| "collect_leases clock platform key (m # ms) db =
     (let (ls, db) = live_leases clock platform m key db;
          (ls', db) = collect_leases clock platform key ms db
      in (ls @ ls', db))"

fun gate_models ::
    "pool_db \<Rightarrow> mem_event list \<Rightarrow> lease list \<Rightarrow> string \<Rightarrow> string \<Rightarrow> limits \<Rightarrow> int \<Rightarrow> string list \<Rightarrow>
     admit_result" where
  "gate_models db events leases platform key lim now_ms [] = AdmitOk"
| "gate_models db events leases platform key lim now_ms (m # ms) =
     (case admit db events leases platform m key 0 lim now_ms of
        AdmitOk \<Rightarrow> gate_models db events leases platform key lim now_ms ms
      | Denied w r \<Rightarrow> Denied w r)"

definition aggregate_gate ::
    "int \<Rightarrow> mem_event list \<Rightarrow> string \<Rightarrow> string \<Rightarrow> string list \<Rightarrow> int \<Rightarrow> pool_db \<Rightarrow>
     admit_result \<times> pool_db" where
  "aggregate_gate clock events platform key models now_ms db =
     (case by_id platform of
        None \<Rightarrow> (AdmitOk, db)
      | Some provider \<Rightarrow>
          (let (all_leases, db) = collect_leases clock platform key models db
           in (gate_models db events all_leases platform key (limits provider) now_ms models, db)))"

section \<open>Properties\<close>

lemma shared_pools_in_catalog: "is_shared_pool p \<Longrightarrow> by_id p \<noteq> None"
proof -
  assume "is_shared_pool p"
  then have "p \<in> set (map fp_id FREE_PROVIDERS)"
    by (auto simp: is_shared_pool_def SHARED_POOL_PLATFORMS_def provider_ids)
  then show ?thesis by (simp add: by_id_None)
qed

text \<open>A pool key names its platform and never depends on the model; it is the unknown pool
  exactly for a platform outside the catalog, so never for a shared pool.\<close>

theorem infer_pool_key_spec:
  "starts_with (platform @ ''::'') (infer_pool_key platform model) \<and>
   infer_pool_key platform model = infer_pool_key platform model' \<and>
   (infer_pool_key platform model = platform @ ''::unknown'' \<longleftrightarrow> by_id platform = None) \<and>
   (is_shared_pool platform \<longrightarrow> infer_pool_key platform model \<noteq> platform @ ''::unknown'')"
  using shared_pools_in_catalog [of platform]
  by (auto simp: infer_pool_key_def starts_with_def split: option.splits pool_shape.splits)

theorem infer_pool_key_spec_witness:
  "is_shared_pool ''navyai'' \<and> infer_pool_key ''navyai'' ''m'' \<noteq> ''navyai'' @ ''::unknown''"
proof -
  have "is_shared_pool ''navyai''" by (simp add: is_shared_pool_def SHARED_POOL_PLATFORMS_def)
  with infer_pool_key_spec [of "''navyai''" "''m''" "''m''"] show ?thesis by blast
qed

lemma live_leases_same:
  "live_leases t p m k (snd (live_leases t p' m' k' db)) =
     (fst (live_leases t p m k db), snd (live_leases t p' m' k' db))"
  by (simp add: live_leases_def Let_def)

lemma snd_live_leases: "snd (live_leases t p m k db) = snd (live_leases t p' m' k' db)"
  by (simp add: live_leases_def Let_def)

lemma collect_leases_eq:
  "fst (collect_leases t p k ms db) = concat (map (\<lambda>m. fst (live_leases t p m k db)) ms)"
proof (induction ms arbitrary: db)
  case Nil
  then show ?case by simp
next
  case (Cons m ms)
  have "fst (live_leases t p m' k (snd (live_leases t p m k db))) = fst (live_leases t p m' k db)" for m'
    by (simp add: live_leases_same)
  with Cons show ?case by (simp add: split_beta)
qed

lemma collect_usage: "pool_usage (snd (collect_leases t p k ms db)) = pool_usage db"
proof (induction ms arbitrary: db)
  case (Cons m ms)
  have "pool_usage (snd (live_leases t p m k db)) = pool_usage db"
    by (simp add: live_leases_def Let_def)
  with Cons show ?case by (simp add: split_beta)
qed simp

lemma gate_models_ok:
  "gate_models db ev ls p k lim now ms = AdmitOk \<longleftrightarrow>
   (\<forall>m \<in> set ms. admit db ev ls p m k 0 lim now = AdmitOk)"
  by (induction ms) (auto split: admit_result.splits)

text \<open>The load of a window only reads the usage table.\<close>

lemma load_of_usage:
  "pool_usage db = pool_usage db' \<Longrightarrow> load_of db ev ls p m k n now w = load_of db' ev ls p m k n now w"
  by (simp add: load_of_def window_load_def recorded_sum_def usage_rows_def cong: window_kind.case_cong)

lemma aggregate_gate_char:
  "fst (aggregate_gate t ev p k models now db) = AdmitOk \<longleftrightarrow>
   (\<forall>pr m w l. by_id p = Some pr \<longrightarrow> m \<in> set models \<longrightarrow> limit_of (limits pr) w = Some l \<longrightarrow>
      load_of db ev (concat (map (\<lambda>m. fst (live_leases t p m k db)) models)) p m k 0 now w < l)"
proof (cases "by_id p")
  case None
  then show ?thesis by (simp add: aggregate_gate_def)
next
  case (Some pr)
  let ?c = "collect_leases t p k models db"
  have "load_of (snd ?c) ev (fst ?c) p m k 0 now w =
      load_of db ev (concat (map (\<lambda>m. fst (live_leases t p m k db)) models)) p m k 0 now w" for m w
    by (simp add: load_of_usage [OF collect_usage] collect_leases_eq)
  with Some show ?thesis
    by (auto simp: aggregate_gate_def split_beta gate_models_ok admit_ok_char)
qed

text \<open>The gate of a pool admits exactly when, for every model, the model's own recorded
  usage together with the live leases of all the models stays below every known limit of the
  provider; an unknown platform is never gated.\<close>

theorem aggregate_gate_spec:
  "fst (aggregate_gate t ev p k models now db) = AdmitOk \<longleftrightarrow>
   (\<forall>pr m w l. by_id p = Some pr \<longrightarrow> m \<in> set models \<longrightarrow> limit_of (limits pr) w = Some l \<longrightarrow>
      load_of db ev (concat (map (\<lambda>m. fst (live_leases t p m k db)) models)) p m k 0 now w < l)"
  by (rule aggregate_gate_char)

theorem aggregate_gate_spec_witness:
  "fst (aggregate_gate 0 [] ''nowhere'' ''k'' [''m''] 0 empty_pool_db) = AdmitOk"
proof -
  have "by_id ''nowhere'' = None"
  proof -
    have "''nowhere'' \<notin> set (map fp_id FREE_PROVIDERS)" by (simp add: provider_ids)
    then show ?thesis by (simp add: by_id_None)
  qed
  then show ?thesis using aggregate_gate_spec [of 0 "[]" "''nowhere''" "''k''" "[''m'']" 0 empty_pool_db] by simp
qed

text \<open>Recorded usage is not summed across the models: 18 requests on each of two models of
  \<open>navyai\<close> in the last minute pass its gate although the account's limit is 20 requests a minute.\<close>

definition two_models_db :: pool_db where
  "two_models_db = empty_pool_db\<lparr>pool_usage :=
     concat (map (\<lambda>m. replicate 18 \<lparr>ue_platform = ''navyai'', ue_model = m, ue_key_id = ''k1'',
        ue_kind = Request, ue_amount = 1, ue_at_ms = 0\<rparr>) [''model-a'', ''model-b''])\<rparr>"

lemma gate_misses_summed_usage:
  "fst (aggregate_gate 1000 [] ''navyai'' ''k1'' [''model-a'', ''model-b''] 1000 two_models_db) = AdmitOk \<and>
   recorded_requests_since ''navyai'' ''k1'' 0 two_models_db = 36 \<and>
   rpm (limits provider_navyai) = Some 20"
proof -
  have id: "by_id ''navyai'' = Some provider_navyai"
  proof -
    have "provider_navyai \<in> set FREE_PROVIDERS" by (simp add: FREE_PROVIDERS_def)
    from by_id_mem [OF this] show ?thesis by (simp add: provider_navyai_def)
  qed
  have lim: "limits provider_navyai = \<lparr>rpm = Some 20, rpd = None, tpm = None, tpd = Some 150000\<rparr>"
    by (simp add: provider_navyai_def)
  have rows: "usage_rows ''navyai'' m ''k1'' Request (- 59000) two_models_db =
      (if m = ''model-a'' \<or> m = ''model-b'' then replicate 18 \<lparr>ue_platform = ''navyai'', ue_model = m,
         ue_key_id = ''k1'', ue_kind = Request, ue_amount = 1, ue_at_ms = 0\<rparr> else [])" for m
    by (auto simp: usage_rows_def two_models_db_def)
  have toks: "usage_rows ''navyai'' m ''k1'' Tokens s two_models_db = []" for m s
    by (auto simp: usage_rows_def two_models_db_def)
  have leases: "fst (live_leases 1000 p m k two_models_db) = []" for p m k
    by (simp add: live_leases_def two_models_db_def empty_pool_db_def delete_where_def Let_def)
  have "load_of two_models_db [] [] ''navyai'' m ''k1'' 0 1000 w < l"
    if "m \<in> {''model-a'', ''model-b''}" "limit_of (limits provider_navyai) w = Some l" for m w l
    using that
    by (cases w) (auto simp: lim limit_of_def load_of_def window_load_def recorded_sum_def rows toks
        sql_sum_def sum_list_replicate i64_min_def i64_max_def as_u64_def recorded_sum_fallback_def)
  then have "fst (aggregate_gate 1000 [] ''navyai'' ''k1'' [''model-a'', ''model-b''] 1000 two_models_db) = AdmitOk"
    unfolding aggregate_gate_char by (auto simp: id leases)
  moreover have "recorded_requests_since ''navyai'' ''k1'' 0 two_models_db = 36"
    by (simp add: recorded_requests_since_def two_models_db_def sql_sum_def sum_list_replicate
        i64_min_def i64_max_def as_u64_def)
  ultimately show ?thesis by (simp add: lim)
qed

end
