(* ===== verification/Degrade.thy ===== *)
theory Degrade
  imports Complex_Main Prelude
begin

text \<open>
  The degraded-mode state machine, \<open>crates/single-runtime/src/pool/degrade.rs\<close>. Ratios are exact
  rationals: the code divides two small integers and only compares the quotient with the threshold.
  The environment variables that \<open>from_env\<close> reads arrive parsed.
\<close>

datatype mode = Normal | Degraded

record degrade_state =
  mode :: mode
  since_ms :: "int option"

definition default_degrade_state :: degrade_state where
  "default_degrade_state = \<lparr>mode = Normal, since_ms = None\<rparr>"

record degrade_config =
  dc_healthy_ratio :: rat
  min_providers :: nat
  entry_grace_ms :: int
  exit_grace_ms :: int

definition default_degrade_config :: degrade_config where
  "default_degrade_config =
     \<lparr>dc_healthy_ratio = 1 / 2, min_providers = 3, entry_grace_ms = 60000, exit_grace_ms = 120000\<rparr>"

definition from_env ::
    "(string \<Rightarrow> rat option) \<Rightarrow> (string \<Rightarrow> nat option) \<Rightarrow> (string \<Rightarrow> int option) \<Rightarrow> degrade_config" where
  "from_env env_f64 env_usize env_i64 =
     (let base = default_degrade_config
      in \<lparr>dc_healthy_ratio =
            unwrap_or (env_f64 ''SINGLE_POOL_DEGRADED_HEALTHY_RATIO'') (dc_healthy_ratio base),
          min_providers =
            unwrap_or (env_usize ''SINGLE_POOL_DEGRADED_MIN_PROVIDERS'') (min_providers base),
          entry_grace_ms =
            unwrap_or (env_i64 ''SINGLE_POOL_DEGRADED_ENTRY_GRACE_MS'') (entry_grace_ms base),
          exit_grace_ms =
            unwrap_or (env_i64 ''SINGLE_POOL_DEGRADED_EXIT_GRACE_MS'') (exit_grace_ms base)\<rparr>)"

definition healthy_ratio :: "nat \<Rightarrow> nat \<Rightarrow> rat" where
  "healthy_ratio usable_keys enabled_providers =
     (if enabled_providers = 0 then 1 else of_nat usable_keys / of_nat enabled_providers)"

definition degrade_tick :: "rat \<Rightarrow> nat \<Rightarrow> int \<Rightarrow> degrade_config \<Rightarrow> degrade_state \<Rightarrow> degrade_state" where
  "degrade_tick ratio enabled_count now_ms cfg st =
     (if enabled_count < min_providers cfg then st\<lparr>since_ms := None\<rparr>
      else case mode st of
        Normal \<Rightarrow>
          if ratio < dc_healthy_ratio cfg then
            (let crossing_since = unwrap_or (since_ms st) now_ms
             in if now_ms - crossing_since \<ge> entry_grace_ms cfg
                then \<lparr>mode = Degraded, since_ms = Some now_ms\<rparr>
                else st\<lparr>since_ms := Some crossing_since\<rparr>)
          else st\<lparr>since_ms := None\<rparr>
      | Degraded \<Rightarrow>
          if ratio \<ge> dc_healthy_ratio cfg then
            (let crossing_since = unwrap_or (since_ms st) now_ms
             in if now_ms - crossing_since \<ge> exit_grace_ms cfg
                then \<lparr>mode = Normal, since_ms = Some now_ms\<rparr>
                else st\<lparr>since_ms := Some crossing_since\<rparr>)
          else st\<lparr>since_ms := None\<rparr>)"

definition exploration_enabled :: "mode \<Rightarrow> bool" where
  "exploration_enabled m \<longleftrightarrow> m = Normal"

section \<open>Runs\<close>

text \<open>A run of ticks: ratio, enabled providers and time of each.\<close>

fun degrade_run :: "degrade_config \<Rightarrow> (rat \<times> nat \<times> int) list \<Rightarrow> degrade_state \<Rightarrow> degrade_state" where
  "degrade_run cfg [] st = st"
| "degrade_run cfg ((ratio, enabled, now) # evs) st =
     degrade_run cfg evs (degrade_tick ratio enabled now cfg st)"

text \<open>The grace period of leaving a mode.\<close>

definition grace :: "degrade_config \<Rightarrow> mode \<Rightarrow> int" where
  "grace cfg m = (case m of Normal \<Rightarrow> entry_grace_ms cfg | Degraded \<Rightarrow> exit_grace_ms cfg)"

lemma tick_dwell:
  assumes "since_ms st = None \<or> (\<exists>s \<ge> t0. since_ms st = Some s)"
    and "t0 \<le> now" "now < t0 + grace cfg (mode st)"
    and st': "st' = degrade_tick ratio n now cfg st"
  shows "mode st' = mode st \<and> (since_ms st' = None \<or> (\<exists>s \<ge> t0. since_ms st' = Some s))"
  using assms
  by (cases "mode st") (auto simp: degrade_tick_def grace_def Let_def)

text \<open>No flapping: once a tick at \<open>t0\<close> switches the mode, every later tick within the grace
  period of the new mode leaves it, whatever the ratios and provider counts are.\<close>

theorem degrade_min_dwell:
  assumes "mode (degrade_tick ratio n t0 cfg st) = m" "m \<noteq> mode st"
    and "\<forall>(r, k, t) \<in> set evs. t0 \<le> t \<and> t < t0 + grace cfg m"
  shows "mode (degrade_run cfg evs (degrade_tick ratio n t0 cfg st)) = m"
proof -
  have run: "mode (degrade_run cfg evs s) = m"
    if "mode s = m" "since_ms s = None \<or> (\<exists>x \<ge> t0. since_ms s = Some x)"
      "\<forall>(r, k, t) \<in> set evs. t0 \<le> t \<and> t < t0 + grace cfg m" for s evs
    using that
  proof (induction evs arbitrary: s)
    case Nil
    then show ?case by simp
  next
    case (Cons e evs)
    obtain r k t where e: "e = (r, k, t)" by (cases e)
    have "mode (degrade_tick r k t cfg s) = m \<and>
        (since_ms (degrade_tick r k t cfg s) = None \<or>
          (\<exists>x \<ge> t0. since_ms (degrade_tick r k t cfg s) = Some x))"
      using tick_dwell [OF Cons.prems(2) _ _ refl, of t cfg r k] Cons.prems(1,3) by (simp add: e)
    with Cons.IH Cons.prems(3) show ?case by (simp add: e)
  qed
  have "since_ms (degrade_tick ratio n t0 cfg st) = Some t0"
    using assms(1,2)
    by (cases "mode st") (auto simp: degrade_tick_def Let_def split: if_splits)
  with assms show ?thesis by (intro run) auto
qed

theorem degrade_min_dwell_witness:
  "mode (degrade_run default_degrade_config [(1, 5, 60001), (1, 5, 179999)]
     (degrade_tick 0 5 60000 default_degrade_config \<lparr>mode = Normal, since_ms = Some 0\<rparr>)) = Degraded"
  by (rule degrade_min_dwell)
    (simp_all add: degrade_tick_def default_degrade_config_def grace_def)

lemma unhealthy_run:
  assumes "\<forall>(r, k, t) \<in> set evs. r < dc_healthy_ratio cfg \<and> min_providers cfg \<le> k"
  shows "mode s = Degraded \<Longrightarrow> mode (degrade_run cfg evs s) = Degraded"
  using assms
proof (induction evs arbitrary: s)
  case (Cons e evs)
  then show ?case by (cases e) (auto simp: degrade_tick_def)
qed simp

text \<open>The pool does degrade: when the ratio stays below the threshold with enough providers
  over ticks that span the entry grace period, the mode is degraded at the end.\<close>

theorem degrade_liveness:
  assumes "\<forall>(r, k, t) \<in> set ((r0, k0, t0) # evs @ [(r1, k1, t1)]).
      r < dc_healthy_ratio cfg \<and> min_providers cfg \<le> k"
    and "t0 + entry_grace_ms cfg \<le> t1" and "since_ms st = None \<or> (\<exists>s \<le> t0. since_ms st = Some s)"
  shows "mode (degrade_run cfg ((r0, k0, t0) # evs @ [(r1, k1, t1)]) st) = Degraded"
proof -
  have run: "mode (degrade_run cfg (evs @ [(r1, k1, t1)]) s) = Degraded"
    if "mode s = Degraded \<or> (\<exists>x \<le> t0. since_ms s = Some x)"
      "\<forall>(r, k, t) \<in> set (evs @ [(r1, k1, t1)]). r < dc_healthy_ratio cfg \<and> min_providers cfg \<le> k" for s evs
    using that
  proof (induction evs arbitrary: s)
    case Nil
    then show ?case using assms(2)
      by (cases "mode s") (auto simp: degrade_tick_def Let_def)
  next
    case (Cons e evs)
    obtain r k t where e: "e = (r, k, t)" by (cases e)
    have "mode (degrade_tick r k t cfg s) = Degraded \<or>
        (\<exists>x \<le> t0. since_ms (degrade_tick r k t cfg s) = Some x)"
      using Cons.prems by (cases "mode s") (auto simp: e degrade_tick_def Let_def)
    with Cons show ?case by (simp add: e)
  qed
  have "mode (degrade_tick r0 k0 t0 cfg st) = Degraded \<or>
      (\<exists>x \<le> t0. since_ms (degrade_tick r0 k0 t0 cfg st) = Some x)"
  proof (cases "mode st")
    case Normal
    with assms show ?thesis by (auto simp: degrade_tick_def Let_def)
  next
    case Degraded
    with assms(1) show ?thesis by (simp add: degrade_tick_def)
  qed
  with assms(1) show ?thesis by (simp add: run)
qed

theorem degrade_liveness_witness:
  "mode (degrade_run default_degrade_config [(0, 5, 0), (1/4, 5, 30000), (0, 5, 60000)]
     default_degrade_state) = Degraded"
  using degrade_liveness [of 0 5 0 "[(1/4, 5, 30000)]" 0 5 60000 default_degrade_config
      default_degrade_state]
  by (simp add: default_degrade_config_def default_degrade_state_def)

text \<open>The time since which a ratio counts as healthy again starts at the switch, not at the first
  healthy tick: one healthy tick two minutes after the switch ends the degraded mode at once.\<close>

lemma exit_grace_not_sustained:
  "degrade_tick 1 5 (t0 + 120000) default_degrade_config \<lparr>mode = Degraded, since_ms = Some t0\<rparr> =
     \<lparr>mode = Normal, since_ms = Some (t0 + 120000)\<rparr>"
  by (simp add: degrade_tick_def default_degrade_config_def)

end
