(* ===== verification/Handoff.thy ===== *)
theory Handoff
  imports Prelude
begin

unbundle bit_operations_syntax

text \<open>
  Context handoff on a model switch, \<open>crates/single-runtime/src/pool/handoff.rs\<close>: the in-memory
  store of session summaries with a three-hour lifetime, the injection of the handoff message, and
  the hand-written SHA-1 that names a session. An \<open>Instant\<close> is a number of nanoseconds; the mutex
  makes each store operation atomic, and a store is a partial map.
\<close>

record chat_message =
  role :: string
  content :: string

definition TTL :: int where
  "TTL = 3 * 60 * 60 * 1000000000"

record session_entry =
  messages_summary :: string
  last_provider_model :: "string \<times> string"

type_synonym handoff_store = "string \<rightharpoonup> session_entry \<times> int"

text \<open>\<open>Instant::duration_since\<close> saturates at zero.\<close>

definition get_live :: "string \<Rightarrow> int \<Rightarrow> handoff_store \<Rightarrow> session_entry option \<times> handoff_store" where
  "get_live key now st =
     (case st key of
        Some (entry, inserted_at) \<Rightarrow>
          if max 0 (now - inserted_at) > TTL then (None, st(key := None)) else (Some entry, st)
      | None \<Rightarrow> (None, st))"

definition put :: "string \<Rightarrow> session_entry \<Rightarrow> int \<Rightarrow> handoff_store \<Rightarrow> handoff_store" where
  "put key entry at st = st(key \<mapsto> (entry, at))"

definition HANDOFF_MARKER :: string where
  "HANDOFF_MARKER = ''SingleCLI context handoff:''"

definition handoff_body :: "string \<times> string \<Rightarrow> string \<times> string \<Rightarrow> string \<Rightarrow> string" where
  "handoff_body old new summary =
     HANDOFF_MARKER @ newline @
     ''You are taking over an ongoing task from another model ('' @ fst old @ '' '' @ snd old @
     '' -> '' @ fst new @ '' '' @ snd new @ '').'' @ newline @
     ''Continue using the context already in this request. Do not restart, re-ask'' @ newline @
     ''answered setup questions, or discard prior tool results. The user'' @ [CHR 0x27] @ ''s latest'' @ newline @
     ''message is the highest-priority instruction.'' @ newline @
     ''Recent summary: '' @ summary"

definition inject ::
    "string \<Rightarrow> string \<Rightarrow> string \<Rightarrow> int \<Rightarrow> chat_message list \<Rightarrow> handoff_store \<Rightarrow>
     bool \<times> chat_message list \<times> handoff_store" where
  "inject key new_provider new_model now messages st =
     (let (existing, st) = get_live key now st;
          already_present = list_ex (\<lambda>m. starts_with HANDOFF_MARKER (content m)) messages;
          should_inject =
            (case existing of
               Some entry \<Rightarrow> last_provider_model entry \<noteq> (new_provider, new_model) \<and> \<not> already_present
             | None \<Rightarrow> False);
          messages =
            (case existing of
               Some entry \<Rightarrow>
                 if should_inject
                 then \<lparr>role = ''system'',
                       content = handoff_body (last_provider_model entry) (new_provider, new_model)
                         (messages_summary entry)\<rparr> # messages
                 else messages
             | None \<Rightarrow> messages);
          summary = (case existing of Some e \<Rightarrow> messages_summary e | None \<Rightarrow> '''')
      in (should_inject, messages,
          put key \<lparr>messages_summary = summary, last_provider_model = (new_provider, new_model)\<rparr> now st))"

definition record_summary ::
    "string \<Rightarrow> string \<Rightarrow> string \<Rightarrow> string \<Rightarrow> int \<Rightarrow> handoff_store \<Rightarrow> handoff_store" where
  "record_summary key summary provider model now st =
     put key \<lparr>messages_summary = summary, last_provider_model = (provider, model)\<rparr> now st"

section \<open>SHA-1\<close>

type_synonym sha_state = "u32 \<times> u32 \<times> u32 \<times> u32 \<times> u32"

definition pad_gap :: "nat \<Rightarrow> nat" where
  "pad_gap r = (if r \<le> 56 then 56 - r else 120 - r)"

lemma pad_gap_step: "r < 64 \<Longrightarrow> r \<noteq> 56 \<Longrightarrow> pad_gap (if Suc r = 64 then 0 else Suc r) < pad_gap r"
  unfolding pad_gap_def by (auto split: if_splits)

lemma pad56_decreases: "n mod 64 \<noteq> 56 \<Longrightarrow> pad_gap (Suc n mod 64) < pad_gap (n mod 64)"
  using pad_gap_step [of "n mod 64"] by (simp only: mod_Suc) simp

text \<open>\<open>while msg.len() % 64 != 56 { msg.push(0) }\<close>.\<close>

function pad56 :: "u8 list \<Rightarrow> u8 list" where
  "pad56 msg = (if length msg mod 64 \<noteq> 56 then pad56 (msg @ [0]) else msg)"
  by pat_completeness auto

termination
  by (relation "measure (\<lambda>m. pad_gap (length m mod 64))")
    (rule wf_measure, simp only: in_measure length_append_singleton, erule pad56_decreases)

declare pad56.simps [simp del]

definition be_bytes_u32 :: "u32 \<Rightarrow> u8 list" where
  "be_bytes_u32 w = map (\<lambda>s. ucast (drop_bit s w)) [24, 16, 8, 0]"

definition be_bytes_u64 :: "u64 \<Rightarrow> u8 list" where
  "be_bytes_u64 w = map (\<lambda>s. ucast (drop_bit s w)) [56, 48, 40, 32, 24, 16, 8, 0]"

definition sha1_pad :: "u8 list \<Rightarrow> u8 list" where
  "sha1_pad data =
     pad56 (data @ [0x80]) @ be_bytes_u64 (word_of_nat (length data) * 8)"

fun chunks :: "nat \<Rightarrow> 'a list \<Rightarrow> 'a list list" where
  "chunks n xs = (if n = 0 \<or> xs = [] then [] else take n xs # chunks n (drop n xs))"

declare chunks.simps [simp del]

definition be_u32 :: "u8 list \<Rightarrow> u32" where
  "be_u32 bs = foldl (\<lambda>w b. push_bit 8 w OR ucast b) 0 bs"

definition first_words :: "u8 list \<Rightarrow> u32 list" where
  "first_words chunk = map (\<lambda>i. be_u32 (take 4 (drop (i * 4) chunk))) [0..<16]"

definition next_word :: "u32 list \<Rightarrow> u32" where
  "next_word w =
     (let i = length w
      in word_rotl 1 (w ! (i - 3) XOR w ! (i - 8) XOR w ! (i - 14) XOR w ! (i - 16)))"

fun extend_words :: "nat \<Rightarrow> u32 list \<Rightarrow> u32 list" where
  "extend_words 0 w = w"
| "extend_words (Suc n) w = extend_words n (w @ [next_word w])"

definition schedule :: "u8 list \<Rightarrow> u32 list" where
  "schedule chunk = extend_words 64 (first_words chunk)"

definition round_fk :: "nat \<Rightarrow> u32 \<Rightarrow> u32 \<Rightarrow> u32 \<Rightarrow> u32 \<times> u32" where
  "round_fk i b c d =
     (if i \<le> 19 then ((b AND c) OR ((NOT b) AND d), 0x5A827999)
      else if i \<le> 39 then (b XOR c XOR d, 0x6ED9EBA1)
      else if i \<le> 59 then ((b AND c) OR (b AND d) OR (c AND d), 0x8F1BBCDC)
      else (b XOR c XOR d, 0xCA62C1D6))"

definition sha_round :: "sha_state \<Rightarrow> nat \<times> u32 \<Rightarrow> sha_state" where
  "sha_round s iw =
     (let (a, b, c, d, e) = s; (i, wi) = iw; (f, k) = round_fk i b c d;
          temp = word_rotl 5 a + f + e + k + wi
      in (temp, a, word_rotl 30 b, c, d))"

definition sha_chunk :: "sha_state \<Rightarrow> u8 list \<Rightarrow> sha_state" where
  "sha_chunk h chunk =
     (let (h0, h1, h2, h3, h4) = h;
          (a, b, c, d, e) = foldl sha_round h (enumerate 0 (schedule chunk))
      in (h0 + a, h1 + b, h2 + c, h3 + d, h4 + e))"

definition sha_init :: sha_state where
  "sha_init = (0x67452301, 0xEFCDAB89, 0x98BADCFE, 0x10325476, 0xC3D2E1F0)"

definition sha1 :: "u8 list \<Rightarrow> u8 list" where
  "sha1 data =
     (let (h0, h1, h2, h3, h4) = foldl sha_chunk sha_init (chunks 64 (sha1_pad data))
      in concat (map be_bytes_u32 [h0, h1, h2, h3, h4]))"

definition hex_digit :: "nat \<Rightarrow> char" where
  "hex_digit n = (if n < 10 then char_of (48 + n) else char_of (87 + n))"

definition hex_byte :: "u8 \<Rightarrow> string" where
  "hex_byte b = [hex_digit (unat b div 16), hex_digit (unat b mod 16)]"

definition sha1_hex :: "string \<Rightarrow> string" where
  "sha1_hex s = concat (map hex_byte (sha1 (map (\<lambda>c. word_of_nat (of_char c)) s)))"

definition session_key :: "string option \<Rightarrow> string \<Rightarrow> string" where
  "session_key explicit first_user_message =
     (case explicit of Some sid \<Rightarrow> sid | None \<Rightarrow> sha1_hex first_user_message)"

section \<open>Properties\<close>

lemma inject_messages:
  "inject key p m now msgs st = (b, msgs', st') \<Longrightarrow>
   (if b then \<exists>h. msgs' = h # msgs \<and> starts_with HANDOFF_MARKER (content h) \<and> role h = ''system''
    else msgs' = msgs) \<and> st' key = Some (\<lparr>messages_summary = (case fst (get_live key now st) of
      Some e \<Rightarrow> messages_summary e | None \<Rightarrow> ''''), last_provider_model = (p, m)\<rparr>, now)"
  by (auto simp: inject_def Let_def put_def handoff_body_def split: prod.splits option.splits if_splits)

text \<open>\<open>inject\<close> puts one handoff message in front exactly when the session has a live entry
  for a different provider or model and no handoff message is present yet; the caller's messages are
  never dropped or reordered, and the summary survives with the new model recorded.\<close>

theorem inject_spec:
  assumes "inject key p m now msgs st = (b, msgs', st')"
  shows "(b \<longleftrightarrow> (\<exists>e. fst (get_live key now st) = Some e \<and> last_provider_model e \<noteq> (p, m)) \<and>
            (\<forall>x \<in> set msgs. \<not> starts_with HANDOFF_MARKER (content x))) \<and>
    (\<exists>h. msgs' = (if b then h # msgs else msgs) \<and> (b \<longrightarrow> starts_with HANDOFF_MARKER (content h))) \<and>
    map_option (\<lambda>(e, t). (last_provider_model e, t)) (st' key) = Some ((p, m), now)"
proof -
  have "b \<longleftrightarrow> (\<exists>e. fst (get_live key now st) = Some e \<and> last_provider_model e \<noteq> (p, m)) \<and>
            (\<forall>x \<in> set msgs. \<not> starts_with HANDOFF_MARKER (content x))"
    using assms by (auto simp: inject_def Let_def list_ex_iff split: prod.splits option.splits)
  moreover have "\<exists>h. msgs' = (if b then h # msgs else msgs) \<and> (b \<longrightarrow> starts_with HANDOFF_MARKER (content h))"
    using inject_messages [OF assms] by (auto split: if_splits)
  ultimately show ?thesis using inject_messages [OF assms] by simp
qed

theorem inject_spec_witness:
  "fst (inject ''s'' ''groq'' ''m2'' 5 [] [''s'' \<mapsto> (\<lparr>messages_summary = ''sum'',
     last_provider_model = (''google'', ''m1'')\<rparr>, 0)])"
proof -
  let ?st = "[''s'' \<mapsto> (\<lparr>messages_summary = ''sum'', last_provider_model = (''google'', ''m1'')\<rparr>, 0)]"
  obtain b msgs' st' where i: "inject ''s'' ''groq'' ''m2'' 5 [] ?st = (b, msgs', st')"
    by (metis prod_cases3)
  have "fst (get_live ''s'' 5 ?st) = Some \<lparr>messages_summary = ''sum'', last_provider_model = (''google'', ''m1'')\<rparr>"
    by (simp add: get_live_def TTL_def)
  with inject_spec [OF i] i show ?thesis by simp
qed

text \<open>A second injection for the same session, at any time and for any model, never adds a
  second handoff message to a conversation that got one.\<close>

theorem inject_at_most_once:
  assumes "inject key p m now msgs st = (True, msgs', st')"
  shows "\<exists>st''. inject key p' m' now' msgs' st' = (False, msgs', st'')"
proof -
  have "list_ex (\<lambda>x. starts_with HANDOFF_MARKER (content x)) msgs'"
    using inject_messages [OF assms] by auto
  then show ?thesis
    by (auto simp: inject_def Let_def split: prod.splits option.splits)
qed

theorem inject_at_most_once_witness:
  "\<exists>msgs' st' st''. inject ''s'' ''groq'' ''m2'' 5 []
      [''s'' \<mapsto> (\<lparr>messages_summary = ''sum'', last_provider_model = (''google'', ''m1'')\<rparr>, 0)]
      = (True, msgs', st') \<and> inject ''s'' ''aion'' ''m3'' 6 msgs' st' = (False, msgs', st'')"
proof -
  obtain msgs' st' where i: "inject ''s'' ''groq'' ''m2'' 5 []
      [''s'' \<mapsto> (\<lparr>messages_summary = ''sum'', last_provider_model = (''google'', ''m1'')\<rparr>, 0)]
      = (True, msgs', st')"
    by (simp add: inject_def get_live_def TTL_def Let_def)
  from inject_at_most_once [OF i] i show ?thesis by blast
qed

lemma length_pad56: "length (pad56 msg) mod 64 = 56"
proof (induction msg rule: pad56.induct)
  case (1 msg)
  then show ?case by (cases "length msg mod 64 = 56") (simp_all add: pad56.simps [of msg])
qed

lemma pad56_prefix: "\<exists>n. pad56 msg = msg @ replicate n 0"
proof (induction msg rule: pad56.induct)
  case (1 msg)
  show ?case
  proof (cases "length msg mod 64 = 56")
    case True
    then have "pad56 msg = msg @ replicate 0 0" by (simp add: pad56.simps [of msg])
    then show ?thesis by blast
  next
    case False
    with 1 obtain n where "pad56 (msg @ [0]) = (msg @ [0]) @ replicate n 0" by auto
    with False have "pad56 msg = msg @ replicate (Suc n) 0" by (simp add: pad56.simps [of msg])
    then show ?thesis by blast
  qed
qed

lemma chunks_Nil: "chunks n [] = []"
  by (subst chunks.simps) simp

lemma chunks_step: "0 < n \<Longrightarrow> xs \<noteq> [] \<Longrightarrow> chunks n xs = take n xs # chunks n (drop n xs)"
  by (subst chunks.simps) simp

lemma chunks_lengths: "n dvd length xs \<Longrightarrow> 0 < n \<Longrightarrow> \<forall>c \<in> set (chunks n xs). length c = n"
proof (induction n xs rule: chunks.induct)
  case (1 n xs)
  show ?case
  proof (cases "xs = []")
    case True
    show ?thesis unfolding True chunks_Nil by simp
  next
    case False
    then have "0 < length xs" by simp
    with "1.prems"(1) have "n \<le> length xs" by (rule dvd_imp_le)
    have d: "n dvd length (drop n xs)"
      unfolding length_drop using "1.prems"(1) dvd_refl by (rule dvd_diff_nat)
    have "\<not> (n = 0 \<or> xs = [])" using "1.prems"(2) False by blast
    from "1.IH" [OF this d "1.prems"(2)]
    have "\<forall>c \<in> set (chunks n (drop n xs)). length c = n" .
    moreover have "length (take n xs) = n" using \<open>n \<le> length xs\<close> by simp
    ultimately show ?thesis
      unfolding chunks_step [OF "1.prems"(2) False] list.set ball_simps by blast
  qed
qed

lemma length_sha1_pad: "length (sha1_pad data) mod 64 = 0"
proof -
  have "length (sha1_pad data) = length (pad56 (data @ [0x80])) + 8"
    by (simp add: sha1_pad_def be_bytes_u64_def)
  then have "length (sha1_pad data) mod 64 = (length (pad56 (data @ [0x80])) mod 64 + 8) mod 64"
    by (simp only: mod_add_left_eq)
  then show ?thesis by (simp add: length_pad56)
qed

text \<open>The SHA-1 loops are total and well shaped: the padded message is the data, one 0x80
  byte, zeros and the bit length; it splits into whole 64-byte blocks; and the key is always forty
  bytes, so no session is left without a key.\<close>

theorem sha1_shape:
  "(\<exists>n. sha1_pad data = data @ [0x80] @ replicate n 0 @ be_bytes_u64 (word_of_nat (length data) * 8)) \<and>
   length (sha1_pad data) mod 64 = 0 \<and>
   (\<forall>c \<in> set (chunks 64 (sha1_pad data)). length c = 64 \<and> length (schedule c) = 80) \<and>
   length (sha1 data) = 20 \<and> length (sha1_hex s) = 40"
proof -
  have len: "length (sha1_pad data) mod 64 = 0" by (rule length_sha1_pad)
  then have "\<forall>c \<in> set (chunks 64 (sha1_pad data)). length c = 64"
    by (intro chunks_lengths) (simp_all add: mod_eq_0_iff_dvd)
  moreover have "length (extend_words n w) = length w + n" for n w
    by (induction n w rule: extend_words.induct) simp_all
  then have "length (schedule c) = 80" for c
    by (simp add: schedule_def first_words_def)
  moreover have sha: "length (sha1 d) = 20" for d
    by (simp add: sha1_def be_bytes_u32_def split: prod.splits)
  moreover have "length (concat (map hex_byte bs)) = 2 * length bs" for bs
    by (induction bs) (simp_all add: hex_byte_def)
  moreover obtain n where "pad56 (data @ [0x80]) = (data @ [0x80]) @ replicate n 0"
    using pad56_prefix by blast
  then have "sha1_pad data = data @ [0x80] @ replicate n 0 @ be_bytes_u64 (word_of_nat (length data) * 8)"
    by (simp add: sha1_pad_def)
  ultimately show ?thesis using len by (auto simp: sha1_hex_def sha)
qed

theorem sha1_shape_witness:
  "length (sha1_pad [1, 2, 3]) mod 64 = 0 \<and>
   (\<exists>n. sha1_pad [1, 2, 3] = [1, 2, 3, 0x80] @ replicate n 0 @ be_bytes_u64 24)"
  using sha1_shape [of "[1, 2, 3]" "''x''"] by simp

end
