(* ===== verification/Graph.thy ===== *)
theory Graph
  imports Prelude
begin

text \<open>
  The task graph of a goal, \<open>crates/single-runtime/src/coordinator/graph.rs\<close>: the string enums
  (one macro, here one locale with an interpretation per enum), nodes, the ready set, the memoised
  critical-path depth and the patch operations of the supervisor. A \<open>TaskGraph\<close> has the single
  field \<open>nodes\<close> and is that list. The recursion of \<open>depth_of\<close> does not end on a cyclic graph, so
  it takes fuel and answers \<open>None\<close> when the call stack is deeper than the graph has nodes;
  \<open>critical_path_correct\<close> shows that this happens exactly on a reachable cycle.
\<close>

section \<open>String enums\<close>

definition str_enum_parse :: "string \<Rightarrow> ('a \<Rightarrow> string) \<Rightarrow> 'a list \<Rightarrow> string \<Rightarrow> 'a result" where
  "str_enum_parse name as_str variants s =
     (case find (\<lambda>v. as_str v = s) variants of
        Some v \<Rightarrow> Inr v
      | None \<Rightarrow> Inl (''unknown '' @ name @ '': '' @ s))"

datatype node_kind =
    NkCode | NkTest | NkResearch | NkReview | NkDocs | NkInfra | NkPlan | NkSupervise | NkIntegrate

datatype effort = Quick | Standard | Deep

datatype node_status =
    NsPending | NsReady | NsRunning | NsDone | NsFailed | NsSkipped | NsBlocked

datatype goal_mode = GmAuto | GmPlan | GmCareful | GmDry

datatype goal_status =
    GsPlanning | GsRunning | GsQueued | GsBlocked | GsDone | GsFailed | GsCancelled
  | GsWaitingOnCapacity | GsPaused

fun node_kind_str :: "node_kind \<Rightarrow> string" where
  "node_kind_str NkCode = ''code''"
| "node_kind_str NkTest = ''test''"
| "node_kind_str NkResearch = ''research''"
| "node_kind_str NkReview = ''review''"
| "node_kind_str NkDocs = ''docs''"
| "node_kind_str NkInfra = ''infra''"
| "node_kind_str NkPlan = ''plan''"
| "node_kind_str NkSupervise = ''supervise''"
| "node_kind_str NkIntegrate = ''integrate''"

fun effort_str :: "effort \<Rightarrow> string" where
  "effort_str Quick = ''quick''"
| "effort_str Standard = ''standard''"
| "effort_str Deep = ''deep''"

fun node_status_str :: "node_status \<Rightarrow> string" where
  "node_status_str NsPending = ''pending''"
| "node_status_str NsReady = ''ready''"
| "node_status_str NsRunning = ''running''"
| "node_status_str NsDone = ''done''"
| "node_status_str NsFailed = ''failed''"
| "node_status_str NsSkipped = ''skipped''"
| "node_status_str NsBlocked = ''blocked''"

fun goal_mode_str :: "goal_mode \<Rightarrow> string" where
  "goal_mode_str GmAuto = ''auto''"
| "goal_mode_str GmPlan = ''plan''"
| "goal_mode_str GmCareful = ''careful''"
| "goal_mode_str GmDry = ''dry''"

fun goal_status_str :: "goal_status \<Rightarrow> string" where
  "goal_status_str GsPlanning = ''planning''"
| "goal_status_str GsRunning = ''running''"
| "goal_status_str GsQueued = ''queued''"
| "goal_status_str GsBlocked = ''blocked''"
| "goal_status_str GsDone = ''done''"
| "goal_status_str GsFailed = ''failed''"
| "goal_status_str GsCancelled = ''cancelled''"
| "goal_status_str GsWaitingOnCapacity = ''waiting_on_capacity''"
| "goal_status_str GsPaused = ''paused''"

definition node_kinds :: "node_kind list" where
  "node_kinds = [NkCode, NkTest, NkResearch, NkReview, NkDocs, NkInfra, NkPlan, NkSupervise, NkIntegrate]"

definition efforts :: "effort list" where
  "efforts = [Quick, Standard, Deep]"

definition node_statuses :: "node_status list" where
  "node_statuses = [NsPending, NsReady, NsRunning, NsDone, NsFailed, NsSkipped, NsBlocked]"

definition goal_modes :: "goal_mode list" where
  "goal_modes = [GmAuto, GmPlan, GmCareful, GmDry]"

definition goal_statuses :: "goal_status list" where
  "goal_statuses = [GsPlanning, GsRunning, GsQueued, GsBlocked, GsDone, GsFailed, GsCancelled,
     GsWaitingOnCapacity, GsPaused]"

definition node_kind_parse :: "string \<Rightarrow> node_kind result" where
  "node_kind_parse = str_enum_parse ''NodeKind'' node_kind_str node_kinds"

definition effort_parse :: "string \<Rightarrow> effort result" where
  "effort_parse = str_enum_parse ''Effort'' effort_str efforts"

definition node_status_parse :: "string \<Rightarrow> node_status result" where
  "node_status_parse = str_enum_parse ''NodeStatus'' node_status_str node_statuses"

definition goal_mode_parse :: "string \<Rightarrow> goal_mode result" where
  "goal_mode_parse = str_enum_parse ''GoalMode'' goal_mode_str goal_modes"

definition goal_status_parse :: "string \<Rightarrow> goal_status result" where
  "goal_status_parse = str_enum_parse ''GoalStatus'' goal_status_str goal_statuses"

locale str_enum =
  fixes name :: string and as_str :: "'a \<Rightarrow> string" and variants :: "'a list"
  assumes complete: "v \<in> set variants"
    and distinct_names: "distinct (map as_str variants)"
begin

lemma as_str_eq_iff: "as_str v = as_str w \<longleftrightarrow> v = w"
  using distinct_names complete [of v] complete [of w]
  by (auto simp: distinct_map inj_on_def)

lemma parse_as_str: "str_enum_parse name as_str variants (as_str v) = Inr v"
  using find_unique [OF distinct_names complete [of v]] by (simp add: str_enum_parse_def)

lemma parse_Inr: "str_enum_parse name as_str variants s = Inr v \<longleftrightarrow> s = as_str v"
proof
  show "str_enum_parse name as_str variants s = Inr v \<Longrightarrow> s = as_str v"
    by (auto simp: str_enum_parse_def split: option.splits dest: find_SomeD)
qed (simp add: parse_as_str)

lemma parse_Inl:
  "str_enum_parse name as_str variants s = Inl e \<longleftrightarrow>
     s \<notin> range as_str \<and> e = ''unknown '' @ name @ '': '' @ s"
proof (cases "find (\<lambda>v. as_str v = s) variants")
  case None
  then have "s \<notin> range as_str" using complete by (auto dest!: find_NoneD)
  with None show ?thesis by (auto simp: str_enum_parse_def)
next
  case (Some v)
  then have "s = as_str v" by (auto dest: find_SomeD)
  with Some show ?thesis by (auto simp: str_enum_parse_def)
qed

end

interpretation node_kind: str_enum "''NodeKind''" node_kind_str node_kinds
proof
  show "v \<in> set node_kinds" for v by (cases v) (simp_all add: node_kinds_def)
qed (simp add: node_kinds_def)

interpretation effort: str_enum "''Effort''" effort_str efforts
proof
  show "v \<in> set efforts" for v by (cases v) (simp_all add: efforts_def)
qed (simp add: efforts_def)

interpretation node_status: str_enum "''NodeStatus''" node_status_str node_statuses
proof
  show "v \<in> set node_statuses" for v by (cases v) (simp_all add: node_statuses_def)
qed (simp add: node_statuses_def)

interpretation goal_mode: str_enum "''GoalMode''" goal_mode_str goal_modes
proof
  show "v \<in> set goal_modes" for v by (cases v) (simp_all add: goal_modes_def)
qed (simp add: goal_modes_def)

interpretation goal_status: str_enum "''GoalStatus''" goal_status_str goal_statuses
proof
  show "v \<in> set goal_statuses" for v by (cases v) (simp_all add: goal_statuses_def)
qed (simp add: goal_statuses_def)

lemmas parse_as_str [simp] =
  node_kind.parse_as_str [folded node_kind_parse_def]
  effort.parse_as_str [folded effort_parse_def]
  node_status.parse_as_str [folded node_status_parse_def]
  goal_mode.parse_as_str [folded goal_mode_parse_def]
  goal_status.parse_as_str [folded goal_status_parse_def]

fun default_worktree :: "node_kind \<Rightarrow> bool" where
  "default_worktree NkCode = True"
| "default_worktree NkInfra = True"
| "default_worktree _ = False"

section \<open>Nodes and graphs\<close>

record node =
  nid :: string
  ndesc :: string
  nkind :: node_kind
  neffort :: effort
  nagent :: string
  ndeps :: "string list"
  nstatus :: node_status
  ntask :: "int option"
  nattempts :: nat
  nworktree :: bool
  noutput :: "string option"
  nretry_at :: "int option"

type_synonym task_graph = "node list"

definition find_node :: "string \<Rightarrow> task_graph \<Rightarrow> node option" where
  "find_node i g = find (\<lambda>n. nid n = i) g"

text \<open>\<open>find_mut\<close> gives access to the first node of that id; \<open>alter_node f\<close> writes through it.\<close>

fun alter_node :: "(node \<Rightarrow> node) \<Rightarrow> string \<Rightarrow> task_graph \<Rightarrow> task_graph" where
  "alter_node f i [] = []"
| "alter_node f i (n # g) = (if nid n = i then f n # g else n # alter_node f i g)"

datatype patch_op =
    Retarget string "node_kind option" "string option"
  | Split string "node list"
  | MarkOptional string
  | AddDependency string string
  | BlockNode string string
  | Abort string

definition is_satisfied :: "task_graph \<Rightarrow> string \<Rightarrow> bool" where
  "is_satisfied g dep =
     (case find_node dep g of
        Some d \<Rightarrow> nstatus d \<in> {NsDone, NsSkipped}
      | None \<Rightarrow> False)"

definition ready_set_at :: "int \<Rightarrow> task_graph \<Rightarrow> node list" where
  "ready_set_at now_ms g =
     filter (\<lambda>n. list_all (is_satisfied g) (ndeps n))
       (filter (\<lambda>n. case nretry_at n of None \<Rightarrow> True | Some t \<Rightarrow> t \<le> now_ms)
         (filter (\<lambda>n. nstatus n \<in> {NsPending, NsReady}) g))"

definition ready_set :: "task_graph \<Rightarrow> node list" where
  "ready_set g = ready_set_at i64_max g"

definition dependents :: "task_graph \<Rightarrow> string \<Rightarrow> string list" where
  "dependents g i = map nid (filter (\<lambda>n. list_ex (\<lambda>d. d = i) (ndeps n)) g)"

definition max_or_0 :: "nat list \<Rightarrow> nat" where
  "max_or_0 ds = foldr max ds 0"

fun depth_of :: "nat \<Rightarrow> task_graph \<Rightarrow> string \<Rightarrow> (string \<rightharpoonup> nat) \<Rightarrow> (nat \<times> (string \<rightharpoonup> nat)) option"
  and depth_all :: "nat \<Rightarrow> task_graph \<Rightarrow> string list \<Rightarrow> (string \<rightharpoonup> nat) \<Rightarrow> (nat list \<times> (string \<rightharpoonup> nat)) option"
  where
  "depth_of 0 g i memo = None"
| "depth_of (Suc fuel) g i memo =
     (case memo i of
        Some d \<Rightarrow> Some (d, memo)
      | None \<Rightarrow>
          (case depth_all fuel g (dependents g i) memo of
             None \<Rightarrow> None
           | Some (ds, memo') \<Rightarrow> let d = max_or_0 ds in Some (d, memo'(i \<mapsto> d))))"
| "depth_all fuel g [] memo = Some ([], memo)"
| "depth_all fuel g (dep # deps) memo =
     (case depth_of fuel g dep memo of
        None \<Rightarrow> None
      | Some (d, memo') \<Rightarrow>
          (case depth_all fuel g deps memo' of
             None \<Rightarrow> None
           | Some (ds, memo'') \<Rightarrow> Some ((1 + d) # ds, memo'')))"

definition critical_path_depth :: "task_graph \<Rightarrow> string \<Rightarrow> nat option" where
  "critical_path_depth g i = map_option fst (depth_of (Suc (length g)) g i Map.empty)"

definition sibling_status :: "task_graph \<Rightarrow> string \<Rightarrow> (string \<times> node_status) list" where
  "sibling_status g i = map (\<lambda>n. (nid n, nstatus n)) (filter (\<lambda>n. nid n \<noteq> i) g)"

definition is_all_terminal :: "task_graph \<Rightarrow> bool" where
  "is_all_terminal g = list_all (\<lambda>n. nstatus n \<in> {NsDone, NsFailed, NsSkipped, NsBlocked}) g"

definition has_failure :: "task_graph \<Rightarrow> bool" where
  "has_failure g = list_ex (\<lambda>n. nstatus n = NsFailed) g"

text \<open>One patch operation. An \<open>Err\<close> stops the loop over the operations and the edits made so far
  stay in the graph, so the graph comes back on both sides.\<close>

definition rewire :: "string \<Rightarrow> string list \<Rightarrow> node \<Rightarrow> node" where
  "rewire i new_ids n =
     (if i \<in> set (ndeps n) then n\<lparr>ndeps := remove1 i (ndeps n) @ new_ids\<rparr> else n)"

fun apply_op :: "patch_op \<Rightarrow> task_graph \<Rightarrow> unit result \<times> task_graph" where
  "apply_op (Retarget i k a) g =
     (if find_node i g = None then (Inl (''retarget: no node '' @ i), g)
      else (Inr (), alter_node (\<lambda>n. n\<lparr>nkind := unwrap_or k (nkind n), nagent := unwrap_or a (nagent n),
              nstatus := NsPending, ntask := None\<rparr>) i g))"
| "apply_op (Split i into) g =
     (if find_node i g = None then (Inl (''split: no node '' @ i), g)
      else (Inr (), filter (\<lambda>n. nid n \<noteq> i) (map (rewire i (map nid into)) g) @ into))"
| "apply_op (MarkOptional i) g =
     (if find_node i g = None then (Inl (''mark_optional: no node '' @ i), g)
      else (Inr (), alter_node (\<lambda>n. if nstatus n \<in> {NsDone, NsRunning} then n else n\<lparr>nstatus := NsSkipped\<rparr>) i g))"
| "apply_op (AddDependency i on) g =
     (if find_node on g = None then (Inl (''add_dependency: no node '' @ on), g)
      else if find_node i g = None then (Inl (''add_dependency: no node '' @ i), g)
      else (Inr (), alter_node (\<lambda>n. if on \<in> set (ndeps n) then n else n\<lparr>ndeps := ndeps n @ [on]\<rparr>) i g))"
| "apply_op (BlockNode i question) g =
     (if find_node i g = None then (Inl (''block: no node '' @ i), g)
      else (Inr (), alter_node (\<lambda>n. n\<lparr>nstatus := NsBlocked\<rparr>) i g))"
| "apply_op (Abort reason) g = (Inl (''coordinator abort: '' @ reason), g)"

fun apply_patch :: "patch_op list \<Rightarrow> task_graph \<Rightarrow> unit result \<times> task_graph" where
  "apply_patch [] g = (Inr (), g)"
| "apply_patch (op # ops) g =
     (case apply_op op g of
        (Inl e, g') \<Rightarrow> (Inl e, g')
      | (Inr u, g') \<Rightarrow> apply_patch ops g')"

section \<open>Node updates\<close>

lemma find_node_Some: "find_node i g = Some n \<Longrightarrow> n \<in> set g \<and> nid n = i"
  by (auto simp: find_node_def dest: find_SomeD)

lemma find_node_None: "find_node i g = None \<longleftrightarrow> i \<notin> nid ` set g"
  by (auto simp: find_node_def find_None_iff)

lemma find_node_distinct:
  "distinct (map nid g) \<Longrightarrow> n \<in> set g \<Longrightarrow> find_node (nid n) g = Some n"
  unfolding find_node_def by (rule find_unique)

lemma map_alter_node:
  "(\<And>n. k (f n) = k n) \<Longrightarrow> map k (alter_node f i g) = map k g"
  by (induction f i g rule: alter_node.induct) auto

lemma set_alter_node: "set (alter_node f i g) \<subseteq> set g \<union> f ` {n \<in> set g. nid n = i}"
  by (induction f i g rule: alter_node.induct) auto

lemma alter_node_distinct:
  "distinct (map nid g) \<Longrightarrow> alter_node f i g = map (\<lambda>n. if nid n = i then f n else n) g"
proof (induction f i g rule: alter_node.induct)
  case (2 f i n g)
  moreover have "map (\<lambda>n. if nid n = i then f n else n) g = g" if "i \<notin> nid ` set g"
    using that by (intro map_idI) auto
  ultimately show ?case by auto
qed simp

lemma find_alter_node:
  "(\<And>n. nid (f n) = nid n) \<Longrightarrow>
   find_node j (alter_node f i g) = (if i = j then map_option f (find_node j g) else find_node j g)"
  by (induction f i g rule: alter_node.induct) (auto simp: find_node_def)

section \<open>The ready set\<close>

definition startable :: "int \<Rightarrow> task_graph \<Rightarrow> node \<Rightarrow> bool" where
  "startable now g n \<longleftrightarrow> nstatus n \<in> {NsPending, NsReady} \<and>
     (\<forall>t. nretry_at n = Some t \<longrightarrow> t \<le> now) \<and> (\<forall>d \<in> set (ndeps n). is_satisfied g d)"

lemma set_ready_set_at: "set (ready_set_at now g) = {n \<in> set g. startable now g n}"
  by (auto simp: ready_set_at_def startable_def list_all_iff split: option.splits)

lemma ready_set_at_filter: "ready_set_at now g = filter (startable now g) g"
  by (auto simp: ready_set_at_def startable_def list_all_iff intro!: filter_cong split: option.splits)

section \<open>Critical-path depth\<close>

text \<open>\<open>(a, b)\<close> is an edge when node \<open>b\<close> depends on \<open>a\<close>; the depth of \<open>a\<close> is the length of the
  longest path that starts there.\<close>

definition dep_rel :: "task_graph \<Rightarrow> (string \<times> string) set" where
  "dep_rel g = {(a, b). b \<in> set (dependents g a)}"

lemma dep_rel_iff: "(a, b) \<in> dep_rel g \<longleftrightarrow> (\<exists>n \<in> set g. nid n = b \<and> a \<in> set (ndeps n))"
  by (auto simp: dep_rel_def dependents_def list_ex_iff)

definition longest_chain :: "task_graph \<Rightarrow> string \<Rightarrow> nat \<Rightarrow> bool" where
  "longest_chain g a d \<longleftrightarrow> (\<exists>b. (a, b) \<in> dep_rel g ^^ d) \<and> (\<forall>k b. (a, b) \<in> dep_rel g ^^ k \<longrightarrow> k \<le> d)"

lemma max_or_0_ge: "d \<in> set ds \<Longrightarrow> d \<le> max_or_0 ds"
  by (induction ds) (auto simp: max_or_0_def)

lemma max_or_0_mem: "max_or_0 ds = 0 \<or> max_or_0 ds \<in> set ds"
  by (induction ds) (auto simp: max_or_0_def max_def)

lemma list_all2_Suc:
  assumes "list_all2 (\<lambda>b d. \<exists>k. d = Suc k \<and> P b k) bs ds"
  shows "(\<forall>b \<in> set bs. \<exists>k. Suc k \<in> set ds \<and> P b k) \<and>
    (\<forall>d \<in> set ds. \<exists>b k. b \<in> set bs \<and> d = Suc k \<and> P b k)"
  using assms by (induction rule: list_all2_induct) (simp_all, blast)

lemma longest_chain_step:
  assumes "list_all2 (\<lambda>b d. \<exists>k. d = Suc k \<and> longest_chain g b k) (dependents g a) ds"
  shows "longest_chain g a (max_or_0 ds)"
proof -
  have bound: "k \<le> max_or_0 ds" if "(a, b) \<in> dep_rel g ^^ k" for k b
  proof (cases k)
    case (Suc k')
    with that have "(a, b) \<in> dep_rel g ^^ Suc k'" by simp
    then obtain c where "(a, c) \<in> dep_rel g" and cb: "(c, b) \<in> dep_rel g ^^ k'"
      by (blast dest: relpow_Suc_D2)
    then have c: "c \<in> set (dependents g a)" by (simp add: dep_rel_def)
    from c list_all2_Suc [OF assms] obtain j where j: "Suc j \<in> set ds" "longest_chain g c j"
      by blast
    from j(2) cb have "k' \<le> j" unfolding longest_chain_def by blast
    with max_or_0_ge [OF j(1)] Suc show ?thesis by linarith
  qed simp
  have "\<exists>b. (a, b) \<in> dep_rel g ^^ max_or_0 ds"
  proof (cases "max_or_0 ds = 0")
    case False
    with max_or_0_mem [of ds] list_all2_Suc [OF assms] obtain c k b where
      c: "c \<in> set (dependents g a)" "max_or_0 ds = Suc k" "(c, b) \<in> dep_rel g ^^ k"
      unfolding longest_chain_def by blast
    from c(1) have "(a, c) \<in> dep_rel g" by (simp add: dep_rel_def)
    from relpow_Suc_I2 [OF this c(3)] show ?thesis unfolding c(2) by blast
  qed auto
  with bound show ?thesis unfolding longest_chain_def by blast
qed

definition memo_ok :: "task_graph \<Rightarrow> (string \<rightharpoonup> nat) \<Rightarrow> bool" where
  "memo_ok g memo \<longleftrightarrow> (\<forall>x d. memo x = Some d \<longrightarrow> longest_chain g x d)"

lemma depth_of_sound:
  "depth_of fuel g i memo = Some (d, memo') \<Longrightarrow> memo_ok g memo \<Longrightarrow>
     longest_chain g i d \<and> memo_ok g memo'"
  "depth_all fuel g deps memo = Some (ds, memo') \<Longrightarrow> memo_ok g memo \<Longrightarrow>
     list_all2 (\<lambda>b d. \<exists>k. d = Suc k \<and> longest_chain g b k) deps ds \<and> memo_ok g memo'"
proof (induction fuel g i memo and fuel g deps memo arbitrary: d memo' and ds memo'
    rule: depth_of_depth_all.induct)
  case (2 fuel g i memo)
  show ?case
  proof (cases "memo i")
    case None
    with "2.prems"(1) obtain es m where m: "depth_all fuel g (dependents g i) memo = Some (es, m)"
      "d = max_or_0 es" "memo' = m(i \<mapsto> d)"
      by (auto simp: Let_def split: option.splits)
    from "2.IH" [OF None m(1) "2.prems"(2)] longest_chain_step
    show ?thesis by (auto simp: m(2,3) memo_ok_def)
  qed (use 2 in \<open>auto simp: memo_ok_def\<close>)
next
  case (4 fuel g dep deps memo)
  then show ?case by (fastforce split: option.splits)
qed auto

lemma depth_of_total:
  "(\<And>b. (i, b) \<notin> dep_rel g ^^ fuel) \<Longrightarrow> depth_of fuel g i memo \<noteq> None"
  "(\<And>c b. c \<in> set deps \<Longrightarrow> (c, b) \<notin> dep_rel g ^^ fuel) \<Longrightarrow> depth_all fuel g deps memo \<noteq> None"
proof (induction fuel g i memo and fuel g deps memo rule: depth_of_depth_all.induct)
  case (1 g i memo)
  from 1 [of i] show ?case by simp
next
  case (2 fuel g i memo)
  have "(c, b) \<notin> dep_rel g ^^ fuel" if "c \<in> set (dependents g i)" for c b
    using "2.prems" [of b] relpow_Suc_I2 [of i c "dep_rel g" b fuel] that by (auto simp: dep_rel_def)
  with "2.IH" show ?case by (cases "memo i") (auto simp: Let_def split: option.splits)
next
  case (4 fuel g dep deps memo)
  then show ?case by (fastforce split: option.splits)
qed simp

definition cycle_from :: "task_graph \<Rightarrow> string \<Rightarrow> bool" where
  "cycle_from g i \<longleftrightarrow> (\<exists>x. (i, x) \<in> (dep_rel g)\<^sup>* \<and> (x, x) \<in> (dep_rel g)\<^sup>+)"

lemma long_chain_cycle:
  assumes "(i, b) \<in> dep_rel g ^^ Suc (length g)"
  shows "cycle_from g i"
proof -
  obtain f where f: "f 0 = i" "\<forall>k < Suc (length g). (f k, f (Suc k)) \<in> dep_rel g"
    using assms relpow_fun_conv by metis
  let ?I = "{1..Suc (length g)}"
  have "f ` ?I \<subseteq> nid ` set g"
  proof
    fix y assume "y \<in> f ` ?I"
    then obtain k where "y = f (Suc k)" "k < Suc (length g)"
      by (metis Suc_le_lessD Suc_pred' atLeastAtMost_iff image_iff less_eq_Suc_le One_nat_def)
    with f(2) have "(f k, y) \<in> dep_rel g" by simp
    then show "y \<in> nid ` set g" by (auto simp: dep_rel_iff)
  qed
  then have "card (f ` ?I) \<le> card (nid ` set g)" by (intro card_mono) auto
  also have "\<dots> \<le> length g" using card_image_le [of "set g" nid] card_length [of g] by simp
  finally have "card (f ` ?I) < card ?I" by simp
  then have "\<not> inj_on f ?I" by (metis card_image less_irrefl)
  then obtain j k where jk: "j < k" "k \<le> Suc (length g)" "f j = f k"
    by (metis atLeastAtMost_iff inj_onI linorder_neqE_nat)
  have path: "(f a, f (a + n)) \<in> dep_rel g ^^ n" if "a + n \<le> Suc (length g)" for a n
    using that f(2) by (induction n) auto
  from path [of 0 j] f(1) jk have "(i, f j) \<in> (dep_rel g)\<^sup>*"
    by (simp add: relpow_imp_rtrancl)
  moreover from path [of j "k - j"] jk have "(f j, f j) \<in> (dep_rel g)\<^sup>+"
    by (auto simp: trancl_power intro!: exI [of _ "k - j"])
  ultimately show ?thesis by (auto simp: cycle_from_def)
qed

lemma cycle_unbounded:
  assumes "cycle_from g i" shows "\<not> longest_chain g i d"
proof
  assume d: "longest_chain g i d"
  from assms obtain x k m where x: "(i, x) \<in> dep_rel g ^^ k" "(x, x) \<in> dep_rel g ^^ m" "0 < m"
    by (auto simp: cycle_from_def rtrancl_power trancl_power)
  have "(x, x) \<in> dep_rel g ^^ (m * t)" for t
  proof (induction t)
    case (Suc t)
    from relcompI [OF x(2) this] show ?case by (simp only: mult_Suc_right relpow_add)
  qed simp
  then have "(i, x) \<in> dep_rel g ^^ (k + m * Suc d)"
    using x(1) unfolding relpow_add by blast
  with d have "k + m * Suc d \<le> d" by (auto simp: longest_chain_def)
  with x(3) show False by (cases m) auto
qed

text \<open>A node waiting for its dependencies, for the concrete graphs below.\<close>

definition plain_node :: "string \<Rightarrow> string list \<Rightarrow> node" where
  "plain_node i deps = \<lparr>nid = i, ndesc = '''', nkind = NkCode, neffort = Standard, nagent = '''',
     ndeps = deps, nstatus = NsPending, ntask = None, nattempts = 0, nworktree = False,
     noutput = None, nretry_at = None\<rparr>"

lemma depth_is_longest: "critical_path_depth g i = Some d \<Longrightarrow> longest_chain g i d"
  using depth_of_sound(1) [of "Suc (length g)" g i Map.empty]
  by (auto simp: critical_path_depth_def memo_ok_def simp del: depth_of.simps)

lemma depth_defined_iff:
  "(\<exists>d. critical_path_depth g i = Some d) \<longleftrightarrow>
     \<not> (\<exists>x. (i, x) \<in> (dep_rel g)\<^sup>* \<and> (x, x) \<in> (dep_rel g)\<^sup>+)"
proof
  assume "\<exists>d. critical_path_depth g i = Some d"
  then obtain d m where "depth_of (Suc (length g)) g i Map.empty = Some (d, m)"
    by (auto simp: critical_path_depth_def simp del: depth_of.simps)
  then have "longest_chain g i d" by (rule depth_of_sound(1) [THEN conjunct1]) (simp add: memo_ok_def)
  then show "\<not> (\<exists>x. (i, x) \<in> (dep_rel g)\<^sup>* \<and> (x, x) \<in> (dep_rel g)\<^sup>+)"
    using cycle_unbounded cycle_from_def by blast
next
  assume "\<not> (\<exists>x. (i, x) \<in> (dep_rel g)\<^sup>* \<and> (x, x) \<in> (dep_rel g)\<^sup>+)"
  then have "(i, b) \<notin> dep_rel g ^^ Suc (length g)" for b
    using long_chain_cycle cycle_from_def by blast
  from depth_of_total(1) [OF this] show "\<exists>d. critical_path_depth g i = Some d"
    by (auto simp: critical_path_depth_def simp del: depth_of.simps)
qed

text \<open>C6: the memoised recursion returns, within a call stack as deep as the graph has nodes, exactly when no dependency
  cycle can be reached from the node, and what it returns is the length of the longest chain of dependents.\<close>

theorem critical_path_correct:
  "((\<exists>d. critical_path_depth g i = Some d) \<longleftrightarrow>
     \<not> (\<exists>x. (i, x) \<in> (dep_rel g)\<^sup>* \<and> (x, x) \<in> (dep_rel g)\<^sup>+)) \<and>
   (\<forall>d. critical_path_depth g i = Some d \<longrightarrow>
     (\<exists>b. (i, b) \<in> dep_rel g ^^ d) \<and> (\<forall>k b. (i, b) \<in> dep_rel g ^^ k \<longrightarrow> k \<le> d))"
  using depth_defined_iff [of g i] depth_is_longest [of g i] by (auto simp: longest_chain_def)

theorem critical_path_correct_witness:
  "critical_path_depth [plain_node ''a'' [''b'']] ''b'' = Some 1 \<and> \<not> (\<exists>b. (''b'', b) \<in> dep_rel [plain_node ''a'' [''b'']] ^^ 2)"
proof -
  let ?g = "[plain_node ''a'' [''b'']]"
  have d: "critical_path_depth ?g ''b'' = Some 1"
    by (simp add: critical_path_depth_def dependents_def max_or_0_def plain_node_def)
  from critical_path_correct [of ?g "''b''"] d have "\<forall>k b. (''b'', b) \<in> dep_rel ?g ^^ k \<longrightarrow> k \<le> 1" by blast
  then have "(''b'', b) \<notin> dep_rel ?g ^^ 2" for b by (metis Suc_1 not_less_eq_eq order_refl)
  with d show ?thesis by blast
qed

lemma depth_defined_acyclic: "acyclic (dep_rel g) \<Longrightarrow> \<exists>d. critical_path_depth g i = Some d"
  by (simp add: depth_defined_iff acyclic_def)

text \<open>Nothing rejects a dependency cycle: two \<open>AddDependency\<close> operations that are both accepted
  build one, and from then on the depth of these nodes has no value (the recursion of the program
  does not end).\<close>

lemma add_dependency_cycle:
  "\<exists>g. apply_patch [AddDependency ''a'' ''b'', AddDependency ''b'' ''a'']
         [plain_node ''a'' [], plain_node ''b'' []] = (Inr (), g) \<and> critical_path_depth g ''a'' = None"
  by (simp add: plain_node_def find_node_def critical_path_depth_def dependents_def)

section \<open>Progress of the ready set\<close>

definition wf_graph :: "task_graph \<Rightarrow> bool" where
  "wf_graph g \<longleftrightarrow> distinct (map nid g) \<and>
     (\<forall>n \<in> set g. distinct (ndeps n) \<and> set (ndeps n) \<subseteq> nid ` set g)"

lemma wf_deps: "wf_graph g \<Longrightarrow> n \<in> set g \<Longrightarrow> distinct (ndeps n) \<and> set (ndeps n) \<subseteq> nid ` set g"
  by (simp add: wf_graph_def)

lemma wf_dep: "wf_graph g \<Longrightarrow> n \<in> set g \<Longrightarrow> d \<in> set (ndeps n) \<Longrightarrow> d \<in> nid ` set g"
  by (auto simp: wf_graph_def)

lemma finite_dep_rel: "finite (dep_rel g)"
proof -
  have "dep_rel g \<subseteq> (\<Union>n \<in> set g. set (ndeps n)) \<times> nid ` set g" by (auto simp: dep_rel_iff)
  then show ?thesis by (rule finite_subset) simp
qed

lemma settled_satisfied:
  assumes "wf_graph g" "n \<in> set g" "nstatus n \<in> {NsDone, NsSkipped}"
  shows "is_satisfied g (nid n)"
  using assms by (simp add: is_satisfied_def wf_graph_def find_node_distinct)

lemma ready_nonempty:
  assumes wf: "wf_graph g" and ac: "acyclic (dep_rel g)"
    and st: "\<forall>n \<in> set g. nstatus n \<notin> {NsRunning, NsFailed, NsBlocked}"
    and now: "\<forall>n \<in> set g. \<forall>t. nretry_at n = Some t \<longrightarrow> t \<le> now"
  shows "ready_set_at now g \<noteq> [] \<or> is_all_terminal g"
proof (rule disjCI)
  let ?U = "nid ` {n \<in> set g. nstatus n \<in> {NsPending, NsReady}}"
  assume "\<not> is_all_terminal g"
  then obtain n0 where n0: "n0 \<in> set g" "nstatus n0 \<notin> {NsDone, NsFailed, NsSkipped, NsBlocked}"
    unfolding is_all_terminal_def list_all_iff by blast
  with bspec [OF st n0(1)] have "nstatus n0 \<in> {NsPending, NsReady}"
    by (cases "nstatus n0") simp_all
  with n0(1) have u: "nid n0 \<in> ?U" by blast
  have "wf (dep_rel g)" using finite_dep_rel ac by (rule finite_acyclic_wf)
  from wfE_min [OF this u] obtain z where z: "z \<in> ?U" "\<And>y. (y, z) \<in> dep_rel g \<Longrightarrow> y \<notin> ?U"
    by blast
  then obtain n where n: "n \<in> set g" "nstatus n \<in> {NsPending, NsReady}" "nid n = z" by blast
  have "is_satisfied g d" if d: "d \<in> set (ndeps n)" for d
  proof -
    from wf n(1) d obtain m where m: "m \<in> set g" "nid m = d" by (auto simp: wf_graph_def)
    have "(d, z) \<in> dep_rel g" using n d by (auto simp: dep_rel_iff)
    from z(2) [OF this] m have "nstatus m \<notin> {NsPending, NsReady}" by blast
    with bspec [OF st m(1)] have "nstatus m \<in> {NsDone, NsSkipped}"
      by (cases "nstatus m") simp_all
    from settled_satisfied [OF wf m(1) this] m(2) show ?thesis by simp
  qed
  then have "n \<in> set (ready_set_at now g)"
    using n now by (auto simp: set_ready_set_at startable_def)
  then show "ready_set_at now g \<noteq> []" by force
qed

text \<open>A well-formed acyclic graph never gets stuck: when nothing runs, nothing has failed or is
  blocked and no retry stamp lies ahead, then some node is ready or all nodes are terminal.\<close>

theorem ready_set_progress:
  assumes "wf_graph g" and "acyclic (dep_rel g)"
    and "\<forall>n \<in> set g. nstatus n \<notin> {NsRunning, NsFailed, NsBlocked}"
    and "\<forall>n \<in> set g. \<forall>t. nretry_at n = Some t \<longrightarrow> t \<le> now"
  shows "ready_set_at now g \<noteq> [] \<or> is_all_terminal g"
  using assms by (rule ready_nonempty)

theorem ready_set_progress_witness:
  "ready_set_at 0 [plain_node ''a'' [''b''], plain_node ''b'' []] \<noteq> []"
proof -
  let ?g = "[plain_node ''a'' [''b''], plain_node ''b'' []]"
  have "dep_rel ?g = {(''b'', ''a'')}" by (auto simp: dep_rel_iff plain_node_def)
  then have "acyclic (dep_rel ?g)" by (simp add: acyclic_insert) (simp add: acyclic_def)
  moreover have "wf_graph ?g" by (auto simp: wf_graph_def plain_node_def)
  ultimately have "ready_set_at 0 ?g \<noteq> [] \<or> is_all_terminal ?g"
    by (intro ready_set_progress) (auto simp: plain_node_def)
  then show ?thesis by (simp add: is_all_terminal_def plain_node_def)
qed

section \<open>Patches\<close>

text \<open>Operations after the first failing one are not applied; the edits before it stay.\<close>

lemma apply_patch_append:
  "apply_patch (ops @ ops') g =
     (case apply_patch ops g of (Inl e, g') \<Rightarrow> (Inl e, g') | (Inr u, g') \<Rightarrow> apply_patch ops' g')"
  by (induction ops g rule: apply_patch.induct) (auto split: prod.splits sum.splits)

fun op_fits :: "patch_op \<Rightarrow> task_graph \<Rightarrow> bool" where
  "op_fits (Split i into) g \<longleftrightarrow> distinct (map nid into) \<and>
     nid ` set into \<inter> (nid ` set g - {i}) = {} \<and>
     (\<forall>m \<in> set into. distinct (ndeps m) \<and>
        set (ndeps m) \<subseteq> (nid ` set g - {i}) \<union> nid ` set into)"
| "op_fits _ g = True"

fun patch_fits :: "patch_op list \<Rightarrow> task_graph \<Rightarrow> bool" where
  "patch_fits [] g = True"
| "patch_fits (op # ops) g = (op_fits op g \<and> patch_fits ops (snd (apply_op op g)))"

lemma wf_alter_node:
  assumes "wf_graph g" and "\<And>n. nid (f n) = nid n"
    and "\<And>n. n \<in> set g \<Longrightarrow> nid n = i \<Longrightarrow> distinct (ndeps (f n)) \<and> set (ndeps (f n)) \<subseteq> nid ` set g"
  shows "wf_graph (alter_node f i g)"
proof -
  have ids: "map nid (alter_node f i g) = map nid g" using assms(2) by (rule map_alter_node)
  then have "nid ` set (alter_node f i g) = nid ` set g" by (metis set_map)
  with ids assms(1,3) set_alter_node [of f i g] show ?thesis
    by (auto simp: wf_graph_def) blast+
qed

lemma rewire_ids [simp]: "nid (rewire i new n) = nid n" "nid \<circ> rewire i new = nid"
  by (auto simp: rewire_def)

lemma wf_split:
  assumes wf: "wf_graph g" and fits: "op_fits (Split i into) g"
  shows "wf_graph (filter (\<lambda>n. nid n \<noteq> i) (map (rewire i (map nid into)) g) @ into)"
proof -
  let ?g' = "filter (\<lambda>n. nid n \<noteq> i) (map (rewire i (map nid into)) g) @ into"
  have "map nid (filter (\<lambda>n. nid n \<noteq> i) (map (rewire i (map nid into)) g)) =
      filter (\<lambda>j. j \<noteq> i) (map nid g)"
    by (induction g) auto
  then have m: "map nid ?g' = filter (\<lambda>j. j \<noteq> i) (map nid g) @ map nid into" by simp
  have "nid ` set ?g' = set (map nid ?g')" by (simp only: set_map)
  then have ids: "nid ` set ?g' = (nid ` set g - {i}) \<union> nid ` set into"
    unfolding m by auto
  have "distinct (map nid g)" using wf by (simp add: wf_graph_def)
  with fits have "distinct (map nid ?g')" unfolding m by auto
  moreover have "distinct (ndeps n) \<and> set (ndeps n) \<subseteq> nid ` set ?g'" if n: "n \<in> set ?g'" for n
  proof (cases "n \<in> set into")
    case True
    with fits show ?thesis unfolding ids by auto
  next
    case False
    with n obtain m where m: "m \<in> set g" "n = rewire i (map nid into) m" by auto
    from wf_deps [OF wf m(1)] fits m(2) show ?thesis unfolding ids by (auto simp: rewire_def)
  qed
  ultimately show ?thesis by (simp add: wf_graph_def)
qed

lemma apply_op_wf: "wf_graph g \<Longrightarrow> op_fits op g \<Longrightarrow> wf_graph (snd (apply_op op g))"
proof (cases op)
  case (AddDependency i on)
  assume wf: "wf_graph g"
  show ?thesis
  proof (cases "on \<in> nid ` set g")
    case True
    have "wf_graph (alter_node (\<lambda>n. if on \<in> set (ndeps n) then n else n\<lparr>ndeps := ndeps n @ [on]\<rparr>) i g)"
      by (rule wf_alter_node [OF wf]) (use wf_deps [OF wf] True in auto)
    with wf show ?thesis by (simp add: AddDependency)
  qed (simp add: AddDependency find_node_None wf)
qed (auto intro!: wf_alter_node wf_split dest: wf_deps wf_dep split: if_splits)

text \<open>C7: a supervisor patch, even one that fails half way, leaves a well-formed graph: ids stay
  unique and every dependency still names a node, provided the replacement nodes of a split bring
  fresh ids and depend on nodes that remain.\<close>

theorem apply_patch_wf:
  assumes "wf_graph g" and "patch_fits ops g"
  shows "wf_graph (snd (apply_patch ops g))"
  using assms
proof (induction ops g rule: apply_patch.induct)
  case (2 op ops g)
  then show ?case
    using apply_op_wf [of g op] by (auto split: prod.splits sum.splits)
qed simp

theorem apply_patch_wf_witness:
  "wf_graph (snd (apply_patch [Split ''b'' [plain_node ''b1'' [], plain_node ''b2'' [''b1'']]]
     [plain_node ''a'' [''b''], plain_node ''b'' []]))"
  by (rule apply_patch_wf) (auto simp: wf_graph_def plain_node_def)

text \<open>A split replaces the node by its parts: the node is gone, every node that depended on it
  now depends on all parts and on nothing else new, and it becomes ready only when all parts are
  settled.\<close>

theorem split_rewires:
  assumes wf: "wf_graph g" and fits: "op_fits (Split i into) g" and ex: "i \<in> nid ` set g"
    and m: "n \<in> set g" "nid n \<noteq> i"
    and g': "apply_patch [Split i into] g = (r, g')"
  shows "r = Inr () \<and> (i \<in> nid ` set g' \<longrightarrow> i \<in> nid ` set into) \<and>
    (\<exists>n' \<in> set g'. nid n' = nid n \<and> nstatus n' = nstatus n \<and>
       set (ndeps n') = (if i \<in> set (ndeps n) then set (ndeps n) - {i} \<union> nid ` set into else set (ndeps n)) \<and>
       (i \<in> set (ndeps n) \<longrightarrow> startable now g' n' \<longrightarrow> (\<forall>p \<in> set into. nstatus p \<in> {NsDone, NsSkipped})))"
proof -
  let ?n = "rewire i (map nid into) n"
  from g' ex have r: "r = Inr ()" and
    eq: "g' = filter (\<lambda>n. nid n \<noteq> i) (map (rewire i (map nid into)) g) @ into"
    by (auto simp: find_node_None)
  have wf': "wf_graph g'" unfolding eq using wf fits by (rule wf_split)
  have n': "?n \<in> set g'" using m by (auto simp: eq)
  have deps: "set (ndeps ?n) =
      (if i \<in> set (ndeps n) then set (ndeps n) - {i} \<union> nid ` set into else set (ndeps n))"
    using wf_deps [OF wf m(1)] by (auto simp: rewire_def)
  have "nstatus p \<in> {NsDone, NsSkipped}"
    if "i \<in> set (ndeps n)" "startable now g' ?n" "p \<in> set into" for p
  proof -
    from that deps have "is_satisfied g' (nid p)" by (auto simp: startable_def)
    moreover have "find_node (nid p) g' = Some p"
      using wf' that(3) by (intro find_node_distinct) (auto simp: wf_graph_def eq)
    ultimately show ?thesis by (simp add: is_satisfied_def)
  qed
  moreover have "i \<in> nid ` set g' \<longrightarrow> i \<in> nid ` set into" by (auto simp: eq)
  moreover have "nstatus ?n = nstatus n" by (simp add: rewire_def)
  ultimately show ?thesis using r n' deps rewire_ids(1) by blast
qed

theorem split_rewires_witness:
  "\<exists>n' \<in> set (snd (apply_patch [Split ''b'' [plain_node ''b1'' [], plain_node ''b2'' []]]
      [plain_node ''a'' [''b''], plain_node ''b'' []])). nid n' = ''a'' \<and> set (ndeps n') = {''b1'', ''b2''}"
proof -
  let ?g = "[plain_node ''a'' [''b''], plain_node ''b'' []]"
  let ?into = "[plain_node ''b1'' [], plain_node ''b2'' []]"
  have p: "apply_patch [Split ''b'' ?into] ?g = (fst (apply_patch [Split ''b'' ?into] ?g),
      snd (apply_patch [Split ''b'' ?into] ?g))" by simp
  have "wf_graph ?g" "op_fits (Split ''b'' ?into) ?g" "''b'' \<in> nid ` set ?g"
    "plain_node ''a'' [''b''] \<in> set ?g" "nid (plain_node ''a'' [''b'']) \<noteq> ''b''"
    by (auto simp: wf_graph_def plain_node_def)
  from split_rewires [OF this p, of 0] obtain n' where
    "n' \<in> set (snd (apply_patch [Split ''b'' ?into] ?g))" "nid n' = nid (plain_node ''a'' [''b''])"
    "set (ndeps n') = (if ''b'' \<in> set (ndeps (plain_node ''a'' [''b'']))
       then set (ndeps (plain_node ''a'' [''b''])) - {''b''} \<union> nid ` set ?into
       else set (ndeps (plain_node ''a'' [''b''])))"
    by blast
  then show ?thesis by (intro bexI [of _ n']) (simp_all add: plain_node_def)
qed

end
