(* ===== verification/Routing.thy ===== *)
theory Routing
  imports Graph
begin

text \<open>
  Agent routing, \<open>crates/single-runtime/src/coordinator/routing.rs\<close>: the coordinator's
  configuration with its defaults, the routing table (\<open>kind -> effort -> agents\<close>), the candidate
  list of a node and the choice of an agent under the live health of the pool. A \<open>BTreeMap\<close> is a
  partial map and a \<open>BTreeSet\<close> a set. Loading and writing the two TOML files, the \<open>$PATH\<close> lookup
  and the clock are outside: \<open>probe\<close> gets the lookup, the cutoff and the task rows as arguments.
\<close>

section \<open>Configuration and table\<close>

record coordinator_config =
  max_parallel :: nat
  tick_interval_secs :: nat
  max_dispatches_per_goal :: nat
  max_goal_minutes :: nat
  max_supervisor_patches :: nat
  usage_json_agents :: "string list"
  prefer_pool :: bool
  max_capacity_waits_per_goal :: nat
  max_capacity_wait_minutes :: nat

definition default_max_capacity_waits_per_goal :: nat where
  "default_max_capacity_waits_per_goal = 20"

definition default_max_capacity_wait_minutes :: nat where
  "default_max_capacity_wait_minutes = 720"

definition default_config :: coordinator_config where
  "default_config = \<lparr>
     max_parallel = 6,
     tick_interval_secs = 5,
     max_dispatches_per_goal = 25,
     max_goal_minutes = 60,
     max_supervisor_patches = 5,
     usage_json_agents = [],
     prefer_pool = False,
     max_capacity_waits_per_goal = default_max_capacity_waits_per_goal,
     max_capacity_wait_minutes = default_max_capacity_wait_minutes\<rparr>"

record routing_table =
  kinds :: "string \<rightharpoonup> (string \<rightharpoonup> string list)"
  effort_max_steps :: "string \<rightharpoonup> nat"
  fallback_default :: "string list"

definition default_kinds :: "string \<rightharpoonup> (string \<rightharpoonup> string list)" where
  "default_kinds = [
     ''code'' \<mapsto>
       [''quick'' \<mapsto> [''single-openrouter'', ''single-nvidia'', ''opencode''],
        ''standard'' \<mapsto> [''opencode'', ''grok'', ''single-openrouter''],
        ''deep'' \<mapsto> [''grok'', ''claude'', ''opencode'']],
     ''research'' \<mapsto> [''standard'' \<mapsto> [''grok'', ''single-gemini'']],
     ''test'' \<mapsto> [''standard'' \<mapsto> [''opencode'', ''single-openrouter'']],
     ''review'' \<mapsto> [''standard'' \<mapsto> [''grok'', ''claude'', ''opencode'']],
     ''docs'' \<mapsto> [''standard'' \<mapsto> [''opencode'', ''single-openrouter'']],
     ''infra'' \<mapsto> [''standard'' \<mapsto> [''opencode'', ''grok'']],
     ''plan'' \<mapsto> [''standard'' \<mapsto> [''grok'', ''claude'', ''opencode'', ''single-openrouter'']],
     ''supervise'' \<mapsto> [''standard'' \<mapsto> [''grok'', ''claude'', ''opencode'']],
     ''integrate'' \<mapsto> [''standard'' \<mapsto> [''grok'', ''opencode'', ''claude'']]]"

definition default_table :: routing_table where
  "default_table = \<lparr>
     kinds = default_kinds,
     effort_max_steps = [''quick'' \<mapsto> 8, ''standard'' \<mapsto> 20, ''deep'' \<mapsto> 40],
     fallback_default = [''grok'', ''opencode'', ''single-openrouter'', ''single-gemini'',
       ''single-nvidia'', ''claude'']\<rparr>"

definition max_steps :: "routing_table \<Rightarrow> effort \<Rightarrow> nat" where
  "max_steps t e = unwrap_or (effort_max_steps t (effort_str e)) 20"

text \<open>The closure \<open>push\<close> appends the agents of a list that are not in \<open>out\<close> yet.\<close>

fun push_new :: "string list \<Rightarrow> string list \<Rightarrow> string list" where
  "push_new out [] = out"
| "push_new out (a # as) = push_new (if a \<in> set out then out else out @ [a]) as"

definition table_list :: "routing_table \<Rightarrow> node_kind \<Rightarrow> string \<Rightarrow> string list option" where
  "table_list t k e = Option.bind (kinds t (node_kind_str k)) (\<lambda>m. m e)"

definition candidates :: "routing_table \<Rightarrow> node_kind \<Rightarrow> effort \<Rightarrow> string list" where
  "candidates t k e =
     (let out = push_new [] (unwrap_or (table_list t k (effort_str e)) []);
          out = push_new out (unwrap_or (table_list t k ''standard'') [])
      in push_new out (fallback_default t))"

section \<open>Pool health and selection\<close>

record pool_health =
  detected_authed :: "string set"
  rate_limited_agents :: "string set"

definition usable :: "pool_health \<Rightarrow> string \<Rightarrow> bool" where
  "usable h agent \<longleftrightarrow>
     agent = ''single-pool'' \<or> (agent \<in> detected_authed h \<and> agent \<notin> rate_limited_agents h)"

text \<open>\<open>probe\<close>: \<open>registry\<close> holds (name, command) pairs; a row of \<open>tasks\<close> is its agent,
  \<open>rate_limited\<close> and \<open>updated_at\<close> columns, and SQLite compares the RFC 3339 texts.\<close>

definition probe ::
    "(string \<times> string) list \<Rightarrow> (string \<Rightarrow> bool) \<Rightarrow> string \<Rightarrow> (string \<times> int \<times> string) list \<Rightarrow> pool_health" where
  "probe registry command_on_path cutoff tasks =
     \<lparr>detected_authed = set (map fst (filter (\<lambda>(name, command). command_on_path command) registry)),
      rate_limited_agents = set (map fst (filter (\<lambda>(agent, limited, updated). limited = 1 \<and> cutoff \<le> updated) tasks))\<rparr>"

definition select_agent ::
    "routing_table \<Rightarrow> node_kind \<Rightarrow> effort \<Rightarrow> pool_health \<Rightarrow> string option" where
  "select_agent t k e h =
     (case find (usable h) (candidates t k e) of
        Some a \<Rightarrow> Some a
      | None \<Rightarrow>
          if detected_authed h = {} then
            (case candidates t k e of [] \<Rightarrow> None | a # _ \<Rightarrow> Some a)
          else None)"

definition select_agent_with_prefer_pool ::
    "routing_table \<Rightarrow> node_kind \<Rightarrow> effort \<Rightarrow> pool_health \<Rightarrow> bool \<Rightarrow> string option" where
  "select_agent_with_prefer_pool t k e h prefer =
     (if \<not> prefer then select_agent t k e h
      else if (case table_list t k (effort_str e) of
                 Some l \<Rightarrow> list_ex (\<lambda>a. a = ''single-pool'') l | None \<Rightarrow> False)
      then select_agent t k e h
      else Some ''single-pool'')"

section \<open>Candidate lists\<close>

definition first_occurrences :: "'a list \<Rightarrow> 'a list" where
  "first_occurrences xs = rev (remdups (rev xs))"

lemma first_occurrences_snoc:
  "first_occurrences (xs @ [x]) = (if x \<in> set xs then first_occurrences xs else first_occurrences xs @ [x])"
  by (simp add: first_occurrences_def)

lemma set_first_occurrences [simp]: "set (first_occurrences xs) = set xs"
  by (simp add: first_occurrences_def)

lemma push_new_first_occurrences:
  "push_new (first_occurrences xs) ys = first_occurrences (xs @ ys)"
proof (induction ys arbitrary: xs)
  case (Cons y ys)
  from Cons [of "xs @ [y]"] show ?case by (auto simp: first_occurrences_snoc)
qed simp

definition candidate_order :: "routing_table \<Rightarrow> node_kind \<Rightarrow> effort \<Rightarrow> string list" where
  "candidate_order t k e = unwrap_or (table_list t k (effort_str e)) [] @
     unwrap_or (table_list t k ''standard'') [] @ fallback_default t"

lemma candidates_eq: "candidates t k e = first_occurrences (candidate_order t k e)"
proof -
  have "push_new [] ys = first_occurrences ys" for ys
    using push_new_first_occurrences [of "[]" ys] by (simp add: first_occurrences_def)
  then show ?thesis
    by (simp add: candidates_def candidate_order_def Let_def push_new_first_occurrences)
qed

text \<open>The candidate list is the exact list, the kind's standard list and the fallback order
  with later duplicates dropped: no agent is tried twice and none is lost.\<close>

theorem candidates_spec:
  "candidates t k e = rev (remdups (rev (unwrap_or (table_list t k (effort_str e)) [] @
       unwrap_or (table_list t k ''standard'') [] @ fallback_default t))) \<and>
   distinct (candidates t k e)"
  by (simp add: candidates_eq candidate_order_def first_occurrences_def)

lemma select_agent_None_iff:
  "select_agent t k e h = None \<longleftrightarrow>
     candidates t k e = [] \<or>
     detected_authed h \<noteq> {} \<and> (\<forall>a \<in> set (candidates t k e). \<not> usable h a)"
  by (auto simp: select_agent_def find_None_iff split: option.splits list.splits dest: find_SomeD)

lemma pool_in_candidates:
  "table_list t k (effort_str e) = Some l \<Longrightarrow> ''single-pool'' \<in> set l \<Longrightarrow>
   ''single-pool'' \<in> set (candidates t k e)"
  by (simp add: candidates_eq candidate_order_def)

text \<open>A chosen agent is the first usable one of the candidates, except that with no agent
  detected at all the first candidate is tried anyway; a node stays unrouted only when there is no
  candidate or agents are known and none of the candidates is usable.\<close>

theorem select_agent_spec:
  "(select_agent t k e h = None \<longleftrightarrow>
     candidates t k e = [] \<or>
     detected_authed h \<noteq> {} \<and> (\<forall>a \<in> set (candidates t k e). \<not> usable h a)) \<and>
   (\<forall>a. select_agent t k e h = Some a \<longrightarrow>
     (\<exists>pre post. candidates t k e = pre @ a # post \<and> (\<forall>b \<in> set pre. \<not> usable h b) \<and>
        (usable h a \<or> pre = [] \<and> detected_authed h = {})))"
proof (intro conjI allI impI)
  fix a assume s: "select_agent t k e h = Some a"
  show "\<exists>pre post. candidates t k e = pre @ a # post \<and> (\<forall>b \<in> set pre. \<not> usable h b) \<and>
        (usable h a \<or> pre = [] \<and> detected_authed h = {})"
  proof (cases "find (usable h) (candidates t k e)")
    case None
    with s have "candidates t k e = [] @ a # tl (candidates t k e)" "detected_authed h = {}"
      by (auto simp: select_agent_def split: if_splits list.splits)
    then show ?thesis by fastforce
  next
    case (Some b)
    with s have "find (usable h) (candidates t k e) = Some a" by (simp add: select_agent_def)
    then obtain i where i: "i < length (candidates t k e)" "usable h (candidates t k e ! i)"
      "candidates t k e ! i = a" "\<forall>j<i. \<not> usable h (candidates t k e ! j)"
      by (auto simp: find_Some_iff)
    then have "candidates t k e = take i (candidates t k e) @ a # drop (Suc i) (candidates t k e)"
      by (metis id_take_nth_drop)
    moreover have "\<forall>b \<in> set (take i (candidates t k e)). \<not> usable h b"
      using i(1,4) by (auto simp: in_set_conv_nth)
    ultimately show ?thesis using i(2,3) by blast
  qed
qed (rule select_agent_None_iff)

theorem select_agent_spec_witness:
  "select_agent default_table NkCode Standard
     \<lparr>detected_authed = {''grok''}, rate_limited_agents = {}\<rparr> \<noteq> None"
proof -
  have "''grok'' \<in> set (candidates default_table NkCode Standard)"
    by (simp add: candidates_eq candidate_order_def default_table_def)
  moreover have "usable \<lparr>detected_authed = {''grok''}, rate_limited_agents = {}\<rparr> ''grok''"
    by (simp add: usable_def)
  ultimately show ?thesis
    using select_agent_spec [of default_table NkCode Standard
        "\<lparr>detected_authed = {''grok''}, rate_limited_agents = {}\<rparr>"] by auto
qed

text \<open>With \<open>prefer_pool\<close> every node can be routed, whatever the health of the agents: either the
  pool is chosen outright, or the node's own list places it and the ordinary walk finds an agent.\<close>

theorem prefer_pool_total:
  "\<exists>a. select_agent_with_prefer_pool t k e h True = Some a \<and>
     (a = ''single-pool'' \<or> select_agent t k e h = Some a)"
proof (cases "case table_list t k (effort_str e) of Some l \<Rightarrow> ''single-pool'' \<in> set l | None \<Rightarrow> False")
  case True
  then obtain l where l: "table_list t k (effort_str e) = Some l" "''single-pool'' \<in> set l"
    by (auto split: option.splits)
  moreover have "usable h ''single-pool''" by (simp add: usable_def)
  ultimately have "select_agent t k e h \<noteq> None"
    using pool_in_candidates [OF l] select_agent_None_iff [of t k e h] by auto
  with l show ?thesis by (auto simp: select_agent_with_prefer_pool_def list_ex_iff)
next
  case False
  then show ?thesis
    by (auto simp: select_agent_with_prefer_pool_def list_ex_iff split: option.splits)
qed

text \<open>The default table has a candidate for every kind and effort.\<close>

lemma default_table_candidates: "candidates default_table k e \<noteq> []"
proof -
  have "''grok'' \<in> set (candidates default_table k e)"
    by (simp add: candidates_eq candidate_order_def default_table_def)
  then show ?thesis by auto
qed

end
