(* ===== verification/Scheduler.thy ===== *)
theory Scheduler
  imports Routing "HOL-Library.Sublist" "HOL-Library.Multiset"
begin

text \<open>
  The pure core of the scheduler, \<open>crates/single-runtime/src/coordinator/scheduler.rs\<close>: the
  capacity picture, the budget of a goal, the retry decision and \<open>tick_pure\<close>, which turns a graph
  into an ordered list of actions. Instants are nanoseconds since the epoch, the \<open>u32\<close> and \<open>usize\<close>
  counters are naturals (subtractions saturate, as the code writes them). \<open>tick_pure\<close> answers
  \<open>None\<close> where the recursion of \<open>depth_of\<close> does not end.
\<close>

section \<open>Capacity, budget, retry\<close>

record capacity =
  global_running :: nat
  per_agent_running :: "string \<rightharpoonup> nat"
  per_agent_cap :: "string \<rightharpoonup> nat"

definition usize_max :: nat where
  "usize_max = 18446744073709551615"

definition agent_headroom :: "capacity \<Rightarrow> string \<Rightarrow> nat" where
  "agent_headroom cap agent =
     (case per_agent_cap cap agent of
        Some c \<Rightarrow> c - unwrap_or (per_agent_running cap agent) 0
      | None \<Rightarrow> usize_max)"

record goal_budget =
  b_dispatches :: nat
  b_max_dispatches :: nat
  b_started_at :: int
  b_max_minutes :: nat
  b_now :: int

text \<open>\<open>num_minutes\<close> of a signed difference truncates towards zero; \<open>timestamp_millis\<close> rounds down.\<close>

definition num_minutes :: "int \<Rightarrow> int" where
  "num_minutes d = (if 0 \<le> d then d div 60000000000 else - ((- d) div 60000000000))"

definition timestamp_millis :: "int \<Rightarrow> int" where
  "timestamp_millis t = t div 1000000"

definition exhausted :: "goal_budget \<Rightarrow> string option" where
  "exhausted b =
     (if b_dispatches b \<ge> b_max_dispatches b then
        Some (''dispatch budget spent: '' @ dec_nat (b_dispatches b) @ '' of '' @
              dec_nat (b_max_dispatches b) @ '' node dispatches used'')
      else
        (let elapsed_min = num_minutes (b_now b - b_started_at b)
         in if elapsed_min \<ge> int (b_max_minutes b) then
              Some (''time budget spent: '' @ dec_int elapsed_min @ '' min elapsed of '' @
                    dec_nat (b_max_minutes b) @ '' min cap'')
            else None))"

datatype tick_action =
    Dispatch string string effort bool nat
  | RunIntegrator
  | Block string
  | Fail string
  | Noop

datatype retry_decision = RetrySameNextAgent | Supervisor | GiveUp

definition retry_decision :: "nat \<Rightarrow> bool \<Rightarrow> retry_decision" where
  "retry_decision attempts semantic_failure =
     (if semantic_failure then Supervisor
      else if attempts = 0 \<or> attempts = 1 then RetrySameNextAgent
      else Supervisor)"

fun effort_rank :: "effort \<Rightarrow> nat" where
  "effort_rank Quick = 0"
| "effort_rank Standard = 1"
| "effort_rank Deep = 2"

text \<open>Cheaper efforts come first.\<close>

instantiation effort :: linorder
begin

definition less_eq_effort :: "effort \<Rightarrow> effort \<Rightarrow> bool" where
  "less_eq_effort a b \<longleftrightarrow> effort_rank a \<le> effort_rank b"

definition less_effort :: "effort \<Rightarrow> effort \<Rightarrow> bool" where
  "less_effort a b \<longleftrightarrow> effort_rank a < effort_rank b"

instance
proof
  fix x y :: effort
  show "x \<le> y \<Longrightarrow> y \<le> x \<Longrightarrow> x = y"
    by (cases x; cases y) (simp_all add: less_eq_effort_def)
qed (auto simp: less_eq_effort_def less_effort_def)

end

fun timeout_for :: "effort \<Rightarrow> nat" where
  "timeout_for Quick = 180"
| "timeout_for Standard = 420"
| "timeout_for Deep = 900"

section \<open>\<open>tick_pure\<close>\<close>

text \<open>The comparator: longer dependent chain first, then cheaper effort, then id. \<open>sort_by\<close> is
  stable, and it looks at a depth only when there are two nodes to compare.\<close>

definition ready_key :: "task_graph \<Rightarrow> node \<Rightarrow> int \<times> nat \<times> string" where
  "ready_key g n =
     (- int (unwrap_or (critical_path_depth g (nid n)) 0), effort_rank (neffort n), nid n)"

definition sort_ready :: "task_graph \<Rightarrow> node list \<Rightarrow> node list option" where
  "sort_ready g ready =
     (if length ready \<le> 1 then Some ready
      else if list_ex (\<lambda>n. critical_path_depth g (nid n) = None) ready then None
      else Some (sort_key (ready_key g) ready))"

definition node_agent ::
    "routing_table \<Rightarrow> coordinator_config \<Rightarrow> pool_health \<Rightarrow> node \<Rightarrow> string option" where
  "node_agent t cfg h n =
     (if nagent n \<noteq> '''' then Some (nagent n)
      else select_agent_with_prefer_pool t (nkind n) (neffort n) h (prefer_pool cfg))"

fun admit_nodes ::
    "routing_table \<Rightarrow> coordinator_config \<Rightarrow> capacity \<Rightarrow> pool_health \<Rightarrow> nat \<Rightarrow> nat \<Rightarrow>
     (string \<Rightarrow> nat) \<Rightarrow> node list \<Rightarrow> tick_action list" where
  "admit_nodes t cfg cap h room admitted used [] = []"
| "admit_nodes t cfg cap h room admitted used (n # ns) =
     (if admitted \<ge> room then []
      else case node_agent t cfg h n of
        None \<Rightarrow> admit_nodes t cfg cap h room admitted used ns
      | Some agent \<Rightarrow>
          if agent_headroom cap agent - used agent = 0
          then admit_nodes t cfg cap h room admitted used ns
          else Dispatch (nid n) agent (neffort n) (nworktree n) (max_steps t (neffort n))
               # admit_nodes t cfg cap h room (Suc admitted) (used(agent := Suc (used agent))) ns)"

definition tick_pure ::
    "task_graph \<Rightarrow> coordinator_config \<Rightarrow> capacity \<Rightarrow> goal_budget \<Rightarrow> routing_table \<Rightarrow> pool_health \<Rightarrow>
     tick_action list option" where
  "tick_pure g cfg cap budget t h =
     (case (if is_all_terminal g then None else exhausted budget) of
        Some reason \<Rightarrow> Some [Block reason]
      | None \<Rightarrow>
          if is_all_terminal g then
            (if has_failure g \<and> \<not> list_ex (\<lambda>n. nstatus n = NsDone) g
             then Some [Fail ''every node failed; nothing to integrate'']
             else Some [RunIntegrator])
          else
            (let ready = ready_set_at (timestamp_millis (b_now budget)) g
             in if ready = [] then Some [Noop]
                else case sort_ready g ready of
                  None \<Rightarrow> None
                | Some ordered \<Rightarrow>
                    (let room = max_parallel cfg - global_running cap
                     in if room = 0 then Some [Noop]
                        else (let actions = admit_nodes t cfg cap h room 0 (\<lambda>_. 0) ordered
                              in Some (if actions = [] then [Noop] else actions)))))"

section \<open>The admission loop\<close>

definition is_dispatch :: "tick_action \<Rightarrow> bool" where
  "is_dispatch a \<longleftrightarrow> (\<exists>i ag e w s. a = Dispatch i ag e w s)"

fun dispatches_to :: "string \<Rightarrow> tick_action \<Rightarrow> bool" where
  "dispatches_to ag (Dispatch _ ag' _ _ _) \<longleftrightarrow> ag' = ag"
| "dispatches_to ag _ \<longleftrightarrow> False"

definition dispatch_of :: "routing_table \<Rightarrow> node \<Rightarrow> string \<Rightarrow> tick_action" where
  "dispatch_of t n ag = Dispatch (nid n) ag (neffort n) (nworktree n) (max_steps t (neffort n))"

lemma is_dispatch_simps [simp]:
  "is_dispatch (Dispatch i ag e w s)" "\<not> is_dispatch RunIntegrator" "\<not> is_dispatch (Block r)"
  "\<not> is_dispatch (Fail r)" "\<not> is_dispatch Noop" "is_dispatch (dispatch_of t n ag)"
  by (auto simp: is_dispatch_def dispatch_of_def)

lemma admit_nodes_room:
  "admitted \<le> room \<Longrightarrow> length (admit_nodes t cfg cap h room admitted used ns) + admitted \<le> room"
proof (induction t cfg cap h room admitted used ns rule: admit_nodes.induct)
  case (2 t cfg cap h room admitted used n ns)
  then show ?case by (fastforce split: option.splits)
qed simp

lemma admit_nodes_agent:
  "used ag \<le> agent_headroom cap ag \<Longrightarrow>
   length (filter (dispatches_to ag) (admit_nodes t cfg cap h room admitted used ns)) + used ag
     \<le> agent_headroom cap ag"
proof (induction t cfg cap h room admitted used ns rule: admit_nodes.induct)
  case (2 t cfg cap h room admitted used n ns)
  show ?case
  proof (cases "room \<le> admitted \<or> node_agent t cfg h n = None")
    case True
    with 2 show ?thesis by auto
  next
    case False
    then obtain a where a: "node_agent t cfg h n = Some a" "\<not> room \<le> admitted" by auto
    show ?thesis
    proof (cases "agent_headroom cap a - used a = 0")
      case True
      with 2 a show ?thesis by auto
    next
      case room: False
      from "2.IH"(3) [OF a(2,1) room] "2.prems" a room show ?thesis
        by (cases "a = ag") (auto simp: fun_upd_def)
    qed
  qed
qed simp

lemma admit_nodes_subseq:
  "\<exists>ms. subseq ms ns \<and> list_all2 (\<lambda>n act. \<exists>ag. node_agent t cfg h n = Some ag \<and> act = dispatch_of t n ag)
     ms (admit_nodes t cfg cap h room admitted used ns)"
proof (induction t cfg cap h room admitted used ns rule: admit_nodes.induct)
  case (2 t cfg cap h room admitted used n ns)
  show ?case
  proof (cases "room \<le> admitted \<or> node_agent t cfg h n = None")
    case True
    then show ?thesis
    proof
      assume "room \<le> admitted"
      then show ?thesis by auto
    next
      assume a: "node_agent t cfg h n = None"
      show ?thesis
      proof (cases "room \<le> admitted")
        case True
        then show ?thesis by auto
      next
        case False
        from "2.IH"(1) [OF False a] a False show ?thesis
          by auto
      qed
    qed
  next
    case False
    then obtain a where a: "node_agent t cfg h n = Some a" "\<not> room \<le> admitted" by auto
    show ?thesis
    proof (cases "agent_headroom cap a - used a = 0")
      case True
      from "2.IH"(2) [OF a(2,1) True] a True show ?thesis
        by auto
    next
      case room: False
      from "2.IH"(3) [OF a(2,1) room] obtain ms where
        "subseq ms ns" "list_all2 (\<lambda>n act. \<exists>ag. node_agent t cfg h n = Some ag \<and> act = dispatch_of t n ag)
          ms (admit_nodes t cfg cap h room (Suc admitted) (used(a := Suc (used a))) ns)"
        by blast
      with a room show ?thesis
        by (intro exI [of _ "n # ms"]) (auto simp: dispatch_of_def)
    qed
  qed
qed simp

section \<open>What a tick may do\<close>

text \<open>The dispatching case of \<open>tick_pure\<close>, for the properties below.\<close>

lemma tick_pure_dispatch:
  assumes "tick_pure g cfg cap b t h = Some acts" and "list_ex is_dispatch acts"
  shows "\<not> is_all_terminal g \<and> exhausted b = None \<and>
    (\<exists>sorted. sort_ready g (ready_set_at (timestamp_millis (b_now b)) g) = Some sorted \<and>
       acts = admit_nodes t cfg cap h (max_parallel cfg - global_running cap) 0 (\<lambda>_. 0) sorted)"
  using assms by (auto simp: tick_pure_def Let_def split: if_splits option.splits)

lemma sort_ready_set: "sort_ready g ready = Some ns \<Longrightarrow> mset ns = mset ready"
  by (auto simp: sort_ready_def split: if_splits)

lemma sort_ready_sorted: "sort_ready g ready = Some ns \<Longrightarrow> sorted (map (ready_key g) ns)"
proof (cases "length ready \<le> 1")
  case True
  moreover assume "sort_ready g ready = Some ns"
  ultimately show ?thesis by (cases ready) (auto simp: sort_ready_def)
next
  case False
  moreover assume "sort_ready g ready = Some ns"
  ultimately have "ns = sort_key (ready_key g) ready" by (simp add: sort_ready_def split: if_splits)
  then show ?thesis by (simp only: sorted_sort_key)
qed

lemma subseq_distinct: "subseq xs ys \<Longrightarrow> distinct ys \<Longrightarrow> distinct xs"
  by (auto simp: subseq_conv_nths distinct_nthsI)

lemma subseq_sorted: "subseq xs ys \<Longrightarrow> sorted ys \<Longrightarrow> sorted xs"
  by (auto simp: subseq_conv_nths sorted_nths)

lemma subseq_set: "subseq xs ys \<Longrightarrow> set xs \<subseteq> set ys"
  by (auto simp: subseq_conv_nths dest: in_set_nthsD)

lemma admit_nodes_dispatches: "list_all is_dispatch (admit_nodes t cfg cap h room k used ns)"
  by (induction t cfg cap h room k used ns rule: admit_nodes.induct) (auto simp: fun_upd_def split: option.splits)

lemma no_dispatch_filter: "\<not> list_ex is_dispatch acts \<Longrightarrow> filter (dispatches_to ag) acts = []"
proof (induction acts)
  case (Cons a acts)
  then show ?case by (cases a) auto
qed simp

text \<open>A two-node graph with its pinned agent, the inputs of the concrete instances.\<close>

definition demo_graph :: task_graph where
  "demo_graph = [(plain_node ''a'' [])\<lparr>nagent := ''grok''\<rparr>, (plain_node ''b'' [''a''])\<lparr>nagent := ''grok''\<rparr>]"

definition demo_capacity :: capacity where
  "demo_capacity = \<lparr>global_running = 1, per_agent_running = [''grok'' \<mapsto> 1], per_agent_cap = [''grok'' \<mapsto> 2]\<rparr>"

definition demo_budget :: goal_budget where
  "demo_budget = \<lparr>b_dispatches = 3, b_max_dispatches = 25, b_started_at = 0, b_max_minutes = 60, b_now = 0\<rparr>"

definition demo_health :: pool_health where
  "demo_health = \<lparr>detected_authed = {''grok''}, rate_limited_agents = {}\<rparr>"

lemmas demo_defs = demo_graph_def demo_capacity_def demo_budget_def demo_health_def plain_node_def

lemma demo_ready: "ready_set_at now demo_graph = [(plain_node ''a'' [])\<lparr>nagent := ''grok''\<rparr>]"
  by (simp add: ready_set_at_def is_satisfied_def find_node_def demo_defs)

lemma demo_live: "\<not> is_all_terminal demo_graph" "exhausted demo_budget = None"
  by (simp_all add: is_all_terminal_def exhausted_def num_minutes_def demo_defs)

lemma demo_tick:
  "tick_pure demo_graph default_config demo_capacity demo_budget default_table demo_health =
     Some [Dispatch ''a'' ''grok'' Standard False 20]"
  by (simp add: tick_pure_def demo_live demo_ready sort_ready_def Let_def default_config_def
      demo_capacity_def node_agent_def agent_headroom_def max_steps_def default_table_def)
    (simp add: plain_node_def)

lemma tick_caps_bound:
  assumes t: "tick_pure g cfg cap b t h = Some acts"
  shows "length (filter is_dispatch acts) + global_running cap \<le> max (max_parallel cfg) (global_running cap) \<and>
    (\<forall>ag c. per_agent_cap cap ag = Some c \<longrightarrow>
       length (filter (dispatches_to ag) acts) + unwrap_or (per_agent_running cap ag) 0
         \<le> max c (unwrap_or (per_agent_running cap ag) 0))"
proof (cases "list_ex is_dispatch acts")
  case False
  then have "filter is_dispatch acts = []" by (auto simp: list_ex_iff filter_empty_conv)
  with no_dispatch_filter [OF False] show ?thesis by simp
next
  case True
  from tick_pure_dispatch [OF t True] obtain ns where
    a: "acts = admit_nodes t cfg cap h (max_parallel cfg - global_running cap) 0 (\<lambda>_. 0) ns"
    by blast
  from admit_nodes_dispatches have "filter is_dispatch acts = acts"
    unfolding a by (simp add: filter_id_conv list_all_iff)
  then have "length (filter is_dispatch acts) \<le> max_parallel cfg - global_running cap"
    using admit_nodes_room [of 0 "max_parallel cfg - global_running cap" t cfg cap h "\<lambda>_. 0" ns]
    by (simp add: a)
  moreover have "length (filter (dispatches_to ag) acts) \<le> agent_headroom cap ag" for ag
    using admit_nodes_agent [of "\<lambda>_. 0" ag cap t cfg h _ 0 ns] by (simp add: a)
  ultimately show ?thesis by (fastforce simp: agent_headroom_def split: option.splits)
qed

text \<open>C3: one tick never overcommits: the dispatches of a tick and the nodes already running stay
  within the global ceiling, and those to one agent within that agent's own cap.\<close>

theorem tick_caps:
  assumes "tick_pure g cfg cap b t h = Some acts"
  shows "length (filter is_dispatch acts) + global_running cap \<le> max (max_parallel cfg) (global_running cap) \<and>
    (\<forall>ag c. per_agent_cap cap ag = Some c \<longrightarrow>
       length (filter (dispatches_to ag) acts) + unwrap_or (per_agent_running cap ag) 0
         \<le> max c (unwrap_or (per_agent_running cap ag) 0))"
  using assms by (rule tick_caps_bound)

theorem tick_caps_witness:
  "length (filter is_dispatch [Dispatch ''a'' ''grok'' Standard False 20]) + 1 \<le> 6 \<and>
   length (filter (dispatches_to ''grok'') [Dispatch ''a'' ''grok'' Standard False 20]) + 1 \<le> 2"
  using tick_caps [OF demo_tick] by (auto simp: default_config_def demo_capacity_def)

text \<open>C4: a tick dispatches only ready nodes, each at most once, each to the agent pinned to it or
  else routed to it, and in scheduling order: a longer chain of dependents first, then the cheaper
  effort, then the smaller id.\<close>

theorem tick_dispatches_ready:
  assumes t: "tick_pure g cfg cap b t h = Some acts" and d: "list_ex is_dispatch acts"
    and wf: "distinct (map nid g)"
  shows "\<exists>ms. list_all2 (\<lambda>n act. \<exists>ag. node_agent t cfg h n = Some ag \<and>
        act = Dispatch (nid n) ag (neffort n) (nworktree n) (max_steps t (neffort n))) ms acts \<and>
    set ms \<subseteq> {n \<in> set g. startable (timestamp_millis (b_now b)) g n} \<and> distinct (map nid ms) \<and>
    sorted (map (ready_key g) ms)"
proof -
  let ?ready = "ready_set_at (timestamp_millis (b_now b)) g"
  from tick_pure_dispatch [OF t d] obtain ns where ns: "sort_ready g ?ready = Some ns" and
    a: "acts = admit_nodes t cfg cap h (max_parallel cfg - global_running cap) 0 (\<lambda>_. 0) ns"
    by blast
  from admit_nodes_subseq [where ns = ns] obtain ms where
    ms: "subseq ms ns" "list_all2 (\<lambda>n act. \<exists>ag. node_agent t cfg h n = Some ag \<and> act = dispatch_of t n ag) ms acts"
    unfolding a by blast
  have m: "mset ns = mset ?ready" using ns by (rule sort_ready_set)
  then have "set ns = set ?ready" by (metis set_mset_mset)
  then have "set ms \<subseteq> {n \<in> set g. startable (timestamp_millis (b_now b)) g n}"
    using ms(1) by (auto dest: subseq_set simp: set_ready_set_at)
  moreover have "distinct (map nid ?ready)"
    unfolding ready_set_at_filter using wf by (simp add: distinct_map_filter)
  then have "distinct (map nid ns)"
    using m by (metis mset_eq_imp_distinct_iff mset_map)
  then have "distinct (map nid ms)"
    using ms(1) by (meson subseq_distinct subseq_map)
  moreover have "sorted (map (ready_key g) ms)"
    using sort_ready_sorted [OF ns] ms(1) by (meson subseq_sorted subseq_map)
  ultimately show ?thesis using ms(2) by (auto simp: dispatch_of_def)
qed

theorem tick_dispatches_ready_witness:
  "\<exists>n \<in> set demo_graph. startable 0 demo_graph n \<and> nid n = ''a''"
proof -
  have "distinct (map nid demo_graph)" by (simp add: demo_defs)
  from tick_dispatches_ready [OF demo_tick _ this] obtain ms where
    "list_all2 (\<lambda>n act. \<exists>ag. node_agent default_table default_config demo_health n = Some ag \<and>
        act = Dispatch (nid n) ag (neffort n) (nworktree n) (max_steps default_table (neffort n)))
        ms [Dispatch ''a'' ''grok'' Standard False 20]"
    "set ms \<subseteq> {n \<in> set demo_graph. startable (timestamp_millis (b_now demo_budget)) demo_graph n}"
    by auto
  then show ?thesis
    by (auto simp: list_all2_Cons2 demo_budget_def timestamp_millis_def)
qed

lemma admit_nodes_skip:
  "n \<in> set ns \<Longrightarrow> \<forall>ag. dispatch_of t n ag \<notin> set (admit_nodes t cfg cap h room k used ns) \<Longrightarrow> k \<le> room \<Longrightarrow>
   length (admit_nodes t cfg cap h room k used ns) + k = room \<or> node_agent t cfg h n = None \<or>
   (\<exists>ag. node_agent t cfg h n = Some ag \<and> agent_headroom cap ag \<le>
      length (filter (dispatches_to ag) (admit_nodes t cfg cap h room k used ns)) + used ag)"
proof (induction t cfg cap h room k used ns rule: admit_nodes.induct)
  case (2 t cfg cap h room k used m ns)
  show ?case
  proof (cases "room \<le> k")
    case True
    with "2.prems"(3) show ?thesis by simp
  next
    case room: False
    show ?thesis
    proof (cases "node_agent t cfg h m")
      case None
      with 2 room show ?thesis by auto
    next
      case (Some a)
      show ?thesis
      proof (cases "agent_headroom cap a - used a = 0")
        case True
        with 2 room Some show ?thesis by auto
      next
        case False
        have acts: "admit_nodes t cfg cap h room k used (m # ns) =
            dispatch_of t m a # admit_nodes t cfg cap h room (Suc k) (used(a := Suc (used a))) ns"
          using room Some False by (simp add: dispatch_of_def)
        with "2.prems" have "n \<in> set ns" by auto
        with "2.IH"(3) [OF room Some False] "2.prems" room show ?thesis
          unfolding acts by (fastforce simp: dispatch_of_def)
      qed
    qed
  qed
qed simp

text \<open>C5: a tick is work-conserving: a ready node that was not dispatched found the global ceiling
  reached, no agent for its kind, or its agent at its cap after the dispatches of this tick.\<close>

theorem tick_work_conserving:
  assumes t: "tick_pure g cfg cap b t h = Some acts" and live: "\<not> is_all_terminal g" "exhausted b = None"
    and n: "n \<in> set g" "startable (timestamp_millis (b_now b)) g n"
    and skipped: "\<forall>ag e w s. Dispatch (nid n) ag e w s \<notin> set acts"
  shows "length (filter is_dispatch acts) = max_parallel cfg - global_running cap \<or>
    node_agent t cfg h n = None \<or>
    (\<exists>ag. node_agent t cfg h n = Some ag \<and>
       agent_headroom cap ag \<le> length (filter (dispatches_to ag) acts))"
proof -
  let ?ready = "ready_set_at (timestamp_millis (b_now b)) g"
  let ?room = "max_parallel cfg - global_running cap"
  have ready: "n \<in> set ?ready" using n by (simp add: set_ready_set_at)
  then have "?ready \<noteq> []" by auto
  with t live obtain ns where ns: "sort_ready g ?ready = Some ns"
    by (auto simp: tick_pure_def Let_def split: option.splits if_splits)
  have mem: "n \<in> set ns"
    using ready sort_ready_set [OF ns] by (metis set_mset_mset)
  show ?thesis
  proof (cases "?room = 0")
    case True
    with t live ns \<open>?ready \<noteq> []\<close> have "acts = [Noop]" by (simp add: tick_pure_def Let_def)
    with True show ?thesis by simp
  next
    case False
    let ?a = "admit_nodes t cfg cap h ?room 0 (\<lambda>_. 0) ns"
    from t live ns False \<open>?ready \<noteq> []\<close> have acts: "acts = (if ?a = [] then [Noop] else ?a)"
      by (simp add: tick_pure_def Let_def)
    then have "\<forall>ag. dispatch_of t n ag \<notin> set ?a"
      using skipped by (auto simp: dispatch_of_def split: if_splits)
    moreover have "filter is_dispatch ?a = ?a"
      using admit_nodes_dispatches by (simp add: filter_id_conv list_all_iff)
    ultimately show ?thesis
      using admit_nodes_skip [OF mem, of t cfg cap h ?room 0 "\<lambda>_. 0"] acts
      by (cases "?a = []") auto
  qed
qed

theorem tick_work_conserving_witness:
  "\<exists>ag. node_agent default_table default_config demo_health ((plain_node ''a'' [])\<lparr>nagent := ''grok''\<rparr>) = Some ag
     \<and> agent_headroom (demo_capacity\<lparr>per_agent_cap := [''grok'' \<mapsto> 1]\<rparr>) ag = 0"
proof -
  let ?cap = "demo_capacity\<lparr>per_agent_cap := [''grok'' \<mapsto> 1]\<rparr>"
  let ?n = "(plain_node ''a'' [])\<lparr>nagent := ''grok''\<rparr>"
  have n: "?n \<in> set demo_graph" by (simp add: demo_graph_def)
  have st: "startable (timestamp_millis (b_now demo_budget)) demo_graph ?n"
    using demo_ready set_ready_set_at [of _ demo_graph] by auto
  have t: "tick_pure demo_graph default_config ?cap demo_budget default_table demo_health = Some [Noop]"
    by (simp add: tick_pure_def demo_live demo_ready sort_ready_def Let_def default_config_def
        demo_capacity_def node_agent_def agent_headroom_def)
  have "node_agent default_table default_config demo_health ?n = Some ''grok''"
    by (simp add: node_agent_def)
  with tick_work_conserving [OF t demo_live n st] show ?thesis
    by (simp add: default_config_def demo_capacity_def)
qed

lemma exhausted_None:
  "exhausted b = None \<longleftrightarrow> b_dispatches b < b_max_dispatches b \<and>
     num_minutes (b_now b - b_started_at b) < int (b_max_minutes b)"
  by (auto simp: exhausted_def Let_def)

lemma num_minutes_less:
  assumes "0 < n" shows "num_minutes d < n \<longleftrightarrow> d < n * 60000000000"
proof (cases "0 \<le> d")
  case True
  define q r where "q = d div 60000000000" and "r = d mod 60000000000"
  then have "d = q * 60000000000 + r" "0 \<le> r" "r < 60000000000" by simp_all
  then have "q < n \<longleftrightarrow> d < n * 60000000000" by linarith
  with True show ?thesis by (simp add: num_minutes_def q_def)
next
  case False
  then have "0 \<le> (- d) div 60000000000" by (intro pos_imp_zdiv_nonneg_iff [THEN iffD2]) simp_all
  moreover have "0 < n * 60000000000" using assms by simp
  moreover have "num_minutes d = - ((- d) div 60000000000)" using False by (simp add: num_minutes_def)
  ultimately show ?thesis using assms False by linarith
qed

text \<open>A tick dispatches only while the goal has budget left: fewer dispatches than its cap and
  less wall-clock time than its minutes.\<close>

theorem tick_within_budget:
  assumes "tick_pure g cfg cap b t h = Some acts" and "list_ex is_dispatch acts"
    and "0 < b_max_minutes b"
  shows "b_dispatches b < b_max_dispatches b \<and>
    b_now b < b_started_at b + int (b_max_minutes b) * 60000000000"
  using tick_pure_dispatch [OF assms(1,2)] num_minutes_less [of "int (b_max_minutes b)"] assms(3)
  by (auto simp: exhausted_None algebra_simps)

theorem tick_within_budget_witness:
  "b_dispatches demo_budget < b_max_dispatches demo_budget \<and> b_now demo_budget < 3600000000000"
  using tick_within_budget [OF demo_tick] by (simp add: demo_budget_def)

lemma sort_ready_total:
  assumes "acyclic (dep_rel g)" shows "\<exists>ns. sort_ready g ready = Some ns"
proof -
  have "critical_path_depth g i \<noteq> None" for i
    using depth_defined_acyclic [OF assms, of i] by auto
  then have "\<not> list_ex (\<lambda>n. critical_path_depth g (nid n) = None) ready"
    by (simp only: list_ex_iff) blast
  then show ?thesis by (simp add: sort_ready_def)
qed

text \<open>On a well-formed acyclic graph the scheduler makes progress: with budget left, room under
  the ceiling, nothing running, failed or blocked, no retry stamp ahead, and an agent with headroom
  for every node, a tick dispatches something or finishes the goal.\<close>

theorem tick_progress:
  assumes wf: "wf_graph g" and ac: "acyclic (dep_rel g)"
    and st: "\<forall>n \<in> set g. nstatus n \<notin> {NsRunning, NsFailed, NsBlocked}"
    and now: "\<forall>n \<in> set g. \<forall>u. nretry_at n = Some u \<longrightarrow> u \<le> timestamp_millis (b_now b)"
    and budget: "exhausted b = None" and room: "global_running cap < max_parallel cfg"
    and agents: "\<forall>n \<in> set g. \<exists>ag. node_agent t cfg h n = Some ag \<and> 0 < agent_headroom cap ag"
  shows "\<exists>acts. tick_pure g cfg cap b t h = Some acts \<and>
    (acts = [RunIntegrator] \<or> list_ex is_dispatch acts)"
proof (cases "is_all_terminal g")
  case True
  moreover have "\<not> has_failure g" using st by (auto simp: has_failure_def list_ex_iff)
  ultimately show ?thesis by (simp add: tick_pure_def)
next
  case False
  let ?ready = "ready_set_at (timestamp_millis (b_now b)) g"
  from ready_nonempty [OF wf ac st now] False have r: "?ready \<noteq> []" by blast
  from sort_ready_total [OF ac] obtain ns where ns: "sort_ready g ?ready = Some ns" by blast
  then have m: "set ns = set ?ready" using sort_ready_set by (metis set_mset_mset)
  with r obtain n ns' where n: "ns = n # ns'" by (cases ns) auto
  with m have "n \<in> set g" by (auto simp: set_ready_set_at)
  with agents obtain ag where "node_agent t cfg h n = Some ag" "0 < agent_headroom cap ag" by blast
  with n r ns False budget room show ?thesis by (simp add: tick_pure_def Let_def)
qed

theorem tick_progress_witness:
  "\<exists>acts. tick_pure demo_graph default_config demo_capacity demo_budget default_table demo_health = Some acts
     \<and> (acts = [RunIntegrator] \<or> list_ex is_dispatch acts)"
proof (rule tick_progress)
  have "dep_rel demo_graph = {(''a'', ''b'')}" by (auto simp: dep_rel_iff demo_defs)
  then show "acyclic (dep_rel demo_graph)" by (simp add: acyclic_insert) (simp add: acyclic_def)
  show "wf_graph demo_graph" by (auto simp: wf_graph_def demo_defs)
  show "exhausted demo_budget = None" by (rule demo_live)
qed (auto simp: demo_defs default_config_def node_agent_def agent_headroom_def)

end
