(* ===== verification/CoordSchema.thy ===== *)
theory CoordSchema
  imports Graph
begin

text \<open>
  The tables of the coordinator (the \<open>ensure_schema\<close> functions of \<open>coordinator/session.rs\<close>,
  \<open>goal.rs\<close>, \<open>events.rs\<close> and of \<open>single-core/src/pending_merge.rs\<close>, called by
  \<open>ensure_coordinator_schema\<close>) as one record of row lists, and the id generator of
  \<open>coordinator/mod.rs\<close>. Enum columns hold the text that \<open>as_str\<close> gives; the JSON text of a list of
  ids in \<open>depends_on\<close> is held as the list. An AUTOINCREMENT table carries its last id. Of the
  \<open>tasks\<close> table the coordinator reads the columns of \<open>task_row\<close>.

  \<open>keyed_rows\<close> is the contract between the tables and their clients: what a lookup returns after
  an update of one row. Each table interprets it, and the components above use only its facts.
\<close>

section \<open>Rows\<close>

record session =
  s_id :: string
  s_cwd :: string
  s_title :: string
  s_created_at :: string
  s_updated_at :: string
  s_status :: string

text \<open>A goal as stored has texts for mode and status and an integer flag, as read it has the enums
  and a Boolean.\<close>

record ('m, 's, 'b) goal_rec =
  g_id :: string
  g_session :: string
  g_text :: string
  g_mode :: 'm
  g_status :: 's
  g_max_dispatches :: nat
  g_max_minutes :: nat
  g_dispatches :: nat
  g_supervisor_patches :: nat
  g_plan_json :: string
  g_summary :: "string option"
  g_blocked_reason :: "string option"
  g_created_at :: string
  g_updated_at :: string
  g_capacity_reason :: "string option"
  g_retry_at :: "int option"
  g_capacity_waits :: nat
  g_capacity_budget :: "nat option"
  g_capacity_minutes :: "nat option"
  g_human_edit :: "string option"
  g_auto_reevals :: nat
  g_auto_merge :: 'b

type_synonym goal_row = "(string, string, int) goal_rec"
type_synonym goal = "(goal_mode, goal_status, bool) goal_rec"

record node_row =
  nr_goal :: string
  nr_id :: string
  nr_desc :: string
  nr_kind :: string
  nr_effort :: string
  nr_agent :: string
  nr_deps :: "string list"
  nr_status :: string
  nr_task :: "int option"
  nr_attempts :: nat
  nr_worktree :: int
  nr_output :: "string option"
  nr_retry_at :: "int option"

record event =
  ev_id :: int
  ev_session :: string
  ev_goal :: "string option"
  ev_ts :: string
  ev_kind :: string
  ev_body :: string

record merge_row =
  pm_id :: int
  pm_goal :: string
  pm_session :: string
  pm_review_node :: string
  pm_dep_node :: string
  pm_branch :: string
  pm_status :: string
  pm_created_at :: string
  pm_resolved_at :: "string option"

record task_row =
  tk_id :: int
  tk_agent :: string
  tk_status :: string
  tk_rate_limited :: int
  tk_artifact :: "string option"
  tk_updated_at :: string

record coord_db =
  db_sessions :: "session list"
  db_goals :: "goal_row list"
  db_nodes :: "node_row list"
  db_events :: "event list"
  db_event_seq :: int
  db_merges :: "merge_row list"
  db_merge_seq :: int
  db_tasks :: "task_row list"

definition empty_coord_db :: coord_db where
  "empty_coord_db = \<lparr>db_sessions = [], db_goals = [], db_nodes = [], db_events = [],
     db_event_seq = 0, db_merges = [], db_merge_seq = 0, db_tasks = []\<rparr>"

text \<open>\<open>CREATE TABLE IF NOT EXISTS\<close> and the additive column migrations keep the rows.\<close>

definition ensure_coordinator_schema :: "coord_db \<Rightarrow> coord_db" where
  "ensure_coordinator_schema db = db"

section \<open>The contract of a keyed table\<close>

locale keyed_rows =
  fixes key :: "'r \<Rightarrow> 'k" and get :: "'k \<Rightarrow> 'db \<Rightarrow> 'r option" and upd :: "'k \<Rightarrow> ('r \<Rightarrow> 'r) \<Rightarrow> 'db \<Rightarrow> 'db"
  assumes get_key: "get k db = Some r \<Longrightarrow> key r = k"
    and get_upd_same: "(\<And>r. key (f r) = key r) \<Longrightarrow> get k (upd k f db) = map_option f (get k db)"
    and get_upd_other: "(\<And>r. key (f r) = key r) \<Longrightarrow> j \<noteq> k \<Longrightarrow> get k (upd j f db) = get k db"
begin

lemma get_upd:
  "(\<And>r. key (f r) = key r) \<Longrightarrow>
   get k (upd j f db) = (if j = k then map_option f (get k db) else get k db)"
  by (simp add: get_upd_same get_upd_other)

lemma get_upd_upd:
  assumes "\<And>r. key (f r) = key r" "\<And>r. key (g r) = key r"
  shows "get k (upd k g (upd k f db)) = map_option (\<lambda>r. g (f r)) (get k db)"
  using assms by (simp add: get_upd_same option.map_comp comp_def)

lemma get_upd_None_iff:
  "(\<And>r. key (f r) = key r) \<Longrightarrow> get k (upd j f db) = None \<longleftrightarrow> get k db = None"
  by (simp add: get_upd)

end

definition session_get :: "string \<Rightarrow> coord_db \<Rightarrow> session option" where
  "session_get i db = find (\<lambda>r. s_id r = i) (db_sessions db)"

definition session_upd :: "string \<Rightarrow> (session \<Rightarrow> session) \<Rightarrow> coord_db \<Rightarrow> coord_db" where
  "session_upd i f db = db\<lparr>db_sessions := update_where (\<lambda>r. s_id r = i) f (db_sessions db)\<rparr>"

definition goal_row :: "string \<Rightarrow> coord_db \<Rightarrow> goal_row option" where
  "goal_row i db = find (\<lambda>r. g_id r = i) (db_goals db)"

definition goal_upd :: "string \<Rightarrow> (goal_row \<Rightarrow> goal_row) \<Rightarrow> coord_db \<Rightarrow> coord_db" where
  "goal_upd i f db = db\<lparr>db_goals := update_where (\<lambda>r. g_id r = i) f (db_goals db)\<rparr>"

definition nr_key :: "node_row \<Rightarrow> string \<times> string" where
  "nr_key r = (nr_goal r, nr_id r)"

definition node_row :: "string \<times> string \<Rightarrow> coord_db \<Rightarrow> node_row option" where
  "node_row k db = find (\<lambda>r. nr_key r = k) (db_nodes db)"

definition node_upd :: "string \<times> string \<Rightarrow> (node_row \<Rightarrow> node_row) \<Rightarrow> coord_db \<Rightarrow> coord_db" where
  "node_upd k f db = db\<lparr>db_nodes := update_where (\<lambda>r. nr_key r = k) f (db_nodes db)\<rparr>"

definition merge_row :: "int \<Rightarrow> coord_db \<Rightarrow> merge_row option" where
  "merge_row i db = find (\<lambda>r. pm_id r = i) (db_merges db)"

definition merge_upd :: "int \<Rightarrow> (merge_row \<Rightarrow> merge_row) \<Rightarrow> coord_db \<Rightarrow> coord_db" where
  "merge_upd i f db = db\<lparr>db_merges := update_where (\<lambda>r. pm_id r = i) f (db_merges db)\<rparr>"

lemma find_append [table_simps]:
  "find P (xs @ ys) = (case find P xs of Some x \<Rightarrow> Some x | None \<Rightarrow> find P ys)"
  by (induction xs) auto

lemma find_update_key:
  assumes "\<And>r. key (f r) = key r"
  shows "find (\<lambda>r. key r = k) (update_where (\<lambda>r. key r = j) f t) =
    (if j = k then map_option f (find (\<lambda>r. key r = k) t) else find (\<lambda>r. key r = k) t)"
  using assms by (induction t) auto

interpretation sessions: keyed_rows s_id session_get session_upd
  by unfold_locales (auto simp: session_get_def session_upd_def find_update_key dest: find_SomeD)

interpretation goals: keyed_rows g_id goal_row goal_upd
  by unfold_locales (auto simp: goal_row_def goal_upd_def find_update_key dest: find_SomeD)

interpretation node_rows: keyed_rows nr_key node_row node_upd
  by unfold_locales (auto simp: node_row_def node_upd_def find_update_key dest: find_SomeD)

interpretation merges: keyed_rows pm_id merge_row merge_upd
  by unfold_locales (auto simp: merge_row_def merge_upd_def find_update_key dest: find_SomeD)

text \<open>An update of one table leaves the others alone.\<close>

lemma upd_frames [frame_simps]:
  "db_goals (session_upd i f db) = db_goals db" "db_nodes (session_upd i f db) = db_nodes db"
  "db_events (session_upd i f db) = db_events db" "db_merges (session_upd i f db) = db_merges db"
  "db_tasks (session_upd i f db) = db_tasks db" "db_event_seq (session_upd i f db) = db_event_seq db"
  "db_sessions (goal_upd i f' db) = db_sessions db" "db_nodes (goal_upd i f' db) = db_nodes db"
  "db_events (goal_upd i f' db) = db_events db" "db_merges (goal_upd i f' db) = db_merges db"
  "db_tasks (goal_upd i f' db) = db_tasks db" "db_event_seq (goal_upd i f' db) = db_event_seq db"
  "db_merge_seq (goal_upd i f' db) = db_merge_seq db"
  "db_sessions (node_upd k g db) = db_sessions db" "db_goals (node_upd k g db) = db_goals db"
  "db_events (node_upd k g db) = db_events db" "db_merges (node_upd k g db) = db_merges db"
  "db_tasks (node_upd k g db) = db_tasks db" "db_event_seq (node_upd k g db) = db_event_seq db"
  "db_merge_seq (node_upd k g db) = db_merge_seq db"
  "db_sessions (merge_upd m h db) = db_sessions db" "db_goals (merge_upd m h db) = db_goals db"
  "db_nodes (merge_upd m h db) = db_nodes db" "db_events (merge_upd m h db) = db_events db"
  "db_tasks (merge_upd m h db) = db_tasks db" "db_event_seq (merge_upd m h db) = db_event_seq db"
  by (simp_all add: session_upd_def goal_upd_def node_upd_def merge_upd_def)

lemma get_frames [frame_simps]:
  "goal_row i (session_upd j f db) = goal_row i db" "goal_row i (node_upd k g db) = goal_row i db"
  "goal_row i (merge_upd m h db) = goal_row i db"
  "session_get i (goal_upd j f' db) = session_get i db" "session_get i (node_upd k g db) = session_get i db"
  "session_get i (merge_upd m h db) = session_get i db"
  "node_row k (session_upd j f db) = node_row k db" "node_row k (goal_upd j f' db) = node_row k db"
  "node_row k (merge_upd m h db) = node_row k db"
  "merge_row m (session_upd j f db) = merge_row m db" "merge_row m (goal_upd j f' db) = merge_row m db"
  "merge_row m (node_upd k g db) = merge_row m db"
  by (simp_all add: goal_row_def session_get_def node_row_def merge_row_def frame_simps)

section \<open>Identifiers\<close>

text \<open>\<open>radix36\<close>: the loop pushes the low digit first and the buffer is reversed at the end.\<close>

definition digit36 :: "nat \<Rightarrow> char" where
  "digit36 n = ''0123456789abcdefghijklmnopqrstuvwxyz'' ! n"

fun low_digits36 :: "nat \<Rightarrow> string" where
  "low_digits36 v = (if v = 0 then [] else digit36 (v mod 36) # low_digits36 (v div 36))"

declare low_digits36.simps [simp del]

definition radix36 :: "u64 \<Rightarrow> string" where
  "radix36 v = (if v = 0 then ''0'' else rev (low_digits36 (unat v)))"

definition hex4 :: "nat \<Rightarrow> string" where
  "hex4 n = map digit36 [n div 4096 mod 16, n div 256 mod 16, n div 16 mod 16, n mod 16]"

definition short_id :: "string \<Rightarrow> u64 \<Rightarrow> nat \<Rightarrow> string" where
  "short_id prefix nanos n = prefix @ ''_'' @ radix36 nanos @ ''_'' @ hex4 (n mod 65536)"

definition val36 :: "char \<Rightarrow> nat" where
  "val36 c = (if CHR ''0'' \<le> c \<and> c \<le> CHR ''9'' then of_char c - 48 else of_char c - 87)"

lemma digit36_cases: "n < 36 \<Longrightarrow> val36 (digit36 n) = n \<and> digit36 n \<noteq> CHR ''_''"
proof -
  assume "n < 36"
  then have "n \<in> set [0..<36]" by simp
  then show ?thesis
    by (simp add: upt_rec) (elim disjE; simp add: digit36_def val36_def less_eq_char_def)
qed

definition value36 :: "string \<Rightarrow> nat" where
  "value36 ds = foldr (\<lambda>c v. 36 * v + val36 c) ds 0"

lemma value36_low: "value36 (low_digits36 v) = v"
proof (induction v rule: low_digits36.induct)
  case (1 v)
  show ?case
  proof (cases "v = 0")
    case True
    then show ?thesis by (simp add: low_digits36.simps [of 0] value36_def)
  next
    case False
    with 1 have "value36 (low_digits36 (v div 36)) = v div 36" by simp
    then show ?thesis
      using digit36_cases [of "v mod 36"] False
      by (simp add: low_digits36.simps [of v] value36_def)
  qed
qed

lemma low_digits36_inj: "low_digits36 v = low_digits36 w \<Longrightarrow> v = w"
  by (metis value36_low)

lemma low_digits36_zero: "low_digits36 v = ''0'' \<Longrightarrow> v = 0"
  using value36_low [of v] by (simp add: value36_def val36_def)

lemma radix36_inj: "radix36 v = radix36 w \<longleftrightarrow> v = w"
proof
  assume eq: "radix36 v = radix36 w"
  have z: "unat x = 0 \<longleftrightarrow> x = 0" for x :: u64 by (simp add: unat_eq_0)
  show "v = w"
  proof (cases "v = 0 \<or> w = 0")
    case True
    with eq show ?thesis
      using low_digits36_zero [of "unat v"] low_digits36_zero [of "unat w"] z
      by (auto simp: radix36_def rev_singleton_conv split: if_splits)
  next
    case False
    with eq have "low_digits36 (unat v) = low_digits36 (unat w)" by (simp add: radix36_def)
    then have "unat v = unat w" by (rule low_digits36_inj)
    then show ?thesis by (rule unsigned_word_eqI)
  qed
qed simp

lemma hex4_inj:
  assumes "n < 65536" "m < 65536" "hex4 n = hex4 m" shows "n = m"
proof -
  have d: "a = b" if "digit36 a = digit36 b" "a < 16" "b < 16" for a b
  proof -
    have "a = val36 (digit36 a)" using digit36_cases [of a] that(2) by simp
    also have "\<dots> = val36 (digit36 b)" by (simp only: that(1))
    also have "\<dots> = b" using digit36_cases [of b] that(3) by simp
    finally show ?thesis .
  qed
  have step: "a = b" if "a div 16 = b div 16" "a mod 16 = b mod 16" for a b :: nat
    using that by (metis div_mult_mod_eq)
  have e: "k div 256 = k div 16 div 16" "k div 4096 = k div 16 div 16 div 16" for k :: nat
    using div_mult2_eq [of k 16 16] div_mult2_eq [of k 256 16] by simp_all
  from assms(3) have eq: "n div 16 div 16 div 16 mod 16 = m div 16 div 16 div 16 mod 16"
    "n div 16 div 16 mod 16 = m div 16 div 16 mod 16"
    "n div 16 mod 16 = m div 16 mod 16" "n mod 16 = m mod 16"
    unfolding hex4_def e by (auto intro: d)
  have "k div 16 div 16 div 16 mod 16 = k div 16 div 16 div 16" if "k < 65536" for k :: nat
    unfolding e(2) [symmetric] using that by (intro mod_less less_mult_imp_div_less) simp
  with assms(1,2) eq(1) have "n div 16 div 16 div 16 = m div 16 div 16 div 16" by simp
  then have "n div 16 div 16 = m div 16 div 16" using eq(2) by (rule step)
  then have "n div 16 = m div 16" using eq(3) by (rule step)
  then show ?thesis using eq(4) by (rule step)
qed

text \<open>Two ids of one prefix coincide only when they were minted in the same nanosecond and their
  counters agree modulo 65536.\<close>

theorem short_id_collision:
  "short_id p a n = short_id p b m \<longleftrightarrow> a = b \<and> n mod 65536 = m mod 65536"
proof
  assume "short_id p a n = short_id p b m"
  then have "(radix36 a @ ''_'') @ hex4 (n mod 65536) = (radix36 b @ ''_'') @ hex4 (m mod 65536)"
    by (simp add: short_id_def)
  moreover have "length (hex4 (n mod 65536)) = length (hex4 (m mod 65536))" by (simp add: hex4_def)
  ultimately have "radix36 a = radix36 b" "hex4 (n mod 65536) = hex4 (m mod 65536)"
    by (simp_all add: append_eq_append_conv)
  then show "a = b \<and> n mod 65536 = m mod 65536"
    using radix36_inj hex4_inj [of "n mod 65536" "m mod 65536"] by simp
qed (auto simp: short_id_def)

end
