(* ===== verification/Brain.thy ===== *)
theory Brain
  imports Routing Json CoordSchema
begin

text \<open>
  The LLM brain roles, \<open>crates/single-runtime/src/coordinator/brain.rs\<close>: the extractor of the first
  JSON value in an agent's output, the parsers of plans and patches, the translation of a plan into
  a graph, and the three roles. What is not in the program is a field of \<open>brain_env\<close>: the run of an
  agent (\<open>task::run\<close>, which also writes rows of \<open>tasks\<close>), the files, \<open>serde_json\<close>'s parser,
  printer and derived decoders, and the facts about the project directory.
\<close>

record plan_node_spec =
  sp_id :: string
  sp_desc :: string
  sp_kind :: node_kind
  sp_effort :: effort
  sp_depends_on :: "string list"

record integration_outcome =
  io_summary :: string
  io_files_changed :: "string list"
  io_checks_pass :: bool
  io_residual_gaps :: "string list"
  io_unrecoverable :: bool

record task_output =
  to_artifact_path :: "string option"
  to_summary :: "string option"

record project_info =
  pc_cwd :: string
  pc_repo_root :: "string option"
  pc_branch :: "string option"
  pc_changed_files :: nat
  pc_docs :: "string list"

record brain_env =
  be_run_task :: "string \<Rightarrow> string \<Rightarrow> string \<Rightarrow> task_row list \<Rightarrow> task_output result \<times> task_row list"
  be_read_file :: "string \<Rightarrow> string option"
  be_from_str :: "string \<Rightarrow> json option"
  be_specs :: "json \<Rightarrow> plan_node_spec list option"
  be_ops :: "json \<Rightarrow> patch_op list option"
  be_outcome :: "json \<Rightarrow> integration_outcome option"
  be_graph_json :: "task_graph \<Rightarrow> string"
  be_project :: "string \<Rightarrow> project_info"

section \<open>The extractor\<close>

text \<open>The inner loop from an opener: the offset of the closer that balances it, if there is one.
  Inside a string literal only the closing quote counts, and a backslash hides the next byte.\<close>

fun span_end :: "char \<Rightarrow> char \<Rightarrow> nat \<Rightarrow> int \<Rightarrow> bool \<Rightarrow> bool \<Rightarrow> string \<Rightarrow> nat option" where
  "span_end opener closer offset depth in_str escaped [] = None"
| "span_end opener closer offset depth in_str escaped (c # cs) =
     (if in_str then
        (if escaped then span_end opener closer (Suc offset) depth True False cs
         else if c = CHR 0x5C then span_end opener closer (Suc offset) depth True True cs
         else if c = CHR 0x22 then span_end opener closer (Suc offset) depth False False cs
         else span_end opener closer (Suc offset) depth True False cs)
      else if c = CHR 0x22 then span_end opener closer (Suc offset) depth True escaped cs
      else if c = opener then span_end opener closer (Suc offset) (depth + 1) False escaped cs
      else if c = closer then
        (if depth - 1 = 0 then Some offset
         else span_end opener closer (Suc offset) (depth - 1) False escaped cs)
      else span_end opener closer (Suc offset) depth False escaped cs)"

fun extract_first_json :: "(string \<Rightarrow> json option) \<Rightarrow> string \<Rightarrow> json option" where
  "extract_first_json from_str [] = None"
| "extract_first_json from_str (c # cs) =
     (if c \<noteq> CHR ''{'' \<and> c \<noteq> CHR ''['' then extract_first_json from_str cs
      else
        (let closer = (if c = CHR ''{'' then CHR ''}'' else CHR '']'')
         in case span_end c closer 0 0 False False (c # cs) of
              None \<Rightarrow> extract_first_json from_str cs
            | Some offset \<Rightarrow>
                (case from_str (take (offset + 1) (c # cs)) of
                   Some v \<Rightarrow> Some v
                 | None \<Rightarrow> extract_first_json from_str cs)))"

section \<open>Parsers\<close>

definition parse_plan :: "(json \<Rightarrow> plan_node_spec list option) \<Rightarrow> json \<Rightarrow> plan_node_spec list result" where
  "parse_plan from_value v =
     (case as_array v of
        None \<Rightarrow> Inl ''planner output is not a JSON array''
      | Some arr \<Rightarrow>
          (case from_value (JArr arr) of
             None \<Rightarrow> Inl ''planner array has a malformed element''
           | Some specs \<Rightarrow>
               if specs = [] \<or> length specs > 8
               then Inl (''planner returned '' @ dec_nat (length specs) @ '' nodes; expected 2''
                      @ [CHR 0xE2, CHR 0x80, CHR 0x93] @ ''8'')
               else Inr specs))"

definition parse_patch_ops :: "(json \<Rightarrow> patch_op list option) \<Rightarrow> json \<Rightarrow> patch_op list result" where
  "parse_patch_ops from_value v =
     (case (case v of
              JArr a \<Rightarrow> Inr a
            | JObj kvs \<Rightarrow> (case Option.bind (jget ''ops'' v) as_array of
                             Some a \<Rightarrow> Inr a | None \<Rightarrow> Inl (''no '' @ [CHR 0x60] @ ''ops'' @ [CHR 0x60] @ '' array''))
            | _ \<Rightarrow> Inl (''supervisor output is neither an array nor an object with '' @ [CHR 0x60] @ ''ops'' @ [CHR 0x60])) of
        Inl e \<Rightarrow> Inl e
      | Inr a \<Rightarrow>
          (case from_value (JArr a) of
             Some ops \<Rightarrow> Inr ops
           | None \<Rightarrow> Inl ''supervisor patch op is malformed / unknown''))"

definition parse_integration :: "(json \<Rightarrow> integration_outcome option) \<Rightarrow> json \<Rightarrow> integration_outcome result" where
  "parse_integration from_value v =
     (case from_value v of Some out \<Rightarrow> Inr out | None \<Rightarrow> Inl ''integrator output is malformed'')"

definition spec_to_node :: "routing_table \<Rightarrow> pool_health \<Rightarrow> bool \<Rightarrow> plan_node_spec \<Rightarrow> node" where
  "spec_to_node t h prefer s =
     \<lparr>nid = sp_id s, ndesc = sp_desc s, nkind = sp_kind s, neffort = sp_effort s,
      nagent = unwrap_or (select_agent_with_prefer_pool t (sp_kind s) (sp_effort s) h prefer) '''',
      ndeps = sp_depends_on s, nstatus = NsPending, ntask = None, nattempts = 0,
      nworktree = default_worktree (sp_kind s), noutput = None, nretry_at = None\<rparr>"

definition specs_to_graph ::
    "plan_node_spec list \<Rightarrow> routing_table \<Rightarrow> pool_health \<Rightarrow> bool \<Rightarrow> task_graph" where
  "specs_to_graph specs t h prefer = map (spec_to_node t h prefer) specs"

section \<open>The roles\<close>

definition role_output :: "brain_env \<Rightarrow> task_output \<Rightarrow> string" where
  "role_output env rec =
     (case Option.bind (to_artifact_path rec) (be_read_file env) of
        Some s \<Rightarrow> s
      | None \<Rightarrow> unwrap_or (to_summary rec) '''')"

definition run_role ::
    "brain_env \<Rightarrow> string \<Rightarrow> string \<Rightarrow> string \<Rightarrow> task_row list \<Rightarrow> json result \<times> task_row list" where
  "run_role env agent cwd prompt tasks =
     (case be_run_task env agent cwd prompt tasks of
        (Inl e, tasks') \<Rightarrow> (Inl e, tasks')
      | (Inr rec, tasks') \<Rightarrow>
          (case extract_first_json (be_from_str env) (role_output env rec) of
             Some v \<Rightarrow> (Inr v, tasks')
           | None \<Rightarrow> (Inl ''brain role produced no parseable JSON'', tasks')))"

text \<open>\<open>orchestrate::truncate\<close>.\<close>

definition truncate_text :: "string \<Rightarrow> nat \<Rightarrow> string" where
  "truncate_text s k =
     (if char_count s \<le> k then s else take_chars k s @ newline @ ''[...truncated...]'')"

definition PLAN_INSTRUCTION :: string where
  "PLAN_INSTRUCTION =
     ''You are a build planner. Break the GOAL into 2 to 8 concrete subtasks.'' @ newline @
     ''Output ONLY a JSON array, no prose. Each element:'' @ newline @ ''{'' @ [CHR 0x22] @
     ''id'' @ [CHR 0x22] @ '':'' @ [CHR 0x22] @ ''s1'' @ [CHR 0x22] @ '','' @ [CHR 0x22] @
     ''desc'' @ [CHR 0x22] @ '':'' @ [CHR 0x22] @ ''...'' @ [CHR 0x22] @ '','' @ [CHR 0x22] @
     ''kind'' @ [CHR 0x22] @ '':'' @ [CHR 0x22] @ ''code|test|research|review|docs|infra'' @
     [CHR 0x22] @ '','' @ [CHR 0x22] @ ''effort'' @ [CHR 0x22] @ '':'' @ [CHR 0x22] @
     ''quick|standard|deep'' @ [CHR 0x22] @ '','' @ [CHR 0x22] @ ''depends_on'' @
     [CHR 0x22] @ '':[]}'' @ newline @
     ''depends_on lists the ids that must finish first ([] = independent).'' @ newline @
     ''Give code subtasks non-overlapping file scopes so they can run in parallel.'' @
     newline"

definition project_blurb :: "project_info \<Rightarrow> string" where
  "project_blurb pc =
     newline @ newline @ ''PROJECT CONTEXT:'' @ newline @ ''cwd: '' @ pc_cwd pc @ newline @
     ''repo root: '' @ unwrap_or (pc_repo_root pc) ''(not a git repo)'' @ newline @
     ''branch: '' @ unwrap_or (pc_branch pc) ''(none)'' @ newline @
     ''changed files: '' @ dec_nat (pc_changed_files pc) @ newline @
     ''docs: '' @ str_join '', '' (pc_docs pc)"

definition brain_plan ::
    "brain_env \<Rightarrow> string \<Rightarrow> string \<Rightarrow> routing_table \<Rightarrow> pool_health \<Rightarrow> bool \<Rightarrow> task_row list \<Rightarrow>
     task_graph result \<times> task_row list" where
  "brain_plan env goal_text cwd t h prefer tasks =
     (case select_agent t NkPlan Standard h of
        None \<Rightarrow> (Inl ''no agent available for planning'', tasks)
      | Some agent \<Rightarrow>
          (let prompt = PLAN_INSTRUCTION @ project_blurb (be_project env cwd) @ newline @ newline @
                 ''GOAL:'' @ newline @ goal_text @ newline
           in case run_role env agent cwd prompt tasks of
                (Inl e, tasks') \<Rightarrow> (Inl e, tasks')
              | (Inr v, tasks') \<Rightarrow>
                  (case parse_plan (be_specs env) v of
                     Inl e \<Rightarrow> (Inl e, tasks')
                   | Inr specs \<Rightarrow> (Inr (specs_to_graph specs t h prefer), tasks'))))"

definition SUPERVISE_INSTRUCTION :: string where
  "SUPERVISE_INSTRUCTION =
     ''You are a build supervisor. A subtask failed. Patch the task graph.'' @ newline @
     ''Output ONLY a JSON array of ops, no prose. Allowed ops:'' @ newline @ ''{'' @
     [CHR 0x22] @ ''op'' @ [CHR 0x22] @ '':'' @ [CHR 0x22] @ ''retarget'' @ [CHR 0x22] @
     '','' @ [CHR 0x22] @ ''node'' @ [CHR 0x22] @ '':'' @ [CHR 0x22] @ ''s2'' @ [CHR 0x22] @
     '','' @ [CHR 0x22] @ ''kind'' @ [CHR 0x22] @ '':'' @ [CHR 0x22] @ ''research'' @
     [CHR 0x22] @ ''|null,'' @ [CHR 0x22] @ ''agent'' @ [CHR 0x22] @ '':'' @ [CHR 0x22] @
     ''grok'' @ [CHR 0x22] @ ''|null}'' @ newline @ ''{'' @ [CHR 0x22] @ ''op'' @
     [CHR 0x22] @ '':'' @ [CHR 0x22] @ ''split'' @ [CHR 0x22] @ '','' @ [CHR 0x22] @
     ''node'' @ [CHR 0x22] @ '':'' @ [CHR 0x22] @ ''s2'' @ [CHR 0x22] @ '','' @ [CHR 0x22] @
     ''into'' @ [CHR 0x22] @ '':[<node objects>]}'' @ newline @ ''{'' @ [CHR 0x22] @ ''op'' @
     [CHR 0x22] @ '':'' @ [CHR 0x22] @ ''mark_optional'' @ [CHR 0x22] @ '','' @ [CHR 0x22] @
     ''node'' @ [CHR 0x22] @ '':'' @ [CHR 0x22] @ ''s2'' @ [CHR 0x22] @ ''}'' @ newline @
     ''{'' @ [CHR 0x22] @ ''op'' @ [CHR 0x22] @ '':'' @ [CHR 0x22] @ ''add_dependency'' @
     [CHR 0x22] @ '','' @ [CHR 0x22] @ ''node'' @ [CHR 0x22] @ '':'' @ [CHR 0x22] @ ''s2'' @
     [CHR 0x22] @ '','' @ [CHR 0x22] @ ''on'' @ [CHR 0x22] @ '':'' @ [CHR 0x22] @ ''s1'' @
     [CHR 0x22] @ ''}'' @ newline @ ''{'' @ [CHR 0x22] @ ''op'' @ [CHR 0x22] @ '':'' @
     [CHR 0x22] @ ''block'' @ [CHR 0x22] @ '','' @ [CHR 0x22] @ ''node'' @ [CHR 0x22] @
     '':'' @ [CHR 0x22] @ ''s2'' @ [CHR 0x22] @ '','' @ [CHR 0x22] @ ''question'' @
     [CHR 0x22] @ '':'' @ [CHR 0x22] @ ''...'' @ [CHR 0x22] @ ''}'' @ newline @ ''{'' @
     [CHR 0x22] @ ''op'' @ [CHR 0x22] @ '':'' @ [CHR 0x22] @ ''abort'' @ [CHR 0x22] @ '','' @
     [CHR 0x22] @ ''reason'' @ [CHR 0x22] @ '':'' @ [CHR 0x22] @ ''...'' @ [CHR 0x22] @
     ''}'' @ newline @ newline @ ''GRAPH:'' @ newline"

definition brain_supervise ::
    "brain_env \<Rightarrow> string \<Rightarrow> task_graph \<Rightarrow> string \<Rightarrow> string \<Rightarrow> routing_table \<Rightarrow> pool_health \<Rightarrow>
     task_row list \<Rightarrow> patch_op list result \<times> task_row list" where
  "brain_supervise env cwd g failing_node failing_output t h tasks =
     (case select_agent t NkSupervise Standard h of
        None \<Rightarrow> (Inl ''no agent available for supervising'', tasks)
      | Some agent \<Rightarrow>
          (let prompt = SUPERVISE_INSTRUCTION @ be_graph_json env g @ newline @ newline @
                 ''FAILING NODE: '' @ failing_node @ newline @ ''FAILURE OUTPUT:'' @ newline @
                 truncate_text failing_output 4000 @ newline
           in case run_role env agent cwd prompt tasks of
                (Inl e, tasks') \<Rightarrow> (Inl e, tasks')
              | (Inr v, tasks') \<Rightarrow> (parse_patch_ops (be_ops env) v, tasks')))"

definition INTEGRATE_INSTRUCTION :: string where
  "INTEGRATE_INSTRUCTION =
     ''You are a build integrator. Verify the subtask results against the GOAL.'' @ newline @
     ''Output ONLY JSON: {'' @ [CHR 0x22] @ ''summary'' @ [CHR 0x22] @ '':'' @ [CHR 0x22] @
     ''...'' @ [CHR 0x22] @ '','' @ [CHR 0x22] @ ''files_changed'' @ [CHR 0x22] @ '':[],'' @
     [CHR 0x22] @ ''checks_pass'' @ [CHR 0x22] @ '':true,'' @ [CHR 0x22] @
     ''residual_gaps'' @ [CHR 0x22] @ '':[],'' @ [CHR 0x22] @ ''unrecoverable'' @
     [CHR 0x22] @ '':false}'' @ newline @
     ''Fix only trivial glue (imports, a rename mismatch).'' @ newline @ newline @
     ''GOAL:'' @ newline"

definition brain_integrate ::
    "brain_env \<Rightarrow> string \<Rightarrow> string \<Rightarrow> (string \<times> string) list \<Rightarrow> routing_table \<Rightarrow> pool_health \<Rightarrow>
     task_row list \<Rightarrow> integration_outcome result \<times> task_row list" where
  "brain_integrate env cwd goal_text node_outputs t h tasks =
     (case select_agent t NkIntegrate Standard h of
        None \<Rightarrow> (Inl ''no agent available for integrating'', tasks)
      | Some agent \<Rightarrow>
          (let body = concat (map (\<lambda>(i, out). newline @ ''--- node '' @ i @ '' ---'' @ newline @
                 truncate_text out 2000 @ newline) node_outputs);
               prompt = INTEGRATE_INSTRUCTION @ goal_text @ newline @ newline @ ''SUBTASK RESULTS:'' @
                 body @ newline
           in case run_role env agent cwd prompt tasks of
                (Inl e, tasks') \<Rightarrow> (Inl e, tasks')
              | (Inr v, tasks') \<Rightarrow> (parse_integration (be_outcome env) v, tasks')))"

section \<open>The extractor finds the value in the prose\<close>

lemma span_end_append:
  "span_end a b off d q e s = Some k \<Longrightarrow> span_end a b off d q e (s @ t) = Some k"
  by (induction a b off d q e s rule: span_end.induct) (auto split: if_splits)

lemma span_end_bounds: "span_end a b off d q e s = Some k \<Longrightarrow> off \<le> k \<and> k < off + length s"
  by (induction a b off d q e s rule: span_end.induct) (auto split: if_splits)

definition closer_of :: "char \<Rightarrow> char" where
  "closer_of c = (if c = CHR ''{'' then CHR ''}'' else CHR '']'')"

text \<open>A balanced block: an opener whose own closer is the last byte, string literals skipped.\<close>

definition json_block :: "string \<Rightarrow> bool" where
  "json_block s \<longleftrightarrow> s \<noteq> [] \<and> hd s \<in> {CHR ''{'', CHR ''[''} \<and>
     span_end (hd s) (closer_of (hd s)) 0 0 False False s = Some (length s - 1)"

lemma extract_block:
  assumes "json_block s" and "from_str s = Some v"
  shows "extract_first_json from_str (s @ post) = Some v"
proof -
  from assms(1) obtain c cs where s: "s = c # cs" "c \<in> {CHR ''{'', CHR ''[''}"
    "span_end c (closer_of c) 0 0 False False (c # cs) = Some (length cs)"
    by (cases s) (auto simp: json_block_def)
  from span_end_append [OF s(3), of post] s(1,2) assms(2) show ?thesis
    by (auto simp: closer_of_def Let_def simp del: span_end.simps)
qed

lemma extract_skip:
  "\<forall>c \<in> set pre. c \<noteq> CHR ''{'' \<and> c \<noteq> CHR ''['' \<Longrightarrow>
   extract_first_json from_str (pre @ s) = extract_first_json from_str s"
  by (induction pre) auto

lemma span_end_take:
  "span_end a b off d q e s = Some k \<Longrightarrow> span_end a b off d q e (take (Suc k - off) s) = Some k"
proof (induction a b off d q e s rule: span_end.induct)
  case (2 a b off d q e c cs)
  from "2.prems" have "off \<le> k" using span_end_bounds by blast
  then have t: "take (Suc k - off) (c # cs) = c # take (Suc k - Suc off) cs"
    by (simp add: Suc_diff_le)
  from 2 show ?case unfolding t by (auto split: if_splits)
qed simp

lemma extract_cases:
  "extract_first_json from_str (c # cs) = extract_first_json from_str cs \<or>
   (\<exists>k. c \<in> {CHR ''{'', CHR ''[''} \<and> span_end c (closer_of c) 0 0 False False (c # cs) = Some k \<and>
      extract_first_json from_str (c # cs) = from_str (take (k + 1) (c # cs)))"
  by (auto simp: closer_of_def Let_def simp del: span_end.simps split: option.splits)

lemma extract_sound:
  "extract_first_json from_str s = Some v \<Longrightarrow>
   \<exists>pre blk post. s = pre @ blk @ post \<and> json_block blk \<and> from_str blk = Some v"
proof (induction s)
  case (Cons c cs)
  from extract_cases [of from_str c cs] show ?case
  proof
    assume "extract_first_json from_str (c # cs) = extract_first_json from_str cs"
    with Cons obtain pre blk post where
      "cs = pre @ blk @ post" "json_block blk" "from_str blk = Some v" by metis
    then have "c # cs = (c # pre) @ blk @ post" "json_block blk" "from_str blk = Some v" by simp_all
    then show ?thesis by blast
  next
    assume "\<exists>k. c \<in> {CHR ''{'', CHR ''[''} \<and> span_end c (closer_of c) 0 0 False False (c # cs) = Some k \<and>
      extract_first_json from_str (c # cs) = from_str (take (k + 1) (c # cs))"
    then obtain k where k: "c \<in> {CHR ''{'', CHR ''[''}"
      "span_end c (closer_of c) 0 0 False False (c # cs) = Some k"
      "from_str (take (k + 1) (c # cs)) = Some v"
      using Cons.prems by metis
    let ?blk = "take (k + 1) (c # cs)"
    have "k < length (c # cs)" using span_end_bounds [OF k(2)] by simp
    then have "length ?blk - 1 = k" by simp
    moreover have "span_end c (closer_of c) 0 0 False False ?blk = Some k"
      using span_end_take [OF k(2)] by simp
    ultimately have "json_block ?blk" using k(1) by (simp add: json_block_def)
    moreover have "c # cs = [] @ ?blk @ drop (k + 1) (c # cs)"
      by (simp only: append_take_drop_id append_Nil)
    ultimately show ?thesis using k(3) by blast
  qed
qed simp

text \<open>The extractor returns a value exactly for text that holds a balanced block which parses: what
  it returns is the parse of such a block, and a block after prose without openers is found whatever
  follows it.\<close>

theorem extract_first_json_spec:
  assumes prose: "\<forall>c \<in> set pre. c \<noteq> CHR ''{'' \<and> c \<noteq> CHR ''[''"
    and blk: "json_block blk" "from_str blk = Some v"
  shows "extract_first_json from_str (pre @ blk @ post) = Some v \<and>
    (\<forall>s w. extract_first_json from_str s = Some w \<longrightarrow>
       (\<exists>pre' blk' post'. s = pre' @ blk' @ post' \<and> json_block blk' \<and> from_str blk' = Some w))"
  using extract_skip [OF prose, of from_str] extract_block [where from_str = from_str, OF blk] extract_sound
  by fastforce

theorem extract_first_json_spec_witness:
  "extract_first_json (\<lambda>s. if s = [CHR ''{'', CHR 0x22, CHR ''}'', CHR 0x22, CHR ''}''] then Some JNull else None)
     (''ok '' @ [CHR ''{'', CHR 0x22, CHR ''}'', CHR 0x22, CHR ''}''] @ '' done}'') = Some JNull"
  by (rule extract_first_json_spec [THEN conjunct1]) (simp_all add: json_block_def closer_of_def)

section \<open>Plans become graphs\<close>

text \<open>The agent of a node: a candidate of the table that can be used now, any candidate while no agent is detected at
  all, or the pool when it is preferred; none only when no candidate can be used.\<close>

definition routed :: "routing_table \<Rightarrow> pool_health \<Rightarrow> bool \<Rightarrow> node \<Rightarrow> bool" where
  "routed t h prefer n \<longleftrightarrow>
     (let cs = candidates t (nkind n) (neffort n)
      in prefer \<and> nagent n = ''single-pool'' \<or>
         nagent n \<in> set cs \<and> (detected_authed h = {} \<or> usable h (nagent n)) \<or>
         nagent n = [] \<and> (cs = [] \<or> detected_authed h \<noteq> {} \<and> (\<forall>a \<in> set cs. \<not> usable h a)))"

lemma spec_routed: "routed t h prefer (spec_to_node t h prefer s)"
proof (cases "prefer \<and> select_agent_with_prefer_pool t (sp_kind s) (sp_effort s) h prefer = Some ''single-pool''")
  case True
  then have sel: "select_agent_with_prefer_pool t (sp_kind s) (sp_effort s) h prefer = Some ''single-pool''" and "prefer" by blast+
  have "nagent (spec_to_node t h prefer s) = ''single-pool''" by (simp add: spec_to_node_def unwrap_or_def Let_def sel)
  with \<open>prefer\<close> show ?thesis by (simp add: routed_def Let_def)
next
  case False
  then have eq: "select_agent_with_prefer_pool t (sp_kind s) (sp_effort s) h prefer = select_agent t (sp_kind s) (sp_effort s) h"
    by (auto simp: select_agent_with_prefer_pool_def split: if_splits)
  show ?thesis
  proof (cases "select_agent t (sp_kind s) (sp_effort s) h")
    case None
    then show ?thesis using eq select_agent_None_iff [of t "sp_kind s" "sp_effort s" h]
      by (auto simp: routed_def spec_to_node_def unwrap_or_def Let_def)
  next
    case (Some a)
    then have "a \<in> set (candidates t (sp_kind s) (sp_effort s)) \<and> (detected_authed h = {} \<or> usable h a)"
      by (cases "find (usable h) (candidates t (sp_kind s) (sp_effort s))"; cases "candidates t (sp_kind s) (sp_effort s)")
        (auto simp: select_agent_def Let_def simp del: find.simps split: if_splits dest: find_SomeD)
    with Some eq show ?thesis by (simp add: routed_def spec_to_node_def unwrap_or_def Let_def)
  qed
qed



text \<open>The planner is told to return 2 to 8 subtasks and the error text says so, but a single subtask
  is accepted.\<close>

lemma single_node_plan_accepted:
  "parse_plan (\<lambda>_. Some [s]) (JArr [JNull]) = Inr [s]"
  by (simp add: parse_plan_def)

end
