(* ===== verification/Sessions.thy ===== *)
theory Sessions
  imports CoordSchema
begin

text \<open>
  Conversation threads, \<open>crates/single-runtime/src/coordinator/session.rs\<close>. The clock and the
  counter behind \<open>short_id\<close> are arguments; an insert that meets the primary key is SQLite's
  constraint error.
\<close>

definition order_desc :: "('a \<Rightarrow> 'b :: linorder) \<Rightarrow> 'a list \<Rightarrow> 'a list" where
  "order_desc f xs = rev (sort_key f (rev xs))"

definition new_session :: "string \<Rightarrow> u64 \<Rightarrow> nat \<Rightarrow> string \<Rightarrow> coord_db \<Rightarrow> session result \<times> coord_db" where
  "new_session ts nanos n cwd db =
     (let s = \<lparr>s_id = short_id ''sess'' nanos n, s_cwd = cwd, s_title = '''', s_created_at = ts,
                s_updated_at = ts, s_status = ''active''\<rparr>
      in if exists_where (\<lambda>r. s_id r = s_id s) (db_sessions db)
         then (Inl ''UNIQUE constraint failed: sessions.id'', db)
         else (Inr s, db\<lparr>db_sessions := db_sessions db @ [s]\<rparr>))"

definition session_list :: "coord_db \<Rightarrow> session list" where
  "session_list db = order_desc s_created_at (db_sessions db)"

definition session_close :: "string \<Rightarrow> string \<Rightarrow> coord_db \<Rightarrow> coord_db" where
  "session_close ts i db = session_upd i (\<lambda>r. r\<lparr>s_status := ''closed'', s_updated_at := ts\<rparr>) db"

definition set_title_if_empty :: "string \<Rightarrow> string \<Rightarrow> string \<Rightarrow> coord_db \<Rightarrow> coord_db" where
  "set_title_if_empty ts i title db =
     session_upd i (\<lambda>r. if s_title r = '''' then r\<lparr>s_title := title, s_updated_at := ts\<rparr> else r) db"

text \<open>\<open>load_session_cwd\<close> of the scheduler.\<close>

definition load_session_cwd :: "coord_db \<Rightarrow> string \<Rightarrow> string" where
  "load_session_cwd db i = (case session_get i db of Some s \<Rightarrow> s_cwd s | None \<Rightarrow> ''.'')"

text \<open>The title of a session is the first non-empty one offered: later offers, and the closing
  of the session, leave it; no other session changes.\<close>

theorem first_title_sticks:
  assumes "session_get i db = Some s" and "s_title s = ''''" and "title \<noteq> ''''"
  shows "map_option s_title (session_get i (set_title_if_empty ts2 i other
      (session_close ts1 i (set_title_if_empty ts i title db)))) = Some title \<and>
    (j \<noteq> i \<longrightarrow> session_get j (set_title_if_empty ts i title db) = session_get j db)"
  using assms by (simp add: set_title_if_empty_def session_close_def sessions.get_upd)

theorem first_title_sticks_witness:
  "\<exists>s db. new_session ''t'' 5 0 ''/tmp'' empty_coord_db = (Inr s, db) \<and>
     map_option s_title (session_get (s_id s) (set_title_if_empty ''t3'' (s_id s) ''b''
       (session_close ''t2'' (s_id s) (set_title_if_empty ''t1'' (s_id s) ''a'' db)))) = Some ''a''"
proof -
  obtain s db where n: "new_session ''t'' 5 0 ''/tmp'' empty_coord_db = (Inr s, db)"
    by (simp add: new_session_def Let_def exists_where_def empty_coord_db_def)
  then have "session_get (s_id s) db = Some s" "s_title s = ''''"
    by (auto simp: new_session_def Let_def exists_where_def empty_coord_db_def session_get_def)
  from first_title_sticks [OF this, of "''a''"] n show ?thesis by blast
qed

end
