(* ===== verification/EventLog.thy ===== *)
theory EventLog
  imports CoordSchema "HOL-Library.Multiset"
begin

text \<open>
  The progress log \<open>coordinator_events\<close>, \<open>crates/single-runtime/src/coordinator/events.rs\<close>: an
  append-only table with autoincrement ids that the messenger tails by id.
\<close>

datatype event_kind =
    EkPlan | EkNodeStarted | EkNodeOutput | EkNodeDone | EkNodeFailed | EkSupervisor | EkQueued
  | EkBlocked | EkIntegrated | EkBudget | EkMessage | EkCapacityWait | EkCapacityResumed
  | EkSessionResumed | EkMerged | EkMergeFailed | EkMergeAwaitingConfirmation

fun event_kind_str :: "event_kind \<Rightarrow> string" where
  "event_kind_str EkPlan = ''plan''"
| "event_kind_str EkNodeStarted = ''node_started''"
| "event_kind_str EkNodeOutput = ''node_output''"
| "event_kind_str EkNodeDone = ''node_done''"
| "event_kind_str EkNodeFailed = ''node_failed''"
| "event_kind_str EkSupervisor = ''supervisor''"
| "event_kind_str EkQueued = ''queued''"
| "event_kind_str EkBlocked = ''blocked''"
| "event_kind_str EkIntegrated = ''integrated''"
| "event_kind_str EkBudget = ''budget''"
| "event_kind_str EkMessage = ''message''"
| "event_kind_str EkCapacityWait = ''capacity_wait''"
| "event_kind_str EkCapacityResumed = ''capacity_resumed''"
| "event_kind_str EkSessionResumed = ''session_resumed''"
| "event_kind_str EkMerged = ''merged''"
| "event_kind_str EkMergeFailed = ''merge_failed''"
| "event_kind_str EkMergeAwaitingConfirmation = ''merge_awaiting_confirmation''"

definition event_append ::
    "string \<Rightarrow> string \<Rightarrow> string option \<Rightarrow> event_kind \<Rightarrow> string \<Rightarrow> coord_db \<Rightarrow> int \<times> coord_db" where
  "event_append ts session_id goal_id kind body db =
     (let i = db_event_seq db + 1
      in (i, db\<lparr>db_events := db_events db @ [\<lparr>ev_id = i, ev_session = session_id, ev_goal = goal_id,
                ev_ts = ts, ev_kind = event_kind_str kind, ev_body = body\<rparr>],
              db_event_seq := i\<rparr>))"

definition events_since :: "string \<Rightarrow> int \<Rightarrow> coord_db \<Rightarrow> event list" where
  "events_since session_id since_event_id db =
     sort_key ev_id (filter (\<lambda>e. ev_session e = session_id \<and> ev_id e > since_event_id) (db_events db))"

definition events_for_goal :: "string \<Rightarrow> nat \<Rightarrow> coord_db \<Rightarrow> event list" where
  "events_for_goal goal_id limit db =
     (let newest_first = rev (sort_key ev_id (filter (\<lambda>e. ev_goal e = Some goal_id) (db_events db)))
      in sort_key ev_id (take limit newest_first))"

text \<open>Writing an event, for the callers that ignore its id.\<close>

definition log_event ::
    "string \<Rightarrow> string \<Rightarrow> string option \<Rightarrow> event_kind \<Rightarrow> string \<Rightarrow> coord_db \<Rightarrow> coord_db" where
  "log_event ts session_id goal_id kind body db = snd (event_append ts session_id goal_id kind body db)"

lemma log_event_frames [frame_simps]:
  "db_sessions (log_event ts s g k b db) = db_sessions db"
  "db_goals (log_event ts s g k b db) = db_goals db"
  "db_nodes (log_event ts s g k b db) = db_nodes db"
  "db_merges (log_event ts s g k b db) = db_merges db"
  "db_merge_seq (log_event ts s g k b db) = db_merge_seq db"
  "db_tasks (log_event ts s g k b db) = db_tasks db"
  "goal_row i (log_event ts s g k b db) = goal_row i db"
  "session_get j (log_event ts s g k b db) = session_get j db"
  "node_row n (log_event ts s g k b db) = node_row n db"
  "merge_row m (log_event ts s g k b db) = merge_row m db"
  by (simp_all add: log_event_def event_append_def Let_def goal_row_def session_get_def
      node_row_def merge_row_def)

section \<open>The log is ordered and loses nothing\<close>

definition events_ok :: "coord_db \<Rightarrow> bool" where
  "events_ok db \<longleftrightarrow> sorted_wrt (<) (map ev_id (db_events db)) \<and>
     (\<forall>e \<in> set (db_events db). ev_id e \<le> db_event_seq db)"

definition log_all ::
    "(string \<times> string \<times> string option \<times> event_kind \<times> string) list \<Rightarrow> coord_db \<Rightarrow> coord_db" where
  "log_all evs db = fold (\<lambda>(ts, s, g, k, b). log_event ts s g k b) evs db"

lemma events_ok_log: "events_ok db \<Longrightarrow> events_ok (log_event ts s g k b db)"
  by (fastforce simp: events_ok_def log_event_def event_append_def Let_def sorted_wrt_append)

lemma log_all_suffix:
  "events_ok db \<Longrightarrow> \<exists>new. db_events (log_all evs db) = db_events db @ new \<and>
     map (\<lambda>e. (ev_ts e, ev_session e, ev_goal e, ev_kind e, ev_body e)) new =
       map (\<lambda>(ts, s, g, k, b). (ts, s, g, event_kind_str k, b)) evs \<and>
     (\<forall>e \<in> set new. db_event_seq db < ev_id e) \<and> events_ok (log_all evs db)"
proof (induction evs arbitrary: db)
  case (Cons ev evs)
  obtain ts s g k b where ev: "ev = (ts, s, g, k, b)" by (metis prod_cases5)
  let ?db = "log_event ts s g k b db"
  from Cons.IH [OF events_ok_log [OF Cons.prems, of ts s g k b]] obtain new where
    new: "db_events (log_all evs ?db) = db_events ?db @ new"
    "map (\<lambda>e. (ev_ts e, ev_session e, ev_goal e, ev_kind e, ev_body e)) new =
       map (\<lambda>(ts, s, g, k, b). (ts, s, g, event_kind_str k, b)) evs"
    "\<forall>e \<in> set new. db_event_seq ?db < ev_id e" "events_ok (log_all evs ?db)"
    by blast
  have "log_all (ev # evs) db = log_all evs ?db" by (simp add: log_all_def ev)
  moreover have "db_events ?db = db_events db @ [\<lparr>ev_id = db_event_seq db + 1, ev_session = s,
      ev_goal = g, ev_ts = ts, ev_kind = event_kind_str k, ev_body = b\<rparr>]"
    "db_event_seq ?db = db_event_seq db + 1"
    by (simp_all add: log_event_def event_append_def Let_def)
  ultimately show ?case using new
    by (intro exI [of _ "\<lparr>ev_id = db_event_seq db + 1, ev_session = s,
      ev_goal = g, ev_ts = ts, ev_kind = event_kind_str k, ev_body = b\<rparr> # new"]) (auto simp: ev)
qed (simp add: log_all_def)

lemma sort_key_events:
  assumes "events_ok db" shows "sort_key ev_id (filter P (db_events db)) = filter P (db_events db)"
proof (rule sort_key_id_if_sorted)
  have "sorted (map ev_id (db_events db))"
    using assms by (intro strict_sorted_imp_sorted) (simp add: events_ok_def)
  then show "sorted (map ev_id (filter P (db_events db)))" by (rule sorted_filter)
qed

text \<open>A messenger that polls with the last id it saw gets every later event of its session
  exactly once and in the order they were written, whatever other sessions write in between.\<close>

theorem polling_loses_nothing:
  assumes ok: "events_ok db" and db': "db' = log_all evs db" and seen: "seen = db_event_seq db"
  shows "map (\<lambda>e. (ev_ts e, ev_goal e, ev_kind e, ev_body e)) (events_since s seen db') =
      map (\<lambda>(ts, s', g, k, b). (ts, g, event_kind_str k, b)) (filter (\<lambda>(ts, s', g, k, b). s' = s) evs) \<and>
    sorted_wrt (<) (map ev_id (events_since s seen db')) \<and>
    (\<forall>e \<in> set (events_since s seen db'). seen < ev_id e)"
proof -
  from log_all_suffix [OF ok, of evs] obtain new where
    new: "db_events db' = db_events db @ new"
    "map (\<lambda>e. (ev_ts e, ev_session e, ev_goal e, ev_kind e, ev_body e)) new =
       map (\<lambda>(ts, s, g, k, b). (ts, s, g, event_kind_str k, b)) evs"
    "\<forall>e \<in> set new. seen < ev_id e" and ok': "events_ok db'"
    by (auto simp: db' seen)
  have old: "filter (\<lambda>e. ev_session e = s \<and> seen < ev_id e) (db_events db) = []"
    using ok by (auto simp: events_ok_def seen filter_empty_conv not_less)
  have "events_since s seen db' = filter (\<lambda>e. ev_session e = s \<and> seen < ev_id e) (db_events db')"
    unfolding events_since_def by (rule sort_key_events [OF ok'])
  then have since: "events_since s seen db' = filter (\<lambda>e. ev_session e = s) new"
    using new(1,3) old by (auto intro: filter_cong)
  have "map (\<lambda>e. (ev_ts e, ev_goal e, ev_kind e, ev_body e)) (filter (\<lambda>e. ev_session e = s) new) =
      map (\<lambda>(ts, s', g, k, b). (ts, g, event_kind_str k, b)) (filter (\<lambda>(ts, s', g, k, b). s' = s) evs)"
    using new(2)
  proof (induction new arbitrary: evs)
    case (Cons e new)
    then obtain ev evs' where "evs = ev # evs'" by (cases evs) auto
    with Cons show ?case by (cases ev) auto
  qed simp
  moreover have "sorted_wrt (<) (map ev_id (filter (\<lambda>e. ev_session e = s) new))"
    using ok' new(1) by (auto simp: events_ok_def sorted_wrt_append sorted_wrt_map sorted_wrt_filter)
  ultimately show ?thesis using new(3) by (simp add: since)
qed

theorem polling_loses_nothing_witness:
  "map ev_body (events_since ''s'' 0 (log_all [(''t'', ''s'', None, EkPlan, ''one''),
     (''t'', ''other'', None, EkPlan, ''x''), (''t'', ''s'', None, EkMessage, ''two'')] empty_coord_db))
   = [''one'', ''two'']"
proof -
  let ?evs = "[(''t'', ''s'', None, EkPlan, ''one''), (''t'', ''other'', None, EkPlan, ''x''),
     (''t'', ''s'', None, EkMessage, ''two'')]"
  have ok: "events_ok empty_coord_db" by (simp add: events_ok_def empty_coord_db_def)
  have "map (\<lambda>e. (ev_ts e, ev_goal e, ev_kind e, ev_body e)) (events_since ''s'' 0 (log_all ?evs empty_coord_db))
      = [(''t'', None, ''plan'', ''one''), (''t'', None, ''message'', ''two'')]"
    using polling_loses_nothing [OF ok refl refl, where evs = ?evs and s = "''s''"] by (simp add: empty_coord_db_def)
  then have "map (snd \<circ> snd \<circ> snd) (map (\<lambda>e. (ev_ts e, ev_goal e, ev_kind e, ev_body e))
      (events_since ''s'' 0 (log_all ?evs empty_coord_db))) = [''one'', ''two'']"
    by (simp only: list.map comp_def snd_conv)
  then show ?thesis by (simp add: comp_def)
qed

text \<open>The reader of a goal sees its newest events, oldest first.\<close>

lemma events_for_goal_tail:
  assumes ok: "events_ok db"
  shows "events_for_goal g n db = (let evs = filter (\<lambda>e. ev_goal e = Some g) (db_events db)
    in drop (length evs - n) evs)"
proof -
  let ?evs = "filter (\<lambda>e. ev_goal e = Some g) (db_events db)"
  have "sorted (map ev_id (db_events db))"
    using ok by (intro strict_sorted_imp_sorted) (simp add: events_ok_def)
  then have s: "sorted (map ev_id ?evs)" by (rule sorted_filter)
  have "distinct (map ev_id (db_events db))"
    using ok by (simp add: events_ok_def strict_sorted_iff)
  then have inj: "inj_on ev_id (set (take n (rev ?evs)))"
    by (elim distinct_map [THEN iffD1, THEN conjunct2, THEN inj_on_subset]) (auto dest: in_set_takeD)
  have "sort_key ev_id (take n (rev ?evs)) = drop (length ?evs - n) ?evs"
  proof (rule sort_key_inj_key_eq [OF _ inj])
    show "mset (take n (rev ?evs)) = mset (drop (length ?evs - n) ?evs)"
      by (simp only: take_rev mset_rev)
    show "sorted (map ev_id (drop (length ?evs - n) ?evs))"
      using s by (simp only: drop_map [symmetric] sorted_wrt_drop)
  qed
  then show ?thesis
    by (simp add: events_for_goal_def sort_key_events [OF ok] Let_def)
qed

end
