(* ===== verification/Utf8.thy ===== *)
theory Utf8
  imports Prelude
begin

text \<open>
  Characters of UTF-8 strings and the case conversion of the standard library. A string is the list
  of its bytes, a character is the list of the bytes that encode it. ASCII is exact; the Unicode
  tables for the other characters are the record \<open>unicode\<close>: whether a character is alphanumeric, and
  the lower case of the character at a position of a text (the Greek final sigma depends on it).
\<close>

record unicode =
  uc_alnum :: "string \<Rightarrow> bool"
  uc_lower :: "string list \<Rightarrow> nat \<Rightarrow> string"

text \<open>\<open>str::chars\<close>: a byte and the continuation bytes that follow it.\<close>

function utf8_chars :: "string \<Rightarrow> string list" where
  "utf8_chars [] = []"
| "utf8_chars (c # s) = (c # takeWhile is_cont_byte s) # utf8_chars (dropWhile is_cont_byte s)"
  by pat_completeness auto
termination
  by (relation "measure length") (simp_all add: le_imp_less_Suc length_dropWhile_le)

definition is_ascii_byte :: "char \<Rightarrow> bool" where
  "is_ascii_byte c = ((of_char c :: nat) < 128)"

definition lower_char :: "unicode \<Rightarrow> string list \<Rightarrow> nat \<Rightarrow> string" where
  "lower_char u cs i =
     (if list_all is_ascii_byte (cs ! i) then map ascii_lower (cs ! i) else uc_lower u cs i)"

definition to_lowercase :: "unicode \<Rightarrow> string \<Rightarrow> string" where
  "to_lowercase u s =
     (let cs = utf8_chars s in concat (map (lower_char u cs) [0 ..< length cs]))"

definition is_alnum_ascii :: "char \<Rightarrow> bool" where
  "is_alnum_ascii c =
     (is_digit c \<or> (65 \<le> (of_char c :: nat) \<and> (of_char c :: nat) \<le> 90) \<or>
      (97 \<le> (of_char c :: nat) \<and> (of_char c :: nat) \<le> 122))"

definition is_alphanumeric :: "unicode \<Rightarrow> string \<Rightarrow> bool" where
  "is_alphanumeric u ch = (case ch of [c] \<Rightarrow> if is_ascii_byte c then is_alnum_ascii c else uc_alnum u ch
                                  | _ \<Rightarrow> uc_alnum u ch)"

text \<open>\<open>split\<close> at the characters that are not alphanumeric, the word that is being read first.\<close>

fun alnum_words :: "unicode \<Rightarrow> string \<Rightarrow> string list \<Rightarrow> string list" where
  "alnum_words u w [] = [w]"
| "alnum_words u w (c # cs) =
     (if is_alphanumeric u c then alnum_words u (w @ c) cs else w # alnum_words u [] cs)"

section \<open>Facts\<close>

lemma concat_utf8_chars [simp]: "concat (utf8_chars s) = s"
  by (induction s rule: utf8_chars.induct) auto

lemma utf8_chars_append:
  "b = [] \<or> \<not> is_cont_byte (hd b) \<Longrightarrow> utf8_chars (a @ b) = utf8_chars a @ utf8_chars b"
proof (induction a rule: utf8_chars.induct)
  case (2 c s)
  show ?case
  proof (cases "\<exists>x \<in> set s. \<not> is_cont_byte x")
    case True
    with 2 show ?thesis by (auto simp: takeWhile_append1 dropWhile_append1)
  next
    case False
    then have all: "\<forall>x \<in> set s. is_cont_byte x" by blast
    then have "takeWhile is_cont_byte (s @ b) = s" "dropWhile is_cont_byte (s @ b) = b"
      using 2(2) by (cases b; simp)+
    moreover from all have "takeWhile is_cont_byte s = s" "dropWhile is_cont_byte s = []"
      by (simp_all add: takeWhile_eq_all_conv)
    ultimately show ?thesis by (simp only: append_Cons utf8_chars.simps append_Nil)
  qed
qed simp

lemma ascii_no_cont: "is_ascii_byte c \<Longrightarrow> \<not> is_cont_byte c"
  by (simp add: is_ascii_byte_def is_cont_byte_def)

lemma utf8_chars_ascii: "list_all is_ascii_byte s \<Longrightarrow> utf8_chars s = map (\<lambda>c. [c]) s"
proof (induction s)
  case (Cons c s)
  then have "takeWhile is_cont_byte s = []" "dropWhile is_cont_byte s = s"
    by (cases s; simp add: ascii_no_cont)+
  with Cons show ?case by simp
qed simp

lemma lower_char_ascii:
  "i < length p \<Longrightarrow> list_all is_ascii_byte p \<Longrightarrow>
   lower_char u (xs @ map (\<lambda>c. [c]) p @ ys) (length xs + i) = [ascii_lower (p ! i)]"
  by (simp add: lower_char_def nth_append list_all_length)

text \<open>The lower case of an ASCII part of a text is a part of the lower case of the text.\<close>

lemma to_lowercase_ascii_part:
  assumes p: "list_all is_ascii_byte p" and b: "b = [] \<or> \<not> is_cont_byte (hd b)"
  shows "\<exists>x y. to_lowercase u (a @ p @ b) = x @ map ascii_lower p @ y"
proof -
  let ?m = "map (\<lambda>c. [c]) p"
  have hp: "p @ b = [] \<or> \<not> is_cont_byte (hd (p @ b))"
    using p b by (cases p) (auto dest: ascii_no_cont)
  let ?cs = "utf8_chars a @ ?m @ utf8_chars b"
  have cs: "utf8_chars (a @ p @ b) = ?cs"
    by (simp add: utf8_chars_append [OF hp] utf8_chars_append [OF b] utf8_chars_ascii [OF p])
  let ?n = "length (utf8_chars a)"
  have range: "[0 ..< length ?cs] = [0 ..< ?n] @ [?n ..< ?n + length p] @ [?n + length p ..< length ?cs]"
    by (metis length_append length_map le_add1 upt_add_eq_append add.assoc zero_le)
  have "concat (map (lower_char u ?cs) [?n ..< ?n + length p]) = map ascii_lower p"
  proof -
    have "map (lower_char u ?cs) [?n ..< ?n + length p] =
        map (\<lambda>i. [ascii_lower (p ! i)]) [0 ..< length p]"
      by (rule nth_equalityI) (simp_all add: lower_char_ascii p)
    also have "\<dots> = map (\<lambda>c. [ascii_lower c]) p"
      by (rule nth_equalityI) simp_all
    finally show ?thesis by (simp add: concat_map_singleton)
  qed
  then show ?thesis
    unfolding to_lowercase_def Let_def cs range by auto
qed

lemma contains_sub_iff: "contains_sub p s \<longleftrightarrow> (\<exists>a b. s = a @ p @ b)"
proof
  assume "contains_sub p s"
  then obtain i where "find_sub p s = Some i" by (auto simp: contains_sub_def)
  then have "starts_with p (drop i s)" by (blast dest: find_sub_Some)
  then obtain t where "drop i s = p @ t" by (auto simp: starts_with_iff)
  then have "s = take i s @ p @ t" by (metis append_take_drop_id)
  then show "\<exists>a b. s = a @ p @ b" by blast
next
  assume "\<exists>a b. s = a @ p @ b"
  then obtain a b where s: "s = a @ p @ b" by blast
  have "find_sub p (a @ p @ b) \<noteq> None"
  proof (induction a)
    case Nil
    then show ?case by (cases "p @ b") (auto simp del: append_is_Nil_conv simp: starts_with_iff append_eq_Cons_conv)
  qed auto
  with s show "contains_sub p s" by (simp add: contains_sub_def)
qed

lemma contains_lower:
  "list_all is_ascii_byte p \<Longrightarrow> b = [] \<or> \<not> is_cont_byte (hd b) \<Longrightarrow>
   contains_sub (map ascii_lower p) (to_lowercase u (a @ p @ b))"
  using to_lowercase_ascii_part [of p b u a] by (auto simp: contains_sub_iff)

lemma to_lowercase_ascii:
  assumes "list_all is_ascii_byte s" shows "to_lowercase u s = map ascii_lower s"
proof -
  have "map (lower_char u (map (\<lambda>c. [c]) s)) [0 ..< length s] = map (\<lambda>c. [ascii_lower c]) s"
    using assms by (intro nth_equalityI) (simp_all add: lower_char_def list_all_length)
  then show ?thesis
    using assms by (simp add: to_lowercase_def utf8_chars_ascii Let_def concat_map_singleton)
qed

end
