(* ===== verification/Goals.thy ===== *)
theory Goals
  imports Sessions EventLog Utf8
begin

text \<open>
  Goals and their graphs in the database, \<open>crates/single-runtime/src/coordinator/goal.rs\<close>: one
  definition per function. An operation reads the clock once (\<open>ts\<close>). \<open>to_json\<close> stands for
  serde's printing of a graph into the mirror column \<open>plan_json\<close>. A row keeps the enum texts;
  \<open>row_to_goal\<close> and \<open>node_of_row\<close> decode them with the code's defaults.
\<close>

section \<open>Rows and values\<close>

definition parse_or :: "(string \<Rightarrow> 'a result) \<Rightarrow> 'a \<Rightarrow> string \<Rightarrow> 'a" where
  "parse_or p d s = (case p s of Inr v \<Rightarrow> v | Inl _ \<Rightarrow> d)"

definition row_to_goal :: "goal_row \<Rightarrow> goal" where
  "row_to_goal r = \<lparr>g_id = g_id r, g_session = g_session r, g_text = g_text r,
     g_mode = parse_or goal_mode_parse GmAuto (g_mode r),
     g_status = parse_or goal_status_parse GsPlanning (g_status r),
     g_max_dispatches = g_max_dispatches r, g_max_minutes = g_max_minutes r,
     g_dispatches = g_dispatches r, g_supervisor_patches = g_supervisor_patches r,
     g_plan_json = g_plan_json r, g_summary = g_summary r, g_blocked_reason = g_blocked_reason r,
     g_created_at = g_created_at r, g_updated_at = g_updated_at r,
     g_capacity_reason = g_capacity_reason r, g_retry_at = g_retry_at r,
     g_capacity_waits = g_capacity_waits r, g_capacity_budget = g_capacity_budget r,
     g_capacity_minutes = g_capacity_minutes r, g_human_edit = g_human_edit r,
     g_auto_reevals = g_auto_reevals r, g_auto_merge = (g_auto_merge r \<noteq> 0)\<rparr>"

definition node_of_row :: "node_row \<Rightarrow> node" where
  "node_of_row r = \<lparr>nid = nr_id r, ndesc = nr_desc r,
     nkind = parse_or node_kind_parse NkCode (nr_kind r),
     neffort = parse_or effort_parse Standard (nr_effort r), nagent = nr_agent r,
     ndeps = nr_deps r, nstatus = parse_or node_status_parse NsPending (nr_status r),
     ntask = nr_task r, nattempts = nr_attempts r, nworktree = (nr_worktree r \<noteq> 0),
     noutput = nr_output r, nretry_at = nr_retry_at r\<rparr>"

definition row_of_node :: "string \<Rightarrow> node \<Rightarrow> node_row" where
  "row_of_node goal_id n = \<lparr>nr_goal = goal_id, nr_id = nid n, nr_desc = ndesc n,
     nr_kind = node_kind_str (nkind n), nr_effort = effort_str (neffort n), nr_agent = nagent n,
     nr_deps = ndeps n, nr_status = node_status_str (nstatus n), nr_task = ntask n,
     nr_attempts = nattempts n, nr_worktree = (if nworktree n then 1 else 0),
     nr_output = noutput n, nr_retry_at = nretry_at n\<rparr>"

text \<open>\<open>truncate\<close> counts characters and appends an ellipsis (three UTF-8 bytes).\<close>

definition goal_truncate :: "string \<Rightarrow> nat \<Rightarrow> string" where
  "goal_truncate s k = (if char_count s \<le> k then s else take_chars k s @ [CHR 0xE2, CHR 0x80, CHR 0xA6])"

section \<open>Reading goals\<close>

definition goal_get :: "string \<Rightarrow> coord_db \<Rightarrow> goal option" where
  "goal_get i db = map_option row_to_goal (goal_row i db)"

definition goal_list :: "string option \<Rightarrow> coord_db \<Rightarrow> goal list" where
  "goal_list session_id db =
     (case session_id of
        Some s \<Rightarrow> map row_to_goal (order_desc g_created_at (filter (\<lambda>r. g_session r = s) (db_goals db)))
      | None \<Rightarrow> map row_to_goal (order_desc g_created_at (db_goals db)))"

definition active_statuses :: "string list" where
  "active_statuses = [''planning'', ''running'', ''queued'', ''waiting_on_capacity'']"

definition active_goals :: "coord_db \<Rightarrow> goal list" where
  "active_goals db = map row_to_goal
     (sort_key g_created_at (filter (\<lambda>r. g_status r \<in> set active_statuses) (db_goals db)))"

definition list_by_status :: "goal_status \<Rightarrow> coord_db \<Rightarrow> goal list" where
  "list_by_status status db = map row_to_goal
     (sort_key g_created_at (filter (\<lambda>r. g_status r = goal_status_str status) (db_goals db)))"

text \<open>The words of a text, lower-cased and of more than two bytes, as a set. The ratio of two counts is compared exactly.\<close>

definition goal_tokens :: "unicode \<Rightarrow> string \<Rightarrow> string list" where
  "goal_tokens u s = remdups (filter (\<lambda>w. 2 < length w) (alnum_words u [] (utf8_chars (to_lowercase u s))))"

definition find_overlapping :: "unicode \<Rightarrow> string \<Rightarrow> coord_db \<Rightarrow> goal option" where
  "find_overlapping u text db =
     (let want = goal_tokens u text
      in if want = [] then None
         else find (\<lambda>g. let have = goal_tokens u (g_text g);
                            shared = length (filter (\<lambda>w. w \<in> set have) want);
                            smaller = min (length want) (length have)
                        in smaller > 0 \<and> 10 * shared \<ge> 6 * smaller) (active_goals db))"

section \<open>Writing goals\<close>

definition goal_create ::
    "string \<Rightarrow> u64 \<Rightarrow> nat \<Rightarrow> string \<Rightarrow> string \<Rightarrow> goal_mode \<Rightarrow> nat \<Rightarrow> nat \<Rightarrow> coord_db \<Rightarrow> goal result \<times> coord_db" where
  "goal_create ts nanos n session_id text mode max_d max_m db =
     (let i = short_id ''goal'' nanos n;
          row = \<lparr>g_id = i, g_session = session_id, g_text = text, g_mode = goal_mode_str mode,
            g_status = ''planning'', g_max_dispatches = max_d, g_max_minutes = max_m,
            g_dispatches = 0, g_supervisor_patches = 0, g_plan_json = ''{}'', g_summary = None,
            g_blocked_reason = None, g_created_at = ts, g_updated_at = ts,
            g_capacity_reason = None, g_retry_at = None, g_capacity_waits = 0,
            g_capacity_budget = None, g_capacity_minutes = None, g_human_edit = None,
            g_auto_reevals = 0, g_auto_merge = 0\<rparr>
      in if exists_where (\<lambda>r. g_id r = i) (db_goals db)
         then (Inl ''UNIQUE constraint failed: goals.id'', db)
         else
           (let db = db\<lparr>db_goals := db_goals db @ [row]\<rparr>;
                db = set_title_if_empty ts session_id (goal_truncate text 80) db;
                db = log_event ts session_id (Some i) EkMessage
                       (''goal submitted: '' @ goal_truncate text 200) db
            in case goal_get i db of
                 Some g \<Rightarrow> (Inr g, db)
               | None \<Rightarrow> (Inl ''goal disappeared right after insert'', db)))"

definition pause_all_active :: "string \<Rightarrow> coord_db \<Rightarrow> nat \<times> coord_db" where
  "pause_all_active ts db =
     (length (filter (\<lambda>r. g_status r \<in> set active_statuses) (db_goals db)),
      db\<lparr>db_goals := update_where (\<lambda>r. g_status r \<in> set active_statuses)
            (\<lambda>r. r\<lparr>g_status := ''paused'', g_updated_at := ts\<rparr>) (db_goals db)\<rparr>)"

definition resume_status :: "string \<Rightarrow> string \<Rightarrow> coord_db \<Rightarrow> coord_db" where
  "resume_status ts i = goal_upd i (\<lambda>r. r\<lparr>g_status := ''running'', g_blocked_reason := None,
     g_capacity_reason := None, g_retry_at := None, g_updated_at := ts\<rparr>)"

definition clear_node_retry_stamps :: "string \<Rightarrow> coord_db \<Rightarrow> coord_db" where
  "clear_node_retry_stamps goal_id db =
     db\<lparr>db_nodes := update_where (\<lambda>r. nr_goal r = goal_id) (\<lambda>r. r\<lparr>nr_retry_at := None\<rparr>) (db_nodes db)\<rparr>"

definition mark_human_edited :: "string \<Rightarrow> string \<Rightarrow> coord_db \<Rightarrow> coord_db" where
  "mark_human_edited ts i = goal_upd i (\<lambda>r. r\<lparr>g_human_edit := Some ts\<rparr>)"

text \<open>\<open>query_row\<close> of a missing goal is rusqlite's error.\<close>

definition read_counter :: "(goal_row \<Rightarrow> nat) \<Rightarrow> string \<Rightarrow> coord_db \<Rightarrow> nat result" where
  "read_counter f i db =
     (case goal_row i db of Some r \<Rightarrow> Inr (f r) | None \<Rightarrow> Inl ''Query returned no rows'')"

definition reevaluate_blocked :: "string \<Rightarrow> string \<Rightarrow> coord_db \<Rightarrow> nat result \<times> coord_db" where
  "reevaluate_blocked ts i db =
     (let db = goal_upd i (\<lambda>r. r\<lparr>g_status := ''running'', g_blocked_reason := None,
                 g_auto_reevals := g_auto_reevals r + 1, g_updated_at := ts\<rparr>) db
      in (read_counter g_auto_reevals i db, db))"

definition clear_node_agent_pin :: "string \<Rightarrow> string \<Rightarrow> coord_db \<Rightarrow> coord_db" where
  "clear_node_agent_pin goal_id node_id =
     node_upd (goal_id, node_id) (\<lambda>r. r\<lparr>nr_agent := '''', nr_status := ''pending''\<rparr>)"

definition set_status :: "string \<Rightarrow> string \<Rightarrow> goal_status \<Rightarrow> coord_db \<Rightarrow> coord_db" where
  "set_status ts i status = goal_upd i (\<lambda>r. r\<lparr>g_status := goal_status_str status, g_updated_at := ts\<rparr>)"

definition set_blocked :: "string \<Rightarrow> string \<Rightarrow> string \<Rightarrow> coord_db \<Rightarrow> coord_db" where
  "set_blocked ts i reason = goal_upd i (\<lambda>r. r\<lparr>g_status := ''blocked'',
     g_blocked_reason := Some reason, g_updated_at := ts\<rparr>)"

definition set_waiting_on_capacity :: "string \<Rightarrow> string \<Rightarrow> string \<Rightarrow> int \<Rightarrow> coord_db \<Rightarrow> coord_db" where
  "set_waiting_on_capacity ts i reason retry_at = goal_upd i (\<lambda>r. r\<lparr>
     g_status := ''waiting_on_capacity'', g_capacity_reason := Some reason,
     g_retry_at := Some retry_at, g_capacity_waits := g_capacity_waits r + 1, g_updated_at := ts\<rparr>)"

definition clear_waiting_on_capacity :: "string \<Rightarrow> string \<Rightarrow> coord_db \<Rightarrow> coord_db" where
  "clear_waiting_on_capacity ts i = goal_upd i (\<lambda>r. r\<lparr>g_status := ''running'',
     g_capacity_reason := None, g_retry_at := None, g_updated_at := ts\<rparr>)"

definition raise_capacity_budget :: "string \<Rightarrow> string \<Rightarrow> nat \<Rightarrow> coord_db \<Rightarrow> coord_db" where
  "raise_capacity_budget ts i b = goal_upd i (\<lambda>r. r\<lparr>g_capacity_budget := Some b, g_updated_at := ts\<rparr>)"

definition set_auto_merge :: "string \<Rightarrow> string \<Rightarrow> bool \<Rightarrow> coord_db \<Rightarrow> coord_db" where
  "set_auto_merge ts i enabled =
     goal_upd i (\<lambda>r. r\<lparr>g_auto_merge := (if enabled then 1 else 0), g_updated_at := ts\<rparr>)"

definition reopened :: "string \<Rightarrow> string" where
  "reopened status = (if status = ''blocked'' then ''running'' else status)"

definition raise_capacity_wait_minutes :: "string \<Rightarrow> string \<Rightarrow> nat \<Rightarrow> coord_db \<Rightarrow> coord_db" where
  "raise_capacity_wait_minutes ts i c = goal_upd i (\<lambda>r. r\<lparr>g_capacity_minutes := Some c,
     g_status := reopened (g_status r), g_blocked_reason := None, g_updated_at := ts\<rparr>)"

definition stamp_node_retry :: "string \<Rightarrow> string \<Rightarrow> int option \<Rightarrow> coord_db \<Rightarrow> coord_db" where
  "stamp_node_retry goal_id node_id retry_at =
     node_upd (goal_id, node_id) (\<lambda>r. r\<lparr>nr_status := ''pending'', nr_retry_at := retry_at\<rparr>)"

definition set_summary :: "string \<Rightarrow> string \<Rightarrow> string \<Rightarrow> coord_db \<Rightarrow> coord_db" where
  "set_summary ts i summary = goal_upd i (\<lambda>r. r\<lparr>g_summary := Some summary, g_updated_at := ts\<rparr>)"

definition raise_dispatch_cap :: "string \<Rightarrow> string \<Rightarrow> nat \<Rightarrow> coord_db \<Rightarrow> coord_db" where
  "raise_dispatch_cap ts i c = goal_upd i (\<lambda>r. r\<lparr>g_max_dispatches := c,
     g_status := reopened (g_status r), g_blocked_reason := None, g_updated_at := ts\<rparr>)"

definition raise_time_cap :: "string \<Rightarrow> string \<Rightarrow> nat \<Rightarrow> coord_db \<Rightarrow> coord_db" where
  "raise_time_cap ts i c = goal_upd i (\<lambda>r. r\<lparr>g_max_minutes := c,
     g_status := reopened (g_status r), g_blocked_reason := None, g_updated_at := ts\<rparr>)"

definition bump_dispatches :: "string \<Rightarrow> string \<Rightarrow> coord_db \<Rightarrow> nat result \<times> coord_db" where
  "bump_dispatches ts i db =
     (let db = goal_upd i (\<lambda>r. r\<lparr>g_dispatches := g_dispatches r + 1, g_updated_at := ts\<rparr>) db
      in (read_counter g_dispatches i db, db))"

definition bump_supervisor_patches :: "string \<Rightarrow> string \<Rightarrow> coord_db \<Rightarrow> nat result \<times> coord_db" where
  "bump_supervisor_patches ts i db =
     (let db = goal_upd i (\<lambda>r. r\<lparr>g_supervisor_patches := g_supervisor_patches r + 1, g_updated_at := ts\<rparr>) db
      in (read_counter g_supervisor_patches i db, db))"

section \<open>Graphs\<close>

text \<open>One transaction: the inserts that violate the primary key (goal, id) undo the whole of it.
  The rows of the goal are deleted first, so only ids repeated in the graph can collide.\<close>

definition save_graph ::
    "(task_graph \<Rightarrow> string) \<Rightarrow> string \<Rightarrow> string \<Rightarrow> task_graph \<Rightarrow> coord_db \<Rightarrow> unit result \<times> coord_db" where
  "save_graph to_json ts goal_id g db =
     (if distinct (map nid g) then
        (let db = goal_upd goal_id (\<lambda>r. r\<lparr>g_plan_json := to_json g, g_updated_at := ts\<rparr>) db
         in (Inr (), db\<lparr>db_nodes := delete_where (\<lambda>r. nr_goal r = goal_id) (db_nodes db)
               @ map (row_of_node goal_id) g\<rparr>))
      else (Inl ''UNIQUE constraint failed: graph_nodes.goal_id, graph_nodes.id'', db))"

definition load_graph :: "string \<Rightarrow> coord_db \<Rightarrow> task_graph" where
  "load_graph goal_id db =
     map node_of_row (sort_key nr_id (filter (\<lambda>r. nr_goal r = goal_id) (db_nodes db)))"

definition coalesce :: "'a option \<Rightarrow> 'a option \<Rightarrow> 'a option" where
  "coalesce v old = (case v of Some x \<Rightarrow> Some x | None \<Rightarrow> old)"

definition update_node ::
    "string \<Rightarrow> string \<Rightarrow> node_status \<Rightarrow> int option \<Rightarrow> string option \<Rightarrow> nat option \<Rightarrow> coord_db \<Rightarrow> coord_db" where
  "update_node goal_id node_id status task_id output_ref attempts =
     node_upd (goal_id, node_id) (\<lambda>r. r\<lparr>nr_status := node_status_str status,
       nr_task := coalesce task_id (nr_task r), nr_output := coalesce output_ref (nr_output r),
       nr_attempts := unwrap_or attempts (nr_attempts r)\<rparr>)"

definition set_node_desc :: "string \<Rightarrow> string \<Rightarrow> string \<Rightarrow> coord_db \<Rightarrow> coord_db" where
  "set_node_desc goal_id node_id d = node_upd (goal_id, node_id) (\<lambda>r. r\<lparr>nr_desc := d, nr_task := None\<rparr>)"

section \<open>The rows implement the graph\<close>

lemma parse_or_str [simp]:
  "parse_or node_kind_parse d (node_kind_str k) = k" "parse_or effort_parse d' (effort_str e) = e"
  "parse_or node_status_parse d'' (node_status_str st) = st"
  "parse_or goal_mode_parse m' (goal_mode_str m) = m"
  "parse_or goal_status_parse s' (goal_status_str gs) = gs"
  by (simp_all add: parse_or_def)

lemma node_of_row_of_node [simp]: "node_of_row (row_of_node i n) = n"
  by (simp add: node_of_row_def row_of_node_def)

lemma nid_node_of_row [simp]: "nid (node_of_row r) = nr_id r"
  by (simp add: node_of_row_def)

lemma insort_key_map: "insort_key k (f x) (map f xs) = map f (insort_key (\<lambda>y. k (f y)) x xs)"
  by (induction xs) auto

lemma sort_key_map: "sort_key k (map f xs) = map f (sort_key (\<lambda>y. k (f y)) xs)"
  by (induction xs) (simp_all add: insort_key_map)

lemma sort_key_update_where:
  "(\<And>r. k (f r) = k r) \<Longrightarrow> sort_key k (update_where p f xs) = update_where p f (sort_key k xs)"
  by (simp add: update_where_def sort_key_map if_distrib cong: if_cong)

text \<open>An update of a node row is the corresponding update of the loaded graph, and only of the graph
  of that goal.\<close>

lemma load_graph_node_upd:
  assumes key: "\<And>r. nr_key (f r) = nr_key r" and ref: "\<And>r. node_of_row (f r) = h (node_of_row r)"
  shows "load_graph i (node_upd (j, n) f db) =
    (if i = j then map (\<lambda>x. if nid x = n then h x else x) (load_graph i db) else load_graph i db)"
proof -
  have k: "nr_goal (f r) = nr_goal r" "nr_id (f r) = nr_id r" for r
    using key [of r] by (simp_all add: nr_key_def)
  have "filter (\<lambda>r. nr_goal r = i) (update_where (\<lambda>r. nr_key r = (j, n)) f (db_nodes db)) =
      update_where (\<lambda>r. nr_key r = (j, n)) f (filter (\<lambda>r. nr_goal r = i) (db_nodes db))"
    by (rule filter_update_where) (simp add: k)
  moreover define rs where "rs = sort_key nr_id (filter (\<lambda>r. nr_goal r = i) (db_nodes db))"
  ultimately have l: "load_graph i (node_upd (j, n) f db) =
      map node_of_row (update_where (\<lambda>r. nr_key r = (j, n)) f rs)"
    by (simp add: load_graph_def node_upd_def sort_key_update_where k)
  have rs: "nr_goal r = i" if "r \<in> set rs" for r using that by (simp add: rs_def)
  have "map node_of_row (update_where (\<lambda>r. nr_key r = (j, n)) f rs) =
      map (\<lambda>r. if i = j \<and> nr_id r = n then h (node_of_row r) else node_of_row r) rs"
    unfolding update_where_def map_map
    by (rule map_cong [OF refl]) (auto simp: nr_key_def ref dest: rs)
  also have "\<dots> = (if i = j then map (\<lambda>x. if nid x = n then h x else x) (map node_of_row rs)
      else map node_of_row rs)"
    by simp
  finally show ?thesis unfolding l by (simp only: load_graph_def rs_def)
qed

lemma load_graph_frames [frame_simps]:
  "load_graph i (goal_upd j f db) = load_graph i db"
  "load_graph i (session_upd j g db) = load_graph i db"
  "load_graph i (merge_upd m h db) = load_graph i db"
  "load_graph i (log_event ts s k e b db) = load_graph i db"
  by (simp_all add: load_graph_def frame_simps)

definition settle :: "node_status \<Rightarrow> int option \<Rightarrow> string option \<Rightarrow> nat option \<Rightarrow> node \<Rightarrow> node" where
  "settle st t out a n = n\<lparr>nstatus := st, ntask := coalesce t (ntask n),
     noutput := coalesce out (noutput n), nattempts := unwrap_or a (nattempts n)\<rparr>"

definition set_in_graph :: "(node \<Rightarrow> node) \<Rightarrow> string \<Rightarrow> task_graph \<Rightarrow> task_graph" where
  "set_in_graph h n g = map (\<lambda>x. if nid x = n then h x else x) g"

lemma load_graph_update_node:
  "load_graph i (update_node j n st t out a db) =
     (if i = j then set_in_graph (settle st t out a) n (load_graph i db) else load_graph i db)"
  unfolding update_node_def set_in_graph_def
  by (rule load_graph_node_upd) (simp_all add: nr_key_def node_of_row_def settle_def)

lemma load_graph_stamp:
  "load_graph i (stamp_node_retry j n t db) =
     (if i = j then set_in_graph (\<lambda>x. x\<lparr>nstatus := NsPending, nretry_at := t\<rparr>) n (load_graph i db)
      else load_graph i db)"
  unfolding stamp_node_retry_def set_in_graph_def
proof (rule load_graph_node_upd)
  have p: "parse_or node_status_parse NsPending ''pending'' = NsPending"
    using parse_or_str(3) [of NsPending NsPending] by simp
  show "node_of_row (r\<lparr>nr_status := ''pending'', nr_retry_at := t\<rparr>) =
      (node_of_row r)\<lparr>nstatus := NsPending, nretry_at := t\<rparr>" for r
    by (simp add: node_of_row_def p)
qed (simp add: nr_key_def)

lemma load_graph_clear_pin:
  "load_graph i (clear_node_agent_pin j n db) =
     (if i = j then set_in_graph (\<lambda>x. x\<lparr>nagent := '''', nstatus := NsPending\<rparr>) n (load_graph i db)
      else load_graph i db)"
  unfolding clear_node_agent_pin_def set_in_graph_def
proof (rule load_graph_node_upd)
  have p: "parse_or node_status_parse NsPending ''pending'' = NsPending"
    using parse_or_str(3) [of NsPending NsPending] by simp
  show "node_of_row (r\<lparr>nr_agent := '''', nr_status := ''pending''\<rparr>) =
      (node_of_row r)\<lparr>nagent := '''', nstatus := NsPending\<rparr>" for r
    by (simp add: node_of_row_def p)
qed (simp add: nr_key_def)

lemma load_graph_set_desc:
  "load_graph i (set_node_desc j n d db) =
     (if i = j then set_in_graph (\<lambda>x. x\<lparr>ndesc := d, ntask := None\<rparr>) n (load_graph i db)
      else load_graph i db)"
  unfolding set_node_desc_def set_in_graph_def
  by (rule load_graph_node_upd) (simp_all add: nr_key_def node_of_row_def)

lemma load_graph_clear_stamps:
  "load_graph i (clear_node_retry_stamps j db) =
     (if i = j then map (\<lambda>x. x\<lparr>nretry_at := None\<rparr>) (load_graph i db) else load_graph i db)"
proof -
  have "filter (\<lambda>r. nr_goal r = i) (update_where (\<lambda>r. nr_goal r = j) (\<lambda>r. r\<lparr>nr_retry_at := None\<rparr>) (db_nodes db)) =
      update_where (\<lambda>r. nr_goal r = j) (\<lambda>r. r\<lparr>nr_retry_at := None\<rparr>) (filter (\<lambda>r. nr_goal r = i) (db_nodes db))"
    by (rule filter_update_where) simp
  then show ?thesis
    by (auto simp: load_graph_def clear_node_retry_stamps_def sort_key_update_where)
      (auto simp: update_where_def node_of_row_def)
qed

lemma save_graph_saves:
  assumes "distinct (map nid g)"
  shows "\<exists>db'. save_graph to_json ts i g db = (Inr (), db') \<and>
    load_graph i db' = sort_key nid g \<and> (\<forall>j. j \<noteq> i \<longrightarrow> load_graph j db' = load_graph j db) \<and>
    db_goals db' = db_goals (goal_upd i (\<lambda>r. r\<lparr>g_plan_json := to_json g, g_updated_at := ts\<rparr>) db) \<and>
    db_tasks db' = db_tasks db \<and> db_sessions db' = db_sessions db"
proof -
  have "filter (\<lambda>r. nr_goal r = i) (delete_where (\<lambda>r. nr_goal r = i) t @ map (row_of_node i) g) =
      map (row_of_node i) g" for t
    by (auto simp: delete_where_def filter_map comp_def row_of_node_def)
  moreover have "filter (\<lambda>r. nr_goal r = j) (delete_where (\<lambda>r. nr_goal r = i) t @ map (row_of_node i) g) =
      filter (\<lambda>r. nr_goal r = j) t" if "j \<noteq> i" for j t
    using that by (auto simp: delete_where_def filter_map comp_def row_of_node_def intro: filter_cong)
  moreover have "sort_key nr_id (map (row_of_node i) g) = map (row_of_node i) (sort_key nid g)"
    by (simp add: sort_key_map row_of_node_def)
  ultimately show ?thesis
    using assms by (auto simp: save_graph_def Let_def load_graph_def frame_simps comp_def)
qed

text \<open>C9: saving a graph and loading it gives the graph back, ordered by node id, and touches no
  other goal's graph; a graph with a repeated id is refused and the database stays as it was.\<close>

theorem save_load_roundtrip:
  "(\<not> distinct (map nid g) \<longrightarrow>
      save_graph to_json ts i g db = (Inl ''UNIQUE constraint failed: graph_nodes.goal_id, graph_nodes.id'', db)) \<and>
   (distinct (map nid g) \<longrightarrow> (\<exists>db'. save_graph to_json ts i g db = (Inr (), db') \<and>
      load_graph i db' = sort_key nid g \<and> (\<forall>j. j \<noteq> i \<longrightarrow> load_graph j db' = load_graph j db)))"
  using save_graph_saves [of g to_json ts i db] by (auto simp: save_graph_def)

theorem save_load_roundtrip_witness:
  "load_graph ''g'' (snd (save_graph (\<lambda>_. '''') ''t'' ''g'' [plain_node ''b'' [''a''], plain_node ''a'' []]
     empty_coord_db)) = [plain_node ''a'' [], plain_node ''b'' [''a'']]"
proof -
  let ?g = "[plain_node ''b'' [''a''], plain_node ''a'' []]"
  have "distinct (map nid ?g)" by (simp add: plain_node_def)
  with save_load_roundtrip [of ?g "\<lambda>_. ''''" "''t''" "''g''" empty_coord_db] obtain db' where
    "save_graph (\<lambda>_. '''') ''t'' ''g'' ?g empty_coord_db = (Inr (), db')" "load_graph ''g'' db' = sort_key nid ?g"
    by blast
  moreover have "sort_key nid ?g = [plain_node ''a'' [], plain_node ''b'' [''a'']]"
    by (simp add: plain_node_def)
  ultimately show ?thesis by simp
qed

section \<open>Pausing\<close>

lemma goal_row_pause:
  "goal_row i (snd (pause_all_active ts db)) =
     map_option (\<lambda>r. if g_status r \<in> set active_statuses
       then r\<lparr>g_status := ''paused'', g_updated_at := ts\<rparr> else r) (goal_row i db)"
proof -
  have "find (\<lambda>r. g_id r = i) (update_where (\<lambda>r. g_status r \<in> set active_statuses)
        (\<lambda>r. r\<lparr>g_status := ''paused'', g_updated_at := ts\<rparr>) (db_goals db)) =
      map_option (\<lambda>r. if g_status r \<in> set active_statuses
        then r\<lparr>g_status := ''paused'', g_updated_at := ts\<rparr> else r) (find (\<lambda>r. g_id r = i) (db_goals db))"
    by (rule find_update_where) simp
  then show ?thesis by (simp add: goal_row_def pause_all_active_def)
qed

lemma paused_not_active: "''paused'' \<notin> set active_statuses"
  by (simp add: active_statuses_def)

text \<open>A clean stop pauses exactly the active goals and reports how many: afterwards no goal is
  active, every other goal and every graph is as it was.\<close>

theorem pause_all_spec:
  assumes "pause_all_active ts db = (k, db')"
  shows "active_goals db' = [] \<and> k = length (active_goals db) \<and> load_graph i db' = load_graph i db \<and>
    map_option g_status (goal_row i db') =
      map_option (\<lambda>r. if g_status r \<in> {''planning'', ''running'', ''queued'', ''waiting_on_capacity''}
        then ''paused'' else g_status r) (goal_row i db)"
proof -
  have "filter (\<lambda>r. g_status r \<in> set active_statuses)
      (update_where (\<lambda>r. g_status r \<in> set active_statuses)
        (\<lambda>r. r\<lparr>g_status := ''paused'', g_updated_at := ts\<rparr>) t) = []" for t :: "goal_row list"
    using paused_not_active by (induction t) auto
  with assms have "active_goals db' = []" "k = length (active_goals db)" "db_nodes db' = db_nodes db"
    by (auto simp: pause_all_active_def active_goals_def)
  moreover have a: "g_status r \<in> set active_statuses \<longleftrightarrow>
      g_status r \<in> {''planning'', ''running'', ''queued'', ''waiting_on_capacity''}" for r :: goal_row
    by (simp add: active_statuses_def)
  have "map_option g_status (goal_row i db') = map_option (\<lambda>r.
        if g_status r \<in> {''planning'', ''running'', ''queued'', ''waiting_on_capacity''}
        then ''paused'' else g_status r) (goal_row i db)"
    using goal_row_pause [of i ts db] assms unfolding a by (cases "goal_row i db") simp_all
  ultimately show ?thesis by (simp add: load_graph_def)
qed

theorem pause_all_spec_witness:
  "\<exists>db db'. goal_create ''t'' 5 0 ''s'' ''x'' GmAuto 25 60 empty_coord_db = db \<and>
     pause_all_active ''t2'' (snd db) = (1, db') \<and> active_goals db' = []"
proof -
  let ?db = "snd (goal_create ''t'' 5 0 ''s'' ''x'' GmAuto 25 60 empty_coord_db)"
  obtain k db' where p: "pause_all_active ''t2'' ?db = (k, db')" by force
  have "k = 1"
    using p by (auto simp: pause_all_active_def goal_create_def Let_def exists_where_def
        empty_coord_db_def active_statuses_def frame_simps set_title_if_empty_def session_upd_def
        split: option.splits)
  with p pause_all_spec [OF p] show ?thesis by blast
qed

section \<open>Budgets only grow\<close>

text \<open>Every write of this component, as data.\<close>

datatype goal_op =
    OpPauseAll | OpResume string | OpClearStamps string | OpHumanEdit string | OpReevaluate string
  | OpClearPin string string | OpSetStatus string goal_status | OpBlock string string
  | OpWait string string int | OpUnwait string | OpCapacityBudget string nat
  | OpAutoMerge string bool | OpCapacityMinutes string nat | OpStamp string string "int option"
  | OpSummary string string | OpDispatchCap string nat | OpTimeCap string nat
  | OpBumpDispatches string | OpBumpPatches string | OpSaveGraph string task_graph
  | OpUpdateNode string string node_status "int option" "string option" "nat option"
  | OpNodeDesc string string string

fun run_goal_op :: "(task_graph \<Rightarrow> string) \<Rightarrow> string \<Rightarrow> goal_op \<Rightarrow> coord_db \<Rightarrow> coord_db" where
  "run_goal_op js ts OpPauseAll db = snd (pause_all_active ts db)"
| "run_goal_op js ts (OpResume i) db = resume_status ts i db"
| "run_goal_op js ts (OpClearStamps i) db = clear_node_retry_stamps i db"
| "run_goal_op js ts (OpHumanEdit i) db = mark_human_edited ts i db"
| "run_goal_op js ts (OpReevaluate i) db = snd (reevaluate_blocked ts i db)"
| "run_goal_op js ts (OpClearPin i n) db = clear_node_agent_pin i n db"
| "run_goal_op js ts (OpSetStatus i s) db = set_status ts i s db"
| "run_goal_op js ts (OpBlock i r) db = set_blocked ts i r db"
| "run_goal_op js ts (OpWait i r t) db = set_waiting_on_capacity ts i r t db"
| "run_goal_op js ts (OpUnwait i) db = clear_waiting_on_capacity ts i db"
| "run_goal_op js ts (OpCapacityBudget i b) db = raise_capacity_budget ts i b db"
| "run_goal_op js ts (OpAutoMerge i b) db = set_auto_merge ts i b db"
| "run_goal_op js ts (OpCapacityMinutes i c) db = raise_capacity_wait_minutes ts i c db"
| "run_goal_op js ts (OpStamp i n t) db = stamp_node_retry i n t db"
| "run_goal_op js ts (OpSummary i s) db = set_summary ts i s db"
| "run_goal_op js ts (OpDispatchCap i c) db = raise_dispatch_cap ts i c db"
| "run_goal_op js ts (OpTimeCap i c) db = raise_time_cap ts i c db"
| "run_goal_op js ts (OpBumpDispatches i) db = snd (bump_dispatches ts i db)"
| "run_goal_op js ts (OpBumpPatches i) db = snd (bump_supervisor_patches ts i db)"
| "run_goal_op js ts (OpSaveGraph i g) db = snd (save_graph js ts i g db)"
| "run_goal_op js ts (OpUpdateNode i n st t out a) db = update_node i n st t out a db"
| "run_goal_op js ts (OpNodeDesc i n d) db = set_node_desc i n d db"

definition spent_le :: "goal_row \<Rightarrow> goal_row \<Rightarrow> bool" where
  "spent_le r r' \<longleftrightarrow> g_dispatches r \<le> g_dispatches r' \<and>
     g_supervisor_patches r \<le> g_supervisor_patches r' \<and> g_capacity_waits r \<le> g_capacity_waits r' \<and>
     g_auto_reevals r \<le> g_auto_reevals r' \<and> g_created_at r' = g_created_at r \<and>
     g_id r' = g_id r \<and> g_session r' = g_session r \<and> g_text r' = g_text r \<and> g_mode r' = g_mode r"

lemma spent_le_refl [simp]: "spent_le r r"
  by (simp add: spent_le_def)

lemma spent_le_trans: "spent_le a b \<Longrightarrow> spent_le b c \<Longrightarrow> spent_le a c"
  by (simp add: spent_le_def)

lemmas goal_write_defs [step_defs] =
  resume_status_def mark_human_edited_def reevaluate_blocked_def set_status_def set_blocked_def
  set_waiting_on_capacity_def clear_waiting_on_capacity_def raise_capacity_budget_def
  set_auto_merge_def raise_capacity_wait_minutes_def set_summary_def raise_dispatch_cap_def
  raise_time_cap_def bump_dispatches_def bump_supervisor_patches_def

lemmas node_write_defs [step_defs] =
  clear_node_agent_pin_def stamp_node_retry_def update_node_def set_node_desc_def

lemma goal_row_upd_spent:
  "(\<And>r. spent_le r (f r)) \<Longrightarrow> goal_row i db = Some r \<Longrightarrow>
   \<exists>r'. goal_row i (goal_upd j f db) = Some r' \<and> spent_le r r'"
  by (subst goals.get_upd) (auto simp: spent_le_def)

lemma run_goal_op_spent:
  assumes "goal_row i db = Some r"
  shows "\<exists>r'. goal_row i (run_goal_op js ts op db) = Some r' \<and> spent_le r r'"
proof (cases op)
  case OpPauseAll
  then show ?thesis using assms by (simp add: goal_row_pause spent_le_def)
next
  case (OpClearStamps j)
  then show ?thesis using assms by (simp add: clear_node_retry_stamps_def goal_row_def)
next
  case (OpSaveGraph j g)
  have "goal_row i (db'\<lparr>db_nodes := ns\<rparr>) = goal_row i db'" for db' ns by (simp add: goal_row_def)
  with OpSaveGraph assms show ?thesis
    by (auto simp: save_graph_def Let_def intro!: goal_row_upd_spent) (simp_all add: spent_le_def)
qed (use assms in \<open>auto simp: goal_write_defs node_write_defs frame_simps Let_def
  intro!: goal_row_upd_spent\<close>, simp_all add: spent_le_def)

text \<open>Over any sequence of operations the spent budget of a goal never shrinks: dispatches,
  supervisor patches, capacity waits and self-heal re-evaluations only grow, and the creation time
  they are measured against stays, so no operation gives a goal free work.\<close>

theorem budgets_monotone:
  assumes "goal_row i db = Some r"
  shows "\<exists>r'. goal_row i (fold (\<lambda>(ts, op). run_goal_op js ts op) ops db) = Some r' \<and>
    g_dispatches r \<le> g_dispatches r' \<and> g_supervisor_patches r \<le> g_supervisor_patches r' \<and>
    g_capacity_waits r \<le> g_capacity_waits r' \<and> g_auto_reevals r \<le> g_auto_reevals r' \<and>
    g_created_at r' = g_created_at r"
proof -
  have "\<exists>r'. goal_row i (fold (\<lambda>(ts, op). run_goal_op js ts op) ops db) = Some r' \<and> spent_le r r'"
    using assms
  proof (induction ops arbitrary: db r)
    case (Cons a ops)
    obtain ts op where a: "a = (ts, op)" by force
    from run_goal_op_spent [OF Cons.prems, of js ts op] obtain r1 where
      "goal_row i (run_goal_op js ts op db) = Some r1" "spent_le r r1" by blast
    with Cons.IH [OF this(1)] show ?case by (auto simp: a dest: spent_le_trans)
  qed simp
  then show ?thesis by (auto simp: spent_le_def)
qed

theorem budgets_monotone_witness:
  "\<exists>r'. goal_row ''g'' (fold (\<lambda>(ts, op). run_goal_op (\<lambda>_. '''') ts op)
      [(''t1'', OpBumpDispatches ''g''), (''t2'', OpResume ''g'')]
      (empty_coord_db\<lparr>db_goals := [\<lparr>g_id = ''g'', g_session = ''s'', g_text = '''', g_mode = ''auto'',
        g_status = ''running'', g_max_dispatches = 25, g_max_minutes = 60, g_dispatches = 3,
        g_supervisor_patches = 0, g_plan_json = '''', g_summary = None, g_blocked_reason = None,
        g_created_at = '''', g_updated_at = '''', g_capacity_reason = None, g_retry_at = None,
        g_capacity_waits = 0, g_capacity_budget = None, g_capacity_minutes = None,
        g_human_edit = None, g_auto_reevals = 0, g_auto_merge = 0\<rparr>]\<rparr>)) = Some r' \<and> 3 \<le> g_dispatches r'"
  (is "\<exists>r'. goal_row _ (fold ?f ?ops ?db) = _ \<and> _")
proof -
  have "goal_row ''g'' ?db = Some (hd (db_goals ?db))" by (simp add: goal_row_def)
  from budgets_monotone [OF this, of "\<lambda>_. ''''" ?ops] show ?thesis by auto
qed

end
