(* ===== verification/PendingMerge.thy ===== *)
theory PendingMerge
  imports CoordSchema
begin

text \<open>
  The queue of merges that wait for a human, \<open>crates/single-core/src/pending_merge.rs\<close>. It only
  records decisions; nothing here merges a branch.
\<close>

datatype merge_status = MsPending | MsConfirmed | MsRejected

fun merge_status_str :: "merge_status \<Rightarrow> string" where
  "merge_status_str MsPending = ''pending''"
| "merge_status_str MsConfirmed = ''confirmed''"
| "merge_status_str MsRejected = ''rejected''"

definition merge_status_parse :: "string \<Rightarrow> merge_status" where
  "merge_status_parse s =
     (if s = ''confirmed'' then MsConfirmed
      else if s = ''rejected'' then MsRejected
      else MsPending)"

record pending_merge =
  p_id :: int
  p_goal_id :: string
  p_session_id :: string
  p_review_node_id :: string
  p_dep_node_id :: string
  p_branch :: string
  p_status :: merge_status
  p_created_at :: string
  p_resolved_at :: "string option"

definition row_to_pending_merge :: "merge_row \<Rightarrow> pending_merge" where
  "row_to_pending_merge r = \<lparr>p_id = pm_id r, p_goal_id = pm_goal r, p_session_id = pm_session r,
     p_review_node_id = pm_review_node r, p_dep_node_id = pm_dep_node r, p_branch = pm_branch r,
     p_status = merge_status_parse (pm_status r), p_created_at = pm_created_at r,
     p_resolved_at = pm_resolved_at r\<rparr>"

definition merge_request ::
    "string \<Rightarrow> string \<Rightarrow> string \<Rightarrow> string \<Rightarrow> string \<Rightarrow> string \<Rightarrow> coord_db \<Rightarrow> int \<times> coord_db" where
  "merge_request ts goal_id session_id review_node dep_node branch db =
     (let i = db_merge_seq db + 1
      in (i, db\<lparr>db_merges := db_merges db @ [\<lparr>pm_id = i, pm_goal = goal_id, pm_session = session_id,
                pm_review_node = review_node, pm_dep_node = dep_node, pm_branch = branch,
                pm_status = ''pending'', pm_created_at = ts, pm_resolved_at = None\<rparr>],
              db_merge_seq := i\<rparr>))"

definition merge_get :: "int \<Rightarrow> coord_db \<Rightarrow> pending_merge option" where
  "merge_get i db = map_option row_to_pending_merge (merge_row i db)"

definition list_pending :: "coord_db \<Rightarrow> pending_merge list" where
  "list_pending db = map row_to_pending_merge
     (sort_key pm_created_at (filter (\<lambda>r. pm_status r = ''pending'') (db_merges db)))"

definition merge_resolve :: "string \<Rightarrow> int \<Rightarrow> bool \<Rightarrow> coord_db \<Rightarrow> pending_merge result \<times> coord_db" where
  "merge_resolve ts i allow db =
     (let status = (if allow then MsConfirmed else MsRejected);
          db' = merge_upd i (\<lambda>r. if pm_status r = ''pending''
                  then r\<lparr>pm_status := merge_status_str status, pm_resolved_at := Some ts\<rparr> else r) db
      in case merge_get i db' of
           Some m \<Rightarrow> (Inr m, db')
         | None \<Rightarrow> (Inl (''no such pending merge: '' @ dec_int i), db'))"

section \<open>Properties\<close>

definition merges_ok :: "coord_db \<Rightarrow> bool" where
  "merges_ok db \<longleftrightarrow> distinct (map pm_id (db_merges db)) \<and>
     (\<forall>r \<in> set (db_merges db). pm_id r \<le> db_merge_seq db \<and>
        pm_status r \<in> range merge_status_str)"

lemma merge_status_parse_str [simp]: "merge_status_parse (merge_status_str s) = s"
  by (cases s) (simp_all add: merge_status_parse_def)

lemma merges_ok_request: "merges_ok db \<Longrightarrow> merges_ok (snd (merge_request ts g s rn dn b db))"
proof -
  assume "merges_ok db"
  moreover have "''pending'' \<in> range merge_status_str"
    by (rule range_eqI [of _ _ MsPending]) simp
  ultimately show ?thesis
    by (force simp: merges_ok_def merge_request_def Let_def)
qed

lemma merge_row_request:
  assumes "merges_ok db" and "merge_request ts g s rn dn b db = (i, db')"
  shows "merge_row i db = None \<and> merge_row i db' = Some \<lparr>pm_id = i, pm_goal = g, pm_session = s,
      pm_review_node = rn, pm_dep_node = dn, pm_branch = b, pm_status = ''pending'',
      pm_created_at = ts, pm_resolved_at = None\<rparr>"
proof -
  from assms have i: "i = db_merge_seq db + 1" by (auto simp: merge_request_def Let_def)
  have "find (\<lambda>r. pm_id r = i) (db_merges db) = None"
    using assms(1) i by (force simp: merges_ok_def find_None_iff)
  then show ?thesis using assms(2)
    by (auto simp: merge_row_def merge_request_def Let_def i find_append)
qed

text \<open>A resolution of a row: a pending row takes the decision, a decided row stays.\<close>

lemma merge_resolve_row:
  "merge_row i (snd (merge_resolve ts i allow db)) =
     map_option (\<lambda>r. if pm_status r = ''pending''
       then r\<lparr>pm_status := merge_status_str (if allow then MsConfirmed else MsRejected),
              pm_resolved_at := Some ts\<rparr> else r) (merge_row i db)"
  by (simp add: merge_resolve_def Let_def merges.get_upd split: option.splits)

lemma fst_merge_resolve:
  "fst (merge_resolve ts i allow db) =
     (case merge_get i (snd (merge_resolve ts i allow db)) of
        Some m \<Rightarrow> Inr m | None \<Rightarrow> Inl (''no such pending merge: '' @ dec_int i))"
  by (simp add: merge_resolve_def Let_def split: option.splits)

text \<open>The first decision on a merge sticks: whatever is asked later, the record keeps the first
  answer and its time, and an unknown id is an error.\<close>

theorem merge_decision_sticks:
  assumes "merge_resolve ts i allow db = (r, db')" and "merge_resolve ts' i allow' db' = (r', db'')"
  shows "r' = r \<and> merge_row i db'' = merge_row i db' \<and> (merge_row i db = None \<longleftrightarrow> \<not> is_ok r) \<and>
    (\<forall>m. merge_row i db = Some m \<and> pm_status m = ''pending'' \<longrightarrow>
       (\<exists>p. r = Inr p \<and> p_status p = (if allow then MsConfirmed else MsRejected) \<and> p_resolved_at p = Some ts))"
proof -
  have row: "merge_row i db' = map_option (\<lambda>r. if pm_status r = ''pending''
       then r\<lparr>pm_status := merge_status_str (if allow then MsConfirmed else MsRejected),
              pm_resolved_at := Some ts\<rparr> else r) (merge_row i db)"
    using merge_resolve_row [of i ts allow db] assms(1) by simp
  have "merge_row i db'' = map_option (\<lambda>r. if pm_status r = ''pending''
       then r\<lparr>pm_status := merge_status_str (if allow' then MsConfirmed else MsRejected),
              pm_resolved_at := Some ts'\<rparr> else r) (merge_row i db')"
    using merge_resolve_row [of i ts' allow' db'] assms(2) by simp
  moreover have "\<dots> = merge_row i db'" unfolding row by (cases "merge_row i db") auto
  ultimately have stick: "merge_row i db'' = merge_row i db'" by simp
  have r: "r = (case merge_get i db' of Some m \<Rightarrow> Inr m | None \<Rightarrow> Inl (''no such pending merge: '' @ dec_int i))"
    "r' = (case merge_get i db'' of Some m \<Rightarrow> Inr m | None \<Rightarrow> Inl (''no such pending merge: '' @ dec_int i))"
    using fst_merge_resolve [of ts i allow db] fst_merge_resolve [of ts' i allow' db'] assms by simp_all
  have "merge_get i db'' = merge_get i db'" by (simp add: merge_get_def stick)
  with r stick show ?thesis unfolding r(1) merge_get_def row
    by (auto simp: row_to_pending_merge_def split: option.splits)
qed

theorem merge_decision_sticks_witness:
  "\<exists>db' db'' p. merge_resolve ''t1'' 1 True (snd (merge_request ''t0'' ''g'' ''s'' ''review'' ''code'' ''b'' empty_coord_db))
      = (Inr p, db') \<and> p_status p = MsConfirmed \<and> merge_resolve ''t2'' 1 False db' = (Inr p, db'')"
proof -
  let ?db = "snd (merge_request ''t0'' ''g'' ''s'' ''review'' ''code'' ''b'' empty_coord_db)"
  obtain r db' where a: "merge_resolve ''t1'' 1 True ?db = (r, db')" by force
  obtain r' db'' where b: "merge_resolve ''t2'' 1 False db' = (r', db'')" by force
  have "\<exists>m. merge_row 1 ?db = Some m \<and> pm_status m = ''pending''"
    by (simp add: merge_row_def merge_request_def Let_def empty_coord_db_def)
  with merge_decision_sticks [OF a b] a b show ?thesis by auto
qed

end
