(* ===== verification/SchedulerShell.thy ===== *)
theory SchedulerShell
  imports Scheduler Brain Goals PendingMerge
begin

text \<open>
  The database and dispatch shell of the scheduler, the second half of
  \<open>crates/single-runtime/src/coordinator/scheduler.rs\<close>: reconciliation after a restart, the tick over
  all active goals, the settling of a finished node with its retry, capacity, careful-loop,
  supervisor and integrator paths, and the request for a human merge confirmation. The outside of
  the program is the record \<open>shell_env\<close>: the clock (read once per call), files, the brain's agents,
  the dispatcher, and two printers. \<open>real_dispatch\<close> is the database side of \<open>task::run_background\<close>.
\<close>

record task_opts =
  op_description :: string
  op_agent :: string
  op_cwd :: string
  op_use_worktree :: bool
  op_account :: "string option"
  op_real_home :: bool
  op_no_memory_context :: bool
  op_timeout :: nat
  op_allow_fallback :: bool
  op_usage_json :: bool

record shell_env =
  se_brain :: brain_env
  se_now :: int
  se_ts :: string
  se_parse_ts :: "string \<Rightarrow> int option"
  se_eta :: "int \<Rightarrow> string"
  se_hours :: "int \<Rightarrow> string"
  se_is_repo :: "string \<Rightarrow> bool"
  se_to_json :: "task_graph \<Rightarrow> string"
  se_outcome_json :: "integration_outcome \<Rightarrow> string option"
  se_caps :: "(string \<times> nat option) list"
  se_dispatch :: "task_opts \<Rightarrow> task_row list \<Rightarrow> int result \<times> task_row list"

abbreviation se_read_file :: "shell_env \<Rightarrow> string \<Rightarrow> string option" where
  "se_read_file env \<equiv> be_read_file (se_brain env)"

section \<open>Reconciliation, capacity, budget\<close>

definition task_status :: "int option \<Rightarrow> coord_db \<Rightarrow> string option" where
  "task_status tid db =
     Option.bind tid (\<lambda>t. map_option tk_status (find (\<lambda>r. tk_id r = t) (db_tasks db)))"

definition reconcile_node :: "shell_env \<Rightarrow> node_row \<Rightarrow> string option \<Rightarrow> coord_db \<Rightarrow> coord_db" where
  "reconcile_node env r status db =
     (if status = Some ''completed'' then update_node (nr_goal r) (nr_id r) NsDone None None None db
      else case retry_decision (nr_attempts r) False of
        RetrySameNextAgent \<Rightarrow>
          (let db = update_node (nr_goal r) (nr_id r) NsPending None None (Some (nr_attempts r + 1)) db
           in case goal_get (nr_goal r) db of
                Some g \<Rightarrow> log_event (se_ts env) (g_session g) (Some (nr_goal r)) EkNodeFailed
                  (nr_id r @ '': interrupted, retry '' @ dec_nat (nr_attempts r + 1) @ '' scheduled'') db
              | None \<Rightarrow> db)
      | _ \<Rightarrow> update_node (nr_goal r) (nr_id r) NsFailed None None None db)"

fun reconcile_rows :: "shell_env \<Rightarrow> node_row list \<Rightarrow> coord_db \<Rightarrow> nat \<times> coord_db" where
  "reconcile_rows env [] db = (0, db)"
| "reconcile_rows env (r # rs) db =
     (let status = task_status (nr_task r) db
      in if status = Some ''running'' \<or> status = Some ''created'' then reconcile_rows env rs db
         else (let (touched, db') = reconcile_rows env rs (reconcile_node env r status db)
               in (touched + 1, db')))"

definition reconcile :: "shell_env \<Rightarrow> coord_db \<Rightarrow> nat \<times> coord_db" where
  "reconcile env db =
     reconcile_rows env (filter (\<lambda>r. nr_status r = ''running'') (db_nodes db)) db"

text \<open>\<open>GROUP BY agent\<close> has a group for each agent that occurs.\<close>

definition build_capacity :: "shell_env \<Rightarrow> coord_db \<Rightarrow> capacity" where
  "build_capacity env db =
     (let running = filter (\<lambda>r. nr_status r = ''running'') (db_nodes db)
      in \<lparr>global_running = length running,
          per_agent_running = (\<lambda>a. if a \<in> set (map nr_agent running)
             then Some (length (filter (\<lambda>r. nr_agent r = a) running)) else None),
          per_agent_cap = foldl (\<lambda>m (a, c). case c of Some k \<Rightarrow> m(a \<mapsto> k) | None \<Rightarrow> m)
             Map.empty (se_caps env)\<rparr>)"

definition goal_budget :: "shell_env \<Rightarrow> coordinator_config \<Rightarrow> goal \<Rightarrow> goal_budget" where
  "goal_budget env cfg g =
     \<lparr>b_dispatches = g_dispatches g,
      b_max_dispatches = (if g_max_dispatches g > 0 then g_max_dispatches g else max_dispatches_per_goal cfg),
      b_started_at = unwrap_or (se_parse_ts env (g_created_at g)) (se_now env),
      b_max_minutes = (if g_max_minutes g > 0 then g_max_minutes g else max_goal_minutes cfg),
      b_now = se_now env\<rparr>"

section \<open>Prompts\<close>

definition build_node_prompt :: "shell_env \<Rightarrow> task_graph \<Rightarrow> node \<Rightarrow> string" where
  "build_node_prompt env g n =
     (let deps = concat (map (\<lambda>d. case Option.bind (Option.bind (find_node d g) noutput) (se_read_file env) of
              Some out \<Rightarrow> newline @ ''--- output of '' @ d @ '' ---'' @ newline @ truncate_text out 2000 @ newline
            | None \<Rightarrow> '''') (ndeps n));
          prompt = ndesc n @ (if deps \<noteq> '''' then newline @ newline @ ''UPSTREAM RESULTS:'' @ deps else '''');
          siblings = sibling_status g (nid n)
      in prompt @ (if siblings \<noteq> [] then newline @ newline @ ''SIBLING NODE STATUS (read-only, for context '' @
            [CHR 0xE2, CHR 0x80, CHR 0x94] @ '' you cannot affect these):''
             @ concat (map (\<lambda>(i, st). newline @ ''- '' @ i @ '': '' @ node_status_str st) siblings)
           else ''''))"

section \<open>Capacity exhaustion\<close>

definition parse_i64_digits :: "string \<Rightarrow> int option" where
  "parse_i64_digits ds =
     (if ds = '''' then None
      else (let v = int (digits_val ds) in if v \<le> i64_max then Some v else None))"

definition parse_earliest_recovery_ms :: "string \<Rightarrow> int option" where
  "parse_earliest_recovery_ms text =
     (let marker = ''earliest recovery at ''
      in case find_sub marker text of
           None \<Rightarrow> None
         | Some pos \<Rightarrow> parse_i64_digits (takeWhile is_digit (drop (pos + length marker) text)))"

definition handle_capacity_exhaustion ::
    "shell_env \<Rightarrow> goal \<Rightarrow> string \<Rightarrow> string option \<Rightarrow> coordinator_config \<Rightarrow> coord_db \<Rightarrow> coord_db" where
  "handle_capacity_exhaustion env g node_id artifact cfg db =
     (let now_ms = timestamp_millis (se_now env);
          precise = Option.bind (Option.bind artifact (se_read_file env)) parse_earliest_recovery_ms;
          max_waits = unwrap_or (g_capacity_budget g) (max_capacity_waits_per_goal cfg);
          max_wait_minutes = unwrap_or (g_capacity_minutes g) (max_capacity_wait_minutes cfg);
          elapsed = num_minutes (se_now env - unwrap_or (se_parse_ts env (g_created_at g)) (se_now env))
      in if g_capacity_waits g \<ge> max_waits \<or> elapsed \<ge> int max_wait_minutes then
           (let reason = ''waited '' @ se_hours env elapsed @ ''h for capacity, still exhausted''
            in log_event (se_ts env) (g_session g) (Some (g_id g)) EkBlocked reason
                 (set_blocked (se_ts env) (g_id g) reason db))
         else
           (let (retry_at, reason, db) =
                 (case precise of
                    Some ms \<Rightarrow> (ms, node_id @ '': every routable candidate exhausted, resumes ~'' @ se_eta env ms, db)
                  | None \<Rightarrow> (now_ms + 15000,
                      node_id @ '': exhausted, rerouting to next available agent/provider'',
                      clear_node_agent_pin (g_id g) node_id db));
                db = set_waiting_on_capacity (se_ts env) (g_id g) reason retry_at db;
                db = stamp_node_retry (g_id g) node_id (Some retry_at) db
            in log_event (se_ts env) (g_session g) (Some (g_id g)) EkCapacityWait reason db))"

section \<open>The careful loop\<close>

definition CAREFUL_DONE_LINE :: string where
  "CAREFUL_DONE_LINE = ''DONE''"

definition settle_careful_node ::
    "shell_env \<Rightarrow> goal \<Rightarrow> string \<Rightarrow> string option \<Rightarrow> coord_db \<Rightarrow> coord_db" where
  "settle_careful_node env g node_id prev_artifact db =
     (let output = unwrap_or (Option.bind prev_artifact (se_read_file env)) '''';
          finished = list_ex (\<lambda>l. trim l = CAREFUL_DONE_LINE) (str_lines output);
          iter = g_dispatches g;
          ts = se_ts env
      in if finished then
           (let db = update_node (g_id g) node_id NsDone None prev_artifact None db;
                db = set_summary ts (g_id g) (truncate_text output 2000) db;
                db = set_status ts (g_id g) GsDone db
            in log_event ts (g_session g) (Some (g_id g)) EkIntegrated
                 (''loop finished (DONE) after '' @ dec_nat iter @ '' iteration(s)'') db)
         else if iter \<ge> g_max_dispatches g then
           (let db = update_node (g_id g) node_id NsDone None prev_artifact None db;
                db = set_summary ts (g_id g) (''stopped after '' @ dec_nat iter @
                       '' iteration(s) without a DONE. last output:'' @ newline @ truncate_text output 2000) db;
                db = set_status ts (g_id g) GsDone db
            in log_event ts (g_session g) (Some (g_id g)) EkIntegrated
                 (''loop stopped at the '' @ dec_nat iter @ ''-iteration cap (no DONE)'') db)
         else
           (let next_prompt = g_text g @ newline @ newline @ ''--- previous step output ---'' @ newline @
                  truncate_text output 4000 @ newline @ newline @ ''--- continue ---'' @ newline @
            ''Do the next concrete piece of work toward the goal. When the goal is fully complete, reply with a line containing only DONE.'';
                db = set_node_desc (g_id g) node_id next_prompt db;
                db = update_node (g_id g) node_id NsPending None None (Some (iter + 1)) db
            in log_event ts (g_session g) (Some (g_id g)) EkMessage
                 (''iteration '' @ dec_nat (iter + 1)) db))"

section \<open>Supervisor and integrator\<close>

definition block_goal :: "shell_env \<Rightarrow> goal \<Rightarrow> string \<Rightarrow> coord_db \<Rightarrow> coord_db" where
  "block_goal env g reason db =
     log_event (se_ts env) (g_session g) (Some (g_id g)) EkBlocked reason
       (set_blocked (se_ts env) (g_id g) reason db)"

definition run_supervisor_or_block ::
    "shell_env \<Rightarrow> goal \<Rightarrow> string \<Rightarrow> routing_table \<Rightarrow> pool_health \<Rightarrow> coord_db \<Rightarrow> unit result \<times> coord_db" where
  "run_supervisor_or_block env g failing_node t h db =
     (if g_supervisor_patches g \<ge> max_supervisor_patches default_config then
        (Inr (), block_goal env g (''tried '' @ dec_nat (g_supervisor_patches g) @
            '' supervisor fixes on this goal; need a decision. last failure at node '' @ failing_node) db)
      else
        (let graph = load_graph (g_id g) db;
             failing_output = unwrap_or (Option.bind (Option.bind (find_node failing_node graph) noutput)
                                (se_read_file env)) '''';
             cwd = load_session_cwd db (g_session g);
             (answer, tasks) = brain_supervise (se_brain env) cwd graph failing_node failing_output t h (db_tasks db);
             db = db\<lparr>db_tasks := tasks\<rparr>
         in case answer of
              Inl e \<Rightarrow> (Inr (), block_goal env g (''supervisor produced no usable patch: '' @ e) db)
            | Inr ops \<Rightarrow>
                (case apply_patch ops graph of
                   (Inl e, _) \<Rightarrow>
                     (Inr (), log_event (se_ts env) (g_session g) (Some (g_id g)) EkNodeFailed
                        (''supervisor patch could not be applied: '' @ e)
                        (set_status (se_ts env) (g_id g) GsFailed db))
                 | (Inr _, graph') \<Rightarrow>
                     (case save_graph (se_to_json env) (se_ts env) (g_id g) graph' db of
                        (Inl e, db) \<Rightarrow> (Inl e, db)
                      | (Inr _, db) \<Rightarrow>
                          (case bump_supervisor_patches (se_ts env) (g_id g) db of
                             (Inl e, db) \<Rightarrow> (Inl e, db)
                           | (Inr _, db) \<Rightarrow>
                               (Inr (), log_event (se_ts env) (g_session g) (Some (g_id g)) EkSupervisor
                                  (''applied '' @ dec_nat (length ops) @ '' patch op(s)'') db))))))"

definition run_integrator ::
    "shell_env \<Rightarrow> goal \<Rightarrow> task_graph \<Rightarrow> routing_table \<Rightarrow> pool_health \<Rightarrow> coord_db \<Rightarrow> coord_db" where
  "run_integrator env g graph t h db =
     (let cwd = load_session_cwd db (g_session g);
          outputs = map (\<lambda>n. (nid n, unwrap_or (Option.bind (noutput n) (se_read_file env)) '''')) graph;
          (answer, tasks) = brain_integrate (se_brain env) cwd (g_text g) outputs t h (db_tasks db);
          db = db\<lparr>db_tasks := tasks\<rparr>
      in case answer of
           Inr outcome \<Rightarrow>
             (let db = set_summary (se_ts env) (g_id g) (io_summary outcome) db;
                  db = set_status (se_ts env) (g_id g) (if io_unrecoverable outcome then GsFailed else GsDone) db
              in log_event (se_ts env) (g_session g) (Some (g_id g)) EkIntegrated
                   (unwrap_or (se_outcome_json env outcome) (io_summary outcome)) db)
         | Inl e \<Rightarrow> block_goal env g (''integrator failed: '' @ e) db)"

section \<open>Merge requests\<close>

definition request_merge :: "shell_env \<Rightarrow> goal \<Rightarrow> string \<Rightarrow> string \<Rightarrow> int \<Rightarrow> coord_db \<Rightarrow> coord_db" where
  "request_merge env g node_id dep_id task_id db =
     (let branch = ''single/task-'' @ dec_int task_id;
          (pending_id, db) = merge_request (se_ts env) (g_id g) (g_session g) node_id dep_id branch db
      in log_event (se_ts env) (g_session g) (Some (g_id g)) EkMergeAwaitingConfirmation
           (dep_id @ '' ('' @ branch @ '') awaiting human merge confirmation after '' @ node_id @
            '' passed review '' @ [CHR 0xE2, CHR 0x80, CHR 0x94] @ '' see '' @ [CHR 0x60] @
            ''single goal merge show '' @ dec_int pending_id @ [CHR 0x60]) db)"

fun request_merges :: "shell_env \<Rightarrow> goal \<Rightarrow> task_graph \<Rightarrow> string \<Rightarrow> string list \<Rightarrow> coord_db \<Rightarrow> coord_db" where
  "request_merges env g graph node_id [] db = db"
| "request_merges env g graph node_id (d # ds) db =
     request_merges env g graph node_id ds
       (case find_node d graph of
          None \<Rightarrow> db
        | Some dep \<Rightarrow>
            if \<not> nworktree dep \<or> nstatus dep \<noteq> NsDone then db
            else (case ntask dep of
                    None \<Rightarrow> db
                  | Some tid \<Rightarrow> request_merge env g node_id d tid db))"

definition maybe_auto_merge :: "shell_env \<Rightarrow> goal \<Rightarrow> string \<Rightarrow> coord_db \<Rightarrow> coord_db" where
  "maybe_auto_merge env g node_id db =
     (if \<not> g_auto_merge g then db
      else (let graph = load_graph (g_id g) db
            in case find_node node_id graph of
                 None \<Rightarrow> db
               | Some n \<Rightarrow>
                   if nkind n \<noteq> NkReview then db
                   else if \<not> se_is_repo env (load_session_cwd db (g_session g)) then db
                   else request_merges env g graph node_id (ndeps n) db))"

section \<open>Settling a finished node\<close>

definition task_statuses :: "string list" where
  "task_statuses = [''created'', ''running'', ''completed'', ''failed'', ''cancelled'']"

text \<open>\<open>task::get\<close>: a status text outside the enum is a conversion error.\<close>

definition task_get :: "int \<Rightarrow> coord_db \<Rightarrow> task_row option result" where
  "task_get i db =
     (case find (\<lambda>r. tk_id r = i) (db_tasks db) of
        None \<Rightarrow> Inr None
      | Some r \<Rightarrow> if tk_status r \<in> set task_statuses then Inr (Some r) else Inl ''querying task by id'')"

definition settle_failure ::
    "shell_env \<Rightarrow> goal \<Rightarrow> string \<Rightarrow> nat \<Rightarrow> string option \<Rightarrow> routing_table \<Rightarrow> pool_health \<Rightarrow> coord_db \<Rightarrow>
     unit result \<times> coord_db" where
  "settle_failure env g node_id attempts artifact t h db =
     (case retry_decision attempts False of
        RetrySameNextAgent \<Rightarrow>
          (Inr (), log_event (se_ts env) (g_session g) (Some (g_id g)) EkNodeFailed
             (node_id @ '': retry '' @ dec_nat (attempts + 1) @ '' scheduled'')
             (update_node (g_id g) node_id NsPending None None (Some (attempts + 1)) db))
      | _ \<Rightarrow>
          run_supervisor_or_block env g node_id t h
            (log_event (se_ts env) (g_session g) (Some (g_id g)) EkNodeFailed
               (node_id @ '': exhausted retries '' @ [CHR 0xE2, CHR 0x86, CHR 0x92] @ '' supervisor/failed'')
               (update_node (g_id g) node_id NsFailed None artifact None db)))"

definition settle_finished_node ::
    "shell_env \<Rightarrow> coordinator_config \<Rightarrow> routing_table \<Rightarrow> pool_health \<Rightarrow> int \<Rightarrow> coord_db \<Rightarrow>
     unit result \<times> coord_db" where
  "settle_finished_node env cfg t h task_id db =
     (case find (\<lambda>r. nr_task r = Some task_id \<and> nr_status r = ''running'') (db_nodes db) of
        None \<Rightarrow> (Inr (), db)
      | Some row \<Rightarrow>
          (case task_get task_id db of
             Inl e \<Rightarrow> (Inl e, db)
           | Inr task \<Rightarrow>
               (let (completed, limited, artifact) =
                   (case task of
                      Some k \<Rightarrow> (tk_status k = ''completed'', tk_rate_limited k \<noteq> 0, tk_artifact k)
                    | None \<Rightarrow> (False, False, None))
                in case goal_get (nr_goal row) db of
                     None \<Rightarrow> (Inl ''goal vanished mid-run'', db)
                   | Some g \<Rightarrow>
                       if g_mode g = GmCareful then
                         (Inr (), settle_careful_node env g (nr_id row) artifact db)
                       else if completed then
                         (Inr (), maybe_auto_merge env g (nr_id row)
                            (log_event (se_ts env) (g_session g) (Some (nr_goal row)) EkNodeDone (nr_id row)
                              (update_node (nr_goal row) (nr_id row) NsDone None artifact None db)))
                       else if limited then
                         (Inr (), handle_capacity_exhaustion env g (nr_id row) artifact cfg db)
                       else settle_failure env g (nr_id row) (nr_attempts row) artifact t h db)))"

section \<open>The tick\<close>

definition dispatch_opts ::
    "shell_env \<Rightarrow> coordinator_config \<Rightarrow> goal \<Rightarrow> task_graph \<Rightarrow> node \<Rightarrow> string \<Rightarrow> effort \<Rightarrow> bool \<Rightarrow>
     coord_db \<Rightarrow> task_opts" where
  "dispatch_opts env cfg g graph n agent e worktree db =
     \<lparr>op_description = build_node_prompt env graph n, op_agent = agent,
      op_cwd = load_session_cwd db (g_session g), op_use_worktree = worktree, op_account = None,
      op_real_home = False, op_no_memory_context = False, op_timeout = timeout_for e,
      op_allow_fallback = True, op_usage_json = list_ex (\<lambda>a. a = agent) (usage_json_agents cfg)\<rparr>"

definition run_dispatch ::
    "shell_env \<Rightarrow> coordinator_config \<Rightarrow> goal \<Rightarrow> task_graph \<Rightarrow> string \<Rightarrow> string \<Rightarrow> effort \<Rightarrow> bool \<Rightarrow>
     coord_db \<Rightarrow> unit result \<times> coord_db" where
  "run_dispatch env cfg g graph node_id agent e worktree db =
     (case find_node node_id graph of
        None \<Rightarrow> (Inr (), db)
      | Some n \<Rightarrow>
          (let ts = se_ts env;
               db = (if g_status g = GsWaitingOnCapacity then
                       log_event ts (g_session g) (Some (g_id g)) EkCapacityResumed
                         (node_id @ '': capacity window freed, resuming'')
                         (clear_waiting_on_capacity ts (g_id g) db)
                     else db);
               (answer, tasks) = se_dispatch env (dispatch_opts env cfg g graph n agent e worktree db) (db_tasks db);
               db = db\<lparr>db_tasks := tasks\<rparr>
           in case answer of
                Inr task_id \<Rightarrow>
                  (case bump_dispatches ts (g_id g)
                          (update_node (g_id g) node_id NsRunning (Some task_id) None None db) of
                     (Inl err, db) \<Rightarrow> (Inl err, db)
                   | (Inr _, db) \<Rightarrow>
                       (Inr (), log_event ts (g_session g) (Some (g_id g)) EkNodeStarted
                          (node_id @ '' '' @ [CHR 0xE2, CHR 0x86, CHR 0x92] @ '' '' @ agent @ '' (#'' @ dec_int task_id @ '')'') db))
              | Inl err \<Rightarrow>
                  (Inr (), log_event ts (g_session g) (Some (g_id g)) EkNodeFailed
                     (node_id @ '': dispatch failed: '' @ err)
                     (update_node (g_id g) node_id NsFailed None None None db))))"

fun run_action ::
    "shell_env \<Rightarrow> coordinator_config \<Rightarrow> routing_table \<Rightarrow> pool_health \<Rightarrow> goal \<Rightarrow> task_graph \<Rightarrow>
     tick_action \<Rightarrow> coord_db \<Rightarrow> unit result \<times> coord_db" where
  "run_action env cfg t h g graph Noop db = (Inr (), db)"
| "run_action env cfg t h g graph (Block reason) db = (Inr (), block_goal env g reason db)"
| "run_action env cfg t h g graph (Fail reason) db =
     (Inr (), log_event (se_ts env) (g_session g) (Some (g_id g)) EkNodeFailed reason
        (set_status (se_ts env) (g_id g) GsFailed db))"
| "run_action env cfg t h g graph RunIntegrator db = (Inr (), run_integrator env g graph t h db)"
| "run_action env cfg t h g graph (Dispatch node_id agent e worktree steps) db =
     run_dispatch env cfg g graph node_id agent e worktree db"

fun run_actions ::
    "shell_env \<Rightarrow> coordinator_config \<Rightarrow> routing_table \<Rightarrow> pool_health \<Rightarrow> goal \<Rightarrow> task_graph \<Rightarrow>
     tick_action list \<Rightarrow> coord_db \<Rightarrow> unit result \<times> coord_db" where
  "run_actions env cfg t h g graph [] db = (Inr (), db)"
| "run_actions env cfg t h g graph (a # as) db =
     (case run_action env cfg t h g graph a db of
        (Inl e, db) \<Rightarrow> (Inl e, db)
      | (Inr _, db) \<Rightarrow> run_actions env cfg t h g graph as db)"

definition tick_goal ::
    "shell_env \<Rightarrow> coordinator_config \<Rightarrow> routing_table \<Rightarrow> pool_health \<Rightarrow> goal \<Rightarrow> coord_db \<Rightarrow>
     (unit result \<times> coord_db) option" where
  "tick_goal env cfg t h g db =
     (let graph = load_graph (g_id g) db
      in if graph = [] then Some (Inr (), db)
         else (let db = (if g_status g = GsPlanning then set_status (se_ts env) (g_id g) GsRunning db else db)
               in map_option (\<lambda>actions. run_actions env cfg t h g graph actions db)
                    (tick_pure graph cfg (build_capacity env db) (goal_budget env cfg g) t h)))"

fun tick_goals ::
    "shell_env \<Rightarrow> coordinator_config \<Rightarrow> routing_table \<Rightarrow> pool_health \<Rightarrow> goal list \<Rightarrow> coord_db \<Rightarrow>
     (unit result \<times> coord_db) option" where
  "tick_goals env cfg t h [] db = Some (Inr (), db)"
| "tick_goals env cfg t h (g # gs) db =
     (case tick_goal env cfg t h g db of
        None \<Rightarrow> None
      | Some (Inl e, db) \<Rightarrow> Some (Inl e, db)
      | Some (Inr _, db) \<Rightarrow> tick_goals env cfg t h gs db)"

fun settle_all ::
    "shell_env \<Rightarrow> coordinator_config \<Rightarrow> routing_table \<Rightarrow> pool_health \<Rightarrow> int list \<Rightarrow> coord_db \<Rightarrow>
     unit result \<times> coord_db" where
  "settle_all env cfg t h [] db = (Inr (), db)"
| "settle_all env cfg t h (i # is) db =
     (case settle_finished_node env cfg t h i db of
        (Inl e, db) \<Rightarrow> (Inl e, db)
      | (Inr _, db) \<Rightarrow> settle_all env cfg t h is db)"

definition finished_tasks :: "coord_db \<Rightarrow> int list" where
  "finished_tasks db =
     List.map_filter (\<lambda>r. if nr_status r = ''running'' \<and>
          task_status (nr_task r) db \<in> {Some ''completed'', Some ''failed'', Some ''cancelled''}
        then nr_task r else None) (db_nodes db)"

definition tick ::
    "shell_env \<Rightarrow> coordinator_config \<Rightarrow> routing_table \<Rightarrow> pool_health \<Rightarrow> coord_db \<Rightarrow>
     (unit result \<times> coord_db) option" where
  "tick env cfg t h db =
     (case settle_all env cfg t h (finished_tasks db) db of
        (Inl e, db) \<Rightarrow> Some (Inl e, db)
      | (Inr _, db) \<Rightarrow> tick_goals env cfg t h (active_goals db) db)"

definition on_task_finished ::
    "shell_env \<Rightarrow> coordinator_config \<Rightarrow> routing_table \<Rightarrow> pool_health \<Rightarrow> int \<Rightarrow> coord_db \<Rightarrow>
     (unit result \<times> coord_db) option" where
  "on_task_finished env cfg t h task_id db =
     (case settle_finished_node env cfg t h task_id db of
        (Inl e, db) \<Rightarrow> Some (Inl e, db)
      | (Inr _, db) \<Rightarrow> tick env cfg t h db)"

section \<open>Dispatching for real\<close>

text \<open>The contract the scheduler relies on: a dispatch that answers an id has added one live task
  row with that fresh id, a refused one has added nothing.\<close>

locale dispatcher =
  fixes dispatch :: "task_opts \<Rightarrow> task_row list \<Rightarrow> int result \<times> task_row list"
  assumes started: "dispatch opts ts = (Inr i, ts') \<Longrightarrow>
      \<exists>r. ts' = ts @ [r] \<and> tk_id r = i \<and> i \<notin> tk_id ` set ts \<and> tk_status r = ''running''"
    and refused: "dispatch opts ts = (Inl e, ts') \<Longrightarrow> ts' = ts"
begin

lemma keeps_tasks:
  assumes "dispatch opts ts = (r, ts')" and "find (\<lambda>k. tk_id k = i) ts = Some x"
  shows "find (\<lambda>k. tk_id k = i) ts' = Some x"
proof (cases r)
  case (Inl e)
  with assms refused show ?thesis by metis
next
  case (Inr j)
  with started assms(1) obtain k where "ts' = ts @ [k]" by metis
  with assms(2) show ?thesis by (simp add: find_append)
qed

lemma new_task_live:
  assumes "dispatch opts ts = (Inr i, ts')"
  shows "\<exists>k. find (\<lambda>k. tk_id k = i) ts' = Some k \<and> tk_status k = ''running''"
proof -
  from started [OF assms] obtain r where r: "ts' = ts @ [r]" "tk_id r = i" "i \<notin> tk_id ` set ts"
    "tk_status r = ''running''" by blast
  then have "find (\<lambda>k. tk_id k = i) ts = None"
    unfolding find_None_iff by (metis image_eqI)
  with r show ?thesis by (simp add: find_append)
qed

end

text \<open>The database side of \<open>task::run_background\<close> (\<open>task.rs\<close>): refusal of an unknown or missing
  agent, the new row (AUTOINCREMENT: one more than any id so far), its move to \<open>running\<close>. The thread
  it spawns runs later.\<close>

definition real_dispatch ::
    "(string \<Rightarrow> bool) \<Rightarrow> (string \<Rightarrow> bool) \<Rightarrow> string \<Rightarrow> int \<Rightarrow> task_opts \<Rightarrow> task_row list \<Rightarrow> int result \<times> task_row list" where
  "real_dispatch known detected ts seq opts tasks =
     (if \<not> known (op_agent opts) then (Inl (''unknown agent: '' @ op_agent opts), tasks)
      else if op_agent opts \<noteq> ''single-pool'' \<and> \<not> detected (op_agent opts)
      then (Inl (''agent '' @ [CHR 0x27] @ op_agent opts @ [CHR 0x27] @
              '' is not installed; run '' @ [CHR 0x60] @ ''single setup --yes'' @ [CHR 0x60] @ '' first''), tasks)
      else
        (let i = foldr max (map tk_id tasks) seq + 1;
             created = \<lparr>tk_id = i, tk_agent = op_agent opts, tk_status = ''created'', tk_rate_limited = 0,
                        tk_artifact = None, tk_updated_at = ts\<rparr>
         in (Inr i, update_where (\<lambda>r. tk_id r = i) (\<lambda>r. r\<lparr>tk_status := ''running'', tk_updated_at := ts\<rparr>)
                      (tasks @ [created]))))"

lemma foldr_max_ge: "x \<in> set xs \<Longrightarrow> x \<le> foldr max xs (s :: int)"
  by (induction xs) (auto simp: le_max_iff_disj)

lemma new_task_row:
  assumes "\<forall>x \<in> set tasks. tk_id x < i"
  shows "update_where (\<lambda>r. tk_id r = i) f (tasks @ [k]) = tasks @ [if tk_id k = i then f k else k]"
  using assms by (induction tasks) auto

interpretation real_dispatcher: dispatcher "real_dispatch known detected ts seq"
  for known detected ts seq
proof
  fix opts tasks i tasks'
  assume d: "real_dispatch known detected ts seq opts tasks = (Inr i, tasks')"
  then have i: "i = foldr max (map tk_id tasks) seq + 1"
    by (auto simp: real_dispatch_def Let_def split: if_splits)
  have lt: "\<forall>x \<in> set tasks. tk_id x < i"
    using foldr_max_ge [of _ "map tk_id tasks" seq] by (fastforce simp: i)
  then have "i \<notin> tk_id ` set tasks" by force
  moreover from d new_task_row [OF lt] i obtain r where
    "tasks' = tasks @ [r] \<and> tk_id r = i \<and> tk_status r = ''running''"
    by (auto simp: real_dispatch_def Let_def split: if_splits)
  ultimately show "\<exists>r. tasks' = tasks @ [r] \<and> tk_id r = i \<and> i \<notin> tk_id ` set tasks \<and>
      tk_status r = ''running''"
    by blast
next
  fix opts tasks e tasks'
  show "real_dispatch known detected ts seq opts tasks = (Inl e, tasks') \<Longrightarrow> tasks' = tasks"
    by (auto simp: real_dispatch_def Let_def split: if_splits)
qed

end
