(* ===== verification/ShellFacts.thy ===== *)
theory ShellFacts
  imports SchedulerShell
begin

text \<open>
  What the shell of the scheduler (\<open>SchedulerShell\<close>) guarantees on the database: reconciliation
  leaves no orphan, capacity waits, supervisor fixes and careful iterations are bounded, a merge is
  only requested, a started node is backed by a live task, and a spent capacity allowance leaves its
  node running. The database \<open>demo_db\<close> with one goal and one running node, and the outside
  \<open>demo_env\<close>, are the concrete inputs of the witnesses.
\<close>

section \<open>One row per node\<close>

definition nodes_ok :: "coord_db \<Rightarrow> bool" where
  "nodes_ok db \<longleftrightarrow> distinct (map nr_key (db_nodes db))"

section \<open>A concrete database\<close>

definition demo_goal :: goal_row where
  "demo_goal = \<lparr>g_id = ''g'', g_session = ''s'', g_text = ''x'', g_mode = ''auto'',
     g_status = ''running'', g_max_dispatches = 25, g_max_minutes = 60, g_dispatches = 24,
     g_supervisor_patches = 5, g_plan_json = '''', g_summary = None, g_blocked_reason = None,
     g_created_at = ''t0'', g_updated_at = ''t0'', g_capacity_reason = None, g_retry_at = None,
     g_capacity_waits = 1, g_capacity_budget = Some 1, g_capacity_minutes = None,
     g_human_edit = None, g_auto_reevals = 0, g_auto_merge = 0\<rparr>"

definition demo_node :: node_row where
  "demo_node = \<lparr>nr_goal = ''g'', nr_id = ''a'', nr_desc = ''x'', nr_kind = ''code'',
     nr_effort = ''standard'', nr_agent = ''grok'', nr_deps = [], nr_status = ''running'',
     nr_task = Some 7, nr_attempts = 0, nr_worktree = 0, nr_output = None, nr_retry_at = None\<rparr>"

definition demo_db :: coord_db where
  "demo_db = empty_coord_db\<lparr>db_goals := [demo_goal], db_nodes := [demo_node]\<rparr>"

definition demo_env :: shell_env where
  "demo_env = \<lparr>se_brain = \<lparr>be_run_task = (\<lambda>_ _ _ ts. (Inl ''no agent'', ts)), be_read_file = (\<lambda>_. None),
       be_from_str = (\<lambda>_. None), be_specs = (\<lambda>_. None), be_ops = (\<lambda>_. None), be_outcome = (\<lambda>_. None),
       be_graph_json = (\<lambda>_. ''''), be_project = (\<lambda>_. \<lparr>pc_cwd = '''', pc_repo_root = None,
         pc_branch = None, pc_changed_files = 0, pc_docs = []\<rparr>)\<rparr>,
     se_now = 0, se_ts = ''t1'', se_parse_ts = (\<lambda>_. Some 0), se_eta = (\<lambda>_. ''''), se_hours = (\<lambda>_. ''''),
     se_is_repo = (\<lambda>_. True), se_to_json = (\<lambda>_. ''''), se_outcome_json = (\<lambda>_. None), se_caps = [],
     se_dispatch = real_dispatch (\<lambda>_. True) (\<lambda>_. True) ''t1'' 0\<rparr>"

lemma demo_rows:
  "goal_row ''g'' demo_db = Some demo_goal" "node_row (''g'', ''a'') demo_db = Some demo_node"
  "nodes_ok demo_db"
  by (simp_all add: demo_db_def demo_goal_def demo_node_def goal_row_def node_row_def nr_key_def nodes_ok_def)

section \<open>Reconciliation leaves no orphan\<close>

definition task_live :: "coord_db \<Rightarrow> node_row \<Rightarrow> bool" where
  "task_live db r \<longleftrightarrow> task_status (nr_task r) db \<in> {Some ''running'', Some ''created''}"

lemma map_key_node_upd:
  "(\<And>r. nr_key (f r) = nr_key r) \<Longrightarrow> map nr_key (db_nodes (node_upd k f db)) = map nr_key (db_nodes db)"
  by (simp add: node_upd_def map_update_where)

lemma task_status_frame: "db_tasks db' = db_tasks db \<Longrightarrow> task_status t db' = task_status t db"
  by (simp add: task_status_def)

definition reconciled :: "node_row \<Rightarrow> string option \<Rightarrow> node_row" where
  "reconciled r status =
     (if status = Some ''completed'' then r\<lparr>nr_status := ''done''\<rparr>
      else if nr_attempts r < 2 then r\<lparr>nr_status := ''pending'', nr_attempts := nr_attempts r + 1\<rparr>
      else r\<lparr>nr_status := ''failed''\<rparr>)"

lemma reconcile_node_effect:
  "\<exists>f. (\<forall>x. nr_key (f x) = nr_key x) \<and> f r = reconciled r status \<and>
     db_nodes (reconcile_node env r status db) = db_nodes (node_upd (nr_key r) f db) \<and>
     db_tasks (reconcile_node env r status db) = db_tasks db \<and>
     db_goals (reconcile_node env r status db) = db_goals db"
proof -
  consider "status = Some ''completed''" | "status \<noteq> Some ''completed''" "nr_attempts r < 2"
    | "status \<noteq> Some ''completed''" "\<not> nr_attempts r < 2" by blast
  then show ?thesis
  proof cases
    case 1
    then show ?thesis
      by (intro exI [of _ "\<lambda>x. x\<lparr>nr_status := ''done''\<rparr>"])
        (simp add: reconcile_node_def update_node_def frame_simps nr_key_def reconciled_def coalesce_def)
  next
    case 2
    then have "retry_decision (nr_attempts r) False = RetrySameNextAgent" by (auto simp: retry_decision_def)
    with 2 show ?thesis
      by (intro exI [of _ "\<lambda>x. x\<lparr>nr_status := ''pending'', nr_attempts := nr_attempts r + 1\<rparr>"])
        (simp add: reconcile_node_def update_node_def frame_simps nr_key_def reconciled_def coalesce_def
          Let_def split: option.split)
  next
    case 3
    then have "retry_decision (nr_attempts r) False = Supervisor" by (auto simp: retry_decision_def)
    with 3 show ?thesis
      by (intro exI [of _ "\<lambda>x. x\<lparr>nr_status := ''failed''\<rparr>"])
        (simp add: reconcile_node_def update_node_def frame_simps nr_key_def reconciled_def coalesce_def)
  qed
qed

lemma reconcile_rows_effect:
  assumes "distinct (map nr_key rs)" and "\<And>r. r \<in> set rs \<Longrightarrow> node_row (nr_key r) db = Some r"
    and "reconcile_rows env rs db = (n, db')"
  shows "(\<forall>k. node_row k db' = map_option (\<lambda>r. if r \<in> set rs \<and> \<not> task_live db r
        then reconciled r (task_status (nr_task r) db) else r) (node_row k db)) \<and>
    n = length (filter (\<lambda>r. \<not> task_live db r) rs) \<and> db_tasks db' = db_tasks db \<and>
    db_goals db' = db_goals db \<and> map nr_key (db_nodes db') = map nr_key (db_nodes db)"
  using assms
proof (induction env rs db arbitrary: n db' rule: reconcile_rows.induct)
  case (1 env db)
  then show ?case by (auto simp: option.map_ident)
next
  case (2 env r rs db)
  let ?st = "task_status (nr_task r) db"
  show ?case
  proof (cases "task_live db r")
    case True
    then have live: "?st = Some ''running'' \<or> ?st = Some ''created''" by (simp add: task_live_def)
    with 2 have "reconcile_rows env rs db = (n, db')" by simp
    with "2.IH"(1) [OF refl live, of n db'] "2.prems" True show ?thesis
      by (auto intro!: option.map_cong)
  next
    case False
    then have dead: "\<not> (?st = Some ''running'' \<or> ?st = Some ''created'')" by (simp add: task_live_def)
    let ?db1 = "reconcile_node env r ?st db"
    from "2.prems"(3) dead obtain m where m: "reconcile_rows env rs ?db1 = (m, db')" "n = m + 1"
      by (auto simp: Let_def split: prod.splits)
    from reconcile_node_effect [of r ?st env db] obtain f where
      f: "\<And>x. nr_key (f x) = nr_key x" "f r = reconciled r ?st"
      "db_nodes ?db1 = db_nodes (node_upd (nr_key r) f db)" "db_tasks ?db1 = db_tasks db"
      "db_goals ?db1 = db_goals db" by blast
    have row1: "node_row k ?db1 = (if nr_key r = k then map_option f (node_row k db) else node_row k db)" for k
      using node_rows.get_upd [of f k "nr_key r" db] f(1,3) by (simp add: node_row_def)
    have rows1: "node_row (nr_key x) ?db1 = Some x" if "x \<in> set rs" for x
      using row1 [of "nr_key x"] "2.prems"(1,2) that by auto
    have ts: "task_status t ?db1 = task_status t db" for t
      using f(4) by (rule task_status_frame)
    then have live: "task_live ?db1 x = task_live db x" for x by (simp add: task_live_def)
    have d: "distinct (map nr_key rs)" using "2.prems"(1) by simp
    note IH = "2.IH"(2) [OF refl dead d rows1 m(1), unfolded ts live]
    have ih1: "node_row k db' = map_option (\<lambda>r. if r \<in> set rs \<and> \<not> task_live db r
        then reconciled r (task_status (nr_task r) db) else r) (node_row k ?db1)" for k
      using IH by blast
    have ih: "m = length (filter (\<lambda>r. \<not> task_live db r) rs)" "db_tasks db' = db_tasks ?db1"
      "db_goals db' = db_goals ?db1" "map nr_key (db_nodes db') = map nr_key (db_nodes ?db1)"
      using IH by blast+
    have key: "nr_key (reconciled r ?st) = nr_key r" by (simp add: reconciled_def nr_key_def)
    have "node_row k db' = map_option (\<lambda>x. if x \<in> set (r # rs) \<and> \<not> task_live db x
        then reconciled x (task_status (nr_task x) db) else x) (node_row k db)" for k
    proof (cases "nr_key r = k")
      case True
      then have r: "node_row k db = Some r" using "2.prems"(2) [of r] by simp
      have "reconciled r ?st \<notin> set rs" using key "2.prems"(1) by (metis distinct.simps(2) image_eqI list.simps(9) set_map)
      then show ?thesis using ih1 [of k] row1 [of k] True r False f(2) by simp
    next
      case other: False
      have "x \<noteq> r" if "node_row k db = Some x" for x
        using that other node_rows.get_key by blast
      with ih1 [of k] row1 [of k] other show ?thesis by (cases "node_row k db") auto
    qed
    moreover have "map nr_key (db_nodes db') = map nr_key (db_nodes db)"
      using ih(4) map_key_node_upd [of f "nr_key r" db] f(1,3) by simp
    ultimately show ?thesis using ih(1-3) f(4,5) m(2) False by simp
  qed
qed

lemma nodes_ok_row: "nodes_ok db \<Longrightarrow> r \<in> set (db_nodes db) \<Longrightarrow> node_row (nr_key r) db = Some r"
  unfolding nodes_ok_def node_row_def by (rule find_unique)

text \<open>C1: after a restart no node is left running without a live task: a node whose task completed is
  done, an interrupted one goes back to pending with one more attempt while it has attempts left and
  fails otherwise; the others are untouched and the count is that of the orphans.\<close>

theorem reconcile_no_orphans:
  assumes ok: "nodes_ok db" and rec: "reconcile env db = (n, db')"
  shows "(\<forall>r \<in> set (db_nodes db'). nr_status r = ''running'' \<longrightarrow> task_live db' r) \<and>
    (\<forall>k r. node_row k db = Some r \<longrightarrow> node_row k db' = Some
       (if nr_status r = ''running'' \<and> \<not> task_live db r
        then (if task_status (nr_task r) db = Some ''completed'' then r\<lparr>nr_status := ''done''\<rparr>
              else if nr_attempts r < 2 then r\<lparr>nr_status := ''pending'', nr_attempts := nr_attempts r + 1\<rparr>
              else r\<lparr>nr_status := ''failed''\<rparr>)
        else r)) \<and>
    n = length (filter (\<lambda>r. nr_status r = ''running'' \<and> \<not> task_live db r) (db_nodes db))"
proof -
  let ?rs = "filter (\<lambda>r. nr_status r = ''running'') (db_nodes db)"
  have "distinct (map nr_key ?rs)" using ok by (simp add: nodes_ok_def distinct_map_filter)
  moreover have "node_row (nr_key r) db = Some r" if "r \<in> set ?rs" for r
    using nodes_ok_row [OF ok] that by simp
  moreover have "reconcile_rows env ?rs db = (n, db')" using rec by (simp add: reconcile_def)
  ultimately have eff: "\<forall>k. node_row k db' = map_option (\<lambda>r. if r \<in> set ?rs \<and> \<not> task_live db r
        then reconciled r (task_status (nr_task r) db) else r) (node_row k db)"
    "n = length (filter (\<lambda>r. \<not> task_live db r) ?rs)" "db_tasks db' = db_tasks db"
    "map nr_key (db_nodes db') = map nr_key (db_nodes db)"
    using reconcile_rows_effect by blast+
  have mem: "r \<in> set (db_nodes db)" if "node_row k db = Some r" for k r
    using that by (auto simp: node_row_def dest: find_SomeD)
  have rows: "node_row k db' = Some (if nr_status r = ''running'' \<and> \<not> task_live db r
        then reconciled r (task_status (nr_task r) db) else r)" if "node_row k db = Some r" for k r
    using spec [OF eff(1), of k] that mem [OF that] by simp
  have live: "task_live db' r = task_live db r" for r
    using task_status_frame [OF eff(3)] by (simp add: task_live_def)
  have "task_live db' r" if r: "r \<in> set (db_nodes db')" "nr_status r = ''running''" for r
  proof -
    have "nodes_ok db'" using ok eff(4) by (simp add: nodes_ok_def)
    then have row: "node_row (nr_key r) db' = Some r" using r(1) by (rule nodes_ok_row)
    then obtain r0 where "node_row (nr_key r) db = Some r0"
      using spec [OF eff(1), of "nr_key r"] by (cases "node_row (nr_key r) db") simp_all
    with rows [OF this] row r(2) live show ?thesis
      by (auto simp: reconciled_def split: if_splits)
  qed
  with rows eff(2) show ?thesis
    by (auto simp: reconciled_def filter_filter conj_commute)
qed

theorem reconcile_no_orphans_witness:
  "\<exists>db'. reconcile demo_env demo_db = (1, db') \<and>
     node_row (''g'', ''a'') db' = Some (demo_node\<lparr>nr_status := ''pending'', nr_attempts := 1\<rparr>)"
proof -
  obtain n db' where rec: "reconcile demo_env demo_db = (n, db')" by force
  have "\<not> task_live demo_db demo_node"
    by (simp add: task_live_def task_status_def demo_node_def demo_db_def empty_coord_db_def)
  moreover have "task_status (nr_task demo_node) demo_db = None"
    by (simp add: task_status_def demo_node_def demo_db_def empty_coord_db_def)
  moreover have "nr_status demo_node = ''running''" "nr_attempts demo_node = 0" "db_nodes demo_db = [demo_node]"
    by (simp_all add: demo_node_def demo_db_def)
  ultimately show ?thesis
    using reconcile_no_orphans [OF demo_rows(3) rec] demo_rows(2) rec by auto
qed

section \<open>Capacity waits\<close>

lemma row_to_goal_simps [simp]:
  "g_id (row_to_goal r) = g_id r" "g_session (row_to_goal r) = g_session r"
  "g_text (row_to_goal r) = g_text r" "g_dispatches (row_to_goal r) = g_dispatches r"
  "g_max_dispatches (row_to_goal r) = g_max_dispatches r"
  "g_supervisor_patches (row_to_goal r) = g_supervisor_patches r"
  "g_capacity_waits (row_to_goal r) = g_capacity_waits r"
  "g_capacity_budget (row_to_goal r) = g_capacity_budget r"
  "g_capacity_minutes (row_to_goal r) = g_capacity_minutes r"
  "g_created_at (row_to_goal r) = g_created_at r"
  by (simp_all add: row_to_goal_def)

lemma set_set_in_graph:
  "x \<in> set (set_in_graph h n g) \<Longrightarrow> (\<And>y. nid (h y) = nid y) \<Longrightarrow> nid x = n \<Longrightarrow> \<exists>y \<in> set g. x = h y \<and> nid y = n"
  by (auto simp: set_in_graph_def)

lemma other_table_frames [frame_simps]:
  "goal_row i (db\<lparr>db_tasks := ts\<rparr>) = goal_row i db" "goal_row i (db\<lparr>db_nodes := ns\<rparr>) = goal_row i db"
  "load_graph i (db\<lparr>db_tasks := ts\<rparr>) = load_graph i db"
  "node_row k (db\<lparr>db_tasks := ts\<rparr>) = node_row k db"
  by (simp_all add: goal_row_def load_graph_def node_row_def)

lemma goal_row_node_writes [frame_simps]:
  "goal_row i (clear_node_agent_pin j n db) = goal_row i db"
  "goal_row i (stamp_node_retry j n t db) = goal_row i db"
  "goal_row i (update_node j n st tk out a db) = goal_row i db"
  "goal_row i (set_node_desc j n d db) = goal_row i db"
  by (simp_all add: node_write_defs frame_simps)

lemma load_graph_goal_writes [frame_simps]:
  "load_graph i (set_blocked ts j r db) = load_graph i db"
  "load_graph i (set_waiting_on_capacity ts j r t db) = load_graph i db"
  "load_graph i (set_status ts j st db) = load_graph i db"
  "load_graph i (set_summary ts j sm db) = load_graph i db"
  by (simp_all add: goal_write_defs frame_simps)

lemma handle_capacity_cases:
  assumes row: "goal_row i db = Some r"
    and waits_def: "waits = unwrap_or (g_capacity_budget r) (max_capacity_waits_per_goal cfg)"
  shows "\<exists>r'. goal_row i (handle_capacity_exhaustion env (row_to_goal r) n art cfg db) = Some r' \<and>
    (g_status r' = ''blocked'' \<and> g_capacity_waits r' = g_capacity_waits r \<and>
       load_graph i (handle_capacity_exhaustion env (row_to_goal r) n art cfg db) = load_graph i db \<or>
     g_capacity_waits r < waits \<and> g_status r' = ''waiting_on_capacity'' \<and>
       g_capacity_waits r' = g_capacity_waits r + 1 \<and>
       (\<exists>t. g_retry_at r' = Some t \<and>
         (\<exists>pin. load_graph i (handle_capacity_exhaustion env (row_to_goal r) n art cfg db) =
           set_in_graph (\<lambda>x. x\<lparr>nstatus := NsPending, nretry_at := Some t\<rparr>) n
             (if pin then set_in_graph (\<lambda>x. x\<lparr>nagent := '''', nstatus := NsPending\<rparr>) n (load_graph i db)
              else load_graph i db))))"
proof -
  have i: "g_id r = i" using row by (rule goals.get_key)
  let ?g = "row_to_goal r"
  let ?precise = "Option.bind (Option.bind art (se_read_file env)) parse_earliest_recovery_ms"
  let ?el = "num_minutes (se_now env - unwrap_or (se_parse_ts env (g_created_at r)) (se_now env))"
  show ?thesis
  proof (cases "g_capacity_waits r \<ge> waits \<or> ?el \<ge> int (unwrap_or (g_capacity_minutes r) (max_capacity_wait_minutes cfg))")
    case True
    then show ?thesis using row
      by (simp add: handle_capacity_exhaustion_def Let_def waits_def frame_simps i
          set_blocked_def goals.get_upd)
  next
    case False
    then have w: "g_capacity_waits r < waits" by auto
    show ?thesis
    proof (cases ?precise)
      case None
      with False w row show ?thesis
        by (simp add: handle_capacity_exhaustion_def Let_def waits_def frame_simps i
            set_waiting_on_capacity_def goals.get_upd load_graph_stamp load_graph_clear_pin)
          blast
    next
      case (Some ms)
      with False w row show ?thesis
        by (simp add: handle_capacity_exhaustion_def Let_def waits_def frame_simps i
            set_waiting_on_capacity_def goals.get_upd load_graph_stamp)
          blast
    qed
  qed
qed

text \<open>A rate-limited node either puts its goal on hold or blocks it: a hold counts against the
  goal's waits, never beyond its allowance, and leaves the node pending with the retry time of the
  goal; with the allowance spent the goal is blocked and its graph untouched.\<close>

theorem capacity_wait_budget:
  assumes row: "goal_row i db = Some r"
    and db': "db' = handle_capacity_exhaustion env (row_to_goal r) n art cfg db"
  shows "\<exists>r'. goal_row i db' = Some r' \<and>
    g_capacity_waits r' \<le> max (g_capacity_waits r) (unwrap_or (g_capacity_budget r) (max_capacity_waits_per_goal cfg)) \<and>
    (g_status r' = ''blocked'' \<and> load_graph i db' = load_graph i db \<or>
     g_status r' = ''waiting_on_capacity'' \<and> g_capacity_waits r' = g_capacity_waits r + 1 \<and>
     (\<forall>x \<in> set (load_graph i db'). nid x = n \<longrightarrow> nstatus x = NsPending \<and> nretry_at x = g_retry_at r')) \<and>
    (unwrap_or (g_capacity_budget r) (max_capacity_waits_per_goal cfg) \<le> g_capacity_waits r \<longrightarrow>
       g_status r' = ''blocked'')"
proof -
  obtain r' where r': "goal_row i db' = Some r'" and alt:
    "g_status r' = ''blocked'' \<and> g_capacity_waits r' = g_capacity_waits r \<and> load_graph i db' = load_graph i db \<or>
     g_capacity_waits r < unwrap_or (g_capacity_budget r) (max_capacity_waits_per_goal cfg) \<and>
       g_status r' = ''waiting_on_capacity'' \<and> g_capacity_waits r' = g_capacity_waits r + 1 \<and>
       (\<exists>t. g_retry_at r' = Some t \<and> (\<exists>pin. load_graph i db' =
           set_in_graph (\<lambda>x. x\<lparr>nstatus := NsPending, nretry_at := Some t\<rparr>) n
             (if pin then set_in_graph (\<lambda>x. x\<lparr>nagent := '''', nstatus := NsPending\<rparr>) n (load_graph i db)
              else load_graph i db)))"
    using handle_capacity_cases [OF row refl, where env = env and n = n and art = art and cfg = cfg]
    unfolding db' by blast
  have stamped: "nstatus x = NsPending \<and> nretry_at x = Some t"
    if "load_graph i db' = set_in_graph (\<lambda>x. x\<lparr>nstatus := NsPending, nretry_at := Some t\<rparr>) n g"
      "x \<in> set (load_graph i db')" "nid x = n" for x t g
  proof -
    from that(1,2) have "x \<in> set (set_in_graph (\<lambda>x. x\<lparr>nstatus := NsPending, nretry_at := Some t\<rparr>) n g)"
      by (simp only:)
    from set_set_in_graph [OF this _ that(3)] show ?thesis by auto
  qed
  from alt show ?thesis
  proof (elim disjE conjE exE)
    assume "g_status r' = ''blocked''" "g_capacity_waits r' = g_capacity_waits r" "load_graph i db' = load_graph i db"
    with r' show ?thesis by simp
  next
    fix t pin
    assume w: "g_capacity_waits r < unwrap_or (g_capacity_budget r) (max_capacity_waits_per_goal cfg)"
      "g_status r' = ''waiting_on_capacity''" "g_capacity_waits r' = g_capacity_waits r + 1" "g_retry_at r' = Some t"
      and l: "load_graph i db' =
           set_in_graph (\<lambda>x. x\<lparr>nstatus := NsPending, nretry_at := Some t\<rparr>) n
             (if pin then set_in_graph (\<lambda>x. x\<lparr>nagent := '''', nstatus := NsPending\<rparr>) n (load_graph i db)
              else load_graph i db)"
    have "\<forall>x \<in> set (load_graph i db'). nid x = n \<longrightarrow> nstatus x = NsPending \<and> nretry_at x = g_retry_at r'"
      using stamped [OF l] w(4) by metis
    with r' w show ?thesis by (intro exI [of _ r'] conjI disjI2) simp_all
  qed
qed

theorem capacity_wait_budget_witness:
  "\<exists>r'. goal_row ''g'' (handle_capacity_exhaustion demo_env (row_to_goal demo_goal) ''a'' None
      default_config demo_db) = Some r' \<and> g_status r' = ''blocked''"
  using capacity_wait_budget [OF demo_rows(1) refl, of demo_env "''a''" None default_config]
  by (auto simp: demo_goal_def)

section \<open>The retry time in an agent's output\<close>

lemma find_sub_at:
  "(\<And>k. k < length pre \<Longrightarrow> \<not> starts_with p (drop k (pre @ p @ s))) \<Longrightarrow>
   find_sub p (pre @ p @ s) = Some (length pre)"
proof (induction pre)
  case Nil
  have "starts_with p (p @ s)" by (rule starts_with_append)
  then show ?case by (cases "p @ s") simp_all
next
  case (Cons c pre)
  from Cons.prems [of 0] have "\<not> starts_with p (c # pre @ p @ s)" by simp
  moreover have "find_sub p (pre @ p @ s) = Some (length pre)"
    using Cons.prems [of "Suc _"] by (intro Cons.IH) simp
  ultimately show ?case by simp
qed

text \<open>The scheduler finds the number behind the words of the pool agent, whatever text follows it.\<close>

lemma recovery_text_read:
  assumes "int ms \<le> i64_max" and "post = [] \<or> \<not> is_digit (hd post)"
  shows "parse_earliest_recovery_ms (''single-pool: rate limited '' @ [CHR 0xE2, CHR 0x80, CHR 0x94] @
     '' every keyed provider is exhausted or benched, earliest recovery at '' @ dec_nat ms @ post) = Some (int ms)"
proof -
  let ?pre = "''single-pool: rate limited '' @ [CHR 0xE2, CHR 0x80, CHR 0x94] @
     '' every keyed provider is exhausted or benched, ''"
  have "find_sub ''earliest recovery at '' (?pre @ ''earliest recovery at '' @ dec_nat ms @ post) =
      Some (length ?pre)"
    by (simp add: starts_with_def)
  moreover have "takeWhile is_digit (dec_nat ms @ post) = dec_nat ms"
    using dec_nat_digits [of ms] assms(2)
    by (cases post) (auto simp: takeWhile_append list_all_iff takeWhile_eq_all_conv)
  ultimately show ?thesis
    using assms(1) dec_nat_nonempty [of ms]
    by (simp add: parse_earliest_recovery_ms_def parse_i64_digits_def Let_def)
qed

section \<open>Supervisor fixes are bounded\<close>

text \<open>A goal gets at most five supervisor fixes: a patch that is applied counts one, and with five
  spent the goal is blocked without running an agent or touching its graph.\<close>

theorem supervisor_fix_bound:
  assumes row: "goal_row i db = Some r"
    and run: "run_supervisor_or_block env (row_to_goal r) n t h db = (res, db')"
  shows "\<exists>r'. goal_row i db' = Some r' \<and> g_supervisor_patches r' \<le> max 5 (g_supervisor_patches r) \<and>
    (5 \<le> g_supervisor_patches r \<longrightarrow>
       g_status r' = ''blocked'' \<and> db_tasks db' = db_tasks db \<and> db_nodes db' = db_nodes db)"
proof -
  have i: "g_id r = i" using row by (rule goals.get_key)
  show ?thesis
  proof (cases "5 \<le> g_supervisor_patches r")
    case True
    with run row i show ?thesis
      by (auto simp: run_supervisor_or_block_def default_config_def block_goal_def set_blocked_def
          frame_simps goals.get_upd)
  next
    case False
    with run row i show ?thesis
      by (auto simp: run_supervisor_or_block_def default_config_def block_goal_def set_blocked_def
          frame_simps goals.get_upd Let_def set_status_def save_graph_def
          bump_supervisor_patches_def read_counter_def split: prod.splits sum.splits if_splits)
  qed
qed

theorem supervisor_fix_bound_witness:
  "\<exists>res db'. run_supervisor_or_block demo_env (row_to_goal demo_goal) ''a'' default_table
      \<lparr>detected_authed = {}, rate_limited_agents = {}\<rparr> demo_db = (res, db') \<and>
     db_nodes db' = [demo_node] \<and> (\<exists>r'. goal_row ''g'' db' = Some r' \<and> g_status r' = ''blocked'')"
proof -
  obtain res db' where run: "run_supervisor_or_block demo_env (row_to_goal demo_goal) ''a'' default_table
      \<lparr>detected_authed = {}, rate_limited_agents = {}\<rparr> demo_db = (res, db')" by force
  have "5 \<le> g_supervisor_patches demo_goal" "db_nodes demo_db = [demo_node]"
    by (simp_all add: demo_goal_def demo_db_def)
  with supervisor_fix_bound [OF demo_rows(1) run] run show ?thesis by auto
qed

section \<open>A merge is only ever requested\<close>

definition wants_merge :: "goal \<Rightarrow> task_graph \<Rightarrow> string \<Rightarrow> string list \<Rightarrow> merge_row \<Rightarrow> bool" where
  "wants_merge g graph node_id deps m \<longleftrightarrow>
     pm_status m = ''pending'' \<and> pm_goal m = g_id g \<and> pm_review_node m = node_id \<and>
     pm_dep_node m \<in> set deps \<and> pm_resolved_at m = None \<and>
     (\<exists>dep tid. find_node (pm_dep_node m) graph = Some dep \<and> nworktree dep \<and> nstatus dep = NsDone \<and>
        ntask dep = Some tid \<and> pm_branch m = ''single/task-'' @ dec_int tid)"

lemma request_merge_effect:
  "find_node d graph = Some dep \<Longrightarrow> nworktree dep \<Longrightarrow> nstatus dep = NsDone \<Longrightarrow> ntask dep = Some tid \<Longrightarrow>
   \<exists>m. db_merges (request_merge env g n d tid db) = db_merges db @ [m] \<and> wants_merge g graph n [d] m \<and>
     db_goals (request_merge env g n d tid db) = db_goals db \<and>
     db_nodes (request_merge env g n d tid db) = db_nodes db \<and>
     db_sessions (request_merge env g n d tid db) = db_sessions db \<and>
     db_tasks (request_merge env g n d tid db) = db_tasks db"
  by (simp add: request_merge_def merge_request_def Let_def frame_simps wants_merge_def)

lemma request_merges_effect:
  "\<exists>new. db_merges (request_merges env g graph n ds db) = db_merges db @ new \<and>
     list_all (wants_merge g graph n ds) new \<and>
     db_goals (request_merges env g graph n ds db) = db_goals db \<and>
     db_nodes (request_merges env g graph n ds db) = db_nodes db \<and>
     db_sessions (request_merges env g graph n ds db) = db_sessions db \<and>
     db_tasks (request_merges env g graph n ds db) = db_tasks db"
proof (induction ds arbitrary: db)
  case (Cons d ds)
  let ?db = "case find_node d graph of None \<Rightarrow> db | Some dep \<Rightarrow>
      if \<not> nworktree dep \<or> nstatus dep \<noteq> NsDone then db
      else (case ntask dep of None \<Rightarrow> db | Some tid \<Rightarrow> request_merge env g n d tid db)"
  have mono: "wants_merge g graph n xs m \<Longrightarrow> set xs \<subseteq> set (d # ds) \<Longrightarrow> wants_merge g graph n (d # ds) m" for xs m
    by (auto simp: wants_merge_def)
  have one: "\<exists>ms. db_merges ?db = db_merges db @ ms \<and> list_all (wants_merge g graph n (d # ds)) ms \<and>
      db_goals ?db = db_goals db \<and> db_nodes ?db = db_nodes db \<and> db_sessions ?db = db_sessions db \<and>
      db_tasks ?db = db_tasks db"
  proof (cases "\<exists>dep tid. find_node d graph = Some dep \<and> nworktree dep \<and> nstatus dep = NsDone \<and> ntask dep = Some tid")
    case True
    then obtain dep tid where d: "find_node d graph = Some dep" "nworktree dep" "nstatus dep = NsDone"
      "ntask dep = Some tid" by blast
    from request_merge_effect [OF d, of env g n db] obtain m where
      m: "db_merges (request_merge env g n d tid db) = db_merges db @ [m]" "wants_merge g graph n [d] m"
      "db_goals (request_merge env g n d tid db) = db_goals db"
      "db_nodes (request_merge env g n d tid db) = db_nodes db"
      "db_sessions (request_merge env g n d tid db) = db_sessions db"
      "db_tasks (request_merge env g n d tid db) = db_tasks db"
      by blast
    then show ?thesis using d mono [OF m(2)] by (intro exI [of _ "[m]"]) simp
  next
    case False
    then have "?db = db" by (auto split: option.splits)
    then show ?thesis by simp
  qed
  from Cons.IH [of ?db] obtain new where
    new: "db_merges (request_merges env g graph n ds ?db) = db_merges ?db @ new"
    "list_all (wants_merge g graph n ds) new"
    "db_goals (request_merges env g graph n ds ?db) = db_goals ?db"
    "db_nodes (request_merges env g graph n ds ?db) = db_nodes ?db"
    "db_sessions (request_merges env g graph n ds ?db) = db_sessions ?db"
    "db_tasks (request_merges env g graph n ds ?db) = db_tasks ?db"
    by blast
  from one obtain ms where ms: "db_merges ?db = db_merges db @ ms" "list_all (wants_merge g graph n (d # ds)) ms"
      "db_goals ?db = db_goals db" "db_nodes ?db = db_nodes db" "db_sessions ?db = db_sessions db"
      "db_tasks ?db = db_tasks db" by blast
  have "list_all (wants_merge g graph n (d # ds)) new"
    using new(2) mono unfolding list_all_iff by (metis set_subset_Cons)
  with new ms show ?case
    by (intro exI [of _ "ms @ new"]) (simp only: request_merges.simps append_assoc list_all_append simp_thms)
qed simp

text \<open>Auto-merge never merges: it leaves goals, graphs, sessions and tasks alone and only queues
  pending confirmations, one per dependency of the finished review node that is done in its own
  worktree, with that task's branch; without the goal's opt-in it queues nothing.\<close>

theorem auto_merge_only_requests:
  assumes "db' = maybe_auto_merge env g n db"
  shows "db_goals db' = db_goals db \<and> db_nodes db' = db_nodes db \<and> db_sessions db' = db_sessions db \<and>
    db_tasks db' = db_tasks db \<and>
    (\<exists>new. db_merges db' = db_merges db @ new \<and>
       list_all (\<lambda>m. g_auto_merge g \<and> (\<exists>review. find_node n (load_graph (g_id g) db) = Some review \<and>
           nkind review = NkReview \<and> wants_merge g (load_graph (g_id g) db) n (ndeps review) m)) new)"
proof -
  let ?graph = "load_graph (g_id g) db"
  show ?thesis
  proof (cases "g_auto_merge g \<and> se_is_repo env (load_session_cwd db (g_session g)) \<and>
      (\<exists>r. find_node n ?graph = Some r \<and> nkind r = NkReview)")
    case True
    then obtain r where r: "find_node n ?graph = Some r" "nkind r = NkReview" by blast
    with True assms have db': "db' = request_merges env g ?graph n (ndeps r) db"
      by (simp add: maybe_auto_merge_def Let_def)
    from request_merges_effect [of env g ?graph n "ndeps r" db] r True show ?thesis
      unfolding db' by (auto simp: list_all_iff)
  next
    case False
    then have "db' = db" using assms by (auto simp: maybe_auto_merge_def Let_def split: option.splits)
    then show ?thesis by simp
  qed
qed

theorem auto_merge_only_requests_witness:
  "db_merges (maybe_auto_merge demo_env (row_to_goal demo_goal) ''a'' demo_db) = [] \<and>
   db_nodes (maybe_auto_merge demo_env (row_to_goal demo_goal) ''a'' demo_db) = [demo_node]"
proof -
  have "\<not> g_auto_merge (row_to_goal demo_goal)" by (simp add: demo_goal_def row_to_goal_def)
  moreover have "db_merges demo_db = []" "db_nodes demo_db = [demo_node]"
    by (simp_all add: demo_db_def empty_coord_db_def)
  ultimately show ?thesis
    using auto_merge_only_requests [OF refl, of demo_env "row_to_goal demo_goal" "''a''" demo_db]
    by (auto simp: list_all_iff)
qed

section \<open>The careful loop ends\<close>

text \<open>One iteration of \<open>single loop\<close> on the database: the dispatch is counted, the agent runs, its
  output settles the node.\<close>

definition careful_round :: "shell_env \<times> string option \<Rightarrow> string \<Rightarrow> string \<Rightarrow> coord_db \<Rightarrow> coord_db" where
  "careful_round rnd i n db =
     (let db = snd (bump_dispatches (se_ts (fst rnd)) i db)
      in case goal_get i db of
           None \<Rightarrow> db
         | Some g \<Rightarrow> settle_careful_node (fst rnd) g n (snd rnd) db)"

lemma settle_careful_row:
  assumes "goal_row i db = Some r"
  shows "\<exists>r'. goal_row i (settle_careful_node env (row_to_goal r) n art db) = Some r' \<and>
    g_dispatches r' = g_dispatches r \<and> g_max_dispatches r' = g_max_dispatches r \<and>
    (g_status r' = ''done'' \<or> g_dispatches r < g_max_dispatches r)"
proof -
  have i: "g_id r = i" using assms by (rule goals.get_key)
  show ?thesis using assms
    by (auto simp: settle_careful_node_def Let_def frame_simps i set_status_def set_summary_def
        goals.get_upd)
qed

text \<open>A careful loop stops: within as many iterations as its dispatch cap leaves, whatever the
  agent prints and at least after one, the goal is done.\<close>

theorem careful_loop_ends:
  assumes "goal_row i db = Some r" and "rounds \<noteq> []"
    and "g_max_dispatches r \<le> g_dispatches r + length rounds"
  shows "\<exists>k \<in> {1..length rounds}. \<exists>r'.
    goal_row i (fold (\<lambda>rnd. careful_round rnd i n) (take k rounds) db) = Some r' \<and> g_status r' = ''done''"
  using assms
proof (induction rounds arbitrary: db r)
  case (Cons rnd rounds)
  let ?db = "snd (bump_dispatches (se_ts (fst rnd)) i db)"
  let ?r = "r\<lparr>g_dispatches := g_dispatches r + 1, g_updated_at := se_ts (fst rnd)\<rparr>"
  have row: "goal_row i ?db = Some ?r"
    using Cons.prems(1) by (simp add: bump_dispatches_def Let_def goals.get_upd)
  have rnd: "careful_round rnd i n db = settle_careful_node (fst rnd) (row_to_goal ?r) n (snd rnd) ?db"
    using row by (simp add: careful_round_def goal_get_def)
  from settle_careful_row [OF row, of "fst rnd" n "snd rnd"] obtain r' where
    r': "goal_row i (careful_round rnd i n db) = Some r'" "g_dispatches r' = g_dispatches r + 1"
      "g_max_dispatches r' = g_max_dispatches r"
      "g_status r' = ''done'' \<or> g_dispatches r + 1 < g_max_dispatches r"
    unfolding rnd by auto
  show ?case
  proof (cases "g_status r' = ''done''")
    case True
    with r'(1) show ?thesis by (intro bexI [of _ 1]) auto
  next
    case False
    with r'(4) Cons.prems(3) have "rounds \<noteq> []" by auto
    from Cons.IH [OF r'(1) this] r'(2,3) Cons.prems(3) obtain k r'' where
      k: "k \<in> {1..length rounds}"
      "goal_row i (fold (\<lambda>rnd. careful_round rnd i n) (take k rounds) (careful_round rnd i n db)) = Some r''"
      "g_status r'' = ''done''" by auto
    then show ?thesis by (intro bexI [of _ "Suc k"]) auto
  qed
qed simp

theorem careful_loop_ends_witness:
  "\<exists>r'. goal_row ''g'' (careful_round (demo_env, None) ''g'' ''a'' demo_db) = Some r' \<and> g_status r' = ''done''"
  using careful_loop_ends [OF demo_rows(1), of "[(demo_env, None)]" "''a''"]
  by (auto simp: demo_goal_def)

section \<open>A started node has a live task\<close>

lemma resumed_frames:
  fixes ts sid gid k detail b
  assumes "node_row (g, n) db = Some nr" "goal_row g db = Some r"
  defines "db' \<equiv> if b then log_event ts sid gid k detail (clear_waiting_on_capacity ts g db) else db"
  shows "db_tasks db' = db_tasks db" "node_row (g, n) (db'\<lparr>db_tasks := tasks\<rparr>) = Some nr"
    "\<exists>r0. goal_row g (db'\<lparr>db_tasks := tasks\<rparr>) = Some r0 \<and> g_dispatches r0 = g_dispatches r"
  using assms by (simp_all add: db'_def clear_waiting_on_capacity_def frame_simps goals.get_upd)

lemma refused_effect:
  fixes ts sid gid k detail
  assumes "node_row (g, n) db = Some nr" "goal_row g db = Some r"
  defines "db' \<equiv> log_event ts sid gid k detail (update_node g n NsFailed None None None db)"
  shows "\<exists>nr'. node_row (g, n) db' = Some nr' \<and> nr_status nr' = ''failed''" "db_tasks db' = db_tasks db"
    "goal_row g db' = Some r"
  using assms(1,2) by (simp_all add: db'_def frame_simps update_node_def node_rows.get_upd nr_key_def)

lemma started_effect:
  fixes ts sid gid k detail tid
  assumes "node_row (g, n) db = Some nr" "goal_row g db = Some r"
  defines "db1 \<equiv> update_node g n NsRunning (Some tid) None None db"
  defines "db2 \<equiv> goal_upd g (\<lambda>r. r\<lparr>g_dispatches := g_dispatches r + 1, g_updated_at := ts\<rparr>) db1"
  defines "db' \<equiv> log_event ts sid gid k detail db2"
  shows "bump_dispatches ts g db1 = (Inr (g_dispatches r + 1), db2)"
    "node_row (g, n) db' = Some (nr\<lparr>nr_status := ''running'', nr_task := Some tid\<rparr>)" "db_tasks db' = db_tasks db"
    "map_option g_dispatches (goal_row g db') = Some (g_dispatches r + 1)"
proof -
  have g1: "goal_row g db1 = Some r" using assms(2) by (simp add: db1_def frame_simps)
  then show "bump_dispatches ts g db1 = (Inr (g_dispatches r + 1), db2)"
    by (simp add: db2_def bump_dispatches_def Let_def read_counter_def goals.get_upd)
  show "node_row (g, n) db' = Some (nr\<lparr>nr_status := ''running'', nr_task := Some tid\<rparr>)" "db_tasks db' = db_tasks db"
    using assms(1) by (simp_all add: db'_def db2_def db1_def frame_simps update_node_def node_rows.get_upd nr_key_def coalesce_def)
  show "map_option g_dispatches (goal_row g db') = Some (g_dispatches r + 1)"
    using g1 by (simp add: db'_def db2_def frame_simps goals.get_upd)
qed

text \<open>C2: what the scheduler starts it can find again: after a dispatch the node is running with a
  task that is live, or, when the dispatcher refuses the agent, failed with the task table as it was;
  the dispatch is counted in the first case, and no other task changes.\<close>

theorem dispatch_backs_node:
  assumes disp: "se_dispatch env = real_dispatch known detected ts seq"
    and n: "find_node n graph = Some x" and row: "node_row (g_id g, n) db = Some nr"
    and goal: "goal_row (g_id g) db = Some r"
  shows "\<exists>db'. run_dispatch env cfg g graph n a e w db = (Inr (), db') \<and>
    (\<forall>i k. find (\<lambda>k. tk_id k = i) (db_tasks db) = Some k \<longrightarrow> find (\<lambda>k. tk_id k = i) (db_tasks db') = Some k) \<and>
    (\<exists>nr'. node_row (g_id g, n) db' = Some nr' \<and>
      (nr_status nr' = ''running'' \<and> task_live db' nr' \<and> known a \<and>
         map_option g_dispatches (goal_row (g_id g) db') = Some (g_dispatches r + 1) \<or>
       nr_status nr' = ''failed'' \<and> db_tasks db' = db_tasks db \<and>
         map_option g_dispatches (goal_row (g_id g) db') = Some (g_dispatches r)))"
proof -
  let ?db0 = "if g_status g = GsWaitingOnCapacity then
       log_event (se_ts env) (g_session g) (Some (g_id g)) EkCapacityResumed
         (n @ '': capacity window freed, resuming'') (clear_waiting_on_capacity (se_ts env) (g_id g) db)
     else db"
  let ?o = "dispatch_opts env cfg g graph x a e w ?db0"
  obtain answer tasks where d: "real_dispatch known detected ts seq ?o (db_tasks db) = (answer, tasks)" by force
  have kept: "find (\<lambda>k. tk_id k = i) tasks = Some k" if "find (\<lambda>k. tk_id k = i) (db_tasks db) = Some k" for i k
    using real_dispatcher.keeps_tasks [OF d that] .
  let ?db1 = "?db0\<lparr>db_tasks := tasks\<rparr>"
  have t0: "db_tasks ?db0 = db_tasks db" and nr: "node_row (g_id g, n) ?db1 = Some nr"
    using resumed_frames(1,2) [OF row goal] .
  obtain r0 where r0: "goal_row (g_id g) ?db1 = Some r0" "g_dispatches r0 = g_dispatches r"
    using resumed_frames(3) [OF row goal] by blast
  show ?thesis
  proof (cases answer)
    case (Inl err)
    then have "tasks = db_tasks db" using real_dispatcher.refused d by metis
    moreover have "run_dispatch env cfg g graph n a e w db = (Inr (), log_event (se_ts env) (g_session g) (Some (g_id g)) EkNodeFailed
        (n @ '': dispatch failed: '' @ err) (update_node (g_id g) n NsFailed None None None ?db1))"
      using n d Inl t0 unfolding run_dispatch_def by (simp add: disp Let_def del: if_split)
    ultimately show ?thesis
      using refused_effect [OF nr r0(1), of "se_ts env" "g_session g" "Some (g_id g)" EkNodeFailed "n @ '': dispatch failed: '' @ err"] r0(2)
      by (auto simp del: if_split)
  next
    case (Inr tid)
    let ?detail = "n @ '' '' @ [CHR 0xE2, CHR 0x86, CHR 0x92] @ '' '' @ a @ '' (#'' @ dec_int tid @ '')''"
    note effect = started_effect(2-4) [OF nr r0(1), of "se_ts env" "g_session g" "Some (g_id g)" EkNodeStarted ?detail tid]
    let ?db' = "log_event (se_ts env) (g_session g) (Some (g_id g)) EkNodeStarted ?detail
        (goal_upd (g_id g) (\<lambda>r. r\<lparr>g_dispatches := g_dispatches r + 1, g_updated_at := se_ts env\<rparr>)
          (update_node (g_id g) n NsRunning (Some tid) None None ?db1))"
    have "run_dispatch env cfg g graph n a e w db = (Inr (), ?db')"
      using n d Inr t0 started_effect(1) [OF nr r0(1)] r0(2) unfolding run_dispatch_def by (simp add: disp Let_def del: if_split)
    moreover have "task_live ?db' (nr\<lparr>nr_status := ''running'', nr_task := Some tid\<rparr>)"
      using real_dispatcher.new_task_live [OF d [unfolded Inr]] effect(2) by (auto simp: task_live_def task_status_def simp del: if_split)
    moreover have "known a" using d Inr by (auto simp: real_dispatch_def dispatch_opts_def split: if_splits)
    ultimately show ?thesis using kept effect r0(2) by (auto simp del: if_split)
  qed
qed

theorem dispatch_backs_node_witness:
  "\<exists>db' nr'. run_dispatch demo_env default_config (row_to_goal demo_goal) [plain_node ''a'' []] ''a'' ''grok''
      Standard False demo_db = (Inr (), db') \<and> node_row (''g'', ''a'') db' = Some nr' \<and>
    (nr_status nr' = ''running'' \<and> task_live db' nr' \<or> nr_status nr' = ''failed'')"
proof -
  have "se_dispatch demo_env = real_dispatch (\<lambda>_. True) (\<lambda>_. True) ''t1'' 0" by (simp add: demo_env_def)
  moreover have "find_node ''a'' [plain_node ''a'' []] = Some (plain_node ''a'' [])"
    by (simp add: find_node_def plain_node_def)
  moreover have "g_id (row_to_goal demo_goal) = ''g''" by (simp add: demo_goal_def)
  ultimately show ?thesis
    using dispatch_backs_node [of demo_env "\<lambda>_. True" "\<lambda>_. True" "''t1''" 0 "''a''" "[plain_node ''a'' []]"
        "plain_node ''a'' []" "row_to_goal demo_goal" demo_db demo_node demo_goal default_config "''grok''" Standard False]
      demo_rows
    by auto
qed

section \<open>A spent capacity allowance keeps the slot\<close>

text \<open>When the allowance for capacity waits is spent, the goal is blocked but its node stays
  running on the finished task: the slot stays counted, and the next tick settles it again and logs
  another block.\<close>

theorem capacity_block_keeps_slot:
  assumes row: "find (\<lambda>r. nr_task r = Some t \<and> nr_status r = ''running'') (db_nodes db) = Some nr"
    and task: "task_get t db = Inr (Some k)" "tk_status k \<noteq> ''completed''" "tk_rate_limited k \<noteq> 0"
    and goal: "goal_row (nr_goal nr) db = Some r" "g_mode r = ''auto''"
    and spent: "unwrap_or (g_capacity_budget r) (max_capacity_waits_per_goal cfg) \<le> g_capacity_waits r"
  shows "\<exists>db'. settle_finished_node env cfg tab h t db = (Inr (), db') \<and>
    map_option g_status (goal_row (nr_goal nr) db') = Some ''blocked'' \<and>
    build_capacity env db' = build_capacity env db \<and> finished_tasks db' = finished_tasks db \<and>
    length (db_events db') = length (db_events db) + 1"
proof -
  have i: "g_id r = nr_goal nr" using goal(1) by (rule goals.get_key)
  have "parse_or goal_mode_parse GmAuto ''auto'' = GmAuto"
    using parse_or_str(4) [of GmAuto GmAuto] by simp
  then have mode: "g_mode (row_to_goal r) = GmAuto" using goal(2) by (simp add: row_to_goal_def)
  have "settle_finished_node env cfg tab h t db =
      (Inr (), handle_capacity_exhaustion env (row_to_goal r) (nr_id nr) (tk_artifact k) cfg db)"
    using row task goal mode by (simp add: settle_finished_node_def goal_get_def)
  moreover obtain reason where "handle_capacity_exhaustion env (row_to_goal r) (nr_id nr) (tk_artifact k) cfg db =
      block_goal env (row_to_goal r) reason db"
    using spent by (simp add: handle_capacity_exhaustion_def block_goal_def Let_def)
  moreover have "db_nodes (block_goal env (row_to_goal r) reason db) = db_nodes db"
    "db_tasks (block_goal env (row_to_goal r) reason db) = db_tasks db"
    by (simp_all add: block_goal_def set_blocked_def frame_simps)
  moreover have "map_option g_status (goal_row (nr_goal nr) (block_goal env (row_to_goal r) reason db)) = Some ''blocked''"
    using goal(1) i by (simp add: block_goal_def set_blocked_def frame_simps goals.get_upd)
  moreover have "length (db_events (block_goal env (row_to_goal r) reason db)) = length (db_events db) + 1"
    by (simp add: block_goal_def set_blocked_def log_event_def event_append_def Let_def frame_simps)
  moreover have "build_capacity env db1 = build_capacity env db2 \<and> finished_tasks db1 = finished_tasks db2"
    if "db_nodes db1 = db_nodes db2" "db_tasks db1 = db_tasks db2" for db1 db2
    unfolding build_capacity_def finished_tasks_def task_status_def Let_def that by simp
  ultimately show ?thesis by metis
qed

definition limited_task :: task_row where
  "limited_task = \<lparr>tk_id = 7, tk_agent = ''grok'', tk_status = ''failed'', tk_rate_limited = 1,
     tk_artifact = None, tk_updated_at = ''t0''\<rparr>"

theorem capacity_block_keeps_slot_witness:
  "\<exists>db'. settle_finished_node demo_env default_config default_table
       \<lparr>detected_authed = {}, rate_limited_agents = {}\<rparr> 7 (demo_db\<lparr>db_tasks := [limited_task]\<rparr>) = (Inr (), db') \<and>
     finished_tasks db' = [7] \<and> length (db_events db') = 1"
proof -
  let ?db = "demo_db\<lparr>db_tasks := [limited_task]\<rparr>"
  have row: "find (\<lambda>r. nr_task r = Some 7 \<and> nr_status r = ''running'') (db_nodes ?db) = Some demo_node"
    and task: "task_get 7 ?db = Inr (Some limited_task)"
    and goal: "goal_row (nr_goal demo_node) ?db = Some demo_goal"
    and fin: "finished_tasks ?db = [7]" "db_events ?db = []"
    by (simp_all add: demo_db_def demo_node_def demo_goal_def limited_task_def task_get_def task_statuses_def
        goal_row_def finished_tasks_def task_status_def empty_coord_db_def List.map_filter_def)
  have spent: "unwrap_or (g_capacity_budget demo_goal) (max_capacity_waits_per_goal default_config) \<le> g_capacity_waits demo_goal"
    and mode: "g_mode demo_goal = ''auto''"
    by (simp_all add: demo_goal_def)
  from capacity_block_keeps_slot [OF row task _ _ goal mode spent, of demo_env default_table
      "\<lparr>detected_authed = {}, rate_limited_agents = {}\<rparr>"] fin show ?thesis
    by (auto simp: limited_task_def)
qed

end
