(* ===== verification/Coordinator.thy ===== *)
theory Coordinator
  imports ShellFacts Sessions
begin

text \<open>
  The entry points of the coordinator, \<open>crates/single-runtime/src/coordinator/mod.rs\<close>: planning a
  goal, one pass over all goals, the clean stop and what a daemon start does with interrupted goals,
  the manual resume, and the callback for a finished task. \<open>coord_env\<close> adds to the shell's outside
  what \<open>load_env\<close> reads: the configuration, the routing table, and the registry that \<open>probe\<close> checks.
\<close>

section \<open>The entry points\<close>

record coord_env =
  ce_shell :: shell_env
  ce_cfg :: coordinator_config
  ce_table :: routing_table
  ce_registry :: "(string \<times> string) list"
  ce_on_path :: "string \<Rightarrow> bool"
  ce_cutoff :: string

definition load_env :: "coord_env \<Rightarrow> coord_db \<Rightarrow> coordinator_config \<times> routing_table \<times> pool_health" where
  "load_env ce db =
     (ce_cfg ce, ce_table ce,
      probe (ce_registry ce) (ce_on_path ce) (ce_cutoff ce)
        (map (\<lambda>k. (tk_agent k, tk_rate_limited k, tk_updated_at k)) (db_tasks db)))"

definition CAREFUL_INSTRUCTION :: string where
  "CAREFUL_INSTRUCTION = newline @ newline @
     ''Work toward this goal. When it is fully complete, reply with a line containing only DONE.''"

definition careful_node :: "coord_env \<Rightarrow> goal \<Rightarrow> string option \<Rightarrow> coord_db \<Rightarrow> node" where
  "careful_node ce g agent db =
     (let (cfg, t, h) = load_env ce db;
          pinned = (case agent of
              Some a \<Rightarrow> Some a
            | None \<Rightarrow> select_agent_with_prefer_pool t NkCode Standard h (prefer_pool cfg))
      in \<lparr>nid = ''s1'', ndesc = g_text g @ CAREFUL_INSTRUCTION, nkind = NkCode, neffort = Standard,
          nagent = unwrap_or pinned '''', ndeps = [], nstatus = NsPending, ntask = None, nattempts = 0,
          nworktree = False, noutput = None, nretry_at = None\<rparr>)"

definition plan_goal :: "coord_env \<Rightarrow> string \<Rightarrow> string option \<Rightarrow> coord_db \<Rightarrow> unit result \<times> coord_db" where
  "plan_goal ce goal_id agent db =
     (case goal_get goal_id db of
        None \<Rightarrow> (Inl ''no such goal'', db)
      | Some g \<Rightarrow>
          if load_graph goal_id db \<noteq> [] then (Inr (), db)
          else
            (let env = ce_shell ce;
                 (cfg, t, h) = load_env ce db;
                 cwd = (case session_get (g_session g) db of Some s \<Rightarrow> s_cwd s | None \<Rightarrow> ''.'');
                 (graph, db) =
                   (if g_mode g = GmCareful then
                      (Inr [careful_node ce g agent db],
                       log_event (se_ts env) (g_session g) (Some goal_id) EkPlan
                         ''careful mode: 1 iterating node'' db)
                    else
                      (let (planned, tasks) = brain_plan (se_brain env) (g_text g) cwd t h (prefer_pool cfg) (db_tasks db);
                           db = db\<lparr>db_tasks := tasks\<rparr>
                       in case planned of
                            Inl e \<Rightarrow> (Inl e, db)
                          | Inr gr \<Rightarrow>
                              (Inr (case agent of Some a \<Rightarrow> map (\<lambda>n. n\<lparr>nagent := a\<rparr>) gr | None \<Rightarrow> gr),
                               log_event (se_ts env) (g_session g) (Some goal_id) EkPlan
                                 (''planned '' @ dec_nat (length gr) @ '' node(s)'') db)))
             in case graph of
                  Inl e \<Rightarrow> (Inl e, db)
                | Inr gr \<Rightarrow>
                    (case save_graph (se_to_json env) (se_ts env) goal_id gr db of
                       (Inl e, db) \<Rightarrow> (Inl e, db)
                     | (Inr _, db) \<Rightarrow> (Inr (), set_status (se_ts env) goal_id GsRunning db))))"

definition drive :: "coord_env \<Rightarrow> coord_db \<Rightarrow> (unit result \<times> coord_db) option" where
  "drive ce db =
     (let db = ensure_coordinator_schema db; (cfg, t, h) = load_env ce db
      in tick (ce_shell ce) cfg t h db)"

text \<open>One turn of the loop of \<open>resume_interrupted\<close>; the goal is the copy read before the loop.\<close>

definition resume_one :: "coord_env \<Rightarrow> goal \<Rightarrow> coord_db \<Rightarrow> bool \<times> coord_db" where
  "resume_one ce g db =
     (let ts = se_ts (ce_shell ce);
          was_paused = (g_status g = GsPaused);
          graph = load_graph (g_id g) db;
          (touched, db) =
            (if graph = [] then
               (case plan_goal ce (g_id g) None db of
                  (Inr _, db) \<Rightarrow> (True, db)
                | (Inl e, db) \<Rightarrow>
                    (True, log_event ts (g_session g) (Some (g_id g)) EkBlocked
                       (g_id g @ '': re-plan failed on resume: '' @ e)
                       (set_blocked ts (g_id g) (''resume: re-plan failed: '' @ e) db)))
             else if \<not> is_all_terminal graph then
               (True, if was_paused then set_status ts (g_id g) GsRunning db else db)
             else if was_paused then (True, set_status ts (g_id g) GsRunning db)
             else (False, db))
      in (touched,
          if touched then
            log_event ts (g_session g) (Some (g_id g)) EkSessionResumed
              (g_id g @ '': resumed on daemon start'') db
          else db))"

fun resume_all :: "coord_env \<Rightarrow> goal list \<Rightarrow> coord_db \<Rightarrow> nat \<times> coord_db" where
  "resume_all ce [] db = (0, db)"
| "resume_all ce (g # gs) db =
     (let (touched, db) = resume_one ce g db; (n, db) = resume_all ce gs db
      in ((if touched then 1 else 0) + n, db))"

definition resume_interrupted :: "coord_env \<Rightarrow> coord_db \<Rightarrow> nat \<times> coord_db" where
  "resume_interrupted ce db =
     (let db = ensure_coordinator_schema db
      in resume_all ce (active_goals db @ list_by_status GsPaused db) db)"

definition pause_active_goals :: "string \<Rightarrow> coord_db \<Rightarrow> nat \<times> coord_db" where
  "pause_active_goals ts db = pause_all_active ts (ensure_coordinator_schema db)"

definition resume_goal :: "coord_env \<Rightarrow> string \<Rightarrow> coord_db \<Rightarrow> unit result \<times> coord_db" where
  "resume_goal ce goal_id db =
     (case goal_get goal_id db of
        None \<Rightarrow> (Inl ''no such goal'', db)
      | Some g \<Rightarrow>
          (let ts = se_ts (ce_shell ce);
               db = clear_node_retry_stamps goal_id (resume_status ts goal_id db);
               resumed = (\<lambda>db. (Inr (), log_event ts (g_session g) (Some goal_id) EkSessionResumed
                  (goal_id @ '': resumed via '' @ [CHR 0x60] @ ''single goal resume'' @ [CHR 0x60]) db))
           in if load_graph goal_id db = [] then
                (case plan_goal ce goal_id None db of
                   (Inl e, db) \<Rightarrow>
                     (Inl e, log_event ts (g_session g) (Some goal_id) EkBlocked
                        (goal_id @ '': re-plan failed on resume: '' @ e)
                        (set_blocked ts goal_id (''resume: re-plan failed: '' @ e) db))
                 | (Inr _, db) \<Rightarrow> resumed db)
              else resumed db))"

definition notify_task_finished ::
    "coord_env \<Rightarrow> int \<Rightarrow> coord_db \<Rightarrow> (unit result \<times> coord_db) option" where
  "notify_task_finished ce task_id db =
     (let db = ensure_coordinator_schema db; (cfg, t, h) = load_env ce db
      in on_task_finished (ce_shell ce) cfg t h task_id db)"

section \<open>A concrete start\<close>

definition demo_start :: coord_env where
  "demo_start = \<lparr>ce_shell = demo_env, ce_cfg = default_config, ce_table = default_table,
     ce_registry = [(''grok'', ''grok'')], ce_on_path = (\<lambda>_. True), ce_cutoff = ''t0''\<rparr>"

section \<open>Planning\<close>

lemma brain_plan_nonempty: "brain_plan env txt cwd t h prefer tasks = (Inr g, tasks') \<Longrightarrow> g \<noteq> []"
  by (auto simp: brain_plan_def parse_plan_def specs_to_graph_def Let_def
      split: option.splits prod.splits sum.splits if_splits)

lemma pinned_ids: "map nid (case a of Some x \<Rightarrow> map (\<lambda>n. n\<lparr>nagent := x\<rparr>) g | None \<Rightarrow> g) = map nid g"
  by (simp add: comp_def split: option.split)

text \<open>What a call of the planner does to the database, in one statement.\<close>

definition planned :: "string \<Rightarrow> goal_row \<Rightarrow> unit result \<Rightarrow> coord_db \<Rightarrow> coord_db \<Rightarrow> bool" where
  "planned i r res db db' \<longleftrightarrow>
     map g_id (db_goals db') = map g_id (db_goals db) \<and>
     (\<forall>j. j \<noteq> i \<longrightarrow> goal_row j db' = goal_row j db \<and> load_graph j db' = load_graph j db) \<and>
     (case res of
        Inl e \<Rightarrow> goal_row i db' = goal_row i db \<and> load_graph i db' = []
      | Inr _ \<Rightarrow> load_graph i db' \<noteq> [] \<and>
          (\<exists>r'. goal_row i db' = Some r' \<and> g_status r' = ''running'' \<and> g_text r' = g_text r \<and>
             g_dispatches r' = g_dispatches r))"

lemma goal_ids_upd: "(\<And>r. g_id (f r) = g_id r) \<Longrightarrow> map g_id (db_goals (goal_upd i f db)) = map g_id (db_goals db)"
  by (simp add: goal_upd_def map_update_where)

lemma running_text: "goal_status_str GsRunning = ''running''"
  by simp

lemma save_then_run:
  assumes row: "goal_row i db = Some r" and g: "g \<noteq> []"
    and saved: "save_graph js ts i g db = (Inr (), db1)"
  shows "planned i r (Inr ()) db (set_status ts i GsRunning db1)"
proof -
  have "distinct (map nid g)" using saved by (simp add: save_graph_def split: if_splits)
  from save_graph_saves [OF this, of js ts i db] saved have s: "load_graph i db1 = sort_key nid g"
    "\<forall>j. j \<noteq> i \<longrightarrow> load_graph j db1 = load_graph j db"
    "db_goals db1 = db_goals (goal_upd i (\<lambda>r. r\<lparr>g_plan_json := js g, g_updated_at := ts\<rparr>) db)" by auto
  then have row1: "goal_row k db1 = goal_row k (goal_upd i (\<lambda>r. r\<lparr>g_plan_json := js g, g_updated_at := ts\<rparr>) db)" for k
    by (simp add: goal_row_def)
  have "sort_key nid g \<noteq> []" using g by (metis length_0_conv length_sort)
  with s row row1 show ?thesis
    by (auto simp: planned_def set_status_def frame_simps goals.get_upd goal_ids_upd)
qed

lemma planned_after_tasks:
  assumes "planned i r res (log_event ts s gi k b (db\<lparr>db_tasks := tasks\<rparr>)) db'"
  shows "planned i r res db db'"
  using assms by (cases res) (simp_all add: planned_def frame_simps)

lemma planned_after_log:
  assumes "planned i r res (log_event ts s gi k b db) db'"
  shows "planned i r res db db'"
  using assms by (cases res) (simp_all add: planned_def frame_simps)

lemma plan_goal_planned:
  assumes row: "goal_row i db = Some r" and empty: "load_graph i db = []"
    and plan: "plan_goal ce i a db = (res, db')"
  shows "planned i r res db db'"
proof -
  let ?g = "row_to_goal r" and ?env = "ce_shell ce"
  have g: "goal_get i db = Some ?g" using row by (simp add: goal_get_def)
  have failed: "planned i r (Inl e) db (log_event ts s gi k b (db\<lparr>db_tasks := tasks\<rparr>))"
    "planned i r (Inl e) db (db\<lparr>db_tasks := tasks\<rparr>)" "planned i r (Inl e) db (log_event ts s gi k b db)"
    for e ts s gi k b tasks
    using row empty by (simp_all add: planned_def frame_simps)
  have save: "planned i r res db db'"
    if gr: "gr \<noteq> []" and out: "(case save_graph (se_to_json ?env) (se_ts ?env) i gr db1 of
           (Inl e, db) \<Rightarrow> (Inl e, db)
         | (Inr _, db) \<Rightarrow> (Inr (), set_status (se_ts ?env) i GsRunning db)) = (res, db')"
      and row1: "goal_row i db1 = Some r"
      and from1: "\<And>res. planned i r res db1 db' \<Longrightarrow> planned i r res db db'"
      and fail1: "\<And>e. planned i r (Inl e) db db1" for gr db1
  proof (cases "fst (save_graph (se_to_json ?env) (se_ts ?env) i gr db1)")
    case (Inl e)
    then have "snd (save_graph (se_to_json ?env) (se_ts ?env) i gr db1) = db1"
      by (simp add: save_graph_def Let_def split: if_splits)
    with Inl have "save_graph (se_to_json ?env) (se_ts ?env) i gr db1 = (Inl e, db1)"
      by (metis prod.collapse)
    with out fail1 show ?thesis by auto
  next
    case (Inr u)
    then obtain db2 where s: "save_graph (se_to_json ?env) (se_ts ?env) i gr db1 = (Inr (), db2)"
      by (metis prod.collapse unit.exhaust)
    with out from1 save_then_run [OF row1 gr s] show ?thesis by auto
  qed
  show ?thesis
  proof (cases "g_mode ?g = GmCareful")
    case True
    let ?db1 = "log_event (se_ts ?env) (g_session ?g) (Some i) EkPlan ''careful mode: 1 iterating node'' db"
    from plan g empty True have "(case save_graph (se_to_json ?env) (se_ts ?env) i [careful_node ce ?g a db] ?db1 of
           (Inl e, db) \<Rightarrow> (Inl e, db)
         | (Inr _, db) \<Rightarrow> (Inr (), set_status (se_ts ?env) i GsRunning db)) = (res, db')"
      by (simp add: plan_goal_def Let_def split: prod.splits)
    from save [OF _ this] row planned_after_log failed(3) show ?thesis
      by (simp add: frame_simps)
  next
    case False
    obtain cfg t h where env: "load_env ce db = (cfg, t, h)" by (metis prod_cases3)
    let ?cwd = "case session_get (g_session ?g) db of Some s \<Rightarrow> s_cwd s | None \<Rightarrow> ''.''"
    obtain ans tasks where bp: "brain_plan (se_brain ?env) (g_text ?g) ?cwd t h (prefer_pool cfg) (db_tasks db) = (ans, tasks)"
      by force
    show ?thesis
    proof (cases ans)
      case (Inl e)
      with plan g empty False env bp have "res = Inl e" "db' = db\<lparr>db_tasks := tasks\<rparr>"
        by (simp_all add: plan_goal_def Let_def del: row_to_goal_simps)
      with failed(2) show ?thesis by simp
    next
      case (Inr gr0)
      let ?gr = "case a of Some x \<Rightarrow> map (\<lambda>n. n\<lparr>nagent := x\<rparr>) gr0 | None \<Rightarrow> gr0"
      let ?db1 = "log_event (se_ts ?env) (g_session ?g) (Some i) EkPlan
          (''planned '' @ dec_nat (length gr0) @ '' node(s)'') (db\<lparr>db_tasks := tasks\<rparr>)"
      from plan g empty False env bp Inr have "(case save_graph (se_to_json ?env) (se_ts ?env) i ?gr ?db1 of
           (Inl e, db) \<Rightarrow> (Inl e, db)
         | (Inr _, db) \<Rightarrow> (Inr (), set_status (se_ts ?env) i GsRunning db)) = (res, db')"
        by (simp add: plan_goal_def Let_def del: row_to_goal_simps)
      moreover have "gr0 \<noteq> []" using bp Inr brain_plan_nonempty by metis
      then have "?gr \<noteq> []" by (simp split: option.split)
      ultimately show ?thesis
        using save [of ?gr ?db1] row planned_after_tasks failed(1) by (simp add: frame_simps)
    qed
  qed
qed

text \<open>Planning a goal without a graph either leaves a nonempty graph and the goal running, or
  reports the error with the goal and its graph as they were; no other goal or graph changes, and
  once there is a graph planning again does nothing.\<close>

theorem plan_goal_spec:
  assumes row: "goal_row i db = Some r" and empty: "load_graph i db = []"
    and plan: "plan_goal ce i a db = (res, db')"
  shows "(\<forall>j. j \<noteq> i \<longrightarrow> goal_row j db' = goal_row j db \<and> load_graph j db' = load_graph j db) \<and>
    (case res of
       Inl e \<Rightarrow> goal_row i db' = Some r \<and> load_graph i db' = []
     | Inr _ \<Rightarrow> load_graph i db' \<noteq> [] \<and> map_option g_status (goal_row i db') = Some ''running'' \<and>
         (\<forall>ce' a'. plan_goal ce' i a' db' = (Inr (), db')))"
  using plan_goal_planned [OF row empty plan] row
  by (auto simp: planned_def plan_goal_def goal_get_def split: sum.splits)

theorem plan_goal_spec_witness:
  "\<exists>res db'. plan_goal demo_start ''g'' (Some ''grok'') (demo_db\<lparr>db_nodes := []\<rparr>) = (res, db') \<and>
     goal_row ''h'' db' = None"
proof -
  obtain res db' where plan: "plan_goal demo_start ''g'' (Some ''grok'') (demo_db\<lparr>db_nodes := []\<rparr>) = (res, db')"
    by force
  have "goal_row ''g'' (demo_db\<lparr>db_nodes := []\<rparr>) = Some demo_goal"
    "goal_row ''h'' (demo_db\<lparr>db_nodes := []\<rparr>) = None" "load_graph ''g'' (demo_db\<lparr>db_nodes := []\<rparr>) = []"
    by (simp_all add: demo_db_def demo_goal_def goal_row_def load_graph_def)
  with plan_goal_spec [OF _ _ plan] plan show ?thesis by auto
qed

section \<open>Resuming after a restart\<close>

definition goals_ok :: "coord_db \<Rightarrow> bool" where
  "goals_ok db \<longleftrightarrow> distinct (map g_id (db_goals db))"

lemma goals_ok_row: "goals_ok db \<Longrightarrow> r \<in> set (db_goals db) \<Longrightarrow> goal_row (g_id r) db = Some r"
  unfolding goals_ok_def goal_row_def by (rule find_unique)

text \<open>The goal after its turn: a goal with a graph keeps it and at most leaves \<open>paused\<close>, one without is
  planned or blocked.\<close>

definition resumed :: "string \<Rightarrow> goal_row \<Rightarrow> coord_db \<Rightarrow> coord_db \<Rightarrow> bool" where
  "resumed i r db db' \<longleftrightarrow>
     map g_id (db_goals db') = map g_id (db_goals db) \<and>
     (\<forall>j. j \<noteq> i \<longrightarrow> goal_row j db' = goal_row j db \<and> load_graph j db' = load_graph j db) \<and>
     (if load_graph i db \<noteq> [] then
        load_graph i db' = load_graph i db \<and>
        map_option g_status (goal_row i db') = Some (if g_status r = ''paused'' then ''running'' else g_status r)
      else load_graph i db' \<noteq> [] \<and> map_option g_status (goal_row i db') = Some ''running'' \<or>
        map_option g_status (goal_row i db') = Some ''blocked'')"

lemma paused_status: "g_status r = ''paused'' \<or> g_status r \<in> set active_statuses \<Longrightarrow>
  (g_status (row_to_goal r) = GsPaused) = (g_status r = ''paused'')"
  using parse_or_str(5) [of GsPlanning GsPaused] parse_or_str(5) [of GsPlanning GsPlanning]
    parse_or_str(5) [of GsPlanning GsRunning] parse_or_str(5) [of GsPlanning GsQueued]
    parse_or_str(5) [of GsPlanning GsWaitingOnCapacity]
  by (auto simp: row_to_goal_def active_statuses_def)

lemma resumed_status:
  assumes "goal_row i db = Some r" and "load_graph i db \<noteq> []" and "g_status r = ''paused''"
  shows "resumed i r db (set_status ts i GsRunning db)"
  using assms by (simp add: resumed_def set_status_def frame_simps goals.get_upd goal_ids_upd)

lemma resumed_log: "resumed i r db db1 \<Longrightarrow> resumed i r db (log_event ts s g k b db1)"
  unfolding resumed_def frame_simps .

lemma resume_one_resumed:
  assumes row: "goal_row i db = Some r"
    and st: "g_status r = ''paused'' \<or> g_status r \<in> set active_statuses"
    and one: "resume_one ce (row_to_goal r) db = (touched, db')"
  shows "resumed i r db db' \<and>
    touched = (load_graph i db = [] \<or> \<not> is_all_terminal (load_graph i db) \<or> g_status r = ''paused'')"
proof -
  have i: "g_id r = i" using row by (rule goals.get_key)
  note was = paused_status [OF st]
  show ?thesis
  proof (cases "load_graph i db = []")
    case True
    obtain res db1 where plan: "plan_goal ce i None db = (res, db1)" by force
    from plan_goal_planned [OF row True plan] have p: "planned i r res db db1" .
    have "resumed i r db (case res of
        Inr _ \<Rightarrow> db1
      | Inl e \<Rightarrow> log_event (se_ts (ce_shell ce)) (g_session r) (Some i) EkBlocked
                   (i @ '': re-plan failed on resume: '' @ e)
                   (set_blocked (se_ts (ce_shell ce)) i (''resume: re-plan failed: '' @ e) db1))"
      using p row True
      by (cases res) (auto simp: planned_def resumed_def set_blocked_def frame_simps goals.get_upd goal_ids_upd)
    with one plan True i resumed_log show ?thesis
      by (cases res) (auto simp: resume_one_def Let_def)
  next
    case False
    have same: "resumed i r db db" if "g_status r \<noteq> ''paused''"
      using that row False by (simp add: resumed_def)
    show ?thesis
    proof (cases "g_status r = ''paused''")
      case True
      with one False i was resumed_log [OF resumed_status [OF row False True]] show ?thesis
        by (auto simp: resume_one_def Let_def split: if_splits)
    next
      case np: False
      with one False i was resumed_log [OF same [OF np]] same [OF np] show ?thesis
        by (auto simp: resume_one_def Let_def split: if_splits)
    qed
  qed
qed

lemma resume_all_resumed:
  assumes "distinct (map g_id rs)"
    and "\<And>r. r \<in> set rs \<Longrightarrow> goal_row (g_id r) db = Some r \<and> (g_status r = ''paused'' \<or> g_status r \<in> set active_statuses)"
    and "resume_all ce (map row_to_goal rs) db = (n, db')"
  shows "map g_id (db_goals db') = map g_id (db_goals db) \<and>
    (\<forall>j. j \<notin> g_id ` set rs \<longrightarrow> goal_row j db' = goal_row j db \<and> load_graph j db' = load_graph j db) \<and>
    (\<forall>r \<in> set rs. \<exists>d1 d2. goal_row (g_id r) d1 = goal_row (g_id r) db \<and> load_graph (g_id r) d1 = load_graph (g_id r) db \<and>
       resumed (g_id r) r d1 d2 \<and>
       goal_row (g_id r) db' = goal_row (g_id r) d2 \<and> load_graph (g_id r) db' = load_graph (g_id r) d2) \<and>
    n = length (filter (\<lambda>r. load_graph (g_id r) db = [] \<or> \<not> is_all_terminal (load_graph (g_id r) db) \<or> g_status r = ''paused'') rs)"
  using assms
proof (induction rs arbitrary: db n)
  case (Cons r rs)
  obtain touched db1 where one: "resume_one ce (row_to_goal r) db = (touched, db1)" by force
  obtain m where rest: "resume_all ce (map row_to_goal rs) db1 = (m, db')" and n: "n = (if touched then 1 else 0) + m"
    using Cons.prems(3) one by (auto simp: Let_def split: prod.splits)
  have row: "goal_row (g_id r) db = Some r" and st: "g_status r = ''paused'' \<or> g_status r \<in> set active_statuses"
    using Cons.prems(2) [of r] by simp_all
  from resume_one_resumed [OF row st one] have res: "resumed (g_id r) r db db1"
    and touched: "touched = (load_graph (g_id r) db = [] \<or> \<not> is_all_terminal (load_graph (g_id r) db) \<or> g_status r = ''paused'')"
    by simp_all
  have other: "goal_row j db1 = goal_row j db" "load_graph j db1 = load_graph j db" if "j \<noteq> g_id r" for j
    using res that by (simp_all add: resumed_def)
  have ids: "map g_id (db_goals db1) = map g_id (db_goals db)" using res by (simp add: resumed_def)
  have ne: "g_id x \<noteq> g_id r" if "x \<in> set rs" for x using Cons.prems(1) that by (metis distinct.simps(2) image_eqI list.simps(9) set_map)
  have "distinct (map g_id rs)" using Cons.prems(1) by simp
  moreover have "goal_row (g_id x) db1 = Some x \<and> (g_status x = ''paused'' \<or> g_status x \<in> set active_statuses)"
    if "x \<in> set rs" for x
    using Cons.prems(2) [of x] other [OF ne [OF that]] that by simp
  ultimately have IH: "map g_id (db_goals db') = map g_id (db_goals db1)"
    "\<And>j. j \<notin> g_id ` set rs \<Longrightarrow> goal_row j db' = goal_row j db1 \<and> load_graph j db' = load_graph j db1"
    "\<And>x. x \<in> set rs \<Longrightarrow> \<exists>d1 d2. goal_row (g_id x) d1 = goal_row (g_id x) db1 \<and> load_graph (g_id x) d1 = load_graph (g_id x) db1 \<and>
       resumed (g_id x) x d1 d2 \<and>
       goal_row (g_id x) db' = goal_row (g_id x) d2 \<and> load_graph (g_id x) db' = load_graph (g_id x) d2"
    "m = length (filter (\<lambda>r. load_graph (g_id r) db1 = [] \<or> \<not> is_all_terminal (load_graph (g_id r) db1) \<or> g_status r = ''paused'') rs)"
    using Cons.IH [OF _ _ rest] by blast+
  have keep: "goal_row j db' = goal_row j db \<and> load_graph j db' = load_graph j db"
    if "j \<notin> g_id ` set (r # rs)" for j
    using IH(2) [of j] other [of j] that by auto
  have "g_id r \<notin> g_id ` set rs" using ne by force
  then have head: "goal_row (g_id r) db' = goal_row (g_id r) db1 \<and> load_graph (g_id r) db' = load_graph (g_id r) db1"
    by (rule IH(2))
  have "\<exists>d1 d2. goal_row (g_id x) d1 = goal_row (g_id x) db \<and> load_graph (g_id x) d1 = load_graph (g_id x) db \<and>
       resumed (g_id x) x d1 d2 \<and>
       goal_row (g_id x) db' = goal_row (g_id x) d2 \<and> load_graph (g_id x) db' = load_graph (g_id x) d2"
    if "x \<in> set (r # rs)" for x
  proof (cases "x \<in> set rs")
    case True
    from IH(3) [OF True] other [OF ne [OF True]] show ?thesis by simp
  next
    case False
    with that have "x = r" by simp
    with res head show ?thesis by blast
  qed
  moreover have "filter (\<lambda>r. load_graph (g_id r) db1 = [] \<or> \<not> is_all_terminal (load_graph (g_id r) db1) \<or> g_status r = ''paused'') rs =
      filter (\<lambda>r. load_graph (g_id r) db = [] \<or> \<not> is_all_terminal (load_graph (g_id r) db) \<or> g_status r = ''paused'') rs"
    by (rule filter_cong) (simp_all add: other ne)
  ultimately show ?case using IH(1,4) ids keep n touched by simp
qed simp

definition interrupted :: "goal_row \<Rightarrow> bool" where
  "interrupted r \<longleftrightarrow> g_status r = ''paused'' \<or> g_status r \<in> set active_statuses"

definition needs_resume :: "coord_db \<Rightarrow> goal_row \<Rightarrow> bool" where
  "needs_resume db r \<longleftrightarrow>
     load_graph (g_id r) db = [] \<or> \<not> is_all_terminal (load_graph (g_id r) db) \<or> g_status r = ''paused''"

lemma length_filter_sort: "length (filter P (sort_key k xs)) = length (filter P xs)"
  by (metis mset_filter mset_sort size_mset)

lemma resume_interrupted_rows:
  assumes ok: "goals_ok db" and run: "resume_interrupted ce db = (n, db')"
  shows "map g_id (db_goals db') = map g_id (db_goals db) \<and>
    n = length (filter (\<lambda>r. interrupted r \<and> needs_resume db r) (db_goals db)) \<and>
    (\<forall>i r. goal_row i db = Some r \<longrightarrow>
       (if interrupted r then \<exists>d1 d2. goal_row i d1 = goal_row i db \<and> load_graph i d1 = load_graph i db \<and>
          resumed i r d1 d2 \<and> goal_row i db' = goal_row i d2 \<and> load_graph i db' = load_graph i d2
        else goal_row i db' = Some r \<and> load_graph i db' = load_graph i db))"
proof -
  let ?act = "sort_key g_created_at (filter (\<lambda>r. g_status r \<in> set active_statuses) (db_goals db))"
  let ?pau = "sort_key g_created_at (filter (\<lambda>r. g_status r = ''paused'') (db_goals db))"
  let ?rs = "?act @ ?pau"
  have set_rs: "set ?rs = {r \<in> set (db_goals db). interrupted r}"
    by (auto simp: interrupted_def)
  have "distinct (map g_id ?rs)"
  proof -
    have inj: "inj_on g_id (set (db_goals db))" and d: "distinct (db_goals db)"
      using ok by (simp_all add: goals_ok_def distinct_map)
    have "set ?act \<inter> set ?pau = {}" using paused_not_active by auto
    with d have "distinct ?rs" by (simp only: distinct_append distinct_sort distinct_filter simp_thms)
    with inj set_rs show ?thesis unfolding distinct_map by (auto intro: inj_on_subset)
  qed
  moreover have cand: "goal_row (g_id r) db = Some r \<and> (g_status r = ''paused'' \<or> g_status r \<in> set active_statuses)"
    if "r \<in> set ?rs" for r
    using that goals_ok_row [OF ok] unfolding set_rs interrupted_def by blast
  moreover have "resume_all ce (map row_to_goal ?rs) db = (n, db')"
    using run by (simp add: resume_interrupted_def ensure_coordinator_schema_def active_goals_def
        list_by_status_def)
  ultimately have all: "map g_id (db_goals db') = map g_id (db_goals db)"
    "\<And>j. j \<notin> g_id ` set ?rs \<Longrightarrow> goal_row j db' = goal_row j db \<and> load_graph j db' = load_graph j db"
    "\<And>r. r \<in> set ?rs \<Longrightarrow> \<exists>d1 d2. goal_row (g_id r) d1 = goal_row (g_id r) db \<and> load_graph (g_id r) d1 = load_graph (g_id r) db \<and>
       resumed (g_id r) r d1 d2 \<and> goal_row (g_id r) db' = goal_row (g_id r) d2 \<and> load_graph (g_id r) db' = load_graph (g_id r) d2"
    "n = length (filter (needs_resume db) ?rs)"
    using resume_all_resumed [of ?rs db ce n db'] unfolding needs_resume_def by blast+
  have "n = length (filter (\<lambda>r. interrupted r \<and> needs_resume db r) (db_goals db))"
  proof -
    have "length (filter (needs_resume db) ?rs) =
        length (filter (needs_resume db) (filter (\<lambda>r. g_status r \<in> set active_statuses) (db_goals db))) +
        length (filter (needs_resume db) (filter (\<lambda>r. g_status r = ''paused'') (db_goals db)))"
      by (simp only: filter_append length_append length_filter_sort)
    also have "\<dots> = length (filter (\<lambda>r. interrupted r \<and> needs_resume db r) rs)"
      if "rs = db_goals db" for rs
      unfolding that [symmetric] using paused_not_active by (induction rs) (auto simp: interrupted_def)
    finally show ?thesis using all(4) by blast
  qed
  moreover have "if interrupted r then \<exists>d1 d2. goal_row i d1 = goal_row i db \<and> load_graph i d1 = load_graph i db \<and>
          resumed i r d1 d2 \<and> goal_row i db' = goal_row i d2 \<and> load_graph i db' = load_graph i d2
        else goal_row i db' = Some r \<and> load_graph i db' = load_graph i db" if row: "goal_row i db = Some r" for i r
  proof (cases "interrupted r")
    case True
    have "g_id r = i" using row by (rule goals.get_key)
    moreover have "r \<in> set ?rs" using row True unfolding set_rs by (auto simp: goal_row_def dest: find_SomeD)
    ultimately show ?thesis using all(3) [of r] True by simp
  next
    case False
    have "i \<notin> g_id ` set ?rs"
    proof
      assume "i \<in> g_id ` set ?rs"
      then obtain x where "x \<in> set ?rs" "g_id x = i" by blast
      with cand [of x] row have "x = r" by simp
      with \<open>x \<in> set ?rs\<close> False show False unfolding set_rs by simp
    qed
    with all(2) row False show ?thesis by simp
  qed
  ultimately show ?thesis using all(1) by blast
qed

text \<open>C13: after a daemon start no goal is left paused or active without a graph: an interrupted goal
  keeps its graph or is planned anew or blocked, a goal that was not interrupted is untouched, and
  the answer counts the interrupted goals that needed something.\<close>

theorem resume_interrupted_spec:
  assumes ok: "goals_ok db" and run: "resume_interrupted ce db = (n, db')"
  shows "(\<forall>i r'. goal_row i db' = Some r' \<longrightarrow> g_status r' \<noteq> ''paused'' \<and>
      (g_status r' \<in> set active_statuses \<longrightarrow> load_graph i db' \<noteq> [])) \<and>
    (\<forall>i r. goal_row i db = Some r \<and> \<not> interrupted r \<longrightarrow>
      goal_row i db' = Some r \<and> load_graph i db' = load_graph i db) \<and>
    n = length (filter (\<lambda>r. interrupted r \<and> needs_resume db r) (db_goals db))"
proof -
  note rows = resume_interrupted_rows [OF ok run]
  have "g_status r' \<noteq> ''paused'' \<and> (g_status r' \<in> set active_statuses \<longrightarrow> load_graph i db' \<noteq> [])"
    if r': "goal_row i db' = Some r'" for i r'
  proof -
    have "i \<in> set (map g_id (db_goals db'))"
      using r' by (auto simp: goal_row_def dest: find_SomeD)
    then have "i \<in> set (map g_id (db_goals db))" using rows by simp
    then obtain r where row: "goal_row i db = Some r"
      using goals_ok_row [OF ok] by auto
    show ?thesis
    proof (cases "interrupted r")
      case True
      with rows row obtain d1 d2 where d: "resumed i r d1 d2" "goal_row i db' = goal_row i d2"
        "load_graph i db' = load_graph i d2" by metis
      with r' show ?thesis
        by (auto simp: resumed_def active_statuses_def split: if_splits)
    next
      case False
      with rows row r' show ?thesis by (auto simp: interrupted_def)
    qed
  qed
  moreover have "goal_row i db' = Some r \<and> load_graph i db' = load_graph i db"
    if "goal_row i db = Some r \<and> \<not> interrupted r" for i r
    using rows that by auto
  ultimately show ?thesis using rows by blast
qed

theorem resume_interrupted_spec_witness:
  "\<exists>n db'. resume_interrupted demo_start demo_db = (n, db') \<and> n = 1 \<and>
     (\<forall>r'. goal_row ''g'' db' = Some r' \<longrightarrow> g_status r' \<noteq> ''paused'')"
proof -
  obtain n db' where run: "resume_interrupted demo_start demo_db = (n, db')" by force
  have ok: "goals_ok demo_db" by (simp add: goals_ok_def demo_db_def)
  have "parse_or node_status_parse NsPending ''running'' = NsRunning"
    using parse_or_str(3) [of NsPending NsRunning] by simp
  then have "filter (\<lambda>r. interrupted r \<and> needs_resume demo_db r) (db_goals demo_db) = [demo_goal]"
    by (simp add: demo_db_def interrupted_def needs_resume_def demo_goal_def active_statuses_def
        load_graph_def demo_node_def is_all_terminal_def node_of_row_def)
  with resume_interrupted_spec [OF ok run] run show ?thesis by simp
qed

text \<open>A clean stop followed by a start loses no work: every goal that was active with a graph is
  running again with the same graph.\<close>

theorem stop_start_keeps_graphs:
  assumes ok: "goals_ok db" and stop: "pause_active_goals ts db = (k, db1)"
    and start: "resume_interrupted ce db1 = (n, db2)"
    and row: "goal_row i db = Some r" "g_status r \<in> set active_statuses" and graph: "load_graph i db \<noteq> []"
  shows "load_graph i db2 = load_graph i db \<and> map_option g_status (goal_row i db2) = Some ''running''"
proof -
  have p: "pause_all_active ts db = (k, db1)"
    using stop by (simp add: pause_active_goals_def ensure_coordinator_schema_def)
  then have nodes: "load_graph i db1 = load_graph i db"
    and ids: "map g_id (db_goals db1) = map g_id (db_goals db)"
    by (auto simp: pause_all_active_def load_graph_def map_update_where)
  obtain r1 where r1: "goal_row i db1 = Some r1" "g_status r1 = ''paused''"
    using goal_row_pause [of i ts db] p row by simp
  have "goals_ok db1" using ok ids by (simp add: goals_ok_def)
  from resume_interrupted_rows [OF this start] r1 obtain d1 d2 where
    d: "load_graph i d1 = load_graph i db1" "resumed i r1 d1 d2"
    "goal_row i db2 = goal_row i d2" "load_graph i db2 = load_graph i d2"
    by (metis interrupted_def)
  with nodes graph r1(2) show ?thesis by (simp add: resumed_def)
qed

theorem stop_start_keeps_graphs_witness:
  "\<exists>k db1 n db2. pause_active_goals ''t1'' demo_db = (k, db1) \<and> resume_interrupted demo_start db1 = (n, db2) \<and>
     load_graph ''g'' db2 = load_graph ''g'' demo_db"
proof -
  obtain k db1 n db2 where stop: "pause_active_goals ''t1'' demo_db = (k, db1)"
    and start: "resume_interrupted demo_start db1 = (n, db2)" by (metis surj_pair)
  have "goals_ok demo_db" "g_status demo_goal \<in> set active_statuses" "load_graph ''g'' demo_db \<noteq> []"
    by (simp_all add: goals_ok_def demo_db_def demo_goal_def active_statuses_def load_graph_def demo_node_def)
  with stop_start_keeps_graphs [OF _ stop start demo_rows(1)] stop start show ?thesis by blast
qed

section \<open>Resuming by hand\<close>

text \<open>A manual resume ends in one of two states: the goal running with a graph, none of whose
  nodes waits for a retry time, or, when planning failed, the error reported and the goal blocked
  with that error as its reason. No other goal changes.\<close>

theorem resume_goal_spec:
  assumes row: "goal_row i db = Some r" and run: "resume_goal ce i db = (res, db')"
  shows "(\<forall>j. j \<noteq> i \<longrightarrow> goal_row j db' = goal_row j db \<and> load_graph j db' = load_graph j db) \<and>
    (case res of
       Inl e \<Rightarrow> \<exists>r'. goal_row i db' = Some r' \<and> g_status r' = ''blocked'' \<and>
         g_blocked_reason r' = Some (''resume: re-plan failed: '' @ e)
     | Inr _ \<Rightarrow> load_graph i db' \<noteq> [] \<and> map_option g_status (goal_row i db') = Some ''running'' \<and>
         (load_graph i db \<noteq> [] \<longrightarrow> load_graph i db' = map (\<lambda>x. x\<lparr>nretry_at := None\<rparr>) (load_graph i db)))"
proof -
  let ?ts = "se_ts (ce_shell ce)"
  let ?db1 = "clear_node_retry_stamps i (resume_status ?ts i db)"
  have frame: "goal_row j (clear_node_retry_stamps i d) = goal_row j d" for j d
    by (simp add: clear_node_retry_stamps_def frame_simps)
  obtain r1 where r1: "goal_row i ?db1 = Some r1" "g_status r1 = ''running''"
    using row by (simp add: frame resume_status_def goals.get_upd)
  have other: "goal_row j ?db1 = goal_row j db" "load_graph j ?db1 = load_graph j db" if "j \<noteq> i" for j
    using that by (simp_all add: frame resume_status_def goals.get_upd load_graph_clear_stamps frame_simps)
  have graph: "load_graph i ?db1 = map (\<lambda>x. x\<lparr>nretry_at := None\<rparr>) (load_graph i db)"
    by (simp add: load_graph_clear_stamps resume_status_def frame_simps)
  have g: "goal_get i db = Some (row_to_goal r)" using row by (simp add: goal_get_def)
  show ?thesis
  proof (cases "load_graph i db = []")
    case False
    with run g graph have res: "res = Inr ()"
      and db': "db' = log_event ?ts (g_session r) (Some i) EkSessionResumed
          (i @ '': resumed via '' @ [CHR 0x60] @ ''single goal resume'' @ [CHR 0x60]) ?db1"
      by (auto simp: resume_goal_def Let_def)
    have rows: "goal_row j db' = goal_row j ?db1" "load_graph j db' = load_graph j ?db1" for j
      unfolding db' by (simp_all only: frame_simps)
    show ?thesis using r1 other graph False by (simp add: res rows del: other_table_frames)
  next
    case True
    then have empty: "load_graph i ?db1 = []" using graph by simp
    obtain res1 db2 where plan: "plan_goal ce i None ?db1 = (res1, db2)" by force
    from plan_goal_planned [OF r1(1) empty plan] have p: "planned i r1 res1 ?db1 db2" .
    show ?thesis
    proof (cases res1)
      case (Inl e)
      with run g empty plan True have "res = Inl e" "db' = log_event ?ts (g_session r) (Some i) EkBlocked
            (i @ '': re-plan failed on resume: '' @ e) (set_blocked ?ts i (''resume: re-plan failed: '' @ e) db2)"
        by (auto simp: resume_goal_def Let_def)
      with p Inl r1 other show ?thesis
        by (auto simp: planned_def set_blocked_def frame_simps goals.get_upd)
    next
      case (Inr u)
      with run g empty plan True have "res = Inr ()" "db' = log_event ?ts (g_session r) (Some i) EkSessionResumed
            (i @ '': resumed via '' @ [CHR 0x60] @ ''single goal resume'' @ [CHR 0x60]) db2"
        by (auto simp: resume_goal_def Let_def)
      with p Inr other True show ?thesis by (auto simp: planned_def frame_simps)
    qed
  qed
qed

theorem resume_goal_spec_witness:
  "\<exists>res db'. resume_goal demo_start ''g'' demo_db = (res, db') \<and> goal_row ''h'' db' = None"
proof -
  obtain res db' where run: "resume_goal demo_start ''g'' demo_db = (res, db')" by force
  have "goal_row ''h'' demo_db = None" by (simp add: demo_db_def demo_goal_def goal_row_def)
  with resume_goal_spec [OF demo_rows(1) run] run show ?thesis by auto
qed

end
