(* ===== verification/PoolClient.thy ===== *)
theory PoolClient
  imports FreePool Backoff Handoff
begin

text \<open>
  The HTTP client of the pool, \<open>pool/client.rs\<close>, and the native wires of \<open>pool/client/native.rs\<close>: the
  body and headers of each request, the reading of each answer, the classification of errors, the
  retry loop and the two poll loops. The network is the record \<open>net\<close> over a world \<open>'w\<close>: one exchange,
  the monotonic clock in milliseconds, the sleep, and the parsers and printers of the libraries. A
  \<open>Duration\<close> that the code only compares is a number of milliseconds; a provider timeout is in seconds.
  \<open>resolve\<close> may panic on a malformed header (\<open>Backoff\<close>), so what uses it is an \<open>outcome\<close>.
\<close>

section \<open>Requests and answers\<close>

record tool_def =
  td_name :: string
  td_schema :: json

record tool_call =
  tc_name :: string
  tc_arguments :: json

record pool_request =
  pr_messages :: "chat_message list"
  pr_tools :: "tool_def list"
  pr_max_tokens :: "u32 option"
  pr_requires_tools :: bool

record pool_response =
  ps_content :: string
  ps_tool_calls :: "tool_call list"
  ps_finish_reason :: "string option"
  ps_truncated :: bool
  ps_usage_tokens :: "u64 option"
  ps_ttfb_ms :: "nat option"
  ps_latency_ms :: nat

datatype pool_error =
    PeRateLimited "u64 option" | PePaymentRequired | PeTierGate | PeAuthFailed | PeTransport string
  | PeHedgeAbort | PeToolsUnsupported | PeOther string

record http_request =
  hr_post :: bool
  hr_url :: string
  hr_timeout_ms :: nat
  hr_headers :: "(string \<times> string) list"
  hr_body :: "json option"

datatype http_answer = SendFailed bool string | Answered nat "string option" string

record 'w net =
  net_send :: "http_request \<Rightarrow> 'w \<Rightarrow> http_answer \<times> 'w"
  net_clock :: "'w \<Rightarrow> nat"
  net_sleep :: "nat \<Rightarrow> 'w \<Rightarrow> 'w"
  net_wall_ms :: "'w \<Rightarrow> int"
  net_rfc2822 :: "string \<Rightarrow> int option"
  net_from_str :: "string \<Rightarrow> json option"
  net_json_error :: "string \<Rightarrow> string"
  net_show_elapsed :: "nat \<Rightarrow> string"

definition ok_status :: "nat \<Rightarrow> bool" where
  "ok_status s \<longleftrightarrow> 200 \<le> s \<and> s < 300"

fun apply_auth :: "auth \<Rightarrow> string \<Rightarrow> (string \<times> string) list" where
  "apply_auth Bearer key = [(''authorization'', ''Bearer '' @ key)]"
| "apply_auth XApiKey key = [(''x-api-key'', key)]"
| "apply_auth (Compound second) key = [(''authorization'', ''Bearer '' @ key)]"
| "apply_auth (Keyless sentinel) key = [(''authorization'', ''Bearer '' @ sentinel)]"
| "apply_auth (Header name) key = [(name, key)]"

definition apply_quirks :: "quirks \<Rightarrow> (string \<times> string) list" where
  "apply_quirks q =
     (if browser_ua q then [(''User-Agent'',
        ''Mozilla/5.0 (Windows NT 10.0; Win64; x64) AppleWebKit/537.36 (KHTML, like Gecko) Chrome/120.0 Safari/537.36'')]
      else [])"

fun effective_max_tokens :: "u32 option \<Rightarrow> quirks \<Rightarrow> u32 option" where
  "effective_max_tokens (Some r) q =
     (case min_max_tokens q of Some m \<Rightarrow> Some (max r m) | None \<Rightarrow> Some r)"
| "effective_max_tokens None q = min_max_tokens q"

definition message_json :: "chat_message \<Rightarrow> json" where
  "message_json m = jobj [(''role'', JStr (role m)), (''content'', JStr (content m))]"

definition tool_json :: "tool_def \<Rightarrow> json" where
  "tool_json t = jobj [(''type'', JStr ''function''),
     (''function'', jobj [(''name'', JStr (td_name t)), (''parameters'', td_schema t)])]"

definition build_body :: "pool_request \<Rightarrow> string \<Rightarrow> quirks \<Rightarrow> pool_error + json" where
  "build_body req model q =
     (if no_tools q \<and> pr_requires_tools req then Inl PeToolsUnsupported
      else
        (let body = jobj [(''model'', JStr model), (''messages'', JArr (map message_json (pr_messages req)))];
             body = (case effective_max_tokens (pr_max_tokens req) q of
                 Some mt \<Rightarrow> jput ''max_tokens'' (JNum (PosInt (ucast mt))) body
               | None \<Rightarrow> body);
             body = (if \<not> no_tools q \<and> pr_tools req \<noteq> [] then
                 (let tools = map tool_json (pr_tools req)
                  in jput ''tools'' (JArr (if force_single_tool_call q then take 1 tools else tools)) body)
               else body)
         in Inr body))"

section \<open>Reading an answer\<close>

definition extract_think :: "string \<Rightarrow> string \<times> string option" where
  "extract_think s =
     (case find_sub ''<think>'' s of
        Some start \<Rightarrow>
          (case find_sub ''</think>'' (drop start s) of
             Some e \<Rightarrow> (trim (take start s @ drop (start + e + 8) s),
                        Some (drop (start + 7) (take (start + e) s)))
           | None \<Rightarrow> (s, None))
      | None \<Rightarrow> (s, None))"

definition rescue_tool_calls :: "(string \<Rightarrow> json option) \<Rightarrow> string \<Rightarrow> tool_call list option" where
  "rescue_tool_calls parse text =
     (let trimmed = trim text
      in case find_idx (\<lambda>c. c = CHR 0x7B) trimmed of
           None \<Rightarrow> None
         | Some start \<Rightarrow>
             (case rfind_idx (\<lambda>c. c = CHR 0x7D) trimmed of
                None \<Rightarrow> None
              | Some e \<Rightarrow>
                  if e \<le> start then None
                  else
                    (case parse (drop start (take (e + 1) trimmed)) of
                       None \<Rightarrow> None
                     | Some v \<Rightarrow>
                         (case Option.bind (jget ''name'' v) as_str of
                            None \<Rightarrow> None
                          | Some name \<Rightarrow>
                              Some [\<lparr>tc_name = name,
                                tc_arguments = unwrap_or (jget ''arguments'' v) (JObj [])\<rparr>]))))"

definition map_status_to_error ::
    "'w net \<Rightarrow> 'w \<Rightarrow> nat \<Rightarrow> string \<Rightarrow> string option \<Rightarrow> pool_error outcome" where
  "map_status_to_error net w status body retry_after =
     (if status = 401 then Ret PeAuthFailed
      else if status = 403 then Ret PeTierGate
      else if status = 402 then Ret PePaymentRequired
      else if status = 429 then
        bind_outcome (resolve (net_rfc2822 net) (net_wall_ms net w) retry_after (net_from_str net body) (Some body))
          (\<lambda>retry. Ret (PeRateLimited retry))
      else if 500 \<le> status \<and> status \<le> 599 then Ret (PeOther (''server error '' @ dec_nat status))
      else Ret (PeOther (''unexpected status '' @ dec_nat status @ '': '' @ body)))"

definition structured_call :: "(string \<Rightarrow> json option) \<Rightarrow> json \<Rightarrow> tool_call option" where
  "structured_call parse call =
     (case (Option.bind (Option.bind (jget ''function'' call) (jget ''name'')) as_str,
            Option.bind (Option.bind (jget ''function'' call) (jget ''arguments'')) as_str) of
        (Some name, Some args) \<Rightarrow> Some \<lparr>tc_name = name, tc_arguments = unwrap_or (parse args) (JObj [])\<rparr>
      | _ \<Rightarrow> None)"

definition parse_openai_response ::
    "'w net \<Rightarrow> string \<Rightarrow> pool_request \<Rightarrow> nat \<Rightarrow> nat \<Rightarrow> pool_error + pool_response" where
  "parse_openai_response net text req ttfb_ms latency_ms =
     (case net_from_str net text of
        None \<Rightarrow> Inl (PeOther (''invalid JSON response: '' @ net_json_error net text))
      | Some value \<Rightarrow>
          (case Option.bind (jget ''choices'' value) jget0 of
             None \<Rightarrow> Inl (PeOther ''no choices in response'')
           | Some choice \<Rightarrow>
               (let message = unwrap_or (jget ''message'' choice) (JObj []);
                    raw = unwrap_or (Option.bind (jget ''content'' message) as_str) '''';
                    visible = fst (extract_think raw);
                    finish = Option.bind (jget ''finish_reason'' choice) as_str;
                    calls = (case Option.bind (jget ''tool_calls'' message) as_array of
                        Some tc \<Rightarrow> List.map_filter (structured_call (net_from_str net)) tc
                      | None \<Rightarrow>
                          if pr_requires_tools req \<and> pr_tools req \<noteq> []
                          then unwrap_or (rescue_tool_calls (net_from_str net) visible) [] else [])
                in Inr \<lparr>ps_content = visible, ps_tool_calls = calls, ps_finish_reason = finish,
                     ps_truncated = (finish = Some ''length''),
                     ps_usage_tokens = Option.bind (Option.bind (jget ''usage'' value) (jget ''total_tokens'')) json_u64,
                     ps_ttfb_ms = Some ttfb_ms, ps_latency_ms = latency_ms\<rparr>)))"

section \<open>The OpenAI-compatible wire\<close>

definition trim_end_slashes :: "string \<Rightarrow> string" where
  "trim_end_slashes s = rev (dropWhile (\<lambda>c. c = CHR 0x2F) (rev s))"

definition openai_request :: "free_provider \<Rightarrow> string \<Rightarrow> nat \<Rightarrow> json \<Rightarrow> http_request" where
  "openai_request p key timeout_ms body =
     \<lparr>hr_post = True, hr_url = trim_end_slashes (base_url p) @ ''/chat/completions'',
      hr_timeout_ms = timeout_ms, hr_headers = apply_auth (auth p) key @ apply_quirks (quirks p),
      hr_body = Some body\<rparr>"

definition dispatch_openai_compat ::
    "'w net \<Rightarrow> pool_request \<Rightarrow> free_provider \<Rightarrow> string \<Rightarrow> nat \<Rightarrow> bool \<Rightarrow> 'w \<Rightarrow>
     (pool_error + pool_response) outcome \<times> 'w" where
  "dispatch_openai_compat net req p key timeout_ms hedge w =
     (case build_body req (fp_id p) (quirks p) of
        Inl e \<Rightarrow> (Ret (Inl e), w)
      | Inr body \<Rightarrow>
          (let started = net_clock net w;
               (answer, w) = net_send net (openai_request p key timeout_ms body) w;
               elapsed = net_clock net w - started
           in case answer of
                SendFailed is_timeout msg \<Rightarrow>
                  (Ret (Inl (if hedge then PeHedgeAbort
                     else if is_timeout then PeTransport (''timeout after '' @ net_show_elapsed net elapsed)
                     else PeTransport msg)), w)
              | Answered status retry_after text \<Rightarrow>
                  if \<not> ok_status status
                  then (bind_outcome (map_status_to_error net w status text retry_after) (\<lambda>e. Ret (Inl e)), w)
                  else (Ret (parse_openai_response net text req elapsed elapsed), w)))"

section \<open>The retry budget\<close>

definition retry_budget_ms :: "string option \<Rightarrow> nat" where
  "retry_budget_ms env_value =
     (case Option.bind env_value parse_u64 of Some v \<Rightarrow> unat v | None \<Rightarrow> 45000)"

fun final_error :: "pool_error \<Rightarrow> bool" where
  "final_error (PeRateLimited r) = True"
| "final_error PePaymentRequired = True"
| "final_error PeTierGate = True"
| "final_error PeAuthFailed = True"
| "final_error PeToolsUnsupported = True"
| "final_error _ = False"

text \<open>\<open>retry_loop\<close>: not to return is \<open>None\<close>.\<close>

partial_function (option) retry_loop ::
    "'w net \<Rightarrow> pool_request \<Rightarrow> free_provider \<Rightarrow> string \<Rightarrow> nat \<Rightarrow> 'w \<Rightarrow>
     ((pool_error + pool_response) outcome \<times> 'w) option" where
  "retry_loop net req p key deadline w =
     (if net_clock net w \<ge> deadline then Some (Ret (Inl PeHedgeAbort), w)
      else
        (case dispatch_openai_compat net req p key
                (min (1000 * timeout p) (deadline - net_clock net w)) False w of
           (Panic, w) \<Rightarrow> Some (Panic, w)
         | (Ret (Inr resp), w) \<Rightarrow> Some (Ret (Inr resp), w)
         | (Ret (Inl e), w) \<Rightarrow>
             if e = PeHedgeAbort then Some (Ret (Inl PeHedgeAbort), w)
             else if final_error e then Some (Ret (Inl e), w)
             else if net_clock net w \<ge> deadline then Some (Ret (Inl PeHedgeAbort), w)
             else retry_loop net req p key deadline w))"

definition dispatch_with_retry ::
    "'w net \<Rightarrow> string option \<Rightarrow> pool_request \<Rightarrow> free_provider \<Rightarrow> string \<Rightarrow> 'w \<Rightarrow>
     ((pool_error + pool_response) outcome \<times> 'w) option" where
  "dispatch_with_retry net env_value req p key w =
     (let budget = retry_budget_ms env_value;
          deadline = net_clock net w + budget;
          per_attempt = min (1000 * timeout p) (max budget 1)
      in case dispatch_openai_compat net req p key per_attempt False w of
           (Panic, w) \<Rightarrow> Some (Panic, w)
         | (Ret (Inr resp), w) \<Rightarrow> Some (Ret (Inr resp), w)
         | (Ret (Inl e), w) \<Rightarrow>
             if final_error e then Some (dispatch_openai_compat net req p key per_attempt False w)
             else retry_loop net req p key deadline w)"

section \<open>The retry loop returns\<close>

definition advancing :: "'w net \<Rightarrow> bool" where
  "advancing net \<longleftrightarrow> (\<forall>rq w. net_clock net w < net_clock net (snd (net_send net rq w)))"

lemma dispatch_advances:
  assumes "advancing net" and "dispatch_openai_compat net req p key t h w = (Ret (Inl e), w')"
    and "\<not> final_error e"
  shows "net_clock net w < net_clock net w'"
proof -
  have "e \<noteq> PeToolsUnsupported" using assms(3) by auto
  then obtain body where b: "build_body req (fp_id p) (quirks p) = Inr body"
    using assms(2) by (auto simp: dispatch_openai_compat_def build_body_def Let_def split: if_splits)
  obtain a w1 where s: "net_send net (openai_request p key t body) w = (a, w1)" by force
  with assms(2) b have "w' = w1"
    by (auto simp: dispatch_openai_compat_def Let_def split: http_answer.splits if_splits)
  with assms(1) s show ?thesis unfolding advancing_def by (metis snd_conv)
qed

lemma retry_loop_returns: "advancing net \<Longrightarrow> retry_loop net req p key deadline w \<noteq> None"
proof (induction "deadline - net_clock net w" arbitrary: w rule: less_induct)
  case less
  show ?case
  proof (cases "net_clock net w \<ge> deadline")
    case True
    then show ?thesis by (subst retry_loop.simps) simp
  next
    case False
    obtain r w' where d: "dispatch_openai_compat net req p key
        (min (1000 * timeout p) (deadline - net_clock net w)) False w = (r, w')" by force
    have "retry_loop net req p key deadline w' \<noteq> None"
      if "r = Ret (Inl e)" "\<not> final_error e" "\<not> net_clock net w' \<ge> deadline" for e
    proof -
      have "net_clock net w < net_clock net w'" using dispatch_advances [OF less.prems, of req p key] d that by blast
      with False that(3) have "deadline - net_clock net w' < deadline - net_clock net w" by linarith
      from less.hyps [OF this less.prems] show ?thesis .
    qed
    with d False show ?thesis
      by (subst retry_loop.simps) (auto split: outcome.split sum.split)
  qed
qed

text \<open>The retry machinery returns on a network whose sends take time.\<close>

theorem retry_returns:
  assumes "advancing net"
  shows "\<exists>r. dispatch_with_retry net env_value req p key w = Some r"
proof -
  have "dispatch_with_retry net env_value req p key w \<noteq> None"
    using retry_loop_returns [OF assms]
    by (auto simp: dispatch_with_retry_def Let_def split: prod.split outcome.split sum.split)
  then show ?thesis by simp
qed

definition slow_net :: "nat net" where
  "slow_net = \<lparr>net_send = (\<lambda>rq w. (SendFailed False ''refused'', w + 20000)), net_clock = (\<lambda>w. w),
     net_sleep = (\<lambda>ms w. w + ms), net_wall_ms = int, net_rfc2822 = (\<lambda>_. None), net_from_str = (\<lambda>_. None),
     net_json_error = (\<lambda>_. ''''), net_show_elapsed = dec_nat\<rparr>"

theorem retry_returns_witness:
  "\<exists>r. dispatch_with_retry slow_net None \<lparr>pr_messages = [], pr_tools = [], pr_max_tokens = None,
     pr_requires_tools = False\<rparr> (hd FREE_PROVIDERS) ''k'' 0 = Some r"
  by (rule retry_returns) (simp add: advancing_def slow_net_def)

text \<open>An error that the comment calls not retryable is retried once when it meets attempt 0: the
  request goes out a second time.\<close>

lemma final_error_resent:
  assumes "dispatch_openai_compat net req p key (min (1000 * timeout p) (max (retry_budget_ms v) 1)) False w
      = (Ret (Inl e), w')" and "final_error e"
  shows "dispatch_with_retry net v req p key w =
    Some (dispatch_openai_compat net req p key (min (1000 * timeout p) (max (retry_budget_ms v) 1)) False w')"
  using assms by (simp add: dispatch_with_retry_def Let_def)

section \<open>Bodies obey the quirks\<close>

text \<open>A request body carries every message in order and the model; it has tools only for a provider
  that takes them, one at most where the provider takes one, and never fewer tokens than the
  provider's minimum. It is refused exactly when the caller needs tools the provider lacks.\<close>

theorem body_respects_quirks:
  "(build_body req model q = Inl e \<longleftrightarrow> no_tools q \<and> pr_requires_tools req \<and> e = PeToolsUnsupported) \<and>
   (build_body req model q = Inr body \<longrightarrow>
      jget ''model'' body = Some (JStr model) \<and>
      jget ''messages'' body = Some (JArr (map message_json (pr_messages req))) \<and>
      jget ''tools'' body = (if no_tools q \<or> pr_tools req = [] then None
        else Some (JArr (map tool_json (if force_single_tool_call q then [hd (pr_tools req)] else pr_tools req)))) \<and>
      (case jget ''max_tokens'' body of
         None \<Rightarrow> pr_max_tokens req = None \<and> min_max_tokens q = None
       | Some v \<Rightarrow> \<exists>n :: u32. v = JNum (PosInt (ucast n)) \<and> (\<forall>m. min_max_tokens q = Some m \<longrightarrow> m \<le> n) \<and>
           (\<forall>r. pr_max_tokens req = Some r \<longrightarrow> r \<le> n)))"
proof -
  let ?b0 = "jobj [(''model'', JStr model), (''messages'', JArr (map message_json (pr_messages req)))]"
  have wf0: "wf_obj ?b0" by (simp add: jobj_def)
  have get0: "jget ''model'' ?b0 = Some (JStr model)" "jget ''tools'' ?b0 = None" "jget ''max_tokens'' ?b0 = None"
    "jget ''messages'' ?b0 = Some (JArr (map message_json (pr_messages req)))"
    by (simp_all add: jobj_def)
  have take1: "take 1 xs = [hd xs]" if "xs \<noteq> []" for xs :: "'a list" using that by (cases xs) simp_all
  have eff: "case effective_max_tokens (pr_max_tokens req) q of
      None \<Rightarrow> pr_max_tokens req = None \<and> min_max_tokens q = None
    | Some n \<Rightarrow> (\<forall>m. min_max_tokens q = Some m \<longrightarrow> m \<le> n) \<and> (\<forall>r. pr_max_tokens req = Some r \<longrightarrow> r \<le> n)"
    by (cases "pr_max_tokens req"; cases "min_max_tokens q") simp_all
  show ?thesis
  proof (intro conjI impI)
    show "build_body req model q = Inl e \<longleftrightarrow> no_tools q \<and> pr_requires_tools req \<and> e = PeToolsUnsupported"
      by (auto simp: build_body_def Let_def)
  next
    assume b: "build_body req model q = Inr body"
    then show "jget ''model'' body = Some (JStr model)"
      "jget ''messages'' body = Some (JArr (map message_json (pr_messages req)))"
      "jget ''tools'' body = (if no_tools q \<or> pr_tools req = [] then None
        else Some (JArr (map tool_json (if force_single_tool_call q then [hd (pr_tools req)] else pr_tools req))))"
      using wf0 get0 take1 [of "map tool_json (pr_tools req)"]
      by (auto simp: build_body_def Let_def jget_jput wf_obj_jput hd_map split: if_splits option.splits)
    show "case jget ''max_tokens'' body of
         None \<Rightarrow> pr_max_tokens req = None \<and> min_max_tokens q = None
       | Some v \<Rightarrow> \<exists>n :: u32. v = JNum (PosInt (ucast n)) \<and> (\<forall>m. min_max_tokens q = Some m \<longrightarrow> m \<le> n) \<and>
           (\<forall>r. pr_max_tokens req = Some r \<longrightarrow> r \<le> n)"
      using b wf0 get0 eff
      by (auto simp: build_body_def Let_def jget_jput wf_obj_jput split: if_splits option.splits)
  qed
qed

section \<open>Reasoning blocks\<close>

text \<open>The extractor takes out exactly the first reasoning block.\<close>

theorem extract_think_spec:
  assumes "find_sub ''<think>'' (a @ ''<think>'' @ t @ ''</think>'' @ b) = Some (length a)"
    and "find_sub ''</think>'' (''<think>'' @ t @ ''</think>'' @ b) = Some (7 + length t)"
  shows "extract_think (a @ ''<think>'' @ t @ ''</think>'' @ b) = (trim (a @ b), Some t)"
proof -
  let ?o = "''<think>''" and ?c = "''</think>''" and ?s = "a @ ''<think>'' @ t @ ''</think>'' @ b"
  have cut: "drop (length xs) (xs @ ys) = ys" "take (length xs) (xs @ ys) = xs" for xs ys :: string by simp_all
  have "length a + (7 + length t) + 8 = length (a @ ?o @ t @ ?c)" "length a + (7 + length t) = length (a @ ?o @ t)"
    "length a + 7 = length (a @ ?o)"
    by simp_all
  then have "drop (length a + (7 + length t) + 8) ?s = b" "take (length a) ?s = a"
    "drop (length a + 7) (take (length a + (7 + length t)) ?s) = t"
    using cut(1) [of "a @ ?o @ t @ ?c" b] cut(2) [of "a @ ?o @ t" "?c @ b"] cut(1) [of "a @ ?o" t]
      cut(2) [of a "?o @ t @ ?c @ b"]
    by (simp_all only: append_assoc)
  moreover have "drop (length a) ?s = ?o @ t @ ?c @ b" by (rule cut(1))
  ultimately show ?thesis
    unfolding extract_think_def assms(1) by (simp only: option.case assms(2))
qed

end
