(* ===== verification/PoolNative.thy ===== *)
theory PoolNative
  imports PoolClient
begin

text \<open>
  The native wires, \<open>pool/client/native.rs\<close>, on the same network \<open>net\<close>. The poll loops of AI Horde and
  Sail may not return, which is \<open>None\<close>; \<open>Transport\<close> carries the text of the failed send.
\<close>

type_synonym 'w reply = "((pool_error + pool_response) outcome \<times> 'w) option"

section \<open>Shared pieces\<close>

definition http_error_to_pool_error :: "'w net \<Rightarrow> 'w \<Rightarrow> nat \<Rightarrow> string \<Rightarrow> pool_error outcome" where
  "http_error_to_pool_error net w status body =
     (if status = 401 then Ret PeAuthFailed
      else if status = 402 then Ret PePaymentRequired
      else if status = 403 then Ret PeTierGate
      else if status = 429 then
        bind_outcome (resolve (net_rfc2822 net) (net_wall_ms net w) None (net_from_str net body) (Some body))
          (\<lambda>retry. Ret (PeRateLimited retry))
      else Ret (PeOther (''status '' @ dec_nat status @ '': '' @ body)))"

definition plain_response :: "string \<Rightarrow> string option \<Rightarrow> bool \<Rightarrow> nat \<Rightarrow> pool_response" where
  "plain_response txt finish truncated latency =
     \<lparr>ps_content = txt, ps_tool_calls = [], ps_finish_reason = finish, ps_truncated = truncated,
      ps_usage_tokens = None, ps_ttfb_ms = Some latency, ps_latency_ms = latency\<rparr>"

text \<open>Send, refuse a status outside 2xx, parse; what a wire does with the value is \<open>k\<close>.\<close>

definition exchange ::
    "'w net \<Rightarrow> http_request \<Rightarrow> (json \<Rightarrow> 'w \<Rightarrow> 'w reply) \<Rightarrow> 'w \<Rightarrow> 'w reply" where
  "exchange net rq k w =
     (case net_send net rq w of
        (SendFailed t msg, w) \<Rightarrow> Some (Ret (Inl (PeTransport msg)), w)
      | (Answered status ra text, w) \<Rightarrow>
          if \<not> ok_status status
          then Some (bind_outcome (http_error_to_pool_error net w status text) (\<lambda>e. Ret (Inl e)), w)
          else (case net_from_str net text of
                  None \<Rightarrow> Some (Ret (Inl (PeOther (''invalid JSON: '' @ net_json_error net text))), w)
                | Some v \<Rightarrow> k v w))"

definition text_or_empty :: "json option \<Rightarrow> string" where
  "text_or_empty v = unwrap_or (Option.bind v as_str) ''''"

abbreviation path :: "json option \<Rightarrow> string \<Rightarrow> json option" where
  "path v k \<equiv> Option.bind v (jget k)"

section \<open>Google, Cohere, Cloudflare\<close>

definition google_request :: "pool_request \<Rightarrow> free_provider \<Rightarrow> string \<Rightarrow> http_request" where
  "google_request req p key =
     \<lparr>hr_post = True,
      hr_url = ''https://generativelanguage.googleapis.com/v1beta/models/gemini-1.5-flash:generateContent'',
      hr_timeout_ms = 1000 * timeout p, hr_headers = [(''x-goog-api-key'', key)],
      hr_body = Some (jobj [(''contents'', JArr (map (\<lambda>m. jobj
        [(''role'', JStr (if role m = ''assistant'' then ''model'' else ''user'')),
         (''parts'', JArr [jobj [(''text'', JStr (content m))]])]) (pr_messages req)))])\<rparr>"

definition google_dispatch :: "'w net \<Rightarrow> pool_request \<Rightarrow> free_provider \<Rightarrow> string \<Rightarrow> 'w \<Rightarrow> 'w reply" where
  "google_dispatch net req p key w =
     (let started = net_clock net w
      in exchange net (google_request req p key)
        (\<lambda>v w. let candidate = Option.bind (jget ''candidates'' v) jget0;
                   raw = text_or_empty (path (Option.bind (path (path candidate ''content'') ''parts'') jget0) ''text'');
                   finish = Option.bind (path candidate ''finishReason'') as_str
               in Some (Ret (Inr (plain_response (fst (extract_think raw)) finish (finish = Some ''MAX_TOKENS'')
                    (net_clock net w - started))), w)) w)"

definition cohere_request :: "pool_request \<Rightarrow> free_provider \<Rightarrow> string \<Rightarrow> http_request" where
  "cohere_request req p key =
     \<lparr>hr_post = True, hr_url = ''https://api.cohere.com/v1/chat'', hr_timeout_ms = 1000 * timeout p,
      hr_headers = [(''authorization'', ''Bearer '' @ key)],
      hr_body = Some (jobj [(''model'', JStr ''command-r''),
        (''message'', JStr (if pr_messages req = [] then '''' else content (last (pr_messages req))))])\<rparr>"

definition cohere_dispatch :: "'w net \<Rightarrow> pool_request \<Rightarrow> free_provider \<Rightarrow> string \<Rightarrow> 'w \<Rightarrow> 'w reply" where
  "cohere_dispatch net req p key w =
     (let started = net_clock net w
      in exchange net (cohere_request req p key)
        (\<lambda>v w. Some (Ret (Inr (plain_response (text_or_empty (jget ''text'' v)) None False
                 (net_clock net w - started))), w)) w)"

definition split_once :: "char \<Rightarrow> string \<Rightarrow> (string \<times> string) option" where
  "split_once c s = map_option (\<lambda>i. (take i s, drop (i + 1) s)) (find_idx (\<lambda>x. x = c) s)"

definition cloudflare_request :: "pool_request \<Rightarrow> free_provider \<Rightarrow> string \<Rightarrow> string \<Rightarrow> http_request" where
  "cloudflare_request req p account token =
     \<lparr>hr_post = True, hr_url = ''https://api.cloudflare.com/client/v4/accounts/'' @ account @
        ''/ai/run/'' @ ''@cf/meta/llama-3.1-8b-instruct'',
      hr_timeout_ms = 1000 * timeout p, hr_headers = [(''authorization'', ''Bearer '' @ token)],
      hr_body = Some (jobj [(''messages'', JArr (map message_json (pr_messages req)))])\<rparr>"

definition cloudflare_dispatch :: "'w net \<Rightarrow> pool_request \<Rightarrow> free_provider \<Rightarrow> string \<Rightarrow> 'w \<Rightarrow> 'w reply" where
  "cloudflare_dispatch net req p key w =
     (case split_once (CHR 0x3A) key of
        None \<Rightarrow> Some (Ret (Inl PeAuthFailed), w)
      | Some (account, token) \<Rightarrow>
          (let started = net_clock net w
           in exchange net (cloudflare_request req p account token)
             (\<lambda>v w. Some (Ret (Inr (plain_response (text_or_empty (path (jget ''result'' v) ''response'')) None False
                      (net_clock net w - started))), w)) w))"

section \<open>Zhipu\<close>

fun zhipu_loop ::
    "'w net \<Rightarrow> pool_request \<Rightarrow> free_provider \<Rightarrow> string \<Rightarrow> pool_error \<Rightarrow> string list \<Rightarrow> 'w \<Rightarrow>
     (pool_error + pool_response) outcome \<times> 'w" where
  "zhipu_loop net req p key last_err [] w = (Ret (Inl last_err), w)"
| "zhipu_loop net req p key last_err (host # hosts) w =
     (case dispatch_openai_compat net req (p\<lparr>base_url := host\<rparr>) key (1000 * timeout p) False w of
        (Ret (Inl (PeTransport e)), w) \<Rightarrow> zhipu_loop net req p key (PeTransport e) hosts w
      | r \<Rightarrow> r)"

definition zhipu_hosts :: "string list" where
  "zhipu_hosts = [''https://open.bigmodel.cn/api/paas/v4'', ''https://api.z.ai/api/paas/v4'']"

definition zhipu_dispatch :: "'w net \<Rightarrow> pool_request \<Rightarrow> free_provider \<Rightarrow> string \<Rightarrow> 'w \<Rightarrow> 'w reply" where
  "zhipu_dispatch net req p key w =
     Some (zhipu_loop net req p key (PeTransport ''no zhipu hosts configured'') zhipu_hosts w)"

section \<open>The poll loops\<close>

fun as_bool :: "json \<Rightarrow> bool option" where
  "as_bool (JBool b) = Some b"
| "as_bool _ = None"

partial_function (option) aihorde_poll ::
    "'w net \<Rightarrow> string \<Rightarrow> string \<Rightarrow> nat \<Rightarrow> nat \<Rightarrow> 'w \<Rightarrow> 'w reply" where
  "aihorde_poll net base request_id started deadline w =
     (if net_clock net w \<ge> deadline
      then Some (Ret (Inl (PeTransport ''aihorde poll deadline exceeded'')), w)
      else
        (case net_send net \<lparr>hr_post = False, hr_url = base @ ''/generate/text/status/'' @ request_id,
                  hr_timeout_ms = 10000, hr_headers = [], hr_body = None\<rparr> w of
           (SendFailed t msg, w) \<Rightarrow> Some (Ret (Inl (PeTransport msg)), w)
         | (Answered status ra text, w) \<Rightarrow>
             (case net_from_str net text of
                None \<Rightarrow> Some (Ret (Inl (PeOther (''invalid JSON: '' @ net_json_error net text))), w)
              | Some v \<Rightarrow>
                  if unwrap_or (Option.bind (jget ''done'' v) as_bool) False
                  then Some (Ret (Inr (plain_response
                     (text_or_empty (path (Option.bind (jget ''generations'' v) jget0) ''text''))
                     None False (net_clock net w - started))), w)
                  else aihorde_poll net base request_id started deadline (net_sleep net 500 w))))"

definition aihorde_submit :: "pool_request \<Rightarrow> free_provider \<Rightarrow> string \<Rightarrow> string \<Rightarrow> http_request" where
  "aihorde_submit req p key base =
     \<lparr>hr_post = True, hr_url = base @ ''/generate/text/async'', hr_timeout_ms = 1000 * timeout p,
      hr_headers = [(''apikey'', key)],
      hr_body = Some (jobj [(''prompt'', JStr (str_join newline (map content (pr_messages req)))),
        (''params'', jobj [(''max_length'', JNum (PosInt 16)), (''stop_sequence'', JArr [JStr ''</s>''])])])\<rparr>"

definition dispatch_aihorde ::
    "'w net \<Rightarrow> pool_request \<Rightarrow> free_provider \<Rightarrow> string \<Rightarrow> string \<Rightarrow> 'w \<Rightarrow> 'w reply" where
  "dispatch_aihorde net req p key base w =
     (let started = net_clock net w
      in exchange net (aihorde_submit req p key base)
        (\<lambda>v w. case Option.bind (jget ''id'' v) as_str of
             None \<Rightarrow> Some (Ret (Inl (PeOther ''no request id from aihorde'')), w)
           | Some i \<Rightarrow> aihorde_poll net base i started (started + 1000 * timeout p) w) w)"

partial_function (option) sail_poll ::
    "'w net \<Rightarrow> string \<Rightarrow> string \<Rightarrow> nat \<Rightarrow> nat \<Rightarrow> 'w \<Rightarrow> 'w reply" where
  "sail_poll net key response_id started deadline w =
     (if net_clock net w \<ge> deadline
      then Some (Ret (Inl (PeTransport ''sail poll deadline exceeded'')), w)
      else
        (case net_send net \<lparr>hr_post = False, hr_url = ''https://api.sail.dev/v1/responses/'' @ response_id,
                  hr_timeout_ms = 10000, hr_headers = [(''authorization'', ''Bearer '' @ key)], hr_body = None\<rparr> w of
           (SendFailed t msg, w) \<Rightarrow> Some (Ret (Inl (PeTransport msg)), w)
         | (Answered status ra text, w) \<Rightarrow>
             (case net_from_str net text of
                None \<Rightarrow> Some (Ret (Inl (PeOther (''invalid JSON: '' @ net_json_error net text))), w)
              | Some v \<Rightarrow>
                  if Option.bind (jget ''status'' v) as_str = Some ''completed''
                  then Some (Ret (Inr (plain_response (text_or_empty (jget ''output_text'' v))
                     None False (net_clock net w - started))), w)
                  else sail_poll net key response_id started deadline (net_sleep net 500 w))))"

definition sail_submit :: "pool_request \<Rightarrow> free_provider \<Rightarrow> string \<Rightarrow> http_request" where
  "sail_submit req p key =
     \<lparr>hr_post = True, hr_url = ''https://api.sail.dev/v1/responses'', hr_timeout_ms = 1000 * timeout p,
      hr_headers = [(''authorization'', ''Bearer '' @ key)],
      hr_body = Some (jobj [(''input'', JArr (map message_json (pr_messages req))), (''background'', JBool True)])\<rparr>"

definition sail_dispatch :: "'w net \<Rightarrow> pool_request \<Rightarrow> free_provider \<Rightarrow> string \<Rightarrow> 'w \<Rightarrow> 'w reply" where
  "sail_dispatch net req p key w =
     (let started = net_clock net w
      in exchange net (sail_submit req p key)
        (\<lambda>v w. case Option.bind (jget ''id'' v) as_str of
             None \<Rightarrow> Some (Ret (Inl (PeOther ''no response id from sail'')), w)
           | Some i \<Rightarrow> sail_poll net key i started (started + 1000 * timeout p) w) w)"

section \<open>The wire of a provider\<close>

definition subclass_dispatch ::
    "string \<Rightarrow> 'w net \<Rightarrow> pool_request \<Rightarrow> free_provider \<Rightarrow> string \<Rightarrow> 'w \<Rightarrow> 'w reply" where
  "subclass_dispatch url net req p key w =
     Some (dispatch_openai_compat net req (p\<lparr>base_url := url\<rparr>) key (1000 * timeout p) False w)"

definition dispatch_for_wire :: "'w net \<Rightarrow> pool_request \<Rightarrow> free_provider \<Rightarrow> string \<Rightarrow> 'w \<Rightarrow> 'w reply" where
  "dispatch_for_wire net req p key w =
     (case wire p of
        WireOpenAiCompat \<Rightarrow> Some (dispatch_openai_compat net req p key (1000 * timeout p) False w)
      | WireGemini \<Rightarrow> google_dispatch net req p key w
      | WireCohere \<Rightarrow> cohere_dispatch net req p key w
      | WireCloudflare \<Rightarrow> cloudflare_dispatch net req p key w
      | WireZhipu \<Rightarrow> zhipu_dispatch net req p key w
      | WireAiHorde \<Rightarrow> dispatch_aihorde net req p key ''https://aihorde.net/api/v2'' w
      | WireSail \<Rightarrow> sail_dispatch net req p key w
      | WireModelScope \<Rightarrow> subclass_dispatch ''https://api-inference.modelscope.cn/v1'' net req p key w
      | WirePollinations \<Rightarrow> subclass_dispatch ''https://text.pollinations.ai/openai'' net req p key w
      | WireElectronHub \<Rightarrow> subclass_dispatch ''https://api.electronhub.top/v1'' net req p key w
      | WireExperiential \<Rightarrow> subclass_dispatch ''https://api.experiential.ai/v1'' net req p key w)"

section \<open>Every dispatch returns\<close>

text \<open>What the loops rely on: time does not run backwards and a sleep takes the time it names.\<close>

definition ticking :: "'w net \<Rightarrow> bool" where
  "ticking net \<longleftrightarrow> (\<forall>rq w. net_clock net w \<le> net_clock net (snd (net_send net rq w))) \<and>
     (\<forall>ms w. net_clock net w + ms \<le> net_clock net (net_sleep net ms w))"

lemma send_forward: "ticking net \<Longrightarrow> net_clock net w \<le> net_clock net (snd (net_send net rq w))"
  and sleep_forward: "ticking net \<Longrightarrow> net_clock net w + ms \<le> net_clock net (net_sleep net ms w)"
  by (simp_all add: ticking_def)

lemma aihorde_poll_returns: "ticking net \<Longrightarrow> aihorde_poll net base i started deadline w \<noteq> None"
proof (induction "deadline - net_clock net w" arbitrary: w rule: less_induct)
  case less
  show ?case
  proof (cases "net_clock net w \<ge> deadline")
    case True
    then show ?thesis by (subst aihorde_poll.simps) simp
  next
    case False
    let ?rq = "\<lparr>hr_post = False, hr_url = base @ ''/generate/text/status/'' @ i,
                  hr_timeout_ms = 10000, hr_headers = [], hr_body = None\<rparr>"
    obtain a w' where s: "net_send net ?rq w = (a, w')" by force
    have "net_clock net w \<le> net_clock net w'" using send_forward [OF less.prems, of w ?rq] s by simp
    with sleep_forward [OF less.prems, of w' 500] have "net_clock net w + 500 \<le> net_clock net (net_sleep net 500 w')"
      by linarith
    with False have "deadline - net_clock net (net_sleep net 500 w') < deadline - net_clock net w" by linarith
    from less.hyps [OF this less.prems] show ?thesis
      using False s by (subst aihorde_poll.simps) (auto split: http_answer.split option.split)
  qed
qed

lemma sail_poll_returns: "ticking net \<Longrightarrow> sail_poll net key i started deadline w \<noteq> None"
proof (induction "deadline - net_clock net w" arbitrary: w rule: less_induct)
  case less
  show ?case
  proof (cases "net_clock net w \<ge> deadline")
    case True
    then show ?thesis by (subst sail_poll.simps) simp
  next
    case False
    let ?rq = "\<lparr>hr_post = False, hr_url = ''https://api.sail.dev/v1/responses/'' @ i,
                  hr_timeout_ms = 10000, hr_headers = [(''authorization'', ''Bearer '' @ key)], hr_body = None\<rparr>"
    obtain a w' where s: "net_send net ?rq w = (a, w')" by force
    have "net_clock net w \<le> net_clock net w'" using send_forward [OF less.prems, of w ?rq] s by simp
    with sleep_forward [OF less.prems, of w' 500] have "net_clock net w + 500 \<le> net_clock net (net_sleep net 500 w')"
      by linarith
    with False have "deadline - net_clock net (net_sleep net 500 w') < deadline - net_clock net w" by linarith
    from less.hyps [OF this less.prems] show ?thesis
      using False s by (subst sail_poll.simps) (auto split: http_answer.split option.split)
  qed
qed

lemma exchange_returns: "(\<And>v w. k v w \<noteq> None) \<Longrightarrow> exchange net rq k w \<noteq> None"
  by (auto simp: exchange_def split: prod.split http_answer.split option.split)

lemma dispatch_returns:
  assumes "ticking net"
  shows "dispatch_for_wire net req p key w \<noteq> None"
proof -
  note polls = aihorde_poll_returns [OF assms] sail_poll_returns [OF assms]
  have "google_dispatch net req p key w \<noteq> None" "cohere_dispatch net req p key w \<noteq> None"
    unfolding google_dispatch_def cohere_dispatch_def Let_def by (rule exchange_returns, simp)+
  moreover have "cloudflare_dispatch net req p key w \<noteq> None"
  proof (cases "split_once (CHR 0x3A) key")
    case (Some a)
    have "exchange net rq (\<lambda>v w. Some (f v w)) w \<noteq> None" for rq f
      by (rule exchange_returns) simp
    with Some show ?thesis unfolding cloudflare_dispatch_def Let_def by (simp split: prod.split del: not_None_eq)
  qed (simp add: cloudflare_dispatch_def)
  moreover have "dispatch_aihorde net req p key base w \<noteq> None" for base
    unfolding dispatch_aihorde_def Let_def
    by (rule exchange_returns) (use polls(1) in \<open>auto split: option.split\<close>)
  moreover have "sail_dispatch net req p key w \<noteq> None"
    unfolding sail_dispatch_def Let_def
    by (rule exchange_returns) (use polls(2) in \<open>auto split: option.split\<close>)
  ultimately show ?thesis
    by (cases "wire p") (simp_all add: dispatch_for_wire_def zhipu_dispatch_def subclass_dispatch_def)
qed

end
