(* ===== verification/PoolKeys.thy ===== *)
theory PoolKeys
  imports Prelude
begin

text \<open>
  The registry of pool keys, \<open>single-core/src/pool_keys.rs\<close>: one row per (platform, key id). The key
  itself lives in the keychain under \<open>secret_name\<close> and never in the table.
\<close>

record pool_key =
  pk_platform :: string
  pk_key_id :: string
  pk_secret_ref :: string
  pk_added_at :: string
  pk_last_validated_at :: "string option"
  pk_valid :: bool
  pk_disabled :: bool

definition secret_name :: "string \<Rightarrow> string \<Rightarrow> string" where
  "secret_name platform key_id = ''pool-key:'' @ platform @ '':'' @ key_id"

definition pk_is :: "string \<Rightarrow> string \<Rightarrow> pool_key \<Rightarrow> bool" where
  "pk_is platform key_id r \<longleftrightarrow> pk_platform r = platform \<and> pk_key_id r = key_id"

text \<open>\<open>INSERT .. ON CONFLICT(platform, key_id) DO UPDATE SET secret_ref\<close>.\<close>

definition add_key :: "string \<Rightarrow> string \<Rightarrow> string \<Rightarrow> pool_key list \<Rightarrow> pool_key list" where
  "add_key ts platform key_id t =
     (if exists_where (pk_is platform key_id) t
      then update_where (pk_is platform key_id) (\<lambda>r. r\<lparr>pk_secret_ref := secret_name platform key_id\<rparr>) t
      else t @ [\<lparr>pk_platform = platform, pk_key_id = key_id, pk_secret_ref = secret_name platform key_id,
                 pk_added_at = ts, pk_last_validated_at = None, pk_valid = False, pk_disabled = False\<rparr>])"

text \<open>The search for a free id; the fuel is the number of keys plus one.\<close>

fun free_key_id :: "nat \<Rightarrow> pool_key list \<Rightarrow> nat \<Rightarrow> string option" where
  "free_key_id 0 existing n = None"
| "free_key_id (Suc fuel) existing n =
     (let candidate = ''key'' @ dec_nat n
      in if \<not> list_ex (\<lambda>k. pk_key_id k = candidate) existing then Some candidate
         else free_key_id fuel existing (n + 1))"

definition next_free_key_id :: "pool_key list \<Rightarrow> string option" where
  "next_free_key_id existing =
     (if existing = [] then Some ''default''
      else free_key_id (length existing + 1) existing (length existing + 1))"

definition list_keys :: "string option \<Rightarrow> pool_key list \<Rightarrow> pool_key list" where
  "list_keys platform t =
     sort_key (\<lambda>r. pk_platform r) (sort_key (\<lambda>r. pk_key_id r)
       (case platform of Some p \<Rightarrow> filter (\<lambda>r. pk_platform r = p) t | None \<Rightarrow> t))"

definition mark_validated :: "string \<Rightarrow> string \<Rightarrow> string \<Rightarrow> bool \<Rightarrow> pool_key list \<Rightarrow> pool_key list" where
  "mark_validated ts platform key_id valid =
     update_where (pk_is platform key_id) (\<lambda>r. r\<lparr>pk_last_validated_at := Some ts, pk_valid := valid\<rparr>)"

definition disable_key :: "string \<Rightarrow> string \<Rightarrow> pool_key list \<Rightarrow> pool_key list" where
  "disable_key platform key_id = update_where (pk_is platform key_id) (\<lambda>r. r\<lparr>pk_disabled := True\<rparr>)"

definition is_disabled :: "string \<Rightarrow> string \<Rightarrow> pool_key list \<Rightarrow> bool" where
  "is_disabled platform key_id t =
     (case find (pk_is platform key_id) t of Some r \<Rightarrow> pk_disabled r | None \<Rightarrow> False)"

section \<open>A new key never overwrites one\<close>

lemma dec_nat_inj: "dec_nat m = dec_nat n \<Longrightarrow> m = n"
  by (metis digits_val_dec_nat)

lemma free_key_id_fresh: "free_key_id fuel ks n = Some i \<Longrightarrow> i \<notin> pk_key_id ` set ks"
  by (induction fuel arbitrary: n) (auto simp: Let_def list_ex_iff split: if_splits)

lemma free_key_id_found:
  "card {m. n \<le> m \<and> ''key'' @ dec_nat m \<in> pk_key_id ` set ks} < fuel \<Longrightarrow> free_key_id fuel ks n \<noteq> None"
proof (induction fuel arbitrary: n)
  case (Suc fuel)
  let ?S = "\<lambda>n. {m. n \<le> m \<and> ''key'' @ dec_nat m \<in> pk_key_id ` set ks}"
  have fin: "finite (?S n)" for n
  proof (rule finite_surj [of "pk_key_id ` set ks" _ "\<lambda>i. digits_val (drop 3 i)"])
    show "?S n \<subseteq> (\<lambda>i. digits_val (drop 3 i)) ` pk_key_id ` set ks"
    proof
      fix m assume "m \<in> ?S n"
      then have "''key'' @ dec_nat m \<in> pk_key_id ` set ks" by simp
      moreover have "m = digits_val (drop 3 (''key'' @ dec_nat m))" by (simp add: digits_val_dec_nat)
      ultimately show "m \<in> (\<lambda>i. digits_val (drop 3 i)) ` pk_key_id ` set ks" by (metis image_eqI)
    qed
  qed simp
  show ?case
  proof (cases "''key'' @ dec_nat n \<in> pk_key_id ` set ks")
    case True
    then have "?S n = insert n (?S (n + 1))" by (auto simp: Suc_le_eq le_less)
    with fin [of "n + 1"] have "card (?S n) = card (?S (n + 1)) + 1" by simp
    with Suc.prems have "card (?S (n + 1)) < fuel" by linarith
    from Suc.IH [OF this] True show ?thesis by (auto simp: Let_def list_ex_iff)
  next
    case False
    then have "\<not> list_ex (\<lambda>k. pk_key_id k = ''key'' @ dec_nat n) ks" by (force simp: list_ex_iff)
    then show ?thesis by (simp add: Let_def)
  qed
qed simp

text \<open>A key added to a platform under the id that \<open>next_free_key_id\<close> picks is a new row: the search
  ends, the id is not taken, and every other row is as it was.\<close>

theorem next_free_key_id_fresh:
  "\<exists>i. next_free_key_id ks = Some i \<and> i \<notin> pk_key_id ` set ks \<and>
     (\<exists>r. add_key ts p i ks = ks @ [r] \<and> pk_platform r = p \<and> pk_key_id r = i \<and> \<not> pk_disabled r)"
proof -
  have "card {m. length ks + 1 \<le> m \<and> ''key'' @ dec_nat m \<in> pk_key_id ` set ks} \<le> card (pk_key_id ` set ks)"
  proof (rule card_inj_on_le)
    show "inj_on (\<lambda>m. ''key'' @ dec_nat m) {m. length ks + 1 \<le> m \<and> ''key'' @ dec_nat m \<in> pk_key_id ` set ks}"
      by (rule inj_onI) (simp add: dec_nat_inj)
  qed auto
  also have "\<dots> \<le> length ks" by (metis card_image_le card_length le_trans List.finite_set)
  finally have "free_key_id (length ks + 1) ks (length ks + 1) \<noteq> None" by (intro free_key_id_found) simp
  then have "next_free_key_id ks \<noteq> None" unfolding next_free_key_id_def by (cases "ks = []") simp_all
  then obtain i where i: "next_free_key_id ks = Some i" by blast
  then have fresh: "i \<notin> pk_key_id ` set ks"
    by (auto simp: next_free_key_id_def dest: free_key_id_fresh simp del: free_key_id.simps split: if_splits)
  then have "\<not> exists_where (pk_is p i) ks"
    by (force simp: exists_where_def list_ex_iff pk_is_def)
  with i fresh show ?thesis by (simp add: add_key_def)
qed

end
