(* ===== verification/Bandit.thy ===== *)
theory Bandit
  imports Complex_Main Cooldown Pools PoolKeys
begin

text \<open>
  The scorer that ranks pool candidates, \<open>pool/bandit.rs\<close>. An \<open>f64\<close> is a real number (rounding is left
  out); the xorshift generator is on \<open>u64\<close>, and the process-wide sample counter is an argument that is
  returned advanced.
\<close>

record outcome_row =
  oc_platform :: string
  oc_model :: string
  oc_key_id :: string
  oc_ok :: bool
  oc_latency_ms :: int
  oc_tokens :: int
  oc_at_ms :: int

definition RETENTION_MS :: int where
  "RETENTION_MS = 7 * 24 * 60 * 60 * 1000"

definition HALF_LIFE_DAYS :: real where
  "HALF_LIFE_DAYS = 2"

definition record_outcome ::
    "string \<Rightarrow> string \<Rightarrow> string \<Rightarrow> bool \<Rightarrow> nat \<Rightarrow> u64 \<Rightarrow> int \<Rightarrow> outcome_row list \<Rightarrow> outcome_row list" where
  "record_outcome platform model key ok latency_ms tokens at_ms t =
     delete_where (\<lambda>r. oc_at_ms r < at_ms - RETENTION_MS)
       (t @ [\<lparr>oc_platform = platform, oc_model = model, oc_key_id = key, oc_ok = ok,
              oc_latency_ms = as_i64 (word_of_nat latency_ms), oc_tokens = as_i64 tokens, oc_at_ms = at_ms\<rparr>])"

definition outcome_weight :: "int \<Rightarrow> int \<Rightarrow> real" where
  "outcome_weight now_ms at_ms =
     (let age_days = real_of_int (max (now_ms - at_ms) 0) / (24 * 60 * 60 * 1000)
      in (1 / 2) powr (age_days / HALF_LIFE_DAYS))"

definition posterior ::
    "string \<Rightarrow> string \<Rightarrow> string \<Rightarrow> int \<Rightarrow> outcome_row list \<Rightarrow> real \<times> real" where
  "posterior platform model key now_ms t =
     (let rows = filter (\<lambda>r. oc_platform r = platform \<and> oc_model r = model \<and> oc_key_id r = key \<and>
                          oc_at_ms r \<ge> now_ms - RETENTION_MS) t;
          (s, f) = foldl (\<lambda>(s, f) r. if oc_ok r then (s + outcome_weight now_ms (oc_at_ms r), f)
                                     else (s, f + outcome_weight now_ms (oc_at_ms r))) (0, 0) rows
      in (1 + s, 1 + f))"

definition clamp01 :: "real \<Rightarrow> real" where
  "clamp01 x = max 0 (min 1 x)"

unbundle bit_operations_syntax

definition xorshift :: "u64 \<Rightarrow> u64" where
  "xorshift seed =
     (let x = seed * 0x9E3779B97F4A7C15 + 1;
          x = x XOR push_bit 13 x;
          x = x XOR drop_bit 7 x
      in x XOR push_bit 17 x)"

definition next_seed :: "u64 \<Rightarrow> int \<Rightarrow> u64" where
  "next_seed counter now_ms = counter XOR as_u64 now_ms"

definition thompson_sample :: "real \<Rightarrow> real \<Rightarrow> u64 \<Rightarrow> real" where
  "thompson_sample alpha beta seed =
     (let mean = alpha / (alpha + beta);
          concentration = alpha + beta;
          spread = min (1 / (1 + concentration)) (1 / 2);
          jitter = real (unat (xorshift seed)) / 2 ^ 64 * 2 - 1
      in clamp01 (mean + jitter * spread))"

definition speed_score :: "nat \<Rightarrow> nat option \<Rightarrow> real" where
  "speed_score latency_ms ttfb_ms =
     (let effective = max (unwrap_or ttfb_ms latency_ms) 1
      in clamp01 (1000 / (real effective + 1000)))"

definition intelligence_score :: "string \<Rightarrow> string \<Rightarrow> real" where
  "intelligence_score platform model =
     (case by_id platform of
        Some p \<Rightarrow> clamp01 (real (unat (intelligence_rank p)) / 10)
      | None \<Rightarrow> 1 / 2)"

datatype strategy = Balanced | Smartest | Fastest | Reliable | Custom real real real | Priority

fun weights :: "strategy \<Rightarrow> real \<times> real \<times> real" where
  "weights Balanced = (1/2, 1/4, 1/4)"
| "weights Smartest = (1/5, 1/10, 7/10)"
| "weights Reliable = (4/5, 1/10, 1/10)"
| "weights Fastest = (1/10, 4/5, 1/10)"
| "weights (Custom r s i) = (r, s, i)"
| "weights Priority = (0, 0, 0)"

definition effective_score :: "real \<Rightarrow> real \<Rightarrow> real \<Rightarrow> real" where
  "effective_score base headroom ratelimit = base * clamp01 headroom * clamp01 ratelimit"

datatype key_selection = KsAuto | KsLeastRemaining

definition select_key :: "key_selection \<Rightarrow> string \<Rightarrow> string list \<Rightarrow> string option" where
  "select_key mode platform candidates =
     (case candidates of
        [] \<Rightarrow> None
      | c # cs \<Rightarrow> if mode = KsLeastRemaining \<and> \<not> is_shared_pool platform then Some c else Some c)"

section \<open>Picking a candidate\<close>

type_synonym candidate = "string \<times> string \<times> string"

definition admissible :: "pool_db \<Rightarrow> pool_key list \<Rightarrow> int \<Rightarrow> candidate \<Rightarrow> bool" where
  "admissible db keys now_ms c =
     (case c of (platform, model, key) \<Rightarrow>
        is_benched platform model key now_ms db = None \<and> \<not> is_disabled platform key keys)"

definition candidate_score ::
    "strategy \<Rightarrow> outcome_row list \<Rightarrow> int \<Rightarrow> u64 \<Rightarrow> candidate \<Rightarrow> real" where
  "candidate_score strategy outcomes now_ms seed c =
     (case c of (platform, model, key) \<Rightarrow>
        (let (w_rel, w_speed, w_intel) = weights strategy;
             (alpha, beta) = posterior platform model key now_ms outcomes;
             reliability = thompson_sample alpha beta seed;
             base = w_rel * reliability + w_speed * speed_score 300 None
                    + w_intel * intelligence_score platform model
         in effective_score base 1 1))"

fun pick_best ::
    "(u64 \<Rightarrow> candidate \<Rightarrow> real) \<Rightarrow> int \<Rightarrow> u64 \<Rightarrow> (candidate \<times> real) option \<Rightarrow> candidate list \<Rightarrow>
     (candidate \<times> real) option \<times> u64" where
  "pick_best score now_ms counter best [] = (best, counter)"
| "pick_best score now_ms counter best (c # cs) =
     (let s = score (next_seed counter now_ms) c;
          best = (case best of
              None \<Rightarrow> Some (c, s)
            | Some (b, sb) \<Rightarrow> if s > sb then Some (c, s) else Some (b, sb))
      in pick_best score now_ms (counter + 1) best cs)"

definition pick ::
    "pool_db \<Rightarrow> pool_key list \<Rightarrow> outcome_row list \<Rightarrow> strategy \<Rightarrow> candidate list \<Rightarrow> int \<Rightarrow> u64 \<Rightarrow>
     candidate option \<times> u64" where
  "pick db keys outcomes strategy candidates now_ms counter =
     (if candidates = [] then (None, counter)
      else
        (let ok = filter (admissible db keys now_ms) candidates
         in if ok = [] then (None, counter)
            else if strategy = Priority then (Some (hd ok), counter)
            else (let (best, counter) = pick_best (candidate_score strategy outcomes now_ms) now_ms counter None ok
                  in (map_option fst best, counter))))"

section \<open>Scores are bounded\<close>

lemma clamp01_bounds: "0 \<le> clamp01 x" "clamp01 x \<le> 1"
  by (auto simp: clamp01_def)

lemma outcome_weight_bounds: "0 < outcome_weight now t" "outcome_weight now t \<le> 1"
proof -
  let ?e = "real_of_int (max (now - t) 0) / (24 * 60 * 60 * 1000) / HALF_LIFE_DAYS"
  have "(1 / 2 :: real) powr ?e \<le> (1 / 2) powr 0" by (rule powr_mono') (simp_all add: HALF_LIFE_DAYS_def)
  then show "outcome_weight now t \<le> 1" by (simp add: outcome_weight_def Let_def)
  show "0 < outcome_weight now t" by (simp add: outcome_weight_def Let_def)
qed

text \<open>The posterior counts every retained outcome with a weight in (0, 1], on the side it fell.\<close>

lemma posterior_sums:
  assumes "posterior p m k now t = (alpha, beta)"
  defines "rows \<equiv> filter (\<lambda>r. oc_platform r = p \<and> oc_model r = m \<and> oc_key_id r = k \<and> oc_at_ms r \<ge> now - RETENTION_MS) t"
  shows "alpha = 1 + sum_list (map (\<lambda>r. outcome_weight now (oc_at_ms r)) (filter oc_ok rows))"
    and "beta = 1 + sum_list (map (\<lambda>r. outcome_weight now (oc_at_ms r)) (filter (\<lambda>r. \<not> oc_ok r) rows))"
proof -
  have "foldl (\<lambda>(s, f) r. if oc_ok r then (s + outcome_weight now (oc_at_ms r), f)
            else (s, f + outcome_weight now (oc_at_ms r))) (a, b) rs =
      (a + sum_list (map (\<lambda>r. outcome_weight now (oc_at_ms r)) (filter oc_ok rs)),
       b + sum_list (map (\<lambda>r. outcome_weight now (oc_at_ms r)) (filter (\<lambda>r. \<not> oc_ok r) rs)))" for a b rs
    by (induction rs arbitrary: a b) auto
  from this [of 0 0 rows] assms(1)
  show "alpha = 1 + sum_list (map (\<lambda>r. outcome_weight now (oc_at_ms r)) (filter oc_ok rows))"
    "beta = 1 + sum_list (map (\<lambda>r. outcome_weight now (oc_at_ms r)) (filter (\<lambda>r. \<not> oc_ok r) rows))"
    by (simp_all add: posterior_def rows_def Let_def)
qed

lemma weights_convex: "strategy \<noteq> Priority \<Longrightarrow> (\<And>r s i. strategy \<noteq> Custom r s i) \<Longrightarrow>
  (case weights strategy of (r, s, i) \<Rightarrow> r + s + i = 1 \<and> 0 \<le> r \<and> 0 \<le> s \<and> 0 \<le> i)"
  by (cases strategy) auto

text \<open>With a named strategy every score lies between 0 and 1.\<close>

theorem candidate_score_bounds:
  assumes "strategy \<noteq> Priority" and "\<And>r s i. strategy \<noteq> Custom r s i"
  shows "0 \<le> candidate_score strategy outcomes now seed c \<and> candidate_score strategy outcomes now seed c \<le> 1"
proof -
  obtain p m k where c: "c = (p, m, k)" by (cases c)
  obtain r s i where w: "weights strategy = (r, s, i)" by (cases "weights strategy")
  obtain a b where ab: "posterior p m k now outcomes = (a, b)" by force
  let ?x = "thompson_sample a b seed" and ?y = "speed_score 300 None" and ?z = "intelligence_score p m"
  have x: "0 \<le> ?x \<and> ?x \<le> 1" "0 \<le> ?y \<and> ?y \<le> 1" "0 \<le> ?z \<and> ?z \<le> 1"
    by (auto simp: thompson_sample_def speed_score_def intelligence_score_def Let_def clamp01_bounds
        split: option.split)
  have q: "r + s + i = 1" "0 \<le> r" "0 \<le> s" "0 \<le> i" using weights_convex [OF assms] w by simp_all
  have "candidate_score strategy outcomes now seed c = r * ?x + s * ?y + i * ?z"
    by (simp add: c candidate_score_def w ab effective_score_def clamp01_def)
  moreover have "0 \<le> r * ?x + s * ?y + i * ?z" using q x by simp
  moreover have "r * ?x + s * ?y + i * ?z \<le> r * 1 + s * 1 + i * 1"
    using q x by (intro add_mono mult_left_mono) simp_all
  ultimately show ?thesis using q(1) by simp
qed

theorem candidate_score_bounds_witness:
  "0 \<le> candidate_score Balanced [] 0 7 (''groq'', ''groq'', ''default'')"
  using candidate_score_bounds [of Balanced "[]" 0 7 "(''groq'', ''groq'', ''default'')"] by simp

section \<open>The pick\<close>

lemma pick_best_spec:
  "pick_best score now n best cs = (r, n') \<Longrightarrow>
   n' = n + word_of_nat (length cs) \<and>
   (case best of
      None \<Rightarrow> if cs = [] then r = None
        else \<exists>j < length cs. r = Some (cs ! j, score (next_seed (n + word_of_nat j) now) (cs ! j)) \<and>
          (\<forall>i < length cs. score (next_seed (n + word_of_nat i) now) (cs ! i)
             \<le> score (next_seed (n + word_of_nat j) now) (cs ! j))
    | Some (b, sb) \<Rightarrow> \<exists>c s. r = Some (c, s) \<and> sb \<le> s \<and>
        (\<forall>i < length cs. score (next_seed (n + word_of_nat i) now) (cs ! i) \<le> s) \<and>
        (c = b \<and> s = sb \<or> (\<exists>j < length cs. c = cs ! j \<and> s = score (next_seed (n + word_of_nat j) now) (cs ! j))))"
proof (induction cs arbitrary: n best)
  case Nil
  then show ?case by (auto split: option.splits)
next
  case (Cons c cs)
  let ?s = "score (next_seed n now) c"
  let ?best = "case best of None \<Rightarrow> Some (c, ?s) | Some (b, sb) \<Rightarrow> if ?s > sb then Some (c, ?s) else Some (b, sb)"
  have "?best \<noteq> None" by (cases best; cases c) auto
  then obtain z where z: "?best = Some z" by blast
  obtain b0 s0 where "z = (b0, s0)" by (rule prod.exhaust)
  with z have b0: "?best = Some (b0, s0)" by simp
  have shift: "n + 1 + word_of_nat i = n + word_of_nat (Suc i)" for i by simp
  from Cons.prems have "pick_best score now (n + 1) ?best cs = (r, n')" by (simp add: Let_def)
  from Cons.IH [OF this] have n': "n' = n + word_of_nat (length (c # cs))"
    and "\<exists>d s. r = Some (d, s) \<and> s0 \<le> s \<and>
        (\<forall>i < length cs. score (next_seed (n + word_of_nat (Suc i)) now) (cs ! i) \<le> s) \<and>
        (d = b0 \<and> s = s0 \<or> (\<exists>j < length cs. d = cs ! j \<and> s = score (next_seed (n + word_of_nat (Suc j)) now) (cs ! j)))"
    unfolding b0 shift by simp_all
  then obtain d s where d: "r = Some (d, s)" "s0 \<le> s"
    "\<And>i. i < length cs \<Longrightarrow> score (next_seed (n + word_of_nat (Suc i)) now) (cs ! i) \<le> s"
    "d = b0 \<and> s = s0 \<or> (\<exists>j < length cs. d = cs ! j \<and> s = score (next_seed (n + word_of_nat (Suc j)) now) (cs ! j))"
    by blast
  have here: "?s \<le> s0" using b0 by (cases best) (auto split: if_splits)
  have all: "score (next_seed (n + word_of_nat i) now) ((c # cs) ! i) \<le> s" if "i < length (c # cs)" for i
    using that d(2,3) here by (cases i) (auto intro: order_trans)
  have from_tail: "\<exists>j < length (c # cs). d = (c # cs) ! j \<and> s = score (next_seed (n + word_of_nat j) now) ((c # cs) ! j)"
    if "\<exists>j < length cs. d = cs ! j \<and> s = score (next_seed (n + word_of_nat (Suc j)) now) (cs ! j)"
    using that by (metis Suc_less_eq length_Cons nth_Cons_Suc)
  have from_head: "\<exists>j < length (c # cs). d = (c # cs) ! j \<and> s = score (next_seed (n + word_of_nat j) now) ((c # cs) ! j)"
    if "d = c" "s = ?s"
    using that by (intro exI [of _ 0]) simp
  show ?case
  proof (cases best)
    case None
    then have "b0 = c" "s0 = ?s" using b0 by auto
    with d(4) from_head from_tail
    have "\<exists>j < length (c # cs). d = (c # cs) ! j \<and> s = score (next_seed (n + word_of_nat j) now) ((c # cs) ! j)"
      by blast
    with d(1) all n' None show ?thesis by (simp del: length_Cons nth_Cons_Suc) metis
  next
    case (Some b)
    obtain bb sb where b: "b = (bb, sb)" by (cases b)
    have "sb \<le> s0" "b0 = bb \<and> s0 = sb \<or> b0 = c \<and> s0 = ?s"
      using b0 Some b by (auto split: if_splits)
    with d(2,4) from_head from_tail have "sb \<le> s"
      "d = bb \<and> s = sb \<or> (\<exists>j < length (c # cs). d = (c # cs) ! j \<and> s = score (next_seed (n + word_of_nat j) now) ((c # cs) ! j))"
      by auto
    with d(1) all n' Some b show ?thesis by (simp del: length_Cons nth_Cons_Suc)
  qed
qed

text \<open>The pick is an admissible candidate whenever there is one, the first in order under
  \<open>Priority\<close> and otherwise one whose sampled score no other admissible candidate exceeds.\<close>

theorem pick_spec:
  assumes "pick db keys outcomes strategy cs now n = (r, n')"
  shows "(r = None \<longleftrightarrow> (\<forall>c \<in> set cs. \<not> admissible db keys now c)) \<and>
    (\<forall>c. r = Some c \<longrightarrow> c \<in> set cs \<and> admissible db keys now c \<and>
       (if strategy = Priority then c = hd (filter (admissible db keys now) cs)
        else let ok = filter (admissible db keys now) cs;
                 score = (\<lambda>i. candidate_score strategy outcomes now (next_seed (n + word_of_nat i) now) (ok ! i))
             in \<exists>j < length ok. c = ok ! j \<and> (\<forall>i < length ok. score i \<le> score j)))"
proof -
  let ?ok = "filter (admissible db keys now) cs"
  show ?thesis
  proof (cases "?ok = []")
    case True
    with assms have "r = None" by (auto simp: pick_def split: if_splits)
    moreover have "\<forall>c \<in> set cs. \<not> admissible db keys now c" using True by (simp add: filter_empty_conv)
    ultimately show ?thesis by simp
  next
    case False
    then have ex: "\<not> (\<forall>c \<in> set cs. \<not> admissible db keys now c)" by (simp add: filter_empty_conv)
    have cs: "cs \<noteq> []" using False by auto
    show ?thesis
    proof (cases "strategy = Priority")
      case True
      with assms False cs have "r = Some (hd ?ok)" by (simp add: pick_def Let_def)
      moreover have "hd ?ok \<in> set ?ok" using False by (rule hd_in_set)
      ultimately show ?thesis using True ex by auto
    next
      case np: False
      obtain b m where b: "pick_best (candidate_score strategy outcomes now) now n None ?ok = (b, m)" by force
      with assms False np cs have r: "r = map_option fst b" by (simp add: pick_def Let_def)
      from pick_best_spec [OF b] False obtain j where j: "j < length ?ok"
        "b = Some (?ok ! j, candidate_score strategy outcomes now (next_seed (n + word_of_nat j) now) (?ok ! j))"
        "\<And>i. i < length ?ok \<Longrightarrow> candidate_score strategy outcomes now (next_seed (n + word_of_nat i) now) (?ok ! i)
           \<le> candidate_score strategy outcomes now (next_seed (n + word_of_nat j) now) (?ok ! j)" by auto
      then have "r = Some (?ok ! j)" "?ok ! j \<in> set ?ok" using r by (simp_all del: set_filter)
      with j ex np show ?thesis by (auto simp: Let_def)
    qed
  qed
qed

theorem pick_spec_witness:
  "\<exists>n'. pick empty_pool_db [] [] Priority [(''groq'', ''groq'', ''default'')] 0 0 =
      (Some (''groq'', ''groq'', ''default''), n')"
proof -
  obtain r n' where p: "pick empty_pool_db [] [] Priority [(''groq'', ''groq'', ''default'')] 0 0 = (r, n')" by force
  have "admissible empty_pool_db [] 0 (''groq'', ''groq'', ''default'')"
    by (simp add: admissible_def is_benched_def load_row_def empty_pool_db_def is_disabled_def)
  with pick_spec [OF p] have "r \<noteq> None" by auto
  with pick_spec [OF p] p show ?thesis by auto
qed

end
