(* ===== verification/PoolAgent.thy ===== *)
theory PoolAgent
  imports PoolNative Bandit Ledger Redact
begin

text \<open>
  The pool agent, \<open>crates/single-runtime/src/pool_agent.rs\<close>: the loop that picks a candidate, takes a
  lease, injects the handoff, dispatches, and records what came back, until one candidate answers or
  none is left. The dispatcher and the secret lookup are arguments as in the code; \<open>real_env\<close> puts the
  wires of \<open>PoolNative\<close> there. The connection is \<open>pool_state\<close>: the pool tables, the in-memory usage
  events, the outcomes, the key table, the handoff store and the two process-wide counters.
\<close>

record pool_state =
  po_db :: pool_db
  po_mem :: "mem_event list"
  po_outcomes :: "outcome_row list"
  po_keys :: "pool_key list"
  po_store :: handoff_store
  po_lease_no :: nat
  po_samples :: u64

record 'w agent_env =
  ae_dispatch :: "pool_request \<Rightarrow> free_provider \<Rightarrow> string \<Rightarrow> 'w \<Rightarrow> 'w reply"
  ae_secret :: "string \<Rightarrow> string \<Rightarrow> 'w \<Rightarrow> string option"
  ae_now_ms :: "'w \<Rightarrow> int"
  ae_instant_ns :: "'w \<Rightarrow> int"
  ae_insert_ok :: bool

datatype pool_agent_outcome = AgentOk pool_response | Exhausted int

definition estimate_tokens :: "string \<Rightarrow> u64" where
  "estimate_tokens text = max (word_of_nat (length text) div 4) 1"

definition candidates_from_keys :: "pool_key list \<Rightarrow> candidate list" where
  "candidates_from_keys t =
     List.map_filter (\<lambda>k. map_option (\<lambda>p. (pk_platform k, fp_id p, pk_key_id k)) (by_id (pk_platform k)))
       (filter (\<lambda>k. \<not> pk_disabled k) (list_keys None t))"

text \<open>The bench that an error earns; an abandoned hedge earns none.\<close>

fun bench_kind_of :: "pool_error \<Rightarrow> bench_kind option" where
  "bench_kind_of (PeRateLimited (Some d)) = Some (AuthoritativeFor (1000 * unat d))"
| "bench_kind_of (PeRateLimited None) = Some Escalated"
| "bench_kind_of PePaymentRequired = Some PaymentRequired"
| "bench_kind_of PeTierGate = Some TierGate"
| "bench_kind_of PeAuthFailed = Some AuthBenched"
| "bench_kind_of (PeTransport m) = Some LocalError"
| "bench_kind_of PeHedgeAbort = None"
| "bench_kind_of PeToolsUnsupported = Some LocalError"
| "bench_kind_of (PeOther m) = Some LocalError"

text \<open>Recording an answer: the usage rows, the end of the escalation, the good outcome.\<close>

definition record_answer ::
    "bool \<Rightarrow> candidate \<Rightarrow> pool_response \<Rightarrow> int \<Rightarrow> pool_state \<Rightarrow> pool_state" where
  "record_answer insert_ok c resp now st =
     (case c of (platform, model, key) \<Rightarrow>
        (let (db, mem) = record_usage insert_ok platform model key Request 1 now (po_db st, po_mem st);
             (db, mem) = (case ps_usage_tokens resp of
                 Some n \<Rightarrow> record_usage insert_ok platform model key Tokens n now (db, mem)
               | None \<Rightarrow> (db, mem));
             db = clear_hits platform model key db
         in st\<lparr>po_db := db, po_mem := mem,
               po_outcomes := record_outcome platform model key True (ps_latency_ms resp)
                 (unwrap_or (ps_usage_tokens resp) 0) now (po_outcomes st)\<rparr>))"

text \<open>Recording a failure: the bad outcome and the bench, whose end is returned.\<close>

definition record_failure ::
    "candidate \<Rightarrow> pool_error \<Rightarrow> nat \<Rightarrow> int \<Rightarrow> pool_state \<Rightarrow> int option \<times> pool_state" where
  "record_failure c err latency_ms now st =
     (case c of (platform, model, key) \<Rightarrow>
        (let st = st\<lparr>po_outcomes := record_outcome platform model key False latency_ms 0 now (po_outcomes st)\<rparr>
         in case bench_kind_of err of
              None \<Rightarrow> (None, st)
            | Some kind \<Rightarrow>
                (let (until, db) = bench platform model key kind now (po_db st)
                 in (Some until, st\<lparr>po_db := db\<rparr>))))"

definition min_until :: "int option \<Rightarrow> int option \<Rightarrow> int option" where
  "min_until earliest until =
     (case until of None \<Rightarrow> earliest
      | Some u \<Rightarrow> Some (case earliest of None \<Rightarrow> u | Some e \<Rightarrow> min e u))"

definition elapsed_ms :: "int \<Rightarrow> int \<Rightarrow> nat" where
  "elapsed_ms started now = nat (max 0 (now - started)) div 1000000"

text \<open>One turn of the loop with the picked candidate: \<open>Inl\<close> is what \<open>execute\<close> returns, \<open>Inr\<close> goes on
  with the next candidate and the earliest recovery seen.\<close>

definition attempt ::
    "'w agent_env \<Rightarrow> string \<Rightarrow> string \<Rightarrow> int \<Rightarrow> candidate \<Rightarrow> int option \<Rightarrow> pool_state \<Rightarrow> 'w \<Rightarrow>
     ((pool_agent_outcome result + int option) outcome \<times> pool_state \<times> 'w) option" where
  "attempt env prompt skey now c earliest st w =
     (case c of (platform, model, key_id) \<Rightarrow>
        (case by_id platform of
           None \<Rightarrow> Some (Ret (Inr earliest), st, w)
         | Some provider \<Rightarrow>
             (case ae_secret env platform key_id w of
                None \<Rightarrow> Some (Ret (Inr earliest), st, w)
              | Some secret \<Rightarrow>
                  (case acquire_lease (ae_now_ms env w) (po_lease_no st) platform model key_id
                      (estimate_tokens prompt) (po_db st) of
                     (Inl e, db) \<Rightarrow>
                       Some (Ret (Inl (Inl e)), st\<lparr>po_db := db, po_lease_no := po_lease_no st + 1\<rparr>, w)
                   | (Inr lease, db) \<Rightarrow>
                       (let (_, messages, store) = inject skey platform model (ae_instant_ns env w)
                              [\<lparr>role = ''user'', content = prompt\<rparr>] (po_store st);
                            st = st\<lparr>po_db := db, po_lease_no := po_lease_no st + 1, po_store := store\<rparr>;
                            req = \<lparr>pr_messages = messages, pr_tools = [], pr_max_tokens = None,
                                   pr_requires_tools = False\<rparr>;
                            started = ae_instant_ns env w
                        in case ae_dispatch env req provider secret w of
                             None \<Rightarrow> None
                           | Some (Panic, w) \<Rightarrow> Some (Panic, st, w)
                           | Some (Ret result, w) \<Rightarrow>
                               (let st = st\<lparr>po_db := release_lease (lease_id lease) (po_db st)\<rparr>;
                                    elapsed = elapsed_ms started (ae_instant_ns env w)
                                in case result of
                                     Inr resp \<Rightarrow>
                                       (let resp = resp\<lparr>ps_latency_ms := max (ps_latency_ms resp) elapsed\<rparr>
                                        in Some (Ret (Inl (Inr (AgentOk resp))),
                                             record_answer (ae_insert_ok env) c resp now st, w))
                                   | Inl err \<Rightarrow>
                                       (let (until, st) = record_failure c err elapsed now st
                                        in Some (Ret (Inr (min_until earliest until)), st, w))))))))"

lemma pick_best_member:
  "pick_best score now n best cs = (Some (c, s), n') \<Longrightarrow>
   (\<forall>b. best = Some b \<longrightarrow> fst b \<in> A) \<Longrightarrow> set cs \<subseteq> A \<Longrightarrow> c \<in> A"
proof (induction cs arbitrary: n best)
  case (Cons d cs)
  show ?case
  proof (cases best)
    case None
    from Cons.prems None show ?thesis by (auto simp: Let_def intro: Cons.IH)
  next
    case (Some b)
    obtain x y where b: "b = (x, y)" by (cases b)
    from Cons.prems Some b show ?thesis by (auto simp: Let_def split: if_splits intro: Cons.IH)
  qed
qed auto

lemma pick_admissible:
  "pick db keys outcomes strategy cs now n = (Some c, n') \<Longrightarrow> c \<in> set cs \<and> admissible db keys now c"
proof -
  assume p: "pick db keys outcomes strategy cs now n = (Some c, n')"
  let ?ok = "filter (admissible db keys now) cs"
  have ne: "?ok \<noteq> []" "cs \<noteq> []" using p by (auto simp: pick_def split: if_splits)
  have "c \<in> set ?ok"
  proof (cases "strategy = Priority")
    case True
    with p ne have "c = hd ?ok" by (simp add: pick_def Let_def)
    with hd_in_set [OF ne(1)] show ?thesis by auto
  next
    case False
    obtain b m where b: "pick_best (candidate_score strategy outcomes now) now n None ?ok = (b, m)" by force
    with p ne False obtain s where "b = Some (c, s)" by (auto simp: pick_def Let_def)
    with b show ?thesis by (intro pick_best_member [of _ now n None ?ok c s m]) auto
  qed
  then show ?thesis by simp
qed

lemmas pick_member = pick_admissible [THEN conjunct1]

lemma pick_none:
  assumes "pick db keys outcomes strategy cs now n = (None, n')" and "c \<in> set cs"
  shows "\<not> admissible db keys now c"
proof (rule ccontr)
  let ?ok = "filter (admissible db keys now) cs"
  assume "\<not> \<not> admissible db keys now c"
  with assms(2) have ne: "?ok \<noteq> []" "cs \<noteq> []" by (auto simp: filter_empty_conv)
  obtain b m where b: "pick_best (candidate_score strategy outcomes now) now n None ?ok = (b, m)" by force
  with ne pick_best_spec [OF b] have "b \<noteq> None" by (auto simp del: not_None_eq)
  with assms(1) ne b show False by (auto simp: pick_def Let_def split: if_splits)
qed

lemma remaining_shrinks:
  "c \<in> set cs \<Longrightarrow> c \<notin> A \<Longrightarrow>
   length (filter (\<lambda>x. x \<noteq> c \<and> x \<notin> A) cs) < length (filter (\<lambda>x. x \<notin> A) cs)"
proof (induction cs)
  case (Cons d cs)
  have "length (filter (\<lambda>x. x \<noteq> c \<and> x \<notin> A) ds) \<le> length (filter (\<lambda>x. x \<notin> A) ds)" for ds
    by (induction ds) auto
  from Cons this [of cs] show ?case by (cases "d = c") (auto simp: less_Suc_eq_le)
qed simp

function (sequential) execute_loop ::
    "'w agent_env \<Rightarrow> string \<Rightarrow> strategy \<Rightarrow> candidate list \<Rightarrow> string \<Rightarrow> candidate list \<Rightarrow> int option \<Rightarrow>
     pool_state \<Rightarrow> 'w \<Rightarrow> (pool_agent_outcome result outcome \<times> pool_state \<times> 'w) option" where
  "execute_loop env prompt strategy candidates skey attempted earliest st w =
     (let now = ae_now_ms env w;
          remaining = filter (\<lambda>c. c \<notin> set attempted) candidates
      in case pick (po_db st) (po_keys st) (po_outcomes st) strategy remaining now (po_samples st) of
           (None, n) \<Rightarrow>
             Some (Ret (Inr (Exhausted (unwrap_or earliest (ae_now_ms env w)))), st\<lparr>po_samples := n\<rparr>, w)
         | (Some c, n) \<Rightarrow>
             (case attempt env prompt skey now c earliest (st\<lparr>po_samples := n\<rparr>) w of
                None \<Rightarrow> None
              | Some (Panic, st, w) \<Rightarrow> Some (Panic, st, w)
              | Some (Ret (Inl r), st, w) \<Rightarrow> Some (Ret r, st, w)
              | Some (Ret (Inr earliest), st, w) \<Rightarrow>
                  execute_loop env prompt strategy candidates skey (attempted @ [c]) earliest st w))"
  by pat_completeness auto

termination
proof (relation "measure (\<lambda>(env, prompt, strategy, candidates, skey, attempted, earliest, st, w).
    length (filter (\<lambda>c. c \<notin> set attempted) candidates))", goal_cases)
  case 1
  show ?case by simp
next
  case (2 env prompt strategy candidates skey attempted earliest st w now remaining picked n c)
  then have c: "c \<in> set candidates" "c \<notin> set attempted" by (auto dest!: pick_member [OF sym])
  then show ?case by (simp add: remaining_shrinks)
qed

declare execute_loop.simps [simp del]

definition execute ::
    "'w agent_env \<Rightarrow> string \<Rightarrow> strategy \<Rightarrow> candidate list \<Rightarrow> string option \<Rightarrow> pool_state \<Rightarrow> 'w \<Rightarrow>
     (pool_agent_outcome result outcome \<times> pool_state \<times> 'w) option" where
  "execute env prompt strategy candidates explicit st w =
     execute_loop env prompt strategy candidates (session_key explicit prompt) [] None st w"

text \<open>The environment of \<open>run_as_task\<close>: the native wires over the network, and the key chain.\<close>

definition real_env :: "'w net \<Rightarrow> 'w vault \<Rightarrow> bool \<Rightarrow> 'w agent_env" where
  "real_env net va insert_ok =
     \<lparr>ae_dispatch = dispatch_for_wire net,
      ae_secret = (\<lambda>platform key_id w. case va_get va (secret_name platform key_id) w of
          Inr found \<Rightarrow> found | Inl _ \<Rightarrow> None),
      ae_now_ms = net_wall_ms net,
      ae_instant_ns = (\<lambda>w. 1000000 * int (net_clock net w)),
      ae_insert_ok = insert_ok\<rparr>"

record token_usage =
  tu_prompt_tokens :: u64
  tu_completion_tokens :: u64

record run_outcome =
  ro_success :: bool
  ro_stdout :: string
  ro_stderr :: string
  ro_exit_code :: "int option"
  ro_timed_out :: bool
  ro_cancelled :: bool
  ro_duration_ms :: nat
  ro_usage :: "token_usage option"

definition run_as_task ::
    "'w net \<Rightarrow> 'w vault \<Rightarrow> bool \<Rightarrow> string \<Rightarrow> string option \<Rightarrow> pool_state \<Rightarrow> redact_state \<Rightarrow> 'w \<Rightarrow>
     (run_outcome result outcome \<times> pool_state \<times> redact_state \<times> 'w) option" where
  "run_as_task net va insert_ok prompt session st rd w =
     (let candidates = candidates_from_keys (po_keys st); started = net_clock net w
      in case resolve_aliases va (net_wall_ms net w) prompt rd w of
           (Inl e, rd, w) \<Rightarrow> Some (Ret (Inl e), st, rd, w)
         | (Inr resolved_prompt, rd, w) \<Rightarrow>
             (case execute (real_env net va insert_ok) resolved_prompt Balanced candidates session st w of
                None \<Rightarrow> None
              | Some (Panic, st, w) \<Rightarrow> Some (Panic, st, rd, w)
              | Some (Ret (Inl e), st, w) \<Rightarrow> Some (Ret (Inl e), st, rd, w)
              | Some (Ret (Inr (AgentOk resp)), st, w) \<Rightarrow>
                  Some (Ret (Inr \<lparr>ro_success = True, ro_stdout = ps_content resp, ro_stderr = '''',
                    ro_exit_code = Some 0, ro_timed_out = False, ro_cancelled = False,
                    ro_duration_ms = net_clock net w - started, ro_usage = None\<rparr>), st, rd, w)
              | Some (Ret (Inr (Exhausted earliest_recovery_ms)), st, w) \<Rightarrow>
                  Some (Ret (Inr \<lparr>ro_success = False, ro_stdout = '''',
                    ro_stderr = ''single-pool: rate limited '' @ [CHR 0xE2, CHR 0x80, CHR 0x94] @
                      '' every keyed provider is exhausted or benched, earliest recovery at '' @
                      dec_int earliest_recovery_ms,
                    ro_exit_code = Some 1, ro_timed_out = False, ro_cancelled = False,
                    ro_duration_ms = net_clock net w - started, ro_usage = None\<rparr>), st, rd, w)))"

section \<open>One attempt\<close>

lemma lease_taken_and_released:
  assumes "acquire_lease t n p m k e db = (Inr l, db1)"
  shows "release_lease (lease_id l) db1 = db"
proof -
  have l: "\<not> (\<exists>x \<in> set (pool_leases db). lease_id x = lease_id l)" "db1 = db\<lparr>pool_leases := pool_leases db @ [l]\<rparr>"
    using assms by (auto simp: acquire_lease_def Let_def exists_where_iff split: if_splits)
  then have "delete_where (\<lambda>x. lease_id x = lease_id l) (pool_leases db @ [l]) = pool_leases db"
    by (auto simp: delete_where_def filter_id_conv)
  with l show ?thesis by (simp add: release_lease_def)
qed

text \<open>What an attempt can come to. The database it ends with is the one it started with, but for
  the records of the answer or of the failure; the key table is never written.\<close>

lemma attempt_cases:
  assumes "attempt env prompt skey now c earliest st w = Some (Ret r, st', w')"
  obtains
    (skipped) "r = Inr earliest" "st' = st" "w' = w"
      "by_id (fst c) = None \<or> ae_secret env (fst c) (snd (snd c)) w = None"
  | (lease_refused) e where "r = Inl (Inl e)" "w' = w" "po_db st' = po_db st" "po_keys st' = po_keys st"
  | (answered) p s req resp lat store where "by_id (fst c) = Some p" "ae_secret env (fst c) (snd (snd c)) w = Some s"
      "ae_dispatch env req p s w = Some (Ret (Inr resp), w')"
      "r = Inl (Inr (AgentOk (resp\<lparr>ps_latency_ms := lat\<rparr>)))"
      "st' = record_answer (ae_insert_ok env) c (resp\<lparr>ps_latency_ms := lat\<rparr>) now
         (st\<lparr>po_lease_no := po_lease_no st + 1, po_store := store\<rparr>)"
  | (failed) p s req err lat store until where "by_id (fst c) = Some p" "ae_secret env (fst c) (snd (snd c)) w = Some s"
      "ae_dispatch env req p s w = Some (Ret (Inl err), w')"
      "r = Inr (min_until earliest until)"
      "(until, st') = record_failure c err lat now (st\<lparr>po_lease_no := po_lease_no st + 1, po_store := store\<rparr>)"
proof -
  obtain platform model key where c: "c = (platform, model, key)" by (cases c)
  show thesis
  proof (cases "by_id platform = None \<or> ae_secret env platform key w = None")
    case True
    with assms c show ?thesis by (intro skipped) (auto simp: attempt_def split: option.splits)
  next
    case False
    then obtain p s where p: "by_id platform = Some p" "ae_secret env platform key w = Some s" by auto
    obtain a db where a: "acquire_lease (ae_now_ms env w) (po_lease_no st) platform model key
        (estimate_tokens prompt) (po_db st) = (a, db)" by (rule prod.exhaust)
    show ?thesis
    proof (cases a)
      case (Inl e)
      with a have "db = po_db st" by (auto simp: acquire_lease_def Let_def split: if_splits)
      with assms p a Inl c show ?thesis by (intro lease_refused [of e]) (auto simp: attempt_def)
    next
      case (Inr l)
      with a have rel: "release_lease (lease_id l) db = po_db st" using lease_taken_and_released by blast
      obtain b messages store where i: "inject skey platform model (ae_instant_ns env w)
          [\<lparr>role = ''user'', content = prompt\<rparr>] (po_store st) = (b, messages, store)" by (rule prod_cases3)
      let ?req = "\<lparr>pr_messages = messages, pr_tools = [], pr_max_tokens = None, pr_requires_tools = False\<rparr>"
      let ?st = "st\<lparr>po_db := po_db st, po_lease_no := po_lease_no st + 1, po_store := store\<rparr>"
      have st: "?st = st\<lparr>po_lease_no := po_lease_no st + 1, po_store := store\<rparr>" by simp
      obtain res where d: "ae_dispatch env ?req p s w = Some (Ret res, w')"
        using assms p a Inr c i
        by (auto simp: attempt_def Let_def split: option.splits prod.splits outcome.splits sum.splits)
      show ?thesis
      proof (cases res)
        case (Inr resp)
        with assms p a \<open>a = Inr l\<close> c i d rel show ?thesis
          by (intro answered [of p s ?req resp _ store]) (auto simp: attempt_def Let_def st)
      next
        case (Inl err)
        let ?lat = "elapsed_ms (ae_instant_ns env w) (ae_instant_ns env w')"
        obtain u st2 where u: "record_failure c err ?lat now ?st = (u, st2)" by (rule prod.exhaust)
        with assms p a Inl \<open>a = Inr l\<close> c i d rel show ?thesis
          by (intro failed [of p s ?req err u ?lat store]) (auto simp: attempt_def Let_def st)
      qed
    qed
  qed
qed

section \<open>The loop\<close>

text \<open>Whatever holds at the start and survives each failed attempt holds at the end of the loop, or
  before the attempt that ends it.\<close>

lemma execute_loop_rule:
  assumes "execute_loop env prompt strategy cs skey a0 e0 st w = Some (Ret r, st', w')"
    and "I a0 e0 st w"
    and sample: "\<And>a e st w n. I a e st w \<Longrightarrow> I a e (st\<lparr>po_samples := n\<rparr>) w"
    and step: "\<And>a e st w c e' st' w'. I a e st w \<Longrightarrow> c \<in> set cs \<Longrightarrow> c \<notin> set a \<Longrightarrow>
      admissible (po_db st) (po_keys st) (ae_now_ms env w) c \<Longrightarrow>
      attempt env prompt skey (ae_now_ms env w) c e st w = Some (Ret (Inr e'), st', w') \<Longrightarrow> I (a @ [c]) e' st' w'"
  shows "(\<exists>a e. I a e st' w' \<and> r = Inr (Exhausted (unwrap_or e (ae_now_ms env w'))) \<and>
      (\<forall>c \<in> set cs. c \<notin> set a \<longrightarrow> \<not> admissible (po_db st') (po_keys st') (ae_now_ms env w') c)) \<or>
    (\<exists>a e st1 w1 c. I a e st1 w1 \<and> c \<in> set cs \<and> c \<notin> set a \<and>
      admissible (po_db st1) (po_keys st1) (ae_now_ms env w1) c \<and>
      attempt env prompt skey (ae_now_ms env w1) c e st1 w1 = Some (Ret (Inl r), st', w'))"
  using assms
proof (induction env prompt strategy cs skey a0 e0 st w rule: execute_loop.induct)
  case (1 env prompt strategy candidates skey attempted earliest st w)
  let ?rem = "filter (\<lambda>c. c \<notin> set attempted) candidates"
  obtain picked n where p: "pick (po_db st) (po_keys st) (po_outcomes st) strategy ?rem (ae_now_ms env w)
      (po_samples st) = (picked, n)" by (rule prod.exhaust)
  let ?st = "st\<lparr>po_samples := n\<rparr>"
  show ?case
  proof (cases picked)
    case None
    have end_all: "\<forall>c \<in> set candidates. c \<notin> set attempted \<longrightarrow>
        \<not> admissible (po_db st) (po_keys st) (ae_now_ms env w) c"
      using pick_none [OF p [unfolded None]] by auto
    have "st' = ?st" "w' = w" "r = Inr (Exhausted (unwrap_or earliest (ae_now_ms env w)))"
      using "1.prems"(1) p None by (auto simp: execute_loop.simps Let_def)
    with end_all "1.prems"(3) [OF "1.prems"(2), of n] show ?thesis
      by (intro disjI1 exI [of _ attempted] exI [of _ earliest]) simp
  next
    case (Some c)
    have c: "c \<in> set candidates" "c \<notin> set attempted"
      "admissible (po_db ?st) (po_keys ?st) (ae_now_ms env w) c"
      using pick_admissible [OF p [unfolded Some]] by auto
    have I: "I attempted earliest ?st w" by (rule "1.prems"(3) [OF "1.prems"(2)])
    obtain res st2 w2 where a: "attempt env prompt skey (ae_now_ms env w) c earliest ?st w = Some (Ret res, st2, w2)"
      using "1.prems"(1) p Some
      by (auto simp: execute_loop.simps [of env prompt strategy candidates skey attempted earliest st w] Let_def
          split: option.splits prod.splits outcome.splits)
    show ?thesis
    proof (cases res)
      case (Inl x)
      with "1.prems"(1) p Some a have "x = r" "st2 = st'" "w2 = w'"
        by (simp_all add: execute_loop.simps [of env prompt strategy candidates skey attempted earliest st w] Let_def)
      with a Inl I c show ?thesis by blast
    next
      case (Inr e2)
      with "1.prems"(1) p Some a
      have rest: "execute_loop env prompt strategy candidates skey (attempted @ [c]) e2 st2 w2 = Some (Ret r, st', w')"
        by (simp add: execute_loop.simps [of env prompt strategy candidates skey attempted earliest st w] Let_def)
      have I2: "I (attempted @ [c]) e2 st2 w2" by (rule "1.prems"(4) [OF I c(1,2,3) a [unfolded Inr]])
      show ?thesis
        by (rule "1.IH" [OF refl refl p [symmetric] Some a [unfolded Inr] refl refl refl refl rest I2 "1.prems"(3,4)])
    qed
  qed
qed

lemma execute_rule:
  assumes "execute env prompt strategy cs explicit st w = Some (Ret r, st', w')"
    and "I [] None st w"
    and "\<And>a e st w n. I a e st w \<Longrightarrow> I a e (st\<lparr>po_samples := n\<rparr>) w"
    and "\<And>a e st w c e' st' w'. I a e st w \<Longrightarrow> c \<in> set cs \<Longrightarrow> c \<notin> set a \<Longrightarrow>
      admissible (po_db st) (po_keys st) (ae_now_ms env w) c \<Longrightarrow>
      attempt env prompt (session_key explicit prompt) (ae_now_ms env w) c e st w =
        Some (Ret (Inr e'), st', w') \<Longrightarrow> I (a @ [c]) e' st' w'"
    and out: "\<And>a e. I a e st' w' \<Longrightarrow> r = Inr (Exhausted (unwrap_or e (ae_now_ms env w'))) \<Longrightarrow>
      (\<forall>c \<in> set cs. c \<notin> set a \<longrightarrow> \<not> admissible (po_db st') (po_keys st') (ae_now_ms env w') c) \<Longrightarrow> P"
    and ret: "\<And>a e st1 w1 c. I a e st1 w1 \<Longrightarrow> c \<in> set cs \<Longrightarrow> c \<notin> set a \<Longrightarrow>
      admissible (po_db st1) (po_keys st1) (ae_now_ms env w1) c \<Longrightarrow>
      attempt env prompt (session_key explicit prompt) (ae_now_ms env w1) c e st1 w1 =
        Some (Ret (Inl r), st', w') \<Longrightarrow> P"
  shows P
  by (rule disjE [OF execute_loop_rule [where I = I, OF assms(1) [unfolded execute_def] assms(2)]])
    (erule assms(3), erule (4) assms(4), use out in blast, use ret in blast)

section \<open>A probe environment\<close>

text \<open>A dispatcher that always gives the same result and counts its calls, for the concrete runs.\<close>

definition probe_env :: "pool_error + pool_response \<Rightarrow> nat agent_env" where
  "probe_env res = \<lparr>ae_dispatch = (\<lambda>req p s w. Some (Ret res, w + 1)), ae_secret = (\<lambda>p k w. Some ''secret''),
     ae_now_ms = (\<lambda>w. int w), ae_instant_ns = (\<lambda>w. 0), ae_insert_ok = True\<rparr>"

definition probe_pool :: pool_state where
  "probe_pool = \<lparr>po_db = empty_pool_db, po_mem = [], po_outcomes = [], po_keys = [], po_store = (\<lambda>_. None),
     po_lease_no = 0, po_samples = 0\<rparr>"

lemma by_id_groq: "by_id ''groq'' = Some provider_groq"
proof -
  have "provider_groq \<in> set FREE_PROVIDERS" by (simp add: FREE_PROVIDERS_def)
  from by_id_mem [OF this] show ?thesis by (simp add: provider_groq_def)
qed

lemma probe_run:
  assumes "res = Inl (PeRateLimited None)"
  shows "\<exists>st'. execute (probe_env res) ''hi'' Priority [(''groq'', ''groq'', ''default'')] (Some ''s'') probe_pool 0 =
    Some (Ret (Inr (Exhausted 90000)), st', 1)"
  by (simp add: execute_def session_key_def execute_loop.simps probe_env_def probe_pool_def pick_def attempt_def by_id_groq Let_def
   admissible_def is_benched_def load_row_def empty_pool_db_def is_disabled_def acquire_lease_def exists_where_def
   inject_def get_live_def record_failure_def bench_def elapsed_ms_def min_until_def release_lease_def assms
   ladder_delay_def upsert_row_def cd_is_def TRANSIENT_MS_def cooldown_ceiling_def millis_i64_small as_u64_def unwrap_or_def put_def)
section \<open>What a run leaves behind\<close>

lemma bench_frame [frame_simps]:
  "pool_usage (snd (bench p m k kind now db)) = pool_usage db"
  "pool_leases (snd (bench p m k kind now db)) = pool_leases db"
proof -
  obtain r where "snd (bench p m k kind now db) = upsert_row r db" using bench_upsert by blast
  then show "pool_usage (snd (bench p m k kind now db)) = pool_usage db"
    "pool_leases (snd (bench p m k kind now db)) = pool_leases db" by (simp_all add: upsert_row_def Let_def)
qed

lemma record_failure_spec:
  assumes "record_failure c err lat now st = (until, st')"
  shows "po_keys st' = po_keys st" "pool_usage (po_db st') = pool_usage (po_db st)"
    "pool_leases (po_db st') = pool_leases (po_db st)" "po_mem st' = po_mem st"
    "until = map_option (\<lambda>kind. fst (bench (fst c) (fst (snd c)) (snd (snd c)) kind now (po_db st))) (bench_kind_of err)"
    "po_db st' = (case bench_kind_of err of None \<Rightarrow> po_db st
       | Some kind \<Rightarrow> snd (bench (fst c) (fst (snd c)) (snd (snd c)) kind now (po_db st)))"
proof -
  obtain p m k where c: "c = (p, m, k)" by (cases c)
  show "po_keys st' = po_keys st" "pool_usage (po_db st') = pool_usage (po_db st)"
    "pool_leases (po_db st') = pool_leases (po_db st)" "po_mem st' = po_mem st"
    "until = map_option (\<lambda>kind. fst (bench (fst c) (fst (snd c)) (snd (snd c)) kind now (po_db st))) (bench_kind_of err)"
    "po_db st' = (case bench_kind_of err of None \<Rightarrow> po_db st
       | Some kind \<Rightarrow> snd (bench (fst c) (fst (snd c)) (snd (snd c)) kind now (po_db st)))"
    using assms c bench_frame [of p m k _ now "po_db st"]
    by (auto simp: record_failure_def Let_def split_def split: option.splits)
qed

text \<open>The usage rows of an answer.\<close>

definition answer_rows :: "candidate \<Rightarrow> pool_response \<Rightarrow> int \<Rightarrow> usage_event list" where
  "answer_rows c resp now =
     (case c of (p, m, k) \<Rightarrow>
        map (\<lambda>(kind, n). \<lparr>ue_platform = p, ue_model = m, ue_key_id = k, ue_kind = kind,
                          ue_amount = as_i64 n, ue_at_ms = now\<rparr>)
          ((Request, 1) # (case ps_usage_tokens resp of Some n \<Rightarrow> [(Tokens, n)] | None \<Rightarrow> [])))"

lemma record_answer_spec:
  "po_keys (record_answer ok c resp now st) = po_keys st"
  "pool_leases (po_db (record_answer ok c resp now st)) = pool_leases (po_db st)"
  "ok \<Longrightarrow> pool_usage (po_db (record_answer ok c resp now st)) = pool_usage (po_db st) @ answer_rows c resp now"
  by (cases c; cases "ps_usage_tokens resp";
      auto simp: record_answer_def answer_rows_def record_usage_def clear_hits_def Let_def)+

text \<open>C11: every request the agent sends is accounted for: whatever comes of the run, the leases it took
  are given back and the key table is untouched; an answer from a candidate that was neither benched
  nor disabled adds exactly its request and its tokens to the usage, and a run without an answer adds
  nothing.\<close>

theorem execute_accounts:
  assumes "execute env prompt strategy cs explicit st w = Some (Ret r, st', w')" and "ae_insert_ok env"
  shows "pool_leases (po_db st') = pool_leases (po_db st) \<and> po_keys st' = po_keys st \<and>
    (case r of
       Inr (AgentOk resp) \<Rightarrow> \<exists>c now. c \<in> set cs \<and> \<not> is_disabled (fst c) (snd (snd c)) (po_keys st) \<and>
         pool_usage (po_db st') = pool_usage (po_db st) @ answer_rows c resp now
     | _ \<Rightarrow> pool_usage (po_db st') = pool_usage (po_db st))"
proof -
  define I where "I = (\<lambda>(a :: candidate list) (e :: int option) (s :: pool_state) (v :: 'a).
    po_keys s = po_keys st \<and> pool_leases (po_db s) = pool_leases (po_db st) \<and>
    pool_usage (po_db s) = pool_usage (po_db st))"
  show ?thesis
  proof (rule execute_rule [OF assms(1), of I], goal_cases init sample step out ret)
    case init
    show ?case by (simp add: I_def)
  next
    case (sample a e s v n)
    then show ?case by (simp add: I_def)
  next
    case (step a e st1 v c e' st2 v')
    from step(5) show ?case
    proof (cases rule: attempt_cases)
      case skipped
      with step(1) show ?thesis by (simp add: I_def)
    next
      case (failed p s req err lat store until)
      from record_failure_spec [OF failed(5) [symmetric]] step(1) show ?thesis by (simp add: I_def)
    qed simp_all
  next
    case (out a e)
    then show ?case by (simp add: I_def)
  next
    case (ret a e st1 w1 c)
    from ret(5) show ?case
    proof (cases rule: attempt_cases)
      case (lease_refused e)
      with ret show ?thesis by (simp add: I_def)
    next
      case (answered p s req resp lat store)
      with ret assms(2) show ?thesis
        by (auto simp: I_def record_answer_spec admissible_def)
    qed simp_all
  qed
qed

theorem execute_accounts_witness:
  "\<exists>st'. execute (probe_env (Inl (PeRateLimited None))) ''hi'' Priority [(''groq'', ''groq'', ''default'')]
      (Some ''s'') probe_pool 0 = Some (Ret (Inr (Exhausted 90000)), st', 1) \<and>
    pool_leases (po_db st') = [] \<and> pool_usage (po_db st') = []"
proof -
  obtain st' where run: "execute (probe_env (Inl (PeRateLimited None))) ''hi'' Priority
      [(''groq'', ''groq'', ''default'')] (Some ''s'') probe_pool 0 = Some (Ret (Inr (Exhausted 90000)), st', 1)"
    using probe_run by blast
  have "ae_insert_ok (probe_env (Inl (PeRateLimited None)))" by (simp add: probe_env_def)
  from execute_accounts [OF run this] run show ?thesis by (auto simp: probe_pool_def empty_pool_db_def)
qed

definition row_of :: "candidate \<Rightarrow> pool_state \<Rightarrow> cooldown_row option" where
  "row_of c st = load_row (fst c) (fst (snd c)) (snd (snd c)) (po_db st)"

lemma row_of_failure:
  assumes "record_failure c err lat now st = (until, st')" and "err \<noteq> PeHedgeAbort"
  shows "\<exists>u row. until = Some u \<and> row_of c st' = Some row \<and> until_ms row = u \<and>
    (\<forall>d. d \<noteq> c \<longrightarrow> row_of d st' = row_of d st)"
proof -
  obtain p m k where c: "c = (p, m, k)" by (cases c)
  obtain kind where kind: "bench_kind_of err = Some kind" using assms(2)
    by (cases err rule: bench_kind_of.cases) auto
  show ?thesis using record_failure_spec(5,6) [OF assms(1)] kind c
    by (auto simp: row_of_def load_row_bench)
qed

text \<open>When the agent gives up, every candidate that has a key and is not disabled is out of use: the
  run benched it no earlier than the recovery time it reports, or it was already benched and still is;
  and the recovery time is the end of one of those benches, unless the run made no attempt at all.\<close>

theorem exhausted_spec:
  assumes "execute env prompt strategy cs explicit st w = Some (Ret (Inr (Exhausted t)), st', w')"
    and "\<And>req p s v v'. ae_dispatch env req p s v \<noteq> Some (Ret (Inl PeHedgeAbort), v')"
  shows "(\<forall>c \<in> set cs. by_id (fst c) \<noteq> None \<and> (\<forall>v. ae_secret env (fst c) (snd (snd c)) v \<noteq> None) \<and>
      \<not> is_disabled (fst c) (snd (snd c)) (po_keys st) \<longrightarrow>
      (\<exists>row. row_of c st' = Some row \<and>
        (t \<le> until_ms row \<or> row_of c st = Some row \<and> ae_now_ms env w' < until_ms row))) \<and>
    (t = ae_now_ms env w' \<or> (\<exists>c \<in> set cs. \<exists>row. row_of c st' = Some row \<and> until_ms row = t))"
proof -
  define usable where "usable = (\<lambda>c :: candidate. by_id (fst c) \<noteq> None \<and> (\<forall>v. ae_secret env (fst c) (snd (snd c)) v \<noteq> None))"
  define I where "I = (\<lambda>a e (s :: pool_state) (v :: 'a).
    po_keys s = po_keys st \<and> set a \<subseteq> set cs \<and> (\<forall>c. c \<notin> set a \<longrightarrow> row_of c s = row_of c st) \<and>
    (\<forall>c \<in> set a. usable c \<longrightarrow> (\<exists>row x. row_of c s = Some row \<and> e = Some x \<and> x \<le> until_ms row)) \<and>
    (\<forall>x. e = Some x \<longrightarrow> (\<exists>c \<in> set a. \<exists>row. row_of c s = Some row \<and> until_ms row = x)))"
  show ?thesis
  proof (rule execute_rule [OF assms(1), of I], goal_cases init sample step out ret)
    case init
    show ?case by (simp add: I_def)
  next
    case (sample a e s v n)
    then show ?case by (simp add: I_def row_of_def)
  next
    case (step a e st1 v c e' st2 v')
    note I1 = step(1) [unfolded I_def]
    from step(5) show ?case
    proof (cases rule: attempt_cases)
      case skipped
      have "\<not> usable c" using skipped(4) by (auto simp: usable_def)
      with skipped(1-3) I1 step(2) show ?thesis by (simp add: I_def)
    next
      case (failed p s req err lat store until)
      have "err \<noteq> PeHedgeAbort" using failed(3) assms(2) by blast
      from row_of_failure [OF failed(5) [symmetric] this] obtain u row
        where u: "until = Some u" "row_of c st2 = Some row" "until_ms row = u"
          "\<And>d. d \<noteq> c \<Longrightarrow> row_of d st2 = row_of d st1" by (auto simp: row_of_def)
      have e': "e' = Some (case e of None \<Rightarrow> u | Some x \<Rightarrow> min x u)"
        using failed(4) u(1) by (simp add: min_until_def)
      have keys: "po_keys st2 = po_keys st" using record_failure_spec(1) [OF failed(5) [symmetric]] I1 by simp
      have other: "row_of d st2 = row_of d st" if "d \<notin> set (a @ [c])" for d
        using that u(4) [of d] I1 by (simp del: split_paired_All)
      have settled: "\<exists>row x. row_of d st2 = Some row \<and> e' = Some x \<and> x \<le> until_ms row"
        if "d \<in> set (a @ [c])" "usable d" for d
      proof (cases "d = c")
        case True
        with u(2,3) e' show ?thesis by (auto split: option.split)
      next
        case False
        with that I1 obtain row x where "row_of d st1 = Some row" "e = Some x" "x \<le> until_ms row" by auto
        with False u(4) e' show ?thesis by (auto simp: min_le_iff_disj)
      qed
      have attained: "\<exists>d \<in> set (a @ [c]). \<exists>row. row_of d st2 = Some row \<and> until_ms row = x" if "e' = Some x" for x
      proof (cases "x = u")
        case True
        with u(2,3) show ?thesis by auto
      next
        case False
        with that e' have "e = Some x" by (auto split: option.splits simp: min_def split: if_splits)
        with I1 obtain d row where d: "d \<in> set a" "row_of d st1 = Some row" "until_ms row = x" by blast
        with step(3) u(4) [of d] have "row_of d st2 = Some row" by metis
        with d show ?thesis by auto
      qed
      from keys other settled attained I1 step(2) show ?thesis by (simp add: I_def)
    qed simp_all
  next
    case (out a e)
    note I1 = out(1) [unfolded I_def]
    have t: "t = unwrap_or e (ae_now_ms env w')" using out(2) by simp
    have "\<exists>row. row_of c st' = Some row \<and> (t \<le> until_ms row \<or> row_of c st = Some row \<and> ae_now_ms env w' < until_ms row)"
      if "c \<in> set cs" "usable c" "\<not> is_disabled (fst c) (snd (snd c)) (po_keys st)" for c
    proof (cases "c \<in> set a")
      case True
      with I1 that(2) t show ?thesis by (fastforce simp: unwrap_or_def)
    next
      case False
      with out(3) that(1) I1 that(3) have "is_benched (fst c) (fst (snd c)) (snd (snd c)) (ae_now_ms env w') (po_db st') \<noteq> None"
        by (auto simp: admissible_def split_def)
      then obtain row where "row_of c st' = Some row" "ae_now_ms env w' < until_ms row"
        by (auto simp: is_benched_def row_of_def split: option.splits if_splits)
      moreover have "row_of c st = row_of c st'" using I1 False by (simp del: split_paired_All)
      ultimately show ?thesis by auto
    qed
    moreover have "t = ae_now_ms env w' \<or> (\<exists>c \<in> set cs. \<exists>row. row_of c st' = Some row \<and> until_ms row = t)"
    proof (cases e)
      case None
      with t show ?thesis by (simp add: unwrap_or_def)
    next
      case (Some x)
      with I1 obtain c row where "c \<in> set a" "row_of c st' = Some row" "until_ms row = x" by blast
      with I1 t Some show ?thesis by (auto simp: unwrap_or_def)
    qed
    ultimately show ?thesis unfolding usable_def by blast
  next
    case (ret a e st1 w1 c)
    from ret(5) show ?case by (cases rule: attempt_cases) simp_all
  qed
qed

theorem exhausted_spec_witness:
  "\<exists>st' row. execute (probe_env (Inl (PeRateLimited None))) ''hi'' Priority [(''groq'', ''groq'', ''default'')]
      (Some ''s'') probe_pool 0 = Some (Ret (Inr (Exhausted 90000)), st', 1) \<and>
    row_of (''groq'', ''groq'', ''default'') st' = Some row \<and> until_ms row = 90000"
proof -
  obtain st' where run: "execute (probe_env (Inl (PeRateLimited None))) ''hi'' Priority
      [(''groq'', ''groq'', ''default'')] (Some ''s'') probe_pool 0 = Some (Ret (Inr (Exhausted 90000)), st', 1)"
    using probe_run by blast
  have "ae_dispatch (probe_env (Inl (PeRateLimited None))) req p s v \<noteq> Some (Ret (Inl PeHedgeAbort), v')"
    for req p s v v' by (simp add: probe_env_def)
  from exhausted_spec [OF run this] run show ?thesis by (auto simp: probe_env_def)
qed

text \<open>When no candidate may be used, nothing is sent and the recovery time that the agent reports is
  the present: the ends of the benches that hold the candidates back are not looked at.\<close>

theorem all_benched_reports_now:
  assumes "\<forall>c \<in> set cs. \<not> admissible (po_db st) (po_keys st) (ae_now_ms env w) c"
  shows "\<exists>st'. execute env prompt strategy cs explicit st w =
    Some (Ret (Inr (Exhausted (ae_now_ms env w))), st', w) \<and> po_db st' = po_db st"
proof -
  obtain picked n where p: "pick (po_db st) (po_keys st) (po_outcomes st) strategy cs (ae_now_ms env w)
      (po_samples st) = (picked, n)" by (rule prod.exhaust)
  have "picked = None"
  proof (cases picked)
    case (Some c)
    from pick_admissible [OF p [unfolded Some]] assms show ?thesis by blast
  qed simp
  with p show ?thesis by (simp add: execute_def execute_loop.simps unwrap_or_def)
qed

theorem all_benched_reports_now_witness:
  "\<exists>st'. execute (probe_env (Inl PePaymentRequired)) ''hi'' Balanced [(''groq'', ''groq'', ''default'')] None
      (probe_pool\<lparr>po_db := snd (bench ''groq'' ''groq'' ''default'' PaymentRequired 0 empty_pool_db)\<rparr>) 5 =
    Some (Ret (Inr (Exhausted 5)), st', 5) \<and>
    is_benched ''groq'' ''groq'' ''default'' 5 (po_db st') = Some 86400000"
proof -
  let ?db = "snd (bench ''groq'' ''groq'' ''default'' PaymentRequired 0 empty_pool_db)"
  have b: "is_benched ''groq'' ''groq'' ''default'' 5 ?db = Some 86400000"
    by (simp add: is_benched_def load_row_bench bench_def load_row_def empty_pool_db_def PAYMENT_OR_TIER_MS_def
        cooldown_ceiling_def as_u64_def millis_i64_small upsert_row_def cd_is_def exists_where_def)
  then have "\<forall>c \<in> set [(''groq'', ''groq'', ''default'')].
      \<not> admissible (po_db (probe_pool\<lparr>po_db := ?db\<rparr>)) (po_keys (probe_pool\<lparr>po_db := ?db\<rparr>))
        (ae_now_ms (probe_env (Inl PePaymentRequired)) 5) c"
    by (simp add: admissible_def probe_env_def)
  from all_benched_reports_now [OF this, of "''hi''" Balanced None] b show ?thesis
    by (auto simp: probe_env_def)
qed

text \<open>A run sends each candidate at most one request: whatever is counted once per dispatch grows by
  at most the number of different candidates.\<close>

theorem execute_dispatch_bound:
  fixes cost :: "'w \<Rightarrow> nat"
  assumes "execute env prompt strategy cs explicit st w = Some (Ret r, st', w')"
    and "\<And>req p s v res v'. ae_dispatch env req p s v = Some (Ret res, v') \<Longrightarrow> cost v' \<le> cost v + 1"
  shows "cost w' \<le> cost w + card (set cs)"
proof -
  define I where "I = (\<lambda>a (e :: int option) (s :: pool_state) v.
    distinct a \<and> set a \<subseteq> set cs \<and> cost v \<le> cost w + length a)"
  have le: "length a \<le> card (set cs)" if "distinct a" "set a \<subseteq> set cs" for a
    using that by (metis card_mono distinct_card List.finite_set)
  show ?thesis
  proof (rule execute_rule [OF assms(1), of I], goal_cases init sample step out ret)
    case (step a e st1 v c e' st2 v')
    from step(5) show ?case
    proof (cases rule: attempt_cases)
      case skipped
      with step show ?thesis by (simp add: I_def)
    next
      case (failed p s req err lat store until)
      from assms(2) [OF failed(3)] step show ?thesis by (simp add: I_def)
    qed simp_all
  next
    case (out a e)
    with le [of a] show ?case by (simp add: I_def)
  next
    case (ret a e st1 w1 c)
    then have d: "length (a @ [c]) \<le> card (set cs)" by (intro le) (simp_all add: I_def)
    from ret(5) show ?case
    proof (cases rule: attempt_cases)
      case (lease_refused e)
      with ret d show ?thesis by (simp add: I_def)
    next
      case (answered p s req resp lat store)
      from assms(2) [OF answered(3)] ret d show ?thesis by (simp add: I_def)
    qed simp_all
  qed (simp_all add: I_def)
qed

theorem execute_dispatch_bound_witness:
  "\<exists>st'. execute (probe_env (Inl (PeRateLimited None))) ''hi'' Priority [(''groq'', ''groq'', ''default'')]
      (Some ''s'') probe_pool 0 = Some (Ret (Inr (Exhausted 90000)), st', 1) \<and> (1::nat) \<le> 0 + card {(''groq'', ''groq'', ''default'')}"
proof -
  obtain st' where run: "execute (probe_env (Inl (PeRateLimited None))) ''hi'' Priority
      [(''groq'', ''groq'', ''default'')] (Some ''s'') probe_pool 0 = Some (Ret (Inr (Exhausted 90000)), st', 1)"
    using probe_run by blast
  have "ae_dispatch (probe_env (Inl (PeRateLimited None))) req p s v = Some (Ret res, v') \<Longrightarrow> id v' \<le> id v + 1"
    for req p s v res v' by (auto simp: probe_env_def)
  from execute_dispatch_bound [of _ _ _ _ _ _ _ _ _ _ id, OF run this] run show ?thesis by auto
qed

lemma execute_loop_returns:
  assumes "\<And>req p s v. ae_dispatch env req p s v \<noteq> None"
  shows "execute_loop env prompt strategy cs skey a e st w \<noteq> None"
  using assms
proof (induction env prompt strategy cs skey a e st w rule: execute_loop.induct)
  case (1 env prompt strategy candidates skey attempted earliest st w)
  have some: "\<exists>a b. ae_dispatch env req p s v = Some (a, b)" for req p s v
    using "1.prems" [of req p s v] by auto
  have attempt: "attempt env prompt skey now c e s v \<noteq> None" for now c e s v
  proof
    assume "attempt env prompt skey now c e s v = None"
    then obtain req p k where "ae_dispatch env req p k v = None"
      by (auto simp: attempt_def Let_def split: option.splits prod.splits sum.splits outcome.splits)
    with "1.prems" show False by blast
  qed
  show ?case
  proof
    assume none: "execute_loop env prompt strategy candidates skey attempted earliest st w = None"
    let ?rem = "filter (\<lambda>c. c \<notin> set attempted) candidates"
    obtain picked n where p: "pick (po_db st) (po_keys st) (po_outcomes st) strategy ?rem (ae_now_ms env w)
        (po_samples st) = (picked, n)" by (rule prod.exhaust)
    with none obtain c where c: "picked = Some c"
      by (auto simp: execute_loop.simps [of env prompt strategy candidates skey attempted earliest st w] Let_def
          split: option.splits)
    obtain z where "attempt env prompt skey (ae_now_ms env w) c earliest (st\<lparr>po_samples := n\<rparr>) w = Some z"
      using attempt by blast
    moreover obtain o2 st2 w2 where "z = (o2, st2, w2)" by (rule prod_cases3)
    ultimately have a: "attempt env prompt skey (ae_now_ms env w) c earliest (st\<lparr>po_samples := n\<rparr>) w = Some (o2, st2, w2)"
      by simp
    from none p c a obtain e2 where e2: "o2 = Ret (Inr e2)"
      "execute_loop env prompt strategy candidates skey (attempted @ [c]) e2 st2 w2 = None"
      by (auto simp: execute_loop.simps [of env prompt strategy candidates skey attempted earliest st w] Let_def
          split: outcome.splits sum.splits)
    have "execute_loop env prompt strategy candidates skey (attempted @ [c]) e2 st2 w2 \<noteq> None"
      by (rule "1.IH" [OF refl refl p [symmetric] c a refl e2(1) refl refl "1.prems"])
    with e2(2) show False by contradiction
  qed
qed

lemma execute_returns:
  assumes "ticking net"
  shows "execute (real_env net va insert_ok) prompt strategy cs explicit st w \<noteq> None"
  unfolding execute_def by (rule execute_loop_returns) (simp add: real_env_def dispatch_returns [OF assms])

text \<open>C12: with the wires of the code and a clock that only goes forward, a task of the pool agent ends:
  the polls of the two asynchronous wires have deadlines, the other wires answer at once or fail, and every turn of the agent uses up a candidate.\<close>

theorem run_as_task_returns:
  assumes "ticking net"
  shows "\<exists>r. run_as_task net va insert_ok prompt session st rd w = Some r"
proof -
  obtain a rd1 w1 where r: "resolve_aliases va (net_wall_ms net w) prompt rd w = (a, rd1, w1)" by (rule prod_cases3)
  show ?thesis
  proof (cases a)
    case (Inl e)
    with r show ?thesis by (simp add: run_as_task_def)
  next
    case (Inr p)
    obtain o1 where "execute (real_env net va insert_ok) p Balanced (candidates_from_keys (po_keys st)) session st w1 = Some o1"
      using execute_returns [OF assms] by blast
    moreover obtain o2 st2 w2 where "o1 = (o2, st2, w2)" by (rule prod_cases3)
    ultimately show ?thesis using r Inr
      by (cases o2) (auto simp: run_as_task_def Let_def split: sum.split pool_agent_outcome.split)
  qed
qed

definition no_vault :: "'w vault" where
  "no_vault = \<lparr>va_get = (\<lambda>n v. Inr None), va_set = (\<lambda>n x v. (Inl ''no key chain'', v)),
     va_urandom = (\<lambda>v. (None, v)), va_nanos = (\<lambda>v. 0), va_encrypt = (\<lambda>k x v. (Inl ''no cipher'', v)),
     va_decrypt = (\<lambda>k c. Inl ''no cipher''), va_lower = id\<rparr>"

theorem run_as_task_returns_witness:
  "\<exists>r. run_as_task slow_net no_vault True ''hi'' None probe_pool no_aliases 0 = Some r"
  by (rule run_as_task_returns) (simp add: ticking_def slow_net_def)

end
