(* ===== verification/Ratelimit.thy ===== *)
theory Ratelimit
  imports Utf8
begin

text \<open>
  Recognising from its output that an agent could not answer, \<open>single-core/src/ratelimit.rs\<close>: phrases
  of rate limits and of failed logins, looked for in the lower case of the text.
\<close>

definition SIGNALS :: "string list" where
  "SIGNALS = [''rate limit'', ''rate_limit'', ''ratelimit'', ''429'', ''quota exceeded'',
     ''quota_exceeded'', ''too many requests'', ''usage limit'', ''529'', ''overloaded'']"

definition looks_like_rate_limit :: "unicode \<Rightarrow> string \<Rightarrow> bool" where
  "looks_like_rate_limit u text =
     (let lower = to_lowercase u text in list_ex (\<lambda>signal. contains_sub signal lower) SIGNALS)"

definition AUTH_FAILURE_SIGNALS :: "string list" where
  "AUTH_FAILURE_SIGNALS = [''not logged in'', ''please run /login'', ''please log in'', ''please login'',
     ''authentication required'', ''unauthorized'', ''401 unauthorized'']"

definition looks_like_unavailable :: "unicode \<Rightarrow> string \<Rightarrow> bool" where
  "looks_like_unavailable u text =
     (if looks_like_rate_limit u text then True
      else let lower = to_lowercase u text
           in list_ex (\<lambda>signal. contains_sub signal lower) AUTH_FAILURE_SIGNALS)"

lemma signals_ascii: "list_all (list_all is_ascii_byte) (SIGNALS @ AUTH_FAILURE_SIGNALS)"
  by code_simp

text \<open>A signal in any mix of cases is found wherever it stands in the text.\<close>

lemma signal_found:
  assumes "map ascii_lower p \<in> set (SIGNALS @ AUTH_FAILURE_SIGNALS)" "list_all is_ascii_byte p"
    and b: "b = [] \<or> \<not> is_cont_byte (hd b)"
  shows "looks_like_unavailable u (a @ p @ b)"
  using assms(1) contains_lower [OF assms(2) b, of u a]
  by (auto simp: looks_like_unavailable_def looks_like_rate_limit_def Let_def list_ex_iff)

lemma rate_limit_found:
  assumes "map ascii_lower p \<in> set SIGNALS" "list_all is_ascii_byte p"
    and b: "b = [] \<or> \<not> is_cont_byte (hd b)"
  shows "looks_like_rate_limit u (a @ p @ b)"
  using assms(1) contains_lower [OF assms(2) b, of u a]
  by (auto simp: looks_like_rate_limit_def Let_def list_ex_iff)

text \<open>A line number, a port or a byte count of three digits is a rate limit to this test.\<close>

lemma line_number_is_rate_limit:
  "looks_like_rate_limit u ''error[E0308]: mismatched types --> src/main.rs:429:5''"
proof -
  have "''error[E0308]: mismatched types --> src/main.rs:429:5'' =
      ''error[E0308]: mismatched types --> src/main.rs:'' @ ''429'' @ '':5''" by simp
  moreover have "map ascii_lower ''429'' \<in> set SIGNALS" "list_all is_ascii_byte ''429''" "\<not> is_cont_byte (hd '':5'')"
    by code_simp+
  ultimately show ?thesis
    using rate_limit_found [of "''429''" "'':5''" u "''error[E0308]: mismatched types --> src/main.rs:''"]
    by metis
qed

end
