(* ===== verification/Fallback.thy ===== *)
theory Fallback
  imports Prelude
begin

text \<open>
  Ordered fallback chains, \<open>single-core/src/fallback.rs\<close>. The registry file is a value: its chains, or the
  error that reading it gives; writing the file succeeds. \<open>hops\<close> is what the recursion of
  \<open>task::maybe_fail_over\<close> makes of \<open>next_after\<close> when every run is rate limited.
\<close>

record agent_account_ref =
  ar_agent :: string
  ar_account :: "string option"

type_synonym chain = "agent_account_ref list"
type_synonym fallback_file = "chain list result"

definition fallback_set :: "chain \<Rightarrow> fallback_file \<Rightarrow> unit result \<times> fallback_file" where
  "fallback_set chain file =
     (if length chain < 2
      then (Inl ''a fallback chain needs at least two entries (what to run, and what to try next)'', file)
      else case file of
        Inl e \<Rightarrow> (Inl e, file)
      | Inr saved \<Rightarrow>
          (Inr (), Inr (filter (\<lambda>c. \<not> (c \<noteq> [] \<and> hd c = hd chain)) saved @ [chain])))"

definition fallback_remove :: "agent_account_ref \<Rightarrow> fallback_file \<Rightarrow> bool result \<times> fallback_file" where
  "fallback_remove first file =
     (case file of
        Inl e \<Rightarrow> (Inl e, file)
      | Inr saved \<Rightarrow>
          (let kept = filter (\<lambda>c. \<not> (c \<noteq> [] \<and> hd c = first)) saved;
               removed = length kept \<noteq> length saved
           in (Inr removed, Inr (if removed then kept else saved))))"

fun next_in :: "agent_account_ref \<Rightarrow> chain list \<Rightarrow> agent_account_ref option" where
  "next_in current [] = None"
| "next_in current (c # cs) =
     (case find_idx (\<lambda>e. e = current) c of
        Some pos \<Rightarrow> (if pos + 1 < length c then Some (c ! (pos + 1)) else None)
      | None \<Rightarrow> next_in current cs)"

definition next_after :: "fallback_file \<Rightarrow> agent_account_ref \<Rightarrow> agent_account_ref option result" where
  "next_after file current = (case file of Inl e \<Rightarrow> Inl e | Inr saved \<Rightarrow> Inr (next_in current saved))"

text \<open>The entry that \<open>n\<close> hops lead to, if the chains go that far.\<close>

fun hops :: "chain list \<Rightarrow> nat \<Rightarrow> agent_account_ref \<Rightarrow> agent_account_ref option" where
  "hops cs 0 e = Some e"
| "hops cs (Suc n) e = (case next_in e cs of None \<Rightarrow> None | Some e' \<Rightarrow> hops cs n e')"

section \<open>The file\<close>

definition chains_ok :: "chain list \<Rightarrow> bool" where
  "chains_ok cs \<longleftrightarrow> (\<forall>c \<in> set cs. 2 \<le> length c) \<and> distinct (map hd cs)"

text \<open>\<open>set\<close> and \<open>remove\<close> keep the chains longer than one with different first entries, so that \<open>remove\<close>
  takes exactly the chain that \<open>set\<close> put there.\<close>

lemma chains_ok_set:
  assumes "chains_ok cs" "fallback_set chain (Inr cs) = (r, Inr cs')"
  shows "chains_ok cs'"
proof -
  have "[] \<notin> set cs" using assms(1) by (force simp: chains_ok_def)
  with assms show ?thesis
    by (auto simp: chains_ok_def fallback_set_def distinct_map inj_on_def split: if_splits)
qed

lemma chains_ok_remove:
  assumes "chains_ok cs" "fallback_remove e (Inr cs) = (r, Inr cs')"
  shows "chains_ok cs'"
  using assms by (auto simp: chains_ok_def fallback_remove_def Let_def distinct_map inj_on_def split: if_splits)

lemma set_then_remove:
  assumes "chains_ok cs" "2 \<le> length c" "hd c \<notin> hd ` set cs"
  shows "fallback_set c (Inr cs) = (Inr (), Inr (cs @ [c]))"
    "fallback_remove (hd c) (Inr (cs @ [c])) = (Inr True, Inr cs)"
proof -
  have ne: "c \<noteq> []" using assms(2) by auto
  have "filter (\<lambda>d. \<not> (d \<noteq> [] \<and> hd d = hd c)) cs = cs"
    by (rule filter_True) (metis assms(3) image_eqI)
  with ne assms(2) show "fallback_set c (Inr cs) = (Inr (), Inr (cs @ [c]))"
    "fallback_remove (hd c) (Inr (cs @ [c])) = (Inr True, Inr cs)"
    by (auto simp: fallback_set_def fallback_remove_def Let_def)
qed

section \<open>Walking the chains\<close>

text \<open>Where \<open>next_in\<close> looks: the first chain that contains the entry, and the position in it.\<close>

fun chain_pos :: "agent_account_ref \<Rightarrow> chain list \<Rightarrow> (nat \<times> nat) option" where
  "chain_pos e [] = None"
| "chain_pos e (c # cs) =
     (case find_idx (\<lambda>x. x = e) c of
        Some p \<Rightarrow> Some (0, p)
      | None \<Rightarrow> map_option (\<lambda>(k, p). (Suc k, p)) (chain_pos e cs))"

lemma find_idx_eq_iff: "find_idx (\<lambda>x. x = e) c = None \<longleftrightarrow> e \<notin> set c"
  by (induction c) auto

lemma find_idx_distinct:
  "distinct c \<Longrightarrow> i < length c \<Longrightarrow> find_idx (\<lambda>x. x = c ! i) c = Some i"
proof (induction c arbitrary: i)
  case (Cons x c)
  show ?case
  proof (cases i)
    case (Suc j)
    with Cons have "x \<noteq> c ! j" by (metis distinct.simps(2) length_Cons not_less_eq nth_mem)
    with Suc Cons show ?thesis by auto
  qed simp
qed simp

text \<open>One hop goes to an earlier chain, or one position on in the same chain.\<close>

lemma next_in_step:
  assumes "\<forall>c \<in> set cs. distinct c" "next_in e cs = Some e'"
  shows "\<exists>k p k' p'. chain_pos e cs = Some (k, p) \<and> chain_pos e' cs = Some (k', p') \<and>
    (k' < k \<or> k' = k \<and> p' = Suc p) \<and> k < length cs \<and> p < length (cs ! k)"
  using assms
proof (induction cs)
  case (Cons c cs)
  show ?case
  proof (cases "find_idx (\<lambda>x. x = e) c")
    case (Some p)
    with Cons.prems have p: "p + 1 < length c" "e' = c ! (p + 1)" by (auto split: if_splits)
    with find_idx_distinct [of c "p + 1"] Cons.prems(1)
    have "find_idx (\<lambda>x. x = e') c = Some (p + 1)" by simp
    with Some p show ?thesis by simp
  next
    case None
    with Cons.prems have "next_in e cs = Some e'" by simp
    with Cons obtain k p k' p' where h: "chain_pos e cs = Some (k, p)" "chain_pos e' cs = Some (k', p')"
      "k' < k \<or> k' = k \<and> p' = Suc p" "k < length cs" "p < length (cs ! k)" by auto
    with None show ?thesis by (cases "find_idx (\<lambda>x. x = e') c") auto
  qed
qed simp

text \<open>How many entries lie at or after a position, the chains after it not counted.\<close>

definition entries_left :: "chain list \<Rightarrow> nat \<times> nat \<Rightarrow> nat" where
  "entries_left cs kp = (case kp of (k, p) \<Rightarrow> length (concat (take k cs)) + (length (cs ! k) - p))"

lemma entries_left_decreases:
  assumes "k' < k \<or> k' = k \<and> p' = Suc p" "k < length cs" "p < length (cs ! k)"
  shows "entries_left cs (k', p') < entries_left cs (k, p)"
proof (cases "k' < k")
  case True
  have "take k cs = take k' cs @ cs ! k' # drop (Suc k') (take k cs)"
    using True assms(2) id_take_nth_drop [of k' "take k cs"] by simp
  then have "length (concat (take k cs)) = length (concat (take k' cs)) + length (cs ! k') +
      length (concat (drop (Suc k') (take k cs)))"
    by (metis add.assoc concat.simps(2) concat_append length_append)
  with assms(3) show ?thesis by (simp add: entries_left_def)
next
  case False
  with assms show ?thesis by (auto simp: entries_left_def)
qed

lemma entries_left_bound: "k < length cs \<Longrightarrow> entries_left cs (k, p) \<le> length (concat cs)"
proof -
  assume k: "k < length cs"
  then have "concat cs = concat (take k cs) @ cs ! k @ concat (drop (Suc k) cs)"
    by (metis concat.simps(2) concat_append id_take_nth_drop)
  then have "length (concat cs) = length (concat (take k cs)) + length (cs ! k) + length (concat (drop (Suc k) cs))"
    by simp
  then show ?thesis by (simp add: entries_left_def)
qed

definition entry_rank :: "chain list \<Rightarrow> agent_account_ref \<Rightarrow> nat" where
  "entry_rank cs e = (case chain_pos e cs of None \<Rightarrow> 0 | Some kp \<Rightarrow> entries_left cs kp)"

lemma entry_rank_hop:
  assumes "\<forall>c \<in> set cs. distinct c" "next_in e cs = Some e'"
  shows "entry_rank cs e' < entry_rank cs e"
  using next_in_step [OF assms] entries_left_decreases by (fastforce simp: entry_rank_def)

lemma hops_rank:
  "\<forall>c \<in> set cs. distinct c \<Longrightarrow> hops cs n e = Some e' \<Longrightarrow> n + entry_rank cs e' \<le> entry_rank cs e"
proof (induction n arbitrary: e)
  case (Suc n)
  then obtain f where f: "next_in e cs = Some f" "hops cs n f = Some e'" by (auto split: option.splits)
  from Suc.IH [OF Suc.prems(1) f(2)] entry_rank_hop [OF Suc.prems(1) f(1)] show ?case by simp
qed simp

lemma entry_rank_bound: "entry_rank cs e \<le> length (concat cs)"
proof -
  have "chain_pos e cs = Some (k, p) \<Longrightarrow> k < length cs" for k p
    by (induction cs arbitrary: k p) (auto split: option.splits)
  then show ?thesis by (auto simp: entry_rank_def entries_left_bound split: option.split)
qed

text \<open>With no entry repeated within a chain, a walk along the chains ends, after at most as many hops as
  the chains have entries, whatever entries the chains share.\<close>

theorem fallback_walk_ends:
  assumes "\<forall>c \<in> set cs. distinct c" "length (concat cs) < n"
  shows "hops cs n e = None"
  using hops_rank [OF assms(1), of n e] entry_rank_bound [of cs e] assms(2)
  by (cases "hops cs n e") auto

theorem fallback_walk_ends_witness:
  "hops [[\<lparr>ar_agent = ''claude'', ar_account = Some ''work''\<rparr>, \<lparr>ar_agent = ''codex'', ar_account = None\<rparr>],
         [\<lparr>ar_agent = ''codex'', ar_account = None\<rparr>, \<lparr>ar_agent = ''claude'', ar_account = Some ''work''\<rparr>]] 5
     \<lparr>ar_agent = ''claude'', ar_account = Some ''work''\<rparr> = None"
  by (rule fallback_walk_ends) simp_all

text \<open>A chain that names an entry twice is accepted, and the walk never leaves it.\<close>

theorem repeated_entry_loops:
  assumes "a \<noteq> b"
  shows "fallback_set [a, b, a] (Inr []) = (Inr (), Inr [[a, b, a]]) \<and>
    (\<forall>n. hops [[a, b, a]] n a = Some (if even n then a else b))"
proof -
  have "hops [[a, b, a]] n a = Some (if even n then a else b) \<and>
      hops [[a, b, a]] n b = Some (if even n then b else a)" for n
    using assms by (induction n) auto
  then show ?thesis by (simp add: fallback_set_def)
qed

end
