(* ===== verification/TaskStore.thy ===== *)
theory TaskStore
  imports Utf8 Graph Sessions
begin

text \<open>
  The \<open>tasks\<close> and \<open>workspaces\<close> tables and the event log of \<open>crates/single-runtime/src/task.rs\<close> and
  \<open>state.rs\<close>: creating a task, its transitions, what a daemon start does with the tasks it finds, and
  what the code reads out of an agent's output (token counts, a one-line summary, keywords). A row
  and a record are the same columns: the row holds the text of the status and 0/1 flags, the record
  the decoded values. The project facts that git gives are the record \<open>project_env\<close>.
\<close>

datatype task_status = TsCreated | TsRunning | TsCompleted | TsFailed | TsCancelled

fun status_as_str :: "task_status \<Rightarrow> string" where
  "status_as_str TsCreated = ''created''"
| "status_as_str TsRunning = ''running''"
| "status_as_str TsCompleted = ''completed''"
| "status_as_str TsFailed = ''failed''"
| "status_as_str TsCancelled = ''cancelled''"

definition parse_status :: "string \<Rightarrow> task_status result" where
  "parse_status s =
     (if s = ''created'' then Inr TsCreated
      else if s = ''running'' then Inr TsRunning
      else if s = ''completed'' then Inr TsCompleted
      else if s = ''failed'' then Inr TsFailed
      else if s = ''cancelled'' then Inr TsCancelled
      else Inl (''unknown task status: '' @ s))"

record ('s, 'b) task_cols =
  t_id :: int
  t_description :: string
  t_agent :: string
  t_status :: 's
  t_worktree_path :: "string option"
  t_artifact_path :: "string option"
  t_exit_code :: "int option"
  t_timed_out :: 'b
  t_summary :: "string option"
  t_created_at :: string
  t_updated_at :: string
  t_cwd :: string
  t_workspace_id :: string
  t_rate_limited :: 'b
  t_prompt_tokens :: "int option"
  t_completion_tokens :: "int option"
  t_tokens_estimated :: 'b

type_synonym task_sql = "(string, int) task_cols"
type_synonym task_record = "(task_status, bool) task_cols"

record workspace_row =
  w_id :: string
  w_name :: string
  w_path :: string
  w_updated_at :: string

record event_row =
  ev_at :: string
  ev_kind :: string
  ev_detail :: string

record task_db =
  td_tasks :: "task_sql list"
  td_seq :: int
  td_workspaces :: "workspace_row list"
  td_events :: "event_row list"

record project_env =
  pj_workspace_id :: "string \<Rightarrow> string"
  pj_repo_root :: "string \<Rightarrow> string option"
  pj_display_name :: "string \<Rightarrow> string"

definition record_event :: "string \<Rightarrow> string \<Rightarrow> string \<Rightarrow> task_db \<Rightarrow> task_db" where
  "record_event ts kind detail db =
     db\<lparr>td_events := td_events db @ [\<lparr>ev_at = ts, ev_kind = kind, ev_detail = detail\<rparr>]\<rparr>"

section \<open>Reading\<close>

definition row_to_task :: "task_sql \<Rightarrow> task_record result" where
  "row_to_task r =
     (case parse_status (t_status r) of
        Inl e \<Rightarrow> Inl e
      | Inr st \<Rightarrow>
          Inr \<lparr>t_id = t_id r, t_description = t_description r, t_agent = t_agent r, t_status = st,
               t_worktree_path = t_worktree_path r, t_artifact_path = t_artifact_path r,
               t_exit_code = t_exit_code r, t_timed_out = (t_timed_out r \<noteq> 0), t_summary = t_summary r,
               t_created_at = t_created_at r, t_updated_at = t_updated_at r, t_cwd = t_cwd r,
               t_workspace_id = t_workspace_id r, t_rate_limited = (t_rate_limited r \<noteq> 0),
               t_prompt_tokens = t_prompt_tokens r, t_completion_tokens = t_completion_tokens r,
               t_tokens_estimated = (t_tokens_estimated r \<noteq> 0)\<rparr>)"

fun rows_to_tasks :: "task_sql list \<Rightarrow> task_record list result" where
  "rows_to_tasks [] = Inr []"
| "rows_to_tasks (r # rs) =
     (case row_to_task r of
        Inl e \<Rightarrow> Inl e
      | Inr t \<Rightarrow> (case rows_to_tasks rs of Inl e \<Rightarrow> Inl e | Inr ts \<Rightarrow> Inr (t # ts)))"

definition task_sql_get :: "int \<Rightarrow> task_db \<Rightarrow> task_sql option" where
  "task_sql_get i db = find (\<lambda>r. t_id r = i) (td_tasks db)"

definition task_sql_upd :: "int \<Rightarrow> (task_sql \<Rightarrow> task_sql) \<Rightarrow> task_db \<Rightarrow> task_db" where
  "task_sql_upd i f db = db\<lparr>td_tasks := update_where (\<lambda>r. t_id r = i) f (td_tasks db)\<rparr>"

definition get_task :: "int \<Rightarrow> task_db \<Rightarrow> task_record option result" where
  "get_task i db =
     (case task_sql_get i db of
        None \<Rightarrow> Inr None
      | Some r \<Rightarrow> (case row_to_task r of Inl e \<Rightarrow> Inl e | Inr t \<Rightarrow> Inr (Some t)))"

definition task_list :: "task_db \<Rightarrow> task_record list result" where
  "task_list db = rows_to_tasks (order_desc t_created_at (td_tasks db))"

text \<open>\<open>get(conn, id)?.context(what)\<close>.\<close>

definition get_task_or :: "string \<Rightarrow> int \<Rightarrow> task_db \<Rightarrow> task_record result" where
  "get_task_or what i db =
     (case get_task i db of
        Inl e \<Rightarrow> Inl e | Inr None \<Rightarrow> Inl what | Inr (Some t) \<Rightarrow> Inr t)"

section \<open>Writing\<close>

definition next_task_id :: "task_db \<Rightarrow> int" where
  "next_task_id db = foldr max (map t_id (td_tasks db)) (td_seq db) + 1"

definition task_create :: "string \<Rightarrow> string \<Rightarrow> string \<Rightarrow> string \<Rightarrow> string \<Rightarrow> task_db \<Rightarrow> int \<times> task_db" where
  "task_create ts description agent cwd workspace_id db =
     (let i = next_task_id db;
          r = \<lparr>t_id = i, t_description = description, t_agent = agent, t_status = status_as_str TsCreated,
               t_worktree_path = None, t_artifact_path = None, t_exit_code = None, t_timed_out = 0,
               t_summary = None, t_created_at = ts, t_updated_at = ts, t_cwd = cwd,
               t_workspace_id = workspace_id, t_rate_limited = 0, t_prompt_tokens = None,
               t_completion_tokens = None, t_tokens_estimated = 0\<rparr>
      in (i, db\<lparr>td_tasks := td_tasks db @ [r], td_seq := i\<rparr>))"

definition upsert_workspace :: "string \<Rightarrow> string \<Rightarrow> string \<Rightarrow> string \<Rightarrow> task_db \<Rightarrow> task_db" where
  "upsert_workspace ts i path name db =
     db\<lparr>td_workspaces :=
          (if exists_where (\<lambda>w. w_id w = i) (td_workspaces db)
           then update_where (\<lambda>w. w_id w = i) (\<lambda>w. w\<lparr>w_name := name, w_path := path, w_updated_at := ts\<rparr>)
                  (td_workspaces db)
           else td_workspaces db @ [\<lparr>w_id = i, w_name = name, w_path = path, w_updated_at = ts\<rparr>])\<rparr>"

definition create_for_cwd :: "project_env \<Rightarrow> string \<Rightarrow> string \<Rightarrow> string \<Rightarrow> string \<Rightarrow> task_db \<Rightarrow> int \<times> task_db" where
  "create_for_cwd pj ts description agent cwd db =
     (let workspace_id = pj_workspace_id pj cwd;
          display_path = unwrap_or (pj_repo_root pj cwd) cwd;
          name = pj_display_name pj display_path;
          (i, db) = task_create ts description agent cwd workspace_id db
      in (i, upsert_workspace ts workspace_id display_path name db))"

definition finish ::
    "string \<Rightarrow> int \<Rightarrow> task_status \<Rightarrow> string option \<Rightarrow> string option \<Rightarrow> int option \<Rightarrow> bool \<Rightarrow> string option \<Rightarrow>
     bool \<Rightarrow> task_db \<Rightarrow> task_db" where
  "finish ts i status worktree artifact exit_code timed_out summary rate_limited =
     task_sql_upd i (\<lambda>r. r\<lparr>t_status := status_as_str status, t_worktree_path := worktree,
       t_artifact_path := artifact, t_exit_code := exit_code, t_timed_out := of_bool timed_out,
       t_summary := summary, t_updated_at := ts, t_rate_limited := of_bool rate_limited\<rparr>)"

definition record_token_usage :: "int \<Rightarrow> int \<Rightarrow> int \<Rightarrow> bool \<Rightarrow> task_db \<Rightarrow> task_db" where
  "record_token_usage i prompt_tokens completion_tokens estimated =
     task_sql_upd i (\<lambda>r. r\<lparr>t_prompt_tokens := Some prompt_tokens,
       t_completion_tokens := Some completion_tokens, t_tokens_estimated := of_bool estimated\<rparr>)"

definition task_set_status :: "string \<Rightarrow> int \<Rightarrow> task_status \<Rightarrow> task_db \<Rightarrow> task_db" where
  "task_set_status ts i status = task_sql_upd i (\<lambda>r. r\<lparr>t_status := status_as_str status, t_updated_at := ts\<rparr>)"

definition live_status :: "string \<Rightarrow> bool" where
  "live_status s = (s = ''created'' \<or> s = ''running'')"

definition orphan_failed :: "string \<Rightarrow> task_sql \<Rightarrow> task_sql" where
  "orphan_failed ts r = r\<lparr>t_status := status_as_str TsFailed,
     t_summary := Some ''interrupted: single-runtimed restarted while this task was in flight'',
     t_updated_at := ts\<rparr>"

definition reconcile_orphaned_tasks :: "string \<Rightarrow> task_db \<Rightarrow> nat \<times> task_db" where
  "reconcile_orphaned_tasks ts db =
     (let affected = length (filter (\<lambda>r. live_status (t_status r)) (td_tasks db));
          db = db\<lparr>td_tasks := update_where (\<lambda>r. live_status (t_status r)) (orphan_failed ts) (td_tasks db)\<rparr>
      in (affected,
          if affected > 0
          then record_event ts ''task.reconciled''
                 (''marked '' @ dec_nat affected @ '' orphaned task(s) failed on daemon startup'') db
          else db))"

definition task_no :: "int \<Rightarrow> string" where
  "task_no i = ''#'' @ dec_int i"

definition force_fail :: "string \<Rightarrow> int \<Rightarrow> string \<Rightarrow> task_db \<Rightarrow> task_record result \<times> task_db" where
  "force_fail ts i reason db =
     (case get_task_or ''no such task'' i db of
        Inl e \<Rightarrow> (Inl e, db)
      | Inr task \<Rightarrow>
          (let db = (if t_status task = TsRunning \<or> t_status task = TsCreated
                     then record_event ts ''task.force_cancelled'' (task_no i @ '' '' @ reason)
                            (finish ts i TsFailed (t_worktree_path task) (t_artifact_path task) None False
                               (Some reason) False db)
                     else db)
           in (get_task_or ''task disappeared after force-fail'' i db, db)))"

definition record_conditionally_skipped ::
    "project_env \<Rightarrow> string \<Rightarrow> string \<Rightarrow> string \<Rightarrow> string \<Rightarrow> string \<Rightarrow> task_db \<Rightarrow> task_record result \<times> task_db" where
  "record_conditionally_skipped pj ts description agent cwd summary db =
     (let (i, db) = create_for_cwd pj ts description agent cwd db;
          db = finish ts i TsCancelled None None None False (Some summary) False db;
          db = record_event ts ''task.cancelled'' (task_no i @ '' '' @ summary) db
      in (get_task_or ''task disappeared after being recorded as skipped'' i db, db))"


definition list_workspaces :: "task_db \<Rightarrow> (workspace_row \<times> nat \<times> string) list" where
  "list_workspaces db =
     (let joined = map (\<lambda>w. (w, filter (\<lambda>t. t_workspace_id t = w_id w) (td_tasks db))) (td_workspaces db);
          groups = sort_key (\<lambda>(w, ts). w_id w) (filter (\<lambda>(w, ts). ts \<noteq> []) joined)
      in order_desc (\<lambda>(w, n, last_at). last_at)
           (map (\<lambda>(w, ts). (w, length ts, foldl max '''' (map t_updated_at ts))) groups))"

text \<open>The per-agent activity. An RFC 3339 text parses to nanoseconds since the epoch; the difference of
  two instants in milliseconds is cut towards zero.\<close>

record agent_stats =
  as_agent :: string
  as_run_count :: u64
  as_avg_duration_ms :: u64
  as_last_run_at :: "string option"

definition whole_ms :: "int \<Rightarrow> int" where
  "whole_ms d = (if 0 \<le> d then d div 1000000 else - ((- d) div 1000000))"

fun stats_loop ::
    "(string \<Rightarrow> int option) \<Rightarrow> u64 \<Rightarrow> u64 \<Rightarrow> string option \<Rightarrow> task_record list \<Rightarrow> u64 \<times> u64 \<times> string option" where
  "stats_loop parse_ts total_ms counted last_run_at [] = (total_ms, counted, last_run_at)"
| "stats_loop parse_ts total_ms counted last_run_at (t # ts) =
     (let (total_ms, counted) =
            (case (parse_ts (t_created_at t), parse_ts (t_updated_at t)) of
               (Some created, Some updated) \<Rightarrow>
                 (let delta = whole_ms (updated - created)
                  in if delta \<ge> 0 then (total_ms + of_int delta, counted + 1) else (total_ms, counted))
             | _ \<Rightarrow> (total_ms, counted));
          last_run_at = (if (case last_run_at of None \<Rightarrow> True | Some l \<Rightarrow> t_updated_at t > l)
                         then Some (t_updated_at t) else last_run_at)
      in stats_loop parse_ts total_ms counted last_run_at ts)"

definition stats_of_agent :: "(string \<Rightarrow> int option) \<Rightarrow> task_record list \<Rightarrow> string \<Rightarrow> agent_stats" where
  "stats_of_agent parse_ts tasks agent =
     (let records = filter (\<lambda>t. t_agent t = agent) tasks;
          (total_ms, counted, last_run_at) = stats_loop parse_ts 0 0 None records
      in \<lparr>as_agent = agent, as_run_count = of_nat (length records),
          as_avg_duration_ms = (if counted = 0 then 0 else total_ms div counted),
          as_last_run_at = last_run_at\<rparr>)"

definition local_stats_by_agent :: "(string \<Rightarrow> int option) \<Rightarrow> task_db \<Rightarrow> agent_stats list result" where
  "local_stats_by_agent parse_ts db =
     (case task_list db of
        Inl e \<Rightarrow> Inl e
      | Inr tasks \<Rightarrow> Inr (map (stats_of_agent parse_ts tasks) (sort (remdups (map t_agent tasks)))))"

section \<open>The tables and their contract\<close>

definition task_statuses :: "task_status list" where
  "task_statuses = [TsCreated, TsRunning, TsCompleted, TsFailed, TsCancelled]"

interpretation task_status: str_enum "''task status''" status_as_str task_statuses
proof
  show "v \<in> set task_statuses" for v by (cases v) (simp_all add: task_statuses_def)
qed (simp add: task_statuses_def)

lemma parse_status_enum: "parse_status = str_enum_parse ''task status'' status_as_str task_statuses"
  by (rule ext) (simp add: parse_status_def str_enum_parse_def task_statuses_def)

lemma parse_status_texts [simp]:
  "parse_status ''created'' = Inr TsCreated" "parse_status ''running'' = Inr TsRunning"
  "parse_status ''completed'' = Inr TsCompleted" "parse_status ''failed'' = Inr TsFailed"
  "parse_status ''cancelled'' = Inr TsCancelled"
  by (simp_all add: parse_status_def)

lemmas parse_status_str [simp] = task_status.parse_as_str [folded parse_status_enum]

interpretation tasks: keyed_rows t_id task_sql_get task_sql_upd
  by unfold_locales (auto simp: task_sql_get_def task_sql_upd_def find_update_key dest: find_SomeD)

text \<open>The status column holds texts of the enum; ids are below the sequence and distinct.\<close>

definition task_db_ok :: "task_db \<Rightarrow> bool" where
  "task_db_ok db \<longleftrightarrow> distinct (map t_id (td_tasks db)) \<and> (\<forall>r \<in> set (td_tasks db). t_id r \<le> td_seq db) \<and>
     (\<forall>r \<in> set (td_tasks db). t_status r \<in> range status_as_str)"

lemma row_to_task_ok: "t_status r \<in> range status_as_str \<Longrightarrow> \<exists>t. row_to_task r = Inr t"
  by (auto simp: row_to_task_def)

lemma rows_to_tasks_ok:
  "\<forall>r \<in> set rs. t_status r \<in> range status_as_str \<Longrightarrow> \<exists>ts. rows_to_tasks rs = Inr ts"
proof (induction rs)
  case (Cons r rs)
  then obtain t ts where "row_to_task r = Inr t" "rows_to_tasks rs = Inr ts"
    using row_to_task_ok by fastforce
  then show ?case by simp
qed simp

lemma live_status_iff: "live_status s \<longleftrightarrow> s = status_as_str TsCreated \<or> s = status_as_str TsRunning"
  by (simp add: live_status_def)

lemma task_db_ok_upd:
  assumes "task_db_ok db" "\<And>r. t_id (f r) = t_id r" "\<And>r. t_status r \<in> range status_as_str \<Longrightarrow> t_status (f r) \<in> range status_as_str"
  shows "task_db_ok (db\<lparr>td_tasks := update_where p f (td_tasks db)\<rparr>)"
  using assms by (auto simp: task_db_ok_def map_update_where set_update_where)

lemma seq_max: "\<forall>r \<in> set rs. t_id r \<le> s \<Longrightarrow> foldr max (map t_id rs) s = s"
  by (induction rs) auto

lemma next_task_id_seq: "task_db_ok db \<Longrightarrow> next_task_id db = td_seq db + 1"
  by (simp add: next_task_id_def task_db_ok_def seq_max)


section \<open>The life of a task\<close>

lemma get_task_ok: "task_db_ok db \<Longrightarrow> \<exists>t. get_task i db = Inr t"
proof (cases "task_sql_get i db")
  case (Some r)
  assume "task_db_ok db"
  moreover from Some have "r \<in> set (td_tasks db)" by (auto simp: task_sql_get_def dest: find_SomeD)
  ultimately show ?thesis using Some row_to_task_ok by (fastforce simp: get_task_def task_db_ok_def)
qed (simp add: get_task_def)

lemma get_task_Some:
  "get_task i db = Inr (Some t) \<longleftrightarrow> (\<exists>r. task_sql_get i db = Some r \<and> row_to_task r = Inr t)"
  by (auto simp: get_task_def split: option.splits sum.splits)

lemma get_task_or_Inr: "get_task_or what i db = Inr t \<longleftrightarrow> get_task i db = Inr (Some t)"
  by (auto simp: get_task_or_def split: option.splits sum.splits)

lemma task_no_event [simp]:
  "task_sql_get i (record_event ts k d db) = task_sql_get i db" "td_tasks (record_event ts k d db) = td_tasks db"
  "td_seq (record_event ts k d db) = td_seq db" "task_db_ok (record_event ts k d db) = task_db_ok db"
  by (simp_all add: record_event_def task_sql_get_def task_db_ok_def)

lemma task_no_workspace [simp]:
  "task_sql_get i (upsert_workspace ts w p n db) = task_sql_get i db"
  "td_tasks (upsert_workspace ts w p n db) = td_tasks db" "td_seq (upsert_workspace ts w p n db) = td_seq db"
  "task_db_ok (upsert_workspace ts w p n db) = task_db_ok db"
  by (simp_all add: upsert_workspace_def task_sql_get_def task_db_ok_def)

lemmas task_writes = finish_def record_token_usage_def task_set_status_def task_sql_upd_def

lemma create_for_cwd_row:
  assumes "create_for_cwd pj ts d a cwd db = (i, db')"
  shows "\<exists>r. td_tasks db' = td_tasks db @ [r] \<and> t_id r = i \<and> i = next_task_id db \<and> t_status r = ''created'' \<and>
    t_agent r = a \<and> t_description r = d \<and> t_cwd r = cwd \<and> t_created_at r = ts \<and> t_updated_at r = ts \<and> t_rate_limited r = 0 \<and>
    t_artifact_path r = None \<and> t_worktree_path r = None \<and> t_summary r = None \<and> td_seq db' = i \<and> td_events db' = td_events db"
  using assms by (auto simp: create_for_cwd_def task_create_def Let_def upsert_workspace_def)

lemma next_task_id_fresh: "x \<in> set (td_tasks db) \<Longrightarrow> t_id x < next_task_id db"
proof -
  have "x \<in> set rs \<Longrightarrow> t_id x \<le> foldr max (map t_id rs) s" for rs s
    by (induction rs) (auto simp: le_max_iff_disj)
  then show "x \<in> set (td_tasks db) \<Longrightarrow> t_id x < next_task_id db" by (fastforce simp: next_task_id_def)
qed

lemma create_for_cwd_ok:
  assumes "task_db_ok db" "create_for_cwd pj ts d a cwd db = (i, db')"
  shows "task_db_ok db'"
  using create_for_cwd_row [OF assms(2)] assms(1) next_task_id_fresh [of _ db] next_task_id_seq [OF assms(1)]
  by (fastforce simp: task_db_ok_def intro: image_eqI [of _ _ TsCreated])

text \<open>The writes of this file, in any order: what the daemon, its handlers and its task threads do to the
  table.\<close>

inductive task_step :: "task_db \<Rightarrow> task_db \<Rightarrow> bool" where
  created: "create_for_cwd pj ts d a cwd db = (i, db') \<Longrightarrow> task_step db db'"
| moved: "task_step db (task_set_status ts i st db)"
| finished: "task_step db (finish ts i st wt art ec to sm rl db)"
| counted: "task_step db (record_token_usage i p c e db)"
| forced: "force_fail ts i reason db = (r, db') \<Longrightarrow> task_step db db'"
| reconciled: "reconcile_orphaned_tasks ts db = (n, db') \<Longrightarrow> task_step db db'"
| skipped: "record_conditionally_skipped pj ts d a cwd sm db = (r, db') \<Longrightarrow> task_step db db'"
| logged: "task_step db (record_event ts k d db)"

definition same_task :: "task_sql \<Rightarrow> task_sql \<Rightarrow> bool" where
  "same_task r r' \<longleftrightarrow> t_id r' = t_id r \<and> t_description r' = t_description r \<and> t_agent r' = t_agent r \<and>
     t_created_at r' = t_created_at r \<and> t_cwd r' = t_cwd r \<and> t_workspace_id r' = t_workspace_id r"

definition tasks_kept :: "task_db \<Rightarrow> task_db \<Rightarrow> bool" where
  "tasks_kept db db' \<longleftrightarrow> (list_all2 same_task (td_tasks db) (take (length (td_tasks db)) (td_tasks db')) \<and>
     length (td_tasks db) \<le> length (td_tasks db'))"

lemma same_task_refl [simp]: "same_task r r"
  by (simp add: same_task_def)

lemma tasks_kept_upd:
  assumes "\<And>r. same_task r (f r)"
  shows "tasks_kept db (db\<lparr>td_tasks := update_where p f (td_tasks db)\<rparr>)"
  using assms by (simp add: tasks_kept_def update_where_def list_all2_conv_all_nth)

lemma tasks_kept_append: "td_tasks db' = td_tasks db @ rs \<Longrightarrow> tasks_kept db db'"
  by (simp add: tasks_kept_def list_all2_refl)

lemma tasks_kept_refl: "tasks_kept db db"
  using tasks_kept_append [of db db "[]"] by simp

lemma tasks_kept_trans: "tasks_kept a b \<Longrightarrow> tasks_kept b c \<Longrightarrow> tasks_kept a c"
  unfolding tasks_kept_def
  by (clarsimp simp: list_all2_conv_all_nth same_task_def min_def)

lemma task_step_upd:
  assumes "\<And>r. same_task r (f r)" "\<And>r. t_status r \<in> range status_as_str \<Longrightarrow> t_status (f r) \<in> range status_as_str"
  shows "(task_db_ok db \<longrightarrow> task_db_ok (task_sql_upd i f db)) \<and> tasks_kept db (task_sql_upd i f db)"
  unfolding task_sql_upd_def using tasks_kept_upd [OF assms(1)] task_db_ok_upd [of db f] assms
  by (simp add: same_task_def)

lemma finish_step:
  "(task_db_ok db \<longrightarrow> task_db_ok (finish ts i st wt art ec to sm rl db)) \<and>
   tasks_kept db (finish ts i st wt art ec to sm rl db)"
  unfolding finish_def by (rule task_step_upd) (simp_all add: same_task_def)

lemma tasks_kept_event: "tasks_kept db (record_event ts k d db') \<longleftrightarrow> tasks_kept db db'"
  by (simp add: tasks_kept_def)

lemma force_fail_step:
  "force_fail ts i reason db = (r, db') \<Longrightarrow> (task_db_ok db \<longrightarrow> task_db_ok db') \<and> tasks_kept db db'"
  using finish_step [of db ts i]
  by (auto simp: force_fail_def Let_def tasks_kept_event tasks_kept_refl split: sum.splits if_splits)

lemma reconcile_tasks:
  "reconcile_orphaned_tasks ts db = (n, db') \<Longrightarrow>
   td_tasks db' = update_where (\<lambda>r. live_status (t_status r)) (orphan_failed ts) (td_tasks db) \<and>
   n = length (filter (\<lambda>r. live_status (t_status r)) (td_tasks db)) \<and> td_seq db' = td_seq db"
  by (auto simp: reconcile_orphaned_tasks_def Let_def record_event_def)

lemma orphan_failed_same: "same_task r (orphan_failed ts r)" "t_status (orphan_failed ts r) = status_as_str TsFailed"
  by (simp_all add: orphan_failed_def same_task_def)

lemma task_db_same:
  "td_tasks a = td_tasks b \<Longrightarrow> td_seq a = td_seq b \<Longrightarrow>
   (task_db_ok a \<longleftrightarrow> task_db_ok b) \<and> (tasks_kept c a \<longleftrightarrow> tasks_kept c b)"
  by (simp add: task_db_ok_def tasks_kept_def)

lemma reconcile_step:
  assumes "reconcile_orphaned_tasks ts db = (n, db')"
  shows "(task_db_ok db \<longrightarrow> task_db_ok db') \<and> tasks_kept db db'"
proof -
  let ?db = "db\<lparr>td_tasks := update_where (\<lambda>r. live_status (t_status r)) (orphan_failed ts) (td_tasks db)\<rparr>"
  have "task_db_ok db \<Longrightarrow> task_db_ok ?db"
    by (rule task_db_ok_upd) (auto simp: orphan_failed_same orphan_failed_same [unfolded same_task_def] intro: range_eqI [of _ _ TsFailed])
  moreover have "tasks_kept db ?db" by (rule tasks_kept_upd) (rule orphan_failed_same)
  moreover have "td_tasks db' = td_tasks ?db" "td_seq db' = td_seq ?db"
    using reconcile_tasks [OF assms] by simp_all
  ultimately show ?thesis using task_db_same by metis
qed

lemma skipped_step:
  assumes "record_conditionally_skipped pj ts d a cwd sm db = (r, db')"
  shows "(task_db_ok db \<longrightarrow> task_db_ok db') \<and> tasks_kept db db'"
proof -
  obtain i db1 where c: "create_for_cwd pj ts d a cwd db = (i, db1)" by fastforce
  with assms have db': "db' = record_event ts ''task.cancelled'' (task_no i @ '' '' @ sm)
      (finish ts i TsCancelled None None None False (Some sm) False db1)"
    by (simp add: record_conditionally_skipped_def Let_def)
  moreover from create_for_cwd_row [OF c] have "tasks_kept db db1" by (auto intro: tasks_kept_append)
  ultimately show ?thesis
    using create_for_cwd_ok [OF _ c] finish_step [of db1 ts i TsCancelled]
    by (auto simp: tasks_kept_event intro: tasks_kept_trans)
qed

lemma task_step_invariant:
  "task_step db db' \<Longrightarrow> (task_db_ok db \<longrightarrow> task_db_ok db') \<and> tasks_kept db db'"
proof (induction rule: task_step.induct)
  case (created pj ts d a cwd db i db')
  from create_for_cwd_row [OF created] have "tasks_kept db db'" by (auto intro: tasks_kept_append)
  with create_for_cwd_ok [OF _ created] show ?case by blast
next
  case (moved db ts i st)
  show ?case unfolding task_set_status_def by (rule task_step_upd) (simp_all add: same_task_def)
next
  case (counted db i p c e)
  show ?case unfolding record_token_usage_def by (rule task_step_upd) (simp_all add: same_task_def)
qed (simp_all add: finish_step force_fail_step reconcile_step skipped_step tasks_kept_event tasks_kept_refl)

text \<open>Whatever the daemon does to the table: every task stays in it under its id, with its prompt, agent
  and directory; ids stay distinct; every status is one the code can read back, so that no lookup of a
  task ever fails.\<close>

theorem task_history:
  assumes "task_step\<^sup>*\<^sup>* db db'" "task_db_ok db"
  shows "tasks_kept db db' \<and> distinct (map t_id (td_tasks db')) \<and> (\<forall>i. is_ok (get_task i db')) \<and>
    is_ok (task_list db') \<and>
    (\<forall>r. task_sql_get i db = Some r \<longrightarrow> (\<exists>r'. task_sql_get i db' = Some r' \<and> same_task r r'))"
proof -
  from assms have k: "task_db_ok db' \<and> tasks_kept db db'"
  proof (induction rule: rtranclp_induct)
    case (step y z)
    with task_step_invariant tasks_kept_trans show ?case by blast
  qed (simp add: tasks_kept_refl)
  then have d: "distinct (map t_id (td_tasks db'))" by (simp add: task_db_ok_def)
  have "\<exists>r'. task_sql_get i db' = Some r' \<and> same_task r r'" if "task_sql_get i db = Some r" for r
  proof -
    from that have "r \<in> set (td_tasks db)" "t_id r = i" by (auto simp: task_sql_get_def dest: find_SomeD)
    then obtain n where n: "n < length (td_tasks db)" "td_tasks db ! n = r" by (auto simp: in_set_conv_nth)
    with k have s: "same_task r (td_tasks db' ! n)" "n < length (td_tasks db')"
      by (auto simp: tasks_kept_def list_all2_conv_all_nth)
    with d have "find (\<lambda>r. t_id r = t_id (td_tasks db' ! n)) (td_tasks db') = Some (td_tasks db' ! n)"
      by (intro find_unique) auto
    with s \<open>t_id r = i\<close> show ?thesis by (auto simp: task_sql_get_def same_task_def)
  qed
  moreover have "\<exists>ts. task_list db' = Inr ts"
    using k rows_to_tasks_ok [of "order_desc t_created_at (td_tasks db')"]
    by (auto simp: task_list_def task_db_ok_def order_desc_def)
  moreover have "is_ok (get_task i db')" for i
    using get_task_ok [of db' i] k by auto
  ultimately show ?thesis using k d by auto
qed

definition no_project :: project_env where
  "no_project = \<lparr>pj_workspace_id = (\<lambda>cwd. cwd), pj_repo_root = (\<lambda>_. None), pj_display_name = (\<lambda>p. p)\<rparr>"

definition empty_task_db :: task_db where
  "empty_task_db = \<lparr>td_tasks = [], td_seq = 0, td_workspaces = [], td_events = []\<rparr>"

theorem task_history_witness:
  "\<exists>db. task_step\<^sup>*\<^sup>* empty_task_db db \<and> is_ok (task_list db) \<and> length (td_tasks db) = 1"
proof -
  obtain i db where c: "create_for_cwd no_project ''t'' ''fix it'' ''claude'' ''/tmp'' empty_task_db = (i, db)"
    by fastforce
  have s: "task_step\<^sup>*\<^sup>* empty_task_db db" using task_step.created [OF c] by blast
  have ok: "task_db_ok empty_task_db" by (simp add: task_db_ok_def empty_task_db_def)
  from create_for_cwd_row [OF c] have "length (td_tasks db) = 1" by (auto simp: empty_task_db_def)
  with task_history [OF s ok] s show ?thesis by blast
qed

text \<open>After a daemon start no task is created or running. Each one that was is failed, says that it was
  interrupted and is otherwise as it was; the finished ones are untouched; the count is right, and an
  event is written exactly when there was one.\<close>

theorem daemon_start_settles_tasks:
  assumes "reconcile_orphaned_tasks ts db = (n, db')"
  shows "list_all (\<lambda>r. \<not> live_status (t_status r)) (td_tasks db') \<and>
    td_tasks db' = map (\<lambda>r. if live_status (t_status r) then orphan_failed ts r else r) (td_tasks db) \<and>
    n = length (filter (\<lambda>r. live_status (t_status r)) (td_tasks db)) \<and>
    length (td_events db') = length (td_events db) + of_bool (n > 0) \<and>
    reconcile_orphaned_tasks ts2 db' = (0, db')"
proof -
  from reconcile_tasks [OF assms]
  have t: "td_tasks db' = map (\<lambda>r. if live_status (t_status r) then orphan_failed ts r else r) (td_tasks db)"
    and n: "n = length (filter (\<lambda>r. live_status (t_status r)) (td_tasks db))"
    by (simp_all add: update_where_def)
  then have settled: "list_all (\<lambda>r. \<not> live_status (t_status r)) (td_tasks db')"
    by (auto simp: list_all_iff live_status_def orphan_failed_same)
  moreover from assms have "length (td_events db') = length (td_events db) + of_bool (n > 0)"
    by (auto simp: reconcile_orphaned_tasks_def Let_def record_event_def)
  moreover have "reconcile_orphaned_tasks ts2 db' = (0, db')"
  proof -
    from settled have "filter (\<lambda>r. live_status (t_status r)) (td_tasks db') = []"
      by (simp add: list_all_iff filter_empty_conv)
    moreover from settled have "update_where (\<lambda>r. live_status (t_status r)) (orphan_failed ts2) (td_tasks db') = td_tasks db'"
      by (intro update_where_none) (simp add: list_all_iff)
    ultimately show ?thesis by (simp add: reconcile_orphaned_tasks_def)
  qed
  ultimately show ?thesis using t n by blast
qed

theorem daemon_start_settles_tasks_witness:
  "\<exists>db'. reconcile_orphaned_tasks ''t1''
      (snd (create_for_cwd no_project ''t0'' ''fix it'' ''claude'' ''/tmp'' empty_task_db)) = (1, db') \<and>
     list_all (\<lambda>r. \<not> live_status (t_status r)) (td_tasks db')"
proof -
  let ?db = "snd (create_for_cwd no_project ''t0'' ''fix it'' ''claude'' ''/tmp'' empty_task_db)"
  obtain n db' where r: "reconcile_orphaned_tasks ''t1'' ?db = (n, db')" by fastforce
  have "length (filter (\<lambda>r. live_status (t_status r)) (td_tasks ?db)) = 1"
    by (simp add: create_for_cwd_def task_create_def Let_def no_project_def empty_task_db_def
        upsert_workspace_def live_status_def)
  with daemon_start_settles_tasks [OF r] r show ?thesis by metis
qed

text \<open>A forced cancel answers an error for an unknown id, leaves a finished task as it is, and fails a
  live one with the reason, keeping its worktree and its artifact; no other task changes.\<close>

theorem force_fail_spec:
  assumes "task_db_ok db"
  shows "case get_task i db of
      Inr None \<Rightarrow> force_fail ts i reason db = (Inl ''no such task'', db)
    | Inr (Some t) \<Rightarrow>
        (if t_status t \<in> {TsCreated, TsRunning}
         then \<exists>db'. force_fail ts i reason db =
            (Inr (t\<lparr>t_status := TsFailed, t_exit_code := None, t_timed_out := False, t_summary := Some reason,
                  t_updated_at := ts, t_rate_limited := False\<rparr>), db') \<and>
            (\<forall>j. j \<noteq> i \<longrightarrow> get_task j db' = get_task j db)
         else force_fail ts i reason db = (Inr t, db))
    | Inl e \<Rightarrow> False"
proof (cases "task_sql_get i db")
  case None
  then show ?thesis by (simp add: get_task_def force_fail_def get_task_or_def)
next
  case (Some r)
  obtain t where t: "get_task i db = Inr (Some t)"
    using get_task_ok [OF assms, of i] Some row_to_task_ok by (auto simp: get_task_def split: sum.splits)
  then have r: "row_to_task r = Inr t" using Some by (auto simp: get_task_Some)
  show ?thesis
  proof (cases "t_status t \<in> {TsCreated, TsRunning}")
    case True
    let ?db = "finish ts i TsFailed (t_worktree_path t) (t_artifact_path t) None False (Some reason) False db"
    have get: "task_sql_get j ?db = (if j = i then map_option (\<lambda>r. r\<lparr>t_status := status_as_str TsFailed,
        t_worktree_path := t_worktree_path t, t_artifact_path := t_artifact_path t, t_exit_code := None,
        t_timed_out := 0, t_summary := Some reason, t_updated_at := ts, t_rate_limited := 0\<rparr>) (task_sql_get j db)
        else task_sql_get j db)" for j
      unfolding finish_def by (subst tasks.get_upd) auto
    let ?t = "t\<lparr>t_status := TsFailed, t_exit_code := None, t_timed_out := False, t_summary := Some reason,
      t_updated_at := ts, t_rate_limited := False\<rparr>"
    have "get_task i ?db = Inr (Some ?t)"
      using r Some by (auto simp: get_task_def get row_to_task_def split: sum.splits)
    moreover have "get_task j ?db = get_task j db" if "j \<noteq> i" for j
      using that by (simp add: get_task_def get)
    ultimately show ?thesis using t True
      by (auto simp: force_fail_def get_task_or_def Let_def get_task_def)
  next
    case False
    with t show ?thesis by (auto simp: force_fail_def get_task_or_def Let_def)
  qed
qed

theorem force_fail_spec_witness:
  "force_fail ''t'' 7 ''stuck'' empty_task_db = (Inl ''no such task'', empty_task_db)"
proof -
  have "task_db_ok empty_task_db" "get_task 7 empty_task_db = Inr None"
    by (simp_all add: task_db_ok_def empty_task_db_def get_task_def task_sql_get_def)
  with force_fail_spec [where db = empty_task_db and i = 7 and ts = "''t''" and reason = "''stuck''"] show ?thesis by simp
qed

end
