(* ===== verification/TaskOutput.thy ===== *)
theory TaskOutput
  imports Utf8
begin

text \<open>
  What \<open>task.rs\<close> reads out of texts: the token counts of a run (\<open>parse_or_estimate_tokens\<close>), its one-line
  summary (\<open>summarize\<close>) and the keywords of a description (\<open>significant_keywords\<close>).
\<close>

section \<open>Token counts\<close>

definition parse_i64 :: "string \<Rightarrow> int option" where
  "parse_i64 d =
     (if d \<noteq> [] \<and> list_all is_digit d \<and> int (digits_val d) \<le> i64_max then Some (int (digits_val d)) else None)"

definition json_num :: "string \<Rightarrow> string \<Rightarrow> int option" where
  "json_num hay key =
     (let pat = [CHR 0x22] @ key @ [CHR 0x22]
      in case find_sub pat hay of
           None \<Rightarrow> None
         | Some at \<Rightarrow>
             (let rest = trim_start (drop (at + length pat) hay)
              in if \<not> starts_with '':'' rest then None
                 else parse_i64 (takeWhile is_digit (trim_start (drop 1 rest)))))"

text \<open>\<open>split\<close> at the bytes that are no digits, without the empty pieces.\<close>

function digit_runs :: "string \<Rightarrow> string list" where
  "digit_runs [] = []"
| "digit_runs (c # s) =
     (if is_digit c then (c # takeWhile is_digit s) # digit_runs (dropWhile is_digit s) else digit_runs s)"
  by pat_completeness auto
termination
  by (relation "measure length") (simp_all add: le_imp_less_Suc length_dropWhile_le)

definition line_numbers :: "string \<Rightarrow> int list" where
  "line_numbers line = List.map_filter parse_i64 (digit_runs line)"

fun first_two :: "int list \<Rightarrow> (int \<times> int) option" where
  "first_two (a # b # _) = Some (a, b)"
| "first_two _ = None"

definition estimate :: "string \<Rightarrow> int" where
  "estimate s = (int (char_count s) + 3) div 4"

fun token_lines :: "unicode \<Rightarrow> string list \<Rightarrow> (int \<times> int) option" where
  "token_lines u [] = None"
| "token_lines u (l # ls) =
     (if contains_sub ''token'' (to_lowercase u l)
      then (case first_two (line_numbers l) of Some r \<Rightarrow> Some r | None \<Rightarrow> token_lines u ls)
      else token_lines u ls)"

definition parse_or_estimate_tokens ::
    "unicode \<Rightarrow> string \<Rightarrow> string \<Rightarrow> string \<Rightarrow> string \<Rightarrow> int \<times> int \<times> bool" where
  "parse_or_estimate_tokens u agent prompt stdout stderr =
     (let hay = stdout @ newline @ stderr
      in case (json_num hay ''input_tokens'', json_num hay ''output_tokens'') of
           (Some i, Some n) \<Rightarrow> (i, n, False)
         | _ \<Rightarrow>
             (case token_lines u (str_lines hay) of
                Some (a, b) \<Rightarrow> (a, b, False)
              | None \<Rightarrow> (estimate prompt, estimate stdout, True)))"

section \<open>Summary\<close>

definition last_error_line :: "string \<Rightarrow> string option" where
  "last_error_line s =
     (let ls = filter (\<lambda>l. l \<noteq> [] \<and> (contains_sub ''Error'' l \<or> contains_sub ''ERROR'' l)) (map trim (str_lines s))
      in if ls = [] then None else Some (last ls))"

definition is_decorative :: "unicode \<Rightarrow> string \<Rightarrow> bool" where
  "is_decorative u l = (\<not> list_ex (is_alphanumeric u) (utf8_chars l))"

definition first_nonempty_line :: "unicode \<Rightarrow> string \<Rightarrow> string" where
  "first_nonempty_line u s =
     unwrap_or (find (\<lambda>l. l \<noteq> [] \<and> \<not> is_decorative u l) (map trim (str_lines s))) ''''"

definition debug_opt_int :: "int option \<Rightarrow> string" where
  "debug_opt_int x = (case x of None \<Rightarrow> ''None'' | Some i \<Rightarrow> ''Some('' @ dec_int i @ '')'')"

definition summarize :: "unicode \<Rightarrow> string \<Rightarrow> string \<Rightarrow> bool \<Rightarrow> int option \<Rightarrow> string" where
  "summarize u stdout stderr timed_out exit_code =
     (if timed_out then ''timed out''
      else
        (let (first_line, from_stderr) =
               (case (last_error_line stderr, last_error_line stdout) of
                  (Some l, _) \<Rightarrow> (l, True)
                | (None, Some l) \<Rightarrow> (l, False)
                | (None, None) \<Rightarrow>
                    (let s = first_nonempty_line u stdout
                     in if s \<noteq> [] then (s, False) else (first_nonempty_line u stderr, True)));
             from_stderr = (if from_stderr \<and> first_line = [] then False else from_stderr);
             truncated = take_chars 200 first_line
         in if truncated = [] then ''exit code '' @ debug_opt_int exit_code @ '', no output on stdout or stderr''
            else if from_stderr then ''[stderr] '' @ truncated
            else truncated))"

section \<open>Keywords\<close>

definition significant_keywords :: "unicode \<Rightarrow> string \<Rightarrow> string list" where
  "significant_keywords u description =
     take 3 (sort (remdups (map (to_lowercase u)
       (filter (\<lambda>w. char_count w \<ge> 4) (alnum_words u [] (utf8_chars description))))))"


section \<open>Facts\<close>

lemma parse_i64_dec: "int n \<le> i64_max \<Longrightarrow> parse_i64 (dec_nat n) = Some (int n)"
  by (simp add: parse_i64_def dec_nat_digits)

lemma takeWhile_dec:
  "post = [] \<or> \<not> is_digit (hd post) \<Longrightarrow> takeWhile is_digit (dec_nat n @ post) = dec_nat n"
  using dec_nat_digits [of n] by (cases post) (auto simp: list_all_iff takeWhile_append2)

lemma trim_start_dec: "trim_start (dec_nat n @ post) = dec_nat n @ post"
proof -
  have "is_digit (hd (dec_nat n))" using dec_nat_digits [of n] by (cases "dec_nat n") auto
  then show ?thesis
    by (intro trim_start_solid) (simp add: digit_solid hd_append)
qed

lemma json_num_reads:
  assumes first: "find_sub ([CHR 0x22] @ key @ [CHR 0x22]) (pre @ [CHR 0x22] @ key @ [CHR 0x22] @ '':'' @ dec_nat n @ post) = Some (length pre)"
    and post: "post = [] \<or> \<not> is_digit (hd post)" and n: "int n \<le> i64_max"
  shows "json_num (pre @ [CHR 0x22] @ key @ [CHR 0x22] @ '':'' @ dec_nat n @ post) key = Some (int n)"
proof -
  have "solid_byte (CHR '':'')" by code_simp
  then have "trim_start ('':'' @ dec_nat n @ post) = '':'' @ dec_nat n @ post"
    by (intro trim_start_solid) simp
  with first show ?thesis
    by (simp add: json_num_def Let_def trim_start_dec takeWhile_dec [OF post] parse_i64_dec [OF n] starts_with_def)
qed

text \<open>A run that prints its usage as JSON is accounted with exactly the numbers it printed.\<close>

lemma usage_read_back:
  assumes hay: "stdout @ newline @ stderr =
      pre1 @ [CHR 0x22] @ ''input_tokens'' @ [CHR 0x22] @ '':'' @ dec_nat n @ post1"
      "stdout @ newline @ stderr = pre2 @ [CHR 0x22] @ ''output_tokens'' @ [CHR 0x22] @ '':'' @ dec_nat m @ post2"
    and first: "find_sub ([CHR 0x22] @ ''input_tokens'' @ [CHR 0x22]) (stdout @ newline @ stderr) = Some (length pre1)"
      "find_sub ([CHR 0x22] @ ''output_tokens'' @ [CHR 0x22]) (stdout @ newline @ stderr) = Some (length pre2)"
    and post: "post1 = [] \<or> \<not> is_digit (hd post1)" "post2 = [] \<or> \<not> is_digit (hd post2)"
    and n: "int n \<le> i64_max" "int m \<le> i64_max"
  shows "parse_or_estimate_tokens u agent prompt stdout stderr = (int n, int m, False)"
proof -
  have "json_num (stdout @ newline @ stderr) ''input_tokens'' = Some (int n)"
    using json_num_reads [OF first(1) [unfolded hay(1)] post(1) n(1)] by (simp only: hay(1))
  moreover have "json_num (stdout @ newline @ stderr) ''output_tokens'' = Some (int m)"
    using json_num_reads [OF first(2) [unfolded hay(2)] post(2) n(2)] by (simp only: hay(2))
  ultimately show ?thesis by (simp add: parse_or_estimate_tokens_def Let_def)
qed

lemma usage_read_back_witness:
  "parse_or_estimate_tokens u ''claude'' ''hi''
     (''{'' @ [CHR 0x22] @ ''input_tokens'' @ [CHR 0x22] @ '':12,'' @ [CHR 0x22] @ ''output_tokens'' @ [CHR 0x22] @ '':34}'')
     '''' = (12, 34, False)"
proof -
  let ?s = "''{'' @ [CHR 0x22] @ ''input_tokens'' @ [CHR 0x22] @ '':12,'' @ [CHR 0x22] @ ''output_tokens'' @ [CHR 0x22] @ '':34}''"
  let ?pre = "''{'' @ [CHR 0x22] @ ''input_tokens'' @ [CHR 0x22] @ '':12,''"
  have d: "dec_nat 12 = ''12''" "dec_nat 34 = ''34''" by code_simp+
  have f: "find_sub ([CHR 0x22] @ ''input_tokens'' @ [CHR 0x22]) (?s @ newline @ '''') = Some (length ''{'')"
    "find_sub ([CHR 0x22] @ ''output_tokens'' @ [CHR 0x22]) (?s @ newline @ '''') = Some (length ?pre)"
    by code_simp+
  show ?thesis
    using usage_read_back [of ?s "''''" "''{''" 12
        "'','' @ [CHR 0x22] @ ''output_tokens'' @ [CHR 0x22] @ '':34}'' @ newline" ?pre 34 "''}'' @ newline"
        u "''claude''" "''hi''", OF _ _ f] d
    by (simp add: is_digit_def i64_max_def)
qed

lemma take_chars_nonempty: "s \<noteq> [] \<Longrightarrow> take_chars (Suc n) s \<noteq> []"
  by (cases s) auto

lemma last_error_line_Some: "last_error_line s = Some l \<Longrightarrow> l \<noteq> [] \<and> l \<in> trim ` set (str_lines s) \<and> (contains_sub ''Error'' l \<or> contains_sub ''ERROR'' l)"
proof -
  assume "last_error_line s = Some l"
  then have "l \<in> set (filter (\<lambda>l. l \<noteq> [] \<and> (contains_sub ''Error'' l \<or> contains_sub ''ERROR'' l)) (map trim (str_lines s)))"
    by (auto simp: last_error_line_def Let_def simp del: filter_map set_filter split: if_splits intro: last_in_set)
  then show ?thesis by auto
qed

text \<open>A summary is never empty and shows at most 200 characters of the output, with an error line of
  standard error before one of standard output before any other line.\<close>

lemma summary_spec:
  "summarize u stdout stderr to ec \<noteq> [] \<and>
   (to \<longrightarrow> summarize u stdout stderr to ec = ''timed out'') \<and>
   (\<not> to \<longrightarrow> (\<forall>l. last_error_line stderr = Some l \<longrightarrow>
      summarize u stdout stderr to ec = ''[stderr] '' @ take_chars 200 l) \<and>
    (last_error_line stderr = None \<longrightarrow> (\<forall>l. last_error_line stdout = Some l \<longrightarrow>
      summarize u stdout stderr to ec = take_chars 200 l) \<and>
     (last_error_line stdout = None \<longrightarrow>
        (first_nonempty_line u stdout \<noteq> [] \<longrightarrow>
           summarize u stdout stderr to ec = take_chars 200 (first_nonempty_line u stdout)) \<and>
        (first_nonempty_line u stdout = [] \<and> first_nonempty_line u stderr = [] \<longrightarrow>
           summarize u stdout stderr to ec = ''exit code '' @ debug_opt_int ec @ '', no output on stdout or stderr''))))"
proof -
  have t: "s \<noteq> [] \<Longrightarrow> take_chars 200 s \<noteq> []" for s
    using take_chars_nonempty [of s 199] by simp
  show ?thesis
    using last_error_line_Some [of stderr] last_error_line_Some [of stdout] t
    by (auto simp: summarize_def Let_def split: option.splits)
qed

end
