(* ===== verification/Notes.thy ===== *)
theory Notes
  imports Sessions
begin

text \<open>
  The agents' inbox, \<open>single-core/src/notes.rs\<close>: notes from one agent to another, or to every agent of a
  project when no recipient is named.
\<close>

record agent_note =
  an_id :: int
  an_project :: "string option"
  an_from_agent :: string
  an_to_agent :: "string option"
  an_topic :: string
  an_content :: string
  an_created_at :: string
  an_read_at :: "string option"

record note_table =
  nt_rows :: "agent_note list"
  nt_seq :: int

definition leave ::
    "string \<Rightarrow> string option \<Rightarrow> string \<Rightarrow> string option \<Rightarrow> string \<Rightarrow> string \<Rightarrow> note_table \<Rightarrow> int \<times> note_table" where
  "leave ts project from_agent to_agent topic content t =
     (let i = foldr max (map an_id (nt_rows t)) (nt_seq t) + 1
      in (i, \<lparr>nt_rows = nt_rows t @ [\<lparr>an_id = i, an_project = project, an_from_agent = from_agent,
                an_to_agent = to_agent, an_topic = topic, an_content = content, an_created_at = ts,
                an_read_at = None\<rparr>], nt_seq = i\<rparr>))"

definition inbox :: "string option \<Rightarrow> string \<Rightarrow> bool \<Rightarrow> note_table \<Rightarrow> agent_note list" where
  "inbox project to_agent unread_only t =
     order_desc an_created_at
       (filter (\<lambda>n. (an_to_agent n = Some to_agent \<or> an_to_agent n = None) \<and> an_project n = project \<and>
                    (\<not> unread_only \<or> an_read_at n = None)) (nt_rows t))"

definition mark_read :: "string \<Rightarrow> int \<Rightarrow> note_table \<Rightarrow> bool \<times> note_table" where
  "mark_read ts i t =
     (exists_where (\<lambda>n. an_id n = i \<and> an_read_at n = None) (nt_rows t),
      t\<lparr>nt_rows := update_where (\<lambda>n. an_id n = i \<and> an_read_at n = None) (\<lambda>n. n\<lparr>an_read_at := Some ts\<rparr>) (nt_rows t)\<rparr>)"

definition note_get :: "int \<Rightarrow> note_table \<Rightarrow> agent_note option" where
  "note_get i t = find (\<lambda>n. an_id n = i) (nt_rows t)"

section \<open>Facts\<close>

text \<open>Reading the whole inbox and marking it read, as a task start does.\<close>

fun mark_all :: "string \<Rightarrow> agent_note list \<Rightarrow> note_table \<Rightarrow> note_table" where
  "mark_all ts [] t = t"
| "mark_all ts (n # ns) t = mark_all ts ns (snd (mark_read ts (an_id n) t))"

definition notes_ok :: "note_table \<Rightarrow> bool" where
  "notes_ok t \<longleftrightarrow> distinct (map an_id (nt_rows t)) \<and> (\<forall>n \<in> set (nt_rows t). an_id n \<le> nt_seq t)"

lemma set_order_desc' [simp]: "set (order_desc f xs) = set xs"
  by (simp add: order_desc_def)

lemma mark_all_rows:
  "nt_rows (mark_all ts ns t) =
     map (\<lambda>n. if an_id n \<in> an_id ` set ns \<and> an_read_at n = None then n\<lparr>an_read_at := Some ts\<rparr> else n) (nt_rows t)"
  by (induction ns arbitrary: t) (auto simp: mark_read_def update_where_def)

lemma marked_read:
  assumes "i \<in> an_id ` set ns" "m \<in> set (nt_rows (mark_all ts ns t))" "an_id m = i"
  shows "an_read_at m \<noteq> None"
proof -
  let ?f = "\<lambda>n. if an_id n \<in> an_id ` set ns \<and> an_read_at n = None then n\<lparr>an_read_at := Some ts\<rparr> else n"
  from assms(2) have "m \<in> ?f ` set (nt_rows t)" by (simp only: mark_all_rows set_map)
  then obtain k where k: "m = ?f k" by (rule imageE)
  show ?thesis
  proof (cases "an_id k \<in> an_id ` set ns \<and> an_read_at k = None")
    case True
    with k show ?thesis by simp
  next
    case False
    with k have mk: "m = k" by argo
    from assms(1,3) have "an_id k \<in> an_id ` set ns" by (simp only: mk)
    with False show ?thesis by (simp add: mk)
  qed
qed

text \<open>A note to one agent is delivered to that agent, whatever the others read; once it is marked it is not
  delivered again.\<close>

lemma direct_note_waits:
  assumes "n \<in> set (nt_rows t)" "notes_ok t" "an_to_agent n = Some a" "b \<noteq> a" "an_read_at n = None" "an_project n = p"
  shows "n \<in> set (inbox p a True (mark_all ts (inbox q b True t) t))"
proof -
  have "an_id n \<notin> an_id ` set (inbox q b True t)"
    using assms by (auto simp: inbox_def notes_ok_def distinct_map inj_on_def)
  with assms show ?thesis by (force simp: inbox_def mark_all_rows)
qed

text \<open>A note without a recipient reaches only the first agent of the project that starts a task: when
  that one has read it, it is in no other agent's unread inbox.\<close>

theorem broadcast_reaches_one:
  assumes "n \<in> set (nt_rows t)" "an_to_agent n = None" "an_read_at n = None" "an_project n = p"
  shows "n \<in> set (inbox p a True t) \<and> n \<in> set (inbox p b True t) \<and>
    an_id n \<notin> an_id ` set (inbox p b True (mark_all ts (inbox p a True t) t))"
proof -
  have in_box: "n \<in> set (inbox p c True t)" for c using assms by (simp add: inbox_def)
  let ?t = "mark_all ts (inbox p a True t) t"
  have "an_read_at m \<noteq> None" if "m \<in> set (nt_rows ?t)" "an_id m = an_id n" for m
    using that marked_read [of "an_id n" "inbox p a True t" m ts t] in_box [of a] by blast
  moreover have "m \<in> set (inbox p b True ?t) \<Longrightarrow> m \<in> set (nt_rows ?t) \<and> an_read_at m = None" for m
    by (simp add: inbox_def)
  ultimately have "m \<in> set (inbox p b True ?t) \<Longrightarrow> an_id m \<noteq> an_id n" for m by blast
  then have "an_id n \<notin> an_id ` set (inbox p b True ?t)" by (metis imageE)
  with in_box show ?thesis by blast
qed

theorem broadcast_reaches_one_witness:
  "\<exists>t. snd (leave ''t0'' (Some ''/p'') ''claude'' None ''heads up'' ''flaky test X'' \<lparr>nt_rows = [], nt_seq = 0\<rparr>) = t \<and>
     1 \<notin> an_id ` set (inbox (Some ''/p'') ''agy'' True (mark_all ''t1'' (inbox (Some ''/p'') ''codex'' True t) t))"
proof -
  let ?n = "\<lparr>an_id = 1, an_project = Some ''/p'', an_from_agent = ''claude'', an_to_agent = None,
    an_topic = ''heads up'', an_content = ''flaky test X'', an_created_at = ''t0'', an_read_at = None\<rparr>"
  let ?t = "\<lparr>nt_rows = [?n], nt_seq = 1\<rparr>"
  have "snd (leave ''t0'' (Some ''/p'') ''claude'' None ''heads up'' ''flaky test X'' \<lparr>nt_rows = [], nt_seq = 0\<rparr>) = ?t"
    by (simp add: leave_def)
  moreover have "1 \<notin> an_id ` set (inbox (Some ''/p'') ''agy'' True (mark_all ''t1'' (inbox (Some ''/p'') ''codex'' True ?t) ?t))"
    using broadcast_reaches_one [of ?n ?t "Some ''/p''" "''codex''" "''agy''" "''t1''"] by simp
  ultimately show ?thesis by blast
qed

end
