(* ===== verification/Memory.thy ===== *)
theory Memory
  imports Complex_Main Utf8 Sessions
begin

text \<open>
  The shared memory store, \<open>crates/single-runtime/src/memory.rs\<close>: scoped entries with a provenance and an
  optional expiry, and a substring search through SQLite's LIKE. As in \<open>TaskStore\<close>, a row and an entry
  are the same columns. Instants are RFC 3339 texts, which the code compares as texts; \<open>add_secs\<close> is
  chrono's addition (\<open>None\<close> where it panics). A confidence is a real number.
\<close>

datatype memory_scope = ScWorking | ScProject | ScUser | ScAgent | ScTask | ScLongTerm | ScKnowledge

datatype memory_source = SrcUserInstruction | SrcAgentOutput | SrcToolOutput | SrcProjectContent | SrcExternalContent

fun scope_as_str :: "memory_scope \<Rightarrow> string" where
  "scope_as_str ScWorking = ''working''"
| "scope_as_str ScProject = ''project''"
| "scope_as_str ScUser = ''user''"
| "scope_as_str ScAgent = ''agent''"
| "scope_as_str ScTask = ''task''"
| "scope_as_str ScLongTerm = ''long_term''"
| "scope_as_str ScKnowledge = ''knowledge''"

definition parse_scope :: "string \<Rightarrow> memory_scope result" where
  "parse_scope s =
     (if s = ''working'' then Inr ScWorking
      else if s = ''project'' then Inr ScProject
      else if s = ''user'' then Inr ScUser
      else if s = ''agent'' then Inr ScAgent
      else if s = ''task'' then Inr ScTask
      else if s = ''long_term'' then Inr ScLongTerm
      else if s = ''knowledge'' then Inr ScKnowledge
      else Inl (''unknown memory scope: '' @ s))"

fun source_as_str :: "memory_source \<Rightarrow> string" where
  "source_as_str SrcUserInstruction = ''user_instruction''"
| "source_as_str SrcAgentOutput = ''agent_output''"
| "source_as_str SrcToolOutput = ''tool_output''"
| "source_as_str SrcProjectContent = ''project_content''"
| "source_as_str SrcExternalContent = ''external_content''"

definition parse_source :: "string \<Rightarrow> memory_source result" where
  "parse_source s =
     (if s = ''user_instruction'' then Inr SrcUserInstruction
      else if s = ''agent_output'' then Inr SrcAgentOutput
      else if s = ''tool_output'' then Inr SrcToolOutput
      else if s = ''project_content'' then Inr SrcProjectContent
      else if s = ''external_content'' then Inr SrcExternalContent
      else Inl (''unknown memory source: '' @ s))"

record ('c, 'o) mem_cols =
  m_id :: int
  m_scope :: 'c
  m_source :: 'o
  m_project :: "string option"
  m_agent :: "string option"
  m_task :: "string option"
  m_title :: string
  m_content :: string
  m_confidence :: real
  m_created_at :: string
  m_expires_at :: "string option"

type_synonym mem_sql = "(string, string) mem_cols"
type_synonym memory_entry = "(memory_scope, memory_source) mem_cols"

record mem_table =
  mt_rows :: "mem_sql list"
  mt_seq :: int

record new_memory =
  nm_scope :: "memory_scope option"
  nm_source :: "memory_source option"
  nm_project :: "string option"
  nm_agent :: "string option"
  nm_task :: "string option"
  nm_title :: string
  nm_content :: string
  nm_confidence :: "real option"
  nm_expires_in_seconds :: "int option"

section \<open>LIKE\<close>

text \<open>SQLite's LIKE: \<open>%\<close> stands for any text, \<open>_\<close> for one character, ASCII letters match in either case.\<close>

definition next_char :: "string \<Rightarrow> string" where
  "next_char s = dropWhile is_cont_byte (tl s)"

lemma next_char_shorter [simp]: "s \<noteq> [] \<Longrightarrow> length (next_char s) < length s"
  unfolding next_char_def
  by (rule le_less_trans [OF length_dropWhile_le]) simp

function like :: "string \<Rightarrow> string \<Rightarrow> bool" where
  "like [] s = (s = [])"
| "like (p # ps) s =
     (if p = CHR ''%'' then (if like ps s then True else if s = [] then False else like (p # ps) (next_char s))
      else if s = [] then False
      else if p = CHR ''_'' then like ps (next_char s)
      else if ascii_lower p = ascii_lower (hd s) then like ps (tl s)
      else False)"
  by pat_completeness auto
termination
  by (relation "measure (\<lambda>(p, s). length p + length s)") (auto simp: less_SucI less_imp_le)

declare like.simps(2) [simp del]

section \<open>Operations\<close>

definition mem_row_to_entry :: "mem_sql \<Rightarrow> memory_entry result" where
  "mem_row_to_entry r =
     (case parse_scope (m_scope r) of
        Inl e \<Rightarrow> Inl e
      | Inr c \<Rightarrow>
          (case parse_source (m_source r) of
             Inl e \<Rightarrow> Inl e
           | Inr o' \<Rightarrow>
               Inr \<lparr>m_id = m_id r, m_scope = c, m_source = o', m_project = m_project r, m_agent = m_agent r,
                    m_task = m_task r, m_title = m_title r, m_content = m_content r,
                    m_confidence = m_confidence r, m_created_at = m_created_at r,
                    m_expires_at = m_expires_at r\<rparr>))"

fun mem_rows_to_entries :: "mem_sql list \<Rightarrow> memory_entry list result" where
  "mem_rows_to_entries [] = Inr []"
| "mem_rows_to_entries (r # rs) =
     (case mem_row_to_entry r of
        Inl e \<Rightarrow> Inl e
      | Inr m \<Rightarrow> (case mem_rows_to_entries rs of Inl e \<Rightarrow> Inl e | Inr ms \<Rightarrow> Inr (m # ms)))"

definition mem_row :: "int \<Rightarrow> string \<Rightarrow> string option \<Rightarrow> new_memory \<Rightarrow> mem_sql" where
  "mem_row i created_at expires entry =
     \<lparr>m_id = i, m_scope = scope_as_str (unwrap_or (nm_scope entry) ScWorking),
      m_source = source_as_str (unwrap_or (nm_source entry) SrcUserInstruction),
      m_project = nm_project entry, m_agent = nm_agent entry, m_task = nm_task entry,
      m_title = nm_title entry, m_content = nm_content entry,
      m_confidence = max 0 (min 1 (unwrap_or (nm_confidence entry) 1)),
      m_created_at = created_at, m_expires_at = expires\<rparr>"

definition mem_store :: "(string \<Rightarrow> int \<Rightarrow> string option) \<Rightarrow> string \<Rightarrow> new_memory \<Rightarrow> mem_table \<Rightarrow> (int \<times> mem_table) outcome" where
  "mem_store add_secs created_at entry t =
     (let i = foldr max (map m_id (mt_rows t)) (mt_seq t) + 1;
          insert = (\<lambda>expires. Ret (i, \<lparr>mt_rows = mt_rows t @ [mem_row i created_at expires entry], mt_seq = i\<rparr>))
      in case nm_expires_in_seconds entry of
           None \<Rightarrow> insert None
         | Some secs \<Rightarrow>
             (case add_secs created_at secs of None \<Rightarrow> Panic | Some e \<Rightarrow> insert (Some e)))"

definition purge_expired :: "string \<Rightarrow> mem_table \<Rightarrow> nat \<times> mem_table" where
  "purge_expired now t =
     (let gone = (\<lambda>r. case m_expires_at r of None \<Rightarrow> False | Some e \<Rightarrow> e < now)
      in (length (filter gone (mt_rows t)), t\<lparr>mt_rows := delete_where gone (mt_rows t)\<rparr>))"

definition mem_get :: "string \<Rightarrow> int \<Rightarrow> mem_table \<Rightarrow> memory_entry option result \<times> mem_table" where
  "mem_get now i t =
     (let (n, t) = purge_expired now t
      in (case find (\<lambda>r. m_id r = i) (mt_rows t) of
            None \<Rightarrow> Inr None
          | Some r \<Rightarrow> (case mem_row_to_entry r of Inl e \<Rightarrow> Inl e | Inr m \<Rightarrow> Inr (Some m)), t))"

definition mem_delete :: "int \<Rightarrow> mem_table \<Rightarrow> bool \<times> mem_table" where
  "mem_delete i t =
     (exists_where (\<lambda>r. m_id r = i) (mt_rows t), t\<lparr>mt_rows := delete_where (\<lambda>r. m_id r = i) (mt_rows t)\<rparr>)"

definition mem_search ::
    "string \<Rightarrow> string \<Rightarrow> memory_scope option \<Rightarrow> string option \<Rightarrow> mem_table \<Rightarrow> memory_entry list result \<times> mem_table" where
  "mem_search now query scope project t =
     (let (n, t) = purge_expired now t;
          pattern = ''%'' @ query @ ''%'';
          hits = filter (\<lambda>r. (like pattern (m_title r) \<or> like pattern (m_content r)) \<and>
                   (case scope of None \<Rightarrow> True | Some s \<Rightarrow> m_scope r = scope_as_str s) \<and>
                   (case project of None \<Rightarrow> True | Some p \<Rightarrow> m_project r = Some p)) (mt_rows t)
      in (mem_rows_to_entries (order_desc m_created_at hits), t))"

definition mem_list :: "string \<Rightarrow> memory_scope option \<Rightarrow> mem_table \<Rightarrow> memory_entry list result \<times> mem_table" where
  "mem_list now scope t =
     (let (n, t) = purge_expired now t
      in (case scope of
            Some s \<Rightarrow> mem_rows_to_entries (order_desc m_created_at (filter (\<lambda>r. m_scope r = scope_as_str s) (mt_rows t)))
          | None \<Rightarrow> mem_rows_to_entries (order_desc m_created_at (mt_rows t)), t))"


section \<open>Facts\<close>

text \<open>For a word without wildcards the pattern \<open>%word%\<close> is substring search without regard to ASCII case.\<close>

abbreviation lower_bytes :: "string \<Rightarrow> string" where
  "lower_bytes s \<equiv> map ascii_lower s"

lemma like_percent:
  "like (CHR ''%'' # r) s \<longleftrightarrow> like r s \<or> (s \<noteq> [] \<and> like (CHR ''%'' # r) (next_char s))"
  by (subst like.simps(2)) simp

lemma like_char:
  "c \<noteq> CHR ''%'' \<Longrightarrow> c \<noteq> CHR ''_'' \<Longrightarrow>
   like (c # r) s \<longleftrightarrow> s \<noteq> [] \<and> ascii_lower c = ascii_lower (hd s) \<and> like r (tl s)"
  by (subst like.simps(2)) simp

lemma like_any [simp]: "like ''%'' s"
proof (induction s rule: measure_induct_rule [of length])
  case (less s)
  then show ?case using next_char_shorter [of s] like_percent [of "[]" s] by (cases "s = []") auto
qed

definition plain :: "string \<Rightarrow> bool" where
  "plain w \<longleftrightarrow> list_all (\<lambda>c. c \<noteq> CHR ''%'' \<and> c \<noteq> CHR ''_'') w \<and> (w = [] \<or> \<not> is_cont_byte (hd w))"

lemma like_prefix:
  "list_all (\<lambda>c. c \<noteq> CHR ''%'' \<and> c \<noteq> CHR ''_'') w \<Longrightarrow>
   like (w @ ''%'') s \<longleftrightarrow> starts_with (lower_bytes w) (lower_bytes s)"
proof (induction w arbitrary: s)
  case (Cons c w)
  then show ?case by (cases s) (auto simp: like_char starts_with_def)
qed (simp add: starts_with_def)

lemma cont_lower [simp]: "is_cont_byte (ascii_lower c) = is_cont_byte c"
  by (simp add: is_cont_byte_def ascii_lower_def)

lemma dropWhile_cont_lower: "dropWhile is_cont_byte (lower_bytes s) = lower_bytes (dropWhile is_cont_byte s)"
  by (induction s) auto

lemma contains_sub_Cons: "contains_sub p (c # t) \<longleftrightarrow> starts_with p (c # t) \<or> contains_sub p t"
  by (auto simp: contains_sub_def)

lemma contains_skip_cont:
  "p \<noteq> [] \<Longrightarrow> \<not> is_cont_byte (hd p) \<Longrightarrow> contains_sub p (dropWhile is_cont_byte t) = contains_sub p t"
proof (induction t)
  case (Cons c t)
  then show ?case by (cases p) (auto simp: contains_sub_Cons starts_with_def)
qed simp

lemma like_plain:
  assumes "plain w"
  shows "like (''%'' @ w @ ''%'') s \<longleftrightarrow> contains_sub (lower_bytes w) (lower_bytes s)"
proof (cases "w = []")
  case True
  then show ?thesis
    using like_percent [of "''%''" s] by (simp add: contains_sub_iff) (metis append_Nil)
next
  case False
  let ?p = "lower_bytes w"
  from False assms have p: "?p \<noteq> []" "\<not> is_cont_byte (hd ?p)"
    and w: "list_all (\<lambda>c. c \<noteq> CHR ''%'' \<and> c \<noteq> CHR ''_'') w"
    by (auto simp: plain_def hd_map)
  show ?thesis
  proof (induction s rule: measure_induct_rule [of length])
    case (less s)
    show ?case
    proof (cases s)
      case Nil
      with False show ?thesis 
        using like_percent [of "w @ ''%''" "[]"] by (simp add: like_prefix [OF w] contains_sub_def starts_with_def)
    next
      case (Cons c t)
      have "like (''%'' @ w @ ''%'') s \<longleftrightarrow> like (w @ ''%'') s \<or> like (''%'' @ w @ ''%'') (next_char s)"
        using Cons like_percent [of "w @ ''%''" s] by simp
      also have "\<dots> \<longleftrightarrow> starts_with ?p (lower_bytes s) \<or> contains_sub ?p (lower_bytes (next_char s))"
        using less [of "next_char s"] Cons next_char_shorter [of s] like_prefix [OF w] by simp
      also have "contains_sub ?p (lower_bytes (next_char s)) = contains_sub ?p (lower_bytes t)"
        using contains_skip_cont [OF p, of "lower_bytes t"] Cons by (simp add: next_char_def dropWhile_cont_lower)
      finally show ?thesis using Cons by (simp add: contains_sub_Cons)
    qed
  qed
qed

lemma mem_enum_texts [simp]:
  "parse_scope (scope_as_str c) = Inr c" "parse_source (source_as_str v) = Inr v"
  by (cases c; simp add: parse_scope_def) (cases v; simp add: parse_source_def)

definition mem_ok :: "mem_table \<Rightarrow> bool" where
  "mem_ok t \<longleftrightarrow> distinct (map m_id (mt_rows t)) \<and> (\<forall>r \<in> set (mt_rows t). m_id r \<le> mt_seq t) \<and>
     (\<forall>r \<in> set (mt_rows t). m_scope r \<in> range scope_as_str \<and> m_source r \<in> range source_as_str)"


lemma mem_row_ok:
  "m_scope r \<in> range scope_as_str \<Longrightarrow> m_source r \<in> range source_as_str \<Longrightarrow> \<exists>m. mem_row_to_entry r = Inr m"
  by (auto simp: mem_row_to_entry_def)

lemma mem_row_columns:
  "mem_row_to_entry r = Inr m \<Longrightarrow> m_id m = m_id r \<and> m_title m = m_title r \<and> m_content m = m_content r \<and>
   m_created_at m = m_created_at r \<and> m_project m = m_project r \<and> m_scope r = scope_as_str (m_scope m)"
  by (auto simp: mem_row_to_entry_def parse_scope_def split: sum.splits if_splits)

lemma mem_rows_ok:
  "\<forall>r \<in> set rs. m_scope r \<in> range scope_as_str \<and> m_source r \<in> range source_as_str \<Longrightarrow>
   \<exists>ms. mem_rows_to_entries rs = Inr ms \<and> list_all2 (\<lambda>r m. mem_row_to_entry r = Inr m) rs ms"
proof (induction rs)
  case (Cons r rs)
  then obtain m ms where "mem_row_to_entry r = Inr m" "mem_rows_to_entries rs = Inr ms"
    "list_all2 (\<lambda>r m. mem_row_to_entry r = Inr m) rs ms"
    using mem_row_ok by fastforce
  then show ?case by simp
qed simp

definition mem_expired :: "string \<Rightarrow> ('c, 'o) mem_cols \<Rightarrow> bool" where
  "mem_expired now r \<longleftrightarrow> (\<exists>e. m_expires_at r = Some e \<and> e < now)"

lemma purge_rows: "mt_rows (snd (purge_expired now t)) = filter (\<lambda>r. \<not> mem_expired now r) (mt_rows t)"
  by (auto simp: purge_expired_def Let_def delete_where_def mem_expired_def intro!: filter_cong split: option.splits)

lemma order_desc_sorted: "sorted_wrt (\<lambda>a b. f b \<le> f a) (order_desc f xs)"
proof -
  have "sorted (map f (sort_key f (rev xs)))" by simp
  then show ?thesis by (simp add: order_desc_def sorted_wrt_rev sorted_wrt_map)
qed

lemma set_order_desc [simp]: "set (order_desc f xs) = set xs"
  by (simp add: order_desc_def)

text \<open>A search for a word returns exactly the entries that have not expired, pass the filters and contain
  the word in title or content in any case, the newest first; an expired entry is never returned.\<close>

theorem search_spec:
  assumes ok: "mem_ok t" and w: "plain w"
  shows "\<exists>ms. mem_search now w scope project t = (Inr ms, snd (purge_expired now t)) \<and>
    sorted_wrt (\<lambda>a b. m_created_at b \<le> m_created_at a) ms \<and>
    (\<forall>i. i \<in> m_id ` set ms \<longleftrightarrow> (\<exists>r \<in> set (mt_rows t). m_id r = i \<and> \<not> mem_expired now r \<and>
       (contains_sub (lower_bytes w) (lower_bytes (m_title r)) \<or>
        contains_sub (lower_bytes w) (lower_bytes (m_content r))) \<and>
       (\<forall>s. scope = Some s \<longrightarrow> m_scope r = scope_as_str s) \<and>
       (\<forall>p. project = Some p \<longrightarrow> m_project r = Some p)))"
proof -
  let ?sel = "\<lambda>r. (like (''%'' @ w @ ''%'') (m_title r) \<or> like (''%'' @ w @ ''%'') (m_content r)) \<and>
    (case scope of None \<Rightarrow> True | Some s \<Rightarrow> m_scope r = scope_as_str s) \<and>
    (case project of None \<Rightarrow> True | Some p \<Rightarrow> m_project r = Some p)"
  let ?rs = "order_desc m_created_at (filter ?sel (filter (\<lambda>r. \<not> mem_expired now r) (mt_rows t)))"
  from mem_rows_ok [of ?rs] ok obtain ms where ms: "mem_rows_to_entries ?rs = Inr ms"
    "list_all2 (\<lambda>r m. mem_row_to_entry r = Inr m) ?rs ms"
    by (auto simp: mem_ok_def)
  have s: "mem_search now w scope project t = (Inr ms, snd (purge_expired now t))"
    using ms(1) by (simp add: mem_search_def case_prod_beta purge_rows Let_def)
  have cols: "map m_id ms = map m_id ?rs" "map m_created_at ms = map m_created_at ?rs"
    using ms(2) by (induction rule: list_all2_induct) (auto dest: mem_row_columns)
  have "sorted_wrt (\<lambda>a b. b \<le> a) (map m_created_at ms)"
    unfolding cols by (simp add: sorted_wrt_map order_desc_sorted del: filter_filter)
  moreover have "i \<in> m_id ` set ms \<longleftrightarrow> (\<exists>r \<in> set ?rs. m_id r = i)" for i
    using arg_cong [OF cols(1), of set] by auto
  moreover have "?sel r \<longleftrightarrow> (contains_sub (lower_bytes w) (lower_bytes (m_title r)) \<or>
      contains_sub (lower_bytes w) (lower_bytes (m_content r))) \<and>
      (\<forall>s. scope = Some s \<longrightarrow> m_scope r = scope_as_str s) \<and> (\<forall>p. project = Some p \<longrightarrow> m_project r = Some p)" for r
    unfolding like_plain [OF w] by (cases scope; cases project) simp_all
  ultimately have "sorted_wrt (\<lambda>a b. m_created_at b \<le> m_created_at a) ms"
    "\<forall>i. i \<in> m_id ` set ms \<longleftrightarrow> (\<exists>r \<in> set (mt_rows t). m_id r = i \<and> \<not> mem_expired now r \<and>
       (contains_sub (lower_bytes w) (lower_bytes (m_title r)) \<or>
        contains_sub (lower_bytes w) (lower_bytes (m_content r))) \<and>
       (\<forall>s. scope = Some s \<longrightarrow> m_scope r = scope_as_str s) \<and>
       (\<forall>p. project = Some p \<longrightarrow> m_project r = Some p))"
    by (simp_all only: sorted_wrt_map set_order_desc set_filter) blast
  with s show ?thesis by blast
qed

definition one_memory :: mem_table where
  "one_memory = \<lparr>mt_rows = [\<lparr>m_id = 1, m_scope = ''project'', m_source = ''user_instruction'', m_project = Some ''/p'',
     m_agent = None, m_task = None, m_title = ''Auth bug'', m_content = ''token refresh race'', m_confidence = 1,
     m_created_at = ''2026-01-01'', m_expires_at = None\<rparr>], mt_seq = 1\<rparr>"

theorem search_spec_witness:
  "\<exists>ms t. mem_search ''2026-01-02'' ''AUTH'' None (Some ''/p'') one_memory = (Inr ms, t) \<and> 1 \<in> m_id ` set ms"
proof -
  have "mem_ok one_memory"
    by (auto simp: mem_ok_def one_memory_def intro: range_eqI [of _ _ ScProject] range_eqI [of _ _ SrcUserInstruction])
  moreover have "plain ''AUTH''" by code_simp
  moreover have "contains_sub (lower_bytes ''AUTH'') (lower_bytes ''Auth bug'')" by code_simp
  ultimately show ?thesis
    using search_spec [of one_memory "''AUTH''" "''2026-01-02''" None "Some ''/p''"]
    by (auto simp: one_memory_def mem_expired_def)
qed

lemma mem_store_row:
  assumes "mem_store add created e t = Ret (i, t')"
  shows "i = foldr max (map m_id (mt_rows t)) (mt_seq t) + 1 \<and>
    (\<exists>ex. t' = \<lparr>mt_rows = mt_rows t @ [mem_row i created ex e], mt_seq = i\<rparr>)"
  using assms by (auto simp: mem_store_def Let_def split: option.splits)

text \<open>What is stored is read back until it expires, with its confidence cut to the unit interval.\<close>

lemma store_get:
  assumes ok: "mem_ok t" and st: "mem_store add created e t = Ret (i, t')"
  shows "\<exists>m. mem_row_to_entry (last (mt_rows t')) = Inr m \<and> 0 \<le> m_confidence m \<and> m_confidence m \<le> 1 \<and>
    m_title m = nm_title e \<and> m_content m = nm_content e \<and>
    mem_get now i t' = (Inr (if mem_expired now m then None else Some m), snd (purge_expired now t'))"
proof -
  from mem_store_row [OF st] obtain ex where ex: "mt_rows t' = mt_rows t @ [mem_row i created ex e]"
    and i: "i = foldr max (map m_id (mt_rows t)) (mt_seq t) + 1" by auto
  define r where "r = mem_row i created ex e"
  have r: "mt_rows t' = mt_rows t @ [r]" "m_id r = i" "i = foldr max (map m_id (mt_rows t)) (mt_seq t) + 1"
    "m_scope r \<in> range scope_as_str" "m_source r \<in> range source_as_str" "0 \<le> m_confidence r" "m_confidence r \<le> 1"
    "m_title r = nm_title e" "m_content r = nm_content e"
    using ex i unfolding r_def by (simp_all add: mem_row_def)
  from mem_row_ok [OF r(4,5)] obtain m where m: "mem_row_to_entry r = Inr m" by blast
  then have cols: "m_confidence m = m_confidence r" "m_title m = m_title r" "m_content m = m_content r"
    "mem_expired now m = mem_expired now r"
    by (auto simp: mem_row_to_entry_def mem_expired_def split: sum.splits)
  have lt: "x \<in> set rs \<Longrightarrow> m_id x < foldr max (map m_id rs) s + 1" for x :: mem_sql and rs s
    by (induction rs) (auto simp: less_max_iff_disj)
  have "x \<in> set (mt_rows t) \<Longrightarrow> m_id x \<noteq> i" for x
    using r(3) lt [of x "mt_rows t" "mt_seq t"] by auto
  then have "find (\<lambda>r. m_id r = i) (filter (\<lambda>r. \<not> mem_expired now r) (mt_rows t)) = None"
    by (auto simp: find_None_iff)
  then have "find (\<lambda>r. m_id r = i) (filter (\<lambda>r. \<not> mem_expired now r) (mt_rows t')) =
      (if mem_expired now r then None else Some r)"
    using r(1,2) by (simp add: find_append)
  then show ?thesis
    using r m cols by (auto simp: mem_get_def case_prod_beta purge_rows Let_def)
qed

end
