(* ===== verification/KnowledgeGraph.thy ===== *)
theory KnowledgeGraph
  imports Memory
begin

text \<open>
  The knowledge graph, \<open>crates/single-runtime/src/knowledge_graph.rs\<close>: entities, their observations and typed
  relations, with foreign keys that cascade on delete.
\<close>

record kg_entity_row =
  ke_name :: string
  ke_type :: string
  ke_created_at :: string

record kg_observation =
  ko_id :: int
  ko_entity :: string
  ko_content :: string
  ko_created_at :: string

record kg_relation =
  kr_id :: int
  kr_from :: string
  kr_to :: string
  kr_type :: string
  kr_created_at :: string

record kg_entity =
  kx_name :: string
  kx_type :: string
  kx_observations :: "string list"
  kx_created_at :: string

record kg_db =
  kg_entities :: "kg_entity_row list"
  kg_observations :: "kg_observation list"
  kg_obs_seq :: int
  kg_relations :: "kg_relation list"
  kg_rel_seq :: int

definition entity_exists :: "string \<Rightarrow> kg_db \<Rightarrow> bool" where
  "entity_exists name db = exists_where (\<lambda>e. ke_name e = name) (kg_entities db)"

definition create_entity :: "string \<Rightarrow> string \<Rightarrow> string \<Rightarrow> kg_db \<Rightarrow> kg_db" where
  "create_entity ts name entity_type db =
     (if entity_exists name db then db
      else db\<lparr>kg_entities := kg_entities db @ [\<lparr>ke_name = name, ke_type = entity_type, ke_created_at = ts\<rparr>]\<rparr>)"

definition add_observation :: "string \<Rightarrow> string \<Rightarrow> string \<Rightarrow> kg_db \<Rightarrow> int result \<times> kg_db" where
  "add_observation ts entity_name content db =
     (if \<not> entity_exists entity_name db then (Inl (''no such entity: '' @ entity_name), db)
      else (let i = foldr max (map ko_id (kg_observations db)) (kg_obs_seq db) + 1
            in (Inr i, db\<lparr>kg_observations := kg_observations db @
                  [\<lparr>ko_id = i, ko_entity = entity_name, ko_content = content, ko_created_at = ts\<rparr>],
                  kg_obs_seq := i\<rparr>)))"

definition create_relation :: "string \<Rightarrow> string \<Rightarrow> string \<Rightarrow> string \<Rightarrow> kg_db \<Rightarrow> int result \<times> kg_db" where
  "create_relation ts from to relation_type db =
     (if \<not> entity_exists from db then (Inl (''no such entity: '' @ from), db)
      else if \<not> entity_exists to db then (Inl (''no such entity: '' @ to), db)
      else (let i = foldr max (map kr_id (kg_relations db)) (kg_rel_seq db) + 1
            in (Inr i, db\<lparr>kg_relations := kg_relations db @
                  [\<lparr>kr_id = i, kr_from = from, kr_to = to, kr_type = relation_type, kr_created_at = ts\<rparr>],
                  kg_rel_seq := i\<rparr>)))"

definition delete_entity :: "string \<Rightarrow> kg_db \<Rightarrow> bool \<times> kg_db" where
  "delete_entity name db =
     (entity_exists name db,
      db\<lparr>kg_entities := delete_where (\<lambda>e. ke_name e = name) (kg_entities db),
         kg_observations := delete_where (\<lambda>x. ko_entity x = name) (kg_observations db),
         kg_relations := delete_where (\<lambda>r. kr_from r = name \<or> kr_to r = name) (kg_relations db)\<rparr>)"

definition observations_for :: "string \<Rightarrow> kg_db \<Rightarrow> string list" where
  "observations_for name db =
     map ko_content (sort_key ko_created_at (filter (\<lambda>x. ko_entity x = name) (kg_observations db)))"

definition entity_value :: "kg_entity_row \<Rightarrow> kg_db \<Rightarrow> kg_entity" where
  "entity_value e db = \<lparr>kx_name = ke_name e, kx_type = ke_type e,
     kx_observations = observations_for (ke_name e) db, kx_created_at = ke_created_at e\<rparr>"

definition get_entity :: "string \<Rightarrow> kg_db \<Rightarrow> kg_entity option" where
  "get_entity name db =
     map_option (\<lambda>e. entity_value e db) (find (\<lambda>e. ke_name e = name) (kg_entities db))"

definition kg_query :: "string \<Rightarrow> kg_db \<Rightarrow> kg_entity list" where
  "kg_query term db =
     (let pattern = ''%'' @ term @ ''%'';
          hit = (\<lambda>e. like pattern (ke_name e) \<or> like pattern (ke_type e) \<or>
                   list_ex (\<lambda>x. ko_entity x = ke_name e \<and> like pattern (ko_content x)) (kg_observations db))
      in map (\<lambda>e. entity_value e db) (order_desc ke_created_at (filter hit (kg_entities db))))"

definition read_graph :: "kg_db \<Rightarrow> kg_entity list \<times> kg_relation list" where
  "read_graph db =
     (map (\<lambda>e. entity_value e db) (sort_key ke_name (kg_entities db)), sort_key kr_created_at (kg_relations db))"

section \<open>Referential integrity\<close>

definition kg_ok :: "kg_db \<Rightarrow> bool" where
  "kg_ok db \<longleftrightarrow> distinct (map ke_name (kg_entities db)) \<and>
     (\<forall>x \<in> set (kg_observations db). entity_exists (ko_entity x) db) \<and>
     (\<forall>r \<in> set (kg_relations db). entity_exists (kr_from r) db \<and> entity_exists (kr_to r) db)"

datatype kg_op = KgCreate string string string | KgObserve string string string
  | KgRelate string string string string | KgDelete string

fun kg_run :: "kg_op \<Rightarrow> kg_db \<Rightarrow> kg_db" where
  "kg_run (KgCreate ts n y) db = create_entity ts n y db"
| "kg_run (KgObserve ts n c) db = snd (add_observation ts n c db)"
| "kg_run (KgRelate ts a b y) db = snd (create_relation ts a b y db)"
| "kg_run (KgDelete n) db = snd (delete_entity n db)"

lemma entity_exists_delete:
  "entity_exists m (snd (delete_entity n db)) \<longleftrightarrow> m \<noteq> n \<and> entity_exists m db"
  by (auto simp: entity_exists_def delete_entity_def exists_where_iff set_delete_where)

lemma kg_run_ok: "kg_ok db \<Longrightarrow> kg_ok (kg_run op db)"
proof (cases op)
  case (KgDelete n)
  moreover assume "kg_ok db"
  moreover have "set (kg_observations (snd (delete_entity n db))) = {x \<in> set (kg_observations db). ko_entity x \<noteq> n}"
    "set (kg_relations (snd (delete_entity n db))) = {r \<in> set (kg_relations db). kr_from r \<noteq> n \<and> kr_to r \<noteq> n}"
    "kg_entities (snd (delete_entity n db)) = filter (\<lambda>e. ke_name e \<noteq> n) (kg_entities db)"
    by (auto simp: delete_entity_def set_delete_where delete_where_def)
  ultimately show ?thesis
    by (auto simp: kg_ok_def entity_exists_delete distinct_map inj_on_def simp del: snd_conv)
qed (auto simp: kg_ok_def create_entity_def add_observation_def create_relation_def entity_exists_def
    exists_where_iff Let_def)

text \<open>Whatever is created and deleted, every observation and relation of the graph belongs to entities that
  exist, no two entities have the same name, and a deleted entity takes everything that mentions it along.\<close>

theorem kg_integrity:
  assumes "kg_ok db"
  shows "kg_ok (fold kg_run ops db) \<and> get_entity n (snd (delete_entity n db)) = None \<and>
    (\<forall>r \<in> set (snd (read_graph (snd (delete_entity n db)))). kr_from r \<noteq> n \<and> kr_to r \<noteq> n) \<and>
    (\<forall>m. m \<noteq> n \<longrightarrow> get_entity m (snd (delete_entity n db)) = get_entity m db)"
proof -
  have "kg_ok (fold kg_run ops db)" using assms by (induction ops arbitrary: db) (auto simp: kg_run_ok)
  moreover have "get_entity n (snd (delete_entity n db)) = None"
    by (auto simp: get_entity_def delete_entity_def delete_where_def find_None_iff)
  moreover have "get_entity m (snd (delete_entity n db)) = get_entity m db" if "m \<noteq> n" for m
  proof -
    have "find (\<lambda>e. ke_name e = m) (delete_where (\<lambda>e. ke_name e = n) es) = find (\<lambda>e. ke_name e = m) es" for es :: "kg_entity_row list"
      using that by (induction es) (auto simp: delete_where_def)
    moreover have "filter (\<lambda>x. ko_entity x = m) (delete_where (\<lambda>x. ko_entity x = n) xs) = filter (\<lambda>x. ko_entity x = m) xs" for xs :: "kg_observation list"
      using that by (auto simp: delete_where_def intro!: filter_cong)
    ultimately show ?thesis
      by (cases "find (\<lambda>e. ke_name e = m) (kg_entities db)")
        (auto simp: get_entity_def delete_entity_def entity_value_def observations_for_def dest: find_SomeD)
  qed
  ultimately show ?thesis
    by (auto simp: read_graph_def delete_entity_def set_delete_where)
qed

theorem kg_integrity_witness:
  "kg_ok (fold kg_run [KgCreate ''t'' ''auth'' ''module'', KgObserve ''t'' ''auth'' ''uses OAuth'', KgDelete ''auth'']
     \<lparr>kg_entities = [], kg_observations = [], kg_obs_seq = 0, kg_relations = [], kg_rel_seq = 0\<rparr>)"
  by (rule kg_integrity [THEN conjunct1]) (simp add: kg_ok_def)

end
