(* ===== verification/TaskHooks.thy ===== *)
theory TaskHooks
  imports Prelude
begin

text \<open>
  Hooks on the end of a task, \<open>single-core/src/task_hooks.rs\<close>. The registry file is its rules or the error
  that reading it gives. \<open>fire\<close> answers the commands it starts with the line each gets on its standard
  input; the commands run in threads of their own and nothing waits for them.
\<close>

record task_hook_rule =
  hk_on :: "string list"
  hk_command :: string
  hk_agent :: "string option"
  hk_workspace :: "string option"

record task_hook_payload =
  hp_id :: int
  hp_status :: string
  hp_agent :: string
  hp_cwd :: string
  hp_workspace_id :: string
  hp_summary :: "string option"

type_synonym hook_file = "task_hook_rule list result"

definition EVENTS :: "string list" where
  "EVENTS = [''completed'', ''failed'', ''cancelled'']"

definition matches_event :: "task_hook_rule \<Rightarrow> string \<Rightarrow> bool" where
  "matches_event rule event = list_ex (\<lambda>e. e = ''all'' \<or> e = event) (hk_on rule)"

definition matches_filters :: "task_hook_rule \<Rightarrow> string \<Rightarrow> string \<Rightarrow> bool" where
  "matches_filters rule agent workspace =
     ((case hk_agent rule of None \<Rightarrow> True | Some a \<Rightarrow> a = agent) \<and>
      (case hk_workspace rule of None \<Rightarrow> True | Some w \<Rightarrow> w = workspace))"

definition hook_add :: "task_hook_rule \<Rightarrow> hook_file \<Rightarrow> unit result \<times> hook_file" where
  "hook_add rule file =
     (if hk_on rule = []
      then (Inl (''a task hook needs at least one event in '' @ [CHR 0x60] @ ''on'' @ [CHR 0x60] @
              '' (or ['' @ [CHR 0x22] @ ''all'' @ [CHR 0x22] @ ''])''), file)
      else case find (\<lambda>e. \<not> (e = ''all'' \<or> e \<in> set EVENTS)) (hk_on rule) of
        Some e \<Rightarrow>
          (Inl (''unknown event '' @ [CHR 0x27] @ e @ [CHR 0x27] @ '' '' @ [CHR 0xE2, CHR 0x80, CHR 0x94] @
             '' expected one of: all, '' @ str_join '', '' EVENTS), file)
      | None \<Rightarrow>
          (if trim (hk_command rule) = [] then (Inl ''a task hook needs a non-empty command'', file)
           else case file of
             Inl e \<Rightarrow> (Inl e, file)
           | Inr hooks \<Rightarrow> (Inr (), Inr (hooks @ [rule]))))"

definition hook_remove :: "string \<Rightarrow> hook_file \<Rightarrow> nat result \<times> hook_file" where
  "hook_remove command file =
     (case file of
        Inl e \<Rightarrow> (Inl e, file)
      | Inr hooks \<Rightarrow>
          (let kept = filter (\<lambda>h. hk_command h \<noteq> command) hooks;
               removed = length hooks - length kept
           in (Inr removed, Inr (if removed > 0 then kept else hooks))))"

definition fire ::
    "(task_hook_payload \<Rightarrow> string option) \<Rightarrow> hook_file \<Rightarrow> task_hook_payload \<Rightarrow> (string \<times> string) list" where
  "fire to_json file payload =
     (case file of
        Inl e \<Rightarrow> []
      | Inr hooks \<Rightarrow>
          (let matching = filter (\<lambda>h. matches_event h (hp_status payload) \<and>
                 matches_filters h (hp_agent payload) (hp_workspace_id payload)) hooks
           in if matching = [] then []
              else case to_json payload of
                None \<Rightarrow> []
              | Some body \<Rightarrow> map (\<lambda>rule. (hk_command rule, body)) matching))"

text \<open>Every rule that \<open>add\<close> accepts can fire, and only on the end of a task.\<close>

lemma added_rule_fires:
  assumes "hook_add rule file = (Inr (), Inr hooks)"
  shows "last hooks = rule \<and> (\<exists>event \<in> set EVENTS. matches_event rule event)"
proof -
  let ?bad = "\<lambda>e. \<not> (e = ''all'' \<or> e \<in> set EVENTS)"
  have ne: "hk_on rule \<noteq> []"
  proof
    assume "hk_on rule = []"
    with assms show False by (simp add: hook_add_def)
  qed
  have nf: "find ?bad (hk_on rule) = None"
  proof (cases "find ?bad (hk_on rule)")
    case (Some e)
    with ne assms show ?thesis by (simp add: hook_add_def)
  qed simp
  then have on: "\<forall>e \<in> set (hk_on rule). e = ''all'' \<or> e \<in> set EVENTS" unfolding find_None_iff by blast
  obtain hs where "file = Inr hs" "hooks = hs @ [rule]"
    using assms ne nf unfolding hook_add_def by (simp split: if_splits sum.splits)
  then have l: "last hooks = rule" by simp
  from ne obtain e where "e \<in> set (hk_on rule)" by (cases "hk_on rule") auto
  with on have "matches_event rule ''completed'' \<or> (e \<in> set EVENTS \<and> matches_event rule e)"
    unfolding matches_event_def list_ex_iff by blast
  moreover have "''completed'' \<in> set EVENTS" by (simp add: EVENTS_def)
  ultimately have "\<exists>event \<in> set EVENTS. matches_event rule event" by blast
  with l show ?thesis by blast
qed

end
