(* ===== verification/TaskRegistry.thy ===== *)
theory TaskRegistry
  imports Main
begin

text \<open>
  The registry of running background tasks, \<open>crates/single-runtime/src/registry.rs\<close>. A cancel flag is a cell
  that the registry and the task's thread share (an \<open>Arc<AtomicBool>\<close>): the heap holds the cells, a handle
  is an address, and the mutex makes each operation atomic.
\<close>

record registry =
  rg_flags :: "int \<rightharpoonup> nat"
  rg_heap :: "bool list"

definition register :: "int \<Rightarrow> registry \<Rightarrow> nat \<times> registry" where
  "register i rg =
     (let flag = length (rg_heap rg)
      in (flag, \<lparr>rg_flags = (rg_flags rg)(i \<mapsto> flag), rg_heap = rg_heap rg @ [False]\<rparr>))"

definition cancel :: "int \<Rightarrow> registry \<Rightarrow> bool \<times> registry" where
  "cancel i rg =
     (case rg_flags rg i of
        Some flag \<Rightarrow> (True, rg\<lparr>rg_heap := (rg_heap rg)[flag := True]\<rparr>)
      | None \<Rightarrow> (False, rg))"

definition unregister :: "int \<Rightarrow> registry \<Rightarrow> registry" where
  "unregister i rg = rg\<lparr>rg_flags := (rg_flags rg)(i := None)\<rparr>"

text \<open>What the thread of a task sees when it polls.\<close>

definition cancelled :: "nat \<Rightarrow> registry \<Rightarrow> bool" where
  "cancelled flag rg = (flag < length (rg_heap rg) \<and> rg_heap rg ! flag)"

section \<open>Cancelling reaches the right thread\<close>

datatype reg_op = Register int | Cancel int | Unregister int

fun reg_run :: "reg_op \<Rightarrow> registry \<Rightarrow> registry" where
  "reg_run (Register i) rg = snd (register i rg)"
| "reg_run (Cancel i) rg = snd (cancel i rg)"
| "reg_run (Unregister i) rg = unregister i rg"

definition reg_ok :: "registry \<Rightarrow> bool" where
  "reg_ok rg \<longleftrightarrow> (\<forall>f \<in> ran (rg_flags rg). f < length (rg_heap rg)) \<and> inj_on (rg_flags rg) (dom (rg_flags rg))"

lemma reg_run_ok:
  assumes "reg_ok rg" shows "reg_ok (reg_run op rg)"
proof (cases op)
  case (Register i)
  from assms have b: "j \<in> dom (rg_flags rg) \<Longrightarrow> the (rg_flags rg j) < length (rg_heap rg)" for j
    by (auto simp: reg_ok_def ran_def)
  from assms Register show ?thesis
    by (auto simp: reg_ok_def register_def Let_def ran_def inj_on_def dom_def dest: less_imp_neq)
next
  case (Cancel i)
  with assms show ?thesis by (auto simp: reg_ok_def cancel_def split: option.splits)
next
  case (Unregister i)
  with assms show ?thesis by (auto simp: reg_ok_def unregister_def ran_def inj_on_def)
qed

text \<open>An operation on another id leaves the registration and the flag of this one alone; so does a cancel of
  this one, but for setting its flag.\<close>

lemma reg_run_other:
  assumes ok: "reg_ok rg" and f: "rg_flags rg i = Some f" and op: "op \<noteq> Register i" "op \<noteq> Unregister i"
  shows "rg_flags (reg_run op rg) i = Some f \<and> cancelled f (reg_run op rg) = (cancelled f rg \<or> op = Cancel i)"
proof -
  from ok f have l: "f < length (rg_heap rg)" by (auto simp: reg_ok_def ran_def)
  show ?thesis
  proof (cases op)
    case (Register j)
    with op f l show ?thesis by (auto simp: register_def Let_def cancelled_def nth_append)
  next
    case (Cancel j)
    show ?thesis
    proof (cases "j = i")
      case False
      then have "rg_flags rg j = Some g \<Longrightarrow> g \<noteq> f" for g
        using ok f by (auto simp: reg_ok_def inj_on_def dom_def)
      with Cancel False f l show ?thesis by (cases "rg_flags rg j") (auto simp: cancel_def cancelled_def)
    qed (use Cancel f l in \<open>simp add: cancel_def cancelled_def\<close>)
  next
    case (Unregister j)
    with op f show ?thesis by (auto simp: unregister_def cancelled_def)
  qed
qed

text \<open>From its registration to its end, the thread of a task finds its flag set exactly when somebody
  cancelled that id in the meantime, whatever happens to other ids; and the cancel reports that it
  found the task.\<close>

theorem cancel_reaches_thread:
  assumes "reg_ok rg" and "register i rg = (f, rg1)" and "Register i \<notin> set ops" "Unregister i \<notin> set ops"
  shows "(cancelled f (fold reg_run ops rg1) \<longleftrightarrow> Cancel i \<in> set ops) \<and>
    fst (cancel i (fold reg_run ops rg1)) \<and> \<not> fst (cancel i (unregister i (fold reg_run ops rg1)))"
proof -
  have 1: "reg_ok rg1" using reg_run_ok [OF assms(1), of "Register i"] assms(2) by simp
  have 2: "rg_flags rg1 i = Some f" "\<not> cancelled f rg1"
    using assms(2) by (auto simp: register_def Let_def cancelled_def nth_append)
  have fold_ops: "reg_ok r \<Longrightarrow> rg_flags r i = Some f \<Longrightarrow> rg_flags (fold reg_run ops r) i = Some f \<and>
      (cancelled f (fold reg_run ops r) \<longleftrightarrow> cancelled f r \<or> Cancel i \<in> set ops)" for r
    using assms(3,4)
  proof (induction ops arbitrary: r)
    case (Cons op ops)
    with reg_run_other [of r i f op] reg_run_ok [of r op] show ?case by auto
  qed simp
  from fold_ops [OF 1 2(1)] 2(2) show ?thesis by (auto simp: cancel_def unregister_def)
qed

theorem cancel_reaches_thread_witness:
  "\<exists>f rg. register 1 \<lparr>rg_flags = Map.empty, rg_heap = []\<rparr> = (f, rg) \<and>
     cancelled f (fold reg_run [Register 2, Cancel 1, Unregister 2] rg)"
proof -
  obtain f rg where r: "register 1 \<lparr>rg_flags = Map.empty, rg_heap = []\<rparr> = (f, rg)" by fastforce
  have "reg_ok \<lparr>rg_flags = Map.empty, rg_heap = []\<rparr>" by (simp add: reg_ok_def)
  from cancel_reaches_thread [OF this r, of "[Register 2, Cancel 1, Unregister 2]"] r show ?thesis
    by (metis list.set_intros(1,2) set_ConsD empty_iff empty_set numeral_eq_one_iff reg_op.distinct reg_op.inject semiring_norm(85))
qed

end
