(* ===== verification/TaskRun.thy ===== *)
theory TaskRun
  imports SchedulerShell PoolAgent Ratelimit Fallback TaskStore TaskOutput Notes KnowledgeGraph TaskHooks TaskRegistry
begin

text \<open>
  Running a task, the second half of \<open>crates/single-runtime/src/task.rs\<close>: the prompt with its context, the
  run with every way it can end, the fallback to the next entry of a chain, and the entry points \<open>run\<close>,
  \<open>run_background\<close> and \<open>cleanup\<close>. The outside is \<open>task_env\<close> over a world \<open>'w\<close>: the clock, git, the agents
  that are known and installed, homes and containers, the artifact files, the run of an agent's program,
  the run of the pool agent, and the registry files of hooks and fallback chains. An error is its rendered
  text. The cancel flag is read by the agent's run only; a run that was cancelled says so.
\<close>

section \<open>State and outside\<close>

datatype account_status = AcUnknown | AcAvailable | AcRateLimited | AcNeedsTopup

record account_row =
  ac_agent :: string
  ac_name :: string
  ac_status :: account_status

record run_state =
  rs_db :: task_db
  rs_mem :: mem_table
  rs_notes :: note_table
  rs_kg :: kg_db
  rs_accounts :: "account_row list"
  rs_files :: "(string \<times> string) list"
  rs_fired :: "(string \<times> string) list"

record 'w task_env =
  te_unicode :: unicode
  te_now :: "'w \<Rightarrow> string"
  te_project :: project_env
  te_known :: "string \<Rightarrow> bool"
  te_detected :: "string \<Rightarrow> bool"
  te_real_required :: "string \<Rightarrow> bool"
  te_state_dir :: string
  te_worktree_add :: "string \<Rightarrow> string \<Rightarrow> string \<Rightarrow> unit result"
  te_home :: "string \<Rightarrow> string option \<Rightarrow> string result"
  te_docker_enabled :: "string \<Rightarrow> string option \<Rightarrow> bool result"
  te_container_start :: "string \<Rightarrow> string \<Rightarrow> string \<Rightarrow> unit result"
  te_mkdir :: "string \<Rightarrow> unit result"
  te_write :: "string \<Rightarrow> unit result"
  te_agent :: "task_opts \<Rightarrow> string \<Rightarrow> string \<Rightarrow> string option \<Rightarrow> string option \<Rightarrow> 'w \<Rightarrow> run_outcome result \<times> 'w"
  te_pool :: "string \<Rightarrow> nat \<Rightarrow> string option \<Rightarrow> 'w \<Rightarrow> run_outcome result \<times> 'w"
  te_hooks :: hook_file
  te_hook_json :: "task_hook_payload \<Rightarrow> string option"
  te_chains :: fallback_file

definition worktree_path :: "'w task_env \<Rightarrow> int \<Rightarrow> string" where
  "worktree_path env i = te_state_dir env @ ''/worktrees/task-'' @ dec_int i"

definition artifacts_dir :: "'w task_env \<Rightarrow> string" where
  "artifacts_dir env = te_state_dir env @ ''/artifacts''"

definition task_artifact_path :: "'w task_env \<Rightarrow> int \<Rightarrow> string" where
  "task_artifact_path env i = artifacts_dir env @ ''/task-'' @ dec_int i @ ''.txt''"

definition container_name :: "string \<Rightarrow> string option \<Rightarrow> string" where
  "container_name agent account =
     (case account of
        Some name \<Rightarrow> ''single-agent-'' @ agent @ ''-'' @ name
      | None \<Rightarrow> ''single-agent-'' @ agent)"

definition on_db :: "(task_db \<Rightarrow> task_db) \<Rightarrow> run_state \<Rightarrow> run_state" where
  "on_db f st = st\<lparr>rs_db := f (rs_db st)\<rparr>"

section \<open>Memory of failures and hooks\<close>

definition remember_failure ::
    "string \<Rightarrow> int \<Rightarrow> string \<Rightarrow> string option \<Rightarrow> string \<Rightarrow> string \<Rightarrow> run_state \<Rightarrow> run_state" where
  "remember_failure ts i agent project description detail st =
     (case mem_store (\<lambda>_ _. None) ts
        \<lparr>nm_scope = Some ScTask, nm_source = Some SrcToolOutput, nm_project = project, nm_agent = Some agent,
         nm_task = Some (dec_int i), nm_title = ''task '' @ task_no i @ '' failed ('' @ agent @ '')'',
         nm_content = ''prompt: '' @ description @ newline @ ''failure: '' @ detail,
         nm_confidence = Some 1, nm_expires_in_seconds = None\<rparr> (rs_mem st) of
        Ret (m, t) \<Rightarrow> st\<lparr>rs_mem := t\<rparr>
      | Panic \<Rightarrow> st)"

definition hook_payload :: "task_record \<Rightarrow> task_hook_payload" where
  "hook_payload t = \<lparr>hp_id = t_id t, hp_status = status_as_str (t_status t), hp_agent = t_agent t,
     hp_cwd = t_cwd t, hp_workspace_id = t_workspace_id t, hp_summary = t_summary t\<rparr>"

definition notify_task_hooks :: "'w task_env \<Rightarrow> int \<Rightarrow> run_state \<Rightarrow> run_state" where
  "notify_task_hooks env i st =
     (case get_task i (rs_db st) of
        Inr (Some t) \<Rightarrow> st\<lparr>rs_fired := rs_fired st @ fire (te_hook_json env) (te_hooks env) (hook_payload t)\<rparr>
      | _ \<Rightarrow> st)"

section \<open>The prompt\<close>

definition MAX_CONTEXT_CHARS :: nat where "MAX_CONTEXT_CHARS = 4000"
definition MAX_CONTEXT_MEMORIES :: nat where "MAX_CONTEXT_MEMORIES = 5"
definition MAX_CONTEXT_KG_ENTITIES :: nat where "MAX_CONTEXT_KG_ENTITIES = 5"

fun add_memories :: "memory_entry list \<Rightarrow> memory_entry list \<Rightarrow> memory_entry list" where
  "add_memories ms [] = ms"
| "add_memories ms (h # hs) =
     (if m_scope h = ScTask then add_memories ms hs
      else if list_ex (\<lambda>m. m_id m = m_id h) ms then add_memories ms hs
      else add_memories (ms @ [h]) hs)"

fun collect_memories ::
    "string \<Rightarrow> string option \<Rightarrow> string list \<Rightarrow> memory_entry list \<Rightarrow> mem_table \<Rightarrow> memory_entry list \<times> mem_table" where
  "collect_memories now project [] ms t = (ms, t)"
| "collect_memories now project (k # ks) ms t =
     (case mem_search now k None project t of
        (Inr rows, t) \<Rightarrow> collect_memories now project ks (add_memories ms rows) t
      | (Inl e, t) \<Rightarrow> collect_memories now project ks ms t)"

fun collect_entities :: "string list \<Rightarrow> kg_entity list \<Rightarrow> kg_db \<Rightarrow> kg_entity list" where
  "collect_entities [] es db = es"
| "collect_entities (k # ks) es db =
     collect_entities ks (foldl (\<lambda>es h. if list_ex (\<lambda>e. kx_name e = kx_name h) es then es else es @ [h]) es (kg_query k db)) db"

definition memory_section :: "memory_entry list \<Rightarrow> string" where
  "memory_section ms =
     (if ms = [] then ''''
      else ''--- Relevant memory (from past sessions) ---'' @ newline @
        concat (map (\<lambda>m. ''- ['' @ m_created_at m @ ''] '' @ m_title m @ '': '' @ truncate_text (m_content m) 400 @ newline) ms) @
        ''--- end memory ---'' @ newline @ newline)"

definition kg_section :: "kg_entity list \<Rightarrow> string" where
  "kg_section es =
     (if es = [] then ''''
      else ''--- Shared knowledge (from the team'' @ [CHR 0x27] @ ''s knowledge graph) ---'' @ newline @
        concat (map (\<lambda>e. ''- '' @ kx_name e @ '' ('' @ kx_type e @ ''): '' @
          truncate_text (str_join ''; '' (kx_observations e)) 300 @ newline) es) @
        ''--- end shared knowledge ---'' @ newline @ newline)"

definition note_lines :: "agent_note list \<Rightarrow> string" where
  "note_lines ns = concat (map (\<lambda>n. ''- from '' @ an_from_agent n @ '' ['' @ an_topic n @ '']: '' @
     truncate_text (an_content n) 400 @ newline) ns)"

definition notes_section :: "agent_note list \<Rightarrow> string" where
  "notes_section ns =
     (if ns = [] then ''''
      else ''--- Notes left by other agents ---'' @ newline @ note_lines ns @ ''--- end notes ---'' @ newline @ newline)"

definition build_context_preamble ::
    "'w task_env \<Rightarrow> string \<Rightarrow> string \<Rightarrow> string \<Rightarrow> string option \<Rightarrow> run_state \<Rightarrow> string \<times> run_state" where
  "build_context_preamble env ts description agent project st =
     (let keywords = significant_keywords (te_unicode env) description;
          (found, mem) = collect_memories ts project keywords [] (rs_mem st);
          memories = take MAX_CONTEXT_MEMORIES (order_desc m_created_at found);
          entities = take MAX_CONTEXT_KG_ENTITIES (collect_entities keywords [] (rs_kg st));
          notes = inbox project agent True (rs_notes st);
          sections = memory_section memories @ kg_section entities @ notes_section notes;
          st = st\<lparr>rs_mem := mem, rs_notes := mark_all ts notes (rs_notes st)\<rparr>
      in if sections = '''' then (description, st)
         else (truncate_text sections MAX_CONTEXT_CHARS @ ''Task: '' @ description, st))"


section \<open>One run\<close>

text \<open>A task that ends before its agent is started.\<close>

definition end_early ::
    "'w task_env \<Rightarrow> int \<Rightarrow> task_opts \<Rightarrow> string option \<Rightarrow> string \<Rightarrow> string \<Rightarrow> 'w \<Rightarrow> run_state \<Rightarrow> task_record result \<times> run_state" where
  "end_early env i opts project event detail w st =
     (let ts = te_now env w;
          st = on_db (finish ts i TsFailed None None None False (Some detail) False) st;
          st = on_db (record_event ts ''task.failed'' (task_no i @ '' '' @ event)) st;
          st = remember_failure ts i (op_agent opts) project (op_description opts) detail st;
          st = notify_task_hooks env i st
      in (get_task_or ''task disappeared after being created'' i (rs_db st), st))"

record launch =
  la_cwd :: string
  la_project :: "string option"
  la_prompt :: string
  la_home :: "string option"
  la_container :: "string option"

definition choose_cwd ::
    "'w task_env \<Rightarrow> int \<Rightarrow> task_opts \<Rightarrow> 'w \<Rightarrow> run_state \<Rightarrow> (task_record result \<times> run_state) + string" where
  "choose_cwd env i opts w st =
     (if \<not> op_use_worktree opts then Inr (op_cwd opts)
      else case pj_repo_root (te_project env) (op_cwd opts) of
        None \<Rightarrow> Inl (end_early env i opts None ''not a git repository'' ''not a git repository; --worktree requires one'' w st)
      | Some repo_root \<Rightarrow>
          (case te_worktree_add env repo_root (worktree_path env i) (''single/task-'' @ dec_int i) of
             Inl e \<Rightarrow> Inl (end_early env i opts (Some repo_root) (''worktree setup failed: '' @ e)
                        (''worktree setup failed: '' @ e) w st)
           | Inr _ \<Rightarrow> Inr (worktree_path env i)))"

definition choose_home :: "'w task_env \<Rightarrow> task_opts \<Rightarrow> bool \<Rightarrow> string option result" where
  "choose_home env opts forced_real_home =
     (if op_real_home opts \<or> forced_real_home then Inr None
      else case te_home env (op_agent opts) (op_account opts) of
        Inr dir \<Rightarrow> Inr (Some dir)
      | Inl e \<Rightarrow>
          Inl (case op_account opts of
                 Some name \<Rightarrow> ''failed to materialize isolated home for account '' @ [CHR 0x27] @ name @ [CHR 0x27] @ '': '' @ e
               | None \<Rightarrow> ''failed to materialize isolated home for agent '' @ [CHR 0x27] @ op_agent opts @ [CHR 0x27] @ '': '' @ e))"

definition choose_container :: "'w task_env \<Rightarrow> task_opts \<Rightarrow> string option \<Rightarrow> string \<Rightarrow> string option result" where
  "choose_container env opts home cwd =
     (case home of
        None \<Rightarrow> Inr None
      | Some dir \<Rightarrow>
          (case te_docker_enabled env (op_agent opts) (op_account opts) of
             Inr True \<Rightarrow>
               (let container = container_name (op_agent opts) (op_account opts)
                in case te_container_start env container dir cwd of
                     Inr _ \<Rightarrow> Inr (Some container)
                   | Inl e \<Rightarrow> Inl (''failed to start docker container for '' @ [CHR 0x27] @ op_agent opts @ [CHR 0x27] @ '': '' @ e))
           | _ \<Rightarrow> Inr None))"

definition start_run ::
    "'w task_env \<Rightarrow> int \<Rightarrow> task_opts \<Rightarrow> string \<Rightarrow> 'w \<Rightarrow> run_state \<Rightarrow> bool \<times> run_state" where
  "start_run env i opts cwd w st =
     (let ts = te_now env w;
          st = on_db (task_set_status ts i TsRunning) st;
          st = on_db (record_event ts ''task.started'' (task_no i @ '' cwd='' @ cwd)) st;
          forced_real_home = (\<not> op_real_home opts \<and> op_account opts = None \<and> te_real_required env (op_agent opts))
      in (forced_real_home,
          if forced_real_home
          then on_db (record_event ts ''task.real_home'' (task_no i @ '' '' @ op_agent opts @
                 '' authenticates only against the real environment'')) st
          else st))"

definition make_prompt ::
    "'w task_env \<Rightarrow> task_opts \<Rightarrow> string option \<Rightarrow> 'w \<Rightarrow> run_state \<Rightarrow> string \<times> run_state" where
  "make_prompt env opts project w st =
     (if op_no_memory_context opts then (op_description opts, st)
      else build_context_preamble env (te_now env w) (op_description opts) (op_agent opts) project st)"

text \<open>Everything before the run: the working directory, the move to \<open>running\<close>, the home, the prompt, the
  container, and the artifact directory, whose failure is an error that leaves the row as it is.\<close>

definition prepare ::
    "'w task_env \<Rightarrow> int \<Rightarrow> task_opts \<Rightarrow> 'w \<Rightarrow> run_state \<Rightarrow> (task_record result + launch) \<times> run_state" where
  "prepare env i opts w st =
     (if \<not> te_known env (op_agent opts) then (Inl (Inl (''unknown agent: '' @ op_agent opts)), st)
      else case choose_cwd env i opts w st of
        Inl (r, st) \<Rightarrow> (Inl r, st)
      | Inr cwd \<Rightarrow>
          (case (pj_repo_root (te_project env) cwd, start_run env i opts cwd w st) of
             (project, forced_real_home, st) \<Rightarrow>
               (case choose_home env opts forced_real_home of
                  Inl detail \<Rightarrow> (case end_early env i opts project detail detail w st of (r, st) \<Rightarrow> (Inl r, st))
                | Inr home \<Rightarrow>
                    (case make_prompt env opts project w st of
                       (prompt, st) \<Rightarrow>
                         (case choose_container env opts home cwd of
                            Inl detail \<Rightarrow> (case end_early env i opts project detail detail w st of (r, st) \<Rightarrow> (Inl r, st))
                          | Inr container \<Rightarrow>
                              (case te_mkdir env (artifacts_dir env) of
                                 Inl e \<Rightarrow> (Inl (Inl e), st)
                               | Inr _ \<Rightarrow>
                                   (Inr \<lparr>la_cwd = cwd, la_project = project, la_prompt = prompt, la_home = home,
                                         la_container = container\<rparr>, st)))))))"

definition launch_agent :: "'w task_env \<Rightarrow> task_opts \<Rightarrow> launch \<Rightarrow> 'w \<Rightarrow> run_outcome result \<times> 'w" where
  "launch_agent env opts la w =
     (if op_agent opts = ''single-pool'' then te_pool env (la_prompt la) (op_timeout opts) (op_account opts) w
      else te_agent env opts (la_cwd la) (la_prompt la) (la_home la) (la_container la) w)"

definition end_status :: "run_outcome \<Rightarrow> task_status" where
  "end_status ro =
     (if ro_cancelled ro then TsCancelled else if ro_success ro then TsCompleted else TsFailed)"

definition end_event :: "run_outcome \<Rightarrow> string" where
  "end_event ro =
     (if ro_cancelled ro then ''task.cancelled'' else if ro_success ro then ''task.completed'' else ''task.failed'')"

definition run_failed :: "run_outcome \<Rightarrow> bool" where
  "run_failed ro = (\<not> ro_success ro \<and> \<not> ro_cancelled ro)"

definition run_rate_limited :: "unicode \<Rightarrow> run_outcome \<Rightarrow> bool" where
  "run_rate_limited u ro = (run_failed ro \<and> looks_like_unavailable u (ro_stdout ro @ newline @ ro_stderr ro))"

definition run_tokens :: "'w task_env \<Rightarrow> task_opts \<Rightarrow> launch \<Rightarrow> run_outcome \<Rightarrow> int \<times> int \<times> bool" where
  "run_tokens env opts la ro =
     (case ro_usage ro of
        Some u \<Rightarrow> (as_i64 (tu_prompt_tokens u), as_i64 (tu_completion_tokens u), False)
      | None \<Rightarrow> parse_or_estimate_tokens (te_unicode env) (op_agent opts) (la_prompt la) (ro_stdout ro) (ro_stderr ro))"

text \<open>The writes to the table for a run that came back: its end, the event, the token counts.\<close>

definition record_run ::
    "'w task_env \<Rightarrow> string \<Rightarrow> int \<Rightarrow> task_opts \<Rightarrow> launch \<Rightarrow> string option \<Rightarrow> run_outcome \<Rightarrow> string \<Rightarrow> task_db \<Rightarrow> task_db" where
  "record_run env ts i opts la worktree ro summary db =
     (let db = finish ts i (end_status ro) worktree (Some (task_artifact_path env i)) (ro_exit_code ro) (ro_timed_out ro)
                 (Some summary) (run_rate_limited (te_unicode env) ro) db;
          db = record_event ts (end_event ro) (task_no i @ '' '' @ summary) db
      in case run_tokens env opts la ro of (pt, ct, estimated) \<Rightarrow> record_token_usage i pt ct estimated db)"

text \<open>Recording what came back: the text of a failure and whether it looks like a rate limit.\<close>

definition settle_run ::
    "'w task_env \<Rightarrow> int \<Rightarrow> task_opts \<Rightarrow> launch \<Rightarrow> run_outcome result \<Rightarrow> 'w \<Rightarrow> run_state \<Rightarrow>
     (string option \<times> bool) result \<times> run_state" where
  "settle_run env i opts la outcome w st =
     (let ts = te_now env w;
          worktree = (if op_use_worktree opts then Some (la_cwd la) else None)
      in case outcome of
        Inr ro \<Rightarrow>
          (let path = task_artifact_path env i;
               body = ro_stdout ro @ newline @ ''--- stderr ---'' @ newline @ ro_stderr ro
           in case te_write env path of
                Inl e \<Rightarrow> (Inl e, st)
              | Inr _ \<Rightarrow>
                  (let st = st\<lparr>rs_files := rs_files st @ [(path, body)]\<rparr>;
                       summary = summarize (te_unicode env) (ro_stdout ro) (ro_stderr ro) (ro_timed_out ro) (ro_exit_code ro);
                       st = on_db (record_run env ts i opts la worktree ro summary) st
                   in if run_failed ro
                      then (Inr (Some (ro_stdout ro @ newline @ ro_stderr ro @ newline @ summary),
                                 run_rate_limited (te_unicode env) ro),
                            remember_failure ts i (op_agent opts) (la_project la) (op_description opts) summary st)
                      else (Inr (None, run_rate_limited (te_unicode env) ro), st)))
      | Inl error_text \<Rightarrow>
          (let rate_limited = looks_like_unavailable (te_unicode env) error_text;
               st = on_db (finish ts i TsFailed worktree None None False (Some error_text) rate_limited) st;
               st = on_db (record_event ts ''task.failed'' (task_no i @ '' '' @ error_text)) st
           in (Inr (Some error_text, rate_limited),
               remember_failure ts i (op_agent opts) (la_project la) (op_description opts) error_text st)))"

section \<open>Fallback\<close>

definition account_set_status ::
    "string \<Rightarrow> string \<Rightarrow> account_status \<Rightarrow> account_row list \<Rightarrow> unit result \<times> account_row list" where
  "account_set_status agent name status rows =
     (if exists_where (\<lambda>a. ac_agent a = agent \<and> ac_name a = name) rows
      then (Inr (), update_where (\<lambda>a. ac_agent a = agent \<and> ac_name a = name) (\<lambda>a. a\<lparr>ac_status := status\<rparr>) rows)
      else (Inl (''no profile named '' @ [CHR 0x27] @ name @ [CHR 0x27] @ '' for agent '' @ [CHR 0x27] @ agent @ [CHR 0x27]), rows))"

definition already_rate_limited :: "task_opts \<Rightarrow> run_state \<Rightarrow> bool" where
  "already_rate_limited opts st =
     (case op_account opts of
        None \<Rightarrow> False
      | Some name \<Rightarrow> list_ex (\<lambda>a. ac_agent a = op_agent opts \<and> ac_name a = name \<and> ac_status a = AcRateLimited) (rs_accounts st))"

definition current_ref :: "task_opts \<Rightarrow> agent_account_ref" where
  "current_ref opts = \<lparr>ar_agent = op_agent opts, ar_account = op_account opts\<rparr>"

definition follow_up :: "int \<Rightarrow> task_opts \<Rightarrow> agent_account_ref \<Rightarrow> task_opts" where
  "follow_up i opts next =
     opts\<lparr>op_description := ''[fallback from '' @ task_no i @ '', '' @ op_agent opts @ '' looked rate-limited] '' @ op_description opts,
          op_agent := ar_agent next, op_account := ar_account next, op_allow_fallback := True, op_usage_json := False\<rparr>"

text \<open>\<open>maybe_fail_over\<close> up to the recursive call: the follow-up task, if there is one.\<close>

definition fail_over ::
    "'w task_env \<Rightarrow> int \<Rightarrow> task_opts \<Rightarrow> bool \<Rightarrow> 'w \<Rightarrow> run_state \<Rightarrow> (int \<times> task_opts) option \<times> run_state" where
  "fail_over env i opts rate_limited w st =
     (if \<not> already_rate_limited opts st \<and> \<not> rate_limited then (None, st)
      else
        (let ts = te_now env w;
             log = (\<lambda>what st. on_db (record_event ts ''task.fallback_error'' (task_no i @ what)) st)
         in case next_after (te_chains env) (current_ref opts) of
              Inl e \<Rightarrow> (None, log ('' reading fallback registry: '' @ e) st)
            | Inr None \<Rightarrow> (None, st)
            | Inr (Some next) \<Rightarrow>
                (if \<not> (te_known env (ar_agent next) \<and> te_detected env (ar_agent next))
                 then (None, log ('' fallback target '' @ [CHR 0x27] @ ar_agent next @ [CHR 0x27] @ '' isn'' @ [CHR 0x27] @ ''t installed'') st)
                 else
                   (let st = (case op_account opts of
                               None \<Rightarrow> st
                             | Some account \<Rightarrow>
                                 (case account_set_status (op_agent opts) account AcRateLimited (rs_accounts st) of
                                    (Inr _, rows) \<Rightarrow> st\<lparr>rs_accounts := rows\<rparr>
                                  | (Inl e, rows) \<Rightarrow> log ('' marking '' @ op_agent opts @ ''/'' @ account @ '' rate_limited: '' @ e) st));
                        next_opts = follow_up i opts next;
                        (next_id, db) = create_for_cwd (te_project env) ts (op_description next_opts) (op_agent next_opts)
                                          (op_cwd next_opts) (rs_db st);
                        st = st\<lparr>rs_db := record_event ts ''task.fallback_started''
                               (task_no i @ '' -> '' @ task_no next_id @ '' agent='' @ ar_agent next) db\<rparr>
                    in (Some (next_id, next_opts), st)))))"

definition conclude :: "'w task_env \<Rightarrow> int \<Rightarrow> run_state \<Rightarrow> task_record result \<times> run_state" where
  "conclude env i st =
     (let st = notify_task_hooks env i st
      in (get_task_or ''task disappeared after finishing'' i (rs_db st), st))"

text \<open>One run up to its fallback: \<open>Inl\<close> is a return from \<open>execute\<close>, \<open>Inr\<close> the follow-up task to run
  before the hooks are told.\<close>

definition run_once ::
    "'w task_env \<Rightarrow> int \<Rightarrow> task_opts \<Rightarrow> run_state \<Rightarrow> 'w \<Rightarrow>
     (task_record result + (int \<times> task_opts) option) \<times> run_state \<times> 'w" where
  "run_once env i opts st w =
     (case prepare env i opts w st of
        (Inl r, st) \<Rightarrow> (Inl r, st, w)
      | (Inr la, st) \<Rightarrow>
          (case launch_agent env opts la w of
             (outcome, w) \<Rightarrow>
               (case settle_run env i opts la outcome w st of
                  (Inl e, st) \<Rightarrow> (Inl (Inl e), st, w)
                | (Inr (failure, rate_limited), st) \<Rightarrow>
                    (if op_allow_fallback opts \<and> failure \<noteq> None
                     then case fail_over env i opts rate_limited w st of (follow, st) \<Rightarrow> (Inr follow, st, w)
                     else (Inr None, st, w)))))"

partial_function (option) task_execute ::
    "'w task_env \<Rightarrow> int \<Rightarrow> task_opts \<Rightarrow> run_state \<Rightarrow> 'w \<Rightarrow> (task_record result \<times> run_state \<times> 'w) option" where
  "task_execute env i opts st w =
     (case run_once env i opts st w of
        (Inl r, st, w) \<Rightarrow> Some (r, st, w)
      | (Inr None, st, w) \<Rightarrow> (case conclude env i st of (r, st) \<Rightarrow> Some (r, st, w))
      | (Inr (Some (next_id, next_opts)), st, w) \<Rightarrow>
          Option.bind (task_execute env next_id next_opts st w)
            (\<lambda>(_, st, w). case conclude env i st of (r, st) \<Rightarrow> Some (r, st, w)))"

section \<open>Entry points\<close>

definition not_installed :: "string \<Rightarrow> string" where
  "not_installed agent = ''agent '' @ [CHR 0x27] @ agent @ [CHR 0x27] @ '' is not installed; run '' @ [CHR 0x60] @
     ''single setup --yes'' @ [CHR 0x60] @ '' first''"

definition task_run ::
    "'w task_env \<Rightarrow> task_opts \<Rightarrow> run_state \<Rightarrow> 'w \<Rightarrow> (task_record result \<times> run_state \<times> 'w) option" where
  "task_run env opts st w =
     (if \<not> te_known env (op_agent opts) then Some (Inl (''unknown agent: '' @ op_agent opts), st, w)
      else if op_agent opts \<noteq> ''single-pool'' \<and> \<not> te_detected env (op_agent opts)
      then Some (Inl (not_installed (op_agent opts)), st, w)
      else
        (let ts = te_now env w;
             (i, db) = create_for_cwd (te_project env) ts (op_description opts) (op_agent opts) (op_cwd opts) (rs_db st);
             st = st\<lparr>rs_db := record_event ts ''task.created'' (task_no i @ '' agent='' @ op_agent opts @ '' '' @ [CHR 0x22] @
                   op_description opts @ [CHR 0x22]) db\<rparr>
         in task_execute env i opts st w))"

text \<open>\<open>run_background\<close> answers at once; the thread it starts runs \<open>background_thread\<close> later.\<close>

definition run_background ::
    "'w task_env \<Rightarrow> task_opts \<Rightarrow> run_state \<Rightarrow> registry \<Rightarrow> 'w \<Rightarrow> task_record result \<times> (int \<times> nat) option \<times> run_state \<times> registry" where
  "run_background env opts st rg w =
     (if \<not> te_known env (op_agent opts) then (Inl (''unknown agent: '' @ op_agent opts), None, st, rg)
      else if op_agent opts \<noteq> ''single-pool'' \<and> \<not> te_detected env (op_agent opts)
      then (Inl (not_installed (op_agent opts)), None, st, rg)
      else
        (let ts = te_now env w;
             (i, db) = create_for_cwd (te_project env) ts (op_description opts) (op_agent opts) (op_cwd opts) (rs_db st);
             db = record_event ts ''task.created'' (task_no i @ '' agent='' @ op_agent opts @ '' '' @ [CHR 0x22] @
                   op_description opts @ [CHR 0x22] @ '' (background)'') db;
             (flag, rg) = register i rg;
             db = task_set_status ts i TsRunning db
         in (get_task_or ''task disappeared after being created'' i db, Some (i, flag), st\<lparr>rs_db := db\<rparr>, rg)))"

definition background_thread ::
    "'w task_env \<Rightarrow> int \<Rightarrow> task_opts \<Rightarrow> run_state \<Rightarrow> registry \<Rightarrow> 'w \<Rightarrow> (run_state \<times> registry \<times> 'w) option" where
  "background_thread env i opts st rg w =
     (case task_execute env i opts st w of
        None \<Rightarrow> None
      | Some (_, st, w) \<Rightarrow> Some (st, unregister i rg, w))"

text \<open>\<open>cleanup\<close>: what it removes is the worktree and the live output, both best effort.\<close>

definition cleanup :: "string \<Rightarrow> int \<Rightarrow> bool \<Rightarrow> task_db \<Rightarrow> (string option) result \<times> task_db" where
  "cleanup ts i force db =
     (case get_task_or ''no such task'' i db of
        Inl e \<Rightarrow> (Inl e, db)
      | Inr task \<Rightarrow>
          (if t_status task = TsRunning \<or> t_status task = TsCreated
           then (if \<not> force
                 then (Inl (''task '' @ task_no i @ '' is still '' @ status_as_str (t_status task) @
                         ''; cancel it first, or pass --force to clean it up anyway''), db)
                 else case force_fail ts i ''force-cleaned up while non-terminal'' db of
                   (Inl e, db) \<Rightarrow> (Inl e, db)
                 | (Inr _, db) \<Rightarrow> (Inr (t_worktree_path task), db))
           else (Inr (t_worktree_path task), db)))"


section \<open>What a run does to the table\<close>

text \<open>Only the row of one task changes, and it stays the row of that task.\<close>

definition only_row :: "int \<Rightarrow> task_db \<Rightarrow> task_db \<Rightarrow> bool" where
  "only_row i db db' \<longleftrightarrow> (\<exists>f. (\<forall>r. same_task r (f r)) \<and>
     (\<forall>r. t_status r \<in> range status_as_str \<longrightarrow> t_status (f r) \<in> range status_as_str) \<and>
     td_tasks db' = update_where (\<lambda>r. t_id r = i) f (td_tasks db)) \<and> td_seq db' = td_seq db"

lemma only_row_refl: "td_tasks db' = td_tasks db \<Longrightarrow> td_seq db' = td_seq db \<Longrightarrow> only_row i db db'"
  by (auto simp: only_row_def update_where_def intro!: exI [of _ "\<lambda>r. r"])

lemma only_row_upd:
  assumes "\<And>r. same_task r (f r)" "\<And>r. t_status r \<in> range status_as_str \<Longrightarrow> t_status (f r) \<in> range status_as_str"
  shows "only_row i db (task_sql_upd i f db)"
  using assms by (auto simp: only_row_def task_sql_upd_def)

lemma only_row_trans:
  assumes "only_row i a b" "only_row i b c" shows "only_row i a c"
proof -
  from assms obtain f g where f: "\<forall>r. same_task r (f r)" "\<forall>r. t_status r \<in> range status_as_str \<longrightarrow> t_status (f r) \<in> range status_as_str"
    "td_tasks b = update_where (\<lambda>r. t_id r = i) f (td_tasks a)"
    and g: "\<forall>r. same_task r (g r)" "\<forall>r. t_status r \<in> range status_as_str \<longrightarrow> t_status (g r) \<in> range status_as_str"
    "td_tasks c = update_where (\<lambda>r. t_id r = i) g (td_tasks b)" and s: "td_seq c = td_seq a"
    by (auto simp: only_row_def)
  have "td_tasks c = update_where (\<lambda>r. t_id r = i) (\<lambda>r. g (f r)) (td_tasks a)"
    unfolding f(3) g(3) using f(1) by (simp add: update_where_def same_task_def)
  moreover have "\<forall>r. same_task r (g (f r))" using f(1) g(1) by (simp add: same_task_def)
  moreover have "\<forall>r. t_status r \<in> range status_as_str \<longrightarrow> t_status (g (f r)) \<in> range status_as_str"
    using f(2) g(2) by simp
  ultimately show ?thesis using s unfolding only_row_def by (intro conjI exI [of _ "\<lambda>r. g (f r)"]) simp_all
qed

lemma only_row_finish: "only_row i db (finish ts i s wt art ec to sm rl db)"
  unfolding finish_def by (rule only_row_upd) (simp_all add: same_task_def)

lemma only_row_event: "only_row i db (record_event ts k d db)"
  by (rule only_row_refl) simp_all

lemma only_row_status: "only_row i db (task_set_status ts i s db)"
  unfolding task_set_status_def by (rule only_row_upd) (simp_all add: same_task_def)

lemma only_row_tokens: "only_row i db (record_token_usage i p c e db)"
  unfolding record_token_usage_def by (rule only_row_upd) (simp_all add: same_task_def)

lemmas only_rows = only_row_finish only_row_event only_row_status only_row_tokens

lemma only_row_ok: "only_row i db db' \<Longrightarrow> task_db_ok db \<Longrightarrow> task_db_ok db'"
proof -
  assume "only_row i db db'"
  then obtain f where f: "\<And>r. same_task r (f r)" "\<And>r. t_status r \<in> range status_as_str \<Longrightarrow> t_status (f r) \<in> range status_as_str"
    "td_tasks db' = td_tasks (db\<lparr>td_tasks := update_where (\<lambda>r. t_id r = i) f (td_tasks db)\<rparr>)"
    "td_seq db' = td_seq (db\<lparr>td_tasks := update_where (\<lambda>r. t_id r = i) f (td_tasks db)\<rparr>)"
    by (auto simp: only_row_def)
  assume "task_db_ok db"
  then have "task_db_ok (db\<lparr>td_tasks := update_where (\<lambda>r. t_id r = i) f (td_tasks db)\<rparr>)"
    using f(1,2) by (intro task_db_ok_upd) (auto simp: same_task_def)
  with task_db_same [OF f(3,4)] show "task_db_ok db'" by blast
qed

lemma only_row_get:
  assumes "only_row i db db'"
  shows "j \<noteq> i \<Longrightarrow> task_sql_get j db' = task_sql_get j db"
    and "task_sql_get i db = Some r \<Longrightarrow> \<exists>r'. task_sql_get i db' = Some r' \<and> same_task r r'"
proof -
  from assms obtain f where f: "\<And>r. same_task r (f r)" "td_tasks db' = update_where (\<lambda>r. t_id r = i) f (td_tasks db)"
    by (auto simp: only_row_def)
  have g: "task_sql_get j db' = (if i = j then map_option f (task_sql_get j db) else task_sql_get j db)" for j
    unfolding task_sql_get_def f(2) using f(1) by (subst find_update_key) (auto simp: same_task_def)
  show "j \<noteq> i \<Longrightarrow> task_sql_get j db' = task_sql_get j db" using g by simp
  show "task_sql_get i db = Some r \<Longrightarrow> \<exists>r'. task_sql_get i db' = Some r' \<and> same_task r r'" using g f(1) by simp
qed

lemma run_frames [simp]:
  "rs_db (remember_failure ts i a p d detail st) = rs_db st" "rs_db (notify_task_hooks env i st) = rs_db st"
  "rs_db (on_db f st) = f (rs_db st)"
  by (auto simp: remember_failure_def notify_task_hooks_def on_db_def split: outcome.splits sum.splits option.splits)

lemma preamble_db [simp]: "rs_db (snd (build_context_preamble env ts d a p st)) = rs_db st"
  by (auto simp: build_context_preamble_def Let_def case_prod_beta)

lemma end_early_row:
  assumes "end_early env i opts p ev detail w st = (r, st')" "task_sql_get i (rs_db st) = Some row"
  shows "only_row i (rs_db st) (rs_db st') \<and> r = get_task_or ''task disappeared after being created'' i (rs_db st') \<and>
    (\<exists>row'. task_sql_get i (rs_db st') = Some row' \<and> t_status row' = ''failed'')"
proof -
  let ?db = "record_event (te_now env w) ''task.failed'' (task_no i @ '' '' @ ev)
    (finish (te_now env w) i TsFailed None None None False (Some detail) False (rs_db st))"
  from assms(1) have db: "rs_db st' = ?db" "r = get_task_or ''task disappeared after being created'' i ?db"
    by (auto simp: end_early_def Let_def)
  have "only_row i (rs_db st) ?db" by (rule only_row_trans [OF only_row_finish only_row_event])
  moreover have "\<exists>row'. task_sql_get i ?db = Some row' \<and> t_status row' = ''failed''"
    using assms(2) by (simp add: finish_def tasks.get_upd)
  ultimately show ?thesis using db by simp
qed

lemma start_run_row:
  assumes "start_run env i opts cwd w st = (forced, st')" "task_sql_get i (rs_db st) = Some row"
  shows "only_row i (rs_db st) (rs_db st') \<and>
    (\<exists>row'. task_sql_get i (rs_db st') = Some row' \<and> t_status row' = ''running'')"
proof -
  let ?db = "record_event (te_now env w) ''task.started'' (task_no i @ '' cwd='' @ cwd) (task_set_status (te_now env w) i TsRunning (rs_db st))"
  have 1: "only_row i (rs_db st) ?db" by (rule only_row_trans [OF only_row_status only_row_event])
  have 2: "\<exists>row'. task_sql_get i ?db = Some row' \<and> t_status row' = ''running''"
    using assms(2) by (simp add: task_set_status_def tasks.get_upd)
  from assms(1) have "rs_db st' = ?db \<or> (\<exists>d. rs_db st' = record_event (te_now env w) ''task.real_home'' d ?db)"
    by (auto simp: start_run_def Let_def)
  with 1 2 only_row_trans [OF 1 only_row_event] show ?thesis by fastforce
qed

lemma make_prompt_db: "make_prompt env opts p w st = (prompt, st') \<Longrightarrow> rs_db st' = rs_db st"
  using preamble_db [of env "te_now env w" "op_description opts" "op_agent opts" p st]
  by (auto simp: make_prompt_def split: if_splits simp del: preamble_db)

text \<open>How the preparation can end.\<close>

lemma prepare_cases:
  assumes p: "prepare env i opts w st = (x, st')" and row: "task_sql_get i (rs_db st) = Some row"
  obtains
    (unknown) "\<not> te_known env (op_agent opts)" "x = Inl (Inl (''unknown agent: '' @ op_agent opts))" "st' = st"
  | (early) r where "x = Inl r" "only_row i (rs_db st) (rs_db st')"
      "r = get_task_or ''task disappeared after being created'' i (rs_db st')"
      "\<exists>row'. task_sql_get i (rs_db st') = Some row' \<and> t_status row' = ''failed''"
  | (no_dir) e where "x = Inl (Inl e)" "te_mkdir env (artifacts_dir env) = Inl e" "only_row i (rs_db st) (rs_db st')"
      "\<exists>row'. task_sql_get i (rs_db st') = Some row' \<and> t_status row' = ''running''"
  | (ready) la where "x = Inr la" "only_row i (rs_db st) (rs_db st')"
      "\<exists>row'. task_sql_get i (rs_db st') = Some row' \<and> t_status row' = ''running''"
proof (cases "te_known env (op_agent opts)")
  case False
  with p show ?thesis by (intro unknown) (auto simp: prepare_def)
next
  case known: True
  show ?thesis
  proof (cases "choose_cwd env i opts w st")
    case (Inl e)
    with p known have x: "x = Inl (fst e)" "st' = snd e" by (auto simp: prepare_def split: prod.splits)
    from Inl obtain pr ev detail where "e = end_early env i opts pr ev detail w st"
      by (auto simp: choose_cwd_def split: if_splits option.splits sum.splits)
    with end_early_row [OF _ row, of env opts pr ev detail w "fst e" "snd e"] x show ?thesis
      by (intro early) auto
  next
    case (Inr cwd)
    define pr where "pr = pj_repo_root (te_project env) cwd"
    obtain forced st2 where start: "start_run env i opts cwd w st = (forced, st2)" by fastforce
    have st2: "only_row i (rs_db st) (rs_db st2)" "\<exists>row'. task_sql_get i (rs_db st2) = Some row' \<and> t_status row' = ''running''"
      using start_run_row [OF start row] by simp_all
    then obtain row2 where row2: "task_sql_get i (rs_db st2) = Some row2" by blast
    obtain prompt st3 where pp: "make_prompt env opts pr w st2 = (prompt, st3)" by fastforce
    have st3: "rs_db st3 = rs_db st2" using make_prompt_db [OF pp] .
    have step: "prepare env i opts w st = (case choose_home env opts forced of
        Inl detail \<Rightarrow> (case end_early env i opts pr detail detail w st2 of (r, st) \<Rightarrow> (Inl r, st))
      | Inr home \<Rightarrow> (case choose_container env opts home cwd of
          Inl detail \<Rightarrow> (case end_early env i opts pr detail detail w st3 of (r, st) \<Rightarrow> (Inl r, st))
        | Inr container \<Rightarrow> (case te_mkdir env (artifacts_dir env) of
            Inl e \<Rightarrow> (Inl (Inl e), st3)
          | Inr _ \<Rightarrow> (Inr \<lparr>la_cwd = cwd, la_project = pr, la_prompt = prompt, la_home = home, la_container = container\<rparr>, st3))))"
      using known Inr by (cases "choose_home env opts forced") (simp_all add: prepare_def start pp pr_def [symmetric])
    show ?thesis
    proof (cases "choose_home env opts forced")
      case (Inl detail)
      obtain r st4 where e: "end_early env i opts pr detail detail w st2 = (r, st4)" by fastforce
      with p step Inl have x: "x = Inl r" "st' = st4" by auto
      from end_early_row [OF e row2] only_row_trans [OF st2(1)] show ?thesis
        by (intro early) (auto simp: x)
    next
      case home: (Inr home)
      show ?thesis
      proof (cases "choose_container env opts home cwd")
        case (Inl detail)
        obtain r st4 where e: "end_early env i opts pr detail detail w st3 = (r, st4)" by fastforce
        with p step home Inl have x: "x = Inl r" "st' = st4" by auto
        from end_early_row [OF e, unfolded st3, OF row2] only_row_trans [OF st2(1)] show ?thesis
          by (intro early) (auto simp: x)
      next
        case cont: (Inr container)
        show ?thesis
        proof (cases "te_mkdir env (artifacts_dir env)")
          case (Inl e)
          with p step home cont have "x = Inl (Inl e)" "st' = st3" by auto
          with Inl st2 show ?thesis by (intro no_dir [of e]) (simp_all add: st3)
        next
          case (Inr u)
          with p step home cont have "\<exists>la. x = Inr la" "st' = st3" by auto
          with st2 show ?thesis by (elim exE, intro ready) (simp_all add: st3)
        qed
      qed
    qed
  qed
qed


lemma status_kept:
  "task_sql_get i db = Some row \<Longrightarrow>
   \<exists>row'. task_sql_get i (record_event ts k d (finish ts i s wt art ec to sm rl db)) = Some row' \<and>
     t_status row' = status_as_str s \<and> t_rate_limited row' = of_bool rl"
  by (simp add: finish_def tasks.get_upd)

lemma status_kept_tokens:
  "task_sql_get i db = Some row \<Longrightarrow> \<exists>row'. task_sql_get i (record_token_usage i p c e db) = Some row' \<and>
     t_status row' = t_status row \<and> t_rate_limited row' = t_rate_limited row"
  by (simp add: record_token_usage_def tasks.get_upd)

definition outcome_status :: "run_outcome result \<Rightarrow> task_status" where
  "outcome_status r = (case r of Inr ro \<Rightarrow> end_status ro | Inl _ \<Rightarrow> TsFailed)"

lemma record_run_row:
  assumes row: "task_sql_get i db = Some row"
  shows "only_row i db (record_run env ts i opts la wt ro sm db) \<and>
    (\<exists>row'. task_sql_get i (record_run env ts i opts la wt ro sm db) = Some row' \<and>
       t_status row' = status_as_str (end_status ro) \<and> t_rate_limited row' = of_bool (run_rate_limited (te_unicode env) ro))"
proof -
  obtain p c est where tok: "run_tokens env opts la ro = (p, c, est)" by (metis prod_cases3)
  let ?rl = "run_rate_limited (te_unicode env) ro"
  let ?db1 = "record_event ts (end_event ro) (task_no i @ '' '' @ sm) (finish ts i (end_status ro) wt
    (Some (task_artifact_path env i)) (ro_exit_code ro) (ro_timed_out ro) (Some sm) ?rl db)"
  have db: "record_run env ts i opts la wt ro sm db = record_token_usage i p c est ?db1"
    by (simp add: record_run_def tok)
  have "only_row i db (record_token_usage i p c est ?db1)"
    by (rule only_row_trans [OF only_row_trans [OF only_row_finish only_row_event] only_row_tokens])
  moreover obtain row1 where row1: "task_sql_get i ?db1 = Some row1" "t_status row1 = status_as_str (end_status ro)"
    "t_rate_limited row1 = of_bool ?rl"
    using status_kept [OF row] by blast
  ultimately show ?thesis using status_kept_tokens [OF row1(1), of p c est] unfolding db by simp
qed

lemma settle_run_row:
  assumes s: "settle_run env i opts la out w st = (x, st')" and row: "task_sql_get i (rs_db st) = Some row"
  shows "only_row i (rs_db st) (rs_db st') \<and>
    (case x of
       Inl e \<Rightarrow> st' = st \<and> te_write env (task_artifact_path env i) = Inl e
     | Inr (failure, rate_limited) \<Rightarrow>
         (\<exists>row'. task_sql_get i (rs_db st') = Some row' \<and> t_status row' = status_as_str (outcome_status out) \<and>
            t_rate_limited row' = of_bool rate_limited) \<and>
         (failure \<noteq> None \<longleftrightarrow> outcome_status out = TsFailed))"
proof (cases out)
  case (Inl e)
  let ?rl = "looks_like_unavailable (te_unicode env) e"
  let ?wt = "if op_use_worktree opts then Some (la_cwd la) else None"
  let ?db = "record_event (te_now env w) ''task.failed'' (task_no i @ '' '' @ e)
    (finish (te_now env w) i TsFailed ?wt None None False (Some e) ?rl (rs_db st))"
  from s Inl have x: "x = Inr (Some e, ?rl)" "rs_db st' = ?db" by (auto simp: settle_run_def Let_def)
  have "only_row i (rs_db st) ?db" by (rule only_row_trans [OF only_row_finish only_row_event])
  with status_kept [OF row, where s = TsFailed] show ?thesis by (simp add: x Inl outcome_status_def)
next
  case (Inr ro)
  show ?thesis
  proof (cases "te_write env (task_artifact_path env i)")
    case (Inl e)
    with s Inr have "x = Inl e" "st' = st" by (auto simp: settle_run_def Let_def)
    with Inl show ?thesis by (auto intro: only_row_refl)
  next
    case (Inr u)
    let ?sm = "summarize (te_unicode env) (ro_stdout ro) (ro_stderr ro) (ro_timed_out ro) (ro_exit_code ro)"
    have x: "rs_db st' = record_run env (te_now env w) i opts la (if op_use_worktree opts then Some (la_cwd la) else None) ro ?sm (rs_db st)"
      "\<exists>t. x = Inr (if run_failed ro then Some t else None, run_rate_limited (te_unicode env) ro)"
      using s Inr \<open>out = Inr ro\<close> by (auto simp: settle_run_def Let_def split: if_splits)
    moreover have "run_failed ro \<longleftrightarrow> end_status ro = TsFailed" by (simp add: end_status_def run_failed_def)
    ultimately show ?thesis using record_run_row [OF row, where env = env and ts = "te_now env w" and opts = opts and la = la and ro = ro
        and sm = ?sm and wt = "if op_use_worktree opts then Some (la_cwd la) else None"]
      by (auto simp: \<open>out = Inr ro\<close> outcome_status_def)
  qed
qed

lemma fail_over_cases:
  assumes "fail_over env i opts rl w st = (x, st')"
  obtains
    (stay) "x = None" "td_tasks (rs_db st') = td_tasks (rs_db st)" "td_seq (rs_db st') = td_seq (rs_db st)"
  | (hop) cs nxt n nopts where "x = Some (n, nopts)" "te_chains env = Inr cs" "next_in (current_ref opts) cs = Some nxt"
      "current_ref nopts = nxt" "n = next_task_id (rs_db st)"
      "\<exists>r. td_tasks (rs_db st') = td_tasks (rs_db st) @ [r] \<and> t_id r = n \<and> t_status r = ''created''" "td_seq (rs_db st') = n"
      "task_db_ok (rs_db st) \<Longrightarrow> task_db_ok (rs_db st')" "rl \<or> already_rate_limited opts st" "op_allow_fallback nopts"
      "te_known env (op_agent nopts)"
proof (cases "\<not> already_rate_limited opts st \<and> \<not> rl")
  case True
  with assms show ?thesis by (intro stay) (auto simp: fail_over_def)
next
  case looks: False
  show ?thesis
  proof (cases "next_after (te_chains env) (current_ref opts)")
    case (Inl e)
    with assms looks show ?thesis by (intro stay) (auto simp: fail_over_def Let_def)
  next
    case (Inr o')
    show ?thesis
    proof (cases o')
      case None
      with assms looks Inr show ?thesis by (intro stay) (auto simp: fail_over_def Let_def)
    next
      case (Some nxt)
      show ?thesis
      proof (cases "te_known env (ar_agent nxt) \<and> te_detected env (ar_agent nxt)")
        case False
        with assms looks Inr Some show ?thesis by (intro stay) (auto simp: fail_over_def Let_def)
      next
        case True
        from Inr Some obtain cs where cs: "te_chains env = Inr cs" "next_in (current_ref opts) cs = Some nxt"
          by (auto simp: next_after_def split: sum.splits)
        let ?nopts = "follow_up i opts nxt"
        define st1 where "st1 = (case op_account opts of None \<Rightarrow> st
           | Some account \<Rightarrow> (case account_set_status (op_agent opts) account AcRateLimited (rs_accounts st) of
               (Inr _, rows) \<Rightarrow> st\<lparr>rs_accounts := rows\<rparr>
             | (Inl e, rows) \<Rightarrow> on_db (record_event (te_now env w) ''task.fallback_error'' (task_no i @ '' marking '' @
                 op_agent opts @ ''/'' @ account @ '' rate_limited: '' @ e)) st))"
        have st1: "td_tasks (rs_db st1) = td_tasks (rs_db st)" "td_seq (rs_db st1) = td_seq (rs_db st)"
          by (auto simp: st1_def split: option.splits prod.splits sum.splits)
        obtain n db where c: "create_for_cwd (te_project env) (te_now env w) (op_description ?nopts) (op_agent ?nopts)
            (op_cwd ?nopts) (rs_db st1) = (n, db)" by fastforce
        have r: "x = Some (n, ?nopts)" "rs_db st' = record_event (te_now env w) ''task.fallback_started''
            (task_no i @ '' -> '' @ task_no n @ '' agent='' @ ar_agent nxt) db"
          using assms looks Inr Some True c
          by (auto simp: fail_over_def Let_def st1_def split: option.splits prod.splits sum.splits)
        have n: "n = next_task_id (rs_db st)" using create_for_cwd_row [OF c] st1 by (auto simp: next_task_id_def)
        have "task_db_ok (rs_db st) \<Longrightarrow> task_db_ok (rs_db st')"
          using create_for_cwd_ok [OF _ c] task_db_same [OF st1] r(2) by simp
        then show ?thesis
          using r cs create_for_cwd_row [OF c] st1 n looks True
          by (intro hop [of n ?nopts cs nxt]) (auto simp: current_ref_def follow_up_def)
      qed
    qed
  qed
qed


section \<open>Every run is settled\<close>

definition artifact_fails :: "'w task_env \<Rightarrow> int \<Rightarrow> string \<Rightarrow> bool" where
  "artifact_fails env i e \<longleftrightarrow> te_mkdir env (artifacts_dir env) = Inl e \<or> te_write env (task_artifact_path env i) = Inl e"

definition row_status :: "int \<Rightarrow> task_db \<Rightarrow> string option" where
  "row_status i db = map_option t_status (task_sql_get i db)"

definition row_settled :: "int \<Rightarrow> task_db \<Rightarrow> bool" where
  "row_settled i db \<longleftrightarrow> (\<exists>r. task_sql_get i db = Some r \<and> \<not> live_status (t_status r))"

lemma terminal_not_live [simp]:
  "\<not> live_status (status_as_str (outcome_status out))" "\<not> live_status ''failed''" "live_status ''running''" "live_status ''created''"
  by (auto simp: live_status_def outcome_status_def end_status_def split: sum.splits)

lemma run_once_cases:
  assumes x: "run_once env i opts st w = (x, st', w')" and row: "task_sql_get i (rs_db st) = Some row"
  obtains
    (unknown) "\<not> te_known env (op_agent opts)" "x = Inl (Inl (''unknown agent: '' @ op_agent opts))" "st' = st"
  | (early) r where "x = Inl r" "only_row i (rs_db st) (rs_db st')" "row_settled i (rs_db st')"
      "r = get_task_or ''task disappeared after being created'' i (rs_db st')"
  | (stuck) e where "x = Inl (Inl e)" "artifact_fails env i e" "only_row i (rs_db st) (rs_db st')"
      "row_status i (rs_db st') = Some ''running''"
  | (ended) "x = Inr None" "only_row i (rs_db st) (rs_db st')" "row_settled i (rs_db st')"
  | (hop) n nopts st1 where "x = Inr (Some (n, nopts))" "only_row i (rs_db st) (rs_db st1)" "row_settled i (rs_db st1)"
      "fail_over env i opts True w' st1 = (Some (n, nopts), st') \<or> fail_over env i opts False w' st1 = (Some (n, nopts), st')"
proof -
  obtain p st1 where p: "prepare env i opts w st = (p, st1)" by fastforce
  from p row show ?thesis
  proof (cases rule: prepare_cases)
    case unknown
    with x p show ?thesis by (intro that(1)) (simp_all add: run_once_def)
  next
    case (early r)
    with x p show ?thesis by (intro that(2)) (auto simp: run_once_def row_settled_def)
  next
    case (no_dir e)
    with x p show ?thesis by (intro that(3)) (auto simp: run_once_def artifact_fails_def row_status_def)
  next
    case (ready la)
    obtain out w2 where l: "launch_agent env opts la w = (out, w2)" by fastforce
    obtain q st2 where q: "settle_run env i opts la out w2 st1 = (q, st2)" by fastforce
    from ready obtain row1 where row1: "task_sql_get i (rs_db st1) = Some row1" "t_status row1 = ''running''" by blast
    note s = settle_run_row [OF q row1(1)]
    have only: "only_row i (rs_db st) (rs_db st2)" using only_row_trans ready(2) s by blast
    show ?thesis
    proof (cases q)
      case (Inl e)
      with x p l q ready(1) have "x = Inl (Inl e)" "st' = st2" by (auto simp: run_once_def)
      with Inl s row1 only show ?thesis by (intro that(3) [of e]) (auto simp: artifact_fails_def row_status_def)
    next
      case (Inr fr)
      obtain failure rl where fr: "fr = (failure, rl)" by fastforce
      have settled: "row_settled i (rs_db st2)" using s Inr fr by (auto simp: row_settled_def)
      show ?thesis
      proof (cases "op_allow_fallback opts \<and> failure \<noteq> None")
        case False
        with x p l q ready(1) Inr fr have "x = Inr None" "st' = st2" by (auto simp: run_once_def)
        with only settled show ?thesis by (intro that(4)) auto
      next
        case True
        obtain follow st3 where f: "fail_over env i opts rl w2 st2 = (follow, st3)" by fastforce
        with x p l q ready(1) Inr fr True have y: "x = Inr follow" "st' = st3" "w' = w2" by (auto simp: run_once_def)
        show ?thesis
        proof (cases follow)
          case None
          from f None have "td_tasks (rs_db st3) = td_tasks (rs_db st2)" "td_seq (rs_db st3) = td_seq (rs_db st2)"
            by (auto elim: fail_over_cases)
          with settled only only_row_trans [OF only only_row_refl] show ?thesis
            by (intro that(4)) (auto simp: y None row_settled_def task_sql_get_def)
        next
          case (Some nn)
          with f y only settled show ?thesis
            by (intro that(5) [of "fst nn" "snd nn" st2]) (cases rl; simp)+
        qed
      qed
    qed
  qed
qed

definition others_kept :: "int \<Rightarrow> task_db \<Rightarrow> task_db \<Rightarrow> bool" where
  "others_kept i db db' \<longleftrightarrow> task_db_ok db' \<and> td_seq db \<le> td_seq db' \<and>
     (\<forall>j. j \<noteq> i \<longrightarrow> j \<le> td_seq db \<longrightarrow> task_sql_get j db' = task_sql_get j db) \<and>
     (\<forall>r. task_sql_get i db = Some r \<longrightarrow> (\<exists>r'. task_sql_get i db' = Some r' \<and> same_task r r'))"

text \<open>Which rows made during a run are still live after it: those whose artifact could not be written.\<close>

definition new_settled :: "'w task_env \<Rightarrow> task_db \<Rightarrow> task_db \<Rightarrow> bool" where
  "new_settled env db db' \<longleftrightarrow> (\<forall>j r. td_seq db < j \<longrightarrow> task_sql_get j db' = Some r \<longrightarrow> live_status (t_status r) \<longrightarrow>
     (\<exists>e. artifact_fails env j e))"

definition run_answer :: "'w task_env \<Rightarrow> int \<Rightarrow> task_opts \<Rightarrow> run_state \<Rightarrow> task_record result \<Rightarrow> run_state \<Rightarrow> bool" where
  "run_answer env i opts st r st' \<longleftrightarrow>
     (case r of
        Inr t \<Rightarrow> get_task i (rs_db st') = Inr (Some t) \<and> t_status t \<notin> {TsCreated, TsRunning}
      | Inl e \<Rightarrow> \<not> te_known env (op_agent opts) \<and> st' = st \<or>
          artifact_fails env i e \<and> row_status i (rs_db st') = Some ''running'')"

lemma task_in_seq: "task_db_ok db \<Longrightarrow> task_sql_get i db = Some r \<Longrightarrow> i \<le> td_seq db"
  by (auto simp: task_db_ok_def task_sql_get_def dest!: find_SomeD)

lemma only_row_seq: "only_row i db db' \<Longrightarrow> td_seq db' = td_seq db"
  by (simp add: only_row_def)

lemma others_kept_only: "only_row i db db' \<Longrightarrow> task_db_ok db \<Longrightarrow> others_kept i db db'"
  by (simp add: others_kept_def only_row_ok only_row_get only_row_seq)

lemma same_task_trans: "same_task a b \<Longrightarrow> same_task b c \<Longrightarrow> same_task a c"
  by (simp add: same_task_def)

lemma others_kept_trans: "others_kept i a b \<Longrightarrow> others_kept i b c \<Longrightarrow> others_kept i a c"
  by (clarsimp simp: others_kept_def) (metis same_task_trans)

text \<open>A follow-up task is a row above those of the table, so what its run does keeps them.\<close>

lemma others_kept_child:
  assumes "others_kept i a b" "td_seq a < n" "i \<noteq> n" "others_kept n b c" shows "others_kept i a c"
proof -
  have "task_sql_get i c = task_sql_get i b" if "task_sql_get i b = Some r" for r
    using assms that task_in_seq [of b i r] by (simp add: others_kept_def)
  with assms show ?thesis unfolding others_kept_def by force
qed

lemma no_new_rows: "only_row i db db' \<Longrightarrow> task_db_ok db \<Longrightarrow> new_settled env db db'"
  using task_in_seq [OF only_row_ok] by (fastforce simp: new_settled_def only_row_seq)

lemma settled_answer:
  assumes "task_db_ok (rs_db st')" "row_settled i (rs_db st')"
  shows "run_answer env i opts st (get_task_or what i (rs_db st')) st'"
proof -
  from assms(2) obtain r where r: "task_sql_get i (rs_db st') = Some r" "\<not> live_status (t_status r)"
    by (auto simp: row_settled_def)
  obtain s where s: "t_status r = status_as_str s"
    using assms(1) r(1) by (auto simp: task_db_ok_def task_sql_get_def dest!: find_SomeD)
  obtain t where t: "row_to_task r = Inr t" using row_to_task_ok s by blast
  have "t_status t = s" using t s by (auto simp: row_to_task_def split: sum.splits)
  moreover have "get_task i (rs_db st') = Inr (Some t)" using r t by (auto simp: get_task_Some)
  ultimately show ?thesis using r(2) s by (auto simp: run_answer_def get_task_or_def live_status_iff)
qed

lemma conclude_eq: "conclude env i st = (r, st') \<Longrightarrow> rs_db st' = rs_db st \<and> r = get_task_or ''task disappeared after finishing'' i (rs_db st')"
  by (auto simp: conclude_def Let_def)

lemma append_row_get:
  assumes "td_tasks db' = td_tasks db @ [r]" "t_id r = n" "n = next_task_id db"
  shows "task_sql_get j db' = (if j = n then Some r else task_sql_get j db)"
proof -
  have "task_sql_get n db = None"
    using next_task_id_fresh assms(3) by (fastforce simp: task_sql_get_def find_None_iff)
  moreover have "find (\<lambda>r. t_id r = n) xs = None \<Longrightarrow> find (\<lambda>r. t_id r = n) (xs @ [r]) = Some r" for xs
    using assms(2) by (induction xs) (auto split: if_splits)
  moreover have "j \<noteq> n \<Longrightarrow> find (\<lambda>r. t_id r = j) (xs @ [r]) = find (\<lambda>r. t_id r = j) xs" for xs
    using assms(2) by (induction xs) auto
  ultimately show ?thesis by (simp add: task_sql_get_def assms(1))
qed

text \<open>The parts of a run that hands over to a follow-up task.\<close>

lemma hop_rows:
  assumes f: "fail_over env i opts rl w st = (Some (n, nopts), st')" and ok: "task_db_ok (rs_db st)"
    and row: "row_settled i (rs_db st)"
  shows "others_kept i (rs_db st) (rs_db st')" "task_sql_get n (rs_db st') \<noteq> None" "row_settled i (rs_db st')"
    "n = td_seq (rs_db st) + 1" "td_seq (rs_db st') = n" "i \<noteq> n" "te_known env (op_agent nopts)"
    "\<exists>cs. te_chains env = Inr cs \<and> next_in (current_ref opts) cs = Some (current_ref nopts)"
proof -
  from f show "n = td_seq (rs_db st) + 1" "td_seq (rs_db st') = n" "te_known env (op_agent nopts)"
    "\<exists>cs. te_chains env = Inr cs \<and> next_in (current_ref opts) cs = Some (current_ref nopts)"
    using next_task_id_seq [OF ok] by (auto elim!: fail_over_cases)
  from f obtain r where r: "td_tasks (rs_db st') = td_tasks (rs_db st) @ [r]" "t_id r = n"
    and n: "n = next_task_id (rs_db st)" "td_seq (rs_db st') = n" "task_db_ok (rs_db st')"
    using ok by (auto elim!: fail_over_cases)
  note get = append_row_get [OF r n(1)]
  show "task_sql_get n (rs_db st') \<noteq> None" by (simp add: get)
  have i: "i \<le> td_seq (rs_db st)" using row task_in_seq [OF ok] by (auto simp: row_settled_def)
  with next_task_id_seq [OF ok] n(1) show "i \<noteq> n" by simp
  with row show "row_settled i (rs_db st')" by (simp add: row_settled_def get)
  show "others_kept i (rs_db st) (rs_db st')"
    using n next_task_id_seq [OF ok] get \<open>i \<noteq> n\<close> by (simp add: others_kept_def)
qed

lemma row_settled_kept: "others_kept n db db' \<Longrightarrow> i \<noteq> n \<Longrightarrow> i \<le> td_seq db \<Longrightarrow> row_settled i db \<Longrightarrow> row_settled i db'"
  by (simp add: others_kept_def row_settled_def)

definition run_spec ::
    "'w task_env \<Rightarrow> int \<Rightarrow> task_opts \<Rightarrow> run_state \<Rightarrow> task_record result \<Rightarrow> run_state \<Rightarrow> bool" where
  "run_spec env i opts st r st' \<longleftrightarrow> others_kept i (rs_db st) (rs_db st') \<and> new_settled env (rs_db st) (rs_db st') \<and>
     run_answer env i opts st r st'"

lemma concluded_spec:
  assumes "conclude env i st1 = (r, st2)" "others_kept i (rs_db st) (rs_db st1)" "new_settled env (rs_db st) (rs_db st1)"
    "row_settled i (rs_db st1)"
  shows "run_spec env i opts st r st2"
proof -
  note c = conclude_eq [OF assms(1)]
  have "task_db_ok (rs_db st2)" using c assms(2) by (simp add: others_kept_def)
  moreover have "row_settled i (rs_db st2)" using c assms(4) by simp
  ultimately have "run_answer env i opts st r st2" 
    using c settled_answer [where what = "''task disappeared after finishing''"] by metis
  with assms c show ?thesis by (simp add: run_spec_def)
qed

lemma task_execute_spec:
  assumes "task_execute env i opts st w = Some out" "task_db_ok (rs_db st)" "task_sql_get i (rs_db st) \<noteq> None"
  shows "run_spec env i opts st (fst out) (fst (snd out))"
  using assms
proof (induction rule: task_execute.raw_induct [rotated 1, consumes 1, case_names run])
  case (run exec env i opts st w out)
  from run.prems(2) obtain row where row: "task_sql_get i (rs_db st) = Some row" by blast
  note ok = run.prems(1)
  obtain x st1 w1 where x: "run_once env i opts st w = (x, st1, w1)" by (metis prod_cases3)
  from x row show ?case
  proof (cases rule: run_once_cases)
    case unknown
    with run.hyps x have "out = (Inl (''unknown agent: '' @ op_agent opts), st, w1)" by simp
    with unknown ok task_in_seq [OF ok] show ?thesis
      by (fastforce simp: run_spec_def others_kept_def new_settled_def run_answer_def)
  next
    case (early r)
    with run.hyps x have "out = (r, st1, w1)" by simp
    with early ok show ?thesis
      by (simp add: run_spec_def others_kept_only no_new_rows settled_answer only_row_ok)
  next
    case (stuck e)
    with run.hyps x have "out = (Inl e, st1, w1)" by simp
    with stuck ok show ?thesis
      by (simp add: run_spec_def others_kept_only no_new_rows run_answer_def)
  next
    case ended
    obtain r st2 where c: "conclude env i st1 = (r, st2)" by fastforce
    with run.hyps x ended have "out = (r, st2, w1)" by simp
    with concluded_spec [OF c others_kept_only no_new_rows] ended ok show ?thesis by simp
  next
    case (hop n nopts st0)
    have ok0: "task_db_ok (rs_db st0)" using only_row_ok [OF hop(2) ok] .
    from hop(4) obtain rl where rl: "fail_over env i opts rl w1 st0 = (Some (n, nopts), st1)" by blast
    note h = hop_rows [OF rl ok0 hop(3)]
    have ok1: "task_db_ok (rs_db st1)" using h(1) by (simp add: others_kept_def)
    have "Option.bind (exec env n nopts st1 w1) (\<lambda>(_, st, w). case conclude env i st of (r, st) \<Rightarrow> Some (r, st, w)) = Some out"
      using run.hyps x hop(1) by simp
    then obtain y where y: "exec env n nopts st1 w1 = Some y" "(case y of (_, st, w) \<Rightarrow> case conclude env i st of (r, st) \<Rightarrow> Some (r, st, w)) = Some out"
      by (cases "exec env n nopts st1 w1") (simp_all only: Option.bind.simps option.distinct)
    obtain r' st2 w2 where y': "y = (r', st2, w2)" by (metis prod_cases3)
    obtain r st3 where c: "conclude env i st2 = (r, st3)" by fastforce
    have rec: "exec env n nopts st1 w1 = Some (r', st2, w2)" and out: "out = (r, st3, w2)" using y y' c by simp_all
    from run.IH [OF rec ok1 h(2)] have child: "run_spec env n nopts st1 r' st2" by simp
    have kept: "others_kept i (rs_db st) (rs_db st1)"
      using others_kept_trans [OF others_kept_only [OF hop(2) ok] h(1)] .
    have seq: "td_seq (rs_db st0) = td_seq (rs_db st)" using only_row_seq [OF hop(2)] .
    have ch: "others_kept n (rs_db st1) (rs_db st2)" "new_settled env (rs_db st1) (rs_db st2)" "run_answer env n nopts st1 r' st2"
      using child by (simp_all add: run_spec_def)
    have all: "others_kept i (rs_db st) (rs_db st2)" by (rule others_kept_child [OF kept _ h(6) ch(1)]) (simp add: h(4) seq)
    have i: "i \<le> td_seq (rs_db st1)" using task_in_seq [OF ok row] kept by (simp add: others_kept_def)
    have set: "row_settled i (rs_db st2)" using row_settled_kept [OF ch(1) h(6) i h(3)] .
    have new: "new_settled env (rs_db st) (rs_db st2)"
      unfolding new_settled_def
    proof (intro allI impI)
      fix j r assume j: "td_seq (rs_db st) < j" "task_sql_get j (rs_db st2) = Some r" "live_status (t_status r)"
      show "\<exists>e. artifact_fails env j e"
      proof (cases "j = n")
        case False
        with j h(4,5) seq ch(2) show ?thesis by (simp add: new_settled_def)
      next
        case True
        from ch(3) True j(2,3) show ?thesis
          by (auto simp: run_answer_def get_task_Some h(7) row_to_task_def live_status_def split: sum.splits)
      qed
    qed
    from concluded_spec [OF c all new set] out c show ?thesis by simp
  qed
qed

lemma task_execute_hop:
  assumes "run_once env i opts st w = (Inr (Some (n, nopts)), st1, w1)" "task_execute env n nopts st1 w1 = Some (r', st2, w2)"
    "conclude env i st2 = (r, st3)"
  shows "task_execute env i opts st w = Some (r, st3, w2)"
  by (subst task_execute.simps) (simp add: assms)

text \<open>With no entry repeated within a chain the run returns, with at most \<open>entry_rank\<close> follow-up tasks.\<close>

lemma task_execute_returns_rank:
  assumes "\<And>cs. te_chains env = Inr cs \<Longrightarrow> (\<forall>c \<in> set cs. distinct c) \<and> entry_rank cs (current_ref opts) \<le> k"
    "task_db_ok (rs_db st)" "task_sql_get i (rs_db st) \<noteq> None"
  shows "\<exists>r st' w'. task_execute env i opts st w = Some (r, st', w') \<and> td_seq (rs_db st') \<le> td_seq (rs_db st) + int k"
  using assms
proof (induction k arbitrary: i opts st w rule: less_induct)
  case (less k)
  obtain x st1 w1 where x: "run_once env i opts st w = (x, st1, w1)" by (metis prod_cases3)
  from less.prems(3) obtain row where row: "task_sql_get i (rs_db st) = Some row" by blast
  have done1: ?case if "\<And>n nopts. x \<noteq> Inr (Some (n, nopts))" "td_seq (rs_db st1) = td_seq (rs_db st)"
  proof (cases x)
    case (Inl r)
    then show ?thesis using x that by (subst task_execute.simps) simp
  next
    case (Inr o')
    with that(1) have o: "x = Inr None" by (metis not_None_eq surj_pair)
    obtain r st2 where c: "conclude env i st1 = (r, st2)" by fastforce
    from conclude_eq [OF c] show ?thesis using x o c that(2) by (subst task_execute.simps) simp
  qed
  from x row show ?case
  proof (cases rule: run_once_cases)
    case (hop n nopts st0)
    have ok0: "task_db_ok (rs_db st0)" using only_row_ok [OF hop(2) less.prems(2)] .
    from hop(4) obtain rl where rl: "fail_over env i opts rl w1 st0 = (Some (n, nopts), st1)" by blast
    note h = hop_rows [OF rl ok0 hop(3)]
    from h(8) obtain cs where cs: "te_chains env = Inr cs" "next_in (current_ref opts) cs = Some (current_ref nopts)" by blast
    from less.prems(1) [OF cs(1)] have d: "\<forall>c \<in> set cs. distinct c" "entry_rank cs (current_ref opts) \<le> k" by auto
    from entry_rank_hop [OF d(1) cs(2)] d(2) have k: "entry_rank cs (current_ref nopts) < k" by simp
    have ok1: "task_db_ok (rs_db st1)" using h(1) by (simp add: others_kept_def)
    from less.IH [OF k _ ok1 h(2), where w = w1 and opts = nopts] d(1) cs(1) obtain r' st2 w2 where rec: "task_execute env n nopts st1 w1 = Some (r', st2, w2)"
      and seq: "td_seq (rs_db st2) \<le> td_seq (rs_db st1) + int (entry_rank cs (current_ref nopts))" by auto
    obtain r st3 where c: "conclude env i st2 = (r, st3)" by fastforce
    have "td_seq (rs_db st3) \<le> td_seq (rs_db st) + int k"
      using seq conclude_eq [OF c] h(4,5) only_row_seq [OF hop(2)] k by simp
    with task_execute_hop [OF x [unfolded hop(1)] rec c] show ?thesis by blast
  qed (use done1 only_row_seq in auto)
qed

text \<open>C18: a run returns, with no more follow-up tasks than the chains have entries, when no chain names an entry
  twice; so does it when the file of the chains cannot be read.\<close>

theorem task_execute_returns:
  assumes "\<And>cs. te_chains env = Inr cs \<Longrightarrow> (\<forall>c \<in> set cs. distinct c) \<and> length (concat cs) \<le> k"
    and "task_db_ok (rs_db st)" "task_sql_get i (rs_db st) \<noteq> None"
  shows "\<exists>r st' w'. task_execute env i opts st w = Some (r, st', w') \<and> td_seq (rs_db st') \<le> td_seq (rs_db st) + int k"
  using task_execute_returns_rank [OF _ assms(2,3), of env opts k w] assms(1) entry_rank_bound [of _ "current_ref opts"]
  by (meson order_trans)

text \<open>C17: a run changes its own row, whose prompt, agent and directory it keeps, and rows made during it, no
  other. It answers with its row, which has ended,
  or the agent was unknown, or an artifact could not be written; the tasks it made have ended too, unless
  their artifact could not be written.\<close>

theorem task_settles:
  assumes "task_execute env i opts st w = Some (r, st', w')"
    and "task_db_ok (rs_db st)" "task_sql_get i (rs_db st) \<noteq> None"
  shows "others_kept i (rs_db st) (rs_db st') \<and> new_settled env (rs_db st) (rs_db st') \<and>
    (case r of
       Inr t \<Rightarrow> get_task i (rs_db st') = Inr (Some t) \<and> t_status t \<in> {TsCompleted, TsFailed, TsCancelled}
     | Inl e \<Rightarrow> \<not> te_known env (op_agent opts) \<and> st' = st \<or>
         artifact_fails env i e \<and> row_status i (rs_db st') = Some ''running'')"
proof -
  have end_cases: "s \<in> {TsCompleted, TsFailed, TsCancelled} \<longleftrightarrow> s \<notin> {TsCreated, TsRunning}" for s
    by (cases s) auto
  from task_execute_spec [OF assms] show ?thesis
    unfolding run_spec_def run_answer_def end_cases by (simp split: sum.splits)
qed

text \<open>A file system that refuses every artifact, and a task that then stays running.\<close>

definition ascii_only :: unicode where
  "ascii_only = \<lparr>uc_alnum = (\<lambda>_. True), uc_lower = (\<lambda>cs i. cs ! i)\<rparr>"

definition demo_task_env :: "unit result \<Rightarrow> chain list \<Rightarrow> nat task_env" where
  "demo_task_env written cs = \<lparr>te_unicode = ascii_only, te_now = dec_nat, te_project = no_project, te_known = (\<lambda>_. True),
     te_detected = (\<lambda>_. True), te_real_required = (\<lambda>_. False), te_state_dir = ''/s'',
     te_worktree_add = (\<lambda>_ _ _. Inr ()), te_home = (\<lambda>a _. Inr (''/h/'' @ a)), te_docker_enabled = (\<lambda>_ _. Inr False),
     te_container_start = (\<lambda>_ _ _. Inr ()), te_mkdir = (\<lambda>_. Inr ()), te_write = (\<lambda>_. written),
     te_agent = (\<lambda>opts _ _ _ _ w. (if op_agent opts = ''codex''
       then Inr \<lparr>ro_success = True, ro_stdout = ''ok'', ro_stderr = '''', ro_exit_code = Some 0, ro_timed_out = False,
              ro_cancelled = False, ro_duration_ms = 1, ro_usage = None\<rparr>
       else Inl ''429'', Suc w)),
     te_pool = (\<lambda>_ _ _ w. (Inl ''no pool'', w)), te_hooks = Inr [], te_hook_json = (\<lambda>_. None), te_chains = Inr cs\<rparr>"

definition demo_run :: run_state where
  "demo_run = \<lparr>rs_db = snd (task_create ''t'' ''hi'' ''claude'' ''/tmp'' ''/tmp'' empty_task_db), rs_mem = \<lparr>mt_rows = [], mt_seq = 0\<rparr>,
     rs_notes = \<lparr>nt_rows = [], nt_seq = 0\<rparr>, rs_kg = \<lparr>kg_entities = [], kg_observations = [], kg_obs_seq = 0, kg_relations = [], kg_rel_seq = 0\<rparr>, rs_accounts = [], rs_files = [], rs_fired = []\<rparr>"

definition demo_opts :: "string \<Rightarrow> task_opts" where
  "demo_opts a = \<lparr>op_description = ''hi'', op_agent = a, op_cwd = ''/tmp'', op_use_worktree = False, op_account = None,
     op_real_home = False, op_no_memory_context = True, op_timeout = 60, op_allow_fallback = True, op_usage_json = False\<rparr>"

lemma demo_run_db: "task_db_ok (rs_db demo_run)" "\<exists>r. task_sql_get 1 (rs_db demo_run) = Some r"
proof -
  have db: "task_create ''t'' ''hi'' ''claude'' ''/tmp'' ''/tmp'' empty_task_db =
      (1, empty_task_db\<lparr>td_tasks := td_tasks (rs_db demo_run), td_seq := 1\<rparr>)"
    by (simp add: demo_run_def task_create_def empty_task_db_def next_task_id_def)
  show "\<exists>r. task_sql_get 1 (rs_db demo_run) = Some r"
    by (simp add: demo_run_def task_create_def empty_task_db_def next_task_id_def task_sql_get_def)
  have "''created'' \<in> range status_as_str" using range_eqI [of "''created''" status_as_str TsCreated] by simp
  then show "task_db_ok (rs_db demo_run)"
    by (simp add: demo_run_def task_create_def empty_task_db_def next_task_id_def task_db_ok_def)
qed

abbreviation two_chains :: "chain list" where
  "two_chains \<equiv> [[\<lparr>ar_agent = ''claude'', ar_account = None\<rparr>, \<lparr>ar_agent = ''codex'', ar_account = None\<rparr>]]"

theorem task_execute_returns_witness:
  "\<exists>r st' w'. task_execute (demo_task_env (Inr ()) two_chains) 1 (demo_opts ''claude'') demo_run 5 = Some (r, st', w') \<and>
     td_seq (rs_db st') \<le> td_seq (rs_db demo_run) + int 2"
  by (rule task_execute_returns) (use demo_run_db in \<open>auto simp: demo_task_env_def\<close>)

text \<open>A run of the demo that fails over and ends well.\<close>

lemma demo_prepare:
  assumes "task_sql_get i (rs_db st) = Some row"
  shows "\<exists>st'. prepare (demo_task_env x cs) i (demo_opts a) w st = (Inr \<lparr>la_cwd = ''/tmp'', la_project = None,
     la_prompt = ''hi'', la_home = Some (''/h/'' @ a), la_container = None\<rparr>, st') \<and> (\<exists>r. task_sql_get i (rs_db st') = Some r)"
  using assms
  by (simp add: prepare_def demo_task_env_def demo_opts_def choose_cwd_def choose_home_def choose_container_def make_prompt_def
      start_run_def Let_def no_project_def task_set_status_def tasks.get_upd)

theorem task_settles_witness:
  "\<exists>t st' w'. task_execute (demo_task_env (Inr ()) []) 1 (demo_opts ''codex'') demo_run 5 = Some (Inr t, st', w') \<and>
     t_status t \<in> {TsCompleted, TsFailed, TsCancelled}"
proof -
  let ?env = "demo_task_env (Inr ()) []"
  obtain r st' w' where e: "task_execute ?env 1 (demo_opts ''codex'') demo_run 5 = Some (r, st', w')"
    using task_execute_returns_rank [of ?env "demo_opts ''codex''" 0 demo_run 1 5] demo_run_db
    by (fastforce simp: demo_task_env_def entry_rank_def)
  from demo_run_db have g: "task_sql_get 1 (rs_db demo_run) \<noteq> None" by simp
  have "\<not> artifact_fails ?env 1 x" "te_known ?env (op_agent (demo_opts ''codex''))" for x
    by (simp_all add: artifact_fails_def demo_task_env_def)
  with task_settles [OF e demo_run_db(1) g] e show ?thesis by (cases r) auto
qed

text \<open>C20: an artifact that cannot be written (a full disk) ends the run with an error although the agent came back:
  the task of a background run stays running with no thread behind it, until the next start of the daemon.\<close>

theorem write_failure_leaves_running:
  assumes "task_sql_get i (rs_db st) \<noteq> None" "prepare env i opts w st = (Inr la, st1)"
    and "launch_agent env opts la w = (Inr ro, w1)" "te_write env (task_artifact_path env i) = Inl e"
  shows "background_thread env i opts st rg w = Some (st1, unregister i rg, w1) \<and>
    row_status i (rs_db st1) = Some ''running'' \<and> \<not> fst (cancel i (unregister i rg))"
proof -
  from assms(1) obtain row where row: "task_sql_get i (rs_db st) = Some row" by blast
  have "run_once env i opts st w = (Inl (Inl e), st1, w1)"
    using assms by (simp add: run_once_def settle_run_def Let_def)
  then have "task_execute env i opts st w = Some (Inl e, st1, w1)" by (subst task_execute.simps) simp
  moreover from assms(2) row have "row_status i (rs_db st1) = Some ''running''"
    by (cases rule: prepare_cases) (auto simp: row_status_def)
  ultimately show ?thesis by (simp add: background_thread_def cancel_def unregister_def)
qed

theorem write_failure_leaves_running_witness:
  "\<exists>st1 rg1. background_thread (demo_task_env (Inl ''no space left'') []) 1 (demo_opts ''codex'') demo_run
     \<lparr>rg_flags = [1 \<mapsto> 0], rg_heap = [False]\<rparr> 5 = Some (st1, rg1, 6) \<and> row_status 1 (rs_db st1) = Some ''running''"
proof -
  let ?env = "demo_task_env (Inl ''no space left'') []"
  from demo_run_db(2) demo_prepare obtain st1 where p: "prepare ?env 1 (demo_opts ''codex'') 5 demo_run =
    (Inr \<lparr>la_cwd = ''/tmp'', la_project = None, la_prompt = ''hi'', la_home = Some (''/h/'' @ ''codex''), la_container = None\<rparr>, st1)"
    by blast
  have g: "task_sql_get 1 (rs_db demo_run) \<noteq> None" using demo_run_db(2) by auto
  have l: "\<exists>ro. launch_agent ?env (demo_opts ''codex'') \<lparr>la_cwd = ''/tmp'', la_project = None, la_prompt = ''hi'',
      la_home = Some (''/h/'' @ ''codex''), la_container = None\<rparr> 5 = (Inr ro, 6)"
    by (simp add: launch_agent_def demo_task_env_def demo_opts_def)
  then show ?thesis
    using write_failure_leaves_running [OF g p, of _ 6 "''no space left''"] by (fastforce simp: demo_task_env_def)
qed

section \<open>What the scheduler relies on\<close>

text \<open>The columns of a task that the scheduler reads.\<close>

definition task_view :: "task_sql \<Rightarrow> task_row" where
  "task_view r = \<lparr>tk_id = t_id r, tk_agent = t_agent r, tk_status = t_status r, tk_rate_limited = t_rate_limited r,
     tk_artifact = t_artifact_path r, tk_updated_at = t_updated_at r\<rparr>"

lemma get_task_id: "get_task i db = Inr (Some t) \<Longrightarrow> t_id t = i"
proof -
  assume "get_task i db = Inr (Some t)"
  then obtain r where r: "task_sql_get i db = Some r" "row_to_task r = Inr t" by (auto simp: get_task_Some)
  then have "t_id t = t_id r" by (cases "parse_status (t_status r)") (auto simp: row_to_task_def)
  moreover have "t_id r = i" using r(1) by (auto simp: task_sql_get_def dest: find_SomeD)
  ultimately show "t_id t = i" by simp
qed

lemma map_task_view_upd:
  "(\<And>r. task_view (f r) = g (task_view r)) \<Longrightarrow>
   map task_view (update_where (\<lambda>r. t_id r = i) f rs) = update_where (\<lambda>k. tk_id k = i) g (map task_view rs)"
  by (simp add: update_where_def task_view_def)

text \<open>C19: on the columns the scheduler reads, \<open>run_background\<close> is the dispatcher its decisions are proved with: the
  same answer and the same rows. It starts a thread exactly when it answers a task, and the thread's
  cancel flag is the one registered for that task.\<close>

theorem run_background_refines:
  assumes "run_background env opts st rg w = (r, thread, st', rg')" "task_db_ok (rs_db st)"
  shows "real_dispatch (te_known env) (te_detected env) (te_now env w) (td_seq (rs_db st)) opts
      (map task_view (td_tasks (rs_db st))) =
      (case r of Inl e \<Rightarrow> Inl e | Inr t \<Rightarrow> Inr (t_id t), map task_view (td_tasks (rs_db st'))) \<and>
    thread = (case r of Inl e \<Rightarrow> None | Inr t \<Rightarrow> Some (t_id t, length (rg_heap rg)))"
proof (cases "te_known env (op_agent opts) \<and> (op_agent opts = ''single-pool'' \<or> te_detected env (op_agent opts))")
  case False
  with assms(1) show ?thesis
    by (auto simp: run_background_def real_dispatch_def not_installed_def)
next
  case True
  obtain i db where c: "create_for_cwd (te_project env) (te_now env w) (op_description opts) (op_agent opts) (op_cwd opts) (rs_db st) = (i, db)"
    by fastforce
  define ts where "ts = te_now env w"
  define ev where "ev = task_no i @ '' agent='' @ op_agent opts @ '' '' @ [CHR 0x22] @ op_description opts @ [CHR 0x22] @ '' (background)''"
  define db2 where "db2 = task_set_status ts i TsRunning (record_event ts ''task.created'' ev db)"
  from assms(1) True c have r: "r = get_task_or ''task disappeared after being created'' i db2" "thread = Some (i, length (rg_heap rg))"
    "rs_db st' = db2"
    by (auto simp: run_background_def Let_def db2_def ts_def ev_def register_def)
  from create_for_cwd_row [OF c] obtain x where x: "td_tasks db = td_tasks (rs_db st) @ [x]" "t_id x = i" "i = next_task_id (rs_db st)"
    "task_view x = \<lparr>tk_id = i, tk_agent = op_agent opts, tk_status = ''created'', tk_rate_limited = 0, tk_artifact = None, tk_updated_at = ts\<rparr>"
    by (auto simp: task_view_def ts_def)
  have rows: "map task_view (td_tasks db2) = update_where (\<lambda>k. tk_id k = i) (\<lambda>k. k\<lparr>tk_status := ''running'', tk_updated_at := ts\<rparr>)
      (map task_view (td_tasks (rs_db st)) @ [task_view x])"
    unfolding db2_def task_set_status_def task_sql_upd_def
    by (simp add: map_task_view_upd [where g = "\<lambda>k. k\<lparr>tk_status := ''running'', tk_updated_at := ts\<rparr>"] task_view_def x(1))
  have "tk_id \<circ> task_view = t_id" by (rule ext) (simp add: task_view_def)
  then have id: "foldr max (map (tk_id \<circ> task_view) (td_tasks (rs_db st))) (td_seq (rs_db st)) + 1 = i"
    by (simp only: x(3) next_task_id_def)
  have d: "real_dispatch (te_known env) (te_detected env) ts (td_seq (rs_db st)) opts (map task_view (td_tasks (rs_db st))) =
      (Inr i, map task_view (td_tasks db2))"
    using True by (simp add: real_dispatch_def Let_def id x(4) rows)
  have ok: "task_db_ok db2"
    using create_for_cwd_ok [OF assms(2) c] only_row_ok [OF only_row_status] by (simp add: db2_def)
  have "task_sql_get i db2 \<noteq> None"
    unfolding db2_def task_set_status_def using append_row_get [OF x(1-3), of i] by (simp add: tasks.get_upd)
  with get_task_ok [OF ok, of i] obtain t where t: "get_task i db2 = Inr (Some t)"
    by (auto simp: get_task_def split: option.splits sum.splits)
  then have "t_id t = i" by (rule get_task_id)
  moreover have "r = Inr t" using r(1) t by (simp add: get_task_or_Inr)
  ultimately show ?thesis using d r(2,3) by (simp add: ts_def)
qed

theorem run_background_refines_witness:
  "\<exists>r thread st' rg'. run_background (demo_task_env (Inr ()) []) (demo_opts ''codex'') demo_run \<lparr>rg_flags = Map.empty, rg_heap = []\<rparr> 5 =
       (r, thread, st', rg') \<and>
     real_dispatch (\<lambda>_. True) (\<lambda>_. True) (dec_nat 5) 1 (demo_opts ''codex'') (map task_view (td_tasks (rs_db demo_run))) =
       (case r of Inl e \<Rightarrow> Inl e | Inr t \<Rightarrow> Inr (t_id t), map task_view (td_tasks (rs_db st')))"
proof -
  let ?env = "demo_task_env (Inr ()) []"
  obtain r thread st' rg' where b: "run_background ?env (demo_opts ''codex'') demo_run \<lparr>rg_flags = Map.empty, rg_heap = []\<rparr> 5 =
    (r, thread, st', rg')" by (metis prod_cases4)
  have "te_known ?env = (\<lambda>_. True)" "te_detected ?env = (\<lambda>_. True)" "te_now ?env 5 = dec_nat 5" "td_seq (rs_db demo_run) = 1"
    by (simp_all add: demo_task_env_def demo_run_def task_create_def empty_task_db_def next_task_id_def)
  with run_background_refines [OF b demo_run_db(1)] b show ?thesis by auto
qed

section \<open>The context in front of the prompt\<close>

lemma char_count_append [simp]: "char_count (a @ b) = char_count a + char_count b"
  by (simp add: char_count_def)

lemma take_chars_append:
  "n \<le> char_count a \<Longrightarrow> b = [] \<or> \<not> is_cont_byte (hd b) \<Longrightarrow> take_chars n (a @ b) = take_chars n a"
proof (induction n a rule: take_chars.induct)
  case (1 n)
  then show ?case by (cases b) (auto simp: char_count_def)
next
  case (2 n c s)
  then show ?case by (cases n) (auto simp: char_count_def)
qed

lemma truncate_text_bound: "char_count (truncate_text s k) \<le> k + 18"
proof -
  have "char_count (newline @ ''[...truncated...]'') = 18" by code_simp
  then show ?thesis using char_count_take_chars [of k s] by (simp add: truncate_text_def)
qed

lemma inbox_empty:
  "(\<And>m. m \<in> set (nt_rows t) \<Longrightarrow>
     an_read_at m \<noteq> None \<or> an_project m \<noteq> p \<or> \<not> (an_to_agent m = Some a \<or> an_to_agent m = None)) \<Longrightarrow>
   inbox p a True t = []"
  unfolding inbox_def order_desc_def by (subst filter_False) auto

lemma inbox_after_mark_all: "inbox p a True (mark_all ts (inbox p a True t) t) = []"
proof -
  have "an_read_at m \<noteq> None \<or> an_project m \<noteq> p \<or> \<not> (an_to_agent m = Some a \<or> an_to_agent m = None)"
    if m: "m \<in> set (nt_rows (mark_all ts (inbox p a True t) t))" for m
  proof (cases "an_id m \<in> an_id ` set (inbox p a True t)")
    case True
    from marked_read [OF True m refl] show ?thesis by simp
  next
    case False
    from m obtain k where k: "k \<in> set (nt_rows t)"
      "m = (if an_id k \<in> an_id ` set (inbox p a True t) \<and> an_read_at k = None then k\<lparr>an_read_at := Some ts\<rparr> else k)"
      by (auto simp: mark_all_rows)
    with False have "m = k" by (auto split: if_splits)
    with False k(1) show ?thesis by (force simp: inbox_def)
  qed
  then show ?thesis by (intro inbox_empty) blast
qed

text \<open>C21: whatever is remembered, the prompt is the description or the description behind at most 4000 characters
  of context and a mark that it was cut; the tables of tasks are not written, and the agent's unread
  inbox of the project is empty afterwards.\<close>

theorem preamble_bounded:
  "case build_context_preamble env ts d a p st of (prompt, st') \<Rightarrow>
     (prompt = d \<or> (\<exists>context. prompt = context @ ''Task: '' @ d \<and> char_count context \<le> MAX_CONTEXT_CHARS + 18)) \<and>
     rs_db st' = rs_db st \<and> inbox p a True (rs_notes st') = []"
proof -
  have inbox: "inbox p a True (rs_notes (snd (build_context_preamble env ts d a p st))) = []"
    by (simp add: build_context_preamble_def Let_def case_prod_beta inbox_after_mark_all)
  have "fst (build_context_preamble env ts d a p st) = d \<or>
      (\<exists>s. fst (build_context_preamble env ts d a p st) = truncate_text s MAX_CONTEXT_CHARS @ ''Task: '' @ d)"
    by (auto simp: build_context_preamble_def Let_def case_prod_beta)
  with truncate_text_bound have "fst (build_context_preamble env ts d a p st) = d \<or>
      (\<exists>context. fst (build_context_preamble env ts d a p st) = context @ ''Task: '' @ d \<and>
         char_count context \<le> MAX_CONTEXT_CHARS + 18)" by blast
  with inbox show ?thesis by (simp add: case_prod_beta)
qed

text \<open>A note that the cut leaves out is marked read all the same: the prompt does not depend on it, and no
  later prompt shows it.\<close>

theorem notes_cut_but_read:
  assumes "significant_keywords (te_unicode env) d = []" "inbox p a True (rs_notes st) = ns @ [n]"
    and "MAX_CONTEXT_CHARS \<le> char_count (''--- Notes left by other agents ---'' @ newline @ note_lines ns)"
  shows "fst (build_context_preamble env ts d a p st) =
      take_chars MAX_CONTEXT_CHARS (''--- Notes left by other agents ---'' @ newline @ note_lines ns) @ newline @
        ''[...truncated...]'' @ ''Task: '' @ d \<and>
    inbox p a True (rs_notes (snd (build_context_preamble env ts d a p st))) = []"
proof -
  define head where "head = ''--- Notes left by other agents ---'' @ newline @ note_lines ns"
  obtain rest where rest: "notes_section (ns @ [n]) = head @ rest" "\<not> is_cont_byte (hd rest)" "char_count rest > 0"
    by (simp add: head_def notes_section_def note_lines_def char_count_def is_cont_byte_def)
  have h: "MAX_CONTEXT_CHARS \<le> char_count head" using assms(3) by (simp only: head_def)
  have "fst (build_context_preamble env ts d a p st) = truncate_text (head @ rest) MAX_CONTEXT_CHARS @ ''Task: '' @ d"
    using assms(1,2) rest(1,3)
    by (simp add: build_context_preamble_def Let_def memory_section_def kg_section_def order_desc_def char_count_def)
      (auto simp: notes_section_def)
  moreover have "truncate_text (head @ rest) MAX_CONTEXT_CHARS = take_chars MAX_CONTEXT_CHARS head @ newline @ ''[...truncated...]''"
    using h rest(3) take_chars_append [OF h, of rest] rest(2) by (simp only: truncate_text_def) simp
  moreover have "inbox p a True (rs_notes (snd (build_context_preamble env ts d a p st))) = []"
    by (simp add: build_context_preamble_def Let_def case_prod_beta inbox_after_mark_all)
  ultimately show ?thesis unfolding head_def by (simp only: append_assoc)
qed

end
