(* ===== verification/OrchGraph.thy ===== *)
theory OrchGraph
  imports TaskRun
begin

text \<open>
  Running a dependency graph of tasks, \<open>crates/single-runtime/src/orchestrate_graph.rs\<close>: the validation of the
  graph, the waves of ready nodes, the conditions that skip a node, and the plan that an agent writes. The
  threads of a wave are the field \<open>ge_wave\<close>: what the tasks they run come back with, in the order of the
  nodes, a panic of a thread included; \<open>one_by_one\<close> is the schedule that runs them in turn.
\<close>

section \<open>Graphs\<close>

datatype run_condition = RcAlways | RcOnSuccess | RcOnFailure

record graph_node =
  gn_id :: string
  gn_agent :: string
  gn_description :: string
  gn_depends_on :: "string list"
  gn_run_if :: run_condition

definition find_gn :: "graph_node list \<Rightarrow> string \<Rightarrow> graph_node option" where
  "find_gn nodes i = find (\<lambda>n. gn_id n = i) nodes"

text \<open>\<open>visit\<close> for each id of a list: \<open>visited\<close> is passed on, the stack is the path from the root. A missing
  id panics, as the index into the map does.\<close>

definition cycle_text :: "string list \<Rightarrow> string \<Rightarrow> string" where
  "cycle_text stack i = ''task graph contains cycle: '' @ str_join '' -> '' (dropWhile (\<lambda>e. e \<noteq> i) stack @ [i])"

function visit_all :: "graph_node list \<Rightarrow> string list \<Rightarrow> string list \<Rightarrow> string set \<Rightarrow> string set result outcome" where
  "visit_all nodes stack [] visited = Ret (Inr visited)"
| "visit_all nodes stack (i # is) visited =
     (if i \<in> set stack then Ret (Inl (cycle_text stack i))
      else if i \<in> visited then visit_all nodes stack is visited
      else case find_gn nodes i of
        None \<Rightarrow> Panic
      | Some n \<Rightarrow>
          (case visit_all nodes (stack @ [i]) (gn_depends_on n) (insert i visited) of
             Ret (Inr visited) \<Rightarrow> visit_all nodes stack is visited
           | r \<Rightarrow> r))"
  by pat_completeness auto
termination
proof (relation "inv_image (less_than <*lex*> less_than)
    (\<lambda>(nodes, stack, is, visited). (card (gn_id ` set nodes - set stack), length is))", goal_cases)
  case (3 nodes stack i "is" visited n)
  then have "i \<in> gn_id ` set nodes - set stack" by (auto simp: find_gn_def dest: find_SomeD)
  then have "card (gn_id ` set nodes - set (stack @ [i])) < card (gn_id ` set nodes - set stack)"
    by (intro psubset_card_mono) auto
  then show ?case by simp
qed auto

fun unknown_dep :: "string list \<Rightarrow> graph_node list \<Rightarrow> (string \<times> string) option" where
  "unknown_dep ids [] = None"
| "unknown_dep ids (n # ns) =
     (case find (\<lambda>d. d \<notin> set ids) (gn_depends_on n) of
        Some d \<Rightarrow> Some (gn_id n, d)
      | None \<Rightarrow> unknown_dep ids ns)"

definition graph_validate :: "graph_node list \<Rightarrow> unit result outcome" where
  "graph_validate nodes =
     (if nodes = [] then Ret (Inl ''orchestrate-graph needs at least one --task'')
      else
        (let ids = map gn_id nodes
         in if \<not> distinct ids \<or> [] \<in> set ids then Ret (Inl ''graph node IDs must be non-empty and unique'')
            else case unknown_dep ids nodes of
              Some (i, d) \<Rightarrow> Ret (Inl (''graph node '' @ [CHR 0x27] @ i @ [CHR 0x27] @ '' depends on unknown node '' @
                                 [CHR 0x27] @ d @ [CHR 0x27]))
            | None \<Rightarrow>
                (case visit_all nodes [] ids {} of
                   Panic \<Rightarrow> Panic
                 | Ret (Inl e) \<Rightarrow> Ret (Inl e)
                 | Ret (Inr _) \<Rightarrow> Ret (Inr ()))))"

section \<open>Running a graph\<close>

record 'w graph_env =
  ge_task :: "'w task_env"
  ge_wave :: "task_opts list \<Rightarrow> run_state \<Rightarrow> 'w \<Rightarrow> task_record result outcome list \<times> run_state \<times> 'w"

record graph_opts =
  go_cwd :: string
  go_real_home :: bool
  go_timeout :: nat

definition ready_nodes :: "graph_node list \<Rightarrow> (string \<rightharpoonup> task_record) \<Rightarrow> graph_node list" where
  "ready_nodes remaining completed = filter (\<lambda>n. list_all (\<lambda>d. d \<in> dom completed) (gn_depends_on n)) remaining"

definition should_run :: "run_condition \<Rightarrow> task_status list \<Rightarrow> bool" where
  "should_run c statuses =
     (case c of
        RcAlways \<Rightarrow> True
      | RcOnSuccess \<Rightarrow> list_all (\<lambda>s. s = TsCompleted) statuses
      | RcOnFailure \<Rightarrow> TsFailed \<in> set statuses)"

definition dep_statuses :: "(string \<rightharpoonup> task_record) \<Rightarrow> graph_node \<Rightarrow> task_status list" where
  "dep_statuses completed n = map (\<lambda>d. t_status (the (completed d))) (gn_depends_on n)"

definition skip_summary :: "run_condition \<Rightarrow> string" where
  "skip_summary c = ''Skipped because run_if requires '' @
     (case c of
        RcOnFailure \<Rightarrow> ''at least one dependency to fail''
      | _ \<Rightarrow> ''all dependencies to succeed'') @
     ''; this was not a user-requested cancellation.''"

definition skip_node ::
    "'w graph_env \<Rightarrow> graph_opts \<Rightarrow> graph_node \<Rightarrow> 'w \<Rightarrow> run_state \<Rightarrow> task_record result \<times> run_state" where
  "skip_node env opts n w st =
     (case record_conditionally_skipped (te_project (ge_task env)) (te_now (ge_task env) w) (gn_description n) (gn_agent n)
             (go_cwd opts) (skip_summary (gn_run_if n)) (rs_db st) of
        (Inl e, db) \<Rightarrow> (Inl e, st\<lparr>rs_db := db\<rparr>)
      | (Inr t, db) \<Rightarrow>
          (Inr t, st\<lparr>rs_db := db, rs_fired := rs_fired st @
             fire (te_hook_json (ge_task env)) (te_hooks (ge_task env)) ((hook_payload t)\<lparr>hp_status := ''cancelled''\<rparr>)\<rparr>))"

text \<open>The sequential part of a wave: which ready nodes run, and the records of the others.\<close>

fun triage ::
    "'w graph_env \<Rightarrow> graph_opts \<Rightarrow> graph_node list \<Rightarrow> 'w \<Rightarrow> graph_node list \<Rightarrow> (string \<rightharpoonup> task_record) \<Rightarrow> run_state \<Rightarrow>
     (graph_node list \<times> (string \<rightharpoonup> task_record)) result \<times> run_state" where
  "triage env opts [] w runnable completed st = (Inr (runnable, completed), st)"
| "triage env opts (n # ns) w runnable completed st =
     (if should_run (gn_run_if n) (dep_statuses completed n) then triage env opts ns w (runnable @ [n]) completed st
      else case skip_node env opts n w st of
        (Inl e, st) \<Rightarrow> (Inl e, st)
      | (Inr t, st) \<Rightarrow> triage env opts ns w runnable (completed(gn_id n \<mapsto> t)) st)"

definition node_opts :: "graph_opts \<Rightarrow> graph_node \<Rightarrow> task_opts" where
  "node_opts opts n =
     \<lparr>op_description = gn_description n, op_agent = gn_agent n, op_cwd = go_cwd opts, op_use_worktree = True,
      op_account = None, op_real_home = go_real_home opts, op_no_memory_context = False, op_timeout = go_timeout opts,
      op_allow_fallback = False, op_usage_json = False\<rparr>"

text \<open>Joining the threads in order: the first failure is returned.\<close>

fun join_wave ::
    "graph_node list \<Rightarrow> task_record result outcome list \<Rightarrow> (string \<rightharpoonup> task_record) \<Rightarrow> (string \<rightharpoonup> task_record) result" where
  "join_wave (n # ns) (Ret (Inr t) # rs) completed = join_wave ns rs (completed(gn_id n \<mapsto> t))"
| "join_wave (n # ns) (Ret (Inl e) # rs) completed = Inl e"
| "join_wave (n # ns) (Panic # rs) completed = Inl ''task graph worker thread panicked''"
| "join_wave _ _ completed = Inr completed"

function run_waves ::
    "'w graph_env \<Rightarrow> graph_opts \<Rightarrow> graph_node list \<Rightarrow> (string \<rightharpoonup> task_record) \<Rightarrow> run_state \<Rightarrow> 'w \<Rightarrow>
     (string \<rightharpoonup> task_record) result \<times> run_state \<times> 'w" where
  "run_waves env opts remaining completed st w =
     (if remaining = [] then (Inr completed, st, w)
      else
        (let ready = ready_nodes remaining completed
         in if ready = [] then (Inl ''task graph has no runnable nodes'', st, w)
            else case triage env opts ready w [] completed st of
              (Inl e, st) \<Rightarrow> (Inl e, st, w)
            | (Inr (runnable, completed), st) \<Rightarrow>
                (case ge_wave env (map (node_opts opts) runnable) st w of
                   (results, st, w) \<Rightarrow>
                     (case join_wave runnable results completed of
                        Inl e \<Rightarrow> (Inl e, st, w)
                      | Inr completed \<Rightarrow>
                          run_waves env opts (filter (\<lambda>n. gn_id n \<notin> gn_id ` set ready) remaining) completed st w))))"
  by pat_completeness auto
termination
proof (relation "measure (\<lambda>(env, opts, remaining, completed, st, w). length remaining)", goal_cases)
  case (2 env opts remaining completed st w ready)
  then have r: "ready \<noteq> []" "ready = ready_nodes remaining completed" by simp_all
  then have n: "hd ready \<in> set ready" by simp
  with r have "hd ready \<in> set remaining" by (auto simp: ready_nodes_def)
  with n have "length (filter (\<lambda>n. gn_id n \<notin> gn_id ` set ready) remaining) < length remaining"
    by (intro length_filter_less) auto
  then show ?case by simp
qed simp

text \<open>The answer: the records in the order of the nodes, each taken out of the map.\<close>

fun take_records :: "graph_node list \<Rightarrow> (string \<rightharpoonup> task_record) \<Rightarrow> task_record list outcome" where
  "take_records [] completed = Ret []"
| "take_records (n # ns) completed =
     (case completed (gn_id n) of
        None \<Rightarrow> Panic
      | Some t \<Rightarrow> (case take_records ns (completed(gn_id n := None)) of
                     Ret ts \<Rightarrow> Ret (t # ts)
                   | Panic \<Rightarrow> Panic))"

definition graph_run ::
    "'w graph_env \<Rightarrow> graph_opts \<Rightarrow> graph_node list \<Rightarrow> run_state \<Rightarrow> 'w \<Rightarrow> task_record list result outcome \<times> run_state \<times> 'w" where
  "graph_run env opts nodes st w =
     (case graph_validate nodes of
        Panic \<Rightarrow> (Panic, st, w)
      | Ret (Inl e) \<Rightarrow> (Ret (Inl e), st, w)
      | Ret (Inr _) \<Rightarrow>
          (if pj_repo_root (te_project (ge_task env)) (go_cwd opts) = None
           then (Ret (Inl ''not a git repository; orchestrate-graph requires one (each agent needs its own worktree)''), st, w)
           else case run_waves env opts (sort_key gn_id nodes) Map.empty st w of
             (Inl e, st, w) \<Rightarrow> (Ret (Inl e), st, w)
           | (Inr completed, st, w) \<Rightarrow>
               (case take_records nodes completed of
                  Panic \<Rightarrow> (Panic, st, w)
                | Ret ts \<Rightarrow> (Ret (Inr ts), st, w))))"

section \<open>The plan of an agent\<close>

text \<open>The first balanced array that parses; \<open>from_str\<close> is the derived JSON decoder of the node list.\<close>

fun extract_nodes :: "(string \<Rightarrow> graph_node list option) \<Rightarrow> string \<Rightarrow> graph_node list result" where
  "extract_nodes from_str [] = Inl ''planning agent output did not contain a valid TaskGraphNode JSON array''"
| "extract_nodes from_str (c # cs) =
     (if c \<noteq> CHR ''['' then extract_nodes from_str cs
      else case span_end (CHR ''['') (CHR '']'') 0 0 False False (c # cs) of
        None \<Rightarrow> extract_nodes from_str cs
      | Some offset \<Rightarrow>
          (case from_str (take (offset + 1) (c # cs)) of
             Some nodes \<Rightarrow> Inr nodes
           | None \<Rightarrow> extract_nodes from_str cs))"

datatype orchestrator_mode = OmFixed | OmAuto | OmDelegate

fun mode_debug :: "orchestrator_mode \<Rightarrow> string" where
  "mode_debug OmFixed = ''Fixed''"
| "mode_debug OmAuto = ''Auto''"
| "mode_debug OmDelegate = ''Delegate''"

definition installed_agents :: "'w task_env \<Rightarrow> string list \<Rightarrow> string list" where
  "installed_agents env registry =
     (let installed = filter (\<lambda>a. te_known env a \<and> te_detected env a) registry
      in if ''claude'' \<in> set installed then ''claude'' # remove1 ''claude'' installed else installed)"

definition plan_prompt :: "string \<Rightarrow> string \<Rightarrow> string list \<Rightarrow> string" where
  "plan_prompt goal planner workers =
     ''Split this goal into a dependency graph for the available worker agents: '' @ goal @ newline @ newline @
     ''Planning agent: '' @ planner @ ''. Worker agents (do not assign work to the planning agent): '' @
     str_join '', '' workers @ newline @
     ''Return only a JSON array of TaskGraphNode objects. Each object must have id, agent, description, depends_on (array of IDs), and run_if (always, on_success, or on_failure).''"

definition foreign_node :: "string \<Rightarrow> string list \<Rightarrow> graph_node list \<Rightarrow> graph_node option" where
  "foreign_node planner workers = find (\<lambda>n. gn_agent n = planner \<or> gn_agent n \<notin> set workers)"

text \<open>Asking an agent for the plan, up to the run of the graph: the nodes, or the error. \<open>read_file\<close> reads an
  artifact back.\<close>

definition plan_nodes ::
    "'w task_env \<Rightarrow> (string \<Rightarrow> string option) \<Rightarrow> (string \<Rightarrow> graph_node list option) \<Rightarrow> string list \<Rightarrow>
     orchestrator_mode \<Rightarrow> string \<Rightarrow> string list \<Rightarrow> graph_opts \<Rightarrow> run_state \<Rightarrow> 'w \<Rightarrow>
     (graph_node list result \<times> run_state \<times> 'w) option" where
  "plan_nodes env read_file from_str registry mode goal named opts st w =
     (if mode = OmFixed then Some (Inl ''fixed orchestration requires explicit tasks'', st, w)
      else if named = [] \<and> mode = OmDelegate
      then Some (Inl (''--orchestrator '' @ mode_debug mode @ '' requires at least one --candidate-agent''), st, w)
      else
        (let pool = (if named = [] then installed_agents env registry else named)
         in case find (\<lambda>a. te_known env a \<and> te_detected env a) pool of
              None \<Rightarrow> Some (Inl ''none of the candidate agents are installed'', st, w)
            | Some planner \<Rightarrow>
                (let workers = filter (\<lambda>a. a \<noteq> planner) pool
                 in if workers = []
                    then Some (Inl (''planning needs a candidate agent other than the selected planner '' @ [CHR 0x27] @
                                planner @ [CHR 0x27]), st, w)
                    else case task_run env
                        \<lparr>op_description = plan_prompt goal planner workers, op_agent = planner, op_cwd = go_cwd opts,
                         op_use_worktree = False, op_account = None, op_real_home = go_real_home opts,
                         op_no_memory_context = True, op_timeout = go_timeout opts, op_allow_fallback = False,
                         op_usage_json = False\<rparr> st w of
                      None \<Rightarrow> None
                    | Some (Inl e, st, w) \<Rightarrow> Some (Inl e, st, w)
                    | Some (Inr planned, st, w) \<Rightarrow>
                        Some (if t_status planned \<noteq> TsCompleted
                              then Inl (''planning agent '' @ [CHR 0x27] @ planner @ [CHR 0x27] @
                                     '' did not complete successfully: '' @ unwrap_or (t_summary planned) '''')
                              else case Option.bind (t_artifact_path planned) read_file of
                                None \<Rightarrow> Inl ''planning agent produced no readable artifact''
                              | Some output \<Rightarrow>
                                  (case extract_nodes from_str output of
                                     Inl e \<Rightarrow> Inl e
                                   | Inr nodes \<Rightarrow>
                                       (case foreign_node planner workers nodes of
                                          Some n \<Rightarrow> Inl (''planner assigned node '' @ [CHR 0x27] @ gn_id n @ [CHR 0x27] @
                                            '' to '' @ [CHR 0x27] @ gn_agent n @ [CHR 0x27] @
                                            '', which is not an allowed worker agent'')
                                        | None \<Rightarrow> Inr nodes)), st, w))))"

definition plan_and_run ::
    "'w graph_env \<Rightarrow> (string \<Rightarrow> string option) \<Rightarrow> (string \<Rightarrow> graph_node list option) \<Rightarrow> string list \<Rightarrow>
     orchestrator_mode \<Rightarrow> string \<Rightarrow> string list \<Rightarrow> graph_opts \<Rightarrow> run_state \<Rightarrow> 'w \<Rightarrow>
     (task_record list result outcome \<times> run_state \<times> 'w) option" where
  "plan_and_run env read_file from_str registry mode goal named opts st w =
     (case plan_nodes (ge_task env) read_file from_str registry mode goal named opts st w of
        None \<Rightarrow> None
      | Some (Inl e, st, w) \<Rightarrow> Some (Ret (Inl e), st, w)
      | Some (Inr nodes, st, w) \<Rightarrow> Some (graph_run env opts nodes st w))"

section \<open>Validation\<close>

definition needs_rel :: "graph_node list \<Rightarrow> (string \<times> string) set" where
  "needs_rel nodes = {(d, i). \<exists>n. find_gn nodes i = Some n \<and> d \<in> set (gn_depends_on n)}"

definition deps_known :: "graph_node list \<Rightarrow> bool" where
  "deps_known nodes \<longleftrightarrow> (\<forall>n \<in> set nodes. set (gn_depends_on n) \<subseteq> gn_id ` set nodes)"

text \<open>A closed walk along dependencies: each entry depends on the next, the last is the first.\<close>

definition dep_cycle :: "graph_node list \<Rightarrow> string list \<Rightarrow> bool" where
  "dep_cycle nodes c \<longleftrightarrow> 2 \<le> length c \<and> hd c = last c \<and> successively (\<lambda>i d. (d, i) \<in> needs_rel nodes) c"

lemma find_gn_Some: "find_gn nodes i = Some n \<Longrightarrow> n \<in> set nodes \<and> gn_id n = i"
  by (auto simp: find_gn_def dest: find_SomeD)

lemma find_gn_ids: "i \<in> gn_id ` set nodes \<Longrightarrow> \<exists>n. find_gn nodes i = Some n"
  by (cases "find_gn nodes i") (auto simp: find_gn_def find_None_iff)

lemma visit_all_no_panic:
  "deps_known nodes \<Longrightarrow> set is \<subseteq> gn_id ` set nodes \<Longrightarrow> visit_all nodes stack is visited \<noteq> Panic"
proof (induction nodes stack "is" visited rule: visit_all.induct)
  case (2 nodes stack i "is" visited)
  from 2(5) obtain n where n: "find_gn nodes i = Some n" using find_gn_ids by fastforce
  then have "set (gn_depends_on n) \<subseteq> gn_id ` set nodes"
    using 2(4) find_gn_Some unfolding deps_known_def by blast
  with 2 n show ?case by (auto split: outcome.split sum.split)
qed simp

text \<open>What a search without an error has shown: everything reached is accessible along dependencies.\<close>

lemma visit_all_ok:
  "visit_all nodes stack is visited = Ret (Inr visited') \<Longrightarrow> visited - set stack \<subseteq> Wellfounded.acc (needs_rel nodes) \<Longrightarrow>
   visited \<subseteq> visited' \<and> visited' - set stack \<subseteq> Wellfounded.acc (needs_rel nodes) \<and> set is \<subseteq> visited' \<and> set is \<inter> set stack = {}"
proof (induction nodes stack "is" visited arbitrary: visited' rule: visit_all.induct)
  case (2 nodes stack i "is" visited)
  from 2(4) have i: "i \<notin> set stack" by (auto split: if_splits)
  show ?case
  proof (cases "i \<in> visited")
    case True
    with 2(1) [OF i True, of visited'] 2(4,5) i show ?thesis by auto
  next
    case False
    from 2(4) i False obtain n v where n: "find_gn nodes i = Some n"
      and v: "visit_all nodes (stack @ [i]) (gn_depends_on n) (insert i visited) = Ret (Inr v)"
      and rest: "visit_all nodes stack is v = Ret (Inr visited')"
      by (auto split: option.splits outcome.splits sum.splits)
    have "insert i visited - set (stack @ [i]) \<subseteq> Wellfounded.acc (needs_rel nodes)" using 2(5) by auto
    from 2(2) [OF i False n v this] have IH: "insert i visited \<subseteq> v" "v - set (stack @ [i]) \<subseteq> Wellfounded.acc (needs_rel nodes)"
      "set (gn_depends_on n) \<subseteq> v" "set (gn_depends_on n) \<inter> set (stack @ [i]) = {}" by blast+
    have "i \<in> Wellfounded.acc (needs_rel nodes)"
    proof (rule accI)
      fix d assume "(d, i) \<in> needs_rel nodes"
      then have "d \<in> set (gn_depends_on n)" using n by (simp add: needs_rel_def)
      with IH show "d \<in> Wellfounded.acc (needs_rel nodes)" by blast
    qed
    with IH(2) have "v - set stack \<subseteq> Wellfounded.acc (needs_rel nodes)" by auto
    from 2(3) [OF i False n v _ rest this] IH(1) i show ?thesis by auto
  qed
qed simp

lemma visit_all_cycle:
  "visit_all nodes stack is visited = Ret (Inl e) \<Longrightarrow> successively (\<lambda>i d. (d, i) \<in> needs_rel nodes) stack \<Longrightarrow>
   (stack \<noteq> [] \<Longrightarrow> \<forall>d \<in> set is. (d, last stack) \<in> needs_rel nodes) \<Longrightarrow>
   \<exists>c. dep_cycle nodes c \<and> e = ''task graph contains cycle: '' @ str_join '' -> '' c"
proof (induction nodes stack "is" visited rule: visit_all.induct)
  case (2 nodes stack i "is" visited)
  show ?case
  proof (cases "i \<in> set stack")
    case True
    let ?c = "dropWhile (\<lambda>e. e \<noteq> i) stack @ [i]"
    obtain a b where s: "stack = a @ i # b" "i \<notin> set a" using split_list_first [OF True] by blast
    then have "dropWhile (\<lambda>e. e \<noteq> i) (a @ i # b) = i # b" by (subst dropWhile_append2) auto
    with s(1) have c: "?c = i # b @ [i]" by simp
    have "successively (\<lambda>i d. (d, i) \<in> needs_rel nodes) (i # b)"
      using 2(5) s(1) by (simp add: successively_append_iff)
    moreover have "(i, last (i # b)) \<in> needs_rel nodes" using 2(6) s(1) by auto
    ultimately have "successively (\<lambda>i d. (d, i) \<in> needs_rel nodes) ((i # b) @ [i])"
      by (subst successively_append_iff) simp
    with c have "dep_cycle nodes ?c" by (simp add: dep_cycle_def)
    with True 2(4) show ?thesis by (auto simp: cycle_text_def)
  next
    case i: False
    show ?thesis
    proof (cases "i \<in> visited")
      case True
      with 2(1) [OF i True] 2(4-6) i show ?thesis by auto
    next
      case False
      from 2(4) i False obtain n where n: "find_gn nodes i = Some n" by (auto split: option.splits)
      have path: "successively (\<lambda>i d. (d, i) \<in> needs_rel nodes) (stack @ [i])"
        using 2(5,6) by (auto simp: successively_append_iff)
      show ?thesis
      proof (cases "visit_all nodes (stack @ [i]) (gn_depends_on n) (insert i visited)")
        case Panic
        with 2(4) i False n show ?thesis by simp
      next
        case (Ret r)
        show ?thesis
        proof (cases r)
          case (Inl e')
          with 2(4) i False n Ret have "visit_all nodes (stack @ [i]) (gn_depends_on n) (insert i visited) = Ret (Inl e)" by simp
          from 2(2) [OF i False n this path] n show ?thesis by (simp add: needs_rel_def)
        next
          case (Inr v)
          with 2(4) i False n Ret have "visit_all nodes stack is v = Ret (Inl e)" by simp
          from 2(3) [OF i False n Ret Inr this 2(5)] 2(6) show ?thesis by auto
        qed
      qed
    qed
  qed
qed simp

lemma acc_no_loop: "x \<in> Wellfounded.acc r \<Longrightarrow> (x, x) \<notin> r\<^sup>+"
proof (induction rule: acc.induct)
  case (accI x)
  show ?case
  proof
    assume "(x, x) \<in> r\<^sup>+"
    then obtain y where "(x, y) \<in> r\<^sup>*" "(y, x) \<in> r" by (meson tranclD2)
    then have "(y, y) \<in> r\<^sup>+" by (rule rtrancl_into_trancl2 [rotated])
    with accI \<open>(y, x) \<in> r\<close> show False by blast
  qed
qed

lemma walk_trancl:
  "successively (\<lambda>i d. (d, i) \<in> r) c \<Longrightarrow> c \<noteq> [] \<Longrightarrow> (last c, hd c) \<in> r\<^sup>*"
proof (induction c)
  case (Cons i c)
  then show ?case by (cases c) (auto intro: rtrancl_into_rtrancl)
qed simp

lemma dep_cycle_not_acyclic: "dep_cycle nodes c \<Longrightarrow> \<not> acyclic (needs_rel nodes)"
proof -
  assume c: "dep_cycle nodes c"
  then obtain i d ds where ds: "c = i # d # ds" by (auto simp: dep_cycle_def Suc_le_length_iff numeral_2_eq_2)
  with c have "(d, i) \<in> needs_rel nodes" "(last (d # ds), d) \<in> (needs_rel nodes)\<^sup>*" "last (d # ds) = i"
    using walk_trancl [of "needs_rel nodes" "d # ds"] by (auto simp: dep_cycle_def)
  then have "(i, i) \<in> (needs_rel nodes)\<^sup>+" by (metis rtrancl_into_trancl1)
  then show ?thesis by (auto simp: acyclic_def)
qed

lemma unknown_dep_None: "unknown_dep ids ns = None \<longleftrightarrow> (\<forall>n \<in> set ns. set (gn_depends_on n) \<subseteq> set ids)"
  by (induction ns) (auto simp: find_None_iff split: option.split dest: find_SomeD)

lemma needs_rel_id: "(d, i) \<in> needs_rel nodes \<Longrightarrow> i \<in> gn_id ` set nodes"
  using find_gn_Some by (fastforce simp: needs_rel_def)

lemma visit_all_acyclic:
  assumes "visit_all nodes [] (map gn_id nodes) {} = Ret (Inr v)" shows "acyclic (needs_rel nodes)"
proof -
  from visit_all_ok [OF assms] have "gn_id ` set nodes \<subseteq> Wellfounded.acc (needs_rel nodes)" by auto
  then have "x \<in> gn_id ` set nodes \<Longrightarrow> (x, x) \<notin> (needs_rel nodes)\<^sup>+" for x
    using acc_no_loop [of x "needs_rel nodes"] by blast
  moreover have "(x, x) \<in> (needs_rel nodes)\<^sup>+ \<Longrightarrow> x \<in> gn_id ` set nodes" for x
    using needs_rel_id by (meson tranclD2)
  ultimately show ?thesis unfolding acyclic_def by meson
qed

lemma validate_accepts:
  assumes "graph_validate nodes = Ret (Inr ())"
  shows "distinct (map gn_id nodes) \<and> deps_known nodes \<and> acyclic (needs_rel nodes)"
proof -
  from assms obtain v where v: "distinct (map gn_id nodes)" "unknown_dep (map gn_id nodes) nodes = None"
    "visit_all nodes [] (map gn_id nodes) {} = Ret (Inr v)"
    by (auto simp: graph_validate_def Let_def split: if_splits option.splits outcome.splits sum.splits)
  with unknown_dep_None [of "map gn_id nodes" nodes] visit_all_acyclic show ?thesis by (simp add: deps_known_def)
qed

text \<open>C23: validation never panics; it accepts exactly the graphs that are not empty, have unique nonempty ids,
  known dependencies and no cycle, and a cycle that it reports is one of the graph.\<close>

theorem graph_validate_spec:
  "graph_validate nodes \<noteq> Panic \<and>
   (graph_validate nodes = Ret (Inr ()) \<longleftrightarrow>
      nodes \<noteq> [] \<and> distinct (map gn_id nodes) \<and> [] \<notin> gn_id ` set nodes \<and> deps_known nodes \<and> acyclic (needs_rel nodes)) \<and>
   (distinct (map gn_id nodes) \<and> [] \<notin> gn_id ` set nodes \<and> deps_known nodes \<and> \<not> acyclic (needs_rel nodes) \<longrightarrow>
      (\<exists>c. dep_cycle nodes c \<and>
        graph_validate nodes = Ret (Inl (''task graph contains cycle: '' @ str_join '' -> '' c))))"
proof (cases "nodes = [] \<or> \<not> distinct (map gn_id nodes) \<or> [] \<in> set (map gn_id nodes)")
  case True
  have "nodes = [] \<Longrightarrow> acyclic (needs_rel nodes)" by (simp add: needs_rel_def find_gn_def acyclic_def)
  with True show ?thesis by (auto simp: graph_validate_def Let_def)
next
  case ids: False
  show ?thesis
  proof (cases "unknown_dep (map gn_id nodes) nodes")
    case (Some e)
    then have "\<not> deps_known nodes" using unknown_dep_None [of "map gn_id nodes" nodes] by (auto simp: deps_known_def)
    with ids Some show ?thesis by (cases e) (auto simp: graph_validate_def Let_def)
  next
    case None
    then have known: "deps_known nodes" using unknown_dep_None [of "map gn_id nodes" nodes] by (simp add: deps_known_def)
    have np: "visit_all nodes [] (map gn_id nodes) {} \<noteq> Panic" by (rule visit_all_no_panic [OF known]) simp
    show ?thesis
    proof (cases "visit_all nodes [] (map gn_id nodes) {}")
      case Panic
      with np show ?thesis by simp
    next
      case (Ret r)
      show ?thesis
      proof (cases r)
        case (Inl e)
        with visit_all_cycle [of nodes "[]" "map gn_id nodes" "{}" e] Ret obtain c where
          c: "dep_cycle nodes c" "e = ''task graph contains cycle: '' @ str_join '' -> '' c" by auto
        from dep_cycle_not_acyclic [OF c(1)] c ids None Ret Inl show ?thesis
          by (auto simp: graph_validate_def Let_def)
      next
        case (Inr v)
        with Ret visit_all_acyclic have "acyclic (needs_rel nodes)" by blast
        with ids None Ret Inr known show ?thesis by (auto simp: graph_validate_def Let_def)
      qed
    qed
  qed
qed

definition demo_gn :: "string \<Rightarrow> string list \<Rightarrow> run_condition \<Rightarrow> graph_node" where
  "demo_gn i ds c = \<lparr>gn_id = i, gn_agent = ''codex'', gn_description = i, gn_depends_on = ds, gn_run_if = c\<rparr>"

theorem graph_validate_spec_witness:
  "\<exists>c. dep_cycle [demo_gn ''a'' [''b''] RcAlways, demo_gn ''b'' [''a''] RcAlways] c \<and>
     graph_validate [demo_gn ''a'' [''b''] RcAlways, demo_gn ''b'' [''a''] RcAlways] =
       Ret (Inl (''task graph contains cycle: '' @ str_join '' -> '' c))"
proof -
  let ?g = "[demo_gn ''a'' [''b''] RcAlways, demo_gn ''b'' [''a''] RcAlways]"
  have "dep_cycle ?g [''a'', ''b'', ''a'']" by (simp add: dep_cycle_def needs_rel_def demo_gn_def find_gn_def)
  then have "\<not> acyclic (needs_rel ?g)" by (rule dep_cycle_not_acyclic)
  then show ?thesis using graph_validate_spec [of ?g] by (simp add: demo_gn_def deps_known_def)
qed

section \<open>What a graph run does\<close>

definition ended :: "task_record \<Rightarrow> bool" where
  "ended t \<longleftrightarrow> t_status t \<in> {TsCompleted, TsFailed, TsCancelled}"

definition recorded :: "run_state \<Rightarrow> task_record \<Rightarrow> bool" where
  "recorded st t \<longleftrightarrow> get_task (t_id t) (rs_db st) = Inr (Some t)"

definition keeps :: "run_state \<Rightarrow> run_state \<Rightarrow> bool" where
  "keeps st st' \<longleftrightarrow> task_db_ok (rs_db st') \<and> (\<forall>t. recorded st t \<longrightarrow> ended t \<longrightarrow> recorded st' t)"

text \<open>What the threads of a wave promise, in whatever order they run: they keep the tasks that have ended, each of them is
  joined, with an error, a panic or a record, and a record is the ended one of its task in the table, which fits what
  it was asked to do. Below this is proved of every task environment, for threads that run in turn.\<close>

definition wave_ok :: "'w graph_env \<Rightarrow> (run_state \<Rightarrow> task_opts \<Rightarrow> task_record \<Rightarrow> bool) \<Rightarrow> bool" where
  "wave_ok env P \<longleftrightarrow> (\<forall>os st w. task_db_ok (rs_db st) \<longrightarrow>
     (case ge_wave env os st w of (results, st', w') \<Rightarrow>
        keeps st st' \<and>
        list_all2 (\<lambda>q x. \<forall>t. x = Ret (Inr t) \<longrightarrow> P st q t \<and> ended t \<and> recorded st' t) os results))"

text \<open>The error with which the run of a thread ends a graph run, and a wave of nodes in which a thread failed.\<close>

definition thread_error :: "task_record result outcome \<Rightarrow> string \<Rightarrow> bool" where
  "thread_error x e \<longleftrightarrow> x = Ret (Inl e) \<or> x = Panic \<and> e = ''task graph worker thread panicked''"

definition wave_failed :: "'w graph_env \<Rightarrow> graph_opts \<Rightarrow> graph_node list \<Rightarrow> run_state \<Rightarrow> string \<Rightarrow> run_state \<Rightarrow> 'w \<Rightarrow> bool" where
  "wave_failed env opts nodes st e st' w' \<longleftrightarrow>
     (\<exists>wave st0 w0 results k. set wave \<subseteq> set nodes \<and> keeps st st0 \<and>
        ge_wave env (map (node_opts opts) wave) st0 w0 = (results, st', w') \<and> length results = length wave \<and>
        k < length wave \<and> thread_error (results ! k) e \<and> (\<forall>j < k. \<exists>t. results ! j = Ret (Inr t)))"

definition skipped :: "graph_node \<Rightarrow> task_record \<Rightarrow> bool" where
  "skipped n t \<longleftrightarrow> t_status t = TsCancelled \<and> t_description t = gn_description n \<and> t_agent t = gn_agent n \<and>
     t_summary t = Some (skip_summary (gn_run_if n)) \<and> t_artifact_path t = None"

lemma skip_node_ok:
  assumes "task_db_ok (rs_db st)"
  shows "\<exists>t st'. skip_node env opts n w st = (Inr t, st') \<and> skipped n t \<and> ended t \<and> recorded st' t \<and> keeps st st'"
proof -
  define pj where "pj = te_project (ge_task env)"
  define ts where "ts = te_now (ge_task env) w"
  define sm where "sm = skip_summary (gn_run_if n)"
  obtain i db1 where c: "create_for_cwd pj ts (gn_description n) (gn_agent n) (go_cwd opts) (rs_db st) = (i, db1)" by fastforce
  define db2 where "db2 = finish ts i TsCancelled None None None False (Some sm) False db1"
  define db3 where "db3 = record_event ts ''task.cancelled'' (task_no i @ '' '' @ sm) db2"
  from create_for_cwd_row [OF c] obtain r where r: "td_tasks db1 = td_tasks (rs_db st) @ [r]" "t_id r = i"
    "i = next_task_id (rs_db st)" "t_agent r = gn_agent n" "t_description r = gn_description n" by blast
  have ok: "task_db_ok db3"
    using only_row_ok [OF only_row_finish create_for_cwd_ok [OF assms c]] by (simp add: db3_def db2_def)
  note get1 = append_row_get [OF r(1-3)]
  have row: "task_sql_get i db3 = Some (r\<lparr>t_status := ''cancelled'', t_worktree_path := None, t_artifact_path := None,
      t_exit_code := None, t_timed_out := 0, t_summary := Some sm, t_updated_at := ts, t_rate_limited := 0\<rparr>)"
    by (simp add: db3_def db2_def finish_def tasks.get_upd get1)
  then obtain t where t: "get_task i db3 = Inr (Some t)" "skipped n t"
    by (simp add: get_task_def row_to_task_def skipped_def sm_def r(4,5))
  have other: "task_sql_get j db3 = task_sql_get j (rs_db st)" if "j \<noteq> i" for j
    using that only_row_get(1) [OF only_row_finish] by (simp add: db3_def db2_def get1)
  obtain st' where st': "skip_node env opts n w st = (Inr t, st')" "rs_db st' = db3"
    using t(1) c by (simp add: skip_node_def record_conditionally_skipped_def Let_def pj_def ts_def sm_def db2_def db3_def get_task_or_def)
  have "recorded st' t" using t(1) get_task_id [OF t(1)] st'(2) by (simp add: recorded_def)
  moreover have "recorded st' x" if "recorded st x" for x
  proof -
    from that obtain y where "task_sql_get (t_id x) (rs_db st) = Some y" by (auto simp: recorded_def get_task_Some)
    then have "y \<in> set (td_tasks (rs_db st))" "t_id y = t_id x" by (auto simp: task_sql_get_def dest: find_SomeD)
    then have "t_id x < i" using next_task_id_fresh [of y "rs_db st"] r(3) by simp
    with that other st'(2) show ?thesis by (simp add: recorded_def get_task_def)
  qed
  moreover have "ended t" using t(2) by (simp add: skipped_def ended_def)
  ultimately show ?thesis using st' t(2) ok by (auto simp: keeps_def)
qed

text \<open>\<open>completed\<close> only ever gains entries, so what was decided from it stays right.\<close>

definition grows :: "(string \<rightharpoonup> task_record) \<Rightarrow> (string \<rightharpoonup> task_record) \<Rightarrow> string set \<Rightarrow> bool" where
  "grows c c' new \<longleftrightarrow> c \<subseteq>\<^sub>m c' \<and> dom c' = dom c \<union> new"

lemma grows_put: "i \<notin> dom c \<Longrightarrow> grows c (c(i \<mapsto> t)) {i}"
  by (auto simp: grows_def map_le_def)

lemma grows_trans: "grows a b x \<Longrightarrow> grows b c y \<Longrightarrow> grows a c (x \<union> y)"
  by (auto simp: grows_def intro: map_le_trans)

lemma grows_get: "grows c c' new \<Longrightarrow> c i = Some t \<Longrightarrow> c' i = Some t"
  by (auto simp: grows_def map_le_def dom_def)

lemma dep_statuses_grows:
  "grows c c' new \<Longrightarrow> set (gn_depends_on n) \<subseteq> dom c \<Longrightarrow> dep_statuses c' n = dep_statuses c n"
  unfolding dep_statuses_def using grows_get [of c c' new] by (intro map_cong) fastforce+

definition runs :: "(string \<rightharpoonup> task_record) \<Rightarrow> graph_node \<Rightarrow> bool" where
  "runs c n \<longleftrightarrow> should_run (gn_run_if n) (dep_statuses c n)"

lemma triage_Cons:
  "triage env opts (n # ns) w runnable c st =
     (if runs c n then triage env opts ns w (runnable @ [n]) c st
      else case skip_node env opts n w st of
        (Inl e, st) \<Rightarrow> (Inl e, st)
      | (Inr t, st) \<Rightarrow> triage env opts ns w runnable (c(gn_id n \<mapsto> t)) st)"
  by (simp add: runs_def)

lemma keeps_trans: "keeps a b \<Longrightarrow> keeps b c \<Longrightarrow> keeps a c"
  by (auto simp: keeps_def)

lemma keeps_refl: "task_db_ok (rs_db st) \<Longrightarrow> keeps st st"
  by (simp add: keeps_def)

lemma triage_ok:
  assumes "task_db_ok (rs_db st)" "distinct (map gn_id ns)" "gn_id ` set ns \<inter> dom c = {}"
    "\<forall>n \<in> set ns. set (gn_depends_on n) \<subseteq> dom c"
  shows "\<exists>c' st'. triage env opts ns w r0 c st = (Inr (r0 @ filter (runs c) ns, c'), st') \<and> keeps st st' \<and>
    grows c c' (gn_id ` {n \<in> set ns. \<not> runs c n}) \<and>
    (\<forall>n \<in> set ns. \<not> runs c n \<longrightarrow> (\<exists>t. c' (gn_id n) = Some t \<and> skipped n t \<and> ended t \<and> recorded st' t))"
  using assms
proof (induction ns arbitrary: r0 c st)
  case Nil
  then show ?case by (auto simp: keeps_refl grows_def)
next
  case (Cons n ns)
  show ?case
  proof (cases "runs c n")
    case True
    have "task_db_ok (rs_db st)" "distinct (map gn_id ns)" "gn_id ` set ns \<inter> dom c = {}"
      "\<forall>n \<in> set ns. set (gn_depends_on n) \<subseteq> dom c" using Cons.prems by auto
    from Cons.IH [OF this, of "r0 @ [n]"] obtain c' st' where
      "triage env opts ns w (r0 @ [n]) c st = (Inr ((r0 @ [n]) @ filter (runs c) ns, c'), st')" "keeps st st'"
      "grows c c' (gn_id ` {m \<in> set ns. \<not> runs c m})"
      "\<forall>m \<in> set ns. \<not> runs c m \<longrightarrow> (\<exists>t. c' (gn_id m) = Some t \<and> skipped m t \<and> ended t \<and> recorded st' t)" by blast
    moreover have "{m \<in> set (n # ns). \<not> runs c m} = {m \<in> set ns. \<not> runs c m}" using True by auto
    ultimately show ?thesis using True by (simp add: triage_Cons del: triage.simps)
  next
    case False
    obtain t st1 where s: "skip_node env opts n w st = (Inr t, st1)" "skipped n t" "ended t" "recorded st1 t" "keeps st st1"
      using skip_node_ok [OF Cons.prems(1), where env = env and opts = opts and n = n and w = w] by blast
    have new: "gn_id n \<notin> dom c" using Cons.prems(3) by auto
    have g: "grows c (c(gn_id n \<mapsto> t)) {gn_id n}" using grows_put [OF new] .
    have same: "runs (c(gn_id n \<mapsto> t)) m = runs c m" if "m \<in> set ns" for m
      using dep_statuses_grows [OF g] Cons.prems(4) that by (simp add: runs_def)
    have "task_db_ok (rs_db st1)" "distinct (map gn_id ns)" "gn_id ` set ns \<inter> dom (c(gn_id n \<mapsto> t)) = {}"
      "\<forall>m \<in> set ns. set (gn_depends_on m) \<subseteq> dom (c(gn_id n \<mapsto> t))"
      using Cons.prems s(5) by (auto simp: keeps_def)
    from Cons.IH [OF this, of r0] obtain c' st' where IH:
      "triage env opts ns w r0 (c(gn_id n \<mapsto> t)) st1 = (Inr (r0 @ filter (runs (c(gn_id n \<mapsto> t))) ns, c'), st')" "keeps st1 st'"
      "grows (c(gn_id n \<mapsto> t)) c' (gn_id ` {m \<in> set ns. \<not> runs (c(gn_id n \<mapsto> t)) m})"
      "\<forall>m \<in> set ns. \<not> runs (c(gn_id n \<mapsto> t)) m \<longrightarrow> (\<exists>t. c' (gn_id m) = Some t \<and> skipped m t \<and> ended t \<and> recorded st' t)"
      by blast
    have f: "filter (runs (c(gn_id n \<mapsto> t))) ns = filter (runs c) ns" using same by (intro filter_cong) auto
    have "{m \<in> set (n # ns). \<not> runs c m} = insert n {m \<in> set ns. \<not> runs (c(gn_id n \<mapsto> t)) m}" using False same by auto
    then have set: "gn_id ` {m \<in> set (n # ns). \<not> runs c m} = {gn_id n} \<union> gn_id ` {m \<in> set ns. \<not> runs (c(gn_id n \<mapsto> t)) m}"
      by simp
    have "triage env opts (n # ns) w r0 c st = (Inr (r0 @ filter (runs c) (n # ns), c'), st')"
      using IH(1) s(1) False f by (simp add: triage_Cons del: triage.simps)
    moreover have "keeps st st'" using keeps_trans [OF s(5) IH(2)] .
    moreover have "grows c c' (gn_id ` {m \<in> set (n # ns). \<not> runs c m})" unfolding set by (rule grows_trans [OF g IH(3)])
    moreover have "c' (gn_id n) = Some t" using grows_get [OF IH(3)] by simp
    moreover have "recorded st' t" using IH(2) s(3,4) by (simp add: keeps_def)
    ultimately show ?thesis using IH(4) s(2,3) same by (intro exI [of _ c'] exI [of _ st']) auto
  qed
qed

lemma join_wave_cases:
  "length ns = length rs \<Longrightarrow>
   (\<exists>e k. join_wave ns rs c = Inl e \<and> k < length rs \<and> thread_error (rs ! k) e \<and> (\<forall>j < k. \<exists>t. rs ! j = Ret (Inr t))) \<or>
   list_all (\<lambda>x. \<exists>t. x = Ret (Inr t)) rs"
proof (induction ns rs arbitrary: c rule: list_induct2)
  case (Cons n ns x rs)
  show ?case
  proof (cases "\<exists>t. x = Ret (Inr t)")
    case True
    then obtain t where t: "x = Ret (Inr t)" by blast
    from Cons.IH [of "c(gn_id n \<mapsto> t)"] show ?thesis
    proof (elim disjE exE conjE)
      fix e k assume k: "join_wave ns rs (c(gn_id n \<mapsto> t)) = Inl e" "k < length rs" "thread_error (rs ! k) e"
        "\<forall>j < k. \<exists>t. rs ! j = Ret (Inr t)"
      have "\<forall>j < Suc k. \<exists>t. (x # rs) ! j = Ret (Inr t)" using k(4) t by (auto simp: less_Suc_eq_0_disj)
      then show ?thesis using k t by (intro disjI1 exI [of _ e] exI [of _ "Suc k"]) simp
    qed (simp add: t)
  next
    case False
    then have "\<exists>e. join_wave (n # ns) (x # rs) c = Inl e \<and> thread_error x e"
    proof (cases x)
      case (Ret y)
      with False show ?thesis by (cases y) (simp_all add: thread_error_def)
    qed (simp add: thread_error_def)
    then show ?thesis by fastforce
  qed
qed simp

lemma join_wave_ok:
  assumes "list_all2 (\<lambda>n x. \<exists>t. x = Ret (Inr t) \<and> Q n t) ns rs" "distinct (map gn_id ns)" "gn_id ` set ns \<inter> dom c = {}"
  shows "\<exists>c'. join_wave ns rs c = Inr c' \<and> grows c c' (gn_id ` set ns) \<and> (\<forall>n \<in> set ns. \<exists>t. c' (gn_id n) = Some t \<and> Q n t)"
  using assms
proof (induction ns rs arbitrary: c rule: list_all2_induct)
  case Nil
  then show ?case by (simp add: grows_def)
next
  case (Cons n ns x rs)
  then obtain t where t: "x = Ret (Inr t)" "Q n t" by blast
  have new: "gn_id n \<notin> dom c" using Cons.prems(2) by auto
  have "distinct (map gn_id ns)" "gn_id ` set ns \<inter> dom (c(gn_id n \<mapsto> t)) = {}" using Cons.prems by auto
  from Cons.IH [OF this] obtain c' where IH: "join_wave ns rs (c(gn_id n \<mapsto> t)) = Inr c'"
    "grows (c(gn_id n \<mapsto> t)) c' (gn_id ` set ns)" "\<forall>m \<in> set ns. \<exists>t. c' (gn_id m) = Some t \<and> Q m t" by blast
  have "grows c c' (gn_id ` set (n # ns))" using grows_trans [OF grows_put [OF new] IH(2)] by simp
  moreover have "c' (gn_id n) = Some t" using grows_get [OF IH(2)] by simp
  ultimately show ?case using IH t by auto
qed

text \<open>A node is served: its dependencies have records; its own is that of a run which started when they were
  all in the table, or it says that the condition was not met.\<close>

definition served ::
    "(run_state \<Rightarrow> task_opts \<Rightarrow> task_record \<Rightarrow> bool) \<Rightarrow> graph_opts \<Rightarrow> (string \<rightharpoonup> task_record) \<Rightarrow> graph_node \<Rightarrow> bool" where
  "served P opts c n \<longleftrightarrow> set (gn_depends_on n) \<subseteq> dom c \<and> (\<exists>t. c (gn_id n) = Some t \<and> ended t \<and>
     (if runs c n then \<exists>st0. P st0 (node_opts opts n) t \<and> (\<forall>d \<in> set (gn_depends_on n). recorded st0 (the (c d)))
      else skipped n t))"

lemma served_grows: "grows c c' new \<Longrightarrow> served P opts c n \<Longrightarrow> served P opts c' n"
proof -
  assume g: "grows c c' new" and s: "served P opts c n"
  then have d: "set (gn_depends_on n) \<subseteq> dom c" "set (gn_depends_on n) \<subseteq> dom c'" by (auto simp: served_def grows_def)
  have "the (c' d) = the (c d)" if "d \<in> set (gn_depends_on n)" for d
    using grows_get [OF g, of d] d(1) that by fastforce
  moreover have "runs c' n = runs c n" using dep_statuses_grows [OF g d(1)] by (simp add: runs_def)
  ultimately show ?thesis using s d(2) grows_get [OF g] unfolding served_def by (metis (no_types, lifting))
qed

lemma ready_exists:
  assumes "distinct (map gn_id nodes)" "deps_known nodes" "acyclic (needs_rel nodes)" "remaining \<noteq> []"
    "set remaining \<subseteq> set nodes" "dom c = gn_id ` set nodes - gn_id ` set remaining"
  shows "ready_nodes remaining c \<noteq> []"
proof -
  have "needs_rel nodes \<subseteq> (\<Union>n \<in> set nodes. set (gn_depends_on n) \<times> {gn_id n})"
    using find_gn_Some by (fastforce simp: needs_rel_def)
  then have "finite (needs_rel nodes)" by (rule finite_subset) auto
  then have wf: "wf (needs_rel nodes)" using assms(3) by (simp add: finite_acyclic_wf)
  from assms(4) have "gn_id (hd remaining) \<in> gn_id ` set remaining" by simp
  from wfE_min [OF wf this] obtain i where i: "i \<in> gn_id ` set remaining"
    "\<And>d. (d, i) \<in> needs_rel nodes \<Longrightarrow> d \<notin> gn_id ` set remaining" by blast
  from i(1) obtain n where n: "n \<in> set remaining" "i = gn_id n" by blast
  have nn: "n \<in> set nodes" using n(1) assms(5) by blast
  have find: "find_gn nodes i = Some n" using find_unique [OF assms(1) nn] n(2) by (simp add: find_gn_def)
  have "d \<in> dom c" if d: "d \<in> set (gn_depends_on n)" for d
  proof -
    from d find have "(d, i) \<in> needs_rel nodes" by (simp add: needs_rel_def)
    with i(2) have "d \<notin> gn_id ` set remaining" by blast
    moreover have "d \<in> gn_id ` set nodes" using assms(2) nn d by (auto simp: deps_known_def)
    ultimately show ?thesis using assms(6) by blast
  qed
  with n(1) show ?thesis by (auto simp: ready_nodes_def filter_empty_conv list_all_iff)
qed

lemma wave_okD:
  assumes "wave_ok env P" "task_db_ok (rs_db st)" "ge_wave env os st w = (results, st', w')"
  shows "keeps st st' \<and> list_all2 (\<lambda>q x. \<forall>t. x = Ret (Inr t) \<longrightarrow> P st q t \<and> ended t \<and> recorded st' t) os results"
  using assms(1) [unfolded wave_ok_def, rule_format, OF assms(2), of os w] assms(3) by simp

lemma wave_step:
  assumes wave: "wave_ok env P" and ok: "task_db_ok (rs_db st)"
    and ns: "distinct (map gn_id ns)" "gn_id ` set ns \<inter> dom c = {}" "\<forall>n \<in> set ns. set (gn_depends_on n) \<subseteq> dom c"
    and rec: "\<forall>i t. c i = Some t \<longrightarrow> ended t \<and> recorded st t"
  obtains (failed) c1 st1 results st2 w2 e where "triage env opts ns w [] c st = (Inr (filter (runs c) ns, c1), st1)"
      "ge_wave env (map (node_opts opts) (filter (runs c) ns)) st1 w = (results, st2, w2)"
      "join_wave (filter (runs c) ns) results c1 = Inl e" "keeps st st2" "wave_failed env opts ns st e st2 w2"
  | (joined) c1 st1 results st2 w2 c2 where "triage env opts ns w [] c st = (Inr (filter (runs c) ns, c1), st1)"
    "ge_wave env (map (node_opts opts) (filter (runs c) ns)) st1 w = (results, st2, w2)"
    "join_wave (filter (runs c) ns) results c1 = Inr c2" "grows c c2 (gn_id ` set ns)" "\<forall>n \<in> set ns. served P opts c2 n"
    "keeps st st2" "\<forall>i t. c2 i = Some t \<longrightarrow> ended t \<and> recorded st2 t"
proof -
  let ?run = "filter (runs c) ns"
  from triage_ok [OF ok ns, of env opts w "[]"] obtain c1 st1 where t: "triage env opts ns w [] c st = (Inr (?run, c1), st1)"
    "keeps st st1" "grows c c1 (gn_id ` {n \<in> set ns. \<not> runs c n})"
    "\<forall>n \<in> set ns. \<not> runs c n \<longrightarrow> (\<exists>t. c1 (gn_id n) = Some t \<and> skipped n t \<and> ended t \<and> recorded st1 t)" by auto
  obtain results st2 w2 where g: "ge_wave env (map (node_opts opts) ?run) st1 w = (results, st2, w2)" by (metis prod_cases3)
  have "task_db_ok (rs_db st1)" using t(2) by (simp add: keeps_def)
  from wave_okD [OF wave this g]
  have k: "keeps st1 st2"
    and promised: "list_all2 (\<lambda>n x. \<forall>t. x = Ret (Inr t) \<longrightarrow> (P st1 (node_opts opts n) t \<and> ended t \<and> recorded st2 t)) ?run results"
    by (simp_all add: list.rel_map)
  have len: "length ?run = length results" using promised by (rule list_all2_lengthD)
  show ?thesis
  proof (cases "list_all (\<lambda>x. \<exists>t. x = Ret (Inr t)) results")
    case False
    with join_wave_cases [OF len, of c1] obtain e i where j: "join_wave ?run results c1 = Inl e" "i < length results"
      "thread_error (results ! i) e" "\<forall>j < i. \<exists>t. results ! j = Ret (Inr t)" by blast
    have "wave_failed env opts ns st e st2 w2"
      unfolding wave_failed_def using j len g t(2)
      by (intro exI [of _ ?run] exI [of _ st1] exI [of _ w] exI [of _ results] exI [of _ i]) auto
    with failed [OF t(1) g j(1) keeps_trans [OF t(2) k]] show ?thesis by blast
  next
    case True
  have l: "list_all2 (\<lambda>n x. \<exists>t. x = Ret (Inr t) \<and> (P st1 (node_opts opts n) t \<and> ended t \<and> recorded st2 t)) ?run results"
    using promised True by (auto simp: list_all2_conv_all_nth list_all_length)
  have dis: "distinct (map gn_id ?run)" using ns(1) by (simp add: distinct_map_filter)
  have "gn_id m \<notin> dom c1" if m: "m \<in> set ?run" for m
  proof
    assume "gn_id m \<in> dom c1"
    with t(3) m ns(2) obtain n where "n \<in> set ns" "\<not> runs c n" "gn_id n = gn_id m" by (auto simp: grows_def)
    with ns(1) m have "n = m" by (auto simp: distinct_map inj_on_def)
    with m \<open>\<not> runs c n\<close> show False by simp
  qed
  then have "gn_id ` set ?run \<inter> dom c1 = {}" by blast
  from join_wave_ok [OF l dis this] obtain c2 where j: "join_wave ?run results c1 = Inr c2" "grows c1 c2 (gn_id ` set ?run)"
    "\<forall>n \<in> set ?run. \<exists>t. c2 (gn_id n) = Some t \<and> P st1 (node_opts opts n) t \<and> ended t \<and> recorded st2 t" by blast
  have "{n \<in> set ns. \<not> runs c n} \<union> set ?run = set ns" by auto
  then have all: "grows c c2 (gn_id ` set ns)" using grows_trans [OF t(3) j(2)] by (metis image_Un)
  have same: "runs c2 n = runs c n" if "n \<in> set ns" for n
    using dep_statuses_grows [OF all] ns(3) that by (simp add: runs_def)
  have served: "served P opts c2 n" if n: "n \<in> set ns" for n
  proof -
    have d: "set (gn_depends_on n) \<subseteq> dom c" using ns(3) n by blast
    then have d2: "set (gn_depends_on n) \<subseteq> dom c2" using all by (auto simp: grows_def)
    have deps: "recorded st1 (the (c2 x))" if x: "x \<in> set (gn_depends_on n)" for x
    proof -
      from x d obtain y where y: "c x = Some y" by blast
      with rec t(2) have "recorded st1 y" by (auto simp: keeps_def)
      with grows_get [OF all y] show ?thesis by simp
    qed
    show ?thesis
    proof (cases "runs c n")
      case True
      with j(3) n obtain t where "c2 (gn_id n) = Some t" "P st1 (node_opts opts n) t" "ended t" by auto
      with True same [OF n] d2 deps show ?thesis by (auto simp: served_def)
    next
      case False
      with t(4) n obtain t where "c1 (gn_id n) = Some t" "skipped n t" "ended t" by blast
      with False same [OF n] d2 grows_get [OF j(2)] show ?thesis by (auto simp: served_def)
    qed
  qed
  have rec2: "ended t \<and> recorded st2 t" if c2: "c2 i = Some t" for i t
  proof (cases "i \<in> dom c")
    case True
    then obtain y where y: "c i = Some y" by blast
    with grows_get [OF all y] c2 have "y = t" by simp
    with rec y t(2) k show ?thesis by (auto simp: keeps_def)
  next
    case False
    have "i \<in> dom c2" using c2 by blast
    with False all have "i \<in> gn_id ` set ns" by (simp add: grows_def)
    then obtain n where n: "n \<in> set ns" "i = gn_id n" by blast
    show ?thesis
    proof (cases "runs c n")
      case True
      with j(3) n c2 show ?thesis by force
    next
      case F: False
      with t(4) n obtain y where y: "c1 i = Some y" "ended y" "recorded st1 y" by blast
      with grows_get [OF j(2) y(1)] c2 k show ?thesis by (auto simp: keeps_def)
    qed
  qed
  from joined [OF t(1) g j(1) all] served keeps_trans [OF t(2) k] rec2 show ?thesis by blast
  qed
qed

lemma run_waves_ok:
  assumes wave: "wave_ok env P" and g: "distinct (map gn_id nodes)" "deps_known nodes" "acyclic (needs_rel nodes)"
    and "set remaining \<subseteq> set nodes" "distinct (map gn_id remaining)" "dom c = gn_id ` set nodes - gn_id ` set remaining"
    and "\<forall>n \<in> set nodes. gn_id n \<in> dom c \<longrightarrow> served P opts c n" "\<forall>i t. c i = Some t \<longrightarrow> ended t \<and> recorded st t"
    and "task_db_ok (rs_db st)"
  shows "\<exists>r st' w'. run_waves env opts remaining c st w = (r, st', w') \<and> keeps st st' \<and>
    (case r of
       Inl e \<Rightarrow> wave_failed env opts nodes st e st' w'
     | Inr c' \<Rightarrow> dom c' = gn_id ` set nodes \<and> (\<forall>n \<in> set nodes. served P opts c' n) \<and>
         (\<forall>i t. c' i = Some t \<longrightarrow> recorded st' t))"
  using assms(5-)
proof (induction "length remaining" arbitrary: remaining c st w rule: less_induct)
  case less
  show ?case
  proof (cases "remaining = []")
    case True
    with less.prems show ?thesis
      by (subst run_waves.simps) (auto simp: keeps_refl)
  next
    case False
    define ready where "ready = ready_nodes remaining c"
    have ne: "ready \<noteq> []" unfolding ready_def by (rule ready_exists [OF g False less.prems(1,3)])
    have sub: "set ready \<subseteq> set remaining" by (auto simp: ready_def ready_nodes_def)
    have "distinct (map gn_id ready)" using less.prems(2) by (simp add: ready_def ready_nodes_def distinct_map_filter)
    moreover have "gn_id ` set ready \<inter> dom c = {}" using sub less.prems(3) by auto
    moreover have "\<forall>n \<in> set ready. set (gn_depends_on n) \<subseteq> dom c"
      by (simp add: ready_def ready_nodes_def list_all_iff subset_iff)
    moreover note less.prems(5)
    ultimately show ?thesis
    proof (cases rule: wave_step [OF wave less.prems(6), of ready c opts w, consumes 4, case_names failed joined])
      case (failed c1 st1 results st2 w2 e)
      have step: "run_waves env opts remaining c st w = (Inl e, st2, w2)"
        by (subst run_waves.simps) (simp add: False ready_def [symmetric] ne failed(1-3))
      have "wave_failed env opts nodes st e st2 w2" using failed(5) sub less.prems(1) unfolding wave_failed_def by blast
      then show ?thesis using step failed(4) by simp
    next
      case (joined c1 st1 results st2 w2 c2)
      note s = joined
    let ?rest = "filter (\<lambda>n. gn_id n \<notin> gn_id ` set ready) remaining"
    have step: "run_waves env opts remaining c st w = run_waves env opts ?rest c2 st2 w2"
      by (subst run_waves.simps) (simp add: False ready_def [symmetric] ne s(1-3))
    have "hd ready \<in> set ready" using ne by simp
    then have shorter: "length ?rest < length remaining" using sub by (intro length_filter_less [of "hd ready"]) auto
    have "set ?rest \<subseteq> set nodes" "distinct (map gn_id ?rest)" using less.prems(1,2) by (auto simp: distinct_map_filter)
    moreover have "dom c2 = gn_id ` set nodes - gn_id ` set ?rest"
    proof -
      have "gn_id ` set ?rest = gn_id ` set remaining - gn_id ` set ready" by auto
      moreover have "gn_id ` set ready \<subseteq> gn_id ` set nodes" using sub less.prems(1) by blast
      moreover have "gn_id ` set ready \<subseteq> gn_id ` set remaining" using sub by blast
      ultimately show ?thesis using s(4) less.prems(3) by (auto simp: grows_def)
    qed
    moreover have "\<forall>n \<in> set nodes. gn_id n \<in> dom c2 \<longrightarrow> served P opts c2 n"
    proof (intro ballI impI)
      fix n assume n: "n \<in> set nodes" "gn_id n \<in> dom c2"
      show "served P opts c2 n"
      proof (cases "gn_id n \<in> dom c")
        case True
        with less.prems(4) n(1) served_grows [OF s(4)] show ?thesis by blast
      next
        case F: False
        with n(2) s(4) have "gn_id n \<in> gn_id ` set ready" by (simp add: grows_def)
        then obtain m where m: "m \<in> set ready" "gn_id m = gn_id n" by (metis imageE)
        have "m \<in> set nodes" using m(1) sub less.prems(1) by blast
        with m(2) n(1) g(1) have "m = n" by (auto simp: distinct_map inj_on_def)
        with m(1) s(5) show ?thesis by blast
      qed
    qed
    moreover have "task_db_ok (rs_db st2)" using s(6) by (simp add: keeps_def)
    ultimately obtain r st' w' where r: "run_waves env opts ?rest c2 st2 w2 = (r, st', w')" "keeps st2 st'"
      "case r of Inl e \<Rightarrow> wave_failed env opts nodes st2 e st' w'
       | Inr c' \<Rightarrow> dom c' = gn_id ` set nodes \<and> (\<forall>n \<in> set nodes. served P opts c' n) \<and> (\<forall>i t. c' i = Some t \<longrightarrow> recorded st' t)"
      using less.hyps [OF shorter, of c2 st2 w2] s(7) by blast
    have "wave_failed env opts nodes st e st' w'" if "wave_failed env opts nodes st2 e st' w'" for e
      using that keeps_trans [OF s(6)] unfolding wave_failed_def by blast
    with r step keeps_trans [OF s(6)] show ?thesis by (cases r) auto
    qed
  qed
qed

lemma take_records_ok:
  "distinct (map gn_id ns) \<Longrightarrow> gn_id ` set ns \<subseteq> dom c \<Longrightarrow> take_records ns c = Ret (map (\<lambda>n. the (c (gn_id n))) ns)"
proof (induction ns arbitrary: c)
  case (Cons n ns)
  then obtain t where t: "c (gn_id n) = Some t" by auto
  have new: "gn_id m \<noteq> gn_id n" if "m \<in> set ns" for m using Cons.prems(1) that by (auto intro: rev_image_eqI)
  have "gn_id ` set ns \<subseteq> dom (c(gn_id n := None))" using Cons.prems(2) new by auto
  with Cons t have "take_records ns (c(gn_id n := None)) = Ret (map (\<lambda>m. the ((c(gn_id n := None)) (gn_id m))) ns)" by simp
  moreover have "map (\<lambda>m. the ((c(gn_id n := None)) (gn_id m))) ns = map (\<lambda>m. the (c (gn_id m))) ns"
    using new by (intro map_cong) auto
  ultimately show ?case using t by simp
qed simp

lemma map_of_records: "dom c = set ids \<Longrightarrow> map_of (zip ids (map (\<lambda>i. the (c i)) ids)) = c"
proof (rule ext)
  fix i assume d: "dom c = set ids"
  show "map_of (zip ids (map (\<lambda>i. the (c i)) ids)) i = c i"
  proof (cases "i \<in> set ids")
    case True
    with d obtain t where "c i = Some t" by blast
    then show ?thesis using True by (simp add: map_of_zip_map)
  next
    case False
    with d have "c i = None" by blast
    then show ?thesis using False by (simp add: map_of_zip_map)
  qed
qed

text \<open>C24: a valid graph always gets an answer, and no ended task is lost to the run. Either every node got one record, the
  records come in the order of the nodes, and each node was started with the records of all its
  dependencies in the table and its condition met, or says that it was not met; or a thread of a wave failed or panicked,
  the answer is the first such error in the order of the wave, and nothing was started after that wave.\<close>

theorem graph_run_serves:
  assumes "graph_validate nodes = Ret (Inr ())" "pj_repo_root (te_project (ge_task env)) (go_cwd opts) \<noteq> None"
    and "wave_ok env P" "task_db_ok (rs_db st)"
  shows "\<exists>r st' w'. graph_run env opts nodes st w = (Ret r, st', w') \<and> keeps st st' \<and>
    (case r of
       Inl e \<Rightarrow> wave_failed env opts nodes st e st' w'
     | Inr ts \<Rightarrow> length ts = length nodes \<and>
         (let c = map_of (zip (map gn_id nodes) ts)
          in \<forall>n \<in> set nodes. set (gn_depends_on n) \<subseteq> dom c \<and> (\<exists>t. c (gn_id n) = Some t \<and> ended t \<and> recorded st' t \<and>
            (if should_run (gn_run_if n) (dep_statuses c n)
             then \<exists>st0. P st0 (node_opts opts n) t \<and> (\<forall>d \<in> set (gn_depends_on n). recorded st0 (the (c d)))
             else skipped n t))))"
proof -
  from validate_accepts [OF assms(1)] have g: "distinct (map gn_id nodes)" "deps_known nodes" "acyclic (needs_rel nodes)"
    by blast+
  have sub: "set (sort_key gn_id nodes) \<subseteq> set nodes" "distinct (map gn_id (sort_key gn_id nodes))"
    "dom Map.empty = gn_id ` set nodes - gn_id ` set (sort_key gn_id nodes)" using g(1) by (simp_all add: distinct_map)
  from run_waves_ok [OF assms(3) g sub _ _ assms(4), of opts w] obtain r st' w' where
    run: "run_waves env opts (sort_key gn_id nodes) Map.empty st w = (r, st', w')" "keeps st st'"
    and r: "case r of Inl e \<Rightarrow> wave_failed env opts nodes st e st' w'
      | Inr c' \<Rightarrow> dom c' = gn_id ` set nodes \<and> (\<forall>n \<in> set nodes. served P opts c' n) \<and> (\<forall>i t. c' i = Some t \<longrightarrow> recorded st' t)"
    by auto
  show ?thesis
  proof (cases r)
    case (Inl e)
    then have "graph_run env opts nodes st w = (Ret (Inl e), st', w')"
      using run(1) assms(1,2) by (auto simp: graph_run_def simp del: run_waves.simps)
    then show ?thesis using run(2) r Inl by simp
  next
    case (Inr c)
    with r have c: "dom c = gn_id ` set nodes" "\<forall>n \<in> set nodes. served P opts c n" "\<forall>i t. c i = Some t \<longrightarrow> recorded st' t"
      by simp_all
    define ts where "ts = map (\<lambda>n. the (c (gn_id n))) nodes"
    have m: "map_of (zip (map gn_id nodes) ts) = c"
      using map_of_records [of c "map gn_id nodes"] c(1) by (simp add: ts_def comp_def)
    have "graph_run env opts nodes st w = (Ret (Inr ts), st', w')"
      using assms(1,2) run(1) Inr take_records_ok [OF g(1)] c(1) by (simp add: graph_run_def ts_def)
    moreover have "length ts = length nodes" by (simp add: ts_def)
    moreover have "\<forall>n \<in> set nodes. set (gn_depends_on n) \<subseteq> dom c \<and> (\<exists>t. c (gn_id n) = Some t \<and> ended t \<and> recorded st' t \<and>
         (if should_run (gn_run_if n) (dep_statuses c n)
          then \<exists>st0. P st0 (node_opts opts n) t \<and> (\<forall>d \<in> set (gn_depends_on n). recorded st0 (the (c d)))
          else skipped n t))"
      using c(2,3) unfolding served_def runs_def by blast
    ultimately show ?thesis using run(2) m
      by (intro exI [of _ "Inr ts"] exI [of _ st'] exI [of _ w']) (simp only: sum.case Let_def simp_thms)
  qed
qed

section \<open>The schedule that runs the threads in turn\<close>

text \<open>A task that does not return leaves the join waiting; that is the empty list.\<close>

fun one_by_one ::
    "'w task_env \<Rightarrow> task_opts list \<Rightarrow> run_state \<Rightarrow> 'w \<Rightarrow> task_record result outcome list \<times> run_state \<times> 'w" where
  "one_by_one env [] st w = ([], st, w)"
| "one_by_one env (q # qs) st w =
     (case task_run env q st w of
        None \<Rightarrow> ([], st, w)
      | Some (r, st, w) \<Rightarrow> (case one_by_one env qs st w of (rs, st, w) \<Rightarrow> (Ret r # rs, st, w)))"

definition asked :: "run_state \<Rightarrow> task_opts \<Rightarrow> task_record \<Rightarrow> bool" where
  "asked st q t \<longleftrightarrow> t_description t = op_description q \<and> t_agent t = op_agent q \<and> t_cwd t = op_cwd q"

lemma recorded_kept:
  assumes "others_kept i db db'" "get_task j db = Inr (Some t)" "task_db_ok db" "i \<noteq> j"
  shows "get_task j db' = Inr (Some t)"
proof -
  from assms(2) obtain r where r: "task_sql_get j db = Some r" by (auto simp: get_task_Some)
  have "task_sql_get j db' = task_sql_get j db" using assms(1,4) task_in_seq [OF assms(3) r] by (auto simp: others_kept_def)
  with assms(2) show ?thesis by (simp add: get_task_def)
qed

definition never_fails :: "'w task_env \<Rightarrow> bool" where
  "never_fails env \<longleftrightarrow> (\<forall>a. te_known env a \<and> te_detected env a) \<and> (\<forall>i e. \<not> artifact_fails env i e)"

lemma task_run_ok:
  fixes env :: "'w task_env" and q :: task_opts
  assumes chains: "\<And>cs. te_chains env = Inr cs \<Longrightarrow> \<forall>c \<in> set cs. distinct c" and ok: "task_db_ok (rs_db st)"
  shows "\<exists>x st' w'. task_run env q st w = Some (x, st', w') \<and> keeps st st' \<and>
    (\<forall>t. x = Inr t \<longrightarrow> asked st q t \<and> ended t \<and> recorded st' t) \<and>
    (te_known env (op_agent q) \<and> te_detected env (op_agent q) \<and> (\<forall>i e. \<not> artifact_fails env i e) \<longrightarrow> (\<exists>t. x = Inr t))"
proof (cases "te_known env (op_agent q) \<and> (op_agent q = ''single-pool'' \<or> te_detected env (op_agent q))")
  case False
  then show ?thesis using keeps_refl [OF ok] by (auto simp: task_run_def)
next
  case known: True
  define ts where "ts = te_now env w"
  obtain i db where c: "create_for_cwd (te_project env) ts (op_description q) (op_agent q) (op_cwd q) (rs_db st) = (i, db)"
    by fastforce
  define st1 where "st1 = st\<lparr>rs_db := record_event ts ''task.created'' (task_no i @ '' agent='' @ op_agent q @ '' '' @ [CHR 0x22] @
     op_description q @ [CHR 0x22]) db\<rparr>"
  have run: "task_run env q st w = task_execute env i q st1 w"
    using known c by (auto simp: task_run_def Let_def ts_def st1_def)
  from create_for_cwd_row [OF c] obtain r where r: "td_tasks db = td_tasks (rs_db st) @ [r]" "t_id r = i"
    "i = next_task_id (rs_db st)" "t_agent r = op_agent q" "t_description r = op_description q" "t_cwd r = op_cwd q" by blast
  have ok1: "task_db_ok (rs_db st1)" using create_for_cwd_ok [OF ok c] by (simp add: st1_def)
  have get1: "task_sql_get j (rs_db st1) = (if j = i then Some r else task_sql_get j (rs_db st))" for j
    using append_row_get [OF r(1-3)] by (simp add: st1_def)
  then have row: "task_sql_get i (rs_db st1) \<noteq> None" by simp
  obtain k where k: "\<And>cs. te_chains env = Inr cs \<Longrightarrow> entry_rank cs (current_ref q) \<le> k"
  proof (cases "te_chains env")
    case (Inr cs)
    then show ?thesis using that [of "entry_rank cs (current_ref q)"] by simp
  qed (use that in simp)
  from task_execute_returns_rank [of env q k st1 i w] chains k ok1 row obtain x st2 w2 where
    x: "task_execute env i q st1 w = Some (x, st2, w2)" by blast
  from task_execute_spec [OF x ok1 row] have s: "others_kept i (rs_db st1) (rs_db st2)" "run_answer env i q st1 x st2"
    by (simp_all add: run_spec_def)
  have answer: "asked st q t \<and> ended t \<and> recorded st2 t" if xt: "x = Inr t" for t
  proof -
    from s(2) xt have t: "get_task i (rs_db st2) = Inr (Some t)" "t_status t \<notin> {TsCreated, TsRunning}"
      by (auto simp: run_answer_def)
    have "t_id t = i" using get_task_id [OF t(1)] .
    from s(1) get1 obtain r' where r': "task_sql_get i (rs_db st2) = Some r'" "same_task r r'" by (auto simp: others_kept_def)
    from t(1) r'(1) have "row_to_task r' = Inr t" by (auto simp: get_task_Some)
    then have "t_description t = t_description r'" "t_agent t = t_agent r'" "t_cwd t = t_cwd r'"
      by (auto simp: row_to_task_def split: sum.split_asm)
    then have "asked st q t" using r'(2) r(4-6) by (simp add: asked_def same_task_def)
    moreover have "ended t" using t(2) by (cases "t_status t") (auto simp: ended_def)
    moreover have "recorded st2 t" using t(1) \<open>t_id t = i\<close> by (simp add: recorded_def)
    ultimately show ?thesis by blast
  qed
  have "recorded st2 y" if y: "recorded st y" for y
  proof -
    from y obtain ry where ry: "task_sql_get (t_id y) (rs_db st) = Some ry" by (auto simp: recorded_def get_task_Some)
    then have "ry \<in> set (td_tasks (rs_db st))" "t_id ry = t_id y" by (auto simp: task_sql_get_def dest: find_SomeD)
    then have ne: "i \<noteq> t_id y" using next_task_id_fresh [of ry "rs_db st"] r(3) by simp
    with y get1 have "get_task (t_id y) (rs_db st1) = Inr (Some y)" by (simp add: recorded_def get_task_def)
    from recorded_kept [OF s(1) this ok1 ne] show ?thesis by (simp add: recorded_def)
  qed
  moreover have "task_db_ok (rs_db st2)" using s(1) by (simp add: others_kept_def)
  moreover have "\<exists>t. x = Inr t" if "te_known env (op_agent q)" "te_detected env (op_agent q)" "\<forall>i e. \<not> artifact_fails env i e"
    using s(2) that by (auto simp: run_answer_def split: sum.splits)
  ultimately show ?thesis using run x answer by (auto simp: keeps_def)
qed

lemma one_by_one_ok:
  fixes env :: "'w task_env"
  assumes "\<And>cs. te_chains env = Inr cs \<Longrightarrow> \<forall>c \<in> set cs. distinct c" and "task_db_ok (rs_db st)"
  shows "\<exists>rs st' w'. one_by_one env qs st w = (rs, st', w') \<and> keeps st st' \<and>
    list_all2 (\<lambda>q x. \<forall>t. x = Ret (Inr t) \<longrightarrow> asked st q t \<and> ended t \<and> recorded st' t) qs rs \<and>
    (never_fails env \<longrightarrow> (\<forall>x \<in> set rs. \<exists>t. x = Ret (Inr t)))"
  using assms(2)
proof (induction qs arbitrary: st w)
  case Nil
  then show ?case by (simp add: keeps_refl)
next
  case (Cons q qs)
  from task_run_ok [where q = q and w = w, OF assms(1) Cons.prems] obtain x st1 w1 where
    t: "task_run env q st w = Some (x, st1, w1)" "keeps st st1" "\<forall>t. x = Inr t \<longrightarrow> asked st q t \<and> ended t \<and> recorded st1 t"
    "never_fails env \<longrightarrow> (\<exists>t. x = Inr t)" unfolding never_fails_def by blast
  have "task_db_ok (rs_db st1)" using t(2) by (simp add: keeps_def)
  from Cons.IH [OF this, of w1] obtain rs st2 w2 where IH: "one_by_one env qs st1 w1 = (rs, st2, w2)"
    "keeps st1 st2" "list_all2 (\<lambda>q x. \<forall>t. x = Ret (Inr t) \<longrightarrow> asked st1 q t \<and> ended t \<and> recorded st2 t) qs rs"
    "never_fails env \<longrightarrow> (\<forall>x \<in> set rs. \<exists>t. x = Ret (Inr t))" by blast
  have "\<forall>t. x = Inr t \<longrightarrow> recorded st2 t" using IH(2) t(3) by (simp add: keeps_def)
  moreover have "list_all2 (\<lambda>q x. \<forall>t. x = Ret (Inr t) \<longrightarrow> asked st q t \<and> ended t \<and> recorded st2 t) qs rs"
    using IH(3) by (simp add: asked_def)
  ultimately show ?case using t IH keeps_trans [OF t(2) IH(2)] by auto
qed

text \<open>Whatever the agents, the disk and the projects do, threads that run in turn keep the promise of a wave, if no
  fallback chain names an entry twice.\<close>

lemma in_turn_wave_ok:
  assumes "\<And>cs. te_chains t = Inr cs \<Longrightarrow> \<forall>c \<in> set cs. distinct c"
  shows "wave_ok \<lparr>ge_task = t, ge_wave = one_by_one t\<rparr> asked"
  unfolding wave_ok_def
proof (intro allI impI)
  fix qs w and st :: run_state assume "task_db_ok (rs_db st)"
  with one_by_one_ok [of t st qs w] assms obtain rs st' w' where "one_by_one t qs st w = (rs, st', w')" "keeps st st'"
    "list_all2 (\<lambda>q x. \<forall>t. x = Ret (Inr t) \<longrightarrow> asked st q t \<and> ended t \<and> recorded st' t) qs rs" by blast
  then show "case ge_wave \<lparr>ge_task = t, ge_wave = one_by_one t\<rparr> qs st w of (results, st', w') \<Rightarrow> keeps st st' \<and>
      list_all2 (\<lambda>q x. \<forall>t. x = Ret (Inr t) \<longrightarrow> asked st q t \<and> ended t \<and> recorded st' t) qs results" by simp
qed

definition demo_graph_env :: "nat graph_env" where
  "demo_graph_env =
     (let t = (demo_task_env (Inr ()) [])\<lparr>te_project := no_project\<lparr>pj_repo_root := (\<lambda>_. Some ''/r'')\<rparr>\<rparr>
      in \<lparr>ge_task = t, ge_wave = one_by_one t\<rparr>)"

lemma demo_wave_ok: "wave_ok demo_graph_env asked"
  unfolding demo_graph_env_def Let_def by (rule in_turn_wave_ok) (simp add: demo_task_env_def)

theorem graph_run_serves_witness:
  "\<exists>ts st' w'. graph_run demo_graph_env \<lparr>go_cwd = ''/r'', go_real_home = False, go_timeout = 9\<rparr>
      [demo_gn ''b'' [''a''] RcOnSuccess, demo_gn ''a'' [] RcAlways] demo_run 5 = (Ret (Inr ts), st', w') \<and> length ts = 2"
  (is "\<exists>ts st' w'. graph_run ?env ?opts ?g ?st ?w = (Ret (Inr ts), st', w') \<and> _")
proof -
  have r: "needs_rel ?g \<subseteq> {(''a'', ''b'')}" by (auto simp: needs_rel_def find_gn_def demo_gn_def split: if_splits)
  have "acyclic {(''a'', ''b'')}" by (auto simp: acyclic_insert wf_acyclic)
  then have "acyclic (needs_rel ?g)" using r by (rule acyclic_subset)
  then have valid: "graph_validate ?g = Ret (Inr ())"
    by (simp add: graph_validate_def demo_gn_def find_gn_def)
  have repo: "pj_repo_root (te_project (ge_task ?env)) (go_cwd ?opts) \<noteq> None" by (simp add: demo_graph_env_def Let_def)
  have "\<not> wave_failed ?env ?opts ?g ?st e st' w'" for e st' w'
  proof
    assume "wave_failed ?env ?opts ?g ?st e st' w'"
    then obtain os st0 w0 results k where f: "keeps ?st st0" "ge_wave ?env os st0 w0 = (results, st', w')" "k < length results"
      "thread_error (results ! k) e" unfolding wave_failed_def by metis
    have "never_fails (ge_task ?env)" "\<And>cs. te_chains (ge_task ?env) = Inr cs \<Longrightarrow> \<forall>c \<in> set cs. distinct c"
      "ge_wave ?env = one_by_one (ge_task ?env)"
      by (simp_all add: demo_graph_env_def demo_task_env_def never_fails_def artifact_fails_def Let_def)
    then have "\<forall>x \<in> set results. \<exists>t. x = Ret (Inr t)"
      using one_by_one_ok [of "ge_task ?env" st0 os w0] f(1,2) by (auto simp: keeps_def)
    then show False using f(3,4) by (fastforce simp: thread_error_def dest: nth_mem)
  qed
  moreover obtain r st' w' where "graph_run ?env ?opts ?g ?st ?w = (Ret r, st', w')" "\<forall>e. r = Inl e \<longrightarrow> wave_failed ?env ?opts ?g ?st e st' w'"
    "\<forall>ts. r = Inr ts \<longrightarrow> length ts = length ?g"
    using graph_run_serves [OF valid repo demo_wave_ok demo_run_db(1), of ?w] by (fastforce split: sum.splits)
  ultimately show ?thesis by (cases r) auto
qed

section \<open>Reading a plan\<close>

lemma extract_nodes_skip:
  "CHR ''['' \<notin> set pre \<Longrightarrow> extract_nodes from_str (pre @ s) = extract_nodes from_str s"
  by (induction pre) auto

text \<open>A Markdown box to tick is an empty array: it is taken for the plan, whatever plan follows, and the run
  then fails because the graph is empty.\<close>

theorem checkbox_is_a_plan:
  assumes "CHR ''['' \<notin> set pre" "from_str ''[ ]'' = Some []"
  shows "extract_nodes from_str (pre @ ''[ ]'' @ post) = Inr [] \<and>
    graph_run env opts [] st w = (Ret (Inl ''orchestrate-graph needs at least one --task''), st, w)"
proof -
  have "extract_nodes from_str (''[ ]'' @ post) = Inr []" using assms(2) by simp
  then show ?thesis using extract_nodes_skip [OF assms(1)] by (simp add: graph_run_def graph_validate_def)
qed

lemma extract_nodes_sound:
  "extract_nodes from_str s = Inr nodes \<Longrightarrow> \<exists>pre blk post. s = pre @ blk @ post \<and> json_block blk \<and> from_str blk = Some nodes"
proof (induction s)
  case (Cons c cs)
  show ?case
  proof (cases "extract_nodes from_str cs = Inr nodes")
    case True
    with Cons.IH obtain pre blk post where "cs = pre @ blk @ post" "json_block blk" "from_str blk = Some nodes" by blast
    then have "c # cs = (c # pre) @ blk @ post" "json_block blk" "from_str blk = Some nodes" by simp_all
    then show ?thesis by blast
  next
    case False
    with Cons.prems obtain k where k: "c = CHR ''[''" "span_end (CHR ''['') (CHR '']'') 0 0 False False (c # cs) = Some k"
      "from_str (take (k + 1) (c # cs)) = Some nodes"
      by (auto split: if_splits option.splits simp del: span_end.simps)
    let ?blk = "take (k + 1) (c # cs)"
    have "k < length (c # cs)" using span_end_bounds [OF k(2)] by simp
    then have "length ?blk - 1 = k" by simp
    moreover have "span_end (CHR ''['') (CHR '']'') 0 0 False False ?blk = Some k" using span_end_take [OF k(2)] by simp
    ultimately have "json_block ?blk" using k(1) by (simp add: json_block_def closer_of_def)
    moreover have "c # cs = [] @ ?blk @ drop (k + 1) (c # cs)" by (simp only: append_take_drop_id append_Nil)
    ultimately show ?thesis using k(3) by blast
  qed
qed simp

text \<open>A plan that is accepted stands in the artifact of the planner's task, and gives no work to the planner
  or to an agent outside the pool.\<close>

lemma plan_for_workers:
  assumes "plan_nodes env read_file from_str registry mode goal named opts st w = Some (Inr nodes, st', w')"
  shows "\<exists>planner pool. pool = (if named = [] then installed_agents env registry else named) \<and> planner \<in> set pool \<and>
    te_known env planner \<and> te_detected env planner \<and>
    (\<forall>n \<in> set nodes. gn_agent n \<in> set pool \<and> gn_agent n \<noteq> planner) \<and>
    (\<exists>path out. read_file path = Some out \<and> extract_nodes from_str out = Inr nodes)"
proof -
  let ?pool = "if named = [] then installed_agents env registry else named"
  from assms obtain planner text_of path where p: "find (\<lambda>a. te_known env a \<and> te_detected env a) ?pool = Some planner"
    "extract_nodes from_str text_of = Inr nodes" "read_file path = Some text_of"
    "foreign_node planner (filter (\<lambda>a. a \<noteq> planner) ?pool) nodes = None"
    by (auto simp: plan_nodes_def Let_def bind_eq_Some_conv split: if_splits option.splits prod.splits sum.splits)
  from p(4) have "\<forall>n \<in> set nodes. gn_agent n \<in> set ?pool \<and> gn_agent n \<noteq> planner"
    by (auto simp: foreign_node_def find_None_iff)
  moreover from find_SomeD [OF p(1)] have "planner \<in> set ?pool" "te_known env planner" "te_detected env planner" by simp_all
  ultimately show ?thesis using p(2,3) by blast
qed

end
