(* ===== verification/Orchestrate.thy ===== *)
theory Orchestrate
  imports OrchGraph
begin

text \<open>
  Several agents on one goal, \<open>crates/single-runtime/src/orchestrate.rs\<close>: the relay, where each agent gets the
  captured output of the one before it, and the parallel run, whose threads are the field \<open>ge_wave\<close> as in
  \<open>OrchGraph\<close>; the notes they leave are written in the order of the tasks.
\<close>

definition MAX_HANDOFF_CHARS :: nat where "MAX_HANDOFF_CHARS = 4000"

record relay_opts =
  rl_goal :: string
  rl_agents :: "string list"
  rl_cwd :: string
  rl_use_worktree :: bool
  rl_real_home :: bool
  rl_timeout :: nat

definition relay_prompt :: "string \<Rightarrow> (string \<times> string) option \<Rightarrow> string" where
  "relay_prompt goal previous =
     (case previous of
        None \<Rightarrow> goal
      | Some (agent, out) \<Rightarrow>
          ''Overall goal: '' @ goal @ newline @ newline @ ''--- Output from the previous agent ('' @ agent @
          '') in this relay ---'' @ newline @ truncate_text out MAX_HANDOFF_CHARS @ newline @
          ''--- end previous output ---'' @ newline @ newline @ ''Continue this work toward the overall goal above.'')"

definition prepare_shared_cwd :: "'w task_env \<Rightarrow> ('w \<Rightarrow> int) \<Rightarrow> relay_opts \<Rightarrow> 'w \<Rightarrow> string result" where
  "prepare_shared_cwd env now_ms opts w =
     (if \<not> rl_use_worktree opts then Inr (rl_cwd opts)
      else case pj_repo_root (te_project env) (rl_cwd opts) of
        None \<Rightarrow> Inl ''not a git repository; --worktree requires one''
      | Some repo \<Rightarrow>
          (let worktree = te_state_dir env @ ''/worktrees/relay-'' @ dec_int (now_ms w)
           in case te_worktree_add env repo worktree (''single/relay-'' @ dec_int (now_ms w)) of
                Inl e \<Rightarrow> Inl e
              | Inr _ \<Rightarrow> Inr worktree))"

definition step_opts :: "relay_opts \<Rightarrow> string \<Rightarrow> string \<Rightarrow> string \<Rightarrow> task_opts" where
  "step_opts opts cwd description agent =
     \<lparr>op_description = description, op_agent = agent, op_cwd = cwd, op_use_worktree = False, op_account = None,
      op_real_home = rl_real_home opts, op_no_memory_context = False, op_timeout = rl_timeout opts,
      op_allow_fallback = False, op_usage_json = False\<rparr>"

definition log_state :: "'w task_env \<Rightarrow> 'w \<Rightarrow> string \<Rightarrow> string \<Rightarrow> run_state \<Rightarrow> run_state" where
  "log_state env w kind detail st = on_db (record_event (te_now env w) kind detail) st"

definition relay_started :: "relay_opts \<Rightarrow> string" where
  "relay_started opts =
     ''agents='' @ str_join '','' (rl_agents opts) @ '' goal='' @ [CHR 0x22] @ rl_goal opts @ [CHR 0x22]"

definition step_started :: "relay_opts \<Rightarrow> string \<Rightarrow> nat \<Rightarrow> string" where
  "step_started opts agent i = ''agent='' @ agent @ '' step='' @ dec_nat (i + 1) @ ''/'' @ dec_nat (length (rl_agents opts))"

definition step_ended :: "string \<Rightarrow> task_record \<Rightarrow> string" where
  "step_ended agent t = ''agent='' @ agent @ '' task='' @ task_no (t_id t)"

definition relay_finished :: "task_record list \<Rightarrow> string" where
  "relay_finished ts = ''steps_completed='' @ dec_nat (length ts)"

text \<open>The steps from the \<open>i\<close>-th agent on. \<open>None\<close> is a task that does not return.\<close>

fun relay_steps ::
    "'w task_env \<Rightarrow> (string \<Rightarrow> string option) \<Rightarrow> relay_opts \<Rightarrow> string \<Rightarrow> nat \<Rightarrow> string list \<Rightarrow> (string \<times> string) option \<Rightarrow>
     run_state \<Rightarrow> 'w \<Rightarrow> (task_record list result \<times> run_state \<times> 'w) option" where
  "relay_steps env read_file opts cwd i [] previous st w = Some (Inr [], st, w)"
| "relay_steps env read_file opts cwd i (agent # agents) previous st w =
     (let st = log_state env w ''orchestrate.step_started'' (step_started opts agent i) st
      in case task_run env (step_opts opts cwd (relay_prompt (rl_goal opts) previous) agent) st w of
           None \<Rightarrow> None
         | Some (Inl e, st, w) \<Rightarrow> Some (Inl e, st, w)
         | Some (Inr t, st, w) \<Rightarrow>
             (let failed = (t_status t = TsFailed);
                  st = log_state env w (if failed then ''orchestrate.step_failed'' else ''orchestrate.step_completed'')
                         (step_ended agent t) st
              in if failed
                 then Some (Inr [t], log_state env w ''orchestrate.stopped_early''
                        (''after step '' @ dec_nat (i + 1) @ ''/'' @ dec_nat (length (rl_agents opts))) st, w)
                 else case relay_steps env read_file opts cwd (i + 1) agents
                             (map_option (\<lambda>out. (agent, out)) (Option.bind (t_artifact_path t) read_file)) st w of
                   None \<Rightarrow> None
                 | Some (Inl e, st, w) \<Rightarrow> Some (Inl e, st, w)
                 | Some (Inr ts, st, w) \<Rightarrow> Some (Inr (t # ts), st, w)))"

definition relay_run ::
    "'w task_env \<Rightarrow> ('w \<Rightarrow> int) \<Rightarrow> (string \<Rightarrow> string option) \<Rightarrow> relay_opts \<Rightarrow> run_state \<Rightarrow> 'w \<Rightarrow>
     (task_record list result \<times> run_state \<times> 'w) option" where
  "relay_run env now_ms read_file opts st w =
     (if rl_agents opts = [] then Some (Inl ''orchestrate needs at least one --agent'', st, w)
      else case prepare_shared_cwd env now_ms opts w of
        Inl e \<Rightarrow> Some (Inl e, st, w)
      | Inr cwd \<Rightarrow>
          (let st = log_state env w ''orchestrate.started'' (relay_started opts) st
           in case relay_steps env read_file opts cwd 0 (rl_agents opts) None st w of
                None \<Rightarrow> None
              | Some (Inl e, st, w) \<Rightarrow> Some (Inl e, st, w)
              | Some (Inr ts, st, w) \<Rightarrow>
                  Some (Inr ts, log_state env w ''orchestrate.finished'' (relay_finished ts) st, w)))"

section \<open>In parallel\<close>

fun status_debug :: "task_status \<Rightarrow> string" where
  "status_debug TsCreated = ''Created''"
| "status_debug TsRunning = ''Running''"
| "status_debug TsCompleted = ''Completed''"
| "status_debug TsFailed = ''Failed''"
| "status_debug TsCancelled = ''Cancelled''"

definition parallel_note ::
    "'w task_env \<Rightarrow> string \<Rightarrow> string \<Rightarrow> string \<times> string \<Rightarrow> task_record \<Rightarrow> run_state \<Rightarrow> run_state" where
  "parallel_note env ts cwd spec t st =
     (case spec of (agent, description) \<Rightarrow>
        st\<lparr>rs_notes := snd (leave ts (pj_repo_root (te_project env) cwd) agent None (''orchestrate --parallel: '' @ description)
             (case t_summary t of Some s \<Rightarrow> s | None \<Rightarrow> ''status: '' @ status_debug (t_status t)) (rs_notes st))\<rparr>)"

text \<open>Joining the threads: the records of those that came back, the errors of the others.\<close>

fun join_parallel ::
    "'w task_env \<Rightarrow> string \<Rightarrow> string \<Rightarrow> (string \<times> string) list \<Rightarrow> task_record result outcome list \<Rightarrow> run_state \<Rightarrow>
     task_record list \<times> string list \<times> run_state" where
  "join_parallel env ts cwd (q # qs) (x # xs) st =
     (case x of
        Ret (Inr t) \<Rightarrow>
          (case join_parallel env ts cwd qs xs (parallel_note env ts cwd q t st) of
             (records, errors, st) \<Rightarrow> (t # records, errors, st))
      | _ \<Rightarrow>
          (case join_parallel env ts cwd qs xs st of
             (records, errors, st) \<Rightarrow>
               (records, (case x of Ret (Inl e) \<Rightarrow> e | _ \<Rightarrow> ''a parallel task thread panicked'') # errors, st)))"
| "join_parallel env ts cwd _ _ st = ([], [], st)"

definition run_parallel ::
    "'w graph_env \<Rightarrow> graph_opts \<Rightarrow> (string \<times> string) list \<Rightarrow> run_state \<Rightarrow> 'w \<Rightarrow> task_record list result \<times> run_state \<times> 'w" where
  "run_parallel env opts tasks st w =
     (let te = ge_task env
      in if tasks = [] then (Inl ''orchestrate --parallel needs at least one --task <agent>:<description>'', st, w)
         else if pj_repo_root (te_project te) (go_cwd opts) = None
         then (Inl ''not a git repository; --parallel requires one (each agent needs its own worktree)'', st, w)
         else
           (let st = log_state te w ''orchestrate.parallel_started''
                  (''agents='' @ str_join '','' (map fst tasks) @ '' count='' @ dec_nat (length tasks)) st
            in case ge_wave env (map (\<lambda>(agent, description). node_opts opts
                      \<lparr>gn_id = [], gn_agent = agent, gn_description = description, gn_depends_on = [], gn_run_if = RcAlways\<rparr>)
                    tasks) st w of
                 (results, st, w) \<Rightarrow>
                   (case join_parallel te (te_now te w) (go_cwd opts) tasks results st of
                      (records, errors, st) \<Rightarrow>
                        (let st = log_state te w ''orchestrate.parallel_finished''
                               (''completed='' @ dec_nat (length records) @ '' errors='' @ dec_nat (length errors)) st
                         in (if errors \<noteq> [] \<and> records = []
                             then Inl (''every parallel task failed to start: '' @ str_join ''; '' errors)
                             else Inr records, st, w)))))"

section \<open>The relay hands over and stops at the first failure\<close>

fun hand_over ::
    "(string \<Rightarrow> string option) \<Rightarrow> string \<Rightarrow> string \<Rightarrow> (string \<times> string) option \<Rightarrow> string list \<Rightarrow> task_record list \<Rightarrow> bool" where
  "hand_over read_file goal cwd previous agents [] \<longleftrightarrow> agents = []"
| "hand_over read_file goal cwd previous [] (t # ts) \<longleftrightarrow> False"
| "hand_over read_file goal cwd previous (a # as) (t # ts) \<longleftrightarrow>
     t_agent t = a \<and> t_cwd t = cwd \<and> t_description t = relay_prompt goal previous \<and>
     (if t_status t = TsFailed then ts = []
      else hand_over read_file goal cwd (map_option (\<lambda>out. (a, out)) (Option.bind (t_artifact_path t) read_file)) as ts)"

lemma log_state_simps [simp]:
  "recorded (log_state env w k d st) t = recorded st t" "keeps st0 (log_state env w k d st) = keeps st0 st"
  "keeps (log_state env w k d st) st0 = keeps st st0" "task_db_ok (rs_db (log_state env w k d st)) = task_db_ok (rs_db st)"
  by (simp_all add: log_state_def recorded_def keeps_def get_task_def)

lemma relay_steps_ok:
  assumes "\<And>a. a \<in> set agents \<Longrightarrow> te_known env a \<and> te_detected env a" "\<And>i e. \<not> artifact_fails env i e"
    "\<And>cs. te_chains env = Inr cs \<Longrightarrow> \<forall>c \<in> set cs. distinct c" and "task_db_ok (rs_db st)"
  shows "\<exists>ts st' w'. relay_steps env read_file opts cwd i agents previous st w = Some (Inr ts, st', w') \<and> keeps st st' \<and>
    hand_over read_file (rl_goal opts) cwd previous agents ts \<and> (\<forall>t \<in> set ts. ended t \<and> recorded st' t)"
  using assms(1,4)
proof (induction agents arbitrary: i previous st w)
  case Nil
  then show ?case by (simp add: keeps_refl)
next
  case (Cons agent agents)
  define st1 where "st1 = log_state env w ''orchestrate.step_started'' (step_started opts agent i) st"
  define q where "q = step_opts opts cwd (relay_prompt (rl_goal opts) previous) agent"
  have ok1: "task_db_ok (rs_db st1)" using Cons.prems(2) by (simp add: st1_def)
  have "te_known env (op_agent q)" "te_detected env (op_agent q)"
    using Cons.prems(1) [of agent] by (simp_all add: q_def step_opts_def)
  with task_run_ok [where q = q and w = w, OF assms(3) ok1] assms(2) obtain t st2 w2 where
    t: "task_run env q st1 w = Some (Inr t, st2, w2)" "keeps st1 st2" "asked st1 q t" "ended t" "recorded st2 t" by blast
  have fits: "t_agent t = agent" "t_cwd t = cwd" "t_description t = relay_prompt (rl_goal opts) previous"
    using t(3) by (simp_all add: asked_def q_def step_opts_def)
  have k2: "keeps st st2" using t(2) by (simp add: st1_def)
  show ?case
  proof (cases "t_status t = TsFailed")
    case True
    with t fits k2 show ?thesis by (simp add: Let_def st1_def [symmetric] q_def [symmetric])
  next
    case False
    define st3 where "st3 = log_state env w2 ''orchestrate.step_completed'' (step_ended agent t) st2"
    have ok3: "task_db_ok (rs_db st3)" using t(2) by (simp add: st3_def keeps_def)
    from Cons.IH [OF _ ok3, of "i + 1" "map_option (\<lambda>out. (agent, out)) (Option.bind (t_artifact_path t) read_file)" w2] Cons.prems(1)
    obtain ts st' w' where r: "relay_steps env read_file opts cwd (i + 1) agents
        (map_option (\<lambda>out. (agent, out)) (Option.bind (t_artifact_path t) read_file)) st3 w2 = Some (Inr ts, st', w')"
      "keeps st3 st'" "hand_over read_file (rl_goal opts) cwd
        (map_option (\<lambda>out. (agent, out)) (Option.bind (t_artifact_path t) read_file)) agents ts"
      "\<forall>t \<in> set ts. ended t \<and> recorded st' t" by auto
    have k3: "keeps st2 st'" using r(2) by (simp add: st3_def)
    then have "recorded st' t" using t(4,5) by (simp add: keeps_def)
    moreover have "keeps st st'" using keeps_trans [OF k2 k3] .
    moreover have "relay_steps env read_file opts cwd i (agent # agents) previous st w = Some (Inr (t # ts), st', w')"
      using False t(1) r(1) by (simp add: Let_def st1_def [symmetric] q_def [symmetric] st3_def [symmetric])
    ultimately show ?thesis using False fits r(3,4) t(4) by auto
  qed
qed

text \<open>A relay over installed agents returns the records of the agents in order, all of them or up to the first
  that failed. The first agent is asked for the goal, every later one gets the captured output of the
  agent before it, and all work in the same directory.\<close>

theorem relay_hands_over:
  assumes "\<And>a. a \<in> set (rl_agents opts) \<Longrightarrow> te_known env a \<and> te_detected env a" "\<And>i e. \<not> artifact_fails env i e"
    and "\<And>cs. te_chains env = Inr cs \<Longrightarrow> \<forall>c \<in> set cs. distinct c" "task_db_ok (rs_db st)"
    and "rl_agents opts \<noteq> []" "prepare_shared_cwd env now_ms opts w = Inr cwd"
  shows "\<exists>ts st' w'. relay_run env now_ms read_file opts st w = Some (Inr ts, st', w') \<and>
    hand_over read_file (rl_goal opts) cwd None (rl_agents opts) ts \<and> list_all (\<lambda>t. ended t \<and> recorded st' t) ts"
proof -
  define st1 where "st1 = log_state env w ''orchestrate.started'' (relay_started opts) st"
  have "task_db_ok (rs_db st1)" using assms(4) by (simp add: st1_def)
  from relay_steps_ok [OF assms(1-3) this, where i = 0 and previous = None and w = w and cwd = cwd and opts = opts and read_file = read_file]
  obtain ts st' w' where r: "relay_steps env read_file opts cwd 0 (rl_agents opts) None st1 w = Some (Inr ts, st', w')"
    "hand_over read_file (rl_goal opts) cwd None (rl_agents opts) ts" "\<forall>t \<in> set ts. ended t \<and> recorded st' t" by blast
  have "relay_run env now_ms read_file opts st w =
      Some (Inr ts, log_state env w' ''orchestrate.finished'' (relay_finished ts) st', w')"
    using assms(5,6) r(1) by (simp add: relay_run_def st1_def [symmetric])
  with r(2,3) show ?thesis by (auto simp: list_all_iff)
qed

theorem relay_hands_over_witness:
  "\<exists>ts st' w'. relay_run (demo_task_env (Inr ()) []) int (\<lambda>_. Some ''ok'')
      \<lparr>rl_goal = ''g'', rl_agents = [''codex'', ''claude''], rl_cwd = ''/r'', rl_use_worktree = False, rl_real_home = False, rl_timeout = 9\<rparr>
      demo_run 5 = Some (Inr ts, st', w') \<and>
    hand_over (\<lambda>_. Some ''ok'') ''g'' ''/r'' None [''codex'', ''claude''] ts"
proof -
  let ?env = "demo_task_env (Inr ()) []"
  let ?opts = "\<lparr>rl_goal = ''g'', rl_agents = [''codex'', ''claude''], rl_cwd = ''/r'', rl_use_worktree = False,
    rl_real_home = False, rl_timeout = 9\<rparr>"
  have e: "te_known ?env a \<and> te_detected ?env a" "\<not> artifact_fails ?env i x" "te_chains ?env = Inr []" for a i x
    by (simp_all add: demo_task_env_def artifact_fails_def)
  have "prepare_shared_cwd ?env int ?opts 5 = Inr ''/r''" by (simp add: prepare_shared_cwd_def)
  from relay_hands_over [of ?opts ?env demo_run int 5 "''/r''" "\<lambda>_. Some ''ok''"] e this demo_run_db(1) show ?thesis by auto
qed

text \<open>Every parallel task ends as a record or as an error, and only if all are errors is the answer one.\<close>

lemma join_parallel_counts:
  "length qs = length xs \<Longrightarrow> join_parallel env ts cwd qs xs st = (records, errors, st') \<Longrightarrow>
   length records + length errors = length qs"
proof (induction qs xs arbitrary: st records errors st' rule: list_induct2)
  case (Cons q qs x xs)
  show ?case
  proof (cases "\<exists>t. x = Ret (Inr t)")
    case True
    with Cons show ?thesis by (auto split: prod.splits)
  next
    case False
    with Cons show ?thesis by (auto split: prod.splits outcome.splits sum.splits)
  qed
qed simp

end
