(* ===== verification/AgentSlots.thy ===== *)
theory AgentSlots
  imports "HOL-Library.Multiset"
begin

text \<open>
  The counting semaphores of \<open>task.rs\<close>, one per agent with a \<open>max_concurrency\<close>: \<open>acquire_agent_slot\<close> checks the
  count under the mutex and sleeps on the condition variable while no slot is free; the guard's \<open>drop\<close>
  gives the slot back and wakes one sleeper. Threads are told apart by nothing but where they are, so a
  state is the counts and the multiset of the positions; a sleeper may also wake up spuriously. A thread
  holds at most one slot, because the guard is dropped before a fallback run starts.
\<close>

datatype thread_pos = Checking string | Asleep string | Holding string

type_synonym slot_state = "(string \<Rightarrow> nat) \<times> thread_pos multiset"

inductive slot_step :: "(string \<Rightarrow> nat option) \<Rightarrow> slot_state \<Rightarrow> slot_state \<Rightarrow> bool" for caps where
  arrive: "slot_step caps (c, M) (c, add_mset (Checking a) M)"
| unlimited: "caps a = None \<Longrightarrow> slot_step caps (c, add_mset (Checking a) M) (c, add_mset (Holding a) M)"
| take: "caps a = Some limit \<Longrightarrow> c a < limit \<Longrightarrow>
    slot_step caps (c, add_mset (Checking a) M) (c(a := c a + 1), add_mset (Holding a) M)"
| sleep: "caps a = Some limit \<Longrightarrow> \<not> c a < limit \<Longrightarrow>
    slot_step caps (c, add_mset (Checking a) M) (c, add_mset (Asleep a) M)"
| drop_unlimited: "caps a = None \<Longrightarrow> slot_step caps (c, add_mset (Holding a) M) (c, M)"
| drop_wake: "caps a = Some limit \<Longrightarrow>
    slot_step caps (c, add_mset (Holding a) (add_mset (Asleep a) M)) (c(a := c a - 1), add_mset (Checking a) M)"
| drop_quiet: "caps a = Some limit \<Longrightarrow> Asleep a \<notin># M \<Longrightarrow>
    slot_step caps (c, add_mset (Holding a) M) (c(a := c a - 1), M)"
| spurious: "slot_step caps (c, add_mset (Asleep a) M) (c, add_mset (Checking a) M)"

definition no_threads :: slot_state where
  "no_threads = ((\<lambda>a. 0), {#})"

text \<open>The count is the number of holders and stays within the limit; while a thread sleeps, every free slot
  has a thread awake that is about to check for it.\<close>

definition slot_ok :: "(string \<Rightarrow> nat option) \<Rightarrow> slot_state \<Rightarrow> string \<Rightarrow> bool" where
  "slot_ok caps s a \<longleftrightarrow> (case s of (c, M) \<Rightarrow> (case caps a of
     Some limit \<Rightarrow> c a = count M (Holding a) \<and> c a \<le> limit \<and>
       (Asleep a \<in># M \<longrightarrow> limit \<le> c a + count M (Checking a))
   | None \<Rightarrow> Asleep a \<notin># M))"

lemma slot_step_ok: "slot_step caps s s' \<Longrightarrow> slot_ok caps s b \<Longrightarrow> slot_ok caps s' b"
  by (induction rule: slot_step.induct) (auto simp: slot_ok_def split: option.splits if_splits)

text \<open>No agent ever runs more tasks at once than its limit, and no wake-up is lost: while a thread waits
  for a slot of an agent with a positive limit, another thread holds one and will give it back, or a
  slot is free and a waiting thread is awake to take it.\<close>

theorem slots_limited_and_live:
  assumes "(slot_step caps)\<^sup>*\<^sup>* no_threads (c, M)" and "caps a = Some limit"
  shows "count M (Holding a) \<le> limit \<and>
    (0 < limit \<and> (Checking a \<in># M \<or> Asleep a \<in># M) \<longrightarrow>
       Holding a \<in># M \<or>
       (\<exists>N. M = add_mset (Checking a) N \<and> slot_step caps (c, M) (c(a := c a + 1), add_mset (Holding a) N)))"
proof -
  from assms(1) have "slot_ok caps (c, M) a"
  proof (induction rule: rtranclp_induct)
    case base
    show ?case by (simp add: slot_ok_def no_threads_def split: option.split)
  qed (rule slot_step_ok)
  with assms(2) have ok: "c a = count M (Holding a)" "c a \<le> limit" "Asleep a \<in># M \<Longrightarrow> limit \<le> c a + count M (Checking a)"
    by (simp_all add: slot_ok_def)
  have "Holding a \<in># M \<or> (\<exists>N. M = add_mset (Checking a) N \<and> slot_step caps (c, M) (c(a := c a + 1), add_mset (Holding a) N))"
    if "0 < limit" "Checking a \<in># M \<or> Asleep a \<in># M"
  proof (cases "Holding a \<in># M")
    case False
    with ok(1) have c: "c a = 0" by (simp add: not_in_iff)
    have "Checking a \<in># M"
    proof (rule ccontr)
      assume "Checking a \<notin># M"
      moreover from this have "count M (Checking a) = 0" by (simp add: count_eq_zero_iff)
      ultimately show False using ok(3) that c by simp
    qed
    then obtain N where N: "M = add_mset (Checking a) N" by (blast dest: multi_member_split)
    with slot_step.take [where caps = caps and a = a and c = c and M = N and limit = limit] assms(2) c that(1) show ?thesis by auto
  qed simp
  moreover have "count M (Holding a) \<le> limit" using ok(1,2) by simp
  ultimately show ?thesis by blast
qed

definition one_each :: "string \<Rightarrow> nat option" where
  "one_each a = Some 1"

theorem slots_limited_and_live_witness:
  "\<exists>c. (slot_step one_each)\<^sup>*\<^sup>* no_threads (c, {#Asleep ''opencode'', Holding ''opencode''#}) \<and>
     count {#Asleep ''opencode'', Holding ''opencode''#} (Holding ''opencode'') \<le> 1"
proof -
  define c0 where "c0 = (\<lambda>a :: string. 0 :: nat)"
  define a where "a = ''opencode''"
  define c1 where "c1 = c0(a := c0 a + 1)"
  have cap: "one_each a = Some 1" by (simp add: one_each_def)
  have 1: "slot_step one_each no_threads (c0, {#Checking a#})"
    unfolding no_threads_def c0_def by (rule slot_step.arrive)
  have 2: "slot_step one_each (c0, {#Checking a#}) (c1, {#Holding a#})"
    unfolding c1_def by (rule slot_step.take [where limit = 1]) (simp_all add: cap c0_def)
  have 3: "slot_step one_each (c1, {#Holding a#}) (c1, {#Checking a, Holding a#})"
    by (rule slot_step.arrive)
  have 4: "slot_step one_each (c1, {#Checking a, Holding a#}) (c1, {#Asleep a, Holding a#})"
    by (rule slot_step.sleep [where limit = 1]) (simp_all add: cap c1_def)
  from 1 2 have "(slot_step one_each)\<^sup>*\<^sup>* no_threads (c1, {#Holding a#})"
    by (meson rtranclp.rtrancl_into_rtrancl rtranclp.rtrancl_refl)
  with 3 4 have r: "(slot_step one_each)\<^sup>*\<^sup>* no_threads (c1, {#Asleep a, Holding a#})"
    by (meson rtranclp.rtrancl_into_rtrancl)
  from slots_limited_and_live [OF r cap] have "count {#Asleep a, Holding a#} (Holding a) \<le> 1" by blast
  with r show ?thesis unfolding a_def by blast
qed

end
