(* ===== verification/LspFraming.thy ===== *)
theory LspFraming
  imports Json
begin

text \<open>
  The wire framing of the LSP proxy, \<open>crates/single-lsp/src/framing.rs\<close>: \<open>Content-Length\<close> headers, a blank
  line and a body of JSON. A reader is the bytes that are still to come and whether they end in a clean end
  of stream or in an I/O error; a read gives back the reader that is left. \<open>serde_json\<close> and the allocator are
  the record \<open>codec\<close>.
\<close>

record codec =
  cd_to_vec :: "json \<Rightarrow> string"
  cd_from_slice :: "string \<Rightarrow> json option"

record reader =
  rd_bytes :: string
  rd_clean :: bool

datatype frame_error = HeaderLine | BadLength | NoLength | BadBody | BadJson

section \<open>What the standard library does\<close>

text \<open>Well-formed UTF-8, as \<open>str::from_utf8\<close> checks it: the lead byte fixes the range of the second byte and
  the number of continuation bytes.\<close>

definition byte_in :: "nat \<Rightarrow> nat \<Rightarrow> char \<Rightarrow> bool" where
  "byte_in lo hi c = (lo \<le> of_char c \<and> of_char c \<le> hi)"

definition second_range :: "char \<Rightarrow> (nat \<times> nat \<times> nat) option" where
  "second_range c =
     (if byte_in 0xC2 0xDF c then Some (0x80, 0xBF, 0)
      else if byte_in 0xE0 0xE0 c then Some (0xA0, 0xBF, 1)
      else if byte_in 0xE1 0xEC c \<or> byte_in 0xEE 0xEF c then Some (0x80, 0xBF, 1)
      else if byte_in 0xED 0xED c then Some (0x80, 0x9F, 1)
      else if byte_in 0xF0 0xF0 c then Some (0x90, 0xBF, 2)
      else if byte_in 0xF1 0xF3 c then Some (0x80, 0xBF, 2)
      else if byte_in 0xF4 0xF4 c then Some (0x80, 0x8F, 2)
      else None)"

function valid_utf8 :: "string \<Rightarrow> bool" where
  "valid_utf8 [] = True"
| "valid_utf8 (c # s) =
     (if byte_in 0 0x7F c then valid_utf8 s
      else case (second_range c, s) of
        (Some (lo, hi, k), c2 # s') \<Rightarrow>
          byte_in lo hi c2 \<and> k \<le> length s' \<and> list_all is_cont_byte (take k s') \<and> valid_utf8 (drop k s')
      | _ \<Rightarrow> False)"
  by pat_completeness auto
termination
  by (relation "measure length") auto

text \<open>\<open>BufRead::read_line\<close>: up to and with the next line feed, or the rest before the end. \<open>None\<close> is an error:
  the stream breaks, or the line is no UTF-8; the line is consumed in any case.\<close>

definition read_line :: "reader \<Rightarrow> string option \<times> reader" where
  "read_line r =
     (case find_idx (\<lambda>c. c = CHR 0x0A) (rd_bytes r) of
        Some i \<Rightarrow>
          (let line = take (Suc i) (rd_bytes r)
           in (if valid_utf8 line then Some line else None, r\<lparr>rd_bytes := drop (Suc i) (rd_bytes r)\<rparr>))
      | None \<Rightarrow>
          (if rd_clean r \<and> valid_utf8 (rd_bytes r) then Some (rd_bytes r) else None, r\<lparr>rd_bytes := []\<rparr>))"

definition read_exact :: "nat \<Rightarrow> reader \<Rightarrow> string option \<times> reader" where
  "read_exact n r =
     (if n \<le> length (rd_bytes r) then (Some (take n (rd_bytes r)), r\<lparr>rd_bytes := drop n (rd_bytes r)\<rparr>)
      else (None, r\<lparr>rd_bytes := []\<rparr>))"

definition split_once :: "char \<Rightarrow> string \<Rightarrow> (string \<times> string) option" where
  "split_once d s = map_option (\<lambda>i. (take i s, drop (Suc i) s)) (find_idx (\<lambda>c. c = d) s)"

definition eq_ignore_ascii_case :: "string \<Rightarrow> string \<Rightarrow> bool" where
  "eq_ignore_ascii_case a b = (map ascii_lower a = map ascii_lower b)"

section \<open>Reading and writing a message\<close>

text \<open>One header line: the new content length, or the failure of its number.\<close>

definition header_line :: "string \<Rightarrow> u64 option \<Rightarrow> u64 option option" where
  "header_line line len =
     (case split_once (CHR '':'') line of
        Some (name, val) \<Rightarrow>
          if eq_ignore_ascii_case (trim name) ''content-length''
          then map_option Some (parse_u64 (trim val)) else Some len
      | None \<Rightarrow> Some len)"

datatype header_end = AtEof | Failed frame_error | Blank "u64 option"

lemma read_line_shorter:
  "read_line r = (Some line, r') \<Longrightarrow> line \<noteq> [] \<Longrightarrow> length (rd_bytes r') < length (rd_bytes r)"
  by (auto simp: read_line_def Let_def split: option.splits if_splits dest: find_idx_Some)

function read_header :: "u64 option \<Rightarrow> reader \<Rightarrow> header_end \<times> reader" where
  "read_header len r =
     (case read_line r of
        (None, r') \<Rightarrow> (Failed HeaderLine, r')
      | (Some line, r') \<Rightarrow>
          if line = [] then (AtEof, r')
          else if trim_end line = [] then (Blank len, r')
          else case header_line (trim_end line) len of
                 None \<Rightarrow> (Failed BadLength, r')
               | Some len' \<Rightarrow> read_header len' r')"
  by pat_completeness auto
termination
  by (relation "measure (\<lambda>(_, r). length (rd_bytes r))") (auto dest: read_line_shorter [OF sym])

declare read_header.simps [simp del]

text \<open>\<open>vec![0; n]\<close> panics on a capacity above \<open>isize::MAX\<close>.\<close>

definition read_message :: "codec \<Rightarrow> reader \<Rightarrow> ((frame_error + json option) \<times> reader) outcome" where
  "read_message cd r =
     (case read_header None r of
        (AtEof, r1) \<Rightarrow> Ret (Inr None, r1)
      | (Failed e, r1) \<Rightarrow> Ret (Inl e, r1)
      | (Blank None, r1) \<Rightarrow> Ret (Inl NoLength, r1)
      | (Blank (Some n), r1) \<Rightarrow>
          if i64_max < int (unat n) then Panic
          else (case read_exact (unat n) r1 of
                  (None, r2) \<Rightarrow> Ret (Inl BadBody, r2)
                | (Some buf, r2) \<Rightarrow>
                    (case cd_from_slice cd buf of
                       None \<Rightarrow> Ret (Inl BadJson, r2)
                     | Some v \<Rightarrow> Ret (Inr (Some v), r2))))"

definition crlf :: string where
  "crlf = [CHR 0x0D, CHR 0x0A]"

definition write_message :: "codec \<Rightarrow> json \<Rightarrow> string" where
  "write_message cd message =
     (let body = cd_to_vec cd message
      in ''Content-Length: '' @ dec_nat (length body) @ crlf @ crlf @ body)"

text \<open>Reading message after message, as both loops over a stream do it, until the clean end or a failure.\<close>

lemma read_header_shorter:
  "read_header len r = (Blank l, r') \<Longrightarrow> length (rd_bytes r') < length (rd_bytes r)"
proof (induction len r rule: read_header.induct)
  case (1 len r)
  obtain line r1 where rl: "read_line r = (Some line, r1)" and ne: "line \<noteq> []"
    using 1(2) by (subst (asm) read_header.simps) (auto split: prod.splits option.splits if_splits)
  note short = read_line_shorter [OF rl ne]
  show ?case
  proof (cases "trim_end line = []")
    case True
    with 1(2) rl ne short show ?thesis by (simp add: read_header.simps [of len r])
  next
    case False
    then obtain len' where h: "header_line (trim_end line) len = Some len'"
      using 1(2) rl ne by (subst (asm) read_header.simps) (auto split: option.splits)
    with 1(2) rl ne False have "read_header len' r1 = (Blank l, r')"
      by (subst (asm) read_header.simps) simp
    from 1(1) [OF rl [symmetric] _ ne False h this] short show ?thesis by simp
  qed
qed

lemma read_message_shorter:
  assumes "read_message cd r = Ret (Inr (Some v), r')"
  shows "length (rd_bytes r') < length (rd_bytes r)"
proof -
  from assms obtain l r1 where h: "read_header None r = (Blank l, r1)"
    by (auto simp: read_message_def split: prod.splits header_end.splits)
  have "length (rd_bytes r') \<le> length (rd_bytes r1)"
    using assms h by (auto simp: read_message_def read_exact_def split: prod.splits option.splits if_splits)
  with read_header_shorter [OF h] show ?thesis by simp
qed

function read_all :: "codec \<Rightarrow> reader \<Rightarrow> json list \<times> frame_error option outcome" where
  "read_all cd r =
     (case read_message cd r of
        Panic \<Rightarrow> ([], Panic)
      | Ret (Inl e, r') \<Rightarrow> ([], Ret (Some e))
      | Ret (Inr None, r') \<Rightarrow> ([], Ret None)
      | Ret (Inr (Some v), r') \<Rightarrow> (case read_all cd r' of (vs, fin) \<Rightarrow> (v # vs, fin)))"
  by pat_completeness auto
termination
  by (relation "measure (\<lambda>(_, r). length (rd_bytes r))") (auto dest: read_message_shorter)

declare read_all.simps [simp del]

section \<open>A frame is read back\<close>

text \<open>A header that is no content length, as a sender may add one.\<close>

definition other_header :: "string \<Rightarrow> bool" where
  "other_header h \<longleftrightarrow>
     CHR 0x0A \<notin> set h \<and> valid_utf8 (h @ crlf) \<and> trim_end (h @ crlf) \<noteq> [] \<and>
     (\<forall>len. header_line (trim_end (h @ crlf)) len = Some len)"

definition frame :: "codec \<Rightarrow> string list \<times> json \<Rightarrow> string" where
  "frame cd hm = concat (map (\<lambda>h. h @ crlf) (fst hm)) @ write_message cd (snd hm)"

definition readable :: "codec \<Rightarrow> json \<Rightarrow> bool" where
  "readable cd m \<longleftrightarrow> cd_from_slice cd (cd_to_vec cd m) = Some m \<and> int (length (cd_to_vec cd m)) \<le> i64_max"

lemma find_idx_first: "\<forall>x \<in> set a. \<not> p x \<Longrightarrow> p x \<Longrightarrow> find_idx p (a @ x # b) = Some (length a)"
  by (induction a) auto

lemma read_line_crlf:
  assumes "CHR 0x0A \<notin> set h" "valid_utf8 (h @ crlf)"
  shows "read_line \<lparr>rd_bytes = h @ crlf @ s, rd_clean = c\<rparr> = (Some (h @ crlf), \<lparr>rd_bytes = s, rd_clean = c\<rparr>)"
proof -
  have "find_idx (\<lambda>c. c = CHR 0x0A) ((h @ [CHR 0x0D]) @ CHR 0x0A # s) = Some (length (h @ [CHR 0x0D]))"
    using assms(1) by (intro find_idx_first) auto
  with assms(2) show ?thesis by (simp add: read_line_def crlf_def)
qed

lemma trim_end_crlf:
  assumes "h \<noteq> [] \<Longrightarrow> solid_byte (last h)" shows "trim_end (h @ crlf) = h"
proof -
  have 1: "strip_prefix_of (map rev ws_chars) (CHR 0x0A # t) = Some t"
    "strip_prefix_of (map rev ws_chars) (CHR 0x0D # t) = Some t" for t
    by (simp_all add: strip_prefix_of_def ws_chars_def starts_with_def)
  have "strip_all (map rev ws_chars) (rev (h @ crlf)) = strip_all (map rev ws_chars) (rev h)"
    by (simp add: crlf_def strip_all.simps [of _ "CHR 0x0A # _"] strip_all.simps [of _ "CHR 0x0D # _"] 1)
  with trim_end_solid [OF assms] show ?thesis by (simp add: trim_end_def)
qed

lemma read_header_other:
  "other_header h \<Longrightarrow> read_header len \<lparr>rd_bytes = h @ crlf @ s, rd_clean = c\<rparr> =
     read_header len \<lparr>rd_bytes = s, rd_clean = c\<rparr>"
  by (subst read_header.simps) (auto simp: other_header_def read_line_crlf, simp add: crlf_def)

lemma read_header_others:
  "list_all other_header hs \<Longrightarrow>
   read_header len \<lparr>rd_bytes = concat (map (\<lambda>h. h @ crlf) hs) @ s, rd_clean = c\<rparr> =
     read_header len \<lparr>rd_bytes = s, rd_clean = c\<rparr>"
  by (induction hs) (simp_all add: read_header_other)

lemma valid_utf8_ascii: "list_all (byte_in 0 0x7F) s \<Longrightarrow> valid_utf8 s"
  by (induction s) auto

definition length_header :: "nat \<Rightarrow> string" where
  "length_header n = ''Content-Length: '' @ dec_nat n"

lemma length_header_bytes: "list_all (\<lambda>c. byte_in 32 126 c) (length_header n)"
proof -
  have "list_all (byte_in 32 126) (dec_nat n)"
    using dec_nat_digits [of n] by (rule list.pred_mono_strong) (simp add: is_digit_def byte_in_def)
  moreover have "list_all (byte_in 32 126) ''Content-Length: ''" by (simp add: byte_in_def)
  ultimately show ?thesis unfolding length_header_def list_all_append by blast
qed

lemma length_header_line:
  assumes "n \<le> u64_max" shows "header_line (length_header n) len = Some (Some (word_of_nat n))"
proof -
  have 1: "split_once (CHR '':'') (length_header n) = Some (''Content-Length'', CHR '' '' # dec_nat n)"
    by (simp add: split_once_def length_header_def)
  have 2: "trim ''Content-Length'' = ''Content-Length''" by (rule trim_solid) (simp_all add: solid_byte_def)
  have "strip_prefix_of ws_chars (CHR '' '' # t) = Some t" for t
    by (simp add: strip_prefix_of_def ws_chars_def starts_with_def)
  then have "trim_start (CHR '' '' # dec_nat n) = trim_start (dec_nat n)"
    by (simp add: trim_start_def strip_all.simps [of _ "CHR '' '' # _"])
  then have 3: "trim (CHR '' '' # dec_nat n) = dec_nat n"
    by (metis trim_def trim_dec_nat)
  have 4: "eq_ignore_ascii_case ''Content-Length'' ''content-length''"
    by code_simp
  show ?thesis using assms by (simp add: header_line_def 1 2 3 4 parse_u64_dec)
qed

lemma read_header_length:
  assumes "n \<le> u64_max"
  shows "read_header None \<lparr>rd_bytes = length_header n @ crlf @ crlf @ s, rd_clean = c\<rparr> =
    (Blank (Some (word_of_nat n)), \<lparr>rd_bytes = s, rd_clean = c\<rparr>)"
proof -
  let ?h = "length_header n"
  have nl: "CHR 0x0A \<notin> set ?h"
    using length_header_bytes [of n] by (auto simp: list_all_iff byte_in_def)
  have v: "valid_utf8 (?h @ crlf)"
    using length_header_bytes [of n]
    by (intro valid_utf8_ascii) (auto simp: list_all_iff byte_in_def crlf_def)
  have t: "trim_end (?h @ crlf) = ?h"
    using dec_nat_digits [of n] by (intro trim_end_crlf) (simp add: length_header_def digit_solid list_all_iff)
  have ne: "?h \<noteq> []" by (simp add: length_header_def)
  have v0: "valid_utf8 ([] @ crlf)" and t0: "trim_end ([] @ crlf) = []"
    by (intro valid_utf8_ascii, simp add: crlf_def byte_in_def) (intro trim_end_crlf, simp)
  have b: "read_header l \<lparr>rd_bytes = crlf @ s, rd_clean = c\<rparr> = (Blank l, \<lparr>rd_bytes = s, rd_clean = c\<rparr>)" for l
    using read_line_crlf [OF _ v0, of s c] t0
    by (subst read_header.simps) (simp add: crlf_def)
  show ?thesis
    by (subst read_header.simps) (simp add: read_line_crlf [OF nl v] t ne b length_header_line [OF assms])
qed

lemma read_message_frame:
  assumes "list_all other_header hs" and "readable cd m"
  shows "read_message cd \<lparr>rd_bytes = frame cd (hs, m) @ s, rd_clean = c\<rparr> =
    Ret (Inr (Some m), \<lparr>rd_bytes = s, rd_clean = c\<rparr>)"
proof -
  let ?n = "length (cd_to_vec cd m)"
  have n: "?n \<le> u64_max" "int ?n \<le> i64_max" using assms(2) by (auto simp: readable_def i64_max_def u64_max_def)
  then have u: "unat (word_of_nat ?n :: u64) = ?n"
    by (simp add: unat_of_nat u64_max_def)
  have "read_header None \<lparr>rd_bytes = frame cd (hs, m) @ s, rd_clean = c\<rparr> =
      (Blank (Some (word_of_nat ?n)), \<lparr>rd_bytes = cd_to_vec cd m @ s, rd_clean = c\<rparr>)"
    using read_header_others [OF assms(1), of None "length_header ?n @ crlf @ crlf @ cd_to_vec cd m @ s" c]
      read_header_length [OF n(1)]
    by (simp add: frame_def write_message_def Let_def length_header_def)
  with assms(2) n(2) show ?thesis
    by (simp add: read_message_def u read_exact_def readable_def)
qed

text \<open>A length beyond \<open>isize::MAX\<close> is a panic of the thread that reads, not an error.\<close>

lemma huge_length_panics:
  assumes "i64_max < int n" "n \<le> u64_max"
  shows "read_message cd \<lparr>rd_bytes = length_header n @ crlf @ crlf @ s, rd_clean = c\<rparr> = Panic"
proof -
  have "unat (word_of_nat n :: u64) = n" using assms(2) by (simp add: unat_of_nat u64_max_def)
  with assms show ?thesis by (simp add: read_message_def read_header_length)
qed

text \<open>C27: messages that are written one after the other, even with other headers mixed in, are read back one by
  one and nothing else is: the reader ends up exactly behind the last body, at whatever follows.\<close>

theorem frames_round_trip:
  assumes "\<And>hs m. (hs, m) \<in> set fs \<Longrightarrow> list_all other_header hs \<and> readable cd m"
  shows "read_all cd \<lparr>rd_bytes = concat (map (frame cd) fs) @ s, rd_clean = c\<rparr> =
    (case read_all cd \<lparr>rd_bytes = s, rd_clean = c\<rparr> of (vs, fin) \<Rightarrow> (map snd fs @ vs, fin))"
  using assms
proof (induction fs)
  case (Cons f fs)
  obtain hs m where f: "f = (hs, m)" by (cases f)
  with Cons.prems have "list_all other_header hs" "readable cd m" by auto
  note frame = read_message_frame [OF this]
  have "read_all cd \<lparr>rd_bytes = concat (map (frame cd) fs) @ s, rd_clean = c\<rparr> =
      (case read_all cd \<lparr>rd_bytes = s, rd_clean = c\<rparr> of (vs, fin) \<Rightarrow> (map snd fs @ vs, fin))"
    using Cons.IH Cons.prems by (meson list.set_intros(2))
  then show ?case
    by (subst read_all.simps) (simp add: f frame split: prod.splits)
qed (simp split: prod.splits)

definition null_codec :: codec where
  "null_codec = \<lparr>cd_to_vec = (\<lambda>v. ''null''), cd_from_slice = (\<lambda>s. if s = ''null'' then Some JNull else None)\<rparr>"

lemma null_readable: "readable null_codec JNull"
  by (simp add: readable_def null_codec_def i64_max_def)

lemma plain_other_header: "other_header ''A:b''"
proof -
  have t: "trim_end (''A:b'' @ crlf) = ''A:b''" by (rule trim_end_crlf) (simp add: solid_byte_def)
  have e: "\<not> eq_ignore_ascii_case (trim ''A'') ''content-length''" by code_simp
  have v: "valid_utf8 (''A:b'' @ crlf)" by (rule valid_utf8_ascii) (simp add: byte_in_def crlf_def)
  show ?thesis unfolding other_header_def t using e v by (simp add: header_line_def split_once_def)
qed

theorem frames_round_trip_witness:
  "fst (read_all null_codec
     \<lparr>rd_bytes = frame null_codec ([], JNull) @ frame null_codec ([''A:b''], JNull), rd_clean = True\<rparr>) = [JNull, JNull]"
proof -
  have e: "read_all null_codec \<lparr>rd_bytes = [], rd_clean = True\<rparr> = ([], Ret None)"
    by (subst read_all.simps) (simp add: read_message_def read_header.simps read_line_def)
  have f: "list_all other_header hs \<and> readable null_codec m"
    if "(hs, m) \<in> set [([], JNull), ([''A:b''], JNull)]" for hs m
    using that null_readable plain_other_header by auto
  show ?thesis using frames_round_trip [where fs = "[([], JNull), ([''A:b''], JNull)]" and s = "[]" and c = True, OF f] by (simp add: e)
qed

end
