(* ===== verification/LspRouter.thy ===== *)
theory LspRouter
  imports Prelude
begin

text \<open>
  Which language server owns a document: \<open>Router\<close> of \<open>crates/single-lsp/src/proxy.rs\<close>. The two hash maps are
  maps from the lower-cased key to the registry entry.
\<close>

record lsp_spec =
  ls_name :: string
  ls_command :: string
  ls_args :: "string list"
  ls_extensions :: "string list"
  ls_enabled :: bool

record router =
  rt_by_file_name :: "string \<rightharpoonup> lsp_spec"
  rt_by_extension :: "string \<rightharpoonup> lsp_spec"

definition to_ascii_lowercase :: "string \<Rightarrow> string" where
  "to_ascii_lowercase s = map ascii_lower s"

definition or_insert :: "string \<Rightarrow> 'a \<Rightarrow> (string \<rightharpoonup> 'a) \<Rightarrow> (string \<rightharpoonup> 'a)" where
  "or_insert k v m = (case m k of Some _ \<Rightarrow> m | None \<Rightarrow> m(k \<mapsto> v))"

definition add_route :: "lsp_spec \<Rightarrow> string \<Rightarrow> router \<Rightarrow> router" where
  "add_route spec ext rt =
     (if starts_with ''.'' ext
      then rt\<lparr>rt_by_extension := or_insert (to_ascii_lowercase ext) spec (rt_by_extension rt)\<rparr>
      else rt\<lparr>rt_by_file_name := or_insert (to_ascii_lowercase ext) spec (rt_by_file_name rt)\<rparr>)"

definition from_registry :: "lsp_spec list \<Rightarrow> router" where
  "from_registry specs =
     fold (\<lambda>spec rt. fold (add_route spec) (ls_extensions spec) rt) (filter ls_enabled specs)
       \<lparr>rt_by_file_name = Map.empty, rt_by_extension = Map.empty\<rparr>"

definition file_name_of :: "string \<Rightarrow> string" where
  "file_name_of uri =
     (let path = (if starts_with ''file://'' uri then drop 7 uri else uri)
      in case rfind_idx (\<lambda>c. c = CHR ''/'') path of
           Some slash \<Rightarrow> drop (slash + 1) path
         | None \<Rightarrow> path)"

definition extension_of :: "string \<Rightarrow> string option" where
  "extension_of uri =
     (let name = file_name_of uri
      in case rfind_idx (\<lambda>c. c = CHR ''.'') name of
           None \<Rightarrow> None
         | Some dot \<Rightarrow>
             if dot = 0 \<or> dot + 1 = length name then None
             else Some (to_ascii_lowercase (drop dot name)))"

definition route :: "router \<Rightarrow> string \<Rightarrow> lsp_spec option" where
  "route rt uri =
     (case rt_by_file_name rt (to_ascii_lowercase (file_name_of uri)) of
        Some spec \<Rightarrow> Some spec
      | None \<Rightarrow> (case extension_of uri of None \<Rightarrow> None | Some ext \<Rightarrow> rt_by_extension rt ext))"

section \<open>What a route is\<close>

text \<open>Reference: the first enabled entry that lists the key, in any case, with or without a leading dot.\<close>

definition owner :: "(string \<Rightarrow> bool) \<Rightarrow> string \<Rightarrow> lsp_spec list \<Rightarrow> lsp_spec option" where
  "owner dotted k specs =
     find (\<lambda>spec. ls_enabled spec \<and>
       (\<exists>ext \<in> set (ls_extensions spec). dotted ext \<and> to_ascii_lowercase ext = k)) specs"

lemma or_insert_apply: "or_insert k v m x = (case m x of Some y \<Rightarrow> Some y | None \<Rightarrow> if x = k then Some v else None)"
  by (auto simp: or_insert_def split: option.splits)

lemma fold_add_route:
  "rt_by_extension (fold (add_route spec) exts rt) k =
     (case rt_by_extension rt k of Some y \<Rightarrow> Some y
      | None \<Rightarrow> if \<exists>ext \<in> set exts. starts_with ''.'' ext \<and> to_ascii_lowercase ext = k then Some spec else None)"
  "rt_by_file_name (fold (add_route spec) exts rt) k =
     (case rt_by_file_name rt k of Some y \<Rightarrow> Some y
      | None \<Rightarrow> if \<exists>ext \<in> set exts. \<not> starts_with ''.'' ext \<and> to_ascii_lowercase ext = k then Some spec else None)"
  by (induction exts arbitrary: rt) (auto simp: add_route_def or_insert_apply split: option.splits)

lemma from_registry_owner:
  "rt_by_extension (from_registry specs) k = owner (starts_with ''.'') k specs"
  "rt_by_file_name (from_registry specs) k = owner (\<lambda>ext. \<not> starts_with ''.'' ext) k specs"
proof -
  let ?f = "\<lambda>spec rt. fold (add_route spec) (ls_extensions spec) rt"
  have "rt_by_extension (fold ?f (filter ls_enabled specs) rt) k =
      (case rt_by_extension rt k of Some y \<Rightarrow> Some y | None \<Rightarrow> owner (starts_with ''.'') k specs)" for rt
    by (induction specs arbitrary: rt) (auto simp: owner_def fold_add_route split: option.splits)
  then show "rt_by_extension (from_registry specs) k = owner (starts_with ''.'') k specs"
    by (simp add: from_registry_def)
  have "rt_by_file_name (fold ?f (filter ls_enabled specs) rt) k =
      (case rt_by_file_name rt k of Some y \<Rightarrow> Some y | None \<Rightarrow> owner (\<lambda>ext. \<not> starts_with ''.'' ext) k specs)" for rt
    by (induction specs arbitrary: rt) (auto simp: owner_def fold_add_route split: option.splits)
  then show "rt_by_file_name (from_registry specs) k = owner (\<lambda>ext. \<not> starts_with ''.'' ext) k specs"
    by (simp add: from_registry_def)
qed

text \<open>A document belongs to the first enabled registry entry that lists its file name, and when none does
  to the first that lists its extension, whatever the case of either; no later or disabled entry ever
  takes a document over.\<close>

theorem route_is_first_owner:
  "route (from_registry specs) uri =
     (case owner (\<lambda>ext. \<not> starts_with ''.'' ext) (to_ascii_lowercase (file_name_of uri)) specs of
        Some spec \<Rightarrow> Some spec
      | None \<Rightarrow> (case extension_of uri of
           None \<Rightarrow> None | Some ext \<Rightarrow> owner (starts_with ''.'') ext specs))"
  by (simp add: route_def from_registry_owner split: option.split)

end
