(* ===== verification/LspProxy.thy ===== *)
theory LspProxy
  imports LspFraming LspRouter "HOL-Library.Multiset"
begin

text \<open>
  The multiplexer of the LSP proxy, \<open>crates/single-lsp/src/proxy.rs\<close> and \<open>main.rs\<close>, as a step relation. The
  client thread, one reader thread per language server and the writer thread interleave between any two
  acquisitions of a lock; the position of each thread is where it is in the code. A message on a pipe is a
  JSON value (its framing is \<open>LspFraming\<close>), and what a server sends, when a pipe breaks or a server cannot be
  started is open: those are the choices of a step. A server process is a number; \<open>mx_wires\<close> is what was
  written to it, \<open>mx_in\<close> what the client has sent. An allocated id is private to its thread until it is put
  in a table, so both are one step. The id counter is an \<open>int\<close>: a session does not use up an \<open>i64\<close>.
\<close>

section \<open>Messages\<close>

definition msg_id :: "json \<Rightarrow> json option" where
  "msg_id m = (case jget ''id'' m of Some v \<Rightarrow> if v = JNull then None else Some v | None \<Rightarrow> None)"

definition msg_method :: "json \<Rightarrow> string option" where
  "msg_method m = Option.bind (jget ''method'' m) as_str"

fun as_i64 :: "json \<Rightarrow> int option" where
  "as_i64 (JNum (PosInt n)) = (if int (unat n) \<le> i64_max then Some (int (unat n)) else None)"
| "as_i64 (JNum (NegInt i)) = Some i"
| "as_i64 _ = None"

definition from_i64 :: "int \<Rightarrow> json" where
  "from_i64 i = JNum (if 0 \<le> i then PosInt (word_of_int i) else NegInt i)"

definition extract_uri :: "json \<Rightarrow> string option" where
  "extract_uri m =
     (let params = jget ''params'' m;
          doc = Option.bind (Option.bind params (jget ''textDocument'')) (jget ''uri'');
          bare = Option.bind params (jget ''uri'')
      in Option.bind (case doc of Some v \<Rightarrow> Some v | None \<Rightarrow> bare) as_str)"

definition method_not_found :: int where
  "method_not_found = - 32601"

definition internal_error :: int where
  "internal_error = - 32603"

definition response :: "json \<Rightarrow> string \<Rightarrow> json \<Rightarrow> json" where
  "response i k v = jobj [(''jsonrpc'', JStr ''2.0''), (''id'', i), (k, v)]"

definition error_response :: "json \<Rightarrow> int \<Rightarrow> string \<Rightarrow> json" where
  "error_response i code message =
     response i ''error'' (jobj [(''code'', from_i64 code), (''message'', JStr message)])"

definition initialize_result :: "string \<Rightarrow> json" where
  "initialize_result version =
     (let yes = JBool True in
      jobj
        [(''capabilities'', jobj
           [(''textDocumentSync'', jobj [(''openClose'', yes), (''change'', from_i64 1)]),
            (''hoverProvider'', yes), (''definitionProvider'', yes), (''typeDefinitionProvider'', yes),
            (''implementationProvider'', yes), (''referencesProvider'', yes),
            (''documentHighlightProvider'', yes), (''documentSymbolProvider'', yes),
            (''workspaceSymbolProvider'', yes), (''codeActionProvider'', yes), (''renameProvider'', yes),
            (''documentFormattingProvider'', yes),
            (''completionProvider'', jobj [(''resolveProvider'', JBool False)]),
            (''signatureHelpProvider'', jobj [(''triggerCharacters'', JArr [JStr ''('', JStr '',''])])]),
         (''serverInfo'', jobj [(''name'', JStr ''single-lsp''), (''version'', JStr version)])])"

definition not_running :: "string \<Rightarrow> string" where
  "not_running name = ''language server `'' @ name @ ''` is not running''"

definition exited :: "string \<Rightarrow> string" where
  "exited name = ''language server `'' @ name @ ''` exited''"

section \<open>The state\<close>

text \<open>Where the client thread is: in the loop of \<open>main\<close>, in \<open>handle_client_message\<close> with the message it
  handles, or in \<open>close_client_output\<close>. \<open>Reply m True\<close> is the reply to \<open>exit\<close>. \<open>Ended True\<close> has seen all readers drained.\<close>

datatype client_pos = Idle
  | Answer int json | Relay string json
  | Init json | Reply json bool
  | ShutKeys json | Shut "string list" json
  | Lookup json string | Ensure json string lsp_spec | Enlist json string string | Deliver json string string
  | Submit json string | Send "int option" string json | Stranded "int option" string
  | Clear | Waiting | Sentinel bool | Ended bool

text \<open>Where a reader thread is: in its loop, about to send a message on, or in the four critical sections of
  \<open>retire_backend\<close>, its error replies and the final count.\<close>

datatype reader_pos = Reading | Forward json
  | Unlist | ForgetUris | ForgetServer | Sweep | Failing "json list"

datatype writer_pos = Writing | Finished | HungUp

type_synonym reader_thread = "nat \<times> string \<times> reader_pos"

record mux =
  mx_router :: router
  mx_version :: string
  mx_backends :: "string \<rightharpoonup> nat"
  mx_uris :: "string \<rightharpoonup> string"
  mx_next_id :: int
  mx_pending :: "(int \<times> json \<times> string) list"
  mx_pending_server :: "int \<rightharpoonup> json \<times> string"
  mx_init :: "json option"
  mx_live :: nat
  mx_spawned :: nat
  mx_wires :: "nat \<Rightarrow> json list"
  mx_in :: "json list"
  mx_queue :: "json list"
  mx_stdout :: "json list"
  mx_client :: client_pos
  mx_readers :: "reader_thread multiset"
  mx_writer :: writer_pos

definition new_mux :: "router \<Rightarrow> string \<Rightarrow> mux" where
  "new_mux rt version =
     \<lparr>mx_router = rt, mx_version = version, mx_backends = Map.empty, mx_uris = Map.empty, mx_next_id = 1,
      mx_pending = [], mx_pending_server = Map.empty, mx_init = None, mx_live = 0, mx_spawned = 0,
      mx_wires = (\<lambda>p. []), mx_in = [], mx_queue = [], mx_stdout = [],
      mx_client = Idle, mx_readers = {#}, mx_writer = Writing\<rparr>"

definition send_to_client :: "json \<Rightarrow> mux \<Rightarrow> mux" where
  "send_to_client m s = (if mx_writer s = Writing then s\<lparr>mx_queue := mx_queue s @ [m]\<rparr> else s)"

text \<open>\<open>broken\<close> is the text of the error when the write fails.\<close>

definition send_to_backend :: "string \<Rightarrow> json \<Rightarrow> string option \<Rightarrow> mux \<Rightarrow> string option \<times> mux" where
  "send_to_backend name m broken s =
     (case mx_backends s name of
        None \<Rightarrow> (Some (not_running name), s)
      | Some p \<Rightarrow>
          (case broken of
             Some e \<Rightarrow> (Some e, s)
           | None \<Rightarrow> (None, s\<lparr>mx_wires := (mx_wires s)(p := mx_wires s p @ [m])\<rparr>)))"

datatype spawn_fate = Spawned | NoSpawn string | NoHandshake string

definition initialize_params :: "mux \<Rightarrow> json" where
  "initialize_params s =
     (case mx_init s of
        Some v \<Rightarrow> v
      | None \<Rightarrow> jobj [(''processId'', JNull), (''rootUri'', JNull), (''capabilities'', JObj [])])"

definition handshake :: "mux \<Rightarrow> json list" where
  "handshake s =
     [jobj [(''jsonrpc'', JStr ''2.0''), (''id'', from_i64 (mx_next_id s)),
        (''method'', JStr ''initialize''), (''params'', initialize_params s)],
      jobj [(''jsonrpc'', JStr ''2.0''), (''method'', JStr ''initialized''), (''params'', JObj [])]]"

definition ensure_backend :: "lsp_spec \<Rightarrow> spawn_fate \<Rightarrow> mux \<Rightarrow> string option \<times> mux" where
  "ensure_backend spec fate s =
     (if mx_backends s (ls_name spec) \<noteq> None then (None, s)
      else case fate of
        NoSpawn e \<Rightarrow> (Some (''spawning language server `'' @ ls_command spec @ ''`: '' @ e), s)
      | NoHandshake e \<Rightarrow>
          (Some (''initializing language server `'' @ ls_name spec @ ''`: '' @ e), s\<lparr>mx_next_id := mx_next_id s + 1\<rparr>)
      | Spawned \<Rightarrow>
          (let p = mx_spawned s
           in (None, s\<lparr>mx_next_id := mx_next_id s + 1, mx_spawned := p + 1,
                       mx_wires := (mx_wires s)(p := handshake s),
                       mx_backends := (mx_backends s)(ls_name spec \<mapsto> p),
                       mx_live := mx_live s + 1,
                       mx_readers := add_mset (p, ls_name spec, Reading) (mx_readers s)\<rparr>)))"

section \<open>The client thread\<close>

definition is_exit :: "json \<Rightarrow> bool" where
  "is_exit m = (msg_method m = Some ''exit'')"

definition after :: "bool \<Rightarrow> client_pos" where
  "after last_one = (if last_one then Clear else Idle)"

definition refuse :: "json \<Rightarrow> int \<Rightarrow> string \<Rightarrow> client_pos" where
  "refuse m code text =
     (case msg_id m of Some i \<Rightarrow> Reply (error_response i code text) False | None \<Rightarrow> Idle)"

text \<open>The branch that \<open>handle_client_message\<close> takes for a message.\<close>

definition dispatch :: "json \<Rightarrow> client_pos" where
  "dispatch m =
     (case msg_method m of
        None \<Rightarrow> (case Option.bind (msg_id m) as_i64 of Some i \<Rightarrow> Answer i m | None \<Rightarrow> Idle)
      | Some method \<Rightarrow>
          if method = ''initialize'' then Init m
          else if method = ''shutdown'' \<or> method = ''exit'' then ShutKeys m
          else (case extract_uri m of
                  None \<Rightarrow> refuse m method_not_found
                    (''single-lsp cannot route `'' @ method @ ''`: no document URI in its params'')
                | Some uri \<Rightarrow> Lookup m uri))"

definition lookup_uri :: "json \<Rightarrow> string \<Rightarrow> mux \<Rightarrow> client_pos" where
  "lookup_uri m uri s =
     (case mx_uris s uri of
        Some name \<Rightarrow> Deliver m uri name
      | None \<Rightarrow>
          (case route (mx_router s) uri of
             None \<Rightarrow> refuse m method_not_found (''no LSP server registered for '' @ uri)
           | Some spec \<Rightarrow> Ensure m uri spec))"

definition submit :: "json \<Rightarrow> string \<Rightarrow> mux \<Rightarrow> mux" where
  "submit m name s =
     (case msg_id m of
        None \<Rightarrow> s\<lparr>mx_client := Send None name m\<rparr>
      | Some i \<Rightarrow>
          (let assigned = mx_next_id s
           in s\<lparr>mx_next_id := assigned + 1, mx_pending := mx_pending s @ [(assigned, i, name)],
                mx_client := Send (Some assigned) name (jput ''id'' (from_i64 assigned) m)\<rparr>))"

definition take_pending :: "int \<Rightarrow> mux \<Rightarrow> mux" where
  "take_pending i s = s\<lparr>mx_pending := filter (\<lambda>e. fst e \<noteq> i) (mx_pending s)\<rparr>"

definition strand :: "int option \<Rightarrow> string \<Rightarrow> mux \<Rightarrow> mux" where
  "strand proxy_id text s =
     (case Option.bind proxy_id (map_of (mx_pending s)) of
        Some (client_id, _) \<Rightarrow>
          (take_pending (the proxy_id) s)\<lparr>mx_client := Reply (error_response client_id internal_error text) False\<rparr>
      | None \<Rightarrow> s\<lparr>mx_client := Idle\<rparr>)"

inductive client_step :: "mux \<Rightarrow> mux \<Rightarrow> bool" where
  answer: "mx_client s = Answer i m \<Longrightarrow> mx_pending_server s i = Some (server_id, name) \<Longrightarrow>
    client_step s (s\<lparr>mx_pending_server := (mx_pending_server s)(i := None),
      mx_client := Relay name (jput ''id'' server_id m)\<rparr>)"
| answer_unknown: "mx_client s = Answer i m \<Longrightarrow> mx_pending_server s i = None \<Longrightarrow>
    client_step s (s\<lparr>mx_client := Idle\<rparr>)"
| relay: "mx_client s = Relay name m \<Longrightarrow> send_to_backend name m broken s = (e, t) \<Longrightarrow>
    client_step s (t\<lparr>mx_client := Idle\<rparr>)"
| initialize: "mx_client s = Init m \<Longrightarrow>
    client_step s (s\<lparr>mx_init := jget ''params'' m,
      mx_client := (case msg_id m of
          Some i \<Rightarrow> Reply (response i ''result'' (initialize_result (mx_version s))) False | None \<Rightarrow> Idle)\<rparr>)"
| reply: "mx_client s = Reply m last_one \<Longrightarrow>
    client_step s ((send_to_client m s)\<lparr>mx_client := after last_one\<rparr>)"
| shut_keys: "mx_client s = ShutKeys m \<Longrightarrow> distinct names \<Longrightarrow> set names = dom (mx_backends s) \<Longrightarrow>
    client_step s (s\<lparr>mx_client := Shut names m\<rparr>)"
| shut_plain: "mx_client s = Shut (name # names) m \<Longrightarrow> jget ''id'' m = None \<Longrightarrow>
    send_to_backend name m broken s = (e, t) \<Longrightarrow> client_step s (t\<lparr>mx_client := Shut names m\<rparr>)"
| shut_id: "mx_client s = Shut (name # names) m \<Longrightarrow> jget ''id'' m \<noteq> None \<Longrightarrow>
    send_to_backend name (jput ''id'' (from_i64 (mx_next_id s)) m) broken (s\<lparr>mx_next_id := mx_next_id s + 1\<rparr>) = (e, t) \<Longrightarrow>
    client_step s (t\<lparr>mx_client := Shut names m\<rparr>)"
| shut_done: "mx_client s = Shut [] m \<Longrightarrow>
    client_step s (s\<lparr>mx_client := (case msg_id m of
        Some i \<Rightarrow> Reply (response i ''result'' JNull) (is_exit m) | None \<Rightarrow> after (is_exit m))\<rparr>)"
| look_up: "mx_client s = Lookup m uri \<Longrightarrow> client_step s (s\<lparr>mx_client := lookup_uri m uri s\<rparr>)"
| ensured: "mx_client s = Ensure m uri spec \<Longrightarrow> ensure_backend spec fate s = (None, t) \<Longrightarrow>
    client_step s (t\<lparr>mx_client := Enlist m uri (ls_name spec)\<rparr>)"
| not_ensured: "mx_client s = Ensure m uri spec \<Longrightarrow> ensure_backend spec fate s = (Some e, t) \<Longrightarrow>
    client_step s (t\<lparr>mx_client := refuse m internal_error e\<rparr>)"
| enlist: "mx_client s = Enlist m uri name \<Longrightarrow>
    client_step s (s\<lparr>mx_uris := (mx_uris s)(uri \<mapsto> name), mx_client := Deliver m uri name\<rparr>)"
| deliver: "mx_client s = Deliver m uri name \<Longrightarrow>
    client_step s (s\<lparr>mx_uris := (if msg_method m = Some ''textDocument/didClose'' then (mx_uris s)(uri := None)
        else mx_uris s), mx_client := Submit m name\<rparr>)"
| submit: "mx_client s = Submit m name \<Longrightarrow> client_step s (submit m name s)"
| sent: "mx_client s = Send proxy_id name m \<Longrightarrow> send_to_backend name m broken s = (None, t) \<Longrightarrow>
    client_step s (t\<lparr>mx_client := Idle\<rparr>)"
| not_sent: "mx_client s = Send proxy_id name m \<Longrightarrow> send_to_backend name m broken s = (Some e, t) \<Longrightarrow>
    client_step s (t\<lparr>mx_client := Stranded proxy_id e\<rparr>)"
| stranded: "mx_client s = Stranded proxy_id text \<Longrightarrow> client_step s (strand proxy_id text s)"

text \<open>\<open>main\<close> around it: the next message, the end of the client's stream, a frame that cannot be read (\<open>main\<close>
  returns at once), and \<open>close_client_output\<close>, whose wait ends when no reader lives or after its timeout.\<close>

inductive main_step :: "mux \<Rightarrow> mux \<Rightarrow> bool" where
  read: "mx_client s = Idle \<Longrightarrow> main_step s (s\<lparr>mx_in := mx_in s @ [m], mx_client := dispatch m\<rparr>)"
| end_of_input: "mx_client s = Idle \<Longrightarrow> main_step s (s\<lparr>mx_client := Clear\<rparr>)"
| bad_frame: "mx_client s = Idle \<Longrightarrow> main_step s (s\<lparr>mx_client := Ended False\<rparr>)"
| clear: "mx_client s = Clear \<Longrightarrow> main_step s (s\<lparr>mx_backends := Map.empty, mx_client := Waiting\<rparr>)"
| drained: "mx_client s = Waiting \<Longrightarrow> mx_live s = 0 \<Longrightarrow> main_step s (s\<lparr>mx_client := Sentinel True\<rparr>)"
| timed_out: "mx_client s = Waiting \<Longrightarrow> 0 < mx_live s \<Longrightarrow> main_step s (s\<lparr>mx_client := Sentinel False\<rparr>)"
| sentinel: "mx_client s = Sentinel b \<Longrightarrow> main_step s ((send_to_client JNull s)\<lparr>mx_client := Ended b\<rparr>)"

section \<open>The reader threads\<close>

definition move :: "reader_thread \<Rightarrow> reader_thread \<Rightarrow> mux \<Rightarrow> mux" where
  "move r r' s = s\<lparr>mx_readers := add_mset r' (mx_readers s - {#r#})\<rparr>"

text \<open>What a reader makes of a message of its server: it may put an id in a table or take one out, and it
  forwards a message or drops it.\<close>

definition receive :: "string \<Rightarrow> json \<Rightarrow> mux \<Rightarrow> mux \<times> json option" where
  "receive name m s =
     (case (jget ''method'' m, msg_id m) of
        (Some _, Some server_id) \<Rightarrow>
          (let proxy_id = mx_next_id s
           in (s\<lparr>mx_next_id := proxy_id + 1,
                 mx_pending_server := (mx_pending_server s)(proxy_id \<mapsto> (server_id, name))\<rparr>,
               Some (jput ''id'' (from_i64 proxy_id) m)))
      | (Some _, None) \<Rightarrow> (s, Some m)
      | (None, Some i) \<Rightarrow>
          (case as_i64 i of
             None \<Rightarrow> (s, None)
           | Some i \<Rightarrow>
               (case map_of (mx_pending s) i of
                  Some (client_id, owned_by) \<Rightarrow>
                    if owned_by = name then (take_pending i s, Some (jput ''id'' client_id m)) else (s, None)
                | None \<Rightarrow> (s, None)))
      | (None, None) \<Rightarrow> (s, None))"

inductive reader_step :: "mux \<Rightarrow> mux \<Rightarrow> bool" where
  got_some: "(p, name, Reading) \<in># mx_readers s \<Longrightarrow> receive name m s = (t, Some out) \<Longrightarrow>
    reader_step s (move (p, name, Reading) (p, name, Forward out) t)"
| got_nothing: "(p, name, Reading) \<in># mx_readers s \<Longrightarrow> receive name m s = (t, None) \<Longrightarrow> reader_step s t"
| forward: "(p, name, Forward out) \<in># mx_readers s \<Longrightarrow> mx_writer s = Writing \<Longrightarrow>
    reader_step s (move (p, name, Forward out) (p, name, Reading) (send_to_client out s))"
| client_gone: "(p, name, Forward out) \<in># mx_readers s \<Longrightarrow> mx_writer s \<noteq> Writing \<Longrightarrow>
    reader_step s (move (p, name, Forward out) (p, name, Unlist) s)"
| server_gone: "(p, name, Reading) \<in># mx_readers s \<Longrightarrow>
    reader_step s (move (p, name, Reading) (p, name, Unlist) s)"
| unlist: "(p, name, Unlist) \<in># mx_readers s \<Longrightarrow>
    reader_step s (move (p, name, Unlist) (p, name, ForgetUris) (s\<lparr>mx_backends := (mx_backends s)(name := None)\<rparr>))"
| forget_uris: "(p, name, ForgetUris) \<in># mx_readers s \<Longrightarrow>
    reader_step s (move (p, name, ForgetUris) (p, name, ForgetServer)
      (s\<lparr>mx_uris := (\<lambda>uri. if mx_uris s uri = Some name then None else mx_uris s uri)\<rparr>))"
| forget_server: "(p, name, ForgetServer) \<in># mx_readers s \<Longrightarrow>
    reader_step s (move (p, name, ForgetServer) (p, name, Sweep)
      (s\<lparr>mx_pending_server := (\<lambda>i. case mx_pending_server s i of
          Some (v, owned_by) \<Rightarrow> if owned_by = name then None else Some (v, owned_by) | None \<Rightarrow> None)\<rparr>))"
| sweep: "(p, name, Sweep) \<in># mx_readers s \<Longrightarrow>
    mset orphaned = mset (map (fst \<circ> snd) (filter (\<lambda>e. snd (snd e) = name) (mx_pending s))) \<Longrightarrow>
    reader_step s (move (p, name, Sweep) (p, name, Failing orphaned)
      (s\<lparr>mx_pending := filter (\<lambda>e. snd (snd e) \<noteq> name) (mx_pending s)\<rparr>))"
| fail_one: "(p, name, Failing (client_id # orphaned)) \<in># mx_readers s \<Longrightarrow>
    reader_step s (move (p, name, Failing (client_id # orphaned)) (p, name, Failing orphaned)
      (send_to_client (error_response client_id internal_error (exited name)) s))"
| leave: "(p, name, Failing []) \<in># mx_readers s \<Longrightarrow>
    reader_step s (s\<lparr>mx_live := mx_live s - 1, mx_readers := mx_readers s - {#(p, name, Failing [])#}\<rparr>)"

text \<open>A reader that panics, as \<open>read_message\<close> does on an absurd content length, is gone without any of this.\<close>

inductive reader_panic :: "mux \<Rightarrow> mux \<Rightarrow> bool" where
  blow_up: "(p, name, Reading) \<in># mx_readers s \<Longrightarrow>
    reader_panic s (s\<lparr>mx_readers := mx_readers s - {#(p, name, Reading)#}\<rparr>)"

section \<open>The writer thread\<close>

inductive writer_step :: "mux \<Rightarrow> mux \<Rightarrow> bool" where
  stop: "mx_writer s = Writing \<Longrightarrow> mx_queue s = JNull # q \<Longrightarrow>
    writer_step s (s\<lparr>mx_writer := Finished, mx_queue := []\<rparr>)"
| written: "mx_writer s = Writing \<Longrightarrow> mx_queue s = m # q \<Longrightarrow> m \<noteq> JNull \<Longrightarrow>
    writer_step s (s\<lparr>mx_queue := q, mx_stdout := mx_stdout s @ [m]\<rparr>)"
| hang_up: "mx_writer s = Writing \<Longrightarrow> mx_queue s = m # q \<Longrightarrow> m \<noteq> JNull \<Longrightarrow>
    writer_step s (s\<lparr>mx_writer := HungUp, mx_queue := []\<rparr>)"

definition mux_step :: "mux \<Rightarrow> mux \<Rightarrow> bool" where
  "mux_step s t \<longleftrightarrow> client_step s t \<or> main_step s t \<or> reader_step s t \<or> writer_step s t"

end
