(* ===== verification/LspSession.thy ===== *)
theory LspSession
  imports LspProxy
begin

text \<open>
  What the multiplexer keeps in every interleaving: where each request of the client is, who is still
  responsible for it, and that a clean end loses no answer.
\<close>

section \<open>Requests and answers\<close>

definition is_answer :: "json \<Rightarrow> json \<Rightarrow> bool" where
  "is_answer v m \<longleftrightarrow> jget ''method'' m = None \<and> jget ''id'' m = Some v"

definition is_request :: "json \<Rightarrow> json \<Rightarrow> bool" where
  "is_request v m \<longleftrightarrow> msg_method m \<noteq> None \<and> msg_id m = Some v"

definition answers :: "json \<Rightarrow> json list \<Rightarrow> nat" where
  "answers v ms = length (filter (is_answer v) ms)"

definition requests :: "json \<Rightarrow> json list \<Rightarrow> nat" where
  "requests v ms = length (filter (is_request v) ms)"

lemma answers_simps [simp]:
  "answers v [] = 0" "answers v (m # ms) = of_bool (is_answer v m) + answers v ms"
  "answers v (ms @ ms') = answers v ms + answers v ms'"
  by (simp_all add: answers_def)

lemma requests_simps [simp]:
  "requests v [] = 0" "requests v (ms @ [m]) = requests v ms + of_bool (is_request v m)"
  by (simp_all add: requests_def)

lemma map_of_insert_entry_any: "map_of (insert_entry k v kvs) x = (if x = k then Some v else map_of kvs x)"
  by (induction kvs) auto

lemma jget_jput_obj: "jget x (jput k v (JObj kvs)) = (if x = k then Some v else jget x (JObj kvs))"
  by (simp add: map_of_insert_entry_any)

lemma jget_SomeE: "jget k m = Some v \<Longrightarrow> \<exists>kvs. m = JObj kvs"
  by (cases m) auto

lemma msg_id_Some: "msg_id m = Some v \<longleftrightarrow> jget ''id'' m = Some v \<and> v \<noteq> JNull"
  by (auto simp: msg_id_def split: option.splits)

lemma is_answer_null [simp]: "\<not> is_answer v JNull"
  by (simp add: is_answer_def)

lemma is_answer_jput_id:
  "msg_id m = Some i \<Longrightarrow> is_answer v (jput ''id'' w m) \<longleftrightarrow> jget ''method'' m = None \<and> v = w"
  by (cases m) (auto simp: msg_id_Some is_answer_def map_of_insert_entry_any)

lemma is_answer_response: "k \<noteq> ''method'' \<Longrightarrow> k \<noteq> ''id'' \<Longrightarrow> is_answer v (response i k w) \<longleftrightarrow> v = i"
  by (auto simp: is_answer_def response_def jobj_def map_of_insert_entry_any)

lemma is_answer_error [simp]: "is_answer v (error_response i code text) \<longleftrightarrow> v = i"
  by (simp add: error_response_def is_answer_response)

section \<open>Who owes what\<close>

fun held :: "json \<Rightarrow> reader_thread \<Rightarrow> nat" where
  "held v (p, name, Forward m) = of_bool (is_answer v m)"
| "held v (p, name, Failing orphaned) = count (mset orphaned) v"
| "held v r = 0"

fun inflight :: "json \<Rightarrow> client_pos \<Rightarrow> nat" where
  "inflight v (Init m) = of_bool (is_request v m)"
| "inflight v (Reply m l) = of_bool (is_answer v m)"
| "inflight v (ShutKeys m) = of_bool (is_request v m)"
| "inflight v (Shut ns m) = of_bool (is_request v m)"
| "inflight v (Lookup m uri) = of_bool (is_request v m)"
| "inflight v (Ensure m uri spec) = of_bool (is_request v m)"
| "inflight v (Enlist m uri name) = of_bool (is_request v m)"
| "inflight v (Deliver m uri name) = of_bool (is_request v m)"
| "inflight v (Submit m name) = of_bool (is_request v m)"
| "inflight v pos = 0"

definition pending_ids :: "(int \<times> json \<times> string) list \<Rightarrow> json multiset" where
  "pending_ids ps = mset (map (fst \<circ> snd) ps)"

definition owed :: "json \<Rightarrow> mux \<Rightarrow> nat" where
  "owed v s = count (pending_ids (mx_pending s)) v + inflight v (mx_client s) + (\<Sum>r \<in># mx_readers s. held v r)"

definition balanced :: "mux \<Rightarrow> bool" where
  "balanced s \<longleftrightarrow> (mx_writer s = Writing \<longrightarrow>
     (\<forall>v. requests v (mx_in s) = answers v (mx_stdout s @ mx_queue s) + owed v s))"

text \<open>The position at which a message with a method is a message that the client thread still handles.\<close>

fun handled :: "client_pos \<Rightarrow> json option" where
  "handled (Init m) = Some m"
| "handled (ShutKeys m) = Some m"
| "handled (Shut ns m) = Some m"
| "handled (Lookup m uri) = Some m"
| "handled (Ensure m uri spec) = Some m"
| "handled (Enlist m uri name) = Some m"
| "handled (Deliver m uri name) = Some m"
| "handled (Submit m name) = Some m"
| "handled pos = None"

fun sending :: "client_pos \<Rightarrow> int option" where
  "sending (Send i name m) = i"
| "sending (Stranded i text) = i"
| "sending pos = None"

definition ids_ok :: "mux \<Rightarrow> bool" where
  "ids_ok s \<longleftrightarrow>
     distinct (map fst (mx_pending s)) \<and> (\<forall>e \<in> set (mx_pending s). fst e < mx_next_id s) \<and>
     (\<forall>m. handled (mx_client s) = Some m \<longrightarrow> msg_method m \<noteq> None)"

lemma ids_okD:
  assumes "ids_ok s"
  shows "distinct (map fst (mx_pending s))" "e \<in> set (mx_pending s) \<Longrightarrow> fst e < mx_next_id s"
    "handled (mx_client s) = Some m \<Longrightarrow> msg_method m \<noteq> None"
  using assms by (auto simp: ids_ok_def)

lemma sum_move: "r \<in># R \<Longrightarrow> (\<Sum>x \<in># add_mset r' (R - {#r#}). f x) + f r = (\<Sum>x \<in># R. f x) + (f r' :: nat)"
  by (auto dest!: multi_member_split)

lemma pending_ids_take:
  assumes "distinct (map fst ps)" "map_of ps i = Some (c, name)"
  shows "count (pending_ids (filter (\<lambda>e. fst e \<noteq> i) ps)) v + of_bool (v = c) = count (pending_ids ps) v"
  using assms
proof (induction ps)
  case (Cons e ps)
  show ?case
  proof (cases "fst e = i")
    case True
    with Cons.prems have "filter (\<lambda>e. fst e \<noteq> i) ps = ps" by (auto simp: filter_id_conv image_iff)
    with True Cons.prems show ?thesis by (cases e) (simp add: pending_ids_def)
  qed (use Cons in \<open>cases e; auto simp: pending_ids_def\<close>)
qed simp

lemma pending_ids_split:
  "pending_ids (filter (\<lambda>e. snd (snd e) \<noteq> name) ps) + mset (map (fst \<circ> snd) (filter (\<lambda>e. snd (snd e) = name) ps)) =
   pending_ids ps"
  by (induction ps) (auto simp: pending_ids_def)

lemma pending_ids_snoc [simp]: "pending_ids (ps @ [(i, c, name)]) = add_mset c (pending_ids ps)"
  by (simp add: pending_ids_def)

section \<open>The tables of ids\<close>

lemma send_to_backend_frame [frame_simps]:
  assumes "send_to_backend name m broken s = (e, t)"
  shows "mx_pending t = mx_pending s" "mx_next_id t = mx_next_id s" "mx_backends t = mx_backends s"
    "mx_readers t = mx_readers s" "mx_queue t = mx_queue s" "mx_stdout t = mx_stdout s" "mx_in t = mx_in s"
    "mx_writer t = mx_writer s" "mx_live t = mx_live s" "mx_uris t = mx_uris s" "mx_client t = mx_client s"
    "mx_spawned t = mx_spawned s"
  using assms by (auto simp: send_to_backend_def split: option.splits)

lemma send_to_client_frame [simp]:
  "mx_pending (send_to_client m s) = mx_pending s" "mx_next_id (send_to_client m s) = mx_next_id s"
  "mx_backends (send_to_client m s) = mx_backends s" "mx_readers (send_to_client m s) = mx_readers s"
  "mx_stdout (send_to_client m s) = mx_stdout s" "mx_in (send_to_client m s) = mx_in s"
  "mx_writer (send_to_client m s) = mx_writer s" "mx_live (send_to_client m s) = mx_live s"
  "mx_uris (send_to_client m s) = mx_uris s" "mx_client (send_to_client m s) = mx_client s"
  "mx_spawned (send_to_client m s) = mx_spawned s"
  "mx_queue (send_to_client m s) = (if mx_writer s = Writing then mx_queue s @ [m] else mx_queue s)"
  by (simp_all add: send_to_client_def)

lemma move_frame [simp]:
  "mx_pending (move r r' s) = mx_pending s" "mx_next_id (move r r' s) = mx_next_id s"
  "mx_backends (move r r' s) = mx_backends s" "mx_readers (move r r' s) = add_mset r' (mx_readers s - {#r#})"
  "mx_stdout (move r r' s) = mx_stdout s" "mx_in (move r r' s) = mx_in s" "mx_queue (move r r' s) = mx_queue s"
  "mx_writer (move r r' s) = mx_writer s" "mx_live (move r r' s) = mx_live s" "mx_uris (move r r' s) = mx_uris s"
  "mx_client (move r r' s) = mx_client s" "mx_spawned (move r r' s) = mx_spawned s"
  by (simp_all add: move_def)

lemma after_handled [simp]:
  "handled (after l) = None" "sending (after l) = None" "inflight v (after l) = 0"
  "handled (refuse m code text) = None" "sending (refuse m code text) = None"
  by (simp_all add: after_def refuse_def split: option.split)

lemma not_send [simp]: "refuse m code text \<noteq> Send i n m'" "after l \<noteq> Send i n m'"
  by (simp_all add: refuse_def after_def split: option.split)

lemma inflight_refuse [simp]: "msg_method m \<noteq> None \<Longrightarrow> inflight v (refuse m code text) = of_bool (is_request v m)"
  by (auto simp: refuse_def is_request_def split: option.split)

lemma dispatch_spec:
  "sending (dispatch m) = None \<and> (\<forall>m'. handled (dispatch m) = Some m' \<longrightarrow> m' = m \<and> msg_method m \<noteq> None) \<and>
   inflight v (dispatch m) = of_bool (is_request v m)"
  by (auto simp: dispatch_def is_request_def split: option.splits)

lemma lookup_spec:
  "sending (lookup_uri m uri s) = None \<and> (\<forall>m'. handled (lookup_uri m uri s) = Some m' \<longrightarrow> m' = m) \<and>
   (msg_method m \<noteq> None \<longrightarrow> inflight v (lookup_uri m uri s) = of_bool (is_request v m))"
  by (auto simp: lookup_uri_def split: option.split)

lemma client_ids: "client_step s t \<Longrightarrow> ids_ok s \<Longrightarrow> ids_ok t"
proof (induction rule: client_step.induct)
  case (look_up s m uri)
  then show ?case using lookup_spec [of m uri s] by (auto simp: ids_ok_def)
next
  case (ensured s m uri spec fate t)
  then show ?case
    by (fastforce simp: ids_ok_def ensure_backend_def Let_def split: if_splits spawn_fate.splits)
next
  case (not_ensured s m uri spec fate e t)
  then show ?case
    by (fastforce simp: ids_ok_def ensure_backend_def Let_def split: if_splits spawn_fate.splits)
next
  case (submit s m name)
  then show ?case by (auto simp: ids_ok_def submit_def Let_def image_iff less_Suc_eq split: option.split)
next
  case (stranded s proxy_id why)
  then show ?case
    by (auto simp: ids_ok_def strand_def take_pending_def distinct_map_filter split: option.split)
qed (fastforce simp: ids_ok_def frame_simps split: option.split)+

text \<open>The four things a reader may do with a message.\<close>

lemma receive_cases:
  assumes "receive name m s = (t, out)"
  obtains
    (request) server_id where "jget ''method'' m \<noteq> None" "msg_id m = Some server_id"
      "t = s\<lparr>mx_next_id := mx_next_id s + 1,
             mx_pending_server := (mx_pending_server s)(mx_next_id s \<mapsto> (server_id, name))\<rparr>"
      "out = Some (jput ''id'' (from_i64 (mx_next_id s)) m)"
  | (notification) "jget ''method'' m \<noteq> None" "msg_id m = None" "t = s" "out = Some m"
  | (response) i client_id where "jget ''method'' m = None" "Option.bind (msg_id m) as_i64 = Some i"
      "map_of (mx_pending s) i = Some (client_id, name)" "t = take_pending i s"
      "out = Some (jput ''id'' client_id m)"
  | (dropped) "t = s" "out = None"
proof (cases "jget ''method'' m")
  case (Some w)
  show ?thesis
  proof (cases "msg_id m")
    case None2: None
    with assms Some have "t = s" "out = Some m" by (simp_all add: receive_def)
    with Some None2 notification show ?thesis by simp
  next
    case Some2: (Some v)
    with assms Some have "t = s\<lparr>mx_next_id := mx_next_id s + 1,
             mx_pending_server := (mx_pending_server s)(mx_next_id s \<mapsto> (v, name))\<rparr>"
      and "out = Some (jput ''id'' (from_i64 (mx_next_id s)) m)" by (auto simp: receive_def Let_def)
    with Some Some2 request show ?thesis by simp
  qed
next
  case None
  show ?thesis
  proof (cases "Option.bind (msg_id m) as_i64")
    case None2: None
    with assms None dropped show ?thesis by (cases "msg_id m") (simp_all add: receive_def)
  next
    case (Some i)
    then obtain v where v: "msg_id m = Some v" "as_i64 v = Some i" by (cases "msg_id m") auto
    show ?thesis
    proof (cases "\<exists>c. map_of (mx_pending s) i = Some (c, name)")
      case True
      then obtain c where "map_of (mx_pending s) i = Some (c, name)" by blast
      with assms None Some v response show ?thesis by (simp add: receive_def)
    next
      case False
      with assms None v dropped show ?thesis by (auto simp: receive_def split: option.splits if_splits)
    qed
  qed
qed

lemma receive_ids: "receive name m s = (t, out) \<Longrightarrow> ids_ok s \<Longrightarrow> ids_ok t"
proof (erule receive_cases)
  fix server_id
  assume "ids_ok s" and t: "t = s\<lparr>mx_next_id := mx_next_id s + 1,
             mx_pending_server := (mx_pending_server s)(mx_next_id s \<mapsto> (server_id, name))\<rparr>"
  then show "ids_ok t" unfolding t ids_ok_def by fastforce
qed (simp_all add: ids_ok_def take_pending_def distinct_map_filter)

lemma reader_ids: "reader_step s t \<Longrightarrow> ids_ok s \<Longrightarrow> ids_ok t"
proof (induction rule: reader_step.induct)
  case (got_some p name s m t out)
  from receive_ids [OF got_some.hyps(2) got_some.prems] show ?case by (simp add: ids_ok_def)
next
  case (got_nothing p name s m t)
  from receive_ids [OF got_nothing.hyps(2) got_nothing.prems] show ?case .
qed (auto simp: ids_ok_def distinct_map_filter)

section \<open>The balance\<close>

lemma is_request_iff: "msg_method m \<noteq> None \<Longrightarrow> is_request v m \<longleftrightarrow> msg_id m = Some v"
  by (simp add: is_request_def)

lemma client_balanced: "client_step s t \<Longrightarrow> ids_ok s \<Longrightarrow> balanced s \<Longrightarrow> balanced t"
proof (induction rule: client_step.induct)
  case (look_up s m uri)
  from ids_okD(3) [OF look_up.prems(1)] look_up.hyps have "msg_method m \<noteq> None" by simp
  with look_up lookup_spec [of m uri s] show ?case by (auto simp: balanced_def owed_def)
next
  case (ensured s m uri spec fate t)
  then show ?case
    by (auto simp: balanced_def owed_def ensure_backend_def Let_def split: if_splits spawn_fate.splits)
next
  case (not_ensured s m uri spec fate e t)
  from ids_okD(3) [OF not_ensured.prems(1)] not_ensured.hyps(1) have "msg_method m \<noteq> None" by simp
  with not_ensured show ?case
    by (auto simp: balanced_def owed_def ensure_backend_def Let_def split: if_splits spawn_fate.splits)
next
  case (submit s m name)
  from ids_okD(3) [OF submit.prems(1)] submit.hyps(1) have "msg_method m \<noteq> None" by simp
  with submit show ?case
    by (auto simp: balanced_def owed_def submit_def Let_def is_request_iff split: option.split)
next
  case (stranded s proxy_id why)
  show ?case
  proof (cases "Option.bind proxy_id (map_of (mx_pending s))")
    case None
    with stranded show ?thesis by (simp add: balanced_def owed_def strand_def)
  next
    case (Some e)
    obtain c name where e: "e = (c, name)" by (cases e)
    from Some e obtain i where i: "proxy_id = Some i" "map_of (mx_pending s) i = Some (c, name)"
      by (cases proxy_id) auto
    note taken = pending_ids_take [OF ids_okD(1) [OF stranded.prems(1)] i(2)]
    have "owed v (strand proxy_id why s) = owed v s" for v
      using stranded.hyps taken [of v] by (simp add: owed_def strand_def i take_pending_def)
    with stranded.prems(2) i show ?thesis
      by (simp add: balanced_def strand_def take_pending_def)
  qed
next
  case (initialize s m)
  from ids_okD(3) [OF initialize.prems(1)] initialize.hyps(1) have "msg_method m \<noteq> None" by simp
  with initialize show ?case
    by (auto simp: balanced_def owed_def is_request_iff is_answer_response split: option.split)
next
  case (shut_done s m)
  from ids_okD(3) [OF shut_done.prems(1)] shut_done.hyps(1) have "msg_method m \<noteq> None" by simp
  with shut_done show ?case
    by (auto simp: balanced_def owed_def is_request_iff is_answer_response split: option.split)
qed (auto simp: balanced_def owed_def frame_simps)

lemma owed_move: "r \<in># mx_readers s \<Longrightarrow> owed v (move r r' s) + held v r = owed v s + held v r'"
  using sum_move [of r "mx_readers s" "held v" r'] by (simp add: owed_def)

lemma balanced_move:
  assumes "balanced s" "r \<in># mx_readers s" "mx_writer s = Writing \<Longrightarrow> \<forall>v. held v r' = held v r"
  shows "balanced (move r r' s)"
  using assms owed_move [OF assms(2), of _ r'] by (auto simp: balanced_def)

lemma receive_balanced:
  assumes "receive name m s = (t, out)" and "ids_ok s"
  shows "mx_readers t = mx_readers s \<and> mx_writer t = mx_writer s \<and> mx_in t = mx_in s \<and> mx_queue t = mx_queue s \<and>
    mx_stdout t = mx_stdout s \<and>
    owed v s = owed v t + (case out of Some m' \<Rightarrow> of_bool (is_answer v m') | None \<Rightarrow> 0)"
  using assms(1)
proof (cases rule: receive_cases)
  case (request server_id)
  from request(2) have "\<not> is_answer v (jput ''id'' (from_i64 (mx_next_id s)) m)"
    by (simp add: is_answer_jput_id request(1))
  with request show ?thesis by (simp add: owed_def)
next
  case (response i c)
  from response(2) obtain w where "msg_id m = Some w" by (cases "msg_id m") auto
  then have "is_answer v (jput ''id'' c m) \<longleftrightarrow> v = c" by (simp add: is_answer_jput_id response(1))
  with response pending_ids_take [OF ids_okD(1) [OF assms(2)] response(3), of v] show ?thesis
    by (simp add: owed_def take_pending_def)
qed (simp_all add: is_answer_def)

lemma reader_balanced: "reader_step s t \<Longrightarrow> ids_ok s \<Longrightarrow> balanced s \<Longrightarrow> balanced t"
proof (induction rule: reader_step.induct)
  case (got_some p name s m t out)
  note r = receive_balanced [OF got_some.hyps(2) got_some.prems(1)]
  have "(p, name, Reading) \<in># mx_readers t" using r got_some.hyps(1) by simp
  then have "owed v (move (p, name, Reading) (p, name, Forward out) t) = owed v s" for v
    using owed_move [of "(p, name, Reading)" t v "(p, name, Forward out)"] r [of v] by simp
  with r got_some.prems(2) show ?case by (simp add: balanced_def)
next
  case (got_nothing p name s m t)
  note r = receive_balanced [OF got_nothing.hyps(2) got_nothing.prems(1)]
  then have "owed v t = owed v s" for v using r [of v] by simp
  with r got_nothing.prems(2) show ?case by (simp add: balanced_def)
next
  case (forward p name out s)
  let ?t = "move (p, name, Forward out) (p, name, Reading) (send_to_client out s)"
  have "owed v s = owed v ?t + of_bool (is_answer v out)" for v
    using owed_move [of "(p, name, Forward out)" "send_to_client out s" v "(p, name, Reading)"] forward.hyps(1)
    by (simp add: owed_def)
  with forward show ?case by (auto simp: balanced_def)
next
  case (fail_one p name c cs s)
  let ?m = "error_response c internal_error (exited name)"
  let ?t = "move (p, name, Failing (c # cs)) (p, name, Failing cs) (send_to_client ?m s)"
  have "owed v s = owed v ?t + of_bool (v = c)" for v
    using owed_move [of "(p, name, Failing (c # cs))" "send_to_client ?m s" v "(p, name, Failing cs)"] fail_one.hyps(1)
    by (auto simp: owed_def)
  with fail_one show ?case by (auto simp: balanced_def)
next
  case (sweep p name s orphaned)
  let ?s = "s\<lparr>mx_pending := filter (\<lambda>e. snd (snd e) \<noteq> name) (mx_pending s)\<rparr>"
  let ?t = "move (p, name, Sweep) (p, name, Failing orphaned) ?s"
  have "owed v ?t = owed v s" for v
  proof -
    have "count (pending_ids (mx_pending s)) v =
        count (pending_ids (filter (\<lambda>e. snd (snd e) \<noteq> name) (mx_pending s))) v + count (mset orphaned) v"
      unfolding sweep.hyps(2) pending_ids_split [of name "mx_pending s", symmetric] by simp
    with owed_move [of "(p, name, Sweep)" ?s v "(p, name, Failing orphaned)"] sweep.hyps(1) show ?thesis
      by (simp add: owed_def)
  qed
  with sweep.prems(2) show ?case by (simp add: balanced_def)
next
  case (leave p name s)
  then have "(\<Sum>r \<in># mx_readers s - {#(p, name, Failing [])#}. held v r) = (\<Sum>r \<in># mx_readers s. held v r)" for v
    by (auto dest!: multi_member_split)
  with leave show ?case by (simp add: balanced_def owed_def)
next
  case (client_gone p name out s)
  then show ?case by (intro balanced_move) auto
next
  case (server_gone p name s)
  then show ?case by (intro balanced_move) auto
qed (intro balanced_move; auto simp: balanced_def owed_def)+

lemma main_balanced: "main_step s t \<Longrightarrow> balanced s \<Longrightarrow> balanced t"
proof (induction rule: main_step.induct)
  case (read s m)
  with dispatch_spec [of m] show ?case by (simp add: balanced_def owed_def)
qed (auto simp: balanced_def owed_def)

lemma main_ids: "main_step s t \<Longrightarrow> ids_ok s \<Longrightarrow> ids_ok t"
proof (induction rule: main_step.induct)
  case (read s m)
  with dispatch_spec [of m] show ?case by (auto simp: ids_ok_def)
qed (auto simp: ids_ok_def)

lemma writer_ids: "writer_step s t \<Longrightarrow> ids_ok s \<Longrightarrow> ids_ok t"
  by (induction rule: writer_step.induct) (auto simp: ids_ok_def)

lemma writer_balanced: "writer_step s t \<Longrightarrow> balanced s \<Longrightarrow> balanced t"
  by (induction rule: writer_step.induct) (auto simp: balanced_def owed_def)

lemma mux_ids: "mux_step s t \<Longrightarrow> ids_ok s \<Longrightarrow> ids_ok t"
  unfolding mux_step_def using client_ids main_ids reader_ids writer_ids by blast

lemma mux_balanced: "mux_step s t \<Longrightarrow> ids_ok s \<Longrightarrow> balanced s \<Longrightarrow> balanced t"
  unfolding mux_step_def using client_balanced main_balanced reader_balanced writer_balanced by blast

section \<open>Nobody is forgotten\<close>

fun listens :: "string \<Rightarrow> reader_thread \<Rightarrow> bool" where
  "listens n (p, name, pos) \<longleftrightarrow> name = n \<and> (case pos of Reading \<Rightarrow> True | Forward m \<Rightarrow> True | Unlist \<Rightarrow> True | _ \<Rightarrow> False)"

fun sweeps :: "string \<Rightarrow> reader_thread \<Rightarrow> bool" where
  "sweeps n (p, name, pos) \<longleftrightarrow> name = n \<and> (case pos of Failing cs \<Rightarrow> False | _ \<Rightarrow> True)"

lemma listens_sweeps: "listens n r \<Longrightarrow> sweeps n r"
  by (cases r) (auto split: reader_pos.splits)

text \<open>A server on the list has a reader that listens to it, a pending request has a reader that will answer or
  fail it (but for the one the client thread is just sending), and the count of readers is exact.\<close>

definition heard :: "mux \<Rightarrow> bool" where
  "heard s \<longleftrightarrow> (\<forall>n. mx_backends s n \<noteq> None \<longrightarrow> (\<exists>r \<in># mx_readers s. listens n r))"

definition cared :: "mux \<Rightarrow> bool" where
  "cared s \<longleftrightarrow> (\<forall>e \<in> set (mx_pending s). sending (mx_client s) = Some (fst e) \<or>
     (\<exists>r \<in># mx_readers s. sweeps (snd (snd e)) r))"

definition sent_to :: "mux \<Rightarrow> bool" where
  "sent_to s \<longleftrightarrow> (\<forall>i n m e. mx_client s = Send (Some i) n m \<longrightarrow> e \<in> set (mx_pending s) \<longrightarrow> fst e = i \<longrightarrow> snd (snd e) = n)"

definition counted :: "mux \<Rightarrow> bool" where
  "counted s \<longleftrightarrow> mx_live s = size (mx_readers s)"

lemma bex_move:
  assumes "\<exists>x \<in># R. P x" "r \<in># R" "P r \<Longrightarrow> P r'"
  shows "\<exists>x \<in># add_mset r' (R - {#r#}). P x"
proof -
  from assms(2) obtain A where "R = add_mset r A" by (blast dest: multi_member_split)
  with assms(1,3) show ?thesis by auto
qed

lemma heard_move:
  "heard s \<Longrightarrow> r \<in># mx_readers s \<Longrightarrow> (\<And>n. listens n r \<Longrightarrow> listens n r') \<Longrightarrow> heard (move r r' s)"
  unfolding heard_def move_frame by (blast intro: bex_move)

lemma client_heard: "client_step s t \<Longrightarrow> heard s \<Longrightarrow> heard t"
proof (induction rule: client_step.induct)
  case (ensured s m uri spec fate t)
  then show ?case by (auto simp: heard_def ensure_backend_def Let_def split: if_splits spawn_fate.splits)
next
  case (not_ensured s m uri spec fate e t)
  then show ?case by (auto simp: heard_def ensure_backend_def Let_def split: if_splits spawn_fate.splits)
next
  case (stranded s proxy_id why)
  then show ?case by (auto simp: heard_def strand_def take_pending_def split: option.split)
qed (auto simp: heard_def frame_simps submit_def Let_def split: option.split)

lemma receive_frame:
  assumes "receive name m s = (t, out)"
  shows "mx_backends t = mx_backends s" "mx_readers t = mx_readers s" "mx_client t = mx_client s"
    "mx_live t = mx_live s" "set (mx_pending t) \<subseteq> set (mx_pending s)" "mx_writer t = mx_writer s"
    "mx_queue t = mx_queue s" "mx_stdout t = mx_stdout s" "mx_in t = mx_in s" "mx_uris t = mx_uris s"
    "mx_spawned t = mx_spawned s"
  using assms by (auto elim!: receive_cases simp: take_pending_def)

lemma reader_heard: "reader_step s t \<Longrightarrow> heard s \<Longrightarrow> heard t"
proof (induction rule: reader_step.induct)
  case (got_some p name s m t out)
  then have "heard t" "(p, name, Reading) \<in># mx_readers t"
    by (simp_all add: heard_def receive_frame [OF got_some.hyps(2)])
  then show ?case by (rule heard_move) simp
next
  case (got_nothing p name s m t)
  then show ?case by (simp add: heard_def receive_frame [OF got_nothing.hyps(2)])
next
  case (unlist p name s)
  show ?case unfolding heard_def
  proof (intro allI impI)
    fix n assume "mx_backends (move (p, name, Unlist) (p, name, ForgetUris)
        (s\<lparr>mx_backends := (mx_backends s)(name := None)\<rparr>)) n \<noteq> None"
    then have n: "n \<noteq> name" "mx_backends s n \<noteq> None" by (auto split: if_splits)
    with unlist.prems have "\<exists>r \<in># mx_readers s. listens n r" by (auto simp: heard_def)
    from bex_move [OF this unlist.hyps(1), of "(p, name, ForgetUris)"] n(1)
    show "\<exists>r \<in># mx_readers (move (p, name, Unlist) (p, name, ForgetUris)
        (s\<lparr>mx_backends := (mx_backends s)(name := None)\<rparr>)). listens n r" by simp
  qed
next
  case (leave p name s)
  then show ?case by (fastforce simp: heard_def dest!: multi_member_split)
qed (rule heard_move, simp add: heard_def, simp, simp)+

lemma cared_move:
  "cared s \<Longrightarrow> r \<in># mx_readers s \<Longrightarrow> (\<And>n. sweeps n r \<Longrightarrow> sweeps n r') \<Longrightarrow> cared (move r r' s)"
  unfolding cared_def move_frame by (blast intro: bex_move)

lemma client_cared:
  "client_step s t \<Longrightarrow> ids_ok s \<Longrightarrow> heard s \<Longrightarrow> sent_to s \<Longrightarrow> cared s \<Longrightarrow> cared t \<and> sent_to t"
proof (induction rule: client_step.induct)
  case (look_up s m uri)
  with lookup_spec [of m uri s] show ?case by (auto simp: cared_def sent_to_def)
next
  case (ensured s m uri spec fate t)
  then show ?case
    by (auto simp: cared_def sent_to_def ensure_backend_def Let_def split: if_splits spawn_fate.splits) force
next
  case (not_ensured s m uri spec fate e t)
  then show ?case
    by (auto simp: cared_def sent_to_def ensure_backend_def Let_def split: if_splits spawn_fate.splits) force+
next
  case (submit s m name)
  have fresh: "e \<in> set (mx_pending s) \<Longrightarrow> fst e \<noteq> mx_next_id s" for e
    using ids_okD(2) [OF submit.prems(1), of e] by auto
  from submit show ?case
    by (auto simp: cared_def sent_to_def submit_def Let_def split: option.split dest: fresh)
next
  case (sent s proxy_id name m broken t)
  from sent.hyps have "mx_backends s name \<noteq> None" by (auto simp: send_to_backend_def split: option.splits)
  with sent.prems(2) obtain r where "r \<in># mx_readers s" "listens name r" by (auto simp: heard_def)
  then have sw: "\<exists>r \<in># mx_readers s. sweeps name r" by (blast intro: listens_sweeps)
  have own: "proxy_id = Some (fst e) \<Longrightarrow> snd (snd e) = name" if "e \<in> set (mx_pending s)" for e
    using that sent.hyps(1) sent.prems(3) unfolding sent_to_def by blast
  have "\<exists>r \<in># mx_readers s. sweeps (snd (snd e)) r" if e: "e \<in> set (mx_pending s)" for e
  proof (cases "proxy_id = Some (fst e)")
    case True
    show ?thesis using own [OF e True] sw by simp
  next
    case False
    with e sent.hyps(1) sent.prems(4) show ?thesis unfolding cared_def by fastforce
  qed
  then show ?case by (simp add: cared_def sent_to_def frame_simps [OF sent.hyps(2)])
next
  case (stranded s proxy_id why)
  show ?case
  proof (cases "Option.bind proxy_id (map_of (mx_pending s))")
    case None
    then have "e \<in> set (mx_pending s) \<Longrightarrow> proxy_id \<noteq> Some (fst e)" for e
      by (cases e) (auto simp: map_of_eq_None_iff rev_image_eqI split: option.splits)
    with None stranded show ?thesis by (auto simp: cared_def sent_to_def strand_def)
  next
    case (Some e)
    then obtain i where "proxy_id = Some i" by (cases proxy_id) auto
    with Some stranded show ?thesis
      by (cases e) (auto simp: cared_def sent_to_def strand_def take_pending_def, force)
  qed
qed (auto simp: cared_def sent_to_def frame_simps split: option.split if_splits)

lemma reader_cared: "reader_step s t \<Longrightarrow> cared s \<Longrightarrow> cared t"
proof (induction rule: reader_step.induct)
  case (got_some p name s m t out)
  then have "cared t" "(p, name, Reading) \<in># mx_readers t"
    using receive_frame [OF got_some.hyps(2)] by (auto simp: cared_def)
  then show ?case by (rule cared_move) simp
next
  case (got_nothing p name s m t)
  then show ?case using receive_frame [OF got_nothing.hyps(2)] by (auto simp: cared_def)
next
  case (sweep p name s orphaned)
  let ?s = "s\<lparr>mx_pending := filter (\<lambda>e. snd (snd e) \<noteq> name) (mx_pending s)\<rparr>"
  show ?case unfolding cared_def
  proof
    fix e assume "e \<in> set (mx_pending (move (p, name, Sweep) (p, name, Failing orphaned) ?s))"
    then have e: "e \<in> set (mx_pending s)" "snd (snd e) \<noteq> name" by auto
    have "\<exists>r \<in># add_mset (p, name, Failing orphaned) (mx_readers s - {#(p, name, Sweep)#}). sweeps (snd (snd e)) r"
      if "sending (mx_client s) \<noteq> Some (fst e)"
      by (rule bex_move) (use e that sweep.prems sweep.hyps in \<open>auto simp: cared_def\<close>)
    then show "sending (mx_client (move (p, name, Sweep) (p, name, Failing orphaned) ?s)) = Some (fst e) \<or>
        (\<exists>r \<in># mx_readers (move (p, name, Sweep) (p, name, Failing orphaned) ?s). sweeps (snd (snd e)) r)" by auto
  qed
next
  case (leave p name s)
  then show ?case by (fastforce simp: cared_def dest!: multi_member_split)
qed (rule cared_move, simp add: cared_def, simp, simp)+

lemma sent_to_mono:
  "sent_to s \<Longrightarrow> mx_client t = mx_client s \<Longrightarrow> set (mx_pending t) \<subseteq> set (mx_pending s) \<Longrightarrow> sent_to t"
  unfolding sent_to_def by (metis subsetD)

lemma reader_sent_to: "reader_step s t \<Longrightarrow> sent_to s \<Longrightarrow> sent_to t"
  by (induction rule: reader_step.induct; erule sent_to_mono) (auto dest: receive_frame)

lemma counted_step:
  "client_step s t \<Longrightarrow> counted s \<Longrightarrow> counted t" "main_step s t \<Longrightarrow> counted s \<Longrightarrow> counted t"
  "writer_step s t \<Longrightarrow> counted s \<Longrightarrow> counted t" "reader_step s t \<Longrightarrow> counted s \<Longrightarrow> counted t"
proof -
  show "client_step s t \<Longrightarrow> counted s \<Longrightarrow> counted t"
    by (induction rule: client_step.induct)
      (auto simp: counted_def frame_simps submit_def strand_def take_pending_def ensure_backend_def Let_def
        split: option.split if_splits spawn_fate.splits)
  show "main_step s t \<Longrightarrow> counted s \<Longrightarrow> counted t"
    by (induction rule: main_step.induct) (auto simp: counted_def)
  show "writer_step s t \<Longrightarrow> counted s \<Longrightarrow> counted t"
    by (induction rule: writer_step.induct) (auto simp: counted_def)
  show "reader_step s t \<Longrightarrow> counted s \<Longrightarrow> counted t"
    by (induction rule: reader_step.induct)
      (auto simp: counted_def receive_frame dest!: multi_member_split)
qed

section \<open>The end of a session\<close>

fun carries_null :: "reader_thread \<Rightarrow> bool" where
  "carries_null (p, name, Forward m) = (m = JNull)"
| "carries_null r = False"

definition quiet :: "mux \<Rightarrow> bool" where
  "quiet s \<longleftrightarrow>
     (\<forall>r \<in># mx_readers s. \<not> carries_null r) \<and> (\<forall>m l. mx_client s = Reply m l \<longrightarrow> m \<noteq> JNull) \<and>
     (\<forall>m. handled (mx_client s) = Some m \<longrightarrow> m \<noteq> JNull) \<and>
     ((\<forall>b. mx_client s \<noteq> Ended b) \<longrightarrow> JNull \<notin> set (mx_queue s) \<and> mx_writer s \<noteq> Finished)"

definition sealed :: "mux \<Rightarrow> bool" where
  "sealed s \<longleftrightarrow>
     (mx_client s = Sentinel True \<or> mx_client s = Ended True \<longrightarrow> mx_readers s = {#} \<and> mx_pending s = []) \<and>
     (mx_client s = Ended True \<and> mx_writer s = Writing \<longrightarrow>
        mx_queue s \<noteq> [] \<and> last (mx_queue s) = JNull \<and> JNull \<notin> set (butlast (mx_queue s))) \<and>
     (mx_client s = Ended True \<and> mx_writer s = Finished \<longrightarrow>
        (\<forall>v. answers v (mx_stdout s) = requests v (mx_in s)))"

lemma has_key_not_null [simp]: "jget k m = Some v \<Longrightarrow> m \<noteq> JNull" "jput k v m = JNull \<longleftrightarrow> m = JNull"
  by (cases m; simp)+

lemma msg_method_not_null [simp]: "msg_method JNull = None" "msg_id JNull = None"
  by (simp_all add: msg_method_def msg_id_def)

lemma response_not_null [simp]:
  "response i k v \<noteq> JNull" "error_response i code text \<noteq> JNull" "JNull \<noteq> error_response i code text"
  by (simp_all add: response_def error_response_def jobj_def)

lemma not_null_pos:
  "refuse m code text = Reply m' l \<Longrightarrow> m' \<noteq> JNull"
  "dispatch m = Reply m' l \<Longrightarrow> m' \<noteq> JNull" "lookup_uri m uri s = Reply m' l \<Longrightarrow> m' \<noteq> JNull"
  by (auto simp: refuse_def dispatch_def lookup_uri_def split: option.splits if_splits)

lemma not_ended_pos [simp]:
  "refuse m code text \<noteq> Ended b" "refuse m code text \<noteq> Sentinel b" "dispatch m \<noteq> Ended b" "dispatch m \<noteq> Sentinel b"
  "lookup_uri m uri s \<noteq> Ended b" "lookup_uri m uri s \<noteq> Sentinel b" "after l \<noteq> Ended b" "after l \<noteq> Sentinel b"
  "after l \<noteq> Reply m' l'"
  by (auto simp: refuse_def dispatch_def lookup_uri_def after_def split: option.split)

lemma client_quiet: "client_step s t \<Longrightarrow> ids_ok s \<Longrightarrow> quiet s \<Longrightarrow> quiet t"
proof (induction rule: client_step.induct)
  case (look_up s m uri)
  with lookup_spec [of m uri s] show ?case by (auto simp: quiet_def dest: not_null_pos)
next
  case (ensured s m uri spec fate t)
  then show ?case
    by (auto simp: quiet_def ensure_backend_def Let_def split: if_splits spawn_fate.splits)
next
  case (not_ensured s m uri spec fate e t)
  then show ?case
    by (auto simp: quiet_def ensure_backend_def Let_def split: if_splits spawn_fate.splits dest: not_null_pos)
next
  case (stranded s proxy_id why)
  then show ?case by (auto simp: quiet_def strand_def take_pending_def split: option.split)
next
  case (submit s m name)
  then show ?case by (auto simp: quiet_def submit_def Let_def split: option.split)
qed (auto simp: quiet_def frame_simps split: option.splits)

lemma quiet_move:
  "quiet s \<Longrightarrow> r \<in># mx_readers s \<Longrightarrow> \<not> carries_null r' \<Longrightarrow> quiet (move r r' s)"
  by (auto simp: quiet_def dest!: in_diffD)

lemma receive_quiet:
  assumes "receive name m s = (t, out)" shows "out \<noteq> Some JNull" "quiet s \<Longrightarrow> quiet t"
proof -
  from assms show "out \<noteq> Some JNull"
    by (cases rule: receive_cases) (auto simp: msg_id_Some)
  from assms show "quiet s \<Longrightarrow> quiet t"
    by (cases rule: receive_cases) (auto simp: quiet_def take_pending_def)
qed

lemma reader_quiet: "reader_step s t \<Longrightarrow> quiet s \<Longrightarrow> quiet t"
proof (induction rule: reader_step.induct)
  case (got_some p name s m t out)
  have "quiet t" by (rule receive_quiet(2) [OF got_some.hyps(2) got_some.prems])
  moreover have "(p, name, Reading) \<in># mx_readers t"
    using got_some.hyps(1) receive_frame(2) [OF got_some.hyps(2)] by simp
  moreover have "out \<noteq> JNull" using receive_quiet(1) [OF got_some.hyps(2)] by simp
  ultimately show ?case by (intro quiet_move) auto
next
  case (got_nothing p name s m t)
  show ?case by (rule receive_quiet(2) [OF got_nothing.hyps(2) got_nothing.prems])
next
  case (leave p name s)
  then show ?case by (auto simp: quiet_def dest!: in_diffD)
next
  case (forward p name out s)
  then have "out \<noteq> JNull" by (auto simp: quiet_def)
  with forward show ?case by (intro quiet_move) (auto simp: quiet_def)
next
  case (fail_one p name client_id orphaned s)
  then have "quiet (send_to_client (error_response client_id internal_error (exited name)) s)"
    by (auto simp: quiet_def)
  with fail_one.hyps show ?case by (intro quiet_move) auto
qed (rule quiet_move, simp add: quiet_def, simp, simp)+

lemma main_quiet: "main_step s t \<Longrightarrow> quiet s \<Longrightarrow> quiet t"
proof (induction rule: main_step.induct)
  case (read s m)
  have "m' \<noteq> JNull" if "handled (dispatch m) = Some m'" for m'
    using that dispatch_spec [of m] by (cases "m = JNull") auto
  with read show ?case by (auto simp: quiet_def dest: not_null_pos)
qed (auto simp: quiet_def)

lemma writer_quiet: "writer_step s t \<Longrightarrow> quiet s \<Longrightarrow> quiet t"
  by (induction rule: writer_step.induct) (auto simp: quiet_def)

lemma client_sealed: "client_step s t \<Longrightarrow> sealed t"
proof (induction rule: client_step.induct)
  case (submit s m name)
  then show ?case by (auto simp: sealed_def submit_def Let_def split: option.split)
next
  case (stranded s proxy_id why)
  then show ?case by (auto simp: sealed_def strand_def split: option.split)
qed (auto simp: sealed_def split: option.split)

lemma reader_sealed: "reader_step s t \<Longrightarrow> sealed s \<Longrightarrow> sealed t"
proof (induction rule: reader_step.induct)
  case (got_nothing p name s m t)
  then show ?case by (auto simp: sealed_def receive_frame [OF got_nothing.hyps(2)])
next
  case (got_some p name s m t out)
  then show ?case by (auto simp: sealed_def receive_frame [OF got_some.hyps(2)])
qed (auto simp: sealed_def)

lemma main_sealed:
  assumes "main_step s t" "sealed s" "cared s" "counted s" "quiet s" shows "sealed t"
  using assms
proof (induction rule: main_step.induct)
  case (drained s)
  then have "mx_readers s = {#}" by (simp add: counted_def)
  with drained have "mx_pending s = []" by (cases "mx_pending s") (auto simp: cared_def)
  with \<open>mx_readers s = {#}\<close> show ?case by (simp add: sealed_def)
next
  case (sentinel s b)
  then show ?case by (auto simp: sealed_def quiet_def)
qed (auto simp: sealed_def)

lemma writer_sealed:
  assumes "writer_step s t" "sealed s" "balanced s" "quiet s" shows "sealed t"
  using assms
proof (induction rule: writer_step.induct)
  case (stop s q)
  show ?case
  proof (cases "mx_client s = Ended True")
    case True
    with stop have q: "q = []" by (cases q) (auto simp: sealed_def)
    from True stop q have "owed v s = 0" for v by (simp add: sealed_def owed_def pending_ids_def)
    with True stop q show ?thesis by (auto simp: sealed_def balanced_def)
  qed (use stop in \<open>simp add: sealed_def\<close>)
next
  case (written s m q)
  then show ?case by (cases q) (auto simp: sealed_def)
qed (auto simp: sealed_def)

section \<open>Every interleaving\<close>

definition session_ok :: "mux \<Rightarrow> bool" where
  "session_ok s \<longleftrightarrow> ids_ok s \<and> balanced s \<and> heard s \<and> cared s \<and> sent_to s \<and> counted s \<and> quiet s \<and> sealed s"

lemma new_mux_ok: "session_ok (new_mux rt version)"
  by (simp add: session_ok_def new_mux_def ids_ok_def balanced_def owed_def pending_ids_def heard_def cared_def
      sent_to_def counted_def quiet_def sealed_def)

lemma main_others:
  "main_step s t \<Longrightarrow> heard s \<Longrightarrow> heard t" "main_step s t \<Longrightarrow> cared s \<Longrightarrow> cared t"
  "main_step s t \<Longrightarrow> sent_to s \<Longrightarrow> sent_to t"
proof -
  show "main_step s t \<Longrightarrow> heard s \<Longrightarrow> heard t"
    by (induction rule: main_step.induct) (auto simp: heard_def)
  show "main_step s t \<Longrightarrow> cared s \<Longrightarrow> cared t"
    by (induction rule: main_step.induct) (auto simp: cared_def)
  have d: "dispatch m \<noteq> Send i n m'" for m i n m'
    by (auto simp: dispatch_def split: option.split)
  show "main_step s t \<Longrightarrow> sent_to s \<Longrightarrow> sent_to t"
    by (induction rule: main_step.induct) (auto simp: sent_to_def d)
qed

lemma writer_others:
  "writer_step s t \<Longrightarrow> heard s \<Longrightarrow> heard t" "writer_step s t \<Longrightarrow> cared s \<Longrightarrow> cared t"
  "writer_step s t \<Longrightarrow> sent_to s \<Longrightarrow> sent_to t"
proof -
  show "writer_step s t \<Longrightarrow> heard s \<Longrightarrow> heard t" by (induction rule: writer_step.induct) (auto simp: heard_def)
  show "writer_step s t \<Longrightarrow> cared s \<Longrightarrow> cared t" by (induction rule: writer_step.induct) (auto simp: cared_def)
  show "writer_step s t \<Longrightarrow> sent_to s \<Longrightarrow> sent_to t" by (induction rule: writer_step.induct) (auto simp: sent_to_def)
qed

lemma session_step:
  assumes "mux_step s t" "session_ok s" shows "session_ok t"
proof -
  from assms(2) have ok: "ids_ok s" "balanced s" "heard s" "cared s" "sent_to s" "counted s" "quiet s" "sealed s"
    by (simp_all add: session_ok_def)
  note common = mux_ids [OF assms(1) ok(1)] mux_balanced [OF assms(1) ok(1,2)]
  from assms(1) consider (client) "client_step s t" | (main) "main_step s t" | (reader) "reader_step s t"
    | (writer) "writer_step s t" by (auto simp: mux_step_def)
  then show ?thesis
  proof cases
    case client
    with common ok client_cared [OF client ok(1,3,5,4)] client_heard client_quiet client_sealed counted_step(1)
    show ?thesis unfolding session_ok_def by simp
  next
    case main
    with common ok main_others main_quiet main_sealed [OF main ok(8,4,6,7)] counted_step(2)
    show ?thesis unfolding session_ok_def by simp
  next
    case reader
    with common ok reader_heard reader_cared reader_sent_to reader_quiet reader_sealed counted_step(4)
    show ?thesis unfolding session_ok_def by simp
  next
    case writer
    with common ok writer_others writer_quiet writer_sealed [OF writer ok(8,2,7)] counted_step(3)
    show ?thesis unfolding session_ok_def by simp
  qed
qed

lemma session_run: "mux_step\<^sup>*\<^sup>* s t \<Longrightarrow> session_ok s \<Longrightarrow> session_ok t"
  by (induction rule: rtranclp_induct) (auto intro: session_step)

lemma requests_append: "requests v ms \<le> requests v (ms @ ms')"
  by (simp add: requests_def)

text \<open>Only the writer touches the output, and once it is gone, what the client got does not change.\<close>

lemma not_writer_frame:
  assumes "client_step s t \<or> main_step s t \<or> reader_step s t"
  shows "mx_writer t = mx_writer s \<and> mx_stdout t = mx_stdout s \<and> requests v (mx_in s) \<le> requests v (mx_in t) \<and>
    (mx_writer s \<noteq> Writing \<longrightarrow> mx_queue t = mx_queue s)"
proof -
  have "client_step s t \<Longrightarrow> ?thesis"
    by (induction rule: client_step.induct)
      (auto simp: frame_simps submit_def strand_def take_pending_def ensure_backend_def Let_def
        split: option.split if_splits spawn_fate.splits)
  moreover have "main_step s t \<Longrightarrow> ?thesis" by (induction rule: main_step.induct) auto
  moreover have "reader_step s t \<Longrightarrow> ?thesis"
    by (induction rule: reader_step.induct) (auto simp: receive_frame)
  ultimately show ?thesis using assms by blast
qed

lemma writer_leaves:
  "writer_step s t \<Longrightarrow> mx_writer s = Writing \<and> (mx_writer t \<noteq> Writing \<longrightarrow>
    mx_stdout t = mx_stdout s \<and> mx_queue t = [] \<and> mx_in t = mx_in s)"
  by (induction rule: writer_step.induct) auto

lemma at_most_once:
  assumes "mux_step s t" "session_ok s" "\<forall>v. answers v (mx_stdout s @ mx_queue s) \<le> requests v (mx_in s)"
  shows "answers v (mx_stdout t @ mx_queue t) \<le> requests v (mx_in t)"
proof (cases "mx_writer t = Writing")
  case True
  with session_step [OF assms(1,2)] show ?thesis by (simp add: session_ok_def balanced_def)
next
  case False
  note le = spec [OF assms(3), of v]
  show ?thesis
  proof (cases "writer_step s t")
    case True
    from writer_leaves [OF True] False le show ?thesis by simp
  next
    case other: False
    with assms(1) not_writer_frame [of s t v] False have "mx_stdout t = mx_stdout s" "mx_queue t = mx_queue s"
      "requests v (mx_in s) \<le> requests v (mx_in t)" by (auto simp: mux_step_def)
    with le show ?thesis by simp
  qed
qed

text \<open>C25: in every interleaving of the client thread, the readers, the exits of servers and the writer, no request of
  the client is answered twice; while the client thread waits for input, every request that is still open
  is in the hands of a reader that will answer it or fail it; and when the session ends with all readers
  drained and the writer at the sentinel, each request has been answered exactly once on the output.\<close>

theorem answered_exactly_once:
  assumes "mux_step\<^sup>*\<^sup>* (new_mux rt version) s"
  shows "answers v (mx_stdout s @ mx_queue s) \<le> requests v (mx_in s) \<and>
    (mx_client s = Idle \<longrightarrow> (\<forall>(i, client_id, name) \<in> set (mx_pending s). \<exists>r \<in># mx_readers s. sweeps name r)) \<and>
    (mx_client s = Ended True \<and> mx_writer s = Finished \<longrightarrow> answers v (mx_stdout s) = requests v (mx_in s))"
proof -
  have ok: "session_ok s" by (rule session_run [OF assms new_mux_ok])
  from assms have "\<forall>v. answers v (mx_stdout s @ mx_queue s) \<le> requests v (mx_in s)"
  proof (induction rule: rtranclp_induct)
    case (step s t)
    with session_run [OF step.hyps(1) new_mux_ok] show ?case by (blast intro: at_most_once)
  qed (simp add: new_mux_def)
  moreover have "\<exists>r \<in># mx_readers s. sweeps name r"
    if idle: "mx_client s = Idle" and e: "(i, c, name) \<in> set (mx_pending s)" for i c name
  proof -
    from ok idle have "\<forall>e \<in> set (mx_pending s). \<exists>r \<in># mx_readers s. sweeps (snd (snd e)) r"
      by (simp add: session_ok_def cared_def)
    from bspec [OF this e] show ?thesis by simp
  qed
  moreover from ok have "mx_client s = Ended True \<and> mx_writer s = Finished \<longrightarrow>
      answers v (mx_stdout s) = requests v (mx_in s)" by (simp add: session_ok_def sealed_def)
  ultimately show ?thesis by blast
qed

lemma mux_stepI:
  "client_step s t \<Longrightarrow> mux_step s t" "main_step s t \<Longrightarrow> mux_step s t" "reader_step s t \<Longrightarrow> mux_step s t"
  "writer_step s t \<Longrightarrow> mux_step s t"
  by (simp_all add: mux_step_def)

definition hello :: json where
  "hello = JObj [(''id'', JNum (PosInt 7)), (''method'', JStr ''initialize'')]"

lemma hello_facts: "dispatch hello = Init hello" "msg_id hello = Some (JNum (PosInt 7))" "is_request (JNum (PosInt 7)) hello"
  by (simp_all add: hello_def dispatch_def msg_method_def msg_id_def is_request_def)

theorem answered_exactly_once_witness:
  "\<exists>s. mux_step\<^sup>*\<^sup>* (new_mux \<lparr>rt_by_file_name = Map.empty, rt_by_extension = Map.empty\<rparr> ''0.15.4'') s \<and>
     mx_client s = Ended True \<and> answers (JNum (PosInt 7)) (mx_stdout s) = 1"
proof -
  define rt where "rt = \<lparr>rt_by_file_name = (Map.empty :: string \<rightharpoonup> lsp_spec), rt_by_extension = Map.empty\<rparr>"
  define r where "r = response (JNum (PosInt 7)) ''result'' (initialize_result ''0.15.4'')"
  define s0 where "s0 = new_mux rt ''0.15.4''"
  have f0: "mx_client s0 = Idle" "mx_queue s0 = []" "mx_writer s0 = Writing" "mx_live s0 = 0" "mx_in s0 = []"
    "mx_version s0 = ''0.15.4''" by (simp_all add: s0_def new_mux_def)
  define s1 where "s1 = s0\<lparr>mx_in := [hello], mx_client := Init hello\<rparr>"
  define s2 where "s2 = s1\<lparr>mx_init := jget ''params'' hello, mx_client := Reply r False\<rparr>"
  define s3 where "s3 = (send_to_client r s2)\<lparr>mx_client := Idle\<rparr>"
  define s4 where "s4 = s3\<lparr>mx_client := Clear\<rparr>"
  define s5 where "s5 = s4\<lparr>mx_backends := Map.empty, mx_client := Waiting\<rparr>"
  define s6 where "s6 = s5\<lparr>mx_client := Sentinel True\<rparr>"
  define s7 where "s7 = (send_to_client JNull s6)\<lparr>mx_client := Ended True\<rparr>"
  define s8 where "s8 = s7\<lparr>mx_queue := [JNull], mx_stdout := mx_stdout s7 @ [r]\<rparr>"
  define s9 where "s9 = s8\<lparr>mx_writer := Finished, mx_queue := []\<rparr>"
  note defs = s1_def s2_def s3_def s4_def s5_def s6_def s7_def s8_def s9_def
  have rn: "r \<noteq> JNull" by (simp add: r_def)
  have "mux_step s0 s1" using main_step.read [of s0 hello] f0 by (simp add: mux_step_def s1_def hello_facts)
  moreover have "mux_step s1 s2" using client_step.initialize [of s1 hello] f0
    by (simp add: mux_step_def s2_def s1_def hello_facts r_def)
  moreover have "mux_step s2 s3" using client_step.reply [of s2 r False] by (simp add: mux_step_def s3_def s2_def after_def)
  moreover have "mux_step s3 s4" using main_step.end_of_input [of s3] by (simp add: mux_step_def s4_def s3_def)
  moreover have "mux_step s4 s5" using main_step.clear [of s4] by (simp add: mux_step_def s5_def s4_def)
  moreover have "mux_step s5 s6" using main_step.drained [of s5] f0 by (simp add: mux_step_def defs)
  moreover have "mux_step s6 s7" using main_step.sentinel [of s6 True] by (simp add: mux_step_def s7_def s6_def)
  moreover have "mux_step s7 s8" using writer_step.written [of s7 r "[JNull]"] f0 rn by (simp add: mux_step_def defs)
  moreover have "mux_step s8 s9" using writer_step.stop [of s8 "[]"] f0 by (simp add: mux_step_def defs)
  ultimately have run: "mux_step\<^sup>*\<^sup>* s0 s9" by (meson rtranclp.rtrancl_into_rtrancl rtranclp.rtrancl_refl)
  have "answers (JNum (PosInt 7)) (mx_stdout s9) = requests (JNum (PosInt 7)) (mx_in s9)"
    using answered_exactly_once [OF run [unfolded s0_def], of "JNum (PosInt 7)"] by (simp add: defs)
  also have "\<dots> = 1" using requests_simps(2) [of "JNum (PosInt 7)" "[]" hello] by (simp add: defs hello_facts)
  finally show ?thesis using run by (auto simp: s0_def rt_def defs intro!: exI [of _ s9])
qed

end
