(* ===== verification/LspStale.thy ===== *)
theory LspStale
  imports LspSession
begin

text \<open>
  A race of the multiplexer. \<open>handle_client_message\<close> makes sure that a server runs and only then enters the
  document into \<open>uri_to_backend\<close>; a server that exits in between has already been retired when the entry is
  made, so nothing ever removes it, and the entry keeps the server from being started again.
\<close>

fun stuck :: "string \<Rightarrow> string \<Rightarrow> client_pos \<Rightarrow> bool" where
  "stuck u n (Lookup m uri) \<longleftrightarrow> uri = u \<and> msg_method m \<noteq> Some ''textDocument/didClose''"
| "stuck u n (Ensure m uri spec) \<longleftrightarrow> False"
| "stuck u n (Enlist m uri name) \<longleftrightarrow> False"
| "stuck u n (Deliver m uri name) \<longleftrightarrow> uri = u \<and> name = n \<and> msg_method m \<noteq> Some ''textDocument/didClose''"
| "stuck u n (Submit m name) \<longleftrightarrow> name = n"
| "stuck u n (Send i name m) \<longleftrightarrow> name = n"
| "stuck u n (Stranded i why) \<longleftrightarrow> why = not_running n"
| "stuck u n pos \<longleftrightarrow> True"

definition stale :: "string \<Rightarrow> string \<Rightarrow> mux \<Rightarrow> bool" where
  "stale u n s \<longleftrightarrow> mx_uris s u = Some n \<and> mx_backends s n = None \<and>
     (\<forall>r \<in># mx_readers s. fst (snd r) \<noteq> n) \<and> stuck u n (mx_client s)"

text \<open>A step in which the client, if it says anything, sends no message about another document and does not
  close this one.\<close>

definition about :: "string \<Rightarrow> mux \<Rightarrow> mux \<Rightarrow> bool" where
  "about u s t \<longleftrightarrow> mux_step s t \<and> (\<forall>m. mx_in t = mx_in s @ [m] \<longrightarrow>
     (\<forall>uri. extract_uri m = Some uri \<longrightarrow> uri = u) \<and> msg_method m \<noteq> Some ''textDocument/didClose'')"

definition never_again :: "string \<Rightarrow> string \<Rightarrow> mux \<Rightarrow> mux \<Rightarrow> bool" where
  "never_again u n s t \<longleftrightarrow> stale u n t \<and> mx_spawned t = mx_spawned s"

lemma stuck_simps [simp]:
  "stuck u n (after l)" "stuck u n (refuse m code text)"
  by (simp_all add: after_def refuse_def split: option.split)

lemma client_stale: "client_step s t \<Longrightarrow> stale u n s \<Longrightarrow> never_again u n s t"
proof (induction rule: client_step.induct)
  case (look_up s m uri)
  then show ?case by (auto simp: stale_def never_again_def lookup_uri_def)
next
  case (submit s m name)
  then show ?case by (auto simp: stale_def never_again_def submit_def Let_def split: option.split)
next
  case (sent s proxy_id name m broken t)
  then show ?case by (auto simp: stale_def send_to_backend_def split: option.splits)
next
  case (not_sent s proxy_id name m broken e t)
  then show ?case by (auto simp: stale_def never_again_def send_to_backend_def split: option.splits)
next
  case (stranded s proxy_id why)
  then show ?case by (auto simp: stale_def never_again_def strand_def take_pending_def split: option.split)
qed (auto simp: stale_def never_again_def frame_simps split: option.split)

lemma reader_stale: "reader_step s t \<Longrightarrow> stale u n s \<Longrightarrow> never_again u n s t"
  by (induction rule: reader_step.induct)
    (auto simp: stale_def never_again_def receive_frame dest: in_diffD)

lemma about_stale:
  assumes "about u s t" "stale u n s" shows "never_again u n s t"
proof -
  have d: "stuck u n (dispatch m)" if "\<forall>uri. extract_uri m = Some uri \<longrightarrow> uri = u"
    "msg_method m \<noteq> Some ''textDocument/didClose''" for m
    using that by (auto simp: dispatch_def split: option.split)
  have "main_step s t \<Longrightarrow> never_again u n s t"
  proof (induction rule: main_step.cases)
    case (read s' m)
    with assms d [of m] show ?case by (simp add: about_def stale_def never_again_def)
  qed (use assms(2) in \<open>auto simp: stale_def never_again_def\<close>)
  moreover have "writer_step s t \<Longrightarrow> never_again u n s t"
    by (induction rule: writer_step.cases) (use assms(2) in \<open>auto simp: stale_def never_again_def\<close>)
  ultimately show ?thesis
    using assms client_stale reader_stale unfolding about_def mux_step_def by blast
qed

text \<open>Once a document is entered for a server that has been retired, no message about it ever starts the server
  again, however long the session lasts: the entry stays, no process is spawned, and whatever the client
  sends about the document ends in the error that the server is not running.\<close>

theorem stale_route_never_heals:
  assumes "stale u n s" "(about u)\<^sup>*\<^sup>* s t"
  shows "mx_uris t u = Some n \<and> mx_backends t n = None \<and> mx_spawned t = mx_spawned s \<and>
    (\<forall>proxy_id why. mx_client t = Stranded proxy_id why \<longrightarrow> why = not_running n)"
proof -
  from assms(2) have "never_again u n s t"
  proof (induction rule: rtranclp_induct)
    case base
    with assms(1) show ?case by (simp add: never_again_def)
  next
    case (step t t')
    with about_stale show ?case by (metis never_again_def)
  qed
  then show ?thesis by (auto simp: never_again_def stale_def)
qed

definition opened :: json where
  "opened = JObj [(''method'', JStr ''textDocument/didOpen''), (''params'', JObj [(''uri'', JStr ''a.rs'')])]"

definition rust :: lsp_spec where
  "rust = \<lparr>ls_name = ''ra'', ls_command = ''ra'', ls_args = [], ls_extensions = [''.rs''], ls_enabled = True\<rparr>"

lemma opened_facts: "dispatch opened = Lookup opened ''a.rs''" "msg_method opened = Some ''textDocument/didOpen''"
  "msg_id opened = None"
  by (simp_all add: opened_def dispatch_def msg_method_def msg_id_def extract_uri_def)

lemma routed: "route (from_registry [rust]) ''a.rs'' = Some rust"
  by code_simp

theorem stale_route_never_heals_witness:
  "\<exists>s. mux_step\<^sup>*\<^sup>* (new_mux (from_registry [rust]) ''0.15.4'') s \<and>
     (\<forall>t. (about ''a.rs'')\<^sup>*\<^sup>* s t \<longrightarrow> mx_uris t ''a.rs'' = Some ''ra'' \<and> mx_backends t ''ra'' = None \<and> mx_spawned t = 1)"
proof -
  define s0 where "s0 = new_mux (from_registry [rust]) ''0.15.4''"
  define s1 where "s1 = s0\<lparr>mx_in := [opened], mx_client := Lookup opened ''a.rs''\<rparr>"
  define s2 where "s2 = s1\<lparr>mx_client := Ensure opened ''a.rs'' rust\<rparr>"
  define s3 where "s3 = (snd (ensure_backend rust Spawned s2))\<lparr>mx_client := Enlist opened ''a.rs'' ''ra''\<rparr>"
  define s4 where "s4 = move (0, ''ra'', Reading) (0, ''ra'', Unlist) s3"
  define s5 where "s5 = move (0, ''ra'', Unlist) (0, ''ra'', ForgetUris) (s4\<lparr>mx_backends := (mx_backends s4)(''ra'' := None)\<rparr>)"
  define s6 where "s6 = move (0, ''ra'', ForgetUris) (0, ''ra'', ForgetServer)
      (s5\<lparr>mx_uris := (\<lambda>uri. if mx_uris s5 uri = Some ''ra'' then None else mx_uris s5 uri)\<rparr>)"
  define s7 where "s7 = move (0, ''ra'', ForgetServer) (0, ''ra'', Sweep)
      (s6\<lparr>mx_pending_server := (\<lambda>i. case mx_pending_server s6 i of
          Some (v, owned_by) \<Rightarrow> if owned_by = ''ra'' then None else Some (v, owned_by) | None \<Rightarrow> None)\<rparr>)"
  define s8 where "s8 = move (0, ''ra'', Sweep) (0, ''ra'', Failing [])
      (s7\<lparr>mx_pending := filter (\<lambda>e. snd (snd e) \<noteq> ''ra'') (mx_pending s7)\<rparr>)"
  define s9 where "s9 = s8\<lparr>mx_live := mx_live s8 - 1, mx_readers := mx_readers s8 - {#(0, ''ra'', Failing [])#}\<rparr>"
  define s where "s = s9\<lparr>mx_uris := (mx_uris s9)(''a.rs'' \<mapsto> ''ra''), mx_client := Deliver opened ''a.rs'' ''ra''\<rparr>"
  have f0: "mx_client s0 = Idle" "mx_in s0 = []" "mx_uris s0 = Map.empty" "mx_backends s0 = Map.empty"
    "mx_router s0 = from_registry [rust]" "mx_readers s0 = {#}" "mx_pending s0 = []" "mx_spawned s0 = 0"
    by (simp_all add: s0_def new_mux_def)
  have "ensure_backend rust Spawned s2 = (None, snd (ensure_backend rust Spawned s2))"
    by (simp add: ensure_backend_def Let_def)
  note e = this
  have f3: "mx_readers s3 = {#(0, ''ra'', Reading)#}" "mx_client s3 = Enlist opened ''a.rs'' ''ra''"
    "mx_spawned s3 = 1" "mx_pending s3 = []" "mx_uris s3 = Map.empty"
    using f0 by (simp_all add: s3_def s2_def s1_def ensure_backend_def Let_def rust_def)
  have f8: "mx_readers s8 = {#(0, ''ra'', Failing [])#}" "mx_readers s7 = {#(0, ''ra'', Sweep)#}"
    "mx_readers s6 = {#(0, ''ra'', ForgetServer)#}" "mx_readers s5 = {#(0, ''ra'', ForgetUris)#}"
    "mx_readers s4 = {#(0, ''ra'', Unlist)#}" "mx_pending s7 = []"
    "mx_client s9 = Enlist opened ''a.rs'' ''ra''" "mx_backends s9 ''ra'' = None" "mx_spawned s9 = 1"
    using f3 by (simp_all add: s9_def s8_def s7_def s6_def s5_def s4_def)
  have "mux_step s0 s1" using main_step.read [of s0 opened] f0 by (simp add: mux_step_def s1_def opened_facts)
  moreover have "mux_step s1 s2" using client_step.look_up [of s1 opened "''a.rs''"] f0
    by (simp add: mux_step_def s2_def s1_def lookup_uri_def routed)
  moreover have "mux_step s2 s3" using client_step.ensured [OF _ e, of opened "''a.rs''"]
    by (simp add: mux_step_def s3_def s2_def rust_def)
  moreover have "mux_step s3 s4" using reader_step.server_gone [of 0 "''ra''" s3] f3 by (simp add: mux_step_def s4_def)
  moreover have "mux_step s4 s5" using reader_step.unlist [of 0 "''ra''" s4] f8 by (simp add: mux_step_def s5_def)
  moreover have "mux_step s5 s6" using reader_step.forget_uris [of 0 "''ra''" s5] f8 by (simp add: mux_step_def s6_def)
  moreover have "mux_step s6 s7" using reader_step.forget_server [of 0 "''ra''" s6] f8 by (simp add: mux_step_def s7_def)
  moreover have "mux_step s7 s8" using reader_step.sweep [of 0 "''ra''" s7 "[]"] f8 by (simp add: mux_step_def s8_def)
  moreover have "mux_step s8 s9" using reader_step.leave [of 0 "''ra''" s8] f8 by (simp add: mux_step_def s9_def)
  moreover have "mux_step s9 s" using client_step.enlist [of s9] f8 by (simp add: mux_step_def s_def)
  ultimately have run: "mux_step\<^sup>*\<^sup>* s0 s" by (meson rtranclp.rtrancl_into_rtrancl rtranclp.rtrancl_refl)
  have "mx_readers s = {#}" using f8 by (simp add: s_def s9_def)
  with f8 have "stale ''a.rs'' ''ra'' s" by (simp add: stale_def s_def opened_facts)
  moreover have "mx_spawned s = 1" using f8 by (simp add: s_def)
  ultimately show ?thesis using run stale_route_never_heals [of "''a.rs''" "''ra''" s] unfolding s0_def by metis
qed

end
