(* ===== verification/Permissions.thy ===== *)
theory Permissions
  imports Complex_Main Json
begin

text \<open>
  Who may use which tool: the static rules of \<open>single-core/src/permissions.rs\<close>, the learned preferences and
  pending approvals of \<open>preferences.rs\<close>, and the hook that Claude Code runs before a tool call
  (\<open>single-cli/src/main.rs\<close>). The two tables are row lists with the texts that the code stores; a
  confidence is a rational. Other processes share the tables: what the hook sees at its polls is a field of
  \<open>hook_env\<close>.
\<close>

section \<open>Static rules\<close>

datatype decision = Deny | Ask | Allow

record rule =
  ru_pattern :: string
  ru_decision :: decision

text \<open>\<open>Iterator::max_by_key\<close>: of several maximal elements the last.\<close>

fun max_by_key :: "('a \<Rightarrow> nat) \<Rightarrow> 'a list \<Rightarrow> 'a option" where
  "max_by_key f [] = None"
| "max_by_key f (x # xs) = Some (foldl (\<lambda>b y. if f b \<le> f y then y else b) x xs)"

definition evaluate :: "rule list \<Rightarrow> string \<Rightarrow> decision" where
  "evaluate rules resource =
     (case max_by_key (\<lambda>r. length (ru_pattern r)) (filter (\<lambda>r. starts_with (ru_pattern r) resource) rules) of
        Some r \<Rightarrow> ru_decision r
      | None \<Rightarrow> Ask)"

section \<open>Preferences and approvals\<close>

record preference_row =
  pf_id :: int
  pf_pattern :: string
  pf_decision :: string
  pf_confidence :: rat
  pf_learned_from :: "string option"
  pf_created_at :: string

record approval_row =
  ap_id :: int
  ap_resource :: string
  ap_context :: "string option"
  ap_status :: string
  ap_created_at :: string
  ap_resolved_at :: "string option"

record prefs_db =
  pd_preferences :: "preference_row list"
  pd_preference_seq :: int
  pd_approvals :: "approval_row list"
  pd_approval_seq :: int

definition decision_as_str :: "decision \<Rightarrow> string" where
  "decision_as_str d = (case d of Deny \<Rightarrow> ''deny'' | Ask \<Rightarrow> ''ask'' | Allow \<Rightarrow> ''allow'')"

definition parse_decision :: "string \<Rightarrow> string + decision" where
  "parse_decision s =
     (if s = ''deny'' then Inr Deny else if s = ''ask'' then Inr Ask else if s = ''allow'' then Inr Allow
      else Inl (''unknown decision: '' @ s))"

definition MIN_AUTO_APPLY_CONFIDENCE :: rat where
  "MIN_AUTO_APPLY_CONFIDENCE = 8 / 10"

record preference =
  pr_id :: int
  pr_pattern :: string
  pr_decision :: decision
  pr_confidence :: rat
  pr_learned_from :: "string option"
  pr_created_at :: string

definition clamp01 :: "rat \<Rightarrow> rat" where
  "clamp01 c = (if c < 0 then 0 else if 1 < c then 1 else c)"

definition learn :: "string \<Rightarrow> string \<Rightarrow> decision \<Rightarrow> rat \<Rightarrow> string option \<Rightarrow> prefs_db \<Rightarrow> prefs_db" where
  "learn ts pattern d confidence learned_from db =
     (if exists_where (\<lambda>r. pf_pattern r = pattern) (pd_preferences db)
      then db\<lparr>pd_preferences := update_where (\<lambda>r. pf_pattern r = pattern)
             (\<lambda>r. r\<lparr>pf_decision := decision_as_str d, pf_confidence := clamp01 confidence,
                    pf_learned_from := learned_from, pf_created_at := ts\<rparr>) (pd_preferences db)\<rparr>
      else
        (let i = pd_preference_seq db + 1
         in db\<lparr>pd_preferences := pd_preferences db @
                 [\<lparr>pf_id = i, pf_pattern = pattern, pf_decision = decision_as_str d,
                   pf_confidence = clamp01 confidence, pf_learned_from = learned_from, pf_created_at = ts\<rparr>],
               pd_preference_seq := i\<rparr>))"

definition row_preference :: "preference_row \<Rightarrow> decision \<Rightarrow> preference" where
  "row_preference r d =
     \<lparr>pr_id = pf_id r, pr_pattern = pf_pattern r, pr_decision = d, pr_confidence = pf_confidence r,
      pr_learned_from = pf_learned_from r, pr_created_at = pf_created_at r\<rparr>"

fun parse_rows :: "preference_row list \<Rightarrow> string + preference list" where
  "parse_rows [] = Inr []"
| "parse_rows (r # rs) =
     (case parse_decision (pf_decision r) of
        Inl e \<Rightarrow> Inl e
      | Inr d \<Rightarrow>
          (case parse_rows rs of
             Inl e \<Rightarrow> Inl e
           | Inr ps \<Rightarrow>
               Inr (row_preference r d # ps)))"

definition list_preferences :: "prefs_db \<Rightarrow> string + preference list" where
  "list_preferences db = parse_rows (sort_key pf_pattern (pd_preferences db))"

definition lookup :: "prefs_db \<Rightarrow> string \<Rightarrow> rat \<Rightarrow> string + (decision \<times> rat) option" where
  "lookup db resource min_confidence =
     (case list_preferences db of
        Inl e \<Rightarrow> Inl e
      | Inr ps \<Rightarrow>
          Inr (map_option (\<lambda>p. (pr_decision p, pr_confidence p))
            (max_by_key (\<lambda>p. length (pr_pattern p))
              (filter (\<lambda>p. starts_with (pr_pattern p) resource \<and> min_confidence \<le> pr_confidence p) ps))))"

datatype approval_status = Pending | Allowed | Denied

definition status_as_str :: "approval_status \<Rightarrow> string" where
  "status_as_str s = (case s of Pending \<Rightarrow> ''pending'' | Allowed \<Rightarrow> ''allowed'' | Denied \<Rightarrow> ''denied'')"

definition parse_status :: "string \<Rightarrow> string + approval_status" where
  "parse_status s =
     (if s = ''pending'' then Inr Pending else if s = ''allowed'' then Inr Allowed
      else if s = ''denied'' then Inr Denied else Inl (''unknown approval status: '' @ s))"

definition request_approval :: "string \<Rightarrow> string \<Rightarrow> string option \<Rightarrow> prefs_db \<Rightarrow> int \<times> prefs_db" where
  "request_approval ts resource ctx db =
     (let i = pd_approval_seq db + 1
      in (i, db\<lparr>pd_approvals := pd_approvals db @
                  [\<lparr>ap_id = i, ap_resource = resource, ap_context = ctx, ap_status = status_as_str Pending,
                    ap_created_at = ts, ap_resolved_at = None\<rparr>],
                pd_approval_seq := i\<rparr>))"

text \<open>\<open>get_approval\<close> and the status it parses; a row with an unknown status is an error of the query.\<close>

definition get_approval :: "int \<Rightarrow> prefs_db \<Rightarrow> string + (approval_row \<times> approval_status) option" where
  "get_approval i db =
     (case find (\<lambda>r. ap_id r = i) (pd_approvals db) of
        None \<Rightarrow> Inr None
      | Some r \<Rightarrow> (case parse_status (ap_status r) of Inl e \<Rightarrow> Inl e | Inr st \<Rightarrow> Inr (Some (r, st))))"

definition list_pending :: "prefs_db \<Rightarrow> approval_row list" where
  "list_pending db = sort_key ap_created_at (filter (\<lambda>r. ap_status r = ''pending'') (pd_approvals db))"

definition resolve :: "string \<Rightarrow> int \<Rightarrow> bool \<Rightarrow> bool \<Rightarrow> prefs_db \<Rightarrow> string + prefs_db" where
  "resolve ts i allow remember db =
     (case get_approval i db of
        Inl e \<Rightarrow> Inl e
      | Inr None \<Rightarrow> Inl (''no approval with id '' @ dec_int i)
      | Inr (Some (a, st)) \<Rightarrow>
          if st \<noteq> Pending then Inl (''approval #'' @ dec_int i @ '' was already resolved'')
          else
            (let s = (if allow then Allowed else Denied);
                 db1 = db\<lparr>pd_approvals := update_where (\<lambda>r. ap_id r = i)
                         (\<lambda>r. r\<lparr>ap_status := status_as_str s, ap_resolved_at := Some ts\<rparr>) (pd_approvals db)\<rparr>
             in Inr (if remember
                     then learn ts (ap_resource a) (if allow then Allow else Deny) 1 (Some ''user_approval'') db1
                     else db1)))"

section \<open>The verdict\<close>

datatype verdict = VAllow | VDeny | PendingApproval int

definition evaluate_and_learn ::
    "string \<Rightarrow> rule list \<Rightarrow> string \<Rightarrow> string option \<Rightarrow> prefs_db \<Rightarrow> string + (verdict \<times> prefs_db)" where
  "evaluate_and_learn ts rules resource ctx db =
     (let escalate = (case request_approval ts resource ctx db of (i, db') \<Rightarrow> Inr (PendingApproval i, db'))
      in case evaluate rules resource of
           Allow \<Rightarrow> Inr (VAllow, db)
         | Deny \<Rightarrow> Inr (VDeny, db)
         | Ask \<Rightarrow>
             (case lookup db resource MIN_AUTO_APPLY_CONFIDENCE of
                Inl e \<Rightarrow> Inl e
              | Inr (Some (Allow, c)) \<Rightarrow> Inr (VAllow, db)
              | Inr (Some (Deny, c)) \<Rightarrow> Inr (VDeny, db)
              | Inr (Some (Ask, c)) \<Rightarrow> escalate
              | Inr None \<Rightarrow> escalate))"

section \<open>The hook before a tool call\<close>

record hook_env =
  hk_seen :: "prefs_db \<Rightarrow> nat \<Rightarrow> prefs_db"
  hk_now :: "nat \<Rightarrow> nat"

definition CLAUDE_HOOK_TIMEOUT_SECS :: nat where
  "CLAUDE_HOOK_TIMEOUT_SECS = 300"

definition claude_hook_resource :: "string \<Rightarrow> json \<Rightarrow> string" where
  "claude_hook_resource tool_name tool_input =
     (let field = (\<lambda>k. case Option.bind (jget k tool_input) as_str of Some s \<Rightarrow> s | None \<Rightarrow> [])
      in if tool_name = ''Bash'' then ''claude:bash:'' @ field ''command''
         else if tool_name \<in> {''Edit'', ''Write'', ''MultiEdit'', ''NotebookEdit''}
         then ''claude:edit:'' @ field ''file_path''
         else ''claude:'' @ tool_name)"

definition hook_resource :: "json \<Rightarrow> string" where
  "hook_resource input =
     claude_hook_resource (case Option.bind (jget ''tool_name'' input) as_str of Some s \<Rightarrow> s | None \<Rightarrow> [])
       (case jget ''tool_input'' input of Some v \<Rightarrow> v | None \<Rightarrow> JNull)"

definition hook_deny_json :: "string \<Rightarrow> json" where
  "hook_deny_json reason =
     jobj [(''hookSpecificOutput'', jobj [(''hookEventName'', JStr ''PreToolUse''), (''permissionDecision'', JStr ''deny'')]),
           (''systemMessage'', JStr reason)]"

definition hook_allow :: json where
  "hook_allow = JObj []"

definition approval_timeout :: "int \<Rightarrow> string" where
  "approval_timeout i =
     ''timed out waiting for approval #'' @ dec_int i @
     [CHR '' '', CHR 0xE2, CHR 0x80, CHR 0x94, CHR '' ''] @ ''run `single approval resolve '' @ dec_int i @
     '' --allow`, then retry''"

text \<open>Poll \<open>n\<close> looks at the table and at the clock and sleeps a second.\<close>

partial_function (option) wait_for_approval ::
    "hook_env \<Rightarrow> prefs_db \<Rightarrow> nat \<Rightarrow> int \<Rightarrow> nat \<Rightarrow> (string + json) option" where
  "wait_for_approval env db deadline i n =
     (case get_approval i (hk_seen env db n) of
        Inl e \<Rightarrow> Some (Inl e)
      | Inr None \<Rightarrow> Some (Inr (hook_deny_json ''approval record disappeared''))
      | Inr (Some (a, Allowed)) \<Rightarrow> Some (Inr hook_allow)
      | Inr (Some (a, Denied)) \<Rightarrow> Some (Inr (hook_deny_json ''denied via `single approval resolve`''))
      | Inr (Some (a, Pending)) \<Rightarrow>
          if deadline \<le> hk_now env n then Some (Inr (hook_deny_json (approval_timeout i)))
          else wait_for_approval env db deadline i (Suc n))"

definition hook_deadline :: "hook_env \<Rightarrow> nat" where
  "hook_deadline env = hk_now env 0 + (CLAUDE_HOOK_TIMEOUT_SECS - 20) * 1000"

definition run_claude_pretooluse_hook ::
    "hook_env \<Rightarrow> string \<Rightarrow> json option \<Rightarrow> string + rule list \<Rightarrow> prefs_db \<Rightarrow> (string + json) option" where
  "run_claude_pretooluse_hook env ts parsed rules db =
     (let resource = hook_resource (case parsed of Some v \<Rightarrow> v | None \<Rightarrow> JNull)
      in case rules of
           Inl e \<Rightarrow> Some (Inl e)
         | Inr rs \<Rightarrow>
             (case evaluate_and_learn ts rs resource (Some ''claude PreToolUse hook'') db of
                Inl e \<Rightarrow> Some (Inl e)
              | Inr (VAllow, _) \<Rightarrow> Some (Inr hook_allow)
              | Inr (VDeny, _) \<Rightarrow> Some (Inr (hook_deny_json ''blocked by SingleCLI permission policy''))
              | Inr (PendingApproval i, db') \<Rightarrow> wait_for_approval env db' (hook_deadline env) i 0))"

section \<open>Which rule governs\<close>

lemma max_by_key_foldl:
  fixes f :: "'a \<Rightarrow> nat"
  assumes "m = foldl (\<lambda>b y. if f b \<le> f y then y else b) x xs"
  shows "m \<in> set (x # xs)" "\<forall>y \<in> set (x # xs). f y \<le> f m"
proof -
  have "m \<in> set (x # xs) \<and> f x \<le> f m \<and> (\<forall>y \<in> set xs. f y \<le> f m)" using assms
  proof (induction xs arbitrary: x)
    case (Cons y ys)
    define z where "z = (if f x \<le> f y then y else x)"
    have "m = foldl (\<lambda>b y. if f b \<le> f y then y else b) z ys" using Cons.prems by (simp add: z_def)
    from Cons.IH [OF this] have "m \<in> set (z # ys)" "f z \<le> f m" "\<forall>y \<in> set ys. f y \<le> f m" by auto
    moreover have "f x \<le> f z" "f y \<le> f z" "z = x \<or> z = y" by (auto simp: z_def)
    ultimately show ?case by auto
  qed simp
  then show "m \<in> set (x # xs)" "\<forall>y \<in> set (x # xs). f y \<le> f m" by auto
qed

lemma max_by_key_Some:
  "max_by_key f xs = Some x \<Longrightarrow> x \<in> set xs \<and> (\<forall>y \<in> set xs. f y \<le> f x)"
proof (cases xs)
  case (Cons y ys)
  assume "max_by_key f xs = Some x"
  with Cons have "x = foldl (\<lambda>b y. if f b \<le> f y then y else b) y ys" by simp
  from max_by_key_foldl [OF this] Cons show ?thesis by blast
qed simp

lemma max_by_key_None [simp]: "max_by_key f xs = None \<longleftrightarrow> xs = []"
  by (cases xs) simp_all

text \<open>A longest matching entry of a list, for the length of its pattern.\<close>

definition governs :: "('a \<Rightarrow> string) \<Rightarrow> string \<Rightarrow> 'a list \<Rightarrow> 'a \<Rightarrow> bool" where
  "governs pat resource xs x \<longleftrightarrow> x \<in> set xs \<and> starts_with (pat x) resource \<and>
     (\<forall>y \<in> set xs. starts_with (pat y) resource \<longrightarrow> length (pat y) \<le> length (pat x))"

lemma evaluate_governs:
  "evaluate rules resource = d \<Longrightarrow> d \<noteq> Ask \<Longrightarrow> \<exists>r. governs ru_pattern resource rules r \<and> ru_decision r = d"
  by (auto simp: evaluate_def governs_def split: option.splits dest!: max_by_key_Some)

lemma parse_decision_str [simp]: "parse_decision (decision_as_str d) = Inr d"
  by (cases d) (simp_all add: parse_decision_def decision_as_str_def)

lemma parse_decision_Inr: "parse_decision s = Inr d \<longleftrightarrow> s = decision_as_str d"
  by (auto simp: parse_decision_def decision_as_str_def split: decision.splits if_splits)

lemma decision_as_str_eq [simp]: "decision_as_str d = decision_as_str d' \<longleftrightarrow> d = d'"
  using parse_decision_str by (metis sum.inject(2))

lemma row_preference_simps [simp]:
  "pr_pattern (row_preference r d) = pf_pattern r" "pr_decision (row_preference r d) = d"
  "pr_confidence (row_preference r d) = pf_confidence r"
  by (simp_all add: row_preference_def)

lemma parse_rows_Inr:
  "parse_rows rs = Inr ps \<Longrightarrow>
   (\<forall>p. p \<in> set ps \<longleftrightarrow> (\<exists>r \<in> set rs. p = row_preference r (pr_decision p) \<and> decision_as_str (pr_decision p) = pf_decision r))"
proof (induction rs arbitrary: ps)
  case (Cons r rs)
  from Cons.prems obtain d qs where d: "parse_decision (pf_decision r) = Inr d" and qs: "parse_rows rs = Inr qs"
    and ps: "ps = row_preference r d # qs"
    by (auto split: sum.splits)
  from Cons.IH [OF qs] d show ?case by (auto simp: ps parse_decision_Inr)
qed simp

lemma parse_rows_all: "parse_rows rs = Inr ps \<Longrightarrow> r \<in> set rs \<Longrightarrow> \<exists>d. parse_decision (pf_decision r) = Inr d"
  by (induction rs arbitrary: ps) (auto split: sum.splits)

definition confident :: "preference_row list \<Rightarrow> preference_row list" where
  "confident rows = filter (\<lambda>r. MIN_AUTO_APPLY_CONFIDENCE \<le> pf_confidence r) rows"

lemma lookup_governs:
  assumes "lookup db resource MIN_AUTO_APPLY_CONFIDENCE = Inr (Some (d, c))"
  shows "\<exists>r. governs pf_pattern resource (confident (pd_preferences db)) r \<and> pf_decision r = decision_as_str d"
proof -
  from assms obtain ps p where ps: "list_preferences db = Inr ps"
    and p: "max_by_key (\<lambda>p. length (pr_pattern p))
      (filter (\<lambda>p. starts_with (pr_pattern p) resource \<and> MIN_AUTO_APPLY_CONFIDENCE \<le> pr_confidence p) ps) = Some p"
    and d: "pr_decision p = d"
    by (auto simp: lookup_def split: sum.splits)
  note rows = parse_rows_Inr [OF ps [unfolded list_preferences_def], simplified]
  from max_by_key_Some [OF p] have m: "p \<in> set ps" "starts_with (pr_pattern p) resource"
    "MIN_AUTO_APPLY_CONFIDENCE \<le> pr_confidence p"
    "\<And>q. q \<in> set ps \<Longrightarrow> starts_with (pr_pattern q) resource \<Longrightarrow> MIN_AUTO_APPLY_CONFIDENCE \<le> pr_confidence q \<Longrightarrow>
       length (pr_pattern q) \<le> length (pr_pattern p)" by auto
  from m(1) rows obtain r where r: "r \<in> set (pd_preferences db)" "pr_pattern p = pf_pattern r"
    "decision_as_str (pr_decision p) = pf_decision r" "pr_confidence p = pf_confidence r"
    by (metis row_preference_simps(1,3))
  have all: "length (pf_pattern y) \<le> length (pf_pattern r)"
    if y: "y \<in> set (pd_preferences db)" "MIN_AUTO_APPLY_CONFIDENCE \<le> pf_confidence y" "starts_with (pf_pattern y) resource"
    for y
  proof -
    obtain q where "q \<in> set ps" "pr_pattern q = pf_pattern y" "pr_confidence q = pf_confidence y"
    proof -
      have "\<exists>dy. parse_decision (pf_decision y) = Inr dy"
        using parse_rows_all [OF ps [unfolded list_preferences_def]] y(1) by simp
      then obtain dy where "pf_decision y = decision_as_str dy" by (auto simp: parse_decision_Inr)
      with that rows y(1) show ?thesis
        by (metis row_preference_simps)
    qed
    with m(4) y r(2) show ?thesis by metis
  qed
  with r m d show ?thesis
    by (intro exI [of _ r]) (auto simp: governs_def confident_def)
qed

definition approvals_ok :: "prefs_db \<Rightarrow> bool" where
  "approvals_ok db \<longleftrightarrow> distinct (map ap_id (pd_approvals db)) \<and> (\<forall>a \<in> set (pd_approvals db). ap_id a \<le> pd_approval_seq db)"

lemma parse_approval_str [simp]: "parse_status (status_as_str s) = Inr s"
  by (cases s) (simp_all add: parse_status_def status_as_str_def)

lemma find_snoc_fresh: "\<forall>x \<in> set xs. \<not> P x \<Longrightarrow> P y \<Longrightarrow> find P (xs @ [y]) = Some y"
  by (induction xs) auto

lemma requested:
  assumes "approvals_ok db" "request_approval ts resource ctx db = (i, db')"
  shows "\<exists>a. get_approval i db' = Inr (Some (a, Pending)) \<and> ap_resource a = resource"
    and "\<forall>a \<in> set (pd_approvals db). ap_id a \<noteq> i" "pd_preferences db' = pd_preferences db" "approvals_ok db'"
proof -
  let ?a = "\<lparr>ap_id = i, ap_resource = resource, ap_context = ctx, ap_status = status_as_str Pending,
    ap_created_at = ts, ap_resolved_at = None\<rparr>"
  from assms(2) have i: "i = pd_approval_seq db + 1"
    and db': "db' = db\<lparr>pd_approvals := pd_approvals db @ [?a], pd_approval_seq := i\<rparr>"
    by (auto simp: request_approval_def Let_def)
  show fresh: "\<forall>a \<in> set (pd_approvals db). ap_id a \<noteq> i"
    using assms(1) by (auto simp: approvals_ok_def i)
  then have "find (\<lambda>r. ap_id r = i) (pd_approvals db @ [?a]) = Some ?a" by (intro find_snoc_fresh) auto
  then show "\<exists>a. get_approval i db' = Inr (Some (a, Pending)) \<and> ap_resource a = resource"
    by (simp add: get_approval_def db')
  show "pd_preferences db' = pd_preferences db" by (simp add: db')
  show "approvals_ok db'" using assms(1) fresh by (force simp: approvals_ok_def db' i)
qed

text \<open>The three outcomes of the gate.\<close>

lemma evaluate_and_learn_cases:
  assumes "evaluate_and_learn ts rules resource ctx db = Inr (v, db')"
  shows
    "v = VAllow \<and> db' = db \<and> (evaluate rules resource = Allow \<or> (evaluate rules resource = Ask \<and>
        (\<exists>c. lookup db resource MIN_AUTO_APPLY_CONFIDENCE = Inr (Some (Allow, c))))) \<or>
     v = VDeny \<and> db' = db \<and> (evaluate rules resource = Deny \<or> (evaluate rules resource = Ask \<and>
        (\<exists>c. lookup db resource MIN_AUTO_APPLY_CONFIDENCE = Inr (Some (Deny, c))))) \<or>
     (\<exists>i. v = PendingApproval i \<and> request_approval ts resource ctx db = (i, db') \<and> evaluate rules resource = Ask \<and>
        (lookup db resource MIN_AUTO_APPLY_CONFIDENCE = Inr None \<or>
         (\<exists>c. lookup db resource MIN_AUTO_APPLY_CONFIDENCE = Inr (Some (Ask, c)))))"
  using assms by (simp add: evaluate_and_learn_def Let_def split: decision.splits sum.splits option.splits prod.splits)

definition may_use :: "decision \<Rightarrow> rule list \<Rightarrow> prefs_db \<Rightarrow> string \<Rightarrow> bool" where
  "may_use d rules db resource \<longleftrightarrow>
     (\<exists>r. governs ru_pattern resource rules r \<and> ru_decision r = d) \<or>
     (evaluate rules resource = Ask \<and>
      (\<exists>p. governs pf_pattern resource (confident (pd_preferences db)) p \<and> pf_decision p = decision_as_str d))"

text \<open>C28: the gate never guesses: it allows or denies a resource only when the longest static rule that matches
  says so, or when the rules leave it open and the longest confident preference says so, and then it
  changes nothing; otherwise it records a fresh pending approval for that resource and learns nothing.\<close>

theorem gate_never_guesses:
  assumes "approvals_ok db" and "evaluate_and_learn ts rules resource ctx db = Inr (v, db')"
  shows "case v of
     VAllow \<Rightarrow> db' = db \<and> may_use Allow rules db resource
   | VDeny \<Rightarrow> db' = db \<and> may_use Deny rules db resource
   | PendingApproval i \<Rightarrow> evaluate rules resource = Ask \<and> (\<forall>a \<in> set (pd_approvals db). ap_id a \<noteq> i) \<and>
       pd_preferences db' = pd_preferences db \<and>
       (\<exists>a. get_approval i db' = Inr (Some (a, Pending)) \<and> ap_resource a = resource)"
proof -
  have gov: "may_use d rules db resource"
    if "d \<noteq> Ask" "evaluate rules resource = d \<or> (evaluate rules resource = Ask \<and>
        (\<exists>c. lookup db resource MIN_AUTO_APPLY_CONFIDENCE = Inr (Some (d, c))))" for d
    using that evaluate_governs [of rules resource d] lookup_governs [of db resource d] unfolding may_use_def by blast
  from evaluate_and_learn_cases [OF assms(2)] show ?thesis
  proof (elim disjE conjE exE)
    fix i c assume "v = PendingApproval i" "request_approval ts resource ctx db = (i, db')" "evaluate rules resource = Ask"
    with requested [OF assms(1) this(2)] show ?thesis by simp
  qed (use gov requested [OF assms(1)] in simp_all)
qed

definition empty_prefs :: prefs_db where
  "empty_prefs = \<lparr>pd_preferences = [], pd_preference_seq = 0, pd_approvals = [], pd_approval_seq = 0\<rparr>"

lemma empty_prefs_ok: "approvals_ok empty_prefs"
  by (simp add: approvals_ok_def empty_prefs_def)

theorem gate_never_guesses_witness:
  "\<exists>db. evaluate_and_learn ''t'' [\<lparr>ru_pattern = ''mcp:git'', ru_decision = Allow\<rparr>] ''mcp:git:log'' None empty_prefs =
      Inr (VAllow, db) \<and> db = empty_prefs"
proof -
  let ?rs = "[\<lparr>ru_pattern = ''mcp:git'', ru_decision = Allow\<rparr>]"
  have e: "evaluate_and_learn ''t'' ?rs ''mcp:git:log'' None empty_prefs = Inr (VAllow, empty_prefs)"
    by (simp add: evaluate_and_learn_def evaluate_def starts_with_def)
  from gate_never_guesses [OF empty_prefs_ok e] e show ?thesis by auto
qed

section \<open>The hook fails closed\<close>

text \<open>A sleep of a second takes a second or longer.\<close>

definition sleeps :: "hook_env \<Rightarrow> bool" where
  "sleeps env \<longleftrightarrow> (\<forall>n. hk_now env n + 1000 \<le> hk_now env (Suc n))"

lemma sleeps_now: "sleeps env \<Longrightarrow> hk_now env 0 + 1000 * n \<le> hk_now env n"
proof (induction n)
  case (Suc n)
  then have "hk_now env n + 1000 \<le> hk_now env (Suc n)" by (simp add: sleeps_def)
  with Suc show ?case by simp
qed simp

lemma hook_deny_not_allow [simp]: "hook_deny_json reason \<noteq> hook_allow" "hook_allow \<noteq> hook_deny_json reason"
  by (simp_all add: hook_deny_json_def hook_allow_def jobj_def)

definition seen_allowed :: "hook_env \<Rightarrow> prefs_db \<Rightarrow> int \<Rightarrow> nat \<Rightarrow> bool" where
  "seen_allowed env db i n \<longleftrightarrow> (\<exists>a. get_approval i (hk_seen env db n) = Inr (Some (a, Allowed)))"

lemma wait_returns:
  assumes "sleeps env" "n \<le> 280"
  shows "\<exists>r. wait_for_approval env db (hook_deadline env) i n = Some r \<and>
    (r = Inr hook_allow \<longrightarrow> (\<exists>k \<le> 280. seen_allowed env db i k))"
  using assms(2)
proof (induction "280 - n" arbitrary: n)
  case 0
  then have "hook_deadline env \<le> hk_now env n"
    using sleeps_now [OF assms(1), of n] by (simp add: hook_deadline_def CLAUDE_HOOK_TIMEOUT_SECS_def)
  with 0 show ?case
    by (subst (1) wait_for_approval.simps)
      (auto simp: seen_allowed_def split: sum.split option.split prod.split approval_status.split)
next
  case (Suc k)
  then have "k = 280 - Suc n" "Suc n \<le> 280" by simp_all
  from Suc.hyps(1) [OF this] obtain r where
    r: "wait_for_approval env db (hook_deadline env) i (Suc n) = Some r"
      "r = Inr hook_allow \<longrightarrow> (\<exists>k \<le> 280. seen_allowed env db i k)" by blast
  with Suc.prems show ?case
    by (subst (1) wait_for_approval.simps)
      (auto simp: seen_allowed_def split: sum.split option.split prod.split approval_status.split)
qed

text \<open>C26: the hook always answers within 281 polls, whatever other processes do to the table meanwhile, and it lets the
  tool call through only if a rule or a confident preference allows it or if somebody allowed the
  approval it asked for; a deadline, a vanished record or an unreadable input never do. An error is an answer as well: the
  hook then ends without printing a decision.\<close>

theorem hook_fails_closed:
  assumes "sleeps env"
  shows "\<exists>r. run_claude_pretooluse_hook env ts (Some input) (Inr rules) db = Some r \<and>
    (r = Inr hook_allow \<longrightarrow>
      may_use Allow rules db (hook_resource input) \<or>
      (\<exists>i db' k. request_approval ts (hook_resource input) (Some ''claude PreToolUse hook'') db = (i, db') \<and>
         k \<le> 280 \<and> seen_allowed env db' i k))"
proof -
  define res where "res = hook_resource input"
  define ctx where "ctx = Some ''claude PreToolUse hook''"
  have run: "run_claude_pretooluse_hook env ts (Some input) (Inr rules) db =
     (case evaluate_and_learn ts rules res ctx db of
        Inl e \<Rightarrow> Some (Inl e)
      | Inr (VAllow, _) \<Rightarrow> Some (Inr hook_allow)
      | Inr (VDeny, _) \<Rightarrow> Some (Inr (hook_deny_json ''blocked by SingleCLI permission policy''))
      | Inr (PendingApproval i, db') \<Rightarrow> wait_for_approval env db' (hook_deadline env) i 0)"
    unfolding run_claude_pretooluse_hook_def Let_def option.case sum.case res_def ctx_def by (rule refl)
  show ?thesis unfolding res_def [symmetric] ctx_def [symmetric]
  proof (cases "evaluate_and_learn ts rules res ctx db")
    case (Inl e)
    with run show "\<exists>r. run_claude_pretooluse_hook env ts (Some input) (Inr rules) db = Some r \<and>
      (r = Inr hook_allow \<longrightarrow> may_use Allow rules db res \<or>
        (\<exists>i db' k. request_approval ts res ctx db = (i, db') \<and> k \<le> 280 \<and> seen_allowed env db' i k))" by simp
  next
    case (Inr vd)
    obtain v db' where vd: "vd = (v, db')" by (cases vd)
    have ev: "evaluate_and_learn ts rules res ctx db = Inr (v, db')" using Inr vd by simp
    show "\<exists>r. run_claude_pretooluse_hook env ts (Some input) (Inr rules) db = Some r \<and>
      (r = Inr hook_allow \<longrightarrow> may_use Allow rules db res \<or>
        (\<exists>i db' k. request_approval ts res ctx db = (i, db') \<and> k \<le> 280 \<and> seen_allowed env db' i k))"
    proof (cases v)
      case VAllow
      have "may_use Allow rules db res"
        using evaluate_and_learn_cases [OF ev] VAllow evaluate_governs [of rules res Allow]
          lookup_governs [of db res Allow] unfolding may_use_def by auto
      with run ev VAllow show ?thesis by auto
    next
      case VDeny
      with run ev show ?thesis by simp
    next
      case (PendingApproval i)
      have "request_approval ts res ctx db = (i, db')"
        using evaluate_and_learn_cases [OF ev] PendingApproval by auto
      moreover from wait_returns [OF assms, of 0 db' i] obtain r where
        "wait_for_approval env db' (hook_deadline env) i 0 = Some r"
        "r = Inr hook_allow \<longrightarrow> (\<exists>k \<le> 280. seen_allowed env db' i k)" by auto
      ultimately show ?thesis using run ev PendingApproval by auto
    qed
  qed
qed

definition idle_env :: hook_env where
  "idle_env = \<lparr>hk_seen = (\<lambda>db n. db), hk_now = (\<lambda>n. 1000 * n)\<rparr>"

text \<open>Nobody answers: the call of an unlisted tool is refused.\<close>

theorem hook_fails_closed_witness:
  "\<exists>r. run_claude_pretooluse_hook idle_env ''t'' (Some (JObj [(''tool_name'', JStr ''WebFetch'')])) (Inr []) empty_prefs = Some r \<and>
     r \<noteq> Inr hook_allow"
proof -
  let ?in = "JObj [(''tool_name'', JStr ''WebFetch'')]"
  have "sleeps idle_env" by (simp add: sleeps_def idle_env_def)
  from hook_fails_closed [OF this, of "''t''" ?in "[]" empty_prefs] obtain r where
    r: "run_claude_pretooluse_hook idle_env ''t'' (Some ?in) (Inr []) empty_prefs = Some r"
    "r = Inr hook_allow \<Longrightarrow> may_use Allow [] empty_prefs (hook_resource ?in) \<or>
      (\<exists>i db' k. request_approval ''t'' (hook_resource ?in) (Some ''claude PreToolUse hook'') empty_prefs = (i, db') \<and>
         k \<le> 280 \<and> seen_allowed idle_env db' i k)" by blast
  have "\<not> may_use Allow [] empty_prefs x" for x
    by (simp add: may_use_def governs_def confident_def empty_prefs_def)
  moreover have "\<not> seen_allowed idle_env db' i k"
    if "request_approval ''t'' x c empty_prefs = (i, db')" for x c i db' k
    using requested(1) [OF empty_prefs_ok that] by (auto simp: seen_allowed_def idle_env_def)
  ultimately show ?thesis using r by blast
qed

section \<open>What an approval is good for\<close>

lemma learned_row:
  "\<exists>r \<in> set (pd_preferences (learn ts p d c l db)). pf_pattern r = p \<and> pf_decision r = decision_as_str d \<and>
     pf_confidence r = clamp01 c"
proof (cases "exists_where (\<lambda>r. pf_pattern r = p) (pd_preferences db)")
  case True
  then obtain r where r: "r \<in> set (pd_preferences db)" "pf_pattern r = p" by (auto simp: exists_where_iff)
  let ?f = "\<lambda>r. r\<lparr>pf_decision := decision_as_str d, pf_confidence := clamp01 c, pf_learned_from := l, pf_created_at := ts\<rparr>"
  from r True have "?f r \<in> set (pd_preferences (learn ts p d c l db))" by (auto simp: learn_def set_update_where)
  with r show ?thesis by (intro bexI [of _ "?f r"]) auto
qed (simp add: learn_def Let_def)

lemma learned_rows:
  assumes "r \<in> set (pd_preferences (learn ts p d c l db))"
  shows "pf_pattern r = p \<and> pf_decision r = decision_as_str d \<or> r \<in> set (pd_preferences db) \<and> pf_pattern r \<noteq> p"
  using assms by (auto simp: learn_def Let_def exists_where_iff set_update_where split: if_splits)

lemma parse_rows_ok: "(\<exists>ps. parse_rows rs = Inr ps) \<longleftrightarrow> (\<forall>r \<in> set rs. \<exists>d. pf_decision r = decision_as_str d)"
  by (induction rs) (auto simp: parse_decision_Inr split: sum.splits)

lemma prefix_same_length: "starts_with p (r @ s) \<Longrightarrow> length p = length r \<Longrightarrow> p = r"
  by (auto simp: starts_with_iff append_eq_append_conv)

lemma learned_governs:
  assumes "list_preferences db = Inr ps0" and "d \<noteq> Ask"
    and short: "\<forall>q \<in> set (pd_preferences db). starts_with (pf_pattern q) (res @ s) \<longrightarrow> length (pf_pattern q) \<le> length res"
  shows "\<exists>c. lookup (learn ts res d 1 l db) (res @ s) MIN_AUTO_APPLY_CONFIDENCE = Inr (Some (d, c))"
proof -
  let ?db = "learn ts res d 1 l db"
  have "\<forall>r \<in> set (pd_preferences db). \<exists>d. pf_decision r = decision_as_str d"
    using assms(1) parse_rows_ok [of "sort_key pf_pattern (pd_preferences db)"] by (auto simp: list_preferences_def)
  then have "\<forall>r \<in> set (pd_preferences ?db). \<exists>d. pf_decision r = decision_as_str d"
    using learned_rows [of _ ts res d 1 l db] by blast
  then obtain ps where ps: "parse_rows (sort_key pf_pattern (pd_preferences ?db)) = Inr ps"
    using parse_rows_ok [of "sort_key pf_pattern (pd_preferences ?db)"] by auto
  note rows = parse_rows_Inr [OF ps, simplified]
  let ?match = "filter (\<lambda>p. starts_with (pr_pattern p) (res @ s) \<and> MIN_AUTO_APPLY_CONFIDENCE \<le> pr_confidence p) ps"
  obtain r where r: "r \<in> set (pd_preferences ?db)" "pf_pattern r = res" "pf_decision r = decision_as_str d"
    "pf_confidence r = 1" using learned_row [of ts res d 1 l db] by (auto simp: clamp01_def)
  define q where "q = row_preference r d"
  have "q \<in> set ps" using rows r by (auto simp: q_def intro!: bexI [of _ r])
  then have q: "q \<in> set ?match" using r by (simp add: q_def MIN_AUTO_APPLY_CONFIDENCE_def)
  then obtain m where m: "max_by_key (\<lambda>p. length (pr_pattern p)) ?match = Some m"
    using max_by_key_None [of "\<lambda>p. length (pr_pattern p)" ?match]
    by (cases "max_by_key (\<lambda>p. length (pr_pattern p)) ?match") (metis empty_iff empty_set)+
  from max_by_key_Some [OF m] q have m2: "m \<in> set ps" "starts_with (pr_pattern m) (res @ s)"
    "length res \<le> length (pr_pattern m)" using r by (auto simp: q_def)
  from m2(1) rows obtain r' where r': "r' \<in> set (pd_preferences ?db)" "pr_pattern m = pf_pattern r'"
    "decision_as_str (pr_decision m) = pf_decision r'" by (metis row_preference_simps(1))
  have "pf_pattern r' = res"
  proof (rule ccontr)
    assume "pf_pattern r' \<noteq> res"
    with learned_rows [OF r'(1)] short m2(2,3) r'(2) have "length (pr_pattern m) = length res" by auto
    with prefix_same_length [OF m2(2)] r'(2) \<open>pf_pattern r' \<noteq> res\<close> show False by simp
  qed
  with learned_rows [OF r'(1)] r'(3) have "pr_decision m = d" by auto
  with m ps show ?thesis by (simp add: lookup_def list_preferences_def)
qed

lemma resolve_remember:
  assumes "resolve ts i allow True db = Inr db'" "get_approval i db = Inr (Some (a, st))"
  shows "\<exists>db1. db' = learn ts (ap_resource a) (if allow then Allow else Deny) 1 (Some ''user_approval'') db1 \<and>
    pd_preferences db1 = pd_preferences db \<and> st = Pending"
  using assms by (auto simp: resolve_def Let_def split: if_splits)

text \<open>An approval that is remembered is remembered as a prefix: whatever is appended to the approved resource,
  the gate then lets it through without asking, unless a rule or a longer preference decides otherwise.
  An approval of one shell command covers every longer command line that begins with it.\<close>

theorem remembered_approval_widens:
  assumes "get_approval i db = Inr (Some (a, Pending))" and "resolve ts i True True db = Inr db'"
    and "list_preferences db = Inr ps" and "evaluate rules (ap_resource a @ rest) = Ask"
    and "\<forall>q \<in> set (pd_preferences db). starts_with (pf_pattern q) (ap_resource a @ rest) \<longrightarrow>
      length (pf_pattern q) \<le> length (ap_resource a)"
  shows "evaluate_and_learn ts' rules (ap_resource a @ rest) ctx db' = Inr (VAllow, db')"
proof -
  obtain db1 where db1: "db' = learn ts (ap_resource a) Allow 1 (Some ''user_approval'') db1"
    "pd_preferences db1 = pd_preferences db" using resolve_remember [OF assms(2,1)] by auto
  have "list_preferences db1 = Inr ps" using assms(3) db1(2) by (simp add: list_preferences_def)
  from learned_governs [OF this, of Allow "ap_resource a" rest ts "Some ''user_approval''"] assms(5) db1 obtain c where
    "lookup db' (ap_resource a @ rest) MIN_AUTO_APPLY_CONFIDENCE = Inr (Some (Allow, c))" by auto
  with assms(4) show ?thesis by (simp add: evaluate_and_learn_def)
qed

theorem remembered_approval_widens_witness:
  "\<exists>i db db'. request_approval ''t'' ''claude:bash:git status'' None empty_prefs = (i, db) \<and>
     resolve ''t'' i True True db = Inr db' \<and>
     evaluate_and_learn ''t'' [] ''claude:bash:git status; rm -rf ~'' None db' = Inr (VAllow, db')"
proof -
  define cmd where "cmd = ''claude:bash:git status''"
  obtain i db where r: "request_approval ''t'' cmd None empty_prefs = (i, db)" by (cases "request_approval ''t'' cmd None empty_prefs")
  from requested [OF empty_prefs_ok r] obtain a where
    a: "get_approval i db = Inr (Some (a, Pending))" "ap_resource a = cmd" "pd_preferences db = []"
    by (auto simp: empty_prefs_def)
  obtain db' where d: "resolve ''t'' i True True db = Inr db'" using a by (simp add: resolve_def Let_def)
  have "list_preferences db = Inr []" using a(3) by (simp add: list_preferences_def)
  from remembered_approval_widens [OF a(1) d this, of "[]" "''; rm -rf ~''" "''t''" None] a(2,3)
  have "evaluate_and_learn ''t'' [] (cmd @ ''; rm -rf ~'') None db' = Inr (VAllow, db')" by (simp add: evaluate_def)
  with r d show ?thesis by (auto simp: cmd_def)
qed

text \<open>Allowing without remembering does not help a caller that retries, as the gateway tells it to: it is asked for a
  new approval.\<close>

lemma allowed_once_asks_again:
  assumes "evaluate_and_learn ts rules resource ctx db = Inr (PendingApproval i, db1)" "resolve ts2 i True False db1 = Inr db2"
  shows "\<exists>j db3. evaluate_and_learn ts3 rules resource ctx db2 = Inr (PendingApproval j, db3) \<and> j = i + 1"
proof -
  from evaluate_and_learn_cases [OF assms(1)] have c: "request_approval ts resource ctx db = (i, db1)"
    "evaluate rules resource = Ask" "lookup db resource MIN_AUTO_APPLY_CONFIDENCE = Inr None \<or>
      (\<exists>c. lookup db resource MIN_AUTO_APPLY_CONFIDENCE = Inr (Some (Ask, c)))" by auto
  have p: "pd_preferences db2 = pd_preferences db1" "pd_approval_seq db2 = pd_approval_seq db1"
    using assms(2) by (auto simp: resolve_def Let_def split: sum.splits option.splits if_splits)
  have q: "pd_preferences db1 = pd_preferences db" "pd_approval_seq db1 = i"
    using c(1) by (auto simp: request_approval_def Let_def)
  have "lookup db2 r k = lookup db r k" for r k using p q by (simp add: lookup_def list_preferences_def)
  with c p q show ?thesis
    by (auto simp: evaluate_and_learn_def request_approval_def Let_def)
qed

end
