(* ===== verification/Registry.thy ===== *)
theory Registry
  imports Prelude
begin

text \<open>
  The registry files of \<open>single-core\<close> (\<open>mcp.rs\<close>, \<open>lsp.rs\<close>, \<open>tools.rs\<close>, \<open>plugins.rs\<close>, \<open>providers.rs\<close>,
  \<open>provider_keys.rs\<close>): a TOML table from keys to entries that every operation reads, changes and writes back as a
  whole. The operations here are the text the modules share, with the module's load and save as arguments. A
  file is absent, unreadable or the parsed \<open>BTreeMap\<close>; a write that fails says what it leaves behind.
\<close>

datatype 'a reg_file = NoFile | BadFile string | Entries "(string \<times> 'a) list"

type_synonym 'a writing = "(string \<times> 'a reg_file) option"

fun btree_insert :: "string \<Rightarrow> 'a \<Rightarrow> (string \<times> 'a) list \<Rightarrow> (string \<times> 'a) list" where
  "btree_insert k v [] = [(k, v)]"
| "btree_insert k v ((k', v') # t) =
     (if k = k' then (k, v) # t else if k < k' then (k, v) # (k', v') # t else (k', v') # btree_insert k v t)"

definition btree_of :: "('a \<Rightarrow> string) \<Rightarrow> 'a list \<Rightarrow> (string \<times> 'a) list" where
  "btree_of key xs = foldl (\<lambda>t x. btree_insert (key x) x t) [] xs"

definition reg_load :: "'a list \<Rightarrow> 'a reg_file \<Rightarrow> string + 'a list" where
  "reg_load defaults f =
     (case f of NoFile \<Rightarrow> Inr defaults | BadFile e \<Rightarrow> Inl e | Entries t \<Rightarrow> Inr (map snd t))"

definition reg_save :: "('a \<Rightarrow> string) \<Rightarrow> 'a writing \<Rightarrow> 'a list \<Rightarrow> (string + unit) \<times> 'a reg_file" where
  "reg_save key w xs =
     (case w of Some (e, left) \<Rightarrow> (Inl e, left) | None \<Rightarrow> (Inr (), Entries (btree_of key xs)))"

definition saved_as :: "'r \<Rightarrow> (string + unit) \<times> 'f \<Rightarrow> (string + 'r) \<times> 'f" where
  "saved_as r s = (case s of (Inl e, f) \<Rightarrow> (Inl e, f) | (Inr _, f) \<Rightarrow> (Inr r, f))"

definition reg_add ::
    "('a \<Rightarrow> string) \<Rightarrow> ('f \<Rightarrow> string + 'a list) \<Rightarrow> ('a list \<Rightarrow> (string + unit) \<times> 'f) \<Rightarrow> 'a \<Rightarrow> 'f \<Rightarrow> (string + unit) \<times> 'f" where
  "reg_add name load save x f =
     (case load f of Inl e \<Rightarrow> (Inl e, f) | Inr xs \<Rightarrow> save (filter (\<lambda>y. name y \<noteq> name x) xs @ [x]))"

definition reg_remove ::
    "('a \<Rightarrow> string) \<Rightarrow> ('f \<Rightarrow> string + 'a list) \<Rightarrow> ('a list \<Rightarrow> (string + unit) \<times> 'f) \<Rightarrow> string \<Rightarrow> 'f \<Rightarrow> (string + bool) \<times> 'f" where
  "reg_remove name load save n f =
     (case load f of
        Inl e \<Rightarrow> (Inl e, f)
      | Inr xs \<Rightarrow>
          (let ys = filter (\<lambda>y. name y \<noteq> n) xs
           in if length ys \<noteq> length xs then saved_as True (save ys) else (Inr False, f)))"

fun update_first :: "('a \<Rightarrow> bool) \<Rightarrow> ('a \<Rightarrow> 'a) \<Rightarrow> 'a list \<Rightarrow> 'a list" where
  "update_first P g [] = []"
| "update_first P g (x # xs) = (if P x then g x # xs else x # update_first P g xs)"

definition reg_set_enabled ::
    "('a \<Rightarrow> string) \<Rightarrow> (bool \<Rightarrow> 'a \<Rightarrow> 'a) \<Rightarrow> ('f \<Rightarrow> string + 'a list) \<Rightarrow> ('a list \<Rightarrow> (string + unit) \<times> 'f) \<Rightarrow> string \<Rightarrow> bool \<Rightarrow> 'f \<Rightarrow>
     (string + bool) \<times> 'f" where
  "reg_set_enabled name enable load save n b f =
     (case load f of
        Inl e \<Rightarrow> (Inl e, f)
      | Inr xs \<Rightarrow>
          if exists_where (\<lambda>x. name x = n) xs
          then saved_as True (save (update_first (\<lambda>x. name x = n) (enable b) xs))
          else (Inr False, f))"

definition reg_find :: "('a \<Rightarrow> string) \<Rightarrow> ('f \<Rightarrow> string + 'a list) \<Rightarrow> string \<Rightarrow> 'f \<Rightarrow> string + 'a option" where
  "reg_find name load n f =
     (case load f of Inl e \<Rightarrow> Inl e | Inr xs \<Rightarrow> Inr (find (\<lambda>x. name x = n) xs))"

text \<open>The presets that the registry lacks are appended; the names it has are read once, before the loop.\<close>

definition reg_sync ::
    "('a \<Rightarrow> string) \<Rightarrow> ('f \<Rightarrow> string + 'a list) \<Rightarrow> ('a list \<Rightarrow> (string + unit) \<times> 'f) \<Rightarrow> 'a list \<Rightarrow> 'f \<Rightarrow> (string + nat) \<times> 'f" where
  "reg_sync name load save specs f =
     (case load f of
        Inl e \<Rightarrow> (Inl e, f)
      | Inr xs \<Rightarrow>
          (let missing = filter (\<lambda>p. name p \<notin> set (map name xs)) specs
           in if missing \<noteq> [] then saved_as (length missing) (save (xs @ missing)) else (Inr 0, f)))"

section \<open>Ordered tables\<close>

lemma btree_insert_keys: "fst ` set (btree_insert k v t) = insert k (fst ` set t)"
  by (induction k v t rule: btree_insert.induct) (auto simp: insert_commute)

lemma btree_insert_sorted:
  "sorted_wrt (<) (map fst t) \<Longrightarrow> sorted_wrt (<) (map fst (btree_insert k v t))"
proof (induction k v t rule: btree_insert.induct)
  case (2 k v k' v' t)
  have keys: "set (map fst (btree_insert k v t)) = insert k (fst ` set t)" by (simp add: btree_insert_keys)
  have "sorted_wrt (<) (map fst t)" "\<forall>x \<in> fst ` set t. k' < x" using "2.prems" by auto
  moreover have "k < k' \<Longrightarrow> \<forall>x \<in> fst ` set t. k < x" using calculation(2) less_trans by blast
  ultimately show ?case using "2.IH" keys by (cases k k' rule: linorder_cases) (simp_all add: neq_iff)
qed simp

lemma map_of_btree_insert:
  "sorted_wrt (<) (map fst t) \<Longrightarrow> map_of (btree_insert k v t) = (map_of t)(k \<mapsto> v)"
proof (induction k v t rule: btree_insert.induct)
  case (2 k v k' v' t)
  have "k < k' \<Longrightarrow> k \<notin> fst ` set t" using "2.prems" by auto
  then show ?case using 2 by (auto simp: fun_eq_iff)
qed simp

lemma btree_insert_vals:
  "\<forall>(k', y) \<in> set t. k' = key y \<Longrightarrow> k = key x \<Longrightarrow> \<forall>(k', y) \<in> set (btree_insert k x t). k' = key y"
  by (induction k x t rule: btree_insert.induct) auto

lemma btree_of_snoc [simp]: "btree_of key (xs @ [x]) = btree_insert (key x) x (btree_of key xs)" "btree_of key [] = []"
  by (simp_all add: btree_of_def)

lemma btree_of_ok:
  "sorted_wrt (<) (map fst (btree_of key xs)) \<and> (\<forall>(k, y) \<in> set (btree_of key xs). k = key y)"
proof (induction xs rule: rev_induct)
  case (snoc x xs)
  then show ?case using btree_insert_sorted [of "btree_of key xs" "key x" x] btree_insert_vals [of "btree_of key xs" key "key x" x] by simp
qed simp

lemma map_of_btree_of: "map_of (btree_of key xs) n = find (\<lambda>x. key x = n) (rev xs)"
proof (induction xs rule: rev_induct)
  case (snoc x xs)
  then show ?case using btree_of_ok [of key xs] by (simp add: map_of_btree_insert)
qed simp

lemma btree_of_names: "map key (map snd (btree_of key xs)) = map fst (btree_of key xs)"
  using btree_of_ok [of key xs] by auto

lemma find_map_snd:
  "\<forall>(k, y) \<in> set t. k = key y \<Longrightarrow> find (\<lambda>x. key x = n) (map snd t) = map_of t n"
  by (induction t) auto

lemma find_app: "find P (xs @ ys) = (case find P xs of None \<Rightarrow> find P ys | Some x \<Rightarrow> Some x)"
  by (induction xs) auto

lemma find_in: "find P xs = Some x \<Longrightarrow> x \<in> set xs \<and> P x"
  by (induction xs) (auto split: if_splits)

lemma find_key_None: "find (\<lambda>y. key y = n) xs = None \<longleftrightarrow> n \<notin> key ` set xs"
  by (auto simp: find_None_iff)

lemma find_key_member:
  "distinct (map key xs) \<Longrightarrow> x \<in> set xs \<longleftrightarrow> find (\<lambda>y. key y = key x) xs = Some x"
proof (induction xs)
  case (Cons a xs)
  then show ?case by (cases "key a = key x") (auto simp: find_Some_iff)
qed simp

lemma find_distinct_rev:
  "distinct (map key xs) \<Longrightarrow> find (\<lambda>x. key x = n) (rev xs) = find (\<lambda>x. key x = n) xs"
proof (induction xs)
  case (Cons x xs)
  then show ?case
  proof (cases "key x = n")
    case True
    then have "find (\<lambda>x. key x = n) xs = None" using Cons.prems by (simp add: find_key_None)
    then show ?thesis using Cons True by (simp add: find_app)
  next
    case False
    then show ?thesis using Cons by (simp add: find_app split: option.split)
  qed
qed simp

lemma find_filter_key: "find (\<lambda>y. key y = n) (filter (\<lambda>y. key y \<noteq> m) xs) = (if n = m then None else find (\<lambda>y. key y = n) xs)"
  by (induction xs) auto

lemma update_first_keys [simp]:
  "(\<And>x. key (g x) = key x) \<Longrightarrow> map key (update_first P g xs) = map key xs"
  by (induction xs) auto

lemma find_update_first:
  assumes "\<And>x. key (g x) = key x"
  shows "find (\<lambda>x. key x = n) (update_first (\<lambda>x. key x = m) g xs) =
    (if n = m then map_option g (find (\<lambda>x. key x = n) xs) else find (\<lambda>x. key x = n) xs)"
  using assms by (induction xs) auto

lemma saved_as_Inr: "saved_as r s = (Inr k, g) \<longleftrightarrow> k = r \<and> s = (Inr (), g)"
  by (cases s) (auto simp: saved_as_def split: sum.splits)

section \<open>The contract of a registry\<close>

text \<open>What the operations rely on: a save that succeeds is read back in the order of the names, without duplicates,
  the later of two entries with one name being kept.\<close>

locale named_registry =
  fixes name :: "'a \<Rightarrow> string"
    and load :: "'f \<Rightarrow> string + 'a list"
    and save :: "'a list \<Rightarrow> (string + unit) \<times> 'f"
  assumes saved: "save xs = (Inr (), g) \<Longrightarrow> \<exists>ys. load g = Inr ys \<and> sorted_wrt (<) (map name ys) \<and>
    (\<forall>n. find (\<lambda>x. name x = n) ys = find (\<lambda>x. name x = n) (rev xs))"
begin

lemma sorted_distinct: "sorted_wrt (<) (map name ys) \<Longrightarrow> distinct (map name ys)"
  by (simp add: strict_sorted_iff)

lemma added:
  assumes "load f = Inr xs" "distinct (map name xs)" "reg_add name load save x f = (Inr (), g)"
  shows "\<exists>ys. load g = Inr ys \<and> sorted_wrt (<) (map name ys) \<and>
    (\<forall>n. find (\<lambda>y. name y = n) ys = (if n = name x then Some x else find (\<lambda>y. name y = n) xs))"
proof -
  have "distinct (map name (filter (\<lambda>y. name y \<noteq> name x) xs))" using assms(2) by (simp add: distinct_map_filter)
  from find_distinct_rev [OF this] saved [of "filter (\<lambda>y. name y \<noteq> name x) xs @ [x]" g] assms(1,3)
  show ?thesis by (auto simp: reg_add_def find_filter_key)
qed

lemma removed:
  assumes "load f = Inr xs" "distinct (map name xs)" "reg_remove name load save n f = (Inr b, g)"
  shows "\<exists>ys. load g = Inr ys \<and> b = (n \<in> name ` set xs) \<and>
    (\<forall>m. find (\<lambda>y. name y = m) ys = (if m = n then None else find (\<lambda>y. name y = m) xs))"
proof (cases "n \<in> name ` set xs")
  case False
  then have "filter (\<lambda>y. name y \<noteq> n) xs = xs" by (auto simp: filter_id_conv)
  moreover have "find (\<lambda>y. name y = n) xs = None" using False by (auto simp: find_None_iff)
  ultimately show ?thesis using assms(1,3) False by (auto simp: reg_remove_def)
next
  case True
  then have "length (filter (\<lambda>y. name y \<noteq> n) xs) \<noteq> length xs"
    using length_filter_less [of _ xs "\<lambda>y. name y \<noteq> n"] by fastforce
  then have "saved_as True (save (filter (\<lambda>y. name y \<noteq> n) xs)) = (Inr b, g)"
    using assms(1,3) by (simp add: reg_remove_def)
  then have b: "b" "save (filter (\<lambda>y. name y \<noteq> n) xs) = (Inr (), g)"
    by (simp_all add: saved_as_Inr)
  have "distinct (map name (filter (\<lambda>y. name y \<noteq> n) xs))" using assms(2) by (simp add: distinct_map_filter)
  from find_distinct_rev [OF this] saved [OF b(2)] b(1) True show ?thesis by (auto simp: find_filter_key)
qed

lemma synced:
  assumes "load f = Inr xs" "distinct (map name xs)" "reg_sync name load save specs f = (Inr k, g)"
  shows "\<exists>ys. load g = Inr ys \<and> set xs \<subseteq> set ys \<and> set ys \<subseteq> set xs \<union> {p \<in> set specs. name p \<notin> name ` set xs} \<and>
    name ` set specs \<subseteq> name ` set ys \<and> distinct (map name ys) \<and>
    k = length (filter (\<lambda>p. name p \<notin> name ` set xs) specs)"
proof -
  define new where "new = filter (\<lambda>p. name p \<notin> set (map name xs)) specs"
  have new: "set new = {p \<in> set specs. name p \<notin> name ` set xs}" by (auto simp: new_def)
  have sync: "reg_sync name load save specs f =
    (if new \<noteq> [] then saved_as (length new) (save (xs @ new)) else (Inr 0, f))"
    by (simp add: reg_sync_def assms(1) new_def Let_def del: filter_empty_conv)
  have len: "length new = length (filter (\<lambda>p. name p \<notin> name ` set xs) specs)" by (simp add: new_def)
  show ?thesis
  proof (cases "new = []")
    case True
    then have "\<forall>p \<in> set specs. name p \<in> name ` set xs" by (simp add: new_def filter_empty_conv)
    then have "name ` set specs \<subseteq> name ` set xs" by blast
    moreover have "k = 0" "g = f" using sync True assms(3) by simp_all
    ultimately show ?thesis using assms(1,2) True len by (intro exI [of _ xs]) simp
  next
    case False
    with sync assms(3) have "saved_as (length new) (save (xs @ new)) = (Inr k, g)" by simp
    then have k: "k = length new" "save (xs @ new) = (Inr (), g)" by (simp_all add: saved_as_Inr)
    from saved [OF k(2)] obtain ys where ys: "load g = Inr ys" "sorted_wrt (<) (map name ys)"
      and "\<forall>n. find (\<lambda>x. name x = n) ys = find (\<lambda>x. name x = n) (rev (xs @ new))" by blast
    then have found: "find (\<lambda>x. name x = n) ys = find (\<lambda>x. name x = n) (rev new @ rev xs)" for n by simp
    note dys = sorted_distinct [OF ys(2)]
    have "x \<in> set ys" if x: "x \<in> set xs" for x
    proof -
      have "name x \<in> name ` set xs" using x by (rule imageI)
      moreover have "name p \<notin> name ` set xs" if "p \<in> set new" for p using that new by simp
      ultimately have "name x \<notin> name ` set new" by (metis imageE)
      then have "find (\<lambda>y. name y = name x) (rev new) = None" by (simp add: find_key_None)
      moreover have "find (\<lambda>y. name y = name x) xs = Some x" using x find_key_member [OF assms(2)] by blast
      ultimately have "find (\<lambda>y. name y = name x) ys = Some x"
        by (simp add: found find_app find_distinct_rev [OF assms(2)])
      from find_in [OF this] show ?thesis by simp
    qed
    moreover have "y \<in> set xs \<union> set new" if y: "y \<in> set ys" for y
    proof -
      have "find (\<lambda>x. name x = name y) (rev new @ rev xs) = Some y"
        using y find_key_member [OF dys, of y] unfolding found by simp
      from find_in [OF this] show ?thesis by auto
    qed
    moreover have "name p \<in> name ` set ys" if "p \<in> set specs" for p
    proof -
      have "name p \<in> name ` set (rev new @ rev xs)" using that new by auto
      then have "find (\<lambda>x. name x = name p) ys \<noteq> None" unfolding found find_key_None by simp
      then show ?thesis unfolding find_key_None by simp
    qed
    ultimately have sets: "set xs \<subseteq> set ys" "set ys \<subseteq> set xs \<union> set new" "name ` set specs \<subseteq> name ` set ys"
      by blast+
    show ?thesis
      by (intro exI [of _ ys] conjI) (use ys(1) dys k(1) len sets in \<open>simp_all add: new\<close>)
  qed
qed

lemma sync_settles:
  assumes "load g = Inr ys" "name ` set specs \<subseteq> name ` set ys"
  shows "reg_sync name load save specs g = (Inr 0, g)"
proof -
  have "filter (\<lambda>p. name p \<notin> set (map name ys)) specs = []" using assms(2) by (auto simp: filter_empty_conv)
  with assms(1) show ?thesis by (simp add: reg_sync_def Let_def del: filter_empty_conv)
qed

lemma switched:
  assumes "load f = Inr xs" "distinct (map name xs)" "\<And>b x. name (enable b x) = name x"
    "reg_set_enabled name enable load save n b f = (Inr r, g)"
  shows "\<exists>ys. load g = Inr ys \<and> r = (n \<in> name ` set xs) \<and>
    (\<forall>m. find (\<lambda>y. name y = m) ys =
      (if m = n then map_option (enable b) (find (\<lambda>y. name y = m) xs) else find (\<lambda>y. name y = m) xs))"
proof (cases "n \<in> name ` set xs")
  case False
  then have "find (\<lambda>y. name y = n) xs = None" by (auto simp: find_None_iff)
  moreover have "\<not> exists_where (\<lambda>x. name x = n) xs" using False by (auto simp: exists_where_iff)
  ultimately show ?thesis using False assms(1,4) by (auto simp: reg_set_enabled_def)
next
  case True
  let ?us = "update_first (\<lambda>x. name x = n) (enable b) xs"
  have "exists_where (\<lambda>x. name x = n) xs" using True by (auto simp: exists_where_iff)
  then have "saved_as True (save ?us) = (Inr r, g)" using assms(1,4) by (simp add: reg_set_enabled_def)
  then have r: "r" "save ?us = (Inr (), g)" by (simp_all add: saved_as_Inr)
  have "distinct (map name ?us)" using assms(2,3) by simp
  from find_distinct_rev [OF this] saved [OF r(2)] r(1) True show ?thesis
    by (auto simp: find_update_first [of name "enable b", OF assms(3)])
qed

end

lemma reg_sync_returns:
  assumes "load f = Inr xs"
  shows "\<exists>k g. reg_sync name load (reg_save key None) specs f = (Inr k, g)"
  by (simp add: reg_sync_def assms Let_def reg_save_def saved_as_def)

lemma reg_save_contract:
  "reg_save key w xs = (Inr (), g) \<Longrightarrow> \<exists>ys. reg_load d g = Inr ys \<and> sorted_wrt (<) (map key ys) \<and>
    (\<forall>n. find (\<lambda>x. key x = n) ys = find (\<lambda>x. key x = n) (rev xs))"
  using btree_of_ok [of key xs] btree_of_names [of key xs] find_map_snd [of "btree_of key xs" key]
  by (auto simp: reg_save_def reg_load_def map_of_btree_of simp del: map_map split: option.splits)

end
