(* ===== verification/RegistryTables.thy ===== *)
theory RegistryTables
  imports LspRouter
begin

text \<open>
  The built-in tables of the registries: \<open>default_servers\<close> and \<open>presets\<close> of \<open>mcp.rs\<close> and \<open>lsp.rs\<close>,
  \<open>default_tools\<close> of \<open>tools.rs\<close>, \<open>presets\<close> of \<open>plugins.rs\<close> and \<open>providers.rs\<close>, in the order of the source.
\<close>

section \<open>MCP servers\<close>

text \<open>\<open>BTreeMap\<close>s of strings are ordered lists of pairs.\<close>

record mcp_spec =
  ms_name :: string
  ms_command :: string
  ms_args :: "string list"
  ms_env :: "(string \<times> string) list"
  ms_secret_env :: "(string \<times> string) list"
  ms_enabled :: bool

record mcp_preset =
  mp_name :: string
  mp_command :: string
  mp_args :: "string list"
  mp_secret_env_vars :: "string list"

definition mcp_default_servers :: "mcp_spec list" where
  "mcp_default_servers =
    [\<lparr>ms_name = ''git'', ms_command = ''uvx'', ms_args = [''mcp-server-git''],
      ms_env = [], ms_secret_env = [], ms_enabled = True\<rparr>,
     \<lparr>ms_name = ''memory'', ms_command = ''npx'', ms_args = [''-y'', ''@modelcontextprotocol/server-memory''],
      ms_env = [], ms_secret_env = [], ms_enabled = True\<rparr>,
     \<lparr>ms_name = ''fetch'', ms_command = ''uvx'', ms_args = [''mcp-server-fetch''],
      ms_env = [], ms_secret_env = [], ms_enabled = True\<rparr>,
     \<lparr>ms_name = ''sequential-thinking'', ms_command = ''npx'', ms_args = [''-y'', ''@modelcontextprotocol/server-sequential-thinking''],
      ms_env = [], ms_secret_env = [], ms_enabled = True\<rparr>,
     \<lparr>ms_name = ''filesystem'', ms_command = ''npx'', ms_args = [''-y'', ''@modelcontextprotocol/server-filesystem''],
      ms_env = [], ms_secret_env = [], ms_enabled = False\<rparr>,
     \<lparr>ms_name = ''github'', ms_command = ''docker'', ms_args = [''run'', ''-i'', ''--rm'', ''-e'', ''GITHUB_PERSONAL_ACCESS_TOKEN'', ''ghcr.io/github/github-mcp-server''],
      ms_env = [], ms_secret_env = [], ms_enabled = False\<rparr>,
     \<lparr>ms_name = ''playwright'', ms_command = ''npx'', ms_args = [''-y'', ''@playwright/mcp@latest''],
      ms_env = [], ms_secret_env = [], ms_enabled = False\<rparr>,
     \<lparr>ms_name = ''chrome-devtools'', ms_command = ''npx'', ms_args = [''-y'', ''chrome-devtools-mcp@latest''],
      ms_env = [], ms_secret_env = [], ms_enabled = False\<rparr>]"

definition mcp_presets :: "mcp_preset list" where
  "mcp_presets =
    [\<lparr>mp_name = ''brave-search'', mp_command = ''npx'', mp_args = [''-y'', ''@modelcontextprotocol/server-brave-search''],
      mp_secret_env_vars = []\<rparr>,
     \<lparr>mp_name = ''slack'', mp_command = ''npx'', mp_args = [''-y'', ''@modelcontextprotocol/server-slack''],
      mp_secret_env_vars = []\<rparr>,
     \<lparr>mp_name = ''puppeteer'', mp_command = ''npx'', mp_args = [''-y'', ''@modelcontextprotocol/server-puppeteer''],
      mp_secret_env_vars = []\<rparr>,
     \<lparr>mp_name = ''postgres'', mp_command = ''npx'', mp_args = [''-y'', ''@modelcontextprotocol/server-postgres''],
      mp_secret_env_vars = []\<rparr>,
     \<lparr>mp_name = ''postman'', mp_command = ''npx'', mp_args = [''-y'', ''postman-mcp-server''],
      mp_secret_env_vars = [''POSTMAN_API_KEY'']\<rparr>,
     \<lparr>mp_name = ''cloudflare'', mp_command = ''npx'', mp_args = [''-y'', ''@cloudflare/mcp-server-cloudflare''],
      mp_secret_env_vars = [''CLOUDFLARE_API_TOKEN'']\<rparr>,
     \<lparr>mp_name = ''distrobox-control'', mp_command = ''single-mcp'', mp_args = [''--distrobox''],
      mp_secret_env_vars = []\<rparr>,
     \<lparr>mp_name = ''notion'', mp_command = ''npx'', mp_args = [''-y'', ''@notionhq/notion-mcp-server''],
      mp_secret_env_vars = [''NOTION_TOKEN'']\<rparr>,
     \<lparr>mp_name = ''linear'', mp_command = ''npx'', mp_args = [''-y'', ''mcp-server-linear''],
      mp_secret_env_vars = [''LINEAR_ACCESS_TOKEN'']\<rparr>,
     \<lparr>mp_name = ''sentry'', mp_command = ''npx'', mp_args = [''-y'', ''@sentry/mcp-server''],
      mp_secret_env_vars = [''SENTRY_ACCESS_TOKEN'']\<rparr>,
     \<lparr>mp_name = ''gitlab'', mp_command = ''npx'', mp_args = [''-y'', ''@modelcontextprotocol/server-gitlab''],
      mp_secret_env_vars = [''GITLAB_PERSONAL_ACCESS_TOKEN'']\<rparr>,
     \<lparr>mp_name = ''figma'', mp_command = ''npx'', mp_args = [''-y'', ''figma-developer-mcp''],
      mp_secret_env_vars = [''FIGMA_API_KEY'']\<rparr>,
     \<lparr>mp_name = ''docker'', mp_command = ''npx'', mp_args = [''-y'', ''docker-mcp''],
      mp_secret_env_vars = []\<rparr>,
     \<lparr>mp_name = ''kubernetes'', mp_command = ''npx'', mp_args = [''-y'', ''mcp-server-kubernetes''],
      mp_secret_env_vars = []\<rparr>,
     \<lparr>mp_name = ''azure'', mp_command = ''npx'', mp_args = [''-y'', ''@azure/mcp''],
      mp_secret_env_vars = []\<rparr>,
     \<lparr>mp_name = ''vercel'', mp_command = ''npx'', mp_args = [''-y'', ''vercel-mcp-server''],
      mp_secret_env_vars = [''VERCEL_TOKEN'']\<rparr>,
     \<lparr>mp_name = ''netlify'', mp_command = ''npx'', mp_args = [''-y'', ''@netlify/mcp''],
      mp_secret_env_vars = [''NETLIFY_AUTH_TOKEN'']\<rparr>,
     \<lparr>mp_name = ''mongodb'', mp_command = ''npx'', mp_args = [''-y'', ''mongodb-mcp-server''],
      mp_secret_env_vars = [''MDB_MCP_CONNECTION_STRING'']\<rparr>,
     \<lparr>mp_name = ''elasticsearch'', mp_command = ''npx'', mp_args = [''-y'', ''@elastic/mcp-server-elasticsearch''],
      mp_secret_env_vars = [''ES_URL'', ''ES_API_KEY'']\<rparr>,
     \<lparr>mp_name = ''mysql'', mp_command = ''npx'', mp_args = [''-y'', ''@benborla29/mcp-server-mysql''],
      mp_secret_env_vars = [''MYSQL_HOST'', ''MYSQL_USER'', ''MYSQL_PASS'', ''MYSQL_DB'']\<rparr>,
     \<lparr>mp_name = ''redis'', mp_command = ''npx'', mp_args = [''-y'', ''@modelcontextprotocol/server-redis'', ''redis://localhost:6379''],
      mp_secret_env_vars = []\<rparr>,
     \<lparr>mp_name = ''qdrant-server'', mp_command = ''uvx'', mp_args = [''mcp-server-qdrant''],
      mp_secret_env_vars = [''QDRANT_URL'', ''QDRANT_API_KEY'']\<rparr>,
     \<lparr>mp_name = ''chroma'', mp_command = ''uvx'', mp_args = [''chroma-mcp''],
      mp_secret_env_vars = []\<rparr>,
     \<lparr>mp_name = ''neo4j'', mp_command = ''uvx'', mp_args = [''mcp-neo4j-cypher''],
      mp_secret_env_vars = [''NEO4J_URI'', ''NEO4J_USERNAME'', ''NEO4J_PASSWORD'']\<rparr>,
     \<lparr>mp_name = ''snowflake'', mp_command = ''uvx'', mp_args = [''mcp-snowflake-server''],
      mp_secret_env_vars = [''SNOWFLAKE_ACCOUNT'', ''SNOWFLAKE_USER'', ''SNOWFLAKE_PASSWORD'']\<rparr>,
     \<lparr>mp_name = ''sqlite'', mp_command = ''uvx'', mp_args = [''mcp-server-sqlite'', ''--db-path'', ''/path/to/database.db''],
      mp_secret_env_vars = []\<rparr>,
     \<lparr>mp_name = ''meilisearch'', mp_command = ''npx'', mp_args = [''-y'', ''meilisearch-mcp''],
      mp_secret_env_vars = [''MEILI_HTTP_ADDR'', ''MEILI_MASTER_KEY'']\<rparr>,
     \<lparr>mp_name = ''supabase'', mp_command = ''npx'', mp_args = [''-y'', ''@supabase/mcp-server-supabase''],
      mp_secret_env_vars = [''SUPABASE_ACCESS_TOKEN'']\<rparr>,
     \<lparr>mp_name = ''aws-kb-retrieval'', mp_command = ''npx'', mp_args = [''-y'', ''@modelcontextprotocol/server-aws-kb-retrieval''],
      mp_secret_env_vars = [''AWS_ACCESS_KEY_ID'', ''AWS_SECRET_ACCESS_KEY'']\<rparr>,
     \<lparr>mp_name = ''tavily'', mp_command = ''npx'', mp_args = [''-y'', ''tavily-mcp''],
      mp_secret_env_vars = [''TAVILY_API_KEY'']\<rparr>,
     \<lparr>mp_name = ''exa'', mp_command = ''npx'', mp_args = [''-y'', ''exa-mcp-server''],
      mp_secret_env_vars = [''EXA_API_KEY'']\<rparr>,
     \<lparr>mp_name = ''firecrawl'', mp_command = ''npx'', mp_args = [''-y'', ''firecrawl-mcp''],
      mp_secret_env_vars = [''FIRECRAWL_API_KEY'']\<rparr>,
     \<lparr>mp_name = ''context7'', mp_command = ''npx'', mp_args = [''-y'', ''@upstash/context7-mcp''],
      mp_secret_env_vars = []\<rparr>,
     \<lparr>mp_name = ''duckduckgo'', mp_command = ''uvx'', mp_args = [''duckduckgo-mcp-server''],
      mp_secret_env_vars = []\<rparr>,
     \<lparr>mp_name = ''wikipedia'', mp_command = ''uvx'', mp_args = [''wikipedia-mcp''],
      mp_secret_env_vars = []\<rparr>,
     \<lparr>mp_name = ''arxiv'', mp_command = ''uvx'', mp_args = [''arxiv-mcp-server''],
      mp_secret_env_vars = []\<rparr>,
     \<lparr>mp_name = ''browserbase'', mp_command = ''npx'', mp_args = [''-y'', ''@browserbasehq/mcp-server-browserbase''],
      mp_secret_env_vars = [''BROWSERBASE_API_KEY'', ''BROWSERBASE_PROJECT_ID'']\<rparr>,
     \<lparr>mp_name = ''weather'', mp_command = ''npx'', mp_args = [''-y'', ''mcp-server-weather''],
      mp_secret_env_vars = []\<rparr>,
     \<lparr>mp_name = ''airtable'', mp_command = ''npx'', mp_args = [''-y'', ''airtable-mcp-server''],
      mp_secret_env_vars = [''AIRTABLE_API_KEY'']\<rparr>,
     \<lparr>mp_name = ''obsidian'', mp_command = ''npx'', mp_args = [''-y'', ''mcp-obsidian''],
      mp_secret_env_vars = [''OBSIDIAN_API_KEY'']\<rparr>,
     \<lparr>mp_name = ''atlassian'', mp_command = ''uvx'', mp_args = [''mcp-atlassian''],
      mp_secret_env_vars = [''JIRA_URL'', ''JIRA_USERNAME'', ''JIRA_API_TOKEN'', ''CONFLUENCE_URL'', ''CONFLUENCE_USERNAME'', ''CONFLUENCE_API_TOKEN'']\<rparr>,
     \<lparr>mp_name = ''google-maps'', mp_command = ''npx'', mp_args = [''-y'', ''@modelcontextprotocol/server-google-maps''],
      mp_secret_env_vars = [''GOOGLE_MAPS_API_KEY'']\<rparr>,
     \<lparr>mp_name = ''gdrive'', mp_command = ''npx'', mp_args = [''-y'', ''@modelcontextprotocol/server-gdrive''],
      mp_secret_env_vars = []\<rparr>,
     \<lparr>mp_name = ''google-calendar'', mp_command = ''npx'', mp_args = [''-y'', ''google-calendar-mcp''],
      mp_secret_env_vars = [''GOOGLE_CLIENT_ID'', ''GOOGLE_CLIENT_SECRET'']\<rparr>,
     \<lparr>mp_name = ''everart'', mp_command = ''npx'', mp_args = [''-y'', ''@modelcontextprotocol/server-everart''],
      mp_secret_env_vars = [''EVERART_API_KEY'']\<rparr>,
     \<lparr>mp_name = ''discord'', mp_command = ''npx'', mp_args = [''-y'', ''mcp-discord''],
      mp_secret_env_vars = [''DISCORD_TOKEN'']\<rparr>,
     \<lparr>mp_name = ''reddit'', mp_command = ''npx'', mp_args = [''-y'', ''reddit-mcp''],
      mp_secret_env_vars = [''REDDIT_CLIENT_ID'', ''REDDIT_CLIENT_SECRET'']\<rparr>,
     \<lparr>mp_name = ''youtube'', mp_command = ''npx'', mp_args = [''-y'', ''youtube-data-mcp-server''],
      mp_secret_env_vars = [''YOUTUBE_API_KEY'']\<rparr>,
     \<lparr>mp_name = ''spotify'', mp_command = ''npx'', mp_args = [''-y'', ''spotify-mcp''],
      mp_secret_env_vars = [''SPOTIFY_CLIENT_ID'', ''SPOTIFY_CLIENT_SECRET'']\<rparr>,
     \<lparr>mp_name = ''elevenlabs'', mp_command = ''uvx'', mp_args = [''elevenlabs-mcp''],
      mp_secret_env_vars = [''ELEVENLABS_API_KEY'']\<rparr>,
     \<lparr>mp_name = ''twilio'', mp_command = ''npx'', mp_args = [''-y'', ''@twilio-alpha/mcp'', ''YOUR_ACCOUNT_SID/YOUR_API_KEY:YOUR_API_SECRET''],
      mp_secret_env_vars = []\<rparr>,
     \<lparr>mp_name = ''stripe'', mp_command = ''npx'', mp_args = [''-y'', ''@stripe/mcp''],
      mp_secret_env_vars = [''STRIPE_SECRET_KEY'']\<rparr>,
     \<lparr>mp_name = ''shopify'', mp_command = ''npx'', mp_args = [''-y'', ''@shopify/dev-mcp''],
      mp_secret_env_vars = []\<rparr>,
     \<lparr>mp_name = ''hubspot'', mp_command = ''npx'', mp_args = [''-y'', ''@hubspot/mcp-server''],
      mp_secret_env_vars = [''PRIVATE_APP_ACCESS_TOKEN'']\<rparr>,
     \<lparr>mp_name = ''n8n'', mp_command = ''npx'', mp_args = [''-y'', ''n8n-mcp''],
      mp_secret_env_vars = [''N8N_API_URL'', ''N8N_API_KEY'']\<rparr>,
     \<lparr>mp_name = ''huggingface'', mp_command = ''npx'', mp_args = [''-y'', ''huggingface-mcp-server''],
      mp_secret_env_vars = [''HF_TOKEN'']\<rparr>,
     \<lparr>mp_name = ''replicate'', mp_command = ''npx'', mp_args = [''-y'', ''replicate-mcp-server''],
      mp_secret_env_vars = [''REPLICATE_API_TOKEN'']\<rparr>,
     \<lparr>mp_name = ''time'', mp_command = ''uvx'', mp_args = [''mcp-server-time''],
      mp_secret_env_vars = []\<rparr>,
     \<lparr>mp_name = ''pandoc'', mp_command = ''uvx'', mp_args = [''mcp-pandoc''],
      mp_secret_env_vars = []\<rparr>]"

section \<open>Language servers\<close>

record lsp_preset =
  lp_name :: string
  lp_command :: string
  lp_args :: "string list"
  lp_extensions :: "string list"

definition lsp_default_servers :: "lsp_spec list" where
  "lsp_default_servers =
    [\<lparr>ls_name = ''rust-analyzer'', ls_command = ''rust-analyzer'', ls_args = [],
      ls_extensions = [''.rs''], ls_enabled = True\<rparr>,
     \<lparr>ls_name = ''pyright'', ls_command = ''pyright-langserver'', ls_args = [''--stdio''],
      ls_extensions = [''.py''], ls_enabled = True\<rparr>,
     \<lparr>ls_name = ''typescript'', ls_command = ''typescript-language-server'', ls_args = [''--stdio''],
      ls_extensions = [''.ts'', ''.tsx'', ''.js'', ''.jsx''], ls_enabled = True\<rparr>,
     \<lparr>ls_name = ''gopls'', ls_command = ''gopls'', ls_args = [],
      ls_extensions = [''.go''], ls_enabled = True\<rparr>,
     \<lparr>ls_name = ''dockerfile'', ls_command = ''docker-langserver'', ls_args = [''--stdio''],
      ls_extensions = [''Dockerfile''], ls_enabled = True\<rparr>]"

definition lsp_presets :: "lsp_preset list" where
  "lsp_presets =
    [\<lparr>lp_name = ''rust-analyzer'', lp_command = ''rust-analyzer'', lp_args = [],
      lp_extensions = [''.rs'']\<rparr>,
     \<lparr>lp_name = ''pyright'', lp_command = ''pyright-langserver'', lp_args = [''--stdio''],
      lp_extensions = [''.py'']\<rparr>,
     \<lparr>lp_name = ''typescript'', lp_command = ''typescript-language-server'', lp_args = [''--stdio''],
      lp_extensions = [''.ts'', ''.tsx'', ''.js'', ''.jsx'']\<rparr>,
     \<lparr>lp_name = ''gopls'', lp_command = ''gopls'', lp_args = [],
      lp_extensions = [''.go'']\<rparr>,
     \<lparr>lp_name = ''dockerfile'', lp_command = ''docker-langserver'', lp_args = [''--stdio''],
      lp_extensions = [''Dockerfile'']\<rparr>,
     \<lparr>lp_name = ''clangd'', lp_command = ''clangd'', lp_args = [],
      lp_extensions = [''.c'', ''.h'', ''.cpp'', ''.hpp'', ''.cc'']\<rparr>,
     \<lparr>lp_name = ''bash'', lp_command = ''bash-language-server'', lp_args = [''start''],
      lp_extensions = [''.sh'', ''.bash'']\<rparr>,
     \<lparr>lp_name = ''yaml'', lp_command = ''yaml-language-server'', lp_args = [''--stdio''],
      lp_extensions = [''.yaml'', ''.yml'']\<rparr>,
     \<lparr>lp_name = ''terraform'', lp_command = ''terraform-ls'', lp_args = [''serve''],
      lp_extensions = [''.tf'', ''.tfvars'', ''.hcl'']\<rparr>,
     \<lparr>lp_name = ''json'', lp_command = ''vscode-json-language-server'', lp_args = [''--stdio''],
      lp_extensions = [''.json'']\<rparr>,
     \<lparr>lp_name = ''php'', lp_command = ''intelephense'', lp_args = [''--stdio''],
      lp_extensions = [''.php'']\<rparr>,
     \<lparr>lp_name = ''html'', lp_command = ''vscode-html-language-server'', lp_args = [''--stdio''],
      lp_extensions = [''.html'', ''.htm'']\<rparr>,
     \<lparr>lp_name = ''css'', lp_command = ''vscode-css-language-server'', lp_args = [''--stdio''],
      lp_extensions = [''.css'', ''.scss'', ''.less'']\<rparr>,
     \<lparr>lp_name = ''tailwindcss'', lp_command = ''tailwindcss-language-server'', lp_args = [''--stdio''],
      lp_extensions = [''.html'', ''.jsx'', ''.tsx'', ''.vue'']\<rparr>,
     \<lparr>lp_name = ''asm'', lp_command = ''asm-lsp'', lp_args = [],
      lp_extensions = [''.asm'', ''.s'', ''.S'']\<rparr>,
     \<lparr>lp_name = ''solidity'', lp_command = ''nomicfoundation-solidity-language-server'', lp_args = [''--stdio''],
      lp_extensions = [''.sol'']\<rparr>,
     \<lparr>lp_name = ''elixir'', lp_command = ''elixir-ls'', lp_args = [],
      lp_extensions = [''.ex'', ''.exs'']\<rparr>,
     \<lparr>lp_name = ''elm'', lp_command = ''elm-language-server'', lp_args = [],
      lp_extensions = [''.elm'']\<rparr>,
     \<lparr>lp_name = ''haskell'', lp_command = ''haskell-language-server-wrapper'', lp_args = [''--lsp''],
      lp_extensions = [''.hs'', ''.lhs'']\<rparr>,
     \<lparr>lp_name = ''ocaml'', lp_command = ''ocamllsp'', lp_args = [],
      lp_extensions = [''.ml'', ''.mli'']\<rparr>,
     \<lparr>lp_name = ''clojure'', lp_command = ''clojure-lsp'', lp_args = [],
      lp_extensions = [''.clj'', ''.cljs'', ''.cljc'']\<rparr>,
     \<lparr>lp_name = ''fsharp'', lp_command = ''fsautocomplete'', lp_args = [''--adaptive-lsp-server-enabled''],
      lp_extensions = [''.fs'', ''.fsi'', ''.fsx'']\<rparr>,
     \<lparr>lp_name = ''kotlin'', lp_command = ''kotlin-language-server'', lp_args = [],
      lp_extensions = [''.kt'', ''.kts'']\<rparr>,
     \<lparr>lp_name = ''scala'', lp_command = ''metals'', lp_args = [],
      lp_extensions = [''.scala'', ''.sbt'']\<rparr>,
     \<lparr>lp_name = ''sourcekit'', lp_command = ''sourcekit-lsp'', lp_args = [],
      lp_extensions = [''.swift'']\<rparr>,
     \<lparr>lp_name = ''lua'', lp_command = ''lua-language-server'', lp_args = [],
      lp_extensions = [''.lua'']\<rparr>,
     \<lparr>lp_name = ''ruby-solargraph'', lp_command = ''solargraph'', lp_args = [''stdio''],
      lp_extensions = [''.rb'']\<rparr>,
     \<lparr>lp_name = ''ruby-standardrb'', lp_command = ''standardrb'', lp_args = [''--lsp''],
      lp_extensions = [''.rb'']\<rparr>,
     \<lparr>lp_name = ''perl'', lp_command = ''perlnavigator'', lp_args = [],
      lp_extensions = [''.pl'', ''.pm'']\<rparr>,
     \<lparr>lp_name = ''r'', lp_command = ''R'', lp_args = [''--no-echo'', ''-e'', ''languageserver::run()''],
      lp_extensions = [''.r'', ''.R'']\<rparr>,
     \<lparr>lp_name = ''nim'', lp_command = ''nimlsp'', lp_args = [],
      lp_extensions = [''.nim'']\<rparr>,
     \<lparr>lp_name = ''zig'', lp_command = ''zls'', lp_args = [],
      lp_extensions = [''.zig'']\<rparr>,
     \<lparr>lp_name = ''vlang'', lp_command = ''v-analyzer'', lp_args = [],
      lp_extensions = [''.v'']\<rparr>,
     \<lparr>lp_name = ''crystal'', lp_command = ''crystalline'', lp_args = [],
      lp_extensions = [''.cr'']\<rparr>,
     \<lparr>lp_name = ''dart'', lp_command = ''dart'', lp_args = [''language-server'', ''--protocol=lsp''],
      lp_extensions = [''.dart'']\<rparr>,
     \<lparr>lp_name = ''groovy'', lp_command = ''groovy-language-server'', lp_args = [],
      lp_extensions = [''.groovy'', ''.gradle'']\<rparr>,
     \<lparr>lp_name = ''graphql'', lp_command = ''graphql-lsp'', lp_args = [''server'', ''-m'', ''stream''],
      lp_extensions = [''.graphql'', ''.gql'']\<rparr>,
     \<lparr>lp_name = ''prisma'', lp_command = ''prisma-language-server'', lp_args = [''--stdio''],
      lp_extensions = [''.prisma'']\<rparr>,
     \<lparr>lp_name = ''toml'', lp_command = ''taplo'', lp_args = [''lsp'', ''stdio''],
      lp_extensions = [''.toml'']\<rparr>,
     \<lparr>lp_name = ''nix'', lp_command = ''nixd'', lp_args = [],
      lp_extensions = [''.nix'']\<rparr>,
     \<lparr>lp_name = ''cmake'', lp_command = ''neocmakelsp'', lp_args = [''stdio''],
      lp_extensions = [''CMakeLists.txt'', ''.cmake'']\<rparr>,
     \<lparr>lp_name = ''just'', lp_command = ''just-lsp'', lp_args = [],
      lp_extensions = [''Justfile'', ''.just'']\<rparr>,
     \<lparr>lp_name = ''meson'', lp_command = ''mesonlsp'', lp_args = [''--lsp''],
      lp_extensions = [''meson.build'']\<rparr>,
     \<lparr>lp_name = ''ansible'', lp_command = ''ansible-language-server'', lp_args = [''--stdio''],
      lp_extensions = [''.yml'', ''.yaml'']\<rparr>,
     \<lparr>lp_name = ''puppet'', lp_command = ''puppet-languageserver'', lp_args = [''--stdio''],
      lp_extensions = [''.pp'']\<rparr>,
     \<lparr>lp_name = ''postgres'', lp_command = ''postgres-language-server'', lp_args = [''lsp-proxy''],
      lp_extensions = [''.sql'']\<rparr>,
     \<lparr>lp_name = ''sql'', lp_command = ''sql-language-server'', lp_args = [''up'', ''--method'', ''stdio''],
      lp_extensions = [''.sql'']\<rparr>,
     \<lparr>lp_name = ''protobuf'', lp_command = ''protols'', lp_args = [],
      lp_extensions = [''.proto'']\<rparr>,
     \<lparr>lp_name = ''buf'', lp_command = ''buf'', lp_args = [''lsp'', ''serve'', ''--log-format=text''],
      lp_extensions = [''.proto'']\<rparr>,
     \<lparr>lp_name = ''thrift'', lp_command = ''thriftls'', lp_args = [],
      lp_extensions = [''.thrift'']\<rparr>,
     \<lparr>lp_name = ''verilog'', lp_command = ''svlangserver'', lp_args = [],
      lp_extensions = [''.v'', ''.sv'', ''.svh'']\<rparr>,
     \<lparr>lp_name = ''vhdl'', lp_command = ''vhdl_ls'', lp_args = [],
      lp_extensions = [''.vhd'', ''.vhdl'']\<rparr>,
     \<lparr>lp_name = ''robotframework'', lp_command = ''robotframework_ls'', lp_args = [],
      lp_extensions = [''.robot'']\<rparr>,
     \<lparr>lp_name = ''latex'', lp_command = ''texlab'', lp_args = [],
      lp_extensions = [''.tex'']\<rparr>,
     \<lparr>lp_name = ''typst'', lp_command = ''tinymist'', lp_args = [],
      lp_extensions = [''.typ'']\<rparr>,
     \<lparr>lp_name = ''markdown'', lp_command = ''marksman'', lp_args = [''server''],
      lp_extensions = [''.md'']\<rparr>,
     \<lparr>lp_name = ''vue'', lp_command = ''vue-language-server'', lp_args = [''--stdio''],
      lp_extensions = [''.vue'']\<rparr>,
     \<lparr>lp_name = ''astro'', lp_command = ''astro-ls'', lp_args = [''--stdio''],
      lp_extensions = [''.astro'']\<rparr>,
     \<lparr>lp_name = ''unocss'', lp_command = ''unocss-language-server'', lp_args = [''--stdio''],
      lp_extensions = [''.html'', ''.jsx'', ''.tsx'', ''.vue'']\<rparr>,
     \<lparr>lp_name = ''stylelint'', lp_command = ''stylelint-language-server'', lp_args = [''--stdio''],
      lp_extensions = [''.css'', ''.scss'', ''.less'']\<rparr>,
     \<lparr>lp_name = ''jsonnet'', lp_command = ''jsonnet-language-server'', lp_args = [],
      lp_extensions = [''.jsonnet'', ''.libsonnet'']\<rparr>,
     \<lparr>lp_name = ''kdl'', lp_command = ''kdl-lsp'', lp_args = [],
      lp_extensions = [''.kdl'']\<rparr>,
     \<lparr>lp_name = ''helm'', lp_command = ''helm_ls'', lp_args = [''serve''],
      lp_extensions = [''.yaml'', ''.yml'']\<rparr>,
     \<lparr>lp_name = ''opentofu'', lp_command = ''tofu-ls'', lp_args = [''serve''],
      lp_extensions = [''.tf'', ''.tofu'']\<rparr>,
     \<lparr>lp_name = ''pkl'', lp_command = ''pkl-lsp'', lp_args = [],
      lp_extensions = [''.pkl'']\<rparr>,
     \<lparr>lp_name = ''cue'', lp_command = ''cue'', lp_args = [''lsp''],
      lp_extensions = [''.cue'']\<rparr>,
     \<lparr>lp_name = ''dhall'', lp_command = ''dhall-lsp-server'', lp_args = [],
      lp_extensions = [''.dhall'']\<rparr>,
     \<lparr>lp_name = ''purescript'', lp_command = ''purescript-language-server'', lp_args = [''--stdio''],
      lp_extensions = [''.purs'']\<rparr>,
     \<lparr>lp_name = ''reasonml'', lp_command = ''reason-language-server'', lp_args = [],
      lp_extensions = [''.re'', ''.rei'']\<rparr>,
     \<lparr>lp_name = ''gleam'', lp_command = ''gleam'', lp_args = [''lsp''],
      lp_extensions = [''.gleam'']\<rparr>,
     \<lparr>lp_name = ''roc'', lp_command = ''roc_language_server'', lp_args = [],
      lp_extensions = [''.roc'']\<rparr>,
     \<lparr>lp_name = ''unison'', lp_command = ''nc'', lp_args = [''localhost'', ''5757''],
      lp_extensions = [''.u'']\<rparr>,
     \<lparr>lp_name = ''idris2'', lp_command = ''idris2-lsp'', lp_args = [],
      lp_extensions = [''.idr'']\<rparr>,
     \<lparr>lp_name = ''agda'', lp_command = ''als'', lp_args = [],
      lp_extensions = [''.agda'']\<rparr>,
     \<lparr>lp_name = ''coq'', lp_command = ''coq-lsp'', lp_args = [],
      lp_extensions = [''.v'']\<rparr>,
     \<lparr>lp_name = ''lean3'', lp_command = ''lean-language-server'', lp_args = [''--stdio'', ''--'', ''-M'', ''4096'', ''-T'', ''100000''],
      lp_extensions = [''.lean'']\<rparr>,
     \<lparr>lp_name = ''scheme'', lp_command = ''scheme-langserver'', lp_args = [''~/.scheme-langserver.log'', ''enable'', ''disable''],
      lp_extensions = [''.scm'', ''.ss'']\<rparr>,
     \<lparr>lp_name = ''racket'', lp_command = ''racket'', lp_args = [''--lib'', ''racket-langserver''],
      lp_extensions = [''.rkt'']\<rparr>,
     \<lparr>lp_name = ''fennel'', lp_command = ''fennel-ls'', lp_args = [],
      lp_extensions = [''.fnl'']\<rparr>,
     \<lparr>lp_name = ''janet'', lp_command = ''janet-lsp'', lp_args = [''--stdio''],
      lp_extensions = [''.janet'']\<rparr>,
     \<lparr>lp_name = ''wgsl'', lp_command = ''wgsl-analyzer'', lp_args = [],
      lp_extensions = [''.wgsl'']\<rparr>,
     \<lparr>lp_name = ''glsl'', lp_command = ''glsl_analyzer'', lp_args = [],
      lp_extensions = [''.glsl'', ''.vert'', ''.frag'']\<rparr>,
     \<lparr>lp_name = ''move'', lp_command = ''move-analyzer'', lp_args = [],
      lp_extensions = [''.move'']\<rparr>,
     \<lparr>lp_name = ''cairo'', lp_command = ''scarb'', lp_args = [''cairo-language-server'', ''/C'', ''--node-ipc''],
      lp_extensions = [''.cairo'']\<rparr>,
     \<lparr>lp_name = ''vala'', lp_command = ''vala-language-server'', lp_args = [],
      lp_extensions = [''.vala'']\<rparr>,
     \<lparr>lp_name = ''nginx'', lp_command = ''nginx-language-server'', lp_args = [],
      lp_extensions = [''nginx.conf'']\<rparr>,
     \<lparr>lp_name = ''systemd'', lp_command = ''systemd-lsp'', lp_args = [],
      lp_extensions = [''.service'', ''.socket'', ''.timer'']\<rparr>,
     \<lparr>lp_name = ''awk'', lp_command = ''awk-language-server'', lp_args = [],
      lp_extensions = [''.awk'']\<rparr>,
     \<lparr>lp_name = ''fish'', lp_command = ''fish-lsp'', lp_args = [''start''],
      lp_extensions = [''.fish'']\<rparr>,
     \<lparr>lp_name = ''openscad'', lp_command = ''openscad-lsp'', lp_args = [''--stdio''],
      lp_extensions = [''.scad'']\<rparr>,
     \<lparr>lp_name = ''matlab'', lp_command = ''matlab-language-server'', lp_args = [''--stdio''],
      lp_extensions = [''.m'']\<rparr>,
     \<lparr>lp_name = ''fortran'', lp_command = ''fortls'', lp_args = [''--notify_init'', ''--hover_signature'', ''--hover_language=fortran'', ''--use_signature_help''],
      lp_extensions = [''.f90'', ''.f95'', ''.f03'']\<rparr>,
     \<lparr>lp_name = ''cobol'', lp_command = ''cobol-language-support'', lp_args = [],
      lp_extensions = [''.cob'', ''.cbl'']\<rparr>,
     \<lparr>lp_name = ''ada'', lp_command = ''ada_language_server'', lp_args = [],
      lp_extensions = [''.adb'', ''.ads'']\<rparr>,
     \<lparr>lp_name = ''prolog'', lp_command = ''swipl'', lp_args = [''-g'', ''use_module(library(lsp_server)).'', ''-g'', ''lsp_server:main'', ''-t'', ''halt'', ''--'', ''stdio''],
      lp_extensions = [''.pl'', ''.pro'']\<rparr>,
     \<lparr>lp_name = ''rescript'', lp_command = ''rescript-language-server'', lp_args = [''--stdio''],
      lp_extensions = [''.res'', ''.resi'']\<rparr>,
     \<lparr>lp_name = ''templ'', lp_command = ''templ'', lp_args = [''lsp''],
      lp_extensions = [''.templ'']\<rparr>,
     \<lparr>lp_name = ''htmx'', lp_command = ''htmx-lsp'', lp_args = [],
      lp_extensions = [''.html'']\<rparr>,
     \<lparr>lp_name = ''emmet'', lp_command = ''emmet-language-server'', lp_args = [''--stdio''],
      lp_extensions = [''.html'', ''.css'', ''.jsx'', ''.tsx'']\<rparr>,
     \<lparr>lp_name = ''yang'', lp_command = ''yang-language-server'', lp_args = [],
      lp_extensions = [''.yang'']\<rparr>,
     \<lparr>lp_name = ''spectral'', lp_command = ''spectral-language-server'', lp_args = [''--stdio''],
      lp_extensions = [''.yaml'', ''.json'']\<rparr>,
     \<lparr>lp_name = ''rego'', lp_command = ''regal'', lp_args = [''language-server''],
      lp_extensions = [''.rego'']\<rparr>,
     \<lparr>lp_name = ''starlark'', lp_command = ''starpls'', lp_args = [],
      lp_extensions = [''.bzl'', ''.bazel'', ''BUILD'']\<rparr>,
     \<lparr>lp_name = ''robotcode'', lp_command = ''robotcode'', lp_args = [''language-server''],
      lp_extensions = [''.robot'', ''.resource'']\<rparr>,
     \<lparr>lp_name = ''beancount'', lp_command = ''beancount-language-server'', lp_args = [''--stdio''],
      lp_extensions = [''.beancount'']\<rparr>,
     \<lparr>lp_name = ''dockercompose'', lp_command = ''docker-compose-langserver'', lp_args = [''--stdio''],
      lp_extensions = [''docker-compose.yml'', ''docker-compose.yaml'']\<rparr>,
     \<lparr>lp_name = ''biome'', lp_command = ''biome'', lp_args = [''lsp-proxy''],
      lp_extensions = [''.js'', ''.ts'', ''.jsx'', ''.tsx'', ''.json'']\<rparr>,
     \<lparr>lp_name = ''denols'', lp_command = ''deno'', lp_args = [''lsp''],
      lp_extensions = [''.ts'', ''.tsx'', ''.js'']\<rparr>,
     \<lparr>lp_name = ''basedpyright'', lp_command = ''basedpyright-langserver'', lp_args = [''--stdio''],
      lp_extensions = [''.py'']\<rparr>,
     \<lparr>lp_name = ''ruff-lsp'', lp_command = ''ruff'', lp_args = [''server''],
      lp_extensions = [''.py'']\<rparr>,
     \<lparr>lp_name = ''gdshader'', lp_command = ''gdshader-lsp'', lp_args = [''--stdio''],
      lp_extensions = [''.gdshader'']\<rparr>,
     \<lparr>lp_name = ''svelte'', lp_command = ''svelteserver'', lp_args = [''--stdio''],
      lp_extensions = [''.svelte'']\<rparr>,
     \<lparr>lp_name = ''omnisharp'', lp_command = ''omnisharp'', lp_args = [''-z'', ''--hostPID'', ''12345'', ''DotNet:enablePackageRestore=false'', ''--encoding'', ''utf-8'', ''--languageserver''],
      lp_extensions = [''.cs'']\<rparr>,
     \<lparr>lp_name = ''csharp-lsp'', lp_command = ''csharp-ls'', lp_args = [],
      lp_extensions = [''.cs'']\<rparr>,
     \<lparr>lp_name = ''teal'', lp_command = ''teal-language-server'', lp_args = [],
      lp_extensions = [''.tl'']\<rparr>,
     \<lparr>lp_name = ''nickel'', lp_command = ''nls'', lp_args = [],
      lp_extensions = [''.ncl'']\<rparr>,
     \<lparr>lp_name = ''dotenv'', lp_command = ''dot-language-server'', lp_args = [''--stdio''],
      lp_extensions = [''.env'']\<rparr>]"

section \<open>Tools\<close>

datatype risk_level = Low | Medium | High

record tool_spec =
  tl_name :: string
  tl_description :: string
  tl_risk_level :: risk_level
  tl_enabled :: bool

definition default_tools :: "tool_spec list" where
  "default_tools =
    [\<lparr>tl_name = ''git'', tl_description = ''version control'', tl_risk_level = Medium, tl_enabled = True\<rparr>,
     \<lparr>tl_name = ''docker'', tl_description = ''container runtime'', tl_risk_level = High, tl_enabled = True\<rparr>,
     \<lparr>tl_name = ''node'', tl_description = ''JavaScript/TypeScript runtime'', tl_risk_level = Medium, tl_enabled = True\<rparr>,
     \<lparr>tl_name = ''python3'', tl_description = ''Python runtime'', tl_risk_level = Medium, tl_enabled = True\<rparr>,
     \<lparr>tl_name = ''cargo'', tl_description = ''Rust build tool and package manager'', tl_risk_level = Medium, tl_enabled = True\<rparr>,
     \<lparr>tl_name = ''curl'', tl_description = ''HTTP client'', tl_risk_level = Low, tl_enabled = True\<rparr>,
     \<lparr>tl_name = ''gh'', tl_description = ''GitHub CLI'', tl_risk_level = High, tl_enabled = True\<rparr>,
     \<lparr>tl_name = ''rg'', tl_description = ''ripgrep '' @ [CHR 0xE2, CHR 0x80, CHR 0x94] @ '' fast recursive text search'', tl_risk_level = Low, tl_enabled = True\<rparr>,
     \<lparr>tl_name = ''fd'', tl_description = ''fast, user-friendly file finder'', tl_risk_level = Low, tl_enabled = True\<rparr>,
     \<lparr>tl_name = ''jq'', tl_description = ''command-line JSON processor'', tl_risk_level = Low, tl_enabled = True\<rparr>,
     \<lparr>tl_name = ''make'', tl_description = ''build automation tool'', tl_risk_level = Medium, tl_enabled = True\<rparr>,
     \<lparr>tl_name = ''gcc'', tl_description = ''C/C++ compiler'', tl_risk_level = Medium, tl_enabled = True\<rparr>,
     \<lparr>tl_name = ''go'', tl_description = ''Go build tool and compiler'', tl_risk_level = Medium, tl_enabled = True\<rparr>,
     \<lparr>tl_name = ''rustc'', tl_description = ''Rust compiler'', tl_risk_level = Medium, tl_enabled = True\<rparr>,
     \<lparr>tl_name = ''npm'', tl_description = ''Node.js package manager'', tl_risk_level = Medium, tl_enabled = True\<rparr>,
     \<lparr>tl_name = ''pnpm'', tl_description = ''fast, disk-efficient Node.js package manager'', tl_risk_level = Medium, tl_enabled = True\<rparr>,
     \<lparr>tl_name = ''yarn'', tl_description = ''Node.js package manager'', tl_risk_level = Medium, tl_enabled = True\<rparr>,
     \<lparr>tl_name = ''ssh'', tl_description = ''secure remote shell / tunnel client'', tl_risk_level = High, tl_enabled = True\<rparr>,
     \<lparr>tl_name = ''kubectl'', tl_description = ''Kubernetes cluster CLI'', tl_risk_level = High, tl_enabled = True\<rparr>,
     \<lparr>tl_name = ''helm'', tl_description = ''Kubernetes package manager'', tl_risk_level = High, tl_enabled = True\<rparr>,
     \<lparr>tl_name = ''ansible'', tl_description = ''configuration management / remote automation'', tl_risk_level = High, tl_enabled = True\<rparr>,
     \<lparr>tl_name = ''aws'', tl_description = ''AWS cloud CLI'', tl_risk_level = High, tl_enabled = True\<rparr>,
     \<lparr>tl_name = ''gcloud'', tl_description = ''Google Cloud CLI'', tl_risk_level = High, tl_enabled = True\<rparr>,
     \<lparr>tl_name = ''az'', tl_description = ''Azure CLI'', tl_risk_level = High, tl_enabled = True\<rparr>,
     \<lparr>tl_name = ''tmux'', tl_description = ''terminal multiplexer'', tl_risk_level = Low, tl_enabled = True\<rparr>,
     \<lparr>tl_name = ''vim'', tl_description = ''text editor'', tl_risk_level = Low, tl_enabled = True\<rparr>,
     \<lparr>tl_name = ''nmap'', tl_description = ''network scanner and host/port discovery'', tl_risk_level = High, tl_enabled = True\<rparr>,
     \<lparr>tl_name = ''sqlmap'', tl_description = ''automated SQL injection and database takeover tool'', tl_risk_level = High, tl_enabled = True\<rparr>,
     \<lparr>tl_name = ''hydra'', tl_description = ''network login brute-forcer'', tl_risk_level = High, tl_enabled = True\<rparr>,
     \<lparr>tl_name = ''john'', tl_description = ''John the Ripper '' @ [CHR 0xE2, CHR 0x80, CHR 0x94] @ '' offline password cracker'', tl_risk_level = Medium, tl_enabled = True\<rparr>,
     \<lparr>tl_name = ''hashcat'', tl_description = ''GPU-accelerated password cracker'', tl_risk_level = Medium, tl_enabled = True\<rparr>,
     \<lparr>tl_name = ''gobuster'', tl_description = ''directory, DNS, and vhost brute-forcer'', tl_risk_level = High, tl_enabled = True\<rparr>,
     \<lparr>tl_name = ''ffuf'', tl_description = ''fast web fuzzer'', tl_risk_level = High, tl_enabled = True\<rparr>,
     \<lparr>tl_name = ''tshark'', tl_description = ''Wireshark'' @ [CHR 0x27] @ ''s CLI packet capture and analysis tool'', tl_risk_level = Medium, tl_enabled = True\<rparr>,
     \<lparr>tl_name = ''nuclei'', tl_description = ''template-driven vulnerability scanner'', tl_risk_level = High, tl_enabled = True\<rparr>,
     \<lparr>tl_name = ''subfinder'', tl_description = ''passive subdomain enumeration'', tl_risk_level = Low, tl_enabled = True\<rparr>,
     \<lparr>tl_name = ''amass'', tl_description = ''attack surface mapping and subdomain enumeration'', tl_risk_level = Medium, tl_enabled = True\<rparr>,
     \<lparr>tl_name = ''trivy'', tl_description = ''container image, filesystem, and IaC vulnerability scanner'', tl_risk_level = Low, tl_enabled = True\<rparr>,
     \<lparr>tl_name = ''grype'', tl_description = ''container image and filesystem vulnerability scanner'', tl_risk_level = Low, tl_enabled = True\<rparr>,
     \<lparr>tl_name = ''cosign'', tl_description = ''container image signing and verification'', tl_risk_level = Medium, tl_enabled = True\<rparr>,
     \<lparr>tl_name = ''syft'', tl_description = ''software bill of materials (SBOM) generator'', tl_risk_level = Low, tl_enabled = True\<rparr>,
     \<lparr>tl_name = ''podman'', tl_description = ''rootless container runtime, Docker-compatible CLI'', tl_risk_level = High, tl_enabled = True\<rparr>,
     \<lparr>tl_name = ''kind'', tl_description = ''runs local Kubernetes clusters using Docker containers'', tl_risk_level = Medium, tl_enabled = True\<rparr>,
     \<lparr>tl_name = ''minikube'', tl_description = ''runs a local single-node Kubernetes cluster'', tl_risk_level = Medium, tl_enabled = True\<rparr>,
     \<lparr>tl_name = ''k9s'', tl_description = ''terminal UI for managing Kubernetes clusters'', tl_risk_level = High, tl_enabled = True\<rparr>,
     \<lparr>tl_name = ''terragrunt'', tl_description = ''thin wrapper for keeping Terraform configurations DRY'', tl_risk_level = High, tl_enabled = True\<rparr>,
     \<lparr>tl_name = ''packer'', tl_description = ''automated machine image builder'', tl_risk_level = High, tl_enabled = True\<rparr>,
     \<lparr>tl_name = ''vagrant'', tl_description = ''builds and manages local virtual machine environments'', tl_risk_level = Medium, tl_enabled = True\<rparr>,
     \<lparr>tl_name = ''doctl'', tl_description = ''DigitalOcean cloud CLI'', tl_risk_level = High, tl_enabled = True\<rparr>,
     \<lparr>tl_name = ''flyctl'', tl_description = ''Fly.io deployment CLI'', tl_risk_level = High, tl_enabled = True\<rparr>,
     \<lparr>tl_name = ''wrangler'', tl_description = ''Cloudflare Workers/Pages CLI'', tl_risk_level = High, tl_enabled = True\<rparr>,
     \<lparr>tl_name = ''heroku'', tl_description = ''Heroku platform CLI'', tl_risk_level = High, tl_enabled = True\<rparr>,
     \<lparr>tl_name = ''git-lfs'', tl_description = ''Git extension for versioning large files'', tl_risk_level = Low, tl_enabled = True\<rparr>,
     \<lparr>tl_name = ''svn'', tl_description = ''Subversion version control client'', tl_risk_level = Medium, tl_enabled = True\<rparr>,
     \<lparr>tl_name = ''hg'', tl_description = ''Mercurial version control client'', tl_risk_level = Medium, tl_enabled = True\<rparr>,
     \<lparr>tl_name = ''mvn'', tl_description = ''Apache Maven build tool for Java/JVM projects'', tl_risk_level = Medium, tl_enabled = True\<rparr>,
     \<lparr>tl_name = ''gradle'', tl_description = ''Gradle build tool for JVM and native projects'', tl_risk_level = Medium, tl_enabled = True\<rparr>,
     \<lparr>tl_name = ''dotnet'', tl_description = ''.NET SDK and CLI'', tl_risk_level = Medium, tl_enabled = True\<rparr>,
     \<lparr>tl_name = ''poetry'', tl_description = ''Python dependency management and packaging'', tl_risk_level = Medium, tl_enabled = True\<rparr>,
     \<lparr>tl_name = ''uv'', tl_description = ''fast Python package and project manager'', tl_risk_level = Medium, tl_enabled = True\<rparr>,
     \<lparr>tl_name = ''deno'', tl_description = ''secure-by-default JavaScript/TypeScript runtime'', tl_risk_level = Medium, tl_enabled = True\<rparr>,
     \<lparr>tl_name = ''bun'', tl_description = ''fast JavaScript runtime, bundler, and package manager'', tl_risk_level = Medium, tl_enabled = True\<rparr>,
     \<lparr>tl_name = ''zig'', tl_description = ''Zig compiler and build system'', tl_risk_level = Medium, tl_enabled = True\<rparr>,
     \<lparr>tl_name = ''psql'', tl_description = ''PostgreSQL interactive terminal client'', tl_risk_level = High, tl_enabled = True\<rparr>,
     \<lparr>tl_name = ''mysql'', tl_description = ''MySQL/MariaDB command-line client'', tl_risk_level = High, tl_enabled = True\<rparr>,
     \<lparr>tl_name = ''redis-cli'', tl_description = ''Redis command-line client'', tl_risk_level = High, tl_enabled = True\<rparr>,
     \<lparr>tl_name = ''sqlite3'', tl_description = ''SQLite command-line client'', tl_risk_level = Low, tl_enabled = True\<rparr>,
     \<lparr>tl_name = ''mongosh'', tl_description = ''MongoDB shell client'', tl_risk_level = High, tl_enabled = True\<rparr>,
     \<lparr>tl_name = ''htop'', tl_description = ''interactive process viewer'', tl_risk_level = Low, tl_enabled = True\<rparr>,
     \<lparr>tl_name = ''mtr'', tl_description = ''combined traceroute and ping network diagnostic'', tl_risk_level = Low, tl_enabled = True\<rparr>,
     \<lparr>tl_name = ''sops'', tl_description = ''encrypts/decrypts secrets in files (Mozilla SOPS)'', tl_risk_level = Medium, tl_enabled = True\<rparr>,
     \<lparr>tl_name = ''age'', tl_description = ''modern, simple file encryption tool'', tl_risk_level = Low, tl_enabled = True\<rparr>,
     \<lparr>tl_name = ''watchexec'', tl_description = ''runs a command whenever watched files change'', tl_risk_level = Medium, tl_enabled = True\<rparr>,
     \<lparr>tl_name = ''entr'', tl_description = ''runs a command whenever watched files change'', tl_risk_level = Medium, tl_enabled = True\<rparr>]"

section \<open>Plugins\<close>

record plugin_preset =
  pg_name :: string
  pg_target :: string
  pg_opencode_module :: "string option"

definition plugin_presets :: "plugin_preset list" where
  "plugin_presets =
    [\<lparr>pg_name = ''stripe'', pg_target = ''stripe@claude-plugins-official'', pg_opencode_module = None\<rparr>,
     \<lparr>pg_name = ''github'', pg_target = ''github@claude-plugins-official'', pg_opencode_module = None\<rparr>,
     \<lparr>pg_name = ''sentry'', pg_target = ''sentry@claude-plugins-official'', pg_opencode_module = None\<rparr>,
     \<lparr>pg_name = ''sentry-cli'', pg_target = ''sentry-cli@claude-plugins-official'', pg_opencode_module = None\<rparr>,
     \<lparr>pg_name = ''datadog'', pg_target = ''datadog@claude-plugins-official'', pg_opencode_module = None\<rparr>,
     \<lparr>pg_name = ''grafana-assistant'', pg_target = ''grafana-assistant@claude-plugins-official'', pg_opencode_module = None\<rparr>,
     \<lparr>pg_name = ''playwright'', pg_target = ''playwright@claude-plugins-official'', pg_opencode_module = None\<rparr>,
     \<lparr>pg_name = ''figma'', pg_target = ''figma@claude-plugins-official'', pg_opencode_module = None\<rparr>,
     \<lparr>pg_name = ''notion'', pg_target = ''notion@claude-plugins-official'', pg_opencode_module = None\<rparr>,
     \<lparr>pg_name = ''slack'', pg_target = ''slack@claude-plugins-official'', pg_opencode_module = None\<rparr>,
     \<lparr>pg_name = ''atlassian'', pg_target = ''atlassian@claude-plugins-official'', pg_opencode_module = None\<rparr>,
     \<lparr>pg_name = ''asana'', pg_target = ''asana@claude-plugins-official'', pg_opencode_module = None\<rparr>,
     \<lparr>pg_name = ''cloudflare'', pg_target = ''cloudflare@claude-plugins-official'', pg_opencode_module = None\<rparr>,
     \<lparr>pg_name = ''aws-core'', pg_target = ''aws-core@claude-plugins-official'', pg_opencode_module = None\<rparr>,
     \<lparr>pg_name = ''aws-serverless'', pg_target = ''aws-serverless@claude-plugins-official'', pg_opencode_module = None\<rparr>,
     \<lparr>pg_name = ''aws-dev-toolkit'', pg_target = ''aws-dev-toolkit@claude-plugins-official'', pg_opencode_module = None\<rparr>,
     \<lparr>pg_name = ''azure'', pg_target = ''azure@claude-plugins-official'', pg_opencode_module = None\<rparr>,
     \<lparr>pg_name = ''google-cloud-storage'', pg_target = ''google-cloud-storage@claude-plugins-official'', pg_opencode_module = None\<rparr>,
     \<lparr>pg_name = ''mongodb'', pg_target = ''mongodb@claude-plugins-official'', pg_opencode_module = None\<rparr>,
     \<lparr>pg_name = ''mongodb-atlas'', pg_target = ''mongodb-atlas@claude-plugins-official'', pg_opencode_module = None\<rparr>,
     \<lparr>pg_name = ''auth0'', pg_target = ''auth0@claude-plugins-official'', pg_opencode_module = None\<rparr>,
     \<lparr>pg_name = ''twilio-developer-kit'', pg_target = ''twilio-developer-kit@claude-plugins-official'', pg_opencode_module = None\<rparr>,
     \<lparr>pg_name = ''vercel'', pg_target = ''vercel@claude-plugins-official'', pg_opencode_module = None\<rparr>,
     \<lparr>pg_name = ''netlify-skills'', pg_target = ''netlify-skills@claude-plugins-official'', pg_opencode_module = None\<rparr>,
     \<lparr>pg_name = ''linear'', pg_target = ''linear@claude-plugins-official'', pg_opencode_module = None\<rparr>,
     \<lparr>pg_name = ''shopify-ai-toolkit'', pg_target = ''shopify-ai-toolkit@claude-plugins-official'', pg_opencode_module = None\<rparr>,
     \<lparr>pg_name = ''salesforce-development'', pg_target = ''salesforce-development@claude-plugins-official'', pg_opencode_module = None\<rparr>,
     \<lparr>pg_name = ''pagerduty'', pg_target = ''pagerduty@claude-plugins-official'', pg_opencode_module = None\<rparr>,
     \<lparr>pg_name = ''snowflake-cortex-code'', pg_target = ''snowflake-cortex-code@claude-plugins-official'', pg_opencode_module = None\<rparr>,
     \<lparr>pg_name = ''redis-development'', pg_target = ''redis-development@claude-plugins-official'', pg_opencode_module = None\<rparr>,
     \<lparr>pg_name = ''supabase'', pg_target = ''supabase@claude-plugins-official'', pg_opencode_module = None\<rparr>,
     \<lparr>pg_name = ''sonarqube'', pg_target = ''sonarqube@claude-plugins-official'', pg_opencode_module = None\<rparr>,
     \<lparr>pg_name = ''terraform'', pg_target = ''terraform@claude-plugins-official'', pg_opencode_module = None\<rparr>,
     \<lparr>pg_name = ''zapier'', pg_target = ''zapier@claude-plugins-official'', pg_opencode_module = None\<rparr>,
     \<lparr>pg_name = ''discord'', pg_target = ''discord@claude-plugins-official'', pg_opencode_module = None\<rparr>,
     \<lparr>pg_name = ''airtable'', pg_target = ''airtable@claude-plugins-official'', pg_opencode_module = None\<rparr>,
     \<lparr>pg_name = ''monday-crm'', pg_target = ''monday-crm@claude-plugins-official'', pg_opencode_module = None\<rparr>,
     \<lparr>pg_name = ''claude-security'', pg_target = ''claude-security@claude-plugins-official'', pg_opencode_module = None\<rparr>,
     \<lparr>pg_name = ''crowdstrike-falcon-foundry'', pg_target = ''crowdstrike-falcon-foundry@claude-plugins-official'', pg_opencode_module = None\<rparr>,
     \<lparr>pg_name = ''hostinger'', pg_target = ''hostinger@claude-plugins-official'', pg_opencode_module = None\<rparr>,
     \<lparr>pg_name = ''railway'', pg_target = ''railway@claude-plugins-official'', pg_opencode_module = None\<rparr>,
     \<lparr>pg_name = ''canva'', pg_target = ''canva@claude-plugins-official'', pg_opencode_module = None\<rparr>,
     \<lparr>pg_name = ''miro'', pg_target = ''miro@claude-plugins-official'', pg_opencode_module = None\<rparr>,
     \<lparr>pg_name = ''fullstory'', pg_target = ''fullstory@claude-plugins-official'', pg_opencode_module = None\<rparr>,
     \<lparr>pg_name = ''amplitude'', pg_target = ''amplitude@claude-plugins-official'', pg_opencode_module = None\<rparr>,
     \<lparr>pg_name = ''gitlab'', pg_target = ''gitlab@claude-plugins-official'', pg_opencode_module = None\<rparr>,
     \<lparr>pg_name = ''cloud-sql-postgresql'', pg_target = ''cloud-sql-postgresql@claude-plugins-official'', pg_opencode_module = None\<rparr>,
     \<lparr>pg_name = ''cloud-sql-mysql'', pg_target = ''cloud-sql-mysql@claude-plugins-official'', pg_opencode_module = None\<rparr>,
     \<lparr>pg_name = ''build-with-wordpress'', pg_target = ''build-with-wordpress@claude-plugins-official'', pg_opencode_module = None\<rparr>,
     \<lparr>pg_name = ''newrelic'', pg_target = ''newrelic@claude-plugins-official'', pg_opencode_module = None\<rparr>,
     \<lparr>pg_name = ''honeycomb'', pg_target = ''honeycomb@claude-plugins-official'', pg_opencode_module = None\<rparr>]"

section \<open>Providers\<close>

record provider_preset =
  vp_name :: string
  vp_env_var_name :: string
  vp_base_url :: string

definition provider_presets :: "provider_preset list" where
  "provider_presets =
    [\<lparr>vp_name = ''openai'', vp_env_var_name = ''OPENAI_API_KEY'', vp_base_url = ''https://api.openai.com/v1''\<rparr>,
     \<lparr>vp_name = ''anthropic'', vp_env_var_name = ''ANTHROPIC_API_KEY'', vp_base_url = ''https://api.anthropic.com''\<rparr>,
     \<lparr>vp_name = ''opencode-zen'', vp_env_var_name = ''OPENCODE_API_KEY'', vp_base_url = ''https://opencode.ai/zen/v1''\<rparr>,
     \<lparr>vp_name = ''nvidia'', vp_env_var_name = ''NVIDIA_API_KEY'', vp_base_url = ''https://integrate.api.nvidia.com/v1''\<rparr>,
     \<lparr>vp_name = ''groq'', vp_env_var_name = ''GROQ_API_KEY'', vp_base_url = ''https://api.groq.com/openai/v1''\<rparr>,
     \<lparr>vp_name = ''deepseek'', vp_env_var_name = ''DEEPSEEK_API_KEY'', vp_base_url = ''https://api.deepseek.com''\<rparr>,
     \<lparr>vp_name = ''mistral'', vp_env_var_name = ''MISTRAL_API_KEY'', vp_base_url = ''https://api.mistral.ai/v1''\<rparr>,
     \<lparr>vp_name = ''xai'', vp_env_var_name = ''XAI_API_KEY'', vp_base_url = ''https://api.x.ai/v1''\<rparr>,
     \<lparr>vp_name = ''google'', vp_env_var_name = ''GOOGLE_API_KEY'', vp_base_url = ''https://generativelanguage.googleapis.com/v1beta/openai/''\<rparr>,
     \<lparr>vp_name = ''openrouter'', vp_env_var_name = ''OPENROUTER_API_KEY'', vp_base_url = ''https://openrouter.ai/api/v1''\<rparr>,
     \<lparr>vp_name = ''together'', vp_env_var_name = ''TOGETHER_API_KEY'', vp_base_url = ''https://api.together.xyz/v1''\<rparr>,
     \<lparr>vp_name = ''fireworks'', vp_env_var_name = ''FIREWORKS_API_KEY'', vp_base_url = ''https://api.fireworks.ai/inference/v1''\<rparr>,
     \<lparr>vp_name = ''cerebras'', vp_env_var_name = ''CEREBRAS_API_KEY'', vp_base_url = ''https://api.cerebras.ai/v1''\<rparr>,
     \<lparr>vp_name = ''sambanova'', vp_env_var_name = ''SAMBANOVA_API_KEY'', vp_base_url = ''https://api.sambanova.ai/v1''\<rparr>,
     \<lparr>vp_name = ''deepinfra'', vp_env_var_name = ''DEEPINFRA_API_KEY'', vp_base_url = ''https://api.deepinfra.com/v1/openai''\<rparr>,
     \<lparr>vp_name = ''perplexity'', vp_env_var_name = ''PERPLEXITY_API_KEY'', vp_base_url = ''https://api.perplexity.ai''\<rparr>,
     \<lparr>vp_name = ''cohere'', vp_env_var_name = ''COHERE_API_KEY'', vp_base_url = ''https://api.cohere.ai/compatibility/v1''\<rparr>]"

end
