(* ===== verification/Registries.thy ===== *)
theory Registries
  imports Registry RegistryTables
begin

text \<open>
  The registries of MCP servers, language servers, tools, plugins, providers and provider keys: for each module of
  \<open>single-core\<close> its load, save and operations on the file, and what they guarantee. The key chain is a map
  from secret names to values; a key chain that cannot be reached has none.
\<close>

section \<open>MCP servers\<close>

definition mcp_preset_of :: "string \<Rightarrow> mcp_preset option" where
  "mcp_preset_of name = find (\<lambda>p. mp_name p = name) mcp_presets"

definition mcp_to_spec :: "mcp_preset \<Rightarrow> mcp_spec" where
  "mcp_to_spec p =
     \<lparr>ms_name = mp_name p, ms_command = mp_command p, ms_args = mp_args p, ms_env = [],
      ms_secret_env = map snd (btree_of fst
        (map (\<lambda>var. (var, ''mcp:'' @ mp_name p @ '':'' @ var)) (mp_secret_env_vars p))),
      ms_enabled = False\<rparr>"

definition mcp_load :: "mcp_spec reg_file \<Rightarrow> string + mcp_spec list" where
  "mcp_load = reg_load mcp_default_servers"

definition mcp_save :: "mcp_spec writing \<Rightarrow> mcp_spec list \<Rightarrow> (string + unit) \<times> mcp_spec reg_file" where
  "mcp_save = reg_save ms_name"

definition mcp_add :: "mcp_spec writing \<Rightarrow> mcp_spec \<Rightarrow> mcp_spec reg_file \<Rightarrow> (string + unit) \<times> mcp_spec reg_file" where
  "mcp_add w = reg_add ms_name mcp_load (mcp_save w)"

definition mcp_sync :: "mcp_spec writing \<Rightarrow> mcp_spec reg_file \<Rightarrow> (string + nat) \<times> mcp_spec reg_file" where
  "mcp_sync w = reg_sync ms_name mcp_load (mcp_save w) (map mcp_to_spec mcp_presets)"

definition mcp_remove :: "mcp_spec writing \<Rightarrow> string \<Rightarrow> mcp_spec reg_file \<Rightarrow> (string + bool) \<times> mcp_spec reg_file" where
  "mcp_remove w = reg_remove ms_name mcp_load (mcp_save w)"

definition mcp_set_enabled ::
    "mcp_spec writing \<Rightarrow> string \<Rightarrow> bool \<Rightarrow> mcp_spec reg_file \<Rightarrow> (string + bool) \<times> mcp_spec reg_file" where
  "mcp_set_enabled w = reg_set_enabled ms_name (\<lambda>b s. s\<lparr>ms_enabled := b\<rparr>) mcp_load (mcp_save w)"

definition mcp_find :: "string \<Rightarrow> mcp_spec reg_file \<Rightarrow> string + mcp_spec option" where
  "mcp_find = reg_find ms_name mcp_load"

definition gateway_server_spec :: mcp_spec where
  "gateway_server_spec =
     \<lparr>ms_name = ''single-mcp'', ms_command = ''single-mcp'', ms_args = [], ms_env = [], ms_secret_env = [],
      ms_enabled = True\<rparr>"

definition singlecli_server_spec :: mcp_spec where
  "singlecli_server_spec =
     \<lparr>ms_name = ''singlecli-mcp'', ms_command = ''singlecli-mcp'', ms_args = [], ms_env = [], ms_secret_env = [],
      ms_enabled = True\<rparr>"

text \<open>The flag file: absent, unreadable or the flag.\<close>

definition gateway_mode :: "(string + bool) option \<Rightarrow> string + bool" where
  "gateway_mode f = (case f of None \<Rightarrow> Inr False | Some (Inl e) \<Rightarrow> Inl e | Some (Inr b) \<Rightarrow> Inr b)"

definition set_gateway_mode :: "string option \<Rightarrow> (string + bool) option \<Rightarrow> bool \<Rightarrow> (string + unit) \<times> (string + bool) option" where
  "set_gateway_mode write_error left b = (case write_error of Some e \<Rightarrow> (Inl e, left) | None \<Rightarrow> (Inr (), Some (Inr b)))"

section \<open>Language servers\<close>

definition lsp_preset_of :: "string \<Rightarrow> lsp_preset option" where
  "lsp_preset_of name = find (\<lambda>p. lp_name p = name) lsp_presets"

definition lsp_to_spec :: "lsp_preset \<Rightarrow> lsp_spec" where
  "lsp_to_spec p =
     \<lparr>ls_name = lp_name p, ls_command = lp_command p, ls_args = lp_args p, ls_extensions = lp_extensions p,
      ls_enabled = True\<rparr>"

definition lsp_load :: "lsp_spec reg_file \<Rightarrow> string + lsp_spec list" where
  "lsp_load = reg_load lsp_default_servers"

definition lsp_save :: "lsp_spec writing \<Rightarrow> lsp_spec list \<Rightarrow> (string + unit) \<times> lsp_spec reg_file" where
  "lsp_save = reg_save ls_name"

definition lsp_add :: "lsp_spec writing \<Rightarrow> lsp_spec \<Rightarrow> lsp_spec reg_file \<Rightarrow> (string + unit) \<times> lsp_spec reg_file" where
  "lsp_add w = reg_add ls_name lsp_load (lsp_save w)"

definition lsp_remove :: "lsp_spec writing \<Rightarrow> string \<Rightarrow> lsp_spec reg_file \<Rightarrow> (string + bool) \<times> lsp_spec reg_file" where
  "lsp_remove w = reg_remove ls_name lsp_load (lsp_save w)"

definition lsp_sync :: "lsp_spec writing \<Rightarrow> lsp_spec reg_file \<Rightarrow> (string + nat) \<times> lsp_spec reg_file" where
  "lsp_sync w = reg_sync ls_name lsp_load (lsp_save w) (map (\<lambda>p. (lsp_to_spec p)\<lparr>ls_enabled := False\<rparr>) lsp_presets)"

definition lsp_set_enabled ::
    "lsp_spec writing \<Rightarrow> string \<Rightarrow> bool \<Rightarrow> lsp_spec reg_file \<Rightarrow> (string + bool) \<times> lsp_spec reg_file" where
  "lsp_set_enabled w = reg_set_enabled ls_name (\<lambda>b s. s\<lparr>ls_enabled := b\<rparr>) lsp_load (lsp_save w)"

definition lsp_find :: "string \<Rightarrow> lsp_spec reg_file \<Rightarrow> string + lsp_spec option" where
  "lsp_find = reg_find ls_name lsp_load"

section \<open>Tools\<close>

definition tool_load :: "tool_spec reg_file \<Rightarrow> string + tool_spec list" where
  "tool_load = reg_load default_tools"

definition tool_save :: "tool_spec writing \<Rightarrow> tool_spec list \<Rightarrow> (string + unit) \<times> tool_spec reg_file" where
  "tool_save = reg_save tl_name"

definition tool_add :: "tool_spec writing \<Rightarrow> tool_spec \<Rightarrow> tool_spec reg_file \<Rightarrow> (string + unit) \<times> tool_spec reg_file" where
  "tool_add w = reg_add tl_name tool_load (tool_save w)"

definition tool_set_enabled ::
    "tool_spec writing \<Rightarrow> string \<Rightarrow> bool \<Rightarrow> tool_spec reg_file \<Rightarrow> (string + bool) \<times> tool_spec reg_file" where
  "tool_set_enabled w = reg_set_enabled tl_name (\<lambda>b s. s\<lparr>tl_enabled := b\<rparr>) tool_load (tool_save w)"

definition tool_find :: "string \<Rightarrow> tool_spec reg_file \<Rightarrow> string + tool_spec option" where
  "tool_find = reg_find tl_name tool_load"

section \<open>Plugins\<close>

record plugin_spec =
  ps_name :: string
  ps_target :: string
  ps_opencode_module :: "string option"

definition plugin_preset_of :: "string \<Rightarrow> plugin_preset option" where
  "plugin_preset_of name = find (\<lambda>p. pg_name p = name) plugin_presets"

definition plugin_to_spec :: "plugin_preset \<Rightarrow> plugin_spec" where
  "plugin_to_spec p = \<lparr>ps_name = pg_name p, ps_target = pg_target p, ps_opencode_module = pg_opencode_module p\<rparr>"

definition plugin_load :: "plugin_spec reg_file \<Rightarrow> string + plugin_spec list" where
  "plugin_load = reg_load []"

definition plugin_save :: "plugin_spec writing \<Rightarrow> plugin_spec list \<Rightarrow> (string + unit) \<times> plugin_spec reg_file" where
  "plugin_save = reg_save ps_name"

definition plugin_add ::
    "plugin_spec writing \<Rightarrow> plugin_spec \<Rightarrow> plugin_spec reg_file \<Rightarrow> (string + unit) \<times> plugin_spec reg_file" where
  "plugin_add w = reg_add ps_name plugin_load (plugin_save w)"

definition plugin_remove ::
    "plugin_spec writing \<Rightarrow> string \<Rightarrow> plugin_spec reg_file \<Rightarrow> (string + bool) \<times> plugin_spec reg_file" where
  "plugin_remove w = reg_remove ps_name plugin_load (plugin_save w)"

definition plugin_find :: "string \<Rightarrow> plugin_spec reg_file \<Rightarrow> string + plugin_spec option" where
  "plugin_find = reg_find ps_name plugin_load"

definition plugin_sync :: "plugin_spec writing \<Rightarrow> plugin_spec reg_file \<Rightarrow> (string + nat) \<times> plugin_spec reg_file" where
  "plugin_sync w = reg_sync ps_name plugin_load (plugin_save w) (map plugin_to_spec plugin_presets)"

section \<open>Providers\<close>

record model_spec =
  md_id :: string
  md_name :: string

record provider_spec =
  pv_name :: string
  pv_env_var_name :: string
  pv_secret_name :: string
  pv_base_url :: "string option"
  pv_models :: "model_spec list"

definition provider_preset_of :: "string \<Rightarrow> provider_preset option" where
  "provider_preset_of name = find (\<lambda>p. vp_name p = name) provider_presets"

definition provider_to_spec :: "provider_preset \<Rightarrow> provider_spec" where
  "provider_to_spec p =
     \<lparr>pv_name = vp_name p, pv_env_var_name = vp_env_var_name p, pv_secret_name = ''provider:'' @ vp_name p,
      pv_base_url = Some (vp_base_url p), pv_models = []\<rparr>"

definition provider_load :: "provider_spec reg_file \<Rightarrow> string + provider_spec list" where
  "provider_load = reg_load []"

definition provider_save ::
    "provider_spec writing \<Rightarrow> provider_spec list \<Rightarrow> (string + unit) \<times> provider_spec reg_file" where
  "provider_save = reg_save pv_name"

definition merge_model :: "model_spec \<Rightarrow> model_spec list \<Rightarrow> model_spec list" where
  "merge_model m ms =
     (if exists_where (\<lambda>x. md_id x = md_id m) ms then update_first (\<lambda>x. md_id x = md_id m) (\<lambda>_. m) ms else ms @ [m])"

definition merge_provider :: "provider_spec \<Rightarrow> provider_spec \<Rightarrow> provider_spec" where
  "merge_provider p old =
     old\<lparr>pv_base_url := (case pv_base_url p of Some u \<Rightarrow> Some u | None \<Rightarrow> pv_base_url old),
         pv_env_var_name := (if pv_env_var_name p \<noteq> [] then pv_env_var_name p else pv_env_var_name old),
         pv_models := fold merge_model (pv_models p) (pv_models old)\<rparr>"

definition provider_add ::
    "provider_spec writing \<Rightarrow> provider_spec \<Rightarrow> provider_spec reg_file \<Rightarrow> (string + unit) \<times> provider_spec reg_file" where
  "provider_add w p f =
     (case provider_load f of
        Inl e \<Rightarrow> (Inl e, f)
      | Inr ps \<Rightarrow>
          provider_save w
            (if exists_where (\<lambda>q. pv_name q = pv_name p) ps
             then update_first (\<lambda>q. pv_name q = pv_name p) (merge_provider p) ps
             else ps @ [p]))"

definition provider_remove ::
    "provider_spec writing \<Rightarrow> string \<Rightarrow> provider_spec reg_file \<Rightarrow> (string + bool) \<times> provider_spec reg_file" where
  "provider_remove w = reg_remove pv_name provider_load (provider_save w)"

definition provider_find :: "string \<Rightarrow> provider_spec reg_file \<Rightarrow> string + provider_spec option" where
  "provider_find = reg_find pv_name provider_load"

definition provider_sync :: "provider_spec writing \<Rightarrow> provider_spec reg_file \<Rightarrow> (string + nat) \<times> provider_spec reg_file" where
  "provider_sync w = reg_sync pv_name provider_load (provider_save w) (map provider_to_spec provider_presets)"

section \<open>Labelled keys\<close>

record provider_key_spec =
  ks_provider :: string
  ks_label :: string
  ks_agent :: "string option"
  ks_secret_name :: string

definition key_secret_name :: "string \<Rightarrow> string \<Rightarrow> string" where
  "key_secret_name provider label = ''provider-key:'' @ provider @ '':'' @ label"

definition composite_key :: "string \<Rightarrow> string \<Rightarrow> string" where
  "composite_key provider label = provider @ '':'' @ label"

definition spec_key :: "provider_key_spec \<Rightarrow> string" where
  "spec_key k = composite_key (ks_provider k) (ks_label k)"

definition same_pair :: "string \<Rightarrow> string \<Rightarrow> provider_key_spec \<Rightarrow> bool" where
  "same_pair provider label k \<longleftrightarrow> ks_provider k = provider \<and> ks_label k = label"

definition keys_load :: "provider_key_spec reg_file \<Rightarrow> string + provider_key_spec list" where
  "keys_load = reg_load []"

definition keys_save ::
    "provider_key_spec writing \<Rightarrow> provider_key_spec list \<Rightarrow> (string + unit) \<times> provider_key_spec reg_file" where
  "keys_save = reg_save spec_key"

definition keys_add ::
    "provider_key_spec writing \<Rightarrow> provider_key_spec \<Rightarrow> provider_key_spec reg_file \<Rightarrow> (string + unit) \<times> provider_key_spec reg_file" where
  "keys_add w k f =
     (case keys_load f of
        Inl e \<Rightarrow> (Inl e, f)
      | Inr ks \<Rightarrow> keys_save w (filter (\<lambda>x. \<not> same_pair (ks_provider k) (ks_label k) x) ks @ [k]))"

definition keys_remove ::
    "provider_key_spec writing \<Rightarrow> string \<Rightarrow> string \<Rightarrow> provider_key_spec reg_file \<Rightarrow> (string + bool) \<times> provider_key_spec reg_file" where
  "keys_remove w provider label f =
     (case keys_load f of
        Inl e \<Rightarrow> (Inl e, f)
      | Inr ks \<Rightarrow>
          (let rest = filter (\<lambda>x. \<not> same_pair provider label x) ks
           in if length rest \<noteq> length ks then saved_as True (keys_save w rest) else (Inr False, f)))"

definition keys_find :: "string \<Rightarrow> string \<Rightarrow> provider_key_spec reg_file \<Rightarrow> string + provider_key_spec option" where
  "keys_find provider label f =
     (case keys_load f of Inl e \<Rightarrow> Inl e | Inr ks \<Rightarrow> Inr (find (same_pair provider label) ks))"

definition list_for_provider :: "string \<Rightarrow> provider_key_spec reg_file \<Rightarrow> string + provider_key_spec list" where
  "list_for_provider provider f =
     (case keys_load f of Inl e \<Rightarrow> Inl e | Inr ks \<Rightarrow> Inr (filter (\<lambda>k. ks_provider k = provider) ks))"

text \<open>The registry entry and the key chain entry of a provider, when both are there.\<close>

definition stored_key :: "(string \<rightharpoonup> string) \<Rightarrow> provider_spec reg_file \<Rightarrow> string \<Rightarrow> (provider_spec \<Rightarrow> string) \<Rightarrow> (string \<times> string) option" where
  "stored_key chain providers provider secret =
     (case provider_find provider providers of
        Inr (Some spec) \<Rightarrow> map_option (\<lambda>v. (pv_env_var_name spec, v)) (chain (secret spec))
      | _ \<Rightarrow> None)"

fun resolve_labelled ::
    "(string \<rightharpoonup> string) \<Rightarrow> provider_spec reg_file \<Rightarrow> provider_key_spec list \<Rightarrow>
     (string \<rightharpoonup> string) \<times> string set \<Rightarrow> (string \<rightharpoonup> string) \<times> string set" where
  "resolve_labelled chain providers [] acc = acc"
| "resolve_labelled chain providers (k # ks) (env, covered) =
     (case stored_key chain providers (ks_provider k) (\<lambda>_. ks_secret_name k) of
        None \<Rightarrow> resolve_labelled chain providers ks (env, covered)
      | Some (var, v) \<Rightarrow> resolve_labelled chain providers ks (env(var \<mapsto> v), insert (ks_provider k) covered))"

definition resolve_env_for_agent ::
    "(string \<rightharpoonup> string) \<Rightarrow> provider_key_spec reg_file \<Rightarrow> provider_spec reg_file \<Rightarrow> string \<Rightarrow> string \<rightharpoonup> string" where
  "resolve_env_for_agent chain keys providers agent =
     (let (env, covered) =
            (case keys_load keys of
               Inl _ \<Rightarrow> (Map.empty, {})
             | Inr ks \<Rightarrow> resolve_labelled chain providers (filter (\<lambda>k. ks_agent k = Some agent) ks) (Map.empty, {}))
      in if agent \<in> covered then env
         else (case stored_key chain providers agent pv_secret_name of
                 None \<Rightarrow> env
               | Some (var, v) \<Rightarrow> env(var \<mapsto> v)))"

definition configured ::
    "(string \<rightharpoonup> string) \<Rightarrow> provider_spec reg_file \<Rightarrow> provider_key_spec reg_file \<Rightarrow> string + provider_spec list" where
  "configured chain providers keys =
     (case provider_load providers of
        Inl e \<Rightarrow> Inl e
      | Inr ps \<Rightarrow>
          Inr (filter (\<lambda>p. chain (pv_secret_name p) \<noteq> None \<or>
            (case list_for_provider (pv_name p) keys of Inl _ \<Rightarrow> False | Inr ks \<Rightarrow> ks \<noteq> [])) ps))"

section \<open>The contract holds for every registry\<close>

interpretation mcp: named_registry ms_name mcp_load "mcp_save w" for w
  by unfold_locales (simp only: mcp_load_def mcp_save_def, rule reg_save_contract)

interpretation lsp: named_registry ls_name lsp_load "lsp_save w" for w
  by unfold_locales (simp only: lsp_load_def lsp_save_def, rule reg_save_contract)

interpretation tools: named_registry tl_name tool_load "tool_save w" for w
  by unfold_locales (simp only: tool_load_def tool_save_def, rule reg_save_contract)

interpretation plugins: named_registry ps_name plugin_load "plugin_save w" for w
  by unfold_locales (simp only: plugin_load_def plugin_save_def, rule reg_save_contract)

interpretation providers: named_registry pv_name provider_load "provider_save w" for w
  by unfold_locales (simp only: provider_load_def provider_save_def, rule reg_save_contract)

interpretation labelled: named_registry spec_key keys_load "keys_save w" for w
  by unfold_locales (simp only: keys_load_def keys_save_def, rule reg_save_contract)

section \<open>The startup synchronisation\<close>

lemma mcp_spec_simps [simp]: "ms_name (mcp_to_spec p) = mp_name p" "\<not> ms_enabled (mcp_to_spec p)"
  by (simp_all add: mcp_to_spec_def)

lemma lsp_spec_simps [simp]: "ls_name (lsp_to_spec p) = lp_name p" "ls_extensions (lsp_to_spec p) = lp_extensions p"
  by (simp_all add: lsp_to_spec_def)

text \<open>C39: the synchronisation at every start keeps each MCP server of the registry as it is, whether it was enabled,
  disabled or edited, adds the missing presets disabled, and has nothing to do when it runs again.\<close>

theorem sync_respects_choices:
  assumes "mcp_load f = Inr xs" "distinct (map ms_name xs)" "mcp_sync w f = (Inr k, g)"
  shows "\<exists>ys. mcp_load g = Inr ys \<and> set xs \<subseteq> set ys \<and> (\<forall>y \<in> set ys - set xs. \<not> ms_enabled y) \<and>
    mp_name ` set mcp_presets \<subseteq> ms_name ` set ys \<and> mcp_sync w' g = (Inr 0, g)"
proof -
  from mcp.synced [OF assms(1,2) assms(3) [unfolded mcp_sync_def]] obtain ys where
    ys: "mcp_load g = Inr ys" "set xs \<subseteq> set ys"
      "set ys \<subseteq> set xs \<union> {p \<in> set (map mcp_to_spec mcp_presets). ms_name p \<notin> ms_name ` set xs}"
      "ms_name ` set (map mcp_to_spec mcp_presets) \<subseteq> ms_name ` set ys" by blast
  have "mp_name ` set mcp_presets = ms_name ` set (map mcp_to_spec mcp_presets)" by (simp add: image_image)
  moreover have "\<forall>y \<in> set ys - set xs. \<not> ms_enabled y" using ys(3) by auto
  moreover have "mcp_sync w' g = (Inr 0, g)" unfolding mcp_sync_def by (rule mcp.sync_settles [OF ys(1,4)])
  ultimately show ?thesis using ys by auto
qed

theorem sync_respects_choices_witness:
  "\<exists>k g. mcp_sync None (Entries []) = (Inr k, g) \<and> (\<forall>ys. mcp_load g = Inr ys \<longrightarrow> (\<forall>y \<in> set ys. \<not> ms_enabled y))"
proof -
  have l: "mcp_load (Entries []) = Inr []" by (simp add: mcp_load_def reg_load_def)
  obtain k g where s: "mcp_sync None (Entries []) = (Inr k, g)"
    using reg_sync_returns [of mcp_load, OF l] unfolding mcp_sync_def mcp_save_def by blast
  from sync_respects_choices [OF l _ s, of None] obtain ys where "mcp_load g = Inr ys" "\<forall>y \<in> set ys - set []. \<not> ms_enabled y"
    by auto
  with s show ?thesis by auto
qed

section \<open>Registry and router\<close>

lemma find_sorted_least:
  fixes key :: "'a \<Rightarrow> string"
  assumes "sorted_wrt (<) (map key xs)" "find P xs = Some x" "y \<in> set xs" "P y"
  shows "key x \<le> key y"
  using assms
proof (induction xs)
  case (Cons a xs)
  then show ?case by (cases "P a") (auto intro: order.strict_implies_order)
qed simp

text \<open>Whoever claims a key, the router gives it to the same entry when the entries that claim it are the same, and
  either the lists are ordered by name or there is at most one.\<close>

definition claims :: "(string \<Rightarrow> bool) \<Rightarrow> string \<Rightarrow> lsp_spec \<Rightarrow> bool" where
  "claims dotted k spec \<longleftrightarrow> ls_enabled spec \<and>
     (\<exists>ext \<in> set (ls_extensions spec). dotted ext \<and> to_ascii_lowercase ext = k)"

lemma owner_find: "owner dotted k specs = find (claims dotted k) specs"
  unfolding owner_def claims_def [abs_def] by (rule refl)

lemma find_same:
  fixes key :: "'a \<Rightarrow> string"
  assumes "sorted_wrt (<) (map key ys)" "{x \<in> set xs. P x} = {x \<in> set ys. P x}"
    and "sorted_wrt (<) (map key xs) \<or> (\<forall>x \<in> set xs. \<forall>y \<in> set xs. P x \<longrightarrow> P y \<longrightarrow> x = y)"
  shows "find P xs = find P ys"
proof (cases "find P xs")
  case None
  then have "\<forall>x \<in> set ys. \<not> P x" using assms(2) by (auto simp: find_None_iff)
  then have "find P ys = None" by (simp add: find_None_iff)
  then show ?thesis using None by simp
next
  case (Some x)
  from find_in [OF Some] assms(2) have x: "x \<in> set ys" "x \<in> set xs" "P x" by auto
  then obtain y where y: "find P ys = Some y" by (cases "find P ys") (auto simp: find_None_iff)
  from find_in [OF y] assms(2) have y2: "y \<in> set xs" "y \<in> set ys" "P y" by auto
  from assms(3) have "x = y"
  proof
    assume "sorted_wrt (<) (map key xs)"
    then have "key x \<le> key y" "key y \<le> key x"
      using find_sorted_least [OF _ Some y2(1,3)] find_sorted_least [OF assms(1) y x(1,3)] by auto
    then have "key x = key y" by simp
    moreover have "distinct (map key ys)" using assms(1) by (simp add: strict_sorted_iff)
    ultimately show "x = y" using x(1) y2(2) by (metis inj_onD distinct_map)
  qed (use x y2 in blast)
  then show ?thesis using Some y by simp
qed

lemma defaults_disjoint:
  "\<forall>x \<in> set lsp_default_servers. \<forall>y \<in> set lsp_default_servers. ls_name x \<noteq> ls_name y \<longrightarrow>
     set (map to_ascii_lowercase (ls_extensions x)) \<inter> set (map to_ascii_lowercase (ls_extensions y)) = {}"
  by code_simp

lemma defaults_distinct: "distinct (map ls_name lsp_default_servers)"
  by code_simp

lemma defaults_one_claim:
  assumes "x \<in> set lsp_default_servers" "y \<in> set lsp_default_servers" "claims dotted k x" "claims dotted k y"
  shows "x = y"
proof -
  have "k \<in> set (map to_ascii_lowercase (ls_extensions x)) \<inter> set (map to_ascii_lowercase (ls_extensions y))"
    using assms(3,4) unfolding claims_def by (metis IntI imageI set_map)
  with defaults_disjoint assms(1,2) have "ls_name x = ls_name y" by blast
  with defaults_distinct assms(1,2) show ?thesis by (metis inj_onD distinct_map)
qed

lemma sync_result:
  assumes "lsp_load f = Inr xs" "distinct (map ls_name xs)" "lsp_sync w f = (Inr k, g)"
  shows "\<exists>ys. lsp_load g = Inr ys \<and> set xs \<subseteq> set ys \<and> (\<forall>y \<in> set ys - set xs. \<not> ls_enabled y) \<and>
    (g = f \<or> sorted_wrt (<) (map ls_name ys))"
proof -
  let ?specs = "map (\<lambda>p. (lsp_to_spec p)\<lparr>ls_enabled := False\<rparr>) lsp_presets"
  from lsp.synced [OF assms(1,2) assms(3) [unfolded lsp_sync_def]] obtain ys where
    ys: "lsp_load g = Inr ys" "set xs \<subseteq> set ys" "set ys \<subseteq> set xs \<union> {p \<in> set ?specs. ls_name p \<notin> ls_name ` set xs}"
    by blast
  have "g = f \<or> (\<exists>zs. lsp_save w zs = (Inr (), g))"
    using assms(1,3) by (auto simp: lsp_sync_def reg_sync_def Let_def saved_as_Inr split: if_splits)
  then have "g = f \<or> sorted_wrt (<) (map ls_name ys)" using lsp.saved [of w _ g] ys(1) by auto
  moreover have "\<forall>y \<in> set ys - set xs. \<not> ls_enabled y" using ys(3) by auto
  ultimately show ?thesis using ys(1,2) by blast
qed

text \<open>C40: the synchronisation never changes which server a document goes to: not on a registry ordered by name, as every
  save leaves it, and not on the defaults of a fresh install, although it reorders them.\<close>

theorem sync_keeps_routes:
  assumes "lsp_load f = Inr xs" "f = NoFile \<or> sorted_wrt (<) (map ls_name xs)" "lsp_sync w f = (Inr k, g)"
  shows "\<exists>ys. lsp_load g = Inr ys \<and> route (from_registry ys) uri = route (from_registry xs) uri"
proof -
  have nofile: "f = NoFile \<Longrightarrow> xs = lsp_default_servers" using assms(1) by (simp add: lsp_load_def reg_load_def)
  have d: "distinct (map ls_name xs)"
    using assms(2) nofile defaults_distinct by (auto simp: strict_sorted_iff)
  from sync_result [OF assms(1) d assms(3)] obtain ys where ys: "lsp_load g = Inr ys" "set xs \<subseteq> set ys"
    "\<forall>y \<in> set ys - set xs. \<not> ls_enabled y" "g = f \<or> sorted_wrt (<) (map ls_name ys)" by blast
  have "owner dotted n xs = owner dotted n ys" for dotted n
  proof (cases "g = f")
    case False
    have "{x \<in> set xs. claims dotted n x} = {x \<in> set ys. claims dotted n x}"
      using ys(2,3) by (auto simp: claims_def)
    moreover have "sorted_wrt (<) (map ls_name xs) \<or>
        (\<forall>x \<in> set xs. \<forall>y \<in> set xs. claims dotted n x \<longrightarrow> claims dotted n y \<longrightarrow> x = y)"
      using assms(2) nofile defaults_one_claim by blast
    ultimately show ?thesis unfolding owner_find using ys(4) False by (intro find_same [of ls_name]) auto
  qed (use assms(1) ys(1) in simp)
  then show ?thesis using ys(1) by (auto simp: route_def from_registry_owner split: option.split)
qed

theorem sync_keeps_routes_witness:
  "\<exists>k g ys. lsp_sync None NoFile = (Inr k, g) \<and> lsp_load g = Inr ys \<and>
     route (from_registry ys) ''a.rs'' = route (from_registry lsp_default_servers) ''a.rs''"
proof -
  have l: "lsp_load NoFile = Inr lsp_default_servers" by (simp add: lsp_load_def reg_load_def)
  obtain k g where s: "lsp_sync None NoFile = (Inr k, g)"
    using reg_sync_returns [of lsp_load, OF l] unfolding lsp_sync_def lsp_save_def by blast
  from sync_keeps_routes [OF l _ s, of "''a.rs''"] s show ?thesis by blast
qed

text \<open>On a registry as a save leaves it, the enabled claimant whose name comes first takes the document.\<close>

lemma route_by_name:
  assumes "sorted_wrt (<) (map ls_name xs)" "owner dotted k xs = Some s" "t \<in> set xs" "claims dotted k t"
  shows "ls_name s \<le> ls_name t"
  using find_sorted_least [OF assms(1) _ assms(3)] assms(2,4) by (simp add: owner_find)

section \<open>Labelled keys of a provider\<close>

text \<open>Adding a labelled key keeps exactly the keys whose text \<open>provider:label\<close> is another: two keys of
  different providers can have the same text, and then the new one replaces the other.\<close>

theorem added_key_survivors:
  assumes "keys_load f = Inr ks" "distinct (map spec_key ks)" "keys_add w k f = (Inr (), g)"
  shows "\<exists>ls. keys_load g = Inr ls \<and> distinct (map spec_key ls) \<and>
    set ls = insert k {x \<in> set ks. spec_key x \<noteq> spec_key k}"
proof -
  let ?rest = "filter (\<lambda>x. \<not> same_pair (ks_provider k) (ks_label k) x) ks"
  have "keys_save w (?rest @ [k]) = (Inr (), g)" using assms(1,3) by (simp add: keys_add_def)
  from labelled.saved [OF this] obtain ls where ls: "keys_load g = Inr ls" "sorted_wrt (<) (map spec_key ls)"
    and found: "\<forall>n. find (\<lambda>x. spec_key x = n) ls = find (\<lambda>x. spec_key x = n) (rev (?rest @ [k]))" by blast
  have dl: "distinct (map spec_key ls)" using ls(2) by (simp add: strict_sorted_iff)
  have dr: "distinct (map spec_key ?rest)" using assms(2) by (simp add: distinct_map_filter)
  have rest: "x \<in> set ?rest \<longleftrightarrow> x \<in> set ks" if "spec_key x \<noteq> spec_key k" for x
    using that by (auto simp: same_pair_def spec_key_def)
  have "x \<in> set ls \<longleftrightarrow> x = k \<or> x \<in> set ks \<and> spec_key x \<noteq> spec_key k" for x
  proof (cases "spec_key x = spec_key k")
    case True
    then have "find (\<lambda>y. spec_key y = spec_key x) ls = Some k" using found by simp
    then show ?thesis using find_key_member [OF dl, of x] True by auto
  next
    case False
    then have "find (\<lambda>y. spec_key y = spec_key x) ls = find (\<lambda>y. spec_key y = spec_key x) ?rest"
      using found find_distinct_rev [OF dr] by simp
    then have "x \<in> set ls \<longleftrightarrow> x \<in> set ?rest" using find_key_member [OF dl, of x] find_key_member [OF dr, of x] by simp
    then show ?thesis using rest [OF False] False by blast
  qed
  then have "set ls = insert k {x \<in> set ks. spec_key x \<noteq> spec_key k}" by blast
  with ls(1) dl show ?thesis by blast
qed

definition key_of :: "string \<Rightarrow> string \<Rightarrow> provider_key_spec" where
  "key_of p l = \<lparr>ks_provider = p, ks_label = l, ks_agent = None, ks_secret_name = key_secret_name p l\<rparr>"

text \<open>The key \<open>b:c\<close> of \<open>a\<close> is gone after the key \<open>c\<close> of \<open>a:b\<close> is added.\<close>

theorem added_key_survivors_witness:
  "\<exists>g. keys_add None (key_of ''a:b'' ''c'') (Entries [(''a:b:c'', key_of ''a'' ''b:c'')]) = (Inr (), g) \<and>
     keys_find ''a'' ''b:c'' g = Inr None"
proof -
  let ?f = "Entries [(''a:b:c'', key_of ''a'' ''b:c'')]"
  have l: "keys_load ?f = Inr [key_of ''a'' ''b:c'']" by (simp add: keys_load_def reg_load_def)
  obtain g where g: "keys_add None (key_of ''a:b'' ''c'') ?f = (Inr (), g)"
    by (simp add: keys_add_def l keys_save_def reg_save_def)
  have d: "distinct (map spec_key [key_of ''a'' ''b:c''])" by simp
  from added_key_survivors [OF l d g] obtain ls where ls: "keys_load g = Inr ls"
    "set ls = insert (key_of ''a:b'' ''c'') {x \<in> set [key_of ''a'' ''b:c'']. spec_key x \<noteq> spec_key (key_of ''a:b'' ''c'')}"
    by blast
  have "spec_key (key_of ''a'' ''b:c'') = spec_key (key_of ''a:b'' ''c'')"
    by (simp add: spec_key_def key_of_def composite_key_def)
  then have "\<And>x. x \<in> set [key_of ''a'' ''b:c''] \<Longrightarrow> spec_key x = spec_key (key_of ''a:b'' ''c'')" by simp
  with ls(2) have "set ls = {key_of ''a:b'' ''c''}" by blast
  then have "find (same_pair ''a'' ''b:c'') ls = None" by (simp add: find_None_iff same_pair_def key_of_def)
  with ls(1) g show ?thesis by (simp add: keys_find_def)
qed

section \<open>The environment of an agent\<close>

text \<open>The labelled keys of the agent that are usable: provider, variable and value, in the order of the file.\<close>

fun usable_keys :: "(string \<rightharpoonup> string) \<Rightarrow> provider_spec reg_file \<Rightarrow> provider_key_spec list \<Rightarrow> (string \<times> string \<times> string) list" where
  "usable_keys chain providers [] = []"
| "usable_keys chain providers (k # ks) =
     (case stored_key chain providers (ks_provider k) (\<lambda>_. ks_secret_name k) of
        None \<Rightarrow> usable_keys chain providers ks
      | Some e \<Rightarrow> (ks_provider k, e) # usable_keys chain providers ks)"

lemma resolve_labelled_usable:
  "resolve_labelled chain providers ks (env, covered) =
     (env ++ map_of (rev (map snd (usable_keys chain providers ks))), covered \<union> fst ` set (usable_keys chain providers ks))"
  by (induction ks arbitrary: env covered) (auto split: option.split prod.split)

text \<open>An agent sees the last usable labelled key of each variable, and the shared key of the provider with its own
  name. The shared key is left out exactly when a labelled key of that provider is used; it then overrides
  a labelled key of another provider that has the same variable.\<close>

theorem agent_env_spec:
  assumes "keys_load keys = Inr ks"
  shows "resolve_env_for_agent chain keys providers agent =
    (let labelled = usable_keys chain providers (filter (\<lambda>k. ks_agent k = Some agent) ks)
     in map_of (rev (map snd labelled)) ++
        (if agent \<in> fst ` set labelled then Map.empty
         else case stored_key chain providers agent pv_secret_name of Some (var, v) \<Rightarrow> [var \<mapsto> v] | None \<Rightarrow> Map.empty))"
  by (auto simp: resolve_env_for_agent_def assms resolve_labelled_usable Let_def split: option.split)

theorem agent_env_spec_witness:
  "resolve_env_for_agent [''provider:droid'' \<mapsto> ''shared'', ''provider-key:factory:mine'' \<mapsto> ''mine'']
     (Entries [(''factory:mine'', \<lparr>ks_provider = ''factory'', ks_label = ''mine'', ks_agent = Some ''droid'',
        ks_secret_name = ''provider-key:factory:mine''\<rparr>)])
     (Entries [(''droid'', \<lparr>pv_name = ''droid'', pv_env_var_name = ''KEY'', pv_secret_name = ''provider:droid'',
        pv_base_url = None, pv_models = []\<rparr>),
       (''factory'', \<lparr>pv_name = ''factory'', pv_env_var_name = ''KEY'', pv_secret_name = ''provider:factory'',
        pv_base_url = None, pv_models = []\<rparr>)]) ''droid'' ''KEY'' = Some ''shared''"
proof -
  let ?k = "\<lparr>ks_provider = ''factory'', ks_label = ''mine'', ks_agent = Some ''droid'',
    ks_secret_name = ''provider-key:factory:mine''\<rparr>"
  have l: "keys_load (Entries [(''factory:mine'', ?k)]) = Inr [?k]" by (simp add: keys_load_def reg_load_def)
  show ?thesis
    by (simp add: agent_env_spec [OF l] Let_def stored_key_def provider_find_def reg_find_def provider_load_def reg_load_def)
qed

text \<open>Adding a provider again keeps what the caller left empty, and the models it does not name.\<close>

lemma merge_model_ids: "md_id ` set (merge_model m ms) = insert (md_id m) (md_id ` set ms)"
proof -
  have "md_id ` set (update_first (\<lambda>x. md_id x = md_id m) (\<lambda>_. m) ms) = md_id ` set ms"
    by (induction ms) auto
  moreover have "md_id m \<in> md_id ` set ms" if "exists_where (\<lambda>x. md_id x = md_id m) ms"
    using that unfolding exists_where_iff by (metis imageI)
  ultimately show ?thesis by (auto simp: merge_model_def)
qed

lemma merge_models_ids: "md_id ` set (fold merge_model new ms) = md_id ` set new \<union> md_id ` set ms"
  by (induction new arbitrary: ms) (auto simp: merge_model_ids)

lemma provider_added_again:
  assumes "provider_load f = Inr ps" "distinct (map pv_name ps)" "q \<in> set ps" "pv_name q = pv_name p"
    "provider_add w p f = (Inr (), g)"
  shows "provider_find (pv_name p) g = Inr (Some (merge_provider p q)) \<and>
    md_id ` set (pv_models q) \<subseteq> md_id ` set (pv_models (merge_provider p q)) \<and>
    pv_secret_name (merge_provider p q) = pv_secret_name q"
proof -
  let ?us = "update_first (\<lambda>q. pv_name q = pv_name p) (merge_provider p) ps"
  have "exists_where (\<lambda>x. pv_name x = pv_name p) ps" using assms(3,4) by (auto simp: exists_where_iff)
  then have s: "provider_save w ?us = (Inr (), g)" using assms(1,5) by (simp add: provider_add_def)
  have nm: "pv_name (merge_provider p x) = pv_name x" for x by (simp add: merge_provider_def)
  have "distinct (map pv_name ?us)" using assms(2) nm by simp
  note d = find_distinct_rev [OF this]
  have "find (\<lambda>x. pv_name x = pv_name p) ps = Some q"
    using find_key_member [OF assms(2), of q] assms(3,4) by simp
  with providers.saved [OF s] d find_update_first [of pv_name "merge_provider p" "pv_name p" "pv_name p" ps] nm
  have "provider_find (pv_name p) g = Inr (Some (merge_provider p q))"
    by (auto simp: provider_find_def reg_find_def)
  then show ?thesis by (simp add: merge_provider_def merge_models_ids)
qed

end
