(* ===== verification/SelfHeal.thy ===== *)
theory SelfHeal
  imports Goals Scheduler Cooldown PoolKeys PoolClient
begin

text \<open>
  The self-heal pass, \<open>crates/single-runtime/src/self_heal.rs\<close> and its modules \<open>infra\<close>, \<open>coordinator\<close> and
  \<open>agent\<close>: a list of steps that each repair one thing, run in order, each with its panic caught. The state is
  what the steps read and write: the coordinator's tables, the pool's tables and keys, the socket, the files of
  the configuration directory and of the directory of the database. A directory is the list of its
  files by name, in the order \<open>read_dir\<close> gives. TOML, clocks, the key chain, probes over HTTP, the detection and
  the installation of agents are fields of \<open>heal_env\<close>; a moment is an \<open>int\<close> of nanoseconds.
\<close>

section \<open>State and environment\<close>

datatype category = Infra | CoordinatorCat | AgentCat

definition category_str :: "category \<Rightarrow> string" where
  "category_str c = (case c of Infra \<Rightarrow> ''infra'' | CoordinatorCat \<Rightarrow> ''coordinator'' | AgentCat \<Rightarrow> ''agent'')"

record categories =
  ct_infra :: bool
  ct_coordinator :: bool
  ct_agent :: bool

record heal_config =
  hc_categories :: categories
  hc_interval_secs :: nat
  hc_db_backup_interval_secs :: nat
  hc_blocked_reeval_minutes :: nat
  hc_max_auto_reevals :: nat
  hc_key_grace_hours :: nat

definition default_heal_config :: heal_config where
  "default_heal_config =
     \<lparr>hc_categories = \<lparr>ct_infra = True, ct_coordinator = True, ct_agent = False\<rparr>, hc_interval_secs = 300,
      hc_db_backup_interval_secs = 3600, hc_blocked_reeval_minutes = 30, hc_max_auto_reevals = 3,
      hc_key_grace_hours = 24\<rparr>"

record disk_file =
  fl_text :: string
  fl_mtime :: nat

type_synonym dir = "(string \<times> disk_file) list"

record heal_event =
  he_id :: int
  he_at :: string
  he_category :: string
  he_action :: string
  he_detail :: string
  he_ok :: int

record heal_action =
  ha_category :: category
  ha_action :: string
  ha_detail :: string
  ha_ok :: bool

record heal_state =
  hs_db :: coord_db
  hs_pool :: pool_db
  hs_keys :: "pool_key list"
  hs_socket :: bool
  hs_root :: dir
  hs_data :: dir
  hs_events :: "heal_event list"
  hs_seq :: int

record heal_env =
  en_ts :: string
  en_stamp :: string
  en_now :: int
  en_secs :: nat
  en_parse_time :: "string \<Rightarrow> int option"
  en_toml_ok :: "string \<Rightarrow> bool"
  en_parse_heal :: "string \<Rightarrow> heal_config option"
  en_print_heal :: "heal_config \<Rightarrow> string"
  en_parse_routing :: "string \<Rightarrow> routing_table option"
  en_print_routing :: "routing_table \<Rightarrow> string"
  en_parse_coord :: "string \<Rightarrow> coordinator_config option"
  en_print_coord :: "coordinator_config \<Rightarrow> string"
  en_kinds :: "routing_table \<Rightarrow> (string \<times> string) list"
  en_integrity :: "disk_file option \<Rightarrow> string result"
  en_live_socket :: bool
  en_root_exists :: bool
  en_readable :: "string \<Rightarrow> bool"
  en_path :: "string \<Rightarrow> string"
  en_io_error :: "string \<Rightarrow> string option"
  en_registry :: "(string \<times> bool) list"
  en_detected :: "string \<Rightarrow> bool option"
  en_logged_out :: "string \<Rightarrow> bool"
  en_install_enabled :: bool
  en_install :: "string \<Rightarrow> string result outcome"
  en_secret :: "string \<Rightarrow> string option"
  en_probe :: "string \<Rightarrow> string \<Rightarrow> bool"
  en_log_error :: "category \<Rightarrow> string \<Rightarrow> string option"

text \<open>\<open>en_kinds\<close> lists the keys of the nested \<open>BTreeMap\<close> of a routing table in order; \<open>en_registry\<close> names the agents
  and says which have an installer; \<open>en_detected\<close> is \<open>None\<close> for an agent without an adapter;
  \<open>en_io_error\<close> is the error of writing, copying to or removing a file, if there is one, and \<open>en_log_error\<close> that of
  inserting the row of an action into \<open>self_heal_events\<close> (a step has one action in a pass).\<close>

definition file_put :: "string \<Rightarrow> disk_file \<Rightarrow> dir \<Rightarrow> dir" where
  "file_put name f d =
     (if exists_where (\<lambda>e. fst e = name) d then update_where (\<lambda>e. fst e = name) (\<lambda>e. (name, f)) d else d @ [(name, f)])"

definition file_drop :: "string \<Rightarrow> dir \<Rightarrow> dir" where
  "file_drop name = delete_where (\<lambda>e. fst e = name)"

definition write_to :: "heal_env \<Rightarrow> string \<Rightarrow> string \<Rightarrow> string \<Rightarrow> dir \<Rightarrow> string + dir" where
  "write_to env what name text d =
     (case en_io_error env name of
        Some e \<Rightarrow> Inl (if what = [] then e else what @ '': '' @ e)
      | None \<Rightarrow> Inr (file_put name \<lparr>fl_text = text, fl_mtime = en_secs env\<rparr> d))"

section \<open>Configuration, events, steps\<close>

definition heal_config_load :: "heal_env \<Rightarrow> dir \<Rightarrow> heal_config \<times> dir" where
  "heal_config_load env d =
     (case map_of d ''self_heal.toml'' of
        Some f \<Rightarrow> (case en_parse_heal env (fl_text f) of Some c \<Rightarrow> c | None \<Rightarrow> default_heal_config, d)
      | None \<Rightarrow>
          (default_heal_config,
           case write_to env [] ''self_heal.toml'' (en_print_heal env default_heal_config) d of Inl _ \<Rightarrow> d | Inr d' \<Rightarrow> d'))"

definition set_category :: "category \<Rightarrow> bool \<Rightarrow> heal_config \<Rightarrow> heal_config" where
  "set_category c b cfg =
     cfg\<lparr>hc_categories := (case c of
         Infra \<Rightarrow> (hc_categories cfg)\<lparr>ct_infra := b\<rparr>
       | CoordinatorCat \<Rightarrow> (hc_categories cfg)\<lparr>ct_coordinator := b\<rparr>
       | AgentCat \<Rightarrow> (hc_categories cfg)\<lparr>ct_agent := b\<rparr>)\<rparr>"

definition disable_category :: "heal_env \<Rightarrow> category \<Rightarrow> dir \<Rightarrow> string result \<times> dir" where
  "disable_category env c d =
     (let (cfg, d) = heal_config_load env d
      in case write_to env [] ''self_heal.toml'' (en_print_heal env (set_category c False cfg)) d of
           Inl e \<Rightarrow> (Inl e, d)
         | Inr d' \<Rightarrow> (Inr [], d'))"

definition category_enabled :: "heal_config \<Rightarrow> category \<Rightarrow> bool" where
  "category_enabled cfg c =
     (case c of Infra \<Rightarrow> ct_infra (hc_categories cfg)
      | CoordinatorCat \<Rightarrow> ct_coordinator (hc_categories cfg)
      | AgentCat \<Rightarrow> ct_agent (hc_categories cfg))"

definition log_heal ::
    "string option \<Rightarrow> string \<Rightarrow> category \<Rightarrow> string \<Rightarrow> string \<Rightarrow> bool \<Rightarrow> heal_state \<Rightarrow> string result \<times> heal_state" where
  "log_heal insert_error ts c action detail ok s =
     (case insert_error of
        Some e \<Rightarrow> (Inl e, s)
      | None \<Rightarrow>
          (Inr [], s\<lparr>hs_events := hs_events s @ [\<lparr>he_id = hs_seq s + 1, he_at = ts, he_category = category_str c,
             he_action = action, he_detail = detail, he_ok = (if ok then 1 else 0)\<rparr>],
           hs_seq := hs_seq s + 1\<rparr>))"

definition recent_heal_events :: "nat \<Rightarrow> heal_state \<Rightarrow> heal_event list" where
  "recent_heal_events limit s = take limit (rev (hs_events s))"

type_synonym step = "heal_state \<Rightarrow> string result outcome \<times> heal_state"

definition panic_text :: "string option \<Rightarrow> string" where
  "panic_text msg = ''panicked: '' @ (case msg of Some m \<Rightarrow> m | None \<Rightarrow> ''panic (no message)'')"

text \<open>A panic carries its message; which one is open. The result of the insert into the log is ignored.\<close>

definition run_step ::
    "heal_env \<Rightarrow> string option \<Rightarrow> category \<Rightarrow> string \<Rightarrow> step \<Rightarrow> heal_action list \<times> heal_state \<Rightarrow> heal_action list \<times> heal_state" where
  "run_step env msg c action step rs =
     (let (report, s) = rs;
          (result, s) = step s;
          (ok, detail) = (case result of
             Ret (Inr d) \<Rightarrow> (True, d) | Ret (Inl e) \<Rightarrow> (False, e) | Panic \<Rightarrow> (False, panic_text msg))
      in (report @ [\<lparr>ha_category = c, ha_action = action, ha_detail = detail, ha_ok = ok\<rparr>],
          snd (log_heal (en_log_error env c action) (en_ts env) c action detail ok s)))"

section \<open>Infra\<close>

definition returns :: "string result \<Rightarrow> heal_state \<Rightarrow> string result outcome \<times> heal_state" where
  "returns r s = (Ret r, s)"

definition stale_socket :: "heal_env \<Rightarrow> step" where
  "stale_socket env s =
     (if \<not> hs_socket s then returns (Inr ''no socket file present'') s
      else if en_live_socket env then returns (Inr ''socket is live'') s
      else case en_io_error env ''runtime.sock'' of
             Some e \<Rightarrow> returns (Inl (''removing stale socket: '' @ e)) s
           | None \<Rightarrow> returns (Inr (''removed stale socket at '' @ en_path env ''runtime.sock'')) (s\<lparr>hs_socket := False\<rparr>))"

definition newest_backup :: "dir \<Rightarrow> string \<Rightarrow> string option" where
  "newest_backup d name =
     (case sort (filter (starts_with (name @ ''.bak-'')) (map fst d)) of [] \<Rightarrow> None | xs \<Rightarrow> Some (last xs))"

definition is_toml :: "string \<Rightarrow> bool" where
  "is_toml name \<longleftrightarrow> 5 < length name \<and> drop (length name - 5) name = ''.toml''"

definition copy_file :: "heal_env \<Rightarrow> string \<Rightarrow> string \<Rightarrow> string \<Rightarrow> dir \<Rightarrow> string + dir" where
  "copy_file env what from_name to_name d =
     (case map_of d from_name of
        None \<Rightarrow> Inl (what @ '': No such file or directory (os error 2)'')
      | Some f \<Rightarrow> write_to env what to_name (fl_text f) d)"

definition repair_config :: "heal_env \<Rightarrow> string \<Rightarrow> dir \<Rightarrow> string + (string option \<times> string option \<times> dir)" where
  "repair_config env name d =
     (case newest_backup d name of
        Some b \<Rightarrow>
          (case copy_file env (''restoring '' @ en_path env name @ '' from '' @ en_path env b) b name d of
             Inl e \<Rightarrow> Inl e
           | Inr d' \<Rightarrow> Inr (Some (name @ '' <- '' @ b), None, d'))
      | None \<Rightarrow>
          (let aside = name @ ''.corrupt-'' @ en_stamp env
           in case (en_io_error env aside, map_of d name) of
                (None, Some f) \<Rightarrow> Inr (None, Some name, file_put aside f (file_drop name d))
              | (Some e, _) \<Rightarrow> Inl (''moving aside corrupt '' @ en_path env name @ '': '' @ e)
              | (None, None) \<Rightarrow> Inl (''moving aside corrupt '' @ en_path env name @ '': No such file or directory (os error 2)'')))"

fun corrupt_loop ::
    "heal_env \<Rightarrow> string list \<Rightarrow> string list \<Rightarrow> string list \<Rightarrow> dir \<Rightarrow> (string + string list \<times> string list) \<times> dir" where
  "corrupt_loop env [] repaired moved d = (Inr (repaired, moved), d)"
| "corrupt_loop env (name # names) repaired moved d =
     (case map_of d name of
        None \<Rightarrow> corrupt_loop env names repaired moved d
      | Some f \<Rightarrow>
          if \<not> is_toml name \<or> \<not> en_readable env name \<or> en_toml_ok env (fl_text f)
          then corrupt_loop env names repaired moved d
          else case repair_config env name d of
                 Inl e \<Rightarrow> (Inl e, d)
               | Inr (r, m, d') \<Rightarrow>
                   corrupt_loop env names (repaired @ (case r of Some x \<Rightarrow> [x] | None \<Rightarrow> []))
                     (moved @ (case m of Some x \<Rightarrow> [x] | None \<Rightarrow> [])) d')"

definition corrupt_config :: "heal_env \<Rightarrow> step" where
  "corrupt_config env s =
     (if \<not> en_root_exists env then returns (Inr ''config directory does not exist yet'') s
      else case corrupt_loop env (map fst (hs_root s)) [] [] (hs_root s) of
             (Inl e, d) \<Rightarrow> returns (Inl e) (s\<lparr>hs_root := d\<rparr>)
           | (Inr (repaired, moved), d) \<Rightarrow>
               returns (Inr (if repaired = [] \<and> moved = [] then ''every *.toml parses cleanly''
                 else ''restored from backup: ['' @ str_join '', '' repaired @ ''];'' @
                   '' moved aside (no backup): ['' @ str_join '', '' moved @ '']'')) (s\<lparr>hs_root := d\<rparr>))"

definition not_restoring :: "string \<Rightarrow> string" where
  "not_restoring found =
     ''integrity_check failed ('' @ found @ ''); NOT restoring (other connections may be live) '' @
     [CHR 0xE2, CHR 0x80, CHR 0x94] @ '' restart the daemon to trigger the startup pass, '' @
     ''which will restore from the newest single.db.bak-* automatically''"

definition no_db_backup :: "string \<Rightarrow> string" where
  "no_db_backup found =
     ''integrity_check failed ('' @ found @ ''); no backup available '' @ [CHR 0xE2, CHR 0x80, CHR 0x94] @
     '' schema will re-seed additively on next ensure_schema call (history for this db may be lost)''"

definition db_integrity :: "heal_env \<Rightarrow> bool \<Rightarrow> step" where
  "db_integrity env allow_db_restore s =
     (case en_integrity env (map_of (hs_data s) ''single.db'') of
        Inl e \<Rightarrow> returns (Inl e) s
      | Inr found \<Rightarrow>
          if found = ''ok'' then returns (Inr ''integrity_check: ok'') s
          else if \<not> allow_db_restore then returns (Inr (not_restoring found)) s
          else case newest_backup (hs_data s) ''single.db'' of
                 Some b \<Rightarrow>
                   (case copy_file env ''restoring db from backup'' b ''single.db'' (hs_data s) of
                      Inl e \<Rightarrow> returns (Inl e) s
                    | Inr d \<Rightarrow> returns (Inr (''integrity_check failed ('' @ found @ ''); restored from '' @ en_path env b))
                        (s\<lparr>hs_data := d\<rparr>))
               | None \<Rightarrow> returns (Inr (no_db_backup found)) s)"

text \<open>The age of the newest backup, when its modification time can be read and is not in the future.\<close>

definition backup_age :: "heal_env \<Rightarrow> dir \<Rightarrow> nat option" where
  "backup_age env d =
     (case newest_backup d ''single.db'' of
        None \<Rightarrow> None
      | Some b \<Rightarrow>
          (case map_of d b of
             Some f \<Rightarrow> if fl_mtime f \<le> en_secs env then Some (en_secs env - fl_mtime f) else None
           | None \<Rightarrow> None))"

definition db_backup :: "heal_env \<Rightarrow> heal_config \<Rightarrow> step" where
  "db_backup env cfg s =
     (if map_of (hs_data s) ''single.db'' = None then returns (Inr ''no db file yet'') s
      else case Option.bind (backup_age env (hs_data s))
                  (\<lambda>a. if a < hc_db_backup_interval_secs cfg then Some a else None) of
             Some a \<Rightarrow> returns (Inr (''last backup '' @ dec_nat a @ ''s old, interval is '' @
               dec_nat (hc_db_backup_interval_secs cfg) @ ''s -- skipped'')) s
           | None \<Rightarrow>
               (let name = ''single.db.bak-'' @ en_stamp env
                in case copy_file env ''writing db backup'' ''single.db'' name (hs_data s) of
                     Inl e \<Rightarrow> returns (Inl e) s
                   | Inr d \<Rightarrow> returns (Inr (''wrote '' @ en_path env name)) (s\<lparr>hs_data := d\<rparr>)))"

definition undetected :: "heal_env \<Rightarrow> string \<Rightarrow> bool" where
  "undetected env a = (en_detected env a = Some False)"

definition dead_agent_binaries :: "heal_env \<Rightarrow> step" where
  "dead_agent_binaries env s =
     (let missing = map fst (filter (\<lambda>(a, installable). installable \<and> a \<noteq> ''single-pool'' \<and> undetected env a) (en_registry env))
      in returns (Inr (if missing = [] then ''every installable agent detected''
           else ''not detected: '' @ str_join '', '' missing)) s)"

fun probe_loop :: "heal_env \<Rightarrow> (string \<times> string \<times> string) list \<Rightarrow> nat \<Rightarrow> nat \<Rightarrow> pool_db \<Rightarrow> nat \<times> nat \<times> pool_db" where
  "probe_loop env [] cleared left db = (cleared, left, db)"
| "probe_loop env ((platform, model, key_id) # cs) cleared left db =
     (case by_id platform of
        None \<Rightarrow> probe_loop env cs cleared left db
      | Some provider \<Rightarrow>
          (case validate_url (quirks provider) of
             None \<Rightarrow> probe_loop env cs cleared (left + 1) db
           | Some path \<Rightarrow>
               (case en_secret env (secret_name platform key_id) of
                  None \<Rightarrow> probe_loop env cs cleared (left + 1) db
                | Some key \<Rightarrow>
                    if en_probe env (trim_end_slashes (base_url provider) @ path) key
                    then probe_loop env cs (cleared + 1) left (clear (Some key_id) db)
                    else probe_loop env cs cleared (left + 1) db)))"

definition probe_budget :: nat where
  "probe_budget = 3"

definition cooldown_probe :: "heal_env \<Rightarrow> step" where
  "cooldown_probe env s =
     (case probe_loop env (take probe_budget (heuristic_probe_candidates (timestamp_millis (en_now env)) (hs_pool s))) 0 0 (hs_pool s) of
        (cleared, left, db) \<Rightarrow>
          returns (Inr (dec_nat cleared @ '' cooldown(s) cleared early, '' @ dec_nat left @ '' still benched''))
            (s\<lparr>hs_pool := db\<rparr>))"

section \<open>Coordinator\<close>

definition HUMAN_EDIT_GRACE :: int where
  "HUMAN_EDIT_GRACE = 60 * 60 * 1000000000"

definition ROUTING_DRIFT_THRESHOLD :: nat where
  "ROUTING_DRIFT_THRESHOLD = 24 * 60 * 60"

definition recently_human_edited :: "heal_env \<Rightarrow> goal \<Rightarrow> bool" where
  "recently_human_edited env g =
     (case Option.bind (g_human_edit g) (en_parse_time env) of
        Some t \<Rightarrow> en_now env - t < HUMAN_EDIT_GRACE
      | None \<Rightarrow> False)"

definition reeval_reason :: "goal \<Rightarrow> bool" where
  "reeval_reason g =
     (let reason = unwrap_or (g_blocked_reason g) [] in contains_sub ''capacity'' reason \<or> contains_sub ''supervisor'' reason)"

definition blocked_age :: "heal_env \<Rightarrow> goal \<Rightarrow> int" where
  "blocked_age env g = num_minutes (en_now env - unwrap_or (en_parse_time env (g_updated_at g)) (en_now env))"

fun reeval_loop ::
    "heal_env \<Rightarrow> heal_config \<Rightarrow> goal list \<Rightarrow> string list \<Rightarrow> nat \<Rightarrow> nat \<Rightarrow> coord_db \<Rightarrow> (string + string list \<times> nat \<times> nat) \<times> coord_db" where
  "reeval_loop env cfg [] ids bounded human db = (Inr (ids, bounded, human), db)"
| "reeval_loop env cfg (g # gs) ids bounded human db =
     (if \<not> reeval_reason g then reeval_loop env cfg gs ids bounded human db
      else if blocked_age env g < int (hc_blocked_reeval_minutes cfg) then reeval_loop env cfg gs ids bounded human db
      else if recently_human_edited env g then reeval_loop env cfg gs ids bounded (human + 1) db
      else if g_auto_reevals g \<ge> hc_max_auto_reevals cfg then reeval_loop env cfg gs ids (bounded + 1) human db
      else case reevaluate_blocked (en_ts env) (g_id g) db of
             (Inl e, db) \<Rightarrow> (Inl e, db)
           | (Inr _, db) \<Rightarrow> reeval_loop env cfg gs (ids @ [g_id g]) bounded human db)"

definition reeval_blocked_goals :: "heal_env \<Rightarrow> heal_config \<Rightarrow> step" where
  "reeval_blocked_goals env cfg s =
     (case reeval_loop env cfg (list_by_status GsBlocked (hs_db s)) [] 0 0 (hs_db s) of
        (Inl e, db) \<Rightarrow> returns (Inl e) (s\<lparr>hs_db := db\<rparr>)
      | (Inr (ids, bounded, human), db) \<Rightarrow>
          returns (Inr (''reevaluated: ['' @ str_join '', '' ids @ '']; bounded-out: '' @ dec_nat bounded @
            ''; human-edited (skipped): '' @ dec_nat human)) (s\<lparr>hs_db := db\<rparr>))"

definition gives_up :: "node \<Rightarrow> bool" where
  "gives_up n \<longleftrightarrow> nstatus n = NsFailed \<and> 2 \<le> nattempts n"

fun reroute_loop :: "heal_env \<Rightarrow> goal list \<Rightarrow> string list \<Rightarrow> coord_db \<Rightarrow> string list \<times> coord_db" where
  "reroute_loop env [] rerouted db = (rerouted, db)"
| "reroute_loop env (g # gs) rerouted db =
     (if recently_human_edited env g then reroute_loop env gs rerouted db
      else (let ids = map nid (filter gives_up (load_graph (g_id g) db))
            in reroute_loop env gs (rerouted @ map (\<lambda>i. g_id g @ ''/'' @ i) ids)
                 (fold (clear_node_agent_pin (g_id g)) ids db)))"

definition reroute_repeated_failures :: "heal_env \<Rightarrow> step" where
  "reroute_repeated_failures env s =
     (case reroute_loop env (active_goals (hs_db s) @ list_by_status GsBlocked (hs_db s)) [] (hs_db s) of
        (rerouted, db) \<Rightarrow> returns (Inr (''rerouted: ['' @ str_join '', '' rerouted @ '']'')) (s\<lparr>hs_db := db\<rparr>))"

definition load_or_write :: "heal_env \<Rightarrow> string \<Rightarrow> (string \<Rightarrow> 'a option) \<Rightarrow> ('a \<Rightarrow> string) \<Rightarrow> 'a \<Rightarrow> dir \<Rightarrow> 'a \<times> dir" where
  "load_or_write env name parse print d0 d =
     (case (map_of d name, en_readable env name) of
        (Some f, True) \<Rightarrow> (case parse (fl_text f) of Some v \<Rightarrow> v | None \<Rightarrow> d0, d)
      | _ \<Rightarrow> (d0, case write_to env [] name (print d0) d of Inl _ \<Rightarrow> d | Inr d' \<Rightarrow> d'))"

definition routing_load :: "heal_env \<Rightarrow> dir \<Rightarrow> routing_table \<times> dir" where
  "routing_load env = load_or_write env ''routing.toml'' (en_parse_routing env) (en_print_routing env) default_table"

definition coordinator_config_load :: "heal_env \<Rightarrow> dir \<Rightarrow> coordinator_config \<times> dir" where
  "coordinator_config_load env =
     load_or_write env ''coordinator.toml'' (en_parse_coord env) (en_print_coord env) default_config"

text \<open>The backup and the write of a file that is changed in place.\<close>

definition rewrite_with_backup :: "heal_env \<Rightarrow> string \<Rightarrow> string \<Rightarrow> dir \<Rightarrow> string result \<times> dir" where
  "rewrite_with_backup env name text d =
     (case copy_file env (''backing up '' @ name) name (name @ ''.bak-'' @ en_stamp env) d of
        Inl e \<Rightarrow> (Inl e, d)
      | Inr d1 \<Rightarrow> (case write_to env (''writing '' @ name) name text d1 of Inl e \<Rightarrow> (Inl e, d1) | Inr d2 \<Rightarrow> (Inr [], d2)))"

definition never_shelled :: "string \<Rightarrow> bool" where
  "never_shelled a \<longleftrightarrow> a = ''single-pool'' \<or> starts_with ''single-'' a"

definition routable :: "heal_env \<Rightarrow> string \<Rightarrow> bool" where
  "routable env a \<longleftrightarrow> never_shelled a \<or> en_detected env a = Some True"

definition agents_at :: "routing_table \<Rightarrow> string \<times> string \<Rightarrow> string list" where
  "agents_at t = (\<lambda>(k, e). unwrap_or (Option.bind (kinds t k) (\<lambda>m. m e)) [])"

definition drop_undetected :: "heal_env \<Rightarrow> routing_table \<Rightarrow> routing_table" where
  "drop_undetected env t =
     t\<lparr>kinds := (\<lambda>k. map_option (\<lambda>m e. map_option (filter (routable env)) (m e)) (kinds t k))\<rparr>"

definition routing_toml_drift :: "heal_env \<Rightarrow> step" where
  "routing_toml_drift env s =
     (case map_of (hs_root s) ''routing.toml'' of
        None \<Rightarrow> returns (Inr ''routing.toml does not exist yet'') s
      | Some f \<Rightarrow>
          if fl_mtime f > en_secs env \<or> en_secs env - fl_mtime f < ROUTING_DRIFT_THRESHOLD
          then returns (Inr ''routing.toml modified too recently to touch (< 24h)'') s
          else
            (let (table, d) = routing_load env (hs_root s);
                 removed = concat (map (\<lambda>ke. filter (\<lambda>a. \<not> routable env a) (agents_at table ke)) (en_kinds env table))
             in if removed = [] then returns (Inr ''no undetected agents in routing.toml'') (s\<lparr>hs_root := d\<rparr>)
                else case rewrite_with_backup env ''routing.toml'' (en_print_routing env (drop_undetected env table)) d of
                       (Inl e, d) \<Rightarrow> returns (Inl e) (s\<lparr>hs_root := d\<rparr>)
                     | (Inr _, d) \<Rightarrow> returns (Inr (''removed undetected agent(s) from routing.toml: '' @ str_join '', '' removed))
                         (s\<lparr>hs_root := d\<rparr>)))"

definition sane_config :: "coordinator_config \<Rightarrow> coordinator_config" where
  "sane_config cfg =
     cfg\<lparr>max_parallel := (if max_parallel cfg = 0 then max_parallel default_config else max_parallel cfg),
         max_goal_minutes := (if max_goal_minutes cfg < 1 then max_goal_minutes default_config else max_goal_minutes cfg)\<rparr>"

definition coordinator_toml_sanity :: "heal_env \<Rightarrow> step" where
  "coordinator_toml_sanity env s =
     (if map_of (hs_root s) ''coordinator.toml'' = None then returns (Inr ''coordinator.toml does not exist yet'') s
      else
        (let (cfg, d) = coordinator_config_load env (hs_root s);
             fixed = (if max_parallel cfg = 0 then [''max_parallel''] else []) @
               (if max_goal_minutes cfg < 1 then [''max_goal_minutes''] else [])
         in if fixed = [] then returns (Inr ''coordinator.toml values are sane'') (s\<lparr>hs_root := d\<rparr>)
            else case rewrite_with_backup env ''coordinator.toml'' (en_print_coord env (sane_config cfg)) d of
                   (Inl e, d) \<Rightarrow> returns (Inl e) (s\<lparr>hs_root := d\<rparr>)
                 | (Inr _, d) \<Rightarrow> returns (Inr (''reset to defaults: '' @ str_join '', '' fixed)) (s\<lparr>hs_root := d\<rparr>)))"

section \<open>Agents\<close>

definition missing_routable_agents :: "heal_env \<Rightarrow> routing_table \<Rightarrow> string list" where
  "missing_routable_agents env table =
     filter (undetected env)
       (filter (\<lambda>a. (a, True) \<in> set (en_registry env))
         (filter (\<lambda>a. \<not> never_shelled a)
           (sort (remdups (fallback_default table @ concat (map (agents_at table) (en_kinds env table)))))))"

fun install_loop :: "heal_env \<Rightarrow> string list \<Rightarrow> string list \<Rightarrow> string list outcome" where
  "install_loop env [] results = Ret results"
| "install_loop env (a # more_agents) results =
     (case en_install env a of
        Panic \<Rightarrow> Panic
      | Ret (Inr text) \<Rightarrow> install_loop env more_agents (results @ [a @ '': '' @ text])
      | Ret (Inl e) \<Rightarrow> install_loop env more_agents (results @ [a @ '': error ('' @ e @ '')'']))"

definition missing_agent_install :: "heal_env \<Rightarrow> step" where
  "missing_agent_install env s =
     (if \<not> en_install_enabled env then returns (Inr ''SINGLE_SELF_HEAL_AGENT_INSTALL=0 -- skipped'') s
      else
        (let (table, d) = routing_load env (hs_root s); s = s\<lparr>hs_root := d\<rparr>
         in case missing_routable_agents env table of
              [] \<Rightarrow> returns (Inr ''every routable agent is already installed'') s
            | missing \<Rightarrow>
                (case install_loop env missing [] of
                   Panic \<Rightarrow> (Panic, s)
                 | Ret results \<Rightarrow> returns (Inr (str_join ''; '' results)) s)))"

definition auth_repair :: "heal_env \<Rightarrow> step" where
  "auth_repair env s =
     (let out = filter (\<lambda>a. en_detected env a = Some True \<and> en_logged_out env a) (map fst (en_registry env))
      in returns (Inr (if out = [] then ''every detected agent with checkable auth is logged in''
           else ''needs login (not auto-attempted, headless): '' @
             str_join ''; '' (map (\<lambda>a. ''agent '' @ a @ '' needs `single agent login '' @ a @ ''`'') out))) s)"

definition hours :: "nat \<Rightarrow> int" where
  "hours h = int h * 3600 * 1000000000"

definition past_grace :: "heal_env \<Rightarrow> heal_config \<Rightarrow> pool_key \<Rightarrow> bool" where
  "past_grace env cfg k \<longleftrightarrow>
     \<not> pk_disabled k \<and> \<not> pk_valid k \<and>
     (case Option.bind (pk_last_validated_at k) (en_parse_time env) of
        None \<Rightarrow> False
      | Some t \<Rightarrow> hours (hc_key_grace_hours cfg) \<le> en_now env - t)"

definition stale_pool_key_disable :: "heal_env \<Rightarrow> heal_config \<Rightarrow> step" where
  "stale_pool_key_disable env cfg s =
     (let stale = filter (past_grace env cfg) (list_keys None (hs_keys s));
          s = s\<lparr>hs_keys := fold (\<lambda>k. disable_key (pk_platform k) (pk_key_id k)) stale (hs_keys s)\<rparr>
      in returns (Inr (if stale = [] then ''no pool key past its validation grace period''
           else ''auto-disabled: '' @ str_join '', '' (map (\<lambda>k. pk_platform k @ '':'' @ pk_key_id k) stale))) s)"

section \<open>The pass\<close>

definition infra_steps :: "heal_env \<Rightarrow> heal_config \<Rightarrow> bool \<Rightarrow> (string \<times> step) list" where
  "infra_steps env cfg allow_db_restore =
     [(''stale_socket'', stale_socket env), (''corrupt_config'', corrupt_config env),
      (''db_integrity'', db_integrity env allow_db_restore), (''db_backup'', db_backup env cfg),
      (''dead_agent_binaries'', dead_agent_binaries env), (''cooldown_probe'', cooldown_probe env)]"

definition coordinator_steps :: "heal_env \<Rightarrow> heal_config \<Rightarrow> (string \<times> step) list" where
  "coordinator_steps env cfg =
     [(''reeval_blocked_goals'', reeval_blocked_goals env cfg),
      (''reroute_repeated_failures'', reroute_repeated_failures env),
      (''routing_toml_drift'', routing_toml_drift env),
      (''coordinator_toml_sanity'', coordinator_toml_sanity env)]"

definition agent_steps :: "heal_env \<Rightarrow> heal_config \<Rightarrow> (string \<times> step) list" where
  "agent_steps env cfg =
     [(''missing_agent_install'', missing_agent_install env), (''auth_repair'', auth_repair env),
      (''stale_pool_key_disable'', stale_pool_key_disable env cfg)]"

text \<open>\<open>run\<close> of a category: its steps one after the other.\<close>

definition run_steps ::
    "heal_env \<Rightarrow> string option \<Rightarrow> category \<Rightarrow> (string \<times> step) list \<Rightarrow> heal_action list \<times> heal_state \<Rightarrow> heal_action list \<times> heal_state" where
  "run_steps env msg c steps rs = fold (\<lambda>(action, st). run_step env msg c action st) steps rs"

definition wants :: "heal_config \<Rightarrow> category option \<Rightarrow> category \<Rightarrow> bool" where
  "wants cfg category_filter c \<longleftrightarrow> (category_filter = None \<or> category_filter = Some c) \<and> category_enabled cfg c"

definition run_category ::
    "heal_env \<Rightarrow> string option \<Rightarrow> heal_config \<Rightarrow> category option \<Rightarrow> category \<Rightarrow> (string \<times> step) list \<Rightarrow>
     heal_action list \<times> heal_state \<Rightarrow> heal_action list \<times> heal_state" where
  "run_category env msg cfg category_filter c steps rs =
     (if wants cfg category_filter c then run_steps env msg c steps rs else rs)"

definition run_pass_with_restore ::
    "heal_env \<Rightarrow> string option \<Rightarrow> category option \<Rightarrow> bool \<Rightarrow> heal_state \<Rightarrow> heal_action list \<times> heal_state" where
  "run_pass_with_restore env msg category_filter allow_db_restore s =
     (case heal_config_load env (hs_root s) of
        (cfg, d) \<Rightarrow>
          run_category env msg cfg category_filter AgentCat (agent_steps env cfg)
            (run_category env msg cfg category_filter CoordinatorCat (coordinator_steps env cfg)
              (run_category env msg cfg category_filter Infra (infra_steps env cfg allow_db_restore) ([], s\<lparr>hs_root := d\<rparr>))))"

definition run_pass :: "heal_env \<Rightarrow> string option \<Rightarrow> category option \<Rightarrow> heal_state \<Rightarrow> heal_action list \<times> heal_state" where
  "run_pass env msg category_filter = run_pass_with_restore env msg category_filter False"

section \<open>Every step is reported\<close>

lemma returns_simps [simp]: "fst (returns r s) = Ret r" "snd (returns r s) = s"
  by (simp_all add: returns_def)

definition quiet_step :: "step \<Rightarrow> bool" where
  "quiet_step st \<longleftrightarrow> (\<forall>s. hs_events (snd (st s)) = hs_events s \<and> hs_seq (snd (st s)) = hs_seq s)"

lemmas infra_step_defs = stale_socket_def corrupt_config_def db_integrity_def db_backup_def dead_agent_binaries_def
  cooldown_probe_def

lemmas coordinator_step_defs = reeval_blocked_goals_def reroute_repeated_failures_def routing_toml_drift_def
  coordinator_toml_sanity_def

lemmas agent_step_defs = missing_agent_install_def auth_repair_def stale_pool_key_disable_def

lemma quiet_infra: "list_all (\<lambda>(a, st). quiet_step st) (infra_steps env cfg r)"
  by (auto simp: infra_steps_def quiet_step_def infra_step_defs Let_def split: prod.split option.split sum.split)

lemma quiet_coordinator: "list_all (\<lambda>(a, st). quiet_step st) (coordinator_steps env cfg)"
  by (auto simp: coordinator_steps_def quiet_step_def coordinator_step_defs Let_def split: prod.split option.split sum.split)

lemma quiet_agent: "list_all (\<lambda>(a, st). quiet_step st) (agent_steps env cfg)"
  by (auto simp: agent_steps_def quiet_step_def agent_step_defs Let_def split: prod.split option.split sum.split outcome.split list.split)

text \<open>What a row of the log and an action of the report have in common.\<close>

definition event_view :: "heal_event \<Rightarrow> string \<times> string \<times> string \<times> bool" where
  "event_view e = (he_category e, he_action e, he_detail e, he_ok e \<noteq> 0)"

definition action_view :: "heal_action \<Rightarrow> string \<times> string \<times> string \<times> bool" where
  "action_view a = (category_str (ha_category a), ha_action a, ha_detail a, ha_ok a)"

definition logs :: "heal_env \<Rightarrow> heal_action \<Rightarrow> bool" where
  "logs env a \<longleftrightarrow> en_log_error env (ha_category a) (ha_action a) = None"

definition reported :: "heal_env \<Rightarrow> (category \<times> string) list \<Rightarrow> heal_action list \<times> heal_state \<Rightarrow> heal_action list \<times> heal_state \<Rightarrow> bool" where
  "reported env names rs rs' \<longleftrightarrow> (\<exists>acts evs. fst rs' = fst rs @ acts \<and> hs_events (snd rs') = hs_events (snd rs) @ evs \<and>
     map (\<lambda>a. (ha_category a, ha_action a)) acts = names \<and> map event_view evs = map action_view (filter (logs env) acts))"

lemma reported_refl: "reported env [] rs rs"
  by (simp add: reported_def)

lemma reported_trans: "reported env ns rs rs' \<Longrightarrow> reported env ms rs' rs'' \<Longrightarrow> reported env (ns @ ms) rs rs''"
proof -
  assume "reported env ns rs rs'" "reported env ms rs' rs''"
  then obtain a1 e1 a2 e2 where "fst rs' = fst rs @ a1" "hs_events (snd rs') = hs_events (snd rs) @ e1"
    "map (\<lambda>a. (ha_category a, ha_action a)) a1 = ns" "map event_view e1 = map action_view (filter (logs env) a1)"
    "fst rs'' = fst rs' @ a2" "hs_events (snd rs'') = hs_events (snd rs') @ e2"
    "map (\<lambda>a. (ha_category a, ha_action a)) a2 = ms" "map event_view e2 = map action_view (filter (logs env) a2)"
    unfolding reported_def by blast
  then show ?thesis unfolding reported_def by (intro exI [of _ "a1 @ a2"] exI [of _ "e1 @ e2"]) simp
qed

lemma run_step_reported:
  assumes "quiet_step st"
  shows "reported env [(c, action)] rs (run_step env msg c action st rs)"
proof -
  obtain report s where rs: "rs = (report, s)" by (cases rs)
  obtain result s' where st: "st s = (result, s')" by (cases "st s")
  have q: "hs_events s' = hs_events s" using assms st unfolding quiet_step_def by (metis snd_conv)
  obtain ok detail where d: "(case result of Ret (Inr d) \<Rightarrow> (True, d) | Ret (Inl e) \<Rightarrow> (False, e) | Panic \<Rightarrow> (False, panic_text msg)) = (ok, detail)"
    by (cases "case result of Ret (Inr d) \<Rightarrow> (True, d) | Ret (Inl e) \<Rightarrow> (False, e) | Panic \<Rightarrow> (False, panic_text msg)")
  show ?thesis
    by (simp add: reported_def run_step_def rs st d log_heal_def q logs_def event_view_def action_view_def split: option.split)
qed

lemma run_steps_reported:
  "list_all (\<lambda>(a, st). quiet_step st) steps \<Longrightarrow> reported env (map (\<lambda>(a, st). (c, a)) steps) rs (run_steps env msg c steps rs)"
proof (induction steps arbitrary: rs)
  case Nil
  then show ?case by (simp add: run_steps_def reported_refl)
next
  case (Cons x steps)
  obtain a st where x: "x = (a, st)" by (cases x)
  from Cons.prems x have "reported env [(c, a)] rs (run_step env msg c a st rs)" by (intro run_step_reported) simp
  moreover have "reported env (map (\<lambda>(a, st). (c, a)) steps) (run_step env msg c a st rs) (run_steps env msg c steps (run_step env msg c a st rs))"
    using Cons by (auto simp: x)
  ultimately show ?case using reported_trans by (fastforce simp: x run_steps_def)
qed

definition planned :: "heal_config \<Rightarrow> category option \<Rightarrow> (category \<times> string) list" where
  "planned cfg category_filter =
     (if wants cfg category_filter Infra
      then map (Pair Infra) [''stale_socket'', ''corrupt_config'', ''db_integrity'', ''db_backup'', ''dead_agent_binaries'', ''cooldown_probe'']
      else []) @
     (if wants cfg category_filter CoordinatorCat
      then map (Pair CoordinatorCat) [''reeval_blocked_goals'', ''reroute_repeated_failures'', ''routing_toml_drift'', ''coordinator_toml_sanity'']
      else []) @
     (if wants cfg category_filter AgentCat
      then map (Pair AgentCat) [''missing_agent_install'', ''auth_repair'', ''stale_pool_key_disable''] else [])"

lemma planned_steps:
  "planned cfg flt =
     (if wants cfg flt Infra then map (\<lambda>(a, st). (Infra, a)) (infra_steps env cfg r) else []) @
     (if wants cfg flt CoordinatorCat then map (\<lambda>(a, st). (CoordinatorCat, a)) (coordinator_steps env cfg) else []) @
     (if wants cfg flt AgentCat then map (\<lambda>(a, st). (AgentCat, a)) (agent_steps env cfg) else [])"
  by (simp add: planned_def infra_steps_def coordinator_steps_def agent_steps_def)

text \<open>C37: whatever a step does, be it an error or a panic, the pass runs all steps of the enabled categories in their order
  and its report has exactly one action for each; the log gets one row, with the same outcome and in the same order, for
  exactly the actions whose insert succeeds, since a failed insert is ignored; a disabled category runs nothing.\<close>

theorem pass_reports_every_step:
  "\<exists>evs. map (\<lambda>a. (ha_category a, ha_action a)) (fst (run_pass_with_restore env msg flt r s)) =
      planned (fst (heal_config_load env (hs_root s))) flt \<and>
    hs_events (snd (run_pass_with_restore env msg flt r s)) = hs_events s @ evs \<and>
    map event_view evs = map action_view (filter (\<lambda>a. en_log_error env (ha_category a) (ha_action a) = None)
      (fst (run_pass_with_restore env msg flt r s)))"
proof -
  obtain cfg d where cfg: "heal_config_load env (hs_root s) = (cfg, d)" by (cases "heal_config_load env (hs_root s)")
  have step: "reported env (if wants cfg flt c then map (\<lambda>(a, st). (c, a)) steps else []) rs (run_category env msg cfg flt c steps rs)"
    if "list_all (\<lambda>(a, st). quiet_step st) steps" for c steps rs
    using run_steps_reported [OF that] by (simp add: run_category_def reported_refl)
  have "reported env (planned cfg flt) ([], s\<lparr>hs_root := d\<rparr>) (run_pass_with_restore env msg flt r s)"
    unfolding planned_steps [of _ _ env r] run_pass_with_restore_def cfg prod.case
    by (intro reported_trans [OF step [OF quiet_infra]] reported_trans [OF step [OF quiet_coordinator]] step [OF quiet_agent])
  then show ?thesis by (auto simp: reported_def cfg logs_def [abs_def])
qed

section \<open>What a pass may do to goals and nodes\<close>

definition eligible :: "heal_env \<Rightarrow> heal_config \<Rightarrow> goal \<Rightarrow> bool" where
  "eligible env cfg g \<longleftrightarrow> reeval_reason g \<and> int (hc_blocked_reeval_minutes cfg) \<le> blocked_age env g \<and>
     \<not> recently_human_edited env g \<and> g_auto_reevals g < hc_max_auto_reevals cfg"

definition reevaluated :: "string \<Rightarrow> goal_row \<Rightarrow> goal_row" where
  "reevaluated ts r = r\<lparr>g_status := ''running'', g_blocked_reason := None,
     g_auto_reevals := g_auto_reevals r + 1, g_updated_at := ts\<rparr>"

lemma reevaluate_blocked_ok:
  assumes "i \<in> g_id ` set (db_goals db)"
  shows "\<exists>k. reevaluate_blocked ts i db = (Inr k, db\<lparr>db_goals := update_where (\<lambda>r. g_id r = i) (reevaluated ts) (db_goals db)\<rparr>)"
proof -
  have u: "goal_upd i (\<lambda>r. r\<lparr>g_status := ''running'', g_blocked_reason := None, g_auto_reevals := g_auto_reevals r + 1,
      g_updated_at := ts\<rparr>) db = db\<lparr>db_goals := update_where (\<lambda>r. g_id r = i) (reevaluated ts) (db_goals db)\<rparr>" (is "?u = ?db")
    by (simp add: goal_upd_def reevaluated_def [abs_def])
  have "find (\<lambda>r. g_id r = i) (db_goals ?db) \<noteq> None"
    using assms by (auto simp: find_None_iff set_update_where reevaluated_def)
  then obtain r where "goal_row i ?db = Some r" by (auto simp: goal_row_def)
  then have "read_counter g_auto_reevals i ?u = Inr (g_auto_reevals r)" unfolding read_counter_def u by simp
  then show ?thesis unfolding reevaluate_blocked_def Let_def u by blast
qed

lemma reeval_loop_goals:
  assumes "\<forall>g \<in> set gs. g_id g \<in> g_id ` set (db_goals db)" "distinct (map g_id gs)"
  shows "\<exists>res. reeval_loop env cfg gs ids b h db = (Inr res,
    db\<lparr>db_goals := map (\<lambda>r. if g_id r \<in> g_id ` {g \<in> set gs. eligible env cfg g} then reevaluated (en_ts env) r else r) (db_goals db)\<rparr>)"
  using assms
proof (induction gs arbitrary: ids b h db)
  case Nil
  then show ?case by simp
next
  case (Cons g gs)
  show ?case
  proof (cases "eligible env cfg g")
    case False
    then have "\<exists>ids b' h'. reeval_loop env cfg (g # gs) ids0 b0 h0 db = reeval_loop env cfg gs ids b' h' db" for ids0 b0 h0
      by (auto simp: eligible_def not_less)
    then obtain ids' b' h' where eq: "reeval_loop env cfg (g # gs) ids b h db = reeval_loop env cfg gs ids' b' h' db" by blast
    have "{x \<in> set (g # gs). eligible env cfg x} = {x \<in> set gs. eligible env cfg x}" using False by auto
    then show ?thesis unfolding eq using Cons.IH [of db ids' b' h'] Cons.prems by simp
  next
    case True
    from reevaluate_blocked_ok [of "g_id g" db "en_ts env"] Cons.prems obtain k where
      k: "reevaluate_blocked (en_ts env) (g_id g) db =
        (Inr k, db\<lparr>db_goals := update_where (\<lambda>r. g_id r = g_id g) (reevaluated (en_ts env)) (db_goals db)\<rparr>)" by auto
    let ?db = "db\<lparr>db_goals := update_where (\<lambda>r. g_id r = g_id g) (reevaluated (en_ts env)) (db_goals db)\<rparr>"
    have eq: "reeval_loop env cfg (g # gs) ids b h db = reeval_loop env cfg gs (ids @ [g_id g]) b h ?db"
      using True k by (simp add: eligible_def not_less)
    have ids: "map g_id (db_goals ?db) = map g_id (db_goals db)" by (simp add: update_where_def reevaluated_def)
    then have "g_id ` set (db_goals ?db) = g_id ` set (db_goals db)" by (metis list.set_map)
    with Cons.prems Cons.IH [of ?db "ids @ [g_id g]" b h] obtain res where
      res: "reeval_loop env cfg gs (ids @ [g_id g]) b h ?db = (Inr res, ?db\<lparr>db_goals :=
        map (\<lambda>r. if g_id r \<in> g_id ` {g \<in> set gs. eligible env cfg g} then reevaluated (en_ts env) r else r) (db_goals ?db)\<rparr>)" by auto
    have notin: "g_id g \<notin> g_id ` {x \<in> set gs. eligible env cfg x}" using Cons.prems(2) by auto
    have "map (\<lambda>r. if g_id r \<in> g_id ` {g \<in> set gs. eligible env cfg g} then reevaluated (en_ts env) r else r) (db_goals ?db) =
      map (\<lambda>r. if g_id r \<in> g_id ` {x \<in> set (g # gs). eligible env cfg x} then reevaluated (en_ts env) r else r) (db_goals db)"
      using True notin by (auto simp: update_where_def reevaluated_def)
    then show ?thesis unfolding eq res by (intro exI [of _ res]) simp
  qed
qed

definition edited_row :: "heal_env \<Rightarrow> goal_row \<Rightarrow> bool" where
  "edited_row env r = recently_human_edited env (row_to_goal r)"

lemma row_to_goal_keeps [simp]: "g_id (row_to_goal r) = g_id r" "g_human_edit (row_to_goal r) = g_human_edit r"
  "g_auto_reevals (row_to_goal r) = g_auto_reevals r"
  by (simp_all add: row_to_goal_def)

text \<open>What a pass may make of a goal: nothing, or it was blocked, nobody edited it within the hour and its
  allowance of automatic reevaluations is not used up, and it runs again.\<close>

definition goal_kept :: "heal_env \<Rightarrow> heal_config \<Rightarrow> goal_row \<Rightarrow> goal_row \<Rightarrow> bool" where
  "goal_kept env cfg r r' \<longleftrightarrow> r' = r \<or>
     \<not> edited_row env r \<and> g_status r = ''blocked'' \<and> g_auto_reevals r < hc_max_auto_reevals cfg \<and>
     r' = reevaluated (en_ts env) r"

text \<open>And of a node: nothing, or it had failed twice, in a goal that nobody edited within the hour, and is pending
  without a pinned agent.\<close>

definition node_kept :: "string set \<Rightarrow> node_row \<Rightarrow> node_row \<Rightarrow> bool" where
  "node_kept edited n n' \<longleftrightarrow> n' = n \<or>
     nr_goal n \<notin> edited \<and> nr_status n = ''failed'' \<and> 2 \<le> nr_attempts n \<and> n' = n\<lparr>nr_agent := '''', nr_status := ''pending''\<rparr>"

lemma reeval_goals_kept:
  assumes "distinct (map g_id (db_goals (hs_db s)))"
  shows "list_all2 (goal_kept env cfg) (db_goals (hs_db s)) (db_goals (hs_db (snd (reeval_blocked_goals env cfg s)))) \<and>
    db_nodes (hs_db (snd (reeval_blocked_goals env cfg s))) = db_nodes (hs_db s)"
proof -
  let ?db = "hs_db s"
  let ?gs = "list_by_status GsBlocked ?db"
  let ?rows = "sort_key g_created_at (filter (\<lambda>r. g_status r = goal_status_str GsBlocked) (db_goals ?db))"
  have gs: "?gs = map row_to_goal ?rows" by (simp add: list_by_status_def)
  have "distinct (map g_id (filter (\<lambda>r. g_status r = goal_status_str GsBlocked) (db_goals ?db)))"
    using assms by (simp add: distinct_map_filter)
  then have "distinct (map g_id ?gs)" unfolding gs by (simp add: comp_def distinct_map distinct_sort)
  moreover have "\<forall>g \<in> set ?gs. g_id g \<in> g_id ` set (db_goals ?db)" unfolding gs by auto
  ultimately obtain res where res: "reeval_loop env cfg ?gs [] 0 0 ?db = (Inr res,
    ?db\<lparr>db_goals := map (\<lambda>r. if g_id r \<in> g_id ` {g \<in> set ?gs. eligible env cfg g} then reevaluated (en_ts env) r else r) (db_goals ?db)\<rparr>)"
    using reeval_loop_goals by blast
  have "goal_kept env cfg r (if g_id r \<in> g_id ` {g \<in> set ?gs. eligible env cfg g} then reevaluated (en_ts env) r else r)"
    if r: "r \<in> set (db_goals ?db)" for r
  proof (cases "g_id r \<in> g_id ` {g \<in> set ?gs. eligible env cfg g}")
    case True
    then obtain q where q: "q \<in> set (db_goals ?db)" "g_status q = goal_status_str GsBlocked" "g_id q = g_id r"
      "eligible env cfg (row_to_goal q)" unfolding gs by auto
    then have "q = r" using assms r by (metis inj_onD distinct_map)
    with q True show ?thesis by (auto simp: goal_kept_def eligible_def edited_row_def)
  qed (simp add: goal_kept_def)
  then show ?thesis
    by (cases res) (simp add: reeval_blocked_goals_def res list_all2_map2 list_all2_same split: prod.split)
qed

lemma fold_clear_pin:
  "fold (clear_node_agent_pin g) ids db =
     db\<lparr>db_nodes := map (\<lambda>n. if nr_goal n = g \<and> nr_id n \<in> set ids then n\<lparr>nr_agent := '''', nr_status := ''pending''\<rparr> else n) (db_nodes db)\<rparr>"
proof (induction ids arbitrary: db)
  case (Cons i ids)
  show ?case unfolding fold_simps comp_apply Cons.IH
    by (auto simp: clear_node_agent_pin_def node_upd_def update_where_def nr_key_def intro!: arg_cong [where f = "\<lambda>x. db\<lparr>db_nodes := x\<rparr>"])
qed simp

lemma failed_status: "parse_or node_status_parse NsPending t = NsFailed \<Longrightarrow> t = ''failed''"
  by (auto simp: parse_or_def node_status_parse_def node_status.parse_Inr split: sum.splits)

lemma node_kept_trans:
  "node_kept E n n' \<Longrightarrow> node_kept E n' n'' \<Longrightarrow> node_kept E n n''"
  by (auto simp: node_kept_def)

lemma nodes_kept_trans:
  "list_all2 (node_kept E) ns ns' \<Longrightarrow> list_all2 (node_kept E) ns' ns'' \<Longrightarrow> list_all2 (node_kept E) ns ns''"
  by (rule list_all2_trans [OF node_kept_trans])

lemma node_kept_keys: "list_all2 (node_kept E) ns ns' \<Longrightarrow> map nr_key ns' = map nr_key ns"
  by (induction rule: list_all2_induct) (auto simp: node_kept_def nr_key_def)

lemma reroute_loop_nodes:
  assumes "distinct (map nr_key (db_nodes db))" "\<forall>g \<in> set gs. recently_human_edited env g \<longleftrightarrow> g_id g \<in> E"
  shows "list_all2 (node_kept E) (db_nodes db) (db_nodes (snd (reroute_loop env gs acc db))) \<and>
    db_goals (snd (reroute_loop env gs acc db)) = db_goals db"
  using assms
proof (induction gs arbitrary: acc db)
  case Nil
  then show ?case by (simp add: node_kept_def list_all2_same)
next
  case (Cons g gs)
  show ?case
  proof (cases "recently_human_edited env g")
    case True
    then show ?thesis using Cons by simp
  next
    case False
    define ids where "ids = map nid (filter gives_up (load_graph (g_id g) db))"
    define db1 where "db1 = fold (clear_node_agent_pin (g_id g)) ids db"
    have "node_kept E n (if nr_goal n = g_id g \<and> nr_id n \<in> set ids then n\<lparr>nr_agent := '''', nr_status := ''pending''\<rparr> else n)"
      if n: "n \<in> set (db_nodes db)" for n
    proof (cases "nr_goal n = g_id g \<and> nr_id n \<in> set ids")
      case True
      then obtain m where m: "m \<in> set (db_nodes db)" "nr_goal m = g_id g" "nr_id m = nr_id n" "gives_up (node_of_row m)"
        by (auto simp: ids_def load_graph_def)
      then have "m = n" using Cons.prems(1) n True by (metis inj_onD distinct_map nr_key_def)
      with m True False Cons.prems(2) show ?thesis
        by (auto simp: node_kept_def gives_up_def node_of_row_def dest: failed_status)
    next
      case False
      then show ?thesis unfolding if_not_P [OF False] by (simp add: node_kept_def)
    qed
    then have k1: "list_all2 (node_kept E) (db_nodes db) (db_nodes db1)"
      by (simp add: db1_def fold_clear_pin list_all2_map2 list_all2_same)
    have "distinct (map nr_key (db_nodes db1))" using node_kept_keys [OF k1] Cons.prems(1) by simp
    with Cons.IH Cons.prems(2) have k2: "list_all2 (node_kept E) (db_nodes db1) (db_nodes (snd (reroute_loop env gs a db1)))"
      "db_goals (snd (reroute_loop env gs a db1)) = db_goals db1" for a by auto
    have g1: "db_goals db1 = db_goals db" by (simp add: db1_def fold_clear_pin)
    from False have "reroute_loop env (g # gs) acc db = reroute_loop env gs (acc @ map (\<lambda>i. g_id g @ ''/'' @ i) ids) db1"
      by (simp add: ids_def db1_def Let_def)
    then show ?thesis using nodes_kept_trans [OF k1 k2(1)] k2(2) g1 by simp
  qed
qed

definition keeps_db :: "step \<Rightarrow> bool" where
  "keeps_db st \<longleftrightarrow> (\<forall>s. hs_db (snd (st s)) = hs_db s)"

lemma keeps_infra: "list_all (\<lambda>(a, st). keeps_db st) (infra_steps env cfg r)"
  by (auto simp: infra_steps_def keeps_db_def infra_step_defs Let_def split: prod.split option.split sum.split)

lemma keeps_agent: "list_all (\<lambda>(a, st). keeps_db st) (agent_steps env cfg)"
  by (auto simp: agent_steps_def keeps_db_def agent_step_defs Let_def split: prod.split option.split sum.split outcome.split list.split)

lemma keeps_toml: "keeps_db (routing_toml_drift env)" "keeps_db (coordinator_toml_sanity env)"
  by (auto simp: keeps_db_def routing_toml_drift_def coordinator_toml_sanity_def Let_def split: prod.split option.split sum.split)

lemma log_heal_state [simp]: "hs_db (snd (log_heal x ts c a d ok s)) = hs_db s" "hs_data (snd (log_heal x ts c a d ok s)) = hs_data s"
  "hs_pool (snd (log_heal x ts c a d ok s)) = hs_pool s" "hs_root (snd (log_heal x ts c a d ok s)) = hs_root s"
  by (simp_all add: log_heal_def split: option.split)

lemma run_step_state:
  "hs_db (snd (run_step env msg c a st rs)) = hs_db (snd (st (snd rs)))"
  "hs_data (snd (run_step env msg c a st rs)) = hs_data (snd (st (snd rs)))"
  "hs_pool (snd (run_step env msg c a st rs)) = hs_pool (snd (st (snd rs)))"
  by (simp_all add: run_step_def Let_def split: prod.split)

lemma run_steps_db:
  "list_all (\<lambda>(a, st). keeps_db st) steps \<Longrightarrow> hs_db (snd (run_steps env msg c steps rs)) = hs_db (snd rs)"
  by (induction steps arbitrary: rs) (auto simp: run_steps_def run_step_state keeps_db_def)

lemma run_category_db:
  "list_all (\<lambda>(a, st). keeps_db st) steps \<Longrightarrow> hs_db (snd (run_category env msg cfg flt c steps rs)) = hs_db (snd rs)"
  by (simp add: run_category_def run_steps_db)

lemma coordinator_db:
  "hs_db (snd (run_category env msg cfg flt CoordinatorCat (coordinator_steps env cfg) rs)) =
    (if wants cfg flt CoordinatorCat
     then hs_db (snd (reroute_repeated_failures env (snd (run_step env msg CoordinatorCat ''reeval_blocked_goals''
            (reeval_blocked_goals env cfg) rs))))
     else hs_db (snd rs))"
  using keeps_toml by (simp add: run_category_def run_steps_def coordinator_steps_def run_step_state keeps_db_def)

lemma goals_kept_ids: "list_all2 (goal_kept env cfg) rs rs' \<Longrightarrow> map g_id rs' = map g_id rs"
  by (induction rule: list_all2_induct) (auto simp: goal_kept_def reevaluated_def)

lemma edited_ids:
  assumes "list_all2 (goal_kept env cfg) rs rs'" "distinct (map g_id rs)" "r' \<in> set rs'"
  shows "edited_row env r' \<longleftrightarrow> g_id r' \<in> g_id ` {r \<in> set rs. edited_row env r}"
proof -
  from assms(1,3) obtain r where r: "r \<in> set rs" "goal_kept env cfg r r'"
    by (metis list_all2_conv_all_nth in_set_conv_nth)
  then have "g_id r' = g_id r" "edited_row env r' = edited_row env r"
    by (auto simp: goal_kept_def reevaluated_def edited_row_def recently_human_edited_def row_to_goal_def)
  moreover have "g_id r \<in> g_id ` {r \<in> set rs. edited_row env r} \<longleftrightarrow> edited_row env r"
    using assms(2) r(1) by (auto simp: distinct_map dest: inj_onD)
  ultimately show ?thesis by simp
qed

text \<open>C36: the hard rules of the pass, for goals and nodes with unique keys: no goal disappears; a goal changes only from
  blocked to running, while its automatic reevaluations last; a node changes only when it has failed
  twice, to pending without its pin, so a running node is never touched; and nothing of a goal that a human edited
  within the hour changes at all.\<close>

theorem heal_hard_rules:
  assumes "distinct (map g_id (db_goals (hs_db s)))" "distinct (map nr_key (db_nodes (hs_db s)))"
  shows "let db = hs_db s; db' = hs_db (snd (run_pass env msg flt s)) in
    list_all2 (goal_kept env (fst (heal_config_load env (hs_root s)))) (db_goals db) (db_goals db') \<and>
    list_all2 (node_kept (g_id ` {r \<in> set (db_goals db). edited_row env r})) (db_nodes db) (db_nodes db') \<and>
    map g_id (db_goals db') = map g_id (db_goals db)"
proof -
  obtain cfg d where cfg: "heal_config_load env (hs_root s) = (cfg, d)" by (cases "heal_config_load env (hs_root s)")
  let ?E = "g_id ` {r \<in> set (db_goals (hs_db s)). edited_row env r}"
  define rs where "rs = run_category env msg cfg flt Infra (infra_steps env cfg False) ([], s\<lparr>hs_root := d\<rparr>)"
  have db0: "hs_db (snd rs) = hs_db s" by (simp add: rs_def run_category_db [OF keeps_infra])
  define s1 where "s1 = snd (run_step env msg CoordinatorCat ''reeval_blocked_goals'' (reeval_blocked_goals env cfg) rs)"
  have db1: "hs_db s1 = hs_db (snd (reeval_blocked_goals env cfg (snd rs)))" by (simp add: s1_def run_step_state)
  have run: "hs_db (snd (run_pass env msg flt s)) =
    (if wants cfg flt CoordinatorCat then hs_db (snd (reroute_repeated_failures env s1)) else hs_db s)"
    by (simp add: run_pass_def run_pass_with_restore_def cfg run_category_db [OF keeps_agent] coordinator_db rs_def [symmetric]
        s1_def db0)
  show ?thesis
  proof (cases "wants cfg flt CoordinatorCat")
    case False
    then show ?thesis using run by (simp add: Let_def goal_kept_def node_kept_def list_all2_same)
  next
    case True
    from reeval_goals_kept [of "snd rs" env cfg] assms(1) db0 db1
    have k: "list_all2 (goal_kept env cfg) (db_goals (hs_db s)) (db_goals (hs_db s1))" "db_nodes (hs_db s1) = db_nodes (hs_db s)"
      by simp_all
    have human: "\<forall>g \<in> set (active_goals (hs_db s1) @ list_by_status GsBlocked (hs_db s1)). recently_human_edited env g \<longleftrightarrow> g_id g \<in> ?E"
      using edited_ids [OF k(1) assms(1)] by (auto simp: active_goals_def list_by_status_def edited_row_def)
    have "distinct (map nr_key (db_nodes (hs_db s1)))" using assms(2) k(2) by simp
    from reroute_loop_nodes [OF this human, of "[]"]
    have "list_all2 (node_kept ?E) (db_nodes (hs_db s1)) (db_nodes (hs_db (snd (reroute_repeated_failures env s1)))) \<and>
        db_goals (hs_db (snd (reroute_repeated_failures env s1))) = db_goals (hs_db s1)"
      by (cases "reroute_loop env (active_goals (hs_db s1) @ list_by_status GsBlocked (hs_db s1)) [] (hs_db s1)")
        (simp add: reroute_repeated_failures_def)
    then show ?thesis using k goals_kept_ids [OF k(1)] run True by (simp add: Let_def cfg)
  qed
qed

section \<open>Benches of other providers\<close>

lemma probe_loop_left:
  assumes "probe_loop env cs c l db = (c', l', db')" "r \<in> set (pool_cooldowns db')"
  shows "r \<in> set (pool_cooldowns db)"
  using assms
proof (induction cs arbitrary: c l db)
  case (Cons x cs)
  then obtain p m k where x: "x = (p, m, k)" by (cases x)
  have cleared: "r \<in> set (pool_cooldowns (clear (Some k) db)) \<Longrightarrow> r \<in> set (pool_cooldowns db)" for db
    by (simp add: clear_def delete_where_def)
  from Cons.prems(1) obtain c1 l1 db1 where "probe_loop env cs c1 l1 db1 = (c', l', db')" "db1 = db \<or> db1 = clear (Some k) db"
    by (auto simp: x split: option.splits if_splits)
  with Cons.IH Cons.prems(2) cleared show ?case by metis
qed simp

lemma probe_loop_clears:
  assumes "(p, m, k) \<in> set cs" "by_id p = Some prov" "validate_url (quirks prov) = Some path"
    "en_secret env (secret_name p k) = Some key" "en_probe env (trim_end_slashes (base_url prov) @ path) key"
    "probe_loop env cs c l db = (c', l', db')" "r \<in> set (pool_cooldowns db')"
  shows "cd_key_id r \<noteq> k"
  using assms
proof (induction cs arbitrary: c l db)
  case (Cons x cs)
  show ?case
  proof (cases "x = (p, m, k)")
    case True
    with Cons.prems have "probe_loop env cs (c + 1) l (clear (Some k) db) = (c', l', db')" by simp
    from probe_loop_left [OF this Cons.prems(7)] show ?thesis by (simp add: clear_def delete_where_def)
  next
    case False
    with Cons.prems(1) have "(p, m, k) \<in> set cs" by simp
    obtain p' m' k' where x: "x = (p', m', k')" by (cases x) auto
    from Cons.prems(6) obtain c1 l1 db1 where "probe_loop env cs c1 l1 db1 = (c', l', db')"
      by (auto simp: x split: option.splits if_splits)
    from Cons.IH [OF \<open>(p, m, k) \<in> set cs\<close> Cons.prems(2-5) this Cons.prems(7)] show ?thesis .
  qed
qed simp

text \<open>A probe that succeeds lifts every bench of the key's id: also those of other providers, whose key has the same
  id by the naming of keys, and also those whose end the provider had stated.\<close>

theorem probe_lifts_foreign_benches:
  assumes "(p, m, k) \<in> set (take probe_budget (heuristic_probe_candidates (timestamp_millis (en_now env)) (hs_pool s)))"
    and "by_id p = Some prov" "validate_url (quirks prov) = Some path"
    and "en_secret env (secret_name p k) = Some key" "en_probe env (trim_end_slashes (base_url prov) @ path) key"
  shows "\<forall>r \<in> set (pool_cooldowns (hs_pool (snd (cooldown_probe env s)))). cd_key_id r \<noteq> k"
proof -
  obtain c l db where run: "probe_loop env (take probe_budget (heuristic_probe_candidates (timestamp_millis (en_now env)) (hs_pool s)))
      0 0 (hs_pool s) = (c, l, db)" by (metis prod.exhaust)
  then have "hs_pool (snd (cooldown_probe env s)) = db" by (simp add: cooldown_probe_def)
  with probe_loop_clears [OF assms run] show ?thesis by blast
qed

section \<open>Backups of the database\<close>

lemma map_of_file_put: "map_of (file_put n f d) = (map_of d)(n \<mapsto> f)"
proof (cases "exists_where (\<lambda>e. fst e = n) d")
  case True
  have "map_of (update_where (\<lambda>e. fst e = n) (\<lambda>e. (n, f)) d) = (if n \<in> fst ` set d then (map_of d)(n \<mapsto> f) else map_of d)"
    by (induction d) (auto simp: fun_eq_iff)
  with True show ?thesis by (auto simp: file_put_def exists_where_iff)
next
  case False
  then have "map_of d n = None" by (auto simp: exists_where_iff map_of_eq_None_iff)
  with False show ?thesis by (auto simp: file_put_def map_add_def fun_eq_iff split: option.splits)
qed

lemma file_put_names: "fst ` set (file_put n f d) = insert n (fst ` set d)"
proof (cases "exists_where (\<lambda>e. fst e = n) d")
  case True
  have "fst ` set (update_where (\<lambda>e. fst e = n) (\<lambda>e. (n, f)) d) = fst ` set d"
    by (induction d) auto
  with True show ?thesis by (auto simp: file_put_def exists_where_iff)
qed (simp add: file_put_def)

lemma newest_backup_max:
  assumes "b \<in> fst ` set d" "starts_with (name @ ''.bak-'') b"
    and "\<forall>x \<in> fst ` set d. starts_with (name @ ''.bak-'') x \<longrightarrow> x \<le> b"
  shows "newest_backup d name = Some b"
proof -
  define xs where "xs = sort (filter (starts_with (name @ ''.bak-'')) (map fst d))"
  have set: "set xs = {x \<in> fst ` set d. starts_with (name @ ''.bak-'') x}" by (auto simp: xs_def)
  then have "b \<in> set xs" using assms(1,2) by simp
  then have ne: "xs \<noteq> []" by auto
  then have "last xs \<in> set xs" by simp
  then have le: "last xs \<le> b" using set assms(3) by auto
  have "sorted xs" by (simp add: xs_def)
  have "\<forall>x \<in> set xs. x \<le> last xs" using \<open>sorted xs\<close> ne
  proof (induction xs)
    case (Cons y ys)
    then show ?case by (cases ys) auto
  qed simp
  with le \<open>b \<in> set xs\<close> have "last xs = b" by (auto intro: antisym)
  with ne show ?thesis by (cases xs) (simp_all add: newest_backup_def xs_def [symmetric])
qed

lemma backup_not_db [simp]: "''single.db.bak-'' @ x \<noteq> ''single.db''"
  by simp

lemma copy_file_text:
  "copy_file env what a b d = Inr d' \<Longrightarrow> \<exists>f. map_of d a = Some f \<and> d' = file_put b \<lparr>fl_text = fl_text f, fl_mtime = en_secs env\<rparr> d"
  by (auto simp: copy_file_def write_to_def split: option.splits)

definition db_text :: "dir \<Rightarrow> string option" where
  "db_text d = map_option fl_text (map_of d ''single.db'')"

lemma backup_keeps_db: "db_text (hs_data (snd (db_backup env cfg s))) = db_text (hs_data s)"
  by (auto simp: db_backup_def Let_def db_text_def map_of_file_put dest!: copy_file_text split: option.split sum.split)

lemma integrity_keeps_db:
  assumes "db_text (hs_data s) = Some text"
    and "\<forall>b. newest_backup (hs_data s) ''single.db'' = Some b \<longrightarrow> map_option fl_text (map_of (hs_data s) b) = Some text"
  shows "db_text (hs_data (snd (db_integrity env r s))) = Some text"
  using assms
  by (auto simp: db_integrity_def db_text_def map_of_file_put dest!: copy_file_text split: option.split sum.split)

definition keeps_data :: "step \<Rightarrow> bool" where
  "keeps_data st \<longleftrightarrow> (\<forall>s. hs_data (snd (st s)) = hs_data s)"

lemma keeps_data_steps:
  "keeps_data (stale_socket env)" "keeps_data (corrupt_config env)" "keeps_data (dead_agent_binaries env)"
  "keeps_data (cooldown_probe env)"
  by (auto simp: keeps_data_def infra_step_defs Let_def split: prod.split option.split sum.split)

lemma keeps_data_coordinator: "list_all (\<lambda>(a, st). keeps_data st) (coordinator_steps env cfg)"
  by (auto simp: coordinator_steps_def keeps_data_def coordinator_step_defs Let_def split: prod.split option.split sum.split)

lemma keeps_data_agent: "list_all (\<lambda>(a, st). keeps_data st) (agent_steps env cfg)"
  by (auto simp: agent_steps_def keeps_data_def agent_step_defs Let_def split: prod.split option.split sum.split outcome.split list.split)

lemma run_category_data:
  "list_all (\<lambda>(a, st). keeps_data st) steps \<Longrightarrow> hs_data (snd (run_category env msg cfg flt c steps rs)) = hs_data (snd rs)"
proof -
  have "list_all (\<lambda>(a, st). keeps_data st) steps \<Longrightarrow> hs_data (snd (run_steps env msg c steps rs)) = hs_data (snd rs)" for rs
    by (induction steps arbitrary: rs) (auto simp: run_steps_def run_step_state keeps_data_def)
  then show "list_all (\<lambda>(a, st). keeps_data st) steps \<Longrightarrow> hs_data (snd (run_category env msg cfg flt c steps rs)) = hs_data (snd rs)"
    by (simp add: run_category_def)
qed

text \<open>The data directory after the infra steps: what the backup step makes of what the integrity step leaves.\<close>

lemma infra_data:
  "\<exists>s1. hs_data s1 = hs_data (snd rs) \<and> (\<exists>s2. hs_data s2 = hs_data (snd (db_integrity env r s1)) \<and>
     hs_data (snd (run_category env msg cfg flt Infra (infra_steps env cfg r) rs)) =
       (if wants cfg flt Infra then hs_data (snd (db_backup env cfg s2)) else hs_data (snd rs)))"
proof -
  define r1 where "r1 = run_step env msg Infra ''corrupt_config'' (corrupt_config env)
    (run_step env msg Infra ''stale_socket'' (stale_socket env) rs)"
  define r2 where "r2 = run_step env msg Infra ''db_integrity'' (db_integrity env r) r1"
  have "hs_data (snd r1) = hs_data (snd rs)" "hs_data (snd r2) = hs_data (snd (db_integrity env r (snd r1)))"
    using keeps_data_steps by (simp_all add: r1_def r2_def run_step_state keeps_data_def)
  moreover have "hs_data (snd (run_category env msg cfg flt Infra (infra_steps env cfg r) rs)) =
      (if wants cfg flt Infra then hs_data (snd (db_backup env cfg (snd r2))) else hs_data (snd rs))"
    using keeps_data_steps
    by (simp add: run_category_def run_steps_def infra_steps_def run_step_state keeps_data_def r1_def r2_def)
  ultimately show ?thesis by blast
qed

lemma pass_data:
  "heal_config_load env (hs_root s) = (cfg, d) \<Longrightarrow>
   hs_data (snd (run_pass_with_restore env msg flt r s)) =
     hs_data (snd (run_category env msg cfg flt Infra (infra_steps env cfg r) ([], s\<lparr>hs_root := d\<rparr>)))"
  by (simp add: run_pass_with_restore_def run_category_data [OF keeps_data_coordinator] run_category_data [OF keeps_data_agent])

lemma startup_keeps_text:
  assumes "db_text (hs_data s) = Some text"
    and "\<forall>b. newest_backup (hs_data s) ''single.db'' = Some b \<longrightarrow> map_option fl_text (map_of (hs_data s) b) = Some text"
  shows "db_text (hs_data (snd (run_pass_with_restore env msg flt r s))) = Some text"
proof -
  obtain cfg d where cfg: "heal_config_load env (hs_root s) = (cfg, d)" by (cases "heal_config_load env (hs_root s)")
  from infra_data [of "([], s\<lparr>hs_root := d\<rparr>)" env r msg cfg flt] obtain s1 s2 where
    s1: "hs_data s1 = hs_data s" and s2: "hs_data s2 = hs_data (snd (db_integrity env r s1))"
    and run: "hs_data (snd (run_category env msg cfg flt Infra (infra_steps env cfg r) ([], s\<lparr>hs_root := d\<rparr>))) =
      (if wants cfg flt Infra then hs_data (snd (db_backup env cfg s2)) else hs_data s)" by auto
  have "db_text (hs_data (snd (db_integrity env r s1))) = Some text" using assms s1 by (intro integrity_keeps_db) simp_all
  then show ?thesis using assms(1) by (simp add: pass_data [OF cfg] run backup_keeps_db s2)
qed

definition backup_due :: "heal_env \<Rightarrow> heal_config \<Rightarrow> dir \<Rightarrow> bool" where
  "backup_due env cfg d \<longleftrightarrow> (case backup_age env d of None \<Rightarrow> True | Some a \<Rightarrow> hc_db_backup_interval_secs cfg \<le> a)"

text \<open>What the integrity step of a pass answers is in the report of the pass.\<close>

lemma reports_grow:
  "set (fst rs) \<subseteq> set (fst (run_step env msg c a st rs))"
  "set (fst rs) \<subseteq> set (fst (run_category env msg cfg flt c steps rs))"
proof -
  have step: "set (fst rs) \<subseteq> set (fst (run_step env msg c a st rs))" for c a st rs
    by (auto simp: run_step_def Let_def split: prod.splits)
  have "set (fst rs) \<subseteq> set (fst (fold (\<lambda>(action, st). run_step env msg c action st) steps rs))" for rs
  proof (induction steps arbitrary: rs)
    case (Cons x steps)
    then show ?case using step by (cases x) fastforce
  qed simp
  then show "set (fst rs) \<subseteq> set (fst (run_category env msg cfg flt c steps rs))" by (simp add: run_category_def run_steps_def)
  show "set (fst rs) \<subseteq> set (fst (run_step env msg c a st rs))" by (rule step)
qed

lemma integrity_reported:
  assumes "wants cfg flt Infra"
  obtains s1 where "hs_data s1 = hs_data (snd rs)"
    "\<And>detail. fst (db_integrity env r s1) = Ret (Inr detail) \<Longrightarrow>
       \<lparr>ha_category = Infra, ha_action = ''db_integrity'', ha_detail = detail, ha_ok = True\<rparr> \<in>
         set (fst (run_category env msg cfg flt Infra (infra_steps env cfg r) rs))"
proof -
  define r1 where "r1 = run_step env msg Infra ''corrupt_config'' (corrupt_config env)
    (run_step env msg Infra ''stale_socket'' (stale_socket env) rs)"
  define r2 where "r2 = run_step env msg Infra ''db_integrity'' (db_integrity env r) r1"
  have "hs_data (snd r1) = hs_data (snd rs)"
    using keeps_data_steps by (simp_all add: r1_def run_step_state keeps_data_def)
  moreover have "set (fst r2) \<subseteq> set (fst (run_category env msg cfg flt Infra (infra_steps env cfg r) rs))"
    using assms reports_grow(1) by (simp add: run_category_def run_steps_def infra_steps_def r1_def [symmetric] r2_def [symmetric]) blast
  moreover have "\<lparr>ha_category = Infra, ha_action = ''db_integrity'', ha_detail = detail, ha_ok = True\<rparr> \<in> set (fst r2)"
    if "fst (db_integrity env r (snd r1)) = Ret (Inr detail)" for detail
    using that by (auto simp: r2_def run_step_def Let_def split: prod.split)
  ultimately show thesis using that by blast
qed

lemma integrity_in_pass:
  assumes "heal_config_load env (hs_root s) = (cfg, d)" "wants cfg flt Infra"
  shows "\<exists>s1. hs_data s1 = hs_data s \<and> (\<forall>detail. fst (db_integrity env r s1) = Ret (Inr detail) \<longrightarrow>
       \<lparr>ha_category = Infra, ha_action = ''db_integrity'', ha_detail = detail, ha_ok = True\<rparr> \<in>
         set (fst (run_pass_with_restore env msg flt r s)))"
proof (rule integrity_reported [of cfg flt "([], s\<lparr>hs_root := d\<rparr>)" env r msg, OF assms(2)])
  fix s1
  assume s1: "hs_data s1 = hs_data (snd ([] :: heal_action list, s\<lparr>hs_root := d\<rparr>))" and
    rep: "\<And>detail. fst (db_integrity env r s1) = Ret (Inr detail) \<Longrightarrow>
       \<lparr>ha_category = Infra, ha_action = ''db_integrity'', ha_detail = detail, ha_ok = True\<rparr> \<in>
         set (fst (run_category env msg cfg flt Infra (infra_steps env cfg r) ([], s\<lparr>hs_root := d\<rparr>)))"
  have "set (fst (run_category env msg cfg flt Infra (infra_steps env cfg r) ([], s\<lparr>hs_root := d\<rparr>))) \<subseteq>
      set (fst (run_pass_with_restore env msg flt r s))"
    unfolding run_pass_with_restore_def assms(1) prod.case using reports_grow(2) by blast
  with s1 rep show ?thesis by (intro exI [of _ s1]) auto
qed

lemma pass_backs_up_corrupt:
  assumes "heal_config_load env (hs_root s) = (cfg, d)" "wants cfg flt Infra"
    and "map_of (hs_data s) ''single.db'' = Some f" "en_integrity env (Some f) = Inr found" "found \<noteq> ''ok''"
    and "backup_due env cfg (hs_data s)" "en_io_error env (''single.db.bak-'' @ en_stamp env) = None"
    and "\<forall>x \<in> fst ` set (hs_data s). starts_with ''single.db.bak-'' x \<longrightarrow> x < ''single.db.bak-'' @ en_stamp env"
  shows "hs_data (snd (run_pass env msg flt s)) =
      file_put (''single.db.bak-'' @ en_stamp env) \<lparr>fl_text = fl_text f, fl_mtime = en_secs env\<rparr> (hs_data s)"
    and "newest_backup (hs_data (snd (run_pass env msg flt s))) ''single.db'' = Some (''single.db.bak-'' @ en_stamp env)"
proof -
  let ?new = "''single.db.bak-'' @ en_stamp env"
  from infra_data [of "([], s\<lparr>hs_root := d\<rparr>)" env False msg cfg flt] assms(2) obtain s1 s2 where
    s1: "hs_data s1 = hs_data s" and s2: "hs_data s2 = hs_data (snd (db_integrity env False s1))"
    and run: "hs_data (snd (run_pass env msg flt s)) = hs_data (snd (db_backup env cfg s2))"
    by (auto simp: run_pass_def pass_data [OF assms(1)])
  have d2: "hs_data s2 = hs_data s" using assms(3-5) s1 s2 by (simp add: db_integrity_def)
  have "Option.bind (backup_age env (hs_data s)) (\<lambda>a. if a < hc_db_backup_interval_secs cfg then Some a else None) = None"
    using assms(6) by (auto simp: backup_due_def split: option.splits)
  then show data: "hs_data (snd (run_pass env msg flt s)) =
      file_put ?new \<lparr>fl_text = fl_text f, fl_mtime = en_secs env\<rparr> (hs_data s)"
    using assms(3,7) d2 by (simp add: run db_backup_def copy_file_def write_to_def Let_def)
  show "newest_backup (hs_data (snd (run_pass env msg flt s))) ''single.db'' = Some ?new"
    by (rule newest_backup_max) (use assms(8) in \<open>auto simp: data file_put_names starts_with_iff\<close>)
qed

text \<open>C38: a pass between two starts that finds the database corrupt does not restore it, and its next step copies the corrupt
  file, when a backup is due, to a backup that is now the newest one. The pass of the next start, which finds the same file
  corrupt, reports that it restored the database from that copy, and the file it leaves has the corrupt contents; the older
  backups, which may be good, lie beside it unused.\<close>

theorem corrupt_backup_shadows_good:
  assumes "heal_config_load env (hs_root s) = (cfg, d)" "wants cfg flt Infra"
    and "map_of (hs_data s) ''single.db'' = Some f" "en_integrity env (Some f) = Inr found" "found \<noteq> ''ok''"
    and "backup_due env cfg (hs_data s)" "en_io_error env (''single.db.bak-'' @ en_stamp env) = None"
    and "\<forall>x \<in> fst ` set (hs_data s). starts_with ''single.db.bak-'' x \<longrightarrow> x < ''single.db.bak-'' @ en_stamp env"
    and start: "heal_config_load env' (hs_root (snd (run_pass env msg flt s))) = (cfg', d')" "wants cfg' flt' Infra"
      "en_integrity env' (Some f) = Inr found'" "found' \<noteq> ''ok''" "en_io_error env' ''single.db'' = None"
  shows "map_of (hs_data (snd (run_pass env msg flt s))) (''single.db.bak-'' @ en_stamp env) =
      Some \<lparr>fl_text = fl_text f, fl_mtime = en_secs env\<rparr> \<and>
    (\<forall>b. b \<noteq> ''single.db.bak-'' @ en_stamp env \<longrightarrow> map_of (hs_data (snd (run_pass env msg flt s))) b = map_of (hs_data s) b) \<and>
    (\<exists>a \<in> set (fst (run_pass_with_restore env' msg' flt' True (snd (run_pass env msg flt s)))).
       ha_action a = ''db_integrity'' \<and> ha_ok a \<and> ha_detail a = ''integrity_check failed ('' @ found' @ ''); restored from '' @
         en_path env' (''single.db.bak-'' @ en_stamp env)) \<and>
    db_text (hs_data (snd (run_pass_with_restore env' msg' flt' True (snd (run_pass env msg flt s))))) = Some (fl_text f)"
proof -
  let ?new = "''single.db.bak-'' @ en_stamp env"
  let ?s1 = "snd (run_pass env msg flt s)"
  note data = pass_backs_up_corrupt [OF assms(1-8), of msg]
  have db: "map_of (hs_data ?s1) ''single.db'' = Some f" and new: "map_of (hs_data ?s1) ?new = Some \<lparr>fl_text = fl_text f, fl_mtime = en_secs env\<rparr>"
    using assms(3) by (simp_all add: data(1) map_of_file_put)
  obtain s2 where s2: "hs_data s2 = hs_data ?s1" "\<forall>detail. fst (db_integrity env' True s2) = Ret (Inr detail) \<longrightarrow>
       \<lparr>ha_category = Infra, ha_action = ''db_integrity'', ha_detail = detail, ha_ok = True\<rparr> \<in>
         set (fst (run_pass_with_restore env' msg' flt' True ?s1))"
    using integrity_in_pass [OF start(1,2), where r = True and msg = msg'] by blast
  have "fst (db_integrity env' True s2) =
      Ret (Inr (''integrity_check failed ('' @ found' @ ''); restored from '' @ en_path env' ?new))"
    unfolding db_integrity_def s2(1) db data(2) start(3)
    using start(4,5) new by (simp add: copy_file_def write_to_def)
  from s2(2) [rule_format, OF this] have "\<exists>a \<in> set (fst (run_pass_with_restore env' msg' flt' True ?s1)).
       ha_action a = ''db_integrity'' \<and> ha_ok a \<and> ha_detail a = ''integrity_check failed ('' @ found' @ ''); restored from '' @
         en_path env' ?new" by (rule rev_bexI) simp
  moreover have "db_text (hs_data (snd (run_pass_with_restore env' msg' flt' True ?s1))) = Some (fl_text f)"
    by (rule startup_keeps_text) (unfold data(2), auto simp: db_text_def db new simp del: append.simps)
  moreover have "\<forall>b. b \<noteq> ?new \<longrightarrow> map_of (hs_data ?s1) b = map_of (hs_data s) b" by (simp add: data(1) map_of_file_put)
  ultimately show ?thesis using new by blast
qed

section \<open>Concrete passes\<close>

definition demo_heal_env :: heal_env where
  "demo_heal_env =
     \<lparr>en_ts = ''t'', en_stamp = ''20260102T000000Z'', en_now = 1000000000000000, en_secs = 1000000,
      en_parse_time = (\<lambda>s. if s = ''now'' then Some 1000000000000000 else Some 0),
      en_toml_ok = (\<lambda>_. True), en_parse_heal = (\<lambda>_. None), en_print_heal = (\<lambda>_. []),
      en_parse_routing = (\<lambda>_. None), en_print_routing = (\<lambda>_. []), en_parse_coord = (\<lambda>_. None),
      en_print_coord = (\<lambda>_. []), en_kinds = (\<lambda>_. []),
      en_integrity = (\<lambda>f. Inr (if map_option fl_text f = Some ''good'' then ''ok'' else ''malformed'')),
      en_live_socket = True, en_root_exists = True, en_readable = (\<lambda>_. True), en_path = id,
      en_io_error = (\<lambda>_. None), en_registry = [], en_detected = (\<lambda>_. None), en_logged_out = (\<lambda>_. False),
      en_install_enabled = False, en_install = (\<lambda>_. Panic), en_secret = (\<lambda>_. Some ''key''),
      en_probe = (\<lambda>_ _. True), en_log_error = (\<lambda>_ _. None)\<rparr>"

definition demo_blocked :: "string \<Rightarrow> string option \<Rightarrow> goal_row" where
  "demo_blocked i edit =
     \<lparr>g_id = i, g_session = ''s'', g_text = ''x'', g_mode = ''auto'', g_status = ''blocked'',
      g_max_dispatches = 1, g_max_minutes = 1, g_dispatches = 0, g_supervisor_patches = 0, g_plan_json = [],
      g_summary = None, g_blocked_reason = Some ''capacity'', g_created_at = ''a'', g_updated_at = ''a'',
      g_capacity_reason = None, g_retry_at = None, g_capacity_waits = 0, g_capacity_budget = None,
      g_capacity_minutes = None, g_human_edit = edit, g_auto_reevals = 0, g_auto_merge = 0\<rparr>"

definition demo_heal_state :: heal_state where
  "demo_heal_state =
     \<lparr>hs_db = empty_coord_db\<lparr>db_goals := [demo_blocked ''a'' None, demo_blocked ''b'' (Some ''now'')]\<rparr>,
      hs_pool = empty_pool_db\<lparr>pool_cooldowns :=
        [\<lparr>cd_platform = ''kilo'', cd_model = ''m'', cd_key_id = ''key1'', until_ms = 1000100000, cd_provenance = Heuristic,
          hits = 1, hits_window_start_ms = 0, bench_start_ms = 0\<rparr>,
         \<lparr>cd_platform = ''groq'', cd_model = ''m'', cd_key_id = ''key1'', until_ms = 2000000000, cd_provenance = Authoritative,
          hits = 1, hits_window_start_ms = 0, bench_start_ms = 0\<rparr>]\<rparr>,
      hs_keys = [], hs_socket = True, hs_root = [],
      hs_data = [(''single.db'', \<lparr>fl_text = ''bad'', fl_mtime = 0\<rparr>),
        (''single.db.bak-20260101T000000Z'', \<lparr>fl_text = ''good'', fl_mtime = 0\<rparr>)],
      hs_events = [], hs_seq = 0\<rparr>"

text \<open>The goal that was edited stays as it is.\<close>

theorem heal_hard_rules_witness:
  "demo_blocked ''b'' (Some ''now'') \<in> set (db_goals (hs_db (snd (run_pass demo_heal_env None None demo_heal_state))))"
proof -
  let ?db = "hs_db demo_heal_state" and ?db' = "hs_db (snd (run_pass demo_heal_env None None demo_heal_state))"
  have g: "db_goals ?db = [demo_blocked ''a'' None, demo_blocked ''b'' (Some ''now'')]" "db_nodes ?db = []"
    by (simp_all add: demo_heal_state_def empty_coord_db_def)
  have "distinct (map g_id (db_goals ?db))" "distinct (map nr_key (db_nodes ?db))"
    unfolding g by (simp_all add: demo_blocked_def)
  from heal_hard_rules [OF this, of demo_heal_env None None]
  obtain cfg where "list_all2 (goal_kept demo_heal_env cfg) (db_goals ?db) (db_goals ?db')" by (auto simp: Let_def)
  then obtain r s where rs: "db_goals ?db' = [r, s]" "goal_kept demo_heal_env cfg (demo_blocked ''b'' (Some ''now'')) s"
    unfolding g by (auto simp: list_all2_Cons1)
  have "edited_row demo_heal_env (demo_blocked ''b'' (Some ''now''))"
    by (simp add: edited_row_def recently_human_edited_def demo_blocked_def row_to_goal_def demo_heal_env_def HUMAN_EDIT_GRACE_def)
  with rs show ?thesis by (simp add: goal_kept_def)
qed

lemma by_id_kilo: "by_id ''kilo'' = Some provider_kilo"
proof -
  have "provider_kilo \<in> set FREE_PROVIDERS" by (simp add: FREE_PROVIDERS_def)
  from by_id_mem [OF this] show ?thesis by (simp add: provider_kilo_def)
qed

definition demo_benches :: "cooldown_row list" where
  "demo_benches = pool_cooldowns (hs_pool demo_heal_state)"

lemma demo_benches_facts:
  "heuristic_probe_candidates (timestamp_millis (en_now demo_heal_env)) (hs_pool demo_heal_state) = [(''kilo'', ''m'', ''key1'')]"
  "\<forall>r \<in> set demo_benches. cd_key_id r = ''key1''"
  by (simp_all add: demo_benches_def heuristic_probe_candidates_def demo_heal_env_def demo_heal_state_def timestamp_millis_def
      List.map_filter_simps Let_def)

lemma cooldown_probe_left:
  "set (pool_cooldowns (hs_pool (snd (cooldown_probe env s)))) \<subseteq> set (pool_cooldowns (hs_pool s))"
proof -
  obtain c l db where run: "probe_loop env (take probe_budget (heuristic_probe_candidates (timestamp_millis (en_now env)) (hs_pool s)))
      0 0 (hs_pool s) = (c, l, db)" by (rule prod_cases3)
  then have "hs_pool (snd (cooldown_probe env s)) = db" by (simp add: cooldown_probe_def)
  then show ?thesis using probe_loop_left [OF run] by blast
qed

lemma kilo_url: "validate_url (quirks provider_kilo) = Some ''/api/gateway/models''"
  by (simp add: provider_kilo_def)

text \<open>A probe of Kilo lifts the bench that Groq had stated.\<close>

theorem probe_lifts_foreign_benches_witness:
  "pool_cooldowns (hs_pool (snd (cooldown_probe demo_heal_env demo_heal_state))) = []"
proof -
  have m: "(''kilo'', ''m'', ''key1'') \<in> set (take probe_budget
      (heuristic_probe_candidates (timestamp_millis (en_now demo_heal_env)) (hs_pool demo_heal_state)))"
    unfolding demo_benches_facts(1) by (simp add: probe_budget_def)
  have k: "en_secret demo_heal_env (secret_name ''kilo'' ''key1'') = Some ''key''" by (simp add: demo_heal_env_def)
  have p: "en_probe demo_heal_env (trim_end_slashes (base_url provider_kilo) @ ''/api/gateway/models'') ''key''"
    by (simp add: demo_heal_env_def)
  note none = probe_lifts_foreign_benches [OF m by_id_kilo kilo_url k p]
  define rows where "rows = pool_cooldowns (hs_pool (snd (cooldown_probe demo_heal_env demo_heal_state)))"
  have sub: "set rows \<subseteq> set demo_benches" unfolding rows_def demo_benches_def by (rule cooldown_probe_left)
  have "False" if r: "r \<in> set rows" for r
  proof -
    have a: "cd_key_id r = ''key1''" by (rule bspec [OF demo_benches_facts(2) subsetD [OF sub r]])
    have "cd_key_id r \<noteq> ''key1''" by (rule bspec [OF none r [unfolded rows_def]])
    then show False using a by (rule notE)
  qed
  then have "rows = []" by (metis list.set_intros(1) neq_Nil_conv)
  then show ?thesis unfolding rows_def .
qed

text \<open>A good backup of the day before is lost to the copy of a corrupt file.\<close>

theorem corrupt_backup_shadows_good_witness:
  "map_of (hs_data (snd (run_pass demo_heal_env None None demo_heal_state))) ''single.db.bak-20260101T000000Z'' =
     Some \<lparr>fl_text = ''good'', fl_mtime = 0\<rparr> \<and>
   (\<exists>a \<in> set (fst (run_pass_with_restore demo_heal_env None None True (snd (run_pass demo_heal_env None None demo_heal_state)))).
     ha_action a = ''db_integrity'' \<and> ha_ok a \<and>
     ha_detail a = ''integrity_check failed (malformed); restored from single.db.bak-20260102T000000Z'') \<and>
   db_text (hs_data (snd (run_pass_with_restore demo_heal_env None None True (snd (run_pass demo_heal_env None None demo_heal_state))))) =
     Some ''bad''"
proof -
  let ?s = demo_heal_state and ?env = demo_heal_env
  have load: "\<exists>d. heal_config_load ?env r = (default_heal_config, d)" for r
    by (cases "map_of r ''self_heal.toml''") (simp_all add: heal_config_load_def demo_heal_env_def)
  obtain d where cfg: "heal_config_load ?env (hs_root ?s) = (default_heal_config, d)" using load by blast
  obtain d' where cfg': "heal_config_load ?env (hs_root (snd (run_pass ?env None None ?s))) = (default_heal_config, d')" using load by blast
  have w: "wants default_heal_config None Infra" by (simp add: wants_def category_enabled_def default_heal_config_def)
  have f: "map_of (hs_data ?s) ''single.db'' = Some \<lparr>fl_text = ''bad'', fl_mtime = 0\<rparr>" by (simp add: demo_heal_state_def)
  have i: "en_integrity ?env (Some \<lparr>fl_text = ''bad'', fl_mtime = 0\<rparr>) = Inr ''malformed''" by (simp add: demo_heal_env_def)
  have due: "backup_due ?env default_heal_config (hs_data ?s)"
    by (simp add: backup_due_def backup_age_def newest_backup_def demo_heal_state_def demo_heal_env_def default_heal_config_def starts_with_def)
  have io: "en_io_error ?env n = None" for n by (simp add: demo_heal_env_def)
  have latest: "\<forall>x \<in> fst ` set (hs_data ?s). starts_with ''single.db.bak-'' x \<longrightarrow> x < ''single.db.bak-'' @ en_stamp ?env"
    by (simp add: demo_heal_state_def demo_heal_env_def starts_with_def)
  have bad: "''malformed'' \<noteq> ''ok''" by simp
  have env: "en_stamp ?env = ''20260102T000000Z''" "en_path ?env = id" by (simp_all add: demo_heal_env_def)
  have good: "map_of (hs_data ?s) ''single.db.bak-20260101T000000Z'' = Some \<lparr>fl_text = ''good'', fl_mtime = 0\<rparr>"
    by (simp add: demo_heal_state_def)
  from corrupt_backup_shadows_good [OF cfg w f i bad due io latest cfg' w i bad io, of None, unfolded env id_apply] good
  show ?thesis by simp
qed

end
