(* ===== verification/GoalHandlers.thy ===== *)
theory GoalHandlers
  imports Coordinator PendingMerge Redact TaskStore
begin

text \<open>
  The requests of the coordinator, as \<open>dispatch\<close> of \<open>crates/single-runtime/src/handlers.rs\<close> serves them on
  the database: sessions, goals, their events and merges, and the snapshot of the coordinator. A request
  is a constructor, an answer carries the view types of \<open>crates/single-protocol/src/lib.rs\<close>, and the
  arms are the branches of \<open>handle_goal\<close>. \<open>git\<close> is two functions of the environment; the merges
  that were run are logged in the state, since they change the repository and not the database. The table of the tasks
  with all its columns is read for the tokens of a node.
\<close>

section \<open>Requests, views and state\<close>

datatype goal_request =
    SessionNew string
  | SessionList
  | SessionClose string
  | GoalSubmit string string "string option" "nat option" "nat option" "string option"
  | GoalStatus string
  | GoalList "string option"
  | GoalAmend string string
  | GoalCancel string
  | GoalResume string
  | SessionEvents string int
  | CoordinatorStatus
  | GoalMergeList
  | GoalMergeShow int
  | GoalMergeResolve int bool

record goal_summary =
  su_id :: string
  su_session_id :: string
  su_text :: string
  su_mode :: string
  su_status :: string
  su_dispatches :: nat
  su_max_dispatches :: nat
  su_created_at :: string
  su_capacity_reason :: "string option"
  su_capacity_eta :: "string option"

record node_view =
  nv_id :: string
  nv_desc :: string
  nv_kind :: string
  nv_effort :: string
  nv_agent :: string
  nv_depends_on :: "string list"
  nv_status :: string
  nv_task_id :: "int option"
  nv_attempts :: nat
  nv_prompt_tokens :: "int option"
  nv_completion_tokens :: "int option"
  nv_tokens_estimated :: bool

record event_view =
  cv_id :: int
  cv_goal_id :: "string option"
  cv_ts :: string
  cv_kind :: string
  cv_body :: string

record goal_view =
  gv_goal :: goal_summary
  gv_blocked_reason :: "string option"
  gv_result_summary :: "string option"
  gv_nodes :: "node_view list"
  gv_recent_events :: "event_view list"
  gv_total_prompt_tokens :: int
  gv_total_completion_tokens :: int
  gv_any_tokens_estimated :: bool

record session_info =
  si_id :: string
  si_cwd :: string
  si_title :: string
  si_created_at :: string
  si_updated_at :: string
  si_status :: string

record pool_agent_status =
  pg_agent :: string
  pg_running :: nat
  pg_cap :: "nat option"
  pg_rate_limited :: bool

record coordinator_snapshot =
  cs_running_goals :: "goal_summary list"
  cs_queued_goals :: "goal_summary list"
  cs_blocked_goals :: "goal_summary list"
  cs_waiting_goals :: "goal_summary list"
  cs_pool :: "pool_agent_status list"
  cs_max_parallel :: nat

record merge_info =
  mi_id :: int
  mi_goal_id :: string
  mi_review_node_id :: string
  mi_dep_node_id :: string
  mi_branch :: string
  mi_status :: string
  mi_created_at :: string
  mi_resolved_at :: "string option"

datatype goal_data =
    DEmpty
  | DSession session_info
  | DSessions "session_info list"
  | DGoalId string
  | DGoalView goal_view
  | DGoals "goal_summary list"
  | DEvents "event_view list"
  | DSnapshot coordinator_snapshot
  | DPendingMerges "merge_info list"
  | DPendingMergeDiff merge_info string

record 'v goal_env =
  ge_coord :: coord_env
  ge_vault :: "'v vault"
  ge_now_ms :: int
  ge_nanos :: u64
  ge_count :: nat
  ge_unicode :: unicode
  ge_rfc3339 :: "int \<Rightarrow> string option"
  ge_repo_root :: "string \<Rightarrow> string option"
  ge_diff :: "string \<Rightarrow> string \<Rightarrow> string result"
  ge_merge :: "string \<Rightarrow> string \<Rightarrow> string result"

record 'v goal_state =
  gt_db :: coord_db
  gt_redact :: redact_state
  gt_vault :: 'v
  gt_merged :: "(string \<times> string) list"

abbreviation on_goals :: "(coord_db \<Rightarrow> coord_db) \<Rightarrow> 'v goal_state \<Rightarrow> 'v goal_state" where
  "on_goals f st \<equiv> st\<lparr>gt_db := f (gt_db st)\<rparr>"

abbreviation ge_ts :: "'v goal_env \<Rightarrow> string" where
  "ge_ts env \<equiv> se_ts (ce_shell (ge_coord env))"

section \<open>Views\<close>

definition goal_summary :: "'v goal_env \<Rightarrow> goal \<Rightarrow> goal_summary" where
  "goal_summary env g =
     \<lparr>su_id = g_id g, su_session_id = g_session g, su_text = g_text g, su_mode = goal_mode_str (g_mode g),
      su_status = goal_status_str (g_status g), su_dispatches = g_dispatches g,
      su_max_dispatches = g_max_dispatches g, su_created_at = g_created_at g,
      su_capacity_reason = g_capacity_reason g, su_capacity_eta = Option.bind (g_retry_at g) (ge_rfc3339 env)\<rparr>"

definition session_info :: "session \<Rightarrow> session_info" where
  "session_info s = \<lparr>si_id = s_id s, si_cwd = s_cwd s, si_title = s_title s, si_created_at = s_created_at s,
     si_updated_at = s_updated_at s, si_status = s_status s\<rparr>"

definition coordinator_event :: "event \<Rightarrow> event_view" where
  "coordinator_event e = \<lparr>cv_id = ev_id e, cv_goal_id = ev_goal e, cv_ts = ev_ts e,
     cv_kind = CoordSchema.ev_kind e, cv_body = ev_body e\<rparr>"

definition to_pending_merge_info :: "pending_merge \<Rightarrow> merge_info" where
  "to_pending_merge_info pm =
     \<lparr>mi_id = p_id pm, mi_goal_id = p_goal_id pm, mi_review_node_id = p_review_node_id pm,
      mi_dep_node_id = p_dep_node_id pm, mi_branch = p_branch pm,
      mi_status = (case p_status pm of MsPending \<Rightarrow> ''pending'' | MsConfirmed \<Rightarrow> ''confirmed'' | MsRejected \<Rightarrow> ''rejected''),
      mi_created_at = p_created_at pm, mi_resolved_at = p_resolved_at pm\<rparr>"

section \<open>Goals\<close>

definition submit_mode :: "string option \<Rightarrow> goal_mode" where
  "submit_mode mode = (case mode of
       Some m \<Rightarrow> (case goal_mode_parse m of Inr x \<Rightarrow> x | Inl _ \<Rightarrow> GmAuto)
     | None \<Rightarrow> GmAuto)"

definition submit_dispatches :: "coordinator_config \<Rightarrow> goal_mode \<Rightarrow> nat option \<Rightarrow> nat" where
  "submit_dispatches cfg gmode max_dispatches =
     unwrap_or max_dispatches (if gmode = GmCareful then 6 else max_dispatches_per_goal cfg)"

text \<open>The goal from its redacted text on: hand back a goal that is in flight for the same ask, or make one,
  plan it and drive the coordinator once.\<close>

definition submit_text ::
    "'v goal_env \<Rightarrow> string \<Rightarrow> string \<Rightarrow> string option \<Rightarrow> nat option \<Rightarrow> nat option \<Rightarrow> string option \<Rightarrow> coord_db \<Rightarrow>
     (goal_data result \<times> coord_db) option" where
  "submit_text env sid text mode max_dispatches max_minutes agent db =
     (case find_overlapping (ge_unicode env) text db of
        Some g \<Rightarrow> Some (Inr (DGoalId (g_id g)), db)
      | None \<Rightarrow>
          (let ce = ge_coord env; cfg = ce_cfg ce; gmode = submit_mode mode
           in case goal_create (ge_ts env) (ge_nanos env) (ge_count env) sid text gmode
                     (submit_dispatches cfg gmode max_dispatches) (unwrap_or max_minutes (max_goal_minutes cfg)) db of
                (Inl e, db) \<Rightarrow> Some (Inl e, db)
              | (Inr g, db) \<Rightarrow>
                  (case plan_goal ce (g_id g) agent db of
                     (Inl e, db) \<Rightarrow>
                       Some (Inr (DGoalId (g_id g)), set_blocked (ge_ts env) (g_id g) (''planning failed: '' @ e) db)
                   | (Inr _, db) \<Rightarrow>
                       (case drive ce db of
                          None \<Rightarrow> None
                        | Some (_, db) \<Rightarrow> Some (Inr (DGoalId (g_id g)), db)))))"

definition goal_submit ::
    "'v goal_env \<Rightarrow> string \<Rightarrow> string \<Rightarrow> string option \<Rightarrow> nat option \<Rightarrow> nat option \<Rightarrow> string option \<Rightarrow> 'v goal_state \<Rightarrow>
     (goal_data result outcome \<times> 'v goal_state) option" where
  "goal_submit env sid text mode max_dispatches max_minutes agent st =
     (case scan_and_replace (ge_vault env) (ge_now_ms env) sid text (gt_redact st) (gt_vault st) of
        (Panic, rd, v) \<Rightarrow> Some (Panic, st\<lparr>gt_redact := rd, gt_vault := v\<rparr>)
      | (Ret (Inl e), rd, v) \<Rightarrow> Some (Ret (Inl e), st\<lparr>gt_redact := rd, gt_vault := v\<rparr>)
      | (Ret (Inr (redacted, aliases)), rd, v) \<Rightarrow>
          (case submit_text env sid redacted mode max_dispatches max_minutes agent (gt_db st) of
             None \<Rightarrow> None
           | Some (r, db) \<Rightarrow> Some (Ret r, st\<lparr>gt_redact := rd, gt_vault := v, gt_db := db\<rparr>)))"

definition task_tokens :: "task_db \<Rightarrow> int option \<Rightarrow> int option \<times> int option \<times> bool" where
  "task_tokens tasks task_id =
     (case task_id of
        None \<Rightarrow> (None, None, False)
      | Some i \<Rightarrow>
          (case get_task i tasks of
             Inr (Some t) \<Rightarrow> (t_prompt_tokens t, t_completion_tokens t, t_tokens_estimated t)
           | _ \<Rightarrow> (None, None, False)))"

definition node_view :: "task_db \<Rightarrow> node \<Rightarrow> node_view" where
  "node_view tasks n =
     (let (pt, ct, est) = task_tokens tasks (ntask n)
      in \<lparr>nv_id = nid n, nv_desc = ndesc n, nv_kind = node_kind_str (nkind n), nv_effort = effort_str (neffort n),
          nv_agent = nagent n, nv_depends_on = ndeps n, nv_status = node_status_str (nstatus n),
          nv_task_id = ntask n, nv_attempts = nattempts n, nv_prompt_tokens = pt, nv_completion_tokens = ct,
          nv_tokens_estimated = est\<rparr>)"

definition goal_view :: "'v goal_env \<Rightarrow> task_db \<Rightarrow> goal \<Rightarrow> coord_db \<Rightarrow> goal_view" where
  "goal_view env tasks g db =
     (let nodes = map (node_view tasks) (load_graph (g_id g) db)
      in \<lparr>gv_goal = goal_summary env g, gv_blocked_reason = g_blocked_reason g, gv_result_summary = g_summary g,
          gv_nodes = nodes, gv_recent_events = map coordinator_event (events_for_goal (g_id g) 40 db),
          gv_total_prompt_tokens = sum_list (map (\<lambda>n. unwrap_or (nv_prompt_tokens n) 0) nodes),
          gv_total_completion_tokens = sum_list (map (\<lambda>n. unwrap_or (nv_completion_tokens n) 0) nodes),
          gv_any_tokens_estimated = list_ex nv_tokens_estimated nodes\<rparr>)"

text \<open>The amendments with a meaning of their own; \<open>prefixed_u32\<close> is the chain \<open>strip_prefix\<close>, \<open>trim\<close>,
  \<open>parse::<u32>\<close>.\<close>

definition prefixed :: "string \<Rightarrow> string \<Rightarrow> string option" where
  "prefixed p text = (if starts_with p text then Some (trim (drop (length p) text)) else None)"

definition parse_u32 :: "string \<Rightarrow> nat option" where
  "parse_u32 s = Option.bind (parse_nat s) (\<lambda>n. if n < 2 ^ 32 then Some n else None)"

definition prefixed_u32 :: "string \<Rightarrow> string \<Rightarrow> nat option" where
  "prefixed_u32 p text = Option.bind (prefixed p text) parse_u32"

text \<open>The \<open>Debug\<close> form of a text: quotes, backslashes and control characters are escaped.\<close>

definition hex_digit :: "nat \<Rightarrow> char" where
  "hex_digit n = char_of (if n < 10 then 48 + n else 87 + n)"

definition debug_char :: "char \<Rightarrow> string" where
  "debug_char c =
     (let n = of_char c :: nat
      in if c = CHR 0x22 then [CHR 0x5C, CHR 0x22]
         else if c = CHR 0x5C then [CHR 0x5C, CHR 0x5C]
         else if n = 10 then [CHR 0x5C, CHR ''n'']
         else if n = 13 then [CHR 0x5C, CHR ''r'']
         else if n = 9 then [CHR 0x5C, CHR ''t'']
         else if n = 0 then [CHR 0x5C, CHR ''0'']
         else if n < 16 then [CHR 0x5C, CHR ''u'', CHR 0x7B, hex_digit n, CHR 0x7D]
         else if n < 32 \<or> n = 127 then [CHR 0x5C, CHR ''u'', CHR 0x7B, hex_digit (n div 16), hex_digit (n mod 16), CHR 0x7D]
         else [c])"

definition debug_str :: "string \<Rightarrow> string" where
  "debug_str s = [CHR 0x22] @ concat (map debug_char s) @ [CHR 0x22]"

definition amend :: "string \<Rightarrow> string \<Rightarrow> goal \<Rightarrow> string \<Rightarrow> coord_db \<Rightarrow> unit result \<times> coord_db" where
  "amend ts i g text db =
     (case prefixed_u32 ''budget='' text of
        Some n \<Rightarrow> (Inr (), raise_dispatch_cap ts i n db)
      | None \<Rightarrow>
      (case prefixed_u32 ''minutes='' text of
        Some n \<Rightarrow> (Inr (), raise_time_cap ts i n db)
      | None \<Rightarrow>
      (case prefixed_u32 ''capacity-budget='' text of
        Some n \<Rightarrow> (Inr (), raise_capacity_budget ts i n db)
      | None \<Rightarrow>
      (case prefixed_u32 ''capacity-minutes='' text of
        Some n \<Rightarrow> (Inr (), raise_capacity_wait_minutes ts i n db)
      | None \<Rightarrow>
      (case prefixed ''auto-merge='' text of
        Some v \<Rightarrow>
          (let enabled = (map ascii_lower v = ''true'')
           in if \<not> enabled \<and> map ascii_lower v \<noteq> ''false''
              then (Inl (''auto-merge=... needs true or false, got '' @ debug_str v), db)
              else (Inr (), set_auto_merge ts i enabled db))
      | None \<Rightarrow> (Inr (), log_event ts (g_session g) (Some i) EkMessage (''amendment: '' @ text) db))))))"

definition goal_amend ::
    "'v goal_env \<Rightarrow> string \<Rightarrow> string \<Rightarrow> coord_db \<Rightarrow> (goal_data result \<times> coord_db) option" where
  "goal_amend env i text db =
     (case goal_get i db of
        None \<Rightarrow> Some (Inl (''no such goal: '' @ i), db)
      | Some g \<Rightarrow>
          (case amend (ge_ts env) i g text db of
             (Inl e, db) \<Rightarrow> Some (Inl e, db)
           | (Inr _, db) \<Rightarrow>
               (case drive (ge_coord env) (mark_human_edited (ge_ts env) i db) of
                  None \<Rightarrow> None
                | Some (_, db) \<Rightarrow> Some (Inr DEmpty, db))))"

definition goal_resume :: "'v goal_env \<Rightarrow> string \<Rightarrow> coord_db \<Rightarrow> (goal_data result \<times> coord_db) option" where
  "goal_resume env i db =
     (case resume_goal (ge_coord env) i db of
        (Inl e, db) \<Rightarrow> Some (Inl e, db)
      | (Inr _, db) \<Rightarrow>
          (case drive (ge_coord env) db of
             None \<Rightarrow> None
           | Some (_, db) \<Rightarrow> Some (Inr DEmpty, db)))"

definition goal_cancel :: "string \<Rightarrow> string \<Rightarrow> coord_db \<Rightarrow> goal_data result \<times> coord_db" where
  "goal_cancel ts i db = (Inr DEmpty, set_status ts i GsCancelled db)"

section \<open>Merges\<close>

text \<open>The repository of a merge: the session's directory, and the root that contains it.\<close>

definition merge_repo :: "'v goal_env \<Rightarrow> pending_merge \<Rightarrow> coord_db \<Rightarrow> string result" where
  "merge_repo env pm db =
     (case session_get (p_session_id pm) db of
        None \<Rightarrow> Inl (''no such session: '' @ p_session_id pm)
      | Some s \<Rightarrow>
          (case ge_repo_root env (s_cwd s) of
             None \<Rightarrow> Inl (''goal '' @ p_goal_id pm @ '' has no resolvable repo root'')
           | Some base \<Rightarrow> Inr base))"

definition merge_show :: "'v goal_env \<Rightarrow> int \<Rightarrow> coord_db \<Rightarrow> goal_data result" where
  "merge_show env i db =
     (case merge_get i db of
        None \<Rightarrow> Inl (''no such pending merge: '' @ dec_int i)
      | Some pm \<Rightarrow>
          (case merge_repo env pm db of
             Inl e \<Rightarrow> Inl e
           | Inr base \<Rightarrow>
               (case ge_diff env base (p_branch pm) of
                  Inl e \<Rightarrow> Inl e
                | Inr d \<Rightarrow> Inr (DPendingMergeDiff (to_pending_merge_info pm) d))))"

definition merge_decide :: "'v goal_env \<Rightarrow> int \<Rightarrow> bool \<Rightarrow> 'v goal_state \<Rightarrow> goal_data result \<times> 'v goal_state" where
  "merge_decide env i allow st =
     (case merge_get i (gt_db st) of
        None \<Rightarrow> (Inl (''no such pending merge: '' @ dec_int i), st)
      | Some pm \<Rightarrow>
          (case merge_resolve (ge_ts env) i allow (gt_db st) of
             (Inl e, db) \<Rightarrow> (Inl e, st\<lparr>gt_db := db\<rparr>)
           | (Inr resolved, db) \<Rightarrow>
               (let log = log_event (ge_ts env) (p_session_id pm) (Some (p_goal_id pm));
                    what = p_dep_node_id pm @ '' ('' @ p_branch pm @ '')'';
                    ok = Inr (DPendingMerges [to_pending_merge_info resolved])
                in if \<not> allow then (ok, st\<lparr>gt_db := log EkMessage (what @ '' merge rejected by human'') db\<rparr>)
                   else
                     (case merge_repo env pm db of
                        Inl e \<Rightarrow> (Inl e, st\<lparr>gt_db := db\<rparr>)
                      | Inr base \<Rightarrow>
                          (let st = st\<lparr>gt_merged := gt_merged st @ [(base, p_branch pm)]\<rparr>
                           in case ge_merge env base (p_branch pm) of
                                Inr out \<Rightarrow>
                                  (ok, st\<lparr>gt_db := log EkMerged
                                        (what @ '' merged after human confirmation:'' @ newline @ out) db\<rparr>)
                              | Inl e \<Rightarrow>
                                  (Inl e, st\<lparr>gt_db := log EkMergeFailed (what @ '' confirmed merge failed: '' @ e) db\<rparr>))))))"

section \<open>The snapshot\<close>

definition running_of :: "coord_db \<Rightarrow> string \<Rightarrow> nat" where
  "running_of db agent = length (filter (\<lambda>r. nr_status r = ''running'' \<and> nr_agent r = agent) (db_nodes db))"

definition coordinator_status :: "'v goal_env \<Rightarrow> coord_db \<Rightarrow> coordinator_snapshot" where
  "coordinator_status env db =
     (let ce = ge_coord env; (cfg, t, health) = load_env ce db;
          pick = (\<lambda>want. map (goal_summary env) (filter (\<lambda>g. g_status g = want) (goal_list None db)))
      in \<lparr>cs_running_goals = pick GsRunning, cs_queued_goals = pick GsQueued, cs_blocked_goals = pick GsBlocked,
          cs_waiting_goals = pick GsWaitingOnCapacity,
          cs_pool = map (\<lambda>(a, cap). \<lparr>pg_agent = a, pg_running = running_of db a, pg_cap = cap,
                           pg_rate_limited = (a \<in> rate_limited_agents health)\<rparr>) (se_caps (ce_shell ce)),
          cs_max_parallel = max_parallel cfg\<rparr>)"

section \<open>The dispatch\<close>

text \<open>An arm that cannot panic and only uses the tables.\<close>

definition served ::
    "'v goal_state \<Rightarrow> (goal_data result \<times> coord_db) option \<Rightarrow> (goal_data result outcome \<times> 'v goal_state) option" where
  "served st answer = map_option (\<lambda>(r, db). (Ret r, st\<lparr>gt_db := db\<rparr>)) answer"

definition handle_goal ::
    "'v goal_env \<Rightarrow> task_db \<Rightarrow> goal_request \<Rightarrow> 'v goal_state \<Rightarrow> (goal_data result outcome \<times> 'v goal_state) option" where
  "handle_goal env tasks req st =
     (let db = ensure_coordinator_schema (gt_db st); ts = ge_ts env; st = st\<lparr>gt_db := db\<rparr>;
          just = (\<lambda>d. Some (Ret (Inr d), st))
      in case req of
           SessionNew cwd \<Rightarrow>
             served st (Some (case new_session ts (ge_nanos env) (ge_count env) cwd db of
                (Inl e, db) \<Rightarrow> (Inl e, db) | (Inr s, db) \<Rightarrow> (Inr (DSession (session_info s)), db)))
         | SessionList \<Rightarrow> just (DSessions (map session_info (session_list db)))
         | SessionClose i \<Rightarrow> served st (Some (Inr DEmpty, session_close ts i db))
         | GoalSubmit sid text mode md mm agent \<Rightarrow> goal_submit env sid text mode md mm agent st
         | GoalStatus i \<Rightarrow>
             (case goal_get i db of
                None \<Rightarrow> Some (Ret (Inl (''no such goal: '' @ i)), st)
              | Some g \<Rightarrow> just (DGoalView (goal_view env tasks g db)))
         | GoalList sid \<Rightarrow> just (DGoals (map (goal_summary env) (goal_list sid db)))
         | GoalAmend i text \<Rightarrow> served st (goal_amend env i text db)
         | GoalCancel i \<Rightarrow> served st (Some (goal_cancel ts i db))
         | GoalResume i \<Rightarrow> served st (goal_resume env i db)
         | SessionEvents sid since \<Rightarrow> just (DEvents (map coordinator_event (events_since sid since db)))
         | CoordinatorStatus \<Rightarrow> just (DSnapshot (coordinator_status env db))
         | GoalMergeList \<Rightarrow> just (DPendingMerges (map to_pending_merge_info (list_pending db)))
         | GoalMergeShow i \<Rightarrow> Some (Ret (merge_show env i db), st)
         | GoalMergeResolve i allow \<Rightarrow> (case merge_decide env i allow st of (r, st) \<Rightarrow> Some (Ret r, st)))"


section \<open>Submitting\<close>

text \<open>The row that a submitted goal gets, and what of a row planning leaves alone.\<close>

definition ordered :: "'v goal_env \<Rightarrow> string \<Rightarrow> string \<Rightarrow> string option \<Rightarrow> nat option \<Rightarrow> nat option \<Rightarrow> goal_row \<Rightarrow> bool" where
  "ordered env sid text mode md mm r \<longleftrightarrow>
     g_session r = sid \<and> g_text r = text \<and> g_mode r = goal_mode_str (submit_mode mode) \<and>
     g_max_dispatches r = submit_dispatches (ce_cfg (ge_coord env)) (submit_mode mode) md \<and>
     g_max_minutes r = unwrap_or mm (max_goal_minutes (ce_cfg (ge_coord env)))"

definition order_of :: "goal_row \<Rightarrow> string \<times> string \<times> string \<times> nat \<times> nat" where
  "order_of r = (g_session r, g_text r, g_mode r, g_max_dispatches r, g_max_minutes r)"

text \<open>Writes that add events and change of the rows of goals only how they are run.\<close>

definition order_kept :: "coord_db \<Rightarrow> coord_db \<Rightarrow> bool" where
  "order_kept db db' \<longleftrightarrow> db_sessions db' = db_sessions db \<and> set (db_events db) \<subseteq> set (db_events db') \<and>
     (\<forall>j. map_option order_of (goal_row j db') = map_option order_of (goal_row j db))"

lemma order_kept_refl: "order_kept db db"
  by (simp add: order_kept_def)

lemma order_kept_trans: "order_kept a b \<Longrightarrow> order_kept b c \<Longrightarrow> order_kept a c"
  by (auto simp: order_kept_def)

lemma order_kept_upd: "(\<And>r. g_id (f r) = g_id r) \<Longrightarrow> (\<And>r. order_of (f r) = order_of r) \<Longrightarrow> order_kept db (goal_upd i f db)"
proof -
  assume ids: "\<And>r. g_id (f r) = g_id r" and kept: "\<And>r. order_of (f r) = order_of r"
  have "map_option order_of (goal_row j (goal_upd i f db)) = map_option order_of (goal_row j db)" for j
    by (subst goals.get_upd) (simp_all add: ids kept option.map_comp comp_def cong: option.map_cong)
  moreover have "db_sessions (goal_upd i f db) = db_sessions db" "db_events (goal_upd i f db) = db_events db"
    by (simp_all add: goal_upd_def)
  ultimately show ?thesis by (simp add: order_kept_def)
qed

lemma order_kept_writes:
  "order_kept db (log_event ts s g k b db)" "order_kept db (db\<lparr>db_tasks := tasks\<rparr>)" "order_kept db (set_status ts i st db)"
  "order_kept db (set_blocked ts i why db)" "order_kept db (snd (save_graph js ts i gr db))"
proof -
  have "set (db_events db) \<subseteq> set (db_events (log_event ts s g k b db))" "db_sessions (log_event ts s g k b db) = db_sessions db"
    by (auto simp: log_event_def event_append_def Let_def)
  then show "order_kept db (log_event ts s g k b db)" by (simp add: order_kept_def frame_simps)
  show "order_kept db (db\<lparr>db_tasks := tasks\<rparr>)" by (simp add: order_kept_def goal_row_def)
  show "order_kept db (set_status ts i st db)" "order_kept db (set_blocked ts i why db)"
    unfolding set_status_def set_blocked_def by (rule order_kept_upd; simp add: order_of_def)+
  have "order_kept db (goal_upd i (\<lambda>r. r\<lparr>g_plan_json := js gr, g_updated_at := ts\<rparr>) db)"
    by (rule order_kept_upd) (simp_all add: order_of_def)
  then show "order_kept db (snd (save_graph js ts i gr db))" by (simp add: save_graph_def Let_def order_kept_refl order_kept_def goal_row_def)
qed

lemma order_kept_saved:
  assumes "order_kept db db1"
  shows "order_kept db (snd (case save_graph js ts i g db1 of (Inl e, db) \<Rightarrow> (Inl e, db) | (Inr _, db) \<Rightarrow> (Inr (), set_status ts' i st db)))"
proof -
  obtain x db2 where s: "save_graph js ts i g db1 = (x, db2)" by force
  have "order_kept db db2" using order_kept_trans [OF assms order_kept_writes(5), of js ts i g] by (simp add: s)
  then show ?thesis using order_kept_trans [OF _ order_kept_writes(3)] by (cases x) (simp_all add: s)
qed

lemma plan_keeps_order: "order_kept db (snd (plan_goal ce i a db))"
proof (cases "goal_get i db")
  case None
  then show ?thesis by (simp add: plan_goal_def order_kept_refl)
next
  case (Some g)
  obtain cfg t h where env: "load_env ce db = (cfg, t, h)" by (metis prod_cases3)
  let ?cwd = "case session_get (g_session g) db of Some s \<Rightarrow> s_cwd s | None \<Rightarrow> ''.''"
  obtain ans tasks where bp: "brain_plan (se_brain (ce_shell ce)) (g_text g) ?cwd t h (prefer_pool cfg) (db_tasks db) = (ans, tasks)" by force
  have logged: "order_kept db (log_event ts s gi k b (db\<lparr>db_tasks := tasks\<rparr>))" for ts s gi k b
    using order_kept_trans [OF order_kept_writes(2) order_kept_writes(1)] .
  consider "load_graph i db \<noteq> []" | "load_graph i db = []" "g_mode g = GmCareful" | "load_graph i db = []" "g_mode g \<noteq> GmCareful" by blast
  then show ?thesis
  proof cases
    case 1
    then show ?thesis using Some by (simp add: plan_goal_def order_kept_refl)
  next
    case 2
    then show ?thesis using Some env by (simp add: plan_goal_def Let_def order_kept_saved order_kept_writes(1))
  next
    case 3
    then show ?thesis using Some env bp logged order_kept_writes(2)
      by (cases ans) (simp_all add: plan_goal_def Let_def order_kept_saved)
  qed
qed

text \<open>A goal that has just been made.\<close>

lemma goal_created:
  assumes "goal_create ts nanos n sid text mode md mm db = (Inr g, db1)"
  shows "goal_row (g_id g) db = None" "load_graph i db1 = load_graph i db" "g_id g = short_id ''goal'' nanos n"
    "\<exists>r. goal_row (g_id g) db1 = Some r \<and> g_session r = sid \<and> g_text r = text \<and> g_mode r = goal_mode_str mode \<and>
       g_max_dispatches r = md \<and> g_max_minutes r = mm"
    "j \<noteq> g_id g \<Longrightarrow> goal_row j db1 = goal_row j db"
    "\<exists>e \<in> set (db_events db1). ev_session e = sid \<and> ev_goal e = Some (g_id g) \<and> CoordSchema.ev_kind e = ''message'' \<and>
       ev_body e = ''goal submitted: '' @ goal_truncate text 200"
    "db_sessions db1 = db_sessions (set_title_if_empty ts sid (goal_truncate text 80) db)"
proof -
  let ?i = "short_id ''goal'' nanos n"
  let ?row = "\<lparr>g_id = ?i, g_session = sid, g_text = text, g_mode = goal_mode_str mode,
    g_status = ''planning'', g_max_dispatches = md, g_max_minutes = mm,
    g_dispatches = 0, g_supervisor_patches = 0, g_plan_json = ''{}'', g_summary = None,
    g_blocked_reason = None, g_created_at = ts, g_updated_at = ts,
    g_capacity_reason = None, g_retry_at = None, g_capacity_waits = 0,
    g_capacity_budget = None, g_capacity_minutes = None, g_human_edit = None,
    g_auto_reevals = 0, g_auto_merge = 0\<rparr>"
  from assms have fresh: "\<not> exists_where (\<lambda>r. g_id r = ?i) (db_goals db)"
    and db1: "db1 = log_event ts sid (Some ?i) EkMessage (''goal submitted: '' @ goal_truncate text 200)
       (set_title_if_empty ts sid (goal_truncate text 80) (db\<lparr>db_goals := db_goals db @ [?row]\<rparr>))"
    and g: "goal_get ?i db1 = Some g"
    by (auto simp: goal_create_def Let_def split: if_splits option.splits)
  have none: "goal_row ?i db = None"
    using fresh by (simp add: goal_row_def exists_where_iff find_None_iff)
  then have row: "goal_row ?i db1 = Some ?row"
    by (simp add: db1 frame_simps set_title_if_empty_def goal_row_def table_simps)
  with g show i: "g_id g = ?i" by (auto simp: goal_get_def)
  with none row show "goal_row (g_id g) db = None" "\<exists>r. goal_row (g_id g) db1 = Some r \<and> g_session r = sid \<and> g_text r = text \<and>
      g_mode r = goal_mode_str mode \<and> g_max_dispatches r = md \<and> g_max_minutes r = mm"
    by simp_all
  show "load_graph i db1 = load_graph i db"
    by (simp add: db1 frame_simps set_title_if_empty_def load_graph_def)
  show "goal_row j db1 = goal_row j db" if "j \<noteq> g_id g"
    using that i by (simp add: db1 frame_simps set_title_if_empty_def goal_row_def table_simps split: option.split)
  show "\<exists>e \<in> set (db_events db1). ev_session e = sid \<and> ev_goal e = Some (g_id g) \<and> CoordSchema.ev_kind e = ''message'' \<and>
      ev_body e = ''goal submitted: '' @ goal_truncate text 200"
    by (simp add: db1 i log_event_def event_append_def Let_def)
  show "db_sessions db1 = db_sessions (set_title_if_empty ts sid (goal_truncate text 80) db)"
    by (simp add: db1 frame_simps set_title_if_empty_def session_upd_def)
qed

lemma goal_create_fresh:
  assumes "goal_row (short_id ''goal'' nanos n) db = None"
  shows "\<exists>g db1. goal_create ts nanos n sid text mode md mm db = (Inr g, db1)"
proof -
  have "\<not> exists_where (\<lambda>r. g_id r = short_id ''goal'' nanos n) (db_goals db)" "find (\<lambda>r. g_id r = short_id ''goal'' nanos n) (db_goals db) = None"
    using assms by (simp_all add: goal_row_def exists_where_iff find_None_iff)
  then show ?thesis
    by (simp add: goal_create_def Let_def goal_get_def frame_simps set_title_if_empty_def goal_row_def table_simps)
qed

definition no_stray_nodes :: "coord_db \<Rightarrow> bool" where
  "no_stray_nodes db \<longleftrightarrow> (\<forall>r \<in> set (db_nodes db). goal_row (nr_goal r) db \<noteq> None)"

definition set_off :: "'v goal_env \<Rightarrow> string \<Rightarrow> string \<Rightarrow> coord_db \<Rightarrow> coord_db \<Rightarrow> bool" where
  "set_off env i text db1 db' \<longleftrightarrow>
     (\<exists>r. goal_row i db1 = Some r \<and> g_text r = text \<and>
       (load_graph i db1 \<noteq> [] \<and> g_status r = ''running'' \<and> (\<exists>x. drive (ge_coord env) db1 = Some (x, db')) \<or>
        load_graph i db1 = [] \<and> g_status r = ''blocked'' \<and> g_blocked_reason r \<noteq> None \<and> db' = db1))"

text \<open>The goal is stored as it was asked for and announced, its session gets a title, and no other goal is touched.\<close>

definition stored ::
    "'v goal_env \<Rightarrow> string \<Rightarrow> string \<Rightarrow> string option \<Rightarrow> nat option \<Rightarrow> nat option \<Rightarrow> string \<Rightarrow> coord_db \<Rightarrow> coord_db \<Rightarrow> bool" where
  "stored env sid text mode md mm i db db1 \<longleftrightarrow>
     goal_row i db = None \<and> (\<exists>r. goal_row i db1 = Some r \<and> ordered env sid text mode md mm r) \<and>
     (\<exists>e \<in> set (db_events db1). ev_session e = sid \<and> ev_goal e = Some i \<and> CoordSchema.ev_kind e = ''message'' \<and>
        ev_body e = ''goal submitted: '' @ goal_truncate text 200) \<and>
     db_sessions db1 = db_sessions (set_title_if_empty (ge_ts env) sid (goal_truncate text 80) db) \<and>
     (\<forall>j. j \<noteq> i \<longrightarrow> goal_row j db1 = goal_row j db \<and> load_graph j db1 = load_graph j db)"

lemma stored_kept:
  assumes "stored env sid text mode md mm i db db1" "order_kept db1 db2"
    and "\<forall>j. j \<noteq> i \<longrightarrow> goal_row j db2 = goal_row j db1 \<and> load_graph j db2 = load_graph j db1"
  shows "stored env sid text mode md mm i db db2"
proof -
  from assms(1) obtain r where r: "goal_row i db1 = Some r" "ordered env sid text mode md mm r" by (auto simp: stored_def)
  with assms(2) obtain r' where "goal_row i db2 = Some r'" "order_of r' = order_of r"
    unfolding order_kept_def by (metis map_option_eq_Some option.simps(9))
  with r have "\<exists>r. goal_row i db2 = Some r \<and> ordered env sid text mode md mm r" by (auto simp: ordered_def order_of_def)
  then show ?thesis using assms unfolding stored_def order_kept_def by (metis (no_types, lifting) subsetD)
qed

lemma submit_text_spec:
  assumes "no_stray_nodes db" "submit_text env sid text mode md mm agent db = Some (Inr d, db')"
  shows "\<exists>i. d = DGoalId i \<and>
    ((\<exists>g. find_overlapping (ge_unicode env) text db = Some g \<and> i = g_id g \<and> db' = db) \<or>
     find_overlapping (ge_unicode env) text db = None \<and> i = short_id ''goal'' (ge_nanos env) (ge_count env) \<and>
     (\<exists>db1. stored env sid text mode md mm i db db1 \<and> set_off env i text db1 db'))"
proof (cases "find_overlapping (ge_unicode env) text db")
  case (Some g)
  with assms(2) show ?thesis by (auto simp: submit_text_def)
next
  case None
  with assms(2) obtain g db0 where made: "goal_create (ge_ts env) (ge_nanos env) (ge_count env) sid text (submit_mode mode)
      (submit_dispatches (ce_cfg (ge_coord env)) (submit_mode mode) md) (unwrap_or mm (max_goal_minutes (ce_cfg (ge_coord env)))) db
      = (Inr g, db0)"
    by (auto simp: submit_text_def Let_def split: sum.splits prod.splits)
  note c = goal_created [OF made]
  then obtain r where r: "goal_row (g_id g) db0 = Some r" "g_text r = text" by blast
  have st0: "stored env sid text mode md mm (g_id g) db db0" using c by (simp add: stored_def ordered_def)
  have "filter (\<lambda>r. nr_goal r = g_id g) (db_nodes db) = []"
    using assms(1) c(1) by (force simp: no_stray_nodes_def filter_empty_conv)
  then have "load_graph (g_id g) db = []" by (simp add: load_graph_def)
  then have empty: "load_graph (g_id g) db0 = []" using c(2) by simp
  obtain res db1 where plan: "plan_goal (ge_coord env) (g_id g) agent db0 = (res, db1)" by force
  note p = plan_goal_planned [OF r(1) empty plan]
  have kept: "order_kept db0 db1" using plan_keeps_order [of db0 "ge_coord env" "g_id g" agent] by (simp add: plan)
  have st1: "stored env sid text mode md mm (g_id g) db db1" using st0 kept p by (auto simp: planned_def intro: stored_kept)
  show ?thesis
  proof (cases res)
    case (Inl e)
    let ?db2 = "set_blocked (ge_ts env) (g_id g) (''planning failed: '' @ e) db1"
    have "d = DGoalId (g_id g)" "db' = ?db2" using assms(2) None made plan Inl by (simp_all add: submit_text_def Let_def)
    moreover have "set_off env (g_id g) text ?db2 ?db2"
      using p Inl r by (simp add: set_off_def planned_def set_blocked_def frame_simps goals.get_upd)
    moreover have "stored env sid text mode md mm (g_id g) db ?db2"
      using st1 order_kept_writes(4) by (rule stored_kept) (simp add: set_blocked_def frame_simps goals.get_upd)
    ultimately show ?thesis using c(3) None by auto
  next
    case (Inr u)
    with assms(2) None made plan obtain x where "d = DGoalId (g_id g)" "drive (ge_coord env) db1 = Some (x, db')"
      by (auto simp: submit_text_def Let_def split: option.splits)
    moreover from this p Inr r have "set_off env (g_id g) text db1 db'"
      by (auto simp: set_off_def planned_def)
    ultimately show ?thesis using c(3) st1 None by auto
  qed
qed

text \<open>The goal that is handed back for an ask is in flight and shares words with it; an ask with the text of a goal
  in flight is always handed back.\<close>

lemma overlapping_goal:
  assumes "find_overlapping u text db = Some g"
  shows "g \<in> set (active_goals db) \<and> set (goal_tokens u text) \<inter> set (goal_tokens u (g_text g)) \<noteq> {}"
proof -
  let ?want = "goal_tokens u text" and ?have = "goal_tokens u (g_text g)"
  from assms have "g \<in> set (active_goals db)" and p: "0 < min (length ?want) (length ?have)"
    "6 * min (length ?want) (length ?have) \<le> 10 * length (filter (\<lambda>w. w \<in> set ?have) ?want)"
    by (auto simp: find_overlapping_def Let_def min_def split: if_splits dest!: find_SomeD)
  then have "filter (\<lambda>w. w \<in> set ?have) ?want \<noteq> []" by (auto simp: min_def split: if_splits)
  with \<open>g \<in> set (active_goals db)\<close> show ?thesis by (auto simp: filter_empty_conv)
qed

lemma same_text_found:
  assumes "g \<in> set (active_goals db)" "goal_tokens u (g_text g) \<noteq> []"
  shows "find_overlapping u (g_text g) db \<noteq> None"
  using assms by (auto simp: find_overlapping_def Let_def find_None_iff filter_True)

text \<open>C31: a submitted goal is never lost and its secrets never reach the tables of the coordinator: the text is redacted
  first; the answer is the goal that \<open>find_overlapping\<close> finds for the redacted text, which is in flight and shares words with it, with nothing changed,
  and it finds one whenever a goal in flight has that very text; or the answer is a new goal that is stored with
  the redacted text, the mode and the caps of the request or the configured ones, announced in its session, which gets a title, with no other goal
  touched, and that has a graph, is running and was driven once, or is blocked with the reason for which it could not be planned.\<close>

theorem goal_submit_spec:
  assumes "no_stray_nodes (gt_db st)"
    and "handle_goal env tasks (GoalSubmit sid text mode md mm agent) st = Some (Ret (Inr d), st')"
  shows "\<exists>redacted aliases i. scan_and_replace (ge_vault env) (ge_now_ms env) sid text (gt_redact st) (gt_vault st) =
      (Ret (Inr (redacted, aliases)), gt_redact st', gt_vault st') \<and> d = DGoalId i \<and>
    ((\<exists>g \<in> set (active_goals (gt_db st)). find_overlapping (ge_unicode env) redacted (gt_db st) = Some g \<and> i = g_id g \<and>
        set (goal_tokens (ge_unicode env) redacted) \<inter> set (goal_tokens (ge_unicode env) (g_text g)) \<noteq> {} \<and> gt_db st' = gt_db st) \<or>
     find_overlapping (ge_unicode env) redacted (gt_db st) = None \<and>
     (\<forall>g \<in> set (active_goals (gt_db st)). g_text g = redacted \<longrightarrow> goal_tokens (ge_unicode env) redacted = []) \<and>
     i = short_id ''goal'' (ge_nanos env) (ge_count env) \<and>
     (\<exists>db1. stored env sid redacted mode md mm i (gt_db st) db1 \<and> set_off env i redacted db1 (gt_db st')))"
proof -
  from assms(2) obtain redacted aliases rd v db' where
    scan: "scan_and_replace (ge_vault env) (ge_now_ms env) sid text (gt_redact st) (gt_vault st) = (Ret (Inr (redacted, aliases)), rd, v)"
    and sub: "submit_text env sid redacted mode md mm agent (gt_db st) = Some (Inr d, db')"
    and st': "st' = st\<lparr>gt_redact := rd, gt_vault := v, gt_db := db'\<rparr>"
    by (auto simp: handle_goal_def goal_submit_def ensure_coordinator_schema_def Let_def
        split: prod.splits outcome.splits sum.splits option.splits)
  from submit_text_spec [OF assms(1) sub] obtain i where i: "d = DGoalId i"
    "(\<exists>g. find_overlapping (ge_unicode env) redacted (gt_db st) = Some g \<and> i = g_id g \<and> db' = gt_db st) \<or>
     find_overlapping (ge_unicode env) redacted (gt_db st) = None \<and> i = short_id ''goal'' (ge_nanos env) (ge_count env) \<and>
     (\<exists>db1. stored env sid redacted mode md mm i (gt_db st) db1 \<and> set_off env i redacted db1 db')" by blast
  show ?thesis
  proof (rule exI [of _ redacted], rule exI [of _ aliases], rule exI [of _ i], intro conjI)
    from i(2) show "(\<exists>g \<in> set (active_goals (gt_db st)). find_overlapping (ge_unicode env) redacted (gt_db st) = Some g \<and> i = g_id g \<and>
        set (goal_tokens (ge_unicode env) redacted) \<inter> set (goal_tokens (ge_unicode env) (g_text g)) \<noteq> {} \<and> gt_db st' = gt_db st) \<or>
     find_overlapping (ge_unicode env) redacted (gt_db st) = None \<and>
     (\<forall>g \<in> set (active_goals (gt_db st)). g_text g = redacted \<longrightarrow> goal_tokens (ge_unicode env) redacted = []) \<and>
     i = short_id ''goal'' (ge_nanos env) (ge_count env) \<and>
     (\<exists>db1. stored env sid redacted mode md mm i (gt_db st) db1 \<and> set_off env i redacted db1 (gt_db st'))"
    proof (elim disjE exE conjE)
      fix g assume g: "find_overlapping (ge_unicode env) redacted (gt_db st) = Some g" "i = g_id g" "db' = gt_db st"
      from overlapping_goal [OF g(1)] g st' show ?thesis by (intro disjI1 bexI [of _ g]) simp_all
    next
      fix db1 assume n: "find_overlapping (ge_unicode env) redacted (gt_db st) = None" "i = short_id ''goal'' (ge_nanos env) (ge_count env)"
        "stored env sid redacted mode md mm i (gt_db st) db1" "set_off env i redacted db1 db'"
      then show ?thesis using same_text_found [of _ "gt_db st" "ge_unicode env"] st' by (intro disjI2) fastforce
    qed
  qed (simp_all add: scan i(1) st')
qed

section \<open>Amending\<close>

lemma amend_writes [frame_simps]:
  "load_graph j (raise_dispatch_cap ts i n db) = load_graph j db"
  "load_graph j (raise_time_cap ts i n db) = load_graph j db"
  "load_graph j (raise_capacity_budget ts i n db) = load_graph j db"
  "load_graph j (raise_capacity_wait_minutes ts i n db) = load_graph j db"
  "load_graph j (set_auto_merge ts i b db) = load_graph j db"
  "load_graph j (mark_human_edited ts i db) = load_graph j db"
  by (simp_all add: raise_dispatch_cap_def raise_time_cap_def raise_capacity_budget_def raise_capacity_wait_minutes_def
      set_auto_merge_def mark_human_edited_def frame_simps)

text \<open>What an amendment may do to the row of its goal.\<close>

definition amended :: "string \<Rightarrow> goal_row \<Rightarrow> goal_row \<Rightarrow> bool" where
  "amended text r r' \<longleftrightarrow>
     g_text r' = g_text r \<and> g_mode r' = g_mode r \<and> g_dispatches r' = g_dispatches r \<and>
     (g_status r' = g_status r \<or> g_status r = ''blocked'' \<and> g_status r' = ''running'' \<and> g_blocked_reason r' = None) \<and>
     g_max_dispatches r' = unwrap_or (prefixed_u32 ''budget='' text) (g_max_dispatches r)"

lemma amend_amended:
  assumes "goal_row i db = Some r" "amend ts i (row_to_goal r) text db = (Inr (), db1)"
  shows "\<exists>r'. goal_row i db1 = Some r' \<and> amended text r r' \<and> (\<forall>j. load_graph j db1 = load_graph j db)"
proof -
  have "\<exists>r'. goal_row i db1 = Some r' \<and> amended text r r'"
    using assms by (auto simp: amend_def amended_def raise_dispatch_cap_def raise_time_cap_def raise_capacity_budget_def
        raise_capacity_wait_minutes_def set_auto_merge_def goals.get_upd frame_simps reopened_def Let_def
        split: option.splits if_splits)
  moreover have "\<forall>j. load_graph j db1 = load_graph j db"
    using assms(2) by (auto simp: amend_def frame_simps Let_def split: option.splits if_splits)
  ultimately show ?thesis by blast
qed

text \<open>An amendment that is accepted marks the goal as touched by a human before the coordinator is driven again, keeps
  its text, its graph and what it has spent, and at most reopens it when it was blocked; the cap on dispatches is
  the number of a \<open>budget=\<close> and else as before. One that is refused changes nothing.\<close>

theorem goal_amend_spec:
  assumes "goal_row i (gt_db st) = Some r" "handle_goal env tasks (GoalAmend i text) st = Some (Ret res, st')"
  shows "(case res of
     Inl e \<Rightarrow> st' = st
   | Inr d \<Rightarrow> d = DEmpty \<and> (\<exists>db1 x r1. drive (ge_coord env) db1 = Some (x, gt_db st') \<and> goal_row i db1 = Some r1 \<and>
       g_human_edit r1 = Some (ge_ts env) \<and> amended text r r1 \<and> (\<forall>j. load_graph j db1 = load_graph j (gt_db st))))"
proof -
  have g: "goal_get i (gt_db st) = Some (row_to_goal r)" using assms(1) by (simp add: goal_get_def)
  obtain ans db1 where am: "amend (ge_ts env) i (row_to_goal r) text (gt_db st) = (ans, db1)" by force
  show ?thesis
  proof (cases ans)
    case (Inl e)
    then have "db1 = gt_db st"
      using am by (auto simp: amend_def Let_def split: option.splits if_splits)
    with assms(2) g am Inl show ?thesis
      by (auto simp: handle_goal_def goal_amend_def served_def ensure_coordinator_schema_def Let_def)
  next
    case (Inr u)
    with am have am': "amend (ge_ts env) i (row_to_goal r) text (gt_db st) = (Inr (), db1)" by simp
    from amend_amended [OF assms(1) this] obtain r1 where r1: "goal_row i db1 = Some r1" "amended text r r1"
      "\<forall>j. load_graph j db1 = load_graph j (gt_db st)" by blast
    let ?db2 = "mark_human_edited (ge_ts env) i db1"
    have "goal_row i ?db2 = Some (r1\<lparr>g_human_edit := Some (ge_ts env)\<rparr>)"
      using r1(1) by (simp add: mark_human_edited_def goals.get_upd)
    moreover have "amended text r (r1\<lparr>g_human_edit := Some (ge_ts env)\<rparr>)" using r1(2) by (simp add: amended_def)
    moreover have "\<forall>j. load_graph j ?db2 = load_graph j (gt_db st)" using r1(3) by (simp add: frame_simps)
    moreover obtain x where "res = Inr DEmpty" "drive (ge_coord env) ?db2 = Some (x, gt_db st')"
      using assms(2) g am' by (auto simp: handle_goal_def goal_amend_def served_def ensure_coordinator_schema_def Let_def
          split: option.splits prod.splits)
    ultimately show ?thesis by auto
  qed
qed

section \<open>Cancelling\<close>

text \<open>A cancelled goal comes back: the cancellation stops neither its tasks nor their settlement, and when one of its tasks ends
  rate limited with allowance left, the goal is put on a capacity wait and is active again.\<close>

theorem cancelled_goal_revives:
  assumes "find (\<lambda>r. nr_task r = Some t \<and> nr_status r = ''running'') (db_nodes (gt_db st)) = Some nr"
    and "task_get t (gt_db st) = Inr (Some k)" "tk_status k \<noteq> ''completed''" "tk_rate_limited k \<noteq> 0"
    and "goal_row (nr_goal nr) (gt_db st) = Some r" "g_mode r = ''auto''"
    and "g_capacity_waits r < unwrap_or (g_capacity_budget r) (max_capacity_waits_per_goal cfg)"
    and "num_minutes (se_now shell - unwrap_or (se_parse_ts shell (g_created_at r)) (se_now shell)) <
      int (unwrap_or (g_capacity_minutes r) (max_capacity_wait_minutes cfg))"
    and "handle_goal env tasks (GoalCancel (nr_goal nr)) st = Some (ans, st')"
  shows "map_option g_status (goal_row (nr_goal nr) (gt_db st')) = Some ''cancelled'' \<and>
    (\<exists>db'. settle_finished_node shell cfg tab h t (gt_db st') = (Inr (), db') \<and>
       nr_goal nr \<in> g_id ` set (active_goals db'))"
proof -
  let ?i = "nr_goal nr" and ?db = "set_status (ge_ts env) (nr_goal nr) GsCancelled (gt_db st)"
  have st': "gt_db st' = ?db"
    using assms(9) by (auto simp: handle_goal_def goal_cancel_def served_def ensure_coordinator_schema_def Let_def)
  let ?r = "r\<lparr>g_status := ''cancelled'', g_updated_at := ge_ts env\<rparr>"
  have row: "goal_row ?i ?db = Some ?r" using assms(5) by (simp add: set_status_def goals.get_upd)
  have i: "g_id r = ?i" using assms(5) by (rule goals.get_key)
  have nodes: "db_nodes ?db = db_nodes (gt_db st)" "db_tasks ?db = db_tasks (gt_db st)"
    by (simp_all add: set_status_def goal_upd_def)
  have "parse_or goal_mode_parse GmAuto ''auto'' = GmAuto" using parse_or_str(4) [of GmAuto GmAuto] by simp
  then have mode: "g_mode (row_to_goal ?r) = GmAuto" using assms(6) by (simp add: row_to_goal_def)
  let ?db' = "handle_capacity_exhaustion shell (row_to_goal ?r) (nr_id nr) (tk_artifact k) cfg ?db"
  have "task_get t ?db = Inr (Some k)" using assms(2) by (simp add: task_get_def nodes)
  then have settle: "settle_finished_node shell cfg tab h t ?db = (Inr (), ?db')"
    using assms(1,3,4) row mode by (simp add: settle_finished_node_def goal_get_def nodes)
  have "\<exists>x. goal_row ?i ?db' = Some x \<and> g_status x = ''waiting_on_capacity''"
    using row assms(7,8) i
    by (auto simp: handle_capacity_exhaustion_def Let_def frame_simps set_waiting_on_capacity_def goals.get_upd split: option.split)
  then obtain x where x: "goal_row ?i ?db' = Some x" "g_status x = ''waiting_on_capacity''" by blast
  then have "x \<in> set (db_goals ?db')" "g_id x = ?i" by (auto simp: goal_row_def dest: find_SomeD)
  then have "row_to_goal x \<in> set (active_goals ?db')" "g_id (row_to_goal x) = ?i"
    using x(2) by (simp_all add: active_goals_def active_statuses_def)
  then have "?i \<in> g_id ` set (active_goals ?db')" by (metis image_eqI)
  with settle row show ?thesis by (auto simp: st')
qed

section \<open>Merges that wait for a human\<close>

lemma merge_log_frames [frame_simps]:
  "merge_get i (log_event ts s g k b db) = merge_get i db"
  by (simp add: merge_get_def frame_simps)

lemma resolved_get:
  assumes "merges_ok db" "merge_get i db = Some pm" "merge_resolve ts i allow db = (x, db1)"
  shows "\<exists>pm1. x = Inr pm1 \<and> merge_get i db1 = Some pm1 \<and>
    p_status pm1 = (if p_status pm = MsPending then (if allow then MsConfirmed else MsRejected) else p_status pm)"
proof -
  from assms(2) obtain row where row: "merge_row i db = Some row" "pm = row_to_pending_merge row"
    by (auto simp: merge_get_def)
  then have "pm_status row \<in> range merge_status_str"
    using assms(1) by (auto simp: merges_ok_def merge_row_def dest: find_SomeD)
  then obtain s where s: "pm_status row = merge_status_str s" by blast
  have r1: "merge_row i db1 = map_option (\<lambda>r. if pm_status r = ''pending''
       then r\<lparr>pm_status := merge_status_str (if allow then MsConfirmed else MsRejected), pm_resolved_at := Some ts\<rparr>
       else r) (merge_row i db)"
    using merge_resolve_row [of i ts allow db] assms(3) by simp
  have x: "x = (case merge_get i db1 of Some m \<Rightarrow> Inr m | None \<Rightarrow> Inl (''no such pending merge: '' @ dec_int i))"
    using fst_merge_resolve [of ts i allow db] assms(3) by simp
  have parse: "merge_status_parse ''pending'' = MsPending" "merge_status_parse ''confirmed'' = MsConfirmed"
    "merge_status_parse ''rejected'' = MsRejected" by (simp_all add: merge_status_parse_def)
  show ?thesis using row s r1 x
    by (cases s) (auto simp: merge_get_def row_to_pending_merge_def parse)
qed

text \<open>C32: the branch of a pending merge is handed to git exactly when the request allows it and the repository is found,
  whatever was decided before: a merge that was rejected is run by a later permission, while the record goes on saying
  that it was rejected. The first decision is the one that is kept, and no goal, node or task changes.\<close>

theorem rejected_merge_still_runs:
  assumes "merges_ok (gt_db st)" "merge_get i (gt_db st) = Some pm"
    and "handle_goal env tasks (GoalMergeResolve i allow) st = Some (ans, st')"
  shows "gt_merged st' = gt_merged st @
      (if allow then (case merge_repo env pm (gt_db st) of Inr base \<Rightarrow> [(base, p_branch pm)] | Inl _ \<Rightarrow> []) else []) \<and>
    map_option p_status (merge_get i (gt_db st')) =
      Some (if p_status pm = MsPending then (if allow then MsConfirmed else MsRejected) else p_status pm) \<and>
    db_goals (gt_db st') = db_goals (gt_db st) \<and> db_nodes (gt_db st') = db_nodes (gt_db st) \<and>
    db_tasks (gt_db st') = db_tasks (gt_db st)"
proof -
  obtain x db1 where res: "merge_resolve (ge_ts env) i allow (gt_db st) = (x, db1)" by force
  from resolved_get [OF assms(1,2) res] obtain pm1 where pm1: "x = Inr pm1" "merge_get i db1 = Some pm1"
    "p_status pm1 = (if p_status pm = MsPending then (if allow then MsConfirmed else MsRejected) else p_status pm)" by blast
  have frame: "db_goals db1 = db_goals (gt_db st)" "db_nodes db1 = db_nodes (gt_db st)" "db_tasks db1 = db_tasks (gt_db st)"
    "db_sessions db1 = db_sessions (gt_db st)"
    using res by (auto simp: merge_resolve_def Let_def merge_upd_def split: option.splits)
  have repo: "merge_repo env pm db1 = merge_repo env pm (gt_db st)" by (simp add: merge_repo_def session_get_def frame)
  let ?log = "log_event (ge_ts env) (p_session_id pm) (Some (p_goal_id pm))"
  define P where "P d \<longleftrightarrow> (\<exists>k b. d = ?log k b db1 \<or> d = db1)" for d
  have P [simp]: "P (?log k b db1)" "P db1" for k b by (auto simp: P_def)
  have st': "P (gt_db st') \<and> gt_merged st' = gt_merged st @
      (if allow then (case merge_repo env pm (gt_db st) of Inr base \<Rightarrow> [(base, p_branch pm)] | Inl _ \<Rightarrow> []) else [])"
  proof (cases allow)
    case False
    then show ?thesis using assms(2,3) res pm1(1)
      by (auto simp: handle_goal_def merge_decide_def ensure_coordinator_schema_def Let_def)
  next
    case True
    show ?thesis
    proof (cases "merge_repo env pm (gt_db st)")
      case (Inl e)
      then show ?thesis using True assms(2,3) res pm1(1) repo
        by (auto simp: handle_goal_def merge_decide_def ensure_coordinator_schema_def Let_def)
    next
      case (Inr base)
      then show ?thesis using True assms(2,3) res pm1(1) repo
        by (cases "ge_merge env base (p_branch pm)")
          (auto simp: handle_goal_def merge_decide_def ensure_coordinator_schema_def Let_def)
    qed
  qed
  then obtain k b where "gt_db st' = ?log k b db1 \<or> gt_db st' = db1" by (auto simp: P_def)
  then have "merge_get i (gt_db st') = Some pm1" "db_goals (gt_db st') = db_goals db1" "db_nodes (gt_db st') = db_nodes db1"
    "db_tasks (gt_db st') = db_tasks db1"
    using pm1(2) by (auto simp: frame_simps)
  with st' pm1(3) frame show ?thesis by simp
qed

section \<open>Concrete runs\<close>

definition demo_unicode :: unicode where
  "demo_unicode = \<lparr>uc_alnum = (\<lambda>_. True), uc_lower = (\<lambda>cs i. cs ! i)\<rparr>"

definition demo_goals :: "(string \<Rightarrow> string option) goal_env" where
  "demo_goals = \<lparr>ge_coord = demo_start, ge_vault = open_vault, ge_now_ms = 7, ge_nanos = 5, ge_count = 0, ge_unicode = demo_unicode,
     ge_rfc3339 = (\<lambda>_. None), ge_repo_root = Some, ge_diff = (\<lambda>_ _. Inr ''''), ge_merge = (\<lambda>_ _. Inr ''done'')\<rparr>"

definition demo_served :: "coord_db \<Rightarrow> (string \<Rightarrow> string option) goal_state" where
  "demo_served db = \<lparr>gt_db = db, gt_redact = \<lparr>rd_rows = [], rd_counter = 1\<rparr>, gt_vault = Map.empty, gt_merged = []\<rparr>"

definition rejected_db :: coord_db where
  "rejected_db = empty_coord_db\<lparr>
     db_sessions := [\<lparr>s_id = ''s'', s_cwd = ''/repo'', s_title = '''', s_created_at = ''t0'', s_updated_at = ''t0'', s_status = ''active''\<rparr>],
     db_merges := [\<lparr>pm_id = 1, pm_goal = ''g'', pm_session = ''s'', pm_review_node = ''r'', pm_dep_node = ''c'',
       pm_branch = ''b'', pm_status = ''rejected'', pm_created_at = ''t0'', pm_resolved_at = Some ''t0''\<rparr>], db_merge_seq := 1\<rparr>"

theorem rejected_merge_still_runs_witness:
  "\<exists>a st'. handle_goal demo_goals empty_task_db (GoalMergeResolve 1 True) (demo_served rejected_db) = Some (a, st') \<and>
     gt_merged st' = [(''/repo'', ''b'')] \<and> map_option p_status (merge_get 1 (gt_db st')) = Some MsRejected"
proof -
  let ?st = "demo_served rejected_db"
  have r: "''rejected'' \<in> range merge_status_str" by (rule range_eqI [of _ _ MsRejected]) simp
  then have ok: "merges_ok (gt_db ?st)" by (simp add: merges_ok_def demo_served_def rejected_db_def empty_coord_db_def)
  have p: "merge_status_parse ''rejected'' = MsRejected" by (simp add: merge_status_parse_def)
  obtain pm where pm: "merge_get 1 (gt_db ?st) = Some pm" "p_session_id pm = ''s''" "p_branch pm = ''b''" "p_status pm = MsRejected"
    by (simp add: merge_get_def merge_row_def demo_served_def rejected_db_def row_to_pending_merge_def p)
  have repo: "merge_repo demo_goals pm (gt_db ?st) = Inr ''/repo''"
    using pm by (simp add: merge_repo_def session_get_def demo_served_def rejected_db_def demo_goals_def)
  obtain a st' where h: "handle_goal demo_goals empty_task_db (GoalMergeResolve 1 True) ?st = Some (a, st')"
    by (cases "merge_decide demo_goals 1 True ?st") (simp add: handle_goal_def ensure_coordinator_schema_def Let_def)
  from rejected_merge_still_runs [OF ok pm(1) h] pm repo h show ?thesis by (simp add: demo_served_def)
qed

lemma demo_planning_fails:
  assumes "goal_get i db = Some g" "g_mode g = GmAuto" "load_graph i db = []"
  shows "\<exists>e db'. plan_goal demo_start i a db = (Inl e, db')"
proof -
  have no: "\<exists>e tasks'. brain_plan (se_brain demo_env) gt cwd t h p tasks = (Inl e, tasks')" for gt cwd t h p tasks
    by (simp add: brain_plan_def run_role_def demo_env_def Let_def split: option.split)
  obtain cfg t h where env: "load_env demo_start db = (cfg, t, h)" by (metis prod_cases3)
  let ?cwd = "case session_get (g_session g) db of Some s \<Rightarrow> s_cwd s | None \<Rightarrow> ''.''"
  from no obtain e tasks' where "brain_plan (se_brain demo_env) (g_text g) ?cwd t h (prefer_pool cfg) (db_tasks db) = (Inl e, tasks')"
    by blast
  moreover have "ce_shell demo_start = demo_env" by (simp add: demo_start_def)
  ultimately show ?thesis using assms env by (simp add: plan_goal_def Let_def)
qed

theorem goal_submit_spec_witness:
  "\<exists>i st' db1. handle_goal demo_goals empty_task_db (GoalSubmit ''s'' ''x'' None None None None) (demo_served demo_db) =
       Some (Ret (Inr (DGoalId i)), st') \<and> i \<noteq> ''g'' \<and> stored demo_goals ''s'' ''x'' None None None i demo_db db1 \<and>
       set_off demo_goals i ''x'' db1 (gt_db st')"
proof -
  let ?st = "demo_served demo_db" and ?i = "short_id ''goal'' 5 0"
  have stray: "no_stray_nodes (gt_db ?st)"
    by (simp add: no_stray_nodes_def demo_served_def demo_db_def demo_goal_def demo_node_def goal_row_def)
  have "vendor_all ''x'' = []" "find_jwt_shapes ''x'' = []" "find_assignment_values (map ascii_lower) ''x'' = Ret []"
    "\<forall>w \<in> set (whitespace_tokens ''x''). \<not> list_ex is_digit (snd w)" by code_simp+
  then have spans: "find_secret_spans (va_lower open_vault) ''x'' = Ret []"
    by (simp add: find_secret_spans_def find_high_entropy_tokens_def no_digit_plain split_def open_vault_def cong: filter_cong)
  then have scan: "scan_and_replace open_vault 7 ''s'' ''x'' rd v = (Ret (Inr (''x'', [])), rd, v)" for rd v
    by (simp add: scan_and_replace_def)
  have "goal_tokens demo_unicode ''x'' = []" by code_simp
  then have none: "find_overlapping demo_unicode ''x'' demo_db = None" by (simp add: find_overlapping_def)
  have fresh: "?i \<noteq> ''g''" by (simp add: short_id_def)
  then have row: "goal_row ?i demo_db = None" by (simp add: goal_row_def demo_db_def demo_goal_def)
  let ?cfg = "ce_cfg demo_start"
  from goal_create_fresh [OF row] obtain g db1 where made: "goal_create (ge_ts demo_goals) 5 0 ''s'' ''x'' GmAuto
      (submit_dispatches ?cfg GmAuto None) (max_goal_minutes ?cfg) demo_db = (Inr g, db1)" by blast
  note c = goal_created [OF made]
  have g: "goal_get (g_id g) db1 = Some g"
    using made c(3) by (auto simp: goal_create_def Let_def split: if_splits option.splits)
  have "parse_or goal_mode_parse GmAuto ''auto'' = GmAuto" using parse_or_str(4) [of GmAuto GmAuto] by simp
  then have "g_mode g = GmAuto" using g c(4) by (auto simp: goal_get_def row_to_goal_def)
  moreover have "load_graph (g_id g) db1 = []"
    using c(2,3) fresh by (simp add: load_graph_def demo_db_def demo_node_def demo_goal_def)
  ultimately obtain e db2 where "plan_goal demo_start (g_id g) None db1 = (Inl e, db2)" using demo_planning_fails [OF g] by blast
  then obtain db' where "submit_text demo_goals ''s'' ''x'' None None None None demo_db = Some (Inr (DGoalId (g_id g)), db')"
    using none made by (simp add: submit_text_def submit_mode_def unwrap_or_def demo_goals_def Let_def)
  then have h: "\<exists>st'. handle_goal demo_goals empty_task_db (GoalSubmit ''s'' ''x'' None None None None) ?st =
      Some (Ret (Inr (DGoalId (g_id g))), st')"
    by (simp add: handle_goal_def goal_submit_def demo_goals_def demo_served_def scan ensure_coordinator_schema_def)
  then obtain st' where st': "handle_goal demo_goals empty_task_db (GoalSubmit ''s'' ''x'' None None None None) ?st =
      Some (Ret (Inr (DGoalId (g_id g))), st')" by blast
  have "find_overlapping (ge_unicode demo_goals) ''x'' demo_db = None" "ge_vault demo_goals = open_vault" "ge_now_ms demo_goals = 7"
    "gt_db ?st = demo_db" using none by (simp_all add: demo_goals_def demo_served_def)
  with goal_submit_spec [OF stray st'] st' scan fresh c(3) show ?thesis by auto
qed

theorem goal_amend_spec_witness:
  "\<exists>res st'. handle_goal demo_goals empty_task_db (GoalAmend ''g'' ''auto-merge=yes'')
       (demo_served (demo_db\<lparr>db_goals := [demo_goal\<lparr>g_status := ''done''\<rparr>], db_nodes := []\<rparr>)) = Some (Ret res, st') \<and>
     map_option g_status (goal_row ''g'' (gt_db st')) = Some ''done''"
proof -
  let ?r = "demo_goal\<lparr>g_status := ''done''\<rparr>"
  let ?st = "demo_served (demo_db\<lparr>db_goals := [?r], db_nodes := []\<rparr>)"
  have row: "goal_row ''g'' (gt_db ?st) = Some ?r" by (simp add: demo_served_def goal_row_def demo_goal_def)
  have "prefixed_u32 ''budget='' ''auto-merge=yes'' = None" "prefixed_u32 ''minutes='' ''auto-merge=yes'' = None"
    "prefixed_u32 ''capacity-budget='' ''auto-merge=yes'' = None" "prefixed_u32 ''capacity-minutes='' ''auto-merge=yes'' = None"
    "prefixed ''auto-merge='' ''auto-merge=yes'' = Some ''yes''" by code_simp+
  then have "\<exists>e. amend (ge_ts demo_goals) ''g'' (row_to_goal ?r) ''auto-merge=yes'' (gt_db ?st) = (Inl e, gt_db ?st)"
    by (simp add: amend_def ascii_lower_def)
  then obtain e where "handle_goal demo_goals empty_task_db (GoalAmend ''g'' ''auto-merge=yes'') ?st = Some (Ret (Inl e), ?st)"
    using row by (auto simp: handle_goal_def goal_amend_def served_def goal_get_def ensure_coordinator_schema_def)
  from goal_amend_spec [OF row this] this row show ?thesis by auto
qed

theorem cancelled_goal_revives_witness:
  "\<exists>a st' db'. handle_goal demo_goals empty_task_db (GoalCancel ''g'')
       (demo_served (demo_db\<lparr>db_tasks := [limited_task], db_goals := [demo_goal\<lparr>g_capacity_budget := Some 5\<rparr>]\<rparr>)) = Some (a, st') \<and>
     map_option g_status (goal_row ''g'' (gt_db st')) = Some ''cancelled'' \<and>
     settle_finished_node demo_env default_config default_table \<lparr>detected_authed = {}, rate_limited_agents = {}\<rparr> 7 (gt_db st') =
       (Inr (), db') \<and> ''g'' \<in> g_id ` set (active_goals db')"
proof -
  let ?r = "demo_goal\<lparr>g_capacity_budget := Some 5\<rparr>"
  let ?st = "demo_served (demo_db\<lparr>db_tasks := [limited_task], db_goals := [?r]\<rparr>)"
  have row: "find (\<lambda>r. nr_task r = Some 7 \<and> nr_status r = ''running'') (db_nodes (gt_db ?st)) = Some demo_node"
    and task: "task_get 7 (gt_db ?st) = Inr (Some limited_task)"
    and goal: "goal_row (nr_goal demo_node) (gt_db ?st) = Some ?r" and g: "nr_goal demo_node = ''g''"
    by (simp_all add: demo_served_def demo_db_def demo_node_def demo_goal_def limited_task_def task_get_def
        SchedulerShell.task_statuses_def goal_row_def)
  have waits: "g_capacity_waits ?r < unwrap_or (g_capacity_budget ?r) (max_capacity_waits_per_goal default_config)"
    and time: "num_minutes (se_now demo_env - unwrap_or (se_parse_ts demo_env (g_created_at ?r)) (se_now demo_env)) <
      int (unwrap_or (g_capacity_minutes ?r) (max_capacity_wait_minutes default_config))"
    and mode: "g_mode ?r = ''auto''"
    by (simp_all add: demo_goal_def demo_env_def num_minutes_def default_config_def default_max_capacity_wait_minutes_def)
  obtain a st' where h: "handle_goal demo_goals empty_task_db (GoalCancel (nr_goal demo_node)) ?st = Some (a, st')"
    by (simp add: handle_goal_def served_def goal_cancel_def)
  from cancelled_goal_revives [OF row task _ _ goal mode waits time h] h show ?thesis
    by (auto simp: limited_task_def g)
qed

end
