(* ===== verification/McpGateway.thy ===== *)
theory McpGateway
  imports Permissions Registries Notes
begin

text \<open>
  The dynamic MCP gateway, \<open>crates/single-mcp/src/gateway.rs\<close> with its container companion \<open>distrobox.rs\<close>:
  one server in front of all registered ones, which are started on first use, reused, and dropped when they are idle. A
  session is the number of its process; the processes started and the requests sent to them are logged in the state.
  Processes, the key chain, the files and the printer of JSON are fields of \<open>gateway_env\<close>; the lock that
  \<open>ensure_session\<close> holds makes a call one step. Times are milliseconds.
\<close>

section \<open>State and outside\<close>

record session_entry =
  sx_process :: nat
  sx_last_used :: nat

record gateway =
  gw_sessions :: "string \<rightharpoonup> session_entry"
  gw_started :: "string list"
  gw_sent :: "(nat \<times> string option) list"
  gw_prefs :: prefs_db
  gw_notes :: note_table

definition new_gateway :: "prefs_db \<Rightarrow> note_table \<Rightarrow> gateway" where
  "new_gateway prefs notes = \<lparr>gw_sessions = Map.empty, gw_started = [], gw_sent = [], gw_prefs = prefs, gw_notes = notes\<rparr>"

record gateway_env =
  mg_now :: nat
  mg_ts :: string
  mg_registry :: "mcp_spec reg_file"
  mg_rules :: "rule list result"
  mg_project :: "string option"
  mg_secret :: "string \<Rightarrow> string option result"
  mg_spawn :: "mcp_spec \<Rightarrow> (string \<times> string) list \<Rightarrow> unit result"
  mg_initialize :: "mcp_spec \<Rightarrow> unit result"
  mg_list_all :: "nat \<Rightarrow> json result"
  mg_call :: "nat \<Rightarrow> string \<Rightarrow> json option \<Rightarrow> json result"
  mg_pretty :: "json \<Rightarrow> string"

text \<open>\<open>with_context\<close> and the alternate form \<open>{:#}\<close>, which prints the chain of causes.\<close>

definition with_context :: "string \<Rightarrow> 'a result \<Rightarrow> 'a result" where
  "with_context c r = (case r of Inl e \<Rightarrow> Inl (c @ '': '' @ e) | Inr x \<Rightarrow> Inr x)"

definition quoted :: "string \<Rightarrow> string" where
  "quoted s = [CHR 0x27] @ s @ [CHR 0x27]"

section \<open>Timeouts\<close>

definition DEFAULT_IDLE_TIMEOUT_SECS :: nat where
  "DEFAULT_IDLE_TIMEOUT_SECS = 600"

definition DEFAULT_SWEEP_INTERVAL_SECS :: nat where
  "DEFAULT_SWEEP_INTERVAL_SECS = 60"

text \<open>The duration in seconds, from the value of the variable.\<close>

definition duration_from_env :: "string option \<Rightarrow> nat \<Rightarrow> nat" where
  "duration_from_env var default_secs =
     (case Option.bind var parse_u64 of
        Some s \<Rightarrow> if 0 < s then unat s else default_secs
      | None \<Rightarrow> default_secs)"

definition is_idle :: "nat \<Rightarrow> nat \<Rightarrow> nat \<Rightarrow> bool" where
  "is_idle last_used now timeout \<longleftrightarrow> timeout \<le> now - last_used"

definition sweep :: "nat \<Rightarrow> nat \<Rightarrow> gateway \<Rightarrow> gateway" where
  "sweep now timeout gw = gw\<lparr>gw_sessions := (\<lambda>k. case gw_sessions gw k of
       Some e \<Rightarrow> if is_idle (sx_last_used e) now timeout then None else Some e
     | None \<Rightarrow> None)\<rparr>"

section \<open>Servers\<close>

definition enabled_servers :: "gateway_env \<Rightarrow> mcp_spec list result" where
  "enabled_servers env = (case mcp_load (mg_registry env) of Inl e \<Rightarrow> Inl e | Inr xs \<Rightarrow> Inr (filter ms_enabled xs))"

fun secret_values :: "gateway_env \<Rightarrow> string \<Rightarrow> (string \<times> string) list \<Rightarrow> (string \<times> string) list result" where
  "secret_values env name [] = Inr []"
| "secret_values env name ((var, key) # rest) =
     (case mg_secret env key of
        Inl e \<Rightarrow> Inl e
      | Inr None \<Rightarrow> Inl (''mcp server '' @ quoted name @ '' needs secret '' @ quoted key @
          '' (set with `single secret set '' @ key @ '' <value>`)'')
      | Inr (Some v) \<Rightarrow>
          (case secret_values env name rest of Inl e \<Rightarrow> Inl e | Inr vs \<Rightarrow> Inr ((var, v) # vs)))"

definition start_server :: "gateway_env \<Rightarrow> mcp_spec \<Rightarrow> gateway \<Rightarrow> nat result \<times> gateway" where
  "start_server env spec gw =
     (case secret_values env (ms_name spec) (ms_secret_env spec) of
        Inl e \<Rightarrow> (Inl e, gw)
      | Inr secrets \<Rightarrow>
          (let p = length (gw_started gw); gw = gw\<lparr>gw_started := gw_started gw @ [ms_name spec]\<rparr>
           in case with_context (''spawning mcp server '' @ quoted (ms_name spec)) (mg_spawn env spec (ms_env spec @ secrets)) of
                Inl e \<Rightarrow> (Inl e, gw)
              | Inr _ \<Rightarrow>
                  (case with_context (''initializing mcp server '' @ quoted (ms_name spec)) (mg_initialize env spec) of
                     Inl e \<Rightarrow> (Inl e, gw)
                   | Inr _ \<Rightarrow>
                       (Inr p, gw\<lparr>gw_sessions := (gw_sessions gw)(ms_name spec \<mapsto>
                          \<lparr>sx_process = p, sx_last_used = mg_now env\<rparr>)\<rparr>))))"

definition ensure_session :: "gateway_env \<Rightarrow> string \<Rightarrow> gateway \<Rightarrow> nat result \<times> gateway" where
  "ensure_session env name gw =
     (case gw_sessions gw name of
        Some e \<Rightarrow>
          (Inr (sx_process e), gw\<lparr>gw_sessions := (gw_sessions gw)(name \<mapsto> e\<lparr>sx_last_used := mg_now env\<rparr>)\<rparr>)
      | None \<Rightarrow>
          (case enabled_servers env of
             Inl e \<Rightarrow> (Inl e, gw)
           | Inr servers \<Rightarrow>
               (case find (\<lambda>s. ms_name s = name) servers of
                  None \<Rightarrow> (Inl (''no enabled mcp server named '' @ quoted name @
                    '' (see `single mcp list`; disabled servers must be enabled first)''), gw)
                | Some spec \<Rightarrow> start_server env spec gw)))"

section \<open>The tools\<close>

definition long_dash :: string where
  "long_dash = [CHR 0xE2, CHR 0x80, CHR 0x94]"

definition json_i64 :: "int \<Rightarrow> json" where
  "json_i64 i = JNum (if 0 \<le> i then PosInt (word_of_int i) else NegInt i)"

definition json_opt_str :: "string option \<Rightarrow> json" where
  "json_opt_str s = (case s of Some x \<Rightarrow> JStr x | None \<Rightarrow> JNull)"

definition list_available_mcp_tools :: "gateway_env \<Rightarrow> json result" where
  "list_available_mcp_tools env =
     (case enabled_servers env of
        Inl e \<Rightarrow> Inl e
      | Inr servers \<Rightarrow>
          Inr (jobj [(''servers'', JArr (map (\<lambda>s. jobj [(''server'', JStr (ms_name s)),
                  (''command'', JStr (trim (ms_command s @ '' '' @ str_join '' '' (ms_args s))))]) servers)),
                (''note'', JStr (''each entry is a registered MCP server, not yet its individual tools '' @
                  ''(that would mean spawning every one up front) '' @ long_dash @ '' call invoke_mcp with '' @
                  ''this server name and tool: null to lazily spawn it and list its real tools.''))]))"

definition check_permission :: "gateway_env \<Rightarrow> string \<Rightarrow> prefs_db \<Rightarrow> (verdict \<times> prefs_db) result" where
  "check_permission env resource db =
     (case mg_rules env of
        Inl e \<Rightarrow> Inl e
      | Inr rules \<Rightarrow> evaluate_and_learn (mg_ts env) rules resource (Some ''single-mcp invoke_mcp'') db)"

definition policy_reason :: string where
  "policy_reason = ''blocked by permission policy (permissions.toml or a learned preference)''"

definition approval_message :: "int \<Rightarrow> string" where
  "approval_message i = ''this action needs your approval first '' @ long_dash @ '' run `single approval resolve '' @ dec_int i @
     '' --allow` (or --deny), then retry''"

definition tool_resource :: "string \<Rightarrow> string \<Rightarrow> string" where
  "tool_resource server tool = ''mcp:'' @ server @ '':'' @ tool"

definition list_server_tools :: "gateway_env \<Rightarrow> string \<Rightarrow> gateway \<Rightarrow> json result \<times> gateway" where
  "list_server_tools env server gw =
     (case ensure_session env server gw of
        (Inl e, gw) \<Rightarrow> (Inl e, gw)
      | (Inr p, gw) \<Rightarrow>
          (let gw = gw\<lparr>gw_sent := gw_sent gw @ [(p, None)]\<rparr>
           in case with_context (''listing tools on mcp server '' @ quoted server) (mg_list_all env p) of
                Inl e \<Rightarrow> (Inl e, gw)
              | Inr tools \<Rightarrow> (Inr (jobj [(''server'', JStr server), (''tools'', tools)]), gw)))"

definition call_server_tool :: "gateway_env \<Rightarrow> string \<Rightarrow> string \<Rightarrow> json option \<Rightarrow> gateway \<Rightarrow> json result \<times> gateway" where
  "call_server_tool env server tool args gw =
     (case ensure_session env server gw of
        (Inl e, gw) \<Rightarrow> (Inl e, gw)
      | (Inr p, gw) \<Rightarrow>
          (let gw = gw\<lparr>gw_sent := gw_sent gw @ [(p, Some tool)]\<rparr>
           in case with_context (''calling '' @ quoted tool @ '' on mcp server '' @ quoted server) (mg_call env p tool args) of
                Inl e \<Rightarrow> (Inl e, gw)
              | Inr r \<Rightarrow> (Inr (jobj [(''server'', JStr server), (''tool'', JStr tool), (''result'', r)]), gw)))"

fun as_object :: "json \<Rightarrow> json option" where
  "as_object (JObj kvs) = Some (JObj kvs)"
| "as_object _ = None"

abbreviation arg_str :: "string \<Rightarrow> json \<Rightarrow> string option" where
  "arg_str k args \<equiv> Option.bind (jget k args) as_str"

definition invoke_mcp :: "gateway_env \<Rightarrow> json \<Rightarrow> gateway \<Rightarrow> json result \<times> gateway" where
  "invoke_mcp env args gw =
     (case arg_str ''server'' args of
        None \<Rightarrow> (Inl ''invoke_mcp needs a \"server\" argument'', gw)
      | Some server \<Rightarrow>
          (case arg_str ''tool'' args of
             None \<Rightarrow> list_server_tools env server gw
           | Some tool \<Rightarrow>
               (case check_permission env (tool_resource server tool) (gw_prefs gw) of
                  Inl e \<Rightarrow> (Inl e, gw)
                | Inr (v, prefs) \<Rightarrow>
                    (let gw = gw\<lparr>gw_prefs := prefs\<rparr>
                     in case v of
                          VDeny \<Rightarrow> (Inr (jobj [(''server'', JStr server), (''tool'', JStr tool), (''denied'', JBool True),
                                     (''reason'', JStr policy_reason)]), gw)
                        | PendingApproval i \<Rightarrow> (Inr (jobj [(''server'', JStr server), (''tool'', JStr tool),
                                     (''pending_approval'', json_i64 i), (''message'', JStr (approval_message i))]), gw)
                        | VAllow \<Rightarrow>
                            call_server_tool env server tool (Option.bind (jget ''arguments'' args) as_object) gw))))"

definition notes_leave :: "gateway_env \<Rightarrow> json \<Rightarrow> gateway \<Rightarrow> json result \<times> gateway" where
  "notes_leave env args gw =
     (case arg_str ''from_agent'' args of
        None \<Rightarrow> (Inl ''notes_leave needs a \"from_agent\" argument'', gw)
      | Some from_agent \<Rightarrow>
     (case arg_str ''topic'' args of
        None \<Rightarrow> (Inl ''notes_leave needs a \"topic\" argument'', gw)
      | Some topic \<Rightarrow>
     (case arg_str ''content'' args of
        None \<Rightarrow> (Inl ''notes_leave needs a \"content\" argument'', gw)
      | Some content \<Rightarrow>
          (case leave (mg_ts env) (mg_project env) from_agent (arg_str ''to_agent'' args) topic content (gw_notes gw) of
             (i, t) \<Rightarrow> (Inr (jobj [(''note_id'', json_i64 i), (''from'', JStr from_agent),
                          (''to'', json_opt_str (arg_str ''to_agent'' args)), (''topic'', JStr topic)]), gw\<lparr>gw_notes := t\<rparr>)))))"

definition note_json :: "agent_note \<Rightarrow> json" where
  "note_json n = jobj [(''id'', json_i64 (an_id n)), (''project'', json_opt_str (an_project n)),
     (''from_agent'', JStr (an_from_agent n)), (''to_agent'', json_opt_str (an_to_agent n)), (''topic'', JStr (an_topic n)),
     (''content'', JStr (an_content n)), (''created_at'', JStr (an_created_at n)), (''read_at'', json_opt_str (an_read_at n))]"

fun as_bool :: "json \<Rightarrow> bool option" where
  "as_bool (JBool b) = Some b"
| "as_bool _ = None"

definition notes_read :: "gateway_env \<Rightarrow> json \<Rightarrow> gateway \<Rightarrow> json result \<times> gateway" where
  "notes_read env args gw =
     (case arg_str ''to_agent'' args of
        None \<Rightarrow> (Inl ''notes_read needs a \"to_agent\" argument (which agent's inbox to read)'', gw)
      | Some to_agent \<Rightarrow>
          (let unread_only = unwrap_or (Option.bind (jget ''unread_only'' args) as_bool) True;
               notes = inbox (mg_project env) to_agent unread_only (gw_notes gw)
           in (Inr (jobj [(''notes'', JArr (map note_json notes))]),
               gw\<lparr>gw_notes := mark_all (mg_ts env) notes (gw_notes gw)\<rparr>)))"

text \<open>An answer is a text and whether it is an error.\<close>

definition call_tool :: "gateway_env \<Rightarrow> string \<Rightarrow> json option \<Rightarrow> gateway \<Rightarrow> (bool \<times> string) \<times> gateway" where
  "call_tool env name arguments gw =
     (let args = unwrap_or arguments (JObj []);
          (result, gw) =
            (if name = ''list_available_mcp_tools'' then (list_available_mcp_tools env, gw)
             else if name = ''invoke_mcp'' then invoke_mcp env args gw
             else if name = ''notes_leave'' then notes_leave env args gw
             else if name = ''notes_read'' then notes_read env args gw
             else (Inl (''unknown tool: '' @ name), gw))
      in ((case result of Inr v \<Rightarrow> (True, mg_pretty env v) | Inl e \<Rightarrow> (False, e)), gw))"

section \<open>The container companion\<close>

record run_output =
  ro_stdout_text :: string
  ro_stderr_text :: string
  ro_ok :: bool
  ro_status :: string

definition run_in :: "(string list \<Rightarrow> run_output result) \<Rightarrow> string \<Rightarrow> string \<Rightarrow> bool \<times> string" where
  "run_in run container command =
     (case run [''enter'', ''--name'', container, ''--'', ''sh'', ''-c'', command] of
        Inr out \<Rightarrow>
          (let text' = ro_stdout_text out @
                 (if ro_stderr_text out \<noteq> [] then newline @ ''--- stderr ---'' @ newline @ ro_stderr_text out else [])
           in if ro_ok out then (True, text') else (False, ''exit status '' @ ro_status out @ '': '' @ text'))
      | Inl e \<Rightarrow> (False, ''failed to run distrobox (is it installed and is the '' @ quoted container @ '' container created?): '' @ e))"

definition distrobox_call :: "(string list \<Rightarrow> run_output result) \<Rightarrow> string \<Rightarrow> json option \<Rightarrow> bool \<times> string" where
  "distrobox_call run name arguments =
     (case arg_str ''command'' (unwrap_or arguments (JObj [])) of
        None \<Rightarrow> (False, ''missing required \"command\" argument'')
      | Some command \<Rightarrow>
          if name = ''run_in_kali'' then run_in run ''kali'' command
          else if name = ''run_in_blackarch'' then run_in run ''blackarch'' command
          else (False, ''unknown tool: '' @ name))"


section \<open>Who is started and who is called\<close>

text \<open>A session is a process that was started for its server, and requests went to processes that were started.\<close>

definition gateway_ok :: "gateway \<Rightarrow> bool" where
  "gateway_ok gw \<longleftrightarrow>
     (\<forall>n e. gw_sessions gw n = Some e \<longrightarrow> sx_process e < length (gw_started gw) \<and> gw_started gw ! sx_process e = n) \<and>
     (\<forall>(p, t) \<in> set (gw_sent gw). p < length (gw_started gw))"

lemma gateway_okD: "gateway_ok gw \<Longrightarrow> gw_sessions gw n = Some e \<Longrightarrow>
    sx_process e < length (gw_started gw) \<and> gw_started gw ! sx_process e = n"
  by (simp add: gateway_ok_def)

definition registered :: "gateway_env \<Rightarrow> string \<Rightarrow> bool" where
  "registered env name \<longleftrightarrow> (\<exists>xs. mcp_load (mg_registry env) = Inr xs \<and> name \<in> ms_name ` {s \<in> set xs. ms_enabled s})"

text \<open>What \<open>ensure_session\<close> does: at most one start, of the server it was asked for, when that has no session.\<close>

definition ensured :: "gateway_env \<Rightarrow> string \<Rightarrow> gateway \<Rightarrow> nat result \<Rightarrow> gateway \<Rightarrow> bool" where
  "ensured env name gw r gw' \<longleftrightarrow>
     gateway_ok gw' \<and> gw_sent gw' = gw_sent gw \<and> gw_prefs gw' = gw_prefs gw \<and> gw_notes gw' = gw_notes gw \<and>
     (gw_started gw' = gw_started gw \<or>
      gw_sessions gw name = None \<and> registered env name \<and> gw_started gw' = gw_started gw @ [name]) \<and>
     (\<forall>p. r = Inr p \<longrightarrow> p < length (gw_started gw') \<and> gw_started gw' ! p = name)"

lemma gateway_ok_started:
  assumes "gateway_ok gw"
  shows "gateway_ok (gw\<lparr>gw_started := gw_started gw @ [n]\<rparr>)"
    "gateway_ok (gw\<lparr>gw_started := gw_started gw @ [n],
       gw_sessions := (gw_sessions gw)(n \<mapsto> \<lparr>sx_process = length (gw_started gw), sx_last_used = t\<rparr>)\<rparr>)"
proof -
  have lt: "p < length (gw_started gw)" if "(p, t) \<in> set (gw_sent gw)" for p t
    using assms that by (auto simp: gateway_ok_def)
  have old: "sx_process e < length (gw_started gw)" "gw_started gw ! sx_process e = k" if "gw_sessions gw k = Some e" for k e
    using assms that by (simp_all add: gateway_ok_def)
  show "gateway_ok (gw\<lparr>gw_started := gw_started gw @ [n]\<rparr>)"
    unfolding gateway_ok_def using lt old by (simp add: nth_append less_Suc_eq split_def) (metis prod.collapse)
  show "gateway_ok (gw\<lparr>gw_started := gw_started gw @ [n],
       gw_sessions := (gw_sessions gw)(n \<mapsto> \<lparr>sx_process = length (gw_started gw), sx_last_used = t\<rparr>)\<rparr>)"
    unfolding gateway_ok_def using lt old by (simp add: nth_append less_Suc_eq split_def) (metis prod.collapse)
qed

lemma start_server_cases:
  assumes "start_server env spec gw = (r, gw')"
  obtains (secret) e where "r = Inl e" "gw' = gw"
  | (failed) e where "r = Inl e" "gw' = gw\<lparr>gw_started := gw_started gw @ [ms_name spec]\<rparr>"
  | (serving) "r = Inr (length (gw_started gw))" "gw' = gw\<lparr>gw_started := gw_started gw @ [ms_name spec],
       gw_sessions := (gw_sessions gw)(ms_name spec \<mapsto> \<lparr>sx_process = length (gw_started gw), sx_last_used = mg_now env\<rparr>)\<rparr>"
proof (cases "secret_values env (ms_name spec) (ms_secret_env spec)")
  case (Inl e)
  then show ?thesis using assms by (intro secret [of e]) (simp_all add: start_server_def)
next
  case (Inr secrets)
  let ?s = "with_context (''spawning mcp server '' @ quoted (ms_name spec)) (mg_spawn env spec (ms_env spec @ secrets))"
  let ?i = "with_context (''initializing mcp server '' @ quoted (ms_name spec)) (mg_initialize env spec)"
  show ?thesis
  proof (cases ?s)
    case (Inl e)
    then show ?thesis using assms Inr by (intro failed [of e]) (simp_all add: start_server_def Let_def)
  next
    case spawned: (Inr u)
    show ?thesis
    proof (cases ?i)
      case (Inl e)
      then show ?thesis using assms Inr spawned by (intro failed [of e]) (simp_all add: start_server_def Let_def)
    next
      case init: (Inr u)
      then show ?thesis using assms Inr spawned by (intro serving) (simp_all add: start_server_def Let_def)
    qed
  qed
qed

lemma start_server_ensured:
  assumes "gateway_ok gw" "gw_sessions gw (ms_name spec) = None" "registered env (ms_name spec)" "start_server env spec gw = (r, gw')"
  shows "ensured env (ms_name spec) gw r gw'"
  using assms(4)
proof (cases rule: start_server_cases)
  case (secret e)
  with assms(1) show ?thesis by (simp add: ensured_def)
next
  case (failed e)
  with assms(2,3) gateway_ok_started(1) [OF assms(1)] show ?thesis by (simp add: ensured_def)
next
  case serving
  with assms(2,3) gateway_ok_started(2) [OF assms(1)] show ?thesis by (simp add: ensured_def)
qed

text \<open>A new session comes from a start.\<close>

lemma ensure_session_starts:
  assumes "ensure_session env name gw = (Inr p, gw')" "gw_sessions gw name = None"
  shows "gw_started gw' = gw_started gw @ [name] \<and> p = length (gw_started gw) \<and>
    gw_sessions gw' name = Some \<lparr>sx_process = p, sx_last_used = mg_now env\<rparr>"
proof -
  from assms obtain spec servers where f: "find (\<lambda>s. ms_name s = name) servers = Some spec"
    and st: "start_server env spec gw = (Inr p, gw')"
    by (auto simp: ensure_session_def split: sum.splits option.splits)
  have n: "ms_name spec = name" using find_SomeD [OF f] by simp
  from st show ?thesis by (cases rule: start_server_cases) (simp_all add: n)
qed

lemma ensure_session_ensured:
  assumes "gateway_ok gw" "ensure_session env name gw = (r, gw')"
  shows "ensured env name gw r gw'"
proof (cases "gw_sessions gw name")
  case (Some e)
  then have "r = Inr (sx_process e)" "gw' = gw\<lparr>gw_sessions := (gw_sessions gw)(name \<mapsto> e\<lparr>sx_last_used := mg_now env\<rparr>)\<rparr>"
    using assms(2) by (simp_all add: ensure_session_def)
  moreover have "gateway_ok (gw\<lparr>gw_sessions := (gw_sessions gw)(name \<mapsto> e\<lparr>sx_last_used := mg_now env\<rparr>)\<rparr>)"
    using assms(1) gateway_okD [OF assms(1) Some] by (auto simp: gateway_ok_def)
  ultimately show ?thesis using gateway_okD [OF assms(1) Some] by (simp add: ensured_def)
next
  case None
  show ?thesis
  proof (cases "\<exists>xs spec. mcp_load (mg_registry env) = Inr xs \<and> find (\<lambda>s. ms_name s = name) (filter ms_enabled xs) = Some spec")
    case True
    then obtain xs spec where x: "mcp_load (mg_registry env) = Inr xs" "find (\<lambda>s. ms_name s = name) (filter ms_enabled xs) = Some spec"
      by blast
    then have spec: "ms_name spec = name" "registered env name"
      by (auto simp: registered_def dest!: find_SomeD)
    have "start_server env spec gw = (r, gw')"
      using assms(2) None x by (simp add: ensure_session_def enabled_servers_def)
    with start_server_ensured [of gw spec env r gw'] spec None assms(1) show ?thesis by simp
  next
    case False
    then have "r \<in> range Inl \<and> gw' = gw" using assms(2) None
      by (auto simp: ensure_session_def enabled_servers_def split: sum.splits option.splits)
    then show ?thesis using assms(1) by (auto simp: ensured_def)
  qed
qed

definition permitted :: "gateway_env \<Rightarrow> prefs_db \<Rightarrow> string \<Rightarrow> string option \<Rightarrow> bool" where
  "permitted env prefs server t \<longleftrightarrow> (case t of
     None \<Rightarrow> True
   | Some tool \<Rightarrow> \<exists>rules. mg_rules env = Inr rules \<and> may_use Allow rules prefs (tool_resource server tool))"

definition step_ok :: "gateway_env \<Rightarrow> json \<Rightarrow> gateway \<Rightarrow> gateway \<Rightarrow> bool" where
  "step_ok env args gw gw' \<longleftrightarrow> gateway_ok gw' \<and>
     (gw_started gw' = gw_started gw \<or> (\<exists>s. gw_started gw' = gw_started gw @ [s] \<and> gw_sessions gw s = None \<and>
        registered env s \<and> permitted env (gw_prefs gw) s (arg_str ''tool'' args))) \<and>
     (gw_sent gw' = gw_sent gw \<or> (\<exists>p t. gw_sent gw' = gw_sent gw @ [(p, t)] \<and>
        permitted env (gw_prefs gw) (gw_started gw' ! p) t))"

lemma sent_ok: "gateway_ok gw \<Longrightarrow> p < length (gw_started gw) \<Longrightarrow> gateway_ok (gw\<lparr>gw_sent := gw_sent gw @ [(p, t)]\<rparr>)"
  by (auto simp: gateway_ok_def)

lemma request_step_ok:
  assumes "gateway_ok gw" "ensure_session env server gw = (r, gw1)"
    and "gw' = (case r of Inl e \<Rightarrow> gw1 | Inr p \<Rightarrow> gw1\<lparr>gw_sent := gw_sent gw1 @ [(p, t)]\<rparr>)"
    and "permitted env (gw_prefs gw) server t" "arg_str ''tool'' args = t"
  shows "step_ok env args gw gw'"
proof -
  note e = ensure_session_ensured [OF assms(1,2), unfolded ensured_def]
  show ?thesis
  proof (cases r)
    case (Inl x)
    then show ?thesis using e assms(3-5) by (auto simp: step_ok_def)
  next
    case (Inr p)
    then show ?thesis using e assms(3-5) sent_ok [of gw1 p t] by (auto simp: step_ok_def)
  qed
qed

lemma allowed_may_use:
  assumes "evaluate_and_learn ts rules resource ctx db = Inr (VAllow, db')"
  shows "db' = db \<and> may_use Allow rules db resource"
  using evaluate_and_learn_cases [OF assms] evaluate_governs [of rules resource Allow] lookup_governs [of db resource Allow]
  unfolding may_use_def by auto

lemma invoke_step_ok:
  assumes "gateway_ok gw" "invoke_mcp env args gw = (r, gw')"
  shows "step_ok env args gw gw'"
proof -
  have same: "step_ok env args gw (gw\<lparr>gw_prefs := d\<rparr>)" for d using assms(1) by (simp add: step_ok_def gateway_ok_def)
  have unchanged: "step_ok env args gw gw" using assms(1) by (simp add: step_ok_def)
  show ?thesis
  proof (cases "arg_str ''server'' args")
    case None
    then have "gw' = gw" using assms(2) by (simp add: invoke_mcp_def)
    show ?thesis unfolding \<open>gw' = gw\<close> by (rule unchanged)
  next
    case (Some server)
    note server = this
    show ?thesis
    proof (cases "arg_str ''tool'' args")
      case None
      obtain q gw1 where q: "ensure_session env server gw = (q, gw1)" by force
      then have "gw' = (case q of Inl e \<Rightarrow> gw1 | Inr p \<Rightarrow> gw1\<lparr>gw_sent := gw_sent gw1 @ [(p, None)]\<rparr>)"
        using assms(2) server None by (auto simp: invoke_mcp_def list_server_tools_def Let_def split: sum.splits)
      from request_step_ok [OF assms(1) q this _ None] show ?thesis by (simp add: permitted_def)
    next
      case (Some tool)
      show ?thesis
      proof (cases "check_permission env (tool_resource server tool) (gw_prefs gw)")
        case (Inl e)
        then have "gw' = gw" using assms(2) server Some by (simp add: invoke_mcp_def)
        with unchanged show ?thesis by simp
      next
        case (Inr x)
        then obtain v d where v: "check_permission env (tool_resource server tool) (gw_prefs gw) = Inr (v, d)" by (cases x) auto
        show ?thesis
        proof (cases "v = VAllow")
          case True
          from v True obtain rules where rules: "mg_rules env = Inr rules"
            "evaluate_and_learn (mg_ts env) rules (tool_resource server tool) (Some ''single-mcp invoke_mcp'') (gw_prefs gw) = Inr (VAllow, d)"
            by (auto simp: check_permission_def split: sum.splits)
          from allowed_may_use [OF rules(2)] have d: "d = gw_prefs gw"
            and perm: "permitted env (gw_prefs gw) server (Some tool)" by (simp_all add: permitted_def rules(1))
          obtain q gw1 where q: "ensure_session env server gw = (q, gw1)" by force
          then have "gw' = (case q of Inl e \<Rightarrow> gw1 | Inr p \<Rightarrow> gw1\<lparr>gw_sent := gw_sent gw1 @ [(p, Some tool)]\<rparr>)"
            using assms(2) server Some v True d by (auto simp: invoke_mcp_def call_server_tool_def Let_def split: sum.splits)
          from request_step_ok [OF assms(1) q this perm Some] show ?thesis .
        next
          case False
          then have "gw' = gw\<lparr>gw_prefs := d\<rparr>"
            using assms(2) server Some v by (cases v) (simp_all add: invoke_mcp_def)
          with same show ?thesis by simp
        qed
      qed
    qed
  qed
qed

text \<open>C29: whatever tool of the gateway is called, it starts at most one process, for an enabled server that has no session, and sends at
  most one request, to a process that was started for the server it is meant for; and when a tool of a server is
  named, neither happens unless a rule or a confident preference allows that tool of that server.\<close>

theorem gateway_calls_only_allowed:
  assumes "gateway_ok gw" "call_tool env name arguments gw = (answer, gw')"
  shows "gateway_ok gw' \<and>
     (gw_started gw' = gw_started gw \<or> (\<exists>s. gw_started gw' = gw_started gw @ [s] \<and> gw_sessions gw s = None \<and>
        registered env s \<and> permitted env (gw_prefs gw) s (arg_str ''tool'' (unwrap_or arguments (JObj []))))) \<and>
     (gw_sent gw' = gw_sent gw \<or> (\<exists>p t. gw_sent gw' = gw_sent gw @ [(p, t)] \<and>
        permitted env (gw_prefs gw) (gw_started gw' ! p) t))"
proof -
  let ?args = "unwrap_or arguments (JObj [])"
  have "step_ok env ?args gw gw'"
  proof (cases "name = ''invoke_mcp''")
    case True
    obtain r gw1 where i: "invoke_mcp env ?args gw = (r, gw1)" by force
    then have "gw' = gw1" using True assms(2) by (simp add: call_tool_def)
    with invoke_step_ok [OF assms(1) i] show ?thesis by simp
  next
    case False
    have l: "gw_started (snd (notes_leave env ?args gw)) = gw_started gw \<and> gw_sent (snd (notes_leave env ?args gw)) = gw_sent gw \<and>
        gw_sessions (snd (notes_leave env ?args gw)) = gw_sessions gw"
      by (simp add: notes_leave_def split: option.split prod.split)
    have r: "gw_started (snd (notes_read env ?args gw)) = gw_started gw \<and> gw_sent (snd (notes_read env ?args gw)) = gw_sent gw \<and>
        gw_sessions (snd (notes_read env ?args gw)) = gw_sessions gw"
      by (simp add: notes_read_def Let_def split: option.split)
    have "gw' \<in> {gw, snd (notes_leave env ?args gw), snd (notes_read env ?args gw)}"
      using assms(2) False by (auto simp: call_tool_def Let_def split: if_splits prod.splits)
    with l r have "gw_started gw' = gw_started gw \<and> gw_sent gw' = gw_sent gw \<and> gw_sessions gw' = gw_sessions gw" by auto
    then show ?thesis using assms(1) by (auto simp: step_ok_def gateway_ok_def)
  qed
  then show ?thesis by (simp only: step_ok_def)
qed

section \<open>How long a session lives\<close>

text \<open>A server that was used is the same process for every use within the idle timeout, whatever sweeps come in between; a sweep at or
  after the timeout forgets it, and the next use starts another one.\<close>

theorem session_lifetime:
  assumes "ensure_session env name gw = (Inr p, gw1)"
  shows "(t - mg_now env < timeout \<longrightarrow> (\<exists>gw2. ensure_session env' name (sweep t timeout gw1) = (Inr p, gw2) \<and>
      gw_started gw2 = gw_started gw1)) \<and>
    (timeout \<le> t - mg_now env \<longrightarrow> gw_sessions (sweep t timeout gw1) name = None \<and>
      (\<forall>q gw2. ensure_session env' name (sweep t timeout gw1) = (Inr q, gw2) \<longrightarrow> gw_started gw2 = gw_started gw1 @ [name] \<and>
         q = length (gw_started gw1)))"
proof -
  have "\<exists>e. gw_sessions gw1 name = Some e \<and> sx_process e = p \<and> sx_last_used e = mg_now env"
  proof (cases "gw_sessions gw name")
    case (Some e)
    then show ?thesis using assms by (auto simp: ensure_session_def)
  next
    case None
    from ensure_session_starts [OF assms None] show ?thesis by simp
  qed
  then obtain e where e: "gw_sessions gw1 name = Some e" "sx_process e = p" "sx_last_used e = mg_now env" by blast
  show ?thesis
  proof (cases "timeout \<le> t - mg_now env")
    case True
    then have "gw_sessions (sweep t timeout gw1) name = None" by (simp add: sweep_def e is_idle_def)
    moreover have "gw_started (sweep t timeout gw1) = gw_started gw1" by (simp add: sweep_def)
    ultimately show ?thesis using True ensure_session_starts [of env' name "sweep t timeout gw1"] by simp
  next
    case False
    then show ?thesis by (simp add: sweep_def e is_idle_def ensure_session_def)
  qed
qed

section \<open>A concrete session\<close>

definition demo_mcp :: gateway_env where
  "demo_mcp = \<lparr>mg_now = 5, mg_ts = ''t0'', mg_registry = Entries [(''git'', \<lparr>ms_name = ''git'', ms_command = ''uvx'', ms_args = [],
       ms_env = [], ms_secret_env = [], ms_enabled = True\<rparr>)],
     mg_rules = Inr [\<lparr>ru_pattern = ''mcp:git:'', ru_decision = Allow\<rparr>], mg_project = None, mg_secret = (\<lambda>_. Inr None),
     mg_spawn = (\<lambda>_ _. Inr ()), mg_initialize = (\<lambda>_. Inr ()), mg_list_all = (\<lambda>_. Inr JNull), mg_call = (\<lambda>_ _ _. Inr JNull),
     mg_pretty = (\<lambda>_. ''null'')\<rparr>"

definition demo_gateway :: gateway where
  "demo_gateway = new_gateway \<lparr>pd_preferences = [], pd_preference_seq = 0, pd_approvals = [], pd_approval_seq = 0\<rparr>
     \<lparr>nt_rows = [], nt_seq = 0\<rparr>"

abbreviation git_spec :: mcp_spec where
  "git_spec \<equiv> \<lparr>ms_name = ''git'', ms_command = ''uvx'', ms_args = [], ms_env = [], ms_secret_env = [], ms_enabled = True\<rparr>"

lemma demo_enabled: "enabled_servers demo_mcp = Inr [git_spec]"
  by (simp add: enabled_servers_def demo_mcp_def mcp_load_def reg_load_def)

lemma demo_fields: "mg_rules demo_mcp = Inr [\<lparr>ru_pattern = ''mcp:git:'', ru_decision = Allow\<rparr>]" "mg_now demo_mcp = 5"
  "mg_spawn demo_mcp = (\<lambda>_ _. Inr ())" "mg_initialize demo_mcp = (\<lambda>_. Inr ())" "mg_call demo_mcp = (\<lambda>_ _ _. Inr JNull)"
  by (simp_all add: demo_mcp_def)

lemma demo_ensure: "ensure_session demo_mcp ''git'' (demo_gateway\<lparr>gw_prefs := d\<rparr>) = (Inr 0,
    demo_gateway\<lparr>gw_prefs := d, gw_started := [''git''], gw_sessions := [''git'' \<mapsto> \<lparr>sx_process = 0, sx_last_used = 5\<rparr>]\<rparr>)"
  by (simp add: ensure_session_def demo_enabled start_server_def with_context_def demo_fields demo_gateway_def
      new_gateway_def Let_def)

theorem gateway_calls_only_allowed_witness:
  "\<exists>answer gw'. call_tool demo_mcp ''invoke_mcp'' (Some (JObj [(''server'', JStr ''git''), (''tool'', JStr ''log'')])) demo_gateway =
       (answer, gw') \<and> gateway_ok gw' \<and> gw_started gw' = [''git''] \<and> gw_sent gw' = [(0, Some ''log'')]"
proof -
  let ?args = "Some (JObj [(''server'', JStr ''git''), (''tool'', JStr ''log'')])"
  have ok: "gateway_ok demo_gateway" by (simp add: gateway_ok_def demo_gateway_def new_gateway_def)
  have "evaluate [\<lparr>ru_pattern = ''mcp:git:'', ru_decision = Allow\<rparr>] (tool_resource ''git'' ''log'') = Allow" by code_simp
  then have c: "check_permission demo_mcp (tool_resource ''git'' ''log'') d = Inr (VAllow, d)" for d
    by (simp add: check_permission_def demo_fields evaluate_and_learn_def)
  obtain answer gw' where run: "call_tool demo_mcp ''invoke_mcp'' ?args demo_gateway = (answer, gw')" by (metis prod.exhaust)
  have "\<exists>r gw1. invoke_mcp demo_mcp (JObj [(''server'', JStr ''git''), (''tool'', JStr ''log'')]) demo_gateway = (r, gw1) \<and>
      gw_started gw1 = [''git''] \<and> gw_sent gw1 = [(0, Some ''log'')]"
    by (simp add: invoke_mcp_def c call_server_tool_def demo_ensure with_context_def demo_fields Let_def)
      (simp add: demo_gateway_def new_gateway_def)
  with run have "gw_started gw' = [''git'']" "gw_sent gw' = [(0, Some ''log'')]" by (auto simp: call_tool_def unwrap_or_def)
  with gateway_calls_only_allowed [OF ok run] run show ?thesis by blast
qed

theorem session_lifetime_witness:
  "\<exists>gw1 gw2. ensure_session demo_mcp ''git'' demo_gateway = (Inr 0, gw1) \<and>
     ensure_session demo_mcp ''git'' (sweep 14 10 gw1) = (Inr 0, gw2) \<and> gw_sessions (sweep 15 10 gw1) ''git'' = None"
proof -
  obtain gw1 where run: "ensure_session demo_mcp ''git'' demo_gateway = (Inr 0, gw1)"
    using demo_ensure [of "gw_prefs demo_gateway"] by simp
  from session_lifetime [OF run, of 14 10 demo_mcp] session_lifetime [OF run, of 15 10 demo_mcp] run show ?thesis
    by (auto simp: demo_fields)
qed

end
