(* ===== verification/McpServer.thy ===== *)
theory McpServer
  imports McpGateway OrchGraph
begin

text \<open>
  The MCP server of SingleCLI itself, \<open>crates/singlecli-mcp/src/server.rs\<close>: an agent delegates work through its tools. A tool
  reads its arguments and becomes one request to the daemon; the five tools that run agents or change a repository ask
  the permission gate first. The requests that were sent are logged in the state; the daemon (or its in-process
  stand-in, \<open>client.rs\<close>), \<open>canonicalize\<close> and the printer are fields of the environment.
\<close>

section \<open>Requests\<close>

record run_request =
  rq_description :: string
  rq_agent :: string
  rq_cwd :: string
  rq_use_worktree :: bool
  rq_account :: "string option"
  rq_real_home :: bool
  rq_no_memory_context :: bool
  rq_timeout_secs :: u64
  rq_background :: bool
  rq_allow_fallback :: bool
  rq_usage_json :: bool

record relay_request =
  rl_goal :: string
  rl_agents :: "string list"
  rl_cwd :: string
  rl_use_worktree :: bool
  rl_real_home :: bool
  rl_timeout_secs :: u64

record parallel_task =
  pt_agent :: string
  pt_description :: string

record 'n split_request =
  sr_nodes :: "'n list"
  sr_cwd :: string
  sr_real_home :: bool
  sr_timeout_secs :: u64
  sr_background :: bool
  sr_orchestrator :: orchestrator_mode
  sr_goal :: "string option"
  sr_candidate_agents :: "string list"

record store_request =
  sq_project :: "string option"
  sq_agent :: "string option"
  sq_task :: "string option"
  sq_title :: string
  sq_content :: string
  sq_confidence :: "real option"
  sq_expires_in_seconds :: "int option"

datatype delegated =
    TaskRun run_request
  | RunRelay relay_request
  | RunParallel "parallel_task split_request"
  | RunGraph "graph_node split_request"
  | AgentList
  | AgentInspect string
  | WorktreeMergePreview int
  | WorktreeMergeApply int
  | MemoryStore store_request
  | MemorySearch string "string option"
  | ConfiguredProviderList

record server_env =
  sv_ts :: string
  sv_rules :: "rule list result"
  sv_canonicalize :: "string \<Rightarrow> string result"
  sv_answer :: "delegated \<Rightarrow> json result"
  sv_f64 :: "jnum \<Rightarrow> real"
  sv_pretty :: "json \<Rightarrow> string"

record mcp_server =
  sv_prefs :: prefs_db
  sv_sent :: "delegated list"

section \<open>Arguments\<close>

definition missing_arg :: "string \<Rightarrow> string \<Rightarrow> string" where
  "missing_arg kind key = ''missing required '' @ kind @ '' argument '' @ [CHR 0x22] @ key @ [CHR 0x22]"

definition str_arg :: "json \<Rightarrow> string \<Rightarrow> string result" where
  "str_arg args key = (case arg_str key args of Some s \<Rightarrow> Inr s | None \<Rightarrow> Inl (missing_arg ''string'' key))"

definition bool_arg :: "json \<Rightarrow> string \<Rightarrow> bool \<Rightarrow> bool" where
  "bool_arg args key dflt = unwrap_or (Option.bind (jget key args) as_bool) dflt"

definition u64_arg :: "json \<Rightarrow> string \<Rightarrow> u64 \<Rightarrow> u64" where
  "u64_arg args key dflt = unwrap_or (Option.bind (jget key args) json_u64) dflt"

fun json_as_i64 :: "json \<Rightarrow> int option" where
  "json_as_i64 (JNum (PosInt n)) = (if int (unat n) \<le> i64_max then Some (int (unat n)) else None)"
| "json_as_i64 (JNum (NegInt i)) = Some i"
| "json_as_i64 _ = None"

fun json_as_f64 :: "server_env \<Rightarrow> json \<Rightarrow> real option" where
  "json_as_f64 env (JNum n) = Some (sv_f64 env n)"
| "json_as_f64 env _ = None"

definition resolve_cwd :: "server_env \<Rightarrow> json \<Rightarrow> string result" where
  "resolve_cwd env args =
     (let cwd = unwrap_or (arg_str ''cwd'' args) ''.''
      in case sv_canonicalize env cwd of
           Inr p \<Rightarrow> Inr p
         | Inl e \<Rightarrow> Inl (''cwd '' @ [CHR 0x22] @ cwd @ [CHR 0x22] @ '' could not be resolved to an absolute path: '' @ e))"

fun map_result :: "('a \<Rightarrow> 'b result) \<Rightarrow> 'a list \<Rightarrow> 'b list result" where
  "map_result f [] = Inr []"
| "map_result f (x # xs) =
     (case f x of
        Inl e \<Rightarrow> Inl e
      | Inr y \<Rightarrow> (case map_result f xs of Inl e \<Rightarrow> Inl e | Inr ys \<Rightarrow> Inr (y # ys)))"

definition parse_parallel_tasks :: "json \<Rightarrow> parallel_task list result" where
  "parse_parallel_tasks args =
     (case Option.bind (jget ''tasks'' args) as_array of
        None \<Rightarrow> Inl (missing_arg ''array'' ''tasks'')
      | Some ts \<Rightarrow>
          map_result (\<lambda>t.
            case as_object t of
              None \<Rightarrow> Inl ''each task must be an object''
            | Some obj \<Rightarrow>
                (case str_arg obj ''agent'' of
                   Inl e \<Rightarrow> Inl e
                 | Inr a \<Rightarrow> (case str_arg obj ''description'' of
                     Inl e \<Rightarrow> Inl e
                   | Inr d \<Rightarrow> Inr \<lparr>pt_agent = a, pt_description = d\<rparr>))) ts)"

definition run_if_of :: "string option \<Rightarrow> run_condition" where
  "run_if_of s = (if s = Some ''on_success'' then RcOnSuccess else if s = Some ''on_failure'' then RcOnFailure else RcAlways)"

definition parse_graph_nodes :: "json \<Rightarrow> graph_node list result" where
  "parse_graph_nodes args =
     (case Option.bind (jget ''nodes'' args) as_array of
        None \<Rightarrow> Inl (missing_arg ''array'' ''nodes'')
      | Some ns \<Rightarrow>
          map_result (\<lambda>n.
            case as_object n of
              None \<Rightarrow> Inl ''each node must be an object''
            | Some obj \<Rightarrow>
                (let depends_on = (case Option.bind (jget ''depends_on'' obj) as_array of
                         Some arr \<Rightarrow> List.map_filter as_str arr | None \<Rightarrow> []);
                     run_if = run_if_of (arg_str ''run_if'' obj)
                 in case str_arg obj ''id'' of
                      Inl e \<Rightarrow> Inl e
                    | Inr i \<Rightarrow>
                        (case str_arg obj ''agent'' of
                           Inl e \<Rightarrow> Inl e
                         | Inr a \<Rightarrow> (case str_arg obj ''description'' of
                             Inl e \<Rightarrow> Inl e
                           | Inr d \<Rightarrow> Inr \<lparr>gn_id = i, gn_agent = a, gn_description = d, gn_depends_on = depends_on,
                               gn_run_if = run_if\<rparr>)))) ns)"

definition parse_agents :: "json \<Rightarrow> string list result" where
  "parse_agents args =
     (case Option.bind (jget ''agents'' args) as_array of
        None \<Rightarrow> Inl (missing_arg ''array'' ''agents'')
      | Some arr \<Rightarrow> Inr (List.map_filter as_str arr))"

section \<open>The gate\<close>

definition permission_gate :: "server_env \<Rightarrow> string \<Rightarrow> prefs_db \<Rightarrow> (json option \<times> prefs_db) result" where
  "permission_gate env tool db =
     (case sv_rules env of
        Inl e \<Rightarrow> Inl e
      | Inr rules \<Rightarrow>
          (case evaluate_and_learn (sv_ts env) rules (''singlecli:'' @ tool) (Some ''singlecli-mcp'') db of
             Inl e \<Rightarrow> Inl e
           | Inr (v, db') \<Rightarrow>
               Inr (case v of
                   VDeny \<Rightarrow> Some (jobj [(''tool'', JStr tool), (''denied'', JBool True), (''reason'', JStr policy_reason)])
                 | PendingApproval i \<Rightarrow> Some (jobj [(''tool'', JStr tool), (''pending_approval'', json_i64 i),
                     (''message'', JStr (approval_message i))])
                 | VAllow \<Rightarrow> None, db')))"

section \<open>The tools\<close>

definition task_run :: "server_env \<Rightarrow> json \<Rightarrow> delegated result" where
  "task_run env args =
     (case str_arg args ''description'' of Inl e \<Rightarrow> Inl e | Inr description \<Rightarrow>
     (case str_arg args ''agent'' of Inl e \<Rightarrow> Inl e | Inr agent \<Rightarrow>
     (case resolve_cwd env args of Inl e \<Rightarrow> Inl e | Inr cwd \<Rightarrow>
        Inr (TaskRun \<lparr>rq_description = description, rq_agent = agent, rq_cwd = cwd,
          rq_use_worktree = bool_arg args ''use_worktree'' False, rq_account = arg_str ''account'' args,
          rq_real_home = bool_arg args ''real_home'' False, rq_no_memory_context = bool_arg args ''no_memory_context'' False,
          rq_timeout_secs = u64_arg args ''timeout_secs'' 300, rq_background = False,
          rq_allow_fallback = bool_arg args ''allow_fallback'' False, rq_usage_json = bool_arg args ''usage_json'' False\<rparr>))))"

definition orchestrate_run :: "server_env \<Rightarrow> json \<Rightarrow> delegated result" where
  "orchestrate_run env args =
     (case str_arg args ''goal'' of Inl e \<Rightarrow> Inl e | Inr goal \<Rightarrow>
     (case parse_agents args of Inl e \<Rightarrow> Inl e | Inr agents \<Rightarrow>
     (case resolve_cwd env args of Inl e \<Rightarrow> Inl e | Inr cwd \<Rightarrow>
        Inr (RunRelay \<lparr>rl_goal = goal, rl_agents = agents, rl_cwd = cwd, rl_use_worktree = bool_arg args ''use_worktree'' False,
          rl_real_home = bool_arg args ''real_home'' False, rl_timeout_secs = u64_arg args ''timeout_secs'' 300\<rparr>))))"

definition split_of :: "json \<Rightarrow> string \<Rightarrow> 'n list \<Rightarrow> 'n split_request" where
  "split_of args cwd nodes = \<lparr>sr_nodes = nodes, sr_cwd = cwd, sr_real_home = bool_arg args ''real_home'' False,
     sr_timeout_secs = u64_arg args ''timeout_secs'' 300, sr_background = False, sr_orchestrator = OmFixed,
     sr_goal = arg_str ''goal'' args, sr_candidate_agents = []\<rparr>"

definition orchestrate_parallel_run :: "server_env \<Rightarrow> json \<Rightarrow> delegated result" where
  "orchestrate_parallel_run env args =
     (case parse_parallel_tasks args of Inl e \<Rightarrow> Inl e | Inr tasks \<Rightarrow>
     (case resolve_cwd env args of Inl e \<Rightarrow> Inl e | Inr cwd \<Rightarrow> Inr (RunParallel (split_of args cwd tasks))))"

definition orchestrate_graph_run :: "server_env \<Rightarrow> json \<Rightarrow> delegated result" where
  "orchestrate_graph_run env args =
     (case parse_graph_nodes args of Inl e \<Rightarrow> Inl e | Inr nodes \<Rightarrow>
     (case resolve_cwd env args of Inl e \<Rightarrow> Inl e | Inr cwd \<Rightarrow> Inr (RunGraph (split_of args cwd nodes))))"

definition task_id_arg :: "json \<Rightarrow> int result" where
  "task_id_arg args = (case Option.bind (jget ''task_id'' args) json_as_i64 of
     Some i \<Rightarrow> Inr i | None \<Rightarrow> Inl (missing_arg ''integer'' ''task_id''))"

definition memory_store :: "server_env \<Rightarrow> json \<Rightarrow> delegated result" where
  "memory_store env args =
     (case str_arg args ''title'' of Inl e \<Rightarrow> Inl e | Inr title \<Rightarrow>
     (case str_arg args ''content'' of Inl e \<Rightarrow> Inl e | Inr body \<Rightarrow>
        Inr (MemoryStore \<lparr>sq_project = arg_str ''project'' args, sq_agent = arg_str ''agent'' args, sq_task = arg_str ''task'' args,
          sq_title = title, sq_content = body, sq_confidence = Option.bind (jget ''confidence'' args) (json_as_f64 env),
          sq_expires_in_seconds = Option.bind (jget ''expires_in_seconds'' args) json_as_i64\<rparr>)))"

text \<open>The request of a tool, and the tools behind the gate, whose gate is asked before the arguments are read.\<close>

definition tool_request :: "server_env \<Rightarrow> string \<Rightarrow> json \<Rightarrow> delegated result" where
  "tool_request env name args =
     (if name = ''task_run'' then task_run env args
      else if name = ''orchestrate_run'' then orchestrate_run env args
      else if name = ''orchestrate_parallel_run'' then orchestrate_parallel_run env args
      else if name = ''orchestrate_graph_run'' then orchestrate_graph_run env args
      else if name = ''agent_list'' then Inr AgentList
      else if name = ''agent_inspect'' then map_sum id AgentInspect (str_arg args ''name'')
      else if name = ''worktree_merge_preview'' then map_sum id WorktreeMergePreview (task_id_arg args)
      else if name = ''worktree_merge_apply'' then map_sum id WorktreeMergeApply (task_id_arg args)
      else if name = ''memory_store'' then memory_store env args
      else if name = ''memory_search'' then
        map_sum id (\<lambda>q. MemorySearch q (arg_str ''project'' args)) (str_arg args ''query'')
      else if name = ''provider_configured_list'' then Inr ConfiguredProviderList
      else Inl (''unknown tool: '' @ name))"

definition gated_tools :: "string list" where
  "gated_tools = [''task_run'', ''orchestrate_run'', ''orchestrate_parallel_run'', ''orchestrate_graph_run'', ''worktree_merge_apply'']"

definition server_send :: "server_env \<Rightarrow> delegated \<Rightarrow> mcp_server \<Rightarrow> json result \<times> mcp_server" where
  "server_send env req s = (sv_answer env req, s\<lparr>sv_sent := sv_sent s @ [req]\<rparr>)"

definition send_request :: "server_env \<Rightarrow> string \<Rightarrow> json \<Rightarrow> mcp_server \<Rightarrow> json result \<times> mcp_server" where
  "send_request env name args s =
     (case tool_request env name args of Inl e \<Rightarrow> (Inl e, s) | Inr req \<Rightarrow> server_send env req s)"

definition run_tool :: "server_env \<Rightarrow> string \<Rightarrow> json \<Rightarrow> mcp_server \<Rightarrow> json result \<times> mcp_server" where
  "run_tool env name args s =
     (if name \<notin> set gated_tools then send_request env name args s
      else case permission_gate env name (sv_prefs s) of
             Inl e \<Rightarrow> (Inl e, s)
           | Inr (Some response, db) \<Rightarrow> (Inr response, s\<lparr>sv_prefs := db\<rparr>)
           | Inr (None, db) \<Rightarrow> send_request env name args (s\<lparr>sv_prefs := db\<rparr>))"

definition server_call_tool :: "server_env \<Rightarrow> string \<Rightarrow> json option \<Rightarrow> mcp_server \<Rightarrow> (bool \<times> string) \<times> mcp_server" where
  "server_call_tool env name arguments s =
     (case run_tool env name (unwrap_or arguments (JObj [])) s of
        (Inr v, s) \<Rightarrow> ((True, sv_pretty env v), s)
      | (Inl e, s) \<Rightarrow> ((False, e), s))"

section \<open>What is delegated\<close>

text \<open>The directory of a request, where it has one.\<close>

fun request_cwd :: "delegated \<Rightarrow> string option" where
  "request_cwd (TaskRun r) = Some (rq_cwd r)"
| "request_cwd (RunRelay r) = Some (rl_cwd r)"
| "request_cwd (RunParallel r) = Some (sr_cwd r)"
| "request_cwd (RunGraph r) = Some (sr_cwd r)"
| "request_cwd _ = None"

text \<open>Requests that start an agent or change a repository.\<close>

fun acts :: "delegated \<Rightarrow> bool" where
  "acts (TaskRun r) = True"
| "acts (RunRelay r) = True"
| "acts (RunParallel r) = True"
| "acts (RunGraph r) = True"
| "acts (WorktreeMergeApply i) = True"
| "acts _ = False"

lemma resolve_cwd_canonical: "resolve_cwd env args = Inr p \<Longrightarrow> p \<in> {q. \<exists>c. sv_canonicalize env c = Inr q}"
  by (auto simp: resolve_cwd_def Let_def split: sum.splits)

lemma run_tools_cwd:
  "task_run env args = Inr req \<Longrightarrow> \<exists>p. request_cwd req = Some p \<and> (\<exists>c. sv_canonicalize env c = Inr p)"
  "orchestrate_run env args = Inr req \<Longrightarrow> \<exists>p. request_cwd req = Some p \<and> (\<exists>c. sv_canonicalize env c = Inr p)"
  "orchestrate_parallel_run env args = Inr req \<Longrightarrow> \<exists>p. request_cwd req = Some p \<and> (\<exists>c. sv_canonicalize env c = Inr p)"
  "orchestrate_graph_run env args = Inr req \<Longrightarrow> \<exists>p. request_cwd req = Some p \<and> (\<exists>c. sv_canonicalize env c = Inr p)"
  using resolve_cwd_canonical [of env args]
  by (auto simp: task_run_def orchestrate_run_def orchestrate_parallel_run_def orchestrate_graph_run_def split_of_def
      split: sum.splits)

lemma map_sum_Inr: "map_sum id f x = Inr y \<longleftrightarrow> (\<exists>z. x = Inr z \<and> y = f z)"
  by (cases x) auto

lemma tool_request_acts:
  assumes "tool_request env name args = Inr req"
  shows "(acts req \<longrightarrow> name \<in> set gated_tools) \<and> (\<forall>p. request_cwd req = Some p \<longrightarrow> (\<exists>c. sv_canonicalize env c = Inr p))"
  using assms run_tools_cwd [of env args req]
  by (auto simp: tool_request_def gated_tools_def memory_store_def map_sum_Inr split: if_splits sum.splits)

text \<open>C30: a call delegates at most one request. One that runs an agent or merges a branch is sent only when a rule or a confident
  preference allows its tool, whatever its arguments are, and the directory it names has been resolved to an
  absolute path by this process.\<close>

theorem delegation_is_gated:
  assumes "server_call_tool env name arguments s = (answer, s')"
  shows "sv_sent s' = sv_sent s \<or> (\<exists>req. sv_sent s' = sv_sent s @ [req] \<and>
      (acts req \<longrightarrow> name \<in> set gated_tools \<and> (\<exists>rules. sv_rules env = Inr rules \<and>
         may_use Allow rules (sv_prefs s) (''singlecli:'' @ name))) \<and>
      (\<forall>p. request_cwd req = Some p \<longrightarrow> (\<exists>c. sv_canonicalize env c = Inr p)))"
proof -
  let ?args = "unwrap_or arguments (JObj [])"
  obtain r s1 where run: "run_tool env name ?args s = (r, s1)" by force
  then have s': "s' = s1" using assms by (cases r) (simp_all add: server_call_tool_def)
  have sent: "sv_sent s2 = sv_sent s0 \<or> (\<exists>req. sv_sent s2 = sv_sent s0 @ [req] \<and> tool_request env name ?args = Inr req)"
    if "send_request env name ?args s0 = (q, s2)" for s0 q s2
    using that by (auto simp: send_request_def server_send_def split: sum.splits)
  show ?thesis
  proof (cases "name \<in> set gated_tools")
    case False
    then have "send_request env name ?args s = (r, s1)" using run by (simp add: run_tool_def)
    from sent [OF this] show ?thesis using False tool_request_acts [of env name ?args] by (auto simp: s')
  next
    case True
    show ?thesis
    proof (cases "permission_gate env name (sv_prefs s)")
      case (Inl e)
      then show ?thesis using run True by (simp add: run_tool_def s')
    next
      case (Inr x)
      then obtain v db where g: "permission_gate env name (sv_prefs s) = Inr (v, db)" by (cases x) auto
      show ?thesis
      proof (cases v)
        case (Some response)
        then have "s1 = s\<lparr>sv_prefs := db\<rparr>" using run True g by (simp add: run_tool_def)
        then show ?thesis by (simp add: s')
      next
        case None
        with g obtain rules where rules: "sv_rules env = Inr rules"
          "evaluate_and_learn (sv_ts env) rules (''singlecli:'' @ name) (Some ''singlecli-mcp'') (sv_prefs s) = Inr (VAllow, db)"
          by (auto simp: permission_gate_def split: sum.splits verdict.splits)
        from allowed_may_use [OF rules(2)] have allowed: "may_use Allow rules (sv_prefs s) (''singlecli:'' @ name)" by simp
        have "send_request env name ?args (s\<lparr>sv_prefs := db\<rparr>) = (r, s1)" using run True g None by (simp add: run_tool_def)
        from sent [OF this] show ?thesis
          using True rules(1) allowed tool_request_acts [of env name ?args] by (auto simp: s')
      qed
    qed
  qed
qed

definition demo_server :: server_env where
  "demo_server = \<lparr>sv_ts = ''t0'', sv_rules = Inr [\<lparr>ru_pattern = ''singlecli:task_run'', ru_decision = Allow\<rparr>],
     sv_canonicalize = (\<lambda>_. Inr ''/repo''), sv_answer = (\<lambda>_. Inr JNull), sv_f64 = (\<lambda>_. 0), sv_pretty = (\<lambda>_. ''null'')\<rparr>"

abbreviation idle_server :: mcp_server where
  "idle_server \<equiv> \<lparr>sv_prefs = \<lparr>pd_preferences = [], pd_preference_seq = 0, pd_approvals = [], pd_approval_seq = 0\<rparr>, sv_sent = []\<rparr>"

theorem delegation_is_gated_witness:
  "\<exists>answer s' req. server_call_tool demo_server ''task_run''
       (Some (JObj [(''description'', JStr ''fix it''), (''agent'', JStr ''codex'')])) idle_server = (answer, s') \<and>
     sv_sent s' = [req] \<and> acts req \<and> may_use Allow [\<lparr>ru_pattern = ''singlecli:task_run'', ru_decision = Allow\<rparr>]
       (sv_prefs idle_server) ''singlecli:task_run''"
proof -
  let ?args = "Some (JObj [(''description'', JStr ''fix it''), (''agent'', JStr ''codex'')])"
  have rules: "sv_rules demo_server = Inr [\<lparr>ru_pattern = ''singlecli:task_run'', ru_decision = Allow\<rparr>]"
    by (simp add: demo_server_def)
  have "evaluate [\<lparr>ru_pattern = ''singlecli:task_run'', ru_decision = Allow\<rparr>] ''singlecli:task_run'' = Allow" by code_simp
  then have g: "permission_gate demo_server ''task_run'' d = Inr (None, d)" for d
    by (simp add: permission_gate_def rules evaluate_and_learn_def)
  have "\<exists>r. tool_request demo_server ''task_run'' (JObj [(''description'', JStr ''fix it''), (''agent'', JStr ''codex'')]) = Inr (TaskRun r)"
    by (simp add: tool_request_def task_run_def str_arg_def resolve_cwd_def demo_server_def)
  then obtain r where r: "tool_request demo_server ''task_run'' (JObj [(''description'', JStr ''fix it''), (''agent'', JStr ''codex'')]) =
      Inr (TaskRun r)" by blast
  obtain answer s' where call: "server_call_tool demo_server ''task_run'' ?args idle_server = (answer, s')" by (metis prod.exhaust)
  then have sent: "sv_sent s' = [TaskRun r]"
    by (auto simp: server_call_tool_def run_tool_def gated_tools_def g send_request_def r server_send_def unwrap_or_def split: sum.splits)
  with delegation_is_gated [OF call] have "may_use Allow [\<lparr>ru_pattern = ''singlecli:task_run'', ru_decision = Allow\<rparr>]
       (sv_prefs idle_server) ''singlecli:task_run''" by (simp add: rules)
  with call sent show ?thesis by auto
qed

end
