(* ===== verification/FileTree.thy ===== *)
theory FileTree
  imports Prelude "HOL-Library.AList" "HOL-Library.Sublist"
begin

text \<open>
  Directories and files as the modules of \<open>single-core\<close> see them: a tree of entries, and the operations
  of \<open>std::fs\<close> on it. A file has its bytes and its permission bits; an entry that is neither a file nor a
  directory (a symbolic link, a pipe, a socket) is \<open>FOther\<close>, and no path that is read or written goes through one.
  An operation fails exactly when the tree does not allow it; the text of the error is an argument.
\<close>

section \<open>Entries and paths\<close>

datatype fnode = FFile string nat | FOther | FDir "(string \<times> fnode) list"

type_synonym path = "string list"

text \<open>\<open>Path::join\<close>: an absolute argument replaces the path, and a component \<open>..\<close> leaves a directory.\<close>

definition components :: "string \<Rightarrow> string list" where
  "components s = filter (\<lambda>c. c \<noteq> [] \<and> c \<noteq> ''.'') (split_on CHR ''/'' s)"

definition path_step :: "path \<Rightarrow> string \<Rightarrow> path" where
  "path_step p c = (if c = ''..'' then butlast p else p @ [c])"

definition path_join :: "path \<Rightarrow> string \<Rightarrow> path" where
  "path_join p s = foldl path_step (if starts_with ''/'' s then [] else p) (components s)"

definition show_path :: "path \<Rightarrow> string" where
  "show_path p = concat (map (\<lambda>c. CHR ''/'' # c) p)"

text \<open>The name without its extension and the extension, as \<open>file_stem\<close> and \<open>extension\<close> split it.\<close>

definition split_ext :: "string \<Rightarrow> string \<times> string option" where
  "split_ext name = (case rfind_idx (\<lambda>c. c = CHR ''.'') name of
       None \<Rightarrow> (name, None)
     | Some i \<Rightarrow> if i = 0 then (name, None) else (take i name, Some (drop (i + 1) name)))"

section \<open>Reading\<close>

fun node_at :: "path \<Rightarrow> fnode \<Rightarrow> fnode option" where
  "node_at [] t = Some t"
| "node_at (x # p) (FDir es) = (case map_of es x of None \<Rightarrow> None | Some t \<Rightarrow> node_at p t)"
| "node_at (x # p) _ = None"

abbreviation path_exists :: "path \<Rightarrow> fnode \<Rightarrow> bool" where
  "path_exists p t \<equiv> node_at p t \<noteq> None"

definition file_at :: "path \<Rightarrow> fnode \<Rightarrow> string option" where
  "file_at p t = (case node_at p t of Some (FFile c m) \<Rightarrow> Some c | _ \<Rightarrow> None)"

definition is_dir_at :: "path \<Rightarrow> fnode \<Rightarrow> bool" where
  "is_dir_at p t = (case node_at p t of Some (FDir es) \<Rightarrow> True | _ \<Rightarrow> False)"

definition read_file :: "string \<Rightarrow> path \<Rightarrow> fnode \<Rightarrow> string result" where
  "read_file io p t = (case file_at p t of Some c \<Rightarrow> Inr c | None \<Rightarrow> Inl io)"

section \<open>Writing\<close>

text \<open>The entry at a path is set or taken out; the directory it is in has to exist.\<close>

fun put_at :: "path \<Rightarrow> fnode option \<Rightarrow> fnode \<Rightarrow> fnode option" where
  "put_at [] n t = None"
| "put_at (x # p) n (FDir es) =
     (if p = [] then Some (FDir (case n of None \<Rightarrow> AList.delete x es | Some m \<Rightarrow> AList.update x m es))
      else case map_of es x of
             None \<Rightarrow> None
           | Some t \<Rightarrow> map_option (\<lambda>t. FDir (AList.update x t es)) (put_at p n t))"
| "put_at (x # p) n _ = None"

fun make_dirs :: "path \<Rightarrow> fnode \<Rightarrow> fnode option" where
  "make_dirs [] t = (case t of FDir es \<Rightarrow> Some t | _ \<Rightarrow> None)"
| "make_dirs (x # p) (FDir es) =
     map_option (\<lambda>t. FDir (AList.update x t es)) (make_dirs p (case map_of es x of None \<Rightarrow> FDir [] | Some t \<Rightarrow> t))"
| "make_dirs (x # p) _ = None"

definition or_io :: "string \<Rightarrow> fnode option \<Rightarrow> fnode \<Rightarrow> unit result \<times> fnode" where
  "or_io io r t = (case r of Some t' \<Rightarrow> (Inr (), t') | None \<Rightarrow> (Inl io, t))"

definition create_dir_all :: "string \<Rightarrow> path \<Rightarrow> fnode \<Rightarrow> unit result \<times> fnode" where
  "create_dir_all io p t = or_io io (make_dirs p t) t"

text \<open>A new file gets the permission bits that the process gives by default, an existing one keeps its own.\<close>

definition new_mode :: nat where
  "new_mode = 420"

definition write_file :: "string \<Rightarrow> path \<Rightarrow> string \<Rightarrow> fnode \<Rightarrow> unit result \<times> fnode" where
  "write_file io p c t = or_io io (case node_at p t of
       Some (FFile c' m) \<Rightarrow> put_at p (Some (FFile c m)) t
     | Some _ \<Rightarrow> None
     | None \<Rightarrow> put_at p (Some (FFile c new_mode)) t) t"

definition set_permissions :: "string \<Rightarrow> path \<Rightarrow> nat \<Rightarrow> fnode \<Rightarrow> unit result \<times> fnode" where
  "set_permissions io p m t = or_io io (case node_at p t of
       Some (FFile c m') \<Rightarrow> put_at p (Some (FFile c m)) t
     | _ \<Rightarrow> None) t"

text \<open>\<open>fs::copy\<close> carries the permission bits over.\<close>

definition copy_file :: "string \<Rightarrow> path \<Rightarrow> path \<Rightarrow> fnode \<Rightarrow> unit result \<times> fnode" where
  "copy_file io src dst t = or_io io (case (node_at src t, node_at dst t) of
       (Some (FFile c m), None) \<Rightarrow> put_at dst (Some (FFile c m)) t
     | (Some (FFile c m), Some (FFile c' m')) \<Rightarrow> put_at dst (Some (FFile c m)) t
     | _ \<Rightarrow> None) t"

definition remove_file :: "string \<Rightarrow> path \<Rightarrow> fnode \<Rightarrow> unit result \<times> fnode" where
  "remove_file io p t = or_io io (case node_at p t of
       None \<Rightarrow> None
     | Some (FDir es) \<Rightarrow> None
     | Some _ \<Rightarrow> put_at p None t) t"

definition remove_dir_all :: "string \<Rightarrow> path \<Rightarrow> fnode \<Rightarrow> unit result \<times> fnode" where
  "remove_dir_all io p t = or_io io (if is_dir_at p t then put_at p None t else None) t"

section \<open>Sequences of operations\<close>

text \<open>What the \<open>?\<close> operator and a loop with it do: the first error ends the sequence, with what was changed so far.\<close>

definition chain :: "'a result \<times> 's \<Rightarrow> ('a \<Rightarrow> 's \<Rightarrow> 'b result \<times> 's) \<Rightarrow> 'b result \<times> 's" where
  "chain r k = (case r of (Inl e, t) \<Rightarrow> (Inl e, t) | (Inr x, t) \<Rightarrow> k x t)"

fun each :: "('a \<Rightarrow> 's \<Rightarrow> unit result \<times> 's) \<Rightarrow> 'a list \<Rightarrow> 's \<Rightarrow> unit result \<times> 's" where
  "each f [] t = (Inr (), t)"
| "each f (x # xs) t = chain (f x t) (\<lambda>_. each f xs)"

lemma chain_cases:
  assumes "chain r k = (x, t')"
  obtains (fail) e where "r = (Inl e, t')" "x = Inl e" | (go) y t where "r = (Inr y, t)" "k y t = (x, t')"
  using assms by (auto simp: chain_def split: prod.splits sum.splits)

lemma chain_Inr: "chain r k = (Inr z, t') \<longleftrightarrow> (\<exists>y t. r = (Inr y, t) \<and> k y t = (Inr z, t'))"
  by (auto simp: chain_def split: prod.splits sum.splits)

text \<open>An invariant of the steps is one of the sequence.\<close>

lemma each_keeps:
  assumes "each f xs t = (r, t')" "\<And>x t r t'. x \<in> set xs \<Longrightarrow> f x t = (r, t') \<Longrightarrow> R t t'"
    and "\<And>t. R t t" "\<And>a b c. R a b \<Longrightarrow> R b c \<Longrightarrow> R a c"
  shows "R t t'"
  using assms(1,2)
proof (induction xs arbitrary: t)
  case Nil
  then show ?case using assms(3) by simp
next
  case (Cons x xs)
  from Cons.prems(1) have "chain (f x t) (\<lambda>_. each f xs) = (r, t')" by simp
  then show ?case
  proof (cases rule: chain_cases)
    case (fail e)
    then show ?thesis using Cons.prems(2) by force
  next
    case (go y u)
    then show ?thesis using Cons.IH [of u] Cons.prems(2) assms(4) by (meson list.set_intros)
  qed
qed

section \<open>What the operations change\<close>

lemma node_at_append: "node_at (p @ q) t = Option.bind (node_at p t) (node_at q)"
proof (induction p arbitrary: t)
  case Nil
  then show ?case by simp
next
  case (Cons x p)
  then show ?case by (cases t) (auto split: option.splits)
qed

lemma put_at_other:
  assumes "put_at p n t = Some t'" "\<not> prefix p q" "\<not> prefix q p"
  shows "node_at q t' = node_at q t"
  using assms
proof (induction p n t arbitrary: q t' rule: put_at.induct)
  case (2 x p n es)
  then obtain y q' where q: "q = y # q'" by (cases q) auto
  show ?case
  proof (cases "p = []")
    case True
    then show ?thesis using 2 by (auto simp: q delete_conv' update_conv' split: option.splits)
  next
    case False
    then show ?thesis using 2 by (auto simp: q update_conv' split: option.splits)
  qed
qed simp_all

lemma put_at_self:
  assumes "put_at p n t = Some t'"
  shows "node_at (p @ q) t' = Option.bind n (node_at q)"
  using assms
proof (induction p n t arbitrary: t' rule: put_at.induct)
  case (2 x p n es)
  then show ?case
    by (cases "p = []") (auto simp: delete_conv' update_conv' split: option.splits)
qed simp_all

text \<open>The directories on the way stay directories.\<close>

lemma is_dir_at_Nil [simp]: "is_dir_at [] t = (\<exists>es. t = FDir es)"
  by (cases t) (auto simp: is_dir_at_def)

lemma is_dir_at_Cons [simp]: "is_dir_at (x # p) (FDir es) = (\<exists>t. map_of es x = Some t \<and> is_dir_at p t)"
  by (auto simp: is_dir_at_def split: option.splits)

lemma is_dir_at_file [simp]: "\<not> is_dir_at (x # p) (FFile c m)" "\<not> is_dir_at (x # p) FOther"
  by (simp_all add: is_dir_at_def)

lemma put_at_above:
  assumes "put_at p n t = Some t'" "strict_prefix q p"
  shows "is_dir_at q t' \<and> is_dir_at q t"
  using assms
proof (induction p n t arbitrary: q t' rule: put_at.induct)
  case (2 x p n es)
  then show ?case by (cases q) (auto simp: update_conv' split: option.splits if_splits)
qed simp_all

lemma file_at_dir: "is_dir_at p t \<Longrightarrow> file_at p t = None"
  by (auto simp: is_dir_at_def file_at_def split: option.splits fnode.splits)

lemma put_at_file_other: "put_at p n t = Some t' \<Longrightarrow> \<not> prefix p q \<Longrightarrow> file_at q t' = file_at q t"
  using put_at_other [of p n t t' q] put_at_above [of p n t t' q] file_at_dir [of q]
  by (cases "prefix q p") (auto simp: file_at_def strict_prefix_def)

text \<open>Making directories leaves every file in place and adds nothing but directories on the path.\<close>

lemma make_dirs_spec:
  assumes "make_dirs p t = Some t'"
  shows "(\<forall>q. \<not> prefix q p \<longrightarrow> node_at q t' = node_at q t) \<and> (\<forall>q. prefix q p \<longrightarrow> is_dir_at q t')
    \<and> (\<forall>q. prefix q p \<and> node_at q t \<noteq> None \<longrightarrow> is_dir_at q t)"
  using assms
proof (induction p t arbitrary: t' rule: make_dirs.induct)
  case (1 t)
  then show ?case by (auto split: fnode.splits)
next
  case (2 x p es)
  let ?s = "case map_of es x of None \<Rightarrow> FDir [] | Some t \<Rightarrow> t"
  from 2(2) obtain s' where s': "make_dirs p ?s = Some s'" and t': "t' = FDir (AList.update x s' es)" by auto
  note IH = 2(1) [OF s']
  have empty: "node_at q (FDir []) = None" if "\<not> prefix q p" for q using that by (cases q) auto
  show ?case
  proof (intro conjI allI impI)
    fix q assume "\<not> prefix q (x # p)"
    then show "node_at q t' = node_at q (FDir es)"
      using IH empty by (cases q) (auto simp: t' update_conv' split: option.splits)
  next
    fix q assume "prefix q (x # p)"
    then show "is_dir_at q t'" using IH by (cases q) (auto simp: t' update_conv')
  next
    fix q assume "prefix q (x # p) \<and> node_at q (FDir es) \<noteq> None"
    then show "is_dir_at q (FDir es)" using IH by (cases q) (auto split: option.splits)
  qed
qed simp_all

lemma make_dirs_files: "make_dirs p t = Some t' \<Longrightarrow> file_at q t' = file_at q t"
  using make_dirs_spec [of p t t'] file_at_dir [of q t] file_at_dir [of q t']
  by (cases "prefix q p"; cases "node_at q t") (auto simp: file_at_def)

text \<open>The operations on one file, by what they leave at every path.\<close>

lemma write_file_ok:
  assumes "write_file io p c t = (Inr u, t')"
  shows "\<exists>m. node_at p t' = Some (FFile c m) \<and> m = (case node_at p t of Some (FFile c' m) \<Rightarrow> m | _ \<Rightarrow> new_mode)"
    "put_at p (node_at p t') t = Some t'"
  using assms put_at_self [of p _ t t' "[]"]
  by (auto simp: write_file_def or_io_def split: option.splits fnode.splits)

lemma write_file_fail: "write_file io p c t = (Inl e, t') \<Longrightarrow> t' = t"
  by (auto simp: write_file_def or_io_def split: option.splits)

lemma set_permissions_ok:
  assumes "set_permissions io p m t = (Inr u, t')"
  shows "\<exists>c m'. node_at p t = Some (FFile c m') \<and> node_at p t' = Some (FFile c m)" "put_at p (node_at p t') t = Some t'"
  using assms put_at_self [of p _ t t' "[]"]
  by (auto simp: set_permissions_def or_io_def split: option.splits fnode.splits)

lemma set_permissions_fail: "set_permissions io p m t = (Inl e, t') \<Longrightarrow> t' = t"
  by (auto simp: set_permissions_def or_io_def split: option.splits)

lemma create_dir_all_cases: "create_dir_all io p t = (r, t') \<Longrightarrow> make_dirs p t = Some t' \<and> r = Inr () \<or> t' = t \<and> r = Inl io"
  by (auto simp: create_dir_all_def or_io_def split: option.splits)

lemma create_dir_all_files: "create_dir_all io p t = (r, t') \<Longrightarrow> file_at q t' = file_at q t"
  using create_dir_all_cases make_dirs_files by blast

lemma path_join_rel:
  assumes "\<not> starts_with ''/'' s" "''..'' \<notin> set (components s)"
  shows "path_join p s = p @ components s"
proof -
  have "foldl path_step p cs = p @ cs" if "''..'' \<notin> set cs" for p cs
    using that by (induction cs arbitrary: p) (auto simp: path_step_def)
  with assms show ?thesis by (simp add: path_join_def)
qed

text \<open>Files outside a directory stay as they are.\<close>

definition within :: "path \<Rightarrow> fnode \<Rightarrow> fnode \<Rightarrow> bool" where
  "within d t t' \<longleftrightarrow> (\<forall>q. \<not> prefix d q \<longrightarrow> file_at q t' = file_at q t)"

lemma within_refl: "within d t t"
  by (simp add: within_def)

lemma within_trans: "within d a b \<Longrightarrow> within d b c \<Longrightarrow> within d a c"
  by (simp add: within_def)

lemma within_put: "put_at (d @ p) n t = Some t' \<Longrightarrow> within d t t'"
  using append_prefixD put_at_file_other unfolding within_def by blast

lemma within_operations:
  "write_file io (d @ p) c t = (r, t') \<Longrightarrow> within d t t'"
  "set_permissions io (d @ p) m t = (r, t') \<Longrightarrow> within d t t'"
  "create_dir_all io q t = (r, t') \<Longrightarrow> within d t t'"
  "copy_file io q (d @ p) t = (r, t') \<Longrightarrow> within d t t'"
  "remove_file io (d @ p) t = (r, t') \<Longrightarrow> within d t t'"
  "remove_dir_all io (d @ p) t = (r, t') \<Longrightarrow> within d t t'"
  using within_put [of d p] create_dir_all_files [of io q t r t']
  by (auto simp: write_file_def set_permissions_def copy_file_def remove_file_def remove_dir_all_def or_io_def within_refl
      split: option.splits fnode.splits if_splits) (auto simp: within_def)

text \<open>The operations by the contents and the permission bits that each path has afterwards.\<close>

definition entry_at :: "path \<Rightarrow> fnode \<Rightarrow> (string \<times> nat) option" where
  "entry_at p t = (case node_at p t of Some (FFile c m) \<Rightarrow> Some (c, m) | _ \<Rightarrow> None)"

lemma file_at_entry: "file_at p t = map_option fst (entry_at p t)"
  by (auto simp: file_at_def entry_at_def split: option.splits fnode.splits)

lemma entry_at_dir: "is_dir_at p t \<Longrightarrow> entry_at p t = None"
  by (auto simp: is_dir_at_def entry_at_def split: option.splits fnode.splits)

lemma entry_put:
  assumes "put_at p (Some (FFile c m)) t = Some t'" "\<not> is_dir_at p t"
  shows "entry_at q t' = (if q = p then Some (c, m) else entry_at q t)"
proof -
  consider "q = p" | "strict_prefix p q" | "strict_prefix q p" | "\<not> prefix p q" "\<not> prefix q p" by (auto simp: strict_prefix_def)
  then show ?thesis
  proof cases
    case 1
    then show ?thesis using put_at_self [OF assms(1), of "[]"] by (simp add: entry_at_def)
  next
    case 2
    then obtain x r where q: "q = p @ x # r" by (rule strict_prefixE')
    have "node_at q t = None" using assms(2)
      by (cases "node_at p t"; cases "the (node_at p t)") (auto simp: q node_at_append is_dir_at_def)
    then show ?thesis using put_at_self [OF assms(1), of "x # r"] by (simp add: entry_at_def q)
  next
    case 3
    then have "q \<noteq> p" by auto
    then show ?thesis using put_at_above [OF assms(1) 3] entry_at_dir [of q] by simp
  next
    case 4
    then show ?thesis using put_at_other [OF assms(1)] by (auto simp: entry_at_def)
  qed
qed

lemma write_file_entry:
  assumes "write_file io p c t = (Inr u, t')"
  shows "entry_at q t' = (if q = p then Some (c, case entry_at p t of Some (b, m) \<Rightarrow> m | None \<Rightarrow> new_mode) else entry_at q t)"
proof -
  have "\<not> is_dir_at p t" using assms by (auto simp: write_file_def or_io_def is_dir_at_def split: option.splits fnode.splits)
  with assms show ?thesis
    by (auto simp: write_file_def or_io_def entry_put split: option.splits fnode.splits) (auto simp: entry_at_def split: option.splits)
qed

lemma set_permissions_entry:
  assumes "set_permissions io p m t = (Inr u, t')"
  shows "entry_at p t \<noteq> None" "entry_at q t' = (if q = p then map_option (\<lambda>(c, b). (c, m)) (entry_at p t) else entry_at q t)"
proof -
  obtain c b where p: "node_at p t = Some (FFile c b)" "put_at p (Some (FFile c m)) t = Some t'"
    using assms by (auto simp: set_permissions_def or_io_def split: option.splits fnode.splits)
  then have "\<not> is_dir_at p t" by (simp add: is_dir_at_def)
  with p show "entry_at p t \<noteq> None" "entry_at q t' = (if q = p then map_option (\<lambda>(c, b). (c, m)) (entry_at p t) else entry_at q t)"
    by (auto simp: entry_put) (simp_all add: entry_at_def)
qed

lemma copy_file_entry:
  assumes "copy_file io src dst t = (Inr u, t')"
  shows "entry_at src t \<noteq> None" "entry_at q t' = (if q = dst then entry_at src t else entry_at q t)"
proof -
  obtain c m where p: "node_at src t = Some (FFile c m)" "put_at dst (Some (FFile c m)) t = Some t'" and "\<not> is_dir_at dst t"
    using assms by (auto simp: copy_file_def or_io_def is_dir_at_def split: option.splits fnode.splits)
  then show "entry_at src t \<noteq> None" "entry_at q t' = (if q = dst then entry_at src t else entry_at q t)"
    by (auto simp: entry_put) (simp_all add: entry_at_def)
qed

lemma create_dir_all_entry: "create_dir_all io p t = (r, t') \<Longrightarrow> entry_at q t' = entry_at q t"
  using create_dir_all_cases [of io p t r t'] make_dirs_spec [of p t t'] entry_at_dir [of q t] entry_at_dir [of q t']
  by (cases "prefix q p"; cases "node_at q t") (auto simp: entry_at_def)

end
