(* ===== verification/AgentHome.thy ===== *)
theory AgentHome
  imports FileTree Json
begin

text \<open>
  \<open>single-core/src/agent_home.rs\<close>: the home directory that each agent gets below one root. It is seeded once from the
  real home with the configuration of the agent, and its credentials are taken out of it at every use. The JSON
  text format and the texts of operating system errors are fields of the environment.
\<close>

record home_env =
  he_io :: "path \<Rightarrow> string"
  he_parse :: "string \<Rightarrow> json result"
  he_pretty :: "json \<Rightarrow> string"

section \<open>What belongs to an agent\<close>

definition home_dir :: "path \<Rightarrow> string \<Rightarrow> path" where
  "home_dir homes_root agent = path_join homes_root agent"

definition real_paths_for :: "string \<Rightarrow> string list" where
  "real_paths_for agent =
     (if agent = ''claude'' then [''.claude.json'', ''.claude'']
      else if agent = ''codex'' then [''.codex'']
      else if agent = ''opencode'' then [''.config/opencode'']
      else if agent = ''cursor'' then [''.cursor'']
      else if agent = ''goose'' then [''.config/goose'']
      else if agent = ''aider'' then [''.aider.conf.yml'']
      else if agent = ''copilot'' then [''.copilot'']
      else [])"

definition credential_paths_for :: "string \<Rightarrow> string list" where
  "credential_paths_for agent =
     (if agent = ''claude'' then [''.claude/.credentials.json'']
      else if agent = ''codex'' then [''.codex/auth.json'']
      else [])"

definition embedded_fields :: "string \<Rightarrow> (string \<times> string list) option" where
  "embedded_fields agent =
     (if agent = ''cursor'' then Some (''.cursor/cli-config.json'', [''authInfo''])
      else if agent = ''copilot'' then Some (''.copilot/config.json'', [''lastLoggedInUser'', ''loggedInUsers''])
      else None)"

section \<open>Taking credentials out\<close>

text \<open>Lines that are comments are left out before the text is read as JSON.\<close>

definition strip_comments :: "string \<Rightarrow> string" where
  "strip_comments s = str_join newline (filter (\<lambda>l. \<not> starts_with ''//'' (trim_start l)) (str_lines s))"

fun remove_fields :: "string list \<Rightarrow> json \<Rightarrow> json" where
  "remove_fields names (JObj kvs) = JObj (filter (\<lambda>e. fst e \<notin> set names) kvs)"
| "remove_fields names v = v"

definition strip_embedded_credential_fields :: "('e home_env_scheme) \<Rightarrow> path \<Rightarrow> string \<Rightarrow> fnode \<Rightarrow> unit result \<times> fnode" where
  "strip_embedded_credential_fields env dest agent t =
     (case embedded_fields agent of
        None \<Rightarrow> (Inr (), t)
      | Some (rel, names) \<Rightarrow>
          (let p = path_join dest rel
           in if \<not> path_exists p t then (Inr (), t)
              else case read_file (''reading '' @ show_path p @ '': '' @ he_io env p) p t of
                     Inl e \<Rightarrow> (Inl e, t)
                   | Inr body \<Rightarrow>
                       (case he_parse env (strip_comments body) of
                          Inl e \<Rightarrow> (Inl (''parsing '' @ show_path p @ '' as JSON: '' @ e), t)
                        | Inr v \<Rightarrow>
                            if remove_fields names v = v then (Inr (), t)
                            else write_file (''writing '' @ show_path p @ '': '' @ he_io env p) p
                                   (he_pretty env (remove_fields names v)) t)))"

definition strip_path :: "('e home_env_scheme) \<Rightarrow> path \<Rightarrow> string \<Rightarrow> fnode \<Rightarrow> unit result \<times> fnode" where
  "strip_path env dest rel t =
     (let p = path_join dest rel
      in if path_exists p t then remove_file (''removing seeded credential '' @ show_path p @ '': '' @ he_io env p) p t
         else (Inr (), t))"

definition strip_credentials :: "('e home_env_scheme) \<Rightarrow> path \<Rightarrow> string \<Rightarrow> fnode \<Rightarrow> unit result \<times> fnode" where
  "strip_credentials env dest agent t =
     chain (each (strip_path env dest) (credential_paths_for agent) t) (\<lambda>_. strip_embedded_credential_fields env dest agent)"

section \<open>Seeding\<close>

text \<open>The copy of the entries of a directory into another one: what is neither a file nor a directory is left out, and a
  file that cannot be copied too; a directory that cannot be made ends the copy.\<close>

fun copy_entries :: "string \<Rightarrow> (string \<times> fnode) list \<Rightarrow> (string \<times> fnode) list \<Rightarrow> unit result \<times> (string \<times> fnode) list" where
  "copy_entries io [] ds = (Inr (), ds)"
| "copy_entries io ((x, FOther) # es) ds = copy_entries io es ds"
| "copy_entries io ((x, FFile c m) # es) ds =
     copy_entries io es (case map_of ds x of
         Some (FDir sub) \<Rightarrow> ds
       | Some FOther \<Rightarrow> ds
       | _ \<Rightarrow> AList.update x (FFile c m) ds)"
| "copy_entries io ((x, FDir sub) # es) ds =
     (case map_of ds x of
        Some (FFile c m) \<Rightarrow> (Inl io, ds)
      | Some FOther \<Rightarrow> (Inl io, ds)
      | d \<Rightarrow>
          (case copy_entries io sub (case d of Some (FDir s) \<Rightarrow> s | _ \<Rightarrow> []) of
             (Inl e, s) \<Rightarrow> (Inl e, AList.update x (FDir s) ds)
           | (Inr u, s) \<Rightarrow> copy_entries io es (AList.update x (FDir s) ds)))"

definition copy_dir_recursive :: "string \<Rightarrow> path \<Rightarrow> path \<Rightarrow> fnode \<Rightarrow> unit result \<times> fnode" where
  "copy_dir_recursive io src dest t =
     (case node_at src t of
        Some (FDir es) \<Rightarrow>
          chain (create_dir_all io dest t) (\<lambda>_ t.
            (case node_at dest t of
               Some (FDir ds) \<Rightarrow>
                 (case copy_entries io es ds of (r, ds) \<Rightarrow>
                    (case put_at dest (Some (FDir ds)) t of Some t \<Rightarrow> (r, t) | None \<Rightarrow> (Inl io, t)))
             | _ \<Rightarrow> (Inl io, t)))
      | _ \<Rightarrow> (Inl io, t))"

definition seed :: "('e home_env_scheme) \<Rightarrow> path \<Rightarrow> path \<Rightarrow> string \<Rightarrow> fnode \<Rightarrow> unit result \<times> fnode" where
  "seed env real_home dest rel t =
     (let src = path_join real_home rel; dst = path_join dest rel
      in if \<not> path_exists src t then (Inr (), t)
         else chain (create_dir_all (he_io env dst) (butlast dst) t) (\<lambda>_ t.
                if is_dir_at src t then copy_dir_recursive (he_io env dst) src dst t
                else copy_file (he_io env dst) src dst t))"

definition ensure_bootstrapped :: "('e home_env_scheme) \<Rightarrow> path \<Rightarrow> path \<Rightarrow> string \<Rightarrow> fnode \<Rightarrow> path result \<times> fnode" where
  "ensure_bootstrapped env homes_root real_home agent t =
     (let dest = home_dir homes_root agent
      in if path_exists dest t then chain (strip_credentials env dest agent t) (\<lambda>_ t. (Inr dest, t))
         else chain (create_dir_all (''creating '' @ show_path dest @ '': '' @ he_io env dest) dest t) (\<lambda>_ t.
                chain (each (seed env real_home dest) (real_paths_for agent) t) (\<lambda>_ t.
                  chain (strip_credentials env dest agent t) (\<lambda>_ t. (Inr dest, t)))))"

section \<open>A home never holds credentials\<close>

lemma joined_paths [simp]:
  "path_join d ''.claude.json'' = d @ [''.claude.json'']" "path_join d ''.claude'' = d @ [''.claude'']"
  "path_join d ''.codex'' = d @ [''.codex'']" "path_join d ''.config/opencode'' = d @ [''.config'', ''opencode'']"
  "path_join d ''.cursor'' = d @ [''.cursor'']" "path_join d ''.config/goose'' = d @ [''.config'', ''goose'']"
  "path_join d ''.aider.conf.yml'' = d @ [''.aider.conf.yml'']" "path_join d ''.copilot'' = d @ [''.copilot'']"
  "path_join d ''.claude/.credentials.json'' = d @ [''.claude'', ''.credentials.json'']"
  "path_join d ''.codex/auth.json'' = d @ [''.codex'', ''auth.json'']"
  "path_join d ''.cursor/cli-config.json'' = d @ [''.cursor'', ''cli-config.json'']"
  "path_join d ''.copilot/config.json'' = d @ [''.copilot'', ''config.json'']"
  by (simp_all add: path_join_def components_def starts_with_def path_step_def)

text \<open>No credential file is there, and no field of the embedded ones is read.\<close>

definition logged_out :: "('e home_env_scheme) \<Rightarrow> path \<Rightarrow> string \<Rightarrow> fnode \<Rightarrow> bool" where
  "logged_out env dest agent t \<longleftrightarrow>
     (\<forall>rel \<in> set (credential_paths_for agent). \<not> path_exists (path_join dest rel) t) \<and>
     (\<forall>rel names body v. embedded_fields agent = Some (rel, names) \<and> file_at (path_join dest rel) t = Some body \<and>
        he_parse env (strip_comments body) = Inr v \<longrightarrow> (\<forall>f \<in> set names. jget f v = None))"

text \<open>What is left of a value that was read is read back from its text.\<close>

definition reads_back :: "('e home_env_scheme) \<Rightarrow> bool" where
  "reads_back env \<longleftrightarrow> (\<forall>s v names. he_parse env s = Inr v \<longrightarrow>
     he_parse env (strip_comments (he_pretty env (remove_fields names v))) = Inr (remove_fields names v))"

lemma rel_prefix: "rel \<in> set (real_paths_for agent) \<union> set (credential_paths_for agent) \<union> fst ` set_option (embedded_fields agent) \<Longrightarrow>
    \<exists>x xs. path_join d rel = d @ x # xs"
  by (auto simp: real_paths_for_def credential_paths_for_def embedded_fields_def split: if_splits)

lemma jget_removed: "f \<in> set names \<Longrightarrow> jget f (remove_fields names v) = None"
  by (cases v) (auto simp: map_of_eq_None_iff)

lemma strip_embedded_ok:
  assumes "strip_embedded_credential_fields env dest agent t = (r, t')"
  shows "within dest t t' \<and> (embedded_fields agent = None \<or> reads_back env \<longrightarrow> r = Inr () \<longrightarrow>
      (\<forall>rel names body v. embedded_fields agent = Some (rel, names) \<and> file_at (path_join dest rel) t' = Some body \<and>
        he_parse env (strip_comments body) = Inr v \<longrightarrow> (\<forall>f \<in> set names. jget f v = None)))"
proof (cases "embedded_fields agent")
  case None
  then show ?thesis using assms by (auto simp: strip_embedded_credential_fields_def within_refl)
next
  case (Some e)
  obtain rel names where e: "embedded_fields agent = Some (rel, names)" using Some by (cases e) auto
  obtain p where p: "path_join dest rel = dest @ p" using rel_prefix [of rel agent dest] e by auto
  show ?thesis
  proof (cases "\<exists>body v. file_at (dest @ p) t = Some body \<and> he_parse env (strip_comments body) = Inr v \<and> remove_fields names v \<noteq> v")
    case False
    then have t': "t' = t" using assms by (auto simp: strip_embedded_credential_fields_def e p Let_def read_file_def
        split: if_splits option.splits sum.splits)
    have "\<forall>f \<in> set names. jget f v = None" if "file_at (dest @ p) t = Some body" "he_parse env (strip_comments body) = Inr v" for body v
      using False that jget_removed by metis
    then show ?thesis by (auto simp: t' e p within_refl)
  next
    case True
    then obtain body v where v: "file_at (dest @ p) t = Some body" "he_parse env (strip_comments body) = Inr v" "remove_fields names v \<noteq> v"
      by blast
    moreover from v(1) have "path_exists (dest @ p) t" by (auto simp: file_at_def split: option.splits)
    ultimately obtain io where w: "write_file io (dest @ p) (he_pretty env (remove_fields names v)) t = (r, t')"
      using assms by (auto simp: strip_embedded_credential_fields_def e p Let_def read_file_def)
    have "file_at (dest @ p) t' = Some (he_pretty env (remove_fields names v))" if "r = Inr ()"
      using write_file_ok(1) w that by (fastforce simp: file_at_def)
    with within_operations(1) [OF w] v(2) show ?thesis
      by (auto simp: e p reads_back_def jget_removed)
  qed
qed

lemma strip_path_ok:
  assumes "rel \<in> set (credential_paths_for agent)" "strip_path env dest rel t = (r, t')"
  shows "within dest t t' \<and> (r = Inr () \<longrightarrow> \<not> path_exists (path_join dest rel) t')"
proof -
  obtain p where p: "path_join dest rel = dest @ p" using rel_prefix [of rel agent dest] assms(1) by auto
  have "node_at (dest @ p) u = None" if "put_at (dest @ p) None t = Some u" for u using put_at_self [OF that, of "[]"] by simp
  then have "node_at (dest @ p) u = None" if "remove_file io (dest @ p) t = (Inr (), u)" for io u
    using that by (auto simp: remove_file_def or_io_def split: option.splits fnode.splits)
  with assms(2) within_operations(5) [of _ dest p t r t'] show ?thesis
    unfolding strip_path_def p Let_def by (auto simp: within_refl split: if_splits)
qed

lemma strip_credentials_ok:
  assumes "strip_credentials env dest agent t = (r, t')"
  shows "within dest t t' \<and> (embedded_fields agent = None \<or> reads_back env \<longrightarrow> r = Inr () \<longrightarrow> logged_out env dest agent t')"
proof -
  from assms have "chain (each (strip_path env dest) (credential_paths_for agent) t)
      (\<lambda>_. strip_embedded_credential_fields env dest agent) = (r, t')" by (simp add: strip_credentials_def)
  then show ?thesis
  proof (cases rule: chain_cases)
    case (fail e)
    have "within dest t t'"
      using fail(1) by (rule each_keeps) (use strip_path_ok within_refl within_trans in blast)+
    then show ?thesis using fail by simp
  next
    case (go u t1)
    have w1: "within dest t t1"
      using go(1) by (rule each_keeps) (use strip_path_ok within_refl within_trans in blast)+
    have gone: "\<forall>rel \<in> set (credential_paths_for agent). \<not> path_exists (path_join dest rel) t1"
      using go(1) strip_path_ok [of _ agent env dest] by (auto simp: credential_paths_for_def chain_Inr split: if_splits)
    have "\<forall>rel \<in> set (credential_paths_for agent). \<not> path_exists (path_join dest rel) t'"
    proof (cases "embedded_fields agent")
      case None
      then show ?thesis using go(2) gone by (simp add: strip_embedded_credential_fields_def)
    next
      case (Some e)
      then have "credential_paths_for agent = []" by (auto simp: embedded_fields_def credential_paths_for_def split: if_splits)
      then show ?thesis by simp
    qed
    with strip_embedded_ok [OF go(2)] w1 within_trans show ?thesis unfolding logged_out_def by blast
  qed
qed

text \<open>What is copied arrives below the home and nowhere else.\<close>

lemma copy_dir_within:
  assumes "copy_dir_recursive io src (d @ p) t = (r, t')"
  shows "within d t t'"
proof -
  have put: "within d t1 t2" if "put_at (d @ p) n t1 = Some t2" for n t1 t2 using that by (rule within_put)
  have mk: "within d t t1" if "create_dir_all io (d @ p) t = (x, t1)" for x t1 using that within_operations(3) by blast
  from assms show ?thesis
    by (auto simp: copy_dir_recursive_def chain_def within_refl split: option.splits fnode.splits prod.splits sum.splits
        dest!: mk put intro: within_trans)
qed

lemma seed_within:
  assumes "rel \<in> set (real_paths_for agent)" "seed env real dest rel t = (r, t')"
  shows "within dest t t'"
proof -
  obtain p where p: "path_join dest rel = dest @ p" using rel_prefix [of rel agent dest] assms(1) by auto
  show ?thesis
  proof (cases "path_exists (path_join real rel) t")
    case False
    then show ?thesis using assms(2) by (simp add: seed_def Let_def within_refl)
  next
    case True
    with assms(2) have "chain (create_dir_all (he_io env (dest @ p)) (butlast (dest @ p)) t) (\<lambda>_ t.
        if is_dir_at (path_join real rel) t then copy_dir_recursive (he_io env (dest @ p)) (path_join real rel) (dest @ p) t
        else copy_file (he_io env (dest @ p)) (path_join real rel) (dest @ p) t) = (r, t')"
      by (simp add: seed_def Let_def p)
    then show ?thesis
      by (cases rule: chain_cases)
        (auto dest: within_operations(3,4) copy_dir_within intro: within_trans split: if_splits)
  qed
qed

text \<open>The home of an agent is the directory of its name, whatever happens only files below it change, and whenever it is handed
  out no credential of the agent is in it: neither one that the real home had nor one that was put there since.\<close>

lemma bootstrap_logged_out:
  assumes "ensure_bootstrapped env homes real agent t = (r, t')"
  shows "within (home_dir homes agent) t t' \<and>
    (embedded_fields agent = None \<or> reads_back env \<longrightarrow> r = Inr dest \<longrightarrow>
       dest = home_dir homes agent \<and> logged_out env dest agent t')"
proof (cases "path_exists (home_dir homes agent) t")
  case True
  then have "chain (strip_credentials env (home_dir homes agent) agent t) (\<lambda>_ t. (Inr (home_dir homes agent), t)) = (r, t')"
    using assms by (simp add: ensure_bootstrapped_def Let_def)
  then show ?thesis by (cases rule: chain_cases) (use strip_credentials_ok in fastforce)+
next
  case False
  let ?d = "home_dir homes agent"
  let ?rest = "\<lambda>_ t. chain (strip_credentials env ?d agent t) (\<lambda>_ t. (Inr ?d, t))"
  let ?copy = "\<lambda>_ t. chain (each (seed env real ?d) (real_paths_for agent) t) ?rest"
  have copied: "within ?d t1 t2" if "each (seed env real ?d) (real_paths_for agent) t1 = (x, t2)" for x t1 t2
    using that by (rule each_keeps) (use seed_within within_refl within_trans in blast)+
  have "chain (create_dir_all (''creating '' @ show_path ?d @ '': '' @ he_io env ?d) ?d t) ?copy = (r, t')"
    using assms False by (simp add: ensure_bootstrapped_def Let_def)
  then show ?thesis
  proof (cases rule: chain_cases)
    case (fail e)
    then show ?thesis using within_operations(3) by blast
  next
    case (go u t1)
    from go(1) have w1: "within ?d t t1" by (rule within_operations(3))
    from go(2) show ?thesis
    proof (cases rule: chain_cases)
      case (fail e)
      then show ?thesis using copied w1 within_trans by blast
    next
      case (go v t2)
      then have w2: "within ?d t t2" using copied w1 within_trans by blast
      from go(2) show ?thesis
        by (cases rule: chain_cases) (use strip_credentials_ok w2 within_trans in fastforce)+
    qed
  qed
qed

end
