(* ===== verification/Account.thy ===== *)
theory Account
  imports AgentHome "HOL-Library.Char_ord" "HOL-Library.List_Lexorder" "HOL-Library.Product_Lexorder"
begin

text \<open>
  \<open>single-core/src/account.rs\<close>: the login of an agent is captured into a named profile below one root and put back later,
  and the account requests of \<open>handlers.rs\<close>. The files are a tree (\<open>FileTree\<close>), the key ring of the
  desktop a map. The status commands of the agents, the clock, and the text formats are fields of the environment.
\<close>

section \<open>State, environment and records\<close>

datatype usability = StUnknown | StAvailable | StRateLimited | StNeedsTopup

datatype auth_state = NotAuthenticated | Authenticated | AuthUnsupported

record profile_meta =
  pf_captured_at :: string
  pf_unverified_complete :: bool
  pf_label :: "string option"
  pf_status :: usability

record account_profile_info =
  ap_agent :: string
  ap_name :: string
  ap_label :: "string option"
  ap_captured_at :: string
  ap_unverified_complete :: bool
  ap_status :: usability

record machine =
  mc_tree :: fnode
  mc_keys :: "string \<Rightarrow> string option"
  mc_events :: "(string \<times> string) list"

text \<open>What a status command prints and whether it succeeds; none for a command that cannot be started or hangs.\<close>

record status_output =
  so_success :: bool
  so_text :: string

record account_env = home_env +
  ae_status :: "path \<Rightarrow> string \<Rightarrow> string list \<Rightarrow> status_output option"
  ae_ring :: bool
  ae_now :: string
  ae_stamp :: string
  ae_meta_text :: "profile_meta \<Rightarrow> string"
  ae_meta_parse :: "string \<Rightarrow> profile_meta result"
  ae_db :: bool
  ae_homes :: path
  ae_accounts :: path
  ae_real_home :: "path result"

section \<open>Files and JSON fields\<close>

definition on_tree :: "(fnode \<Rightarrow> 'a result \<times> fnode) \<Rightarrow> machine \<Rightarrow> 'a result \<times> machine" where
  "on_tree f st = (case f (mc_tree st) of (r, t) \<Rightarrow> (r, st\<lparr>mc_tree := t\<rparr>))"

definition profile_dir :: "path \<Rightarrow> string \<Rightarrow> string \<Rightarrow> path" where
  "profile_dir accounts_root agent name = path_join (path_join accounts_root agent) name"

text \<open>\<open>0o600\<close>\<close>

definition private_mode :: nat where
  "private_mode = 384"

definition write_secure :: "('e home_env_scheme) \<Rightarrow> path \<Rightarrow> string \<Rightarrow> fnode \<Rightarrow> unit result \<times> fnode" where
  "write_secure env p c t =
     chain (create_dir_all (he_io env p) (butlast p) t) (\<lambda>_ t.
       chain (write_file (he_io env p) p c t) (\<lambda>_ t. set_permissions (he_io env p) p private_mode t))"

text \<open>The copy has the name of the file with a time stamp behind its extension.\<close>

definition backup_path :: "string \<Rightarrow> path \<Rightarrow> path" where
  "backup_path stamp p = (case split_ext (last p) of
     (stem, ext) \<Rightarrow> butlast p @ [stem @ ''.'' @ unwrap_or ext [] @ ''.bak-'' @ stamp])"

definition backup :: "('e account_env_scheme) \<Rightarrow> path \<Rightarrow> fnode \<Rightarrow> path option result \<times> fnode" where
  "backup env p t =
     (if \<not> path_exists p t then (Inr None, t)
      else chain (copy_file (he_io env p) p (backup_path (ae_stamp env) p) t) (\<lambda>_ t. (Inr (Some (backup_path (ae_stamp env) p)), t)))"

fun pick_fields :: "string list \<Rightarrow> json \<Rightarrow> json" where
  "pick_fields names (JObj kvs) =
     foldl (\<lambda>j n. case map_of kvs n of Some v \<Rightarrow> jput n v j | None \<Rightarrow> j) (JObj []) names"
| "pick_fields names v = JObj []"

definition extract_json_fields :: "('e home_env_scheme) \<Rightarrow> path \<Rightarrow> string list \<Rightarrow> fnode \<Rightarrow> json result" where
  "extract_json_fields env p names t =
     (if \<not> path_exists p t then Inr (JObj [])
      else case read_file (''reading '' @ show_path p @ '': '' @ he_io env p) p t of
             Inl e \<Rightarrow> Inl e
           | Inr body \<Rightarrow> map_sum id (pick_fields names) (he_parse env (strip_comments body)))"

fun insert_fields :: "json \<Rightarrow> json \<Rightarrow> json" where
  "insert_fields (JObj new) root = foldl (\<lambda>j (k, v). jput k v j) root new"
| "insert_fields v root = root"

definition merge_json_fields :: "('e home_env_scheme) \<Rightarrow> path \<Rightarrow> json \<Rightarrow> fnode \<Rightarrow> unit result \<times> fnode" where
  "merge_json_fields env p new t =
     (case (if path_exists p t then
              case read_file (he_io env p) p t of Inl e \<Rightarrow> Inl e | Inr body \<Rightarrow> he_parse env body
            else Inr (JObj [])) of
        Inl e \<Rightarrow> (Inl e, t)
      | Inr (JObj kvs) \<Rightarrow> write_file (he_io env p) p (he_pretty env (insert_fields new (JObj kvs))) t
      | Inr v \<Rightarrow> (Inl ''target config root is not a JSON object'', t))"

section \<open>Is an agent logged in\<close>

text \<open>The dash of the messages, as its bytes.\<close>

definition dash :: string where
  "dash = [CHR 0xE2, CHR 0x80, CHR 0x94]"

definition support :: "string \<Rightarrow> bool result" where
  "support agent =
     (if agent \<in> {''claude'', ''codex'', ''cursor'', ''grok'', ''codebuff''} then Inr False
      else if agent \<in> {''agy'', ''copilot''} then Inr True
      else if agent = ''opencode'' then
        Inl (''opencode account switching is unsupported: its login state lives in a live multi-table SQLite database '' @
          ''(~/.local/share/opencode/opencode.db) shared with session history '' @ dash @
          '' see account.rs module docs for why a safe snapshot mechanism doesn't exist yet'')
      else if agent = ''perplexity'' then Inl ''pplx has no coding-agent session to switch between; not supported''
      else Inl (''named multi-account capture/switching isn't implemented for '' @ agent @
          '' yet (only claude, codex, cursor, copilot, grok, codebuff, and agy are supported so far) '' @ dash @
          '' the login itself still worked fine, this only affects `single account capture/use`''))"

definition cli_reports_logged_in :: "('e account_env_scheme) \<Rightarrow> path \<Rightarrow> string \<Rightarrow> string list \<Rightarrow> bool" where
  "cli_reports_logged_in env home command args =
     (case ae_status env home command args of
        None \<Rightarrow> False
      | Some out \<Rightarrow>
          (let lower = map ascii_lower (so_text out)
           in so_success out \<and> \<not> contains_sub ''not logged in'' lower \<and> \<not> contains_sub ''no credentials'' lower \<and>
              \<not> contains_sub ''please run'' lower \<and> \<not> contains_sub ''please log in'' lower))"

definition keyring_lookup :: "('e account_env_scheme) \<Rightarrow> string \<Rightarrow> machine \<Rightarrow> string option" where
  "keyring_lookup env username st =
     (if ae_ring env then Option.bind (mc_keys st username) (\<lambda>v. if v = [] then None else Some v) else None)"

definition keyring_store :: "('e account_env_scheme) \<Rightarrow> string \<Rightarrow> string \<Rightarrow> machine \<Rightarrow> unit result \<times> machine" where
  "keyring_store env username v st =
     (if ae_ring env then (Inr (), st\<lparr>mc_keys := (mc_keys st)(username \<mapsto> v)\<rparr>)
      else (Inl ''secret-tool store failed for service=copilot-cli'', st))"

definition copilot_config :: "path \<Rightarrow> path" where
  "copilot_config home = path_join home ''.copilot/config.json''"

definition copilot_identity :: "('e account_env_scheme) \<Rightarrow> path \<Rightarrow> machine \<Rightarrow> (string \<times> string) option" where
  "copilot_identity env home st =
     (case extract_json_fields env (copilot_config home) [''lastLoggedInUser''] (mc_tree st) of
        Inl e \<Rightarrow> None
      | Inr found \<Rightarrow>
          Option.bind (jget ''lastLoggedInUser'' found) (\<lambda>user.
          Option.bind (Option.bind (jget ''host'' user) as_str) (\<lambda>host.
          Option.bind (Option.bind (jget ''login'' user) as_str) (\<lambda>login. Some (host, login)))))"

definition copilot_keyring_username :: "string \<Rightarrow> string \<Rightarrow> string" where
  "copilot_keyring_username host login = host @ '':'' @ login"

definition agy_files :: "string list" where
  "agy_files = [''jetski_state.pbtxt'', ''settings.json'']"

definition agy_dir :: "path \<Rightarrow> path" where
  "agy_dir home = path_join home ''.gemini/antigravity-cli''"

definition has_live_login :: "('e account_env_scheme) \<Rightarrow> path \<Rightarrow> string \<Rightarrow> machine \<Rightarrow> bool" where
  "has_live_login env home agent st =
     (let t = mc_tree st
      in if agent = ''claude'' then path_exists (path_join home ''.claude/.credentials.json'') t
         else if agent = ''codex'' then
           path_exists (path_join home ''.codex/auth.json'') t \<or> cli_reports_logged_in env home ''codex'' [''login'', ''status'']
         else if agent = ''grok'' then path_exists (path_join home ''.grok/auth.json'') t
         else if agent = ''codebuff'' then path_exists (path_join home ''.config/manicode/credentials.json'') t
         else if agent = ''cursor'' then
           (case extract_json_fields env (path_join home ''.cursor/cli-config.json'') [''authInfo''] t of
              Inl e \<Rightarrow> False
            | Inr found \<Rightarrow> (case jget ''authInfo'' found of None \<Rightarrow> False | Some v \<Rightarrow> v \<noteq> JNull))
           \<or> cli_reports_logged_in env home ''cursor-agent'' [''status'']
         else if agent = ''copilot'' then
           (case copilot_identity env home st of
              None \<Rightarrow> False
            | Some (host, login) \<Rightarrow> keyring_lookup env (copilot_keyring_username host login) st \<noteq> None)
         else if agent = ''agy'' then list_ex (\<lambda>f. path_exists (path_join (agy_dir home) f) t) agy_files
         else False)"

definition is_authenticated :: "('e account_env_scheme) \<Rightarrow> path \<Rightarrow> string \<Rightarrow> machine \<Rightarrow> auth_state" where
  "is_authenticated env home agent st =
     (case support agent of
        Inl e \<Rightarrow> AuthUnsupported
      | Inr u \<Rightarrow> if has_live_login env home agent st then Authenticated else NotAuthenticated)"

definition derive_label :: "('e account_env_scheme) \<Rightarrow> path \<Rightarrow> string \<Rightarrow> machine \<Rightarrow> string option" where
  "derive_label env home agent st =
     (let t = mc_tree st; str = (\<lambda>k v. Option.bind (jget k v) as_str)
      in if agent = ''claude'' then
           (case extract_json_fields env (path_join home ''.claude.json'') [''oauthAccount'', ''userID''] t of
              Inl e \<Rightarrow> None
            | Inr found \<Rightarrow> (case Option.bind (jget ''oauthAccount'' found) (str ''email'') of
                 Some email \<Rightarrow> Some email
               | None \<Rightarrow> str ''userID'' found))
         else if agent = ''cursor'' then
           (case extract_json_fields env (path_join home ''.cursor/cli-config.json'') [''authInfo''] t of
              Inl e \<Rightarrow> None
            | Inr found \<Rightarrow> Option.bind (jget ''authInfo'' found) (str ''email''))
         else if agent = ''copilot'' then map_option snd (copilot_identity env home st)
         else if agent = ''grok'' then
           Option.bind (file_at (path_join home ''.grok/auth.json'') t) (\<lambda>body.
             (case he_parse env body of Inr (JObj ((k, v) # kvs)) \<Rightarrow> str ''email'' v | _ \<Rightarrow> None))
         else if agent = ''codebuff'' then
           Option.bind (file_at (path_join home ''.config/manicode/credentials.json'') t) (\<lambda>body.
             (case he_parse env body of Inr full \<Rightarrow> Option.bind (jget ''default'' full) (str ''email'') | Inl e \<Rightarrow> None))
         else None)"

section \<open>Capturing\<close>

definition save_copy :: "('e account_env_scheme) \<Rightarrow> path \<Rightarrow> path \<Rightarrow> machine \<Rightarrow> unit result \<times> machine" where
  "save_copy env src dst st =
     (case read_file (he_io env src) src (mc_tree st) of
        Inl e \<Rightarrow> (Inl e, st)
      | Inr c \<Rightarrow> on_tree (write_secure env dst c) st)"

definition save_fields :: "('e account_env_scheme) \<Rightarrow> path \<Rightarrow> string list \<Rightarrow> path \<Rightarrow> machine \<Rightarrow> unit result \<times> machine" where
  "save_fields env src names dst st =
     (case extract_json_fields env src names (mc_tree st) of
        Inl e \<Rightarrow> (Inl e, st)
      | Inr v \<Rightarrow> on_tree (write_secure env dst (he_pretty env v)) st)"

definition snapshot_copilot :: "('e account_env_scheme) \<Rightarrow> path \<Rightarrow> path \<Rightarrow> machine \<Rightarrow> unit result \<times> machine" where
  "snapshot_copilot env source dir st =
     (case copilot_identity env source st of
        None \<Rightarrow> (Inl (''copilot: no lastLoggedInUser in config.json '' @ dash @ '' log in first''), st)
      | Some (host, login) \<Rightarrow>
          chain (save_fields env (copilot_config source) [''lastLoggedInUser'', ''loggedInUsers''] (path_join dir ''identity.json'') st) (\<lambda>_ st.
            (case keyring_lookup env (copilot_keyring_username host login) st of
               None \<Rightarrow> (Inl (''copilot: no OS-keyring entry found for '' @ copilot_keyring_username host login @
                   '' (service=copilot-cli) '' @ dash @ '' is the desktop secret service running?''), st)
             | Some secret \<Rightarrow> on_tree (write_secure env (path_join dir ''keyring_secret'') secret) st)))"

definition snapshot :: "('e account_env_scheme) \<Rightarrow> path \<Rightarrow> path \<Rightarrow> string \<Rightarrow> machine \<Rightarrow> unit result \<times> machine" where
  "snapshot env source dir agent st =
     (if agent = ''claude'' then
        chain (save_copy env (path_join source ''.claude/.credentials.json'') (path_join dir ''credentials.json'') st) (\<lambda>_.
          save_fields env (path_join source ''.claude.json'') [''oauthAccount'', ''userID''] (path_join dir ''oauth_account.json''))
      else if agent = ''codex'' then save_copy env (path_join source ''.codex/auth.json'') (path_join dir ''auth.json'') st
      else if agent = ''cursor'' then
        save_fields env (path_join source ''.cursor/cli-config.json'') [''authInfo''] (path_join dir ''auth_info.json'') st
      else if agent = ''copilot'' then snapshot_copilot env source dir st
      else if agent = ''grok'' then save_copy env (path_join source ''.grok/auth.json'') (path_join dir ''auth.json'') st
      else if agent = ''codebuff'' then
        save_copy env (path_join source ''.config/manicode/credentials.json'') (path_join dir ''credentials.json'') st
      else if agent = ''agy'' then
        each (\<lambda>f st. if path_exists (path_join (agy_dir source) f) (mc_tree st)
                     then save_copy env (path_join (agy_dir source) f) (path_join dir f) st else (Inr (), st)) agy_files st
      else (Inl ''unreachable'', st))"

definition capture ::
    "('e account_env_scheme) \<Rightarrow> path \<Rightarrow> path \<Rightarrow> string \<Rightarrow> string \<Rightarrow> string option \<Rightarrow> machine \<Rightarrow> account_profile_info result \<times> machine" where
  "capture env accounts_root home agent name label st =
     (case support agent of
        Inl e \<Rightarrow> (Inl e, st)
      | Inr unverified \<Rightarrow>
          (let dir = profile_dir accounts_root agent name
           in chain (on_tree (create_dir_all (he_io env dir) dir) st) (\<lambda>_ st.
                if \<not> has_live_login env home agent st then
                  (Inl (agent @ '' is not currently logged in inside SingleCLI's isolated home ('' @ show_path home @ '') '' @ dash @
                     '' run `single agent login '' @ agent @ ''` first''), st)
                else chain (snapshot env home dir agent st) (\<lambda>_ st.
                  (let meta = \<lparr>pf_captured_at = ae_now env, pf_unverified_complete = unverified, pf_label = label, pf_status = StUnknown\<rparr>;
                       p = path_join dir ''meta.json''
                   in chain (on_tree (write_file (he_io env p) p (ae_meta_text env meta)) st) (\<lambda>_ st.
                        (Inr \<lparr>ap_agent = agent, ap_name = name, ap_label = label, ap_captured_at = ae_now env,
                           ap_unverified_complete = unverified, ap_status = StUnknown\<rparr>, st)))))))"

definition quote_name :: "string \<Rightarrow> string" where
  "quote_name s = CHR 0x27 # s @ [CHR 0x27]"

definition no_profile :: "string \<Rightarrow> string \<Rightarrow> string" where
  "no_profile agent name = ''no profile named '' @ quote_name name @ '' for agent '' @ quote_name agent"

definition set_account_status ::
    "('e account_env_scheme) \<Rightarrow> path \<Rightarrow> string \<Rightarrow> string \<Rightarrow> usability \<Rightarrow> machine \<Rightarrow> unit result \<times> machine" where
  "set_account_status env accounts_root agent name status st =
     (let p = path_join (profile_dir accounts_root agent name) ''meta.json''
      in if \<not> path_exists p (mc_tree st) then (Inl (no_profile agent name), st)
         else case read_file (he_io env p) p (mc_tree st) of
                Inl e \<Rightarrow> (Inl e, st)
              | Inr body \<Rightarrow>
                  (case ae_meta_parse env body of
                     Inl e \<Rightarrow> (Inl e, st)
                   | Inr meta \<Rightarrow> on_tree (write_file (he_io env p) p (ae_meta_text env (meta\<lparr>pf_status := status\<rparr>))) st))"

section \<open>Putting a login back\<close>

fun gather :: "('a \<Rightarrow> 's \<Rightarrow> 'b list result \<times> 's) \<Rightarrow> 'a list \<Rightarrow> 's \<Rightarrow> 'b list result \<times> 's" where
  "gather f [] st = (Inr [], st)"
| "gather f (x # xs) st = chain (f x st) (\<lambda>bs st. chain (gather f xs st) (\<lambda>cs st. (Inr (bs @ cs), st)))"

definition backed_up :: "path option \<Rightarrow> string list" where
  "backed_up b = (case b of None \<Rightarrow> [] | Some p \<Rightarrow> [show_path p])"

text \<open>A file of the profile replaces the live one, whose copy is kept.\<close>

definition overwrite :: "('e account_env_scheme) \<Rightarrow> path \<Rightarrow> path \<Rightarrow> machine \<Rightarrow> string list result \<times> machine" where
  "overwrite env live saved st =
     chain (on_tree (backup env live) st) (\<lambda>b st.
       (case read_file (he_io env saved) saved (mc_tree st) of
          Inl e \<Rightarrow> (Inl e, st)
        | Inr c \<Rightarrow> chain (on_tree (write_secure env live c) st) (\<lambda>_ st. (Inr (backed_up b), st))))"

definition read_json :: "('e account_env_scheme) \<Rightarrow> path \<Rightarrow> machine \<Rightarrow> json result" where
  "read_json env p st =
     (case read_file (he_io env p) p (mc_tree st) of Inl e \<Rightarrow> Inl e | Inr body \<Rightarrow> he_parse env body)"

definition merge_saved :: "('e account_env_scheme) \<Rightarrow> path \<Rightarrow> path \<Rightarrow> machine \<Rightarrow> unit result \<times> machine" where
  "merge_saved env live saved st =
     (case read_json env saved st of
        Inl e \<Rightarrow> (Inl e, st)
      | Inr new \<Rightarrow> on_tree (merge_json_fields env live new) st)"

definition overwrite_fields :: "('e account_env_scheme) \<Rightarrow> path \<Rightarrow> path \<Rightarrow> machine \<Rightarrow> string list result \<times> machine" where
  "overwrite_fields env live saved st =
     chain (on_tree (backup env live) st) (\<lambda>b st. chain (merge_saved env live saved st) (\<lambda>_ st. (Inr (backed_up b), st)))"

definition restore_copilot_credentials :: "('e account_env_scheme) \<Rightarrow> path \<Rightarrow> path \<Rightarrow> machine \<Rightarrow> unit result \<times> machine" where
  "restore_copilot_credentials env config profile st =
     (case read_json env (path_join profile ''identity.json'') st of
        Inl e \<Rightarrow> (Inl e, st)
      | Inr identity \<Rightarrow>
          chain (on_tree (merge_json_fields env config identity) st) (\<lambda>_ st.
            (case jget ''lastLoggedInUser'' identity of
               None \<Rightarrow> (Inl ''captured copilot profile has no lastLoggedInUser'', st)
             | Some user \<Rightarrow>
                 (case Option.bind (jget ''host'' user) as_str of
                    None \<Rightarrow> (Inl ''captured copilot identity missing host'', st)
                  | Some host \<Rightarrow>
                      (case Option.bind (jget ''login'' user) as_str of
                         None \<Rightarrow> (Inl ''captured copilot identity missing login'', st)
                       | Some login \<Rightarrow>
                           (let p = path_join profile ''keyring_secret''
                            in case read_file (''reading captured copilot keyring secret: '' @ he_io env p) p (mc_tree st) of
                                 Inl e \<Rightarrow> (Inl e, st)
                               | Inr secret \<Rightarrow>
                                   keyring_store env (copilot_keyring_username host login) (trim_end secret) st))))))"

definition write_credentials_into ::
    "('e account_env_scheme) \<Rightarrow> path \<Rightarrow> path \<Rightarrow> string \<Rightarrow> machine \<Rightarrow> string list result \<times> machine" where
  "write_credentials_into env home profile agent st =
     (if agent = ''claude'' then
        chain (overwrite env (path_join home ''.claude/.credentials.json'') (path_join profile ''credentials.json'') st) (\<lambda>b1 st.
          chain (overwrite_fields env (path_join home ''.claude.json'') (path_join profile ''oauth_account.json'') st) (\<lambda>b2 st.
            (Inr (b1 @ b2), st)))
      else if agent = ''codex'' then overwrite env (path_join home ''.codex/auth.json'') (path_join profile ''auth.json'') st
      else if agent = ''cursor'' then
        overwrite_fields env (path_join home ''.cursor/cli-config.json'') (path_join profile ''auth_info.json'') st
      else if agent = ''copilot'' then
        chain (on_tree (backup env (copilot_config home)) st) (\<lambda>b st.
          chain (restore_copilot_credentials env (copilot_config home) profile st) (\<lambda>_ st. (Inr (backed_up b), st)))
      else if agent = ''grok'' then overwrite env (path_join home ''.grok/auth.json'') (path_join profile ''auth.json'') st
      else if agent = ''codebuff'' then
        overwrite env (path_join home ''.config/manicode/credentials.json'') (path_join profile ''credentials.json'') st
      else if agent = ''agy'' then
        gather (\<lambda>f st. if path_exists (path_join profile f) (mc_tree st)
                       then overwrite env (path_join (agy_dir home) f) (path_join profile f) st else (Inr [], st)) agy_files st
      else (Inl ''unreachable'', st))"

definition switch ::
    "('e account_env_scheme) \<Rightarrow> path \<Rightarrow> path \<Rightarrow> string \<Rightarrow> string \<Rightarrow> machine \<Rightarrow> string list result \<times> machine" where
  "switch env accounts_root home agent name st =
     (case support agent of
        Inl e \<Rightarrow> (Inl e, st)
      | Inr u \<Rightarrow>
          (let dir = profile_dir accounts_root agent name
           in if \<not> path_exists dir (mc_tree st) then (Inl (no_profile agent name), st)
              else write_credentials_into env home dir agent st))"

section \<open>A home per account\<close>

text \<open>A file of the base home is taken over when the isolated one has none yet.\<close>

definition carry_over :: "('e account_env_scheme) \<Rightarrow> path \<Rightarrow> path \<Rightarrow> machine \<Rightarrow> unit result \<times> machine" where
  "carry_over env base dst st =
     (if \<not> path_exists dst (mc_tree st) \<and> path_exists base (mc_tree st)
      then on_tree (copy_file (he_io env dst) base dst) st else (Inr (), st))"

definition make_dir :: "('e account_env_scheme) \<Rightarrow> path \<Rightarrow> machine \<Rightarrow> unit result \<times> machine" where
  "make_dir env p = on_tree (create_dir_all (he_io env p) p)"

text \<open>The settings that are carried over, with their directory, and the credentials that are laid over them.\<close>

definition isolate_file ::
    "('e account_env_scheme) \<Rightarrow> path \<Rightarrow> path \<Rightarrow> string \<Rightarrow> string \<Rightarrow> path \<Rightarrow> path \<Rightarrow> machine \<Rightarrow> unit result \<times> machine" where
  "isolate_file env base isolated dir config live saved st =
     chain (make_dir env (path_join isolated dir) st) (\<lambda>_ st.
       chain (carry_over env (path_join (path_join base dir) config) (path_join (path_join isolated dir) config) st) (\<lambda>_.
         save_copy env saved live))"

definition isolate_agent :: "('e account_env_scheme) \<Rightarrow> path \<Rightarrow> path \<Rightarrow> path \<Rightarrow> string \<Rightarrow> machine \<Rightarrow> unit result \<times> machine" where
  "isolate_agent env base profile isolated agent st =
     (if agent = ''claude'' then
        (let config = path_join isolated ''.claude.json''
         in chain (carry_over env (path_join base ''.claude.json'') config st) (\<lambda>_ st.
              chain (make_dir env (path_join isolated ''.claude'') st) (\<lambda>_ st.
                chain (save_copy env (path_join profile ''credentials.json'') (path_join isolated ''.claude/.credentials.json'') st) (\<lambda>_.
                  merge_saved env config (path_join profile ''oauth_account.json'')))))
      else if agent = ''codex'' then
        isolate_file env base isolated ''.codex'' ''config.toml'' (path_join isolated ''.codex/auth.json'') (path_join profile ''auth.json'') st
      else if agent = ''cursor'' then
        chain (make_dir env (path_join isolated ''.cursor'') st) (\<lambda>_ st.
          chain (carry_over env (path_join base ''.cursor/cli-config.json'') (path_join isolated ''.cursor/cli-config.json'') st) (\<lambda>_.
            merge_saved env (path_join isolated ''.cursor/cli-config.json'') (path_join profile ''auth_info.json'')))
      else if agent = ''copilot'' then
        chain (make_dir env (path_join isolated ''.copilot'') st) (\<lambda>_ st.
          chain (carry_over env (copilot_config base) (copilot_config isolated) st) (\<lambda>_.
            restore_copilot_credentials env (copilot_config isolated) profile))
      else if agent = ''grok'' then
        isolate_file env base isolated ''.grok'' ''config.toml'' (path_join isolated ''.grok/auth.json'') (path_join profile ''auth.json'') st
      else if agent = ''codebuff'' then
        isolate_file env base isolated ''.config/manicode'' ''settings.json''
          (path_join isolated ''.config/manicode/credentials.json'') (path_join profile ''credentials.json'') st
      else if agent = ''agy'' then
        chain (make_dir env (agy_dir isolated) st) (\<lambda>_.
          each (\<lambda>f st. if path_exists (path_join profile f) (mc_tree st)
                       then save_copy env (path_join profile f) (path_join (agy_dir isolated) f) st
                       else carry_over env (path_join (agy_dir base) f) (path_join (agy_dir isolated) f) st) agy_files)
      else (Inl ''unreachable'', st))"

definition ensure_isolated_home ::
    "('e account_env_scheme) \<Rightarrow> path \<Rightarrow> path \<Rightarrow> string \<Rightarrow> string \<Rightarrow> machine \<Rightarrow> path result \<times> machine" where
  "ensure_isolated_home env accounts_root base agent name st =
     (case support agent of
        Inl e \<Rightarrow> (Inl e, st)
      | Inr u \<Rightarrow>
          (let profile = profile_dir accounts_root agent name; isolated = path_join profile ''home''
           in if \<not> path_exists profile (mc_tree st) then (Inl (no_profile agent name), st)
              else chain (make_dir env isolated st) (\<lambda>_ st.
                     chain (isolate_agent env base profile isolated agent st) (\<lambda>_ st. (Inr isolated, st)))))"

section \<open>Listing and removing\<close>

definition profile_of :: "('e account_env_scheme) \<Rightarrow> string \<Rightarrow> string \<times> fnode \<Rightarrow> account_profile_info list" where
  "profile_of env agent e =
     (case e of
        (name, FDir files) \<Rightarrow>
          (case map_of files ''meta.json'' of
             Some (FFile body m) \<Rightarrow>
               (case ae_meta_parse env body of
                  Inl err \<Rightarrow> []
                | Inr meta \<Rightarrow> [\<lparr>ap_agent = agent, ap_name = name, ap_label = pf_label meta, ap_captured_at = pf_captured_at meta,
                    ap_unverified_complete = pf_unverified_complete meta, ap_status = pf_status meta\<rparr>])
           | _ \<Rightarrow> [])
      | _ \<Rightarrow> [])"

definition agent_profiles :: "('e account_env_scheme) \<Rightarrow> string option \<Rightarrow> string \<times> fnode \<Rightarrow> account_profile_info list" where
  "agent_profiles env only e =
     (case e of
        (agent, FDir profiles) \<Rightarrow> if only = None \<or> only = Some agent then concat (map (profile_of env agent) profiles) else []
      | _ \<Rightarrow> [])"

definition account_list :: "('e account_env_scheme) \<Rightarrow> path \<Rightarrow> string option \<Rightarrow> fnode \<Rightarrow> account_profile_info list result" where
  "account_list env accounts_root only t =
     (case node_at accounts_root t of
        None \<Rightarrow> Inr []
      | Some (FDir agents) \<Rightarrow> Inr (sort_key (\<lambda>i. (ap_agent i, ap_name i)) (concat (map (agent_profiles env only) agents)))
      | Some x \<Rightarrow> Inl (he_io env accounts_root))"

definition account_remove :: "('e account_env_scheme) \<Rightarrow> path \<Rightarrow> string \<Rightarrow> string \<Rightarrow> machine \<Rightarrow> bool result \<times> machine" where
  "account_remove env accounts_root agent name st =
     (let dir = profile_dir accounts_root agent name
      in if \<not> path_exists dir (mc_tree st) then (Inr False, st)
         else chain (on_tree (remove_dir_all (he_io env dir) dir) st) (\<lambda>_ st. (Inr True, st)))"

section \<open>The requests of the daemon\<close>

datatype account_request =
    AccountCapture string string "string option"
  | AccountUse string string
  | AccountList "string option"
  | AccountRemove string string
  | AccountSetStatus string string usability

datatype account_data =
    AccountProfile account_profile_info
  | AccountSwitched string string "string list"
  | AccountProfiles "account_profile_info list"
  | AccountEmpty

definition agent_home :: "('e account_env_scheme) \<Rightarrow> string \<Rightarrow> machine \<Rightarrow> path result \<times> machine" where
  "agent_home env agent st =
     (case ae_real_home env of
        Inl e \<Rightarrow> (Inl e, st)
      | Inr real \<Rightarrow> on_tree (ensure_bootstrapped env (ae_homes env) real agent) st)"

text \<open>The event is written when the database can be opened, and its loss is ignored.\<close>

definition log_account_event :: "('e account_env_scheme) \<Rightarrow> string \<Rightarrow> string \<Rightarrow> machine \<Rightarrow> machine" where
  "log_account_event env kind detail st = (if ae_db env then st\<lparr>mc_events := mc_events st @ [(kind, detail)]\<rparr> else st)"

definition handle_account :: "('e account_env_scheme) \<Rightarrow> account_request \<Rightarrow> machine \<Rightarrow> account_data result \<times> machine" where
  "handle_account env req st =
     (case req of
        AccountCapture agent name label \<Rightarrow>
          chain (agent_home env agent st) (\<lambda>home st.
            chain (capture env (ae_accounts env) home agent name label st) (\<lambda>info st.
              (Inr (AccountProfile info), log_account_event env ''account.captured'' (agent @ ''/'' @ name) st)))
      | AccountUse agent name \<Rightarrow>
          chain (agent_home env agent st) (\<lambda>home st.
            chain (switch env (ae_accounts env) home agent name st) (\<lambda>backups st.
              (Inr (AccountSwitched agent name backups), log_account_event env ''account.switched'' (agent @ ''/'' @ name) st)))
      | AccountList only \<Rightarrow> (map_sum id AccountProfiles (account_list env (ae_accounts env) only (mc_tree st)), st)
      | AccountRemove agent name \<Rightarrow>
          chain (account_remove env (ae_accounts env) agent name st) (\<lambda>found st.
            if found then (Inr AccountEmpty, st) else (Inl (no_profile agent name), st))
      | AccountSetStatus agent name status \<Rightarrow>
          chain (set_account_status env (ae_accounts env) agent name status st) (\<lambda>_ st. (Inr AccountEmpty, st)))"


section \<open>What each step leaves at every path\<close>

lemma joined_names [simp]:
  "path_join d ''credentials.json'' = d @ [''credentials.json'']" "path_join d ''oauth_account.json'' = d @ [''oauth_account.json'']"
  "path_join d ''auth.json'' = d @ [''auth.json'']" "path_join d ''auth_info.json'' = d @ [''auth_info.json'']"
  "path_join d ''identity.json'' = d @ [''identity.json'']" "path_join d ''keyring_secret'' = d @ [''keyring_secret'']"
  "path_join d ''meta.json'' = d @ [''meta.json'']" "path_join d ''jetski_state.pbtxt'' = d @ [''jetski_state.pbtxt'']"
  "path_join d ''settings.json'' = d @ [''settings.json'']" "path_join d ''.grok/auth.json'' = d @ [''.grok'', ''auth.json'']"
  "path_join d ''.config/manicode/credentials.json'' = d @ [''.config'', ''manicode'', ''credentials.json'']"
  "path_join d ''.gemini/antigravity-cli'' = d @ [''.gemini'', ''antigravity-cli'']"
  by (simp_all add: path_join_def components_def starts_with_def path_step_def)

lemma on_tree_Inr: "on_tree f st = (r, st') \<longleftrightarrow> (\<exists>t. f (mc_tree st) = (r, t) \<and> st' = st\<lparr>mc_tree := t\<rparr>)"
  by (auto simp: on_tree_def split: prod.splits)

lemma write_secure_entry:
  assumes "write_secure env p c t = (Inr u, t')"
  shows "entry_at q t' = (if q = p then Some (c, private_mode) else entry_at q t)"
proof -
  from assms obtain t1 t2 u1 u2 where c: "create_dir_all (he_io env p) (butlast p) t = (Inr u1, t1)"
      "write_file (he_io env p) p c t1 = (Inr u2, t2)" "set_permissions (he_io env p) p private_mode t2 = (Inr u, t')"
    by (auto simp: write_secure_def chain_Inr)
  show ?thesis
    using create_dir_all_entry [OF c(1)] write_file_entry [OF c(2)] set_permissions_entry [OF c(3)]
    by (simp split: option.splits prod.splits)
qed

lemma backup_entry:
  assumes "backup env p t = (Inr b, t')"
  shows "b = (if path_exists p t then Some (backup_path (ae_stamp env) p) else None)"
    "entry_at q t' = (if path_exists p t \<and> q = backup_path (ae_stamp env) p then entry_at p t else entry_at q t)"
proof -
  from assms consider "\<not> path_exists p t" "b = None" "t' = t" | u where "path_exists p t" "b = Some (backup_path (ae_stamp env) p)"
      "copy_file (he_io env p) p (backup_path (ae_stamp env) p) t = (Inr u, t')"
    by (auto simp: backup_def chain_Inr split: if_splits)
  note cases = this
  from cases show "b = (if path_exists p t then Some (backup_path (ae_stamp env) p) else None)" by cases auto
  from cases show "entry_at q t' = (if path_exists p t \<and> q = backup_path (ae_stamp env) p then entry_at p t else entry_at q t)"
    by cases (auto simp: copy_file_entry(2))
qed

lemma save_copy_entry:
  assumes "save_copy env src dst st = (Inr u, st')"
  shows "\<exists>c m. entry_at src (mc_tree st) = Some (c, m) \<and>
    (\<forall>q. entry_at q (mc_tree st') = (if q = dst then Some (c, private_mode) else entry_at q (mc_tree st)))"
  using assms write_secure_entry [of env dst _ "mc_tree st" u]
  by (auto simp: save_copy_def read_file_def on_tree_Inr file_at_entry split: option.splits sum.splits)

lemma save_fields_entry:
  assumes "save_fields env src names dst st = (Inr u, st')"
  shows "\<exists>v. extract_json_fields env src names (mc_tree st) = Inr v \<and>
    (\<forall>q. entry_at q (mc_tree st') = (if q = dst then Some (he_pretty env v, private_mode) else entry_at q (mc_tree st)))"
  using assms write_secure_entry [of env dst _ "mc_tree st" u]
  by (auto simp: save_fields_def on_tree_Inr split: sum.splits)

lemma merge_saved_entry:
  assumes "merge_saved env live saved st = (Inr u, st')" "q \<noteq> live"
  shows "entry_at q (mc_tree st') = entry_at q (mc_tree st)"
  using assms write_file_entry [of _ live _ "mc_tree st" u _ q]
  by (auto simp: merge_saved_def on_tree_Inr merge_json_fields_def split: sum.splits json.splits if_splits)

lemma overwrite_entry:
  assumes "overwrite env live saved st = (Inr bs, st')" "saved \<noteq> backup_path (ae_stamp env) live"
  shows "\<exists>c m. entry_at saved (mc_tree st) = Some (c, m) \<and>
    bs = (if path_exists live (mc_tree st) then [show_path (backup_path (ae_stamp env) live)] else []) \<and>
    (\<forall>q. entry_at q (mc_tree st') = (if q = live then Some (c, private_mode)
       else if path_exists live (mc_tree st) \<and> q = backup_path (ae_stamp env) live then entry_at live (mc_tree st)
       else entry_at q (mc_tree st)))"
proof -
  from assms(1) obtain b t1 c t2 u where o: "backup env live (mc_tree st) = (Inr b, t1)" "file_at saved t1 = Some c"
      "write_secure env live c t1 = (Inr u, t2)" "bs = backed_up b" "st' = st\<lparr>mc_tree := t2\<rparr>"
    by (auto simp: overwrite_def chain_Inr on_tree_Inr read_file_def split: sum.splits option.splits)
  have "file_at saved (mc_tree st) = Some c" using o(2) backup_entry(2) [OF o(1), of saved] assms(2) by (simp add: file_at_entry)
  with o backup_entry [OF o(1)] write_secure_entry [OF o(3)] show ?thesis
    by (auto simp: file_at_entry backed_up_def)
qed

lemma overwrite_fields_entry:
  assumes "overwrite_fields env live saved st = (Inr bs, st')" "q \<noteq> live" "q \<noteq> backup_path (ae_stamp env) live"
  shows "entry_at q (mc_tree st') = entry_at q (mc_tree st)"
proof -
  from assms(1) obtain b t1 u where o: "backup env live (mc_tree st) = (Inr b, t1)"
      "merge_saved env live saved (st\<lparr>mc_tree := t1\<rparr>) = (Inr u, st')"
    by (auto simp: overwrite_fields_def chain_Inr on_tree_Inr)
  show ?thesis using merge_saved_entry [OF o(2) assms(2)] backup_entry(2) [OF o(1), of q] assms(3) by simp
qed


section \<open>Capturing and switching\<close>

text \<open>The agents whose login is a file of its own: where it is in a home, and in a profile.\<close>

definition login_file :: "string \<Rightarrow> (string \<times> string) option" where
  "login_file agent =
     (if agent = ''claude'' then Some (''.claude/.credentials.json'', ''credentials.json'')
      else if agent = ''codex'' then Some (''.codex/auth.json'', ''auth.json'')
      else if agent = ''grok'' then Some (''.grok/auth.json'', ''auth.json'')
      else if agent = ''codebuff'' then Some (''.config/manicode/credentials.json'', ''credentials.json'')
      else None)"

lemma extensions:
  "split_ext ''.credentials.json'' = (''.credentials'', Some ''json'')" "split_ext ''credentials.json'' = (''credentials'', Some ''json'')"
  "split_ext ''auth.json'' = (''auth'', Some ''json'')" "split_ext ''.claude.json'' = (''.claude'', Some ''json'')"
  by code_simp+

lemma saved_not_backup:
  assumes "login_file agent = Some (live, saved)"
  shows "path_join d saved \<noteq> backup_path stamp (path_join h live)" "path_join d saved = d @ [saved]"
    "saved \<noteq> ''meta.json''" "saved \<noteq> ''oauth_account.json''"
  using assms by (auto simp: login_file_def backup_path_def extensions unwrap_or_def split: if_splits)

text \<open>What a capture writes is private and in the profile.\<close>

definition private_in :: "path \<Rightarrow> machine \<Rightarrow> machine \<Rightarrow> bool" where
  "private_in dir st st' \<longleftrightarrow> (\<forall>q. entry_at q (mc_tree st') = entry_at q (mc_tree st) \<or>
     (\<exists>x c. q = dir @ [x] \<and> entry_at q (mc_tree st') = Some (c, private_mode)))"

lemma private_in_refl: "private_in dir st st"
  by (simp add: private_in_def)

lemma private_in_trans: "private_in dir a b \<Longrightarrow> private_in dir b c \<Longrightarrow> private_in dir a c"
  unfolding private_in_def by metis

lemma private_inI:
  assumes "\<And>q. entry_at q (mc_tree st') = (if q = dir @ [x] then Some (c, private_mode) else entry_at q (mc_tree st))"
  shows "private_in dir st st'"
  unfolding private_in_def assms by simp

lemma save_copy_private: "save_copy env src (dir @ [x]) st = (Inr u, st') \<Longrightarrow> private_in dir st st'"
  using save_copy_entry [of env src "dir @ [x]" st u st'] private_inI by blast

lemma save_fields_private: "save_fields env src names (dir @ [x]) st = (Inr u, st') \<Longrightarrow> private_in dir st st'"
  using save_fields_entry [of env src names "dir @ [x]" st u st'] private_inI by blast

lemma secure_private:
  assumes "on_tree (write_secure env (dir @ [x]) c) st = (Inr u, st')"
  shows "private_in dir st st'"
proof (rule private_inI)
  obtain t where "write_secure env (dir @ [x]) c (mc_tree st) = (Inr u, t)" "st' = st\<lparr>mc_tree := t\<rparr>"
    using assms by (auto simp: on_tree_Inr)
  then show "entry_at q (mc_tree st') = (if q = dir @ [x] then Some (c, private_mode) else entry_at q (mc_tree st))" for q
    using write_secure_entry by (metis (no_types, lifting) machine.select_convs(1) machine.surjective machine.update_convs(1))
qed

lemma copilot_private:
  assumes "snapshot_copilot env source dir st = (Inr u, st')"
  shows "private_in dir st st'"
proof -
  from assms obtain names v st1 c where
    "save_fields env (copilot_config source) names (dir @ [''identity.json'']) st = (Inr v, st1)"
    "on_tree (write_secure env (dir @ [''keyring_secret'']) c) st1 = (Inr u, st')"
    by (auto simp: snapshot_copilot_def chain_Inr split: option.splits)
  then show ?thesis using save_fields_private secure_private private_in_trans by blast
qed

lemma written_elsewhere:
  assumes "on_tree (write_file io p c) st = (Inr u, st')" "q \<noteq> p"
  shows "entry_at q (mc_tree st') = entry_at q (mc_tree st)"
proof -
  obtain t where t: "write_file io p c (mc_tree st) = (Inr u, t)" "st' = st\<lparr>mc_tree := t\<rparr>" using assms(1) by (auto simp: on_tree_Inr)
  show ?thesis using write_file_entry [OF t(1), of q] assms(2) t(2) by simp
qed

lemma snapshot_private:
  assumes "snapshot env source dir agent st = (Inr u, st')"
  shows "private_in dir st st'"
proof (cases "agent = ''agy''")
  case False
  have "private_in dir st st'" if "save_copy env src (dir @ [x]) st = (Inr v, st1)"
      "save_fields env src' names (dir @ [y]) st1 = (Inr u, st')" for src x v st1 src' names y
    using that save_copy_private save_fields_private private_in_trans by blast
  then show ?thesis using assms False
    by (auto simp: snapshot_def chain_Inr save_copy_private save_fields_private copilot_private split: if_splits)
next
  case True
  let ?f = "\<lambda>f st. if path_exists (path_join (agy_dir source) f) (mc_tree st)
      then save_copy env (path_join (agy_dir source) f) (path_join dir f) st else (Inr (), st)"
  from assms True have "each ?f agy_files st = (Inr u, st')" by (simp add: snapshot_def)
  then obtain st1 u1 where e: "?f ''jetski_state.pbtxt'' st = (Inr u1, st1)" "?f ''settings.json'' st1 = (Inr u, st')"
    by (auto simp: agy_files_def chain_Inr)
  have "private_in dir s s'" if "?f x s = (Inr w, s')" "x \<in> {''jetski_state.pbtxt'', ''settings.json''}" for x s s' w
    using that by (auto simp: private_in_refl split: if_splits dest: save_copy_private)
  with e private_in_trans show ?thesis by blast
qed

lemma capture_steps:
  assumes "capture env accounts home agent name label st = (Inr info, st')"
  obtains unverified st1 u1 st2 u2 u3 where "support agent = Inr unverified"
    "on_tree (create_dir_all (he_io env (profile_dir accounts agent name)) (profile_dir accounts agent name)) st = (Inr u1, st1)"
    "has_live_login env home agent st1" "snapshot env home (profile_dir accounts agent name) agent st1 = (Inr u2, st2)"
    "on_tree (write_file (he_io env (profile_dir accounts agent name @ [''meta.json''])) (profile_dir accounts agent name @ [''meta.json''])
       (ae_meta_text env \<lparr>pf_captured_at = ae_now env, pf_unverified_complete = unverified, pf_label = label, pf_status = StUnknown\<rparr>)) st2 =
       (Inr u3, st')"
    "info = \<lparr>ap_agent = agent, ap_name = name, ap_label = label, ap_captured_at = ae_now env, ap_unverified_complete = unverified,
       ap_status = StUnknown\<rparr>"
  using assms by (auto simp: capture_def chain_Inr Let_def split: sum.splits if_splits)

text \<open>A capture changes nothing but files directly in the profile, and every one of them but the metadata can be read by its owner only.\<close>

theorem captured_private:
  assumes "capture env accounts home agent name label st = (Inr info, st')"
    and "entry_at q (mc_tree st') \<noteq> entry_at q (mc_tree st)"
  shows "\<exists>x. q = profile_dir accounts agent name @ [x] \<and>
    (x = ''meta.json'' \<or> map_option snd (entry_at q (mc_tree st')) = Some private_mode)"
proof -
  let ?d = "profile_dir accounts agent name"
  from assms(1) obtain unverified st1 u1 st2 u2 u3 meta where
    mk: "on_tree (create_dir_all (he_io env ?d) ?d) st = (Inr u1, st1)" and
    snap: "snapshot env home ?d agent st1 = (Inr u2, st2)" and
    w: "on_tree (write_file (he_io env (?d @ [''meta.json''])) (?d @ [''meta.json'']) (ae_meta_text env meta)) st2 = (Inr u3, st')"
    by (rule capture_steps)
  have "entry_at q (mc_tree st1) = entry_at q (mc_tree st)" using mk create_dir_all_entry by (auto simp: on_tree_Inr)
  moreover have "q = ?d @ [''meta.json''] \<or> entry_at q (mc_tree st') = entry_at q (mc_tree st2)"
    using written_elsewhere [OF w] by blast
  moreover have "entry_at q (mc_tree st2) = entry_at q (mc_tree st1) \<or> (\<exists>x c. q = ?d @ [x] \<and> entry_at q (mc_tree st2) = Some (c, private_mode))"
    using snapshot_private [OF snap] by (simp add: private_in_def)
  ultimately show ?thesis using assms(2) by (metis (no_types, lifting) option.simps(9) snd_conv)
qed

lemma captured_file:
  assumes "login_file agent = Some (live, saved)" "capture env accounts home agent name label st = (Inr info, st')"
  shows "\<exists>c. file_at (path_join home live) (mc_tree st) = Some c \<and>
    file_at (path_join (profile_dir accounts agent name) saved) (mc_tree st') = Some c"
proof -
  let ?d = "profile_dir accounts agent name"
  from assms(2) obtain unverified st1 u1 st2 u2 u3 meta where
    mk: "on_tree (create_dir_all (he_io env ?d) ?d) st = (Inr u1, st1)" and
    snap: "snapshot env home ?d agent st1 = (Inr u2, st2)" and
    w: "on_tree (write_file (he_io env (?d @ [''meta.json''])) (?d @ [''meta.json'']) (ae_meta_text env meta)) st2 = (Inr u3, st')"
    by (rule capture_steps)
  note saved = saved_not_backup(2-) [OF assms(1)]
  have same: "entry_at q (mc_tree st1) = entry_at q (mc_tree st)" for q using mk create_dir_all_entry by (auto simp: on_tree_Inr)
  have meta: "entry_at (?d @ [saved]) (mc_tree st') = entry_at (?d @ [saved]) (mc_tree st2)"
    using written_elsewhere [OF w] saved by simp
  have claude: "entry_at q (mc_tree st2) = entry_at q (mc_tree s)"
    if "save_fields env src names p s = (Inr u2, st2)" "q \<noteq> p" for src names p s q
    using save_fields_entry [OF that(1)] that(2) by auto
  have "\<exists>s u. save_copy env (path_join home live) (?d @ [saved]) st1 = (Inr u, s) \<and>
      entry_at (?d @ [saved]) (mc_tree st2) = entry_at (?d @ [saved]) (mc_tree s)"
    using snap assms(1) claude by (auto simp: snapshot_def login_file_def chain_Inr split: if_splits)
  then obtain s u where s: "save_copy env (path_join home live) (?d @ [saved]) st1 = (Inr u, s)"
      "entry_at (?d @ [saved]) (mc_tree st2) = entry_at (?d @ [saved]) (mc_tree s)" by blast
  from save_copy_entry [OF s(1)] s(2) meta same show ?thesis by (auto simp: file_at_entry saved)
qed

lemma switched_file:
  assumes "login_file agent = Some (live, saved)" "write_credentials_into env home profile agent st = (Inr bs, st')"
  shows "file_at (path_join home live) (mc_tree st') = file_at (path_join profile saved) (mc_tree st) \<and>
    file_at (path_join profile saved) (mc_tree st) \<noteq> None \<and>
    (\<forall>c. file_at (path_join home live) (mc_tree st) = Some c \<longrightarrow>
       file_at (backup_path (ae_stamp env) (path_join home live)) (mc_tree st') = Some c \<and>
       show_path (backup_path (ae_stamp env) (path_join home live)) \<in> set bs)"
proof -
  let ?live = "path_join home live" and ?b = "backup_path (ae_stamp env) (path_join home live)"
  have "\<exists>bs1 s. overwrite env ?live (path_join profile saved) st = (Inr bs1, s) \<and> set bs1 \<subseteq> set bs \<and>
      entry_at ?live (mc_tree st') = entry_at ?live (mc_tree s) \<and> entry_at ?b (mc_tree st') = entry_at ?b (mc_tree s)"
    using assms by (auto simp: write_credentials_into_def login_file_def chain_Inr backup_path_def extensions unwrap_or_def
        overwrite_fields_entry split: if_splits)
  then obtain bs1 s where o: "overwrite env ?live (path_join profile saved) st = (Inr bs1, s)" "set bs1 \<subseteq> set bs"
      "entry_at ?live (mc_tree st') = entry_at ?live (mc_tree s)" "entry_at ?b (mc_tree st') = entry_at ?b (mc_tree s)" by blast
  have "?b \<noteq> ?live" using assms(1) by (auto simp: login_file_def backup_path_def extensions unwrap_or_def split: if_splits)
  moreover have "path_exists ?live (mc_tree st)" if "entry_at ?live (mc_tree st) = Some x" for x
    using that by (auto simp: entry_at_def split: option.splits)
  ultimately show ?thesis using overwrite_entry [OF o(1) saved_not_backup(1) [OF assms(1)]] o(2-) by (auto simp: file_at_entry)
qed

text \<open>A login that is fields of a configuration file: the file, the file of the profile, and the names of the fields.\<close>

definition login_fields :: "string \<Rightarrow> (string \<times> string \<times> string list) option" where
  "login_fields agent =
     (if agent = ''claude'' then Some (''.claude.json'', ''oauth_account.json'', [''oauthAccount'', ''userID''])
      else if agent = ''cursor'' then Some (''.cursor/cli-config.json'', ''auth_info.json'', [''authInfo''])
      else if agent = ''copilot'' then Some (''.copilot/config.json'', ''identity.json'', [''lastLoggedInUser'', ''loggedInUsers''])
      else None)"

definition login_files :: "string \<Rightarrow> (string \<times> string) list" where
  "login_files agent =
     (if agent = ''agy'' then [(''.gemini/antigravity-cli/jetski_state.pbtxt'', ''jetski_state.pbtxt''),
        (''.gemini/antigravity-cli/settings.json'', ''settings.json'')]
      else case login_file agent of Some e \<Rightarrow> [e] | None \<Rightarrow> [])"

definition saved_names :: "string \<Rightarrow> string list" where
  "saved_names agent = map snd (login_files agent) @
     (case login_fields agent of Some (rel, saved, names) \<Rightarrow> [saved] | None \<Rightarrow> []) @
     (if agent = ''copilot'' then [''keyring_secret''] else [])"

text \<open>The field of the JSON object in a file.\<close>

definition field_at :: "(string \<Rightarrow> json result) \<Rightarrow> path \<Rightarrow> fnode \<Rightarrow> string \<Rightarrow> json option" where
  "field_at parse p t n =
     (case file_at p t of
        None \<Rightarrow> None
      | Some body \<Rightarrow> (case parse body of Inl e \<Rightarrow> None | Inr v \<Rightarrow> jget n v))"

text \<open>What the code relies on from the JSON library: objects are read as sorted maps, and one whose fields are fields
  of values that were read is printed to a text that is read back as itself.\<close>

definition json_codec :: "('e home_env_scheme) \<Rightarrow> bool" where
  "json_codec env \<longleftrightarrow> (\<forall>s kvs. he_parse env s = Inr (JObj kvs) \<longrightarrow> wf_obj (JObj kvs)) \<and>
     (\<forall>v. wf_obj v \<and> (\<forall>k x. jget k v = Some x \<longrightarrow> (\<exists>s w. he_parse env s = Inr w \<and> jget k w = Some x)) \<longrightarrow>
        he_parse env (he_pretty env v) = Inr v)"

lemma pick_fold:
  assumes "wf_obj j"
  shows "wf_obj (foldl (\<lambda>j n. case map_of kvs n of Some v \<Rightarrow> jput n v j | None \<Rightarrow> j) j names) \<and>
    jget k (foldl (\<lambda>j n. case map_of kvs n of Some v \<Rightarrow> jput n v j | None \<Rightarrow> j) j names) =
      (if k \<in> set names \<and> map_of kvs k \<noteq> None then map_of kvs k else jget k j)"
  using assms
proof (induction names arbitrary: j)
  case (Cons n names)
  show ?case
  proof (cases "map_of kvs n")
    case None
    then show ?thesis using Cons by auto
  next
    case (Some v)
    then show ?thesis using Cons.IH [OF wf_obj_jput [OF Cons.prems, of n v]] Cons.prems by (auto simp: jget_jput)
  qed
qed simp

lemma picked: "wf_obj (pick_fields names v)" "jget k (pick_fields names v) = (if k \<in> set names then jget k v else None)"
  using pick_fold [of "JObj []"] by (cases v; auto)+

lemma inserted:
  assumes "distinct (map fst new)" "wf_obj root"
  shows "wf_obj (insert_fields (JObj new) root) \<and>
    jget k (insert_fields (JObj new) root) = (case map_of new k of Some v \<Rightarrow> Some v | None \<Rightarrow> jget k root)"
  using assms
proof (induction new arbitrary: root)
  case (Cons e new)
  obtain n v where e: "e = (n, v)" by (cases e)
  have "map_of new n = None" using Cons.prems(1) by (simp add: e map_of_eq_None_iff)
  with Cons.IH [OF _ wf_obj_jput [OF Cons.prems(2), of n v]] Cons.prems show ?case
    by (auto simp: e jget_jput split: option.splits)
qed simp

lemma extracted:
  assumes "extract_json_fields env p names t = Inr v"
  shows "wf_obj v \<and> (\<forall>k. jget k v = (if k \<in> set names then field_at (he_parse env \<circ> strip_comments) p t k else None)) \<and>
    (\<forall>k x. jget k v = Some x \<longrightarrow> (\<exists>s w. he_parse env s = Inr w \<and> jget k w = Some x))"
proof (cases "path_exists p t")
  case False
  then have "file_at p t = None" by (auto simp: file_at_def split: option.splits)
  with False show ?thesis using assms by (auto simp: extract_json_fields_def field_at_def)
next
  case True
  with assms obtain body where "file_at p t = Some body" "map_sum id (pick_fields names) (he_parse env (strip_comments body)) = Inr v"
    by (auto simp: extract_json_fields_def read_file_def split: option.splits)
  then obtain w where w: "file_at p t = Some body" "he_parse env (strip_comments body) = Inr w" "v = pick_fields names w"
    by (cases "he_parse env (strip_comments body)") auto
  then show ?thesis by (auto simp: picked field_at_def split: if_splits)
qed

lemma merged:
  assumes "merge_json_fields env p new t = (Inr u, t')" "json_codec env" "he_parse env body = Inr new" "wf_obj new"
  shows "field_at (he_parse env) p t' k = (case jget k new of Some x \<Rightarrow> Some x | None \<Rightarrow> field_at (he_parse env) p t k)"
proof -
  obtain kvs where new: "new = JObj kvs" using assms(4) by (cases new) auto
  have d: "distinct (map fst kvs)" using assms(4) by (simp add: new strict_sorted_iff)
  let ?old = "if path_exists p t then case read_file (he_io env p) p t of Inl e \<Rightarrow> Inl e | Inr body \<Rightarrow> he_parse env body else Inr (JObj [])"
  obtain root where old: "?old = Inr (JObj root)"
    using assms(1) by (auto simp: merge_json_fields_def split: sum.splits json.splits)
  then have w: "write_file (he_io env p) p (he_pretty env (insert_fields new (JObj root))) t = (Inr u, t')"
    using assms(1) by (simp add: merge_json_fields_def)
  have root: "wf_obj (JObj root)" "\<And>k. jget k (JObj root) = field_at (he_parse env) p t k"
    "\<And>k x. jget k (JObj root) = Some x \<Longrightarrow> \<exists>s w. he_parse env s = Inr w \<and> jget k w = Some x"
  proof -
    have c: "path_exists p t = False \<and> root = [] \<and> file_at p t = None \<or> (\<exists>b. file_at p t = Some b \<and> he_parse env b = Inr (JObj root))"
      using old by (auto simp: read_file_def file_at_def split: if_splits sum.splits option.splits)
    then show "wf_obj (JObj root)" using assms(2) by (auto simp: json_codec_def)
    show "jget k (JObj root) = field_at (he_parse env) p t k" for k using c by (auto simp: field_at_def)
    show "\<exists>s w. he_parse env s = Inr w \<and> jget k w = Some x" if "jget k (JObj root) = Some x" for k x using c that by fastforce
  qed
  note ins = inserted [OF d root(1)]
  have "\<exists>s w. he_parse env s = Inr w \<and> jget k w = Some x" if "jget k (insert_fields new (JObj root)) = Some x" for k x
  proof (cases "jget k new")
    case None
    then have "jget k (JObj root) = Some x" using that ins [of k] by (simp add: new)
    then show ?thesis by (rule root(3))
  next
    case (Some y)
    then have "jget k new = Some x" using that ins [of k] by (simp add: new)
    then show ?thesis using assms(3) by blast
  qed
  then have "he_parse env (he_pretty env (insert_fields new (JObj root))) = Inr (insert_fields new (JObj root))"
    using assms(2) ins by (auto simp: json_codec_def new)
  moreover have "file_at p t' = Some (he_pretty env (insert_fields new (JObj root)))"
    using write_file_entry [OF w, of p] by (auto simp: file_at_entry split: option.splits)
  ultimately show ?thesis using ins [of k] root(2) [of k] by (simp add: field_at_def new split: option.split)
qed

text \<open>The fields that a capture stores, and those that a switch merges.\<close>

lemma saved_fields_read:
  assumes "extract_json_fields env p names t = Inr v" "json_codec env"
  shows "he_parse env (he_pretty env v) = Inr v"
  using extracted [OF assms(1)] assms(2) by (simp add: json_codec_def)

lemma merged_saved:
  assumes "merge_saved env live saved st = (Inr u, st')" "json_codec env"
    and "file_at saved (mc_tree st) = Some (he_pretty env v)" "extract_json_fields env p names t = Inr v"
  shows "field_at (he_parse env) live (mc_tree st') k =
    (case if k \<in> set names then field_at (he_parse env \<circ> strip_comments) p t k else None of
       Some x \<Rightarrow> Some x | None \<Rightarrow> field_at (he_parse env) live (mc_tree st) k)"
proof -
  note reread = saved_fields_read [OF assms(4,2)]
  obtain t1 where m: "merge_json_fields env live v (mc_tree st) = (Inr u, t1)" "st' = st\<lparr>mc_tree := t1\<rparr>"
    using assms(1,3) reread by (auto simp: merge_saved_def read_json_def read_file_def on_tree_Inr)
  from merged [OF m(1) assms(2) reread conjunct1 [OF extracted [OF assms(4)]], of k] extracted [OF assms(4)] m(2)
  show ?thesis by auto
qed

definition kept_copy :: "('e account_env_scheme) \<Rightarrow> path \<Rightarrow> machine \<Rightarrow> machine \<Rightarrow> string list \<Rightarrow> bool" where
  "kept_copy env p st st' bs \<longleftrightarrow> (\<forall>c. file_at p (mc_tree st) = Some c \<longrightarrow>
     file_at (backup_path (ae_stamp env) p) (mc_tree st') = Some c \<and> show_path (backup_path (ae_stamp env) p) \<in> set bs)"

lemma field_at_entry: "entry_at p t = entry_at p t' \<Longrightarrow> field_at parse p t = field_at parse p t'"
  by (rule ext) (simp add: field_at_def file_at_entry)

lemma overwrite_fields_ok:
  assumes "overwrite_fields env live saved st = (Inr bs, st')" "json_codec env" "live \<noteq> backup_path (ae_stamp env) live"
    and "saved \<noteq> backup_path (ae_stamp env) live" 
    and "file_at saved (mc_tree st) = Some (he_pretty env v)" "extract_json_fields env p names t = Inr v"
  shows "field_at (he_parse env) live (mc_tree st') k =
    (case if k \<in> set names then field_at (he_parse env \<circ> strip_comments) p t k else None of
       Some x \<Rightarrow> Some x | None \<Rightarrow> field_at (he_parse env) live (mc_tree st) k) \<and> kept_copy env live st st' bs"
proof -
  from assms(1) obtain b t1 u where o: "backup env live (mc_tree st) = (Inr b, t1)"
      "merge_saved env live saved (st\<lparr>mc_tree := t1\<rparr>) = (Inr u, st')" "bs = backed_up b"
    by (auto simp: overwrite_fields_def chain_Inr on_tree_Inr)
  note bk = backup_entry [OF o(1)]
  have "file_at saved (mc_tree (st\<lparr>mc_tree := t1\<rparr>)) = Some (he_pretty env v)"
    using assms(4,5) bk(2) [of saved] by (simp add: file_at_entry)
  from merged_saved [OF o(2) assms(2) this assms(6), of k] field_at_entry [of live t1 "mc_tree st"] bk(2) [of live] assms(3)
  have f: "field_at (he_parse env) live (mc_tree st') k =
    (case if k \<in> set names then field_at (he_parse env \<circ> strip_comments) p t k else None of
       Some x \<Rightarrow> Some x | None \<Rightarrow> field_at (he_parse env) live (mc_tree st) k)" by (simp split: option.splits)
  have "path_exists live (mc_tree st)" if "file_at live (mc_tree st) = Some c" for c
    using that by (auto simp: file_at_def split: option.splits)
  then have "kept_copy env live st st' bs"
    using bk(1) bk(2) [of "backup_path (ae_stamp env) live"] merge_saved_entry [OF o(2) assms(3) [symmetric]] o(3)
    by (auto simp: kept_copy_def file_at_entry backed_up_def)
  with f show ?thesis by blast
qed

lemma field_extensions:
  "split_ext ''cli-config.json'' = (''cli-config'', Some ''json'')" "split_ext ''config.json'' = (''config'', Some ''json'')"
  "split_ext ''settings.json'' = (''settings'', Some ''json'')" "split_ext ''jetski_state.pbtxt'' = (''jetski_state'', Some ''pbtxt'')"
  by code_simp+

lemma login_fields_names:
  assumes "login_fields agent = Some (rel, saved, names)"
  shows "path_join d saved = d @ [saved]" "saved \<noteq> ''meta.json''" "path_join d saved \<noteq> backup_path stamp (path_join h rel)"
    "path_join h rel \<noteq> backup_path stamp (path_join h rel)"
  using assms by (auto simp: login_fields_def backup_path_def extensions field_extensions unwrap_or_def split: if_splits)

text \<open>A capture of fields, and of the secret of copilot.\<close>

lemma capture_snapshot:
  assumes "capture env accounts home agent name label st = (Inr info, st')"
  obtains st1 st2 where "snapshot env home (profile_dir accounts agent name) agent st1 = (Inr (), st2)"
    "\<And>q. entry_at q (mc_tree st1) = entry_at q (mc_tree st)" "mc_keys st1 = mc_keys st"
    "\<And>x. x \<noteq> ''meta.json'' \<Longrightarrow> entry_at (profile_dir accounts agent name @ [x]) (mc_tree st') =
       entry_at (profile_dir accounts agent name @ [x]) (mc_tree st2)"
proof -
  let ?d = "profile_dir accounts agent name"
  from assms obtain unverified st1 u1 st2 u2 u3 meta where
    mk: "on_tree (create_dir_all (he_io env ?d) ?d) st = (Inr u1, st1)" and
    snap: "snapshot env home ?d agent st1 = (Inr u2, st2)" and
    w: "on_tree (write_file (he_io env (?d @ [''meta.json''])) (?d @ [''meta.json'']) (ae_meta_text env meta)) st2 = (Inr u3, st')"
    by (rule capture_steps)
  have "entry_at q (mc_tree st1) = entry_at q (mc_tree st)" "mc_keys st1 = mc_keys st" for q
    using mk create_dir_all_entry by (auto simp: on_tree_Inr)
  moreover have "entry_at (?d @ [x]) (mc_tree st') = entry_at (?d @ [x]) (mc_tree st2)" if "x \<noteq> ''meta.json''" for x
    using written_elsewhere [OF w] that by simp
  ultimately show thesis using that snap by simp
qed

lemma captured_fields:
  assumes "login_fields agent = Some (rel, saved, names)" "capture env accounts home agent name label st = (Inr info, st')"
  shows "\<exists>v t0. extract_json_fields env (path_join home rel) names t0 = Inr v \<and>
    entry_at (path_join home rel) t0 = entry_at (path_join home rel) (mc_tree st) \<and>
    file_at (path_join (profile_dir accounts agent name) saved) (mc_tree st') = Some (he_pretty env v)"
proof -
  let ?d = "profile_dir accounts agent name"
  from assms(2) obtain st1 st2 where snap: "snapshot env home ?d agent st1 = (Inr (), st2)"
    and same: "\<And>q. entry_at q (mc_tree st1) = entry_at q (mc_tree st)" and "mc_keys st1 = mc_keys st"
    and meta: "\<And>x. x \<noteq> ''meta.json'' \<Longrightarrow> entry_at (?d @ [x]) (mc_tree st') = entry_at (?d @ [x]) (mc_tree st2)"
    by (rule capture_snapshot) (rule that)
  note saved = login_fields_names(1,2) [OF assms(1)]
  have secret: "entry_at q (mc_tree st2) = entry_at q (mc_tree s)"
    if "on_tree (write_secure env p c) s = (Inr (), st2)" "q \<noteq> p" for p c s q
    using that write_secure_entry [of env p c "mc_tree s"] by (auto simp: on_tree_Inr)
  have copied: "entry_at q (mc_tree s) = entry_at q (mc_tree st1)" if "save_copy env src p st1 = (Inr u, s)" "q \<noteq> p" for src p s u q
    using save_copy_entry [OF that(1)] that(2) by auto
  have "\<exists>s s' u. save_fields env (path_join home rel) names (?d @ [saved]) s = (Inr u, s') \<and>
      entry_at (path_join home rel) (mc_tree s) = entry_at (path_join home rel) (mc_tree st1) \<and>
      entry_at (?d @ [saved]) (mc_tree st2) = entry_at (?d @ [saved]) (mc_tree s')"
  proof -
    consider "agent = ''claude''" | "agent = ''cursor''" | "agent = ''copilot''" using assms(1) by (auto simp: login_fields_def split: if_splits)
    then show ?thesis
    proof cases
      case 1
      with snap obtain u s where "save_copy env (path_join home ''.claude/.credentials.json'') (?d @ [''credentials.json'']) st1 = (Inr u, s)"
          "save_fields env (path_join home ''.claude.json'') [''oauthAccount'', ''userID''] (?d @ [''oauth_account.json'']) s = (Inr (), st2)"
        by (auto simp: snapshot_def chain_Inr)
      then show ?thesis using 1 assms(1) copied by (intro exI [of _ s] exI [of _ st2] exI [of _ "()"]) (auto simp: login_fields_def)
    next
      case 2
      then show ?thesis using snap assms(1) by (intro exI [of _ st1] exI [of _ st2] exI [of _ "()"]) (auto simp: snapshot_def login_fields_def)
    next
      case 3
      with snap obtain s c where "save_fields env (copilot_config home) [''lastLoggedInUser'', ''loggedInUsers''] (?d @ [''identity.json'']) st1 = (Inr (), s)"
          "on_tree (write_secure env (?d @ [''keyring_secret'']) c) s = (Inr (), st2)"
        by (auto simp: snapshot_def snapshot_copilot_def chain_Inr split: option.splits prod.splits)
      then show ?thesis using 3 assms(1) secret
        by (intro exI [of _ st1] exI [of _ s] exI [of _ "()"]) (auto simp: login_fields_def copilot_config_def)
    qed
  qed
  then obtain s s' u where s: "save_fields env (path_join home rel) names (?d @ [saved]) s = (Inr u, s')"
      "entry_at (path_join home rel) (mc_tree s) = entry_at (path_join home rel) (mc_tree st1)"
      "entry_at (?d @ [saved]) (mc_tree st2) = entry_at (?d @ [saved]) (mc_tree s')" by blast
  from save_fields_entry [OF s(1)] obtain v where v: "extract_json_fields env (path_join home rel) names (mc_tree s) = Inr v"
      "entry_at (?d @ [saved]) (mc_tree s') = Some (he_pretty env v, private_mode)" by auto
  have "file_at (path_join ?d saved) (mc_tree st') = Some (he_pretty env v)"
    using meta [OF saved(2)] s(3) v(2) by (simp add: saved(1) file_at_entry)
  with v(1) s(2) same show ?thesis by (intro exI [of _ v] exI [of _ "mc_tree s"]) simp
qed

lemma switched_fields:
  assumes "login_fields agent = Some (rel, saved, names)" "write_credentials_into env home profile agent st = (Inr bs, st')"
    and "json_codec env" "file_at (path_join profile saved) (mc_tree st) = Some (he_pretty env v)"
    and "extract_json_fields env p names t = Inr v"
  shows "field_at (he_parse env) (path_join home rel) (mc_tree st') k =
    (case if k \<in> set names then field_at (he_parse env \<circ> strip_comments) p t k else None of
       Some x \<Rightarrow> Some x | None \<Rightarrow> field_at (he_parse env) (path_join home rel) (mc_tree st) k) \<and>
    kept_copy env (path_join home rel) st st' bs"
proof -
  note nm = login_fields_names [OF assms(1)]
  consider (claude) "agent = ''claude''" | (cursor) "agent = ''cursor''" | (copilot) "agent = ''copilot''"
    using assms(1) by (auto simp: login_fields_def split: if_splits)
  then show ?thesis
  proof cases
    case cursor
    then have "overwrite_fields env (path_join home rel) (path_join profile saved) st = (Inr bs, st')"
      using assms(1,2) by (simp add: write_credentials_into_def login_fields_def)
    then show ?thesis by (rule overwrite_fields_ok) (use assms nm in auto)
  next
    case claude
    then obtain b1 s b2 where o: "overwrite env (path_join home ''.claude/.credentials.json'') (path_join profile ''credentials.json'') st = (Inr b1, s)"
        "overwrite_fields env (path_join home rel) (path_join profile saved) s = (Inr b2, st')" "bs = b1 @ b2"
      using assms(1,2) by (auto simp: write_credentials_into_def login_fields_def chain_Inr)
    have "entry_at q (mc_tree s) = entry_at q (mc_tree st)" if "q \<in> {path_join home rel, path_join profile saved}" for q
      using overwrite_entry [OF o(1)] that claude assms(1) by (auto simp: login_fields_def backup_path_def extensions unwrap_or_def)
    then have e: "entry_at (path_join home rel) (mc_tree s) = entry_at (path_join home rel) (mc_tree st)"
      "file_at (path_join profile saved) (mc_tree s) = file_at (path_join profile saved) (mc_tree st)"
      "file_at (path_join home rel) (mc_tree s) = file_at (path_join home rel) (mc_tree st)" by (simp_all add: file_at_entry)
    have "field_at (he_parse env) (path_join home rel) (mc_tree st') k =
      (case if k \<in> set names then field_at (he_parse env \<circ> strip_comments) p t k else None of
         Some x \<Rightarrow> Some x | None \<Rightarrow> field_at (he_parse env) (path_join home rel) (mc_tree s) k) \<and>
      kept_copy env (path_join home rel) s st' b2"
      using o(2) by (rule overwrite_fields_ok) (use assms nm e in auto)
    with e(3) field_at_entry [OF e(1)] o(3) show ?thesis by (auto simp: kept_copy_def split: option.splits)
  next
    case copilot
    then obtain b t1 u where o: "backup env (path_join home rel) (mc_tree st) = (Inr b, t1)"
        "restore_copilot_credentials env (path_join home rel) profile (st\<lparr>mc_tree := t1\<rparr>) = (Inr u, st')" "bs = backed_up b"
      using assms(1,2) by (auto simp: write_credentials_into_def login_fields_def chain_Inr on_tree_Inr copilot_config_def)
    have tree: "x = y\<lparr>mc_keys := mc_keys x\<rparr>" if "keyring_store env n c x = (Inr (), y)" for n c x y
      using that by (auto simp: keyring_store_def split: if_splits)
    have "overwrite_fields env (path_join home rel) (path_join profile saved) st = (Inr bs, st'\<lparr>mc_keys := mc_keys st\<rparr>)"
      using o(2) copilot assms(1)
      by (auto dest!: tree simp: overwrite_fields_def o(1,3) on_tree_def chain_def merge_saved_def restore_copilot_credentials_def login_fields_def
          Let_def split: sum.splits option.splits prod.splits)
    then show ?thesis using overwrite_fields_ok [of env _ _ st bs "st'\<lparr>mc_keys := mc_keys st\<rparr>" v p names t k] assms nm
      by (simp add: kept_copy_def)
  qed
qed

text \<open>The two files of agy.\<close>

lemma agy_paths:
  "path_join h ''.gemini/antigravity-cli/jetski_state.pbtxt'' = agy_dir h @ [''jetski_state.pbtxt'']"
  "path_join h ''.gemini/antigravity-cli/settings.json'' = agy_dir h @ [''settings.json'']"
  "backup_path stamp (d @ [''jetski_state.pbtxt'']) = d @ [''jetski_state.pbtxt.bak-'' @ stamp]"
  "backup_path stamp (d @ [''settings.json'']) = d @ [''settings.json.bak-'' @ stamp]"
  by (simp_all add: agy_dir_def backup_path_def field_extensions unwrap_or_def path_join_def components_def starts_with_def path_step_def)

lemma file_exists: "file_at p t = Some c \<Longrightarrow> path_exists p t"
  by (auto simp: file_at_def split: option.splits)

lemma captured_agy:
  assumes "capture env accounts home ''agy'' name label st = (Inr info, st')" "f \<in> set agy_files"
    and "file_at (agy_dir home @ [f]) (mc_tree st) = Some c"
  shows "file_at (profile_dir accounts ''agy'' name @ [f]) (mc_tree st') = Some c"
proof -
  let ?d = "profile_dir accounts ''agy'' name" and ?g = "agy_dir home"
  from assms(1) obtain st1 st2 where snap: "snapshot env home ?d ''agy'' st1 = (Inr (), st2)"
    and same: "\<And>q. entry_at q (mc_tree st1) = entry_at q (mc_tree st)" and "mc_keys st1 = mc_keys st"
    and meta: "\<And>x. x \<noteq> ''meta.json'' \<Longrightarrow> entry_at (?d @ [x]) (mc_tree st') = entry_at (?d @ [x]) (mc_tree st2)"
    by (rule capture_snapshot) (rule that)
  define step where "step = (\<lambda>f st. if path_exists (path_join ?g f) (mc_tree st)
    then save_copy env (path_join ?g f) (path_join ?d f) st else (Inr (), st))"
  have "each step agy_files st1 = (Inr (), st2)" using snap by (simp add: snapshot_def step_def)
  then obtain s where s: "step ''jetski_state.pbtxt'' st1 = (Inr (), s)" "step ''settings.json'' s = (Inr (), st2)"
    by (auto simp: agy_files_def chain_Inr)
  have join: "path_join p x = p @ [x]" if "x \<in> set agy_files" for p x using that by (auto simp: agy_files_def)
  have other: "entry_at (p @ [y]) (mc_tree b) = entry_at (p @ [y]) (mc_tree a)"
    if "step x a = (Inr (), b)" "x \<in> set agy_files" "y \<noteq> x" for x y p a b
    using that save_copy_entry [of env "?g @ [x]" "?d @ [x]" a "()" b] by (auto simp: step_def join split: if_splits)
  have own: "file_at (?d @ [x]) (mc_tree b) = Some c"
    if "step x a = (Inr (), b)" "x \<in> set agy_files" "file_at (?g @ [x]) (mc_tree a) = Some c" for x a b
    using that save_copy_entry [of env "?g @ [x]" "?d @ [x]" a "()" b] file_exists [OF that(3)] by (auto simp: step_def join file_at_entry)
  have start: "file_at (?g @ [f]) (mc_tree st1) = Some c" using assms(3) same by (simp add: file_at_entry)
  consider "f = ''jetski_state.pbtxt''" | "f = ''settings.json''" using assms(2) by (auto simp: agy_files_def)
  then have "file_at (?d @ [f]) (mc_tree st2) = Some c"
  proof cases
    case 1
    then show ?thesis using own [OF s(1)] start other [OF s(2)] by (simp add: file_at_entry agy_files_def)
  next
    case 2
    then have "file_at (?g @ [f]) (mc_tree s) = Some c" using start other [OF s(1)] by (simp add: file_at_entry agy_files_def)
    then show ?thesis using own [OF s(2)] 2 by (simp add: agy_files_def)
  qed
  moreover have "f \<noteq> ''meta.json''" using assms(2) by (auto simp: agy_files_def)
  ultimately show ?thesis using meta by (simp add: file_at_entry)
qed

lemma switched_agy:
  assumes "write_credentials_into env home profile ''agy'' st = (Inr bs, st')" "f \<in> set agy_files"
    and "file_at (profile @ [f]) (mc_tree st) = Some c"
  shows "file_at (agy_dir home @ [f]) (mc_tree st') = Some c \<and> kept_copy env (agy_dir home @ [f]) st st' bs"
proof -
  let ?g = "agy_dir home"
  define step where "step = (\<lambda>f st. if path_exists (path_join profile f) (mc_tree st)
    then overwrite env (path_join ?g f) (path_join profile f) st else (Inr [], st))"
  have "gather step agy_files st = (Inr bs, st')" using assms(1) by (simp add: write_credentials_into_def step_def)
  then obtain s b1 b2 where s: "step ''jetski_state.pbtxt'' st = (Inr b1, s)" "step ''settings.json'' s = (Inr b2, st')" "bs = b1 @ b2"
    by (auto simp: agy_files_def chain_Inr)
  have join: "path_join p x = p @ [x]" "backup_path stamp (p @ [x]) = p @ [x @ ''.bak-'' @ stamp]" if "x \<in> set agy_files" for p x stamp
    using that by (auto simp: agy_files_def agy_paths)
  have other: "entry_at (p @ [y]) (mc_tree b) = entry_at (p @ [y]) (mc_tree a)"
    if "step x a = (Inr r, b)" "y \<noteq> x" "x \<in> set agy_files" "y \<noteq> x @ ''.bak-'' @ ae_stamp env" for x y p a b r
    using that overwrite_entry [of env "?g @ [x]" "profile @ [x]" a r b] by (auto simp: step_def join split: if_splits)
  have own: "file_at (?g @ [x]) (mc_tree b) = Some c \<and> kept_copy env (?g @ [x]) a b r"
    if "step x a = (Inr r, b)" "file_at (profile @ [x]) (mc_tree a) = Some c" "x \<in> set agy_files" for x a b r
  proof -
    note this_x = that
    have ow: "overwrite env (?g @ [x]) (profile @ [x]) a = (Inr r, b)" using this_x file_exists [OF this_x(2)] by (auto simp: step_def join)
    have nb: "profile @ [x] \<noteq> backup_path (ae_stamp env) (?g @ [x])" using this_x(3) by (simp add: join)
    from overwrite_entry [OF ow nb, unfolded join(2) [OF this_x(3)]] obtain c' m where o: "entry_at (profile @ [x]) (mc_tree a) = Some (c', m)"
      "r = (if path_exists (?g @ [x]) (mc_tree a) then [show_path (?g @ [x @ ''.bak-'' @ ae_stamp env])] else [])"
      "\<And>q. entry_at q (mc_tree b) = (if q = ?g @ [x] then Some (c', private_mode)
         else if path_exists (?g @ [x]) (mc_tree a) \<and> q = ?g @ [x @ ''.bak-'' @ ae_stamp env] then entry_at (?g @ [x]) (mc_tree a)
         else entry_at q (mc_tree a))"
      by blast
    have "file_at (?g @ [x]) (mc_tree b) = Some c" using o(1,3) this_x(2) by (simp add: file_at_entry)
    moreover have "kept_copy env (?g @ [x]) a b r"
      using o(2,3) file_exists [of "?g @ [x]" "mc_tree a"] by (simp add: kept_copy_def file_at_entry join(2) [OF this_x(3)])
    ultimately show ?thesis by blast
  qed
  consider "f = ''jetski_state.pbtxt''" | "f = ''settings.json''" using assms(2) by (auto simp: agy_files_def)
  then show ?thesis
  proof cases
    case 1
    then show ?thesis using own [OF s(1)] assms(3) other [OF s(2)] s(3) by (auto simp: file_at_entry kept_copy_def agy_files_def agy_paths)
  next
    case 2
    then show ?thesis using own [OF s(2)] assms(3) other [OF s(1)] s(3) by (auto simp: file_at_entry kept_copy_def agy_files_def agy_paths)
  qed
qed

text \<open>The secret of copilot goes with its identity.\<close>

definition identity_of :: "json option \<Rightarrow> (string \<times> string) option" where
  "identity_of user =
     Option.bind user (\<lambda>user.
       Option.bind (Option.bind (jget ''host'' user) as_str) (\<lambda>host.
         Option.bind (Option.bind (jget ''login'' user) as_str) (\<lambda>login. Some (host, login))))"

lemma identity_field:
  "copilot_identity env home st =
     identity_of (field_at (he_parse env \<circ> strip_comments) (copilot_config home) (mc_tree st) ''lastLoggedInUser'')"
proof (cases "extract_json_fields env (copilot_config home) [''lastLoggedInUser''] (mc_tree st)")
  case (Inl e)
  then have "field_at (he_parse env \<circ> strip_comments) (copilot_config home) (mc_tree st) ''lastLoggedInUser'' = None"
    by (auto simp: extract_json_fields_def field_at_def read_file_def split: if_splits option.splits sum.splits)
  with Inl show ?thesis by (simp add: copilot_identity_def identity_of_def)
next
  case (Inr found)
  with extracted [OF Inr] show ?thesis by (simp add: copilot_identity_def identity_of_def)
qed

lemma captured_secret:
  assumes "capture env accounts home ''copilot'' name label st = (Inr info, st')"
  shows "\<exists>host login secret. copilot_identity env home st = Some (host, login) \<and>
    keyring_lookup env (copilot_keyring_username host login) st = Some secret \<and>
    file_at (profile_dir accounts ''copilot'' name @ [''keyring_secret'']) (mc_tree st') = Some secret"
proof -
  let ?d = "profile_dir accounts ''copilot'' name"
  from assms obtain st1 st2 where snap: "snapshot env home ?d ''copilot'' st1 = (Inr (), st2)"
    and same: "\<And>q. entry_at q (mc_tree st1) = entry_at q (mc_tree st)" and keys: "mc_keys st1 = mc_keys st"
    and meta: "\<And>x. x \<noteq> ''meta.json'' \<Longrightarrow> entry_at (?d @ [x]) (mc_tree st') = entry_at (?d @ [x]) (mc_tree st2)"
    by (rule capture_snapshot) (rule that)
  have "snapshot_copilot env home ?d st1 = (Inr (), st2)" using snap by (simp add: snapshot_def)
  then obtain host login s u secret where i: "copilot_identity env home st1 = Some (host, login)"
    and s: "save_fields env (copilot_config home) [''lastLoggedInUser'', ''loggedInUsers''] (path_join ?d ''identity.json'') st1 = (Inr u, s)"
    and k: "keyring_lookup env (copilot_keyring_username host login) s = Some secret"
    and w: "on_tree (write_secure env (path_join ?d ''keyring_secret'') secret) s = (Inr (), st2)"
    by (auto simp: snapshot_copilot_def chain_Inr split: option.splits)
  have "mc_keys s = mc_keys st1" using s by (auto simp: save_fields_def on_tree_Inr split: sum.splits)
  then have "keyring_lookup env (copilot_keyring_username host login) st = Some secret" using k keys by (simp add: keyring_lookup_def split: if_splits)
  moreover have "copilot_identity env home st = Some (host, login)"
    using i field_at_entry [OF same] by (simp add: identity_field)
  moreover have "file_at (?d @ [''keyring_secret'']) (mc_tree st') = Some secret"
    using w write_secure_entry [of env "?d @ [''keyring_secret'']" secret "mc_tree s"] meta [of "''keyring_secret''"]
    by (auto simp: on_tree_Inr file_at_entry)
  ultimately show ?thesis by blast
qed

lemma switched_secret:
  assumes "write_credentials_into env home profile ''copilot'' st = (Inr bs, st')" "json_codec env"
    and "file_at (profile @ [''identity.json'']) (mc_tree st) = Some (he_pretty env v)"
    and "extract_json_fields env p names t = Inr v" "identity_of (jget ''lastLoggedInUser'' v) = Some (host, login)"
    and "file_at (profile @ [''keyring_secret'']) (mc_tree st) = Some secret"
  shows "mc_keys st' (copilot_keyring_username host login) = Some (trim_end secret)"
proof -
  let ?c = "copilot_config home" and ?b = "backup_path (ae_stamp env) (copilot_config home)"
  from assms(1) obtain b t1 u where o: "backup env ?c (mc_tree st) = (Inr b, t1)"
      "restore_copilot_credentials env ?c profile (st\<lparr>mc_tree := t1\<rparr>) = (Inr u, st')"
    by (auto simp: write_credentials_into_def chain_Inr on_tree_Inr)
  have other: "?b \<noteq> profile @ [''identity.json'']" "?b \<noteq> profile @ [''keyring_secret'']" "?c \<noteq> profile @ [''keyring_secret'']"
    by (simp_all add: copilot_config_def backup_path_def field_extensions unwrap_or_def)
  have kept: "file_at q t1 = file_at q (mc_tree st)" if "q \<noteq> ?b" for q using backup_entry(2) [OF o(1), of q] that by (simp add: file_at_entry)
  have "read_json env (profile @ [''identity.json'']) (st\<lparr>mc_tree := t1\<rparr>) = Inr v"
    using kept [of "profile @ [''identity.json'']"] other(1) assms(3) saved_fields_read [OF assms(4,2)] by (simp add: read_json_def read_file_def)
  moreover obtain user where user: "jget ''lastLoggedInUser'' v = Some user" "Option.bind (jget ''host'' user) as_str = Some host"
      "Option.bind (jget ''login'' user) as_str = Some login"
    using assms(5) by (auto simp: identity_of_def Option.bind_eq_Some_conv)
  ultimately obtain t2 where m: "merge_json_fields env ?c v t1 = (Inr (), t2)" and
    store: "(case read_file (''reading captured copilot keyring secret: '' @ he_io env (profile @ [''keyring_secret''])) (profile @ [''keyring_secret'']) t2 of
       Inl e \<Rightarrow> (Inl e, st\<lparr>mc_tree := t2\<rparr>)
     | Inr secret \<Rightarrow> keyring_store env (copilot_keyring_username host login) (trim_end secret) (st\<lparr>mc_tree := t2\<rparr>)) = (Inr u, st')"
    using o(2) by (auto simp: restore_copilot_credentials_def chain_Inr on_tree_Inr user Let_def)
  have "entry_at (profile @ [''keyring_secret'']) t2 = entry_at (profile @ [''keyring_secret'']) t1"
    using m other(3) write_file_entry [of _ ?c _ t1 "()" t2 "profile @ [''keyring_secret'']"]
    by (auto simp: merge_json_fields_def split: sum.splits json.splits if_splits)
  then have "file_at (profile @ [''keyring_secret'']) t2 = Some secret" using kept other(2) assms(6) by (simp add: file_at_entry)
  with store show ?thesis by (auto simp: read_file_def keyring_store_def split: if_splits)
qed

text \<open>C33: what a capture takes from the home of an agent is what a later switch to its profile puts back, in whatever state the
  home is by then, for every agent that can be captured: each file of the login, each field of the login that the configuration file had at the
  capture, while every other field of that file stays as it was before the switch, and for copilot the secret of
  the key ring under the name of the captured user. What a switch overwrites is kept in a copy beside it that the answer names.\<close>

theorem capture_then_switch:
  assumes "capture env accounts home agent name label st = (Inr info, st1)" "switch env accounts home2 agent name st2 = (Inr bs, st3)"
    and profile: "\<And>saved. saved \<in> set (saved_names agent) \<Longrightarrow>
      file_at (profile_dir accounts agent name @ [saved]) (mc_tree st2) = file_at (profile_dir accounts agent name @ [saved]) (mc_tree st1)"
    and codec: "login_fields agent = None \<or> json_codec env"
  shows "(agent \<noteq> ''agy'' \<longrightarrow> (\<forall>(live, saved) \<in> set (login_files agent). file_at (path_join home live) (mc_tree st) \<noteq> None)) \<and>
    (\<forall>(live, saved) \<in> set (login_files agent). \<forall>c. file_at (path_join home live) (mc_tree st) = Some c \<longrightarrow>
       file_at (path_join home2 live) (mc_tree st3) = Some c \<and> kept_copy env (path_join home2 live) st2 st3 bs) \<and>
    (\<forall>rel saved names k. login_fields agent = Some (rel, saved, names) \<longrightarrow>
       field_at (he_parse env) (path_join home2 rel) (mc_tree st3) k =
         (case if k \<in> set names then field_at (he_parse env \<circ> strip_comments) (path_join home rel) (mc_tree st) k else None of
            Some x \<Rightarrow> Some x | None \<Rightarrow> field_at (he_parse env) (path_join home2 rel) (mc_tree st2) k) \<and>
       kept_copy env (path_join home2 rel) st2 st3 bs) \<and>
    (agent = ''copilot'' \<longrightarrow> (\<exists>host login secret. copilot_identity env home st = Some (host, login) \<and>
       keyring_lookup env (copilot_keyring_username host login) st = Some secret \<and>
       mc_keys st3 (copilot_keyring_username host login) = Some (trim_end secret)))"
proof -
  let ?d = "profile_dir accounts agent name"
  have put: "write_credentials_into env home2 ?d agent st2 = (Inr bs, st3)"
    using assms(2) by (auto simp: switch_def Let_def split: sum.splits if_splits)
  have files: "file_at (path_join home live) (mc_tree st) \<noteq> None \<and> (\<forall>c. file_at (path_join home live) (mc_tree st) = Some c \<longrightarrow>
      file_at (path_join home2 live) (mc_tree st3) = Some c \<and> kept_copy env (path_join home2 live) st2 st3 bs)"
    if l: "login_file agent = Some (live, saved)" for live saved
  proof -
    have "agent \<noteq> ''agy''" using l by (auto simp: login_file_def)
    then have "saved \<in> set (saved_names agent)" using l by (simp add: saved_names_def login_files_def)
    then show ?thesis using captured_file [OF l assms(1)] switched_file [OF l put] profile saved_not_backup(2) [OF l] by (auto simp: kept_copy_def)
  qed
  have agy: "file_at (path_join home2 live) (mc_tree st3) = Some c \<and> kept_copy env (path_join home2 live) st2 st3 bs"
    if "agent = ''agy''" "(live, saved) \<in> set (login_files agent)" "file_at (path_join home live) (mc_tree st) = Some c" for live saved c
  proof -
    have f: "saved \<in> set agy_files" "path_join h live = agy_dir h @ [saved]" "saved \<in> set (saved_names agent)" for h
      using that(1,2) by (auto simp: login_files_def agy_files_def agy_paths saved_names_def)
    have "file_at (?d @ [saved]) (mc_tree st2) = Some c"
      using captured_agy [of env accounts home name label st info st1 saved c] assms(1) that f profile by simp
    then show ?thesis using switched_agy [of env home2 ?d st2 bs st3 saved c] put that(1) f by simp
  qed
  have fields: "field_at (he_parse env) (path_join home2 rel) (mc_tree st3) k =
      (case if k \<in> set names then field_at (he_parse env \<circ> strip_comments) (path_join home rel) (mc_tree st) k else None of
         Some x \<Rightarrow> Some x | None \<Rightarrow> field_at (he_parse env) (path_join home2 rel) (mc_tree st2) k) \<and>
      kept_copy env (path_join home2 rel) st2 st3 bs"
    if l: "login_fields agent = Some (rel, saved, names)" for rel saved names k
  proof -
    from captured_fields [OF l assms(1)] obtain v t0 where v: "extract_json_fields env (path_join home rel) names t0 = Inr v"
      "entry_at (path_join home rel) t0 = entry_at (path_join home rel) (mc_tree st)"
      "file_at (path_join ?d saved) (mc_tree st1) = Some (he_pretty env v)" by blast
    have "saved \<in> set (saved_names agent)" using l by (simp add: saved_names_def)
    with v(3) profile have "file_at (path_join ?d saved) (mc_tree st2) = Some (he_pretty env v)" by (simp add: login_fields_names(1) [OF l])
    from switched_fields [OF l put _ this v(1), of k] codec l field_at_entry [OF v(2)] show ?thesis by simp
  qed
  have secret: "\<exists>host login secret. copilot_identity env home st = Some (host, login) \<and>
      keyring_lookup env (copilot_keyring_username host login) st = Some secret \<and>
      mc_keys st3 (copilot_keyring_username host login) = Some (trim_end secret)" if c: "agent = ''copilot''"
  proof -
    have l: "login_fields agent = Some (''.copilot/config.json'', ''identity.json'', [''lastLoggedInUser'', ''loggedInUsers''])"
      using c by (simp add: login_fields_def)
    from captured_fields [OF l assms(1)] obtain v t0 where v: "extract_json_fields env (copilot_config home) [''lastLoggedInUser'', ''loggedInUsers''] t0 = Inr v"
      "entry_at (copilot_config home) t0 = entry_at (copilot_config home) (mc_tree st)"
      "file_at (?d @ [''identity.json'']) (mc_tree st1) = Some (he_pretty env v)" by (auto simp: copilot_config_def)
    obtain host login sec where s: "copilot_identity env home st = Some (host, login)"
      "keyring_lookup env (copilot_keyring_username host login) st = Some sec" "file_at (?d @ [''keyring_secret'']) (mc_tree st1) = Some sec"
      using captured_secret assms(1) c by blast
    have "''keyring_secret'' \<in> set (saved_names agent)" "''identity.json'' \<in> set (saved_names agent)"
      using c by (simp_all add: saved_names_def login_fields_def)
    then have st2: "file_at (?d @ [''keyring_secret'']) (mc_tree st2) = Some sec"
      "file_at (?d @ [''identity.json'']) (mc_tree st2) = Some (he_pretty env v)" using profile s(3) v(3) by simp_all
    have "identity_of (jget ''lastLoggedInUser'' v) = Some (host, login)"
      using s(1) extracted [OF v(1)] field_at_entry [OF v(2)] by (simp add: identity_field)
    from switched_secret [OF put [unfolded c] _ st2(2) [unfolded c] v(1) this st2(1) [unfolded c]] codec l s(1,2) show ?thesis by auto
  qed
  have split: "(\<exists>l. login_file agent = Some l) \<and> login_files agent = [the (login_file agent)] \<or> login_files agent = [] \<or> agent = ''agy''"
    by (auto simp: login_files_def split: option.split)
  show ?thesis
  proof (intro conjI)
    show "agent \<noteq> ''agy'' \<longrightarrow> (\<forall>(live, saved) \<in> set (login_files agent). file_at (path_join home live) (mc_tree st) \<noteq> None)"
      using split files by force
    show "\<forall>(live, saved) \<in> set (login_files agent). \<forall>c. file_at (path_join home live) (mc_tree st) = Some c \<longrightarrow>
       file_at (path_join home2 live) (mc_tree st3) = Some c \<and> kept_copy env (path_join home2 live) st2 st3 bs"
    proof (cases "agent = ''agy''")
      case True
      then show ?thesis using agy by blast
    next
      case False
      then show ?thesis using split files by force
    qed
  qed (use fields secret in blast)+
qed

section \<open>The requests\<close>

lemma jget_picked: "jget n (pick_fields [n] v) = jget n v"
  by (cases v) (auto split: option.splits)

lemma agent_home_ok:
  assumes "agent_home env agent st = (Inr home, st')" "embedded_fields agent = None \<or> reads_back env"
  shows "home = home_dir (ae_homes env) agent \<and> logged_out env home agent (mc_tree st')"
proof -
  obtain real t where b: "ensure_bootstrapped env (ae_homes env) real agent (mc_tree st) = (Inr home, t)" "st' = st\<lparr>mc_tree := t\<rparr>"
    using assms(1) by (auto simp: agent_home_def on_tree_Inr split: sum.splits)
  from bootstrap_logged_out [OF b(1)] assms(2) b(2) show ?thesis by simp
qed

lemma logged_out_file:
  assumes "logged_out env home agent t" "rel \<in> set (credential_paths_for agent)"
  shows "file_at (path_join home rel) t = None"
  using assms by (simp add: logged_out_def file_at_def)

lemma logged_out_field:
  assumes "logged_out env home agent t" "embedded_fields agent = Some (rel, names)" "file_at (path_join home rel) t = Some body"
    "he_parse env (strip_comments body) = Inr v" "f \<in> set names"
  shows "jget f v = None"
  using assms unfolding logged_out_def by blast

lemma extracted_cases:
  assumes "extract_json_fields env p names t = Inr found"
  obtains (missing) "found = JObj []" | (read) body v where "file_at p t = Some body" "he_parse env (strip_comments body) = Inr v"
    "found = pick_fields names v"
proof (cases "file_at p t")
  case None
  then have "found = JObj []" using assms by (simp add: extract_json_fields_def read_file_def split: if_splits)
  then show ?thesis by (rule missing)
next
  case (Some body)
  then have "path_exists p t" by (auto simp: file_at_def split: option.splits)
  then have "map_sum id (pick_fields names) (he_parse env (strip_comments body)) = Inr found"
    using assms Some by (simp add: extract_json_fields_def read_file_def)
  then obtain v where "he_parse env (strip_comments body) = Inr v" "found = pick_fields names v"
    by (cases "he_parse env (strip_comments body)") simp_all
  with Some show ?thesis by (rule read)
qed

lemma no_identity:
  assumes "\<And>body v. file_at (copilot_config home) (mc_tree st) = Some body \<Longrightarrow> he_parse env (strip_comments body) = Inr v \<Longrightarrow>
      jget ''lastLoggedInUser'' v = None"
  shows "copilot_identity env home st = None"
proof (cases "extract_json_fields env (copilot_config home) [''lastLoggedInUser''] (mc_tree st)")
  case (Inl e)
  then show ?thesis by (simp add: copilot_identity_def)
next
  case (Inr found)
  from Inr have "jget ''lastLoggedInUser'' found = None"
    by (cases rule: extracted_cases) (simp_all add: assms jget_picked)
  with Inr show ?thesis by (simp add: copilot_identity_def)
qed

lemma snapshot_needs_login:
  assumes "agent \<in> {''claude'', ''codex''} \<or> agent = ''copilot'' \<and> reads_back env" "logged_out env home agent t"
    and "\<And>q. file_at q (mc_tree st) = file_at q t" "has_live_login env home agent st"
  shows "\<exists>e. snapshot env home dir agent st = (Inl e, st)"
proof (cases "agent = ''copilot''")
  case False
  have "file_at (path_join home rel) (mc_tree st) = None" if "rel \<in> set (credential_paths_for agent)" for rel
    using logged_out_file [OF assms(2) that] assms(3) by simp
  moreover have "agent = ''claude'' \<or> agent = ''codex''" using assms(1) False by simp
  ultimately show ?thesis
    by (elim disjE) (simp_all add: snapshot_def save_copy_def read_file_def credential_paths_for_def chain_def)
next
  case True
  have "copilot_identity env home st = None"
  proof (rule no_identity)
    fix body v assume "file_at (copilot_config home) (mc_tree st) = Some body" "he_parse env (strip_comments body) = Inr v"
    then show "jget ''lastLoggedInUser'' v = None"
      using logged_out_field [OF assms(2), of "''.copilot/config.json''"] assms(3) True
      by (simp add: copilot_config_def embedded_fields_def)
  qed
  then show ?thesis using assms(4) True by (simp add: has_live_login_def Let_def)
qed

text \<open>C34: the daemon takes the credentials out of the home of the agent before it captures from there: for claude, codex and copilot a
  capture request fails in every state. When the home cannot be prepared, the answer is that error; otherwise nothing was
  captured, no file differs from the prepared home, and the login is gone from there: no credential file of claude or codex
  is left, and no field of the login of copilot can be read from its configuration.\<close>

theorem capture_request_always_fails:
  assumes "agent \<in> {''claude'', ''codex''} \<or> agent = ''copilot'' \<and> reads_back env"
    and "handle_account env (AccountCapture agent name label) st = (r, st')"
  shows "(\<exists>e. r = Inl e) \<and>
    (case agent_home env agent st of
       (Inl e, st1) \<Rightarrow> r = Inl e \<and> st' = st1
     | (Inr home, st1) \<Rightarrow> home = home_dir (ae_homes env) agent \<and> (\<forall>q. file_at q (mc_tree st') = file_at q (mc_tree st1)) \<and>
         (\<forall>rel \<in> set (credential_paths_for agent). file_at (path_join home rel) (mc_tree st') = None) \<and>
         (\<forall>rel names k. embedded_fields agent = Some (rel, names) \<and> k \<in> set names \<longrightarrow>
            field_at (he_parse env \<circ> strip_comments) (path_join home rel) (mc_tree st') k = None))"
proof -
  have emb: "embedded_fields agent = None \<or> reads_back env" using assms(1) by (auto simp: embedded_fields_def)
  show ?thesis
  proof (cases "agent_home env agent st")
    case (Pair h st1)
    show ?thesis
    proof (cases h)
      case (Inl e)
      then show ?thesis using assms(2) Pair by (auto simp: handle_account_def chain_def)
    next
      case (Inr home)
      note out = agent_home_ok [OF Pair [unfolded Inr] emb]
      let ?d = "profile_dir (ae_accounts env) agent name"
      obtain c st2 where cap: "capture env (ae_accounts env) home agent name label st1 = (c, st2)" by force
      obtain m stm where mk: "on_tree (create_dir_all (he_io env ?d) ?d) st1 = (m, stm)" by force
      have files: "file_at q (mc_tree stm) = file_at q (mc_tree st1)" for q
        using mk create_dir_all_files by (auto simp: on_tree_Inr)
      have "\<exists>e. c = Inl e \<and> st2 = stm"
        using cap mk snapshot_needs_login [OF assms(1) conjunct2 [OF out], of stm ?d] files assms(1)
        by (cases m; cases "has_live_login env home agent stm") (auto simp: capture_def chain_def Let_def support_def)
      then have "\<exists>e. r = Inl e \<and> st' = stm" using assms(2) Pair Inr cap by (auto simp: handle_account_def chain_def)
      moreover have "file_at (path_join home rel) (mc_tree stm) = None" if "rel \<in> set (credential_paths_for agent)" for rel
        using logged_out_file [OF conjunct2 [OF out] that] files by simp
      moreover have "field_at (he_parse env \<circ> strip_comments) (path_join home rel) (mc_tree stm) k = None"
        if "embedded_fields agent = Some (rel, names)" "k \<in> set names" for rel names k
        using logged_out_field [OF conjunct2 [OF out] that(1) _ _ that(2)] files
        by (auto simp: field_at_def split: option.split sum.split)
      ultimately show ?thesis using Pair Inr files out by auto
    qed
  qed
qed

text \<open>A switch request puts the login of the profile into the home, and the next use of that home takes it out again.\<close>

theorem restored_login_is_lost:
  assumes "agent \<in> {''claude'', ''codex''}" "login_file agent = Some (live, saved)"
    and "handle_account env (AccountUse agent name) st = (Inr d, st1)"
    and "\<not> prefix (home_dir (ae_homes env) agent) (path_join (profile_dir (ae_accounts env) agent name) saved)"
  shows "file_at (path_join (home_dir (ae_homes env) agent) live) (mc_tree st1) =
      file_at (path_join (profile_dir (ae_accounts env) agent name) saved) (mc_tree st) \<and>
    file_at (path_join (home_dir (ae_homes env) agent) live) (mc_tree st1) \<noteq> None \<and>
    (\<forall>home st2. agent_home env agent st1 = (Inr home, st2) \<longrightarrow>
       \<not> path_exists (path_join (home_dir (ae_homes env) agent) live) (mc_tree st2))"
proof -
  let ?h = "home_dir (ae_homes env) agent" and ?p = "profile_dir (ae_accounts env) agent name"
  have emb: "embedded_fields agent = None" using assms(1) by (auto simp: embedded_fields_def)
  from assms(3) obtain home s0 bs s1 where h: "agent_home env agent st = (Inr home, s0)"
    and sw: "switch env (ae_accounts env) home agent name s0 = (Inr bs, s1)" "mc_tree st1 = mc_tree s1"
    by (auto simp: handle_account_def chain_Inr log_account_event_def split: if_splits)
  have home: "home = ?h" using agent_home_ok [OF h] emb by simp
  have "write_credentials_into env ?h ?p agent s0 = (Inr bs, s1)"
    using sw(1) home by (auto simp: switch_def Let_def split: sum.splits if_splits)
  from switched_file [OF assms(2) this] have put: "file_at (path_join ?h live) (mc_tree st1) = file_at (path_join ?p saved) (mc_tree s0)"
      "file_at (path_join ?p saved) (mc_tree s0) \<noteq> None" using sw(2) by auto
  obtain real t where b: "ensure_bootstrapped env (ae_homes env) real agent (mc_tree st) = (Inr home, t)" "s0 = st\<lparr>mc_tree := t\<rparr>"
    using h by (auto simp: agent_home_def on_tree_Inr split: sum.splits)
  have "file_at (path_join ?p saved) (mc_tree s0) = file_at (path_join ?p saved) (mc_tree st)"
    using bootstrap_logged_out [OF b(1)] b(2) assms(4) by (simp add: within_def)
  moreover have "live \<in> set (credential_paths_for agent)" using assms(1,2) by (auto simp: login_file_def credential_paths_for_def)
  ultimately show ?thesis using put agent_home_ok [of env agent st1] emb by (auto simp: logged_out_def)
qed

text \<open>A removal takes everything below the directory of the profile and no file elsewhere; the empty name is the directory of
  all profiles of the agent.\<close>

lemma removal_takes_directory:
  assumes "account_remove env accounts agent name st = (Inr True, st')"
  shows "node_at (profile_dir accounts agent name @ q) (mc_tree st') = None \<and>
    within (profile_dir accounts agent name) (mc_tree st) (mc_tree st') \<and> profile_dir accounts agent [] = path_join accounts agent"
proof -
  let ?d = "profile_dir accounts agent name"
  obtain t u where r: "remove_dir_all (he_io env ?d) ?d (mc_tree st) = (Inr u, t)" "mc_tree st' = t"
    using assms by (auto simp: account_remove_def Let_def chain_Inr on_tree_Inr split: if_splits)
  then have "put_at ?d None (mc_tree st) = Some t" by (auto simp: remove_dir_all_def or_io_def split: option.splits if_splits)
  from put_at_self [OF this, of q] within_operations(6) [of _ ?d "[]" "mc_tree st" "Inr u" t] r show ?thesis
    by (auto simp: profile_dir_def path_join_def [of _ "[]"] components_def starts_with_def)
qed


section \<open>Witnesses\<close>

definition demo_accounts :: account_env where
  "demo_accounts = \<lparr>he_io = (\<lambda>_. ''os error''), he_parse = (\<lambda>_. Inr JNull), he_pretty = (\<lambda>_. ''null''),
     ae_status = (\<lambda>_ _ _. None), ae_ring = True, ae_now = ''now'', ae_stamp = ''20260101T000000Z'', ae_meta_text = (\<lambda>_. ''meta''),
     ae_meta_parse = (\<lambda>_. Inl ''no metadata''), ae_db = True, ae_homes = [''homes''], ae_accounts = [''accounts''],
     ae_real_home = Inr [''home'']\<rparr>"

definition demo_machine :: machine where
  "demo_machine = \<lparr>mc_tree = FDir [
       (''home'', FDir []),
       (''homes'', FDir [
          (''grok'', FDir [(''.grok'', FDir [(''auth.json'', FFile ''token'' 384)])]),
          (''other'', FDir [(''.grok'', FDir [(''auth.json'', FFile ''old token'' 384)])]),
          (''claude'', FDir [(''.claude'', FDir [(''.credentials.json'', FFile ''token'' 384)])]),
          (''codex'', FDir [])]),
       (''accounts'', FDir [(''codex'', FDir [(''work'', FDir [(''auth.json'', FFile ''token'' 384)])])])],
     mc_keys = Map.empty, mc_events = []\<rparr>"

text \<open>A text format of two characters, for objects of a user and a theme.\<close>

definition demo_user :: "char \<Rightarrow> json" where
  "demo_user a = JObj [(''host'', JStr ''h''), (''login'', JStr [a])]"

definition demo_obj :: "string \<Rightarrow> char \<Rightarrow> char \<Rightarrow> json" where
  "demo_obj k a b = JObj ((if a = CHR ''-'' then [] else [(k, demo_user a)]) @ (if b = CHR ''-'' then [] else [(''theme'', JStr [b])]))"

definition demo_parse :: "string \<Rightarrow> string \<Rightarrow> json result" where
  "demo_parse k s = (if s \<in> {''--'', ''-d'', ''n-'', ''nd'', ''o-'', ''od''} then Inr (demo_obj k (s ! 0) (s ! 1)) else Inl ''no JSON'')"

definition demo_print :: "string \<Rightarrow> json \<Rightarrow> string" where
  "demo_print k v =
     [(case jget k v of None \<Rightarrow> CHR ''-'' | Some u \<Rightarrow> if u = demo_user CHR ''n'' then CHR ''n'' else CHR ''o''),
      (if jget ''theme'' v = None then CHR ''-'' else CHR ''d'')]"

lemma sorted_maps_equal:
  assumes "sorted_wrt (<) (map fst xs)" "sorted_wrt (<) (map fst ys)" "map_of xs = map_of ys"
  shows "xs = (ys :: (string \<times> json) list)"
proof -
  have d: "distinct (map fst xs)" "distinct (map fst ys)" using assms(1,2) by (simp_all add: strict_sorted_iff)
  have s: "set xs = set ys" using map_of_eqI map_of_inject_set [OF d] assms(3) by blast
  have "inj_on fst (set xs \<union> set ys)" using d(1) s by (simp add: distinct_map)
  with assms(1,2) d s show ?thesis by (metis distinct_map map_sorted_distinct_set_unique strict_sorted_iff)
qed

lemma demo_codec:
  assumes "k \<in> {''oauthAccount'', ''lastLoggedInUser''}" "he_parse env = demo_parse k" "he_pretty env = demo_print k"
  shows "json_codec env" "reads_back env"
proof -
  have k: "k < ''theme''" "k \<noteq> ''theme''" using assms(1) by auto
  have user: "demo_user CHR ''n'' \<noteq> demo_user CHR ''o''" by (simp add: demo_user_def)
  have wf: "wf_obj (demo_obj k a b)" for a b using k by (simp add: demo_obj_def)
  have get: "jget x (demo_obj k a b) = (if x = k \<and> a \<noteq> CHR ''-'' then Some (demo_user a)
      else if x = ''theme'' \<and> b \<noteq> CHR ''-'' then Some (JStr [b]) else None)" for x a b
    using k by (simp add: demo_obj_def)
  have print: "demo_parse k (demo_print k (demo_obj k a b)) = Inr (demo_obj k a b) \<and>
      strip_comments (demo_print k (demo_obj k a b)) = demo_print k (demo_obj k a b)"
    if "a \<in> {CHR ''-'', CHR ''n'', CHR ''o''}" "b \<in> {CHR ''-'', CHR ''d''}" for a b
  proof -
    have "demo_print k (demo_obj k a b) = [a, b]" using that k user by (auto simp: demo_print_def get)
    moreover have "strip_comments [a, b] = [a, b]" using that by (elim insertE emptyE; simp; code_simp)
    ultimately show ?thesis using that by (auto simp: demo_parse_def)
  qed
  have parsed: "\<exists>a b. v = demo_obj k a b \<and> a \<in> {CHR ''-'', CHR ''n'', CHR ''o''} \<and> b \<in> {CHR ''-'', CHR ''d''}"
    if "demo_parse k s = Inr v" for s v
    by (rule exI [of _ "s ! 0"], rule exI [of _ "s ! 1"]) (use that in \<open>auto simp: demo_parse_def split: if_splits\<close>)
  show "reads_back env"
    unfolding reads_back_def assms(2,3)
  proof (intro allI impI)
    fix s v names assume "demo_parse k s = Inr v"
    then obtain a b where v: "v = demo_obj k a b" "a \<in> {CHR ''-'', CHR ''n'', CHR ''o''}" "b \<in> {CHR ''-'', CHR ''d''}"
      using parsed by blast
    have "remove_fields names v = demo_obj k (if k \<in> set names then CHR ''-'' else a) (if ''theme'' \<in> set names then CHR ''-'' else b)"
      by (simp add: v(1) demo_obj_def)
    then show "demo_parse k (strip_comments (demo_print k (remove_fields names v))) = Inr (remove_fields names v)"
      using print v(2,3) by simp
  qed
  show "json_codec env"
    unfolding json_codec_def assms(2,3)
  proof (intro conjI allI impI)
    fix s kvs assume "demo_parse k s = Inr (JObj kvs)"
    then show "wf_obj (JObj kvs)" using parsed wf by metis
  next
    fix v assume v: "wf_obj v \<and> (\<forall>x y. jget x v = Some y \<longrightarrow> (\<exists>s w. demo_parse k s = Inr w \<and> jget x w = Some y))"
    then obtain kvs where kvs: "v = JObj kvs" by (cases v) auto
    have field: "\<exists>a b. a \<in> {CHR ''-'', CHR ''n'', CHR ''o''} \<and> b \<in> {CHR ''-'', CHR ''d''} \<and> jget x (demo_obj k a b) = Some y"
      if "jget x v = Some y" for x y using v that parsed by metis
    define a where "a = (case jget k v of None \<Rightarrow> CHR ''-'' | Some u \<Rightarrow> if u = demo_user CHR ''n'' then CHR ''n'' else CHR ''o'')"
    define b where "b = (if jget ''theme'' v = None then CHR ''-'' else CHR ''d'')"
    have "jget x v = jget x (demo_obj k a b)" for x
    proof (cases "jget x v")
      case None
      then show ?thesis by (auto simp: get a_def b_def split: option.splits)
    next
      case (Some y)
      from field [OF this] Some k user show ?thesis by (auto simp: get a_def b_def split: if_splits option.splits)
    qed
    then have "map_of kvs = map_of (case demo_obj k a b of JObj xs \<Rightarrow> xs)" by (intro ext) (simp add: kvs demo_obj_def)
    then have "v = demo_obj k a b" using sorted_maps_equal [of kvs] v wf [of a b] by (simp add: kvs demo_obj_def)
    moreover have "a \<in> {CHR ''-'', CHR ''n'', CHR ''o''}" "b \<in> {CHR ''-'', CHR ''d''}" by (auto simp: a_def b_def split: option.split)
    ultimately show "demo_parse k (demo_print k v) = Inr v" using print by simp
  qed
qed

text \<open>A claude home with a login in a file and in a field is captured, and put back into a home where somebody else is logged in.\<close>

definition demo_claude :: account_env where
  "demo_claude = demo_accounts\<lparr>he_parse := demo_parse ''oauthAccount'', he_pretty := demo_print ''oauthAccount''\<rparr>"

definition claude_machine :: machine where
  "claude_machine = demo_machine\<lparr>mc_tree := FDir [
       (''old'', FDir [(''.claude.json'', FFile ''o-'' 420), (''.claude'', FDir [(''.credentials.json'', FFile ''token'' 384)])]),
       (''new'', FDir [(''.claude.json'', FFile ''nd'' 420), (''.claude'', FDir [(''.credentials.json'', FFile ''other'' 384)])]),
       (''accounts'', FDir [])]\<rparr>"

theorem capture_then_switch_witness:
  "\<exists>info st1 bs st3. capture demo_claude [''accounts''] [''old''] ''claude'' ''work'' None claude_machine = (Inr info, st1) \<and>
     switch demo_claude [''accounts''] [''new''] ''claude'' ''work'' st1 = (Inr bs, st3) \<and>
     file_at [''new'', ''.claude'', ''.credentials.json''] (mc_tree st3) = Some ''token'' \<and>
     file_at [''new'', ''.claude'', ''.credentials.json.bak-20260101T000000Z''] (mc_tree st3) = Some ''other'' \<and>
     field_at (he_parse demo_claude) [''new'', ''.claude.json''] (mc_tree st3) ''oauthAccount'' = Some (demo_user CHR ''o'') \<and>
     field_at (he_parse demo_claude) [''new'', ''.claude.json''] (mc_tree st3) ''theme'' = Some (JStr ''d'')"
proof -
  let ?c = "capture demo_claude [''accounts''] [''old''] ''claude'' ''work'' None claude_machine"
  let ?s = "switch demo_claude [''accounts''] [''new''] ''claude'' ''work'' (snd ?c)"
  have "is_ok (fst ?c)" "is_ok (fst ?s)" by code_simp+
  then obtain info bs where c: "?c = (Inr info, snd ?c)" and s: "?s = (Inr bs, snd ?s)"
    by (metis is_ok.elims(2) prod.collapse)
  have codec: "login_fields ''claude'' = None \<or> json_codec demo_claude"
    using demo_codec(1) [of "''oauthAccount''" demo_claude] by (simp add: demo_claude_def)
  have before: "file_at [''old'', ''.claude'', ''.credentials.json''] (mc_tree claude_machine) = Some ''token''"
    "file_at [''new'', ''.claude'', ''.credentials.json''] (mc_tree (snd ?c)) = Some ''other''"
    "field_at (he_parse demo_claude \<circ> strip_comments) [''old'', ''.claude.json''] (mc_tree claude_machine) ''oauthAccount'' = Some (demo_user CHR ''o'')"
    "field_at (he_parse demo_claude) [''new'', ''.claude.json''] (mc_tree (snd ?c)) ''theme'' = Some (JStr ''d'')"
    "backup_path (ae_stamp demo_claude) [''new'', ''.claude'', ''.credentials.json''] =
       [''new'', ''.claude'', ''.credentials.json.bak-20260101T000000Z'']" by code_simp+
  note all = capture_then_switch [OF c s refl codec]
  have "file_at [''new'', ''.claude'', ''.credentials.json''] (mc_tree (snd ?s)) = Some ''token'' \<and>
      kept_copy demo_claude [''new'', ''.claude'', ''.credentials.json''] (snd ?c) (snd ?s) bs"
    using all before(1) by (simp add: login_files_def login_file_def)
  moreover have "field_at (he_parse demo_claude) [''new'', ''.claude.json''] (mc_tree (snd ?s)) ''oauthAccount'' = Some (demo_user CHR ''o'')"
    "field_at (he_parse demo_claude) [''new'', ''.claude.json''] (mc_tree (snd ?s)) ''theme'' = Some (JStr ''d'')"
    using all before(3,4) by (simp_all add: login_fields_def)
  ultimately show ?thesis using c s before(2,5) by (auto simp: kept_copy_def)
qed

theorem captured_private_witness:
  "\<exists>info st'. capture demo_accounts [''accounts''] [''homes'', ''grok''] ''grok'' ''work'' None demo_machine = (Inr info, st') \<and>
     map_option snd (entry_at [''accounts'', ''grok'', ''work'', ''auth.json''] (mc_tree st')) = Some private_mode"
proof -
  let ?c = "capture demo_accounts [''accounts''] [''homes'', ''grok''] ''grok'' ''work'' None demo_machine"
  let ?q = "[''accounts'', ''grok'', ''work'', ''auth.json'']"
  have "is_ok (fst ?c)" "entry_at ?q (mc_tree (snd ?c)) \<noteq> entry_at ?q (mc_tree demo_machine)" by code_simp+
  then obtain info where c: "?c = (Inr info, snd ?c)" and d: "entry_at ?q (mc_tree (snd ?c)) \<noteq> entry_at ?q (mc_tree demo_machine)"
    by (metis is_ok.elims(2) prod.collapse)
  have "profile_dir [''accounts''] ''grok'' ''work'' = [''accounts'', ''grok'', ''work'']" by code_simp
  with captured_private [OF c d] c show ?thesis by auto
qed

text \<open>The login file of claude, and the login of copilot in its configuration.\<close>

definition demo_copilot :: account_env where
  "demo_copilot = demo_accounts\<lparr>he_parse := demo_parse ''lastLoggedInUser'', he_pretty := demo_print ''lastLoggedInUser''\<rparr>"

definition copilot_machine :: machine where
  "copilot_machine = demo_machine\<lparr>mc_tree := FDir [
       (''homes'', FDir [(''copilot'', FDir [(''.copilot'', FDir [(''config.json'', FFile ''nd'' 420)])])]), (''accounts'', FDir [])],
     mc_keys := [''h:n'' \<mapsto> ''secret'']\<rparr>"

theorem capture_request_always_fails_witness:
  "(\<exists>e st'. handle_account demo_accounts (AccountCapture ''claude'' ''work'' None) demo_machine = (Inl e, st') \<and>
     file_at [''homes'', ''claude'', ''.claude'', ''.credentials.json''] (mc_tree demo_machine) = Some ''token'' \<and>
     file_at [''homes'', ''claude'', ''.claude'', ''.credentials.json''] (mc_tree st') = None) \<and>
   (\<exists>e st'. handle_account demo_copilot (AccountCapture ''copilot'' ''work'' None) copilot_machine = (Inl e, st') \<and>
     has_live_login demo_copilot [''homes'', ''copilot''] ''copilot'' copilot_machine \<and>
     field_at (he_parse demo_copilot \<circ> strip_comments) [''homes'', ''copilot'', ''.copilot'', ''config.json''] (mc_tree st') ''lastLoggedInUser'' = None)"
proof
  let ?r = "handle_account demo_accounts (AccountCapture ''claude'' ''work'' None) demo_machine"
  let ?h = "agent_home demo_accounts ''claude'' demo_machine"
  obtain r st' where r: "?r = (r, st')" by force
  have "fst ?h = Inr [''homes'', ''claude'']" by code_simp
  then obtain st1 where h: "?h = (Inr [''homes'', ''claude''], st1)" by (metis prod.collapse)
  have "file_at [''homes'', ''claude'', ''.claude'', ''.credentials.json''] (mc_tree demo_machine) = Some ''token''" by code_simp
  moreover have "\<exists>e. r = Inl e" "file_at [''homes'', ''claude'', ''.claude'', ''.credentials.json''] (mc_tree st') = None"
  proof -
    have a: "''claude'' \<in> {''claude'', ''codex''} \<or> ''claude'' = ''copilot'' \<and> reads_back demo_accounts" by simp
    note all = capture_request_always_fails [OF a r, unfolded h prod.case sum.case]
    from all show "\<exists>e. r = Inl e" by blast
    from all have "\<forall>rel \<in> set (credential_paths_for ''claude''). file_at (path_join [''homes'', ''claude''] rel) (mc_tree st') = None" by blast
    then show "file_at [''homes'', ''claude'', ''.claude'', ''.credentials.json''] (mc_tree st') = None" by (simp add: credential_paths_for_def)
  qed
  ultimately show "\<exists>e st'. handle_account demo_accounts (AccountCapture ''claude'' ''work'' None) demo_machine = (Inl e, st') \<and>
     file_at [''homes'', ''claude'', ''.claude'', ''.credentials.json''] (mc_tree demo_machine) = Some ''token'' \<and>
     file_at [''homes'', ''claude'', ''.claude'', ''.credentials.json''] (mc_tree st') = None" using r by blast
next
  let ?r = "handle_account demo_copilot (AccountCapture ''copilot'' ''work'' None) copilot_machine"
  let ?h = "agent_home demo_copilot ''copilot'' copilot_machine"
  obtain r st' where r: "?r = (r, st')" by force
  have "fst ?h = Inr [''homes'', ''copilot'']" by code_simp
  then obtain st1 where h: "?h = (Inr [''homes'', ''copilot''], st1)" by (metis prod.collapse)
  have codec: "''copilot'' \<in> {''claude'', ''codex''} \<or> ''copilot'' = ''copilot'' \<and> reads_back demo_copilot"
    using demo_codec(2) [of "''lastLoggedInUser''" demo_copilot] by (simp add: demo_copilot_def)
  have "has_live_login demo_copilot [''homes'', ''copilot''] ''copilot'' copilot_machine" by code_simp
  moreover have "\<exists>e. r = Inl e" "field_at (he_parse demo_copilot \<circ> strip_comments) [''homes'', ''copilot'', ''.copilot'', ''config.json'']
      (mc_tree st') ''lastLoggedInUser'' = None"
  proof -
    note all = capture_request_always_fails [OF codec r, unfolded h prod.case sum.case]
    from all show "\<exists>e. r = Inl e" by blast
    from all have "\<forall>rel names k. embedded_fields ''copilot'' = Some (rel, names) \<and> k \<in> set names \<longrightarrow>
        field_at (he_parse demo_copilot \<circ> strip_comments) (path_join [''homes'', ''copilot''] rel) (mc_tree st') k = None" by blast
    then show "field_at (he_parse demo_copilot \<circ> strip_comments) [''homes'', ''copilot'', ''.copilot'', ''config.json'']
      (mc_tree st') ''lastLoggedInUser'' = None" by (simp add: embedded_fields_def)
  qed
  ultimately show "\<exists>e st'. handle_account demo_copilot (AccountCapture ''copilot'' ''work'' None) copilot_machine = (Inl e, st') \<and>
     has_live_login demo_copilot [''homes'', ''copilot''] ''copilot'' copilot_machine \<and>
     field_at (he_parse demo_copilot \<circ> strip_comments) [''homes'', ''copilot'', ''.copilot'', ''config.json''] (mc_tree st') ''lastLoggedInUser'' = None"
    using r by blast
qed

theorem restored_login_is_lost_witness:
  "\<exists>d st1. handle_account demo_accounts (AccountUse ''codex'' ''work'') demo_machine = (Inr d, st1) \<and>
     file_at [''homes'', ''codex'', ''.codex'', ''auth.json''] (mc_tree st1) = Some ''token'' \<and>
     (\<exists>home st2. agent_home demo_accounts ''codex'' st1 = (Inr home, st2) \<and>
        \<not> path_exists [''homes'', ''codex'', ''.codex'', ''auth.json''] (mc_tree st2))"
proof -
  let ?u = "handle_account demo_accounts (AccountUse ''codex'' ''work'') demo_machine"
  let ?h = "agent_home demo_accounts ''codex'' (snd ?u)"
  have "is_ok (fst ?u)" "is_ok (fst ?h)" by code_simp+
  then obtain d home where u: "?u = (Inr d, snd ?u)" and h: "?h = (Inr home, snd ?h)" by (metis is_ok.elims(2) prod.collapse)
  have l: "login_file ''codex'' = Some (''.codex/auth.json'', ''auth.json'')" by (simp add: login_file_def)
  have p: "\<not> prefix (home_dir (ae_homes demo_accounts) ''codex'')
      (path_join (profile_dir (ae_accounts demo_accounts) ''codex'' ''work'') ''auth.json'')"
    "home_dir (ae_homes demo_accounts) ''codex'' = [''homes'', ''codex'']" by code_simp+
  have "file_at (path_join (profile_dir (ae_accounts demo_accounts) ''codex'' ''work'') ''auth.json'') (mc_tree demo_machine) = Some ''token''"
    by code_simp
  with restored_login_is_lost [OF _ l u p(1)] h p(2)
  have "file_at [''homes'', ''codex'', ''.codex'', ''auth.json''] (mc_tree (snd ?u)) = Some ''token''"
    "\<not> path_exists [''homes'', ''codex'', ''.codex'', ''auth.json''] (mc_tree (snd ?h))" by auto
  with u h show ?thesis by blast
qed


end
