(* ===== verification/Backup.thy ===== *)
theory Backup
  imports FileTree Registry
begin

text \<open>
  \<open>single-core/src/backup.rs\<close>: everything below the configuration root and every secret of the key chain is packed into one
  encrypted archive, and put back from it. The archive format, the cipher, the text of the secrets manifest and the
  key chain are fields of the environment; an archive is a list of names with contents. It is read while it is restored:
  \<open>bk_unpack\<close> gives the entries that can be read, the contents of each or the error of reading them, and the error of
  the first entry that cannot be read, which ends the import with what was restored before.
\<close>

record backup_env =
  bk_io :: "path \<Rightarrow> string"
  bk_stamp :: string
  bk_pack :: "(string \<times> string) list \<Rightarrow> string"
  bk_unpack :: "string \<Rightarrow> (string \<times> string result) list \<times> string option"
  bk_seal :: "string \<Rightarrow> string \<Rightarrow> string"
  bk_open :: "string \<Rightarrow> string \<Rightarrow> string result"
  bk_manifest_text :: "(string \<times> string) list \<Rightarrow> string"
  bk_manifest_parse :: "string \<Rightarrow> (string \<times> string) list result"
  bk_list :: "string list result"
  bk_get :: "string \<Rightarrow> string option result"
  bk_set :: "string \<Rightarrow> string \<Rightarrow> unit result"

record backup_item =
  bi_path :: string
  bi_success :: bool
  bi_detail :: string

record backup_report =
  br_dry_run :: bool
  br_files :: "backup_item list"
  br_secrets :: "backup_item list"

text \<open>What an import changes: the files, and the secrets it stores in order.\<close>

record restore_state =
  re_tree :: fnode
  re_stored :: "(string \<times> string) list"

section \<open>Exporting\<close>

definition SECRETS_MANIFEST_NAME :: string where
  "SECRETS_MANIFEST_NAME = ''__singlecli_secrets__.toml''"

definition is_excluded :: "path \<Rightarrow> bool" where
  "is_excluded relative \<longleftrightarrow> relative = [''state'', ''runtime.sock''] \<or> prefix [''logs''] relative"

definition entry_name :: "path \<Rightarrow> string" where
  "entry_name p = str_join ''/'' p"

text \<open>The files below a directory in the order of the walk, by their path from the root.\<close>

fun add_dir_recursive :: "path \<Rightarrow> (string \<times> fnode) list \<Rightarrow> (path \<times> string) list" where
  "add_dir_recursive dir [] = []"
| "add_dir_recursive dir ((x, FFile c m) # es) =
     (if is_excluded (dir @ [x]) then [] else [(dir @ [x], c)]) @ add_dir_recursive dir es"
| "add_dir_recursive dir ((x, FOther) # es) = add_dir_recursive dir es"
| "add_dir_recursive dir ((x, FDir sub) # es) =
     (if is_excluded (dir @ [x]) then [] else add_dir_recursive (dir @ [x]) sub) @ add_dir_recursive dir es"

fun collect_secrets :: "backup_env \<Rightarrow> string list \<Rightarrow> (string \<times> string) list \<Rightarrow> string list \<Rightarrow> (string \<times> string) list \<times> string list" where
  "collect_secrets env [] found warnings = (found, warnings)"
| "collect_secrets env (n # ns) found warnings =
     (case bk_get env n of
        Inr (Some v) \<Rightarrow> collect_secrets env ns (btree_insert n v found) warnings
      | Inr None \<Rightarrow> collect_secrets env ns found warnings
      | Inl e \<Rightarrow> collect_secrets env ns found (warnings @ [''failed to read secret '' @ [CHR 0x27] @ n @ [CHR 0x27] @ '': '' @ e]))"

definition all_secrets :: "backup_env \<Rightarrow> (string \<times> string) list \<times> string list" where
  "all_secrets env =
     (case bk_list env of
        Inr names \<Rightarrow> collect_secrets env names [] []
      | Inl e \<Rightarrow> ([], [''keychain unavailable, no secrets included in this backup: '' @ e]))"

definition archive_entries :: "backup_env \<Rightarrow> (string \<times> fnode) list \<Rightarrow> (string \<times> string) list" where
  "archive_entries env es =
     map (\<lambda>(p, c). (entry_name p, c)) (add_dir_recursive [] es) @
     [(SECRETS_MANIFEST_NAME, bk_manifest_text env (fst (all_secrets env)))]"

definition archive_mode :: nat where
  "archive_mode = 384"

definition export :: "backup_env \<Rightarrow> path \<Rightarrow> path \<Rightarrow> string \<Rightarrow> fnode \<Rightarrow> string list result \<times> fnode" where
  "export env root dest passphrase t =
     (case node_at root t of
        Some (FDir es) \<Rightarrow>
          chain (create_dir_all (bk_io env dest) (butlast dest) t) (\<lambda>_ t.
            chain (write_file (''writing '' @ show_path dest @ '': '' @ bk_io env dest) dest
                     (bk_seal env passphrase (bk_pack env (archive_entries env es))) t) (\<lambda>_ t.
              chain (set_permissions (bk_io env dest) dest archive_mode t) (\<lambda>_ t.
                (Inr (snd (all_secrets env)), t))))
      | _ \<Rightarrow> (Inl (''reading '' @ show_path root @ '': '' @ bk_io env root), t))"

section \<open>Importing\<close>

definition is_safe_entry_name :: "string \<Rightarrow> bool" where
  "is_safe_entry_name name \<longleftrightarrow> \<not> starts_with ''/'' name \<and> list_all (\<lambda>c. c \<noteq> ''..'') (components name)"

definition is_manifest :: "string \<Rightarrow> bool" where
  "is_manifest name \<longleftrightarrow> components name = [SECRETS_MANIFEST_NAME] \<and> \<not> starts_with ''/'' name \<and> \<not> starts_with ''./'' name"

definition saved_copy :: "backup_env \<Rightarrow> path \<Rightarrow> path" where
  "saved_copy env p = butlast p @ [last p @ ''.bak-'' @ bk_stamp env]"

definition backup_file_before_write :: "backup_env \<Rightarrow> path \<Rightarrow> fnode \<Rightarrow> unit result \<times> fnode" where
  "backup_file_before_write env p t =
     (if \<not> path_exists p t then (Inr (), t)
      else copy_file (''backing up '' @ show_path p @ '' to '' @ show_path (saved_copy env p) @ '': '' @ bk_io env p) p (saved_copy env p) t)"

definition restore_one_file :: "backup_env \<Rightarrow> string result \<Rightarrow> path \<Rightarrow> fnode \<Rightarrow> unit result \<times> fnode" where
  "restore_one_file env body target t =
     chain (create_dir_all (bk_io env target) (butlast target) t) (\<lambda>_ t.
       chain (backup_file_before_write env target t) (\<lambda>_ t.
         case body of
           Inl e \<Rightarrow> (Inl e, t)
         | Inr contents \<Rightarrow> write_file (''writing '' @ show_path target @ '': '' @ bk_io env target) target contents t))"

definition item :: "string \<Rightarrow> unit result \<Rightarrow> backup_item" where
  "item label r = (case r of
       Inr u \<Rightarrow> \<lparr>bi_path = label, bi_success = True, bi_detail = ''restored''\<rparr>
     | Inl e \<Rightarrow> \<lparr>bi_path = label, bi_success = False, bi_detail = e\<rparr>)"

definition would_restore :: "string \<Rightarrow> backup_item" where
  "would_restore label = \<lparr>bi_path = label, bi_success = True, bi_detail = ''would restore''\<rparr>"

fun restore_secrets :: "backup_env \<Rightarrow> bool \<Rightarrow> (string \<times> string) list \<Rightarrow> backup_report \<Rightarrow> restore_state \<Rightarrow> backup_report \<times> restore_state" where
  "restore_secrets env dry_run [] report st = (report, st)"
| "restore_secrets env dry_run ((n, v) # secrets) report st =
     (if dry_run then restore_secrets env dry_run secrets (report\<lparr>br_secrets := br_secrets report @ [would_restore n]\<rparr>) st
      else restore_secrets env dry_run secrets (report\<lparr>br_secrets := br_secrets report @ [item n (bk_set env n v)]\<rparr>)
             (if bk_set env n v = Inr () then st\<lparr>re_stored := re_stored st @ [(n, v)]\<rparr> else st))"

definition unsafe_name :: "string \<Rightarrow> backup_item" where
  "unsafe_name label = \<lparr>bi_path = label, bi_success = False,
     bi_detail = ''rejected: unsafe archive entry name (must be a relative path with no '' @ [CHR 0x27] @ ''..'' @ [CHR 0x27] @ '')''\<rparr>"

fun restore_entries ::
    "backup_env \<Rightarrow> path \<Rightarrow> bool \<Rightarrow> string option \<Rightarrow> (string \<times> string result) list \<Rightarrow> backup_report \<Rightarrow> restore_state \<Rightarrow>
     backup_report result \<times> restore_state" where
  "restore_entries env root dry_run bad [] report st = ((case bad of None \<Rightarrow> Inr report | Some e \<Rightarrow> Inl e), st)"
| "restore_entries env root dry_run bad ((name, body) # entries) report st =
     (if \<not> is_safe_entry_name name then
        restore_entries env root dry_run bad entries (report\<lparr>br_files := br_files report @ [unsafe_name name]\<rparr>) st
      else if is_manifest name then
        (case body of
           Inl e \<Rightarrow> (Inl (''reading secrets manifest: '' @ e), st)
         | Inr contents \<Rightarrow>
             (case bk_manifest_parse env contents of
                Inl e \<Rightarrow> (Inl (''parsing secrets manifest: '' @ e), st)
              | Inr secrets \<Rightarrow>
                  (case restore_secrets env dry_run secrets report st of
                     (report, st) \<Rightarrow> restore_entries env root dry_run bad entries report st)))
      else if dry_run then
        restore_entries env root dry_run bad entries (report\<lparr>br_files := br_files report @ [would_restore name]\<rparr>) st
      else
        (case restore_one_file env body (path_join root name) (re_tree st) of
           (r, t) \<Rightarrow>
             restore_entries env root dry_run bad entries (report\<lparr>br_files := br_files report @ [item name r]\<rparr>) (st\<lparr>re_tree := t\<rparr>)))"

definition import_backup :: "backup_env \<Rightarrow> path \<Rightarrow> path \<Rightarrow> string \<Rightarrow> bool \<Rightarrow> restore_state \<Rightarrow> backup_report result \<times> restore_state" where
  "import_backup env root src passphrase dry_run st =
     (case read_file (''reading '' @ show_path src @ '': '' @ bk_io env src) src (re_tree st) of
        Inl e \<Rightarrow> (Inl e, st)
      | Inr sealed \<Rightarrow>
          (case bk_open env passphrase sealed of
             Inl e \<Rightarrow> (Inl e, st)
           | Inr bytes \<Rightarrow>
               (case bk_unpack env bytes of (entries, bad) \<Rightarrow>
                  restore_entries env root dry_run bad entries \<lparr>br_dry_run = dry_run, br_files = [], br_secrets = []\<rparr> st)))"

section \<open>An import stays below the root\<close>

lemma safe_join:
  assumes "is_safe_entry_name name"
  shows "path_join root name = root @ components name"
proof (rule path_join_rel)
  show "\<not> starts_with ''/'' name" "''..'' \<notin> set (components name)"
    using assms by (auto simp: is_safe_entry_name_def list_all_iff)
qed

lemma make_dirs_keeps_dir: "make_dirs p t = Some t' \<Longrightarrow> is_dir_at q t \<Longrightarrow> is_dir_at q t'"
  using make_dirs_spec [of p t t'] by (cases "prefix q p") (auto simp: is_dir_at_def)

lemma put_keeps_dir: "put_at p (Some (FFile c m)) t = Some t' \<Longrightarrow> is_dir_at q t \<Longrightarrow> \<not> prefix p q \<Longrightarrow> is_dir_at q t'"
  using put_at_other [of p _ t t' q] put_at_above [of p _ t t' q]
  by (cases "prefix q p") (auto simp: is_dir_at_def strict_prefix_def)

lemma copy_file_put: "copy_file io src dst t = (r, t') \<Longrightarrow> t' = t \<or> (\<exists>c m. put_at dst (Some (FFile c m)) t = Some t')"
  by (auto simp: copy_file_def or_io_def split: option.splits fnode.splits)

lemma write_file_put: "write_file io p c t = (r, t') \<Longrightarrow> t' = t \<or> (\<exists>m. put_at p (Some (FFile c m)) t = Some t')"
  by (auto simp: write_file_def or_io_def split: option.splits fnode.splits)

text \<open>What happens to the files outside a directory that stays one.\<close>

definition inside :: "path \<Rightarrow> fnode \<Rightarrow> fnode \<Rightarrow> bool" where
  "inside root t t' \<longleftrightarrow> (is_dir_at root t \<longrightarrow> within root t t' \<and> is_dir_at root t')"

lemma inside_refl: "inside root t t"
  by (simp add: inside_def within_refl)

lemma inside_trans: "inside root a b \<Longrightarrow> inside root b c \<Longrightarrow> inside root a c"
  unfolding inside_def using within_trans by blast

lemma inside_put: "put_at (root @ x # p) (Some (FFile c m)) t = Some t' \<Longrightarrow> inside root t t'"
  using within_put [of root "x # p"] put_keeps_dir [of "root @ x # p" c m t t' root] by (simp add: inside_def)

lemma inside_dirs: "create_dir_all io p t = (r, t') \<Longrightarrow> inside root t t'"
  using within_operations(3) [of io p t r t' root] create_dir_all_cases [of io p t r t'] make_dirs_keeps_dir [of p t t' root]
  by (auto simp: inside_def within_refl)

lemma restore_one_inside:
  assumes "restore_one_file env body (root @ p) t = (r, t')"
  shows "inside root t t'"
proof -
  let ?p = "root @ p"
  obtain r1 t1 where d: "create_dir_all (bk_io env ?p) (butlast ?p) t = (r1, t1)" by force
  obtain r2 t2 where b: "backup_file_before_write env ?p t1 = (r2, t2)" by force
  note d1 = inside_dirs [OF d]
  show ?thesis
  proof (cases p)
    case (Cons x xs)
    have "saved_copy env ?p = root @ butlast p @ [last p @ ''.bak-'' @ bk_stamp env]"
      using Cons by (simp add: saved_copy_def butlast_append)
    then obtain y ys where "saved_copy env ?p = root @ y # ys" by (cases "butlast p") auto
    then have "inside root t1 t2"
      using b inside_put copy_file_put by (fastforce simp: backup_file_before_write_def inside_refl split: if_splits)
    moreover have "inside root t2 t3" if "write_file io ?p c t2 = (r3, t3)" for io c r3 t3
      using write_file_put [OF that] inside_put [of root x xs] inside_refl by (auto simp: Cons)
    ultimately show ?thesis using assms d b d1 inside_trans
      by (auto simp: restore_one_file_def chain_def split: sum.splits prod.splits) blast+
  next
    case Nil
    show ?thesis
    proof (cases "is_dir_at root t")
      case False
      then show ?thesis by (simp add: inside_def)
    next
      case True
      with d1 have "is_dir_at root t1" by (simp add: inside_def)
      then obtain es where "node_at root t1 = Some (FDir es)" by (auto simp: is_dir_at_def split: option.splits fnode.splits)
      then have "t' = t1" using assms d by (auto simp: restore_one_file_def chain_def Nil backup_file_before_write_def copy_file_def or_io_def
            split: sum.splits)
      with d1 show ?thesis by simp
    qed
  qed
qed

lemma restore_secrets_tree: "restore_secrets env dry_run secrets report st = (report', st') \<Longrightarrow>
    re_tree st' = re_tree st \<and> (dry_run \<longrightarrow> st' = st) \<and> br_files report' = br_files report"
  by (induction env dry_run secrets report st rule: restore_secrets.induct) (auto split: if_splits)

lemma restore_entries_inside:
  assumes "restore_entries env root dry_run bad entries report st = (r, st')"
  shows "inside root (re_tree st) (re_tree st') \<and> (dry_run \<longrightarrow> st' = st)"
  using assms
proof (induction env root dry_run bad entries report st rule: restore_entries.induct)
  case (1 env root dry_run bad report st)
  then show ?case by (simp add: inside_refl)
next
  case (2 env root dry_run bad name body entries report st)
  consider "\<not> is_safe_entry_name name" | "is_safe_entry_name name" "is_manifest name"
    | "is_safe_entry_name name" "\<not> is_manifest name" by blast
  then show ?case
  proof cases
    case 1
    with 2 show ?thesis by simp
  next
    case 2
    show ?thesis
    proof (cases "\<exists>contents secrets. body = Inr contents \<and> bk_manifest_parse env contents = Inr secrets")
      case False
      then show ?thesis using 2 \<open>restore_entries env root dry_run bad ((name, body) # entries) report st = (r, st')\<close>
        by (auto simp: inside_refl split: sum.splits)
    next
      case True
      then obtain contents secrets where body: "body = Inr contents" and Inr: "bk_manifest_parse env contents = Inr secrets" by blast
      obtain report1 st1 where s: "restore_secrets env dry_run secrets report st = (report1, st1)" by force
      note IH = "2.IH"(2) [OF _ _ body Inr s [symmetric]]
      show ?thesis using IH restore_secrets_tree [OF s] 2 body Inr s
          \<open>restore_entries env root dry_run bad ((name, body) # entries) report st = (r, st')\<close> by auto
    qed
  next
    case 3
    show ?thesis
    proof (cases dry_run)
      case True
      then show ?thesis using 2 3 by (simp add: inside_refl)
    next
      case False
      obtain q t where q: "restore_one_file env body (path_join root name) (re_tree st) = (q, t)" by force
      have "inside root (re_tree st) t" using q restore_one_inside by (simp add: safe_join [OF 3(1)])
      with "2.IH"(4) [OF _ _ False q [symmetric]] "2.prems" 3 False q show ?thesis by (auto intro: inside_trans)
    qed
  qed
qed

text \<open>C35: whatever an archive holds, an import changes no file outside the configuration root, and one that only shows what it would do
  changes nothing at all, not even the key chain.\<close>

theorem import_stays_below_root:
  assumes "is_dir_at root (re_tree st)" "import_backup env root src passphrase dry_run st = (r, st')"
  shows "within root (re_tree st) (re_tree st') \<and> is_dir_at root (re_tree st') \<and> (dry_run \<longrightarrow> st' = st)"
proof (cases "st' = st")
  case True
  then show ?thesis using assms(1) by (simp add: within_refl)
next
  case False
  then obtain bad entries report where "restore_entries env root dry_run bad entries report st = (r, st')"
    using assms(2) by (auto simp: import_backup_def split: sum.splits prod.splits)
  from restore_entries_inside [OF this] assms(1) show ?thesis by (simp add: inside_def)
qed

section \<open>Export and import\<close>

text \<open>A directory tree whose names are those of a file system.\<close>

definition plain_name :: "string \<Rightarrow> bool" where
  "plain_name x \<longleftrightarrow> x \<noteq> [] \<and> x \<noteq> ''.'' \<and> x \<noteq> ''..'' \<and> CHR ''/'' \<notin> set x"

fun tidy :: "fnode \<Rightarrow> bool" where
  "tidy (FDir es) = (distinct (map fst es) \<and> (\<forall>e \<in> set es. plain_name (fst e) \<and> tidy (snd e)))"
| "tidy t = True"

definition kept :: "path \<Rightarrow> path \<Rightarrow> bool" where
  "kept dir q \<longleftrightarrow> (\<forall>r. prefix r q \<and> r \<noteq> [] \<longrightarrow> \<not> is_excluded (dir @ r))"

lemma kept_Cons: "kept dir (x # q) \<longleftrightarrow> \<not> is_excluded (dir @ [x]) \<and> kept (dir @ [x]) q"
proof
  assume k: "kept dir (x # q)"
  show "\<not> is_excluded (dir @ [x]) \<and> kept (dir @ [x]) q"
  proof
    show "\<not> is_excluded (dir @ [x])" using k by (simp add: kept_def)
    show "kept (dir @ [x]) q" unfolding kept_def
    proof (intro allI impI)
      fix r assume "prefix r q \<and> r \<noteq> []"
      then show "\<not> is_excluded ((dir @ [x]) @ r)" using k unfolding kept_def by (metis Cons_prefix_Cons append_Cons append_Nil append_assoc list.distinct(1))
    qed
  qed
next
  assume k: "\<not> is_excluded (dir @ [x]) \<and> kept (dir @ [x]) q"
  show "kept dir (x # q)" unfolding kept_def
  proof (intro allI impI)
    fix r assume "prefix r (x # q) \<and> r \<noteq> []"
    then obtain r' where "r = x # r'" "prefix r' q" by (cases r) auto
    then show "\<not> is_excluded (dir @ r)" using k by (cases "r' = []") (auto simp: kept_def)
  qed
qed

lemma kept_Nil: "kept dir []"
  by (simp add: kept_def)

text \<open>The walk meets exactly the files that are not excluded.\<close>

lemma file_at_Cons: "file_at (y # q) (FDir es) = Option.bind (map_of es y) (file_at q)"
  by (simp add: file_at_def split: option.split)

lemma file_at_Nil_dir [simp]: "file_at [] (FDir es) = None" "file_at [] FOther = None" "file_at [] (FFile c m) = Some c"
  "file_at (y # q) FOther = None" "file_at (y # q) (FFile c m) = None"
  by (simp_all add: file_at_def)

lemma walked:
  assumes "tidy (FDir es)"
  shows "(p, c) \<in> set (add_dir_recursive dir es) \<longleftrightarrow> (\<exists>q. p = dir @ q \<and> file_at q (FDir es) = Some c \<and> kept dir q)"
  using assms
proof (induction dir es arbitrary: p rule: add_dir_recursive.induct)
  case (1 dir)
  have "file_at q (FDir []) = None" for q by (cases q) (simp_all add: file_at_Cons)
  then show ?case by simp
next
  case (2 dir x b m es)
  have x: "map_of es x = None" and t: "tidy (FDir es)" using 2(2) by (simp_all add: map_of_eq_None_iff)
  have f: "file_at q (FDir ((x, FFile b m) # es)) = (if q = [x] then Some b else file_at q (FDir es))" for q
  proof (cases q)
    case (Cons y r)
    then show ?thesis using x by (cases r) (auto simp: file_at_Cons)
  qed simp
  have n: "file_at [x] (FDir es) = None" using x by (simp add: file_at_Cons)
  have k: "kept dir [x] \<longleftrightarrow> \<not> is_excluded (dir @ [x])" by (simp add: kept_Cons kept_Nil)
  have "(\<exists>q. p = dir @ q \<and> file_at q (FDir ((x, FFile b m) # es)) = Some c \<and> kept dir q) \<longleftrightarrow>
      (p = dir @ [x] \<and> b = c \<and> kept dir [x]) \<or> (\<exists>q. p = dir @ q \<and> file_at q (FDir es) = Some c \<and> kept dir q)"
    unfolding f using n by (metis option.distinct(1) option.inject)
  then show ?case using 2(1) [OF t] by (auto simp: k)
next
  case (3 dir x es)
  have x: "map_of es x = None" and t: "tidy (FDir es)" using 3(2) by (simp_all add: map_of_eq_None_iff)
  have "file_at q (FDir ((x, FOther) # es)) = file_at q (FDir es)" for q
  proof (cases q)
    case (Cons y r)
    then show ?thesis using x by (cases r) (auto simp: file_at_Cons)
  qed simp
  with 3(1) [OF t] show ?case by simp
next
  case (4 dir x sub es)
  have x: "map_of es x = None" and t: "tidy (FDir es)" "tidy (FDir sub)" using 4(3) by (simp_all add: map_of_eq_None_iff)
  have f: "file_at (y # r) (FDir ((x, FDir sub) # es)) = (if y = x then file_at r (FDir sub) else file_at (y # r) (FDir es))" for y r
    by (simp add: file_at_Cons)
  have n: "file_at (x # r) (FDir es) = None" for r using x by (simp add: file_at_Cons)
  have "(\<exists>q. p = dir @ q \<and> file_at q (FDir ((x, FDir sub) # es)) = Some c \<and> kept dir q) \<longleftrightarrow>
      (\<exists>y r. p = dir @ y # r \<and> file_at (y # r) (FDir ((x, FDir sub) # es)) = Some c \<and> kept dir (y # r))"
    by (metis file_at_Nil_dir(1) list.exhaust option.distinct(1))
  also have "\<dots> \<longleftrightarrow> (\<exists>r. p = dir @ x # r \<and> file_at r (FDir sub) = Some c \<and> kept dir (x # r)) \<or>
      (\<exists>y r. p = dir @ y # r \<and> file_at (y # r) (FDir es) = Some c \<and> kept dir (y # r))"
    unfolding f using n by (metis option.distinct(1))
  also have "(\<exists>y r. p = dir @ y # r \<and> file_at (y # r) (FDir es) = Some c \<and> kept dir (y # r)) \<longleftrightarrow>
      (\<exists>q. p = dir @ q \<and> file_at q (FDir es) = Some c \<and> kept dir q)"
    by (metis file_at_Nil_dir(1) list.exhaust option.distinct(1))
  finally show ?case using 4(1) [OF _ t(2)] 4(2) [OF t(1)] by (auto simp: kept_Cons)
qed

lemma walk_distinct:
  assumes "tidy (FDir es)"
  shows "distinct (map fst (add_dir_recursive dir es))"
  using assms
proof (induction dir es rule: add_dir_recursive.induct)
  case (2 dir x b m es)
  have x: "map_of es x = None" and t: "tidy (FDir es)" using 2(2) by (simp_all add: map_of_eq_None_iff)
  have "(dir @ [x], c) \<notin> set (add_dir_recursive dir es)" for c using walked [OF t] x by (auto simp: file_at_Cons)
  with 2(1) [OF t] show ?case by force
next
  case (4 dir x sub es)
  have x: "map_of es x = None" and t: "tidy (FDir es)" "tidy (FDir sub)" using 4(3) by (simp_all add: map_of_eq_None_iff)
  have "fst ` set (add_dir_recursive (dir @ [x]) sub) \<inter> fst ` set (add_dir_recursive dir es) = {}"
    using walked [OF t(2), of _ _ "dir @ [x]"] walked [OF t(1), of _ _ dir] x by (fastforce simp: file_at_Cons)
  with 4(1) [OF _ t(2)] 4(2) [OF t(1)] show ?case by auto
qed simp_all

lemma walk_plain: "tidy (FDir es) \<Longrightarrow> file_at q (FDir es) = Some c \<Longrightarrow> q \<noteq> [] \<and> list_all plain_name q"
proof (induction q arbitrary: es)
  case Nil
  then show ?case by simp
next
  case (Cons x q)
  from Cons.prems(2) obtain n where n: "(x, n) \<in> set es" "file_at q n = Some c"
    by (auto simp: file_at_Cons bind_eq_Some_conv dest: map_of_SomeD)
  with Cons.prems(1) have "plain_name x" "tidy n" by auto
  moreover have "q = [] \<or> list_all plain_name q"
    using Cons.IH n(2) \<open>tidy n\<close> by (cases n; cases q) auto
  ultimately show ?case by auto
qed

lemma walk_prefix_free: "file_at p t = Some c \<Longrightarrow> strict_prefix p q \<Longrightarrow> file_at q t = None"
  by (auto simp: file_at_def strict_prefix_def prefix_def node_at_append neq_Nil_conv split: option.splits fnode.splits)

text \<open>The name of an entry is read back as the path it was made from.\<close>

lemma split_on_none: "d \<notin> set x \<Longrightarrow> split_on d x = [x]"
  by (induction x) auto

lemma split_on_sep: "d \<notin> set x \<Longrightarrow> split_on d (x @ d # s) = x # split_on d s"
  by (induction x) auto

lemma split_join: "p \<noteq> [] \<Longrightarrow> \<forall>x \<in> set p. d \<notin> set x \<Longrightarrow> split_on d (str_join [d] p) = p"
  by (induction "[d]" p rule: str_join.induct) (simp_all add: split_on_none split_on_sep)

lemma entry_name_plain:
  assumes "p \<noteq> []" "list_all plain_name p"
  shows "components (entry_name p) = p" "\<not> starts_with ''/'' (entry_name p)" "\<not> starts_with ''./'' (entry_name p)"
proof -
  have "filter (\<lambda>c. c \<noteq> [] \<and> c \<noteq> ''.'') p = p" using assms(2) by (auto simp: list_all_iff plain_name_def filter_id_conv)
  then show "components (entry_name p) = p"
    using assms split_join [of p "CHR ''/''"] by (simp add: components_def entry_name_def list_all_iff plain_name_def)
  obtain x xs where p: "p = x # xs" using assms(1) by (cases p) auto
  have x: "x \<noteq> []" "x \<noteq> ''.''" "CHR ''/'' \<notin> set x" using assms(2) by (auto simp: p plain_name_def)
  have e: "entry_name p = x \<or> (\<exists>s. entry_name p = x @ CHR ''/'' # s)" by (cases xs) (auto simp: entry_name_def p)
  from e x show "\<not> starts_with ''/'' (entry_name p)" by (auto simp: starts_with_iff neq_Nil_conv)
  from e x show "\<not> starts_with ''./'' (entry_name p)"
    by (cases x; cases "tl x") (auto simp: starts_with_iff)
qed

section \<open>Restoring into fresh directories\<close>

lemma make_dirs_total: "\<forall>q. prefix q p \<and> path_exists q t \<longrightarrow> is_dir_at q t \<Longrightarrow> \<exists>t'. make_dirs p t = Some t'"
proof (induction p t rule: make_dirs.induct)
  case (1 t)
  then show ?case by (cases t) (auto simp: is_dir_at_def)
next
  case (2 x p es)
  have "\<forall>q. prefix q p \<and> path_exists q (case map_of es x of None \<Rightarrow> FDir [] | Some t \<Rightarrow> t) \<longrightarrow>
      is_dir_at q (case map_of es x of None \<Rightarrow> FDir [] | Some t \<Rightarrow> t)"
  proof (intro allI impI)
    fix q assume q: "prefix q p \<and> path_exists q (case map_of es x of None \<Rightarrow> FDir [] | Some t \<Rightarrow> t)"
    with 2(2) [rule_format, of "x # q"] show "is_dir_at q (case map_of es x of None \<Rightarrow> FDir [] | Some t \<Rightarrow> t)"
      by (cases q) (auto split: option.splits)
  qed
  from 2(1) [OF this] show ?case by auto
qed (drule spec [of _ "[]"], simp)+

lemma put_at_total: "p \<noteq> [] \<Longrightarrow> is_dir_at (butlast p) t \<Longrightarrow> \<exists>t'. put_at p n t = Some t'"
proof (induction p n t rule: put_at.induct)
  case (2 x p n es)
  then show ?case by (cases "p = []") auto
qed (auto simp: is_dir_at_def split: if_splits)

definition fresh :: "path \<Rightarrow> fnode \<Rightarrow> bool" where
  "fresh p t \<longleftrightarrow> \<not> path_exists p t \<and> (\<forall>q. strict_prefix q p \<and> path_exists q t \<longrightarrow> is_dir_at q t)"

lemma restore_one_fresh:
  assumes "fresh p t" "p \<noteq> []"
  shows "\<exists>t'. restore_one_file env (Inr body) p t = (Inr (), t') \<and>
    (\<forall>q. entry_at q t' = (if q = p then Some (body, new_mode) else entry_at q t)) \<and>
    (\<forall>q. \<not> prefix q p \<and> \<not> prefix p q \<longrightarrow> node_at q t' = node_at q t) \<and> (\<forall>q. strict_prefix q p \<longrightarrow> is_dir_at q t')"
proof -
  have below: "prefix q (butlast p) \<longleftrightarrow> strict_prefix q p" for q
    using assms(2) by (metis append_butlast_last_id prefix_snoc prefix_order.dual_order.strict_iff_order prefix_order.less_le strict_prefix_def
        prefix_snocD)
  obtain t1 where t1: "make_dirs (butlast p) t = Some t1" using make_dirs_total [of "butlast p" t] assms(1) unfolding below fresh_def by blast
  note d = make_dirs_spec [OF t1]
  have none: "node_at p t1 = None" using d assms(1) below [of p] by (auto simp: fresh_def)
  obtain t2 where t2: "put_at p (Some (FFile body new_mode)) t1 = Some t2"
    using put_at_total [OF assms(2)] d by blast
  have "restore_one_file env (Inr body) p t = (Inr (), t2)"
    by (simp add: restore_one_file_def create_dir_all_def t1 or_io_def chain_def backup_file_before_write_def none write_file_def t2)
  moreover have "entry_at q t2 = (if q = p then Some (body, new_mode) else entry_at q t)" for q
    using entry_put [OF t2] none create_dir_all_entry [of "[]" "butlast p" t "Inr ()" t1 q]
    by (simp add: is_dir_at_def create_dir_all_def t1 or_io_def)
  moreover have "node_at q t2 = node_at q t" if "\<not> prefix q p" "\<not> prefix p q" for q
    using put_at_other [OF t2 that(2,1)] d that below [of q] by (auto simp: strict_prefix_def)
  moreover have "is_dir_at q t2" if "strict_prefix q p" for q using put_at_above [OF t2 that] by simp
  ultimately show ?thesis by blast
qed

lemma fresh_kept:
  assumes "fresh q t" "\<not> prefix p q" "\<not> prefix q p" "\<forall>q. \<not> prefix q p \<and> \<not> prefix p q \<longrightarrow> node_at q t' = node_at q t"
    "\<forall>q. strict_prefix q p \<longrightarrow> is_dir_at q t'"
  shows "fresh q t'"
  unfolding fresh_def
proof (intro conjI allI impI)
  show "\<not> path_exists q t'" using assms by (simp add: fresh_def)
next
  fix r assume r: "strict_prefix r q \<and> path_exists r t'"
  show "is_dir_at r t'"
  proof (cases "prefix r p")
    case True
    then show ?thesis using assms(2,5) r by (metis prefix_order.dual_order.strict_iff_order strict_prefix_def)
  next
    case False
    moreover have "\<not> prefix p r" using assms(2) r by (meson prefix_order.dual_order.trans strict_prefix_def)
    ultimately have "node_at r t' = node_at r t" using assms(4) by blast
    then show ?thesis using assms(1) r by (simp add: fresh_def is_dir_at_def)
  qed
qed

lemma restore_fresh_files:
  assumes "\<forall>p \<in> fst ` set es. p \<noteq> [] \<and> list_all plain_name p \<and> p \<noteq> [SECRETS_MANIFEST_NAME] \<and> fresh (root @ p) (re_tree st)"
    "distinct (map fst es)" "\<forall>p \<in> fst ` set es. \<forall>q \<in> fst ` set es. \<not> strict_prefix p q"
  shows "\<exists>t'. restore_entries env root False None (map (\<lambda>(p, c). (entry_name p, Inr c)) es @ rest) report st =
      restore_entries env root False None rest (report\<lparr>br_files := br_files report @ map (\<lambda>(p, c). item (entry_name p) (Inr ())) es\<rparr>)
        (st\<lparr>re_tree := t'\<rparr>) \<and>
    (\<forall>(p, c) \<in> set es. entry_at (root @ p) t' = Some (c, new_mode)) \<and>
    (\<forall>q. q \<notin> (\<lambda>p. root @ p) ` fst ` set es \<longrightarrow> entry_at q t' = entry_at q (re_tree st))"
  using assms
proof (induction es arbitrary: report st)
  case Nil
  then show ?case by (auto intro: exI [of _ "re_tree st"])
next
  case (Cons e es)
  obtain p c where e: "e = (p, c)" by force
  have p: "p \<noteq> []" "list_all plain_name p" "p \<noteq> [SECRETS_MANIFEST_NAME]" "fresh (root @ p) (re_tree st)"
    using Cons.prems(1) by (simp_all add: e)
  note name = entry_name_plain [OF p(1,2)]
  have safe: "is_safe_entry_name (entry_name p)" "\<not> is_manifest (entry_name p)"
    using p name by (auto simp: is_safe_entry_name_def is_manifest_def list_all_iff plain_name_def)
  have ne: "root @ p \<noteq> []" using p(1) by simp
  obtain t1 where t1: "restore_one_file env (Inr c) (root @ p) (re_tree st) = (Inr (), t1)"
      "\<forall>q. entry_at q t1 = (if q = root @ p then Some (c, new_mode) else entry_at q (re_tree st))"
      "\<forall>q. \<not> prefix q (root @ p) \<and> \<not> prefix (root @ p) q \<longrightarrow> node_at q t1 = node_at q (re_tree st)"
      "\<forall>q. strict_prefix q (root @ p) \<longrightarrow> is_dir_at q t1"
    using restore_one_fresh [OF p(4) ne, of env c] by blast
  let ?st = "st\<lparr>re_tree := t1\<rparr>" and ?rep = "report\<lparr>br_files := br_files report @ [item (entry_name p) (Inr ())]\<rparr>"
  have fr: "fresh (root @ q) t1" if "q \<in> fst ` set es" for q
  proof (rule fresh_kept [OF _ _ _ t1(3,4)])
    have "q \<noteq> p" "\<not> strict_prefix p q" "\<not> strict_prefix q p" using Cons.prems(2,3) that by (auto simp: e)
    then show "\<not> prefix (root @ p) (root @ q)" "\<not> prefix (root @ q) (root @ p)" by (auto simp: strict_prefix_def)
    show "fresh (root @ q) (re_tree st)" using Cons.prems(1) that by auto
  qed
  have "\<exists>t'. restore_entries env root False None (map (\<lambda>(p, c). (entry_name p, Inr c)) es @ rest) ?rep ?st =
      restore_entries env root False None rest (?rep\<lparr>br_files := br_files ?rep @ map (\<lambda>(p, c). item (entry_name p) (Inr ())) es\<rparr>)
        (?st\<lparr>re_tree := t'\<rparr>) \<and>
    (\<forall>(p, c) \<in> set es. entry_at (root @ p) t' = Some (c, new_mode)) \<and>
    (\<forall>q. q \<notin> (\<lambda>p. root @ p) ` fst ` set es \<longrightarrow> entry_at q t' = entry_at q (re_tree ?st))"
    using Cons.prems fr by (intro Cons.IH) auto
  then obtain t' where t': "restore_entries env root False None (map (\<lambda>(p, c). (entry_name p, Inr c)) es @ rest) ?rep ?st =
      restore_entries env root False None rest (?rep\<lparr>br_files := br_files ?rep @ map (\<lambda>(p, c). item (entry_name p) (Inr ())) es\<rparr>)
        (?st\<lparr>re_tree := t'\<rparr>)" "\<forall>(p, c) \<in> set es. entry_at (root @ p) t' = Some (c, new_mode)"
    "\<forall>q. q \<notin> (\<lambda>p. root @ p) ` fst ` set es \<longrightarrow> entry_at q t' = entry_at q t1" by auto
  have own: "entry_at (root @ p) t' = Some (c, new_mode)"
  proof -
    have "p \<notin> fst ` set es" using Cons.prems(2) by (simp add: e)
    then have "root @ p \<notin> (\<lambda>p. root @ p) ` fst ` set es" by auto
    then show ?thesis using t'(3) t1(2) by simp
  qed
  have "restore_entries env root False None (map (\<lambda>(p, c). (entry_name p, Inr c)) (e # es) @ rest) report st =
      restore_entries env root False None (map (\<lambda>(p, c). (entry_name p, Inr c)) es @ rest) ?rep ?st"
    by (simp add: e safe t1(1) safe_join name)
  with t' own t1(2) show ?case by (intro exI [of _ t']) (auto simp: e)
qed

text \<open>What the formats are relied on for: an archive and its manifest are read back as they were written, with the same passphrase.\<close>

definition archive_reads_back :: "backup_env \<Rightarrow> string \<Rightarrow> (string \<times> string) list \<Rightarrow> bool" where
  "archive_reads_back env passphrase entries \<longleftrightarrow>
     bk_open env passphrase (bk_seal env passphrase (bk_pack env entries)) = Inr (bk_pack env entries) \<and>
     bk_unpack env (bk_pack env entries) = (map (\<lambda>(n, c). (n, Inr c)) entries, None) \<and>
     bk_manifest_parse env (bk_manifest_text env (fst (all_secrets env))) = Inr (fst (all_secrets env))"

lemma restored_secrets: "restore_secrets env False secrets report st = (report', st') \<Longrightarrow>
    re_stored st' = re_stored st @ filter (\<lambda>(n, v). bk_set env n v = Inr ()) secrets"
  by (induction env False secrets report st rule: restore_secrets.induct) (auto split: if_splits)

lemma exported_archive:
  assumes "node_at root t = Some (FDir es)" "export env root dest passphrase t = (Inr warnings, t')"
  shows "entry_at dest t' = Some (bk_seal env passphrase (bk_pack env (archive_entries env es)), archive_mode)"
proof -
  obtain io t1 t2 u1 u2 where w: "write_file io dest (bk_seal env passphrase (bk_pack env (archive_entries env es))) t1 = (Inr u1, t2)"
      "set_permissions (bk_io env dest) dest archive_mode t2 = (Inr u2, t')"
    using assms by (auto simp: export_def chain_Inr)
  show ?thesis using write_file_entry [OF w(1), of dest] set_permissions_entry(2) [OF w(2), of dest] by simp
qed

lemma fresh_below_empty:
  assumes "node_at home t = Some (FDir [])" "p \<noteq> []"
  shows "fresh (home @ p) t"
proof -
  have below: "node_at (home @ q) t = None" if "q \<noteq> []" for q using assms(1) that by (cases q) (simp_all add: node_at_append)
  have "is_dir_at q t" if q: "strict_prefix q (home @ p)" "path_exists q t" for q
  proof (cases "prefix q home")
    case True
    then obtain r where "home = q @ r" by (auto simp: prefix_def)
    with assms(1) obtain n where "node_at q t = Some n" "node_at r n = Some (FDir [])"
      by (auto simp: node_at_append bind_eq_Some_conv)
    then show ?thesis by (cases n; cases r) (auto simp: is_dir_at_def)
  next
    case False
    then obtain ys where "q = home @ ys" "ys \<noteq> []" using q(1)
      by (metis append_Nil2 prefix_append prefix_def strict_prefix_def)
    then show ?thesis using q(2) below by simp
  qed
  with below assms(2) show ?thesis by (auto simp: fresh_def)
qed

lemma restored_entries:
  assumes put: "\<forall>(p, c) \<in> set files. entry_at (home @ p) u = Some (c, new_mode)"
    and other: "\<forall>q. q \<notin> (\<lambda>p. home @ p) ` fst ` set files \<longrightarrow> entry_at q u = entry_at q t"
    and empty: "node_at home t = Some (FDir [])"
    and mem: "\<And>p c. (p, c) \<in> set files \<longleftrightarrow> file_at p n = Some c \<and> kept [] p"
  shows "entry_at (home @ q) u = (if kept [] q then map_option (\<lambda>c. (c, new_mode)) (file_at q n) else None)"
proof (cases "kept [] q \<and> file_at q n \<noteq> None")
  case True
  then obtain c where "(q, c) \<in> set files" "file_at q n = Some c" by (auto simp: mem)
  with put True show ?thesis by auto
next
  case False
  then have "q \<notin> fst ` set files" by (auto simp: mem)
  then have "home @ q \<notin> (\<lambda>p. home @ p) ` fst ` set files" by auto
  moreover have "entry_at (home @ q) t = None" using empty by (cases q) (simp_all add: entry_at_def node_at_append)
  ultimately show ?thesis using other False by auto
qed

text \<open>C22: an archive of a configuration directory, imported on a machine whose directory is empty, succeeds for every entry and gives exactly
  the files of the original that are not excluded, with the same bytes but with the permission bits of new files, and stores
  every secret of the archive that the key chain takes.\<close>

theorem backup_round_trip:
  assumes "node_at root t = Some (FDir es)" "tidy (FDir es)" "file_at [SECRETS_MANIFEST_NAME] (FDir es) = None"
    and "export env root archive passphrase t = (Inr warnings, t')" "archive_reads_back env passphrase (archive_entries env es)"
    and "node_at home (re_tree st) = Some (FDir [])" "file_at src (re_tree st) = file_at archive t'"
  shows "\<exists>report st'. import_backup env home src passphrase False st = (Inr report, st') \<and>
    (\<forall>i \<in> set (br_files report). bi_success i) \<and>
    (\<forall>q. entry_at (home @ q) (re_tree st') =
       (if kept [] q then map_option (\<lambda>c. (c, new_mode)) (file_at (root @ q) t) else None)) \<and>
    re_stored st' = re_stored st @ filter (\<lambda>(n, v). bk_set env n v = Inr ()) (fst (all_secrets env))"
proof -
  let ?files = "add_dir_recursive [] es" and ?text = "bk_manifest_text env (fst (all_secrets env))"
  let ?rep = "\<lparr>br_dry_run = False, br_files = [], br_secrets = []\<rparr>"
  have sealed: "read_file io src (re_tree st) = Inr (bk_seal env passphrase (bk_pack env (archive_entries env es)))" for io
    using assms(7) exported_archive [OF assms(1,4)] by (auto simp: read_file_def file_at_entry)
  have mem: "(p, c) \<in> set ?files \<longleftrightarrow> file_at p (FDir es) = Some c \<and> kept [] p" for p c
    using walked [OF assms(2), of p c "[]"] by simp
  have "p \<noteq> [] \<and> list_all plain_name p \<and> p \<noteq> [SECRETS_MANIFEST_NAME] \<and> fresh (home @ p) (re_tree st)" if "(p, c) \<in> set ?files" for p c
    using that walk_plain [OF assms(2)] fresh_below_empty [OF assms(6)] assms(3) by (auto simp: mem)
  then have "\<forall>p \<in> fst ` set ?files. p \<noteq> [] \<and> list_all plain_name p \<and> p \<noteq> [SECRETS_MANIFEST_NAME] \<and> fresh (home @ p) (re_tree st)"
    by fastforce
  moreover have "\<forall>p \<in> fst ` set ?files. \<forall>q \<in> fst ` set ?files. \<not> strict_prefix p q"
    using walk_prefix_free by (fastforce simp: mem)
  ultimately obtain u where u: "restore_entries env home False None (map (\<lambda>(p, c). (entry_name p, Inr c)) ?files @ [(SECRETS_MANIFEST_NAME, Inr ?text)]) ?rep st =
      restore_entries env home False None [(SECRETS_MANIFEST_NAME, Inr ?text)]
        (?rep\<lparr>br_files := br_files ?rep @ map (\<lambda>(p, c). item (entry_name p) (Inr ())) ?files\<rparr>) (st\<lparr>re_tree := u\<rparr>)"
    "\<forall>(p, c) \<in> set ?files. entry_at (home @ p) u = Some (c, new_mode)"
    "\<forall>q. q \<notin> (\<lambda>p. home @ p) ` fst ` set ?files \<longrightarrow> entry_at q u = entry_at q (re_tree st)"
    using restore_fresh_files [of ?files home st env "[(SECRETS_MANIFEST_NAME, Inr ?text)]" ?rep] walk_distinct [OF assms(2)] by blast
  let ?rep2 = "?rep\<lparr>br_files := map (\<lambda>(p, c). item (entry_name p) (Inr ())) ?files\<rparr>"
  obtain report st' where s: "restore_secrets env False (fst (all_secrets env)) ?rep2 (st\<lparr>re_tree := u\<rparr>) = (report, st')" by force
  have manifest: "is_safe_entry_name SECRETS_MANIFEST_NAME" "is_manifest SECRETS_MANIFEST_NAME" by code_simp+
  have "import_backup env home src passphrase False st = (Inr report, st')"
    using assms(5) u(1) s manifest by (simp add: import_backup_def sealed archive_reads_back_def archive_entries_def comp_def case_prod_unfold)
  moreover have "\<forall>i \<in> set (br_files report). bi_success i"
    using restore_secrets_tree [OF s] by (auto simp: item_def)
  moreover have "entry_at (home @ q) (re_tree st') =
      (if kept [] q then map_option (\<lambda>c. (c, new_mode)) (file_at (root @ q) t) else None)" for q
  proof -
    have "file_at (root @ q) t = file_at q (FDir es)" using assms(1) by (simp add: file_at_def node_at_append)
    moreover have "entry_at (home @ q) u = (if kept [] q then map_option (\<lambda>c. (c, new_mode)) (file_at q (FDir es)) else None)"
      using u(2,3) assms(6) mem by (rule restored_entries)
    ultimately show ?thesis using restore_secrets_tree [OF s] by simp
  qed
  moreover have "re_stored st' = re_stored st @ filter (\<lambda>(n, v). bk_set env n v = Inr ()) (fst (all_secrets env))"
    using restored_secrets [OF s] by simp
  ultimately show ?thesis by blast
qed

section \<open>Witnesses\<close>

fun pair_up :: "string list \<Rightarrow> (string \<times> string) list" where
  "pair_up (n # c # xs) = (n, c) # pair_up xs"
| "pair_up xs = []"

definition flat :: "(string \<times> string) list \<Rightarrow> string list" where
  "flat es = concat (map (\<lambda>(n, c). [n, c]) es)"

definition demo_backup :: backup_env where
  "demo_backup = \<lparr>bk_io = (\<lambda>_. ''os error''), bk_stamp = ''20260101T000000Z'', bk_pack = (\<lambda>es. str_join newline (flat es)),
     bk_unpack = (\<lambda>s. (map (\<lambda>(n, c). (n, Inr c)) (pair_up (split_on CHR 0x0A s)), None)), bk_seal = (\<lambda>p b. p @ b),
     bk_open = (\<lambda>p s. if starts_with p s then Inr (drop (length p) s) else Inl ''decryption failed''),
     bk_manifest_text = (\<lambda>m. str_join '' '' (flat m)), bk_manifest_parse = (\<lambda>s. Inr (pair_up (split_on CHR '' '' s))),
     bk_list = Inr [''openai'', ''gone''], bk_get = (\<lambda>n. if n = ''openai'' then Inr (Some ''key'') else Inr None),
     bk_set = (\<lambda>_ _. Inr ())\<rparr>"

definition demo_root :: "(string \<times> fnode) list" where
  "demo_root = [(''config.toml'', FFile ''answer = 42'' 420),
     (''state'', FDir [(''runtime.sock'', FFile ''socket'' 420), (''single.db'', FFile ''rows'' 384)]),
     (''logs'', FDir [(''today'', FFile ''noise'' 420)])]"

definition demo_disk :: fnode where
  "demo_disk = FDir [(''root'', FDir demo_root), (''new'', FDir []), (''bin'', FDir [(''sh'', FFile ''shell'' 493)])]"

definition hostile_disk :: restore_state where
  "hostile_disk = \<lparr>re_tree = FDir [(''new'', FDir []), (''bin'', FDir [(''sh'', FFile ''shell'' 493)]),
     (''a.age'', FFile (bk_seal demo_backup ''pw'' (bk_pack demo_backup [(''../bin/sh'', ''evil''), (''b.toml'', ''x'')])) 384)],
     re_stored = []\<rparr>"

theorem import_stays_below_root_witness:
  "\<exists>r st'. import_backup demo_backup [''new''] [''a.age''] ''pw'' False hostile_disk = (r, st') \<and>
     file_at [''bin'', ''sh''] (re_tree st') = Some ''shell'' \<and> is_dir_at [''new''] (re_tree st')"
proof -
  obtain r st' where run: "import_backup demo_backup [''new''] [''a.age''] ''pw'' False hostile_disk = (r, st')" by force
  have "is_dir_at [''new''] (re_tree hostile_disk)" "file_at [''bin'', ''sh''] (re_tree hostile_disk) = Some ''shell''" by code_simp+
  with import_stays_below_root [OF _ run] run show ?thesis by (auto simp: within_def)
qed

theorem backup_round_trip_witness:
  "\<exists>t' report st'. export demo_backup [''root''] [''a.age''] ''pw'' demo_disk = (Inr [], t') \<and>
     import_backup demo_backup [''new''] [''a.age''] ''pw'' False \<lparr>re_tree = t', re_stored = []\<rparr> = (Inr report, st') \<and>
     entry_at [''new'', ''state'', ''single.db''] (re_tree st') = Some (''rows'', new_mode) \<and>
     entry_at [''new'', ''logs'', ''today''] (re_tree st') = None \<and> re_stored st' = [(''openai'', ''key'')]"
proof -
  let ?e = "export demo_backup [''root''] [''a.age''] ''pw'' demo_disk"
  let ?st = "\<lparr>re_tree = snd ?e, re_stored = []\<rparr>"
  have "fst ?e = Inr []" by code_simp
  then have e: "?e = (Inr [], snd ?e)" by (metis prod.collapse)
  have t: "node_at [''root''] demo_disk = Some (FDir demo_root)" "node_at [''new''] (re_tree ?st) = Some (FDir [])"
    "file_at [SECRETS_MANIFEST_NAME] (FDir demo_root) = None" by code_simp+
  have tidy: "tidy (FDir demo_root)" by code_simp
  have rb: "archive_reads_back demo_backup ''pw'' (archive_entries demo_backup demo_root)"
    unfolding archive_reads_back_def by code_simp
  have kept: "kept [] [''state'', ''single.db'']" "\<not> kept [] [''logs'', ''today'']"
    by (auto simp: kept_Cons kept_Nil is_excluded_def)
  have f: "file_at ([''root''] @ [''state'', ''single.db'']) demo_disk = Some ''rows''" by code_simp
  have s: "filter (\<lambda>(n, v). bk_set demo_backup n v = Inr ()) (fst (all_secrets demo_backup)) = [(''openai'', ''key'')]" by code_simp
  have "file_at [''a.age''] (re_tree ?st) = file_at [''a.age''] (snd ?e)" by simp
  from backup_round_trip [OF t(1) tidy t(3) e rb t(2) this] obtain report st' where
    r: "import_backup demo_backup [''new''] [''a.age''] ''pw'' False ?st = (Inr report, st')"
    and f1: "\<forall>q. entry_at ([''new''] @ q) (re_tree st') =
       (if kept [] q then map_option (\<lambda>c. (c, new_mode)) (file_at ([''root''] @ q) demo_disk) else None)"
    and s1: "re_stored st' = re_stored ?st @ filter (\<lambda>(n, v). bk_set demo_backup n v = Inr ()) (fst (all_secrets demo_backup))"
    by blast
  have "entry_at [''new'', ''state'', ''single.db''] (re_tree st') = Some (''rows'', new_mode)"
    using spec [OF f1, of "[''state'', ''single.db'']"] kept(1) f by simp
  moreover have "entry_at [''new'', ''logs'', ''today''] (re_tree st') = None"
    using spec [OF f1, of "[''logs'', ''today'']"] kept(2) by simp
  moreover have "re_stored st' = [(''openai'', ''key'')]" using s1 s by simp
  ultimately show ?thesis using e r by blast
qed

end
