(* ===== verification/StrSplit.thy ===== *)
theory StrSplit
  imports Utf8
begin

text \<open>
  What the front ends use of \<open>std::str\<close> beyond the prelude: words between white space, the text in front of a pattern, and
  slices that panic inside a character.
\<close>

definition ws_at :: "string \<Rightarrow> bool" where
  "ws_at s \<longleftrightarrow> strip_prefix_of ws_chars s \<noteq> None"

text \<open>The text up to the next white space, and what is left from there.\<close>

fun word_end :: "string \<Rightarrow> string \<times> string" where
  "word_end [] = ([], [])"
| "word_end (c # s) = (if ws_at (c # s) then ([], c # s) else (case word_end s of (w, r) \<Rightarrow> (c # w, r)))"

lemma word_end_shorter: "word_end s = (w, r) \<Longrightarrow> length r \<le> length s"
  by (induction s arbitrary: w r) (auto split: if_splits prod.splits dest: le_SucI)

lemma strip_all_length: "length (strip_all ws s) \<le> length s"
proof (induction ws s rule: strip_all.induct)
  case (1 ws s)
  show ?case
  proof (cases "strip_prefix_of ws s")
    case None
    then show ?thesis by (simp add: strip_all.simps)
  next
    case (Some t)
    with 1 [OF Some] strip_prefix_shorter [OF Some] show ?thesis by (simp add: strip_all.simps)
  qed
qed

lemma strip_all_done: "strip_prefix_of ws (strip_all ws s) = None"
proof (induction ws s rule: strip_all.induct)
  case (1 ws s)
  show ?case
  proof (cases "strip_prefix_of ws s")
    case None
    then show ?thesis by (simp add: strip_all.simps)
  next
    case (Some t)
    with 1 [OF Some] show ?thesis by (simp add: strip_all.simps [of ws s])
  qed
qed

lemma next_word_shorter:
  assumes "trim_start s \<noteq> []" shows "length (snd (word_end (trim_start s))) < length s"
proof -
  obtain c t where ct: "trim_start s = c # t" using assms by (cases "trim_start s") auto
  have "\<not> ws_at (c # t)" using strip_all_done [of ws_chars s] ct by (simp add: ws_at_def trim_start_def)
  then have "snd (word_end (c # t)) = snd (word_end t)" by (simp split: prod.splits)
  moreover have "length (snd (word_end t)) \<le> length t" by (cases "word_end t") (auto dest: word_end_shorter)
  moreover have "length (c # t) \<le> length s" using strip_all_length [of ws_chars s] ct by (simp add: trim_start_def)
  ultimately show ?thesis using ct by simp
qed

function split_whitespace :: "string \<Rightarrow> string list" where
  "split_whitespace s =
     (if trim_start s = [] then []
      else fst (word_end (trim_start s)) # split_whitespace (snd (word_end (trim_start s))))"
  by pat_completeness auto
termination
  by (relation "measure length") (auto simp: next_word_shorter)

declare split_whitespace.simps [simp del]

lemma solid_no_ws: "s \<noteq> [] \<Longrightarrow> solid_byte (hd s) \<Longrightarrow> \<not> ws_at s"
  using strip_prefix_solid [of s ws_chars] ws_not_solid by (auto simp: ws_at_def list_all_iff)

lemma word_end_solid:
  assumes "list_all solid_byte w" "r = [] \<or> ws_at r" shows "word_end (w @ r) = (w, r)"
  using assms
proof (induction w)
  case Nil
  then show ?case by (cases r) auto
next
  case (Cons c w)
  have "\<not> ws_at (c # w @ r)" using solid_no_ws [of "c # w @ r"] Cons.prems(1) by simp
  with Cons show ?case by simp
qed

lemma split_whitespace_word:
  assumes "list_all solid_byte w" "w \<noteq> []"
  shows "split_whitespace (w @ CHR '' '' # s) = w # split_whitespace s"
    "ws_at r \<Longrightarrow> split_whitespace (w @ r) = w # split_whitespace r" "split_whitespace w = [w]"
proof -
  have sp: "strip_prefix_of ws_chars (CHR '' '' # s) = Some s" by (simp add: strip_prefix_of_def ws_chars_def starts_with_def)
  have tw: "trim_start (w @ r) = w @ r" for r using assms by (intro trim_start_solid) (cases w, simp_all)
  have ts: "trim_start (CHR '' '' # s) = trim_start s" by (simp add: trim_start_def strip_all.simps [of _ "CHR '' '' # _"] sp)
  have at: "ws_at (CHR '' '' # s)" by (simp add: ws_at_def sp)
  show 2: "split_whitespace (w @ r) = w # split_whitespace r" if "ws_at r" for r
    using assms that by (subst split_whitespace.simps) (simp add: tw word_end_solid)
  have "split_whitespace (CHR '' '' # s) = split_whitespace s"
    by (subst (1 2) split_whitespace.simps) (simp add: ts)
  with 2 [OF at] show "split_whitespace (w @ CHR '' '' # s) = w # split_whitespace s" by simp
  have "split_whitespace [] = []" by (subst split_whitespace.simps) (simp add: trim_start_def strip_all.simps strip_prefix_of_def ws_chars_def starts_with_def)
  then show "split_whitespace w = [w]"
    using assms tw [of "[]"] word_end_solid [of w "[]"] by (subst split_whitespace.simps) simp
qed

text \<open>\<open>s.split(p).next()\<close>, \<open>s.split(p).nth(1)\<close> and \<open>s.rsplit(p).next()\<close>, the last for a pattern that does not overlap itself.\<close>

definition before_first :: "string \<Rightarrow> string \<Rightarrow> string" where
  "before_first p s = (case find_sub p s of Some i \<Rightarrow> take i s | None \<Rightarrow> s)"

definition second_part :: "string \<Rightarrow> string \<Rightarrow> string option" where
  "second_part p s = map_option (\<lambda>i. before_first p (drop (i + length p) s)) (find_sub p s)"

function after_last :: "string \<Rightarrow> string \<Rightarrow> string" where
  "after_last p s =
     (case find_sub p s of
        Some i \<Rightarrow> if p = [] then s else after_last p (drop (i + length p) s)
      | None \<Rightarrow> s)"
  by pat_completeness auto
termination
proof (relation "measure (\<lambda>(p, s). length s)")
  fix p s i assume "find_sub p s = Some i" "p \<noteq> []"
  with find_sub_Some [OF this(1)] show "((p, drop (i + length p) s), p, s) \<in> measure (\<lambda>(p, s). length s)" by (cases p) auto
qed simp

declare after_last.simps [simp del]

text \<open>The slice \<open>&s[..s.len().min(n)]\<close>, which panics when it would cut a character.\<close>

definition slice_to :: "nat \<Rightarrow> string \<Rightarrow> string outcome" where
  "slice_to n s = (if is_char_boundary s (min (length s) n) then Ret (take n s) else Panic)"

lemma slice_to_short: "length s \<le> n \<Longrightarrow> slice_to n s = Ret s"
  by (simp add: slice_to_def is_char_boundary_def)

end
