(* ===== verification/ServeOpenai.thy ===== *)
theory ServeOpenai
  imports McpServer LspFraming Routing StrSplit
begin

text \<open>
  The OpenAI-compatible proxy, \<open>crates/single-cli/src/serve_openai.rs\<close>: a small HTTP server that turns a chat completion
  into one task of the daemon. A connection is the reader of its bytes; handling it gives the bytes of the answer and
  the requests that were sent to the daemon. The random source, the clock, the JSON parser and printer, the daemon, the
  artifacts on disk and the state of the agents are fields of the environment.
\<close>

section \<open>Configuration and start\<close>

record serve_config =
  sc_addr :: string
  sc_agent :: "string option"
  sc_timeout_secs :: u64
  sc_api_key :: "string option"
  sc_allow_remote :: bool

datatype run_answer = Ran task_record | OtherData | Rejected | Unreachable

record serve_env =
  so_context :: "unit result"
  so_bind :: "string \<Rightarrow> unit result"
  so_urandom :: "u8 list option"
  so_nanos :: nat
  so_pid :: nat
  so_unix_now :: u64
  so_parse :: "string \<Rightarrow> json result"
  so_print :: "json \<Rightarrow> string"
  so_lossy :: "string \<Rightarrow> string"
  so_send :: "run_request \<Rightarrow> run_answer"
  so_artifact :: "string \<Rightarrow> string option"
  so_registry :: "(string \<times> string) list"
  so_table :: routing_table
  so_on_path :: "string \<Rightarrow> bool"
  so_cutoff :: string
  so_tasks :: "(string \<times> int \<times> string) list option"

record serve_server =
  ss_cfg :: serve_config
  ss_api_key :: string
  ss_allowed_hosts :: "string list"

definition MAX_HEADER_BYTES :: nat where
  "MAX_HEADER_BYTES = 16 * 1024"

definition MAX_HEADER_LINES :: nat where
  "MAX_HEADER_LINES = 100"

definition MAX_BODY_BYTES :: nat where
  "MAX_BODY_BYTES = 1024 * 1024"

definition trim_brackets :: "string \<Rightarrow> string" where
  "trim_brackets s =
     (let b = \<lambda>c. c = CHR ''['' \<or> c = CHR '']'' in rev (dropWhile b (rev (dropWhile b s))))"

definition split_host_port :: "string \<Rightarrow> string \<times> string" where
  "split_host_port addr =
     (case rfind_idx (\<lambda>c. c = CHR '':'') addr of
        Some i \<Rightarrow> (trim_brackets (take i addr), drop (Suc i) addr)
      | None \<Rightarrow> (addr, ''80''))"

definition hex_digit_of :: "nat \<Rightarrow> char" where
  "hex_digit_of d = (if d < 10 then char_of (48 + d) else char_of (87 + d))"

fun hex_nat :: "nat \<Rightarrow> string" where
  "hex_nat n = (if n < 16 then [hex_digit_of n] else hex_nat (n div 16) @ [hex_digit_of (n mod 16)])"

declare hex_nat.simps [simp del]

definition hex_padded :: "nat \<Rightarrow> nat \<Rightarrow> string" where
  "hex_padded w n = replicate (w - length (hex_nat n)) (CHR ''0'') @ hex_nat n"

definition random_token :: "serve_env \<Rightarrow> string" where
  "random_token env =
     (case so_urandom env of
        Some buf \<Rightarrow> concat (map (\<lambda>b. hex_padded 2 (unat b)) buf)
      | None \<Rightarrow> hex_padded 32 (so_nanos env) @ hex_nat (so_pid env))"

definition is_loopback :: "string \<Rightarrow> bool" where
  "is_loopback host \<longleftrightarrow> host \<in> {''127.0.0.1'', ''::1'', ''localhost''} \<or> starts_with ''127.'' host"

text \<open>What \<open>run\<close> does before it accepts its first connection.\<close>

definition serve_start :: "serve_env \<Rightarrow> serve_config \<Rightarrow> serve_server result" where
  "serve_start env cfg =
     (case so_context env of
        Inl e \<Rightarrow> Inl (''loading SingleCLI context: '' @ e)
      | Inr _ \<Rightarrow>
          (case split_host_port (sc_addr cfg) of (host, port) \<Rightarrow>
             if \<not> is_loopback host \<and> \<not> sc_allow_remote cfg then
               Inl (''refusing to bind non-loopback address '' @ sc_addr cfg @ '' '' @ [CHR 0xE2, CHR 0x80, CHR 0x94] @
                 '' this server runs agent CLIs. Pass --allow-remote AND --api-key to expose it deliberately.'')
             else if \<not> is_loopback host \<and> sc_api_key cfg = None then Inl ''--allow-remote requires an explicit --api-key''
             else
               (case so_bind env (sc_addr cfg) of
                  Inl e \<Rightarrow> Inl (''binding '' @ sc_addr cfg @ '': '' @ e)
                | Inr _ \<Rightarrow>
                    Inr \<lparr>ss_cfg = cfg, ss_api_key = (case sc_api_key cfg of Some k \<Rightarrow> k | None \<Rightarrow> random_token env),
                      ss_allowed_hosts = [host @ '':'' @ port, ''localhost:'' @ port, ''127.0.0.1:'' @ port,
                        host, ''localhost'', ''127.0.0.1'']\<rparr>)))"

definition byte_word :: "char \<Rightarrow> u8" where
  "byte_word c = word_of_nat (of_char c)"

definition token_matches :: "string \<Rightarrow> string \<Rightarrow> bool" where
  "token_matches expected got \<longleftrightarrow>
     length expected = length got \<and>
     foldl (\<lambda>acc (a, b). or acc (xor a b)) (0 :: u8) (zip (map byte_word expected) (map byte_word got)) = 0"

section \<open>Reading a request\<close>

record serve_request =
  hq_method :: string
  hq_path :: string
  hq_host :: string
  hq_authorization :: string
  hq_body :: string

record header_state =
  hs_length :: u64
  hs_host :: string
  hs_authorization :: string
  hs_bytes :: nat
  hs_lines :: nat

definition serve_header :: "string \<Rightarrow> header_state \<Rightarrow> header_state" where
  "serve_header line h =
     (let lower = map ascii_lower line
      in if starts_with ''content-length:'' lower
         then h\<lparr>hs_length := unwrap_or (parse_u64 (trim (drop (length ''content-length:'') lower))) 0\<rparr>
         else if starts_with ''host:'' lower then h\<lparr>hs_host := trim (drop (length ''host:'') lower)\<rparr>
         else if starts_with ''authorization:'' lower
         then h\<lparr>hs_authorization := trim (drop (length ''authorization:'') line)\<rparr>
         else h)"

function read_headers :: "header_state \<Rightarrow> reader \<Rightarrow> header_state result \<times> reader" where
  "read_headers h r =
     (case read_line r of
        (None, r') \<Rightarrow> (Inl ''reading a header'', r')
      | (Some line, r') \<Rightarrow>
          if line = [] then (Inr h, r')
          else
            (let h = h\<lparr>hs_bytes := hs_bytes h + length line, hs_lines := hs_lines h + 1\<rparr>
             in if MAX_HEADER_BYTES < hs_bytes h \<or> MAX_HEADER_LINES < hs_lines h
                then (Inl ''request headers too large'', r')
                else if trim_end line = [] then (Inr h, r')
                else read_headers (serve_header (trim_end line) h) r'))"
  by pat_completeness auto
termination
  by (relation "measure (\<lambda>(_, r). length (rd_bytes r))") (auto dest: read_line_shorter [OF sym])

declare read_headers.simps [simp del]

definition no_headers :: header_state where
  "no_headers = \<lparr>hs_length = 0, hs_host = [], hs_authorization = [], hs_bytes = 0, hs_lines = 0\<rparr>"

definition read_request :: "serve_env \<Rightarrow> reader \<Rightarrow> serve_request result" where
  "read_request env r =
     (case read_line r of
        (None, r1) \<Rightarrow> Inl ''reading the request line''
      | (Some request_line, r1) \<Rightarrow>
          (let parts = split_whitespace request_line;
               meth = (case parts of m # _ \<Rightarrow> m | [] \<Rightarrow> []);
               path = (case parts of _ # p # _ \<Rightarrow> p | _ \<Rightarrow> [])
           in case read_headers no_headers r1 of
                (Inl e, r2) \<Rightarrow> Inl e
              | (Inr h, r2) \<Rightarrow>
                  if MAX_BODY_BYTES < unat (hs_length h)
                  then Inl (''request body exceeds '' @ dec_nat MAX_BODY_BYTES @ '' bytes'')
                  else
                    (case read_exact (unat (hs_length h)) r2 of
                       (None, r3) \<Rightarrow> Inl ''reading the body''
                     | (Some body, r3) \<Rightarrow>
                         Inr \<lparr>hq_method = meth, hq_path = path, hq_host = hs_host h,
                           hq_authorization = hs_authorization h, hq_body = so_lossy env body\<rparr>)))"

section \<open>Answers\<close>

definition write_json :: "serve_env \<Rightarrow> nat \<Rightarrow> json \<Rightarrow> string" where
  "write_json env status body =
     (let text = so_print env body;
          reason = (if 200 \<le> status \<and> status < 300 then ''OK'' else ''ERROR'')
      in ''HTTP/1.1 '' @ dec_nat status @ '' '' @ reason @ crlf @ ''Content-Type: application/json'' @ crlf @
         ''Content-Length: '' @ dec_nat (length text) @ crlf @ ''Connection: close'' @ crlf @ crlf @ text)"

definition error_body :: "string \<Rightarrow> string \<Rightarrow> json" where
  "error_body message kind = jobj [(''error'', jobj [(''message'', JStr message), (''type'', JStr kind)])]"

definition sse_chunk :: "string \<Rightarrow> u64 \<Rightarrow> string \<Rightarrow> json \<Rightarrow> json \<Rightarrow> json" where
  "sse_chunk i created model delta why =
     jobj [(''id'', JStr i), (''object'', JStr ''chat.completion.chunk''), (''created'', JNum (PosInt created)),
       (''model'', JStr model),
       (''choices'', JArr [jobj [(''index'', JNum (PosInt 0)), (''delta'', delta), (''finish_reason'', why)]])]"

definition sse_line :: "serve_env \<Rightarrow> json \<Rightarrow> string" where
  "sse_line env v = ''data: '' @ so_print env v @ newline @ newline"

definition write_sse :: "serve_env \<Rightarrow> string \<Rightarrow> string \<Rightarrow> string \<Rightarrow> string \<Rightarrow> string" where
  "write_sse env i model body why =
     (let chunk = sse_chunk i (so_unix_now env) model
      in ''HTTP/1.1 200 OK'' @ crlf @ ''Content-Type: text/event-stream'' @ crlf @ ''Cache-Control: no-cache'' @ crlf @
         ''Connection: close'' @ crlf @ crlf @
         sse_line env (chunk (jobj [(''role'', JStr ''assistant'')]) JNull) @
         sse_line env (chunk (jobj [(''content'', JStr body)]) JNull) @
         sse_line env (chunk (JObj []) (JStr why)) @
         ''data: [DONE]'' @ newline @ newline)"

definition task_content :: "serve_env \<Rightarrow> task_record \<Rightarrow> string" where
  "task_content env rec =
     (case Option.bind (t_artifact_path rec) (so_artifact env) of
        Some s \<Rightarrow> trim_end (before_first (newline @ ''--- stderr ---'' @ newline) s)
      | None \<Rightarrow> unwrap_or (t_summary rec) [])"

section \<open>A chat completion\<close>

fun text_of :: "json option \<Rightarrow> string" where
  "text_of (Some (JStr s)) = s"
| "text_of (Some (JArr parts)) = str_join newline (List.map_filter (\<lambda>p. Option.bind (jget ''text'' p) as_str) parts)"
| "text_of _ = []"

definition message_role :: "json \<Rightarrow> string" where
  "message_role m = unwrap_or (Option.bind (jget ''role'' m) as_str) ''user''"

definition flatten_messages :: "json list \<Rightarrow> string" where
  "flatten_messages messages =
     (let said = filter (\<lambda>(role, text). text \<noteq> []) (map (\<lambda>m. (message_role m, text_of (jget ''content'' m))) messages);
          preamble = map snd (filter (\<lambda>(role, text). role = ''system'') said);
          turns = map (\<lambda>(role, text). role @ '': '' @ text) (filter (\<lambda>(role, text). role \<noteq> ''system'') said)
      in (if preamble = [] then [] else str_join (newline @ newline) preamble @ newline @ newline) @ str_join newline turns)"

definition serve_health :: "serve_env \<Rightarrow> pool_health" where
  "serve_health env =
     (case so_tasks env of
        Some rows \<Rightarrow> probe (so_registry env) (so_on_path env) (so_cutoff env) rows
      | None \<Rightarrow> \<lparr>detected_authed = {}, rate_limited_agents = {}\<rparr>)"

definition pick_agent :: "serve_env \<Rightarrow> serve_config \<Rightarrow> string \<Rightarrow> string" where
  "pick_agent env cfg model =
     (if list_ex (\<lambda>(name, _). name = model) (so_registry env) then model
      else case sc_agent cfg of
             Some a \<Rightarrow> a
           | None \<Rightarrow>
               (case select_agent (so_table env) NkCode Quick (serve_health env) of
                  Some a \<Rightarrow> a
                | None \<Rightarrow> (case fallback_default (so_table env) of a # _ \<Rightarrow> a | [] \<Rightarrow> ''opencode'')))"

definition chat_run :: "serve_env \<Rightarrow> serve_config \<Rightarrow> string \<Rightarrow> json list \<Rightarrow> run_request" where
  "chat_run env cfg model messages =
     \<lparr>rq_description = flatten_messages messages, rq_agent = pick_agent env cfg model, rq_cwd = ''.'',
      rq_use_worktree = False, rq_account = None, rq_real_home = False, rq_no_memory_context = True,
      rq_timeout_secs = sc_timeout_secs cfg, rq_background = False, rq_allow_fallback = True, rq_usage_json = False\<rparr>"

text \<open>The sum of two token counts, \<open>i64\<close> values that are at least zero, as a release build adds them.\<close>

definition add_i64 :: "int \<Rightarrow> int \<Rightarrow> int" where
  "add_i64 a b = signed_take_bit 63 (a + b)"

definition completion_body :: "serve_env \<Rightarrow> string \<Rightarrow> task_record \<Rightarrow> string \<Rightarrow> json" where
  "completion_body env model rec why =
     (let pt = max 0 (unwrap_or (t_prompt_tokens rec) 0); ct = max 0 (unwrap_or (t_completion_tokens rec) 0)
      in jobj [(''id'', JStr (''chatcmpl-'' @ dec_int (t_id rec))), (''object'', JStr ''chat.completion''),
           (''created'', JNum (PosInt (so_unix_now env))), (''model'', JStr model),
           (''choices'', JArr [jobj [(''index'', JNum (PosInt 0)),
              (''message'', jobj [(''role'', JStr ''assistant''), (''content'', JStr (task_content env rec))]),
              (''finish_reason'', JStr why)]]),
           (''usage'', jobj [(''prompt_tokens'', json_i64 pt), (''completion_tokens'', json_i64 ct),
              (''total_tokens'', json_i64 (add_i64 pt ct))])])"

definition chat_completions :: "serve_env \<Rightarrow> serve_config \<Rightarrow> string \<Rightarrow> string \<times> run_request list" where
  "chat_completions env cfg body =
     (case so_parse env body of
        Inl e \<Rightarrow> (write_json env 400 (error_body (''invalid JSON body: '' @ e) ''invalid_request_error''), [])
      | Inr parsed \<Rightarrow>
          (let model = unwrap_or (Option.bind (jget ''model'' parsed) as_str) ''pool'';
               stream_reply = unwrap_or (Option.bind (jget ''stream'' parsed) as_bool) False;
               messages = unwrap_or (Option.bind (jget ''messages'' parsed) as_array) []
           in if messages = []
              then (write_json env 400 (error_body ''`messages` is required and must be non-empty'' ''invalid_request_error''), [])
              else
                (let req = chat_run env cfg model messages
                 in (case so_send env req of
                       Ran rec \<Rightarrow>
                         (let why = (if t_timed_out rec then ''length'' else ''stop'')
                          in if stream_reply
                             then write_sse env (''chatcmpl-'' @ dec_int (t_id rec)) model (task_content env rec) why
                             else write_json env 200 (completion_body env model rec why))
                     | OtherData \<Rightarrow> write_json env 502 (error_body ''unexpected response from the runtime'' ''api_error'')
                     | Rejected \<Rightarrow> write_json env 502 (error_body ''the runtime rejected the request'' ''api_error'')
                     | Unreachable \<Rightarrow> write_json env 502 (error_body ''the SingleCLI daemon is unreachable'' ''api_error''),
                     [req]))))"

definition model_entry :: "serve_env \<Rightarrow> string \<Rightarrow> json" where
  "model_entry env i =
     jobj [(''id'', JStr i), (''object'', JStr ''model''), (''created'', JNum (PosInt (so_unix_now env))),
       (''owned_by'', JStr ''singlecli'')]"

definition models_body :: "serve_env \<Rightarrow> json" where
  "models_body env =
     jobj [(''object'', JStr ''list''),
       (''data'', JArr (map (model_entry env) (''pool'' # map fst (so_registry env))))]"

section \<open>A connection\<close>

definition presented :: "serve_request \<Rightarrow> string" where
  "presented req =
     (let a = hq_authorization req
      in if starts_with ''Bearer '' a then drop (length ''Bearer '') a
         else if starts_with ''bearer '' a then drop (length ''bearer '') a else [])"

definition handle_conn :: "serve_env \<Rightarrow> serve_server \<Rightarrow> reader \<Rightarrow> string \<times> run_request list" where
  "handle_conn env srv r =
     (case read_request env r of
        Inl e \<Rightarrow> (write_json env 400 (error_body ''malformed or oversized request'' ''invalid_request_error''), [])
      | Inr req \<Rightarrow>
          (let path = takeWhile (\<lambda>c. c \<noteq> CHR ''?'') (hq_path req)
           in if hq_method req = ''GET'' \<and> path = ''/health'' then (write_json env 200 (jobj [(''ok'', JBool True)]), [])
              else if \<not> list_ex (\<lambda>h. eq_ignore_ascii_case h (hq_host req)) (ss_allowed_hosts srv)
              then (write_json env 421 (error_body ''unrecognized Host header'' ''invalid_request_error''), [])
              else if \<not> token_matches (ss_api_key srv) (presented req)
              then (write_json env 401 (error_body ''missing or invalid Authorization bearer token'' ''invalid_request_error''), [])
              else if hq_method req = ''GET'' \<and> path = ''/v1/models'' then (write_json env 200 (models_body env), [])
              else if hq_method req = ''POST'' \<and> path = ''/v1/chat/completions''
              then chat_completions env (ss_cfg srv) (hq_body req)
              else (write_json env 404 (error_body ''no such route'' ''invalid_request_error''), [])))"


section \<open>The key\<close>

lemma byte_word_eq: "byte_word a = byte_word b \<longleftrightarrow> a = b"
proof
  assume "byte_word a = byte_word b"
  then have "unat (word_of_nat (of_char a) :: u8) = unat (word_of_nat (of_char b) :: u8)" by (simp add: byte_word_def)
  moreover have "of_char c < (256 :: nat)" for c by simp
  ultimately have "(of_char a :: nat) = of_char b" by (simp add: unat_of_nat)
  then show "a = b" by simp
qed simp

lemma differing_bits: "foldl (\<lambda>acc (a, b). or acc (xor a b)) (acc :: u8) zs = 0 \<longleftrightarrow> acc = 0 \<and> (\<forall>(a, b) \<in> set zs. a = b)"
proof (induction zs arbitrary: acc)
  case (Cons z zs)
  have "or acc x = 0 \<longleftrightarrow> acc = 0 \<and> x = 0" for x by (rule or_eq_0_iff)
  moreover have "xor a b = 0 \<longleftrightarrow> a = b" for a b :: u8 by (metis xor.right_neutral xor_self_eq xor.assoc)
  ultimately show ?case using Cons by (cases z) auto
qed simp

lemma zip_equal: "length xs = length ys \<Longrightarrow> (\<forall>(a, b) \<in> set (zip xs ys). a = b) \<longleftrightarrow> xs = ys"
  by (induction xs ys rule: list_induct2) auto

lemma token_matches_iff: "token_matches a b \<longleftrightarrow> a = b"
proof -
  have "map byte_word a = map byte_word b \<longleftrightarrow> a = b"
    using byte_word_eq by (intro inj_map_eq_map injI) auto
  then show ?thesis using zip_equal [of "map byte_word a" "map byte_word b"]
    by (auto simp: token_matches_def differing_bits)
qed


section \<open>Only a request with the key runs an agent\<close>

lemma chat_completions_runs:
  assumes "chat_completions env cfg body = (reply, reqs)" "reqs \<noteq> []"
  shows "\<exists>model messages q. messages \<noteq> [] \<and> q = chat_run env cfg model messages \<and> reqs = [q] \<and>
    (starts_with ''HTTP/1.1 200'' reply \<longleftrightarrow> (\<exists>rec. so_send env q = Ran rec))"
proof -
  obtain parsed where p: "so_parse env body = Inr parsed"
    using assms by (auto simp: chat_completions_def split: sum.splits)
  let ?model = "unwrap_or (Option.bind (jget ''model'' parsed) as_str) ''pool''"
  let ?messages = "unwrap_or (Option.bind (jget ''messages'' parsed) as_array) []"
  have ne: "?messages \<noteq> []" using assms p by (auto simp: chat_completions_def Let_def)
  have codes: "dec_nat 200 = ''200''" "dec_nat 502 = ''502''" by code_simp+
  have "reqs = [chat_run env cfg ?model ?messages]"
    using assms p ne by (auto simp: chat_completions_def Let_def)
  moreover have "starts_with ''HTTP/1.1 200'' reply \<longleftrightarrow> (\<exists>rec. so_send env (chat_run env cfg ?model ?messages) = Ran rec)"
    using assms p ne
    by (auto simp: chat_completions_def Let_def starts_with_def write_sse_def write_json_def codes split: run_answer.splits if_splits)
  ultimately show ?thesis using ne by blast
qed

text \<open>C14: whoever connects, a task is started only for a POST to the completion route that names an allowed host and
  presents exactly the key of the server, at most one for a connection, and the answer is a success only if the daemon ran it; a server
  whose address is not a loopback address exists only with both flags, and its key is then the one that was given.\<close>

theorem only_keyed_requests_run:
  assumes "serve_start env cfg = Inr srv" "handle_conn env srv r = (reply, reqs)" "reqs \<noteq> []"
  shows "\<exists>req model messages q. read_request env r = Inr req \<and> reqs = [q] \<and> q = chat_run env cfg model messages \<and>
    hq_method req = ''POST'' \<and> takeWhile (\<lambda>c. c \<noteq> CHR ''?'') (hq_path req) = ''/v1/chat/completions'' \<and>
    presented req = unwrap_or (sc_api_key cfg) (random_token env) \<and>
    (\<exists>h \<in> set (ss_allowed_hosts srv). map ascii_lower h = map ascii_lower (hq_host req)) \<and>
    (starts_with ''HTTP/1.1 200'' reply \<longleftrightarrow> (\<exists>rec. so_send env q = Ran rec)) \<and>
    (is_loopback (fst (split_host_port (sc_addr cfg))) \<or> sc_allow_remote cfg \<and> sc_api_key cfg \<noteq> None)"
proof -
  have srv: "ss_cfg srv = cfg" "ss_api_key srv = unwrap_or (sc_api_key cfg) (random_token env)"
    "is_loopback (fst (split_host_port (sc_addr cfg))) \<or> sc_allow_remote cfg \<and> sc_api_key cfg \<noteq> None"
    using assms(1) by (auto simp: serve_start_def unwrap_or_def split: sum.splits prod.splits if_splits)
  obtain req where req: "read_request env r = Inr req"
    using assms(2,3) by (auto simp: handle_conn_def split: sum.splits)
  note h = assms(2) [unfolded handle_conn_def req, simplified, unfolded Let_def]
  have "hq_method req = ''POST'' \<and> takeWhile (\<lambda>c. c \<noteq> CHR ''?'') (hq_path req) = ''/v1/chat/completions'' \<and>
      list_ex (\<lambda>h. eq_ignore_ascii_case h (hq_host req)) (ss_allowed_hosts srv) \<and>
      token_matches (ss_api_key srv) (presented req) \<and> chat_completions env (ss_cfg srv) (hq_body req) = (reply, reqs)"
    using h assms(3) by (simp split: if_splits)
  then have c: "hq_method req = ''POST''" "takeWhile (\<lambda>c. c \<noteq> CHR ''?'') (hq_path req) = ''/v1/chat/completions''"
      "list_ex (\<lambda>h. eq_ignore_ascii_case h (hq_host req)) (ss_allowed_hosts srv)"
      "ss_api_key srv = presented req" "chat_completions env cfg (hq_body req) = (reply, reqs)"
    by (simp_all add: token_matches_iff srv(1))
  from c(3) have "\<exists>h \<in> set (ss_allowed_hosts srv). map ascii_lower h = map ascii_lower (hq_host req)"
    by (auto simp: list_ex_iff eq_ignore_ascii_case_def)
  with req c(1,2,4) srv(2,3) chat_completions_runs [OF c(5) assms(3)] show ?thesis by metis
qed

section \<open>A request is read as it was sent\<close>

definition plain_line :: "string \<Rightarrow> bool" where
  "plain_line l \<longleftrightarrow> CHR 0x0A \<notin> set l \<and> valid_utf8 (l @ crlf) \<and> l \<noteq> [] \<and> solid_byte (last l)"

definition counted :: "header_state \<Rightarrow> string \<Rightarrow> header_state" where
  "counted h l = serve_header l (h\<lparr>hs_bytes := hs_bytes h + length l + 2, hs_lines := hs_lines h + 1\<rparr>)"

definition sent_lines :: "string list \<Rightarrow> string" where
  "sent_lines ls = concat (map (\<lambda>l. l @ crlf) ls)"

lemma counted_simps [simp]:
  "hs_bytes (counted h l) = hs_bytes h + length l + 2" "hs_lines (counted h l) = hs_lines h + 1"
  by (simp_all add: counted_def serve_header_def Let_def)

lemma crlf_utf8: "valid_utf8 crlf"
  by code_simp

lemma read_headers_all:
  assumes "list_all plain_line ls" "hs_bytes h + length (sent_lines ls) + 2 \<le> MAX_HEADER_BYTES"
    "hs_lines h + length ls + 1 \<le> MAX_HEADER_LINES"
  shows "\<exists>h'. read_headers h \<lparr>rd_bytes = sent_lines ls @ crlf @ s, rd_clean = c\<rparr> = (Inr h', \<lparr>rd_bytes = s, rd_clean = c\<rparr>) \<and>
    hs_length h' = hs_length (foldl counted h ls) \<and> hs_host h' = hs_host (foldl counted h ls) \<and>
    hs_authorization h' = hs_authorization (foldl counted h ls)"
  using assms
proof (induction ls arbitrary: h)
  case Nil
  have "read_line \<lparr>rd_bytes = crlf @ s, rd_clean = c\<rparr> = (Some crlf, \<lparr>rd_bytes = s, rd_clean = c\<rparr>)"
    using read_line_crlf [of "[]" s c] crlf_utf8 by simp
  moreover have "trim_end crlf = []" "length crlf = 2" "crlf \<noteq> []" using trim_end_crlf [of "[]"] by (simp_all add: crlf_def)
  ultimately show ?case using Nil by (subst read_headers.simps) (simp add: sent_lines_def)
next
  case (Cons l ls)
  have l: "CHR 0x0A \<notin> set l" "valid_utf8 (l @ crlf)" "l \<noteq> []" "solid_byte (last l)" using Cons.prems(1) by (simp_all add: plain_line_def)
  have len: "length (sent_lines (l # ls)) = length l + 2 + length (sent_lines ls)" by (simp add: sent_lines_def crlf_def)
  have rl: "read_line \<lparr>rd_bytes = l @ crlf @ sent_lines ls @ crlf @ s, rd_clean = c\<rparr> =
      (Some (l @ crlf), \<lparr>rd_bytes = sent_lines ls @ crlf @ s, rd_clean = c\<rparr>)"
    by (rule read_line_crlf) (use l in auto)
  have split: "sent_lines (l # ls) @ crlf @ s = l @ crlf @ sent_lines ls @ crlf @ s" by (simp add: sent_lines_def)
  have two: "length crlf = 2" by (simp add: crlf_def)
  have "read_headers h \<lparr>rd_bytes = sent_lines (l # ls) @ crlf @ s, rd_clean = c\<rparr> =
      read_headers (counted h l) \<lparr>rd_bytes = sent_lines ls @ crlf @ s, rd_clean = c\<rparr>"
    using Cons.prems(2,3) l(3) trim_end_crlf [of l] l(4) unfolding split len
    by (subst read_headers.simps) (simp add: rl counted_def two)
  with Cons.IH [of "counted h l"] Cons.prems len show ?case by simp
qed

text \<open>The headers a client needs, among others that the server does not look at.\<close>

definition solid_text :: "string \<Rightarrow> bool" where
  "solid_text s \<longleftrightarrow> s \<noteq> [] \<and> list_all solid_byte s"

definition inert :: "string \<Rightarrow> bool" where
  "inert l \<longleftrightarrow> plain_line l \<and> (\<forall>h. serve_header l h = h)"

definition client_headers :: "string \<Rightarrow> string \<Rightarrow> nat \<Rightarrow> string list" where
  "client_headers host key n = [''Host: '' @ host, ''Authorization: Bearer '' @ key, length_header n]"

definition client_request :: "string \<Rightarrow> string \<Rightarrow> string list \<Rightarrow> string \<Rightarrow> string" where
  "client_request meth target ls body = meth @ '' '' @ target @ '' HTTP/1.1'' @ crlf @ sent_lines ls @ crlf @ body"

lemma ascii_lower_solid: "solid_byte (ascii_lower c) = solid_byte c"
proof -
  have "(of_char c :: nat) + 32 < 256" if "of_char c \<le> (90 :: nat)" using that by simp
  then show ?thesis by (auto simp: ascii_lower_def solid_byte_def)
qed

lemma trim_space: "trim (CHR '' '' # s) = trim s"
proof -
  have "strip_prefix_of ws_chars (CHR '' '' # s) = Some s" by (simp add: strip_prefix_of_def ws_chars_def starts_with_def)
  then show ?thesis by (simp add: trim_def trim_start_def strip_all.simps [of _ "CHR '' '' # _"])
qed

lemma trim_solid_text: "solid_text s \<Longrightarrow> trim s = s"
  by (rule trim_solid) (auto simp: solid_text_def list_all_iff hd_in_set)

lemma serve_client_headers:
  "solid_text host \<Longrightarrow> serve_header (''Host: '' @ host) h = h\<lparr>hs_host := map ascii_lower host\<rparr>"
  "solid_text key \<Longrightarrow> serve_header (''Authorization: Bearer '' @ key) h = h\<lparr>hs_authorization := ''Bearer '' @ key\<rparr>"
  "n \<le> u64_max \<Longrightarrow> serve_header (length_header n) h = h\<lparr>hs_length := word_of_nat n\<rparr>"
proof -
  have low: "map ascii_lower ''Host: '' = ''host: ''" "map ascii_lower ''Authorization: Bearer '' = ''authorization: bearer ''"
    "map ascii_lower ''Content-Length: '' = ''content-length: ''" by code_simp+
  show "serve_header (''Host: '' @ host) h = h\<lparr>hs_host := map ascii_lower host\<rparr>" if "solid_text host"
  proof -
    have "solid_text (map ascii_lower host)" using that by (simp add: solid_text_def list.pred_map comp_def ascii_lower_solid)
    from trim_solid_text [OF this] show ?thesis
      unfolding serve_header_def map_append low by (simp add: starts_with_def Let_def trim_space)
  qed
  show "serve_header (''Authorization: Bearer '' @ key) h = h\<lparr>hs_authorization := ''Bearer '' @ key\<rparr>" if "solid_text key"
  proof -
    have "trim (''Bearer '' @ key) = ''Bearer '' @ key" using that
      by (intro trim_solid) (auto simp: solid_text_def list_all_iff solid_byte_def)
    then show ?thesis unfolding serve_header_def map_append low by (simp add: starts_with_def Let_def trim_space)
  qed
  show "serve_header (length_header n) h = h\<lparr>hs_length := word_of_nat n\<rparr>" if "n \<le> u64_max"
  proof -
    have "ascii_lower c = c" if "is_digit c" for c using that by (simp add: is_digit_def ascii_lower_def)
    then have "map ascii_lower (dec_nat n) = dec_nat n" using dec_nat_digits [of n] by (intro map_idI) (simp add: list_all_iff)
    then show ?thesis using that unfolding serve_header_def length_header_def map_append low
      by (simp add: starts_with_def Let_def trim_space parse_u64_dec unwrap_or_def)
  qed
qed


lemma solid_ascii: "list_all solid_byte s \<Longrightarrow> list_all (byte_in 32 126) s"
  by (auto simp: list_all_iff solid_byte_def byte_in_def)

lemma line_ascii: "list_all (byte_in 32 126) l \<Longrightarrow> CHR 0x0A \<notin> set l \<and> valid_utf8 (l @ crlf)"
proof -
  assume l: "list_all (byte_in 32 126) l"
  then have "list_all (byte_in 0 127) (l @ crlf)" by (auto simp: list_all_iff byte_in_def crlf_def)
  with l show ?thesis by (auto simp: valid_utf8_ascii list_all_iff byte_in_def)
qed

lemma plain_lineI: "list_all (byte_in 32 126) l \<Longrightarrow> l \<noteq> [] \<Longrightarrow> solid_byte (last l) \<Longrightarrow> plain_line l"
  using line_ascii by (simp add: plain_line_def)

lemma plain_client_headers:
  assumes "solid_text host" "solid_text key"
  shows "list_all plain_line (client_headers host key n)"
proof -
  have labelled: "plain_line (p @ s)" if "solid_text s" "list_all (byte_in 32 126) p" for p s
    using that solid_ascii by (intro plain_lineI) (auto simp: solid_text_def list_all_iff)
  have "list_all (byte_in 32 126) ''Host: ''" "list_all (byte_in 32 126) ''Authorization: Bearer ''"
    by (simp_all add: byte_in_def)
  note labelled [OF assms(1) this(1)] labelled [OF assms(2) this(2)]
  moreover have "plain_line (length_header n)"
  proof (rule plain_lineI)
    show "list_all (byte_in 32 126) (length_header n)" using length_header_bytes by (simp add: list_all_iff)
    show "length_header n \<noteq> []" by (simp add: length_header_def)
    have "is_digit (last (dec_nat n))" using dec_nat_digits [of n] by (auto simp: list_all_iff)
    then show "solid_byte (last (length_header n))" by (simp add: length_header_def digit_solid)
  qed
  ultimately show ?thesis by (simp only: client_headers_def list.pred_inject simp_thms)
qed

lemma fold_inert:
  assumes "list_all inert ls"
  shows "hs_length (foldl counted h ls) = hs_length h \<and> hs_host (foldl counted h ls) = hs_host h \<and>
    hs_authorization (foldl counted h ls) = hs_authorization h"
  using assms by (induction ls arbitrary: h) (simp_all add: inert_def counted_def)

lemma fold_client_headers:
  assumes "solid_text host" "solid_text key" "n \<le> u64_max"
  shows "hs_length (foldl counted h (client_headers host key n)) = word_of_nat n \<and>
    hs_host (foldl counted h (client_headers host key n)) = map ascii_lower host \<and>
    hs_authorization (foldl counted h (client_headers host key n)) = ''Bearer '' @ key"
  using serve_client_headers(1) [OF assms(1)] serve_client_headers(2) [OF assms(2)] serve_client_headers(3) [OF assms(3)]
  by (simp add: client_headers_def counted_def)

text \<open>A request that a client renders is read as it was meant, whatever other headers stand around the three that count,
  as long as the headers stay below the two limits; there is no limit on the request line.\<close>

lemma client_request_is_read:
  assumes texts: "solid_text meth" "solid_text target" "solid_text host" "solid_text key"
    and others: "list_all inert before" "list_all inert after"
    and ls: "ls = before @ client_headers host key (length body) @ after"
    and small: "length (sent_lines ls) + 2 \<le> MAX_HEADER_BYTES" "length ls + 1 \<le> MAX_HEADER_LINES" "length body \<le> MAX_BODY_BYTES"
  shows "read_request env \<lparr>rd_bytes = client_request meth target ls body, rd_clean = clean\<rparr> =
    Inr \<lparr>hq_method = meth, hq_path = target, hq_host = map ascii_lower host, hq_authorization = ''Bearer '' @ key,
      hq_body = so_lossy env body\<rparr>"
proof -
  let ?line = "meth @ '' '' @ target @ '' HTTP/1.1''"
  have "list_all (byte_in 32 126) ?line"
    using texts(1,2) solid_ascii by (simp add: solid_text_def) (simp add: byte_in_def)
  from line_ascii [OF this] have rl: "read_line \<lparr>rd_bytes = ?line @ crlf @ s, rd_clean = clean\<rparr> =
      (Some (?line @ crlf), \<lparr>rd_bytes = s, rd_clean = clean\<rparr>)" for s by (intro read_line_crlf) auto
  obtain ws where words: "split_whitespace (?line @ crlf) = meth # target # ws"
    using texts(1,2) split_whitespace_word(1) by (simp add: solid_text_def)
  have body: "length body \<le> u64_max" using small(3) by (simp add: MAX_BODY_BYTES_def u64_max_def)
  have plain: "list_all plain_line ls"
    using others plain_client_headers [OF texts(3,4)] by (auto simp: ls inert_def list_all_iff)
  obtain h where h: "read_headers no_headers \<lparr>rd_bytes = sent_lines ls @ crlf @ body, rd_clean = clean\<rparr> =
      (Inr h, \<lparr>rd_bytes = body, rd_clean = clean\<rparr>)" "hs_length h = hs_length (foldl counted no_headers ls)"
      "hs_host h = hs_host (foldl counted no_headers ls)" "hs_authorization h = hs_authorization (foldl counted no_headers ls)"
    using read_headers_all [OF plain, of no_headers body clean] small(1,2) by (auto simp: no_headers_def)
  have "hs_length h = word_of_nat (length body)" "hs_host h = map ascii_lower host" "hs_authorization h = ''Bearer '' @ key"
    using fold_inert [OF others(2)] fold_client_headers [OF texts(3,4) body] h(2-4) by (simp_all add: ls)
  moreover have "unat (word_of_nat (length body) :: u64) = length body"
    using body by (simp add: unat_of_nat u64_max_def)
  ultimately show ?thesis
    using rl [of "sent_lines ls @ crlf @ body"] words h(1) small(3)
    by (simp add: read_request_def client_request_def read_exact_def)
qed

text \<open>A client that presents the key over any of the allowed names, in any case of its letters, is served: its body, of at most a
  megabyte, reaches the completion as it was sent.\<close>

theorem client_with_key_is_served:
  assumes "serve_start env cfg = Inr srv" "list_ex (\<lambda>h. eq_ignore_ascii_case h host) (ss_allowed_hosts srv)"
    and "solid_text host" "solid_text (ss_api_key srv)"
    and "length (sent_lines (client_headers host (ss_api_key srv) (length body))) + 2 \<le> MAX_HEADER_BYTES" "length body \<le> MAX_BODY_BYTES"
  shows "handle_conn env srv \<lparr>rd_bytes = client_request ''POST'' ''/v1/chat/completions''
      (client_headers host (ss_api_key srv) (length body)) body, rd_clean = clean\<rparr> =
    chat_completions env cfg (so_lossy env body)"
proof -
  have t: "solid_text ''POST''" "solid_text ''/v1/chat/completions''" by code_simp+
  have "ss_cfg srv = cfg" using assms(1) by (auto simp: serve_start_def split: sum.splits prod.splits if_splits)
  moreover have "list_ex (\<lambda>h. eq_ignore_ascii_case h (map ascii_lower host)) (ss_allowed_hosts srv)"
  proof -
    have "ascii_lower (ascii_lower c) = ascii_lower c" for c by (cases c) (simp add: ascii_lower_def)
    then show ?thesis using assms(2) by (simp add: list_ex_iff eq_ignore_ascii_case_def comp_def)
  qed
  ultimately show ?thesis
    using client_request_is_read [OF t assms(3,4), of "[]" "[]" _ body env clean, OF _ _ refl] assms(5,6)
    by (simp add: handle_conn_def presented_def starts_with_def token_matches_iff MAX_HEADER_LINES_def client_headers_def)
qed



text \<open>A server on an IPv6 loopback address refuses its own address: the brackets are taken off the host for the list of
  allowed names, and a client sends them.\<close>

theorem ipv6_literal_refused:
  assumes "serve_start env cfg = Inr srv" "sc_addr cfg = ''[::1]:8765''" "solid_text (ss_api_key srv)" "length body \<le> MAX_BODY_BYTES"
    and "length (sent_lines (client_headers (sc_addr cfg) (ss_api_key srv) (length body))) + 2 \<le> MAX_HEADER_BYTES"
  shows "handle_conn env srv \<lparr>rd_bytes = client_request ''POST'' ''/v1/chat/completions''
      (client_headers (sc_addr cfg) (ss_api_key srv) (length body)) body, rd_clean = clean\<rparr> =
    (write_json env 421 (error_body ''unrecognized Host header'' ''invalid_request_error''), [])"
proof -
  have t: "solid_text ''POST''" "solid_text ''/v1/chat/completions''" "solid_text (sc_addr cfg)"
    unfolding assms(2) by code_simp+
  have "split_host_port ''[::1]:8765'' = (''::1'', ''8765'')" by code_simp
  then have "ss_allowed_hosts srv = [''::1:8765'', ''localhost:8765'', ''127.0.0.1:8765'', ''::1'', ''localhost'', ''127.0.0.1'']"
    using assms(1,2) by (auto simp: serve_start_def split: sum.splits if_splits)
  moreover have "\<not> list_ex (\<lambda>h. eq_ignore_ascii_case h (map ascii_lower ''[::1]:8765''))
      [''::1:8765'', ''localhost:8765'', ''127.0.0.1:8765'', ''::1'', ''localhost'', ''127.0.0.1'']" by code_simp
  ultimately show ?thesis
    using client_request_is_read [OF t assms(3), of "[]" "[]" _ body env clean, OF _ _ refl] assms(4,5)
    by (simp add: handle_conn_def MAX_HEADER_LINES_def client_headers_def assms(2))
qed

text \<open>An empty key, which the start accepts even for a remote address, lets everybody in who sends no key at all.\<close>

theorem empty_key_is_no_key:
  assumes "serve_start env cfg = Inr srv" "sc_api_key cfg = Some []"
    and "read_request env r = Inr req" "hq_authorization req = []" "hq_host req \<in> set (ss_allowed_hosts srv)"
    and "hq_method req = ''POST''" "hq_path req = ''/v1/chat/completions''"
  shows "handle_conn env srv r = chat_completions env cfg (hq_body req)"
proof -
  have "ss_cfg srv = cfg" "ss_api_key srv = []"
    using assms(1,2) by (auto simp: serve_start_def split: sum.splits prod.splits if_splits)
  moreover have "list_ex (\<lambda>h. eq_ignore_ascii_case h (hq_host req)) (ss_allowed_hosts srv)"
    using assms(5) by (auto simp: list_ex_iff eq_ignore_ascii_case_def)
  ultimately show ?thesis using assms(3,4,6,7) by (simp add: handle_conn_def presented_def starts_with_def token_matches_iff)
qed

section \<open>Witnesses\<close>

definition demo_answer :: task_record where
  "demo_answer = \<lparr>t_id = 7, t_description = ''d'', t_agent = ''opencode'', t_status = TsCompleted, t_worktree_path = None,
     t_artifact_path = None, t_exit_code = Some 0, t_timed_out = False, t_summary = Some ''hello'', t_created_at = ''t'',
     t_updated_at = ''t'', t_cwd = ''.'', t_workspace_id = ''w'', t_rate_limited = False, t_prompt_tokens = Some 3,
     t_completion_tokens = Some 5, t_tokens_estimated = False\<rparr>"

definition demo_proxy :: serve_env where
  "demo_proxy = \<lparr>so_context = Inr (), so_bind = (\<lambda>_. Inr ()), so_urandom = None, so_nanos = 255, so_pid = 16, so_unix_now = 9,
     so_parse = (\<lambda>s. Inr (jobj [(''messages'', JArr [jobj [(''content'', JStr s)]])])), so_print = (\<lambda>_. ''{}''), so_lossy = (\<lambda>s. s),
     so_send = (\<lambda>_. Ran demo_answer), so_artifact = (\<lambda>_. None), so_registry = [(''opencode'', ''opencode'')],
     so_table = default_table, so_on_path = (\<lambda>_. True), so_cutoff = ''t'', so_tasks = Some []\<rparr>"

definition demo_config :: serve_config where
  "demo_config = \<lparr>sc_addr = ''127.0.0.1:8765'', sc_agent = None, sc_timeout_secs = 60, sc_api_key = Some ''key'', sc_allow_remote = False\<rparr>"

definition served_demo :: serve_server where
  "served_demo = \<lparr>ss_cfg = demo_config, ss_api_key = ''key'', ss_allowed_hosts = [''127.0.0.1:8765'', ''localhost:8765'',
     ''127.0.0.1:8765'', ''127.0.0.1'', ''localhost'', ''127.0.0.1'']\<rparr>"

definition demo_post :: "string \<Rightarrow> reader" where
  "demo_post key = \<lparr>rd_bytes = client_request ''POST'' ''/v1/chat/completions''
     (client_headers ''LocalHost:8765'' key 2) ''hi'', rd_clean = True\<rparr>"

lemma demo_started: "serve_start demo_proxy demo_config = Inr served_demo"
proof -
  have "split_host_port ''127.0.0.1:8765'' = (''127.0.0.1'', ''8765'')" by code_simp
  moreover have "is_loopback ''127.0.0.1''" by code_simp
  ultimately show ?thesis by (simp add: serve_start_def demo_proxy_def demo_config_def served_demo_def)
qed

lemma demo_post_read:
  assumes "solid_text key" "length key = 3"
  shows "read_request demo_proxy (demo_post key) =
    Inr \<lparr>hq_method = ''POST'', hq_path = ''/v1/chat/completions'', hq_host = ''localhost:8765'',
      hq_authorization = ''Bearer '' @ key, hq_body = ''hi''\<rparr>"
    "length (sent_lines (client_headers ''LocalHost:8765'' key 2)) + 2 \<le> MAX_HEADER_BYTES"
proof -
  have t: "solid_text ''POST''" "solid_text ''/v1/chat/completions''" "solid_text ''LocalHost:8765''" by code_simp+
  show small: "length (sent_lines (client_headers ''LocalHost:8765'' key 2)) + 2 \<le> MAX_HEADER_BYTES"
    using assms(2) by (simp add: sent_lines_def client_headers_def crlf_def length_header_def MAX_HEADER_BYTES_def dec_nat.simps)
  have low: "map ascii_lower ''LocalHost:8765'' = ''localhost:8765''" by code_simp
  have two: "length ''hi'' = 2" and lossy: "so_lossy demo_proxy s = s" for s by (simp_all add: demo_proxy_def)
  show "read_request demo_proxy (demo_post key) =
    Inr \<lparr>hq_method = ''POST'', hq_path = ''/v1/chat/completions'', hq_host = ''localhost:8765'',
      hq_authorization = ''Bearer '' @ key, hq_body = ''hi''\<rparr>"
    using client_request_is_read [OF t assms(1), of "[]" "[]" "client_headers ''LocalHost:8765'' key 2" "''hi''" demo_proxy True,
        unfolded two lossy low]
      small by (simp add: demo_post_def MAX_HEADER_LINES_def MAX_BODY_BYTES_def) (simp add: client_headers_def)
qed

theorem only_keyed_requests_run_witness:
  "(\<exists>reply q. handle_conn demo_proxy served_demo (demo_post ''key'') = (reply, [q]) \<and> starts_with ''HTTP/1.1 200'' reply) \<and>
   snd (handle_conn demo_proxy served_demo (demo_post ''kez'')) = []"
proof -
  let ?h = "handle_conn demo_proxy served_demo (demo_post ''key'')"
  have allowed: "list_ex (\<lambda>h. eq_ignore_ascii_case h ''localhost:8765'') (ss_allowed_hosts served_demo)" by code_simp
  have keys: "solid_text ''key''" "solid_text ''kez''" by code_simp+
  have conn: "handle_conn demo_proxy served_demo (demo_post key) =
      (if key = ''key'' then chat_completions demo_proxy demo_config ''hi''
       else (write_json demo_proxy 401 (error_body ''missing or invalid Authorization bearer token'' ''invalid_request_error''), []))"
    if "solid_text key" "length key = 3" for key
    using demo_post_read(1) [OF that] allowed
    by (auto simp: handle_conn_def presented_def starts_with_def token_matches_iff) (simp_all add: served_demo_def)
  have "snd (chat_completions demo_proxy demo_config ''hi'') \<noteq> []"
    by (simp add: chat_completions_def demo_proxy_def jobj_def unwrap_or_def Let_def)
  then have runs: "snd ?h \<noteq> []" and no: "snd (handle_conn demo_proxy served_demo (demo_post ''kez'')) = []"
    using conn keys by simp_all
  obtain reply reqs where h: "?h = (reply, reqs)" by force
  with runs have "reqs \<noteq> []" by simp
  from only_keyed_requests_run [OF demo_started h this] obtain q where
    "reqs = [q]" "starts_with ''HTTP/1.1 200'' reply \<longleftrightarrow> (\<exists>rec. so_send demo_proxy q = Ran rec)" by blast
  with h no show ?thesis by (auto simp: demo_proxy_def)
qed

theorem client_with_key_is_served_witness:
  "handle_conn demo_proxy served_demo (demo_post ''key'') = chat_completions demo_proxy demo_config ''hi''"
proof -
  have key: "solid_text ''LocalHost:8765''" "solid_text (ss_api_key served_demo)" by code_simp+
  have allowed: "list_ex (\<lambda>h. eq_ignore_ascii_case h ''LocalHost:8765'') (ss_allowed_hosts served_demo)" by code_simp
  have k: "ss_api_key served_demo = ''key''" by (simp add: served_demo_def)
  have two: "length ''hi'' = 2" and lossy: "so_lossy demo_proxy s = s" for s by (simp_all add: demo_proxy_def)
  from client_with_key_is_served [OF demo_started allowed key, of "''hi''" True, unfolded two k lossy]
    demo_post_read(2) [of "''key''"] key(2)
  show ?thesis by (simp add: k demo_post_def MAX_BODY_BYTES_def)
qed

end
