(* ===== verification/Spec2Isabelle.thy ===== *)
theory Spec2Isabelle
  imports FreePool Backoff Cooldown Ledger Pools Degrade Handoff Coordinator PoolAgent
    Ratelimit Fallback TaskStore TaskOutput Notes KnowledgeGraph Orchestrate AgentSlots LspStale Permissions Registries SelfHeal
    GoalHandlers McpServer Account Backup ServeOpenai
begin

text \<open>
  Verification library of SingleCLI, a daemon and command line that run many coding agents and free
  model providers behind one interface. The library models the program's own decisions: the goal
  coordinator (\<open>crates/single-runtime/src/coordinator/\<close>), the free-provider pool
  (\<open>crates/single-runtime/src/pool/\<close> and \<open>pool_agent.rs\<close>), the life of a task (\<open>task.rs\<close>, its hooks,
  its registry, the agent slots) and the orchestrations built on it, and the modules of
  \<open>crates/single-core/src/\<close> they rest on.

  \<^bold>\<open>How the parts interact.\<close> A goal is planned by an LLM role (\<open>Brain\<close>) into a graph of nodes
  (\<open>Graph\<close>) that lives in SQLite rows (\<open>CoordSchema\<close>, \<open>Goals\<close>, \<open>Sessions\<close>). Every tick the shell
  (\<open>SchedulerShell\<close>) reconciles the rows with the tasks, reads the capacity, lets the pure core
  (\<open>Scheduler\<close>) pick nodes and agents (\<open>Routing\<close>), and dispatches them as tasks; a finished task is
  settled into its node, retried, put on a capacity wait, patched by the supervisor or integrated and
  offered for a merge (\<open>PendingMerge\<close>); everything is logged (\<open>EventLog\<close>). \<open>Coordinator\<close> holds the
  entry points and the daemon's start and stop. A task of the agent \<open>single-pool\<close> runs \<open>PoolAgent\<close>: it
  resolves the secret aliases of its prompt (\<open>Redact\<close>), ranks the candidates of the key table
  (\<open>PoolKeys\<close>, \<open>Bandit\<close>), takes a lease (\<open>Ledger\<close>), injects the handoff (\<open>Handoff\<close>), sends the request
  over a wire (\<open>PoolClient\<close>, \<open>PoolNative\<close>, catalogue \<open>FreePool\<close>), and records the usage or benches the
  candidate (\<open>Cooldown\<close>, with the hints of \<open>Backoff\<close>). Its failure text is what the scheduler reads a
  recovery time from, which is the property of this theory that spans both halves.

  A task itself is a row of \<open>TaskStore\<close>. \<open>TaskRun\<close> is \<open>task::run\<close>: it claims the row, takes an agent slot
  (\<open>AgentSlots\<close>), assembles the preamble of memory, notes and graph excerpts (\<open>Memory\<close>, \<open>Notes\<close>,
  \<open>KnowledgeGraph\<close>), resolves the aliases, runs the agent under the cancellation flags of
  \<open>TaskRegistry\<close>, shapes the output (\<open>TaskOutput\<close>), benches the agent or walks to the next one
  (\<open>Ratelimit\<close>, \<open>Fallback\<close>), settles the row and fires the hooks (\<open>TaskHooks\<close>). \<open>OrchGraph\<close> runs a plan of
  dependent tasks in waves, \<open>Orchestrate\<close> a relay or a parallel set; both create and run tasks.

  Beside the daemon, the language-server proxy (\<open>crates/single-lsp\<close>) is one client in front of many servers:
  frames on pipes (\<open>LspFraming\<close>), a table from extensions to servers (\<open>LspRouter\<close>) and the threads that
  pass messages on with renumbered ids (\<open>LspProxy\<close>, its invariants \<open>LspSession\<close>, the race it has \<open>LspStale\<close>).
  \<open>Permissions\<close> decides whether an agent may use a tool, for the hook of the command line and the two MCP servers:
  \<open>McpGateway\<close> starts the registered servers on demand and passes tool calls on to them, \<open>McpServer\<close> turns the tool
  calls of an agent into requests to the daemon. \<open>GoalHandlers\<close> is how the daemon answers requests on sessions,
  goals and pending merges, on top of \<open>Coordinator\<close>. Every agent has a home directory of its own, seeded from the real
  one without its credentials (\<open>AgentHome\<close>), and its logins can be captured into profiles and put back (\<open>Account\<close>);
  the whole configuration directory can be packed into an encrypted archive and put back on another machine (\<open>Backup\<close>);
  all three work on a tree of files (\<open>FileTree\<close>).
  \<open>ServeOpenai\<close> is the front end that other programs use over HTTP: it reads a request from a socket, checks host and key, and
  runs a completion as a task.
  What servers, tools, plugins, providers and keys there are is in registries on disk, which are completed with
  the presets at every start (\<open>Registries\<close>). \<open>SelfHeal\<close> is the pass that the daemon runs at its start and on a
  timer: it repairs files, backs the database up, probes benched keys and takes up stuck goals and nodes again, through the
  operations of \<open>Goals\<close>, \<open>Cooldown\<close> and \<open>PoolKeys\<close>.

  \<^bold>\<open>Theories and sources.\<close>
  \<^item> \<open>Prelude\<close>: strings, decimal numerals, keyed row lists and the collections the rest uses; \<open>Json\<close>: the
    part of \<open>serde_json::Value\<close> that is read and built.
  \<^item> \<open>PoolSchema\<close>, \<open>Cooldown\<close>, \<open>Ledger\<close>, \<open>Pools\<close>, \<open>Degrade\<close>, \<open>Handoff\<close>, \<open>Bandit\<close>, \<open>Backoff\<close>: the files of
    the same name under \<open>pool/\<close>; \<open>PoolClient\<close> is \<open>pool/client.rs\<close>, \<open>PoolNative\<close> is \<open>pool/client/native.rs\<close>,
    \<open>PoolAgent\<close> is \<open>pool_agent.rs\<close>; \<open>FreePool\<close>, \<open>PoolKeys\<close>, \<open>Redact\<close>, \<open>PendingMerge\<close> are the files of
    \<open>single-core\<close>.
  \<^item> \<open>Graph\<close>, \<open>Routing\<close>, \<open>EventLog\<close>, \<open>Sessions\<close>, \<open>Goals\<close>, \<open>Brain\<close>: the files of \<open>coordinator/\<close>;
    \<open>CoordSchema\<close>: their tables; \<open>Scheduler\<close>: the pure half of \<open>scheduler.rs\<close>, \<open>SchedulerShell\<close>: its
    half on the database, \<open>ShellFacts\<close>: the properties of that half; \<open>Coordinator\<close>: \<open>coordinator/mod.rs\<close>.
  \<^item> \<open>Utf8\<close>: strings by characters and bytes; \<open>TaskStore\<close>, \<open>Memory\<close>, \<open>Notes\<close>, \<open>KnowledgeGraph\<close>: the tables and
    operations of the files \<open>tasks\<close>, \<open>memory\<close>, \<open>notes\<close> and \<open>graph\<close> that PROJECT.json lists with them;
    \<open>Ratelimit\<close> and \<open>Fallback\<close>: the cooldowns of agents and the walk over their chains; \<open>TaskOutput\<close>,
    \<open>TaskHooks\<close>, \<open>TaskRegistry\<close>, \<open>AgentSlots\<close>, \<open>TaskRun\<close>: the run of a task; \<open>OrchGraph\<close>:
    \<open>orchestrate_graph.rs\<close>; \<open>Orchestrate\<close>: \<open>orchestrate.rs\<close>.
  \<^item> \<open>LspFraming\<close>: \<open>framing.rs\<close> of \<open>single-lsp\<close>; \<open>LspRouter\<close>, \<open>LspProxy\<close>: the router and the multiplexer of
    its \<open>proxy.rs\<close> with the loops of its \<open>main.rs\<close>; \<open>Permissions\<close>: \<open>permissions.rs\<close>, \<open>preferences.rs\<close> and
    the hook of \<open>single-cli/src/main.rs\<close>.
  \<^item> \<open>Registry\<close>: what the registries share, \<open>RegistryTables\<close>: their built-in tables, \<open>Registries\<close>: the modules
    \<open>mcp.rs\<close>, \<open>lsp.rs\<close>, \<open>tools.rs\<close>, \<open>plugins.rs\<close>, \<open>providers.rs\<close> and \<open>provider_keys.rs\<close> of \<open>single-core\<close>;
    \<open>SelfHeal\<close>: \<open>self_heal.rs\<close> and the three files of its directory.
  \<^item> \<open>GoalHandlers\<close>: the session and goal arms of \<open>dispatch\<close> in \<open>handlers.rs\<close> with their views of \<open>single-protocol\<close>;
    \<open>McpGateway\<close>: \<open>gateway.rs\<close> and \<open>distrobox.rs\<close> of \<open>single-mcp\<close>; \<open>McpServer\<close>: \<open>server.rs\<close> of \<open>singlecli-mcp\<close>.
  \<^item> \<open>FileTree\<close>: \<open>std::fs\<close> and \<open>std::path\<close> as far as they are used; \<open>AgentHome\<close>: \<open>agent_home.rs\<close>, \<open>Account\<close>: \<open>account.rs\<close>
    of \<open>single-core\<close> and the account arms of \<open>handlers.rs\<close>; \<open>Backup\<close>: \<open>backup.rs\<close> of \<open>single-core\<close>.
  \<^item> \<open>StrSplit\<close>: the splitting and trimming of \<open>str\<close> that a parser of requests uses; \<open>ServeOpenai\<close>: \<open>serve_openai.rs\<close> of \<open>single-cli\<close>.
  \<^item> this theory: the refinement of the graph by the rows, and the properties that span components.

  \<^bold>\<open>Conventions.\<close> A definition has the name of its function. A table is the list of its rows in insertion
  order and a connection is the record of the tables; an operation takes the state and returns it. An
  operation reads the clock once (\<open>ts\<close>, \<open>now_ms\<close>), where the code may read it twice within one call.
  Errors are \<open>Inl\<close>, panics are the constructor \<open>Panic\<close> of \<open>outcome\<close>. Machine integers are words where
  they wrap or saturate and \<open>nat\<close> or \<open>int\<close> where the code only counts rows or compares times; an \<open>f64\<close> is a
  rational or a real. A database statement succeeds, except where the code handles its failure: that
  is a flag of the operation. What is outside the program is a record of functions: \<open>net\<close> (HTTP, clock,
  sleep, parsers), \<open>vault\<close> (key chain, cipher, random source, Unicode lower case), \<open>agent_env\<close>,
  \<open>brain_env\<close>, \<open>shell_env\<close>, \<open>coord_env\<close>, \<open>heal_env\<close>, \<open>goal_env\<close>, \<open>gateway_env\<close>, \<open>server_env\<close>, \<open>home_env\<close>, \<open>account_env\<close>, \<open>backup_env\<close>, \<open>serve_env\<close>. A registry file is its parsed table, missing, or unreadable with an
  error, and a failed write leaves whatever it says; a directory is a table of files. What the code relies on there is a named predicate (\<open>ticking\<close>,
  \<open>advancing\<close>, \<open>vault_ok\<close>), and each property with such a hypothesis has a witness.

  \<^bold>\<open>Interfaces.\<close> \<open>str_enum\<close> (\<open>Graph\<close>) is the contract of the string enums, interpreted for every enum of
  the coordinator and of the task store; \<open>keyed_rows\<close> (\<open>CoordSchema\<close>) is what a lookup returns after an update of a keyed
  table, interpreted for every table; the components above use only its facts. \<open>dispatcher\<close> is what the
  scheduler relies on in a dispatch. \<open>named_registry\<close> is what a load returns after a save, interpreted
  for each of the six registries.

  \<^bold>\<open>Bounds and fuel.\<close> \<open>depth_of\<close> recurses with fuel one more than the graph has nodes;
  \<open>critical_path_correct\<close> shows that it is enough on every acyclic graph. \<open>next_free_key_id\<close> tries as many
  ids as there are keys and one more. The retry and poll loops of the client and the loop of the pool
  agent are \<open>partial_function (option)\<close>: \<open>run_as_task_returns\<close> shows that they return a value when the
  clock advances. The careful loop and the supervisor are bounded by \<open>careful_loop_ends\<close> and
  \<open>supervisor_fix_bound\<close>. \<open>task_execute\<close> is a \<open>partial_function\<close>, since a chain may send a task round in a
  circle; \<open>task_execute_returns\<close> says when it cannot. The depth-first walk of \<open>OrchGraph\<close> ends by its
  stack and the nodes not yet coloured, its waves by the nodes that remain.

  \<^bold>\<open>What the groups of lemmas show.\<close> Coordinator: a restart leaves no running node without a task, a
  dispatch backs its node, a tick keeps the caps, the budget and the readiness of what it starts and
  leaves no work that could start, patches keep graphs well formed, rows and graphs agree, planning,
  stop, start and resume keep goals and graphs. Pool: a candidate is admitted exactly while
  each recorded usage and the live leases are below its limits, benches follow the ladder and end exactly when they say, the agent accounts for each
  request it sends, tries each candidate at most once and always returns, redaction resolves back. Tasks: a run leaves the row
  settled, a cancelled thread is told, slots never exceed their limit, a background run does what a
  direct one does, the preamble stays in its budget. Orchestrations: a plan is refused exactly when it
  is not a graph, a run serves each node after its dependencies or says which thread failed, a relay hands each output on. Proxy:
  frames read back, every request is answered once in every interleaving, except after the race that
  \<open>LspStale\<close> exhibits. Permissions: the gate never guesses and the hook fails closed.
  Front end: no request without the key reaches an agent, and a connection starts at most one task.
  Registries: the synchronisation at a start respects what the user chose and moves no document to another server. Self-healing:
  a pass reports each of its steps, logs those whose insert succeeds and keeps its hard rules on goals and nodes. Requests: a submitted goal is redacted
  before it is stored, and handed the goal in flight that overlaps with it, an amendment keeps what the goal has done, a merge is decided once and run
  when a request says so. MCP: a tool runs, and a process starts for it, only when the rules allow that tool; a session lives as long as it is used.
  Accounts: a captured login is private, comes back with a switch and the one it replaces is kept, but the home of an agent is
  emptied of credentials at each use, which defeats the capture request for three agents. Backups: no archive makes an import write outside the
  root, and an archive gives back the files and secrets it was made of.

  \<^bold>\<open>Not modelled.\<close> Terminal and web interfaces, the command line, the ACP front end, the other
  requests of the daemon, the
  adapters and configuration formats of the individual agent programs, processes, Docker and file I/O;
  PROJECT.json lists each part with its reason.
\<close>

section \<open>The rows implement the graph\<close>

text \<open>What each write of the goal component means for the graph of goal \<open>i\<close>, without the tables.\<close>

fun graph_op :: "string \<Rightarrow> goal_op \<Rightarrow> task_graph \<Rightarrow> task_graph" where
  "graph_op i (OpClearStamps j) g = (if i = j then map (\<lambda>x. x\<lparr>nretry_at := None\<rparr>) g else g)"
| "graph_op i (OpClearPin j n) g =
     (if i = j then set_in_graph (\<lambda>x. x\<lparr>nagent := '''', nstatus := NsPending\<rparr>) n g else g)"
| "graph_op i (OpStamp j n t) g =
     (if i = j then set_in_graph (\<lambda>x. x\<lparr>nstatus := NsPending, nretry_at := t\<rparr>) n g else g)"
| "graph_op i (OpUpdateNode j n st t out a) g =
     (if i = j then set_in_graph (settle st t out a) n g else g)"
| "graph_op i (OpNodeDesc j n d) g =
     (if i = j then set_in_graph (\<lambda>x. x\<lparr>ndesc := d, ntask := None\<rparr>) n g else g)"
| "graph_op i (OpSaveGraph j h) g = (if i = j \<and> distinct (map nid h) then sort_key nid h else g)"
| "graph_op i _ g = g"

lemma load_save:
  "load_graph i (snd (save_graph js ts j h db)) =
     (if i = j \<and> distinct (map nid h) then sort_key nid h else load_graph i db)"
proof (cases "distinct (map nid h)")
  case True
  from save_graph_saves [OF this, of js ts j db] show ?thesis
    by (metis True snd_conv)
qed (simp add: save_graph_def)

text \<open>C8: the tables implement the graph: for every goal, each write of the goal component, and so
  any sequence of them, changes the loaded graph exactly as the operation on the graph value says.\<close>

theorem rows_refine_graph:
  "load_graph i (fold (\<lambda>(ts, op). run_goal_op js ts op) ops db) =
     fold (\<lambda>(ts, op). graph_op i op) ops (load_graph i db)"
proof -
  have one: "load_graph i (run_goal_op js ts op db) = graph_op i op (load_graph i db)" for ts op db
  proof (cases op)
    case OpPauseAll
    then show ?thesis by (simp add: pause_all_active_def load_graph_def)
  next
    case (OpSaveGraph j h)
    then show ?thesis by (simp add: load_save)
  next
    case (OpUpdateNode j n st t out a)
    then show ?thesis by (simp add: load_graph_update_node)
  qed (simp_all add: load_graph_clear_stamps load_graph_clear_pin load_graph_stamp load_graph_set_desc
      goal_write_defs Let_def frame_simps)
  show ?thesis by (induction ops arbitrary: db) (auto simp: one)
qed

section \<open>Texts of the enums\<close>

text \<open>The texts in the columns name the enum values: writing a value and parsing it gives it back,
  no other text parses to it, and a text that names none is refused with the enum and the text.\<close>

theorem enum_texts:
  "(node_kind_parse s = Inr k \<longleftrightarrow> s = node_kind_str k) \<and> (effort_parse s = Inr e \<longleftrightarrow> s = effort_str e) \<and>
   (node_status_parse s = Inr st \<longleftrightarrow> s = node_status_str st) \<and>
   (goal_mode_parse s = Inr m \<longleftrightarrow> s = goal_mode_str m) \<and>
   (goal_status_parse s = Inr gs \<longleftrightarrow> s = goal_status_str gs) \<and>
   (node_status_parse s = Inl msg \<longleftrightarrow> s \<notin> range node_status_str \<and> msg = ''unknown NodeStatus: '' @ s) \<and>
   (goal_status_parse s = Inl msg \<longleftrightarrow> s \<notin> range goal_status_str \<and> msg = ''unknown GoalStatus: '' @ s)"
  using node_kind.parse_Inr [of s k] effort.parse_Inr [of s e] node_status.parse_Inr [of s st]
    goal_mode.parse_Inr [of s m] goal_status.parse_Inr [of s gs] node_status.parse_Inl [of s msg]
    goal_status.parse_Inl [of s msg]
  by (simp add: node_kind_parse_def effort_parse_def node_status_parse_def goal_mode_parse_def goal_status_parse_def)

section \<open>Raising a cap\<close>

text \<open>A goal blocked by its dispatch budget that is given a higher cap is running again, and the
  scheduler no longer finds that budget spent, unless its time is up; a time cap past the minutes
  that have elapsed does the same for the time.\<close>

theorem raised_cap_reopens:
  assumes row: "goal_row i db = Some r" and blocked: "g_status r = ''blocked''"
    and g: "goal_get i (raise_dispatch_cap ts i c db) = Some g" and more: "g_dispatches r < c"
    and h: "goal_get i (raise_time_cap ts i m db) = Some h"
    and later: "num_minutes (se_now env - unwrap_or (se_parse_ts env (g_created_at r)) (se_now env)) < int m"
      "0 < m"
  shows "g_status g = GsRunning \<and> g_blocked_reason g = None \<and> g_status h = GsRunning \<and>
    (exhausted (SchedulerShell.goal_budget env cfg g) = None \<or>
     int (b_max_minutes (SchedulerShell.goal_budget env cfg g)) \<le>
       num_minutes (se_now env - unwrap_or (se_parse_ts env (g_created_at r)) (se_now env))) \<and>
    (exhausted (SchedulerShell.goal_budget env cfg h) = None \<or>
     b_max_dispatches (SchedulerShell.goal_budget env cfg h) \<le> g_dispatches r)"
proof -
  let ?r = "r\<lparr>g_max_dispatches := c, g_status := ''running'', g_blocked_reason := None, g_updated_at := ts\<rparr>"
  let ?q = "r\<lparr>g_max_minutes := m, g_status := ''running'', g_blocked_reason := None, g_updated_at := ts\<rparr>"
  have gr: "g = row_to_goal ?r" and hr: "h = row_to_goal ?q"
    using row blocked g h
    by (simp_all add: goal_get_def raise_dispatch_cap_def raise_time_cap_def goals.get_upd reopened_def)
  have run: "parse_or goal_status_parse GsPlanning ''running'' = GsRunning"
    using parse_or_str(5) [of GsPlanning GsRunning] by simp
  show ?thesis
    using more later unfolding gr hr
    by (auto simp: row_to_goal_def run SchedulerShell.goal_budget_def exhausted_def Let_def)
qed

theorem raised_cap_reopens_witness:
  "\<exists>g. goal_get ''g'' (raise_dispatch_cap ''t'' ''g'' 30 (demo_db\<lparr>db_goals := [demo_goal\<lparr>g_status := ''blocked''\<rparr>]\<rparr>)) = Some g \<and>
     g_status g = GsRunning"
proof -
  let ?r = "demo_goal\<lparr>g_status := ''blocked''\<rparr>"
  let ?db = "demo_db\<lparr>db_goals := [?r]\<rparr>"
  have row: "goal_row ''g'' ?db = Some ?r" by (simp add: goal_row_def demo_goal_def)
  then obtain g h where gh: "goal_get ''g'' (raise_dispatch_cap ''t'' ''g'' 30 ?db) = Some g"
    "goal_get ''g'' (raise_time_cap ''t'' ''g'' 90 ?db) = Some h"
    by (simp add: goal_get_def raise_dispatch_cap_def raise_time_cap_def goals.get_upd)
  have "num_minutes (se_now demo_env - unwrap_or (se_parse_ts demo_env (g_created_at ?r)) (se_now demo_env)) < int 90"
    by (simp add: demo_env_def num_minutes_def)
  from raised_cap_reopens [OF row _ gh(1) _ gh(2) this] gh(1) show ?thesis by (auto simp: demo_goal_def)
qed

section \<open>From the pool agent to the scheduler\<close>

lemma exhausted_text_found: "looks_like_unavailable u (newline @ ''single-pool: rate limited '' @ s)"
proof -
  have "map ascii_lower ''rate limit'' \<in> set (SIGNALS @ AUTH_FAILURE_SIGNALS)" "list_all is_ascii_byte ''rate limit''"
    "\<not> is_cont_byte (hd (''ed '' @ s))" by (simp_all add: SIGNALS_def is_ascii_byte_def is_cont_byte_def ascii_lower_def)
  from signal_found [OF this(1,2), of "''ed '' @ s" u "newline @ ''single-pool: ''"] this(3) show ?thesis by simp
qed

text \<open>The file that a settled run leaves, its row, and the recovery time in it.\<close>

lemma files_after [simp]:
  "rs_files (remember_failure ts i agent project description detail st) = rs_files st" "rs_files (on_db f st) = rs_files st"
  by (simp_all add: remember_failure_def on_db_def split: outcome.split prod.split)

lemma settled_run:
  assumes "te_write env (task_artifact_path env i) = Inr ()" "task_sql_get i (rs_db st) = Some row"
  shows "\<exists>answer st'. settle_run env i opts la (Inr ro) w st = (answer, st') \<and>
    rs_files st' = rs_files st @ [(task_artifact_path env i, ro_stdout ro @ newline @ ''--- stderr ---'' @ newline @ ro_stderr ro)] \<and>
    (\<exists>row'. task_sql_get i (rs_db st') = Some row' \<and> t_status row' = TaskStore.status_as_str (end_status ro) \<and>
       t_rate_limited row' = of_bool (run_rate_limited (te_unicode env) ro) \<and> t_artifact_path row' = Some (task_artifact_path env i))"
proof -
  obtain answer st' where s: "settle_run env i opts la (Inr ro) w st = (answer, st')" by force
  let ?sm = "summarize (te_unicode env) (ro_stdout ro) (ro_stderr ro) (ro_timed_out ro) (ro_exit_code ro)"
  let ?wt = "if op_use_worktree opts then Some (la_cwd la) else None"
  have st': "rs_db st' = record_run env (te_now env w) i opts la ?wt ro ?sm (rs_db st)"
    "rs_files st' = rs_files st @ [(task_artifact_path env i, ro_stdout ro @ newline @ ''--- stderr ---'' @ newline @ ro_stderr ro)]"
    using s assms(1) by (auto simp: settle_run_def Let_def split: if_splits)
  obtain row' where row': "task_sql_get i (rs_db st') = Some row'" "t_status row' = TaskStore.status_as_str (end_status ro)"
      "t_rate_limited row' = of_bool (run_rate_limited (te_unicode env) ro)"
    using record_run_row [OF assms(2)] unfolding st'(1) by blast
  obtain p c est where tok: "run_tokens env opts la ro = (p, c, est)" by (metis prod_cases3)
  have "t_artifact_path row' = Some (task_artifact_path env i)"
    using row'(1) assms(2) unfolding st'(1) by (auto simp: record_run_def tok finish_def record_token_usage_def tasks.get_upd)
  with s st'(2) row' show ?thesis by blast
qed

lemma drop_append_twice: "drop (length xs + length ys) (xs @ ys @ zs) = zs"
  by simp

lemma recovery_in_artifact:
  assumes "int ms \<le> i64_max"
  shows "parse_earliest_recovery_ms (newline @ ''--- stderr ---'' @ newline @ ''single-pool: rate limited '' @ [CHR 0xE2, CHR 0x80, CHR 0x94] @
     '' every keyed provider is exhausted or benched, earliest recovery at '' @ dec_nat ms) = Some (int ms)"
proof -
  let ?pre = "newline @ ''--- stderr ---'' @ newline @ ''single-pool: rate limited '' @ [CHR 0xE2, CHR 0x80, CHR 0x94] @
     '' every keyed provider is exhausted or benched, ''"
  have "find_sub ''earliest recovery at '' (?pre @ ''earliest recovery at '' @ dec_nat ms) = Some (length ?pre)"
    by (simp add: starts_with_def newline_def)
  moreover have "takeWhile is_digit (dec_nat ms) = dec_nat ms" using dec_nat_digits [of ms] by (simp add: list_all_iff takeWhile_eq_all_conv)
  ultimately have "parse_earliest_recovery_ms (?pre @ ''earliest recovery at '' @ dec_nat ms) = Some (int ms)"
    using assms dec_nat_nonempty [of ms] unfolding parse_earliest_recovery_ms_def Let_def
    by (simp only: option.case drop_append_twice) (simp add: parse_i64_digits_def)
  then show ?thesis by simp
qed

lemma held_until:
  assumes "goal_row g db = Some r" "se_read_file env artifact = Some body" "parse_earliest_recovery_ms body = Some e"
    and "g_capacity_waits r < unwrap_or (g_capacity_budget r) (max_capacity_waits_per_goal cfg)"
    and "num_minutes (se_now env - unwrap_or (se_parse_ts env (g_created_at r)) (se_now env)) <
      int (unwrap_or (g_capacity_minutes r) (max_capacity_wait_minutes cfg))"
  shows "\<exists>r'. goal_row g (handle_capacity_exhaustion env (row_to_goal r) n (Some artifact) cfg db) = Some r' \<and>
    g_status r' = ''waiting_on_capacity'' \<and> g_retry_at r' = Some e"
proof -
  have i: "g_id r = g" using assms(1) by (rule goals.get_key)
  show ?thesis using assms
    by (simp add: handle_capacity_exhaustion_def Let_def frame_simps i set_waiting_on_capacity_def stamp_node_retry_def goals.get_upd)
qed

text \<open>C15: when the pool agent runs out of candidates, the task it ran for is settled as failed and rate limited, and the
  artifact that the task keeps, its two outputs in one file, is one from which the scheduler reads exactly the recovery time
  that the agent computed: a goal with waits left is held until then.\<close>

theorem exhausted_run_recovery:
  assumes "resolve_aliases va (net_wall_ms net w) prompt rd w = (Inr p, rd1, w1)"
    and "execute (real_env net va insert_ok) p Balanced (candidates_from_keys (po_keys st)) session st w1 =
      Some (Ret (Inr (Exhausted e)), st2, w2)"
    and "0 \<le> e" "e \<le> i64_max"
    and task: "te_write env (task_artifact_path env i) = Inr ()" "task_sql_get i (rs_db rst) = Some row"
  shows "\<exists>ro answer rst' body. run_as_task net va insert_ok prompt session st rd w = Some (Ret (Inr ro), st2, rd1, w2) \<and>
    settle_run env i opts la (Inr ro) w3 rst = (answer, rst') \<and>
    rs_files rst' = rs_files rst @ [(task_artifact_path env i, body)] \<and>
    (\<exists>row'. task_sql_get i (rs_db rst') = Some row' \<and> t_status row' = ''failed'' \<and> t_rate_limited row' = 1 \<and>
       t_artifact_path row' = Some (task_artifact_path env i)) \<and>
    (\<forall>senv g r n cfg db. goal_row g db = Some r \<and> se_read_file senv (task_artifact_path env i) = Some body \<and>
       g_capacity_waits r < unwrap_or (g_capacity_budget r) (max_capacity_waits_per_goal cfg) \<and>
       num_minutes (se_now senv - unwrap_or (se_parse_ts senv (g_created_at r)) (se_now senv)) <
         int (unwrap_or (g_capacity_minutes r) (max_capacity_wait_minutes cfg)) \<longrightarrow>
       (\<exists>r'. goal_row g (handle_capacity_exhaustion senv (row_to_goal r) n (Some (task_artifact_path env i)) cfg db) = Some r' \<and>
          g_status r' = ''waiting_on_capacity'' \<and> g_retry_at r' = Some e))"
proof -
  have e: "int (nat e) \<le> i64_max" "dec_int e = dec_nat (nat e)" using assms(3,4) by (simp_all add: dec_int_def)
  obtain ro where ro: "run_as_task net va insert_ok prompt session st rd w = Some (Ret (Inr ro), st2, rd1, w2)"
      "end_status ro = TsFailed" "ro_stdout ro = []" "run_rate_limited (te_unicode env) ro"
      "ro_stderr ro = ''single-pool: rate limited '' @ [CHR 0xE2, CHR 0x80, CHR 0x94] @
         '' every keyed provider is exhausted or benched, earliest recovery at '' @ dec_nat (nat e)"
    using assms(1,2) by (auto simp: run_as_task_def Let_def end_status_def run_rate_limited_def run_failed_def e(2) exhausted_text_found [simplified])
  let ?body = "ro_stdout ro @ newline @ ''--- stderr ---'' @ newline @ ro_stderr ro"
  have "parse_earliest_recovery_ms ?body = Some e"
    unfolding ro(3,5) append_Nil using recovery_in_artifact [OF e(1)] assms(3) by simp
  moreover obtain answer rst' where "settle_run env i opts la (Inr ro) w3 rst = (answer, rst')"
      "rs_files rst' = rs_files rst @ [(task_artifact_path env i, ?body)]"
      "\<exists>row'. task_sql_get i (rs_db rst') = Some row' \<and> t_status row' = TaskStore.status_as_str (end_status ro) \<and>
         t_rate_limited row' = of_bool (run_rate_limited (te_unicode env) ro) \<and> t_artifact_path row' = Some (task_artifact_path env i)"
    using settled_run [OF task] by blast
  ultimately show ?thesis using ro(1,2,4) held_until by (intro exI [of _ ro] exI [of _ answer] exI [of _ rst'] exI [of _ ?body]) auto
qed


theorem exhausted_run_recovery_witness:
  "\<exists>ro rd st2 answer rst' body r'.
     run_as_task slow_net no_vault True ''hi'' None probe_pool no_aliases 7 = Some (Ret (Inr ro), st2, rd, 7) \<and>
     settle_run (demo_task_env (Inr ()) []) 1 (demo_opts ''single-pool'')
       \<lparr>la_cwd = ''/tmp'', la_project = None, la_prompt = ''hi'', la_home = None, la_container = None\<rparr> (Inr ro) 5 demo_run = (answer, rst') \<and>
     rs_files rst' = [(task_artifact_path (demo_task_env (Inr ()) []) 1, body)] \<and>
     goal_row ''g'' (handle_capacity_exhaustion (demo_env\<lparr>se_brain := (se_brain demo_env)\<lparr>be_read_file := (\<lambda>_. Some body)\<rparr>\<rparr>) (row_to_goal (demo_goal\<lparr>g_capacity_waits := 0\<rparr>))
       ''a'' (Some (task_artifact_path (demo_task_env (Inr ()) []) 1)) default_config
       (demo_db\<lparr>db_goals := [demo_goal\<lparr>g_capacity_waits := 0\<rparr>]\<rparr>)) = Some r' \<and> g_retry_at r' = Some 7"
proof -
  let ?env = "demo_task_env (Inr ()) []" and ?goal = "demo_goal\<lparr>g_capacity_waits := 0\<rparr>"
  have r: "resolve_aliases no_vault (net_wall_ms slow_net 7) ''hi'' no_aliases 7 = (Inr ''hi'', no_aliases, 7)"
  proof -
    have "find_alias_tokens 0 ''hi'' = []" by code_simp
    then show ?thesis by (simp add: resolve_aliases_def)
  qed
  have "candidates_from_keys (po_keys probe_pool) = []"
    by (simp add: probe_pool_def candidates_from_keys_def list_keys_def map_filter_def)
  then have e: "execute (real_env slow_net no_vault True) ''hi'' Balanced (candidates_from_keys (po_keys probe_pool)) None
      probe_pool 7 = Some (Ret (Inr (Exhausted 7)), probe_pool\<lparr>po_samples := po_samples probe_pool\<rparr>, 7)"
    by (simp add: execute_def execute_loop.simps pick_def real_env_def slow_net_def)
  obtain row where row: "task_sql_get 1 (rs_db demo_run) = Some row" using demo_run_db(2) by blast
  have w: "te_write ?env (task_artifact_path ?env 1) = Inr ()" by (simp add: demo_task_env_def)
  have lim: "(0 :: int) \<le> 7" "7 \<le> i64_max" by (simp_all add: i64_max_def)
  have goal: "goal_row ''g'' (demo_db\<lparr>db_goals := [?goal]\<rparr>) = Some ?goal" by (simp add: goal_row_def demo_goal_def)
  have room: "g_capacity_waits ?goal < unwrap_or (g_capacity_budget ?goal) (max_capacity_waits_per_goal default_config)"
    "num_minutes (se_now demo_env - unwrap_or (se_parse_ts demo_env (g_created_at ?goal)) (se_now demo_env)) <
       int (unwrap_or (g_capacity_minutes ?goal) (max_capacity_wait_minutes default_config))"
    by (simp_all add: demo_goal_def demo_env_def default_config_def unwrap_or_def num_minutes_def
        default_max_capacity_waits_per_goal_def default_max_capacity_wait_minutes_def)
  have files: "rs_files demo_run = []" by (simp add: demo_run_def)
  obtain ro answer rst' body where run: "run_as_task slow_net no_vault True ''hi'' None probe_pool no_aliases 7 =
      Some (Ret (Inr ro), probe_pool\<lparr>po_samples := po_samples probe_pool\<rparr>, no_aliases, 7)"
    "settle_run ?env 1 (demo_opts ''single-pool'')
       \<lparr>la_cwd = ''/tmp'', la_project = None, la_prompt = ''hi'', la_home = None, la_container = None\<rparr> (Inr ro) 5 demo_run = (answer, rst')"
    "rs_files rst' = [(task_artifact_path ?env 1, body)]"
    and held: "\<forall>senv g r n cfg db. goal_row g db = Some r \<and> se_read_file senv (task_artifact_path ?env 1) = Some body \<and>
       g_capacity_waits r < unwrap_or (g_capacity_budget r) (max_capacity_waits_per_goal cfg) \<and>
       num_minutes (se_now senv - unwrap_or (se_parse_ts senv (g_created_at r)) (se_now senv)) <
         int (unwrap_or (g_capacity_minutes r) (max_capacity_wait_minutes cfg)) \<longrightarrow>
       (\<exists>r'. goal_row g (handle_capacity_exhaustion senv (row_to_goal r) n (Some (task_artifact_path ?env 1)) cfg db) = Some r' \<and>
          g_status r' = ''waiting_on_capacity'' \<and> g_retry_at r' = Some 7)"
    using exhausted_run_recovery [OF r e lim w row, unfolded files append_Nil] by blast
  have "\<exists>r'. goal_row ''g'' (handle_capacity_exhaustion (demo_env\<lparr>se_brain := (se_brain demo_env)\<lparr>be_read_file := (\<lambda>_. Some body)\<rparr>\<rparr>) (row_to_goal ?goal)
       ''a'' (Some (task_artifact_path ?env 1)) default_config (demo_db\<lparr>db_goals := [?goal]\<rparr>)) = Some r' \<and> g_retry_at r' = Some 7"
    using held [rule_format, of "''g''" "demo_db\<lparr>db_goals := [?goal]\<rparr>" ?goal "demo_env\<lparr>se_brain := (se_brain demo_env)\<lparr>be_read_file := (\<lambda>_. Some body)\<rparr>\<rparr>" default_config "''a''"]
      goal room by auto
  with run show ?thesis by blast
qed

end
